(* ===== verification/Rivus_Prelude.thy ===== *)
theory Rivus_Prelude
  imports Complex_Main "HOL-Library.Word" "HOL-Library.Char_ord" "HOL-Library.List_Lexorder"
    "HOL-Library.Product_Lexorder"
begin

text \<open>
  The prelude of the development: the parts of the Go standard library that the modelled code
  calls on strings and numbers, the reading of SQL tables as lists of rows, and the generic
  lemmas about them that the component theories share.

  A Go string is a byte string; the model reads it as an Isabelle string and gives the \<open>strings\<close>
  functions their meaning on ASCII text (\<open>TrimSpace\<close> removes the six ASCII white-space bytes,
  \<open>ToLower\<close> maps the letters A to Z). Times are integers in microseconds.
\<close>

named_theorems table_simps \<open>equations of the table operations\<close>
named_theorems frame_simps \<open>components of a state an operation leaves unchanged\<close>

section \<open>Strings\<close>

definition is_space :: "char \<Rightarrow> bool" where
  "is_space c \<longleftrightarrow> c = CHR 0x20 \<or> c = CHR 0x09 \<or> c = CHR 0x0A \<or> c = CHR 0x0B \<or> c = CHR 0x0C \<or> c = CHR 0x0D"

definition trim_space :: "string \<Rightarrow> string" where
  "trim_space s = rev (dropWhile is_space (rev (dropWhile is_space s)))"

definition lower_char :: "char \<Rightarrow> char" where
  "lower_char c = (let n = (of_char c :: nat) in if 65 \<le> n \<and> n \<le> 90 then char_of (n + 32) else c)"

definition upper_char :: "char \<Rightarrow> char" where
  "upper_char c = (let n = (of_char c :: nat) in if 97 \<le> n \<and> n \<le> 122 then char_of (n - 32) else c)"

definition to_lower :: "string \<Rightarrow> string" where
  "to_lower s = map lower_char s"

definition to_upper :: "string \<Rightarrow> string" where
  "to_upper s = map upper_char s"

definition equal_fold :: "string \<Rightarrow> string \<Rightarrow> bool" where
  "equal_fold a b \<longleftrightarrow> to_lower a = to_lower b"

definition has_prefix :: "string \<Rightarrow> string \<Rightarrow> bool" where
  "has_prefix p s \<longleftrightarrow> take (length p) s = p"

fun str_contains :: "string \<Rightarrow> string \<Rightarrow> bool" where
  "str_contains p [] = (p = [])"
| "str_contains p (c # s) = (has_prefix p (c # s) \<or> str_contains p s)"

fun last_index :: "char \<Rightarrow> string \<Rightarrow> nat option" where
  "last_index c [] = None"
| "last_index c (x # xs) =
     (case last_index c xs of Some i \<Rightarrow> Some (Suc i) | None \<Rightarrow> if x = c then Some 0 else None)"

fun str_join :: "string \<Rightarrow> string list \<Rightarrow> string" where
  "str_join sep [] = []"
| "str_join sep [s] = s"
| "str_join sep (s # t # ss) = s @ sep @ str_join sep (t # ss)"

lemma is_space_trim_hd: "trim_space s = c # cs \<Longrightarrow> \<not> is_space c"
proof -
  assume a: "trim_space s = c # cs"
  let ?d = "dropWhile is_space s"
  have suf: "\<exists>ys. ?d = trim_space s @ ys"
  proof -
    have "rev ?d = takeWhile is_space (rev ?d) @ dropWhile is_space (rev ?d)" by simp
    then have "?d = rev (dropWhile is_space (rev ?d)) @ rev (takeWhile is_space (rev ?d))"
      by (metis rev_append rev_rev_ident)
    then show ?thesis unfolding trim_space_def by blast
  qed
  with a obtain ys where "?d = c # (cs @ ys)" by auto
  then show ?thesis by (metis hd_dropWhile list.sel(1) list.distinct(1))
qed

lemma trim_space_idem [simp]: "trim_space (trim_space s) = trim_space s"
proof -
  have hd: "dropWhile is_space (trim_space s) = trim_space s"
    by (cases "trim_space s") (auto dest: is_space_trim_hd)
  have "dropWhile is_space (rev (trim_space s)) = rev (trim_space s)"
    unfolding trim_space_def by simp
  with hd show ?thesis by (metis rev_rev_ident trim_space_def)
qed

lemma trim_space_Nil [simp]: "trim_space [] = []"
  by (simp add: trim_space_def)

lemma of_char_less [simp]: "(of_char c :: nat) < 256"
  by (metis nat_of_char_less_256)

lemma lower_char_idem [simp]: "lower_char (lower_char c) = lower_char c"
proof -
  have "(of_char (lower_char c) :: nat) \<notin> {65..90}"
    by (simp add: lower_char_def Let_def)
  then have "\<not> (65 \<le> (of_char (lower_char c) :: nat) \<and> (of_char (lower_char c) :: nat) \<le> 90)" by auto
  then show ?thesis by (subst lower_char_def) (simp only: Let_def if_False)
qed

lemma to_lower_idem [simp]: "to_lower (to_lower s) = to_lower s"
  by (simp add: to_lower_def)

lemma length_to_lower [simp]: "length (to_lower s) = length s"
  by (simp add: to_lower_def)

lemma to_lower_Nil_iff [simp]: "to_lower s = [] \<longleftrightarrow> s = []"
  by (simp add: to_lower_def)

lemma equal_fold_refl [simp]: "equal_fold s s"
  by (simp add: equal_fold_def)

lemma equal_fold_sym: "equal_fold a b \<longleftrightarrow> equal_fold b a"
  by (auto simp: equal_fold_def)

lemma last_index_less: "last_index c s = Some i \<Longrightarrow> i < length s"
  by (induction s arbitrary: i) (auto split: option.splits if_splits)

lemma last_index_nth: "last_index c s = Some i \<Longrightarrow> s ! i = c"
  by (induction s arbitrary: i) (auto split: option.splits if_splits)

lemma last_index_None: "last_index c s = None \<longleftrightarrow> c \<notin> set s"
  by (induction s) (auto split: option.splits)

lemma last_index_append:
  assumes "c \<notin> set t" shows "last_index c (s @ c # t) = Some (length s)"
proof (induction s)
  case Nil
  from assms show ?case by (simp add: last_index_None [THEN iffD2])
qed simp

section \<open>Decimal numbers\<close>

definition is_digit :: "char \<Rightarrow> bool" where
  "is_digit c \<longleftrightarrow> 48 \<le> (of_char c :: nat) \<and> (of_char c :: nat) \<le> 57"

definition digit_char :: "nat \<Rightarrow> char" where
  "digit_char d = char_of (48 + d)"

fun digits_value :: "nat \<Rightarrow> string \<Rightarrow> nat option" where
  "digits_value acc [] = Some acc"
| "digits_value acc (c # cs) =
     (if is_digit c then digits_value (10 * acc + (of_char c - 48)) cs else None)"

text \<open>\<open>strconv.ParseUint (s, 10, 64)\<close>: no sign, at least one digit, the value fits 64 bits.\<close>

definition parse_uint64 :: "string \<Rightarrow> nat option" where
  "parse_uint64 s =
     (if s = [] then None
      else case digits_value 0 s of None \<Rightarrow> None | Some n \<Rightarrow> if n < 2 ^ 64 then Some n else None)"

text \<open>\<open>strconv.Atoi\<close>: an optional sign, then digits, the value fits a 64-bit int.\<close>

definition atoi :: "string \<Rightarrow> int option" where
  "atoi s =
     (let (neg, ds) = (case s of [] \<Rightarrow> (False, [])
                       | c # cs \<Rightarrow> if c = CHR ''-'' then (True, cs)
                                   else if c = CHR ''+'' then (False, cs) else (False, c # cs))
      in if ds = [] then None
         else case digits_value 0 ds of
                None \<Rightarrow> None
              | Some n \<Rightarrow> let v = (if neg then - int n else int n)
                          in if - (2 ^ 63) \<le> v \<and> v < 2 ^ 63 then Some v else None)"

fun show_nat :: "nat \<Rightarrow> string" where
  "show_nat n = (if n < 10 then [digit_char n] else show_nat (n div 10) @ [digit_char (n mod 10)])"

declare show_nat.simps [simp del]

definition show_int :: "int \<Rightarrow> string" where
  "show_int i = (if i < 0 then CHR ''-'' # show_nat (nat (- i)) else show_nat (nat i))"

lemma of_char_digit: "d < 10 \<Longrightarrow> (of_char (digit_char d) :: nat) = 48 + d"
  by (simp add: digit_char_def)

lemma is_digit_digit_char [simp]: "d < 10 \<Longrightarrow> is_digit (digit_char d)"
  by (simp add: is_digit_def of_char_digit)

lemma digits_value_append:
  "digits_value acc (s @ t) =
     (case digits_value acc s of None \<Rightarrow> None | Some a \<Rightarrow> digits_value a t)"
  by (induction s arbitrary: acc) auto

lemma digits_value_show_nat: "digits_value 0 (show_nat n) = Some n"
proof (induction n rule: show_nat.induct)
  case (1 n)
  show ?case
  proof (cases "n < 10")
    case True
    then show ?thesis by (simp add: show_nat.simps [of n] of_char_digit)
  next
    case False
    with 1 have "digits_value 0 (show_nat (n div 10)) = Some (n div 10)" by simp
    with False show ?thesis
      by (simp add: show_nat.simps [of n] digits_value_append of_char_digit)
  qed
qed

lemma show_nat_nonempty [simp]: "show_nat n \<noteq> []"
  by (simp add: show_nat.simps [of n])

lemma show_nat_digits: "c \<in> set (show_nat n) \<Longrightarrow> is_digit c"
proof (induction n rule: show_nat.induct)
  case (1 n)
  then show ?case
    by (cases "n < 10") (auto simp: show_nat.simps [of n])
qed

lemma parse_uint64_show_nat: "n < 2 ^ 64 \<Longrightarrow> parse_uint64 (show_nat n) = Some n"
  by (simp add: parse_uint64_def digits_value_show_nat)

lemma not_digit_dot [simp]: "\<not> is_digit (CHR ''.'')"
  by (simp add: is_digit_def)

lemma show_nat_inj: "show_nat a = show_nat b \<Longrightarrow> a = b"
  by (metis digits_value_show_nat option.inject)

section \<open>Tables as lists of rows\<close>

text \<open>
  A table that the code scans or orders is the list of its rows. \<open>UPDATE \<dots> WHERE\<close>,
  \<open>DELETE \<dots> WHERE\<close> and \<open>INSERT \<dots> ON DUPLICATE KEY UPDATE\<close> become the three operations below;
  an \<open>UPDATE\<close> reports how many rows matched its predicate.
\<close>

definition tbl_update :: "('r \<Rightarrow> bool) \<Rightarrow> ('r \<Rightarrow> 'r) \<Rightarrow> 'r list \<Rightarrow> 'r list" where
  "tbl_update P f t = map (\<lambda>r. if P r then f r else r) t"

definition tbl_matched :: "('r \<Rightarrow> bool) \<Rightarrow> 'r list \<Rightarrow> nat" where
  "tbl_matched P t = length (filter P t)"

definition tbl_delete :: "('r \<Rightarrow> bool) \<Rightarrow> 'r list \<Rightarrow> 'r list" where
  "tbl_delete P t = filter (\<lambda>r. \<not> P r) t"

definition tbl_upsert :: "('r \<Rightarrow> 'k) \<Rightarrow> ('r \<Rightarrow> 'r) \<Rightarrow> 'r \<Rightarrow> 'r list \<Rightarrow> 'r list" where
  "tbl_upsert key f new t =
     (if \<exists>r\<in>set t. key r = key new then tbl_update (\<lambda>r. key r = key new) f t else t @ [new])"

definition tbl_find :: "('r \<Rightarrow> 'k) \<Rightarrow> 'k \<Rightarrow> 'r list \<Rightarrow> 'r option" where
  "tbl_find key k t = find (\<lambda>r. key r = k) t"

lemma tbl_find_Nil [table_simps]: "tbl_find key k [] = None"
  by (simp add: tbl_find_def)

lemma tbl_find_Cons [table_simps]:
  "tbl_find key k (r # t) = (if key r = k then Some r else tbl_find key k t)"
  by (simp add: tbl_find_def)

lemma tbl_find_Some_key: "tbl_find key k t = Some r \<Longrightarrow> key r = k \<and> r \<in> set t"
  by (induction t) (auto simp: table_simps split: if_splits)

lemma tbl_find_None_iff: "tbl_find key k t = None \<longleftrightarrow> k \<notin> key ` set t"
  by (induction t) (auto simp: table_simps)

lemma tbl_find_unique:
  "distinct (map key t) \<Longrightarrow> r \<in> set t \<Longrightarrow> tbl_find key (key r) t = Some r"
  by (induction t) (auto simp: table_simps image_iff)

lemma tbl_matched_pos: "0 < tbl_matched P t \<longleftrightarrow> (\<exists>r\<in>set t. P r)"
  by (auto simp: tbl_matched_def length_greater_0_conv filter_empty_conv)

lemma set_tbl_delete [simp]: "set (tbl_delete P t) = {r \<in> set t. \<not> P r}"
  by (simp add: tbl_delete_def)

lemma length_tbl_update [simp]: "length (tbl_update P f t) = length t"
  by (simp add: tbl_update_def)

lemma set_tbl_update: "set (tbl_update P f t) = (\<lambda>r. if P r then f r else r) ` set t"
  by (simp add: tbl_update_def)

lemma map_key_tbl_update:
  "(\<And>r. P r \<Longrightarrow> key (f r) = key r) \<Longrightarrow> map key (tbl_update P f t) = map key t"
  by (simp add: tbl_update_def)

lemma tbl_find_update:
  assumes "\<And>r. P r \<Longrightarrow> key (f r) = key r"
  shows "tbl_find key k (tbl_update P f t) =
     map_option (\<lambda>r. if P r then f r else r) (tbl_find key k t)"
  using assms by (induction t) (auto simp: tbl_update_def table_simps)

lemma tbl_find_append:
  "tbl_find key k (s @ t) = (case tbl_find key k s of None \<Rightarrow> tbl_find key k t | Some r \<Rightarrow> Some r)"
  by (induction s) (auto simp: table_simps)

lemma tbl_find_upsert:
  assumes "\<And>r. key (f r) = key r"
  shows "tbl_find key k (tbl_upsert key f new t) =
     (if k = key new then Some (case tbl_find key k t of None \<Rightarrow> new | Some r \<Rightarrow> f r)
      else tbl_find key k t)"
proof (cases "\<exists>r\<in>set t. key r = key new")
  case True
  then have "key new \<in> key ` set t" by (metis imageI)
  then have "tbl_find key (key new) t \<noteq> None" by (simp add: tbl_find_None_iff)
  with True assms show ?thesis
    by (cases "tbl_find key k t")
      (auto simp: tbl_upsert_def tbl_find_update dest: tbl_find_Some_key)
next
  case False
  then have "tbl_find key (key new) t = None" by (auto simp: tbl_find_None_iff)
  with False show ?thesis
    by (auto simp: tbl_upsert_def tbl_find_append table_simps split: option.splits)
qed

lemma distinct_tbl_upsert:
  assumes "distinct (map key t)" "\<And>r. key (f r) = key r"
  shows "distinct (map key (tbl_upsert key f new t))"
  using assms by (auto simp: tbl_upsert_def map_key_tbl_update)

lemma distinct_tbl_delete: "distinct (map key t) \<Longrightarrow> distinct (map key (tbl_delete P t))"
  by (simp add: tbl_delete_def distinct_map_filter)

lemma tbl_find_delete:
  assumes "distinct (map key t)"
  shows "tbl_find key k (tbl_delete P t) =
     (case tbl_find key k t of None \<Rightarrow> None | Some r \<Rightarrow> if P r then None else Some r)"
  using assms
proof (induction t)
  case (Cons a t)
  have "key a = k \<Longrightarrow> tbl_find key k t = None"
    using Cons.prems by (auto simp: tbl_find_None_iff)
  then have "key a = k \<Longrightarrow> tbl_find key k (tbl_delete P t) = None"
    using Cons by simp
  moreover have "tbl_delete P (a # t) = (if P a then tbl_delete P t else a # tbl_delete P t)"
    by (simp add: tbl_delete_def)
  ultimately show ?case using Cons by (auto simp: table_simps split: option.splits)
qed (simp add: tbl_delete_def table_simps)

lemma tbl_matched_update_row:
  "tbl_matched P t = 0 \<Longrightarrow> tbl_update P f t = t"
  by (induction t) (auto simp: tbl_matched_def tbl_update_def split: if_splits)

section \<open>The interface of a keyed table\<close>

text \<open>
  The laws a table with a primary key gives its clients: what a lookup returns after a write or a
  delete. The stores of the development are interpreted against it, and its consequences are proved
  once.
\<close>

locale keyed_store =
  fixes lookup :: "'s \<Rightarrow> 'k \<Rightarrow> 'v option"
    and put :: "'k \<Rightarrow> 'v \<Rightarrow> 's \<Rightarrow> 's"
    and del :: "'k \<Rightarrow> 's \<Rightarrow> 's"
  assumes lookup_put: "lookup (put k v s) k' = (if k' = k then Some v else lookup s k')"
    and lookup_del: "lookup (del k s) k' = (if k' = k then None else lookup s k')"
begin

lemma lookup_put_same: "lookup (put k v s) k = Some v"
  by (simp add: lookup_put)

lemma lookup_put_other: "k' \<noteq> k \<Longrightarrow> lookup (put k v s) k' = lookup s k'"
  by (simp add: lookup_put)

lemma lookup_del_same: "lookup (del k s) k = None"
  by (simp add: lookup_del)

lemma put_put_lookup: "lookup (put k v (put k w s)) = lookup (put k v s)"
  by (rule ext) (simp add: lookup_put)

lemma put_commute_lookup:
  "k \<noteq> l \<Longrightarrow> lookup (put k v (put l w s)) = lookup (put l w (put k v s))"
  by (rule ext) (simp add: lookup_put)

lemma del_put_lookup: "lookup (del k (put k v s)) = lookup (del k s)"
  by (rule ext) (simp add: lookup_put lookup_del)

lemma dom_lookup_put: "dom (lookup (put k v s)) = insert k (dom (lookup s))"
  by (auto simp: lookup_put dom_def split: if_splits)

lemma dom_lookup_del: "dom (lookup (del k s)) = dom (lookup s) - {k}"
  by (auto simp: lookup_del dom_def split: if_splits)

end

end
