(* ===== verification/Binlog.thy ===== *)
theory Binlog
  imports Rivus_Prelude
begin

text \<open>
  MySQL binlog coordinates: the source offset of an event (\<open>pkg/model/types.go\<close>), the splitting of
  a binlog file name into base and sequence number, the order that decides whether a saved
  checkpoint covers a commit range (\<open>pkg/connectors/iceberg/commit_guard.go\<close>), and the
  classification of a checkpoint against the logs the server still has (\<open>pkg/core/job.go\<close>).

  A binlog position is a \<open>uint32\<close>, kept at its width; a sequence number is a \<open>uint64\<close>, read by
  \<open>ParseUint\<close>, which refuses what does not fit.
\<close>

section \<open>Source offsets\<close>

record source_offset =
  so_file :: string
  so_pos :: "32 word"

text \<open>\<open>(*SourceOffset).Valid\<close>: the receiver may be nil.\<close>

definition source_offset_valid :: "source_offset option \<Rightarrow> bool" where
  "source_offset_valid o' =
     (case o' of None \<Rightarrow> False | Some so \<Rightarrow> so_file so \<noteq> [] \<and> 0 < so_pos so)"

section \<open>File names\<close>

definition splitBinlogFile :: "string \<Rightarrow> (string \<times> nat) option" where
  "splitBinlogFile raw =
     (let file = trim_space raw in
      case last_index (CHR ''.'') file of
        None \<Rightarrow> None
      | Some dot \<Rightarrow>
          if dot = 0 \<or> dot = length file - 1 then None
          else case parse_uint64 (drop (dot + 1) file) of
                 None \<Rightarrow> None
               | Some number \<Rightarrow> Some (take dot file, number))"

definition parseBinlogSequence :: "string \<Rightarrow> (string \<times> nat) option" where
  "parseBinlogSequence file =
     (case last_index (CHR ''.'') file of
        None \<Rightarrow> None
      | Some dot \<Rightarrow>
          if dot = length file - 1 then None
          else case parse_uint64 (drop (dot + 1) file) of
                 None \<Rightarrow> None
               | Some n \<Rightarrow> Some (take dot file, n))"

definition binlogOffsetCovers :: "string \<Rightarrow> 32 word \<Rightarrow> string \<Rightarrow> 32 word \<Rightarrow> bool" where
  "binlogOffsetCovers savedFile savedPos endFile endPos =
     (if savedFile = endFile then endPos \<le> savedPos
      else case (parseBinlogSequence savedFile, parseBinlogSequence endFile) of
             (Some (savedBase, savedSeq), Some (endBase, endSeq)) \<Rightarrow>
               savedBase = endBase \<and> endSeq < savedSeq
           | _ \<Rightarrow> False)"

definition binlogFileInRange :: "string \<Rightarrow> string \<Rightarrow> string \<Rightarrow> bool" where
  "binlogFileInRange rawFile rawFirst rawLast =
     (let file = trim_space rawFile; firstF = trim_space rawFirst; lastF = trim_space rawLast in
      if file = [] \<or> firstF = [] \<or> lastF = [] then False
      else case (splitBinlogFile file, splitBinlogFile firstF, splitBinlogFile lastF) of
             (Some (filePrefix, fileNumber), Some (firstPrefix, firstNumber), Some (lastPrefix, lastNumber)) \<Rightarrow>
               if filePrefix = firstPrefix \<and> filePrefix = lastPrefix
               then firstNumber \<le> fileNumber \<and> fileNumber \<le> lastNumber
               else file = firstF \<or> file = lastF
           | _ \<Rightarrow> file = firstF \<or> file = lastF)"

definition checkpointBinlogStatus :: "string \<Rightarrow> string \<Rightarrow> string \<Rightarrow> int \<Rightarrow> string" where
  "checkpointBinlogStatus rawCheckpoint rawFirst rawLast count =
     (let checkpointFile = trim_space rawCheckpoint; firstF = trim_space rawFirst; lastF = trim_space rawLast in
      if firstF = [] \<or> lastF = [] \<or> count = 0 then ''no_binlogs''
      else if binlogFileInRange checkpointFile firstF lastF then ''available''
      else case (splitBinlogFile checkpointFile, splitBinlogFile firstF) of
             (Some (checkpointPrefix, checkpointNumber), Some (firstPrefix, firstNumber)) \<Rightarrow>
               if checkpointPrefix = firstPrefix \<and> checkpointNumber < firstNumber
               then ''purged'' else ''missing''
           | _ \<Rightarrow> ''missing'')"

text \<open>
  \<open>showBinaryLogs\<close>: the server's answer is the number of columns and, per row, the first column or
  a scan error, then the error the cursor ends with. The result is the first file, the last file and
  the number of files.
\<close>

fun scan_binary_logs :: "string \<Rightarrow> string \<Rightarrow> int \<Rightarrow> ('e + string) list \<Rightarrow> 'e + (string \<times> string \<times> int)" where
  "scan_binary_logs firstF lastF count [] = Inr (firstF, lastF, count)"
| "scan_binary_logs firstF lastF count (Inl e # rows) = Inl e"
| "scan_binary_logs firstF lastF count (Inr file # rows) =
     scan_binary_logs (if count = 0 then file else firstF) file (count + 1) rows"

definition showBinaryLogs ::
  "'e \<Rightarrow> 'e + (nat \<times> ('e + string) list \<times> 'e option) \<Rightarrow> 'e + (string \<times> string \<times> int)" where
  "showBinaryLogs noColumns answer =
     (case answer of
        Inl e \<Rightarrow> Inl e
      | Inr (cols, rows, cursorErr) \<Rightarrow>
          if cols = 0 then Inl noColumns
          else case scan_binary_logs [] [] 0 rows of
                 Inl e \<Rightarrow> Inl e
               | Inr r \<Rightarrow> (case cursorErr of Some e \<Rightarrow> Inl e | None \<Rightarrow> Inr r))"

section \<open>Lemmas\<close>

lemma trim_space_id:
  "s \<noteq> [] \<Longrightarrow> \<not> is_space (hd s) \<Longrightarrow> \<not> is_space (last s) \<Longrightarrow> trim_space s = s"
proof -
  assume "s \<noteq> []" "\<not> is_space (hd s)" "\<not> is_space (last s)"
  then have "dropWhile is_space s = s" by (cases s) auto
  moreover from \<open>s \<noteq> []\<close> \<open>\<not> is_space (last s)\<close> have "dropWhile is_space (rev s) = rev s"
    by (cases s rule: rev_cases) auto
  ultimately show "trim_space s = s" by (simp add: trim_space_def)
qed

lemma digit_not_space [simp]: "is_digit c \<Longrightarrow> \<not> is_space c"
  by (auto simp: is_digit_def is_space_def)

text \<open>Different files in the covering relation have one base and ordered sequence numbers.\<close>

lemma binlogOffsetCovers_iff:
  "binlogOffsetCovers a p b q \<longleftrightarrow>
     (a = b \<and> q \<le> p) \<or>
     (a \<noteq> b \<and> (\<exists>base m n. parseBinlogSequence a = Some (base, m) \<and> parseBinlogSequence b = Some (base, n) \<and> n < m))"
proof (cases "a = b")
  case False
  then show ?thesis
    by (simp add: binlogOffsetCovers_def split: option.split prod.split) blast
next
  case True
  then show ?thesis by (auto simp: binlogOffsetCovers_def)
qed

lemma parseBinlogSequence_covers_trans:
  assumes "binlogOffsetCovers a p b q" "binlogOffsetCovers b q c r"
  shows "binlogOffsetCovers a p c r"
proof (cases "a = b \<or> b = c")
  case True
  then show ?thesis
  proof
    assume "a = b"
    with assms show ?thesis by (cases "b = c") (auto simp: binlogOffsetCovers_def)
  next
    assume "b = c"
    with assms show ?thesis by (cases "a = b") (auto simp: binlogOffsetCovers_def)
  qed
next
  case False
  with assms obtain base l m n where "parseBinlogSequence a = Some (base, l)"
    "parseBinlogSequence b = Some (base, m)" "parseBinlogSequence c = Some (base, n)" "m < l" "n < m"
    by (auto simp: binlogOffsetCovers_iff)
  then show ?thesis by (auto simp: binlogOffsetCovers_iff)
qed

lemma binlogOffsetCovers_refl [simp]: "binlogOffsetCovers a p a p"
  by (simp add: binlogOffsetCovers_def)

lemma binlogOffsetCovers_antisym:
  assumes "binlogOffsetCovers a p b q" "binlogOffsetCovers b q a p"
  shows "a = b \<and> p = q"
proof (cases "a = b")
  case True
  with assms show ?thesis by (simp add: binlogOffsetCovers_def)
next
  case False
  with assms show ?thesis by (auto simp: binlogOffsetCovers_iff)
qed

text \<open>The names MySQL gives its logs: a base, a dot and a number, padded with zeros.\<close>

definition binlog_name :: "string \<Rightarrow> nat \<Rightarrow> nat \<Rightarrow> string" where
  "binlog_name base pad n = base @ CHR ''.'' # (replicate pad (CHR ''0'') @ show_nat n)"

lemma digits_value_zeros: "digits_value 0 (replicate k (CHR ''0'') @ s) = digits_value 0 s"
  by (induction k) (auto simp: is_digit_def)

lemma parse_uint64_padded:
  "n < 2 ^ 64 \<Longrightarrow> parse_uint64 (replicate k (CHR ''0'') @ show_nat n) = Some n"
  by (simp add: parse_uint64_def digits_value_zeros digits_value_show_nat)

lemma dot_notin_number: "CHR ''.'' \<notin> set (replicate k (CHR ''0'') @ show_nat n)"
  using show_nat_digits not_digit_dot by (auto dest!: show_nat_digits)

lemma last_index_binlog_name: "last_index (CHR ''.'') (binlog_name base k n) = Some (length base)"
  unfolding binlog_name_def by (rule last_index_append [OF dot_notin_number])

lemma parseBinlogSequence_name:
  assumes "n < 2 ^ 64"
  shows "parseBinlogSequence (binlog_name base k n) = Some (base, n)"
  using assms
  by (simp add: parseBinlogSequence_def last_index_binlog_name)
    (simp add: binlog_name_def parse_uint64_padded [simplified])

lemma last_binlog_name: "last (binlog_name base k n) = last (show_nat n)"
  by (simp add: binlog_name_def)

lemma trim_binlog_name:
  assumes "base \<noteq> []" "\<not> is_space (hd base)"
  shows "trim_space (binlog_name base k n) = binlog_name base k n"
proof (rule trim_space_id)
  show "binlog_name base k n \<noteq> []" by (simp add: binlog_name_def)
  show "\<not> is_space (hd (binlog_name base k n))" using assms by (cases base) (auto simp: binlog_name_def)
  show "\<not> is_space (last (binlog_name base k n))"
    unfolding last_binlog_name using show_nat_digits [of "last (show_nat n)" n] by auto
qed

lemma splitBinlogFile_name:
  assumes "base \<noteq> []" "\<not> is_space (hd base)" "n < 2 ^ 64"
  shows "splitBinlogFile (binlog_name base k n) = Some (base, n)"
  using assms
  by (simp add: splitBinlogFile_def trim_binlog_name last_index_binlog_name)
    (simp add: binlog_name_def parse_uint64_padded [simplified])

lemma scan_binary_logs_files:
  "scan_binary_logs f l c (map Inr fs) =
     Inr (if c = 0 \<and> fs \<noteq> [] then hd fs else f, if fs = [] then l else last fs, c + int (length fs))"
  if "0 \<le> c"
  using that by (induction fs arbitrary: f l c) auto

section \<open>Properties\<close>

text \<open>
  \<open>binlogOffsetCovers\<close> is a partial order on binlog coordinates: a coordinate covers itself, two
  coordinates that cover each other are equal, and covering is transitive. Every decision that
  discards a commit intent because "the checkpoint covers it" rests on this order, so a checkpoint
  that moves forward never uncovers what it covered.
\<close>

theorem binlogOffsetCovers_partial_order:
  "reflp (\<lambda>(f, p) (g, q). binlogOffsetCovers f p g q) \<and>
   antisymp (\<lambda>(f, p) (g, q). binlogOffsetCovers f p g q) \<and>
   transp (\<lambda>(f, p) (g, q). binlogOffsetCovers f p g q)"
proof (intro conjI)
  show "reflp (\<lambda>(f, p) (g, q). binlogOffsetCovers f p g q)" by (auto intro: reflpI)
  show "antisymp (\<lambda>(f, p) (g, q). binlogOffsetCovers f p g q)"
    by (rule antisympI) (auto dest: binlogOffsetCovers_antisym)
  show "transp (\<lambda>(f, p) (g, q). binlogOffsetCovers f p g q)"
    by (rule transpI) (auto intro: parseBinlogSequence_covers_trans)
qed

text \<open>
  On the names one server gives its logs (one base, one number of padding zeros per number,
  sequence numbers below 2^64) \<open>binlogOffsetCovers\<close> is exactly the lexicographic order of
  (sequence number, position); in particular it is total there, and \<open>mysql-bin.000010\<close> covers
  \<open>mysql-bin.000009\<close> although the padding differs.
\<close>

theorem binlogOffsetCovers_lexicographic:
  assumes "m < 2 ^ 64" "n < 2 ^ 64" "pad m = j" "pad n = k"
  shows "binlogOffsetCovers (binlog_name base j m) p (binlog_name base k n) q \<longleftrightarrow>
     (n < m \<or> (n = m \<and> q \<le> p))"
proof -
  have eq: "binlog_name base j m = binlog_name base k n \<longleftrightarrow> m = n"
    using assms by (metis option.inject parseBinlogSequence_name prod.inject)
  show ?thesis using assms
    by (auto simp: binlogOffsetCovers_def eq parseBinlogSequence_name)
qed

theorem binlogOffsetCovers_lexicographic_witness:
  "binlogOffsetCovers (binlog_name ''mysql-bin'' 4 10) 4 (binlog_name ''mysql-bin'' 5 9) 700 \<longleftrightarrow>
     (9 < (10::nat) \<or> (9 = (10::nat) \<and> (700::32 word) \<le> 4))"
  by (rule binlogOffsetCovers_lexicographic [where pad = "\<lambda>i. if i < 10 then 5 else 4"]) simp_all

text \<open>
  \<open>checkpointBinlogStatus\<close> answers correctly for a server whose logs are numbered \<open>lo\<close> to \<open>hi\<close>
  under one base: "available" exactly when the checkpoint's file is one of them, "purged" exactly
  when its number is below the oldest, "missing" exactly when it is above the newest. Only "purged"
  lets a resubmit start over with a fresh snapshot.
\<close>

theorem checkpointBinlogStatus_correct:
  assumes "base \<noteq> []" "\<not> is_space (hd base)" "lo < 2 ^ 64" "hi < 2 ^ 64" "n < 2 ^ 64" "lo \<le> hi" "count \<noteq> 0"
  shows "checkpointBinlogStatus (binlog_name base k n) (binlog_name base i lo) (binlog_name base j hi) count =
     (if n < lo then ''purged'' else if n \<le> hi then ''available'' else ''missing'')"
proof -
  have ne: "binlog_name base a b \<noteq> []" for a b by (simp add: binlog_name_def)
  show ?thesis
    using assms
    by (simp add: checkpointBinlogStatus_def binlogFileInRange_def Let_def trim_binlog_name
        splitBinlogFile_name ne)
qed

theorem checkpointBinlogStatus_correct_witness:
  "checkpointBinlogStatus (binlog_name ''bin'' 5 3) (binlog_name ''bin'' 5 4) (binlog_name ''bin'' 5 9) 6 =
     (if 3 < (4::nat) then ''purged'' else if 3 \<le> (9::nat) then ''available'' else ''missing'')"
  by (rule checkpointBinlogStatus_correct) (simp_all add: is_space_def)

text \<open>
  \<open>showBinaryLogs\<close> returns the first and the last file of the server's list and its length; on an
  empty list it returns empty names and 0, which \<open>checkpointBinlogStatus\<close> reports as "no_binlogs".
\<close>

theorem showBinaryLogs_correct:
  "showBinaryLogs e (Inr (Suc c, map Inr fs, None)) =
     Inr (if fs = [] then [] else hd fs, if fs = [] then [] else last fs, int (length fs)) \<and>
   checkpointBinlogStatus cp [] [] (int (length [])) = ''no_binlogs''"
  by (auto simp: showBinaryLogs_def scan_binary_logs_files checkpointBinlogStatus_def)

end
