(* ===== verification/Config_Model.thy ===== *)
theory Config_Model
  imports Rivus_Prelude
begin

text \<open>
  The job configuration (\<open>pkg/config/job_config.go\<close>) and its normalisation, and the normalisation of
  the Iceberg maintenance targets (\<open>pkg/config/connector_spec_maintenance.go\<close>).

  The untyped values of a YAML or JSON document are \<open>goval\<close>. A Go map is the list of its entries in
  the order this run iterates over them (Go leaves the order open); keys are distinct. A nil slice or
  map is the empty list. Durations are in nanoseconds.
\<close>

section \<open>Data\<close>

datatype goval =
    GoNil
  | GoBool bool
  | GoInt int
  | GoFloat rat
  | GoStr string
  | GoStrs "string list"
  | GoList "goval list"
  | GoMap "(string \<times> goval) list"

type_synonym gomap = "(string \<times> goval) list"

definition map_get :: "('k \<times> 'v) list \<Rightarrow> 'k \<Rightarrow> 'v option" where
  "map_get m k = map_of m k"

definition map_delete :: "'k \<Rightarrow> ('k \<times> 'v) list \<Rightarrow> ('k \<times> 'v) list" where
  "map_delete k m = filter (\<lambda>(k', _). k' \<noteq> k) m"

fun map_put :: "'k \<Rightarrow> 'v \<Rightarrow> ('k \<times> 'v) list \<Rightarrow> ('k \<times> 'v) list" where
  "map_put k v [] = [(k, v)]"
| "map_put k v ((k', v') # m) = (if k' = k then (k, v) # m else (k', v') # map_put k v m)"

text \<open>The job modes; any other string is possible too.\<close>

type_synonym job_mode = string

abbreviation "JobModeInitial \<equiv> ''initial''"
abbreviation "JobModeSnapshotOnly \<equiv> ''snapshot-only''"
abbreviation "JobModeSnapshotHandoff \<equiv> ''snapshot-handoff''"
abbreviation "JobModeSnapshotHandoffResume \<equiv> ''snapshot-handoff-resume''"
abbreviation "JobModeResume \<equiv> ''resume''"
abbreviation "JobModeLatestOffset \<equiv> ''latest-offset''"
abbreviation "JobModeLatest \<equiv> ''latest''"
abbreviation "JobModeMaintenanceOnly \<equiv> ''maintenance-only''"

record retry_policy =
  rp_max_attempts :: int
  rp_base_backoff :: int
  rp_max_backoff :: int

record extra_column =
  ec_name :: string
  ec_expression :: string
  ec_data_type :: string
  ec_column_type :: string
  ec_nullable :: "bool option"

record mysql_table_config =
  mt_filter :: string
  mt_key_columns :: "string list"
  mt_extra_columns :: "extra_column list"

record mysql_config =
  my_addr :: string
  my_user :: string
  my_password :: string
  my_database :: string
  my_table :: string
  my_databases :: "string list"
  my_table_names :: "string list"
  my_tables :: "string list"
  my_table_configs :: "(string \<times> mysql_table_config) list"
  my_chunk_size :: int
  my_snapshot_batch_size :: int

record doris_target =
  dt_database :: string
  dt_table :: string

record doris_config =
  do_http_host :: string
  do_be_http_host :: string
  do_be_http_port :: int
  do_mysql_port :: int
  do_database :: string
  do_table :: string
  do_default_database :: string
  do_overrides :: "(string \<times> doris_target) list"
  do_user :: string
  do_password :: string
  do_batch_size :: int
  do_flush_seconds :: int

record telegram_config =
  tg_enabled :: bool
  tg_bot_token :: string
  tg_chat_id :: string
  tg_ui_base_url :: string
  tg_notify_job_failed :: bool
  tg_notify_cdc_lag :: bool
  tg_notify_checkpoint_purged :: bool
  tg_notify_backpressure :: bool
  tg_cdc_lag_files_threshold :: int
  tg_alert_cooldown_seconds :: int

record connector_spec =
  cs_type :: string
  cs_config :: gomap

record job_config =
  jc_id :: string
  jc_name :: string
  jc_mode :: job_mode
  jc_source :: "connector_spec option"
  jc_sink :: "connector_spec option"
  jc_mysql :: mysql_config
  jc_doris :: doris_config
  jc_retry :: retry_policy
  jc_buffer_size :: int
  jc_metadata :: "(string \<times> string) list"
  jc_meta_dsn :: string
  jc_telegram :: telegram_config

text \<open>The zero value of a job configuration.\<close>

definition zero_config :: job_config where
  "zero_config =
     \<lparr>jc_id = [], jc_name = [], jc_mode = [], jc_source = None, jc_sink = None,
      jc_mysql = \<lparr>my_addr = [], my_user = [], my_password = [], my_database = [], my_table = [], my_databases = [],
        my_table_names = [], my_tables = [], my_table_configs = [], my_chunk_size = 0, my_snapshot_batch_size = 0\<rparr>,
      jc_doris = \<lparr>do_http_host = [], do_be_http_host = [], do_be_http_port = 0, do_mysql_port = 0, do_database = [],
        do_table = [], do_default_database = [], do_overrides = [], do_user = [], do_password = [],
        do_batch_size = 0, do_flush_seconds = 0\<rparr>,
      jc_retry = \<lparr>rp_max_attempts = 0, rp_base_backoff = 0, rp_max_backoff = 0\<rparr>, jc_buffer_size = 0,
      jc_metadata = [], jc_meta_dsn = [],
      jc_telegram = \<lparr>tg_enabled = False, tg_bot_token = [], tg_chat_id = [], tg_ui_base_url = [],
        tg_notify_job_failed = False, tg_notify_cdc_lag = False, tg_notify_checkpoint_purged = False,
        tg_notify_backpressure = False, tg_cdc_lag_files_threshold = 0, tg_alert_cooldown_seconds = 0\<rparr>\<rparr>"

section \<open>Normalisation\<close>

definition normalizeLowerStringSlice :: "string list \<Rightarrow> string list" where
  "normalizeLowerStringSlice values = filter (\<lambda>v. v \<noteq> []) (map (\<lambda>v. to_lower (trim_space v)) values)"

definition normalizeTrimmedStringSlice :: "string list \<Rightarrow> string list" where
  "normalizeTrimmedStringSlice values = filter (\<lambda>v. v \<noteq> []) (map trim_space values)"

text \<open>\<open>strings.TrimRight\<close> with a set of bytes.\<close>

definition trim_right :: "string \<Rightarrow> string \<Rightarrow> string" where
  "trim_right s cutset = rev (dropWhile (\<lambda>c. c \<in> set cutset) (rev s))"

definition normalizeSnapshotFilter :: "string \<Rightarrow> string" where
  "normalizeSnapshotFilter raw0 =
     (let raw = trim_right (trim_space raw0) [CHR '';'', CHR '' '', CHR 0x09, CHR 0x0D, CHR 0x0A] in
      if has_prefix ''where '' (to_lower raw) then trim_space (drop 6 raw) else raw)"

definition normalize_extra_column :: "extra_column \<Rightarrow> extra_column" where
  "normalize_extra_column col =
     (let dt = to_lower (trim_space (ec_data_type col)); ct = to_lower (trim_space (ec_column_type col)) in
      col\<lparr>ec_name := trim_space (ec_name col), ec_expression := normalizeSnapshotFilter (ec_expression col),
          ec_data_type := dt, ec_column_type := if ct = [] then dt else ct\<rparr>)"

definition normalizeMySQLSnapshotExtraColumns :: "extra_column list \<Rightarrow> extra_column list" where
  "normalizeMySQLSnapshotExtraColumns cols =
     filter (\<lambda>c. \<not> (ec_name c = [] \<or> ec_expression c = [] \<or> ec_data_type c = []))
       (map normalize_extra_column cols)"

text \<open>The closure \<open>add\<close> of \<open>normalizeMySQLTables\<close>; the output list is also the set of seen entries.\<close>

definition add_entry :: "string list \<Rightarrow> string \<Rightarrow> string list" where
  "add_entry out raw =
     (let entry = to_lower (trim_space raw) in
      if entry = [] \<or> entry \<in> set out then out else out @ [entry])"

definition normalizeMySQLTables :: "mysql_config \<Rightarrow> string list" where
  "normalizeMySQLTables cfg =
     (let out = foldl add_entry [] (my_tables cfg);
          out = foldl add_entry out
                  (concat (map (\<lambda>db. map (\<lambda>t. db @ ''.'' @ t) (my_table_names cfg)) (my_databases cfg)))
      in if out = [] \<and> my_database cfg \<noteq> [] \<and> my_table cfg \<noteq> []
         then add_entry out (my_database cfg @ ''.'' @ my_table cfg) else out)"

definition normalize_table_config :: "mysql_table_config \<Rightarrow> mysql_table_config" where
  "normalize_table_config v =
     v\<lparr>mt_filter := normalizeSnapshotFilter (mt_filter v),
       mt_key_columns := normalizeTrimmedStringSlice (mt_key_columns v),
       mt_extra_columns := normalizeMySQLSnapshotExtraColumns (mt_extra_columns v)\<rparr>"

text \<open>Rebuilding a map under trimmed, lower-case keys; blank keys are dropped, a later entry wins.\<close>

definition normalize_keys :: "('v \<Rightarrow> 'v) \<Rightarrow> (string \<times> 'v) list \<Rightarrow> (string \<times> 'v) list" where
  "normalize_keys f m =
     foldl (\<lambda>norm (k, v). let kk = to_lower (trim_space k) in if kk = [] then norm else map_put kk (f v) norm) [] m"

definition NormalizeMySQLConfig :: "mysql_config \<Rightarrow> mysql_config" where
  "NormalizeMySQLConfig cfg0 =
     (let cfg = cfg0\<lparr>my_chunk_size := if my_chunk_size cfg0 \<le> 0 then 1000 else my_chunk_size cfg0,
                     my_snapshot_batch_size :=
                       if my_snapshot_batch_size cfg0 \<le> 0 then 10000 else my_snapshot_batch_size cfg0,
                     my_database := trim_space (my_database cfg0),
                     my_table := trim_space (my_table cfg0),
                     my_databases := normalizeLowerStringSlice (my_databases cfg0),
                     my_table_names := normalizeLowerStringSlice (my_table_names cfg0)\<rparr>;
          cfg = cfg\<lparr>my_tables := normalizeMySQLTables cfg\<rparr>
      in cfg\<lparr>my_table_configs := normalize_keys normalize_table_config (my_table_configs cfg)\<rparr>)"

definition normalizeNotifications :: "telegram_config \<Rightarrow> telegram_config" where
  "normalizeNotifications cfg =
     cfg\<lparr>tg_bot_token := trim_space (tg_bot_token cfg), tg_chat_id := trim_space (tg_chat_id cfg),
         tg_ui_base_url := trim_right (trim_space (tg_ui_base_url cfg)) ''/''\<rparr>"

definition normalize_config :: "job_config \<Rightarrow> job_config" where
  "normalize_config cfg =
     cfg\<lparr>jc_mysql := NormalizeMySQLConfig (jc_mysql cfg),
         jc_doris := (jc_doris cfg)\<lparr>do_overrides := normalize_keys (\<lambda>v. v) (do_overrides (jc_doris cfg))\<rparr>,
         jc_telegram := normalizeNotifications (jc_telegram cfg)\<rparr>"

definition setDefaults :: "job_config \<Rightarrow> job_config" where
  "setDefaults cfg =
     (let my = jc_mysql cfg; d = jc_doris cfg; r = jc_retry cfg in
      normalize_config
        (cfg\<lparr>jc_buffer_size := if jc_buffer_size cfg \<le> 0 then 1000 else jc_buffer_size cfg,
             jc_mysql := my\<lparr>my_chunk_size := if my_chunk_size my \<le> 0 then 1000 else my_chunk_size my,
                            my_snapshot_batch_size :=
                              if my_snapshot_batch_size my \<le> 0 then 10000 else my_snapshot_batch_size my\<rparr>,
             jc_doris := d\<lparr>do_batch_size := if do_batch_size d \<le> 0 then 500 else do_batch_size d,
                           do_flush_seconds := if do_flush_seconds d \<le> 0 then 3 else do_flush_seconds d,
                           do_mysql_port := if do_mysql_port d \<le> 0 then 9030 else do_mysql_port d\<rparr>,
             jc_retry := r\<lparr>rp_max_attempts := if rp_max_attempts r \<le> 0 then 5 else rp_max_attempts r,
                           rp_base_backoff := if rp_base_backoff r = 0 then 500000000 else rp_base_backoff r,
                           rp_max_backoff := if rp_max_backoff r = 0 then 10000000000 else rp_max_backoff r\<rparr>\<rparr>))"

definition ApplyDefaults :: "job_config option \<Rightarrow> job_config option" where
  "ApplyDefaults cfg = map_option setDefaults cfg"

definition isEmptyJobConfig :: "job_config option \<Rightarrow> bool" where
  "isEmptyJobConfig cfg' =
     (case cfg' of None \<Rightarrow> True
      | Some cfg \<Rightarrow>
          trim_space (jc_id cfg) = [] \<and> trim_space (jc_name cfg) = [] \<and> jc_source cfg = None \<and>
          jc_sink cfg = None \<and> my_tables (jc_mysql cfg) = [] \<and> trim_space (my_database (jc_mysql cfg)) = [] \<and>
          trim_space (my_table (jc_mysql cfg)) = [] \<and> do_overrides (jc_doris cfg) = [])"

text \<open>
  \<open>LoadJobConfigsFromBytes\<close> on the documents the YAML decoder yields, each a configuration or the
  error the decoder stops with, and \<open>LoadJobConfigFromBytes\<close> on its result.
\<close>

datatype config_error = YamlError string | JobConfigEmpty | ExpectedSingleJobConfig nat | ConfigError string

fun LoadJobConfigsFromBytes :: "(string + job_config) list \<Rightarrow> config_error + job_config list" where
  "LoadJobConfigsFromBytes [] = Inr []"
| "LoadJobConfigsFromBytes (Inl e # docs) = Inl (YamlError e)"
| "LoadJobConfigsFromBytes (Inr cfg # docs) =
     (case LoadJobConfigsFromBytes docs of
        Inl e \<Rightarrow> Inl e
      | Inr rest \<Rightarrow> Inr (if isEmptyJobConfig (Some cfg) then rest else setDefaults cfg # rest))"

definition LoadJobConfigFromBytes :: "(string + job_config) list \<Rightarrow> config_error + job_config" where
  "LoadJobConfigFromBytes docs =
     (case LoadJobConfigsFromBytes docs of
        Inl e \<Rightarrow> Inl e
      | Inr configs \<Rightarrow>
          (case configs of
             [] \<Rightarrow> Inl JobConfigEmpty
           | [c] \<Rightarrow> Inr c
           | _ \<Rightarrow> Inl (ExpectedSingleJobConfig (length configs))))"

section \<open>Maintenance targets\<close>

text \<open>The two loops of \<open>maintenanceStringList\<close>: reading a list of strings, then trimming and deduplicating.\<close>

fun strings_of_values :: "string \<Rightarrow> goval list \<Rightarrow> string + string list" where
  "strings_of_values field [] = Inr []"
| "strings_of_values field (GoStr s # vs) =
     (case strings_of_values field vs of Inl e \<Rightarrow> Inl e | Inr ss \<Rightarrow> Inr (s # ss))"
| "strings_of_values field (v # vs) = Inl (field @ '' must contain only strings'')"

fun dedupe_trimmed :: "string \<Rightarrow> string list \<Rightarrow> string list \<Rightarrow> string + string list" where
  "dedupe_trimmed field out [] = Inr out"
| "dedupe_trimmed field out (raw # values) =
     (let v = trim_space raw in
      if v = [] then Inl (field @ '' contains an empty value'')
      else if v \<in> set out then dedupe_trimmed field out values
      else dedupe_trimmed field (out @ [v]) values)"

definition maintenanceStringList :: "goval option \<Rightarrow> string \<Rightarrow> string + string list" where
  "maintenanceStringList raw field =
     (case (case raw of
              Some (GoStr s) \<Rightarrow> Inr [s]
            | Some (GoStrs ss) \<Rightarrow> Inr ss
            | Some (GoList vs) \<Rightarrow> strings_of_values field vs
            | _ \<Rightarrow> Inl (field @ '' must be a string or list of strings'')) of
        Inl e \<Rightarrow> Inl e
      | Inr values \<Rightarrow> dedupe_trimmed field [] values)"

definition normalizeIcebergMaintenanceTargets :: "gomap \<Rightarrow> string + gomap" where
  "normalizeIcebergMaintenanceTargets m =
     (case map_get m ''namespace'' of
        None \<Rightarrow> Inr m
      | Some rawNamespace \<Rightarrow>
          (case maintenanceStringList (Some rawNamespace) ''table_maintenance.namespace'' of
             Inl e \<Rightarrow> Inl e
           | Inr namespaces \<Rightarrow>
               if length namespaces \<noteq> 1
               then Inl ''table_maintenance.namespace compact form requires exactly one namespace''
               else case map_get m ''tables'' of
                      None \<Rightarrow> Inl ''table_maintenance.tables is required with compact namespace form''
                    | Some rawTables \<Rightarrow>
                        (case maintenanceStringList (Some rawTables) ''table_maintenance.tables'' of
                           Inl e \<Rightarrow> Inl (''compact table_maintenance.tables must contain table names: '' @ e)
                         | Inr tables \<Rightarrow>
                             Inr (map_delete ''namespace''
                               (map_put ''tables''
                                 (GoList (map (\<lambda>t. GoMap [(''namespace'', GoStr (hd namespaces)), (''table'', GoStr t)]) tables))
                                 m)))))"

definition normalizeMaintenanceConfig :: "connector_spec \<Rightarrow> string + connector_spec" where
  "normalizeMaintenanceConfig c =
     (if \<not> equal_fold (trim_space (cs_type c)) ''iceberg_native'' then Inr c
      else case map_get (cs_config c) ''table_maintenance'' of
             Some (GoMap maintenance) \<Rightarrow>
               (case normalizeIcebergMaintenanceTargets maintenance of
                  Inl e \<Rightarrow> Inl e
                | Inr m1 \<Rightarrow>
                    (let m2 = map_delete ''native_enabled'' m1;
                         keep = (\<lambda>m. c\<lparr>cs_config := map_put ''table_maintenance'' (GoMap m) (cs_config c)\<rparr>) in
                     if map_get m2 ''enabled'' \<noteq> Some (GoBool True) then Inr (keep m2)
                     else let raw = (case map_get m2 ''executor'' of Some (GoStr s) \<Rightarrow> s | _ \<Rightarrow> []);
                              lowered = to_lower (trim_space raw);
                              executor = (if lowered = [] then ''hybrid'' else lowered) in
                          if executor \<in> {''hybrid'', ''native'', ''spark''}
                          then Inr (keep (map_put ''executor'' (GoStr executor) m2))
                          else Inl ''table_maintenance.executor must be one of hybrid, native, spark''))
           | _ \<Rightarrow> Inr c)"

section \<open>Lemmas\<close>

lemma map_get_put [simp]: "map_get (map_put k v m) k' = (if k' = k then Some v else map_get m k')"
  by (induction k v m rule: map_put.induct) (auto simp: map_get_def)

lemma map_get_delete [simp]: "map_get (map_delete k m) k' = (if k' = k then None else map_get m k')"
  by (induction m) (auto simp: map_get_def map_delete_def)

interpretation gomap: keyed_store map_get map_put map_delete
  by unfold_locales simp_all

lemma map_put_same: "map_get m k = Some v \<Longrightarrow> map_put k v m = m"
  by (induction k v m rule: map_put.induct) (auto simp: map_get_def split: if_splits)

lemma map_delete_absent: "map_get m k = None \<Longrightarrow> map_delete k m = m"
  by (induction m) (auto simp: map_get_def map_delete_def split: if_splits)

lemma fst_map_put: "map fst (map_put k v m) = (if k \<in> fst ` set m then map fst m else map fst m @ [k])"
  by (induction k v m rule: map_put.induct) auto

lemma distinct_map_put [simp]: "distinct (map fst m) \<Longrightarrow> distinct (map fst (map_put k v m))"
  by (auto simp: fst_map_put)

lemma distinct_map_delete [simp]: "distinct (map fst m) \<Longrightarrow> distinct (map fst (map_delete k m))"
  by (simp add: map_delete_def distinct_map_filter)

lemma is_space_lower [simp]: "is_space (lower_char c) = is_space c"
proof -
  have "is_space c \<Longrightarrow> lower_char c = c" by (auto simp: is_space_def lower_char_def)
  moreover have "is_space (lower_char c) \<Longrightarrow> is_space c"
  proof -
    assume sp: "is_space (lower_char c)"
    then have "(of_char (lower_char c) :: nat) \<le> 32" by (auto simp: is_space_def)
    then have "\<not> (65 \<le> (of_char c :: nat) \<and> (of_char c :: nat) \<le> 90)"
      by (auto simp: lower_char_def Let_def)
    then have "lower_char c = c" by (auto simp: lower_char_def Let_def)
    with sp show ?thesis by simp
  qed
  ultimately show ?thesis by auto
qed

lemma dropWhile_lower: "dropWhile is_space (map lower_char s) = map lower_char (dropWhile is_space s)"
  by (induction s) auto

lemma trim_to_lower [simp]: "trim_space (to_lower s) = to_lower (trim_space s)"
  by (simp add: trim_space_def to_lower_def dropWhile_lower rev_map)

lemma set_add_entry:
  "set (add_entry out raw) = set out \<union> ({to_lower (trim_space raw)} - {[]})"
  by (auto simp: add_entry_def Let_def)

lemma distinct_add_entry: "distinct out \<Longrightarrow> distinct (add_entry out raw)"
  by (auto simp: add_entry_def Let_def)

lemma set_foldl_add_entry:
  "set (foldl add_entry out raws) = set out \<union> ((\<lambda>r. to_lower (trim_space r)) ` set raws - {[]})"
  by (induction raws arbitrary: out) (auto simp: set_add_entry)

lemma distinct_foldl_add_entry: "distinct out \<Longrightarrow> distinct (foldl add_entry out raws)"
  by (induction raws arbitrary: out) (auto simp: distinct_add_entry)

lemma add_entry_present: "to_lower (trim_space raw) \<in> set out \<Longrightarrow> add_entry out raw = out"
  by (auto simp: add_entry_def Let_def)

lemma foldl_add_entry_present:
  "(\<And>r. r \<in> set raws \<Longrightarrow> to_lower (trim_space r) \<in> set out \<union> {[]}) \<Longrightarrow> foldl add_entry out raws = out"
proof (induction raws arbitrary: out)
  case (Cons r raws)
  then have "add_entry out r = out" by (auto simp: add_entry_def Let_def)
  with Cons show ?case by simp
qed simp

lemma foldl_add_entry_normal:
  assumes "distinct (out @ es)" "\<And>e. e \<in> set es \<Longrightarrow> to_lower (trim_space e) = e \<and> e \<noteq> []"
  shows "foldl add_entry out es = out @ es"
  using assms
proof (induction es arbitrary: out)
  case (Cons e es)
  then have "add_entry out e = out @ [e]" by (auto simp: add_entry_def Let_def)
  with Cons.prems Cons.IH [of "out @ [e]"] show ?case by simp
qed simp

text \<open>The source tables a configuration selects: the explicit ones and the product of databases and names.\<close>

definition selected_raw :: "mysql_config \<Rightarrow> string list" where
  "selected_raw cfg =
     my_tables cfg @ concat (map (\<lambda>db. map (\<lambda>t. db @ ''.'' @ t) (my_table_names cfg)) (my_databases cfg))"

lemma normalizeMySQLTables_foldl:
  "normalizeMySQLTables cfg =
     (let out = foldl add_entry [] (selected_raw cfg) in
      if out = [] \<and> my_database cfg \<noteq> [] \<and> my_table cfg \<noteq> []
      then add_entry out (my_database cfg @ ''.'' @ my_table cfg) else out)"
  by (simp add: normalizeMySQLTables_def selected_raw_def Let_def)

lemma normalizeMySQLTables_entries:
  "e \<in> set (normalizeMySQLTables cfg) \<Longrightarrow> e \<noteq> [] \<and> to_lower (trim_space e) = e"
  by (auto simp: normalizeMySQLTables_foldl Let_def set_foldl_add_entry set_add_entry split: if_splits)

lemma distinct_normalizeMySQLTables: "distinct (normalizeMySQLTables cfg)"
  by (auto simp: normalizeMySQLTables_foldl Let_def intro!: distinct_add_entry distinct_foldl_add_entry)

lemma normalizeMySQLTables_covers:
  "to_lower (trim_space r) \<in> set (normalizeMySQLTables cfg) \<union> {[]}" if "r \<in> set (selected_raw cfg)"
proof -
  from that have "to_lower (trim_space r) \<in> set (foldl add_entry [] (selected_raw cfg)) \<union> {[]}"
    by (auto simp: set_foldl_add_entry)
  then show ?thesis by (auto simp: normalizeMySQLTables_foldl Let_def)
qed

lemma my_tables_NormalizeMySQLConfig:
  "my_tables (NormalizeMySQLConfig cfg) =
     normalizeMySQLTables (cfg\<lparr>my_database := trim_space (my_database cfg), my_table := trim_space (my_table cfg),
       my_databases := normalizeLowerStringSlice (my_databases cfg),
       my_table_names := normalizeLowerStringSlice (my_table_names cfg)\<rparr>)"
  by (simp add: NormalizeMySQLConfig_def Let_def normalizeMySQLTables_def)

lemma normalizeLowerStringSlice_idem [simp]:
  "normalizeLowerStringSlice (normalizeLowerStringSlice vs) = normalizeLowerStringSlice vs"
  by (induction vs) (auto simp: normalizeLowerStringSlice_def)

lemma normalizeMySQLTables_again:
  assumes "my_tables cfg' = normalizeMySQLTables cfg" "my_databases cfg' = my_databases cfg"
    "my_table_names cfg' = my_table_names cfg" "my_database cfg' = my_database cfg" "my_table cfg' = my_table cfg"
  shows "normalizeMySQLTables cfg' = normalizeMySQLTables cfg"
proof -
  let ?T = "normalizeMySQLTables cfg"
  let ?prod = "concat (map (\<lambda>db. map (\<lambda>t. db @ ''.'' @ t) (my_table_names cfg)) (my_databases cfg))"
  have tables: "foldl add_entry [] ?T = ?T"
    using foldl_add_entry_normal [of "[]" ?T] distinct_normalizeMySQLTables normalizeMySQLTables_entries
    by auto
  have product: "foldl add_entry ?T ?prod = ?T"
    by (rule foldl_add_entry_present) (rule normalizeMySQLTables_covers, simp add: selected_raw_def)
  have empty: "?T = [] \<Longrightarrow> my_database cfg \<noteq> [] \<and> my_table cfg \<noteq> [] \<Longrightarrow> add_entry [] (my_database cfg @ ''.'' @ my_table cfg) = []"
    by (simp add: normalizeMySQLTables_foldl Let_def split: if_splits)
  have "foldl add_entry [] (selected_raw cfg') = ?T"
    using assms product by (simp add: selected_raw_def tables)
  with empty assms show ?thesis by (auto simp: normalizeMySQLTables_foldl [of cfg'] Let_def)
qed

section \<open>Properties\<close>

text \<open>
  The source tables a normalised configuration lists are distinct, non-blank, trimmed and in lower
  case, and normalising again changes none of them. The configuration is normalised at submission, at
  every save and at every load of the durable registry, so the selection must be a fixed point.
\<close>

theorem NormalizeMySQLConfig_tables_stable:
  "distinct (my_tables (NormalizeMySQLConfig cfg)) \<and>
   list_all (\<lambda>e. e \<noteq> [] \<and> to_lower (trim_space e) = e) (my_tables (NormalizeMySQLConfig cfg)) \<and>
   my_tables (NormalizeMySQLConfig (NormalizeMySQLConfig cfg)) = my_tables (NormalizeMySQLConfig cfg)"
proof (intro conjI)
  let ?c = "cfg\<lparr>my_database := trim_space (my_database cfg), my_table := trim_space (my_table cfg),
       my_databases := normalizeLowerStringSlice (my_databases cfg),
       my_table_names := normalizeLowerStringSlice (my_table_names cfg)\<rparr>"
  show "distinct (my_tables (NormalizeMySQLConfig cfg))"
    by (simp add: my_tables_NormalizeMySQLConfig distinct_normalizeMySQLTables)
  show "list_all (\<lambda>e. e \<noteq> [] \<and> to_lower (trim_space e) = e) (my_tables (NormalizeMySQLConfig cfg))"
    by (auto simp: my_tables_NormalizeMySQLConfig list_all_iff dest: normalizeMySQLTables_entries)
  have "my_tables (NormalizeMySQLConfig (NormalizeMySQLConfig cfg)) = normalizeMySQLTables ?c"
    unfolding my_tables_NormalizeMySQLConfig [of "NormalizeMySQLConfig cfg"]
    by (rule normalizeMySQLTables_again) (simp_all add: NormalizeMySQLConfig_def Let_def normalizeMySQLTables_def)
  then show "my_tables (NormalizeMySQLConfig (NormalizeMySQLConfig cfg)) = my_tables (NormalizeMySQLConfig cfg)"
    by (simp add: my_tables_NormalizeMySQLConfig)
qed

text \<open>
  After defaulting every numeric setting the pipeline divides by or waits on is usable: buffer,
  chunk, batch and flush sizes and the retry count are positive, and defaulting twice sets them as
  once.
\<close>

theorem setDefaults_bounds:
  "0 < jc_buffer_size (setDefaults c) \<and> 0 < my_chunk_size (jc_mysql (setDefaults c)) \<and>
   0 < my_snapshot_batch_size (jc_mysql (setDefaults c)) \<and> 0 < do_batch_size (jc_doris (setDefaults c)) \<and>
   0 < do_flush_seconds (jc_doris (setDefaults c)) \<and> 0 < do_mysql_port (jc_doris (setDefaults c)) \<and>
   0 < rp_max_attempts (jc_retry (setDefaults c)) \<and> rp_base_backoff (jc_retry (setDefaults c)) \<noteq> 0 \<and>
   rp_max_backoff (jc_retry (setDefaults c)) \<noteq> 0 \<and>
   jc_retry (setDefaults (setDefaults c)) = jc_retry (setDefaults c) \<and>
   jc_buffer_size (setDefaults (setDefaults c)) = jc_buffer_size (setDefaults c)"
  by (simp add: setDefaults_def Let_def normalize_config_def NormalizeMySQLConfig_def)

lemma normalizeIcebergMaintenanceTargets_result:
  assumes "normalizeIcebergMaintenanceTargets m = Inr m'" "distinct (map fst m)"
  shows "map_get m' ''namespace'' = None" "distinct (map fst m')"
  using assms
  by (auto simp: normalizeIcebergMaintenanceTargets_def Let_def split: option.splits sum.splits if_splits)

lemma normalizeIcebergMaintenanceTargets_done:
  "map_get m ''namespace'' = None \<Longrightarrow> normalizeIcebergMaintenanceTargets m = Inr m"
  by (simp add: normalizeIcebergMaintenanceTargets_def)

lemma normalizeMaintenanceConfig_done:
  assumes "map_get m ''namespace'' = None" "map_get m ''native_enabled'' = None" "distinct (map fst m)"
    "map_get (cs_config c) ''table_maintenance'' = Some (GoMap m)" "distinct (map fst (cs_config c))"
    "map_get m ''enabled'' = Some (GoBool True) \<Longrightarrow>
       \<exists>e\<in>{''hybrid'', ''native'', ''spark''}. map_get m ''executor'' = Some (GoStr e)"
  shows "normalizeMaintenanceConfig c = Inr c"
proof -
  have low: "e \<in> {''hybrid'', ''native'', ''spark''} \<Longrightarrow> to_lower (trim_space e) = e \<and> e \<noteq> []" for e
    by (auto simp: to_lower_def trim_space_def is_space_def lower_char_def)
  show ?thesis
  proof (cases "map_get m ''enabled'' = Some (GoBool True)")
    case True
    with assms(6) obtain e where e: "e \<in> {''hybrid'', ''native'', ''spark''}"
      "map_get m ''executor'' = Some (GoStr e)" by blast
    from low [OF e(1)] have "to_lower (trim_space e) = e" "trim_space e \<noteq> []" by auto
    with e True assms(1-5) show ?thesis
      by (auto simp: normalizeMaintenanceConfig_def normalizeIcebergMaintenanceTargets_done
          map_delete_absent Let_def map_put_same)
  next
    case False
    with assms(1-5) show ?thesis
      by (simp add: normalizeMaintenanceConfig_def normalizeIcebergMaintenanceTargets_done
          map_delete_absent Let_def map_put_same)
  qed
qed

text \<open>
  Normalising the maintenance section of a connector is idempotent, and what it accepts with
  maintenance enabled names one of the three executors and carries neither the compact namespace nor
  the historical \<open>native_enabled\<close> key.
\<close>

theorem normalizeMaintenanceConfig_normal:
  assumes ok: "normalizeMaintenanceConfig c = Inr c'"
    and raw: "map_get (cs_config c) ''table_maintenance'' = Some (GoMap m)" "distinct (map fst m)"
    and keys: "distinct (map fst (cs_config c))"
    and ice: "equal_fold (trim_space (cs_type c)) ''iceberg_native''"
  shows "normalizeMaintenanceConfig c' = Inr c' \<and>
    (\<exists>m'. map_get (cs_config c') ''table_maintenance'' = Some (GoMap m') \<and>
       map_get m' ''namespace'' = None \<and> map_get m' ''native_enabled'' = None \<and>
       (map_get m' ''enabled'' \<noteq> Some (GoBool True) \<or>
        (\<exists>e. e \<in> {''hybrid'', ''native'', ''spark''} \<and> map_get m' ''executor'' = Some (GoStr e))))"
proof -
  from ok raw ice obtain m1 where m1: "normalizeIcebergMaintenanceTargets m = Inr m1"
    by (auto simp: normalizeMaintenanceConfig_def split: sum.splits)
  note n1 = normalizeIcebergMaintenanceTargets_result [OF m1 raw(2)]
  obtain m' where c': "c' = c\<lparr>cs_config := map_put ''table_maintenance'' (GoMap m') (cs_config c)\<rparr>"
    and m': "map_get m' ''namespace'' = None" "map_get m' ''native_enabled'' = None" "distinct (map fst m')"
      "map_get m' ''enabled'' = Some (GoBool True) \<Longrightarrow>
        \<exists>e\<in>{''hybrid'', ''native'', ''spark''}. map_get m' ''executor'' = Some (GoStr e)"
    using ok raw ice m1 n1
    by (auto simp: normalizeMaintenanceConfig_def Let_def split: if_splits intro: that)
  have "normalizeMaintenanceConfig c' = Inr c'"
    by (rule normalizeMaintenanceConfig_done [of m']) (use c' m' keys in auto)
  with c' m' show ?thesis by auto
qed

theorem normalizeMaintenanceConfig_normal_witness:
  "\<exists>c'. normalizeMaintenanceConfig
       \<lparr>cs_type = ''iceberg_native'', cs_config = [(''table_maintenance'',
          GoMap [(''executor'', GoStr ''SPARK''), (''enabled'', GoBool True), (''native_enabled'', GoBool False)])]\<rparr> = Inr c' \<and>
     normalizeMaintenanceConfig c' = Inr c'"
proof -
  let ?m = "[(''executor'', GoStr ''SPARK''), (''enabled'', GoBool True), (''native_enabled'', GoBool False)]"
  let ?c = "\<lparr>cs_type = ''iceberg_native'', cs_config = [(''table_maintenance'', GoMap ?m)]\<rparr>"
  let ?c' = "\<lparr>cs_type = ''iceberg_native'', cs_config = [(''table_maintenance'',
          GoMap [(''executor'', GoStr ''spark''), (''enabled'', GoBool True)])]\<rparr>"
  have h: "normalizeMaintenanceConfig ?c = Inr ?c'" by code_simp
  have i: "equal_fold (trim_space (cs_type ?c)) ''iceberg_native''" by code_simp
  have "normalizeMaintenanceConfig ?c' = Inr ?c'"
    using normalizeMaintenanceConfig_normal [OF h _ _ _ i, of ?m] by (simp add: map_get_def)
  with h show ?thesis by blast
qed

end
