(* ===== verification/Meta_Db.thy ===== *)
theory Meta_Db
  imports Config_Model
begin

text \<open>
  The metadata database shared by all Rivus processes: the rows of its tables
  (\<open>pkg/meta/job_store.go\<close>, \<open>store.go\<close>, \<open>iceberg_commit_store.go\<close>, \<open>job_rebuild.go\<close>) and the errors
  the stores return. NULL is \<open>None\<close>; MySQL's collation is read as equality of strings; a DATETIME is
  an integer. JSON text is opaque: encoding and decoding are the fields of \<open>json_codec\<close>.

  A SQL transaction is one function on the database. Wherever code reads a clock the reading is an
  argument: \<open>wnow\<close> is a worker's \<open>time.Now()\<close>, \<open>dbnow\<close> the server's \<open>UTC_TIMESTAMP(6)\<close>.
\<close>

section \<open>Errors\<close>

datatype meta_error =
    ErrWorkerOwnershipLost
  | ErrJobStateCleanupBlocked string string
  | ErrSql string
  | ErrNoRows
  | ErrMsg string

section \<open>Rows\<close>

abbreviation "DesiredStateRunning \<equiv> ''RUNNING''"
abbreviation "DesiredStateStopped \<equiv> ''STOPPED''"
abbreviation "JobExecutionRoleAll \<equiv> ''ALL''"
abbreviation "JobExecutionRoleSnapshot \<equiv> ''SNAPSHOT''"
abbreviation "JobExecutionRoleStreaming \<equiv> ''STREAMING''"
abbreviation "IcebergCommitPrepared \<equiv> ''PREPARED''"
abbreviation "IcebergCommitCommitted \<equiv> ''COMMITTED''"
abbreviation "FailureNotificationPending \<equiv> ''PENDING''"
abbreviation "FailureNotificationSent \<equiv> ''SENT''"
abbreviation "FailureNotificationFailed \<equiv> ''FAILED''"

record job_error =
  je_component :: string
  je_message :: string
  je_time :: int

record job_row =
  jr_id :: string
  jr_submission :: string
  jr_name :: string
  jr_config :: string
  jr_meta_key :: "string option"
  jr_desired :: string
  jr_role :: string
  jr_resume :: bool
  jr_owner :: "string option"
  jr_until :: "int option"
  jr_status :: string
  jr_errors :: "string option"
  jr_progress :: "string option"
  jr_created :: int
  jr_updated :: int

record notification_row =
  fn_incident :: string
  fn_job :: string
  fn_payload :: string
  fn_state :: string
  fn_attempts :: int
  fn_next_attempt :: "int option"
  fn_last_error :: string
  fn_created :: int
  fn_updated :: int
  fn_sent :: "int option"

record offset =
  of_file :: string
  of_pos :: "32 word"
  of_updated :: int

record snapshot_state =
  ss_key :: string
  ss_start_file :: string
  ss_start_pos :: "32 word"
  ss_done :: bool
  ss_updated :: int
  ss_completion_version :: int

record snapshot_progress =
  sp_key :: string
  sp_table :: string
  sp_next :: int
  sp_cursor :: string
  sp_updated :: int

record commit_intent =
  ci_operation_id :: string
  ci_source_table :: string
  ci_target_namespace :: string
  ci_target_table :: string
  ci_operation :: string
  ci_replay_keys :: string
  ci_job_id :: string
  ci_state_key :: string
  ci_batch_id :: string
  ci_kind :: string
  ci_source_start_file :: string
  ci_source_start_pos :: "32 word"
  ci_source_end_file :: string
  ci_source_end_pos :: "32 word"
  ci_snapshot_table :: string
  ci_snapshot_start :: int
  ci_snapshot_end :: int
  ci_status :: string
  ci_target_uuid :: string
  ci_trino_query_id :: string

text \<open>An archive keeps what a rebuild discards; its payload is kept as data instead of JSON text.\<close>

record archived_state =
  as_key :: string
  as_offset :: "offset option"
  as_snapshot :: "snapshot_state option"
  as_progress :: "snapshot_progress option"
  as_intents :: "commit_intent list"

record archive_row =
  ar_id :: string
  ar_job :: string
  ar_submission :: string
  ar_state_key :: string
  ar_reason :: string
  ar_config :: string
  ar_states :: "archived_state list"
  ar_created :: int

record meta_db =
  db_jobs :: "job_row list"
  db_notes :: "notification_row list"
  db_offsets :: "string \<rightharpoonup> offset"
  db_snapshots :: "string \<rightharpoonup> snapshot_state"
  db_progress :: "string \<rightharpoonup> snapshot_progress"
  db_intents :: "(int \<times> commit_intent) list"
  db_archives :: "archive_row list"

record json_codec =
  enc_config :: "job_config \<Rightarrow> string"
  dec_config :: "string \<Rightarrow> string + job_config"
  json_set_name :: "string \<Rightarrow> string \<Rightarrow> string"
  enc_errors :: "job_error list \<Rightarrow> string"
  dec_errors :: "string \<Rightarrow> string + job_error list"
  payload_error :: "string \<Rightarrow> string option"

definition nullableString :: "string \<Rightarrow> string option" where
  "nullableString v = (if trim_space v = [] then None else Some v)"

text \<open>The primary keys of the scanned tables.\<close>

definition db_wf :: "meta_db \<Rightarrow> bool" where
  "db_wf db \<longleftrightarrow> distinct (map jr_id (db_jobs db)) \<and> distinct (map fn_incident (db_notes db)) \<and>
     distinct (map (ci_operation_id \<circ> snd) (db_intents db))"

definition job_lookup :: "string \<Rightarrow> meta_db \<Rightarrow> job_row option" where
  "job_lookup k db = tbl_find jr_id k (db_jobs db)"

end
