(* ===== verification/Job_Registry.thy ===== *)
theory Job_Registry
  imports Meta_Db
begin

text \<open>
  The durable job registry: \<open>pkg/meta/job_store.go\<close>, \<open>job_control.go\<close> and \<open>job_presentation.go\<close>.
  Every method is one function on the database; the boolean results say whether the guarded update
  matched a row (the job store connects with \<open>ClientFoundRows\<close>, so a matched row counts even when no
  value changed).

  The lemmas show what each guard protects: a claim never takes an unexpired lease, a worker that
  lost its lease cannot write, a stop request cannot be undone by any worker, a final notification
  stays final.
\<close>

section \<open>Guarded updates\<close>

text \<open>
  \<open>updated_at\<close> is declared \<open>ON UPDATE CURRENT_TIMESTAMP\<close>: a statement that changes another column and
  does not set it moves it to now.
\<close>

definition touch :: "int \<Rightarrow> (job_row \<Rightarrow> job_row) \<Rightarrow> job_row \<Rightarrow> job_row" where
  "touch now f r = (if f r = r then r else (f r)\<lparr>jr_updated := now\<rparr>)"

definition update_jobs :: "(job_row \<Rightarrow> bool) \<Rightarrow> (job_row \<Rightarrow> job_row) \<Rightarrow> meta_db \<Rightarrow> meta_db \<times> bool" where
  "update_jobs P f db =
     (db\<lparr>db_jobs := tbl_update P f (db_jobs db)\<rparr>, 0 < tbl_matched P (db_jobs db))"

definition lease_free :: "int \<Rightarrow> job_row \<Rightarrow> bool" where
  "lease_free dbnow r \<longleftrightarrow> (case jr_until r of None \<Rightarrow> True | Some u \<Rightarrow> u < dbnow)"

definition lease_live :: "int \<Rightarrow> job_row \<Rightarrow> bool" where
  "lease_live dbnow r \<longleftrightarrow> (case jr_until r of None \<Rightarrow> False | Some u \<Rightarrow> dbnow \<le> u)"

section \<open>Persisted jobs\<close>

record persisted_job =
  pj_id :: string
  pj_submission :: string
  pj_name :: string
  pj_meta_key :: string
  pj_config :: "job_config option"
  pj_desired :: string
  pj_role :: string
  pj_resume :: bool
  pj_owner :: string
  pj_until :: "int option"
  pj_status :: string
  pj_errors :: "job_error list"
  pj_progress :: string
  pj_created :: int
  pj_updated :: int

definition or_default :: "string \<Rightarrow> string \<Rightarrow> string" where
  "or_default d v = (if v = [] then d else v)"

definition progress_column :: "persisted_job \<Rightarrow> string option" where
  "progress_column job = (if pj_progress job = [] then None else Some (pj_progress job))"

text \<open>The two halves of the \<open>INSERT \<dots> ON DUPLICATE KEY UPDATE\<close> of \<open>SaveJob\<close>.\<close>

definition inserted_row :: "json_codec \<Rightarrow> int \<Rightarrow> persisted_job \<Rightarrow> job_config \<Rightarrow> job_row" where
  "inserted_row J now job cfg =
     \<lparr>jr_id = or_default (jc_id cfg) (pj_id job), jr_submission = pj_submission job,
      jr_name = or_default (jc_name cfg) (pj_name job), jr_config = enc_config J cfg,
      jr_meta_key = nullableString (pj_meta_key job),
      jr_desired = or_default DesiredStateStopped (pj_desired job),
      jr_role = or_default JobExecutionRoleAll (pj_role job),
      jr_resume = pj_resume job, jr_owner = None, jr_until = None,
      jr_status = or_default ''CREATED'' (pj_status job),
      jr_errors = Some (enc_errors J (pj_errors job)), jr_progress = progress_column job,
      jr_created = now, jr_updated = now\<rparr>"

definition resaved_row :: "json_codec \<Rightarrow> int \<Rightarrow> persisted_job \<Rightarrow> job_config \<Rightarrow> job_row \<Rightarrow> job_row" where
  "resaved_row J now job cfg r =
     r\<lparr>jr_submission := pj_submission job,
       jr_config := json_set_name J (enc_config J cfg) (jr_name r),
       jr_meta_key := nullableString (pj_meta_key job),
       jr_desired := or_default DesiredStateStopped (pj_desired job),
       jr_role := or_default JobExecutionRoleAll (pj_role job),
       jr_resume := pj_resume job, jr_status := or_default ''CREATED'' (pj_status job),
       jr_errors := Some (enc_errors J (pj_errors job)),
       jr_progress := progress_column job, jr_updated := now\<rparr>"

definition SaveJob :: "json_codec \<Rightarrow> int \<Rightarrow> persisted_job \<Rightarrow> meta_db \<Rightarrow> meta_error + meta_db" where
  "SaveJob J now job db =
     (case pj_config job of
        None \<Rightarrow> Inl (ErrMsg ''persisted job config is nil'')
      | Some config \<Rightarrow>
          if trim_space (pj_submission job) = [] then Inl (ErrMsg ''persisted job submission id is empty'')
          else let cfg = setDefaults config in
            if or_default (jc_id cfg) (pj_id job) = [] then Inl (ErrMsg ''persisted job id is empty'')
            else Inr (db\<lparr>db_jobs := tbl_upsert jr_id (resaved_row J now job cfg) (inserted_row J now job cfg)
                          (db_jobs db)\<rparr>))"

definition claimed_guard :: "string \<Rightarrow> string \<Rightarrow> string \<Rightarrow> int \<Rightarrow> job_row \<Rightarrow> bool" where
  "claimed_guard jid submission owner dbnow r \<longleftrightarrow>
     jr_id r = jid \<and> jr_submission r = submission \<and> jr_owner r = Some owner \<and> lease_live dbnow r"

definition claimed_status :: "string \<Rightarrow> string \<Rightarrow> string" where
  "claimed_status status old =
     (if old = ''PAUSING'' \<and> status \<in> {''CREATED'', ''QUEUED'', ''PENDING'', ''RUNNING''} then old else status)"

definition saved_row :: "json_codec \<Rightarrow> int \<Rightarrow> persisted_job \<Rightarrow> job_row \<Rightarrow> job_row" where
  "saved_row J dbnow job r =
     r\<lparr>jr_meta_key := nullableString (pj_meta_key job),
       jr_desired := or_default DesiredStateStopped (pj_desired job),
       jr_role := or_default JobExecutionRoleAll (pj_role job),
       jr_resume := False,
       jr_status := claimed_status (or_default ''CREATED'' (pj_status job)) (jr_status r),
       jr_errors := Some (enc_errors J (pj_errors job)), jr_progress := progress_column job,
       jr_updated := dbnow\<rparr>"

definition SaveClaimedJob ::
  "json_codec \<Rightarrow> int \<Rightarrow> persisted_job \<Rightarrow> string \<Rightarrow> meta_db \<Rightarrow> meta_error + (meta_db \<times> bool)" where
  "SaveClaimedJob J dbnow job owner db =
     (case pj_config job of
        None \<Rightarrow> Inl (ErrMsg ''persisted job config is nil'')
      | Some cfg \<Rightarrow>
          if trim_space (pj_submission job) = [] then Inl (ErrMsg ''persisted job submission id is empty'')
          else if owner = [] then Inl (ErrMsg ''claimed job owner is empty'')
          else let jid = or_default (jc_id cfg) (pj_id job) in
            if jid = [] then Inl (ErrMsg ''persisted job id is empty'')
            else Inr (update_jobs (claimed_guard jid (pj_submission job) owner dbnow) (saved_row J dbnow job) db))"

definition load_job :: "json_codec \<Rightarrow> job_row \<Rightarrow> meta_error + persisted_job" where
  "load_job J r =
     (case dec_config J (jr_config r) of
        Inl e \<Rightarrow> Inl (ErrMsg e)
      | Inr cfg0 \<Rightarrow>
          (let cfg1 = setDefaults cfg0;
               cfg = cfg1\<lparr>jc_id := or_default (jr_id r) (jc_id cfg1), jc_name := jr_name r\<rparr> in
           case (case jr_errors r of
                   Some e \<Rightarrow> if e \<noteq> [] \<and> e \<noteq> ''null'' then dec_errors J e else Inr []
                 | None \<Rightarrow> Inr []) of
             Inl e \<Rightarrow> Inl (ErrMsg e)
           | Inr history \<Rightarrow>
               Inr \<lparr>pj_id = jr_id r, pj_submission = jr_submission r, pj_name = jr_name r,
                    pj_meta_key = (case jr_meta_key r of None \<Rightarrow> [] | Some k \<Rightarrow> k),
                    pj_config = Some cfg, pj_desired = jr_desired r, pj_role = jr_role r,
                    pj_resume = jr_resume r, pj_owner = (case jr_owner r of None \<Rightarrow> [] | Some w \<Rightarrow> w),
                    pj_until = jr_until r, pj_status = jr_status r, pj_errors = history,
                    pj_progress = (case jr_progress r of None \<Rightarrow> [] | Some p \<Rightarrow> p),
                    pj_created = jr_created r, pj_updated = jr_updated r\<rparr>))"

fun loadJobs :: "json_codec \<Rightarrow> job_row list \<Rightarrow> meta_error + persisted_job list" where
  "loadJobs J [] = Inr []"
| "loadJobs J (r # rs) =
     (case load_job J r of
        Inl e \<Rightarrow> Inl e
      | Inr j \<Rightarrow> (case loadJobs J rs of Inl e \<Rightarrow> Inl e | Inr js \<Rightarrow> Inr (j # js)))"

definition LoadJobs :: "json_codec \<Rightarrow> meta_db \<Rightarrow> meta_error + persisted_job list" where
  "LoadJobs J db = loadJobs J (sort_key jr_created (db_jobs db))"

section \<open>Leases\<close>

definition claimable :: "string \<Rightarrow> int \<Rightarrow> job_row \<Rightarrow> bool" where
  "claimable role dbnow r \<longleftrightarrow> jr_role r = role \<and> jr_desired r = DesiredStateRunning \<and> lease_free dbnow r"

definition claim_row :: "string \<Rightarrow> int \<Rightarrow> (string \<Rightarrow> string) \<Rightarrow> job_row \<Rightarrow> job_row" where
  "claim_row owner leaseUntil uuid r =
     r\<lparr>jr_owner := Some owner, jr_until := Some leaseUntil,
       jr_submission := if jr_submission r = [] then uuid (jr_id r) else jr_submission r\<rparr>"

text \<open>The transaction of \<open>ClaimJobs\<close>: choose the oldest claimable rows, then lease each of them.\<close>

definition claim_ids :: "string \<Rightarrow> int \<Rightarrow> int \<Rightarrow> meta_db \<Rightarrow> string list" where
  "claim_ids role limit dbnow db =
     map jr_id (take (nat limit) (sort_key jr_updated (filter (claimable role dbnow) (db_jobs db))))"

definition claim_one ::
  "string \<Rightarrow> string \<Rightarrow> int \<Rightarrow> (string \<Rightarrow> string) \<Rightarrow> int \<Rightarrow> string \<Rightarrow> meta_db \<Rightarrow> meta_db" where
  "claim_one role owner leaseUntil uuid dbnow jid db =
     fst (update_jobs (\<lambda>r. jr_id r = jid \<and> claimable role dbnow r)
            (touch dbnow (claim_row owner leaseUntil uuid)) db)"

definition claim_tx ::
  "string \<Rightarrow> string \<Rightarrow> int \<Rightarrow> int \<Rightarrow> (string \<Rightarrow> string) \<Rightarrow> int \<Rightarrow> meta_db \<Rightarrow> meta_db" where
  "claim_tx role owner limit leaseUntil uuid dbnow db =
     foldl (\<lambda>d jid. claim_one role owner leaseUntil uuid dbnow jid d) db (claim_ids role limit dbnow db)"

definition claimed_rows :: "string \<Rightarrow> string \<Rightarrow> int \<Rightarrow> meta_db \<Rightarrow> job_row list" where
  "claimed_rows role owner dbnow db =
     sort_key jr_updated
       (filter (\<lambda>r. jr_owner r = Some owner \<and> jr_role r = role \<and> jr_desired r = DesiredStateRunning \<and>
                    lease_live dbnow r) (db_jobs db))"

definition lease_duration :: "int \<Rightarrow> int" where
  "lease_duration d = (if d \<le> 0 then 30000000 else d)"

definition ClaimJobs ::
  "json_codec \<Rightarrow> string \<Rightarrow> string \<Rightarrow> int \<Rightarrow> int \<Rightarrow> (string \<Rightarrow> string) \<Rightarrow> int \<Rightarrow> int \<Rightarrow> int \<Rightarrow> meta_db \<Rightarrow>
     meta_db \<times> (meta_error + persisted_job list)" where
  "ClaimJobs J role owner limit leaseDuration uuid wnow dbnow dbnow' db =
     (if role \<noteq> JobExecutionRoleSnapshot \<and> role \<noteq> JobExecutionRoleStreaming
      then (db, Inl (ErrMsg ''unsupported worker role''))
      else if owner = [] then (db, Inl (ErrMsg ''worker owner is empty''))
      else let lim = (if limit \<le> 0 then 100 else limit);
               leaseUntil = wnow + lease_duration leaseDuration in
        if claim_ids role lim dbnow db = [] then (db, Inr [])
        else let db' = claim_tx role owner lim leaseUntil uuid dbnow db
             in (db', loadJobs J (claimed_rows role owner dbnow' db')))"

definition renew_guard :: "string \<Rightarrow> string \<Rightarrow> string \<Rightarrow> job_row \<Rightarrow> bool" where
  "renew_guard jid submission owner r \<longleftrightarrow>
     jr_id r = jid \<and> jr_submission r = submission \<and> jr_owner r = Some owner \<and>
     (jr_desired r = DesiredStateRunning \<or> jr_status r \<in> {''PAUSING'', ''STOPPING''})"

definition RenewJobLease ::
  "string \<Rightarrow> string \<Rightarrow> string \<Rightarrow> int \<Rightarrow> int \<Rightarrow> int \<Rightarrow> meta_db \<Rightarrow> meta_db \<times> bool" where
  "RenewJobLease jid submission owner leaseDuration wnow dbnow db =
     update_jobs (renew_guard jid submission owner)
       (touch dbnow (\<lambda>r. r\<lparr>jr_until := Some (wnow + lease_duration leaseDuration)\<rparr>)) db"

definition release_guard :: "string \<Rightarrow> string \<Rightarrow> string \<Rightarrow> job_row \<Rightarrow> bool" where
  "release_guard jid submission owner r \<longleftrightarrow>
     jr_id r = jid \<and> jr_submission r = submission \<and> jr_owner r = Some owner"

definition ReleaseJobLease :: "string \<Rightarrow> string \<Rightarrow> string \<Rightarrow> int \<Rightarrow> meta_db \<Rightarrow> meta_db" where
  "ReleaseJobLease jid submission owner dbnow db =
     fst (update_jobs (release_guard jid submission owner)
            (touch dbnow (\<lambda>r. r\<lparr>jr_owner := None, jr_until := None\<rparr>)) db)"

definition DeleteJob :: "string \<Rightarrow> meta_db \<Rightarrow> meta_db" where
  "DeleteJob jid db =
     db\<lparr>db_notes := tbl_delete (\<lambda>n. fn_job n = jid) (db_notes db),
        db_jobs := tbl_delete (\<lambda>r. jr_id r = jid) (db_jobs db)\<rparr>"

section \<open>Lifecycle requests\<close>

record control_state =
  cs_desired :: string
  cs_role :: string
  cs_owner :: string
  cs_until :: "int option"
  cs_status :: string

definition LoadJobControl :: "string \<Rightarrow> meta_db \<Rightarrow> meta_error + control_state option" where
  "LoadJobControl raw db =
     (let jid = trim_space raw in
      if jid = [] then Inl (ErrMsg ''job id is empty'')
      else Inr (map_option (\<lambda>r. \<lparr>cs_desired = jr_desired r, cs_role = jr_role r,
             cs_owner = (case jr_owner r of None \<Rightarrow> [] | Some w \<Rightarrow> w), cs_until = jr_until r,
             cs_status = jr_status r\<rparr>) (tbl_find jr_id jid (db_jobs db))))"

definition LoadJobPauseRequests :: "string \<Rightarrow> int \<Rightarrow> meta_db \<Rightarrow> meta_error + string list" where
  "LoadJobPauseRequests raw dbnow db =
     (let owner = trim_space raw in
      if owner = [] then Inl (ErrMsg ''worker owner is empty'')
      else Inr (map jr_id (sort_key jr_id
             (filter (\<lambda>r. jr_owner r = Some owner \<and> lease_live dbnow r \<and> jr_desired r = DesiredStateRunning \<and>
                          jr_status r = ''PAUSING'') (db_jobs db)))))"

definition RequestJobStop :: "string \<Rightarrow> int \<Rightarrow> meta_db \<Rightarrow> meta_error + (meta_db \<times> bool)" where
  "RequestJobStop raw now db =
     (let jid = trim_space raw in
      if jid = [] then Inl (ErrMsg ''job id is empty'')
      else Inr (update_jobs (\<lambda>r. jr_id r = jid)
             (\<lambda>r. r\<lparr>jr_desired := DesiredStateStopped, jr_status := ''STOPPED'', jr_owner := None,
                   jr_until := None, jr_updated := now\<rparr>) db))"

definition RequestJobPause :: "string \<Rightarrow> int \<Rightarrow> meta_db \<Rightarrow> meta_error + (meta_db \<times> bool)" where
  "RequestJobPause raw now db =
     (let jid = trim_space raw in
      if jid = [] then Inl (ErrMsg ''job id is empty'')
      else Inr (update_jobs
             (\<lambda>r. jr_id r = jid \<and> jr_desired r = DesiredStateRunning \<and> jr_status r = ''RUNNING'')
             (\<lambda>r. r\<lparr>jr_status := ''PAUSING'', jr_updated := now\<rparr>) db))"

definition terminal_row :: "string \<Rightarrow> job_row \<Rightarrow> bool" where
  "terminal_row jid r \<longleftrightarrow> jr_id r = jid \<and> jr_status r \<in> {''PAUSED'', ''FAILED'', ''STOPPED''}"

definition RequestJobResume :: "string \<Rightarrow> string \<Rightarrow> int \<Rightarrow> meta_db \<Rightarrow> meta_error + (meta_db \<times> bool)" where
  "RequestJobResume raw role now db =
     (let jid = trim_space raw in
      if jid = [] then Inl (ErrMsg ''job id is empty'')
      else if role \<noteq> JobExecutionRoleSnapshot \<and> role \<noteq> JobExecutionRoleStreaming
      then Inl (ErrMsg ''unsupported execution role'')
      else Inr (update_jobs (terminal_row jid)
             (\<lambda>r. r\<lparr>jr_desired := DesiredStateRunning, jr_role := role, jr_resume := True,
                   jr_status := ''QUEUED'', jr_owner := None, jr_until := None, jr_updated := now\<rparr>) db))"

definition RequestJobFreshSnapshot :: "string \<Rightarrow> int \<Rightarrow> meta_db \<Rightarrow> meta_error + (meta_db \<times> bool)" where
  "RequestJobFreshSnapshot raw now db =
     (let jid = trim_space raw in
      if jid = [] then Inl (ErrMsg ''job id is empty'')
      else Inr (update_jobs (terminal_row jid)
             (\<lambda>r. r\<lparr>jr_desired := DesiredStateRunning, jr_role := JobExecutionRoleSnapshot, jr_resume := False,
                   jr_status := ''QUEUED'', jr_owner := None, jr_until := None, jr_updated := now\<rparr>) db))"

text \<open>Bytes and runes coincide on ASCII text, which is always valid UTF-8.\<close>

definition ValidateJobName :: "string \<Rightarrow> meta_error + string" where
  "ValidateJobName raw =
     (let name = trim_space raw in
      if name = [] \<or> 255 < length name
      then Inl (ErrMsg ''job name must contain 1 to 255 characters'') else Inr name)"

definition RenameJob :: "json_codec \<Rightarrow> string \<Rightarrow> string \<Rightarrow> int \<Rightarrow> meta_db \<Rightarrow> meta_error + (meta_db \<times> bool)" where
  "RenameJob J jid raw now db =
     (case ValidateJobName raw of
        Inl e \<Rightarrow> Inl e
      | Inr name \<Rightarrow>
          Inr (update_jobs (\<lambda>r. jr_id r = jid)
            (\<lambda>r. r\<lparr>jr_name := name, jr_config := json_set_name J (jr_config r) name, jr_updated := now\<rparr>) db))"

section \<open>The notification outbox\<close>

text \<open>
  \<open>SaveFailureNotification\<close> on a notification whose payload is already encoded. A zero time is
  \<open>None\<close>; MySQL evaluates the assignments from left to right, and \<open>state\<close> comes last, so every \<open>IF\<close>
  reads the state the row had before.
\<close>

record notification =
  nt_incident :: string
  nt_job :: string
  nt_payload :: string
  nt_state :: string
  nt_attempts :: int
  nt_next :: "int option"
  nt_last_error :: string
  nt_created :: "int option"
  nt_updated :: "int option"
  nt_sent :: "int option"

definition notification_upsert :: "notification_row \<Rightarrow> notification_row \<Rightarrow> notification_row" where
  "notification_upsert new old =
     (let final = (fn_state old \<in> {FailureNotificationSent, FailureNotificationFailed}) in
      old\<lparr>fn_payload := if final then fn_payload old else fn_payload new,
          fn_attempts := if final then fn_attempts old else fn_attempts new,
          fn_next_attempt := if final then fn_next_attempt old else fn_next_attempt new,
          fn_last_error := if final then fn_last_error old else fn_last_error new,
          fn_updated := if final then fn_updated old else fn_updated new,
          fn_sent := if fn_state old = FailureNotificationSent then fn_sent old else fn_sent new,
          fn_state := if final then fn_state old else fn_state new\<rparr>)"

definition SaveFailureNotification :: "int \<Rightarrow> notification \<Rightarrow> meta_db \<Rightarrow> meta_error + meta_db" where
  "SaveFailureNotification wnow n db =
     (if nt_incident n = [] then Inl (ErrMsg ''failure notification incident id is empty'')
      else if nt_job n = [] then Inl (ErrMsg ''failure notification job id is empty'')
      else let new = \<lparr>fn_incident = nt_incident n, fn_job = nt_job n, fn_payload = nt_payload n,
                      fn_state = or_default FailureNotificationPending (nt_state n),
                      fn_attempts = nt_attempts n, fn_next_attempt = nt_next n, fn_last_error = nt_last_error n,
                      fn_created = (case nt_created n of None \<Rightarrow> wnow | Some t \<Rightarrow> t),
                      fn_updated = (case nt_updated n of None \<Rightarrow> wnow | Some t \<Rightarrow> t),
                      fn_sent = nt_sent n\<rparr>
           in Inr (db\<lparr>db_notes := tbl_upsert fn_incident (notification_upsert new) new (db_notes db)\<rparr>))"

text \<open>\<open>payload_error\<close> is what decoding a stored payload reports, if it fails.\<close>

fun load_notifications :: "json_codec \<Rightarrow> notification_row list \<Rightarrow> meta_error + notification list" where
  "load_notifications J [] = Inr []"
| "load_notifications J (r # rs) =
     (case payload_error J (fn_payload r) of
        Some e \<Rightarrow> Inl (ErrMsg e)
      | None \<Rightarrow>
          (case load_notifications J rs of
             Inl e \<Rightarrow> Inl e
           | Inr ns \<Rightarrow> Inr (\<lparr>nt_incident = fn_incident r, nt_job = fn_job r, nt_payload = fn_payload r,
               nt_state = fn_state r, nt_attempts = fn_attempts r, nt_next = fn_next_attempt r,
               nt_last_error = fn_last_error r, nt_created = Some (fn_created r),
               nt_updated = Some (fn_updated r), nt_sent = fn_sent r\<rparr> # ns)))"

definition LoadPendingFailureNotifications :: "json_codec \<Rightarrow> meta_db \<Rightarrow> meta_error + notification list" where
  "LoadPendingFailureNotifications J db =
     load_notifications J (sort_key fn_created
       (filter (\<lambda>r. fn_state r = FailureNotificationPending) (db_notes db)))"

section \<open>What a guarded update does\<close>

text \<open>
  Every registry method but \<open>SaveJob\<close> and \<open>DeleteJob\<close> rewrites rows in place. \<open>row_writer\<close> is that
  contract: one function per row, the job id kept, no other table touched.
\<close>

definition jobs_only :: "meta_db \<Rightarrow> meta_db \<Rightarrow> bool" where
  "jobs_only db db' \<longleftrightarrow> db' = db\<lparr>db_jobs := db_jobs db'\<rparr>"

locale row_writer =
  fixes run :: "meta_db \<Rightarrow> meta_db" and row :: "meta_db \<Rightarrow> job_row \<Rightarrow> job_row"
  assumes run_rows: "db_wf db \<Longrightarrow> db_jobs (run db) = map (row db) (db_jobs db)"
    and row_id: "jr_id (row db r) = jr_id r"
    and run_frame: "jobs_only db (run db)"
begin

lemma ids: "db_wf db \<Longrightarrow> map jr_id (db_jobs (run db)) = map jr_id (db_jobs db)"
  by (simp add: run_rows row_id)

lemma wf: "db_wf db \<Longrightarrow> db_wf (run db)"
  using ids [of db] run_frame [of db] unfolding db_wf_def jobs_only_def
  by (metis meta_db.select_convs(2,6) meta_db.surjective meta_db.update_convs(1))

lemma lookup: "db_wf db \<Longrightarrow> job_lookup k (run db) = map_option (row db) (job_lookup k db)"
proof -
  have "tbl_find jr_id k (map (row db) t) = map_option (row db) (tbl_find jr_id k t)" for t
    by (induction t) (auto simp: table_simps row_id)
  then show "db_wf db \<Longrightarrow> ?thesis" by (simp add: job_lookup_def run_rows)
qed

end

lemma jobs_only_refl [simp]: "jobs_only db db"
  by (simp add: jobs_only_def)

lemma update_jobs_rows:
  "db_jobs (fst (update_jobs P f db)) = map (\<lambda>r. if P r then f r else r) (db_jobs db)"
  by (simp add: update_jobs_def tbl_update_def)

lemma update_jobs_frame [simp]: "jobs_only db (fst (update_jobs P f db))"
  by (simp add: update_jobs_def jobs_only_def)

lemma update_jobs_matched: "snd (update_jobs P f db) \<longleftrightarrow> (\<exists>r\<in>set (db_jobs db). P r)"
  by (simp add: update_jobs_def tbl_matched_pos)

lemma update_jobs_unmatched: "\<not> snd (update_jobs P f db) \<Longrightarrow> fst (update_jobs P f db) = db"
  by (simp add: update_jobs_def tbl_matched_update_row)

lemma update_jobs_writer:
  "(\<And>r. jr_id (f r) = jr_id r) \<Longrightarrow>
     row_writer (\<lambda>db. fst (update_jobs P f db)) (\<lambda>db r. if P r then f r else r)"
  by unfold_locales (simp_all add: update_jobs_rows)

lemma jr_id_touch [simp]: "jr_id (f r) = jr_id r \<Longrightarrow> jr_id (touch now f r) = jr_id r"
  by (simp add: touch_def)

lemma job_lookup_iff:
  "db_wf db \<Longrightarrow> job_lookup k db = Some r \<longleftrightarrow> r \<in> set (db_jobs db) \<and> jr_id r = k"
  unfolding job_lookup_def db_wf_def by (metis tbl_find_Some_key tbl_find_unique)

lemma update_jobs_matched_lookup:
  assumes "db_wf db" "\<And>r. P r \<Longrightarrow> jr_id r = k"
  shows "snd (update_jobs P f db) \<longleftrightarrow> (\<exists>r. job_lookup k db = Some r \<and> P r)"
  using assms by (auto simp: update_jobs_matched job_lookup_iff)

section \<open>Claiming\<close>

lemma claim_row_id [simp]: "jr_id (claim_row owner u uuid r) = jr_id r"
  by (simp add: claim_row_def)

lemma claim_ids_distinct: "db_wf db \<Longrightarrow> distinct (claim_ids role limit dbnow db)"
proof -
  assume "db_wf db"
  then have "inj_on jr_id (set (db_jobs db))" "distinct (db_jobs db)"
    by (auto simp: db_wf_def distinct_map)
  then show ?thesis
    unfolding claim_ids_def
    by (auto simp: distinct_map intro!: distinct_take intro: inj_on_subset dest!: in_set_takeD)
qed

lemma claim_ids_claimable:
  assumes "db_wf db" "k \<in> set (claim_ids role limit dbnow db)"
  shows "\<exists>r. job_lookup k db = Some r \<and> claimable role dbnow r"
  using assms by (auto simp: claim_ids_def job_lookup_iff dest!: in_set_takeD)

lemma length_claim_ids: "length (claim_ids role limit dbnow db) \<le> nat limit"
  by (simp add: claim_ids_def)

text \<open>Whoever is left out of a claim was updated no earlier than anyone it takes.\<close>

lemma claim_ids_oldest:
  assumes wf: "db_wf db" and k: "k \<in> set (claim_ids role limit dbnow db)" and r: "job_lookup k db = Some r"
    and s: "s \<in> set (db_jobs db)" "claimable role dbnow s" "jr_id s \<notin> set (claim_ids role limit dbnow db)"
  shows "jr_updated r \<le> jr_updated s"
proof -
  let ?l = "sort_key jr_updated (filter (claimable role dbnow) (db_jobs db))" and ?n = "nat limit"
  from k obtain r' where r': "r' \<in> set (take ?n ?l)" "jr_id r' = k" by (auto simp: claim_ids_def)
  from r' have "r' \<in> set (db_jobs db)" by (auto dest: in_set_takeD)
  with wf r r' have eq: "r' = r" by (simp add: job_lookup_iff db_wf_def distinct_map inj_on_def)
  from s have "s \<in> set ?l" "s \<notin> set (take ?n ?l)" by (auto simp: claim_ids_def)
  then have "s \<in> set (drop ?n ?l)" by (metis Un_iff append_take_drop_id set_append)
  moreover have "sorted (map jr_updated (take ?n ?l @ drop ?n ?l))" by simp
  then have "\<forall>x\<in>set (take ?n ?l). \<forall>y\<in>set (drop ?n ?l). jr_updated x \<le> jr_updated y"
    unfolding map_append sorted_append set_map by blast
  ultimately show ?thesis using r' eq by blast
qed

definition claimed :: "string \<Rightarrow> string \<Rightarrow> int \<Rightarrow> (string \<Rightarrow> string) \<Rightarrow> int \<Rightarrow> string list \<Rightarrow> job_row \<Rightarrow> job_row" where
  "claimed role owner u uuid dbnow ids r =
     (if jr_id r \<in> set ids \<and> claimable role dbnow r then touch dbnow (claim_row owner u uuid) r else r)"

lemma claim_fold_rows:
  "distinct ids \<Longrightarrow>
   db_jobs (foldl (\<lambda>d k. claim_one role owner u uuid dbnow k d) db ids) =
     map (claimed role owner u uuid dbnow ids) (db_jobs db) \<and>
   jobs_only db (foldl (\<lambda>d k. claim_one role owner u uuid dbnow k d) db ids)"
proof (induction ids arbitrary: db)
  case Nil
  then show ?case by (auto simp: claimed_def intro: map_idI [symmetric])
next
  case (Cons k ids)
  let ?d = "claim_one role owner u uuid dbnow k db"
  have rows: "db_jobs ?d = map (claimed role owner u uuid dbnow [k]) (db_jobs db)"
    by (simp add: claim_one_def update_jobs_rows claimed_def cong: map_cong)
  have "claimed role owner u uuid dbnow ids (claimed role owner u uuid dbnow [k] r) =
        claimed role owner u uuid dbnow (k # ids) r" for r
    using Cons.prems by (auto simp: claimed_def)
  moreover have "jobs_only db ?d" by (simp add: claim_one_def)
  ultimately show ?case
    using Cons.IH [of ?d] Cons.prems rows by (auto simp: jobs_only_def)
qed

interpretation claim: row_writer "claim_tx role owner limit u uuid dbnow"
    "\<lambda>db. claimed role owner u uuid dbnow (claim_ids role limit dbnow db)"
  for role owner limit u uuid dbnow
proof unfold_locales
  show "jr_id (claimed role owner u uuid dbnow (claim_ids role limit dbnow db) r) = jr_id r" for db r
    by (simp add: claimed_def)
  show "jobs_only db (claim_tx role owner limit u uuid dbnow db)" for db
  proof -
    have "jobs_only db (foldl (\<lambda>d k. claim_one role owner u uuid dbnow k d) db ids)" for ids
    proof (induction ids arbitrary: db)
      case (Cons k ids)
      then have "jobs_only (claim_one role owner u uuid dbnow k db)
        (foldl (\<lambda>d k. claim_one role owner u uuid dbnow k d) db (k # ids))" by simp
      then show ?case by (simp add: jobs_only_def claim_one_def update_jobs_def)
    qed simp
    then show ?thesis by (simp add: claim_tx_def)
  qed
qed (simp add: claim_tx_def claim_fold_rows claim_ids_distinct)

interpretation renew: row_writer "\<lambda>db. fst (RenewJobLease k sub owner d wnow dbnow db)"
    "\<lambda>db r. if renew_guard k sub owner r
       then touch dbnow (\<lambda>r. r\<lparr>jr_until := Some (wnow + lease_duration d)\<rparr>) r else r"
  for k sub owner d wnow dbnow
  unfolding RenewJobLease_def by (rule update_jobs_writer) simp

interpretation release: row_writer "ReleaseJobLease k sub owner dbnow"
    "\<lambda>db r. if release_guard k sub owner r
       then touch dbnow (\<lambda>r. r\<lparr>jr_owner := None, jr_until := None\<rparr>) r else r"
  for k sub owner dbnow
  unfolding ReleaseJobLease_def [abs_def] by (rule update_jobs_writer) simp


lemma ClaimJobs_db:
  "fst (ClaimJobs J role owner limit d uuid wnow dbnow dbnow' db) = db \<or>
   fst (ClaimJobs J role owner limit d uuid wnow dbnow dbnow' db) =
     claim_tx role owner (if limit \<le> 0 then 100 else limit) (wnow + lease_duration d) uuid dbnow db"
  by (auto simp: ClaimJobs_def Let_def)

lemma claimed_unclaimable: "\<not> claimable role dbnow r \<Longrightarrow> claimed role owner u uuid dbnow ids r = r"
  by (simp add: claimed_def)

lemma claimed_fields:
  assumes "claimed role owner u uuid dbnow ids r \<noteq> r"
  shows "jr_id r \<in> set ids" "claimable role dbnow r"
    "jr_owner (claimed role owner u uuid dbnow ids r) = Some owner"
    "jr_until (claimed role owner u uuid dbnow ids r) = Some u"
    "jr_desired (claimed role owner u uuid dbnow ids r) = DesiredStateRunning"
    "jr_role (claimed role owner u uuid dbnow ids r) = role"
    "jr_status (claimed role owner u uuid dbnow ids r) = jr_status r"
    "jr_config (claimed role owner u uuid dbnow ids r) = jr_config r"
    "jr_submission (claimed role owner u uuid dbnow ids r) =
       (if jr_submission r = [] then uuid (jr_id r) else jr_submission r)"
  using assms by (auto simp: claimed_def touch_def claim_row_def claimable_def split: if_splits)

text \<open>
  C1: a claim only takes jobs of the worker's role that are meant to run and whose lease is absent or
  expired on the database clock: every other row is left exactly as it was. A row it does take names the
  claiming worker as owner until the worker's clock plus the lease duration, keeps its status,
  configuration and non-empty submission, and no more than the requested number of rows change.
\<close>

theorem ClaimJobs_exclusive:
  fixes limit :: int and J role owner d uuid wnow dbnow dbnow'
  assumes "db_wf db"
  defines "db' \<equiv> fst (ClaimJobs J role owner limit d uuid wnow dbnow dbnow' db)"
  shows "(\<forall>k r. job_lookup k db = Some r \<and> \<not> claimable role dbnow r \<longrightarrow> job_lookup k db' = Some r) \<and>
    (\<forall>k r r'. job_lookup k db = Some r \<and> job_lookup k db' = Some r' \<and> r' \<noteq> r \<longrightarrow>
       claimable role dbnow r \<and> jr_owner r' = Some owner \<and> jr_until r' = Some (wnow + lease_duration d) \<and>
       jr_status r' = jr_status r \<and> jr_config r' = jr_config r \<and>
       jr_submission r' = (if jr_submission r = [] then uuid k else jr_submission r)) \<and>
    (\<forall>k. job_lookup k db = None \<longleftrightarrow> job_lookup k db' = None) \<and>
    card {k. job_lookup k db' \<noteq> job_lookup k db} \<le> nat (if limit \<le> 0 then 100 else limit)"
proof -
  let ?lim = "if limit \<le> 0 then 100 else limit" and ?u = "wnow + lease_duration d"
  let ?ids = "claim_ids role ?lim dbnow db"
  consider "db' = db" | "db' = claim_tx role owner ?lim ?u uuid dbnow db"
    unfolding db'_def using ClaimJobs_db by metis
  then show ?thesis
  proof cases
    case 1
    then show ?thesis by auto
  next
    case 2
    have look: "job_lookup k db' = map_option (claimed role owner ?u uuid dbnow ?ids) (job_lookup k db)" for k
      unfolding 2 by (rule claim.lookup [OF assms(1)])
    have key: "\<And>k r. job_lookup k db = Some r \<Longrightarrow> jr_id r = k" using assms(1) by (simp add: job_lookup_iff)
    have "{k. job_lookup k db' \<noteq> job_lookup k db} \<subseteq> set ?ids"
    proof
      fix k assume "k \<in> {k. job_lookup k db' \<noteq> job_lookup k db}"
      then obtain r where r: "job_lookup k db = Some r" "claimed role owner ?u uuid dbnow ?ids r \<noteq> r"
        by (cases "job_lookup k db") (auto simp: look)
      then show "k \<in> set ?ids" using claimed_fields(1) [OF r(2)] key [OF r(1)] by simp
    qed
    then have "card {k. job_lookup k db' \<noteq> job_lookup k db} \<le> length ?ids"
      by (meson List.finite_set card_length card_mono le_trans)
    also have "\<dots> \<le> nat ?lim" by (rule length_claim_ids)
    finally have card: "card {k. job_lookup k db' \<noteq> job_lookup k db} \<le> nat ?lim" .
    then show ?thesis by (auto simp: look claimed_unclaimable claimed_fields(3-9) dest: claimed_fields(2) key)
  qed
qed


text \<open>A small registry on which the hypotheses of the theorems hold.\<close>

definition sample_row :: "string \<Rightarrow> string \<Rightarrow> string option \<Rightarrow> int option \<Rightarrow> string \<Rightarrow> job_row" where
  "sample_row k desired owner u status =
     \<lparr>jr_id = k, jr_submission = ''s1'', jr_name = ''job'', jr_config = ''{}'', jr_meta_key = None,
      jr_desired = desired, jr_role = JobExecutionRoleStreaming, jr_resume = False, jr_owner = owner,
      jr_until = u, jr_status = status, jr_errors = None, jr_progress = None, jr_created = 0, jr_updated = 0\<rparr>"

definition sample_db :: "job_row list \<Rightarrow> meta_db" where
  "sample_db rows = \<lparr>db_jobs = rows, db_notes = [], db_offsets = Map.empty, db_snapshots = Map.empty,
     db_progress = Map.empty, db_intents = [], db_archives = []\<rparr>"

definition sample_codec :: json_codec where
  "sample_codec = \<lparr>enc_config = (\<lambda>_. ''{}''), dec_config = (\<lambda>_. Inl ''bad''), json_set_name = (\<lambda>c _. c),
     enc_errors = (\<lambda>_. ''null''), dec_errors = (\<lambda>_. Inr []), payload_error = (\<lambda>_. None)\<rparr>"

lemma ClaimJobs_exclusive_witness:
  "let a = sample_row ''a'' DesiredStateRunning (Some ''w1'') (Some 50) ''RUNNING'';
       b = sample_row ''b'' DesiredStateRunning (Some ''w1'') (Some 5) ''RUNNING'';
       db = sample_db [a, b];
       db' = fst (ClaimJobs sample_codec JobExecutionRoleStreaming ''w2'' 0 0 (\<lambda>_. ''u'') 10 10 11 db) in
     job_lookup ''a'' db' = Some a \<and> map_option jr_owner (job_lookup ''b'' db') = Some (Some ''w2'')"
proof -
  let ?a = "sample_row ''a'' DesiredStateRunning (Some ''w1'') (Some 50) ''RUNNING''"
  let ?b = "sample_row ''b'' DesiredStateRunning (Some ''w1'') (Some 5) ''RUNNING''"
  let ?db = "sample_db [?a, ?b]"
  have wf: "db_wf ?db" by (simp add: db_wf_def sample_db_def sample_row_def)
  have a: "job_lookup ''a'' ?db = Some ?a" by (simp add: job_lookup_def sample_db_def sample_row_def table_simps)
  have "\<not> claimable JobExecutionRoleStreaming 10 ?a" by (simp add: claimable_def lease_free_def sample_row_def)
  note ClaimJobs_exclusive [OF wf, where J = sample_codec and role = JobExecutionRoleStreaming
      and owner = "''w2''" and limit = 0 and d = 0 and uuid = "\<lambda>_. ''u''" and wnow = 10 and dbnow = 10 and dbnow' = 11,
      THEN conjunct1, rule_format, OF conjI, OF a this]
  moreover have "map_option jr_owner (job_lookup ''b'' (fst (ClaimJobs sample_codec JobExecutionRoleStreaming
      ''w2'' 0 0 (\<lambda>_. ''u'') 10 10 11 ?db))) = Some (Some ''w2'')" by code_simp
  ultimately show ?thesis by (simp only: Let_def)
qed

section \<open>Worker writes\<close>

lemma job_lookup_id: "job_lookup k db = Some r \<Longrightarrow> jr_id r = k"
  unfolding job_lookup_def by (blast dest: tbl_find_Some_key)


lemma update_jobs_lookup:
  assumes "db_wf db" "\<And>r. jr_id (f r) = jr_id r"
  shows "job_lookup k (fst (update_jobs P f db)) =
     map_option (\<lambda>r. if P r then f r else r) (job_lookup k db)"
  by (rule row_writer.lookup [OF update_jobs_writer [OF assms(2)] assms(1)])

lemma update_jobs_wf: "db_wf db \<Longrightarrow> (\<And>r. jr_id (f r) = jr_id r) \<Longrightarrow> db_wf (fst (update_jobs P f db))"
  by (rule row_writer.wf [OF update_jobs_writer])

lemma claimed_guard_lookup:
  assumes "db_wf db"
  shows "snd (update_jobs (claimed_guard k sub owner dbnow) f db) \<longleftrightarrow>
     (\<exists>r. job_lookup k db = Some r \<and> jr_submission r = sub \<and> jr_owner r = Some owner \<and> lease_live dbnow r)"
  using update_jobs_matched_lookup [OF assms, of "claimed_guard k sub owner dbnow" k f]
  by (fastforce simp: claimed_guard_def job_lookup_iff [OF assms])

definition job_key :: "persisted_job \<Rightarrow> string" where
  "job_key job = (case pj_config job of None \<Rightarrow> [] | Some c \<Rightarrow> or_default (jc_id c) (pj_id job))"

lemma SaveClaimedJob_Inr:
  "SaveClaimedJob J dbnow job owner db = Inr (db', ok) \<Longrightarrow>
     (db', ok) = update_jobs (claimed_guard (job_key job) (pj_submission job) owner dbnow) (saved_row J dbnow job) db"
  by (simp add: SaveClaimedJob_def Let_def job_key_def split: option.splits if_splits)

lemma jr_id_saved_row [simp]: "jr_id (saved_row J dbnow job r) = jr_id r"
  by (simp add: saved_row_def)

text \<open>
  C9: a worker's save takes effect only while that worker holds the unexpired lease of the same
  submission. Otherwise it reports false and the database is unchanged. When it takes effect it changes
  only its own row, never the name, configuration, submission or lease, and a pause request
  (\<open>PAUSING\<close>) survives the routine statuses CREATED, QUEUED, PENDING and RUNNING.
\<close>

theorem SaveClaimedJob_fenced:
  assumes "db_wf db" "SaveClaimedJob J dbnow job owner db = Inr (db', ok)"
  shows "(ok \<longleftrightarrow> (\<exists>r. job_lookup (job_key job) db = Some r \<and> jr_submission r = pj_submission job \<and>
                   jr_owner r = Some owner \<and> lease_live dbnow r)) \<and>
    (\<not> ok \<longrightarrow> db' = db) \<and>
    (\<forall>k. k \<noteq> job_key job \<longrightarrow> job_lookup k db' = job_lookup k db) \<and>
    (\<forall>r. ok \<and> job_lookup (job_key job) db = Some r \<longrightarrow>
       (\<exists>r'. job_lookup (job_key job) db' = Some r' \<and> jr_owner r' = jr_owner r \<and> jr_until r' = jr_until r \<and>
          jr_name r' = jr_name r \<and> jr_config r' = jr_config r \<and> jr_submission r' = jr_submission r \<and>
          jr_progress r' = progress_column job \<and> \<not> jr_resume r' \<and>
          (jr_status r = ''PAUSING'' \<and> pj_status job \<in> {[], ''CREATED'', ''QUEUED'', ''PENDING'', ''RUNNING''}
             \<longrightarrow> jr_status r' = ''PAUSING'') \<and>
          (jr_status r \<noteq> ''PAUSING'' \<and> pj_status job \<noteq> [] \<longrightarrow> jr_status r' = pj_status job)))"
proof -
  let ?f = "saved_row J dbnow job"
  let ?P = "claimed_guard (job_key job) (pj_submission job) owner dbnow"
  note upd = SaveClaimedJob_Inr [OF assms(2)]
  have look: "job_lookup k db' = map_option (\<lambda>r. if ?P r then ?f r else r) (job_lookup k db)" for k
    using update_jobs_lookup [OF assms(1), of ?f k ?P] upd by (metis fst_conv jr_id_saved_row)
  have ok: "ok \<longleftrightarrow> (\<exists>r. job_lookup (job_key job) db = Some r \<and> jr_submission r = pj_submission job \<and>
                   jr_owner r = Some owner \<and> lease_live dbnow r)"
    using claimed_guard_lookup [OF assms(1), of "job_key job" "pj_submission job" owner dbnow ?f] upd
    by (metis snd_conv)
  have same: "\<not> ok \<longrightarrow> db' = db" using update_jobs_unmatched [of ?P ?f db] upd by (metis fst_conv snd_conv)
  have key: "\<And>k r. job_lookup k db = Some r \<Longrightarrow> jr_id r = k" using assms(1) by (simp add: job_lookup_iff)
  have other: "k \<noteq> job_key job \<Longrightarrow> job_lookup k db' = job_lookup k db" for k
    by (cases "job_lookup k db") (auto simp: look claimed_guard_def dest: key)
  have own: "job_lookup (job_key job) db' = Some (?f r)" if "ok" "job_lookup (job_key job) db = Some r" for r
    using that ok by (auto simp: look claimed_guard_def dest: key)
  show ?thesis
  proof (intro conjI ok same; intro allI impI)
    fix r assume r: "ok \<and> job_lookup (job_key job) db = Some r"
    show "\<exists>r'. job_lookup (job_key job) db' = Some r' \<and> jr_owner r' = jr_owner r \<and> jr_until r' = jr_until r \<and>
          jr_name r' = jr_name r \<and> jr_config r' = jr_config r \<and> jr_submission r' = jr_submission r \<and>
          jr_progress r' = progress_column job \<and> \<not> jr_resume r' \<and>
          (jr_status r = ''PAUSING'' \<and> pj_status job \<in> {[], ''CREATED'', ''QUEUED'', ''PENDING'', ''RUNNING''}
             \<longrightarrow> jr_status r' = ''PAUSING'') \<and>
          (jr_status r \<noteq> ''PAUSING'' \<and> pj_status job \<noteq> [] \<longrightarrow> jr_status r' = pj_status job)"
      by (rule exI [of _ "?f r"]) (use r own in \<open>simp add: saved_row_def claimed_status_def or_default_def\<close>)
  qed (rule other)
qed


definition sample_job :: "string \<Rightarrow> string \<Rightarrow> persisted_job" where
  "sample_job k status =
     \<lparr>pj_id = k, pj_submission = ''s1'', pj_name = [], pj_meta_key = [],
      pj_config = Some zero_config,
      pj_desired = DesiredStateRunning, pj_role = JobExecutionRoleStreaming, pj_resume = False, pj_owner = [],
      pj_until = None, pj_status = status, pj_errors = [], pj_progress = [], pj_created = 0, pj_updated = 0\<rparr>"

lemma SaveClaimedJob_fenced_witness:
  "let r = sample_row ''a'' DesiredStateRunning (Some ''w1'') (Some 50) ''PAUSING'';
       db = sample_db [r] in
     (case SaveClaimedJob sample_codec 10 (sample_job ''a'' ''RUNNING'') ''w1'' db of
        Inr (db', ok) \<Rightarrow> ok \<and> map_option jr_status (job_lookup ''a'' db') = Some ''PAUSING''
      | Inl e \<Rightarrow> False)"
proof -
  let ?r = "sample_row ''a'' DesiredStateRunning (Some ''w1'') (Some 50) ''PAUSING''"
  let ?db = "sample_db [?r]" and ?job = "sample_job ''a'' ''RUNNING''"
  have wf: "db_wf ?db" by (simp add: db_wf_def sample_db_def sample_row_def)
  have r: "job_lookup (job_key ?job) ?db = Some ?r" by code_simp
  obtain db' ok where save: "SaveClaimedJob sample_codec 10 ?job ''w1'' ?db = Inr (db', ok)"
    by (simp add: SaveClaimedJob_def sample_job_def trim_space_def is_space_def or_default_def update_jobs_def Let_def)
  have "jr_submission ?r = pj_submission ?job" "jr_owner ?r = Some ''w1''" "lease_live 10 ?r"
      "jr_status ?r = ''PAUSING''" "pj_status ?job = ''RUNNING''" "job_key ?job = ''a''"
    by (simp_all add: sample_row_def sample_job_def lease_live_def job_key_def or_default_def)
  with SaveClaimedJob_fenced [OF wf save] r save show ?thesis by (auto simp: Let_def)
qed

section \<open>The stop fence\<close>

text \<open>What a worker process can do to the registry, at any time and with any arguments.\<close>

inductive worker_step :: "meta_db \<Rightarrow> meta_db \<Rightarrow> bool" where
  ws_claim: "worker_step db (fst (ClaimJobs J role owner limit d uuid wnow dbnow dbnow' db))"
| ws_renew: "worker_step db (fst (RenewJobLease k sub owner d wnow dbnow db))"
| ws_release: "worker_step db (ReleaseJobLease k sub owner dbnow db)"
| ws_save: "SaveClaimedJob J dbnow job owner db = Inr (db', ok) \<Longrightarrow> worker_step db db'"

definition fenced_row :: "job_row \<Rightarrow> bool" where
  "fenced_row r \<longleftrightarrow> jr_desired r = DesiredStateStopped \<and> jr_owner r = None"

lemma fenced_step:
  assumes "worker_step db db'" "db_wf db" "job_lookup k db = Some r" "fenced_row r"
  shows "db_wf db' \<and> job_lookup k db' = Some r"
  using assms
proof (induction rule: worker_step.induct)
  case (ws_claim db J role owner limit d uuid wnow dbnow dbnow')
  then have "\<not> claimable role dbnow r" by (simp add: fenced_row_def claimable_def)
  with ws_claim show ?case
    using ClaimJobs_db [of J role owner limit d uuid wnow dbnow dbnow' db] claim.wf claim.lookup
    by (elim disjE) (simp_all add: claimed_unclaimable)
next
  case (ws_renew db k' sub owner d wnow dbnow)
  then show ?case by (simp add: renew.wf renew.lookup renew_guard_def fenced_row_def)
next
  case (ws_release db k' sub owner dbnow)
  then show ?case by (simp add: release.wf release.lookup release_guard_def fenced_row_def)
next
  case (ws_save J dbnow job owner db db' ok)
  note upd = SaveClaimedJob_Inr [OF ws_save(1)]
  then have "db' = fst (update_jobs (claimed_guard (job_key job) (pj_submission job) owner dbnow)
     (saved_row J dbnow job) db)" by (metis fst_conv)
  with ws_save show ?case
    by (simp add: update_jobs_wf update_jobs_lookup claimed_guard_def fenced_row_def)
qed

lemma fenced_steps:
  "worker_step\<^sup>*\<^sup>* db db' \<Longrightarrow> db_wf db \<Longrightarrow> job_lookup k db = Some r \<Longrightarrow> fenced_row r \<Longrightarrow>
     db_wf db' \<and> job_lookup k db' = Some r"
  by (induction rule: rtranclp_induct) (use fenced_step in blast)+

definition stopped_row :: "int \<Rightarrow> job_row \<Rightarrow> job_row" where
  "stopped_row now r = r\<lparr>jr_desired := DesiredStateStopped, jr_status := ''STOPPED'', jr_owner := None,
     jr_until := None, jr_updated := now\<rparr>"

lemma RequestJobStop_lookup:
  assumes "db_wf db" "RequestJobStop raw now db = Inr (db', ok)"
  shows "job_lookup k db' = map_option (\<lambda>r. if jr_id r = trim_space raw then stopped_row now r else r) (job_lookup k db)"
    "ok \<longleftrightarrow> job_lookup (trim_space raw) db \<noteq> None" "db_wf db'"
proof -
  let ?P = "\<lambda>r. jr_id r = trim_space raw"
  have upd: "(db', ok) = update_jobs ?P (stopped_row now) db"
    using assms(2) by (simp add: RequestJobStop_def Let_def stopped_row_def [abs_def] split: if_splits)
  then have fst: "db' = fst (update_jobs ?P (stopped_row now) db)" by (metis fst_conv)
  show "job_lookup k db' = map_option (\<lambda>r. if ?P r then stopped_row now r else r) (job_lookup k db)"
    unfolding fst by (rule update_jobs_lookup [OF assms(1)]) (simp add: stopped_row_def)
  show "db_wf db'" unfolding fst by (rule update_jobs_wf [OF assms(1)]) (simp add: stopped_row_def)
  have "ok = snd (update_jobs ?P (stopped_row now) db)" using upd by (metis snd_conv)
  then show "ok \<longleftrightarrow> job_lookup (trim_space raw) db \<noteq> None"
    using update_jobs_matched_lookup [OF assms(1), of ?P "trim_space raw" "stopped_row now"]
    by (auto dest: job_lookup_id)
qed

text \<open>
  C26: once a stop request has matched a job, no sequence of claims, lease renewals, lease releases and
  worker saves, by any worker with any arguments, changes the row the request left: the job stays
  STOPPED and unowned. Jobs other than the requested one are not affected by the request.
\<close>

theorem stop_is_a_fence:
  assumes "db_wf db" "RequestJobStop raw now db = Inr (db1, True)" "worker_step\<^sup>*\<^sup>* db1 db2"
  shows "(\<exists>r. job_lookup (trim_space raw) db = Some r \<and>
      job_lookup (trim_space raw) db2 = Some (r\<lparr>jr_desired := DesiredStateStopped, jr_status := ''STOPPED'',
         jr_owner := None, jr_until := None, jr_updated := now\<rparr>)) \<and>
    (\<forall>k. k \<noteq> trim_space raw \<longrightarrow> job_lookup k db1 = job_lookup k db)"
proof -
  note stop = RequestJobStop_lookup [OF assms(1,2)]
  have key: "\<And>k r. job_lookup k db = Some r \<Longrightarrow> jr_id r = k" using assms(1) by (simp add: job_lookup_iff)
  from stop(2) obtain r where r: "job_lookup (trim_space raw) db = Some r" by auto
  then have r1: "job_lookup (trim_space raw) db1 = Some (stopped_row now r)" by (simp add: stop(1) key)
  have "fenced_row (stopped_row now r)" by (simp add: fenced_row_def stopped_row_def)
  from fenced_steps [OF assms(3) stop(3) r1 this]
  have "job_lookup (trim_space raw) db2 = Some (stopped_row now r)" by simp
  moreover have "k \<noteq> trim_space raw \<Longrightarrow> job_lookup k db1 = job_lookup k db" for k
    by (cases "job_lookup k db") (auto simp: stop(1) dest: key)
  ultimately show ?thesis using r by (auto simp: stopped_row_def)
qed


lemma stop_is_a_fence_witness:
  "\<exists>db1. RequestJobStop ''a'' 7 (sample_db [sample_row ''a'' DesiredStateRunning (Some ''w1'') (Some 50) ''RUNNING'']) = Inr (db1, True) \<and>
     map_option jr_status (job_lookup ''a'' (ReleaseJobLease ''a'' ''s1'' ''w1'' 9 db1)) = Some ''STOPPED''"
proof -
  let ?db = "sample_db [sample_row ''a'' DesiredStateRunning (Some ''w1'') (Some 50) ''RUNNING'']"
  have wf: "db_wf ?db" by (simp add: db_wf_def sample_db_def sample_row_def)
  have t: "trim_space ''a'' = ''a''" by code_simp
  obtain db1 where db1: "RequestJobStop ''a'' 7 ?db = Inr (db1, True)"
    by (simp add: RequestJobStop_def Let_def t update_jobs_def tbl_matched_def sample_db_def sample_row_def)
  have "worker_step\<^sup>*\<^sup>* db1 (ReleaseJobLease ''a'' ''s1'' ''w1'' 9 db1)"
    by (rule r_into_rtranclp) (rule ws_release)
  from stop_is_a_fence [OF wf db1 this] db1 show ?thesis by (auto simp: t)
qed

section \<open>Restarting a terminal job\<close>

definition queued_row :: "string \<Rightarrow> bool \<Rightarrow> int \<Rightarrow> job_row \<Rightarrow> job_row" where
  "queued_row role resume now r =
     r\<lparr>jr_desired := DesiredStateRunning, jr_role := role, jr_resume := resume, jr_status := ''QUEUED'',
       jr_owner := None, jr_until := None, jr_updated := now\<rparr>"

lemma terminal_update:
  assumes "db_wf db" "(db', ok) = update_jobs (terminal_row j) (queued_row role resume now) db"
  shows "job_lookup k db' = map_option (\<lambda>r. if terminal_row j r then queued_row role resume now r else r) (job_lookup k db)"
    "ok \<longleftrightarrow> (\<exists>r. job_lookup j db = Some r \<and> terminal_row j r)"
proof -
  have fst: "db' = fst (update_jobs (terminal_row j) (queued_row role resume now) db)"
    and snd: "ok = snd (update_jobs (terminal_row j) (queued_row role resume now) db)"
    using assms(2) by (metis fst_conv, metis snd_conv)
  show "job_lookup k db' = map_option (\<lambda>r. if terminal_row j r then queued_row role resume now r else r) (job_lookup k db)"
    unfolding fst by (rule update_jobs_lookup [OF assms(1)]) (simp add: queued_row_def)
  show "ok \<longleftrightarrow> (\<exists>r. job_lookup j db = Some r \<and> terminal_row j r)"
    unfolding snd by (rule update_jobs_matched_lookup [OF assms(1)]) (simp add: terminal_row_def)
qed

lemma RequestJobResume_Inr:
  "RequestJobResume raw role now db = Inr (db', ok) \<Longrightarrow>
     (db', ok) = update_jobs (terminal_row (trim_space raw)) (queued_row role True now) db \<and>
     role \<in> {JobExecutionRoleSnapshot, JobExecutionRoleStreaming}"
  by (simp add: RequestJobResume_def Let_def queued_row_def [abs_def] split: if_splits)

lemma RequestJobFreshSnapshot_Inr:
  "RequestJobFreshSnapshot raw now db = Inr (db', ok) \<Longrightarrow>
     (db', ok) = update_jobs (terminal_row (trim_space raw)) (queued_row JobExecutionRoleSnapshot False now) db"
  by (simp add: RequestJobFreshSnapshot_def Let_def queued_row_def [abs_def] split: if_splits)

lemma claimable_queued_row:
  "claimable role' t (queued_row role resume now r) \<longleftrightarrow> role' = role"
  by (auto simp: claimable_def queued_row_def lease_free_def)

text \<open>
  A resume or a fresh-snapshot request succeeds exactly when the job exists in a terminal state
  (PAUSED, FAILED or STOPPED). A job in any other state keeps its row, so a second resume cannot clear
  the lease of the worker that already runs the job; no other job is touched. After success the job is
  unowned and at every later time claimable by workers of the requested role only.
\<close>

theorem restart_only_terminal_jobs:
  assumes "db_wf db"
    and "RequestJobResume raw role now db = Inr (db', ok) \<and> resume \<or>
         RequestJobFreshSnapshot raw now db = Inr (db', ok) \<and> role = JobExecutionRoleSnapshot \<and> \<not> resume"
  shows "(ok \<longleftrightarrow> (\<exists>r. job_lookup (trim_space raw) db = Some r \<and> jr_status r \<in> {''PAUSED'', ''FAILED'', ''STOPPED''})) \<and>
    (\<forall>k r. job_lookup k db = Some r \<and> (k \<noteq> trim_space raw \<or> jr_status r \<notin> {''PAUSED'', ''FAILED'', ''STOPPED''})
       \<longrightarrow> job_lookup k db' = Some r) \<and>
    (ok \<longrightarrow> (\<exists>r'. job_lookup (trim_space raw) db' = Some r' \<and> jr_owner r' = None \<and> jr_resume r' = resume \<and>
       jr_status r' = ''QUEUED'' \<and> (\<forall>t role'. claimable role' t r' \<longleftrightarrow> role' = role)))"
proof -
  have "(db', ok) = update_jobs (terminal_row (trim_space raw)) (queued_row role resume now) db"
    using assms(2) by (auto dest!: RequestJobResume_Inr RequestJobFreshSnapshot_Inr)
  note upd = terminal_update [OF assms(1) this]
  have status: "terminal_row (trim_space raw) r \<longleftrightarrow> jr_status r \<in> {''PAUSED'', ''FAILED'', ''STOPPED''}"
    if "job_lookup (trim_space raw) db = Some r" for r
    using job_lookup_id [OF that] by (simp add: terminal_row_def)
  show ?thesis
  proof (intro conjI)
    show ok: "ok \<longleftrightarrow> (\<exists>r. job_lookup (trim_space raw) db = Some r \<and> jr_status r \<in> {''PAUSED'', ''FAILED'', ''STOPPED''})"
      using upd(2) status by blast
    show "\<forall>k r. job_lookup k db = Some r \<and> (k \<noteq> trim_space raw \<or> jr_status r \<notin> {''PAUSED'', ''FAILED'', ''STOPPED''})
       \<longrightarrow> job_lookup k db' = Some r"
      by (auto simp: upd(1) terminal_row_def dest: job_lookup_id)
    show "ok \<longrightarrow> (\<exists>r'. job_lookup (trim_space raw) db' = Some r' \<and> jr_owner r' = None \<and> jr_resume r' = resume \<and>
       jr_status r' = ''QUEUED'' \<and> (\<forall>t role'. claimable role' t r' \<longleftrightarrow> role' = role))"
    proof
      assume ok
      then obtain r where "job_lookup (trim_space raw) db = Some r" "terminal_row (trim_space raw) r"
        using upd(2) by blast
      then have "job_lookup (trim_space raw) db' = Some (queued_row role resume now r)" by (simp add: upd(1))
      moreover have "jr_owner (queued_row role resume now r) = None" "jr_resume (queued_row role resume now r) = resume"
        "jr_status (queued_row role resume now r) = ''QUEUED''" by (simp_all add: queued_row_def)
      ultimately show "\<exists>r'. job_lookup (trim_space raw) db' = Some r' \<and> jr_owner r' = None \<and> jr_resume r' = resume \<and>
         jr_status r' = ''QUEUED'' \<and> (\<forall>t role'. claimable role' t r' \<longleftrightarrow> role' = role)"
        using claimable_queued_row by blast
    qed
  qed
qed

lemma restart_only_terminal_jobs_witness:
  "\<exists>db'. RequestJobResume ''a'' JobExecutionRoleStreaming 7
       (sample_db [sample_row ''a'' DesiredStateRunning (Some ''w1'') (Some 50) ''RUNNING'']) = Inr (db', False) \<and>
     job_lookup ''a'' db' = Some (sample_row ''a'' DesiredStateRunning (Some ''w1'') (Some 50) ''RUNNING'')"
proof -
  let ?r = "sample_row ''a'' DesiredStateRunning (Some ''w1'') (Some 50) ''RUNNING''"
  let ?db = "sample_db [?r]"
  have wf: "db_wf ?db" by (simp add: db_wf_def sample_db_def sample_row_def)
  have t: "trim_space ''a'' = ''a''" by code_simp
  have r: "job_lookup ''a'' ?db = Some ?r" by code_simp
  obtain db' where db': "RequestJobResume ''a'' JobExecutionRoleStreaming 7 ?db = Inr (db', False)"
    by (simp add: RequestJobResume_def Let_def t update_jobs_def tbl_matched_def sample_db_def sample_row_def terminal_row_def)
  have "jr_status ?r = ''RUNNING''" by (simp add: sample_row_def)
  with restart_only_terminal_jobs [OF wf, of "''a''" JobExecutionRoleStreaming 7 db' False True] db' r
  show ?thesis by (auto simp: t)
qed

section \<open>What a claim returns\<close>

lemma loadJobs_ids:
  "loadJobs J rs = Inr js \<Longrightarrow> map pj_id js = map jr_id rs \<and> map pj_owner js = map (\<lambda>r. case jr_owner r of None \<Rightarrow> [] | Some w \<Rightarrow> w) rs"
  by (induction rs arbitrary: js)
    (auto simp: load_job_def Let_def split: sum.splits option.splits if_splits)

text \<open>
  The lease a claim writes ends at the claiming worker's clock plus the duration, while every check
  compares it with the database clock. A worker whose clock is behind the database by more than the
  lease duration still changes the rows, but is handed none of the jobs it claimed, and each of them is
  at once claimable by another worker.
\<close>

theorem ClaimJobs_clock_skew:
  assumes "db_wf db" "wnow + lease_duration d < dbnow'" "dbnow \<le> dbnow'"
    and "ClaimJobs J role owner limit d uuid wnow dbnow dbnow' db = (db', Inr jobs)"
    and "job_lookup k db = Some r" "job_lookup k db' = Some r'" "r' \<noteq> r"
  shows "k \<notin> pj_id ` set jobs \<and> claimable role dbnow' r'"
proof -
  let ?lim = "if limit \<le> 0 then 100 else limit" and ?u = "wnow + lease_duration d"
  let ?ids = "claim_ids role ?lim dbnow db"
  have "db' \<noteq> db" using assms(5-7) by auto
  then have db': "db' = claim_tx role owner ?lim ?u uuid dbnow db"
      and jobs: "loadJobs J (claimed_rows role owner dbnow' db') = Inr jobs"
    using assms(4) by (auto simp: ClaimJobs_def Let_def split: if_splits)
  have wf': "db_wf db'" unfolding db' by (rule claim.wf [OF assms(1)])
  have r': "r' = claimed role owner ?u uuid dbnow ?ids r"
    using assms(5,6) claim.lookup [OF assms(1), of k role owner ?lim ?u uuid dbnow] by (simp add: db')
  with assms(7) have "claimed role owner ?u uuid dbnow ?ids r \<noteq> r" by simp
  note f = claimed_fields [OF this, folded r']
  have "claimable role dbnow' r'" using f assms(2) by (simp add: claimable_def lease_free_def)
  moreover have "k \<notin> pj_id ` set jobs"
  proof
    assume "k \<in> pj_id ` set jobs"
    then have "k \<in> jr_id ` set (claimed_rows role owner dbnow' db')"
      using loadJobs_ids [OF jobs] by (metis set_map)
    then obtain s where s: "s \<in> set (db_jobs db')" "jr_id s = k" "lease_live dbnow' s"
      by (auto simp: claimed_rows_def)
    then have "job_lookup k db' = Some s" using wf' by (simp add: job_lookup_iff)
    with assms(6) s(3) f(4) assms(2) show False by (simp add: lease_live_def)
  qed
  ultimately show ?thesis by blast
qed


lemma ClaimJobs_clock_skew_witness:
  "\<exists>db' r'. fst (ClaimJobs sample_codec JobExecutionRoleStreaming ''w2'' 0 5 (\<lambda>_. ''u'') 10 40 40
       (sample_db [sample_row ''a'' DesiredStateRunning None None ''QUEUED''])) = db' \<and>
     job_lookup ''a'' db' = Some r' \<and> jr_owner r' = Some ''w2'' \<and> claimable JobExecutionRoleStreaming 40 r'"
proof -
  let ?r = "sample_row ''a'' DesiredStateRunning None None ''QUEUED''"
  let ?db = "sample_db [?r]"
  let ?r' = "?r\<lparr>jr_owner := Some ''w2'', jr_until := Some 15, jr_updated := 40\<rparr>"
  let ?res = "ClaimJobs sample_codec JobExecutionRoleStreaming ''w2'' 0 5 (\<lambda>_. ''u'') 10 40 40 ?db"
  have wf: "db_wf ?db" by (simp add: db_wf_def sample_db_def sample_row_def)
  have r: "job_lookup ''a'' ?db = Some ?r" by code_simp
  have r': "job_lookup ''a'' (fst ?res) = Some ?r'" by code_simp
  have "snd ?res = Inr []" by code_simp
  then have res: "?res = (fst ?res, Inr [])" by (metis prod.collapse)
  have d: "(10::int) + lease_duration 5 < 40" by (simp add: lease_duration_def)
  have ne: "?r' \<noteq> ?r" by (simp add: sample_row_def)
  from ClaimJobs_clock_skew [OF wf d order_refl res r r' ne] r' show ?thesis by auto
qed

section \<open>Saving and loading a job\<close>

definition saved_name :: "persisted_job \<Rightarrow> job_config \<Rightarrow> meta_db \<Rightarrow> string" where
  "saved_name job c db =
     (case job_lookup (or_default (jc_id c) (pj_id job)) db of
        None \<Rightarrow> or_default (jc_name c) (pj_name job) | Some r \<Rightarrow> jr_name r)"

lemma load_job_row:
  assumes "dec_config J (jr_config r) = Inr c" "jr_errors r = Some e"
    "dec_errors J e = Inr es" "e \<in> {[], ''null''} \<Longrightarrow> es = []"
  shows "load_job J r = Inr \<lparr>pj_id = jr_id r, pj_submission = jr_submission r, pj_name = jr_name r,
     pj_meta_key = (case jr_meta_key r of None \<Rightarrow> [] | Some k \<Rightarrow> k),
     pj_config = Some ((setDefaults c)\<lparr>jc_id := or_default (jr_id r) (jc_id (setDefaults c)), jc_name := jr_name r\<rparr>),
     pj_desired = jr_desired r, pj_role = jr_role r, pj_resume = jr_resume r,
     pj_owner = (case jr_owner r of None \<Rightarrow> [] | Some w \<Rightarrow> w), pj_until = jr_until r,
     pj_status = jr_status r, pj_errors = es, pj_progress = (case jr_progress r of None \<Rightarrow> [] | Some p \<Rightarrow> p),
     pj_created = jr_created r, pj_updated = jr_updated r\<rparr>"
  using assms by (auto simp: load_job_def Let_def)

lemma setDefaults_name: "setDefaults (c\<lparr>jc_name := n\<rparr>) = (setDefaults c)\<lparr>jc_name := n\<rparr>"
  by (simp add: setDefaults_def normalize_config_def Let_def)

lemma setDefaults_id [simp]: "jc_id (setDefaults c) = jc_id c"
  by (simp add: setDefaults_def normalize_config_def Let_def)

lemma SaveJob_lookup:
  assumes "SaveJob J now job db = Inr db'" "pj_config job = Some config" "db_wf db"
  defines "c \<equiv> setDefaults config"
  shows "job_lookup k db' =
      (if k = or_default (jc_id c) (pj_id job)
       then Some (case job_lookup k db of None \<Rightarrow> inserted_row J now job c | Some r \<Rightarrow> resaved_row J now job c r)
       else job_lookup k db)"
proof -
  have "db' = db\<lparr>db_jobs := tbl_upsert jr_id (resaved_row J now job c) (inserted_row J now job c) (db_jobs db)\<rparr>"
    using assms(1,2) by (simp add: SaveJob_def Let_def c_def split: if_splits)
  then show ?thesis
    by (simp add: job_lookup_def tbl_find_upsert resaved_row_def) (simp add: inserted_row_def)
qed

lemma SaveJob_wf: "SaveJob J now job db = Inr db' \<Longrightarrow> db_wf db \<Longrightarrow> db_wf db'"
  by (auto simp: SaveJob_def Let_def db_wf_def resaved_row_def intro!: distinct_tbl_upsert split: option.splits if_splits)

text \<open>
  C31: a job that is saved and loaded again comes back with its submission, requested states, errors,
  progress, meta key (unless blank) and normalised configuration, where JSON decoding inverts encoding
  on the values concerned. A stored name wins over the name being saved, and saving never touches the
  lease of an existing row nor any other row; a new row has no lease.
\<close>

theorem SaveJob_load_roundtrip:
  fixes J job config
  defines "c \<equiv> setDefaults config"
  defines "k \<equiv> or_default (jc_id c) (pj_id job)"
  assumes save: "SaveJob J now job db = Inr db'" and cfg: "pj_config job = Some config" and wf: "db_wf db"
    and json: "dec_config J (enc_config J c) = Inr c"
      "dec_config J (json_set_name J (enc_config J c) (saved_name job c db)) = Inr (c\<lparr>jc_name := saved_name job c db\<rparr>)"
      "dec_errors J (enc_errors J (pj_errors job)) = Inr (pj_errors job)"
      "enc_errors J (pj_errors job) \<in> {[], ''null''} \<longrightarrow> pj_errors job = []"
  shows "\<exists>r. job_lookup k db' = Some r \<and>
      load_job J r = Inr \<lparr>pj_id = k, pj_submission = pj_submission job, pj_name = saved_name job c db,
        pj_meta_key = (if trim_space (pj_meta_key job) = [] then [] else pj_meta_key job),
        pj_config = Some ((setDefaults c)\<lparr>jc_id := or_default k (jc_id c), jc_name := saved_name job c db\<rparr>),
        pj_desired = or_default DesiredStateStopped (pj_desired job),
        pj_role = or_default JobExecutionRoleAll (pj_role job), pj_resume = pj_resume job,
        pj_owner = (case jr_owner r of None \<Rightarrow> [] | Some w \<Rightarrow> w), pj_until = jr_until r,
        pj_status = or_default ''CREATED'' (pj_status job), pj_errors = pj_errors job,
        pj_progress = pj_progress job, pj_created = jr_created r, pj_updated = now\<rparr> \<and>
      (jr_owner r, jr_until r) =
        (case job_lookup k db of None \<Rightarrow> (None, None) | Some old \<Rightarrow> (jr_owner old, jr_until old)) \<and>
      (\<forall>k'. k' \<noteq> k \<longrightarrow> job_lookup k' db' = job_lookup k' db)"
proof -
  note look = SaveJob_lookup [OF save cfg wf, folded c_def, folded k_def]
  have other: "\<forall>k'. k' \<noteq> k \<longrightarrow> job_lookup k' db' = job_lookup k' db" by (simp add: look)
  have errs: "enc_errors J (pj_errors job) \<in> {[], ''null''} \<Longrightarrow> pj_errors job = []" using json(4) by blast
  show ?thesis
  proof (cases "job_lookup k db")
    case None
    let ?r = "inserted_row J now job c"
    have "dec_config J (jr_config ?r) = Inr c" "jr_errors ?r = Some (enc_errors J (pj_errors job))"
      by (simp_all add: inserted_row_def json(1))
    note load = load_job_row [OF this json(3) errs]
    from None load other show ?thesis
      by (simp add: look) (simp add: inserted_row_def saved_name_def k_def [symmetric] nullableString_def progress_column_def)
  next
    case (Some old)
    let ?r = "resaved_row J now job c old"
    have n: "saved_name job c db = jr_name old" using Some by (simp add: saved_name_def k_def)
    have "dec_config J (jr_config ?r) = Inr (c\<lparr>jc_name := saved_name job c db\<rparr>)"
        "jr_errors ?r = Some (enc_errors J (pj_errors job))"
      using json(2) n by (simp_all add: resaved_row_def)
    note load = load_job_row [OF this json(3) errs]
    from Some load other show ?thesis
      by (simp add: look) (simp add: resaved_row_def n job_lookup_id [OF Some] setDefaults_name nullableString_def progress_column_def)
  qed
qed


lemma SaveJob_load_roundtrip_witness:
  "let c = setDefaults zero_config;
       J = sample_codec\<lparr>dec_config := (\<lambda>s. Inr (if s = ''n'' then c\<lparr>jc_name := ''job''\<rparr> else c)),
             json_set_name := (\<lambda>_ _. ''n'')\<rparr> in
     \<exists>db' r j. SaveJob J 9 (sample_job ''a'' ''QUEUED'')
         (sample_db [sample_row ''a'' DesiredStateRunning (Some ''w1'') (Some 50) ''RUNNING'']) = Inr db' \<and>
       job_lookup ''a'' db' = Some r \<and> load_job J r = Inr j \<and> pj_status j = ''QUEUED'' \<and> pj_owner j = ''w1''"
proof -
  let ?c = "setDefaults zero_config"
  let ?J = "sample_codec\<lparr>dec_config := (\<lambda>s. Inr (if s = ''n'' then ?c\<lparr>jc_name := ''job''\<rparr> else ?c)),
             json_set_name := (\<lambda>_ _. ''n'')\<rparr>"
  let ?job = "sample_job ''a'' ''QUEUED''"
  let ?r = "sample_row ''a'' DesiredStateRunning (Some ''w1'') (Some 50) ''RUNNING''"
  let ?db = "sample_db [?r]"
  have wf: "db_wf ?db" by (simp add: db_wf_def sample_db_def sample_row_def)
  have k: "or_default (jc_id zero_config) (pj_id ?job) = ''a''" by (simp add: sample_job_def or_default_def)
  have r: "job_lookup ''a'' ?db = Some ?r" by code_simp
  obtain db' where save: "SaveJob ?J 9 ?job ?db = Inr db'"
    by (simp add: SaveJob_def Let_def sample_job_def trim_space_def is_space_def or_default_def)
  have cfg: "pj_config ?job = Some zero_config" by (simp add: sample_job_def)
  have n: "saved_name ?job ?c ?db = ''job''" 
    unfolding saved_name_def setDefaults_id k r by (simp add: sample_row_def)
  have json: "dec_config ?J (enc_config ?J ?c) = Inr ?c"
    "dec_config ?J (json_set_name ?J (enc_config ?J ?c) (saved_name ?job ?c ?db)) =
       Inr (?c\<lparr>jc_name := saved_name ?job ?c ?db\<rparr>)"
    "dec_errors ?J (enc_errors ?J (pj_errors ?job)) = Inr (pj_errors ?job)"
    "enc_errors ?J (pj_errors ?job) \<in> {[], ''null''} \<longrightarrow> pj_errors ?job = []"
    unfolding n by (simp_all add: sample_codec_def) (simp_all add: sample_job_def)
  have "or_default ''CREATED'' (pj_status ?job) = ''QUEUED''" "jr_owner ?r = Some ''w1''"
    by (simp_all add: sample_job_def or_default_def sample_row_def)
  with SaveJob_load_roundtrip [OF save cfg wf json] save show ?thesis
    by (auto simp: Let_def k r)
qed

section \<open>Final notifications\<close>

definition outbox_step :: "meta_db \<Rightarrow> meta_db \<Rightarrow> bool" where
  "outbox_step db db' \<longleftrightarrow> (\<exists>wnow n. SaveFailureNotification wnow n db = Inr db')"

definition final_notification :: "notification_row \<Rightarrow> bool" where
  "final_notification r \<longleftrightarrow> fn_state r \<in> {FailureNotificationSent, FailureNotificationFailed}"

lemma notification_upsert_final:
  "final_notification old \<Longrightarrow>
     notification_upsert new old = old\<lparr>fn_sent := if fn_state old = FailureNotificationSent then fn_sent old else fn_sent new\<rparr>"
  by (simp add: final_notification_def notification_upsert_def Let_def)

lemma outbox_step_final:
  assumes "outbox_step db db'" "tbl_find fn_incident i (db_notes db) = Some old" "final_notification old"
  shows "\<exists>t. tbl_find fn_incident i (db_notes db') = Some (old\<lparr>fn_sent := t\<rparr>) \<and>
     (fn_state old = FailureNotificationSent \<longrightarrow> t = fn_sent old)"
proof -
  obtain new where new: "db' = db\<lparr>db_notes := tbl_upsert fn_incident (notification_upsert new) new (db_notes db)\<rparr>"
    using assms(1) by (auto simp: outbox_step_def SaveFailureNotification_def Let_def split: if_splits)
  have key: "fn_incident (notification_upsert new r) = fn_incident r" for r
    by (simp add: notification_upsert_def Let_def)
  have same: "old\<lparr>fn_sent := fn_sent old\<rparr> = old" by simp
  show ?thesis
    unfolding new using assms(2)
    by (cases "i = fn_incident new")
      (auto simp: tbl_find_upsert [of fn_incident "notification_upsert new", OF key] notification_upsert_final [OF assms(3)] intro: exI [of _ "fn_sent old"])
qed

lemma load_notifications_incidents:
  "load_notifications J rs = Inr ns \<Longrightarrow> map nt_incident ns = map fn_incident rs"
  by (induction rs arbitrary: ns) (auto split: option.splits sum.splits)

text \<open>
  A notification row that reached SENT or FAILED stays final under any sequence of later saves, of
  any notification: a SENT row never changes at all, a FAILED row keeps every column but the time of
  sending. The delivery loop, which loads pending rows only, never picks such an incident up again.
\<close>

theorem final_notifications_stay_final:
  assumes "outbox_step\<^sup>*\<^sup>* db db'" "tbl_find fn_incident i (db_notes db) = Some old"
    "fn_state old \<in> {FailureNotificationSent, FailureNotificationFailed}"
    "distinct (map fn_incident (db_notes db'))"
  shows "(\<exists>r. tbl_find fn_incident i (db_notes db') = Some r \<and> r\<lparr>fn_sent := fn_sent old\<rparr> = old \<and>
       (fn_state old = FailureNotificationSent \<longrightarrow> r = old)) \<and>
     (\<forall>ns. LoadPendingFailureNotifications J db' = Inr ns \<longrightarrow> i \<notin> nt_incident ` set ns)"
proof -
  have ex: "\<exists>t. tbl_find fn_incident i (db_notes db') = Some (old\<lparr>fn_sent := t\<rparr>) \<and>
     (fn_state old = FailureNotificationSent \<longrightarrow> t = fn_sent old)"
    using assms(1,2)
  proof (induction rule: rtranclp_induct)
    case base
    then show ?case by (intro exI [of _ "fn_sent old"]) simp
  next
    case (step db1 db2)
    then obtain t where t: "tbl_find fn_incident i (db_notes db1) = Some (old\<lparr>fn_sent := t\<rparr>)"
      "fn_state old = FailureNotificationSent \<longrightarrow> t = fn_sent old" by blast
    moreover have "final_notification (old\<lparr>fn_sent := t\<rparr>)" using assms(3) by (simp add: final_notification_def)
    ultimately show ?case using outbox_step_final [OF step(2) t(1)] by auto
  qed
  then obtain t where t: "tbl_find fn_incident i (db_notes db') = Some (old\<lparr>fn_sent := t\<rparr>)"
    "fn_state old = FailureNotificationSent \<longrightarrow> t = fn_sent old" by blast
  have "i \<notin> nt_incident ` set ns" if "LoadPendingFailureNotifications J db' = Inr ns" for ns
  proof
    assume "i \<in> nt_incident ` set ns"
    then have "i \<in> fn_incident ` {r \<in> set (db_notes db'). fn_state r = FailureNotificationPending}"
      using arg_cong [OF load_notifications_incidents [OF that [unfolded LoadPendingFailureNotifications_def]], of set]
      by simp
    then obtain r where r: "r \<in> set (db_notes db')" "fn_incident r = i" "fn_state r = FailureNotificationPending" by blast
    then have "tbl_find fn_incident i (db_notes db') = Some r" using tbl_find_unique [OF assms(4)] by blast
    with t(1) r(3) assms(3) show False by auto
  qed
  moreover have "\<exists>r. tbl_find fn_incident i (db_notes db') = Some r \<and> r\<lparr>fn_sent := fn_sent old\<rparr> = old \<and>
       (fn_state old = FailureNotificationSent \<longrightarrow> r = old)"
    using t by (intro exI [of _ "old\<lparr>fn_sent := t\<rparr>"]) simp
  ultimately show ?thesis by blast
qed

definition sample_note :: "string \<Rightarrow> notification_row" where
  "sample_note state = \<lparr>fn_incident = ''i'', fn_job = ''a'', fn_payload = ''{}'', fn_state = state, fn_attempts = 1,
     fn_next_attempt = None, fn_last_error = [], fn_created = 0, fn_updated = 0, fn_sent = Some 3\<rparr>"

lemma final_notifications_stay_final_witness:
  "\<exists>db'. SaveFailureNotification 9 \<lparr>nt_incident = ''i'', nt_job = ''a'', nt_payload = ''x'', nt_state = FailureNotificationPending,
       nt_attempts = 7, nt_next = None, nt_last_error = [], nt_created = None, nt_updated = None, nt_sent = None\<rparr>
       ((sample_db [])\<lparr>db_notes := [sample_note FailureNotificationSent]\<rparr>) = Inr db' \<and>
     tbl_find fn_incident ''i'' (db_notes db') = Some (sample_note FailureNotificationSent)"
proof -
  let ?n = "\<lparr>nt_incident = ''i'', nt_job = ''a'', nt_payload = ''x'', nt_state = FailureNotificationPending,
       nt_attempts = 7, nt_next = None, nt_last_error = [], nt_created = None, nt_updated = None, nt_sent = None\<rparr>"
  let ?db = "(sample_db [])\<lparr>db_notes := [sample_note FailureNotificationSent]\<rparr>"
  obtain db' where save: "SaveFailureNotification 9 ?n ?db = Inr db'"
    by (simp add: SaveFailureNotification_def Let_def)
  then have step: "outbox_step\<^sup>*\<^sup>* ?db db'" by (intro r_into_rtranclp) (auto simp: outbox_step_def)
  have old: "tbl_find fn_incident ''i'' (db_notes ?db) = Some (sample_note FailureNotificationSent)"
    by (simp add: sample_note_def table_simps)
  have st: "fn_state (sample_note FailureNotificationSent) = FailureNotificationSent" by (simp add: sample_note_def)
  have "distinct (map fn_incident (db_notes db'))"
    using save by (auto simp: SaveFailureNotification_def Let_def sample_note_def tbl_upsert_def tbl_update_def)
  note final_notifications_stay_final [OF step old _ this, where J = sample_codec, THEN conjunct1]
  with st have "tbl_find fn_incident ''i'' (db_notes db') = Some (sample_note FailureNotificationSent)" by simp
  with save show ?thesis by blast
qed

end
