(* ===== verification/Offset_Store.thy ===== *)
theory Offset_Store
  imports Job_Registry Binlog
begin

text \<open>
  Checkpoints and commit intents: \<open>pkg/meta/store.go\<close>, \<open>iceberg_commit_store.go\<close>,
  \<open>pkg/connector/offset.go\<close> and \<open>snapshot.go\<close>. An operation returns its result together with the
  database after it, because a failing operation need not have left the database alone. SQL errors
  other than a duplicate primary key are not modelled, except where the code deliberately tolerates one
  between two statements; there the error is an argument.

  The lemmas show what the checkpoint rows promise: a snapshot is only marked complete when no commit of
  its state is unresolved, a retained intent blocks the reset of the checkpoints it protects, and
  progress forgets exactly the committed intents it covers.
\<close>

type_synonym 'a db_op = "meta_db \<Rightarrow> (meta_error + 'a) \<times> meta_db"

section \<open>Checkpoints\<close>

definition GetOffset :: "string \<Rightarrow> meta_db \<Rightarrow> offset option" where
  "GetOffset key db = db_offsets db key"

definition SaveOffset :: "int \<Rightarrow> string \<Rightarrow> offset \<Rightarrow> unit db_op" where
  "SaveOffset now key off db =
     (Inr (), db\<lparr>db_offsets := (db_offsets db)(key \<mapsto>
        \<lparr>of_file = of_file off, of_pos = of_pos off, of_updated = now\<rparr>)\<rparr>)"

definition CompletionConfirmed :: "snapshot_state option \<Rightarrow> bool" where
  "CompletionConfirmed s = (case s of None \<Rightarrow> False | Some st \<Rightarrow> ss_done st \<and> ss_completion_version st = 1)"

definition GetSnapshotState :: "string \<Rightarrow> meta_db \<Rightarrow> snapshot_state option" where
  "GetSnapshotState key db = db_snapshots db key"

definition SaveSnapshotStart :: "int \<Rightarrow> string \<Rightarrow> offset \<Rightarrow> unit db_op" where
  "SaveSnapshotStart now key start db =
     (Inr (), db\<lparr>db_snapshots := (db_snapshots db)(key \<mapsto>
        \<lparr>ss_key = key, ss_start_file = of_file start, ss_start_pos = of_pos start, ss_done = False,
         ss_updated = now, ss_completion_version = 0\<rparr>)\<rparr>)"

definition unresolved_intents :: "string \<Rightarrow> meta_db \<Rightarrow> bool" where
  "unresolved_intents key db \<longleftrightarrow>
     (\<exists>(t, i) \<in> set (db_intents db). ci_state_key i = key \<and> ci_status i \<noteq> IcebergCommitCommitted)"

definition MarkSnapshotDone :: "int \<Rightarrow> string \<Rightarrow> unit db_op" where
  "MarkSnapshotDone now key db =
     (case db_snapshots db key of
        Some st \<Rightarrow>
          if \<not> ss_done st \<and> \<not> unresolved_intents key db
          then (Inr (), db\<lparr>db_snapshots := (db_snapshots db)(key \<mapsto>
                  st\<lparr>ss_done := True, ss_completion_version := 1, ss_updated := now\<rparr>)\<rparr>)
          else if CompletionConfirmed (GetSnapshotState key db) then (Inr (), db)
          else (Inl (ErrMsg ''snapshot completion BLOCKED''), db)
      | None \<Rightarrow> (Inl (ErrMsg ''snapshot completion BLOCKED''), db))"

definition GetSnapshotProgress :: "string \<Rightarrow> meta_db \<Rightarrow> snapshot_progress option" where
  "GetSnapshotProgress key db = db_progress db key"

definition covered_snapshot_intent :: "string \<Rightarrow> string \<Rightarrow> int \<Rightarrow> commit_intent \<Rightarrow> bool" where
  "covered_snapshot_intent key table nextOffset i \<longleftrightarrow>
     ci_state_key i = key \<and> ci_kind i = ''snapshot'' \<and> ci_status i = IcebergCommitCommitted \<and>
     ci_snapshot_table i = table \<and> ci_snapshot_end i \<le> nextOffset"

text \<open>
  The progress row and the cleanup are two statements. \<open>cleanup\<close> is the error of the second, if any;
  a blank cursor is stored as NULL and read back as the empty string.
\<close>

definition SaveSnapshotProgress :: "meta_error option \<Rightarrow> int \<Rightarrow> string \<Rightarrow> string \<Rightarrow> int \<Rightarrow> string \<Rightarrow> unit db_op" where
  "SaveSnapshotProgress cleanup now key table nextOffset cursor db =
     (let db1 = db\<lparr>db_progress := (db_progress db)(key \<mapsto>
            \<lparr>sp_key = key, sp_table = table, sp_next = nextOffset,
             sp_cursor = (case nullableString cursor of None \<Rightarrow> [] | Some c \<Rightarrow> c), sp_updated = now\<rparr>)\<rparr> in
      case cleanup of
        Some e \<Rightarrow> (Inl e, db1)
      | None \<Rightarrow> (Inr (), db1\<lparr>db_intents :=
          tbl_delete (\<lambda>(t, i). covered_snapshot_intent key table nextOffset i) (db_intents db1)\<rparr>))"

definition ClearSnapshotProgress :: "string \<Rightarrow> unit db_op" where
  "ClearSnapshotProgress key db = (Inr (), db\<lparr>db_progress := (db_progress db)(key := None)\<rparr>)"

definition checkJobStateCleanup :: "string \<Rightarrow> meta_db \<Rightarrow> meta_error + unit" where
  "checkJobStateCleanup key db =
     (case find (\<lambda>(t, i). ci_state_key i = key \<or> ci_job_id i = key) (db_intents db) of
        Some (t, i) \<Rightarrow> Inl (ErrJobStateCleanupBlocked key (ci_operation_id i))
      | None \<Rightarrow> Inr ())"

definition deleteJobState :: "string \<Rightarrow> unit db_op" where
  "deleteJobState key db =
     (case checkJobStateCleanup key db of
        Inl e \<Rightarrow> (Inl e, db)
      | Inr _ \<Rightarrow> (Inr (), db\<lparr>db_snapshots := (db_snapshots db)(key := None),
           db_progress := (db_progress db)(key := None), db_offsets := (db_offsets db)(key := None)\<rparr>))"

text \<open>Without an enclosing transaction the deletion opens its own and rolls back on an error.\<close>

definition DeleteJobState :: "bool \<Rightarrow> string \<Rightarrow> unit db_op" where
  "DeleteJobState in_tx key db =
     (if in_tx then deleteJobState key db
      else case deleteJobState key db of (Inl e, _) \<Rightarrow> (Inl e, db) | (Inr u, db') \<Rightarrow> (Inr u, db'))"

definition CheckJobStateCleanup :: "string \<Rightarrow> meta_db \<Rightarrow> meta_error + unit" where
  "CheckJobStateCleanup key db = checkJobStateCleanup key db"

section \<open>Commit intents\<close>

definition listIcebergCommits :: "(commit_intent \<Rightarrow> bool) \<Rightarrow> meta_db \<Rightarrow> commit_intent list" where
  "listIcebergCommits P db =
     map snd (sort_key (\<lambda>(t, i). (t, ci_operation_id i)) (filter (\<lambda>(t, i). P i) (db_intents db)))"

definition ListIcebergCommits :: "string \<Rightarrow> meta_db \<Rightarrow> commit_intent list" where
  "ListIcebergCommits key = listIcebergCommits (\<lambda>i. ci_state_key i = key)"

definition ListIcebergCommitsForJob :: "string \<Rightarrow> string \<Rightarrow> meta_db \<Rightarrow> commit_intent list" where
  "ListIcebergCommitsForJob key job = listIcebergCommits (\<lambda>i. ci_state_key i = key \<or> ci_job_id i = job)"

definition GetIcebergCommit :: "string \<Rightarrow> string \<Rightarrow> meta_db \<Rightarrow> commit_intent option" where
  "GetIcebergCommit key op_id db =
     (case listIcebergCommits (\<lambda>i. ci_state_key i = key \<and> ci_operation_id i = op_id) db of
        [] \<Rightarrow> None | i # _ \<Rightarrow> Some i)"

definition update_intents :: "(commit_intent \<Rightarrow> bool) \<Rightarrow> (commit_intent \<Rightarrow> commit_intent) \<Rightarrow> meta_db \<Rightarrow> meta_db" where
  "update_intents P f db = db\<lparr>db_intents := tbl_update (\<lambda>(t, i). P i) (\<lambda>(t, i). (t, f i)) (db_intents db)\<rparr>"

definition prepared_rebuild :: "string \<Rightarrow> string \<Rightarrow> commit_intent \<Rightarrow> bool" where
  "prepared_rebuild key op_id i \<longleftrightarrow>
     ci_state_key i = key \<and> ci_operation_id i = op_id \<and> ci_kind i = ''rebuild'' \<and> ci_status i = IcebergCommitPrepared"

definition RecordIcebergTrinoQuery :: "string \<Rightarrow> string \<Rightarrow> string \<Rightarrow> unit db_op" where
  "RecordIcebergTrinoQuery key op_id query db =
     (if query = [] then (Inl (ErrMsg ''empty Trino query identity''), db)
      else let db1 = update_intents (\<lambda>i. prepared_rebuild key op_id i \<and> ci_trino_query_id i \<in> {[], query})
                       (\<lambda>i. i\<lparr>ci_trino_query_id := query\<rparr>) db in
        case find (\<lambda>(t, i). prepared_rebuild key op_id i) (db_intents db1) of
          None \<Rightarrow> (Inl ErrNoRows, db1)
        | Some (t, i) \<Rightarrow> if ci_trino_query_id i \<noteq> query then (Inl (ErrMsg ''Trino query identity changed''), db1)
                        else (Inr (), db1))"

definition BeginIcebergCommit :: "int \<Rightarrow> commit_intent \<Rightarrow> unit db_op" where
  "BeginIcebergCommit now intent db =
     (if \<exists>(t, i) \<in> set (db_intents db). ci_operation_id i = ci_operation_id intent
      then (Inl (ErrSql ''duplicate entry''), db)
      else (Inr (), db\<lparr>db_intents := db_intents db @
              [(now, intent\<lparr>ci_status := IcebergCommitPrepared, ci_trino_query_id := []\<rparr>)]\<rparr>))"

definition prepared_intent :: "string \<Rightarrow> string \<Rightarrow> commit_intent \<Rightarrow> bool" where
  "prepared_intent key op_id i \<longleftrightarrow>
     ci_state_key i = key \<and> ci_operation_id i = op_id \<and> ci_status i = IcebergCommitPrepared"

definition MarkIcebergCommitCommitted :: "string \<Rightarrow> string \<Rightarrow> unit db_op" where
  "MarkIcebergCommitCommitted key op_id db =
     (let db1 = update_intents (prepared_intent key op_id) (\<lambda>i. i\<lparr>ci_status := IcebergCommitCommitted\<rparr>) db in
      if tbl_matched (\<lambda>(t, i). prepared_intent key op_id i) (db_intents db) \<noteq> 1
      then (Inl (ErrMsg ''cannot be marked committed''), db1) else (Inr (), db1))"

definition DeleteIcebergCommit :: "string \<Rightarrow> string \<Rightarrow> unit db_op" where
  "DeleteIcebergCommit key op_id db =
     (Inr (), db\<lparr>db_intents :=
        tbl_delete (\<lambda>(t, i). ci_state_key i = key \<and> ci_operation_id i = op_id) (db_intents db)\<rparr>)"

section \<open>The connectors' use of the store\<close>

text \<open>A nil store is \<open>None\<close>; a present one is given by the operation the connector calls on it.\<close>

definition SaveSourceOffset :: "(string \<Rightarrow> offset \<Rightarrow> unit db_op) option \<Rightarrow> string \<Rightarrow> source_offset option \<Rightarrow> unit db_op" where
  "SaveSourceOffset store key off db =
     (case (store, off) of
        (Some save, Some so) \<Rightarrow>
          if source_offset_valid (Some so)
          then save key \<lparr>of_file = so_file so, of_pos = so_pos so, of_updated = 0\<rparr> db else (Inr (), db)
      | _ \<Rightarrow> (Inr (), db))"

definition ConfirmSnapshotCompletion :: "(string \<Rightarrow> unit db_op) option \<Rightarrow> string \<Rightarrow> unit db_op" where
  "ConfirmSnapshotCompletion store key db =
     (case store of
        None \<Rightarrow> (Inr (), db)
      | Some mark \<Rightarrow>
          (case find (\<lambda>i. ci_status i \<noteq> IcebergCommitCommitted) (ListIcebergCommits key db) of
             Some i \<Rightarrow> (Inl (ErrMsg (''snapshot completion BLOCKED by unresolved commit '' @ ci_operation_id i)), db)
           | None \<Rightarrow> mark key db))"

section \<open>Checkpoints and their intents\<close>

lemma checkJobStateCleanup_Inr:
  "checkJobStateCleanup key db = Inr u \<longleftrightarrow>
     (\<forall>(t, i) \<in> set (db_intents db). ci_state_key i \<noteq> key \<and> ci_job_id i \<noteq> key)"
proof -
  let ?P = "\<lambda>(t, i). ci_state_key i = key \<or> ci_job_id i = key"
  have "checkJobStateCleanup key db = Inr u \<longleftrightarrow> find ?P (db_intents db) = None"
    by (simp add: checkJobStateCleanup_def split: option.split prod.split)
  then show ?thesis unfolding find_None_iff by blast
qed

lemma DeleteJobState_eq: "DeleteJobState in_tx key db = deleteJobState key db"
  by (auto simp: DeleteJobState_def deleteJobState_def split: sum.splits)

text \<open>
  A snapshot is reported complete exactly when it was already confirmed, or it was started, is not
  yet done and every commit intent of the state is COMMITTED. A row marked done by an older version
  (completion version 0) is never upgraded. Success leaves a confirmed completion with the recorded
  start position; failure leaves the database alone; other states are never touched.
\<close>

theorem MarkSnapshotDone_sound:
  shows "(fst (MarkSnapshotDone now key db) = Inr () \<longleftrightarrow>
      CompletionConfirmed (GetSnapshotState key db) \<or>
      (\<exists>st. GetSnapshotState key db = Some st \<and> \<not> ss_done st) \<and>
      (\<forall>i \<in> set (ListIcebergCommits key db). ci_status i = IcebergCommitCommitted)) \<and>
    (fst (MarkSnapshotDone now key db) = Inr () \<longrightarrow>
      (\<exists>st st'. GetSnapshotState key db = Some st \<and> GetSnapshotState key (snd (MarkSnapshotDone now key db)) = Some st' \<and>
         CompletionConfirmed (Some st') \<and> ss_start_file st' = ss_start_file st \<and> ss_start_pos st' = ss_start_pos st)) \<and>
    (fst (MarkSnapshotDone now key db) \<noteq> Inr () \<longrightarrow> snd (MarkSnapshotDone now key db) = db) \<and>
    (\<forall>k. k \<noteq> key \<longrightarrow> GetSnapshotState k (snd (MarkSnapshotDone now key db)) = GetSnapshotState k db)"
proof -
  have "unresolved_intents key db \<longleftrightarrow> \<not> (\<forall>i \<in> set (ListIcebergCommits key db). ci_status i = IcebergCommitCommitted)"
    by (fastforce simp: unresolved_intents_def ListIcebergCommits_def listIcebergCommits_def)
  then show ?thesis
    by (cases "db_snapshots db key")
      (auto simp: MarkSnapshotDone_def GetSnapshotState_def CompletionConfirmed_def)
qed

text \<open>A state with a started snapshot, on which the theorems below are applied.\<close>

definition sample_started :: "(int \<times> commit_intent) list \<Rightarrow> meta_db" where
  "sample_started intents = (sample_db [])\<lparr>db_intents := intents, db_snapshots := [''k'' \<mapsto>
     \<lparr>ss_key = ''k'', ss_start_file = ''bin.000001'', ss_start_pos = 4, ss_done = False, ss_updated = 0,
      ss_completion_version = 0\<rparr>]\<rparr>"

definition sample_intent :: "string \<Rightarrow> string \<Rightarrow> commit_intent" where
  "sample_intent op_id status = \<lparr>ci_operation_id = op_id, ci_source_table = ''db.t'', ci_target_namespace = ''ns'',
     ci_target_table = ''t'', ci_operation = ''append'', ci_replay_keys = [], ci_job_id = ''a'', ci_state_key = ''k'',
     ci_batch_id = ''b'', ci_kind = ''snapshot'', ci_source_start_file = [], ci_source_start_pos = 0,
     ci_source_end_file = [], ci_source_end_pos = 0, ci_snapshot_table = ''db.t'', ci_snapshot_start = 0,
     ci_snapshot_end = 10, ci_status = status, ci_target_uuid = [], ci_trino_query_id = []\<rparr>"

lemma MarkSnapshotDone_sound_witness:
  "CompletionConfirmed (GetSnapshotState ''k'' (snd (MarkSnapshotDone 9 ''k'' (sample_started [])))) \<and>
   fst (MarkSnapshotDone 9 ''k'' (sample_started [(1, sample_intent ''o'' IcebergCommitPrepared)])) \<noteq> Inr ()"
proof -
  let ?db = "sample_started []"
  have st: "\<exists>st. GetSnapshotState ''k'' ?db = Some st \<and> \<not> ss_done st"
    by (simp add: GetSnapshotState_def sample_started_def)
  have "ListIcebergCommits ''k'' ?db = []" by (simp add: ListIcebergCommits_def listIcebergCommits_def sample_started_def)
  with st MarkSnapshotDone_sound [of 9 "''k''" ?db] have "fst (MarkSnapshotDone 9 ''k'' ?db) = Inr ()" by simp
  with MarkSnapshotDone_sound [of 9 "''k''" ?db]
  have "CompletionConfirmed (GetSnapshotState ''k'' (snd (MarkSnapshotDone 9 ''k'' ?db)))" by fastforce
  moreover have "fst (MarkSnapshotDone 9 ''k'' (sample_started [(1, sample_intent ''o'' IcebergCommitPrepared)])) \<noteq> Inr ()"
    by code_simp
  ultimately show ?thesis by simp
qed

text \<open>
  A job's checkpoints (offset, snapshot state, progress) can be reset only when no commit intent
  names the state key or the job, whatever its status. A blocked reset changes nothing and says which
  operation blocks it; a permitted one clears the three rows of that key and nothing else.
\<close>

theorem DeleteJobState_blocked_by_intents:
  shows "(fst (DeleteJobState in_tx key db) = Inr () \<longleftrightarrow> ListIcebergCommitsForJob key key db = []) \<and>
    (fst (DeleteJobState in_tx key db) \<noteq> Inr () \<longrightarrow>
       snd (DeleteJobState in_tx key db) = db \<and>
       (\<exists>i \<in> set (ListIcebergCommitsForJob key key db).
          fst (DeleteJobState in_tx key db) = Inl (ErrJobStateCleanupBlocked key (ci_operation_id i)))) \<and>
    (fst (DeleteJobState in_tx key db) = Inr () \<longrightarrow>
       (let db' = snd (DeleteJobState in_tx key db) in
        GetOffset key db' = None \<and> GetSnapshotState key db' = None \<and> GetSnapshotProgress key db' = None \<and>
        db_intents db' = db_intents db \<and> db_jobs db' = db_jobs db \<and>
        (\<forall>k. k \<noteq> key \<longrightarrow> GetOffset k db' = GetOffset k db \<and> GetSnapshotState k db' = GetSnapshotState k db \<and>
           GetSnapshotProgress k db' = GetSnapshotProgress k db)))"
proof -
  have list: "set (ListIcebergCommitsForJob key key db) =
      {i. \<exists>t. (t, i) \<in> set (db_intents db) \<and> (ci_state_key i = key \<or> ci_job_id i = key)}"
    by (force simp: ListIcebergCommitsForJob_def listIcebergCommits_def)
  show ?thesis
  proof (cases "find (\<lambda>(t, i). ci_state_key i = key \<or> ci_job_id i = key) (db_intents db)")
    case None
    then have "\<forall>(t, i) \<in> set (db_intents db). ci_state_key i \<noteq> key \<and> ci_job_id i \<noteq> key"
      by (auto simp: find_None_iff)
    then have "set (ListIcebergCommitsForJob key key db) = {}" unfolding list by blast
    moreover have "checkJobStateCleanup key db = Inr ()" using None by (simp add: checkJobStateCleanup_def)
    ultimately show ?thesis
      by (simp add: DeleteJobState_eq deleteJobState_def GetOffset_def GetSnapshotState_def GetSnapshotProgress_def)
  next
    case (Some p)
    obtain t i where p: "p = (t, i)" by (cases p)
    with Some have "(t, i) \<in> set (db_intents db)" "ci_state_key i = key \<or> ci_job_id i = key"
      by (auto simp: find_Some_iff in_set_conv_nth)
    then have i: "i \<in> set (ListIcebergCommitsForJob key key db)" unfolding list by blast
    moreover have "deleteJobState key db = (Inl (ErrJobStateCleanupBlocked key (ci_operation_id i)), db)"
      using Some p by (simp add: deleteJobState_def checkJobStateCleanup_def)
    moreover from i have "ListIcebergCommitsForJob key key db \<noteq> []" by auto
    ultimately show ?thesis unfolding DeleteJobState_eq by auto
  qed
qed

lemma DeleteJobState_blocked_by_intents_witness:
  "(let db = sample_started [(1, sample_intent ''o'' IcebergCommitCommitted)] in
    DeleteJobState False ''k'' db = (Inl (ErrJobStateCleanupBlocked ''k'' ''o''), db)) \<and>
   GetSnapshotState ''k'' (snd (DeleteJobState True ''k'' (sample_started []))) = None"
proof -
  let ?i = "sample_intent ''o'' IcebergCommitCommitted"
  let ?db = "sample_started [(1, ?i)]"
  have list: "ListIcebergCommitsForJob ''k'' ''k'' ?db = [?i]"
    by (simp add: ListIcebergCommitsForJob_def listIcebergCommits_def sample_started_def sample_intent_def)
  then have ne: "fst (DeleteJobState False ''k'' ?db) \<noteq> Inr ()"
    using DeleteJobState_blocked_by_intents [of False "''k''" ?db] by simp
  have "ci_operation_id ?i = ''o''" by (simp add: sample_intent_def)
  with ne list DeleteJobState_blocked_by_intents [of False "''k''" ?db]
  have "DeleteJobState False ''k'' ?db = (Inl (ErrJobStateCleanupBlocked ''k'' ''o''), ?db)"
    by (cases "DeleteJobState False ''k'' ?db") simp
  moreover have "GetSnapshotState ''k'' (snd (DeleteJobState True ''k'' (sample_started []))) = None"
    by (simp add: DeleteJobState_def deleteJobState_def checkJobStateCleanup_def GetSnapshotState_def sample_started_def)
  ultimately show ?thesis by (simp add: Let_def)
qed

text \<open>
  Saving snapshot progress stores the progress even when the cleanup behind it fails, and the
  cleanup forgets exactly the COMMITTED snapshot intents of the same state and table whose row range
  ends at or before the saved offset. An intent that is still PREPARED is never forgotten.
\<close>

theorem SaveSnapshotProgress_forgets_covered:
  fixes cleanup now key table nextOffset cursor db
  defines "res \<equiv> SaveSnapshotProgress cleanup now key table nextOffset cursor db"
  shows "(\<exists>p. GetSnapshotProgress key (snd res) = Some p \<and> sp_table p = table \<and> sp_next p = nextOffset) \<and>
    (\<forall>e. cleanup = Some e \<longrightarrow> fst res = Inl e \<and> db_intents (snd res) = db_intents db) \<and>
    (cleanup = None \<longrightarrow> fst res = Inr () \<and>
       set (db_intents (snd res)) = {(t, i) \<in> set (db_intents db).
          \<not> (ci_state_key i = key \<and> ci_kind i = ''snapshot'' \<and> ci_status i = IcebergCommitCommitted \<and>
             ci_snapshot_table i = table \<and> ci_snapshot_end i \<le> nextOffset)}) \<and>
    (\<forall>(t, i) \<in> set (db_intents db). ci_status i = IcebergCommitPrepared \<longrightarrow> (t, i) \<in> set (db_intents (snd res))) \<and>
    db_offsets (snd res) = db_offsets db \<and> db_snapshots (snd res) = db_snapshots db"
  unfolding res_def
  by (cases cleanup)
    (auto simp: SaveSnapshotProgress_def GetSnapshotProgress_def Let_def covered_snapshot_intent_def)

lemma SaveSnapshotProgress_forgets_covered_witness:
  "(1, sample_intent ''o'' IcebergCommitPrepared) \<in>
     set (db_intents (snd (SaveSnapshotProgress None 9 ''k'' ''db.t'' 50 [] (sample_started [(1, sample_intent ''o'' IcebergCommitPrepared)])))) \<and>
   (1, sample_intent ''o'' IcebergCommitCommitted) \<notin>
     set (db_intents (snd (SaveSnapshotProgress None 9 ''k'' ''db.t'' 50 [] (sample_started [(1, sample_intent ''o'' IcebergCommitCommitted)]))))"
proof -
  let ?p = "sample_intent ''o'' IcebergCommitPrepared" and ?c = "sample_intent ''o'' IcebergCommitCommitted"
  have rows: "db_intents (sample_started [(1, i)]) = [(1, i)]" for i by (simp add: sample_started_def)
  have "ci_status ?p = IcebergCommitPrepared" by (simp add: sample_intent_def)
  moreover have "ci_state_key ?c = ''k'' \<and> ci_kind ?c = ''snapshot'' \<and> ci_status ?c = IcebergCommitCommitted \<and>
      ci_snapshot_table ?c = ''db.t'' \<and> ci_snapshot_end ?c \<le> 50" by (simp add: sample_intent_def)
  ultimately show ?thesis
    using SaveSnapshotProgress_forgets_covered [where cleanup = None and now = 9
        and key = "''k''" and table = "''db.t''" and nextOffset = 50 and cursor = "[]" and db = "sample_started [(1, ?p)]"]
      SaveSnapshotProgress_forgets_covered [where cleanup = None and now = 9
        and key = "''k''" and table = "''db.t''" and nextOffset = 50 and cursor = "[]" and db = "sample_started [(1, ?c)]"]
    unfolding rows by simp
qed

section \<open>The interface of an intent store\<close>

text \<open>
  What the commit protocol relies on: an intent begun is listed as PREPARED, marking and deleting act on
  that operation only, and every failure leaves the intents as they were.
\<close>

definition find_intent :: "string \<Rightarrow> meta_db \<Rightarrow> commit_intent option" where
  "find_intent op_id db = map_option snd (tbl_find (ci_operation_id \<circ> snd) op_id (db_intents db))"

text \<open>The Go interface \<open>IcebergCommitIntentStore\<close> as a record of its methods.\<close>

record intent_ops =
  io_begin :: "commit_intent \<Rightarrow> unit db_op"
  io_mark :: "string \<Rightarrow> string \<Rightarrow> unit db_op"
  io_delete :: "string \<Rightarrow> string \<Rightarrow> unit db_op"
  io_list :: "string \<Rightarrow> meta_db \<Rightarrow> meta_error + commit_intent list"

definition mysql_intents :: "int \<Rightarrow> intent_ops" where
  "mysql_intents now = \<lparr>io_begin = BeginIcebergCommit now, io_mark = MarkIcebergCommitCommitted,
     io_delete = DeleteIcebergCommit, io_list = (\<lambda>key db. Inr (ListIcebergCommits key db))\<rparr>"

locale intent_log =
  fixes ops :: intent_ops
  assumes begin_ok: "db_wf db \<Longrightarrow> io_begin ops i db = (Inr u, db') \<Longrightarrow>
      find_intent (ci_operation_id i) db = None \<and> db_wf db' \<and>
      find_intent p db' = (if p = ci_operation_id i
        then Some (i\<lparr>ci_status := IcebergCommitPrepared, ci_trino_query_id := []\<rparr>) else find_intent p db)"
    and begin_err: "io_begin ops i db = (Inl e, db') \<Longrightarrow> db' = db"
    and mark_ok: "db_wf db \<Longrightarrow> io_mark ops key o' db = (Inr u, db') \<Longrightarrow>
      \<exists>i. find_intent o' db = Some i \<and> ci_state_key i = key \<and> ci_status i = IcebergCommitPrepared \<and> db_wf db' \<and>
        (\<forall>p. find_intent p db' = (if p = o' then Some (i\<lparr>ci_status := IcebergCommitCommitted\<rparr>) else find_intent p db))"
    and mark_err: "db_wf db \<Longrightarrow> io_mark ops key o' db = (Inl e, db') \<Longrightarrow> db' = db"
    and delete_ok: "db_wf db \<Longrightarrow> io_delete ops key o' db = (Inr u, db') \<Longrightarrow> db_wf db' \<and>
        find_intent p db' = (case find_intent p db of None \<Rightarrow> None
          | Some i \<Rightarrow> if p = o' \<and> ci_state_key i = key then None else Some i)"
    and delete_err: "io_delete ops key o' db = (Inl e, db') \<Longrightarrow> db' = db"
    and list_sound: "io_list ops key db = Inr is' \<Longrightarrow> db_wf db \<Longrightarrow> i \<in> set is' \<longleftrightarrow>
        find_intent (ci_operation_id i) db = Some i \<and> ci_state_key i = key"
    and list_distinct: "io_list ops key db = Inr is' \<Longrightarrow> db_wf db \<Longrightarrow> distinct (map ci_operation_id is')"

lemma find_intent_iff:
  "db_wf db \<Longrightarrow> find_intent p db = Some i \<longleftrightarrow> ci_operation_id i = p \<and> (\<exists>t. (t, i) \<in> set (db_intents db))"
proof -
  let ?key = "ci_operation_id \<circ> snd :: int \<times> commit_intent \<Rightarrow> string"
  assume "db_wf db"
  then have d: "distinct (map ?key (db_intents db))" by (simp add: db_wf_def)
  show ?thesis
  proof
    assume "find_intent p db = Some i"
    then show "ci_operation_id i = p \<and> (\<exists>t. (t, i) \<in> set (db_intents db))"
      by (auto simp: find_intent_def dest!: tbl_find_Some_key)
  next
    assume "ci_operation_id i = p \<and> (\<exists>t. (t, i) \<in> set (db_intents db))"
    then obtain t where "(t, i) \<in> set (db_intents db)" "?key (t, i) = p" by auto
    with tbl_find_unique [OF d] show "find_intent p db = Some i" by (fastforce simp: find_intent_def)
  qed
qed

lemma find_intent_update:
  assumes "\<And>i. ci_operation_id (f i) = ci_operation_id i"
  shows "find_intent p (update_intents P f db) = map_option (\<lambda>i. if P i then f i else i) (find_intent p db)"
proof -
  let ?key = "ci_operation_id \<circ> snd :: int \<times> commit_intent \<Rightarrow> string"
  have "tbl_find ?key p (tbl_update (\<lambda>(t, i). P i) (\<lambda>(t, i). (t, f i)) rows) =
      map_option (\<lambda>r. if (\<lambda>(t, i). P i) r then (\<lambda>(t, i). (t, f i)) r else r) (tbl_find ?key p rows)" for rows
    by (rule tbl_find_update) (auto simp: assms)
  then show ?thesis
    by (cases "tbl_find ?key p (db_intents db)") (auto simp: find_intent_def update_intents_def)
qed

lemma update_intents_wf:
  assumes "\<And>i. ci_operation_id (f i) = ci_operation_id i"
  shows "db_wf db \<Longrightarrow> db_wf (update_intents P f db)"
proof -
  let ?key = "ci_operation_id \<circ> snd :: int \<times> commit_intent \<Rightarrow> string"
  have "map ?key (tbl_update (\<lambda>(t, i). P i) (\<lambda>(t, i). (t, f i)) rows) = map ?key rows" for rows
    by (rule map_key_tbl_update) (auto simp: assms)
  then show "db_wf db \<Longrightarrow> db_wf (update_intents P f db)" by (simp add: db_wf_def update_intents_def)
qed

lemma find_intent_delete:
  assumes "db_wf db"
  shows "find_intent p (db\<lparr>db_intents := tbl_delete (\<lambda>(t, i). P i) (db_intents db)\<rparr>) =
     (case find_intent p db of None \<Rightarrow> None | Some i \<Rightarrow> if P i then None else Some i)"
proof -
  have "distinct (map (ci_operation_id \<circ> snd) (db_intents db))" using assms by (simp add: db_wf_def)
  from tbl_find_delete [OF this, of p "\<lambda>(t, i). P i"] show ?thesis
    by (auto simp: find_intent_def split: option.splits)
qed

lemma delete_intents_wf: "db_wf db \<Longrightarrow> db_wf (db\<lparr>db_intents := tbl_delete P (db_intents db)\<rparr>)"
  by (simp add: db_wf_def distinct_tbl_delete)

lemma matched_le_1:
  assumes "distinct (map key t)" "\<And>r. P r \<Longrightarrow> key r = k"
  shows "tbl_matched P t \<le> 1"
proof -
  have "distinct (map key (filter P t))" by (rule distinct_map_filter [OF assms(1)])
  moreover have "set (map key (filter P t)) \<subseteq> {k}" using assms(2) by auto
  ultimately show ?thesis unfolding tbl_matched_def
    by (metis card_mono distinct_card finite.emptyI finite_insert length_map card_1_singleton_iff One_nat_def)
qed

lemma mark_matched:
  assumes "db_wf db"
  shows "tbl_matched (\<lambda>(t, i). prepared_intent key o' i) (db_intents db) =
     (if \<exists>i. find_intent o' db = Some i \<and> prepared_intent key o' i then 1 else 0)"
proof -
  let ?P = "\<lambda>(t, i). prepared_intent key o' i"
  have "distinct (map (ci_operation_id \<circ> snd) (db_intents db))" using assms by (simp add: db_wf_def)
  then have le: "tbl_matched ?P (db_intents db) \<le> 1"
    by (rule matched_le_1 [of _ _ _ o']) (auto simp: prepared_intent_def)
  have "0 < tbl_matched ?P (db_intents db) \<longleftrightarrow> (\<exists>i. find_intent o' db = Some i \<and> prepared_intent key o' i)"
    by (auto simp: tbl_matched_pos find_intent_iff [OF assms] prepared_intent_def)
  with le show ?thesis by auto
qed

lemma MarkIcebergCommitCommitted_ok:
  assumes "db_wf db" "MarkIcebergCommitCommitted key o' db = (Inr u, db')"
  shows "\<exists>i. find_intent o' db = Some i \<and> ci_state_key i = key \<and> ci_status i = IcebergCommitPrepared \<and> db_wf db' \<and>
     (\<forall>p. find_intent p db' = (if p = o' then Some (i\<lparr>ci_status := IcebergCommitCommitted\<rparr>) else find_intent p db))"
proof -
  have "tbl_matched (\<lambda>(t, i). prepared_intent key o' i) (db_intents db) = 1"
    using assms(2) by (simp add: MarkIcebergCommitCommitted_def Let_def split: if_splits)
  then have "\<exists>i. find_intent o' db = Some i \<and> prepared_intent key o' i"
    unfolding mark_matched [OF assms(1)] by (simp split: if_splits)
  then obtain i where i: "find_intent o' db = Some i" "prepared_intent key o' i" by blast
  have db': "db' = update_intents (prepared_intent key o') (\<lambda>i. i\<lparr>ci_status := IcebergCommitCommitted\<rparr>) db"
    using assms(2) by (simp add: MarkIcebergCommitCommitted_def Let_def split: if_splits)
  have key: "find_intent p db = Some j \<Longrightarrow> ci_operation_id j = p" for p j
    using find_intent_iff [OF assms(1)] by blast
  have "find_intent p db' = (if p = o' then Some (i\<lparr>ci_status := IcebergCommitCommitted\<rparr>) else find_intent p db)" for p
  proof (cases "p = o'")
    case True
    with i show ?thesis by (simp add: db' find_intent_update)
  next
    case False
    then have "\<not> prepared_intent key o' j" if "find_intent p db = Some j" for j
      using key [OF that] by (simp add: prepared_intent_def)
    with False show ?thesis
      by (cases "find_intent p db") (simp_all add: db' find_intent_update)
  qed
  moreover have "db_wf db'" unfolding db' by (rule update_intents_wf [OF _ assms(1)]) simp
  ultimately show ?thesis using i by (auto simp: prepared_intent_def)
qed

lemma MarkIcebergCommitCommitted_err:
  assumes "db_wf db" "MarkIcebergCommitCommitted key o' db = (Inl e, db')" shows "db' = db"
proof -
  have "tbl_matched (\<lambda>(t, i). prepared_intent key o' i) (db_intents db) = 0"
  proof -
    have "tbl_matched (\<lambda>(t, i). prepared_intent key o' i) (db_intents db) \<noteq> 1"
      using assms(2) by (simp add: MarkIcebergCommitCommitted_def Let_def split: if_splits)
    then show ?thesis unfolding mark_matched [OF assms(1)] by (simp split: if_splits)
  qed
  then show ?thesis
    using assms(2) by (auto simp: MarkIcebergCommitCommitted_def Let_def update_intents_def tbl_matched_update_row split: if_splits)
qed

lemma BeginIcebergCommit_ok:
  assumes "db_wf db" "BeginIcebergCommit now i db = (Inr u, db')"
  shows "find_intent (ci_operation_id i) db = None \<and> db_wf db' \<and>
    find_intent p db' = (if p = ci_operation_id i
      then Some (i\<lparr>ci_status := IcebergCommitPrepared, ci_trino_query_id := []\<rparr>) else find_intent p db)"
proof -
  have fresh: "\<forall>(t, j) \<in> set (db_intents db). ci_operation_id j \<noteq> ci_operation_id i"
    and db': "db' = db\<lparr>db_intents := db_intents db @
       [(now, i\<lparr>ci_status := IcebergCommitPrepared, ci_trino_query_id := []\<rparr>)]\<rparr>"
    using assms(2) by (auto simp: BeginIcebergCommit_def split: if_splits)
  then have none: "find_intent (ci_operation_id i) db = None"
    by (auto simp: find_intent_def tbl_find_None_iff)
  have "db_wf db'" using assms(1) fresh by (force simp: db' db_wf_def)
  with none show ?thesis
    by (auto simp: db' find_intent_def tbl_find_append table_simps split: option.splits)
qed

lemma DeleteIcebergCommit_ok:
  assumes "db_wf db" "DeleteIcebergCommit key o' db = (Inr u, db')"
  shows "db_wf db' \<and> find_intent p db' = (case find_intent p db of None \<Rightarrow> None
     | Some i \<Rightarrow> if p = o' \<and> ci_state_key i = key then None else Some i)"
proof -
  have db': "db' = db\<lparr>db_intents := tbl_delete (\<lambda>(t, i). ci_state_key i = key \<and> ci_operation_id i = o') (db_intents db)\<rparr>"
    using assms(2) by (simp add: DeleteIcebergCommit_def)
  have "find_intent p db = Some i \<Longrightarrow> ci_operation_id i = p" for i
    using find_intent_iff [OF assms(1)] by blast
  then show ?thesis
    unfolding db' find_intent_delete [OF assms(1)] using delete_intents_wf [OF assms(1)]
    by (auto split: option.splits)
qed

lemma ListIcebergCommits_set:
  "set (ListIcebergCommits key db) = {i. (\<exists>t. (t, i) \<in> set (db_intents db)) \<and> ci_state_key i = key}"
  by (force simp: ListIcebergCommits_def listIcebergCommits_def)

lemma ListIcebergCommits_distinct: "db_wf db \<Longrightarrow> distinct (map ci_operation_id (ListIcebergCommits key db))"
proof -
  assume "db_wf db"
  then have "distinct (map (ci_operation_id \<circ> snd) (filter (\<lambda>(t, i). ci_state_key i = key) (db_intents db)))"
    by (simp add: db_wf_def distinct_map_filter)
  then show ?thesis by (simp add: ListIcebergCommits_def listIcebergCommits_def distinct_map o_def)
qed

interpretation mysql: intent_log "mysql_intents now" for now
proof unfold_locales
  fix db i u db' p assume "db_wf db" "io_begin (mysql_intents now) i db = (Inr u, db')"
  then show "find_intent (ci_operation_id i) db = None \<and> db_wf db' \<and>
      find_intent p db' = (if p = ci_operation_id i
        then Some (i\<lparr>ci_status := IcebergCommitPrepared, ci_trino_query_id := []\<rparr>) else find_intent p db)"
    unfolding mysql_intents_def intent_ops.select_convs by (rule BeginIcebergCommit_ok)
next
  fix i db e db' assume "io_begin (mysql_intents now) i db = (Inl e, db')"
  then show "db' = db" by (simp add: mysql_intents_def BeginIcebergCommit_def split: if_splits)
next
  fix db key o' u db' assume "db_wf db" "io_mark (mysql_intents now) key o' db = (Inr u, db')"
  then show "\<exists>i. find_intent o' db = Some i \<and> ci_state_key i = key \<and> ci_status i = IcebergCommitPrepared \<and> db_wf db' \<and>
        (\<forall>p. find_intent p db' = (if p = o' then Some (i\<lparr>ci_status := IcebergCommitCommitted\<rparr>) else find_intent p db))"
    unfolding mysql_intents_def intent_ops.select_convs by (rule MarkIcebergCommitCommitted_ok)
next
  fix db key o' e db' assume "db_wf db" "io_mark (mysql_intents now) key o' db = (Inl e, db')"
  then show "db' = db" unfolding mysql_intents_def intent_ops.select_convs by (rule MarkIcebergCommitCommitted_err)
next
  fix db key o' u db' p assume "db_wf db" "io_delete (mysql_intents now) key o' db = (Inr u, db')"
  then show "db_wf db' \<and> find_intent p db' = (case find_intent p db of None \<Rightarrow> None
          | Some i \<Rightarrow> if p = o' \<and> ci_state_key i = key then None else Some i)"
    unfolding mysql_intents_def intent_ops.select_convs by (rule DeleteIcebergCommit_ok)
next
  fix key o' db e db' assume "io_delete (mysql_intents now) key o' db = (Inl e, db')"
  then show "db' = db" by (simp add: mysql_intents_def DeleteIcebergCommit_def)
next
  fix key db is' i assume "io_list (mysql_intents now) key db = Inr is'" "db_wf db"
  then show "(i \<in> set is') = (find_intent (ci_operation_id i) db = Some i \<and> ci_state_key i = key)"
    by (auto simp: mysql_intents_def ListIcebergCommits_set find_intent_iff)
next
  fix key db is' assume "io_list (mysql_intents now) key db = Inr is'" "db_wf db"
  then show "distinct (map ci_operation_id is')" by (auto simp: mysql_intents_def ListIcebergCommits_distinct)
qed

end
