(* ===== verification/Worker_Fence.thy ===== *)
theory Worker_Fence
  imports Offset_Store
begin

text \<open>
  The fence between workers: \<open>pkg/meta/worker_fence.go\<close> and \<open>scoped_rebuild_start.go\<close>. A fenced store
  wraps every write to checkpoints and intents in a serialisable transaction that checks the registry
  row of its ownership token before and after the write and rolls back when either check fails.

  The two checks read the database clock at \<open>t1\<close> and \<open>t2\<close>. The serialisable transaction holds the
  registry row locked, so no other transaction is interleaved between them.
\<close>

record worker_ownership =
  wo_job :: string
  wo_submission :: string
  wo_owner :: string
  wo_state_key :: string

text \<open>\<open>FenceWorkerOffsets\<close>: the targets of the checkpoint store and of the job registry must agree.\<close>

definition FenceWorkerOffsets :: "string \<Rightarrow> string option \<Rightarrow> worker_ownership \<Rightarrow> meta_error + worker_ownership" where
  "FenceWorkerOffsets registry_target store_target own =
     (case store_target of
        None \<Rightarrow> Inl (ErrMsg ''Iceberg worker fencing requires the same MySQL endpoint/database'')
      | Some target \<Rightarrow>
          if registry_target = [] \<or> target \<noteq> registry_target
          then Inl (ErrMsg ''Iceberg worker fencing requires the same MySQL endpoint/database'')
          else if wo_job own = [] \<or> wo_submission own = [] \<or> wo_owner own = [] \<or> wo_state_key own = []
          then Inl (ErrMsg ''incomplete worker ownership token'')
          else Inr own)"

definition ownership_row :: "worker_ownership \<Rightarrow> int \<Rightarrow> job_row \<Rightarrow> bool" where
  "ownership_row own dbnow r \<longleftrightarrow>
     jr_id r = wo_job own \<and> jr_submission r = wo_submission own \<and> jr_owner r = Some (wo_owner own) \<and>
     lease_live dbnow r \<and> (jr_desired r = DesiredStateRunning \<or> jr_status r = ''PAUSING'')"

definition fence_check :: "worker_ownership \<Rightarrow> int \<Rightarrow> meta_db \<Rightarrow> meta_error + unit" where
  "fence_check own dbnow db =
     (case find (ownership_row own dbnow) (db_jobs db) of None \<Rightarrow> Inl ErrWorkerOwnershipLost | Some r \<Rightarrow> Inr ())"

text \<open>A store that is not fenced has no ownership to check; a cancelled context fails first.\<close>

definition CheckOwnership :: "meta_error option \<Rightarrow> (worker_ownership \<times> int) option \<Rightarrow> meta_db \<Rightarrow> meta_error + unit" where
  "CheckOwnership cancelled fence db =
     (case cancelled of
        Some e \<Rightarrow> Inl e
      | None \<Rightarrow> (case fence of None \<Rightarrow> Inr () | Some (own, dbnow) \<Rightarrow> fence_check own dbnow db))"

definition fence_write :: "worker_ownership \<Rightarrow> int \<Rightarrow> int \<Rightarrow> string \<Rightarrow> unit db_op \<Rightarrow> unit db_op" where
  "fence_write own t1 t2 key fn db =
     (if key \<noteq> wo_state_key own \<and> key \<noteq> wo_job own then (Inl ErrWorkerOwnershipLost, db)
      else case fence_check own t1 db of
        Inl e \<Rightarrow> (Inl e, db)
      | Inr _ \<Rightarrow>
          (case fn db of
             (Inl e, _) \<Rightarrow> (Inl e, db)
           | (Inr _, db') \<Rightarrow>
               (case fence_check own t2 db' of Inl e \<Rightarrow> (Inl e, db) | Inr _ \<Rightarrow> (Inr (), db'))))"

section \<open>The fenced operations\<close>

definition fenced_SaveOffset :: "worker_ownership \<Rightarrow> int \<Rightarrow> int \<Rightarrow> string \<Rightarrow> offset \<Rightarrow> unit db_op" where
  "fenced_SaveOffset own t1 t2 key off = fence_write own t1 t2 key (SaveOffset t1 key off)"

definition fenced_SaveSnapshotStart :: "worker_ownership \<Rightarrow> int \<Rightarrow> int \<Rightarrow> string \<Rightarrow> offset \<Rightarrow> unit db_op" where
  "fenced_SaveSnapshotStart own t1 t2 key off = fence_write own t1 t2 key (SaveSnapshotStart t1 key off)"

definition fenced_MarkSnapshotDone :: "worker_ownership \<Rightarrow> int \<Rightarrow> int \<Rightarrow> string \<Rightarrow> unit db_op" where
  "fenced_MarkSnapshotDone own t1 t2 key = fence_write own t1 t2 key (MarkSnapshotDone t1 key)"

definition fenced_SaveSnapshotProgress ::
  "worker_ownership \<Rightarrow> int \<Rightarrow> int \<Rightarrow> meta_error option \<Rightarrow> string \<Rightarrow> string \<Rightarrow> int \<Rightarrow> string \<Rightarrow> unit db_op" where
  "fenced_SaveSnapshotProgress own t1 t2 cleanup key table nextOffset cursor =
     fence_write own t1 t2 key (SaveSnapshotProgress cleanup t1 key table nextOffset cursor)"

definition fenced_ClearSnapshotProgress :: "worker_ownership \<Rightarrow> int \<Rightarrow> int \<Rightarrow> string \<Rightarrow> unit db_op" where
  "fenced_ClearSnapshotProgress own t1 t2 key = fence_write own t1 t2 key (ClearSnapshotProgress key)"

definition fenced_DeleteJobState :: "worker_ownership \<Rightarrow> int \<Rightarrow> int \<Rightarrow> string \<Rightarrow> unit db_op" where
  "fenced_DeleteJobState own t1 t2 key = fence_write own t1 t2 key (DeleteJobState True key)"

definition fenced_BeginIcebergCommit :: "worker_ownership \<Rightarrow> int \<Rightarrow> int \<Rightarrow> commit_intent \<Rightarrow> unit db_op" where
  "fenced_BeginIcebergCommit own t1 t2 intent db =
     (if ci_job_id intent \<noteq> wo_job own then (Inl ErrWorkerOwnershipLost, db)
      else fence_write own t1 t2 (ci_state_key intent) (BeginIcebergCommit t1 intent) db)"

definition fenced_MarkIcebergCommitCommitted :: "worker_ownership \<Rightarrow> int \<Rightarrow> int \<Rightarrow> string \<Rightarrow> string \<Rightarrow> unit db_op" where
  "fenced_MarkIcebergCommitCommitted own t1 t2 key op_id =
     fence_write own t1 t2 key (MarkIcebergCommitCommitted key op_id)"

definition fenced_DeleteIcebergCommit :: "worker_ownership \<Rightarrow> int \<Rightarrow> int \<Rightarrow> string \<Rightarrow> string \<Rightarrow> unit db_op" where
  "fenced_DeleteIcebergCommit own t1 t2 key op_id = fence_write own t1 t2 key (DeleteIcebergCommit key op_id)"

definition fenced_RecordIcebergTrinoQuery ::
  "worker_ownership \<Rightarrow> int \<Rightarrow> int \<Rightarrow> string \<Rightarrow> string \<Rightarrow> string \<Rightarrow> unit db_op" where
  "fenced_RecordIcebergTrinoQuery own t1 t2 key op_id query =
     fence_write own t1 t2 key (RecordIcebergTrinoQuery key op_id query)"

definition fenced_intents :: "worker_ownership \<Rightarrow> int \<Rightarrow> int \<Rightarrow> intent_ops" where
  "fenced_intents own t1 t2 = \<lparr>io_begin = fenced_BeginIcebergCommit own t1 t2,
     io_mark = fenced_MarkIcebergCommitCommitted own t1 t2, io_delete = fenced_DeleteIcebergCommit own t1 t2,
     io_list = (\<lambda>key db. Inr (ListIcebergCommits key db))\<rparr>"

section \<open>Admission of a scoped rebuild\<close>

definition ScopedNativeSnapshotBatchID :: "string \<Rightarrow> string \<Rightarrow> int \<Rightarrow> int \<Rightarrow> string" where
  "ScopedNativeSnapshotBatchID submission table start end =
     ''rebuild:'' @ submission @ '':'' @ table @ '':native:'' @ show_int start @ ''-'' @ show_int end"

definition IsScopedNativeSnapshotIntent :: "commit_intent \<Rightarrow> string \<Rightarrow> string \<Rightarrow> string \<Rightarrow> bool" where
  "IsScopedNativeSnapshotIntent i job key submission \<longleftrightarrow>
     submission \<noteq> [] \<and> ci_job_id i = job \<and> ci_state_key i = key \<and> ci_kind i = ''snapshot'' \<and>
     (ci_operation i = ''append'' \<or> ci_operation i = ''delete-append-equality'') \<and> ci_target_uuid i \<noteq> [] \<and>
     ci_source_table i = ci_snapshot_table i \<and> 0 \<le> ci_snapshot_start i \<and>
     ci_snapshot_start i < ci_snapshot_end i \<and>
     ci_batch_id i = ScopedNativeSnapshotBatchID submission (ci_snapshot_table i) (ci_snapshot_start i) (ci_snapshot_end i)"

fun scoped_intents_ok :: "string \<Rightarrow> string \<Rightarrow> string \<Rightarrow> bool \<Rightarrow> bool \<Rightarrow> commit_intent list \<Rightarrow> meta_error + unit" where
  "scoped_intents_ok job key submission allowPrepared native [] = Inr ()"
| "scoped_intents_ok job key submission allowPrepared native (i # is) =
     (let valid = (ci_status i = IcebergCommitCommitted \<or> (allowPrepared \<and> ci_status i = IcebergCommitPrepared)) in
      if native \<and> valid \<and> IsScopedNativeSnapshotIntent i job key submission
      then scoped_intents_ok job key submission allowPrepared native is
      else if ci_job_id i \<noteq> job \<or> ci_state_key i \<noteq> key \<or> ci_kind i \<noteq> ''rebuild'' \<or>
              \<not> has_prefix (''rebuild:'' @ submission @ '':'') (ci_batch_id i) \<or> \<not> valid
      then Inl (ErrMsg (''scoped rebuild startup BLOCKED by unrelated or unresolved intent operation='' @ ci_operation_id i))
      else if \<not> allowPrepared \<and> (ci_trino_query_id i = [] \<or> ci_target_uuid i = [])
      then Inl (ErrMsg ''scoped rebuild reset confirmation incomplete'')
      else scoped_intents_ok job key submission allowPrepared native is)"

text \<open>\<open>c1\<close> and \<open>c2\<close> are the results of the two ownership checks.\<close>

definition CheckScopedRebuildIntents ::
  "meta_error + unit \<Rightarrow> meta_error + unit \<Rightarrow> string \<Rightarrow> string \<Rightarrow> string \<Rightarrow> bool \<Rightarrow> bool \<Rightarrow> meta_db \<Rightarrow> meta_error + unit" where
  "CheckScopedRebuildIntents c1 c2 job key submission allowPrepared native db =
     (if submission = [] then Inl (ErrMsg ''scoped rebuild submission missing'')
      else case c1 of
        Inl e \<Rightarrow> Inl e
      | Inr _ \<Rightarrow>
          (case scoped_intents_ok job key submission allowPrepared native (ListIcebergCommitsForJob key job db) of
             Inl e \<Rightarrow> Inl e
           | Inr _ \<Rightarrow> c2))"

definition CheckScopedRebuildEmptyCheckpoint :: "meta_error + unit \<Rightarrow> string \<Rightarrow> string \<Rightarrow> meta_db \<Rightarrow> meta_error + unit" where
  "CheckScopedRebuildEmptyCheckpoint c job key db =
     (let keys = (if key \<noteq> job then [key, job] else [key]) in
      if list_all (\<lambda>k. GetOffset k db = None \<and> GetSnapshotState k db = None \<and> GetSnapshotProgress k db = None) keys
      then c else Inl (ErrMsg ''scoped rebuild cannot replace existing checkpoint/start/progress''))"

section \<open>The fence\<close>

lemma fence_check_Inr:
  "db_wf db \<Longrightarrow> fence_check own t db = Inr u \<longleftrightarrow>
     (\<exists>r. job_lookup (wo_job own) db = Some r \<and> ownership_row own t r)"
proof -
  assume wf: "db_wf db"
  have "fence_check own t db = Inr u \<longleftrightarrow> find (ownership_row own t) (db_jobs db) \<noteq> None"
    by (simp add: fence_check_def split: option.split)
  also have "\<dots> \<longleftrightarrow> (\<exists>r \<in> set (db_jobs db). ownership_row own t r)"
    by (metis find_None_iff)
  finally show ?thesis using job_lookup_iff [OF wf] by (auto simp: ownership_row_def)
qed

lemma fence_check_Inl: "fence_check own t db = Inl e \<Longrightarrow> e = ErrWorkerOwnershipLost"
  by (simp add: fence_check_def split: option.splits)

lemma fence_write_ok:
  "fence_write own t1 t2 key fn db = (Inr u, db') \<Longrightarrow>
     key \<in> {wo_state_key own, wo_job own} \<and> fence_check own t1 db = Inr () \<and> fn db = (Inr (), db') \<and>
     fence_check own t2 db' = Inr ()"
  by (auto simp: fence_write_def split: if_splits sum.splits prod.splits)

lemma fence_write_err: "fence_write own t1 t2 key fn db = (Inl e, db') \<Longrightarrow> db' = db"
  by (auto simp: fence_write_def split: if_splits sum.splits prod.splits)

interpretation fenced: intent_log "fenced_intents own t1 t2" for own t1 t2
proof unfold_locales
  fix db i u db' p assume wf: "db_wf db" and "io_begin (fenced_intents own t1 t2) i db = (Inr u, db')"
  then have "BeginIcebergCommit t1 i db = (Inr (), db')"
    by (auto simp: fenced_intents_def fenced_BeginIcebergCommit_def dest: fence_write_ok split: if_splits)
  then show "find_intent (ci_operation_id i) db = None \<and> db_wf db' \<and>
      find_intent p db' = (if p = ci_operation_id i
        then Some (i\<lparr>ci_status := IcebergCommitPrepared, ci_trino_query_id := []\<rparr>) else find_intent p db)"
    by (rule BeginIcebergCommit_ok [OF wf])
next
  fix i db e db' assume "io_begin (fenced_intents own t1 t2) i db = (Inl e, db')"
  then show "db' = db"
    by (auto simp: fenced_intents_def fenced_BeginIcebergCommit_def dest: fence_write_err split: if_splits)
next
  fix db key o' u db' assume wf: "db_wf db" and "io_mark (fenced_intents own t1 t2) key o' db = (Inr u, db')"
  then have "MarkIcebergCommitCommitted key o' db = (Inr (), db')"
    by (auto simp: fenced_intents_def fenced_MarkIcebergCommitCommitted_def dest: fence_write_ok)
  then show "\<exists>i. find_intent o' db = Some i \<and> ci_state_key i = key \<and> ci_status i = IcebergCommitPrepared \<and> db_wf db' \<and>
        (\<forall>p. find_intent p db' = (if p = o' then Some (i\<lparr>ci_status := IcebergCommitCommitted\<rparr>) else find_intent p db))"
    by (rule MarkIcebergCommitCommitted_ok [OF wf])
next
  fix db key o' e db' assume "io_mark (fenced_intents own t1 t2) key o' db = (Inl e, db')"
  then show "db' = db"
    by (auto simp: fenced_intents_def fenced_MarkIcebergCommitCommitted_def dest: fence_write_err)
next
  fix db key o' u db' p assume wf: "db_wf db" and "io_delete (fenced_intents own t1 t2) key o' db = (Inr u, db')"
  then have "DeleteIcebergCommit key o' db = (Inr (), db')"
    by (auto simp: fenced_intents_def fenced_DeleteIcebergCommit_def dest: fence_write_ok)
  then show "db_wf db' \<and> find_intent p db' = (case find_intent p db of None \<Rightarrow> None
          | Some i \<Rightarrow> if p = o' \<and> ci_state_key i = key then None else Some i)"
    by (rule DeleteIcebergCommit_ok [OF wf])
next
  fix key o' db e db' assume "io_delete (fenced_intents own t1 t2) key o' db = (Inl e, db')"
  then show "db' = db"
    by (auto simp: fenced_intents_def fenced_DeleteIcebergCommit_def dest: fence_write_err)
next
  fix key db is' i assume "io_list (fenced_intents own t1 t2) key db = Inr is'" "db_wf db"
  then show "(i \<in> set is') = (find_intent (ci_operation_id i) db = Some i \<and> ci_state_key i = key)"
    by (auto simp: fenced_intents_def ListIcebergCommits_set find_intent_iff)
next
  fix key db is' assume "io_list (fenced_intents own t1 t2) key db = Inr is'" "db_wf db"
  then show "distinct (map ci_operation_id is')" by (auto simp: fenced_intents_def ListIcebergCommits_distinct)
qed

text \<open>Everything a worker holding a token can try on the checkpoints and intents, through its fenced store.\<close>

inductive fenced_attempt :: "worker_ownership \<Rightarrow> int \<Rightarrow> int \<Rightarrow> unit db_op \<Rightarrow> bool" where
  fa_offset: "fenced_attempt own t1 t2 (fenced_SaveOffset own t1 t2 key off)"
| fa_start: "fenced_attempt own t1 t2 (fenced_SaveSnapshotStart own t1 t2 key off)"
| fa_done: "fenced_attempt own t1 t2 (fenced_MarkSnapshotDone own t1 t2 key)"
| fa_progress: "fenced_attempt own t1 t2 (fenced_SaveSnapshotProgress own t1 t2 cl key table n cursor)"
| fa_clear: "fenced_attempt own t1 t2 (fenced_ClearSnapshotProgress own t1 t2 key)"
| fa_delete: "fenced_attempt own t1 t2 (fenced_DeleteJobState own t1 t2 key)"
| fa_begin: "fenced_attempt own t1 t2 (fenced_BeginIcebergCommit own t1 t2 intent)"
| fa_mark: "fenced_attempt own t1 t2 (fenced_MarkIcebergCommitCommitted own t1 t2 key op_id)"
| fa_forget: "fenced_attempt own t1 t2 (fenced_DeleteIcebergCommit own t1 t2 key op_id)"
| fa_query: "fenced_attempt own t1 t2 (fenced_RecordIcebergTrinoQuery own t1 t2 key op_id query)"

lemmas fenced_defs = fenced_SaveOffset_def fenced_SaveSnapshotStart_def fenced_MarkSnapshotDone_def
  fenced_SaveSnapshotProgress_def fenced_ClearSnapshotProgress_def fenced_DeleteJobState_def
  fenced_BeginIcebergCommit_def fenced_MarkIcebergCommitCommitted_def fenced_DeleteIcebergCommit_def
  fenced_RecordIcebergTrinoQuery_def

lemma fenced_attempt_write:
  assumes "fenced_attempt own t1 t2 a"
  shows "a db = (Inl ErrWorkerOwnershipLost, db) \<or> (\<exists>key fn. a db = fence_write own t1 t2 key fn db)"
  using assms by (cases rule: fenced_attempt.cases) (auto simp: fenced_defs)

lemma ClaimJobs_changed_owner:
  assumes "db_wf db" "fst (ClaimJobs J role owner limit d uuid wnow dbnow dbnow' db) = db'"
    "job_lookup k db = Some r" "job_lookup k db' = Some r'" "r' \<noteq> r"
  shows "jr_owner r' = Some owner" "db_wf db'"
proof -
  let ?lim = "if limit \<le> 0 then 100 else limit" and ?u = "wnow + lease_duration d"
  have "db' \<noteq> db" using assms(3-5) by auto
  then have db': "db' = claim_tx role owner ?lim ?u uuid dbnow db" using assms(2) ClaimJobs_db by metis
  then show "db_wf db'" using claim.wf [OF assms(1)] by simp
  have "r' = claimed role owner ?u uuid dbnow (claim_ids role ?lim dbnow db) r"
    using assms(3,4) claim.lookup [OF assms(1), of k role owner ?lim ?u uuid dbnow] by (simp add: db')
  with assms(5) show "jr_owner r' = Some owner" using claimed_fields(3) by metis
qed

lemma fenced_attempt_denied:
  assumes "fenced_attempt own t1 t2 a" "fence_check own t1 db = Inl e"
  shows "a db = (Inl ErrWorkerOwnershipLost, db)"
  using fenced_attempt_write [OF assms(1), of db] assms(2) fence_check_Inl [OF assms(2)]
  by (auto simp: fence_write_def)

text \<open>
  C7: no checkpoint or intent write of a fenced store takes effect unless its token owns the job: the
  registry row has the token's submission and owner, an unexpired lease and is meant to run (or is being
  paused), both before and after the write. Every other attempt leaves the whole database unchanged.
\<close>

theorem fenced_writes_need_ownership:
  assumes "fenced_attempt own t1 t2 a" "db_wf db" "a db = (res, db')"
  shows "(res \<noteq> Inr () \<longrightarrow> db' = db) \<and>
    (res = Inr () \<longrightarrow>
      (\<exists>r. job_lookup (wo_job own) db = Some r \<and> jr_submission r = wo_submission own \<and>
           jr_owner r = Some (wo_owner own) \<and> lease_live t1 r \<and>
           (jr_desired r = DesiredStateRunning \<or> jr_status r = ''PAUSING'')) \<and>
      fence_check own t2 db' = Inr ())"
  using fenced_attempt_write [OF assms(1), of db]
proof
  assume "a db = (Inl ErrWorkerOwnershipLost, db)"
  with assms(3) have "res = Inl ErrWorkerOwnershipLost" "db' = db" by simp_all
  then show ?thesis by simp
next
  assume "\<exists>key fn. a db = fence_write own t1 t2 key fn db"
  then obtain key fn where w: "fence_write own t1 t2 key fn db = (res, db')" using assms(3) by metis
  show ?thesis
  proof (cases res)
    case (Inl e)
    with w fence_write_err show ?thesis by blast
  next
    case (Inr u)
    with w have ok: "fence_check own t1 db = Inr ()" "fence_check own t2 db' = Inr ()"
      by (auto dest: fence_write_ok)
    with fence_check_Inr [OF assms(2)] obtain r where
      "job_lookup (wo_job own) db = Some r" "ownership_row own t1 r" by blast
    then have "job_lookup (wo_job own) db = Some r \<and> jr_submission r = wo_submission own \<and>
           jr_owner r = Some (wo_owner own) \<and> lease_live t1 r \<and>
           (jr_desired r = DesiredStateRunning \<or> jr_status r = ''PAUSING'')"
      by (simp add: ownership_row_def)
    with ok(2) Inr show ?thesis by (metis old.unit.exhaust)
  qed
qed

lemma fenced_writes_need_ownership_witness:
  "let db = sample_db [sample_row ''a'' DesiredStateRunning (Some ''w1'') (Some 50) ''RUNNING''];
       own = \<lparr>wo_job = ''a'', wo_submission = ''s1'', wo_owner = ''w1'', wo_state_key = ''k''\<rparr>;
       off = \<lparr>of_file = ''bin.000001'', of_pos = 4, of_updated = 0\<rparr> in
     fst (fenced_SaveOffset own 10 11 ''k'' off db) = Inr () \<and>
     snd (fenced_SaveOffset own 60 61 ''k'' off db) = db"
proof -
  let ?db = "sample_db [sample_row ''a'' DesiredStateRunning (Some ''w1'') (Some 50) ''RUNNING'']"
  let ?own = "\<lparr>wo_job = ''a'', wo_submission = ''s1'', wo_owner = ''w1'', wo_state_key = ''k''\<rparr>"
  let ?off = "\<lparr>of_file = ''bin.000001'', of_pos = 4, of_updated = 0\<rparr>"
  have ok: "fst (fenced_SaveOffset ?own 10 11 ''k'' ?off ?db) = Inr ()" by code_simp
  have wf: "db_wf ?db" by (simp add: db_wf_def sample_db_def sample_row_def)
  have late: "fst (fenced_SaveOffset ?own 60 61 ''k'' ?off ?db) \<noteq> Inr ()" by code_simp
  from fenced_writes_need_ownership [OF fa_offset wf surjective_pairing] late
  have "snd (fenced_SaveOffset ?own 60 61 ''k'' ?off ?db) = ?db" by blast
  with ok show ?thesis by (simp add: Let_def)
qed

text \<open>
  When a claim hands a job from one worker to another, the previous owner is fenced off at once:
  from the claim on, whatever its clock and whatever it attempts through its fenced store, nothing is
  written and the attempt reports lost ownership.
\<close>

theorem takeover_fences_previous_owner:
  assumes "db_wf db" "fst (ClaimJobs J role owner limit d uuid wnow dbnow dbnow' db) = db'"
    and "job_lookup (wo_job own) db = Some r" "job_lookup (wo_job own) db' = Some r'" "r' \<noteq> r"
    and "wo_owner own \<noteq> owner" "fenced_attempt own t1 t2 a"
  shows "a db' = (Inl ErrWorkerOwnershipLost, db')"
proof -
  note ch = ClaimJobs_changed_owner [OF assms(1-5)]
  have "fence_check own t1 db' \<noteq> Inr ()"
  proof
    assume "fence_check own t1 db' = Inr ()"
    with fence_check_Inr [OF ch(2)] assms(4) ch(1) assms(6) show False by (auto simp: ownership_row_def)
  qed
  then obtain e where "fence_check own t1 db' = Inl e" by (cases "fence_check own t1 db'") auto
  from fenced_attempt_denied [OF assms(7) this] show ?thesis .
qed

lemma takeover_fences_previous_owner_witness:
  "let db = sample_db [sample_row ''a'' DesiredStateRunning (Some ''w1'') (Some 5) ''RUNNING''];
       own = \<lparr>wo_job = ''a'', wo_submission = ''s1'', wo_owner = ''w1'', wo_state_key = ''k''\<rparr>;
       db' = fst (ClaimJobs sample_codec JobExecutionRoleStreaming ''w2'' 0 0 (\<lambda>_. ''u'') 10 10 11 db) in
     fenced_ClearSnapshotProgress own 4 5 ''k'' db' = (Inl ErrWorkerOwnershipLost, db')"
proof -
  let ?r = "sample_row ''a'' DesiredStateRunning (Some ''w1'') (Some 5) ''RUNNING''"
  let ?db = "sample_db [?r]"
  let ?own = "\<lparr>wo_job = ''a'', wo_submission = ''s1'', wo_owner = ''w1'', wo_state_key = ''k''\<rparr>"
  let ?db' = "fst (ClaimJobs sample_codec JobExecutionRoleStreaming ''w2'' 0 0 (\<lambda>_. ''u'') 10 10 11 ?db)"
  let ?r' = "?r\<lparr>jr_owner := Some ''w2'', jr_until := Some 30000010, jr_updated := 10\<rparr>"
  have wf: "db_wf ?db" by (simp add: db_wf_def sample_db_def sample_row_def)
  have r: "job_lookup (wo_job ?own) ?db = Some ?r" by code_simp
  have r': "job_lookup (wo_job ?own) ?db' = Some ?r'" by code_simp
  have ne: "?r' \<noteq> ?r" by (simp add: sample_row_def)
  have o: "wo_owner ?own \<noteq> ''w2''" by simp
  from takeover_fences_previous_owner [OF wf refl r r' ne o fa_clear] show ?thesis by (simp only: Let_def)
qed

section \<open>Which intents a scoped rebuild tolerates\<close>

lemma scoped_intents_ok_Inr:
  "scoped_intents_ok job key submission allowPrepared native is = Inr u \<longleftrightarrow>
     (\<forall>i \<in> set is. (ci_status i = IcebergCommitCommitted \<or> allowPrepared \<and> ci_status i = IcebergCommitPrepared) \<and>
        (native \<and> IsScopedNativeSnapshotIntent i job key submission \<or>
         ci_job_id i = job \<and> ci_state_key i = key \<and> ci_kind i = ''rebuild'' \<and>
         has_prefix (''rebuild:'' @ submission @ '':'') (ci_batch_id i) \<and>
         (allowPrepared \<or> ci_trino_query_id i \<noteq> [] \<and> ci_target_uuid i \<noteq> [])))"
proof (induction "is")
  case (Cons i "is")
  let ?v = "ci_status i = IcebergCommitCommitted \<or> allowPrepared \<and> ci_status i = IcebergCommitPrepared"
  consider "\<not> ?v" | "?v" "native \<and> IsScopedNativeSnapshotIntent i job key submission"
    | "?v" "\<not> (native \<and> IsScopedNativeSnapshotIntent i job key submission)" by blast
  then show ?case
  proof cases
    case 1
    then show ?thesis by (simp add: Let_def del: de_Morgan_disj de_Morgan_conj)
  next
    case 2
    then show ?thesis using Cons by (simp add: Let_def)
  next
    case 3
    then have eq: "scoped_intents_ok job key submission allowPrepared native (i # is) =
       (if ci_job_id i \<noteq> job \<or> ci_state_key i \<noteq> key \<or> ci_kind i \<noteq> ''rebuild'' \<or>
              \<not> has_prefix (''rebuild:'' @ submission @ '':'') (ci_batch_id i)
        then Inl (ErrMsg (''scoped rebuild startup BLOCKED by unrelated or unresolved intent operation='' @ ci_operation_id i))
        else if \<not> allowPrepared \<and> (ci_trino_query_id i = [] \<or> ci_target_uuid i = [])
        then Inl (ErrMsg ''scoped rebuild reset confirmation incomplete'')
        else scoped_intents_ok job key submission allowPrepared native is)"
      by (simp only: scoped_intents_ok.simps Let_def if_False simp_thms conj_assoc)
    from 3 show ?thesis unfolding eq using Cons by (simp split: if_split) blast
  qed
qed simp

lemma ListIcebergCommitsForJob_set:
  "set (ListIcebergCommitsForJob key job db) =
     {i. (\<exists>t. (t, i) \<in> set (db_intents db)) \<and> (ci_state_key i = key \<or> ci_job_id i = job)}"
  by (force simp: ListIcebergCommitsForJob_def listIcebergCommits_def)

lemma has_prefix_append [simp]: "has_prefix p (p @ s)"
  by (simp add: has_prefix_def)

text \<open>
  A scoped rebuild starts only if every retained intent that touches its job or its state belongs to
  this job, this state and this very submission, and is COMMITTED (or PREPARED where the caller allows
  it). An intent of another submission, another job or another state blocks it.
\<close>

theorem scoped_rebuild_admits_own_intents_only:
  assumes "CheckScopedRebuildIntents c1 c2 job key submission allowPrepared native db = Inr ()"
    "(t, i) \<in> set (db_intents db)" "ci_state_key i = key \<or> ci_job_id i = job"
  shows "ci_job_id i = job \<and> ci_state_key i = key \<and> has_prefix (''rebuild:'' @ submission @ '':'') (ci_batch_id i) \<and>
    ci_status i \<in> {IcebergCommitPrepared, IcebergCommitCommitted} \<and>
    (ci_status i = IcebergCommitPrepared \<longrightarrow> allowPrepared) \<and>
    ci_kind i \<in> {''rebuild'', ''snapshot''} \<and> c1 = Inr () \<and> c2 = Inr ()"
proof -
  have c: "c1 = Inr ()" "c2 = Inr ()"
    and ok: "scoped_intents_ok job key submission allowPrepared native (ListIcebergCommitsForJob key job db) = Inr ()"
    using assms(1) by (auto simp: CheckScopedRebuildIntents_def split: if_splits sum.splits)
  have "i \<in> set (ListIcebergCommitsForJob key job db)" using assms(2,3) by (auto simp: ListIcebergCommitsForJob_set)
  with ok have i: "(ci_status i = IcebergCommitCommitted \<or> allowPrepared \<and> ci_status i = IcebergCommitPrepared) \<and>
        (native \<and> IsScopedNativeSnapshotIntent i job key submission \<or>
         ci_job_id i = job \<and> ci_state_key i = key \<and> ci_kind i = ''rebuild'' \<and>
         has_prefix (''rebuild:'' @ submission @ '':'') (ci_batch_id i) \<and>
         (allowPrepared \<or> ci_trino_query_id i \<noteq> [] \<and> ci_target_uuid i \<noteq> []))"
    unfolding scoped_intents_ok_Inr by blast
  have "has_prefix (''rebuild:'' @ submission @ '':'') (ScopedNativeSnapshotBatchID submission tb s e)" for tb s e
  proof -
    have "ScopedNativeSnapshotBatchID submission tb s e =
        (''rebuild:'' @ submission @ '':'') @ (tb @ '':native:'' @ show_int s @ ''-'' @ show_int e)"
      by (simp add: ScopedNativeSnapshotBatchID_def)
    then show ?thesis by (simp only: has_prefix_append)
  qed
  then have "IsScopedNativeSnapshotIntent i job key submission \<Longrightarrow>
      ci_job_id i = job \<and> ci_state_key i = key \<and> has_prefix (''rebuild:'' @ submission @ '':'') (ci_batch_id i) \<and>
      ci_kind i = ''snapshot''" by (auto simp: IsScopedNativeSnapshotIntent_def)
  with i c show ?thesis by auto
qed

lemma scoped_rebuild_admits_own_intents_only_witness:
  "let i = (sample_intent ''o'' IcebergCommitPrepared)\<lparr>ci_kind := ''rebuild'', ci_batch_id := ''rebuild:s1:db.t''\<rparr> in
     CheckScopedRebuildIntents (Inr ()) (Inr ()) ''a'' ''k'' ''s1'' True False (sample_started [(1, i)]) = Inr () \<and>
     ci_job_id i = ''a''"
proof -
  let ?i = "(sample_intent ''o'' IcebergCommitPrepared)\<lparr>ci_kind := ''rebuild'', ci_batch_id := ''rebuild:s1:db.t''\<rparr>"
  have ok: "CheckScopedRebuildIntents (Inr ()) (Inr ()) ''a'' ''k'' ''s1'' True False (sample_started [(1, ?i)]) = Inr ()"
    by code_simp
  have m: "(1, ?i) \<in> set (db_intents (sample_started [(1, ?i)]))" by (simp add: sample_started_def)
  have k: "ci_state_key ?i = ''k'' \<or> ci_job_id ?i = ''a''" by (simp add: sample_intent_def)
  from scoped_rebuild_admits_own_intents_only [OF ok m k] ok show ?thesis by (auto simp: Let_def)
qed

end
