(* ===== verification/Retry.thy ===== *)
theory Retry
  imports Rivus_Prelude "HOL-Library.Monad_Syntax"
begin

text \<open>
  Errors and retries: \<open>pkg/util/retry.go\<close> and the policy of automatic recovery
  (\<open>automaticRecoveryPolicy\<close> in \<open>pkg/connectors/iceberg/automatic_recovery.go\<close>).

  A Go error is its text with the tags of its chain: \<open>errors.Is\<close> and \<open>errors.As\<close> ask for a tag,
  wrapping with \<open>%w\<close> keeps the tags of what it wraps. A duration is a signed 64-bit integer, so doubling
  a backoff wraps around.
\<close>

section \<open>Errors\<close>

datatype err_tag = TOwnershipLost | TPermanent | TCommitFailed | TPreparation | TContext

record go_error =
  er_text :: string
  er_tags :: "err_tag list"

definition err_is :: "err_tag \<Rightarrow> go_error \<Rightarrow> bool" where
  "err_is t e \<longleftrightarrow> t \<in> set (er_tags e)"

definition new_error :: "string \<Rightarrow> go_error" where
  "new_error s = \<lparr>er_text = s, er_tags = []\<rparr>"

definition wrap_error :: "string \<Rightarrow> go_error \<Rightarrow> go_error" where
  "wrap_error s e = \<lparr>er_text = s @ er_text e, er_tags = er_tags e\<rparr>"

definition join_error :: "string \<Rightarrow> go_error \<Rightarrow> string \<Rightarrow> go_error \<Rightarrow> go_error" where
  "join_error s e t f = \<lparr>er_text = s @ er_text e @ t @ er_text f, er_tags = er_tags e @ er_tags f\<rparr>"

definition IsPermanent :: "go_error \<Rightarrow> bool" where
  "IsPermanent e = err_is TPermanent e"

definition Permanent :: "go_error option \<Rightarrow> go_error option" where
  "Permanent e' = (case e' of None \<Rightarrow> None
     | Some e \<Rightarrow> if IsPermanent e then Some e else Some (e\<lparr>er_tags := TPermanent # er_tags e\<rparr>))"

definition permanent :: "go_error \<Rightarrow> go_error" where
  "permanent e = (if IsPermanent e then e else e\<lparr>er_tags := TPermanent # er_tags e\<rparr>)"

lemma Permanent_Some [simp]: "Permanent (Some e) = Some (permanent e)"
  by (simp add: Permanent_def permanent_def)

lemma IsPermanent_permanent [simp]: "IsPermanent (permanent e)"
  by (simp add: permanent_def IsPermanent_def err_is_def)

lemma err_is_permanent [simp]: "t \<noteq> TPermanent \<Longrightarrow> err_is t (permanent e) = err_is t e"
  by (simp add: permanent_def err_is_def)

lemma err_is_wrap [simp]: "err_is t (wrap_error s e) = err_is t e"
  by (simp add: wrap_error_def err_is_def)

lemma err_is_join [simp]: "err_is t (join_error s e u f) \<longleftrightarrow> err_is t e \<or> err_is t f"
  by (simp add: join_error_def err_is_def)

section \<open>Durations\<close>

definition wrap64 :: "int \<Rightarrow> int" where
  "wrap64 x = (x + 2 ^ 63) mod 2 ^ 64 - 2 ^ 63"

lemma wrap64_id: "- (2 ^ 63) \<le> x \<Longrightarrow> x < 2 ^ 63 \<Longrightarrow> wrap64 x = x"
  by (simp add: wrap64_def)

section \<open>Retry with backoff\<close>

text \<open>
  \<open>fn n\<close> is the result of the \<open>n\<close>-th call, \<open>cancelled n\<close> what the \<open>select\<close> after it reports. The loop
  returns its result, the number of calls and the waits in order; without a limit on the attempts it
  need not return.
\<close>

definition next_backoff :: "int \<Rightarrow> int \<Rightarrow> int" where
  "next_backoff maxBackoff backoff =
     (let b = wrap64 (backoff * 2) in if b > maxBackoff then maxBackoff else b)"

partial_function (option) retry_loop ::
  "int \<Rightarrow> int \<Rightarrow> (nat \<Rightarrow> go_error option) \<Rightarrow> (nat \<Rightarrow> go_error option) \<Rightarrow> nat \<Rightarrow> int \<Rightarrow>
     (go_error option \<times> nat \<times> int list) option" where
  "retry_loop maxAttempts maxBackoff fn cancelled n backoff =
     (case fn n of
        None \<Rightarrow> Some (None, Suc n, [])
      | Some e \<Rightarrow>
          if IsPermanent e then Some (Some e, Suc n, [])
          else if 0 < maxAttempts \<and> maxAttempts \<le> int (Suc n) then Some (Some e, Suc n, [])
          else (case cancelled n of
                  Some c \<Rightarrow> Some (Some c, Suc n, [backoff])
                | None \<Rightarrow>
                    Option.bind (retry_loop maxAttempts maxBackoff fn cancelled (Suc n) (next_backoff maxBackoff backoff))
                      (\<lambda>(r, k, ws). Some (r, k, backoff # ws))))"

definition RetryWithBackoff ::
  "int \<Rightarrow> int \<Rightarrow> int \<Rightarrow> (nat \<Rightarrow> go_error option) \<Rightarrow> (nat \<Rightarrow> go_error option) \<Rightarrow>
     (go_error option \<times> nat \<times> int list) option" where
  "RetryWithBackoff maxAttempts baseBackoff maxBackoff fn cancelled =
     (let b = (if baseBackoff \<le> 0 then 500000000 else baseBackoff);
          m = (if maxBackoff \<le> 0 then 10000000000 else maxBackoff) in
      retry_loop maxAttempts m fn cancelled 0 b)"

text \<open>One more round of the loop is forced by a failure that is neither permanent, the last nor cancelled.\<close>

definition retries :: "int \<Rightarrow> (nat \<Rightarrow> go_error option) \<Rightarrow> (nat \<Rightarrow> go_error option) \<Rightarrow> nat \<Rightarrow> bool" where
  "retries maxAttempts fn cancelled n \<longleftrightarrow>
     (\<exists>e. fn n = Some e \<and> \<not> IsPermanent e) \<and> \<not> (0 < maxAttempts \<and> maxAttempts \<le> int (Suc n)) \<and>
     cancelled n = None"

lemma retry_loop_step:
  "retries m fn c n \<Longrightarrow> retry_loop m mb fn c n b =
     Option.bind (retry_loop m mb fn c (Suc n) (next_backoff mb b)) (\<lambda>(r, k, ws). Some (r, k, b # ws))"
  by (subst retry_loop.simps) (auto simp: retries_def)

lemma retry_loop_stop:
  "\<not> retries m fn c n \<Longrightarrow> \<exists>r ws. retry_loop m mb fn c n b = Some (r, Suc n, ws) \<and> set ws \<subseteq> {b} \<and>
     (r = None \<longleftrightarrow> fn n = None) \<and> (r \<noteq> None \<longrightarrow> r = fn n \<or> r = c n)"
  by (subst retry_loop.simps) (auto simp: retries_def split: option.split)

definition backoff_ok :: "int \<Rightarrow> int \<Rightarrow> bool" where
  "backoff_ok b mb \<longleftrightarrow> 0 < b \<and> b < 2 ^ 62 \<and> 0 < mb \<and> mb < 2 ^ 62"

lemma next_backoff_ok: "backoff_ok b mb \<Longrightarrow> backoff_ok (next_backoff mb b) mb \<and> next_backoff mb b \<le> mb"
  using wrap64_id [of "b * 2"] by (auto simp: backoff_ok_def next_backoff_def Let_def)

text \<open>Where the loop stops first, it returns; the calls before the last all failed.\<close>

lemma retry_loop_returns:
  assumes "\<And>j. n \<le> j \<Longrightarrow> j < n + d \<Longrightarrow> retries m fn c j" "\<not> retries m fn c (n + d)"
  shows "\<exists>r ws. retry_loop m mb fn c n b = Some (r, Suc (n + d), ws) \<and>
     (r = None \<longleftrightarrow> fn (n + d) = None) \<and> (r \<noteq> None \<longrightarrow> r = fn (n + d) \<or> r = c (n + d)) \<and>
     (backoff_ok b mb \<longrightarrow> (\<forall>w \<in> set ws. 0 < w \<and> w \<le> max b mb))"
  using assms
proof (induction d arbitrary: n b)
  case 0
  then have "\<not> retries m fn c n" by simp
  from retry_loop_stop [OF this, of mb b] obtain r ws where
    "retry_loop m mb fn c n b = Some (r, Suc n, ws)" "set ws \<subseteq> {b}"
    "r = None \<longleftrightarrow> fn n = None" "r \<noteq> None \<longrightarrow> r = fn n \<or> r = c n" by (elim exE conjE)
  then show ?case by (intro exI [of _ r] exI [of _ ws]) (auto simp: backoff_ok_def)
next
  case (Suc d)
  have r: "retries m fn c n" using Suc.prems(1) [of n] by simp
  have "\<exists>r ws. retry_loop m mb fn c (Suc n) (next_backoff mb b) = Some (r, Suc (Suc n + d), ws) \<and>
     (r = None \<longleftrightarrow> fn (Suc n + d) = None) \<and> (r \<noteq> None \<longrightarrow> r = fn (Suc n + d) \<or> r = c (Suc n + d)) \<and>
     (backoff_ok (next_backoff mb b) mb \<longrightarrow> (\<forall>w \<in> set ws. 0 < w \<and> w \<le> max (next_backoff mb b) mb))"
    by (rule Suc.IH) (use Suc.prems in simp_all)
  then obtain r ws where loop: "retry_loop m mb fn c (Suc n) (next_backoff mb b) = Some (r, Suc (Suc n + d), ws)"
    and res: "r = None \<longleftrightarrow> fn (Suc n + d) = None" "r \<noteq> None \<longrightarrow> r = fn (Suc n + d) \<or> r = c (Suc n + d)"
    and ws: "backoff_ok (next_backoff mb b) mb \<longrightarrow> (\<forall>w \<in> set ws. 0 < w \<and> w \<le> max (next_backoff mb b) mb)"
    by (elim exE conjE)
  have "\<forall>w \<in> set (b # ws). 0 < w \<and> w \<le> max b mb" if ok: "backoff_ok b mb"
    using ws next_backoff_ok [OF ok] ok by (fastforce simp: backoff_ok_def)
  then have "backoff_ok b mb \<longrightarrow> (\<forall>w \<in> set (b # ws). 0 < w \<and> w \<le> max b mb)" ..
  moreover have "retry_loop m mb fn c n b = Some (r, Suc (Suc n + d), b # ws)"
    unfolding retry_loop_step [OF r] loop by simp
  moreover have eq: "n + Suc d = Suc n + d" by simp
  ultimately show ?case
    unfolding eq using res by - (rule exI [of _ r], rule exI [of _ "b # ws"], intro conjI; assumption)
qed

lemma retry_loop_diverges:
  assumes "\<And>j. retries m fn c j" shows "retry_loop m mb fn c n b = None"
proof (cases "retry_loop m mb fn c n b")
  case (Some y)
  have "\<exists>j. \<not> retries m fn c j"
    using Some
  proof (rule retry_loop.raw_induct [where P = "\<lambda>m mb fn c n b y. \<exists>j. \<not> retries m fn c j", rotated])
    fix loop :: "int \<Rightarrow> int \<Rightarrow> (nat \<Rightarrow> go_error option) \<Rightarrow> (nat \<Rightarrow> go_error option) \<Rightarrow> nat \<Rightarrow> int \<Rightarrow>
       (go_error option \<times> nat \<times> int list) option" and m mb fn c n b y
    assume ih: "\<And>m mb fn c n b y. loop m mb fn c n b = Some y \<Longrightarrow> \<exists>j. \<not> retries m fn c j"
      and step: "(case fn n of None \<Rightarrow> Some (None, Suc n, [])
        | Some e \<Rightarrow> if IsPermanent e then Some (Some e, Suc n, [])
            else if 0 < m \<and> m \<le> int (Suc n) then Some (Some e, Suc n, [])
            else case c n of None \<Rightarrow> Option.bind (loop m mb fn c (Suc n) (next_backoff mb b)) (\<lambda>(r, k, ws). Some (r, k, b # ws))
              | Some e' \<Rightarrow> Some (Some e', Suc n, [b])) = Some y"
    show "\<exists>j. \<not> retries m fn c j"
    proof (cases "retries m fn c n")
      case True
      with step obtain z where "loop m mb fn c (Suc n) (next_backoff mb b) = Some z"
        by (auto simp: retries_def bind_eq_Some_conv)
      then show ?thesis by (rule ih)
    qed blast
  qed
  with assms show ?thesis by blast
qed

text \<open>
  C33: the retry loop returns if and only if some call succeeds, fails permanently or is cancelled, or
  the number of attempts is limited; with a limit of \<open>n > 0\<close> it calls the function at least once and at
  most \<open>n\<close> times. It returns success exactly when its last call succeeded, after which it never calls
  again, and no wait exceeds the larger of the two configured backoffs (below \<open>2 ^ 62\<close> nanoseconds).
\<close>

theorem RetryWithBackoff_correct:
  fixes maxAttempts base mb :: int
  assumes "0 < base" "base < 2 ^ 62" "0 < mb" "mb < 2 ^ 62"
  shows "(RetryWithBackoff maxAttempts base mb fn cancelled = None \<longleftrightarrow>
      maxAttempts \<le> 0 \<and> (\<forall>j. (\<exists>e. fn j = Some e \<and> \<not> IsPermanent e) \<and> cancelled j = None)) \<and>
    (\<forall>r k ws. RetryWithBackoff maxAttempts base mb fn cancelled = Some (r, k, ws) \<longrightarrow>
      1 \<le> k \<and> (0 < maxAttempts \<longrightarrow> int k \<le> maxAttempts) \<and>
      (r = None \<longleftrightarrow> fn (k - 1) = None) \<and> (\<forall>j < k - 1. \<exists>e. fn j = Some e \<and> \<not> IsPermanent e) \<and>
      (\<forall>w \<in> set ws. 0 < w \<and> w \<le> max base mb))"
proof -
  let ?run = "RetryWithBackoff maxAttempts base mb fn cancelled"
  let ?go = "retries maxAttempts fn cancelled"
  have run: "?run = retry_loop maxAttempts mb fn cancelled 0 base"
    using assms by (simp add: RetryWithBackoff_def)
  show ?thesis
  proof (cases "\<forall>j. ?go j")
    case True
    then have "?go (nat maxAttempts)" by blast
    then have "\<not> 0 < maxAttempts" by (auto simp: retries_def)
    with True show ?thesis by (auto simp: run retry_loop_diverges retries_def)
  next
    case False
    define d where "d = (LEAST j. \<not> ?go j)"
    have stop: "\<not> ?go d" unfolding d_def by (rule LeastI_ex) (use False in blast)
    have before: "?go j" if "j < d" for j using that not_less_Least unfolding d_def by blast
    obtain r ws where loop: "?run = Some (r, Suc d, ws)" and res: "r = None \<longleftrightarrow> fn d = None"
      and ws: "\<forall>w \<in> set ws. 0 < w \<and> w \<le> max base mb"
      using retry_loop_returns [of 0 d maxAttempts fn cancelled mb base] stop before assms run by (auto simp: backoff_ok_def)
    have "int (Suc d) \<le> maxAttempts" if "0 < maxAttempts"
    proof (cases d)
      case (Suc e)
      with before [of e] that show ?thesis by (simp add: retries_def)
    qed (use that in simp)
    moreover have "\<forall>j < d. \<exists>e. fn j = Some e \<and> \<not> IsPermanent e" using before by (auto simp: retries_def)
    moreover have "\<not> (maxAttempts \<le> 0 \<and> (\<forall>j. (\<exists>e. fn j = Some e \<and> \<not> IsPermanent e) \<and> cancelled j = None))"
      using stop by (auto simp: retries_def)
    ultimately show ?thesis using loop res ws by auto
  qed
qed

lemma RetryWithBackoff_correct_witness:
  "\<exists>r k ws. RetryWithBackoff 3 5 8 (\<lambda>n. Some (new_error ''busy'')) (\<lambda>_. None) = Some (r, k, ws) \<and> int k \<le> 3"
proof -
  have b: "0 < (5::int)" "(5::int) < 2 ^ 62" "0 < (8::int)" "(8::int) < 2 ^ 62" by simp_all
  note c = RetryWithBackoff_correct [OF b, of 3 "\<lambda>n. Some (new_error ''busy'')" "\<lambda>_. None"]
  then obtain r k ws where "RetryWithBackoff 3 5 8 (\<lambda>n. Some (new_error ''busy'')) (\<lambda>_. None) = Some (r, k, ws)"
    by (cases "RetryWithBackoff 3 5 8 (\<lambda>n. Some (new_error ''busy'')) (\<lambda>_. None)") auto
  with c show ?thesis by auto
qed

section \<open>The policy of automatic recovery\<close>

record recovery_policy =
  rp_attempts :: int
  rp_base :: int
  rp_max :: int

definition automaticRecoveryPolicy :: "recovery_policy \<Rightarrow> recovery_policy" where
  "automaticRecoveryPolicy p =
     (let a = (if rp_attempts p \<le> 0 then 5 else rp_attempts p);
          a = (if 20 < a then 20 else a);
          b = (if rp_base p \<le> 0 then 500000000 else rp_base p);
          m = (if rp_max p \<le> 0 \<or> 10000000000 < rp_max p then 10000000000 else rp_max p);
          b = (if m < b then m else b) in
      \<lparr>rp_attempts = a, rp_base = b, rp_max = m\<rparr>)"

lemma automaticRecoveryPolicy_bounds:
  "1 \<le> rp_attempts (automaticRecoveryPolicy p) \<and> rp_attempts (automaticRecoveryPolicy p) \<le> 20 \<and>
   0 < rp_base (automaticRecoveryPolicy p) \<and> rp_base (automaticRecoveryPolicy p) \<le> rp_max (automaticRecoveryPolicy p) \<and>
   rp_max (automaticRecoveryPolicy p) \<le> 10000000000"
  by (simp add: automaticRecoveryPolicy_def Let_def)

end
