(* ===== verification/Reconciliation.thy ===== *)
theory Reconciliation
  imports Worker_Fence Retry
begin

text \<open>
  Replay reconciliation: \<open>pkg/connectors/iceberg/reconciliation.go\<close> and the coverage test of
  \<open>commit_guard.go\<close>. After a restart the sink asks the catalog for positive evidence of every commit
  whose outcome it does not know, and remembers for each accepted operation which source events or rows
  must not be written again.

  SHA-256, JSON and the catalog are parameters: \<open>replay_codec\<close> holds the digests and decoders, a loaded
  table is the record the Iceberg library returns. A Go map with default zero is a total function.
\<close>

section \<open>Events and their replay keys\<close>

record model_event =
  me_type :: string
  me_trace :: string
  me_schema :: string
  me_table :: string
  me_data :: string
  me_old :: string
  me_offset :: "source_offset option"

record replay_event =
  re_key :: string
  re_offset :: "source_offset option"

text \<open>
  \<open>rc_payload\<close> and \<open>rc_identity\<close> are the hexadecimal SHA-256 digests of the encoded event and of its
  identity; encoding the row may fail. \<open>rc_keys\<close> and \<open>rc_manifest\<close> decode the two stored formats.
\<close>

record replay_codec =
  rc_identity :: "model_event \<Rightarrow> string"
  rc_payload :: "model_event \<Rightarrow> string + string"
  rc_fingerprint :: "commit_intent \<Rightarrow> string"
  rc_keys :: "string \<Rightarrow> string + string list"
  rc_manifest :: "string \<Rightarrow> string + (int \<times> replay_event list)"
  rc_encode :: "replay_event list \<Rightarrow> string"
  rc_sha_hex :: "string \<Rightarrow> string"

definition icebergIntentFingerprint :: "replay_codec \<Rightarrow> commit_intent \<Rightarrow> string" where
  "icebergIntentFingerprint C i = rc_fingerprint C (i\<lparr>ci_status := [], ci_trino_query_id := []\<rparr>)"

definition icebergReplayKey :: "replay_codec \<Rightarrow> model_event \<Rightarrow> string + string" where
  "icebergReplayKey C ev =
     (if me_trace ev = [] \<or> \<not> source_offset_valid (me_offset ev) then Inl ''missing stable binlog row identity''
      else case rc_payload C ev of
             Inl e \<Rightarrow> Inl e
           | Inr digest \<Rightarrow> Inr (rc_identity C ev @ ''.'' @ digest))"

definition recoverableDataOperation :: "string \<Rightarrow> bool" where
  "recoverableDataOperation op_name \<longleftrightarrow>
     op_name \<in> {''append'', ''delete-append-equality'', ''delete-equality'', ''snapshot-rolling-append''}"

definition recoverableMetadataOperation :: "string \<Rightarrow> bool" where
  "recoverableMetadataOperation op_name \<longleftrightarrow>
     op_name = ''schema'' \<or> op_name = ''create_table'' \<or> op_name = ''snapshot-rolling-properties''"

section \<open>Catalog evidence\<close>

record ice_snapshot =
  is_id :: int
  is_parent :: "int option"
  is_summary :: "(string \<times> (string \<rightharpoonup> string)) option"

record ice_table =
  it_uuid :: string
  it_properties :: "string \<rightharpoonup> string"
  it_current :: "ice_snapshot option"
  it_snapshots :: "ice_snapshot list"

definition go_get :: "(string \<rightharpoonup> string) \<Rightarrow> string \<Rightarrow> string" where
  "go_get m k = (case m k of None \<Rightarrow> [] | Some v \<Rightarrow> v)"

definition SnapshotByID :: "ice_table \<Rightarrow> int \<Rightarrow> ice_snapshot option" where
  "SnapshotByID tbl j = find (\<lambda>s. is_id s = j) (it_snapshots tbl)"

text \<open>
  The walk from the current snapshot to its ancestors. The code follows parents until there is none; on
  metadata whose parents form a cycle it would not stop. The fuel is one more than the number of
  snapshots, which is enough for every chain without repetition (\<open>ancestry_enough\<close> below).
\<close>

fun ancestry :: "nat \<Rightarrow> ice_table \<Rightarrow> ice_snapshot option \<Rightarrow> ice_snapshot list" where
  "ancestry 0 tbl s = []"
| "ancestry (Suc fuel) tbl None = []"
| "ancestry (Suc fuel) tbl (Some s) =
     s # (case is_parent s of None \<Rightarrow> [] | Some p \<Rightarrow> ancestry fuel tbl (SnapshotByID tbl p))"

definition main_ancestry :: "ice_table \<Rightarrow> ice_snapshot list" where
  "main_ancestry tbl = ancestry (Suc (length (it_snapshots tbl))) tbl (it_current tbl)"

definition snapshot_evidence :: "string \<Rightarrow> string \<Rightarrow> ice_snapshot \<Rightarrow> bool" where
  "snapshot_evidence key want s =
     (case is_summary s of None \<Rightarrow> False | Some (operation, props) \<Rightarrow> go_get props key = want)"

text \<open>What the sink knows of itself while it recovers; \<open>rs_events\<close> counts the replays still to skip.\<close>

record recovery_env =
  rn_job :: string
  rn_state_key :: string
  rn_resolve :: "string \<Rightarrow> string \<Rightarrow> string \<times> string"
  rn_load :: "string list \<Rightarrow> go_error + ice_table"
  rn_codec :: replay_codec
  rn_has_catalog :: bool
  rn_scoped_native :: bool
  rn_token :: string

record recovery_state =
  rs_loaded :: "string list"
  rs_events :: "string \<Rightarrow> int"
  rs_payloads :: "string \<Rightarrow> string"
  rs_intents :: "commit_intent list"

definition checkpointKey :: "recovery_env \<Rightarrow> string" where
  "checkpointKey E = (if trim_space (rn_state_key E) \<noteq> [] then rn_state_key E else rn_job E)"

definition source_mapping_ok :: "recovery_env \<Rightarrow> commit_intent \<Rightarrow> string option" where
  "source_mapping_ok E i =
     (if ci_source_table i = [] then None
      else case last_index (CHR ''.'') (ci_source_table i) of
             None \<Rightarrow> Some ''invalid durable source table''
           | Some dot \<Rightarrow>
               if dot < 1 then Some ''invalid durable source table''
               else if rn_resolve E (take dot (ci_source_table i)) (drop (dot + 1) (ci_source_table i)) \<noteq>
                       (ci_target_namespace i, ci_target_table i)
               then Some ''source target mapping changed since commit'' else None)"

text \<open>The property under which a commit leaves the fingerprint of its intent.\<close>

definition commit_marker :: "commit_intent \<Rightarrow> string" where
  "commit_marker i = ''rivus.commit.'' @ ci_operation_id i"

text \<open>\<open>strings.Split\<close> at a byte, and the catalog identifier of an intent's target.\<close>

fun split_on :: "char \<Rightarrow> string \<Rightarrow> string list" where
  "split_on c [] = [[]]"
| "split_on c (x # xs) =
     (if x = c then [] # split_on c xs
      else case split_on c xs of [] \<Rightarrow> [[x]] | p # ps \<Rightarrow> (x # p) # ps)"

definition recovery_ident :: "commit_intent \<Rightarrow> string list" where
  "recovery_ident i = split_on (CHR ''.'') (ci_target_namespace i) @ [ci_target_table i]"

definition namespaceOnlyIdentifier :: "string \<Rightarrow> string list" where
  "namespaceOnlyIdentifier ns = filter (\<lambda>p. p \<noteq> []) (map trim_space (split_on (CHR ''.'') (trim_space ns)))"

definition namespaceIdentifier :: "string \<Rightarrow> string \<Rightarrow> string list" where
  "namespaceIdentifier ns table = namespaceOnlyIdentifier ns @ [trim_space table]"

definition loadProvenIcebergTable :: "recovery_env \<Rightarrow> commit_intent \<Rightarrow> go_error + ice_table" where
  "loadProvenIcebergTable E i =
     (if \<not> rn_has_catalog E \<or> ci_target_table i = [] \<or> ci_target_namespace i = [] \<or> ci_operation_id i = []
      then Inl (new_error ''catalog or durable target identity unavailable'')
      else if \<not> recoverableDataOperation (ci_operation i) \<and> \<not> recoverableMetadataOperation (ci_operation i)
      then Inl (new_error ''operation has no automatic replay recovery'')
      else case source_mapping_ok E i of
        Some e \<Rightarrow> Inl (new_error e)
      | None \<Rightarrow>
          (case rn_load E (recovery_ident i) of
             Inl e \<Rightarrow> Inl (wrap_error ''load recovery target: '' e)
           | Inr tbl \<Rightarrow>
               if ci_target_uuid i \<noteq> [] \<and> it_uuid tbl \<noteq> ci_target_uuid i
               then Inl (new_error ''native recovery target generation changed'')
               else let key = commit_marker i;
                        want = icebergIntentFingerprint (rn_codec E) i in
                 if recoverableMetadataOperation (ci_operation i)
                 then (if go_get (it_properties tbl) key = want then Inr tbl
                       else Inl (new_error ''metadata commit marker absent or mismatched''))
                 else if list_ex (snapshot_evidence key want) (main_ancestry tbl) then Inr tbl
                 else Inl (new_error ''matching operation not found in retained main snapshot ancestry'')))"

definition proveIcebergIntent :: "recovery_env \<Rightarrow> commit_intent \<Rightarrow> go_error option" where
  "proveIcebergIntent E i = (case loadProvenIcebergTable E i of Inl e \<Rightarrow> Some e | Inr tbl \<Rightarrow> None)"

section \<open>Receipts\<close>

definition event_in_range :: "commit_intent \<Rightarrow> replay_event \<Rightarrow> bool" where
  "event_in_range i ev =
     (case re_offset ev of
        None \<Rightarrow> False
      | Some so \<Rightarrow> source_offset_valid (Some so) \<and>
          binlogOffsetCovers (so_file so) (so_pos so) (ci_source_start_file i) (ci_source_start_pos i) \<and>
          binlogOffsetCovers (ci_source_end_file i) (ci_source_end_pos i) (so_file so) (so_pos so))"

definition valid_event_key :: "string \<Rightarrow> bool" where
  "valid_event_key k \<longleftrightarrow> length k = 129 \<and> k ! 64 = CHR ''.''"

definition decodeIcebergReplayEvents :: "replay_codec \<Rightarrow> commit_intent \<Rightarrow> string + replay_event list" where
  "decodeIcebergReplayEvents C i =
     (let decoded =
        (if has_prefix ''['' (trim_space (ci_replay_keys i))
         then (case rc_keys C (ci_replay_keys i) of
                 Inl e \<Rightarrow> Inl e
               | Inr keys \<Rightarrow> Inr (map (\<lambda>k. \<lparr>re_key = k, re_offset = None\<rparr>) keys))
         else (case rc_manifest C (ci_replay_keys i) of
                 Inl e \<Rightarrow> Inl e
               | Inr (version, events) \<Rightarrow>
                   if version \<noteq> 2 then Inl ''unsupported CDC replay manifest version''
                   else if list_all (event_in_range i) events then Inr events
                   else Inl ''CDC replay event offset outside durable commit range'')) in
      case decoded of
        Inl e \<Rightarrow> Inl e
      | Inr events \<Rightarrow>
          if events = [] \<or> ci_source_table i = [] \<or> ci_source_end_file i = [] \<or> ci_source_end_pos i = 0
          then Inl ''CDC intent lacks stable source event identities''
          else if list_all (\<lambda>ev. valid_event_key (re_key ev)) events then Inr events
          else Inl ''invalid CDC event identity'')"

definition checkpoint_covers_event :: "offset option \<Rightarrow> replay_event \<Rightarrow> bool" where
  "checkpoint_covers_event checkpoint ev =
     (case (checkpoint, re_offset ev) of
        (Some off, Some so) \<Rightarrow> source_offset_valid (Some so) \<and>
           binlogOffsetCovers (of_file off) (of_pos off) (so_file so) (so_pos so)
      | _ \<Rightarrow> False)"

fun retain_events :: "offset option \<Rightarrow> replay_event list \<Rightarrow> recovery_state \<Rightarrow> string option \<times> recovery_state" where
  "retain_events checkpoint [] st = (None, st)"
| "retain_events checkpoint (ev # evs) st =
     (let key = re_key ev; ident = take 64 key; previous = rs_payloads st ident in
      if previous \<noteq> [] \<and> previous \<noteq> key
      then (Some ''conflicting payloads for one binlog event identity'', st)
      else let st = st\<lparr>rs_payloads := (rs_payloads st)(ident := key)\<rparr> in
        if checkpoint_covers_event checkpoint ev then retain_events checkpoint evs st
        else retain_events checkpoint evs (st\<lparr>rs_events := (rs_events st)(key := rs_events st key + 1)\<rparr>))"

definition valid_snapshot_range :: "commit_intent \<Rightarrow> bool" where
  "valid_snapshot_range i \<longleftrightarrow>
     \<not> (ci_snapshot_table i = [] \<or> ci_snapshot_start i < 0 \<or> ci_snapshot_end i \<le> ci_snapshot_start i)"

definition retainRecoveryReceipt ::
  "replay_codec \<Rightarrow> commit_intent \<Rightarrow> offset option \<Rightarrow> recovery_state \<Rightarrow> string option \<times> recovery_state" where
  "retainRecoveryReceipt C i checkpoint st =
     (if ci_operation_id i \<in> set (rs_loaded st) then (None, st)
      else let (err, st) =
        (if recoverableDataOperation (ci_operation i)
         then (if ci_kind i = ''cdc''
               then (case decodeIcebergReplayEvents C i of
                       Inl e \<Rightarrow> (Some e, st)
                     | Inr events \<Rightarrow> retain_events checkpoint events st)
               else if ci_kind i = ''snapshot''
               then (if valid_snapshot_range i then (None, st) else (Some ''invalid snapshot recovery range'', st))
               else (Some ''data operation has no source recovery range'', st))
         else (None, st)) in
      case err of
        Some e \<Rightarrow> (Some e, st)
      | None \<Rightarrow> (None, st\<lparr>rs_loaded := ci_operation_id i # rs_loaded st, rs_intents := rs_intents st @ [i]\<rparr>))"

section \<open>Replay\<close>

definition skipRecoveredCDCEvent ::
  "replay_codec \<Rightarrow> model_event \<Rightarrow> recovery_state \<Rightarrow> (string + bool) \<times> recovery_state" where
  "skipRecoveredCDCEvent C ev st =
     (if me_type ev \<notin> {''INSERT'', ''UPDATE'', ''DELETE''} then (Inr False, st)
      else case icebergReplayKey C ev of
        Inl e \<Rightarrow> (Inr False, st)
      | Inr key \<Rightarrow>
          (let expected = rs_payloads st (take 64 key) in
           if expected \<noteq> [] \<and> expected \<noteq> key
           then (Inl ''Iceberg recovery BLOCKED: source payload changed for retained binlog row identity'', st)
           else if rs_events st key \<le> 0 then (Inr False, st)
           else (Inr True, st\<lparr>rs_events := (rs_events st)(key := rs_events st key - 1)\<rparr>)))"

fun replay_complete :: "replay_codec \<Rightarrow> source_offset \<Rightarrow> recovery_state \<Rightarrow> commit_intent list \<Rightarrow> string option" where
  "replay_complete C off st [] = None"
| "replay_complete C off st (i # is) =
     (if ci_kind i \<noteq> ''cdc'' \<or> \<not> recoverableDataOperation (ci_operation i) \<or>
         \<not> binlogOffsetCovers (so_file off) (so_pos off) (ci_source_end_file i) (ci_source_end_pos i)
      then replay_complete C off st is
      else case decodeIcebergReplayEvents C i of
        Inl e \<Rightarrow> Some e
      | Inr events \<Rightarrow>
          if list_ex (\<lambda>ev. 0 < rs_events st (re_key ev)) events
          then Some ''checkpoint reached commit range before all source event identities replayed''
          else replay_complete C off st is)"

definition checkRecoveryReplayComplete ::
  "replay_codec \<Rightarrow> source_offset option \<Rightarrow> recovery_state \<Rightarrow> string option" where
  "checkRecoveryReplayComplete C off' st =
     (case off' of None \<Rightarrow> None
      | Some off \<Rightarrow> if \<not> source_offset_valid (Some off) then None else replay_complete C off st (rs_intents st))"

definition row_recovered :: "recovery_state \<Rightarrow> string \<Rightarrow> int \<Rightarrow> bool" where
  "row_recovered st source r \<longleftrightarrow>
     (\<exists>i \<in> set (rs_intents st). ci_kind i = ''snapshot'' \<and> recoverableDataOperation (ci_operation i) \<and>
        ci_snapshot_table i = source \<and> ci_snapshot_start i \<le> r \<and> r < ci_snapshot_end i)"

text \<open>
  The loop over the rows, with the open span as the rows since \<open>spanStart\<close>, or \<open>None\<close> outside a span.
  \<open>pos\<close> is the absolute offset of the next row.
\<close>

fun span_loop :: "(int \<Rightarrow> bool) \<Rightarrow> int \<Rightarrow> ('r list \<times> int) option \<Rightarrow> 'r list \<Rightarrow> ('r list \<times> int) list" where
  "span_loop covered pos cur [] = (case cur of None \<Rightarrow> [] | Some s \<Rightarrow> [s])"
| "span_loop covered pos cur (r # rs) =
     (if covered pos
      then (case cur of None \<Rightarrow> [] | Some s \<Rightarrow> [s]) @ span_loop covered (pos + 1) None rs
      else (case cur of
              None \<Rightarrow> span_loop covered (pos + 1) (Some ([r], pos)) rs
            | Some (rows, s) \<Rightarrow> span_loop covered (pos + 1) (Some (rows @ [r], s)) rs))"

definition unrecoveredSnapshotRows :: "recovery_state \<Rightarrow> string \<Rightarrow> int \<Rightarrow> 'r list \<Rightarrow> ('r list \<times> int) list" where
  "unrecoveredSnapshotRows st source start rows = span_loop (row_recovered st source) start None rows"

section \<open>Coverage by a checkpoint\<close>

definition icebergIntentCovered ::
  "commit_intent \<Rightarrow> offset option \<Rightarrow> snapshot_progress option \<Rightarrow> snapshot_state option \<Rightarrow> bool" where
  "icebergIntentCovered i off progress snapshot =
     (if ci_kind i = ''cdc''
      then (case off of None \<Rightarrow> False
            | Some o' \<Rightarrow> ci_source_end_file i \<noteq> [] \<and>
                binlogOffsetCovers (of_file o') (of_pos o') (ci_source_end_file i) (ci_source_end_pos i))
      else if ci_kind i = ''snapshot''
      then CompletionConfirmed snapshot \<or>
           (case progress of None \<Rightarrow> False
            | Some p \<Rightarrow> sp_table p = ci_snapshot_table i \<and> ci_snapshot_end i \<le> sp_next p)
      else False)"

section \<open>The walk over the ancestors\<close>

inductive reachable_snapshot :: "ice_table \<Rightarrow> ice_snapshot \<Rightarrow> bool" for tbl where
  rs_current: "it_current tbl = Some s \<Longrightarrow> reachable_snapshot tbl s"
| rs_parent: "reachable_snapshot tbl s \<Longrightarrow> is_parent s = Some p \<Longrightarrow> SnapshotByID tbl p = Some t \<Longrightarrow>
    reachable_snapshot tbl t"

text \<open>Metadata as the library writes it: a snapshot's parent was created before it.\<close>

definition acyclic_table :: "(ice_snapshot \<Rightarrow> nat) \<Rightarrow> ice_table \<Rightarrow> bool" where
  "acyclic_table rank tbl \<longleftrightarrow>
     (\<forall>s p t. is_parent s = Some p \<longrightarrow> SnapshotByID tbl p = Some t \<longrightarrow> rank t < rank s)"

lemma SnapshotByID_in: "SnapshotByID tbl p = Some t \<Longrightarrow> t \<in> set (it_snapshots tbl)"
  unfolding SnapshotByID_def by (metis find_Some_iff nth_mem)

lemma ancestry_enough:
  assumes "acyclic_table rank tbl"
  shows "card {t \<in> set (it_snapshots tbl). rank t < rank s} < fuel \<Longrightarrow>
    ancestry (fuel + k) tbl (Some s) = ancestry fuel tbl (Some s)"
proof (induction fuel arbitrary: s)
  case (Suc fuel)
  show ?case
  proof (cases "is_parent s")
    case (Some p)
    show ?thesis
    proof (cases "SnapshotByID tbl p")
      case None
      then show ?thesis using Some by (cases fuel; cases k) simp_all
    next
      case t: (Some t)
      have lt: "rank t < rank s" using assms Some t by (auto simp: acyclic_table_def)
      have "{u \<in> set (it_snapshots tbl). rank u < rank t} \<subset> {u \<in> set (it_snapshots tbl). rank u < rank s}"
        using lt SnapshotByID_in [OF t] by auto
      then have "card {u \<in> set (it_snapshots tbl). rank u < rank t} < card {u \<in> set (it_snapshots tbl). rank u < rank s}"
        by (intro psubset_card_mono) auto
      with Suc.prems have "card {u \<in> set (it_snapshots tbl). rank u < rank t} < fuel" by simp
      from Suc.IH [OF this] Some t show ?thesis by simp
    qed
  qed simp
qed simp

lemma ancestry_closed:
  assumes "acyclic_table rank tbl" "card {t \<in> set (it_snapshots tbl). rank t < rank s} < fuel"
    "u \<in> set (ancestry fuel tbl (Some s))" "is_parent u = Some p" "SnapshotByID tbl p = Some v"
  shows "v \<in> set (ancestry fuel tbl (Some s))"
  using assms(2-)
proof (induction fuel arbitrary: s)
  case (Suc fuel)
  show ?case
  proof (cases "is_parent s")
    case None
    with Suc.prems show ?thesis by auto
  next
    case (Some q)
    show ?thesis
    proof (cases "SnapshotByID tbl q")
      case None
      with Suc.prems Some show ?thesis by (cases fuel) auto
    next
      case t: (Some t)
      have lt: "rank t < rank s" using assms(1) Some t by (auto simp: acyclic_table_def)
      have "{u \<in> set (it_snapshots tbl). rank u < rank t} \<subset> {u \<in> set (it_snapshots tbl). rank u < rank s}"
        using lt SnapshotByID_in [OF t] by auto
      then have "card {u \<in> set (it_snapshots tbl). rank u < rank t} < card {u \<in> set (it_snapshots tbl). rank u < rank s}"
        by (intro psubset_card_mono) auto
      with Suc.prems have c: "card {u \<in> set (it_snapshots tbl). rank u < rank t} < fuel" by simp
      then obtain f where f: "fuel = Suc f" by (cases fuel) auto
      have anc: "ancestry (Suc fuel) tbl (Some s) = s # ancestry fuel tbl (Some t)" using Some t by simp
      show ?thesis
      proof (cases "u = s")
        case True
        with Suc.prems Some t have "v = t" by simp
        moreover have "t \<in> set (ancestry fuel tbl (Some t))" unfolding f by simp
        ultimately show ?thesis unfolding anc by simp
      next
        case False
        then have "u \<in> set (ancestry fuel tbl (Some t))" using Suc.prems(2) unfolding anc by simp
        from Suc.IH [OF c this Suc.prems(3,4)] show ?thesis unfolding anc by simp
      qed
    qed
  qed
qed simp

lemma ancestry_reachable:
  "(\<And>t. s = Some t \<Longrightarrow> reachable_snapshot tbl t) \<Longrightarrow> u \<in> set (ancestry fuel tbl s) \<Longrightarrow> reachable_snapshot tbl u"
proof (induction fuel tbl s rule: ancestry.induct)
  case (3 fuel tbl s)
  from 3(3) consider "u = s" | p where "is_parent s = Some p" "u \<in> set (ancestry fuel tbl (SnapshotByID tbl p))"
    by (cases "is_parent s") auto
  then show ?case
  proof cases
    case 1
    with 3(2) show ?thesis by simp
  next
    case 2
    show ?thesis
      by (rule 3(1) [OF 2(1) _ 2(2)]) (use 3(2) 2(1) in \<open>auto intro: rs_parent\<close>)
  qed
qed auto

lemma main_ancestry_iff:
  assumes "acyclic_table rank tbl"
  shows "u \<in> set (main_ancestry tbl) \<longleftrightarrow> reachable_snapshot tbl u"
proof
  assume "u \<in> set (main_ancestry tbl)"
  then show "reachable_snapshot tbl u"
    unfolding main_ancestry_def by (rule ancestry_reachable [rotated]) (rule rs_current)
next
  assume "reachable_snapshot tbl u"
  then show "u \<in> set (main_ancestry tbl)"
  proof (induction rule: reachable_snapshot.induct)
    case (rs_current s)
    then show ?case by (simp add: main_ancestry_def)
  next
    case (rs_parent s p t)
    then obtain c where c: "it_current tbl = Some c"
      by (cases "it_current tbl") (auto simp: main_ancestry_def)
    have "card {t \<in> set (it_snapshots tbl). rank t < rank c} \<le> length (it_snapshots tbl)"
      by (rule order.trans [OF card_mono card_length]) auto
    then have "card {t \<in> set (it_snapshots tbl). rank t < rank c} < Suc (length (it_snapshots tbl))" by simp
    from ancestry_closed [OF assms this] rs_parent show ?case by (simp add: main_ancestry_def c)
  qed
qed

lemma snapshot_evidence_iff:
  "snapshot_evidence key want s \<longleftrightarrow> (\<exists>operation props. is_summary s = Some (operation, props) \<and> go_get props key = want)"
  by (cases "is_summary s") (auto simp: snapshot_evidence_def)

lemma loadProvenIcebergTable_Inr:
  "loadProvenIcebergTable E i = Inr tbl \<Longrightarrow>
     rn_load E (recovery_ident i) = Inr tbl \<and>
     (ci_target_uuid i \<noteq> [] \<longrightarrow> it_uuid tbl = ci_target_uuid i) \<and>
     source_mapping_ok E i = None \<and>
     (recoverableDataOperation (ci_operation i) \<or> recoverableMetadataOperation (ci_operation i)) \<and>
     (if recoverableMetadataOperation (ci_operation i)
      then go_get (it_properties tbl) (commit_marker i) = icebergIntentFingerprint (rn_codec E) i
      else list_ex (snapshot_evidence (commit_marker i) (icebergIntentFingerprint (rn_codec E) i))
             (main_ancestry tbl))"
  by (simp add: loadProvenIcebergTable_def Let_def split: if_splits option.splits sum.splits) blast+



definition sample_replay_codec :: replay_codec where
  "sample_replay_codec = \<lparr>rc_identity = (\<lambda>_. replicate 64 (CHR ''a'')), rc_payload = (\<lambda>_. Inr (replicate 64 (CHR ''b''))),
     rc_fingerprint = (\<lambda>i. ''f'' @ ci_operation_id i), rc_keys = (\<lambda>_. Inl ''bad''), rc_manifest = (\<lambda>_. Inl ''bad''),
     rc_encode = (\<lambda>_. []), rc_sha_hex = (\<lambda>_. replicate 64 (CHR ''c''))\<rparr>"

definition sample_table :: ice_table where
  "sample_table = (let old = \<lparr>is_id = 1, is_parent = None,
       is_summary = Some (''append'', [''rivus.commit.o'' \<mapsto> ''fo''])\<rparr> in
     \<lparr>it_uuid = ''u'', it_properties = Map.empty, it_current = Some \<lparr>is_id = 2, is_parent = Some 1, is_summary = None\<rparr>,
      it_snapshots = [old]\<rparr>)"

definition sample_env :: recovery_env where
  "sample_env = \<lparr>rn_job = ''a'', rn_state_key = ''k'', rn_resolve = (\<lambda>_ _. (''ns'', ''t'')),
     rn_load = (\<lambda>_. Inr sample_table), rn_codec = sample_replay_codec, rn_has_catalog = True,
     rn_scoped_native = False, rn_token = []\<rparr>"


section \<open>Skipping replayed events\<close>

fun replay_events ::
  "replay_codec \<Rightarrow> model_event list \<Rightarrow> recovery_state \<Rightarrow> (string + bool list) \<times> recovery_state" where
  "replay_events C [] st = (Inr [], st)"
| "replay_events C (ev # evs) st =
     (case skipRecoveredCDCEvent C ev st of
        (Inl e, st') \<Rightarrow> (Inl e, st')
      | (Inr b, st') \<Rightarrow>
          (case replay_events C evs st' of (Inl e, st'') \<Rightarrow> (Inl e, st'') | (Inr bs, st'') \<Rightarrow> (Inr (b # bs), st'')))"

definition has_key :: "replay_codec \<Rightarrow> string \<Rightarrow> model_event \<Rightarrow> bool" where
  "has_key C k ev \<longleftrightarrow> me_type ev \<in> {''INSERT'', ''UPDATE'', ''DELETE''} \<and> icebergReplayKey C ev = Inr k"

definition skipped :: "replay_codec \<Rightarrow> string \<Rightarrow> model_event list \<Rightarrow> bool list \<Rightarrow> nat" where
  "skipped C k evs flags = length (filter (\<lambda>(ev, b). b \<and> has_key C k ev) (zip evs flags))"

definition occurs :: "replay_codec \<Rightarrow> string \<Rightarrow> model_event list \<Rightarrow> nat" where
  "occurs C k evs = length (filter (has_key C k) evs)"

lemma skip_step:
  assumes "skipRecoveredCDCEvent C ev st = (Inr b, st')"
  shows "b \<longleftrightarrow> (\<exists>k. has_key C k ev \<and> 0 < rs_events st k)"
    "rs_events st' k = rs_events st k - (if b \<and> has_key C k ev then 1 else 0)"
  using assms
  by (auto simp: skipRecoveredCDCEvent_def has_key_def Let_def split: if_splits sum.splits)

text \<open>
  C25: over any replayed run of source events that meets no changed payload, the events skipped for a
  replay key are exactly as many as the receipts still count for it, or all of its occurrences if there
  are fewer: nothing beyond a receipt is dropped and nothing a receipt covers is written twice. The
  remaining counter is what was counted less what was skipped.
\<close>

theorem replay_skips_exactly:
  assumes "replay_events C evs st = (Inr flags, st')" "0 \<le> rs_events st k"
  shows "length flags = length evs \<and>
    int (skipped C k evs flags) = min (int (occurs C k evs)) (rs_events st k) \<and>
    rs_events st' k = rs_events st k - int (skipped C k evs flags)"
  using assms
proof (induction evs arbitrary: st flags)
  case Nil
  then show ?case by (auto simp: skipped_def occurs_def)
next
  case (Cons ev evs)
  obtain b st1 where step: "skipRecoveredCDCEvent C ev st = (Inr b, st1)"
    using Cons.prems(1) by (auto split: prod.splits sum.splits)
  obtain bs where rest: "replay_events C evs st1 = (Inr bs, st')" and flags: "flags = b # bs"
    using Cons.prems(1) step by (auto split: prod.splits sum.splits)
  note s = skip_step [OF step]
  have uniq: "has_key C k' ev \<Longrightarrow> has_key C k ev \<Longrightarrow> k' = k" for k' by (simp add: has_key_def)
  have b: "has_key C k ev \<Longrightarrow> b \<longleftrightarrow> 0 < rs_events st k" using s(1) uniq by blast
  have "0 \<le> rs_events st1 k" using s(2) [of k] b Cons.prems(2) by auto
  note ih = Cons.IH [OF rest this]
  have sk: "skipped C k (ev # evs) (b # bs) = (if b \<and> has_key C k ev then 1 else 0) + skipped C k evs bs"
    by (simp add: skipped_def)
  have oc: "occurs C k (ev # evs) = (if has_key C k ev then 1 else 0) + occurs C k evs"
    by (simp add: occurs_def)
  show ?case
  proof (cases "has_key C k ev")
    case True
    then show ?thesis using ih b s(2) [of k] Cons.prems(2) unfolding flags sk oc by auto
  next
    case False
    then show ?thesis using ih s(2) [of k] unfolding flags sk oc by auto
  qed
qed

definition sample_event :: model_event where
  "sample_event = \<lparr>me_type = ''INSERT'', me_trace = ''t'', me_schema = ''db'', me_table = ''t'', me_data = [], me_old = [],
     me_offset = Some \<lparr>so_file = ''bin.000001'', so_pos = 4\<rparr>\<rparr>"

lemma replay_skips_exactly_witness:
  "let k = replicate 64 (CHR ''a'') @ ''.'' @ replicate 64 (CHR ''b'');
       st = \<lparr>rs_loaded = [], rs_events = (\<lambda>_. 0)(k := 1), rs_payloads = (\<lambda>_. []), rs_intents = []\<rparr> in
     \<exists>flags st'. replay_events sample_replay_codec [sample_event, sample_event] st = (Inr flags, st') \<and>
       skipped sample_replay_codec k [sample_event, sample_event] flags = 1 \<and> rs_events st' k = 0"
proof -
  let ?k = "replicate 64 (CHR ''a'') @ ''.'' @ replicate 64 (CHR ''b'')"
  let ?st = "\<lparr>rs_loaded = [], rs_events = (\<lambda>_. 0)(?k := 1), rs_payloads = (\<lambda>_. []), rs_intents = []\<rparr>"
  have key: "icebergReplayKey sample_replay_codec sample_event = Inr ?k"
    by (simp only: icebergReplayKey_def) (simp add: sample_event_def source_offset_valid_def sample_replay_codec_def)
  have ty: "me_type sample_event = ''INSERT''" by (simp add: sample_event_def)
  obtain flags st' where run: "replay_events sample_replay_codec [sample_event, sample_event] ?st = (Inr flags, st')"
    by (simp add: skipRecoveredCDCEvent_def key ty Let_def del: append_Cons append.simps)
  have occ: "occurs sample_replay_codec ?k [sample_event, sample_event] = 2"
    by (simp add: occurs_def has_key_def key ty del: append_Cons append.simps)
  have nn: "0 \<le> rs_events ?st ?k" by simp
  note replay_skips_exactly [OF run nn, unfolded occ]
  then have "skipped sample_replay_codec ?k [sample_event, sample_event] flags = 1" "rs_events st' ?k = 0"
    by (simp_all del: append_Cons append.simps)
  with run show ?thesis unfolding Let_def by blast
qed

section \<open>The checkpoint gate\<close>

lemma replay_complete_None:
  "replay_complete C off st is = None \<Longrightarrow> i \<in> set is \<Longrightarrow> ci_kind i = ''cdc'' \<Longrightarrow>
   recoverableDataOperation (ci_operation i) \<Longrightarrow>
   binlogOffsetCovers (so_file off) (so_pos off) (ci_source_end_file i) (ci_source_end_pos i) \<Longrightarrow>
   \<exists>events. decodeIcebergReplayEvents C i = Inr events \<and> (\<forall>ev \<in> set events. rs_events st (re_key ev) \<le> 0)"
proof (induction "is")
  case (Cons j "is")
  show ?case
  proof (cases "j = i")
    case True
    with Cons.prems show ?thesis by (auto simp: list_ex_iff not_less split: sum.splits if_splits)
  next
    case False
    with Cons show ?thesis by (auto split: if_splits sum.splits)
  qed
qed simp

lemma retain_events_None:
  assumes "retain_events checkpoint evs st = (None, st')"
  shows "rs_events st' k = rs_events st k +
     int (length (filter (\<lambda>ev. re_key ev = k \<and> \<not> checkpoint_covers_event checkpoint ev) evs))"
  using assms
proof (induction evs arbitrary: st)
  case (Cons ev evs)
  then show ?case by (auto simp: Let_def split: if_splits)
qed simp

lemma decode_keys:
  "decodeIcebergReplayEvents C i = Inr events \<Longrightarrow> ev \<in> set events \<Longrightarrow> valid_event_key (re_key ev)"
  by (auto simp: decodeIcebergReplayEvents_def Let_def list_all_iff split: sum.splits if_splits prod.splits)

text \<open>
  installing the receipt of an accepted CDC commit adds, for every replay key, one skip per manifest
  event that the durable checkpoint does not cover yet; installing it a second time adds nothing. From
  then on the offset checkpoint is refused past the commit's end for as long as some of these events
  have not come by again: a gate that passes shows that every one of them was replayed and skipped.
\<close>

theorem receipts_gate_the_checkpoint:
  assumes "retainRecoveryReceipt C i checkpoint st = (None, st1)" "ci_operation_id i \<notin> set (rs_loaded st)"
    "ci_kind i = ''cdc''" "recoverableDataOperation (ci_operation i)"
    and off: "source_offset_valid (Some off)"
      "binlogOffsetCovers (so_file off) (so_pos off) (ci_source_end_file i) (ci_source_end_pos i)"
    and st2: "rs_intents st2 = rs_intents st1" "checkRecoveryReplayComplete C (Some off) st2 = None"
  shows "\<exists>events. decodeIcebergReplayEvents C i = Inr events \<and>
     (\<forall>k. rs_events st1 k = rs_events st k +
        int (length (filter (\<lambda>ev. re_key ev = k \<and> \<not> checkpoint_covers_event checkpoint ev) events))) \<and>
     (\<forall>ev \<in> set events. rs_events st2 (re_key ev) \<le> 0) \<and>
     retainRecoveryReceipt C i checkpoint st1 = (None, st1)"
proof -
  obtain events st0 where dec: "decodeIcebergReplayEvents C i = Inr events"
    and ret: "retain_events checkpoint events st = (None, st0)"
    and st1: "st1 = st0\<lparr>rs_loaded := ci_operation_id i # rs_loaded st0, rs_intents := rs_intents st0 @ [i]\<rparr>"
    using assms(1-4) by (auto simp: retainRecoveryReceipt_def Let_def split: sum.splits option.splits prod.splits)
  have mem: "i \<in> set (rs_intents st2)" by (simp add: st2(1) st1)
  have "replay_complete C off st2 (rs_intents st2) = None"
    using st2(2) off(1) by (simp add: checkRecoveryReplayComplete_def)
  from replay_complete_None [OF this mem assms(3,4) off(2)] dec
  have "\<forall>ev \<in> set events. rs_events st2 (re_key ev) \<le> 0" by simp
  moreover have "retainRecoveryReceipt C i checkpoint st1 = (None, st1)"
    by (simp add: retainRecoveryReceipt_def st1)
  ultimately show ?thesis
    using dec retain_events_None [OF ret] by (simp add: st1)
qed

lemma receipts_gate_the_checkpoint_witness:
  "let k = replicate 64 (CHR ''a'') @ ''.'' @ replicate 64 (CHR ''b'');
       C = sample_replay_codec\<lparr>rc_manifest := (\<lambda>_. Inr (2, [\<lparr>re_key = k, re_offset = Some \<lparr>so_file = ''f'', so_pos = 5\<rparr>\<rparr>]))\<rparr>;
       i = (sample_intent ''o'' IcebergCommitCommitted)\<lparr>ci_kind := ''cdc'', ci_source_start_file := ''f'', ci_source_start_pos := 4,
             ci_source_end_file := ''f'', ci_source_end_pos := 6\<rparr>;
       st = \<lparr>rs_loaded = [], rs_events = (\<lambda>_. 0), rs_payloads = (\<lambda>_. []), rs_intents = []\<rparr> in
     fst (retainRecoveryReceipt C i None st) = None \<and>
     rs_events (snd (retainRecoveryReceipt C i None st)) k = 1"
proof -
  let ?k = "replicate 64 (CHR ''a'') @ ''.'' @ replicate 64 (CHR ''b'')"
  let ?ev = "\<lparr>re_key = ?k, re_offset = Some \<lparr>so_file = ''f'', so_pos = 5\<rparr>\<rparr>"
  let ?C = "sample_replay_codec\<lparr>rc_manifest := (\<lambda>_. Inr (2, [?ev]))\<rparr>"
  let ?i = "(sample_intent ''o'' IcebergCommitCommitted)\<lparr>ci_kind := ''cdc'', ci_source_start_file := ''f'', ci_source_start_pos := 4,
             ci_source_end_file := ''f'', ci_source_end_pos := 6\<rparr>"
  let ?st = "\<lparr>rs_loaded = [], rs_events = (\<lambda>_. 0), rs_payloads = (\<lambda>_. []), rs_intents = []\<rparr>"
  let ?st1 = "snd (retainRecoveryReceipt ?C ?i None ?st)"
  let ?off = "\<lparr>so_file = ''f'', so_pos = 6\<rparr>"
  have ok: "fst (retainRecoveryReceipt ?C ?i None ?st) = None" by code_simp
  then have run: "retainRecoveryReceipt ?C ?i None ?st = (None, ?st1)" by (metis prod.collapse)
  have h: "ci_operation_id ?i \<notin> set (rs_loaded ?st)" "ci_kind ?i = ''cdc''" "recoverableDataOperation (ci_operation ?i)"
    "source_offset_valid (Some ?off)"
    "binlogOffsetCovers (so_file ?off) (so_pos ?off) (ci_source_end_file ?i) (ci_source_end_pos ?i)"
    by (simp, simp, code_simp, code_simp, code_simp)
  let ?st2 = "?st1\<lparr>rs_events := (\<lambda>_. 0)\<rparr>"
  have gate: "rs_intents ?st2 = rs_intents ?st1" "checkRecoveryReplayComplete ?C (Some ?off) ?st2 = None"
    by (simp, code_simp)
  have dec: "decodeIcebergReplayEvents ?C ?i = Inr [?ev]" by code_simp
  have "\<not> checkpoint_covers_event None ?ev" by (simp add: checkpoint_covers_event_def)
  with receipts_gate_the_checkpoint [OF run h gate] dec have "rs_events ?st1 ?k = 1"
    by (auto simp del: append_Cons append.simps)
  with ok show ?thesis unfolding Let_def by blast
qed

section \<open>Rows still to write\<close>

definition numbered :: "int \<Rightarrow> 'r list \<Rightarrow> (int \<times> 'r) list" where
  "numbered start rows = zip (map (\<lambda>n. start + int n) [0..<length rows]) rows"

lemma numbered_Nil [simp]: "numbered s [] = []"
  by (simp add: numbered_def)

lemma numbered_Cons [simp]: "numbered s (r # rs) = (s, r) # numbered (s + 1) rs"
proof -
  have "map (\<lambda>n. s + int n) [0..<length (r # rs)] = s # map (\<lambda>n. s + 1 + int n) [0..<length rs]"
    by (subst upt_conv_Cons) (simp_all add: map_Suc_upt [symmetric] del: upt_Suc)
  then show ?thesis by (simp add: numbered_def)
qed

lemma numbered_append: "numbered s (xs @ ys) = numbered s xs @ numbered (s + int (length xs)) ys"
  by (induction xs arbitrary: s) (simp_all add: algebra_simps)

lemma span_loop_numbered:
  "(\<forall>rows s. cur = Some (rows, s) \<longrightarrow> s + int (length rows) = pos) \<Longrightarrow>
   concat (map (\<lambda>(rows, s). numbered s rows) (span_loop covered pos cur rs)) =
     (case cur of None \<Rightarrow> [] | Some (rows, s) \<Rightarrow> numbered s rows) @
     filter (\<lambda>(p, r). \<not> covered p) (numbered pos rs)"
proof (induction rs arbitrary: pos cur)
  case Nil
  then show ?case by (auto split: option.splits)
next
  case (Cons r rs)
  show ?case
  proof (cases cur)
    case None
    then show ?thesis using Cons.IH [of None "pos + 1"] Cons.IH [of "Some ([r], pos)" "pos + 1"] by simp
  next
    case (Some c)
    obtain rows s where c: "c = (rows, s)" by (cases c)
    with Some Cons.prems have pos: "s + int (length rows) = pos" by simp
    with Some c show ?thesis
      using Cons.IH [of None "pos + 1"] Cons.IH [of "Some (rows @ [r], s)" "pos + 1"]
      by (simp add: numbered_append)
  qed
qed

lemma span_loop_nonempty:
  "(\<forall>rows s. cur = Some (rows, s) \<longrightarrow> rows \<noteq> []) \<Longrightarrow>
   \<forall>(rows, s) \<in> set (span_loop covered pos cur rs). rows \<noteq> []"
proof (induction rs arbitrary: pos cur)
  case Nil
  then show ?case by (auto split: option.splits)
next
  case (Cons r rs)
  show ?case
  proof (cases cur)
    case None
    then show ?thesis using Cons.IH [of None "pos + 1"] Cons.IH [of "Some ([r], pos)" "pos + 1"] by simp
  next
    case (Some c)
    obtain rows s where c: "c = (rows, s)" by (cases c)
    with Some Cons.prems have "rows \<noteq> []" by simp
    with Some c show ?thesis
      using Cons.IH [of None "pos + 1"] Cons.IH [of "Some (rows @ [r], s)" "pos + 1"] by simp
  qed
qed

text \<open>
  Of a snapshot batch, the spans handed on for writing are exactly the rows, in order and at their
  offsets, that no accepted snapshot operation of that table covers; every span is non-empty. So a row
  is neither lost nor written twice, wherever the batch boundaries fall.
\<close>

theorem unrecovered_rows_exact:
  "concat (map (\<lambda>(rows, s). numbered s rows) (unrecoveredSnapshotRows st source start rows)) =
     filter (\<lambda>(p, r). \<not> row_recovered st source p) (numbered start rows) \<and>
   (\<forall>(span, s) \<in> set (unrecoveredSnapshotRows st source start rows). span \<noteq> [])"
  using span_loop_numbered [of None start "row_recovered st source" rows]
    span_loop_nonempty [of None "row_recovered st source" start rows]
  by (simp add: unrecoveredSnapshotRows_def)

lemma unrecovered_rows_exact_witness:
  "let st = \<lparr>rs_loaded = [], rs_events = (\<lambda>_. 0), rs_payloads = (\<lambda>_. []), rs_intents = [sample_intent ''o'' IcebergCommitCommitted]\<rparr> in
     concat (map (\<lambda>(rows, s). numbered s rows) (unrecoveredSnapshotRows st ''db.t'' 8 [''p'', ''q'', ''r''])) = [(10, ''r'')]"
proof -
  let ?st = "\<lparr>rs_loaded = [], rs_events = (\<lambda>_. 0), rs_payloads = (\<lambda>_. []), rs_intents = [sample_intent ''o'' IcebergCommitCommitted]\<rparr>"
  have "row_recovered ?st ''db.t'' 8" "row_recovered ?st ''db.t'' 9" "\<not> row_recovered ?st ''db.t'' 10"
    by (simp_all add: row_recovered_def sample_intent_def recoverableDataOperation_def)
  with unrecovered_rows_exact [of ?st "''db.t''" 8 "[''p'', ''q'', ''r'']"] show ?thesis by (simp add: Let_def)
qed

section \<open>Coverage grows with the checkpoint\<close>

text \<open>
  A commit covered by the durable progress stays covered when that progress moves on: to a binlog
  offset covering the old one, to a later row of the same table, or to a confirmed completion. An
  operation of any other kind (rebuild, internal) is never covered by a checkpoint.
\<close>

theorem coverage_is_monotone:
  assumes "icebergIntentCovered i off progress snapshot"
    and "\<forall>o1. off = Some o1 \<longrightarrow> (\<exists>o2. off' = Some o2 \<and> binlogOffsetCovers (of_file o2) (of_pos o2) (of_file o1) (of_pos o1))"
    and "\<forall>p1. progress = Some p1 \<longrightarrow> CompletionConfirmed snapshot' \<or>
          (\<exists>p2. progress' = Some p2 \<and> sp_table p2 = sp_table p1 \<and> sp_next p1 \<le> sp_next p2)"
    and "CompletionConfirmed snapshot \<longrightarrow> CompletionConfirmed snapshot'"
  shows "icebergIntentCovered i off' progress' snapshot' \<and> ci_kind i \<in> {''cdc'', ''snapshot''}"
proof (cases "ci_kind i = ''cdc''")
  case True
  with assms(1) obtain o1 where o1: "off = Some o1" "ci_source_end_file i \<noteq> []"
    "binlogOffsetCovers (of_file o1) (of_pos o1) (ci_source_end_file i) (ci_source_end_pos i)"
    by (auto simp: icebergIntentCovered_def split: option.splits)
  with assms(2) obtain o2 where o2: "off' = Some o2" "binlogOffsetCovers (of_file o2) (of_pos o2) (of_file o1) (of_pos o1)"
    by blast
  from parseBinlogSequence_covers_trans [OF o2(2) o1(3)] True o1(2) o2(1) show ?thesis
    by (simp add: icebergIntentCovered_def)
next
  case False
  with assms(1) have k: "ci_kind i = ''snapshot''" by (simp add: icebergIntentCovered_def split: if_splits)
  show ?thesis
  proof (cases "CompletionConfirmed snapshot'")
    case True
    with k show ?thesis by (simp add: icebergIntentCovered_def)
  next
    case False
    with assms(1,4) k obtain p1 where p1: "progress = Some p1" "sp_table p1 = ci_snapshot_table i" "ci_snapshot_end i \<le> sp_next p1"
      by (cases progress) (auto simp: icebergIntentCovered_def)
    with assms(3) False obtain p2 where p2: "progress' = Some p2" "sp_table p2 = sp_table p1" "sp_next p1 \<le> sp_next p2"
      by blast
    from p2(3) p1(3) have "ci_snapshot_end i \<le> sp_next p2" by (rule order.trans [rotated])
    with k p1(2) p2(1,2) show ?thesis by (simp add: icebergIntentCovered_def)
  qed
qed

lemma coverage_is_monotone_witness:
  "icebergIntentCovered ((sample_intent ''o'' IcebergCommitCommitted)\<lparr>ci_kind := ''cdc'', ci_source_end_file := ''b.000009'',
       ci_source_end_pos := 7\<rparr>) (Some \<lparr>of_file = ''b.000009'', of_pos = 12, of_updated = 1\<rparr>) None None"
proof -
  let ?i = "(sample_intent ''o'' IcebergCommitCommitted)\<lparr>ci_kind := ''cdc'', ci_source_end_file := ''b.000009'', ci_source_end_pos := 7\<rparr>"
  let ?o1 = "\<lparr>of_file = ''b.000009'', of_pos = 8, of_updated = 0\<rparr>" and ?o2 = "\<lparr>of_file = ''b.000009'', of_pos = 12, of_updated = 1\<rparr>"
  have c: "icebergIntentCovered ?i (Some ?o1) None None" by code_simp
  have "binlogOffsetCovers (of_file ?o2) (of_pos ?o2) (of_file ?o1) (of_pos ?o1)" by code_simp
  with coverage_is_monotone [OF c, of "Some ?o2" None None] show ?thesis by simp
qed

end
