(* ===== verification/Commit_Guard.thy ===== *)
theory Commit_Guard
  imports Reconciliation
begin

text \<open>
  The durable commit protocol of the Iceberg sink: \<open>pkg/connectors/iceberg/commit_guard.go\<close>,
  \<open>automatic_recovery.go\<close> and the intent side of \<open>scoped_rebuild.go\<close>. Before the catalog is called an
  intent is stored PREPARED; afterwards it is marked, deleted or left for recovery, depending on what
  the result proves.

  The store is reached through the operations of the interface, \<open>ge_ops n\<close> for the \<open>n\<close>-th call, so that
  calls may fail at any time; \<open>ge_own\<close> gives the results of the ownership checks in the same way. The
  catalog is a state \<open>'c\<close> that only the write callback changes; reading it is \<open>ge_load\<close>. Reports to the
  progress callback and the log are left out.
\<close>

section \<open>Environment\<close>

record ice_batch =
  ib_kind :: string
  ib_batch_id :: string
  ib_start :: "source_offset option"
  ib_end :: "source_offset option"
  ib_table :: string
  ib_snap_start :: int
  ib_snap_end :: int
  ib_replay_keys :: string

record commit_progress =
  cp_operation :: string
  cp_source :: string
  cp_namespace :: string
  cp_table :: string
  cp_recoverable :: bool

datatype trino_reply = TrinoFailed go_error | TrinoStatus int | TrinoInfo string string string

record 'c guard_env =
  ge_env :: recovery_env
  ge_load :: "'c \<Rightarrow> string list \<Rightarrow> go_error + ice_table"
  ge_store :: "go_error option"
  ge_ops :: "nat \<Rightarrow> intent_ops"
  ge_own :: "nat \<Rightarrow> meta_db \<Rightarrow> go_error option"
  ge_policy :: "recovery_policy option"
  ge_cancel :: "nat \<Rightarrow> go_error option"
  ge_table_uuid :: "string \<Rightarrow> string option"

definition env_at :: "'c guard_env \<Rightarrow> 'c \<Rightarrow> recovery_env" where
  "env_at G c = (ge_env G)\<lparr>rn_load := ge_load G c\<rparr>"

definition from_meta :: "meta_error \<Rightarrow> go_error" where
  "from_meta e = \<lparr>er_text = [], er_tags = (if e = ErrWorkerOwnershipLost then [TOwnershipLost] else [])\<rparr>"

definition empty_recovery :: recovery_state where
  "empty_recovery = \<lparr>rs_loaded = [], rs_events = (\<lambda>_. 0), rs_payloads = (\<lambda>_. []), rs_intents = []\<rparr>"

section \<open>Batches\<close>

definition checkpointOffsetText :: "source_offset option \<Rightarrow> string" where
  "checkpointOffsetText off = (if \<not> source_offset_valid off then ''-''
     else case off of None \<Rightarrow> ''-'' | Some so \<Rightarrow> so_file so @ '':'' @ show_nat (unat (so_pos so)))"

definition cdcIcebergBatch :: "replay_codec \<Rightarrow> string \<Rightarrow> model_event list \<Rightarrow> ice_batch" where
  "cdcIcebergBatch C sourceKey events =
     (let keyed = map (\<lambda>ev. (ev, icebergReplayKey C ev)) events;
          keys = concat (map (\<lambda>(ev, k). case k of Inr key \<Rightarrow> [\<lparr>re_key = key, re_offset = me_offset ev\<rparr>] | Inl e \<Rightarrow> []) keyed);
          complete = list_all (\<lambda>(ev, k). case k of Inr key \<Rightarrow> True | Inl e \<Rightarrow> False) keyed;
          offs = filter source_offset_valid (map me_offset events);
          start = (if offs = [] then None else hd offs);
          end' = (if offs = [] then None else List.last offs);
          rangeID = sourceKey @ '':'' @ checkpointOffsetText start @ ''-'' @ checkpointOffsetText end' in
      \<lparr>ib_kind = ''cdc'', ib_batch_id = ''cdc:'' @ sourceKey @ '':'' @ take 24 (rc_sha_hex C rangeID),
       ib_start = start, ib_end = end', ib_table = [], ib_snap_start = 0, ib_snap_end = 0,
       ib_replay_keys = (if complete then rc_encode C keys else [])\<rparr>)"

definition snapshotIcebergBatch :: "string \<Rightarrow> int \<Rightarrow> int \<Rightarrow> ice_batch" where
  "snapshotIcebergBatch sourceKey start end' =
     \<lparr>ib_kind = ''snapshot'', ib_batch_id = ''snapshot:'' @ sourceKey @ '':'' @ show_int start @ ''-'' @ show_int end',
      ib_start = None, ib_end = None, ib_table = sourceKey, ib_snap_start = start, ib_snap_end = end', ib_replay_keys = []\<rparr>"

definition internal_batch :: ice_batch where
  "internal_batch = \<lparr>ib_kind = ''internal'', ib_batch_id = [], ib_start = None, ib_end = None, ib_table = [],
     ib_snap_start = 0, ib_snap_end = 0, ib_replay_keys = []\<rparr>"

text \<open>The intent \<open>guardedIcebergCommit\<close> stores, from the batch in its context and the operation at hand.\<close>

definition named_batch :: "ice_batch option \<Rightarrow> commit_progress \<Rightarrow> string \<Rightarrow> ice_batch" where
  "named_batch ctx_batch p operationID =
     (let batch = (case ctx_batch of None \<Rightarrow> internal_batch | Some b \<Rightarrow> b) in
      if ib_batch_id batch = []
      then batch\<lparr>ib_batch_id := ''internal:'' @ cp_operation p @ '':'' @ operationID\<rparr> else batch)"

definition offset_file :: "source_offset option \<Rightarrow> string" where
  "offset_file o' = (if source_offset_valid o' then so_file (the o') else [])"

definition offset_pos :: "source_offset option \<Rightarrow> 32 word" where
  "offset_pos o' = (if source_offset_valid o' then so_pos (the o') else 0)"

definition new_intent :: "recovery_env \<Rightarrow> ice_batch \<Rightarrow> commit_progress \<Rightarrow> string \<Rightarrow> commit_intent" where
  "new_intent E batch p operationID =
     \<lparr>ci_operation_id = operationID, ci_source_table = cp_source p,
      ci_target_namespace = cp_namespace p, ci_target_table = cp_table p, ci_operation = cp_operation p,
      ci_replay_keys = ib_replay_keys batch, ci_job_id = rn_job E, ci_state_key = checkpointKey E,
      ci_batch_id = ib_batch_id batch, ci_kind = ib_kind batch,
      ci_source_start_file = offset_file (ib_start batch), ci_source_start_pos = offset_pos (ib_start batch),
      ci_source_end_file = offset_file (ib_end batch), ci_source_end_pos = offset_pos (ib_end batch),
      ci_snapshot_table = ib_table batch, ci_snapshot_start = ib_snap_start batch,
      ci_snapshot_end = ib_snap_end batch, ci_status = IcebergCommitPrepared,
      ci_target_uuid = [], ci_trino_query_id = []\<rparr>"

definition commit_intent_for ::
  "'c guard_env \<Rightarrow> ice_batch option \<Rightarrow> commit_progress \<Rightarrow> string \<Rightarrow> go_error + commit_intent" where
  "commit_intent_for G ctx_batch p operationID =
     (let E = ge_env G; batch = named_batch ctx_batch p operationID; intent = new_intent E batch p operationID in
      if rn_scoped_native E \<and> ib_kind batch = ''snapshot''
      then (case ge_table_uuid G (cp_source p) of
              None \<Rightarrow> Inl (permanent (new_error ''native rebuild target identity missing''))
            | Some u \<Rightarrow> Inr (intent\<lparr>ci_batch_id := ScopedNativeSnapshotBatchID (rn_token E) (ib_table batch)
                                (ib_snap_start batch) (ib_snap_end batch), ci_target_uuid := u\<rparr>))
      else Inr intent)"

section \<open>Automatic recovery\<close>

definition recoveryFailure :: "go_error option \<Rightarrow> go_error \<Rightarrow> go_error" where
  "recoveryFailure initial verification =
     (case initial of None \<Rightarrow> verification
      | Some i \<Rightarrow> join_error ''initial commit error: '' i ''; reconciliation error: '' verification)"

definition recoveryInterrupted :: "go_error \<Rightarrow> go_error option \<Rightarrow> go_error" where
  "recoveryInterrupted stop verification =
     (case verification of None \<Rightarrow> stop
      | Some v \<Rightarrow> if v = stop then stop
                  else join_error ''verification stopped: '' stop ''; last verification error: '' v)"

text \<open>
  The loop of \<open>runAutomaticRecoveryWithCause\<close>. \<open>cancel\<close> gives what \<open>ctx.Err\<close> and the waits report, three
  readings per attempt. The result is the error the loop ends with, the number of attempts and the
  state; \<open>left\<close> is how many attempts the policy still allows.
\<close>

fun recovery_loop ::
  "(nat \<Rightarrow> 's \<Rightarrow> go_error option \<times> 's) \<Rightarrow> (nat \<Rightarrow> go_error option) \<Rightarrow> nat \<Rightarrow> nat \<Rightarrow> go_error option \<Rightarrow> 's \<Rightarrow>
     go_error option \<times> nat \<times> 's" where
  "recovery_loop attempt cancel 0 n last' s = (last', n, s)"
| "recovery_loop attempt cancel (Suc left) n last' s =
     (case cancel (3 * n) of
        Some e \<Rightarrow> (Some (recoveryInterrupted e last'), n, s)
      | None \<Rightarrow>
          (case attempt n s of
             (None, s') \<Rightarrow> (None, Suc n, s')
           | (Some e, s') \<Rightarrow>
               if err_is TOwnershipLost e \<or> left = 0 then (Some e, Suc n, s')
               else (case cancel (3 * n + 1) of
                       Some c \<Rightarrow> (Some (recoveryInterrupted c (Some e)), Suc n, s')
                     | None \<Rightarrow>
                         (case cancel (3 * n + 2) of
                            Some c \<Rightarrow> (Some (recoveryInterrupted c (Some e)), Suc n, s')
                          | None \<Rightarrow> recovery_loop attempt cancel left (Suc n) (Some e) s'))))"

definition runAutomaticRecoveryWithCause ::
  "recovery_policy \<Rightarrow> (nat \<Rightarrow> go_error option) \<Rightarrow> go_error option \<Rightarrow> (nat \<Rightarrow> 's \<Rightarrow> go_error option \<times> 's) \<Rightarrow> 's \<Rightarrow>
     go_error option \<times> nat \<times> 's" where
  "runAutomaticRecoveryWithCause policy cancel initial attempt s =
     (case recovery_loop attempt cancel (nat (rp_attempts (automaticRecoveryPolicy policy))) 0 None s of
        (None, n, s') \<Rightarrow> (None, n, s')
      | (Some e, n, s') \<Rightarrow> (Some (permanent (wrap_error ''Iceberg recovery BLOCKED: '' (recoveryFailure initial e))), n, s'))"

text \<open>
  One attempt to settle an unknown outcome; the calls of attempt \<open>n\<close> are numbered from \<open>8 * n\<close> on.
  The ownership checks around the verification belong to the loop body of the caller.
\<close>

definition verify_unknown ::
  "'c guard_env \<Rightarrow> commit_intent \<Rightarrow> 'c \<Rightarrow> nat \<Rightarrow> meta_db \<Rightarrow> go_error option \<times> meta_db" where
  "verify_unknown G intent c n db =
     (case ge_store G of
        Some e \<Rightarrow> (Some e, db)
      | None \<Rightarrow>
          (case io_list (ge_ops G (8 * n + 3)) (ci_state_key intent) db of
             Inl e \<Rightarrow> (Some (from_meta e), db)
           | Inr intents \<Rightarrow>
               (case find (\<lambda>i. ci_operation_id i = ci_operation_id intent) intents of
                  None \<Rightarrow> (Some (new_error ''durable intent missing or changed''), db)
                | Some durable \<Rightarrow>
                    let C = rn_codec (ge_env G) in
                    if icebergIntentFingerprint C durable \<noteq> icebergIntentFingerprint C intent
                    then (Some (new_error ''durable intent missing or changed''), db)
                    else if ci_status durable \<noteq> IcebergCommitPrepared \<and> ci_status durable \<noteq> IcebergCommitCommitted
                    then (Some (new_error ''invalid durable intent status''), db)
                    else case proveIcebergIntent (env_at G c) durable of
                      Some e \<Rightarrow> (Some e, db)
                    | None \<Rightarrow>
                        (case ge_own G (8 * n + 4) db of
                           Some e \<Rightarrow> (Some e, db)
                         | None \<Rightarrow>
                             (case (if ci_status durable = IcebergCommitPrepared
                                    then io_mark (ge_ops G (8 * n + 5)) (ci_state_key intent) (ci_operation_id intent) db
                                    else (Inr (), db)) of
                                (Inl e, db1) \<Rightarrow> (Some (from_meta e), db1)
                              | (Inr _, db1) \<Rightarrow>
                                  (case (if ci_kind intent = ''internal''
                                         then io_delete (ge_ops G (8 * n + 6)) (ci_state_key intent) (ci_operation_id intent) db1
                                         else (Inr (), db1)) of
                                     (Inl e, db2) \<Rightarrow> (Some (from_meta e), db2)
                                   | (Inr _, db2) \<Rightarrow> (ge_own G (8 * n + 7) db2, db2)))))))"

definition recovery_attempt ::
  "'c guard_env \<Rightarrow> (nat \<Rightarrow> 's \<Rightarrow> go_error option \<times> 's) \<Rightarrow> ('s \<Rightarrow> meta_db) \<Rightarrow> nat \<Rightarrow> 's \<Rightarrow> go_error option \<times> 's" where
  "recovery_attempt G verify db_of n s =
     (case ge_own G (8 * n + 8) (db_of s) of
        Some e \<Rightarrow> (Some e, s)
      | None \<Rightarrow>
          (case verify n s of
             (Some e, s') \<Rightarrow> (Some e, s')
           | (None, s') \<Rightarrow> (ge_own G (8 * n + 9) (db_of s'), s')))"

definition recoverUnknownCommit ::
  "'c guard_env \<Rightarrow> commit_intent \<Rightarrow> commit_progress \<Rightarrow> go_error \<Rightarrow> 'c \<Rightarrow> meta_db \<Rightarrow> go_error option \<times> meta_db" where
  "recoverUnknownCommit G intent p original c db =
     (case ge_policy G of
        None \<Rightarrow> (Some original, db)
      | Some policy \<Rightarrow>
          if \<not> cp_recoverable p \<or>
             \<not> recoverableDataOperation (ci_operation intent) \<and> \<not> recoverableMetadataOperation (ci_operation intent)
          then (Some original, db)
          else case fst (retainRecoveryReceipt (rn_codec (ge_env G)) intent None empty_recovery) of
            Some e \<Rightarrow> (Some (permanent (recoveryFailure (Some original) (new_error e))), db)
          | None \<Rightarrow>
              (case runAutomaticRecoveryWithCause policy (ge_cancel G) (Some original)
                      (recovery_attempt G (verify_unknown G intent c) (\<lambda>d. d)) db of
                 (res, n, db') \<Rightarrow> (res, db')))"

section \<open>The guarded commit\<close>

definition guardedIcebergCommit ::
  "'c guard_env \<Rightarrow> ice_batch option \<Rightarrow> commit_progress \<Rightarrow> string \<Rightarrow>
     (commit_intent \<Rightarrow> 'c \<Rightarrow> go_error option \<times> 'c) \<Rightarrow> meta_db \<Rightarrow> 'c \<Rightarrow> go_error option \<times> meta_db \<times> 'c" where
  "guardedIcebergCommit G ctx_batch p operationID fn db c =
     (case ge_own G 0 db of
        Some e \<Rightarrow> (Some (permanent e), db, c)
      | None \<Rightarrow>
     (case ge_store G of
        Some e \<Rightarrow> (Some (permanent e), db, c)
      | None \<Rightarrow>
     (case commit_intent_for G ctx_batch p operationID of
        Inl e \<Rightarrow> (Some e, db, c)
      | Inr intent \<Rightarrow>
     (case io_begin (ge_ops G 0) intent db of
        (Inl e, db1) \<Rightarrow> (Some (permanent (wrap_error ''persist Iceberg commit intent before catalog call: '' (from_meta e))), db1, c)
      | (Inr _, db1) \<Rightarrow>
     (case fn intent c of
        (None, c1) \<Rightarrow>
          (case io_mark (ge_ops G 1) (ci_state_key intent) operationID db1 of
             (Inl e, db2) \<Rightarrow>
               (case recoverUnknownCommit G intent p
                       (permanent (wrap_error ''Iceberg commit outcome UNKNOWN: '' (from_meta e))) c1 db2 of
                  (res, db3) \<Rightarrow> (res, db3, c1))
           | (Inr _, db2) \<Rightarrow>
               if ci_kind intent = ''internal''
               then (case io_delete (ge_ops G 2) (ci_state_key intent) operationID db2 of
                       (Inl e, db3) \<Rightarrow> (Some (permanent (wrap_error ''intent cleanup failed: '' (from_meta e))), db3, c1)
                     | (Inr _, db3) \<Rightarrow> (None, db3, c1))
               else (None, db2, c1))
      | (Some err, c1) \<Rightarrow>
          if err_is TPreparation err \<or> err_is TCommitFailed err \<and> \<not> IsPermanent err
          then (case io_delete (ge_ops G 2) (ci_state_key intent) operationID db1 of
                  (Inl e, db2) \<Rightarrow>
                    (Some (permanent (if err_is TPreparation err
                       then join_error ''intent cleanup failed: '' (from_meta e) ''; preparation error: '' err
                       else wrap_error ''intent cleanup failed: '' (from_meta e))), db2, c1)
                | (Inr _, db2) \<Rightarrow> (Some err, db2, c1))
          else (case recoverUnknownCommit G intent p
                       (permanent (wrap_error ''Iceberg commit outcome UNKNOWN: '' err)) c1 db1 of
                  (res, db2) \<Rightarrow> (res, db2, c1)))))))"

section \<open>Cleanup behind a checkpoint\<close>

fun cleanup_loop ::
  "'c guard_env \<Rightarrow> string \<Rightarrow> offset option \<Rightarrow> nat \<Rightarrow> commit_intent list \<Rightarrow> meta_db \<Rightarrow> go_error option \<times> meta_db" where
  "cleanup_loop G key off n [] db = (None, db)"
| "cleanup_loop G key off n (i # is) db =
     (if ci_status i \<noteq> IcebergCommitCommitted \<or> ci_kind i \<noteq> ''cdc'' \<or> \<not> icebergIntentCovered i off None None
      then cleanup_loop G key off n is db
      else case ge_own G n db of
        Some e \<Rightarrow> (Some (permanent e), db)
      | None \<Rightarrow>
          (case io_delete (ge_ops G n) key (ci_operation_id i) db of
             (Inl e, db') \<Rightarrow> (Some (permanent (wrap_error ''clear checkpointed Iceberg commit intent: '' (from_meta e))), db')
           | (Inr _, db') \<Rightarrow> cleanup_loop G key off (Suc n) is db'))"

definition cleanupCheckpointedIcebergCommits ::
  "'c guard_env \<Rightarrow> offset option \<Rightarrow> meta_db \<Rightarrow> go_error option \<times> meta_db" where
  "cleanupCheckpointedIcebergCommits G off db =
     (case ge_own G 0 db of
        Some e \<Rightarrow> (Some (permanent e), db)
      | None \<Rightarrow>
     (case ge_store G of
        Some e \<Rightarrow> (Some (permanent e), db)
      | None \<Rightarrow>
     (case io_list (ge_ops G 0) (checkpointKey (ge_env G)) db of
        Inl e \<Rightarrow> (Some (permanent (wrap_error ''read Iceberg intents for checkpoint cleanup: '' (from_meta e))), db)
      | Inr intents \<Rightarrow> cleanup_loop G (checkpointKey (ge_env G)) off 1 intents db)))"

section \<open>Statements of a scoped rebuild\<close>

definition trinoOperationComment :: "string \<Rightarrow> string" where
  "trinoOperationComment op_id = ''/* rivus.operation_id='' @ op_id @ '' */'' @ [CHR 0x0A]"

definition validateTrinoRebuildIntentIdentity :: "recovery_env \<Rightarrow> commit_intent \<Rightarrow> go_error option" where
  "validateTrinoRebuildIntentIdentity E i =
     (if rn_token E = [] \<or> \<not> has_prefix (''rebuild:'' @ rn_token E @ '':'') (ci_batch_id i) \<or>
         ci_job_id i \<noteq> rn_job E \<or> ci_state_key i \<noteq> checkpointKey E
      then Some (permanent (new_error ''scoped Trino rebuild belongs to another submission''))
      else if ci_status i \<noteq> IcebergCommitPrepared \<and> ci_status i \<noteq> IcebergCommitCommitted \<or> ci_trino_query_id i = []
      then Some (permanent (new_error ''Trino rebuild BLOCKED: no durable query identity''))
      else case last_index (CHR ''.'') (ci_source_table i) of
        None \<Rightarrow> Some (new_error ''Trino rebuild source identity missing'')
      | Some dot \<Rightarrow>
          if dot < 1 then Some (new_error ''Trino rebuild source identity missing'')
          else if rn_resolve E (take dot (ci_source_table i)) (drop (dot + 1) (ci_source_table i)) \<noteq>
                  (ci_target_namespace i, ci_target_table i)
          then Some (new_error ''Trino rebuild target mapping changed'') else None)"

definition is_hex :: "char \<Rightarrow> bool" where
  "is_hex c \<longleftrightarrow> is_digit c \<or> (let n = (of_char (lower_char c) :: nat) in 97 \<le> n \<and> n \<le> 102)"

definition provenTrinoMergeSnapshot :: "ice_table \<Rightarrow> commit_intent \<Rightarrow> string \<Rightarrow> bool" where
  "provenTrinoMergeSnapshot tbl i token \<longleftrightarrow>
     token \<noteq> [] \<and> ci_kind i = ''rebuild'' \<and> ci_operation i = ''trino-merge'' \<and> ci_trino_query_id i \<noteq> [] \<and>
     ci_target_uuid i = it_uuid tbl \<and> length (ci_replay_keys i) = 64 \<and>
     ci_batch_id i = ''rebuild:'' @ token @ '':'' @ ci_source_table i @ '':merge:'' @ ci_replay_keys i \<and>
     list_all is_hex (ci_replay_keys i) \<and>
     list_ex (\<lambda>s. case is_summary s of None \<Rightarrow> False
                 | Some (operation, props) \<Rightarrow> (operation = ''append'' \<or> operation = ''overwrite'') \<and>
                     go_get props ''trino_query_id'' = ci_trino_query_id i) (main_ancestry tbl)"

definition trino_query_confirms :: "replay_codec \<Rightarrow> ice_table \<Rightarrow> string \<Rightarrow> commit_intent \<Rightarrow> trino_reply \<Rightarrow> go_error option" where
  "trino_query_confirms C tbl token i reply =
     (case reply of
        TrinoFailed e \<Rightarrow> Some e
      | TrinoStatus code \<Rightarrow>
          if (code = 404 \<or> code = 410) \<and> provenTrinoMergeSnapshot tbl i token then None
          else Some (new_error ''Trino query outcome unavailable'')
      | TrinoInfo query_id state query \<Rightarrow>
          let comment = trinoOperationComment (ci_operation_id i) in
          if query_id \<noteq> ci_trino_query_id i \<or> state \<noteq> ''FINISHED'' \<or> \<not> has_prefix comment query \<or>
             rc_sha_hex C (drop (length comment) query) \<noteq> ci_replay_keys i
          then Some (new_error ''Trino query lacks matching terminal success'') else None)"

text \<open>\<open>load1\<close> and \<open>load2\<close> are the two readings of the target table, \<open>n\<close> numbers the calls.\<close>

definition confirmTrinoRebuildIntent ::
  "'c guard_env \<Rightarrow> (string list \<Rightarrow> go_error + ice_table) \<Rightarrow> (string list \<Rightarrow> go_error + ice_table) \<Rightarrow>
     (string \<Rightarrow> trino_reply) \<Rightarrow> nat \<Rightarrow> commit_intent \<Rightarrow> meta_db \<Rightarrow> go_error option \<times> meta_db" where
  "confirmTrinoRebuildIntent G load1 load2 query n i db =
     (let E = ge_env G; ident = namespaceIdentifier (ci_target_namespace i) (ci_target_table i) in
      case ge_own G n db of
        Some e \<Rightarrow> (Some (permanent e), db)
      | None \<Rightarrow>
     (case validateTrinoRebuildIntentIdentity E i of
        Some e \<Rightarrow> (Some e, db)
      | None \<Rightarrow>
     (case load1 ident of
        Inl e \<Rightarrow> (Some e, db)
      | Inr tbl \<Rightarrow>
          if it_uuid tbl \<noteq> ci_target_uuid i then (Some (new_error ''Trino rebuild target generation changed''), db)
          else if ci_status i = IcebergCommitCommitted then (ge_own G (n + 1) db, db)
          else case trino_query_confirms (rn_codec E) tbl (rn_token E) i (query (ci_trino_query_id i)) of
            Some e \<Rightarrow> (Some e, db)
          | None \<Rightarrow>
     (case load2 ident of
        Inl e \<Rightarrow> (Some e, db)
      | Inr tbl2 \<Rightarrow>
          if it_uuid tbl2 \<noteq> ci_target_uuid i then (Some (new_error ''Trino rebuild target generation changed''), db)
          else case ge_own G (n + 2) db of
            Some e \<Rightarrow> (Some (permanent e), db)
          | None \<Rightarrow>
     (case ge_store G of
        Some e \<Rightarrow> (Some e, db)
      | None \<Rightarrow>
     (case io_mark (ge_ops G (n + 3)) (ci_state_key i) (ci_operation_id i) db of
        (Inr _, db') \<Rightarrow> (None, db')
      | (Inl e, db') \<Rightarrow>
          (case io_list (ge_ops G (n + 4)) (ci_state_key i) db' of
             Inl e2 \<Rightarrow> (Some (from_meta e), db')
           | Inr intents \<Rightarrow>
               if list_ex (\<lambda>d. ci_operation_id d = ci_operation_id i \<and> ci_status d = IcebergCommitCommitted \<and>
                      icebergIntentFingerprint (rn_codec E) d = icebergIntentFingerprint (rn_codec E) i \<and>
                      ci_trino_query_id d = ci_trino_query_id i) intents
               then (ge_own G (n + 5) db', db') else (Some (from_meta e), db'))))))))"

section \<open>Recovery at startup\<close>

record recovery_run =
  rr_db :: meta_db
  rr_state :: recovery_state
  rr_operation :: string
  rr_targets :: "(string \<times> string) list"
  rr_evidence :: "(string \<times> commit_intent) list"
  rr_merges :: "string list"

text \<open>
  One intent of a scoped rebuild. A statement already COMMITTED only has its target's generation checked
  (once per table); a PREPARED one is read again and confirmed. The row is looked up in the list of the
  state's intents, which holds what \<open>GetIcebergCommit\<close> returns.
\<close>

definition rebuild_evidence ::
  "'c guard_env \<Rightarrow> (string list \<Rightarrow> go_error + ice_table) \<Rightarrow> (string \<Rightarrow> trino_reply) \<Rightarrow> nat \<Rightarrow> commit_intent \<Rightarrow>
     recovery_run \<Rightarrow> go_error option \<times> bool \<times> recovery_run" where
  "rebuild_evidence G load query n i run =
     (let E = ge_env G; target = ci_target_namespace i @ ''.'' @ ci_target_table i in
      if ci_status i = IcebergCommitCommitted
      then (case validateTrinoRebuildIntentIdentity E i of
              Some e \<Rightarrow> (Some e, True, run)
            | None \<Rightarrow>
                (case (if map_of (rr_targets run) target \<in> {None, Some []}
                       then (case load (namespaceIdentifier (ci_target_namespace i) (ci_target_table i)) of
                               Inl e \<Rightarrow> Inl e
                             | Inr tbl \<Rightarrow> Inr (run\<lparr>rr_targets := map_put target (it_uuid tbl) (rr_targets run),
                                                 rr_evidence := map_put target i (rr_evidence run)\<rparr>))
                       else Inr run) of
                   Inl e \<Rightarrow> (Some e, True, run)
                 | Inr run \<Rightarrow>
                     if map_of (rr_targets run) target \<noteq> Some (ci_target_uuid i)
                     then (Some (new_error ''Trino rebuild target generation changed''), True, run)
                     else (None, True, run)))
      else case io_list (ge_ops G n) (checkpointKey E) (rr_db run) of
        Inl e \<Rightarrow> (Some (from_meta e), False, run)
      | Inr latest \<Rightarrow>
          (case find (\<lambda>d. ci_operation_id d = ci_operation_id i) latest of
             None \<Rightarrow> (None, False, run)
           | Some d \<Rightarrow>
               (case confirmTrinoRebuildIntent G load load query n d (rr_db run) of
                  (e, db') \<Rightarrow> (e, True, run\<lparr>rr_db := db'\<rparr>))))"

definition recover_rebuild ::
  "'c guard_env \<Rightarrow> (string list \<Rightarrow> go_error + ice_table) \<Rightarrow> (string \<Rightarrow> trino_reply) \<Rightarrow> nat \<Rightarrow> snapshot_state option \<Rightarrow>
     commit_intent \<Rightarrow> recovery_run \<Rightarrow> go_error option \<times> recovery_run" where
  "recover_rebuild G load query n snapshot i run =
     (case rebuild_evidence G load query n i run of
        (Some e, _, run) \<Rightarrow> (Some (permanent (wrap_error ''Trino rebuild recovery: '' e)), run)
      | (None, False, run) \<Rightarrow> (Some (permanent (new_error ''Trino rebuild intent disappeared'')), run)
      | (None, True, run) \<Rightarrow>
          (let run = (if ci_operation i = ''trino-merge''
                      then run\<lparr>rr_merges := List.insert (ci_source_table i) (rr_merges run)\<rparr> else run) in
           if CompletionConfirmed snapshot
           then (case io_delete (ge_ops G (n + 6)) (ci_state_key i) (ci_operation_id i) (rr_db run) of
                   (Inl e, db') \<Rightarrow> (Some (permanent (from_meta e)), run\<lparr>rr_db := db'\<rparr>)
                 | (Inr _, db') \<Rightarrow> (None, run\<lparr>rr_db := db'\<rparr>))
           else (None, run)))"

definition recover_commit ::
  "'c guard_env \<Rightarrow> recovery_env \<Rightarrow> nat \<Rightarrow> offset option \<Rightarrow> snapshot_progress option \<Rightarrow> snapshot_state option \<Rightarrow>
     commit_intent \<Rightarrow> recovery_run \<Rightarrow> go_error option \<times> recovery_run" where
  "recover_commit G E n off progress snapshot i run =
     (let covered = icebergIntentCovered i off progress snapshot in
      if ci_status i = IcebergCommitCommitted \<and> covered
      then (case io_delete (ge_ops G n) (checkpointKey E) (ci_operation_id i) (rr_db run) of
              (Inl e, db') \<Rightarrow> (Some (permanent (wrap_error ''clear checkpointed Iceberg commit intent: '' (from_meta e))), run\<lparr>rr_db := db'\<rparr>)
            | (Inr _, db') \<Rightarrow> (None, run\<lparr>rr_db := db'\<rparr>))
      else if ci_status i \<noteq> IcebergCommitPrepared \<and> ci_status i \<noteq> IcebergCommitCommitted
      then (Some (permanent (new_error ''Iceberg recovery BLOCKED: invalid status'')), run)
      else case proveIcebergIntent E i of
        Some e \<Rightarrow> (Some (permanent (wrap_error ''Iceberg recovery BLOCKED: '' e)), run)
      | None \<Rightarrow>
     (case ge_own G n (rr_db run) of
        Some e \<Rightarrow> (Some (permanent e), run)
      | None \<Rightarrow>
     (case (if covered then (None, rr_state run) else retainRecoveryReceipt (rn_codec E) i off (rr_state run)) of
        (Some e, st) \<Rightarrow> (Some (permanent (wrap_error ''Iceberg recovery BLOCKED: '' (new_error e))), run\<lparr>rr_state := st\<rparr>)
      | (None, st) \<Rightarrow>
          (let run = run\<lparr>rr_state := st\<rparr> in
     (case (if ci_status i = IcebergCommitPrepared
            then io_mark (ge_ops G (n + 1)) (ci_state_key i) (ci_operation_id i) (rr_db run)
            else (Inr (), rr_db run)) of
        (Inl e, db') \<Rightarrow> (Some (permanent (wrap_error ''persist proven Iceberg outcome: '' (from_meta e))), run\<lparr>rr_db := db'\<rparr>)
      | (Inr _, db1) \<Rightarrow>
          if recoverableMetadataOperation (ci_operation i) \<or> covered
          then (case io_delete (ge_ops G (n + 2)) (ci_state_key i) (ci_operation_id i) db1 of
                  (Inl e, db2) \<Rightarrow> (Some (permanent (from_meta e)), run\<lparr>rr_db := db2\<rparr>)
                | (Inr _, db2) \<Rightarrow> (None, run\<lparr>rr_db := db2\<rparr>))
          else (None, run\<lparr>rr_db := db1\<rparr>))))))"

definition recover_one ::
  "'c guard_env \<Rightarrow> recovery_env \<Rightarrow> (string \<Rightarrow> trino_reply) \<Rightarrow> nat \<Rightarrow> offset option \<Rightarrow> snapshot_progress option \<Rightarrow>
     snapshot_state option \<Rightarrow> commit_intent \<Rightarrow> recovery_run \<Rightarrow> go_error option \<times> recovery_run" where
  "recover_one G E query n off progress snapshot i run0 =
     (let run = run0\<lparr>rr_operation := ci_operation_id i\<rparr> in
      if rn_scoped_native E \<and> ci_kind i = ''snapshot'' \<and>
         \<not> IsScopedNativeSnapshotIntent i (rn_job E) (checkpointKey E) (rn_token E)
      then (Some (permanent (new_error ''native snapshot receipt belongs to another epoch'')), run)
      else if ci_kind i = ''rebuild'' then recover_rebuild G (rn_load E) query n snapshot i run
      else recover_commit G E n off progress snapshot i run)"

fun recover_all ::
  "'c guard_env \<Rightarrow> recovery_env \<Rightarrow> (string \<Rightarrow> trino_reply) \<Rightarrow> nat \<Rightarrow> offset option \<Rightarrow> snapshot_progress option \<Rightarrow>
     snapshot_state option \<Rightarrow> commit_intent list \<Rightarrow> recovery_run \<Rightarrow> go_error option \<times> recovery_run" where
  "recover_all G E query n off progress snapshot [] run = (None, run)"
| "recover_all G E query n off progress snapshot (i # is) run =
     (case recover_one G E query n off progress snapshot i run of
        (Some e, run') \<Rightarrow> (Some e, run')
      | (None, run') \<Rightarrow> recover_all G E query (n + 10) off progress snapshot is run')"

definition evidence_unchanged :: "(string list \<Rightarrow> go_error + ice_table) \<Rightarrow> recovery_run \<Rightarrow> go_error option" where
  "evidence_unchanged reload run =
     fold (\<lambda>(target, i) err. case err of Some e \<Rightarrow> Some e
           | None \<Rightarrow> (case reload (namespaceIdentifier (ci_target_namespace i) (ci_target_table i)) of
                        Inl e \<Rightarrow> Some (permanent e)
                      | Inr tbl \<Rightarrow> if Some (it_uuid tbl) = map_of (rr_targets run) target then None
                                  else Some (permanent (new_error ''Trino rebuild target generation changed during reconciliation''))))
       (rr_evidence run) None"

text \<open>\<open>reload\<close> reads the catalog once more before the check returns, \<open>nil_store\<close> says there is no metadata store.\<close>

definition checkIcebergRecovery ::
  "'c guard_env \<Rightarrow> 'c \<Rightarrow> (string list \<Rightarrow> go_error + ice_table) \<Rightarrow> (string \<Rightarrow> trino_reply) \<Rightarrow> bool \<Rightarrow>
     recovery_run \<Rightarrow> go_error option \<times> recovery_run" where
  "checkIcebergRecovery G c reload query nil_store run =
     (let E = env_at G c; db = rr_db run in
      case ge_own G 0 db of
        Some e \<Rightarrow> (Some (permanent e), run)
      | None \<Rightarrow>
      if trim_space (rn_state_key E) = [] \<and> nil_store then (None, run)
      else case ge_store G of
        Some e \<Rightarrow> (Some (permanent e), run)
      | None \<Rightarrow>
     (case io_list (ge_ops G 0) (checkpointKey E) db of
        Inl e \<Rightarrow> (Some (permanent (wrap_error ''read Iceberg commit intents before replay: '' (from_meta e))), run)
      | Inr intents \<Rightarrow>
          (let off = (if intents = [] then None else GetOffset (checkpointKey E) db);
               progress = (if intents = [] then None else GetSnapshotProgress (checkpointKey E) db);
               snapshot = (if intents = [] then None else GetSnapshotState (checkpointKey E) db);
               run = run\<lparr>rr_targets := [], rr_evidence := []\<rparr> in
           case recover_all G E query 10 off progress snapshot intents run of
             (Some e, run') \<Rightarrow> (Some e, run')
           | (None, run') \<Rightarrow>
               (case evidence_unchanged reload run' of
                  Some e \<Rightarrow> (Some e, run')
                | None \<Rightarrow> (ge_own G 1 (rr_db run'), run')))))"

text \<open>Every attempt \<open>n\<close> meets its own outcomes of the calls (\<open>G n\<close>) and its own catalog (\<open>c n\<close>).\<close>

definition reconcileAutomatically ::
  "(nat \<Rightarrow> 'c guard_env) \<Rightarrow> (nat \<Rightarrow> 'c) \<Rightarrow> (nat \<Rightarrow> string list \<Rightarrow> go_error + ice_table) \<Rightarrow> (string \<Rightarrow> trino_reply) \<Rightarrow>
     bool \<Rightarrow> recovery_run \<Rightarrow> go_error option \<times> recovery_run" where
  "reconcileAutomatically G c reload query nil_store run =
     (if ge_policy (G 0) = None \<or> nil_store then checkIcebergRecovery (G 0) (c 0) (reload 0) query nil_store run
      else case runAutomaticRecoveryWithCause (the (ge_policy (G 0))) (ge_cancel (G 0)) None
             (recovery_attempt (G 0) (\<lambda>n. checkIcebergRecovery (G n) (c n) (reload n) query nil_store) rr_db)
             (run\<lparr>rr_operation := []\<rparr>) of
        (res, n, run') \<Rightarrow> (res, run'))"

section \<open>Settling an intent\<close>

lemma status_sel:
  "ci_source_table (i\<lparr>ci_status := s\<rparr>) = ci_source_table i"
  "ci_target_table (i\<lparr>ci_status := s\<rparr>) = ci_target_table i"
  "ci_target_namespace (i\<lparr>ci_status := s\<rparr>) = ci_target_namespace i"
  "ci_operation_id (i\<lparr>ci_status := s\<rparr>) = ci_operation_id i"
  "ci_operation (i\<lparr>ci_status := s\<rparr>) = ci_operation i"
  "ci_target_uuid (i\<lparr>ci_status := s\<rparr>) = ci_target_uuid i"
  by simp_all

lemma status_fingerprint:
  "icebergIntentFingerprint C (i\<lparr>ci_status := s\<rparr>) = icebergIntentFingerprint C i"
  by (simp add: icebergIntentFingerprint_def)

lemma proveIcebergIntent_status [simp]:
  "proveIcebergIntent E (i\<lparr>ci_status := s\<rparr>) = proveIcebergIntent E i"
  unfolding proveIcebergIntent_def loadProvenIcebergTable_def source_mapping_ok_def recovery_ident_def
    commit_marker_def status_fingerprint status_sel by (rule refl)

text \<open>
  What recovery may do to one intent: nothing, or, with proof that the catalog accepted it, mark it
  COMMITTED; an internal one may then be dropped.
\<close>

definition settles :: "recovery_env \<Rightarrow> bool \<Rightarrow> commit_intent option \<Rightarrow> commit_intent option \<Rightarrow> bool" where
  "settles E droppable a b \<longleftrightarrow> a = b \<or>
     (\<exists>i. a = Some i \<and> proveIcebergIntent E i = None \<and>
        (b = Some (i\<lparr>ci_status := IcebergCommitCommitted\<rparr>) \<or> droppable \<and> b = None))"

lemma settles_refl [simp]: "settles E d a a"
  by (simp add: settles_def)

lemma settles_trans:
  assumes "settles E d a b" "settles E d b c" shows "settles E d a c"
proof (cases "a = b \<or> b = c")
  case True
  with assms show ?thesis by auto
next
  case False
  then obtain i where i: "a = Some i" "proveIcebergIntent E i = None"
    and b: "b = Some (i\<lparr>ci_status := IcebergCommitCommitted\<rparr>) \<or> d \<and> b = None"
    using assms(1) unfolding settles_def by blast
  obtain j where j: "b = Some j" and c: "c = Some (j\<lparr>ci_status := IcebergCommitCommitted\<rparr>) \<or> d \<and> c = None"
    using assms(2) False unfolding settles_def by blast
  from b j have "j = i\<lparr>ci_status := IcebergCommitCommitted\<rparr>" by simp
  with c have "c = Some (i\<lparr>ci_status := IcebergCommitCommitted\<rparr>) \<or> d \<and> c = None" by simp
  with i show ?thesis unfolding settles_def by blast
qed

definition db_settles :: "recovery_env \<Rightarrow> bool \<Rightarrow> string \<Rightarrow> meta_db \<Rightarrow> meta_db \<Rightarrow> bool" where
  "db_settles E d op_id db db' \<longleftrightarrow> db_wf db' \<and> settles E d (find_intent op_id db) (find_intent op_id db') \<and>
     (\<forall>p. p \<noteq> op_id \<longrightarrow> find_intent p db' = find_intent p db)"

lemma db_settles_refl: "db_wf db \<Longrightarrow> db_settles E d p db db"
  by (simp add: db_settles_def)

lemma db_settles_trans: "db_settles E d p a b \<Longrightarrow> db_settles E d p b c \<Longrightarrow> db_settles E d p a c"
  unfolding db_settles_def using settles_trans by metis

lemma recovery_loop_invariant:
  assumes step: "\<And>n s e s'. attempt n s = (e, s') \<Longrightarrow> I s \<Longrightarrow> R s s' \<and> I s'"
    and refl: "\<And>s. I s \<Longrightarrow> R s s" and trans: "\<And>s t u. R s t \<Longrightarrow> R t u \<Longrightarrow> R s u"
  shows "recovery_loop attempt cancel left n last' s = (res, m, s') \<Longrightarrow> I s \<Longrightarrow> 0 < left \<Longrightarrow>
     R s s' \<and> I s' \<and> m \<le> n + left \<and> (res = None \<longrightarrow> (\<exists>k t. R s t \<and> I t \<and> attempt k t = (None, s')))"
proof (induction left arbitrary: n last' s)
  case (Suc left)
  show ?case
  proof (cases "cancel (3 * n)")
    case (Some e)
    with Suc.prems refl show ?thesis by auto
  next
    case None
    obtain e s1 where a: "attempt n s = (e, s1)" by (cases "attempt n s")
    note st = step [OF a Suc.prems(2)]
    show ?thesis
    proof (cases e)
      case (None)
      with Suc.prems(1) \<open>cancel (3 * n) = None\<close> a have "res = None" "m = Suc n" "s' = s1" by auto
      with st a None refl Suc.prems(2) show ?thesis by auto
    next
      case (Some err)
      show ?thesis
      proof (cases "err_is TOwnershipLost err \<or> left = 0 \<or> cancel (3 * n + 1) \<noteq> None \<or> cancel (3 * n + 2) \<noteq> None")
        case True
        with Suc.prems(1) \<open>cancel (3 * n) = None\<close> a Some have "res \<noteq> None" "m = Suc n" "s' = s1"
          by (auto split: if_splits option.splits)
        with st show ?thesis by auto
      next
        case False
        with Suc.prems(1) \<open>cancel (3 * n) = None\<close> a Some
        have "recovery_loop attempt cancel left (Suc n) (Some err) s1 = (res, m, s')" by simp
        from Suc.IH [OF this] st False have ih: "R s1 s' \<and> I s' \<and> m \<le> Suc n + left \<and>
          (res = None \<longrightarrow> (\<exists>k t. R s1 t \<and> I t \<and> attempt k t = (None, s')))" by simp
        with st trans [of s s1] show ?thesis by (metis add_Suc_right add_Suc)
      qed
    qed
  qed
qed simp

lemma runAutomaticRecovery_invariant:
  assumes run: "runAutomaticRecoveryWithCause policy cancel initial attempt s = (res, m, s')" and "I s"
    and step: "\<And>n s e s'. attempt n s = (e, s') \<Longrightarrow> I s \<Longrightarrow> R s s' \<and> I s'"
    and refl: "\<And>s. I s \<Longrightarrow> R s s" and trans: "\<And>s t u. R s t \<Longrightarrow> R t u \<Longrightarrow> R s u"
  shows "R s s' \<and> I s' \<and> m \<le> 20 \<and> (res = None \<longrightarrow> (\<exists>k t. R s t \<and> I t \<and> attempt k t = (None, s'))) \<and>
     (\<forall>e. res = Some e \<longrightarrow> IsPermanent e)"
proof -
  let ?left = "nat (rp_attempts (automaticRecoveryPolicy policy))"
  obtain r where loop: "recovery_loop attempt cancel ?left 0 None s = (r, m, s')"
    and res: "res = (case r of None \<Rightarrow> None
       | Some e \<Rightarrow> Some (permanent (wrap_error ''Iceberg recovery BLOCKED: '' (recoveryFailure initial e))))"
    using run by (auto simp: runAutomaticRecoveryWithCause_def split: prod.splits option.splits)
  have b: "0 < ?left" "?left \<le> 20" using automaticRecoveryPolicy_bounds [of policy] by auto
  have "R s s' \<and> I s' \<and> m \<le> 0 + ?left \<and> (r = None \<longrightarrow> (\<exists>k t. R s t \<and> I t \<and> attempt k t = (None, s')))"
    by (rule recovery_loop_invariant [where attempt = attempt and I = I and R = R, OF _ _ _ loop \<open>I s\<close> b(1)])
      (fact step refl trans)+
  with b(2) res show ?thesis by (auto split: option.splits)
qed

section \<open>Commits over a lawful store\<close>

locale commit_store =
  fixes G :: "'c guard_env"
  assumes ops: "intent_log (ge_ops G n)"
begin

lemmas op_laws = intent_log.begin_ok [OF ops] intent_log.begin_err [OF ops] intent_log.mark_ok [OF ops]
  intent_log.mark_err [OF ops] intent_log.delete_ok [OF ops] intent_log.delete_err [OF ops] intent_log.list_sound [OF ops]

lemma mark_settles:
  assumes "io_mark (ge_ops G n) key op_id db = (r, db')" "db_wf db" "find_intent op_id db = Some i" "proveIcebergIntent E i = None"
  shows "db_settles E d op_id db db' \<and> (r = Inr () \<longrightarrow> find_intent op_id db' = Some (i\<lparr>ci_status := IcebergCommitCommitted\<rparr>))"
proof (cases r)
  case (Inl e)
  with assms intent_log.mark_err [OF ops] have "db' = db" by blast
  with Inl assms(2) show ?thesis by (simp add: db_settles_refl)
next
  case (Inr u)
  from intent_log.mark_ok [OF ops assms(2) assms(1) [unfolded Inr]] assms(3,4) show ?thesis
    by (auto simp: db_settles_def settles_def)
qed

lemma delete_settles:
  assumes "io_delete (ge_ops G n) key op_id db = (r, db')" "db_wf db" "find_intent op_id db = Some i" "ci_state_key i = key"
    "proveIcebergIntent E i = None"
  shows "db_settles E True op_id db db' \<and> (r = Inr () \<longrightarrow> find_intent op_id db' = None)"
proof (cases r)
  case (Inl e)
  with assms intent_log.delete_err [OF ops] have "db' = db" by blast
  with Inl assms(2) show ?thesis by (simp add: db_settles_refl)
next
  case (Inr u)
  have del: "db_wf db' \<and> find_intent p db' = (case find_intent p db of None \<Rightarrow> None
      | Some j \<Rightarrow> if p = op_id \<and> ci_state_key j = key then None else Some j)" for p
    by (rule intent_log.delete_ok [OF ops assms(2) assms(1) [unfolded Inr]])
  have "find_intent op_id db' = None" using del [of op_id] assms(3,4) by simp
  moreover have "p \<noteq> op_id \<Longrightarrow> find_intent p db' = find_intent p db" for p
    using del [of p] by (simp split: option.splits)
  ultimately show ?thesis using del assms(3,5) by (auto simp: db_settles_def settles_def)
qed


lemma verify_unknown_settles:
  assumes "verify_unknown G intent c n db = (r, db')" "db_wf db"
  shows "db_settles (env_at G c) (ci_kind intent = ''internal'') (ci_operation_id intent) db db' \<and>
    (r = None \<longrightarrow> (\<exists>i. find_intent (ci_operation_id intent) db = Some i \<and> proveIcebergIntent (env_at G c) i = None \<and>
       find_intent (ci_operation_id intent) db' =
         (if ci_kind intent = ''internal'' then None else Some (i\<lparr>ci_status := IcebergCommitCommitted\<rparr>))))"
proof -
  let ?E = "env_at G c" and ?op = "ci_operation_id intent" and ?key = "ci_state_key intent"
  let ?int = "ci_kind intent = ''internal''"
  have idle: ?thesis if "r \<noteq> None" "db' = db" using that db_settles_refl [OF assms(2)] by blast
  show ?thesis
  proof (cases "ge_store G")
    case (Some e)
    with assms(1) have "r = Some e" "db' = db" by (simp_all add: verify_unknown_def)
    then show ?thesis by (intro idle) simp_all
  next
    case store: None
    show ?thesis
    proof (cases "io_list (ge_ops G (8 * n + 3)) ?key db")
      case (Inl e)
      with assms(1) store show ?thesis by (intro idle) (auto simp: verify_unknown_def)
    next
      case (Inr intents)
      show ?thesis
      proof (cases "find (\<lambda>i. ci_operation_id i = ?op) intents")
        case None
        with assms(1) store Inr show ?thesis by (intro idle) (auto simp: verify_unknown_def)
      next
        case (Some i)
        then have mem: "i \<in> set intents" and op: "ci_operation_id i = ?op"
          by (auto simp: find_Some_iff)
        from intent_log.list_sound [OF ops Inr assms(2)] mem op
        have i: "find_intent ?op db = Some i" "ci_state_key i = ?key" by auto
        show ?thesis
        proof (cases "icebergIntentFingerprint (rn_codec (ge_env G)) i \<noteq> icebergIntentFingerprint (rn_codec (ge_env G)) intent \<or>
            ci_status i \<noteq> IcebergCommitPrepared \<and> ci_status i \<noteq> IcebergCommitCommitted \<or>
            proveIcebergIntent ?E i \<noteq> None \<or> ge_own G (8 * n + 4) db \<noteq> None")
          case True
          with assms(1) store Inr Some show ?thesis
            by (intro idle) (auto simp: verify_unknown_def Let_def split: if_splits option.splits dest!: sym [of "Some _"])
        next
          case False
          then have p: "proveIcebergIntent ?E i = None" by blast
          obtain r1 db1 where mark: "(if ci_status i = IcebergCommitPrepared
              then io_mark (ge_ops G (8 * n + 5)) ?key ?op db else (Inr (), db)) = (r1, db1)"
            by (cases "if ci_status i = IcebergCommitPrepared
              then io_mark (ge_ops G (8 * n + 5)) ?key ?op db else (Inr (), db)")
          have rest: "(r, db') = (case r1 of Inl e \<Rightarrow> (Some (from_meta e), db1)
              | Inr _ \<Rightarrow> (case (if ?int then io_delete (ge_ops G (8 * n + 6)) ?key ?op db1 else (Inr (), db1)) of
                   (Inl e, db2) \<Rightarrow> (Some (from_meta e), db2) | (Inr _, db2) \<Rightarrow> (ge_own G (8 * n + 7) db2, db2)))"
          proof -
            have own: "ge_own G (8 * n + 4) db = None"
              and fp: "icebergIntentFingerprint (rn_codec (ge_env G)) i = icebergIntentFingerprint (rn_codec (ge_env G)) intent"
              and st: "ci_status i = IcebergCommitPrepared \<or> ci_status i = IcebergCommitCommitted"
              using False by blast+
            from st show ?thesis
            proof
              assume prep: "ci_status i = IcebergCommitPrepared"
              show ?thesis
                using assms(1) mark by (simp add: verify_unknown_def Let_def store Inr Some own fp p prep split: sum.splits)
            next
              assume comm: "ci_status i = IcebergCommitCommitted"
              have eq: "r1 = Inr ()" "db1 = db" using mark comm by auto
              show ?thesis
                unfolding eq using assms(1) [symmetric] by (simp only: verify_unknown_def Let_def store Inr Some own fp p comm
                    option.case sum.case prod.case simp_thms if_False if_True) (simp add: comm)
            qed
          qed
          let ?ic = "i\<lparr>ci_status := IcebergCommitCommitted\<rparr>"
          have m: "db_settles ?E ?int ?op db db1 \<and> (r1 = Inr () \<longrightarrow> find_intent ?op db1 = Some ?ic)"
          proof (cases "ci_status i = IcebergCommitPrepared")
            case True
            with mark have "io_mark (ge_ops G (8 * n + 5)) ?key ?op db = (r1, db1)" by simp
            from mark_settles [OF this assms(2) i(1) p] show ?thesis .
          next
            case ncp: False
            with mark have eq: "db1 = db" by simp
            from ncp False have "ci_status i = IcebergCommitCommitted" by blast
            then have "?ic = i" by simp
            with eq i(1) assms(2) show ?thesis by (simp add: db_settles_refl)
          qed
          show ?thesis
          proof (cases r1)
            case (Inl e)
            with rest m show ?thesis by simp
          next
            case r1: (Inr u)
            with m have ic: "find_intent ?op db1 = Some ?ic" by simp
            from m have wf1: "db_wf db1" by (simp add: db_settles_def)
            show ?thesis
            proof (cases ?int)
              case False
              with rest r1 have "db' = db1" by simp
              with m ic i(1) p False show ?thesis by simp
            next
              case int: True
              obtain r2 db2 where del: "io_delete (ge_ops G (8 * n + 6)) ?key ?op db1 = (r2, db2)"
                by (cases "io_delete (ge_ops G (8 * n + 6)) ?key ?op db1")
              have "ci_state_key ?ic = ?key" "proveIcebergIntent ?E ?ic = None" using i(2) p by simp_all
              note d = delete_settles [OF del wf1 ic this]
              have it: "?int = True" using int by simp
              have "db_settles ?E True ?op db db1" using m unfolding it by blast
              from db_settles_trans [OF this] d have "db_settles ?E True ?op db db2" by blast
              then have s: "db_settles ?E ?int ?op db db2" unfolding it .
              from d have s2: "r2 = Inr () \<longrightarrow> find_intent ?op db2 = None" by blast
              have "db' = db2" "r = None \<longrightarrow> r2 = Inr ()" using rest r1 int del by (auto split: sum.splits)
              with s s2 i(1) p int show ?thesis by simp
            qed
          qed
        qed
      qed
    qed
  qed
qed

lemma recoverUnknownCommit_settles:
  assumes "recoverUnknownCommit G intent p original c db = (res, db')" "db_wf db" "IsPermanent original"
  shows "db_settles (env_at G c) (ci_kind intent = ''internal'') (ci_operation_id intent) db db' \<and>
    (res = None \<longrightarrow> (\<exists>i. find_intent (ci_operation_id intent) db = Some i \<and> proveIcebergIntent (env_at G c) i = None \<and>
       find_intent (ci_operation_id intent) db' =
         (if ci_kind intent = ''internal'' then None else Some (i\<lparr>ci_status := IcebergCommitCommitted\<rparr>)))) \<and>
    (\<forall>e. res = Some e \<longrightarrow> IsPermanent e)"
proof -
  let ?E = "env_at G c" and ?op = "ci_operation_id intent" and ?int = "ci_kind intent = ''internal''"
  have idle: ?thesis if "res = Some e" "IsPermanent e" "db' = db" for e
    using that assms(2) by (simp add: db_settles_refl)
  show ?thesis
  proof (cases "ge_policy G")
    case None
    with assms show ?thesis by (intro idle) (auto simp: recoverUnknownCommit_def)
  next
    case (Some policy)
    show ?thesis
    proof (cases "\<not> cp_recoverable p \<or>
        \<not> recoverableDataOperation (ci_operation intent) \<and> \<not> recoverableMetadataOperation (ci_operation intent)")
      case True
      with assms Some show ?thesis by (intro idle) (auto simp: recoverUnknownCommit_def)
    next
      case False
      show ?thesis
      proof (cases "fst (retainRecoveryReceipt (rn_codec (ge_env G)) intent None empty_recovery)")
        case (Some e)
        with assms \<open>ge_policy G = _\<close> False show ?thesis
          by (intro idle [of "permanent (recoveryFailure (Some original) (new_error e))"]) (auto simp: recoverUnknownCommit_def)
      next
        case None
        let ?attempt = "recovery_attempt G (verify_unknown G intent c) (\<lambda>d. d)"
        obtain n where run: "runAutomaticRecoveryWithCause policy (ge_cancel G) (Some original) ?attempt db = (res, n, db')"
          using assms(1) \<open>ge_policy G = _\<close> False None
          by (auto simp: recoverUnknownCommit_def split: prod.splits)
        have verified: "verify_unknown G intent c k d = (None, d')" if "?attempt k d = (None, d')" for k d d'
          using that by (auto simp: recovery_attempt_def split: option.splits prod.splits)
        have step: "db_settles ?E ?int ?op d d' \<and> db_wf d'" if "?attempt k d = (e, d')" "db_wf d" for k d e d'
        proof -
          obtain r d1 where v: "verify_unknown G intent c k d = (r, d1)" by (cases "verify_unknown G intent c k d")
          have "d' = d \<or> d' = d1" using that(1) v by (auto simp: recovery_attempt_def split: option.splits)
          with verify_unknown_settles [OF v that(2)] that(2) show ?thesis
            by (auto simp: db_settles_refl) (auto simp: db_settles_def)
        qed
        have inv: "db_settles ?E ?int ?op db db' \<and> db_wf db' \<and> n \<le> 20 \<and>
            (res = None \<longrightarrow> (\<exists>k t. db_settles ?E ?int ?op db t \<and> db_wf t \<and> ?attempt k t = (None, db'))) \<and>
            (\<forall>e. res = Some e \<longrightarrow> IsPermanent e)"
          by (rule runAutomaticRecovery_invariant [where I = db_wf and R = "db_settles ?E ?int ?op", OF run assms(2)])
            (fact step db_settles_refl db_settles_trans)+
        have "\<exists>i. find_intent ?op db = Some i \<and> proveIcebergIntent ?E i = None \<and> find_intent ?op db' =
            (if ?int then None else Some (i\<lparr>ci_status := IcebergCommitCommitted\<rparr>))" if "res = None"
        proof -
          obtain k t where t: "db_settles ?E ?int ?op db t" "db_wf t" "?attempt k t = (None, db')" using inv \<open>res = None\<close> by blast
          from verify_unknown_settles [OF verified [OF t(3)] t(2)] obtain i where
            i: "find_intent ?op t = Some i" "proveIcebergIntent ?E i = None"
              "find_intent ?op db' = (if ?int then None else Some (i\<lparr>ci_status := IcebergCommitCommitted\<rparr>))" by blast
          from t(1) i(1) have "settles ?E ?int (find_intent ?op db) (Some i)" by (simp add: db_settles_def)
          then obtain j where j: "find_intent ?op db = Some j" "j = i \<or> i = j\<lparr>ci_status := IcebergCommitCommitted\<rparr>"
            unfolding settles_def by auto
          then have "proveIcebergIntent ?E j = None" "i\<lparr>ci_status := IcebergCommitCommitted\<rparr> = j\<lparr>ci_status := IcebergCommitCommitted\<rparr>"
            using i(2) by auto
          with i(3) j(1) show ?thesis by simp
        qed
        with inv show ?thesis by blast
      qed
    qed
  qed
qed

end

lemma commit_intent_for_cases:
  assumes "commit_intent_for G b p op_id = Inr i"
  obtains bid u where "i = (new_intent (ge_env G) (named_batch b p op_id) p op_id)\<lparr>ci_batch_id := bid, ci_target_uuid := u\<rparr>"
proof (cases "rn_scoped_native (ge_env G) \<and> ib_kind (named_batch b p op_id) = ''snapshot''")
  case True
  with assms that show ?thesis by (auto simp: commit_intent_for_def Let_def split: option.splits)
next
  case False
  with assms have "i = new_intent (ge_env G) (named_batch b p op_id) p op_id"
    by (simp add: commit_intent_for_def Let_def split: if_splits)
  then have "i = (new_intent (ge_env G) (named_batch b p op_id) p op_id)\<lparr>ci_batch_id := ci_batch_id i, ci_target_uuid := ci_target_uuid i\<rparr>"
    by simp
  then show ?thesis by (rule that)
qed

lemma commit_intent_for_fields:
  assumes "commit_intent_for G b p op_id = Inr i"
  shows "ci_operation_id i = op_id" "ci_status i = IcebergCommitPrepared" "ci_trino_query_id i = []"
    "ci_state_key i = checkpointKey (ge_env G)" "ci_job_id i = rn_job (ge_env G)" "ci_operation i = cp_operation p"
    "i\<lparr>ci_status := IcebergCommitPrepared, ci_trino_query_id := []\<rparr> = i"
  by (rule commit_intent_for_cases [OF assms], simp add: new_intent_def)+

lemma commit_intent_for_Inl: "commit_intent_for G b p op_id = Inl e \<Longrightarrow> IsPermanent e"
  by (auto simp: commit_intent_for_def Let_def split: if_splits option.splits)

text \<open>What the guard promises, for the intent \<open>i\<close> it stores; \<open>a\<close> is the intent's row at the end.\<close>

definition commit_outcome ::
  "commit_intent \<Rightarrow> commit_intent option \<Rightarrow> go_error option \<Rightarrow> bool \<Rightarrow> bool" where
  "commit_outcome i a res accepted \<longleftrightarrow>
     (res = None \<longrightarrow> a = (if ci_kind i = ''internal'' then None else Some (i\<lparr>ci_status := IcebergCommitCommitted\<rparr>))) \<and>
     (\<forall>e. res = Some e \<and> \<not> IsPermanent e \<longrightarrow> a = None \<and> \<not> accepted) \<and>
     (accepted \<longrightarrow> (\<exists>s \<in> {IcebergCommitPrepared, IcebergCommitCommitted}. a = Some (i\<lparr>ci_status := s\<rparr>)) \<or>
        a = None \<and> ci_kind i = ''internal'')"

lemma settled_outcome:
  assumes "settles E (ci_kind i = ''internal'') (Some (i\<lparr>ci_status := IcebergCommitPrepared\<rparr>)) a"
    "res = None \<longrightarrow> a = (if ci_kind i = ''internal'' then None else Some (i\<lparr>ci_status := IcebergCommitCommitted\<rparr>))"
    "\<forall>e. res = Some e \<longrightarrow> IsPermanent e"
  shows "commit_outcome i a res accepted"
proof -
  from assms(1) consider "a = Some (i\<lparr>ci_status := IcebergCommitPrepared\<rparr>)"
    | "a = Some (i\<lparr>ci_status := IcebergCommitCommitted\<rparr>)" | "ci_kind i = ''internal''" "a = None"
    unfolding settles_def by auto
  then show ?thesis using assms(2,3) by cases (auto simp: commit_outcome_def)
qed

context commit_store
begin

lemma delete_own_intent:
  assumes "io_delete (ge_ops G n) key op_id db = (r, db')" "db_wf db" "find_intent op_id db = Some i" "ci_state_key i = key"
  shows "db_wf db' \<and> (\<forall>q. q \<noteq> op_id \<longrightarrow> find_intent q db' = find_intent q db) \<and>
    find_intent op_id db' = (case r of Inl e \<Rightarrow> Some i | Inr u \<Rightarrow> None)"
proof (cases r)
  case (Inl e)
  with assms intent_log.delete_err [OF ops] have "db' = db" by blast
  with Inl assms show ?thesis by simp
next
  case (Inr u)
  have del: "db_wf db' \<and> find_intent q db' = (case find_intent q db of None \<Rightarrow> None
      | Some j \<Rightarrow> if q = op_id \<and> ci_state_key j = key then None else Some j)" for q
    by (rule intent_log.delete_ok [OF ops assms(2) assms(1) [unfolded Inr]])
  have "q \<noteq> op_id \<Longrightarrow> find_intent q db' = find_intent q db" for q
    using del [of q] by (simp split: option.splits)
  with del del [of op_id] assms(3,4) Inr show ?thesis by simp
qed

lemma guarded_commit:
  assumes run: "guardedIcebergCommit G b p op_id fn db c = (res, db', c')" and wf: "db_wf db"
    and contract: "\<forall>i e c1. fn i c = (Some e, c1) \<and>
        (err_is TPreparation e \<or> err_is TCommitFailed e \<and> \<not> IsPermanent e) \<longrightarrow> c1 = c"
  shows "db_wf db' \<and> (\<forall>q. q \<noteq> op_id \<longrightarrow> find_intent q db' = find_intent q db) \<and>
    ((\<exists>e. res = Some e \<and> IsPermanent e) \<and> db' = db \<and> c' = c \<or>
     (\<exists>i. commit_intent_for G b p op_id = Inr i \<and> commit_outcome i (find_intent op_id db') res (c' \<noteq> c)))"
proof -
  have idle: ?thesis if "res = Some e" "IsPermanent e" "db' = db" "c' = c" for e using that wf by blast
  show ?thesis
  proof (cases "ge_own G 0 db \<noteq> None \<or> ge_store G \<noteq> None")
    case True
    with run obtain e where "res = Some (permanent e)" "db' = db" "c' = c"
      by (auto simp: guardedIcebergCommit_def split: option.splits)
    then show ?thesis by (rule idle [OF _ IsPermanent_permanent])
  next
    case False
    then have pre: "ge_own G 0 db = None" "ge_store G = None" by auto
    show ?thesis
    proof (cases "commit_intent_for G b p op_id")
      case (Inl e)
      with run pre commit_intent_for_Inl [OF Inl] show ?thesis
        by (intro idle [of e]) (auto simp: guardedIcebergCommit_def)
    next
      case int: (Inr i)
      note f = commit_intent_for_fields [OF int]
      obtain r1 db1 where beg: "io_begin (ge_ops G 0) i db = (r1, db1)" by (cases "io_begin (ge_ops G 0) i db")
      show ?thesis
      proof (cases r1)
        case (Inl e)
        with beg intent_log.begin_err [OF ops] have "db1 = db" by blast
        with run pre int beg Inl show ?thesis
          by (intro idle [of "permanent (wrap_error ''persist Iceberg commit intent before catalog call: '' (from_meta e))"])
            (auto simp: guardedIcebergCommit_def)
      next
        case r1: (Inr u)
        have begun: "db_wf db1 \<and> find_intent q db1 = (if q = op_id then Some i else find_intent q db)" for q
          using intent_log.begin_ok [OF ops wf beg [unfolded r1], of q] f(1,7) by simp
        then have wf1: "db_wf db1" and i1: "find_intent op_id db1 = Some i"
          and o1: "\<And>q. q \<noteq> op_id \<Longrightarrow> find_intent q db1 = find_intent q db" by auto
        have ip: "i\<lparr>ci_status := IcebergCommitPrepared\<rparr> = i" using f(2) by simp
        obtain r2 c1 where call: "fn i c = (r2, c1)" by (cases "fn i c")
        have recover: ?thesis
          if rec: "recoverUnknownCommit G i p orig c1 db1 = (res, db')" and "IsPermanent orig" and "c' = c1" for orig
        proof -
          note s = recoverUnknownCommit_settles [OF rec wf1 \<open>IsPermanent orig\<close>, unfolded f(1)]
          have set: "settles (env_at G c1) (ci_kind i = ''internal'') (Some (i\<lparr>ci_status := IcebergCommitPrepared\<rparr>))
              (find_intent op_id db')"
            using s i1 unfolding db_settles_def ip by simp
          have none: "res = None \<longrightarrow> find_intent op_id db' =
              (if ci_kind i = ''internal'' then None else Some (i\<lparr>ci_status := IcebergCommitCommitted\<rparr>))"
            using s i1 by auto
          have "commit_outcome i (find_intent op_id db') res (c' \<noteq> c)"
            by (rule settled_outcome [OF set none]) (use s in blast)
          with s o1 int show ?thesis unfolding db_settles_def by simp
        qed
        show ?thesis
        proof (cases r2)
          case None
          obtain r3 db2 where mark: "io_mark (ge_ops G 1) (ci_state_key i) op_id db1 = (r3, db2)"
            by (cases "io_mark (ge_ops G 1) (ci_state_key i) op_id db1")
          show ?thesis
          proof (cases r3)
            case (Inl e)
            with mark intent_log.mark_err [OF ops wf1] have "db2 = db1" by blast
            with run pre int beg r1 call None mark Inl show ?thesis
              by (intro recover [of "permanent (wrap_error ''Iceberg commit outcome UNKNOWN: '' (from_meta e))"])
                (auto simp: guardedIcebergCommit_def split: prod.splits)
          next
            case r3: (Inr u3)
            let ?ic = "i\<lparr>ci_status := IcebergCommitCommitted\<rparr>"
            from intent_log.mark_ok [OF ops wf1 mark [unfolded r3]] i1
            have m: "db_wf db2" "find_intent op_id db2 = Some ?ic" "\<And>q. q \<noteq> op_id \<Longrightarrow> find_intent q db2 = find_intent q db1"
              by auto
            show ?thesis
            proof (cases "ci_kind i = ''internal''")
              case False
              with run pre int beg r1 call None mark r3 have "res = None" "db' = db2"
                by (auto simp: guardedIcebergCommit_def)
              with m o1 int False show ?thesis by (auto simp: commit_outcome_def)
            next
              case True
              obtain r4 db3 where del: "io_delete (ge_ops G 2) (ci_state_key i) op_id db2 = (r4, db3)"
                by (cases "io_delete (ge_ops G 2) (ci_state_key i) op_id db2")
              have "ci_state_key ?ic = ci_state_key i" by simp
              note d = delete_own_intent [OF del m(1,2) this]
              have "db' = db3" "res = (case r4 of Inl e \<Rightarrow> Some (permanent (wrap_error ''intent cleanup failed: '' (from_meta e))) | Inr u \<Rightarrow> None)"
                using run pre int beg r1 call None mark r3 True del
                by (auto simp: guardedIcebergCommit_def split: sum.splits)
              with d m(3) o1 int True show ?thesis by (cases r4) (auto simp: commit_outcome_def)
            qed
          qed
        next
          case (Some err)
          show ?thesis
          proof (cases "err_is TPreparation err \<or> err_is TCommitFailed err \<and> \<not> IsPermanent err")
            case True
            have cc: "c1 = c" using contract call Some True by blast
            obtain r4 db2 where del: "io_delete (ge_ops G 2) (ci_state_key i) op_id db1 = (r4, db2)"
              by (cases "io_delete (ge_ops G 2) (ci_state_key i) op_id db1")
            note d = delete_own_intent [OF del wf1 i1 refl]
            have "db' = db2" "c' = c1" "res = (case r4 of
                Inl e \<Rightarrow> Some (permanent (if err_is TPreparation err
                       then join_error ''intent cleanup failed: '' (from_meta e) ''; preparation error: '' err
                       else wrap_error ''intent cleanup failed: '' (from_meta e)))
              | Inr u \<Rightarrow> Some err)"
              using run pre int beg r1 call Some True del
              by (auto simp: guardedIcebergCommit_def split: sum.splits)
            with d o1 int cc show ?thesis by (cases r4) (auto simp: commit_outcome_def)
          next
            case False
            with run pre int beg r1 call Some show ?thesis
              by (intro recover [of "permanent (wrap_error ''Iceberg commit outcome UNKNOWN: '' err)"])
                (auto simp: guardedIcebergCommit_def split: prod.splits)
          qed
        qed
      qed
    qed
  qed
qed

end

section \<open>Startup recovery\<close>

lemma retainRecoveryReceipt_loaded:
  assumes "retainRecoveryReceipt C i off st = (None, st')"
  shows "ci_operation_id i \<in> set (rs_loaded st')" "set (rs_loaded st) \<subseteq> set (rs_loaded st')"
proof -
  have keep: "rs_loaded st1 = rs_loaded st0" if "retain_events off evs st0 = (r, st1)" for evs st0 st1 r
    using that by (induction evs arbitrary: st0) (auto simp: Let_def split: if_splits)
  show "ci_operation_id i \<in> set (rs_loaded st')" "set (rs_loaded st) \<subseteq> set (rs_loaded st')"
    using assms keep
    by (auto simp: retainRecoveryReceipt_def Let_def split: if_splits option.splits sum.splits prod.splits)
qed

text \<open>
  What the receipt of an intent has to count for a replay key: the events of its manifest under that key
  which the durable checkpoint does not cover.
\<close>

definition receipt_events :: "replay_codec \<Rightarrow> offset option \<Rightarrow> commit_intent \<Rightarrow> string \<Rightarrow> int" where
  "receipt_events C off i k =
     (if recoverableDataOperation (ci_operation i) \<and> ci_kind i = ''cdc''
      then (case decodeIcebergReplayEvents C i of
              Inl e \<Rightarrow> 0
            | Inr evs \<Rightarrow> int (length (filter (\<lambda>ev. re_key ev = k \<and> \<not> checkpoint_covers_event off ev) evs)))
      else 0)"

lemma retain_events_others:
  "retain_events off evs st = (r, st') \<Longrightarrow> rs_loaded st' = rs_loaded st \<and> rs_intents st' = rs_intents st"
  by (induction evs arbitrary: st) (auto simp: Let_def split: if_splits)

lemma retain_counts:
  assumes "retainRecoveryReceipt C i off st = (None, st')"
  shows "if ci_operation_id i \<in> set (rs_loaded st) then st' = st
    else (\<forall>k. rs_events st' k = rs_events st k + receipt_events C off i k) \<and>
      rs_loaded st' = ci_operation_id i # rs_loaded st \<and> rs_intents st' = rs_intents st @ [i]"
proof (cases "ci_operation_id i \<in> set (rs_loaded st)")
  case True
  then show ?thesis using assms by (simp add: retainRecoveryReceipt_def)
next
  case False
  show ?thesis
  proof (cases "recoverableDataOperation (ci_operation i) \<and> ci_kind i = ''cdc''")
    case True
    then obtain evs st1 where "decodeIcebergReplayEvents C i = Inr evs" "retain_events off evs st = (None, st1)"
      "st' = st1\<lparr>rs_loaded := ci_operation_id i # rs_loaded st1, rs_intents := rs_intents st1 @ [i]\<rparr>"
      using assms False by (auto simp: retainRecoveryReceipt_def Let_def split: sum.splits option.splits prod.splits)
    then show ?thesis using False True retain_events_None [of off evs st st1] retain_events_others [of off evs st None st1]
      by (simp add: receipt_events_def)
  next
    case no: False
    then have "receipt_events C off i k = 0" for k by (auto simp: receipt_events_def)
    moreover have "st' = st\<lparr>rs_loaded := ci_operation_id i # rs_loaded st, rs_intents := rs_intents st @ [i]\<rparr>"
      using assms False no by (auto simp: retainRecoveryReceipt_def Let_def split: if_splits option.splits)
    ultimately show ?thesis using False by simp
  qed
qed

lemma recover_commit_state:
  assumes "recover_commit G E n off progress snapshot i r = (None, r')"
  shows "if icebergIntentCovered i off progress snapshot then rr_state r' = rr_state r
    else retainRecoveryReceipt (rn_codec E) i off (rr_state r) = (None, rr_state r')"
proof (cases "icebergIntentCovered i off progress snapshot")
  case True
  then show ?thesis using assms unfolding recover_commit_def Let_def
    by (auto split: if_splits option.splits sum.splits prod.splits)
next
  case False
  then show ?thesis using assms unfolding recover_commit_def Let_def
    by (auto split: if_splits option.splits sum.splits prod.splits)
qed

text \<open>What a walk over the intents adds to the receipts.\<close>

definition open_events ::
  "replay_codec \<Rightarrow> offset option \<Rightarrow> snapshot_progress option \<Rightarrow> snapshot_state option \<Rightarrow> string list \<Rightarrow> string \<Rightarrow>
     commit_intent \<Rightarrow> int" where
  "open_events C off progress snapshot loaded k i =
     (if icebergIntentCovered i off progress snapshot \<or> ci_operation_id i \<in> set loaded then 0 else receipt_events C off i k)"

lemma recover_all_counts:
  assumes "recover_all G E query n off progress snapshot is r = (None, r')" "distinct (map ci_operation_id is)"
    "\<forall>i \<in> set is. ci_kind i \<noteq> ''rebuild''"
  shows "(\<forall>k. rs_events (rr_state r') k = rs_events (rr_state r) k +
       sum_list (map (open_events (rn_codec E) off progress snapshot (rs_loaded (rr_state r)) k) is)) \<and>
    set (rs_intents (rr_state r)) \<subseteq> set (rs_intents (rr_state r')) \<and>
    (\<forall>i \<in> set is. icebergIntentCovered i off progress snapshot \<or> ci_operation_id i \<in> set (rs_loaded (rr_state r)) \<or>
       i \<in> set (rs_intents (rr_state r')))"
  using assms
proof (induction "is" arbitrary: n r)
  case (Cons i "is")
  let ?C = "rn_codec E" and ?L = "rs_loaded (rr_state r)"
  obtain r1 where one: "recover_one G E query n off progress snapshot i r = (None, r1)"
    and rest: "recover_all G E query (n + 10) off progress snapshot is r1 = (None, r')"
    using Cons.prems(1) by (auto split: prod.splits option.splits)
  have commit: "recover_commit G E n off progress snapshot i (r\<lparr>rr_operation := ci_operation_id i\<rparr>) = (None, r1)"
    using one Cons.prems(3) by (simp add: recover_one_def Let_def split: if_splits)
  note st = recover_commit_state [OF commit]
  have step: "(\<forall>k. rs_events (rr_state r1) k = rs_events (rr_state r) k + open_events ?C off progress snapshot ?L k i) \<and>
      (\<forall>x. x \<noteq> ci_operation_id i \<longrightarrow> x \<in> set (rs_loaded (rr_state r1)) \<longleftrightarrow> x \<in> set ?L) \<and>
      set (rs_intents (rr_state r)) \<subseteq> set (rs_intents (rr_state r1)) \<and>
      (icebergIntentCovered i off progress snapshot \<or> ci_operation_id i \<in> set ?L \<or> i \<in> set (rs_intents (rr_state r1)))"
  proof (cases "icebergIntentCovered i off progress snapshot")
    case True
    then show ?thesis using st by (simp add: open_events_def)
  next
    case False
    then have "retainRecoveryReceipt ?C i off (rr_state r) = (None, rr_state r1)" using st by simp
    from retain_counts [OF this] False show ?thesis by (auto simp: open_events_def split: if_splits)
  qed
  have d: "distinct (map ci_operation_id is)" "\<forall>j \<in> set is. ci_operation_id j \<noteq> ci_operation_id i"
    using Cons.prems(2) by (auto simp: image_iff)
  have "\<forall>j \<in> set is. ci_kind j \<noteq> ''rebuild''" using Cons.prems(3) by simp
  note ih = Cons.IH [OF rest d(1) this]
  have same: "map (open_events ?C off progress snapshot (rs_loaded (rr_state r1)) k) is =
      map (open_events ?C off progress snapshot ?L k) is" for k
    using step d(2) by (simp add: open_events_def)
  show ?case using ih step d(2) unfolding same by auto
qed simp

text \<open>
  What startup recovery may make of one listed intent: it goes only when its work is covered by the
  durable checkpoint (or repeats harmlessly), it is COMMITTED only with proof, and while its data is not
  covered a receipt for the replay is installed.
\<close>

definition recovered_ok ::
  "recovery_env \<Rightarrow> offset option \<Rightarrow> snapshot_progress option \<Rightarrow> snapshot_state option \<Rightarrow> commit_intent \<Rightarrow>
     commit_intent option \<Rightarrow> recovery_state \<Rightarrow> bool" where
  "recovered_ok E off progress snapshot i a st \<longleftrightarrow>
     (let covered = icebergIntentCovered i off progress snapshot in
      (ci_status i = IcebergCommitCommitted \<and> covered \<or> proveIcebergIntent E i = None) \<and>
      (if covered \<or> recoverableMetadataOperation (ci_operation i) then a = None
       else a = Some (i\<lparr>ci_status := IcebergCommitCommitted\<rparr>)) \<and>
      (\<not> covered \<longrightarrow> ci_operation_id i \<in> set (rs_loaded st)))"

context commit_store
begin

lemma recover_commit_effect:
  assumes run: "recover_commit G E n off progress snapshot i r = (None, r')" and wf: "db_wf (rr_db r)"
    and i: "find_intent (ci_operation_id i) (rr_db r) = Some i" "ci_state_key i = checkpointKey E"
  shows "db_wf (rr_db r') \<and> (\<forall>q. q \<noteq> ci_operation_id i \<longrightarrow> find_intent q (rr_db r') = find_intent q (rr_db r)) \<and>
    set (rs_loaded (rr_state r)) \<subseteq> set (rs_loaded (rr_state r')) \<and>
    recovered_ok E off progress snapshot i (find_intent (ci_operation_id i) (rr_db r')) (rr_state r')"
proof -
  let ?op = "ci_operation_id i" and ?cov = "icebergIntentCovered i off progress snapshot"
  let ?ic = "i\<lparr>ci_status := IcebergCommitCommitted\<rparr>"
  show ?thesis
  proof (cases "ci_status i = IcebergCommitCommitted \<and> ?cov")
    case True
    obtain e db' where del: "io_delete (ge_ops G n) (checkpointKey E) ?op (rr_db r) = (e, db')"
      by (cases "io_delete (ge_ops G n) (checkpointKey E) ?op (rr_db r)")
    with run True have r': "e = Inr ()" "r' = r\<lparr>rr_db := db'\<rparr>"
      by (auto simp: recover_commit_def Let_def split: sum.splits)
    from delete_own_intent [OF del wf i] r' True show ?thesis by (simp add: recovered_ok_def)
  next
    case False
    have st: "ci_status i = IcebergCommitPrepared \<or> ci_status i = IcebergCommitCommitted"
      and p: "proveIcebergIntent E i = None" and own: "ge_own G n (rr_db r) = None"
      using run False by (auto simp: recover_commit_def Let_def split: if_splits option.splits)
    obtain e1 s1 where rec: "(if ?cov then (None, rr_state r) else retainRecoveryReceipt (rn_codec E) i off (rr_state r)) = (e1, s1)"
      by (cases "if ?cov then (None, rr_state r) else retainRecoveryReceipt (rn_codec E) i off (rr_state r)")
    obtain e2 db1 where mark: "(if ci_status i = IcebergCommitPrepared
        then io_mark (ge_ops G (n + 1)) (ci_state_key i) ?op (rr_db r) else (Inr (), rr_db r)) = (e2, db1)"
      by (cases "if ci_status i = IcebergCommitPrepared
        then io_mark (ge_ops G (n + 1)) (ci_state_key i) ?op (rr_db r) else (Inr (), rr_db r)")
    have body: "(None, r') =
       (case e1 of Some e \<Rightarrow> (Some (permanent (wrap_error ''Iceberg recovery BLOCKED: '' (new_error e))), r\<lparr>rr_state := s1\<rparr>)
        | None \<Rightarrow> (case e2 of Inl e \<Rightarrow> (Some (permanent (wrap_error ''persist proven Iceberg outcome: '' (from_meta e))), r\<lparr>rr_state := s1, rr_db := db1\<rparr>)
            | Inr u \<Rightarrow> if recoverableMetadataOperation (ci_operation i) \<or> ?cov
                then (case io_delete (ge_ops G (n + 2)) (ci_state_key i) ?op db1 of
                  (Inl e, db2) \<Rightarrow> (Some (permanent (from_meta e)), r\<lparr>rr_state := s1, rr_db := db2\<rparr>)
                | (Inr _, db2) \<Rightarrow> (None, r\<lparr>rr_state := s1, rr_db := db2\<rparr>))
                else (None, r\<lparr>rr_state := s1, rr_db := db1\<rparr>)))"
      using run unfolding recover_commit_def Let_def p own rec recovery_run.simps
      using False st mark by (auto split: option.splits sum.splits prod.splits if_splits)
    then have e1: "e1 = None" and e2: "e2 = Inr ()" by (auto split: option.splits sum.splits)
    have m: "db_wf db1 \<and> find_intent ?op db1 = Some ?ic \<and> (\<forall>q. q \<noteq> ?op \<longrightarrow> find_intent q db1 = find_intent q (rr_db r))"
    proof (cases "ci_status i = IcebergCommitPrepared")
      case True
      with mark e2 have "io_mark (ge_ops G (n + 1)) (ci_state_key i) ?op (rr_db r) = (Inr (), db1)" by simp
      from intent_log.mark_ok [OF ops wf this] i(1) show ?thesis by auto
    next
      case np: False
      with st have "?ic = i" by simp
      with np mark wf i(1) show ?thesis by auto
    qed
    have loaded: "set (rs_loaded (rr_state r)) \<subseteq> set (rs_loaded s1)" "\<not> ?cov \<longrightarrow> ?op \<in> set (rs_loaded s1)"
      using rec e1 retainRecoveryReceipt_loaded by (auto split: if_splits)
    show ?thesis
    proof (cases "recoverableMetadataOperation (ci_operation i) \<or> ?cov")
      case True
      obtain e3 db2 where del: "io_delete (ge_ops G (n + 2)) (ci_state_key i) ?op db1 = (e3, db2)"
        by (cases "io_delete (ge_ops G (n + 2)) (ci_state_key i) ?op db1")
      with body True e1 e2 have r': "e3 = Inr ()" "r' = r\<lparr>rr_state := s1, rr_db := db2\<rparr>"
        by (auto split: sum.splits)
      have "ci_state_key ?ic = ci_state_key i" by simp
      with delete_own_intent [OF del, of ?ic] m have "db_wf db2 \<and> (\<forall>q. q \<noteq> ?op \<longrightarrow> find_intent q db2 = find_intent q db1) \<and>
          find_intent ?op db2 = None" using r'(1) by auto
      with m r' loaded p True show ?thesis by (auto simp: recovered_ok_def)
    next
      case nd: False
      with body e1 e2 have "r' = r\<lparr>rr_state := s1, rr_db := db1\<rparr>" by simp
      with m loaded p nd show ?thesis by (auto simp: recovered_ok_def)
    qed
  qed
qed

lemma recovered_ok_mono:
  "recovered_ok E off progress snapshot i a st \<Longrightarrow> set (rs_loaded st) \<subseteq> set (rs_loaded st') \<Longrightarrow>
     recovered_ok E off progress snapshot i a st'"
  by (auto simp: recovered_ok_def Let_def)

lemma recover_all_effect:
  assumes "recover_all G E query n off progress snapshot is r = (None, r')" "db_wf (rr_db r)"
    "distinct (map ci_operation_id is)"
    "\<forall>i \<in> set is. find_intent (ci_operation_id i) (rr_db r) = Some i \<and> ci_state_key i = checkpointKey E \<and> ci_kind i \<noteq> ''rebuild''"
  shows "db_wf (rr_db r') \<and> (\<forall>q. q \<notin> ci_operation_id ` set is \<longrightarrow> find_intent q (rr_db r') = find_intent q (rr_db r)) \<and>
    set (rs_loaded (rr_state r)) \<subseteq> set (rs_loaded (rr_state r')) \<and>
    (\<forall>i \<in> set is. recovered_ok E off progress snapshot i (find_intent (ci_operation_id i) (rr_db r')) (rr_state r'))"
  using assms
proof (induction "is" arbitrary: n r)
  case (Cons i "is")
  let ?r0 = "r\<lparr>rr_operation := ci_operation_id i\<rparr>"
  obtain r1 where one: "recover_one G E query n off progress snapshot i r = (None, r1)"
    and rest: "recover_all G E query (n + 10) off progress snapshot is r1 = (None, r')"
    using Cons.prems(1) by (auto split: prod.splits option.splits)
  have commit: "recover_commit G E n off progress snapshot i ?r0 = (None, r1)"
    using one Cons.prems(4) by (simp add: recover_one_def Let_def split: if_splits)
  have eff: "db_wf (rr_db r1) \<and> (\<forall>q. q \<noteq> ci_operation_id i \<longrightarrow> find_intent q (rr_db r1) = find_intent q (rr_db r)) \<and>
    set (rs_loaded (rr_state r)) \<subseteq> set (rs_loaded (rr_state r1)) \<and>
    recovered_ok E off progress snapshot i (find_intent (ci_operation_id i) (rr_db r1)) (rr_state r1)"
    using recover_commit_effect [OF commit] Cons.prems(2,4) by simp
  have others: "\<forall>j \<in> set is. find_intent (ci_operation_id j) (rr_db r1) = Some j \<and> ci_state_key j = checkpointKey E \<and> ci_kind j \<noteq> ''rebuild''"
  proof
    fix j assume j: "j \<in> set is"
    then have "ci_operation_id j \<noteq> ci_operation_id i" using Cons.prems(3) by (metis distinct.simps(2) image_eqI list.simps(9) set_map)
    with j eff Cons.prems(4) show "find_intent (ci_operation_id j) (rr_db r1) = Some j \<and> ci_state_key j = checkpointKey E \<and> ci_kind j \<noteq> ''rebuild''"
      by simp
  qed
  have d: "distinct (map ci_operation_id is)" "ci_operation_id i \<notin> ci_operation_id ` set is" using Cons.prems(3) by auto
  from eff have wf1: "db_wf (rr_db r1)" by blast
  note ih = Cons.IH [OF rest wf1 d(1) others]
  then have "find_intent (ci_operation_id i) (rr_db r') = find_intent (ci_operation_id i) (rr_db r1)" using d(2) by blast
  with eff ih have "recovered_ok E off progress snapshot i (find_intent (ci_operation_id i) (rr_db r')) (rr_state r')"
    using recovered_ok_mono by metis
  with ih eff show ?case by auto
qed simp

lemma check_recovery:
  assumes run: "checkIcebergRecovery G c reload query False r = (None, r')" and wf: "db_wf (rr_db r)"
    and kinds: "\<forall>q i. find_intent q (rr_db r) = Some i \<and> ci_state_key i = checkpointKey (ge_env G) \<longrightarrow> ci_kind i \<noteq> ''rebuild''"
    and i: "find_intent (ci_operation_id i) (rr_db r) = Some i" "ci_state_key i = checkpointKey (ge_env G)"
  shows "recovered_ok (env_at G c) (GetOffset (checkpointKey (ge_env G)) (rr_db r))
      (GetSnapshotProgress (checkpointKey (ge_env G)) (rr_db r)) (GetSnapshotState (checkpointKey (ge_env G)) (rr_db r))
      i (find_intent (ci_operation_id i) (rr_db r')) (rr_state r') \<and>
    (\<forall>q j. find_intent q (rr_db r) = Some j \<and> ci_state_key j \<noteq> checkpointKey (ge_env G) \<longrightarrow> find_intent q (rr_db r') = Some j)"
proof -
  let ?E = "env_at G c" and ?key = "checkpointKey (ge_env G)" and ?db = "rr_db r"
  have key: "checkpointKey ?E = ?key" by (simp add: env_at_def checkpointKey_def)
  obtain intents where list: "io_list (ge_ops G 0) ?key ?db = Inr intents"
    using run unfolding checkIcebergRecovery_def Let_def key by (auto split: option.splits if_splits sum.splits)
  have mem: "j \<in> set intents \<longleftrightarrow> find_intent (ci_operation_id j) ?db = Some j \<and> ci_state_key j = ?key" for j
    by (rule intent_log.list_sound [OF ops list wf])
  have ne: "intents \<noteq> []" using mem [of i] i by auto
  let ?r0 = "r\<lparr>rr_targets := [], rr_evidence := []\<rparr>"
  have all: "recover_all G ?E query 10 (GetOffset ?key ?db) (GetSnapshotProgress ?key ?db) (GetSnapshotState ?key ?db) intents ?r0 = (None, r')"
    using run list ne unfolding checkIcebergRecovery_def Let_def key
    by (auto split: option.splits if_splits prod.splits)
  have eff: "(\<forall>q. q \<notin> ci_operation_id ` set intents \<longrightarrow> find_intent q (rr_db r') = find_intent q ?db) \<and>
    (\<forall>i \<in> set intents. recovered_ok ?E (GetOffset ?key ?db) (GetSnapshotProgress ?key ?db) (GetSnapshotState ?key ?db) i
       (find_intent (ci_operation_id i) (rr_db r')) (rr_state r'))"
  proof -
    have "\<forall>j \<in> set intents. find_intent (ci_operation_id j) (rr_db ?r0) = Some j \<and> ci_state_key j = checkpointKey ?E \<and>
        ci_kind j \<noteq> ''rebuild''"
      using mem kinds by (auto simp: key)
    from recover_all_effect [OF all _ intent_log.list_distinct [OF ops list wf] this] wf show ?thesis by simp
  qed
  have "find_intent q (rr_db r') = Some j" if j: "find_intent q ?db = Some j" "ci_state_key j \<noteq> ?key" for q j
  proof -
    have "q \<notin> ci_operation_id ` set intents"
    proof
      assume "q \<in> ci_operation_id ` set intents"
      then obtain k where "k \<in> set intents" "ci_operation_id k = q" by blast
      with mem [of k] j show False by simp
    qed
    with eff j(1) show ?thesis by simp
  qed
  with eff mem [of i] i show ?thesis by blast
qed

lemma check_recovery_counts:
  assumes run: "checkIcebergRecovery G c reload query False r = (None, r')" and wf: "db_wf (rr_db r)"
    and kinds: "\<forall>q i. find_intent q (rr_db r) = Some i \<and> ci_state_key i = checkpointKey (ge_env G) \<longrightarrow> ci_kind i \<noteq> ''rebuild''"
    and i: "find_intent (ci_operation_id i) (rr_db r) = Some i" "ci_state_key i = checkpointKey (ge_env G)"
  defines "off \<equiv> GetOffset (checkpointKey (ge_env G)) (rr_db r)"
    and "progress \<equiv> GetSnapshotProgress (checkpointKey (ge_env G)) (rr_db r)"
    and "snapshot \<equiv> GetSnapshotState (checkpointKey (ge_env G)) (rr_db r)"
  shows "(\<forall>k. rs_events (rr_state r') k = rs_events (rr_state r) k +
      (\<Sum>j \<in> {j. find_intent (ci_operation_id j) (rr_db r) = Some j \<and> ci_state_key j = checkpointKey (ge_env G)}.
         open_events (rn_codec (ge_env G)) off progress snapshot (rs_loaded (rr_state r)) k j)) \<and>
    (icebergIntentCovered i off progress snapshot \<or> ci_operation_id i \<in> set (rs_loaded (rr_state r)) \<or>
       i \<in> set (rs_intents (rr_state r')))"
proof -
  let ?E = "env_at G c" and ?key = "checkpointKey (ge_env G)" and ?db = "rr_db r"
  have key: "checkpointKey ?E = ?key" "rn_codec ?E = rn_codec (ge_env G)" by (simp_all add: env_at_def checkpointKey_def)
  obtain intents where list: "io_list (ge_ops G 0) ?key ?db = Inr intents"
    using run unfolding checkIcebergRecovery_def Let_def key by (auto split: option.splits if_splits sum.splits)
  have mem: "j \<in> set intents \<longleftrightarrow> find_intent (ci_operation_id j) ?db = Some j \<and> ci_state_key j = ?key" for j
    by (rule intent_log.list_sound [OF ops list wf])
  have ne: "intents \<noteq> []" using mem [of i] i by auto
  let ?r0 = "r\<lparr>rr_targets := [], rr_evidence := []\<rparr>"
  have all: "recover_all G ?E query 10 off progress snapshot intents ?r0 = (None, r')"
    using run list ne unfolding checkIcebergRecovery_def Let_def key off_def progress_def snapshot_def
    by (auto split: option.splits if_splits prod.splits)
  have d: "distinct (map ci_operation_id intents)" by (rule intent_log.list_distinct [OF ops list wf])
  have "\<forall>j \<in> set intents. ci_kind j \<noteq> ''rebuild''" using mem kinds by blast
  note eff = recover_all_counts [OF all d this, unfolded key]
  have "set intents = {j. find_intent (ci_operation_id j) ?db = Some j \<and> ci_state_key j = ?key}" using mem by blast
  then have "sum_list (map f intents) = (\<Sum>j \<in> {j. find_intent (ci_operation_id j) ?db = Some j \<and> ci_state_key j = ?key}. f j)"
    for f :: "commit_intent \<Rightarrow> int"
    using d by (metis distinct_map sum_list_distinct_conv_sum_set)
  then show ?thesis using eff mem [of i] i by simp
qed

end

lemma settles_change:
  "settles E d a b \<Longrightarrow> b \<noteq> a \<Longrightarrow> \<exists>j. a = Some j \<and> proveIcebergIntent E j = None \<and>
     (b = Some (j\<lparr>ci_status := IcebergCommitCommitted\<rparr>) \<or> d \<and> b = None)"
  unfolding settles_def by blast

section \<open>The stores of the program\<close>

text \<open>
  A managed sink works on a fenced store: every call goes through \<open>fence_write\<close> with its own clock
  readings, and the ownership check is the same query. An unmanaged one uses the plain MySQL store.
\<close>

definition fenced_env :: "'c guard_env \<Rightarrow> worker_ownership \<Rightarrow> (nat \<Rightarrow> int) \<Rightarrow> (nat \<Rightarrow> int) \<Rightarrow> 'c guard_env" where
  "fenced_env G own t u = G\<lparr>ge_store := None, ge_ops := (\<lambda>n. fenced_intents own (t n) (u n)),
     ge_own := (\<lambda>n db. case CheckOwnership None (Some (own, t n)) db of Inl e \<Rightarrow> Some (from_meta e) | Inr _ \<Rightarrow> None)\<rparr>"

definition mysql_env :: "'c guard_env \<Rightarrow> (nat \<Rightarrow> int) \<Rightarrow> 'c guard_env" where
  "mysql_env G now = G\<lparr>ge_store := None, ge_ops := (\<lambda>n. mysql_intents (now n)), ge_own := (\<lambda>n db. None)\<rparr>"

interpretation fenced_sink: commit_store "fenced_env G own t u" for G own t u
  by (rule commit_store.intro) (simp add: fenced_env_def fenced.intent_log_axioms)

interpretation mysql_sink: commit_store "mysql_env G now" for G now
  by (rule commit_store.intro) (simp add: mysql_env_def mysql.intent_log_axioms)


text \<open>
  C2: around every catalog write of a managed sink. If the catalog changed, the intent of the operation
  is afterwards still stored, PREPARED or COMMITTED, unless it was an internal operation that was
  settled. Success means the intent is COMMITTED (or, internal, cleaned up). Any error other than a
  permanent one, so any error a caller may retry, means that the catalog did not change and no intent
  is left. Intents of other operations are untouched. The callback reports a preparation failure or a
  rejected commit only when the catalog accepted nothing.
\<close>

theorem guarded_commit_durable:
  assumes run: "guardedIcebergCommit (fenced_env G own t u) b p op_id fn db c = (res, db', c')" and wf: "db_wf db"
    and contract: "\<forall>i e c1. fn i c = (Some e, c1) \<and>
        (err_is TPreparation e \<or> err_is TCommitFailed e \<and> \<not> IsPermanent e) \<longrightarrow> c1 = c"
  shows "(c' \<noteq> c \<longrightarrow> (\<exists>i. commit_intent_for (fenced_env G own t u) b p op_id = Inr i \<and>
      ((\<exists>s \<in> {IcebergCommitPrepared, IcebergCommitCommitted}. find_intent op_id db' = Some (i\<lparr>ci_status := s\<rparr>)) \<or>
       ci_kind i = ''internal'' \<and> find_intent op_id db' = None))) \<and>
    (res = None \<longrightarrow> (\<exists>i. commit_intent_for (fenced_env G own t u) b p op_id = Inr i \<and> find_intent op_id db' =
      (if ci_kind i = ''internal'' then None else Some (i\<lparr>ci_status := IcebergCommitCommitted\<rparr>)))) \<and>
    (\<forall>e. res = Some e \<and> \<not> IsPermanent e \<longrightarrow> c' = c \<and> find_intent op_id db' = None) \<and>
    (\<forall>q. q \<noteq> op_id \<longrightarrow> find_intent q db' = find_intent q db)"
proof -
  note g = fenced_sink.guarded_commit [OF run wf contract]
  then have others: "\<forall>q. q \<noteq> op_id \<longrightarrow> find_intent q db' = find_intent q db" by blast
  from g consider e where "res = Some e" "IsPermanent e" "c' = c"
    | i where "commit_intent_for (fenced_env G own t u) b p op_id = Inr i"
        "commit_outcome i (find_intent op_id db') res (c' \<noteq> c)" by blast
  then show ?thesis
  proof cases
    case 1
    with others show ?thesis by simp
  next
    case 2
    with others show ?thesis unfolding commit_outcome_def by blast
  qed
qed

definition sample_guard :: "nat guard_env" where
  "sample_guard = \<lparr>ge_env = sample_env, ge_load = (\<lambda>_ _. Inr sample_table), ge_store = None, ge_ops = (\<lambda>_. mysql_intents 0),
     ge_own = (\<lambda>_ _. None), ge_policy = Some \<lparr>rp_attempts = 2, rp_base = 1, rp_max = 1\<rparr>, ge_cancel = (\<lambda>_. None),
     ge_table_uuid = (\<lambda>_. None)\<rparr>"

definition sample_own :: worker_ownership where
  "sample_own = \<lparr>wo_job = ''a'', wo_submission = ''s1'', wo_owner = ''w1'', wo_state_key = ''k''\<rparr>"

definition sample_progress :: commit_progress where
  "sample_progress = \<lparr>cp_operation = ''append'', cp_source = ''db.t'', cp_namespace = ''ns'', cp_table = ''t'', cp_recoverable = True\<rparr>"

definition owned_db :: "(int \<times> commit_intent) list \<Rightarrow> meta_db" where
  "owned_db intents = (sample_db [sample_row ''a'' DesiredStateRunning (Some ''w1'') (Some 50) ''RUNNING''])\<lparr>db_intents := intents\<rparr>"

lemma guarded_commit_durable_witness:
  "\<exists>db' i. guardedIcebergCommit (fenced_env sample_guard sample_own (\<lambda>_. 10) (\<lambda>_. 10)) (Some (snapshotIcebergBatch ''db.t'' 0 10))
      sample_progress ''op1'' (\<lambda>i c. (None, Suc c)) (owned_db []) 0 = (None, db', 1) \<and>
     find_intent ''op1'' db' = Some i \<and> ci_status i = IcebergCommitCommitted"
proof -
  let ?run = "guardedIcebergCommit (fenced_env sample_guard sample_own (\<lambda>_. 10) (\<lambda>_. 10)) (Some (snapshotIcebergBatch ''db.t'' 0 10))
      sample_progress ''op1'' (\<lambda>i c. (None, Suc c)) (owned_db []) 0"
  have "fst ?run = None" "snd (snd ?run) = 1" by code_simp+
  then have run: "?run = (None, fst (snd ?run), 1)" by (metis prod.collapse)
  have wf: "db_wf (owned_db [])" by (simp add: db_wf_def owned_db_def sample_db_def)
  have k: "ci_kind i \<noteq> ''internal''" if "commit_intent_for (fenced_env sample_guard sample_own (\<lambda>_. 10) (\<lambda>_. 10))
      (Some (snapshotIcebergBatch ''db.t'' 0 10)) sample_progress ''op1'' = Inr i" for i
    using that by (auto simp: commit_intent_for_def Let_def fenced_env_def sample_guard_def sample_env_def new_intent_def
        named_batch_def snapshotIcebergBatch_def)
  from guarded_commit_durable [OF run wf] obtain i where "commit_intent_for (fenced_env sample_guard sample_own (\<lambda>_. 10) (\<lambda>_. 10))
      (Some (snapshotIcebergBatch ''db.t'' 0 10)) sample_progress ''op1'' = Inr i"
    "find_intent ''op1'' (fst (snd ?run)) = (if ci_kind i = ''internal'' then None else Some (i\<lparr>ci_status := IcebergCommitCommitted\<rparr>))"
    by auto
  with k [of i] run show ?thesis by (intro exI [of _ "fst (snd ?run)"] exI [of _ "i\<lparr>ci_status := IcebergCommitCommitted\<rparr>"]) simp
qed

text \<open>
  Settling an operation of unknown outcome never writes to the catalog and never guesses. Only the
  intent of that operation can change, and only when the catalog proves it was accepted; the result is
  then COMMITTED, or an internal intent is cleaned up. Success is reported only with that proof;
  everything else is a permanent error, which the caller does not retry.
\<close>

theorem unknown_outcome_needs_proof:
  assumes "recoverUnknownCommit (fenced_env G own t u) i p original c db = (res, db')" "db_wf db" "IsPermanent original"
  shows "(find_intent (ci_operation_id i) db' \<noteq> find_intent (ci_operation_id i) db \<or> res = None \<longrightarrow>
      (\<exists>j. find_intent (ci_operation_id i) db = Some j \<and> proveIcebergIntent (env_at (fenced_env G own t u) c) j = None \<and>
         (find_intent (ci_operation_id i) db' = Some (j\<lparr>ci_status := IcebergCommitCommitted\<rparr>) \<or>
          ci_kind i = ''internal'' \<and> find_intent (ci_operation_id i) db' = None))) \<and>
    (\<forall>q. q \<noteq> ci_operation_id i \<longrightarrow> find_intent q db' = find_intent q db) \<and>
    (\<forall>e. res = Some e \<longrightarrow> IsPermanent e)"
proof -
  note s = fenced_sink.recoverUnknownCommit_settles [OF assms]
  then have set: "settles (env_at (fenced_env G own t u) c) (ci_kind i = ''internal'') (find_intent (ci_operation_id i) db)
      (find_intent (ci_operation_id i) db')" by (simp add: db_settles_def)
  have "\<exists>j. find_intent (ci_operation_id i) db = Some j \<and> proveIcebergIntent (env_at (fenced_env G own t u) c) j = None \<and>
         (find_intent (ci_operation_id i) db' = Some (j\<lparr>ci_status := IcebergCommitCommitted\<rparr>) \<or>
          ci_kind i = ''internal'' \<and> find_intent (ci_operation_id i) db' = None)" if "res = None"
  proof -
    from s that obtain j where "find_intent (ci_operation_id i) db = Some j"
      "proveIcebergIntent (env_at (fenced_env G own t u) c) j = None"
      "find_intent (ci_operation_id i) db' = (if ci_kind i = ''internal'' then None else Some (j\<lparr>ci_status := IcebergCommitCommitted\<rparr>))"
      by blast
    then show ?thesis by (cases "ci_kind i = ''internal''") simp_all
  qed
  moreover note settles_change [OF set]
  ultimately show ?thesis using s unfolding db_settles_def by blast
qed

lemma unknown_outcome_needs_proof_witness:
  "\<exists>i db'. commit_intent_for sample_guard (Some (snapshotIcebergBatch ''db.t'' 0 10)) sample_progress ''o'' = Inr i \<and>
     recoverUnknownCommit (fenced_env sample_guard sample_own (\<lambda>_. 10) (\<lambda>_. 10)) i sample_progress
       (permanent (new_error ''timeout'')) 0 (owned_db [(1, i)]) = (None, db') \<and>
     map_option ci_status (find_intent ''o'' db') = Some IcebergCommitCommitted"
proof -
  let ?i = "new_intent sample_env (snapshotIcebergBatch ''db.t'' 0 10) sample_progress ''o''"
  let ?G = "fenced_env sample_guard sample_own (\<lambda>_. 10) (\<lambda>_. 10)"
  let ?run = "recoverUnknownCommit ?G ?i sample_progress (permanent (new_error ''timeout'')) 0 (owned_db [(1, ?i)])"
  have i: "commit_intent_for sample_guard (Some (snapshotIcebergBatch ''db.t'' 0 10)) sample_progress ''o'' = Inr ?i"
    by (simp add: commit_intent_for_def Let_def sample_guard_def sample_env_def named_batch_def snapshotIcebergBatch_def)
  have "fst ?run = None" by code_simp
  then have run: "?run = (None, snd ?run)" by (metis prod.collapse)
  have wf: "db_wf (owned_db [(1, ?i)])" by (simp add: db_wf_def owned_db_def sample_db_def)
  have o: "ci_operation_id ?i = ''o''" "ci_kind ?i \<noteq> ''internal''" by (simp_all add: new_intent_def snapshotIcebergBatch_def)
  from unknown_outcome_needs_proof [OF run wf IsPermanent_permanent] o
  obtain j where "find_intent ''o'' (snd ?run) = Some (j\<lparr>ci_status := IcebergCommitCommitted\<rparr>)" by auto
  with i run show ?thesis by (intro exI conjI) (assumption, assumption, simp)
qed

text \<open>
  C17: when startup reconciliation lets replay begin, the outcome of every intent of the job's state is
  settled: each was proven by the catalog (or was COMMITTED and covered by the checkpoint already); those
  whose data the durable checkpoint covers, and metadata operations, are gone; every other is COMMITTED and
  is kept as a receipt (unless it was installed before). The receipts count what must not be written again:
  for every replay key the number of events to skip has grown by exactly the events with that key, not yet
  covered by the checkpoint, in the manifests of all the uncovered CDC commits. Intents of other states are
  untouched. (Statements of a scoped rebuild, which have their own evidence, are excluded.)
\<close>

theorem startup_recovery_settles_intents:
  assumes "checkIcebergRecovery (fenced_env G own t u) c reload query False r = (None, r')" "db_wf (rr_db r)"
    and "\<forall>q i. find_intent q (rr_db r) = Some i \<and> ci_state_key i = checkpointKey (ge_env G) \<longrightarrow> ci_kind i \<noteq> ''rebuild''"
    and "find_intent (ci_operation_id i) (rr_db r) = Some i" "ci_state_key i = checkpointKey (ge_env G)"
  shows "let key = checkpointKey (ge_env G); off = GetOffset key (rr_db r);
      is_covered = (\<lambda>j. icebergIntentCovered j off (GetSnapshotProgress key (rr_db r)) (GetSnapshotState key (rr_db r)));
      covered = is_covered i in
    (ci_status i = IcebergCommitCommitted \<and> covered \<or> proveIcebergIntent (env_at (fenced_env G own t u) c) i = None) \<and>
    find_intent (ci_operation_id i) (rr_db r') =
      (if covered \<or> recoverableMetadataOperation (ci_operation i) then None
       else Some (i\<lparr>ci_status := IcebergCommitCommitted\<rparr>)) \<and>
    (\<not> covered \<longrightarrow> ci_operation_id i \<in> set (rs_loaded (rr_state r')) \<and>
       (ci_operation_id i \<in> set (rs_loaded (rr_state r)) \<or> i \<in> set (rs_intents (rr_state r')))) \<and>
    (\<forall>k. rs_events (rr_state r') k = rs_events (rr_state r) k +
       (\<Sum>j \<in> {j. find_intent (ci_operation_id j) (rr_db r) = Some j \<and> ci_state_key j = key}.
          if is_covered j \<or> ci_operation_id j \<in> set (rs_loaded (rr_state r)) \<or>
             \<not> recoverableDataOperation (ci_operation j) \<or> ci_kind j \<noteq> ''cdc'' then 0
          else case decodeIcebergReplayEvents (rn_codec (ge_env G)) j of
            Inl e \<Rightarrow> 0
          | Inr evs \<Rightarrow> int (length (filter (\<lambda>ev. re_key ev = k \<and> \<not> checkpoint_covers_event off ev) evs)))) \<and>
    (\<forall>q j. find_intent q (rr_db r) = Some j \<and> ci_state_key j \<noteq> key \<longrightarrow> find_intent q (rr_db r') = Some j)"
proof -
  have k: "checkpointKey (ge_env (fenced_env G own t u)) = checkpointKey (ge_env G)"
    "rn_codec (ge_env (fenced_env G own t u)) = rn_codec (ge_env G)" by (simp_all add: fenced_env_def)
  have spell: "open_events C off p sn loaded k j =
      (if icebergIntentCovered j off p sn \<or> ci_operation_id j \<in> set loaded \<or>
         \<not> recoverableDataOperation (ci_operation j) \<or> ci_kind j \<noteq> ''cdc'' then 0
       else case decodeIcebergReplayEvents C j of
            Inl e \<Rightarrow> 0
          | Inr evs \<Rightarrow> int (length (filter (\<lambda>ev. re_key ev = k \<and> \<not> checkpoint_covers_event off ev) evs)))" for C off p sn loaded k j
    by (simp add: open_events_def receipt_events_def)
  have pick: "a = (if P then x else y)" if "if P then a = x else a = y" for a x y :: "commit_intent option" and P
    using that by simp
  note A = fenced_sink.check_recovery [OF assms(1,2), unfolded k, OF assms(3-5), unfolded recovered_ok_def Let_def]
    and B = fenced_sink.check_recovery_counts [OF assms(1,2), unfolded k, OF assms(3-5), unfolded spell]
  note A1 = conjunct1 [OF conjunct1 [OF A]] and A2 = conjunct1 [OF conjunct2 [OF conjunct1 [OF A]]]
    and A3 = conjunct2 [OF conjunct2 [OF conjunct1 [OF A]]] and A4 = conjunct2 [OF A]
  show ?thesis unfolding Let_def
  proof (intro conjI impI)
    show "find_intent (ci_operation_id i) (rr_db r') =
      (if icebergIntentCovered i (GetOffset (checkpointKey (ge_env G)) (rr_db r)) (GetSnapshotProgress (checkpointKey (ge_env G)) (rr_db r))
          (GetSnapshotState (checkpointKey (ge_env G)) (rr_db r)) \<or> recoverableMetadataOperation (ci_operation i) then None
       else Some (i\<lparr>ci_status := IcebergCommitCommitted\<rparr>))" by (rule pick [OF A2])
  qed (rule A1 A4 mp [OF A3] conjunct1 [OF B] disjE [OF conjunct2 [OF B]]; (assumption | blast)?)+
qed

definition sample_run :: "(int \<times> commit_intent) list \<Rightarrow> recovery_run" where
  "sample_run intents = \<lparr>rr_db = owned_db intents, rr_state = empty_recovery, rr_operation = [], rr_targets = [],
     rr_evidence = [], rr_merges = []\<rparr>"

lemma startup_recovery_settles_intents_witness:
  "let run = checkIcebergRecovery (fenced_env sample_guard sample_own (\<lambda>_. 10) (\<lambda>_. 10)) 0 (\<lambda>_. Inr sample_table)
      (\<lambda>_. TrinoStatus 404) False (sample_run [(1, sample_intent ''o'' IcebergCommitPrepared)]) in
     fst run = None \<and> map_option ci_status (find_intent ''o'' (rr_db (snd run))) = Some IcebergCommitCommitted"
proof -
  let ?i = "sample_intent ''o'' IcebergCommitPrepared"
  let ?r = "sample_run [(1, ?i)]"
  let ?run = "checkIcebergRecovery (fenced_env sample_guard sample_own (\<lambda>_. 10) (\<lambda>_. 10)) 0 (\<lambda>_. Inr sample_table)
      (\<lambda>_. TrinoStatus 404) False ?r"
  have ok: "fst ?run = None" by code_simp
  then have run: "?run = (None, snd ?run)" by (metis prod.collapse)
  have wf: "db_wf (rr_db ?r)" by (simp add: db_wf_def sample_run_def owned_db_def sample_db_def)
  have fi: "find_intent q (rr_db ?r) = (if q = ''o'' then Some ?i else None)" for q
    by (simp add: find_intent_def sample_run_def owned_db_def sample_db_def table_simps) (simp add: sample_intent_def)
  have key: "checkpointKey (ge_env sample_guard) = ''k''" by code_simp
  have sel: "ci_operation_id ?i = ''o''" "ci_state_key ?i = ''k''" "ci_kind ?i = ''snapshot''" "ci_operation ?i = ''append''"
    by (simp_all add: sample_intent_def)
  have kinds: "\<forall>q i. find_intent q (rr_db ?r) = Some i \<and> ci_state_key i = checkpointKey (ge_env sample_guard) \<longrightarrow> ci_kind i \<noteq> ''rebuild''"
    by (auto simp: fi sel split: if_splits)
  have i: "find_intent (ci_operation_id ?i) (rr_db ?r) = Some ?i" "ci_state_key ?i = checkpointKey (ge_env sample_guard)"
    by (simp_all add: fi sel key)
  have nc: "\<not> icebergIntentCovered ?i (GetOffset ''k'' (rr_db ?r)) (GetSnapshotProgress ''k'' (rr_db ?r)) (GetSnapshotState ''k'' (rr_db ?r))"
    by code_simp
  have nm: "\<not> recoverableMetadataOperation ''append''" by (simp add: recoverableMetadataOperation_def)
  from startup_recovery_settles_intents [OF run wf kinds i] nc nm
  have "find_intent ''o'' (rr_db (snd ?run)) = Some (?i\<lparr>ci_status := IcebergCommitCommitted\<rparr>)"
    unfolding key Let_def sel by simp
  with ok show ?thesis by (simp add: Let_def)
qed

section \<open>Cleanup behind a live checkpoint\<close>

context commit_store
begin

lemma cleanup_loop_effect:
  assumes "cleanup_loop G key off n is db = (res, db')" "db_wf db"
  shows "db_wf db' \<and>
    (\<forall>q j. find_intent q db = Some j \<longrightarrow> find_intent q db' = Some j \<or> find_intent q db' = None \<and>
       ci_state_key j = key \<and>
       (\<exists>i \<in> set is. ci_operation_id i = q \<and> ci_status i = IcebergCommitCommitted \<and> ci_kind i = ''cdc'' \<and> icebergIntentCovered i off None None)) \<and>
    (\<forall>q. find_intent q db = None \<longrightarrow> find_intent q db' = None) \<and>
    (res = None \<longrightarrow> (\<forall>i \<in> set is. ci_status i = IcebergCommitCommitted \<and> ci_kind i = ''cdc'' \<and> icebergIntentCovered i off None None \<longrightarrow>
       (\<forall>j. find_intent (ci_operation_id i) db = Some j \<and> ci_state_key j = key \<longrightarrow> find_intent (ci_operation_id i) db' = None)))"
  using assms
proof (induction "is" arbitrary: n db)
  case (Cons i "is")
  let ?c = "ci_status i = IcebergCommitCommitted \<and> ci_kind i = ''cdc'' \<and> icebergIntentCovered i off None None"
  show ?case
  proof (cases ?c)
    case False
    then have "cleanup_loop G key off n is db = (res, db')" using Cons.prems(1) by (auto split: if_splits)
    from Cons.IH [OF this Cons.prems(2)] False show ?thesis by auto
  next
    case True
    show ?thesis
    proof (cases "ge_own G n db")
      case (Some e)
      with True Cons.prems show ?thesis by auto
    next
      case None
      obtain r db1 where del: "io_delete (ge_ops G n) key (ci_operation_id i) db = (r, db1)"
        by (cases "io_delete (ge_ops G n) key (ci_operation_id i) db")
      show ?thesis
      proof (cases r)
        case (Inl e)
        with del intent_log.delete_err [OF ops] have "db1 = db" by blast
        with Inl del None True Cons.prems show ?thesis by auto
      next
        case (Inr u)
        have d: "db_wf db1 \<and> find_intent q db1 = (case find_intent q db of None \<Rightarrow> None
            | Some j \<Rightarrow> if q = ci_operation_id i \<and> ci_state_key j = key then None else Some j)" for q
          by (rule intent_log.delete_ok [OF ops Cons.prems(2) del [unfolded Inr]])
        have rest: "cleanup_loop G key off (Suc n) is db1 = (res, db')"
          using Cons.prems(1) True None del Inr by auto
        from d have wf1: "db_wf db1" by blast
        note ih = Cons.IH [OF rest wf1]
        have dead: "find_intent q db1 = None \<Longrightarrow> find_intent q db' = None" for q using ih by blast
        show ?thesis
        proof (intro conjI allI impI ballI)
          show "db_wf db'" using ih by blast
          fix q j assume q: "find_intent q db = Some j"
          show "find_intent q db' = Some j \<or> find_intent q db' = None \<and> ci_state_key j = key \<and>
             (\<exists>k \<in> set (i # is). ci_operation_id k = q \<and> ci_status k = IcebergCommitCommitted \<and> ci_kind k = ''cdc'' \<and> icebergIntentCovered k off None None)"
          proof (cases "q = ci_operation_id i \<and> ci_state_key j = key")
            case True
            with d [of q] q have "find_intent q db1 = None" by simp
            with dead True \<open>?c\<close> show ?thesis by auto
          next
            case False
            with d [of q] q have "find_intent q db1 = Some j" by auto
            with ih show ?thesis by auto
          qed
        next
          fix q assume "find_intent q db = None"
          with d [of q] dead show "find_intent q db' = None" by simp
        next
          fix k j assume r: "res = None" and k: "k \<in> set (i # is)"
            "ci_status k = IcebergCommitCommitted \<and> ci_kind k = ''cdc'' \<and> icebergIntentCovered k off None None"
            and j: "find_intent (ci_operation_id k) db = Some j \<and> ci_state_key j = key"
          show "find_intent (ci_operation_id k) db' = None"
          proof (cases "ci_operation_id k = ci_operation_id i")
            case True
            with d [of "ci_operation_id k"] j have "find_intent (ci_operation_id k) db1 = None" by simp
            then show ?thesis by (rule dead)
          next
            case False
            then have "k \<in> set is" using k(1) by auto
            moreover have "find_intent (ci_operation_id k) db1 = Some j" using d [of "ci_operation_id k"] j False by simp
            ultimately show ?thesis using ih r k(2) j by blast
          qed
        qed
      qed
    qed
  qed
qed auto

lemma cleanup_effect:
  assumes run: "cleanupCheckpointedIcebergCommits G off db = (res, db')" and wf: "db_wf db"
    and j: "find_intent q db = Some j"
  defines "done \<equiv> ci_state_key j = checkpointKey (ge_env G) \<and> ci_status j = IcebergCommitCommitted \<and> ci_kind j = ''cdc'' \<and>
      icebergIntentCovered j off None None"
  shows "(find_intent q db' = Some j \<or> find_intent q db' = None \<and> done) \<and> (res = None \<and> done \<longrightarrow> find_intent q db' = None)"
proof (cases "ge_own G 0 db \<noteq> None \<or> ge_store G \<noteq> None \<or> (\<exists>e. io_list (ge_ops G 0) (checkpointKey (ge_env G)) db = Inl e)")
  case True
  with run have "res \<noteq> None" "db' = db"
    by (auto simp: cleanupCheckpointedIcebergCommits_def split: option.splits sum.splits)
  with j show ?thesis by simp
next
  case False
  then obtain intents where list: "io_list (ge_ops G 0) (checkpointKey (ge_env G)) db = Inr intents"
    by (cases "io_list (ge_ops G 0) (checkpointKey (ge_env G)) db") auto
  with False run have loop: "cleanup_loop G (checkpointKey (ge_env G)) off 1 intents db = (res, db')"
    by (auto simp: cleanupCheckpointedIcebergCommits_def)
  have mem: "i \<in> set intents \<longleftrightarrow> find_intent (ci_operation_id i) db = Some i \<and> ci_state_key i = checkpointKey (ge_env G)" for i
    by (rule intent_log.list_sound [OF ops list wf])
  have op: "ci_operation_id j = q" using j find_intent_iff [OF wf] by blast
  note eff = cleanup_loop_effect [OF loop wf]
  have "i = j" if "i \<in> set intents" "ci_operation_id i = q" for i using mem [of i] that j by simp
  with eff j have "find_intent q db' = Some j \<or> find_intent q db' = None \<and> done" unfolding done_def by blast
  moreover have "find_intent q db' = None" if "res = None" "done"
  proof -
    have "j \<in> set intents" using mem [of j] op j that(2) by (simp add: done_def)
    moreover have "find_intent (ci_operation_id j) db = Some j" using j op by simp
    ultimately have "find_intent (ci_operation_id j) db' = None" using eff that unfolding done_def by blast
    then show ?thesis by (simp add: op)
  qed
  ultimately show ?thesis by blast
qed

end

text \<open>
  Cleaning up behind a live checkpoint forgets exactly the COMMITTED CDC intents of the sink's state
  that the checkpoint covers: nothing else ever goes, and when the cleanup reports success all of these
  are gone. A PREPARED intent, or one ending beyond the checkpoint, always survives.
\<close>

theorem cleanup_forgets_covered_only:
  assumes "cleanupCheckpointedIcebergCommits (fenced_env G own t u) off db = (res, db')" "db_wf db" "find_intent q db = Some j"
  shows "(find_intent q db' = Some j \<or> find_intent q db' = None) \<and>
    (find_intent q db' = None \<longrightarrow> ci_state_key j = checkpointKey (ge_env G) \<and> ci_status j = IcebergCommitCommitted \<and>
       ci_kind j = ''cdc'' \<and> icebergIntentCovered j off None None) \<and>
    (res = None \<and> ci_state_key j = checkpointKey (ge_env G) \<and> ci_status j = IcebergCommitCommitted \<and>
       ci_kind j = ''cdc'' \<and> icebergIntentCovered j off None None \<longrightarrow> find_intent q db' = None)"
proof -
  have k: "checkpointKey (ge_env (fenced_env G own t u)) = checkpointKey (ge_env G)" by (simp add: fenced_env_def)
  from fenced_sink.cleanup_effect [OF assms, unfolded k] show ?thesis by auto
qed

lemma cleanup_forgets_covered_only_witness:
  "let i = (sample_intent ''o'' IcebergCommitCommitted)\<lparr>ci_kind := ''cdc'', ci_source_end_file := ''f'', ci_source_end_pos := 6\<rparr>;
       run = cleanupCheckpointedIcebergCommits (fenced_env sample_guard sample_own (\<lambda>_. 10) (\<lambda>_. 10))
               (Some \<lparr>of_file = ''f'', of_pos = 7, of_updated = 0\<rparr>) (owned_db [(1, i)]) in
     fst run = None \<and> find_intent ''o'' (snd run) = None"
proof -
  let ?i = "(sample_intent ''o'' IcebergCommitCommitted)\<lparr>ci_kind := ''cdc'', ci_source_end_file := ''f'', ci_source_end_pos := 6\<rparr>"
  let ?off = "Some \<lparr>of_file = ''f'', of_pos = 7, of_updated = 0\<rparr>"
  let ?run = "cleanupCheckpointedIcebergCommits (fenced_env sample_guard sample_own (\<lambda>_. 10) (\<lambda>_. 10)) ?off (owned_db [(1, ?i)])"
  have ok: "fst ?run = None" by code_simp
  then have run: "?run = (None, snd ?run)" by (metis prod.collapse)
  have wf: "db_wf (owned_db [(1, ?i)])" by (simp add: db_wf_def owned_db_def sample_db_def)
  have fi: "find_intent ''o'' (owned_db [(1, ?i)]) = Some ?i"
    by (simp add: find_intent_def owned_db_def sample_db_def table_simps sample_intent_def)
  have cov: "icebergIntentCovered ?i ?off None None" by code_simp
  have key: "checkpointKey (ge_env sample_guard) = ''k''" by code_simp
  have sel: "ci_state_key ?i = ''k''" "ci_status ?i = IcebergCommitCommitted" "ci_kind ?i = ''cdc''" by (simp_all add: sample_intent_def)
  from cleanup_forgets_covered_only [OF run wf fi, unfolded key sel] cov ok show ?thesis by (simp add: Let_def)
qed

end
