(* ===== verification/Job_Progress.thy ===== *)
theory Job_Progress
  imports Offset_Store
begin

text \<open>
  What one process keeps of a job and how reports change it: the job record, its progress and its
  health (\<open>pkg/core/job.go\<close>, \<open>job_health.go\<close>, \<open>job_name.go\<close>, \<open>types.go\<close>). Every method holds the job's
  mutex while it reads or writes, so it is one function on the record. Times are nanoseconds; a zero
  time is \<open>None\<close>; the clock reading of a method is its argument. The calls a method makes to the
  registered listeners after it released the mutex are appended to \<open>jb_calls\<close>.

  The lemmas show that the reports of the source, of the sink and of the CDC monitor each own their part
  of the progress and leave the other parts alone.
\<close>

section \<open>Statuses\<close>

type_synonym job_status = string

abbreviation "JobStatusCreated \<equiv> ''CREATED''"
abbreviation "JobStatusQueued \<equiv> ''QUEUED''"
abbreviation "JobStatusPending \<equiv> ''PENDING''"
abbreviation "JobStatusRunning \<equiv> ''RUNNING''"
abbreviation "JobStatusPausing \<equiv> ''PAUSING''"
abbreviation "JobStatusPaused \<equiv> ''PAUSED''"
abbreviation "JobStatusFailed \<equiv> ''FAILED''"
abbreviation "JobStatusStopped \<equiv> ''STOPPED''"
abbreviation "JobStatusDone \<equiv> ''DONE''"

section \<open>Progress\<close>

record job_progress =
  pg_phase :: string
  pg_summary :: string
  pg_detail :: string
  pg_table :: string
  pg_table_index :: int
  pg_completed :: int
  pg_total :: int
  pg_table_rows :: int
  pg_start_file :: string
  pg_start_pos :: "32 word"
  pg_current_file :: string
  pg_current_pos :: "32 word"
  pg_checkpoint_file :: string
  pg_checkpoint_pos :: "32 word"
  pg_latest_file :: string
  pg_latest_pos :: "32 word"
  pg_lag_files :: int
  pg_earliest_file :: string
  pg_available_binlogs :: int
  pg_binlog_status :: string
  pg_pending :: bool
  pg_reason :: string
  pg_position :: string
  pg_pending_tables :: string
  pg_sink_phase :: string
  pg_sink_summary :: string
  pg_sink_detail :: string
  pg_sink_table :: string
  pg_sink_rows :: int
  pg_rec_status :: string
  pg_rec_operation :: string
  pg_rec_attempts :: int
  pg_rec_error :: string
  pg_rec_checkpoint :: string
  pg_rec_started :: string

text \<open>What a connector reports.\<close>

record progress_info =
  pi_rec_status :: string
  pi_rec_operation :: string
  pi_rec_attempts :: int
  pi_rec_error :: string
  pi_rec_checkpoint :: string
  pi_rec_started :: "int option"
  pi_phase :: string
  pi_summary :: string
  pi_detail :: string
  pi_table :: string
  pi_table_index :: int
  pi_completed :: int
  pi_total :: int
  pi_table_rows :: int
  pi_start_file :: string
  pi_start_pos :: "32 word"
  pi_current_file :: string
  pi_current_pos :: "32 word"
  pi_checkpoint_file :: string
  pi_checkpoint_pos :: "32 word"
  pi_latest_file :: string
  pi_latest_pos :: "32 word"
  pi_lag_files :: int
  pi_earliest_file :: string
  pi_available_binlogs :: int
  pi_binlog_status :: string
  pi_pending :: bool
  pi_reason :: string
  pi_position :: string
  pi_pending_tables :: string

definition zero_progress :: job_progress where
  "zero_progress =
     \<lparr>pg_phase = [], pg_summary = [], pg_detail = [], pg_table = [], pg_table_index = 0, pg_completed = 0,
      pg_total = 0, pg_table_rows = 0, pg_start_file = [], pg_start_pos = 0, pg_current_file = [],
      pg_current_pos = 0, pg_checkpoint_file = [], pg_checkpoint_pos = 0, pg_latest_file = [],
      pg_latest_pos = 0, pg_lag_files = 0, pg_earliest_file = [], pg_available_binlogs = 0,
      pg_binlog_status = [], pg_pending = False, pg_reason = [], pg_position = [], pg_pending_tables = [],
      pg_sink_phase = [], pg_sink_summary = [], pg_sink_detail = [], pg_sink_table = [], pg_sink_rows = 0,
      pg_rec_status = [], pg_rec_operation = [], pg_rec_attempts = 0, pg_rec_error = [],
      pg_rec_checkpoint = [], pg_rec_started = []\<rparr>"

definition zero_info :: progress_info where
  "zero_info =
     \<lparr>pi_rec_status = [], pi_rec_operation = [], pi_rec_attempts = 0, pi_rec_error = [],
      pi_rec_checkpoint = [], pi_rec_started = None, pi_phase = [], pi_summary = [], pi_detail = [],
      pi_table = [], pi_table_index = 0, pi_completed = 0, pi_total = 0, pi_table_rows = 0,
      pi_start_file = [], pi_start_pos = 0, pi_current_file = [], pi_current_pos = 0,
      pi_checkpoint_file = [], pi_checkpoint_pos = 0, pi_latest_file = [], pi_latest_pos = 0,
      pi_lag_files = 0, pi_earliest_file = [], pi_available_binlogs = 0, pi_binlog_status = [],
      pi_pending = False, pi_reason = [], pi_position = [], pi_pending_tables = []\<rparr>"

definition new_progress :: "string \<Rightarrow> string \<Rightarrow> job_progress" where
  "new_progress phase summary = zero_progress\<lparr>pg_phase := phase, pg_summary := summary\<rparr>"

text \<open>The conversion of a report; \<open>rfc3339\<close> formats a time.\<close>

definition progress_of_info :: "(int \<Rightarrow> string) \<Rightarrow> progress_info \<Rightarrow> job_progress" where
  "progress_of_info rfc3339 i =
     \<lparr>pg_phase = trim_space (pi_phase i), pg_summary = trim_space (pi_summary i),
      pg_detail = trim_space (pi_detail i), pg_table = trim_space (pi_table i),
      pg_table_index = pi_table_index i, pg_completed = pi_completed i, pg_total = pi_total i,
      pg_table_rows = pi_table_rows i, pg_start_file = trim_space (pi_start_file i),
      pg_start_pos = pi_start_pos i, pg_current_file = trim_space (pi_current_file i),
      pg_current_pos = pi_current_pos i, pg_checkpoint_file = trim_space (pi_checkpoint_file i),
      pg_checkpoint_pos = pi_checkpoint_pos i, pg_latest_file = trim_space (pi_latest_file i),
      pg_latest_pos = pi_latest_pos i, pg_lag_files = pi_lag_files i,
      pg_earliest_file = trim_space (pi_earliest_file i), pg_available_binlogs = pi_available_binlogs i,
      pg_binlog_status = trim_space (pi_binlog_status i), pg_pending = pi_pending i,
      pg_reason = trim_space (pi_reason i), pg_position = trim_space (pi_position i),
      pg_pending_tables = trim_space (pi_pending_tables i), pg_sink_phase = [], pg_sink_summary = [],
      pg_sink_detail = [], pg_sink_table = [], pg_sink_rows = 0, pg_rec_status = pi_rec_status i,
      pg_rec_operation = pi_rec_operation i, pg_rec_attempts = pi_rec_attempts i,
      pg_rec_error = pi_rec_error i, pg_rec_checkpoint = pi_rec_checkpoint i,
      pg_rec_started = (case pi_rec_started i of None \<Rightarrow> [] | Some t \<Rightarrow> rfc3339 t)\<rparr>"

definition graphPhase :: "job_progress option \<Rightarrow> string" where
  "graphPhase p' = (case p' of None \<Rightarrow> [] | Some p \<Rightarrow> to_lower (trim_space (pg_phase p)))"

definition isBackpressureProgress :: "job_progress option \<Rightarrow> bool" where
  "isBackpressureProgress p' =
     (case p' of None \<Rightarrow> False
      | Some p \<Rightarrow> str_contains ''waiting for sink flush'' (to_lower (trim_space (pg_summary p))) \<or>
                 str_contains ''sink is slower than snapshot reader'' (to_lower (trim_space (pg_detail p))))"

definition isCDCHealthRuntimeProgress :: "string \<Rightarrow> bool" where
  "isCDCHealthRuntimeProgress phase = equal_fold (trim_space phase) ''cdc_health''"

definition mergeCDCHealthProgress :: "job_progress \<Rightarrow> job_progress \<Rightarrow> job_progress" where
  "mergeCDCHealthProgress previous incoming =
     (let merged = previous\<lparr>pg_phase := ''streaming''\<rparr>;
          merged = (if graphPhase (Some previous) \<noteq> ''streaming''
                    then merged\<lparr>pg_summary := ''CDC streaming'', pg_detail := ''CDC health heartbeat received''\<rparr>
                    else merged) in
      merged\<lparr>pg_checkpoint_file := pg_checkpoint_file incoming, pg_checkpoint_pos := pg_checkpoint_pos incoming,
             pg_latest_file := pg_latest_file incoming, pg_latest_pos := pg_latest_pos incoming,
             pg_lag_files := pg_lag_files incoming, pg_earliest_file := pg_earliest_file incoming,
             pg_available_binlogs := pg_available_binlogs incoming, pg_binlog_status := pg_binlog_status incoming\<rparr>)"

definition isSinkRuntimeProgress :: "string \<Rightarrow> bool" where
  "isSinkRuntimeProgress phase =
     (to_lower (trim_space phase) \<in>
        {''sink_commit'', ''sink_commit_wait'', ''sink_checkpoint'', ''sink_checkpoint_wait'', ''sink_recovery''})"

definition copyRecoveryProgress :: "job_progress \<Rightarrow> job_progress \<Rightarrow> job_progress" where
  "copyRecoveryProgress to from' =
     to\<lparr>pg_rec_status := pg_rec_status from', pg_rec_operation := pg_rec_operation from',
        pg_rec_attempts := pg_rec_attempts from', pg_rec_error := pg_rec_error from',
        pg_rec_checkpoint := pg_rec_checkpoint from', pg_rec_started := pg_rec_started from'\<rparr>"

definition sink_phase_reset :: "job_progress \<Rightarrow> job_progress" where
  "sink_phase_reset previous =
     (if trim_space (pg_phase previous) = [] \<or> isSinkRuntimeProgress (pg_phase previous)
      then previous\<lparr>pg_phase := ''running'',
             pg_summary := (if trim_space (pg_summary previous) = [] \<or>
                               equal_fold (trim_space (pg_summary previous)) (trim_space (pg_sink_summary previous))
                            then ''Job is running'' else pg_summary previous)\<rparr>
      else previous)"

definition mergeSinkRuntimeProgress :: "job_progress \<Rightarrow> job_progress \<Rightarrow> job_progress" where
  "mergeSinkRuntimeProgress previous incoming =
     (let merged = sink_phase_reset previous;
          merged = merged\<lparr>pg_sink_phase := trim_space (pg_phase incoming),
                          pg_sink_summary := trim_space (pg_summary incoming),
                          pg_sink_detail := trim_space (pg_detail incoming)\<rparr>;
          merged = (if trim_space (pg_table incoming) \<noteq> []
                    then merged\<lparr>pg_sink_table := trim_space (pg_table incoming)\<rparr> else merged);
          merged = merged\<lparr>pg_sink_rows := pg_table_rows incoming, pg_pending := pg_pending incoming,
                          pg_reason := pg_reason incoming, pg_position := pg_position incoming,
                          pg_pending_tables := pg_pending_tables incoming\<rparr> in
      if pg_rec_status incoming \<noteq> [] then copyRecoveryProgress merged incoming else merged)"

definition mergeSourceRuntimeProgress :: "job_progress \<Rightarrow> job_progress \<Rightarrow> job_progress" where
  "mergeSourceRuntimeProgress previous incoming =
     (let merged = incoming\<lparr>pg_sink_phase := pg_sink_phase previous, pg_sink_summary := pg_sink_summary previous,
                            pg_sink_detail := pg_sink_detail previous, pg_sink_table := pg_sink_table previous,
                            pg_sink_rows := pg_sink_rows previous\<rparr>;
          merged = copyRecoveryProgress merged previous;
          merged = merged\<lparr>pg_pending := pg_pending previous, pg_reason := pg_reason previous,
                          pg_position := pg_position previous, pg_pending_tables := pg_pending_tables previous\<rparr>;
          merged = (if trim_space (pg_checkpoint_file incoming) = []
                    then merged\<lparr>pg_checkpoint_file := pg_checkpoint_file previous,
                                pg_checkpoint_pos := pg_checkpoint_pos previous\<rparr> else merged);
          merged = (if trim_space (pg_latest_file incoming) = []
                    then merged\<lparr>pg_latest_file := pg_latest_file previous, pg_latest_pos := pg_latest_pos previous,
                                pg_lag_files := pg_lag_files previous\<rparr> else merged) in
      if trim_space (pg_binlog_status incoming) = []
      then merged\<lparr>pg_earliest_file := pg_earliest_file previous,
                  pg_available_binlogs := pg_available_binlogs previous,
                  pg_binlog_status := pg_binlog_status previous\<rparr> else merged)"

definition merge_progress :: "job_progress option \<Rightarrow> job_progress \<Rightarrow> job_progress" where
  "merge_progress prev progress =
     (if equal_fold (trim_space (pg_phase progress)) ''preflight'' then progress
      else case prev of
        None \<Rightarrow> progress
      | Some p \<Rightarrow> if isCDCHealthRuntimeProgress (pg_phase progress) then mergeCDCHealthProgress p progress
                 else if isSinkRuntimeProgress (pg_phase progress) then mergeSinkRuntimeProgress p progress
                 else mergeSourceRuntimeProgress p progress)"

definition finalizeJobProgress :: "job_progress option \<Rightarrow> string \<Rightarrow> string \<Rightarrow> job_progress" where
  "finalizeJobProgress prev' phase summary =
     (case prev' of
        None \<Rightarrow> new_progress phase summary
      | Some prev \<Rightarrow>
          (let prevSummary = trim_space (pg_summary prev);
               next = prev\<lparr>pg_phase := phase, pg_summary := summary\<rparr> in
           if trim_space (pg_detail next) = [] \<and> prevSummary \<noteq> [] \<and> prevSummary \<noteq> summary
           then next\<lparr>pg_detail := prevSummary\<rparr> else next))"

section \<open>The job record\<close>

record job =
  jb_display_name :: string
  jb_display_config :: "job_config option"
  jb_config :: "job_config option"
  jb_created :: "int option"
  jb_updated :: "int option"
  jb_status :: job_status
  jb_errors :: "job_error list"
  jb_progress :: "job_progress option"
  jb_cancel :: bool
  jb_source_cancel :: bool
  jb_run_mode :: job_mode
  jb_pause_requested :: bool
  jb_deleted :: bool
  jb_submission :: string
  jb_registry :: bool
  jb_store :: bool
  jb_meta_key :: string
  jb_listening :: bool
  jb_calls :: "(job_status + job_progress) list"

text \<open>\<open>uuid\<close> is the identity \<open>NewJob\<close> draws; the checkpoint key is built at the first start.\<close>

definition NewJob :: "string \<Rightarrow> int \<Rightarrow> job_config option \<Rightarrow> bool \<Rightarrow> job" where
  "NewJob uuid now cfg reg =
     \<lparr>jb_display_name = [], jb_display_config = None, jb_config = cfg, jb_created = Some now,
      jb_updated = Some now, jb_status = JobStatusCreated, jb_errors = [], jb_progress = None,
      jb_cancel = False, jb_source_cancel = False, jb_run_mode = [], jb_pause_requested = False,
      jb_deleted = False, jb_submission = uuid, jb_registry = reg, jb_store = False, jb_meta_key = [],
      jb_listening = False, jb_calls = []\<rparr>"

definition GetLastError :: "job \<Rightarrow> job_error option" where
  "GetLastError j = (if jb_errors j = [] then None else Some (last (jb_errors j)))"

definition job_name :: "job \<Rightarrow> string" where
  "job_name j = (if jb_display_name j \<noteq> [] then jb_display_name j
                 else case jb_config j of Some c \<Rightarrow> jc_name c | None \<Rightarrow> [])"

definition DisplayConfig :: "job \<Rightarrow> job_config option" where
  "DisplayConfig j =
     (case jb_config j of
        None \<Rightarrow> None
      | Some own \<Rightarrow>
          (let cfg = (case jb_display_config j of Some d \<Rightarrow> d | None \<Rightarrow> own) in
           Some (if jb_display_name j \<noteq> [] then cfg\<lparr>jc_name := jb_display_name j\<rparr> else cfg)))"

definition normalizeMode :: "job_mode \<Rightarrow> job_mode" where
  "normalizeMode m =
     (if m \<in> {JobModeInitial, JobModeSnapshotOnly, JobModeSnapshotHandoff, JobModeSnapshotHandoffResume,
              JobModeResume, JobModeLatestOffset, JobModeLatest}
      then m else JobModeInitial)"

definition metadataBool :: "(string \<times> string) list \<Rightarrow> string \<Rightarrow> bool" where
  "metadataBool metadata key =
     (case map_get metadata key of
        None \<Rightarrow> False
      | Some raw \<Rightarrow> to_lower (trim_space raw) \<in> {''1'', ''true'', ''yes'', ''y'', ''on'', ''enabled''})"

definition snapshotOnlyCountResumeEnabled :: "(string \<times> string) list \<Rightarrow> bool" where
  "snapshotOnlyCountResumeEnabled metadata = metadataBool metadata ''snapshot_only_count_resume''"

definition validateSnapshotOnlyCountResume :: "job_config option \<Rightarrow> string option" where
  "validateSnapshotOnlyCountResume cfg' =
     (case cfg' of
        None \<Rightarrow> None
      | Some cfg \<Rightarrow>
          if \<not> snapshotOnlyCountResumeEnabled (jc_metadata cfg) then None
          else if normalizeMode (jc_mode cfg) \<noteq> JobModeSnapshotOnly
          then Some (''metadata.snapshot_only_count_resume is only supported for mode: snapshot-only (got '' @
                     jc_mode cfg @ '')'')
          else None)"

section \<open>Connectors and the checkpoint key\<close>

text \<open>The configuration handed to a connector is the untyped map or, for a legacy job, a typed section.\<close>

datatype connector_config = RawConfig gomap | MySQLSection mysql_config | DorisSection doris_config

definition pickSource :: "job_config \<Rightarrow> string \<times> connector_config" where
  "pickSource c =
     (case jc_source c of
        Some s \<Rightarrow> if trim_space (cs_type s) \<noteq> [] then (to_lower (trim_space (cs_type s)), RawConfig (cs_config s))
                  else (''mysql'', MySQLSection (jc_mysql c))
      | None \<Rightarrow> (''mysql'', MySQLSection (jc_mysql c)))"

definition pickSink :: "job_config \<Rightarrow> string \<times> connector_config" where
  "pickSink c =
     (case jc_sink c of
        Some s \<Rightarrow> if trim_space (cs_type s) \<noteq> [] then (to_lower (trim_space (cs_type s)), RawConfig (cs_config s))
                  else (''doris'', DorisSection (jc_doris c))
      | None \<Rightarrow> (''doris'', DorisSection (jc_doris c)))"

definition sinkTypeFromConfig :: "job_config option \<Rightarrow> string" where
  "sinkTypeFromConfig cfg' =
     (case cfg' of None \<Rightarrow> []
      | Some cfg \<Rightarrow> (case jc_sink cfg of None \<Rightarrow> [] | Some s \<Rightarrow> to_lower (trim_space (cs_type s))))"

fun copyMetaKeyValue :: "string list \<Rightarrow> goval \<Rightarrow> goval" where
  "copyMetaKeyValue skip (GoMap m) =
     GoMap (map (\<lambda>(k, v). (k, copyMetaKeyValue skip v)) (filter (\<lambda>(k, v). k \<notin> set skip) m))"
| "copyMetaKeyValue skip (GoList vs) = GoList (map (copyMetaKeyValue skip) vs)"
| "copyMetaKeyValue skip v = v"

definition copyMapWithoutKeys :: "gomap \<Rightarrow> string list \<Rightarrow> gomap" where
  "copyMapWithoutKeys m skip =
     map (\<lambda>(k, v). (k, copyMetaKeyValue skip v)) (filter (\<lambda>(k, v). k \<notin> set skip) m)"

definition stableSinkConfigForMetaKey :: "connector_config \<Rightarrow> connector_config" where
  "stableSinkConfigForMetaKey cfg =
     (case cfg of RawConfig m \<Rightarrow> RawConfig (copyMapWithoutKeys m [''cdc_delete_executor'']) | _ \<Rightarrow> cfg)"

text \<open>\<open>digest\<close> is the hexadecimal SHA-256 of the JSON of the identifying parts.\<close>

type_synonym key_digest =
  "string \<Rightarrow> string \<Rightarrow> string \<times> connector_config \<Rightarrow> string \<times> connector_config \<Rightarrow> string"

definition buildMetaKey ::
  "key_digest \<Rightarrow> string \<Rightarrow> string \<Rightarrow> string \<Rightarrow> connector_config \<Rightarrow> string \<Rightarrow> connector_config \<Rightarrow> string" where
  "buildMetaKey digest jobID mode srcType srcCfg sinkType sinkCfg =
     ''rivus/v1/'' @ digest jobID mode (srcType, srcCfg) (sinkType, stableSinkConfigForMetaKey sinkCfg)"

definition ensureMetaKey :: "key_digest \<Rightarrow> job \<Rightarrow> string \<times> job" where
  "ensureMetaKey digest j =
     (let key = trim_space (jb_meta_key j) in
      if key \<noteq> [] then (key, j)
      else case jb_config j of
        None \<Rightarrow> (key, j)
      | Some c \<Rightarrow>
          (let (srcType, srcCfg) = pickSource c; (sinkType, sinkCfg) = pickSink c;
               computed = buildMetaKey digest (jc_id c) (normalizeMode (jc_mode c)) srcType srcCfg sinkType sinkCfg in
           (computed, j\<lparr>jb_meta_key := computed\<rparr>)))"

section \<open>Status changes\<close>

definition syncProgressForStatus :: "job_status \<Rightarrow> job_progress option \<Rightarrow> job_progress option" where
  "syncProgressForStatus s p =
     (if s = JobStatusPending
      then (case p of None \<Rightarrow> Some (new_progress ''preflight'' ''Preparing job'') | Some _ \<Rightarrow> p)
      else if s = JobStatusQueued then Some (new_progress ''queued'' ''Waiting for snapshot slot'')
      else if s = JobStatusRunning
      then (case p of None \<Rightarrow> Some (new_progress ''running'' ''Job is running'') | Some _ \<Rightarrow> p)
      else if s = JobStatusPausing
      then Some (finalizeJobProgress p ''pausing'' ''Draining pending events before pause'')
      else if s = JobStatusPaused
      then Some (finalizeJobProgress p ''paused'' ''Job paused at a committed checkpoint'')
      else if s = JobStatusStopped then Some (finalizeJobProgress p ''stopped'' ''Job stopped'')
      else if s = JobStatusFailed then Some (finalizeJobProgress p ''failed'' ''Job failed'')
      else if s = JobStatusDone then Some (finalizeJobProgress p ''done'' ''Job completed'')
      else p)"

text \<open>The listener is called after the mutex is released.\<close>

definition setStatus :: "int \<Rightarrow> job_status \<Rightarrow> job \<Rightarrow> job" where
  "setStatus now s j =
     (if jb_status j = s then j
      else j\<lparr>jb_status := s, jb_updated := Some now, jb_progress := syncProgressForStatus s (jb_progress j),
             jb_calls := (if jb_listening j then jb_calls j @ [Inl s] else jb_calls j)\<rparr>)"

definition updateProgress :: "(int \<Rightarrow> string) \<Rightarrow> int \<Rightarrow> progress_info \<Rightarrow> job \<Rightarrow> job" where
  "updateProgress rfc3339 now info j =
     (let p = merge_progress (jb_progress j) (progress_of_info rfc3339 info) in
      j\<lparr>jb_progress := Some p, jb_updated := Some now,
        jb_calls := (if jb_listening j then jb_calls j @ [Inr p] else jb_calls j)\<rparr>)"

definition addError :: "int \<Rightarrow> string \<Rightarrow> string option \<Rightarrow> job \<Rightarrow> job" where
  "addError now component err j =
     (case err of
        None \<Rightarrow> j
      | Some msg \<Rightarrow>
          j\<lparr>jb_errors := jb_errors j @ [\<lparr>je_component = component, je_message = msg, je_time = now\<rparr>],
            jb_updated := Some now\<rparr>)"

definition setListeners :: "bool \<Rightarrow> job \<Rightarrow> job" where
  "setListeners on j = j\<lparr>jb_listening := on\<rparr>"

definition markPersistenceDeleted :: "job \<Rightarrow> job" where
  "markPersistenceDeleted j = j\<lparr>jb_deleted := True\<rparr>"

section \<open>Health\<close>

record job_health =
  jh_status :: string
  jh_detail :: string

abbreviation "JobHealthHealthy \<equiv> ''HEALTHY''"
abbreviation "JobHealthDegraded \<equiv> ''DEGRADED''"
abbreviation "JobHealthCritical \<equiv> ''CRITICAL''"
abbreviation "JobHealthStale \<equiv> ''STALE''"

definition jobHealthStaleAfter :: int where
  "jobHealthStaleAfter = 120000000000"

text \<open>\<open>Duration.String\<close> of a whole, non-negative number of seconds.\<close>

definition seconds_string :: "int \<Rightarrow> string" where
  "seconds_string n =
     (let h = n div 3600; m = n div 60 mod 60; s = n mod 60 in
      if 0 < h then show_int h @ ''h'' @ show_int m @ ''m'' @ show_int s @ ''s''
      else if 0 < m then show_int m @ ''m'' @ show_int s @ ''s'' else show_int s @ ''s'')"

text \<open>\<open>Round\<close> rounds halves away from zero, so a value below zero rounds to zero or less.\<close>

definition compactHealthDuration :: "int \<Rightarrow> string" where
  "compactHealthDuration value =
     seconds_string (if value < 0 then 0 else (value + 500000000) div 1000000000)"

definition deriveJobHealth :: "job_status \<Rightarrow> job_progress option \<Rightarrow> int option \<Rightarrow> int \<Rightarrow> job_health" where
  "deriveJobHealth status progress updated now =
     (let binlog = (case progress of None \<Rightarrow> [] | Some p \<Rightarrow> to_lower (trim_space (pg_binlog_status p))) in
      if status \<noteq> JobStatusRunning \<and> status \<noteq> JobStatusPending \<and> status \<noteq> JobStatusPausing
      then \<lparr>jh_status = [], jh_detail = []\<rparr>
      else if binlog = ''purged''
      then \<lparr>jh_status = JobHealthCritical, jh_detail = ''Saved CDC checkpoint has been purged from MySQL''\<rparr>
      else if binlog = ''missing'' \<or> binlog = ''no_binlogs''
      then \<lparr>jh_status = JobHealthCritical,
            jh_detail = ''Saved CDC checkpoint is not resumable from the available MySQL binlogs''\<rparr>
      else if isBackpressureProgress progress
      then \<lparr>jh_status = JobHealthDegraded, jh_detail = ''Sink is not draining events fast enough''\<rparr>
      else case updated of
        Some u \<Rightarrow>
          if now - u > jobHealthStaleAfter
          then \<lparr>jh_status = JobHealthStale,
                jh_detail = ''No runtime heartbeat or progress update for '' @ compactHealthDuration (now - u)\<rparr>
          else \<lparr>jh_status = JobHealthHealthy, jh_detail = []\<rparr>
      | None \<Rightarrow> \<lparr>jh_status = JobHealthHealthy, jh_detail = []\<rparr>)"

section \<open>The durable checkpoint, as the control plane shows it\<close>

record checkpoint_view =
  cv_key :: string
  cv_offset :: "offset option"
  cv_state :: "snapshot_state option"
  cv_progress :: "snapshot_progress option"
  cv_error :: string

text \<open>
  \<open>checkpointReader\<close> hands out the job's store and key; opening a missing store can fail. The answers
  of the store are arguments. The binlog diagnostics attached to the view are not modelled.
\<close>

definition checkpointReader :: "key_digest \<Rightarrow> string + bool \<Rightarrow> job \<Rightarrow> (bool \<times> string \<times> string option) \<times> job" where
  "checkpointReader digest opened j =
     (let key0 = trim_space (jb_meta_key j) in
      if jb_store j \<and> key0 \<noteq> [] then ((True, key0, None), j)
      else let (key, j1) = (if key0 = [] then ensureMetaKey digest j else (key0, j));
               (store, j2) = (if jb_store j then (Inr True, j1)
                              else case opened of Inl e \<Rightarrow> (Inl e, j1) | Inr ok \<Rightarrow> (Inr ok, j1\<lparr>jb_store := ok\<rparr>)) in
        case store of
          Inl e \<Rightarrow> ((False, key, Some e), j2)
        | Inr ok \<Rightarrow> ((ok, key, None), if trim_space (jb_meta_key j2) = [] then j2\<lparr>jb_meta_key := key\<rparr> else j2))"

definition Checkpoint ::
  "bool \<times> string \<times> string option \<Rightarrow> string + offset option \<Rightarrow> string + snapshot_state option \<Rightarrow>
     string + snapshot_progress option \<Rightarrow> checkpoint_view option" where
  "Checkpoint reader off' st' pr' =
     (let (has_store, key, readerErr) = reader;
          cp = \<lparr>cv_key = key, cv_offset = None, cv_state = None, cv_progress = None, cv_error = []\<rparr> in
      if \<not> has_store \<or> trim_space key = [] then None
      else case readerErr of
        Some e \<Rightarrow> Some (cp\<lparr>cv_error := e\<rparr>)
      | None \<Rightarrow>
      (case off' of
         Inl e \<Rightarrow> Some (cp\<lparr>cv_error := e\<rparr>)
       | Inr off \<Rightarrow>
      (case st' of
         Inl e \<Rightarrow> Some (cp\<lparr>cv_offset := off, cv_error := e\<rparr>)
       | Inr st \<Rightarrow>
      (let shown = map_option (\<lambda>s. s\<lparr>ss_done := CompletionConfirmed (Some s)\<rparr>) st in
       case pr' of
         Inl e \<Rightarrow> Some (cp\<lparr>cv_offset := off, cv_state := shown, cv_error := e\<rparr>)
       | Inr pr \<Rightarrow> if off = None \<and> st = None \<and> pr = None then None
                  else Some (cp\<lparr>cv_offset := off, cv_state := shown, cv_progress := pr\<rparr>)))))"

definition durable_position :: "offset option \<Rightarrow> snapshot_state option \<Rightarrow> (string \<times> 32 word) option" where
  "durable_position off st =
     (let (file, pos) = (case off of None \<Rightarrow> ([], 0) | Some o' \<Rightarrow> (trim_space (of_file o'), of_pos o'));
          (file, pos) = (if file = [] \<or> pos = 0
                         then (case st of Some s \<Rightarrow> (trim_space (ss_start_file s), ss_start_pos s) | None \<Rightarrow> (file, pos))
                         else (file, pos)) in
      if file = [] \<or> pos = 0 then None else Some (file, pos))"

text \<open>
  \<open>logs\<close> is the answer of \<open>showBinaryLogs\<close> on the source's server. The snapshot state is only read when
  the offset names no position.
\<close>

definition durableCheckpointBinlogStatus ::
  "string + offset option \<Rightarrow> string + snapshot_state option \<Rightarrow> bool \<Rightarrow> string + (string \<times> string \<times> int) \<Rightarrow>
     string + string" where
  "durableCheckpointBinlogStatus off' st' is_mysql logs =
     (case off' of
        Inl e \<Rightarrow> Inl e
      | Inr off \<Rightarrow>
          (case (if durable_position off None = None then st' else Inr None) of
             Inl e \<Rightarrow> Inl e
           | Inr st \<Rightarrow>
               (case durable_position off st of
                  None \<Rightarrow> Inr []
                | Some (file, pos) \<Rightarrow>
                    if \<not> is_mysql then Inr []
                    else (case logs of
                            Inl e \<Rightarrow> Inl e
                          | Inr (firstF, lastF, count) \<Rightarrow> Inr (checkpointBinlogStatus file firstF lastF count)))))"

section \<open>Who owns which part of the progress\<close>

lemma equal_fold_lower: "equal_fold a b \<longleftrightarrow> to_lower a = to_lower b"
  by (simp add: equal_fold_def)

text \<open>A report is the source's unless its phase is blank or names preflight, the sink or the CDC monitor.\<close>

definition source_report :: "job_progress \<Rightarrow> bool" where
  "source_report p \<longleftrightarrow> trim_space (pg_phase p) \<noteq> [] \<and> \<not> equal_fold (trim_space (pg_phase p)) ''preflight'' \<and>
     \<not> isCDCHealthRuntimeProgress (pg_phase p) \<and> \<not> isSinkRuntimeProgress (pg_phase p)"

definition sink_report :: "job_progress \<Rightarrow> bool" where
  "sink_report p \<longleftrightarrow> isSinkRuntimeProgress (pg_phase p)"

lemma sink_report_phase:
  "sink_report p \<Longrightarrow> \<not> equal_fold (trim_space (pg_phase p)) ''preflight'' \<and> \<not> isCDCHealthRuntimeProgress (pg_phase p)"
  by (auto simp: sink_report_def isSinkRuntimeProgress_def isCDCHealthRuntimeProgress_def equal_fold_def)
     (simp_all add: to_lower_def lower_char_def)

lemma merge_source: "source_report a \<Longrightarrow> merge_progress (Some p) a = mergeSourceRuntimeProgress p a"
  by (simp add: merge_progress_def source_report_def)

lemma merge_sink: "sink_report a \<Longrightarrow> merge_progress (Some p) a = mergeSinkRuntimeProgress p a"
  using sink_report_phase [of a] by (simp add: merge_progress_def sink_report_def)

lemma source_phase: "pg_phase (mergeSourceRuntimeProgress p a) = pg_phase a"
  by (simp add: mergeSourceRuntimeProgress_def copyRecoveryProgress_def Let_def)

lemma no_reset: "source_report a \<Longrightarrow> sink_phase_reset (mergeSourceRuntimeProgress p a) = mergeSourceRuntimeProgress p a"
  by (simp add: sink_phase_reset_def source_report_def source_phase)

text \<open>The fields of a merged progress.\<close>

lemma source_fields:
  "pg_phase (mergeSourceRuntimeProgress p a) = pg_phase a"
  "pg_summary (mergeSourceRuntimeProgress p a) = pg_summary a"
  "pg_detail (mergeSourceRuntimeProgress p a) = pg_detail a"
  "pg_table (mergeSourceRuntimeProgress p a) = pg_table a"
  "pg_table_index (mergeSourceRuntimeProgress p a) = pg_table_index a"
  "pg_completed (mergeSourceRuntimeProgress p a) = pg_completed a"
  "pg_total (mergeSourceRuntimeProgress p a) = pg_total a"
  "pg_table_rows (mergeSourceRuntimeProgress p a) = pg_table_rows a"
  "pg_start_file (mergeSourceRuntimeProgress p a) = pg_start_file a"
  "pg_start_pos (mergeSourceRuntimeProgress p a) = pg_start_pos a"
  "pg_current_file (mergeSourceRuntimeProgress p a) = pg_current_file a"
  "pg_current_pos (mergeSourceRuntimeProgress p a) = pg_current_pos a"
  "pg_sink_phase (mergeSourceRuntimeProgress p a) = pg_sink_phase p"
  "pg_sink_summary (mergeSourceRuntimeProgress p a) = pg_sink_summary p"
  "pg_sink_detail (mergeSourceRuntimeProgress p a) = pg_sink_detail p"
  "pg_sink_table (mergeSourceRuntimeProgress p a) = pg_sink_table p"
  "pg_sink_rows (mergeSourceRuntimeProgress p a) = pg_sink_rows p"
  "pg_rec_status (mergeSourceRuntimeProgress p a) = pg_rec_status p"
  "pg_rec_operation (mergeSourceRuntimeProgress p a) = pg_rec_operation p"
  "pg_rec_attempts (mergeSourceRuntimeProgress p a) = pg_rec_attempts p"
  "pg_rec_error (mergeSourceRuntimeProgress p a) = pg_rec_error p"
  "pg_rec_checkpoint (mergeSourceRuntimeProgress p a) = pg_rec_checkpoint p"
  "pg_rec_started (mergeSourceRuntimeProgress p a) = pg_rec_started p"
  "pg_pending (mergeSourceRuntimeProgress p a) = pg_pending p"
  "pg_reason (mergeSourceRuntimeProgress p a) = pg_reason p"
  "pg_position (mergeSourceRuntimeProgress p a) = pg_position p"
  "pg_pending_tables (mergeSourceRuntimeProgress p a) = pg_pending_tables p"
  "pg_checkpoint_file (mergeSourceRuntimeProgress p a) = (if trim_space (pg_checkpoint_file a) = [] then pg_checkpoint_file p else pg_checkpoint_file a)"
  "pg_checkpoint_pos (mergeSourceRuntimeProgress p a) = (if trim_space (pg_checkpoint_file a) = [] then pg_checkpoint_pos p else pg_checkpoint_pos a)"
  "pg_latest_file (mergeSourceRuntimeProgress p a) = (if trim_space (pg_latest_file a) = [] then pg_latest_file p else pg_latest_file a)"
  "pg_latest_pos (mergeSourceRuntimeProgress p a) = (if trim_space (pg_latest_file a) = [] then pg_latest_pos p else pg_latest_pos a)"
  "pg_lag_files (mergeSourceRuntimeProgress p a) = (if trim_space (pg_latest_file a) = [] then pg_lag_files p else pg_lag_files a)"
  "pg_earliest_file (mergeSourceRuntimeProgress p a) = (if trim_space (pg_binlog_status a) = [] then pg_earliest_file p else pg_earliest_file a)"
  "pg_available_binlogs (mergeSourceRuntimeProgress p a) = (if trim_space (pg_binlog_status a) = [] then pg_available_binlogs p else pg_available_binlogs a)"
  "pg_binlog_status (mergeSourceRuntimeProgress p a) = (if trim_space (pg_binlog_status a) = [] then pg_binlog_status p else pg_binlog_status a)"
  by (simp_all add: mergeSourceRuntimeProgress_def copyRecoveryProgress_def Let_def)

lemma sink_fields:
  "pg_phase (mergeSinkRuntimeProgress p b) = pg_phase (sink_phase_reset p)"
  "pg_summary (mergeSinkRuntimeProgress p b) = pg_summary (sink_phase_reset p)"
  "pg_detail (mergeSinkRuntimeProgress p b) = pg_detail p"
  "pg_table (mergeSinkRuntimeProgress p b) = pg_table p"
  "pg_table_index (mergeSinkRuntimeProgress p b) = pg_table_index p"
  "pg_completed (mergeSinkRuntimeProgress p b) = pg_completed p"
  "pg_total (mergeSinkRuntimeProgress p b) = pg_total p"
  "pg_table_rows (mergeSinkRuntimeProgress p b) = pg_table_rows p"
  "pg_start_file (mergeSinkRuntimeProgress p b) = pg_start_file p"
  "pg_start_pos (mergeSinkRuntimeProgress p b) = pg_start_pos p"
  "pg_current_file (mergeSinkRuntimeProgress p b) = pg_current_file p"
  "pg_current_pos (mergeSinkRuntimeProgress p b) = pg_current_pos p"
  "pg_checkpoint_file (mergeSinkRuntimeProgress p b) = pg_checkpoint_file p"
  "pg_checkpoint_pos (mergeSinkRuntimeProgress p b) = pg_checkpoint_pos p"
  "pg_latest_file (mergeSinkRuntimeProgress p b) = pg_latest_file p"
  "pg_latest_pos (mergeSinkRuntimeProgress p b) = pg_latest_pos p"
  "pg_lag_files (mergeSinkRuntimeProgress p b) = pg_lag_files p"
  "pg_earliest_file (mergeSinkRuntimeProgress p b) = pg_earliest_file p"
  "pg_available_binlogs (mergeSinkRuntimeProgress p b) = pg_available_binlogs p"
  "pg_binlog_status (mergeSinkRuntimeProgress p b) = pg_binlog_status p"
  "pg_sink_phase (mergeSinkRuntimeProgress p b) = trim_space (pg_phase b)"
  "pg_sink_summary (mergeSinkRuntimeProgress p b) = trim_space (pg_summary b)"
  "pg_sink_detail (mergeSinkRuntimeProgress p b) = trim_space (pg_detail b)"
  "pg_sink_table (mergeSinkRuntimeProgress p b) = (if trim_space (pg_table b) = [] then pg_sink_table p else trim_space (pg_table b))"
  "pg_sink_rows (mergeSinkRuntimeProgress p b) = pg_table_rows b"
  "pg_pending (mergeSinkRuntimeProgress p b) = pg_pending b"
  "pg_reason (mergeSinkRuntimeProgress p b) = pg_reason b"
  "pg_position (mergeSinkRuntimeProgress p b) = pg_position b"
  "pg_pending_tables (mergeSinkRuntimeProgress p b) = pg_pending_tables b"
  "pg_rec_status (mergeSinkRuntimeProgress p b) = (if pg_rec_status b = [] then pg_rec_status p else pg_rec_status b)"
  "pg_rec_operation (mergeSinkRuntimeProgress p b) = (if pg_rec_status b = [] then pg_rec_operation p else pg_rec_operation b)"
  "pg_rec_attempts (mergeSinkRuntimeProgress p b) = (if pg_rec_status b = [] then pg_rec_attempts p else pg_rec_attempts b)"
  "pg_rec_error (mergeSinkRuntimeProgress p b) = (if pg_rec_status b = [] then pg_rec_error p else pg_rec_error b)"
  "pg_rec_checkpoint (mergeSinkRuntimeProgress p b) = (if pg_rec_status b = [] then pg_rec_checkpoint p else pg_rec_checkpoint b)"
  "pg_rec_started (mergeSinkRuntimeProgress p b) = (if pg_rec_status b = [] then pg_rec_started p else pg_rec_started b)"
  by (simp_all add: mergeSinkRuntimeProgress_def sink_phase_reset_def copyRecoveryProgress_def Let_def)

lemma sink_source_commute:
  assumes "sink_phase_reset p = p" "sink_phase_reset (mergeSourceRuntimeProgress p a) = mergeSourceRuntimeProgress p a"
  shows "mergeSinkRuntimeProgress (mergeSourceRuntimeProgress p a) b = mergeSourceRuntimeProgress (mergeSinkRuntimeProgress p b) a"
  by (rule job_progress.equality) (simp_all add: source_fields sink_fields assms)

text \<open>
  The reports of the source and of the sink commute. Each owns its own part of a job's progress, so
  the progress shown after one report of each does not depend on which of the two goroutines got the
  mutex first; the source's report decides phase, table and CDC position, the sink's report decides the
  sink's state and the pending checkpoint.
\<close>

theorem source_and_sink_reports_commute:
  assumes "source_report a" "sink_report b" "trim_space (pg_phase p) \<noteq> []" "\<not> isSinkRuntimeProgress (pg_phase p)"
  shows "merge_progress (Some (merge_progress (Some p) a)) b = merge_progress (Some (merge_progress (Some p) b)) a \<and>
    pg_phase (merge_progress (Some (merge_progress (Some p) a)) b) = pg_phase a \<and>
    pg_sink_summary (merge_progress (Some (merge_progress (Some p) a)) b) = trim_space (pg_summary b)"
proof -
  have p: "sink_phase_reset p = p" using assms(3,4) by (simp add: sink_phase_reset_def)
  note eq = sink_source_commute [OF p no_reset [OF assms(1)], of b]
  show ?thesis
    by (simp add: merge_source [OF assms(1)] merge_sink [OF assms(2)] eq)
       (simp add: source_fields sink_fields)
qed

lemma source_and_sink_reports_commute_witness:
  "let p = new_progress ''snapshot'' ''Reading''; a = new_progress ''streaming'' ''CDC'';
       b = (new_progress ''sink_commit'' ''Flushed'')\<lparr>pg_rec_status := ''RECOVERED''\<rparr> in
   merge_progress (Some (merge_progress (Some p) a)) b = merge_progress (Some (merge_progress (Some p) b)) a"
  using source_and_sink_reports_commute [of "new_progress ''streaming'' ''CDC''"
      "(new_progress ''sink_commit'' ''Flushed'')\<lparr>pg_rec_status := ''RECOVERED''\<rparr>" "new_progress ''snapshot'' ''Reading''"]
  unfolding Let_def by code_simp

lemma copyMapWithoutKeys_put: "k \<in> set skip \<Longrightarrow> copyMapWithoutKeys (map_put k v m) skip = copyMapWithoutKeys m skip"
proof -
  assume k: "k \<in> set skip"
  have "filter (\<lambda>(k, v). k \<notin> set skip) (map_put k v m) = filter (\<lambda>(k, v). k \<notin> set skip) m"
    using k by (induction k v m rule: map_put.induct) auto
  then show ?thesis by (simp add: copyMapWithoutKeys_def)
qed

lemma trim_space_solid: "(\<And>c. c \<in> set s \<Longrightarrow> \<not> is_space c) \<Longrightarrow> trim_space s = s"
proof -
  assume a: "\<And>c. c \<in> set s \<Longrightarrow> \<not> is_space c"
  have "dropWhile is_space s = s" "dropWhile is_space (rev s) = rev s"
    using a by (cases s; simp; fail | (cases "rev s"; metis dropWhile.simps list.set_intros(1) set_rev))+
  then show ?thesis by (simp add: trim_space_def)
qed

lemma jb_meta_key_kept [simp]:
  "jb_meta_key (setStatus now s j) = jb_meta_key j" "jb_meta_key (updateProgress fmt now info j) = jb_meta_key j"
  "jb_meta_key (addError now component err j) = jb_meta_key j"
  by (simp_all add: setStatus_def updateProgress_def Let_def addError_def split: option.split)

lemma ensureMetaKey_set: "trim_space (jb_meta_key j) \<noteq> [] \<Longrightarrow> ensureMetaKey digest j = (trim_space (jb_meta_key j), j)"
  by (simp add: ensureMetaKey_def)

lemma ensureMetaKey_fresh:
  assumes "\<forall>a b c d. \<forall>x \<in> set (digest a b c d). \<not> is_space x" "jb_config j \<noteq> None"
  shows "fst (ensureMetaKey digest j) \<noteq> [] \<and> trim_space (jb_meta_key (snd (ensureMetaKey digest j))) = fst (ensureMetaKey digest j)"
proof (cases "trim_space (jb_meta_key j) = []")
  case True
  have "\<not> is_space x" if "x \<in> set (''rivus/v1/'' @ digest a b c d)" for a b c d x
    using that assms(1) [rule_format, of x a b c d] by (auto simp: is_space_def)
  then have solid: "trim_space (buildMetaKey digest a b c d e f) = buildMetaKey digest a b c d e f" for a b c d e f
    unfolding buildMetaKey_def by (intro trim_space_solid)
  have ne: "buildMetaKey digest a b c d e f \<noteq> []" for a b c d e f by (simp add: buildMetaKey_def)
  from assms(2) obtain c where c: "jb_config j = Some c" by blast
  obtain st sc kt kc where "pickSource c = (st, sc)" "pickSink c = (kt, kc)" by (meson surj_pair)
  with True c show ?thesis by (simp add: ensureMetaKey_def Let_def solid ne)
qed (simp add: ensureMetaKey_def)

text \<open>
  The key under which a job keeps its checkpoints is fixed at the first start. It survives every
  status change, progress report and later start whatever the configuration has become, and setting or
  changing the sink's \<open>cdc_delete_executor\<close> before the first start does not change it either. The
  hypothesis says that the hexadecimal digest holds no white space.
\<close>

theorem metaKey_stable:
  assumes "\<forall>a b c d. \<forall>x \<in> set (digest a b c d). \<not> is_space x" "jb_config j = Some cfg" "jc_sink cfg = Some sink"
  shows "fst (ensureMetaKey digest j) \<noteq> [] \<and>
    fst (ensureMetaKey digest' (updateProgress fmt t info (setStatus t' s
      ((snd (ensureMetaKey digest j))\<lparr>jb_config := c\<rparr>)))) = fst (ensureMetaKey digest j) \<and>
    fst (ensureMetaKey digest (j\<lparr>jb_config := Some (cfg\<lparr>jc_sink :=
      Some (sink\<lparr>cs_config := map_put ''cdc_delete_executor'' v (cs_config sink)\<rparr>)\<rparr>)\<rparr>)) = fst (ensureMetaKey digest j)"
proof -
  have "jb_config j \<noteq> None" using assms(2) by simp
  note fresh = ensureMetaKey_fresh [OF assms(1) this]
  have "fst (ensureMetaKey digest' (updateProgress fmt t info (setStatus t' s
      ((snd (ensureMetaKey digest j))\<lparr>jb_config := c\<rparr>)))) = fst (ensureMetaKey digest j)"
    using fresh by (simp add: ensureMetaKey_set)
  moreover have "fst (ensureMetaKey digest (j\<lparr>jb_config := Some (cfg\<lparr>jc_sink :=
      Some (sink\<lparr>cs_config := map_put ''cdc_delete_executor'' v (cs_config sink)\<rparr>)\<rparr>)\<rparr>)) = fst (ensureMetaKey digest j)"
    using assms(2,3)
    by (simp add: ensureMetaKey_def Let_def pickSource_def pickSink_def buildMetaKey_def stableSinkConfigForMetaKey_def
        copyMapWithoutKeys_put cong: option.case_cong if_cong split: prod.split)
  ultimately show ?thesis using fresh by blast
qed

definition sample_digest :: key_digest where
  "sample_digest jobID mode source sink =
     show_nat (case snd sink of RawConfig m \<Rightarrow> length m | _ \<Rightarrow> 0) @ show_nat (length jobID)"

lemma show_nat_solid: "x \<in> set (show_nat n) \<Longrightarrow> \<not> is_space x"
proof (induction n rule: show_nat.induct)
  case (1 n)
  have digit: "\<not> is_space (digit_char d)" if "d < 10" for d
  proof -
    from that have "d \<in> {0,1,2,3,4,5,6,7,8,9}" by auto
    then show ?thesis by (elim insertE emptyE) (simp_all only:, code_simp+)
  qed
  from 1 show ?case using digit [of n] digit [of "n mod 10"]
    by (auto simp: show_nat.simps [of n] split: if_splits)
qed

lemma metaKey_stable_witness:
  "let j = NewJob ''u'' 0 (Some (zero_config\<lparr>jc_id := ''a'', jc_sink := Some \<lparr>cs_type = ''iceberg_native'', cs_config = []\<rparr>\<rparr>)) True in
   fst (ensureMetaKey sample_digest ((snd (ensureMetaKey sample_digest j))\<lparr>jb_config := None\<rparr>)) = fst (ensureMetaKey sample_digest j)"
proof -
  let ?sink = "\<lparr>cs_type = ''iceberg_native'', cs_config = []\<rparr>"
  let ?cfg = "zero_config\<lparr>jc_id := ''a'', jc_sink := Some ?sink\<rparr>"
  let ?j = "NewJob ''u'' 0 (Some ?cfg) True"
  have d: "\<forall>a b c d. \<forall>x \<in> set (sample_digest a b c d). \<not> is_space x"
    using show_nat_solid by (auto simp: sample_digest_def)
  have k: "jb_meta_key (updateProgress fmt t info (setStatus t' s (x\<lparr>jb_config := c\<rparr>))) = jb_meta_key x" for fmt t info t' s x c by simp
  have "jb_config ?j = Some ?cfg" "jc_sink ?cfg = Some ?sink" by (simp_all add: NewJob_def)
  from metaKey_stable [OF d this, of sample_digest] have
    "fst (ensureMetaKey sample_digest ?j) \<noteq> []" by blast
  moreover have "fst (ensureMetaKey sample_digest ((snd (ensureMetaKey sample_digest ?j))\<lparr>jb_config := None\<rparr>)) =
      fst (ensureMetaKey sample_digest ?j)" by code_simp
  ultimately show ?thesis unfolding Let_def by blast
qed

end
