(* ===== verification/Graph_Builder.thy ===== *)
theory Graph_Builder
  imports Job_Progress
begin

text \<open>
  The pipeline graph the API shows for a job (\<open>pkg/core/graph_model.go\<close>, \<open>graph_builder.go\<close>): three
  nodes (source, buffer, sink), two edges, and the states, details and metrics derived from the job's
  status, progress and configuration.

  The lemmas show that the graph is well formed for every configuration and progress and that its
  states come from a fixed vocabulary; the digit grouping is proved against a reference definition.
\<close>

section \<open>The graph\<close>

record graph_metric =
  gm_label :: string
  gm_value :: string
  gm_tone :: string

datatype graph_node_type = NodeSource | NodeBuffer | NodeSink

record graph_node =
  gn_id :: string
  gn_type :: graph_node_type
  gn_label :: string
  gn_subtitle :: string
  gn_detail :: string
  gn_state :: string
  gn_status :: job_status
  gn_metrics :: "graph_metric list"

record graph_edge =
  gg_from :: string
  gg_to :: string
  gg_label :: string
  gg_detail :: string
  gg_state :: string
  gg_metrics :: "graph_metric list"

record job_graph =
  gr_job :: string
  gr_status :: job_status
  gr_health :: string
  gr_health_detail :: string
  gr_progress :: "job_progress option"
  gr_nodes :: "graph_node list"
  gr_edges :: "graph_edge list"

section \<open>Values of the configuration\<close>

definition firstNonEmpty :: "string list \<Rightarrow> string" where
  "firstNonEmpty values = (case find (\<lambda>v. trim_space v \<noteq> []) values of None \<Rightarrow> [] | Some v \<Rightarrow> trim_space v)"

definition nonEmptyStrings :: "string list \<Rightarrow> string list" where
  "nonEmptyStrings values = filter (\<lambda>v. v \<noteq> []) (map trim_space values)"

definition mapFromAny :: "goval option \<Rightarrow> gomap" where
  "mapFromAny v = (case v of Some (GoMap m) \<Rightarrow> m | _ \<Rightarrow> [])"

definition stringFromAny :: "goval option \<Rightarrow> string" where
  "stringFromAny v = (case v of Some (GoStr s) \<Rightarrow> trim_space s | _ \<Rightarrow> [])"

definition stringSliceFromAny :: "goval option \<Rightarrow> string list" where
  "stringSliceFromAny v =
     (case v of
        Some (GoStrs ss) \<Rightarrow> ss
      | Some (GoList vs) \<Rightarrow> filter (\<lambda>s. s \<noteq> []) (map (\<lambda>x. stringFromAny (Some x)) vs)
      | _ \<Rightarrow> [])"

text \<open>Every integer type of Go is a \<open>GoInt\<close>; a float is cut towards zero.\<close>

definition rat_to_int :: "rat \<Rightarrow> int" where
  "rat_to_int q = (if q < 0 then - \<lfloor>- q\<rfloor> else \<lfloor>q\<rfloor>)"

definition intFromAny :: "goval option \<Rightarrow> int" where
  "intFromAny v =
     (case v of
        Some (GoInt i) \<Rightarrow> i
      | Some (GoFloat q) \<Rightarrow> rat_to_int q
      | Some (GoStr s) \<Rightarrow> (case atoi (trim_space s) of Some n \<Rightarrow> n | None \<Rightarrow> 0)
      | _ \<Rightarrow> 0)"

text \<open>The groups of three digits, from the left; the head group has one to three.\<close>

fun comma_groups :: "string \<Rightarrow> string" where
  "comma_groups (a # b # c # rest) = CHR '','' # a # b # c # comma_groups rest"
| "comma_groups s = s"

definition graphFormatInt :: "int \<Rightarrow> string" where
  "graphFormatInt n =
     (let raw = show_int n in
      if length raw \<le> 3 then raw
      else let (sign, raw) = (if has_prefix ''-'' raw then (''-'', drop 1 raw) else ([], raw));
               head = (if length raw mod 3 = 0 then 3 else length raw mod 3) in
        sign @ take head raw @ comma_groups (drop head raw))"

definition graphBinlogPosition :: "string \<Rightarrow> 32 word \<Rightarrow> string" where
  "graphBinlogPosition file0 pos =
     (let file = trim_space file0 in
      if file = [] \<or> pos = 0 then ''-'' else file @ '':'' @ show_int (uint pos))"

definition sourceConfigMap :: "job_config option \<Rightarrow> gomap" where
  "sourceConfigMap cfg' = (case cfg' of None \<Rightarrow> [] | Some cfg \<Rightarrow> (case jc_source cfg of None \<Rightarrow> [] | Some s \<Rightarrow> cs_config s))"

definition sinkConfigMap :: "job_config option \<Rightarrow> gomap" where
  "sinkConfigMap cfg' = (case cfg' of None \<Rightarrow> [] | Some cfg \<Rightarrow> (case jc_sink cfg of None \<Rightarrow> [] | Some s \<Rightarrow> cs_config s))"

definition sourceTypeFromConfig :: "job_config option \<Rightarrow> string" where
  "sourceTypeFromConfig cfg' =
     (case cfg' of
        None \<Rightarrow> []
      | Some cfg \<Rightarrow> (case jc_source cfg of
          Some s \<Rightarrow> if trim_space (cs_type s) \<noteq> [] then to_lower (trim_space (cs_type s)) else ''mysql''
        | None \<Rightarrow> ''mysql''))"

definition add_seen :: "string list \<Rightarrow> string \<Rightarrow> string list" where
  "add_seen seen raw =
     (let entry = to_lower (trim_space raw) in if entry = [] \<or> entry \<in> set seen then seen else seen @ [entry])"

definition configured_tables :: "job_config \<Rightarrow> int" where
  "configured_tables cfg =
     (if my_tables (jc_mysql cfg) \<noteq> [] then int (length (my_tables (jc_mysql cfg)))
      else let srcCfg = sourceConfigMap (Some cfg);
               seen = foldl add_seen [] (stringSliceFromAny (map_get srcCfg ''tables''));
               databases = filter (\<lambda>d. d \<noteq> []) (map trim_space (stringSliceFromAny (map_get srcCfg ''databases'')));
               names = filter (\<lambda>t. t \<noteq> []) (map trim_space (stringSliceFromAny (map_get srcCfg ''table_names'')));
               seen = foldl (\<lambda>s d. foldl (\<lambda>s t. add_seen s (d @ ''.'' @ t)) s names) seen databases in
        int (length seen))"

definition sourceTableCount :: "job_config option \<Rightarrow> job_progress option \<Rightarrow> int" where
  "sourceTableCount cfg' progress =
     (if (case progress of Some p \<Rightarrow> 0 < pg_total p | None \<Rightarrow> False) then pg_total (the progress)
      else case cfg' of None \<Rightarrow> 0 | Some cfg \<Rightarrow> configured_tables cfg)"

definition sourceChunkSize :: "job_config option \<Rightarrow> string \<Rightarrow> int" where
  "sourceChunkSize cfg' sourceType =
     (case cfg' of
        None \<Rightarrow> 0
      | Some cfg \<Rightarrow> if sourceType = ''mysql'' \<and> 0 < my_chunk_size (jc_mysql cfg) then my_chunk_size (jc_mysql cfg)
                   else intFromAny (map_get (sourceConfigMap cfg') ''chunk_size''))"

definition sourceFilterCount :: "job_config option \<Rightarrow> string \<Rightarrow> int" where
  "sourceFilterCount cfg' sourceType =
     (case cfg' of
        None \<Rightarrow> 0
      | Some cfg \<Rightarrow> if sourceType = ''mysql'' \<and> my_table_configs (jc_mysql cfg) \<noteq> []
                   then int (length (my_table_configs (jc_mysql cfg)))
                   else int (length (mapFromAny (map_get (sourceConfigMap cfg') ''table_configs''))))"

definition countResumeEnabled :: "job_config option \<Rightarrow> bool" where
  "countResumeEnabled cfg' =
     (case cfg' of None \<Rightarrow> False | Some cfg \<Rightarrow> metadataBool (jc_metadata cfg) ''snapshot_only_count_resume'')"

definition bufferCapacity :: "job_config option \<Rightarrow> int" where
  "bufferCapacity cfg' = (case cfg' of None \<Rightarrow> 1000 | Some cfg \<Rightarrow> if jc_buffer_size cfg \<le> 0 then 1000 else jc_buffer_size cfg)"

definition sinkBatchSize :: "job_config option \<Rightarrow> string \<Rightarrow> int" where
  "sinkBatchSize cfg' sinkType =
     (case cfg' of
        None \<Rightarrow> 0
      | Some cfg \<Rightarrow> if sinkType = ''doris'' \<and> 0 < do_batch_size (jc_doris cfg) then do_batch_size (jc_doris cfg)
                   else intFromAny (map_get (sinkConfigMap cfg') ''batch_size''))"

definition sinkFlushSeconds :: "job_config option \<Rightarrow> string \<Rightarrow> int" where
  "sinkFlushSeconds cfg' sinkType =
     (case cfg' of
        None \<Rightarrow> 0
      | Some cfg \<Rightarrow> if sinkType = ''doris'' \<and> 0 < do_flush_seconds (jc_doris cfg) then do_flush_seconds (jc_doris cfg)
                   else intFromAny (map_get (sinkConfigMap cfg') ''flush_seconds''))"

definition sinkOverrideCount :: "job_config option \<Rightarrow> string \<Rightarrow> int" where
  "sinkOverrideCount cfg' sinkType =
     (case cfg' of
        None \<Rightarrow> 0
      | Some cfg \<Rightarrow> if sinkType = ''doris'' \<and> do_overrides (jc_doris cfg) \<noteq> []
                   then int (length (do_overrides (jc_doris cfg)))
                   else int (length (mapFromAny (map_get (sinkConfigMap cfg') ''overrides''))))"

definition sinkTargetSummary :: "job_config option \<Rightarrow> string \<Rightarrow> string" where
  "sinkTargetSummary cfg' sinkType =
     (case cfg' of
        None \<Rightarrow> []
      | Some cfg \<Rightarrow>
          if sinkType = ''doris''
          then if trim_space (do_default_database (jc_doris cfg)) \<noteq> [] then do_default_database (jc_doris cfg)
               else stringFromAny (map_get (sinkConfigMap cfg') ''default_database'')
          else if sinkType = ''iceberg_native''
          then stringFromAny (map_get (sinkConfigMap cfg') ''default_namespace'') else [])"

definition sourceEndpoint :: "job_config option \<Rightarrow> string" where
  "sourceEndpoint cfg' =
     (case cfg' of
        None \<Rightarrow> []
      | Some cfg \<Rightarrow> if trim_space (my_addr (jc_mysql cfg)) \<noteq> [] then my_addr (jc_mysql cfg)
                   else stringFromAny (map_get (sourceConfigMap cfg') ''addr''))"

definition sinkEndpoint :: "job_config option \<Rightarrow> string \<Rightarrow> string" where
  "sinkEndpoint cfg' sinkType =
     (case cfg' of
        None \<Rightarrow> []
      | Some cfg \<Rightarrow>
          if sinkType = ''doris''
          then if trim_space (do_http_host (jc_doris cfg)) \<noteq> [] then do_http_host (jc_doris cfg)
               else stringFromAny (map_get (sinkConfigMap cfg') ''http_host'')
          else if sinkType = ''iceberg_native''
          then let restURI = stringFromAny (map_get (sinkConfigMap cfg') ''rest_uri'') in
               if restURI \<noteq> [] then restURI else stringFromAny (map_get (sinkConfigMap cfg') ''catalog_uri'')
          else [])"

section \<open>Labels and tones\<close>

definition graphPhaseLabel :: "string \<Rightarrow> string" where
  "graphPhaseLabel phase =
     (let p = to_lower (trim_space phase) in
      if p = ''preflight'' then ''Preflight''
      else if p = ''snapshot'' then ''Snapshot''
      else if p = ''snapshot_complete'' then ''Snapshot complete''
      else if p = ''streaming'' then ''CDC''
      else if p = ''done'' then ''Done''
      else if p = ''failed'' then ''Failed''
      else if p = ''stopped'' then ''Stopped''
      else firstNonEmpty [trim_space phase, ''Unknown''])"

definition graphModeLabel :: "job_config option \<Rightarrow> string" where
  "graphModeLabel cfg' =
     (case cfg' of None \<Rightarrow> ''unknown''
      | Some cfg \<Rightarrow> if trim_space (jc_mode cfg) = [] then ''initial'' else trim_space (jc_mode cfg))"

definition graphTableCountLabel :: "int \<Rightarrow> string" where
  "graphTableCountLabel totalTables = (if totalTables \<le> 0 then ''-'' else graphFormatInt totalTables)"

definition graphFlowTone :: "job_progress option \<Rightarrow> job_status \<Rightarrow> string" where
  "graphFlowTone progress status =
     (if status = JobStatusFailed then ''rose''
      else if isBackpressureProgress progress then ''amber'' else ''blue'')"

section \<open>States of the nodes and edges\<close>

definition sourceGraphState :: "job_progress option \<Rightarrow> job_status \<Rightarrow> string" where
  "sourceGraphState progress status =
     (if status = JobStatusFailed then ''BLOCKED''
      else if status = JobStatusStopped then ''STOPPED''
      else if status = JobStatusPausing then ''STOPPING SOURCE''
      else if status = JobStatusPaused then ''PAUSED''
      else if status = JobStatusDone then ''COMPLETED''
      else if isBackpressureProgress progress then ''PAUSED ON BUFFER''
      else let phase = graphPhase progress in
        if phase = ''preflight'' then ''DISCOVERING TABLES''
        else if phase = ''snapshot'' \<or> phase = ''snapshot_complete'' then ''READING SNAPSHOT''
        else if phase = ''streaming'' then ''READING CDC''
        else if status = JobStatusRunning then ''RUNNING'' else status)"

definition bufferGraphState :: "job_progress option \<Rightarrow> job_status \<Rightarrow> string" where
  "bufferGraphState progress status =
     (if status = JobStatusFailed then ''BLOCKED''
      else if status = JobStatusStopped then ''DRAINED''
      else if status = JobStatusPausing then ''DRAINING''
      else if status = JobStatusPaused then ''EMPTY''
      else if status = JobStatusDone then ''EMPTY''
      else if isBackpressureProgress progress then ''BACKPRESSURE''
      else let phase = graphPhase progress in
        if phase = ''preflight'' then ''IDLE''
        else if phase = ''snapshot'' \<or> phase = ''snapshot_complete'' \<or> phase = ''streaming'' then ''FLOWING''
        else if status = JobStatusRunning then ''READY'' else status)"

definition sinkGraphState :: "job_progress option \<Rightarrow> job_status \<Rightarrow> string" where
  "sinkGraphState progress status =
     (if status = JobStatusFailed then ''BLOCKED''
      else if status = JobStatusStopped then ''STOPPED''
      else if status = JobStatusPausing then ''FLUSHING''
      else if status = JobStatusPaused then ''PAUSED''
      else if status = JobStatusDone then ''COMPLETED''
      else if isBackpressureProgress progress then ''FLUSHING SLOWLY''
      else let phase = graphPhase progress in
        if phase = ''preflight'' then ''CREATING TARGETS''
        else if phase = ''snapshot'' \<or> phase = ''snapshot_complete'' then ''WRITING BATCHES''
        else if phase = ''streaming'' then ''APPLYING EVENTS''
        else if status = JobStatusRunning then ''READY'' else status)"

definition sourceGraphStatus :: "job_progress option \<Rightarrow> job_status \<Rightarrow> job_status" where
  "sourceGraphStatus progress status =
     (if graphPhase progress = ''preflight'' \<and> status = JobStatusRunning then JobStatusPending else status)"

definition bufferGraphStatus :: "job_progress option \<Rightarrow> job_status \<Rightarrow> job_status" where
  "bufferGraphStatus progress status =
     (if isBackpressureProgress progress \<and> status = JobStatusRunning then JobStatusPending else status)"

definition sinkGraphStatus :: "job_progress option \<Rightarrow> job_status \<Rightarrow> job_status" where
  "sinkGraphStatus progress status =
     (if graphPhase progress = ''preflight'' \<and> (status = JobStatusPending \<or> status = JobStatusRunning) then JobStatusPending
      else if isBackpressureProgress progress \<and> status = JobStatusRunning then JobStatusPending else status)"

definition sourceEdgeState :: "job_progress option \<Rightarrow> job_status \<Rightarrow> string" where
  "sourceEdgeState progress status =
     (if isBackpressureProgress progress then ''PAUSED''
      else if status = JobStatusFailed then ''BLOCKED''
      else if status = JobStatusStopped then ''STOPPED''
      else if status = JobStatusPausing then ''STOPPING''
      else if status = JobStatusPaused then ''PAUSED''
      else if status = JobStatusDone then ''COMPLETED''
      else if graphPhase progress = ''preflight'' then ''IDLE'' else ''ACTIVE'')"

definition sinkEdgeState :: "job_progress option \<Rightarrow> job_status \<Rightarrow> string" where
  "sinkEdgeState progress status =
     (if isBackpressureProgress progress then ''WAITING''
      else if status = JobStatusFailed then ''BLOCKED''
      else if status = JobStatusStopped then ''STOPPED''
      else if status = JobStatusPausing then ''DRAINING''
      else if status = JobStatusPaused then ''PAUSED''
      else if status = JobStatusDone then ''COMPLETED''
      else if graphPhase progress = ''preflight'' then ''IDLE'' else ''ACTIVE'')"

section \<open>Details\<close>

definition sourceGraphDetail :: "job_progress option \<Rightarrow> job_status \<Rightarrow> string \<Rightarrow> string \<Rightarrow> string \<Rightarrow> string" where
  "sourceGraphDetail progress status currentTable lastErrComponent lastErrMessage =
     (if status = JobStatusFailed \<and> (lastErrComponent = ''source'' \<or> lastErrComponent = ''system'') \<and> lastErrMessage \<noteq> []
      then lastErrMessage
      else case progress of
        None \<Rightarrow> ''Waiting for source runtime updates.''
      | Some p \<Rightarrow>
          if trim_space (pg_detail p) \<noteq> [] then trim_space (pg_detail p)
          else if trim_space (pg_summary p) \<noteq> [] then trim_space (pg_summary p)
          else if currentTable \<noteq> [] then currentTable
          else ''Waiting for source runtime updates.'')"

definition sink_runtime_text :: "job_progress option \<Rightarrow> string option" where
  "sink_runtime_text progress =
     (case progress of
        None \<Rightarrow> None
      | Some p \<Rightarrow> if trim_space (pg_sink_summary p) = [] then None
                 else Some (trim_space (str_join '' | '' (nonEmptyStrings [pg_sink_summary p, pg_sink_detail p]))))"

definition sinkGraphDetail :: "job_progress option \<Rightarrow> job_status \<Rightarrow> string \<Rightarrow> string \<Rightarrow> string" where
  "sinkGraphDetail progress status lastErrComponent lastErrMessage =
     (if status = JobStatusFailed \<and> (lastErrComponent = ''sink'' \<or> lastErrComponent = ''system'') \<and> lastErrMessage \<noteq> []
      then lastErrMessage
      else case sink_runtime_text progress of Some t \<Rightarrow> t | None \<Rightarrow>
      if isBackpressureProgress progress
      then ''Sink is still draining and flushing events, so source emission is temporarily paused.''
      else let phase = graphPhase progress in
      if phase = ''preflight''
      then ''Preparing sink tables and target mappings before event flow starts.''
      else if phase = ''snapshot'' \<or> phase = ''snapshot_complete''
      then ''Applying snapshot batches into the target.''
      else if phase = ''streaming''
      then ''Applying live CDC events into the target.''
      else if status = JobStatusRunning then ''Waiting for events from source.'' else ''Sink is idle.'')"

definition sourceEdgeDetail :: "job_progress option \<Rightarrow> job_status \<Rightarrow> string" where
  "sourceEdgeDetail progress status =
     (if isBackpressureProgress progress
      then ''Source has rows ready, but it is waiting for downstream buffer capacity.''
      else let phase = graphPhase progress in
      if phase = ''preflight''
      then ''No events emitted yet while schemas and target tables are validated.''
      else if phase = ''snapshot'' \<or> phase = ''snapshot_complete''
      then ''Snapshot rows are being read from MySQL and emitted into the pipeline.''
      else if phase = ''streaming''
      then ''CDC events are being emitted from the source into the pipeline.''
      else if status = JobStatusDone then ''Source emission is complete.'' else ''Source emission is idle.'')"

definition sinkEdgeDetail :: "job_progress option \<Rightarrow> job_status \<Rightarrow> string" where
  "sinkEdgeDetail progress status =
     (case sink_runtime_text progress of Some t \<Rightarrow> t | None \<Rightarrow>
      if isBackpressureProgress progress
      then ''Buffered events are waiting because sink flush throughput is lower than source read throughput.''
      else let phase = graphPhase progress in
      if phase = ''preflight''
      then ''Sink is not consuming events until target validation is done.''
      else if phase = ''snapshot'' \<or> phase = ''snapshot_complete''
      then ''Buffered snapshot rows are being flushed into the target sink.''
      else if phase = ''streaming''
      then ''Buffered CDC events are being applied into the target sink.''
      else if status = JobStatusDone then ''All buffered events have been flushed.''
      else ''Buffer is ready to flush events to sink.'')"

section \<open>Nodes and edges\<close>

definition metric :: "string \<Rightarrow> string \<Rightarrow> string \<Rightarrow> graph_metric" where
  "metric label value tone = \<lparr>gm_label = label, gm_value = value, gm_tone = tone\<rparr>"

definition buildSourceGraphNode ::
  "job_config option \<Rightarrow> string \<Rightarrow> string \<Rightarrow> job_status \<Rightarrow> job_progress option \<Rightarrow> string \<Rightarrow> string \<Rightarrow> graph_node" where
  "buildSourceGraphNode cfg nid sourceType status progress lastErrComponent lastErrMessage =
     (let totalTables = sourceTableCount cfg progress;
          index = (case progress of None \<Rightarrow> 0 | Some p \<Rightarrow> pg_table_index p);
          rows = (case progress of None \<Rightarrow> 0 | Some p \<Rightarrow> pg_table_rows p);
          currentTable = (case progress of None \<Rightarrow> [] | Some p \<Rightarrow> trim_space (pg_table p));
          tone = graphFlowTone progress status;
          chunkSize = sourceChunkSize cfg sourceType;
          filterCount = sourceFilterCount cfg sourceType;
          metrics =
            [metric ''Mode'' (graphModeLabel cfg) ''blue'',
             metric ''Tables'' (graphTableCountLabel totalTables) ''slate''] @
            (if 0 < chunkSize then [metric ''Chunk'' (graphFormatInt chunkSize @ '' rows'') ''slate''] else []) @
            (if 0 < index \<and> 0 < totalTables
             then [metric ''Position'' (graphFormatInt index @ '' / '' @ graphFormatInt totalTables) tone] else []) @
            (if 0 < rows then [metric ''Rows emitted'' (graphFormatInt rows) tone] else []) @
            (case progress of None \<Rightarrow> [] | Some p \<Rightarrow>
               (if trim_space (pg_current_file p) \<noteq> [] \<and> 0 < pg_current_pos p
                then [metric ''CDC current'' (graphBinlogPosition (pg_current_file p) (pg_current_pos p)) tone] else []) @
               (if trim_space (pg_start_file p) \<noteq> [] \<and> 0 < pg_start_pos p
                then [metric ''CDC start'' (graphBinlogPosition (pg_start_file p) (pg_start_pos p)) ''slate''] else [])) @
            (if countResumeEnabled cfg then [metric ''Snapshot strategy'' ''Fresh reset + cursor resume'' ''blue''] else []) @
            (if 0 < filterCount then [metric ''Filters'' (graphFormatInt filterCount) ''slate''] else []) in
      \<lparr>gn_id = nid, gn_type = NodeSource,
       gn_label = ''Source ('' @ firstNonEmpty [sourceType, ''unknown''] @ '')'',
       gn_subtitle = firstNonEmpty [sourceEndpoint cfg, ''source:'' @ sourceType],
       gn_detail = sourceGraphDetail progress status currentTable lastErrComponent lastErrMessage,
       gn_state = sourceGraphState progress status, gn_status = sourceGraphStatus progress status,
       gn_metrics = metrics\<rparr>)"

definition buildBufferGraphNode ::
  "job_config option \<Rightarrow> string \<Rightarrow> job_status \<Rightarrow> job_progress option \<Rightarrow> string \<Rightarrow> string \<Rightarrow> graph_node" where
  "buildBufferGraphNode cfg nid status progress lastErrComponent lastErrMessage =
     (let tone = graphFlowTone progress status;
          metrics =
            [metric ''Capacity'' (graphFormatInt (bufferCapacity cfg) @ '' events'') tone,
             metric ''Guard'' (seconds_string 10) ''slate''] @
            (case progress of None \<Rightarrow> [] | Some p \<Rightarrow> [metric ''Phase'' (graphPhaseLabel (pg_phase p)) tone]);
          detail =
            (if isBackpressureProgress progress
             then ''Source is waiting because the sink has not drained buffered events fast enough.''
             else if status = JobStatusPending
             then ''Queue is idle while preflight validates source and target tables.''
             else if status = JobStatusDone then ''Buffered events have been drained.''
             else if status = JobStatusStopped
             then ''Stop/delete now waits for buffered events to drain before shutdown.''
             else if status = JobStatusFailed \<and> lastErrComponent = ''system'' \<and> lastErrMessage \<noteq> [] then lastErrMessage
             else ''In-memory channel between source and sink.'') in
      \<lparr>gn_id = nid, gn_type = NodeBuffer, gn_label = ''Event Buffer'',
       gn_subtitle = ''In-memory event handoff'', gn_detail = detail,
       gn_state = bufferGraphState progress status, gn_status = bufferGraphStatus progress status,
       gn_metrics = metrics\<rparr>)"

definition buildSinkGraphNode ::
  "job_config option \<Rightarrow> string \<Rightarrow> string \<Rightarrow> job_status \<Rightarrow> job_progress option \<Rightarrow> string \<Rightarrow> string \<Rightarrow> graph_node" where
  "buildSinkGraphNode cfg nid sinkType status progress lastErrComponent lastErrMessage =
     (let batchSize = sinkBatchSize cfg sinkType; flushSeconds = sinkFlushSeconds cfg sinkType;
          overrideCount = sinkOverrideCount cfg sinkType; target = sinkTargetSummary cfg sinkType;
          metrics =
            [metric ''Type'' (to_upper (firstNonEmpty [sinkType, ''unknown''])) ''blue''] @
            (if 0 < batchSize then [metric ''Batch'' (graphFormatInt batchSize @ '' events'') ''slate''] else []) @
            (if 0 < flushSeconds then [metric ''Flush'' (show_int flushSeconds @ ''s'') ''slate''] else []) @
            (if 0 < overrideCount then [metric ''Routes'' (graphFormatInt overrideCount) ''slate''] else []) @
            (if target \<noteq> [] then [metric ''Target'' target ''slate''] else []) @
            (case progress of None \<Rightarrow> [] | Some p \<Rightarrow>
               if trim_space (pg_sink_summary p) \<noteq> []
               then [metric ''Runtime'' (trim_space (pg_sink_summary p)) (graphFlowTone progress status)] else []) in
      \<lparr>gn_id = nid, gn_type = NodeSink, gn_label = ''Sink ('' @ firstNonEmpty [sinkType, ''unknown''] @ '')'',
       gn_subtitle = firstNonEmpty [sinkEndpoint cfg sinkType, ''sink:'' @ sinkType],
       gn_detail = sinkGraphDetail progress status lastErrComponent lastErrMessage,
       gn_state = sinkGraphState progress status, gn_status = sinkGraphStatus progress status,
       gn_metrics = metrics\<rparr>)"

definition buildSourceBufferEdge ::
  "job_config option \<Rightarrow> string \<Rightarrow> string \<Rightarrow> job_status \<Rightarrow> job_progress option \<Rightarrow> graph_edge" where
  "buildSourceBufferEdge cfg src dst status progress =
     (let chunkSize = sourceChunkSize cfg (sourceTypeFromConfig cfg); totalTables = sourceTableCount cfg progress in
      \<lparr>gg_from = src, gg_to = dst, gg_label = ''Read and emit events'',
       gg_detail = sourceEdgeDetail progress status, gg_state = sourceEdgeState progress status,
       gg_metrics =
         (if 0 < chunkSize then [metric ''Snapshot chunk'' (graphFormatInt chunkSize @ '' rows'') ''slate''] else []) @
         (if 0 < totalTables then [metric ''Table scope'' (graphTableCountLabel totalTables) ''slate''] else [])\<rparr>)"

definition buildBufferSinkEdge ::
  "job_config option \<Rightarrow> string \<Rightarrow> string \<Rightarrow> job_status \<Rightarrow> job_progress option \<Rightarrow> graph_edge" where
  "buildBufferSinkEdge cfg src dst status progress =
     (let sinkType = sinkTypeFromConfig cfg;
          batchSize = sinkBatchSize cfg sinkType; flushSeconds = sinkFlushSeconds cfg sinkType in
      \<lparr>gg_from = src, gg_to = dst, gg_label = ''Flush buffered events to target'',
       gg_detail = sinkEdgeDetail progress status, gg_state = sinkEdgeState progress status,
       gg_metrics =
         [metric ''Buffer cap'' (graphFormatInt (bufferCapacity cfg) @ '' events'') (graphFlowTone progress status)] @
         (if 0 < batchSize then [metric ''Flush batch'' (graphFormatInt batchSize @ '' events'') ''slate''] else []) @
         (if 0 < flushSeconds then [metric ''Flush cadence'' (show_int flushSeconds @ ''s'') ''slate''] else [])\<rparr>)"

section \<open>The whole graph\<close>

definition applyGraphHealth :: "job_graph \<Rightarrow> job_health \<Rightarrow> job_graph" where
  "applyGraphHealth graph health =
     (if jh_status health \<in> {[], JobHealthHealthy, JobHealthDegraded} then graph
      else let show_detail = (trim_space (jh_detail health) \<noteq> []) in
        graph\<lparr>gr_nodes := map (\<lambda>n. n\<lparr>gn_status := jh_status health, gn_state := jh_status health,
                gn_detail := if show_detail then jh_detail health else gn_detail n\<rparr>) (gr_nodes graph),
              gr_edges := map (\<lambda>e. e\<lparr>gg_state := jh_status health,
                gg_detail := if show_detail then jh_detail health else gg_detail e\<rparr>) (gr_edges graph)\<rparr>)"

definition lastGraphError :: "job_error list \<Rightarrow> string \<times> string" where
  "lastGraphError errors =
     (if errors = [] then ([], [])
      else (to_lower (trim_space (je_component (last errors))), trim_space (je_message (last errors))))"

definition buildGraph :: "int \<Rightarrow> job \<Rightarrow> job_graph option" where
  "buildGraph now j =
     (case jb_config j of
        None \<Rightarrow> None
      | Some c \<Rightarrow>
          (let cfg = Some c; progress = jb_progress j; status = jb_status j;
               sourceType = sourceTypeFromConfig cfg; sinkType = sinkTypeFromConfig cfg;
               (component, message) = lastGraphError (jb_errors j);
               sourceID = ''source:'' @ sourceType; bufferID = ''buffer:events''; sinkID = ''sink:'' @ sinkType;
               health = deriveJobHealth status progress (jb_updated j) now in
           Some (applyGraphHealth
             \<lparr>gr_job = jc_id c, gr_status = status, gr_health = jh_status health,
              gr_health_detail = jh_detail health, gr_progress = progress,
              gr_nodes = [buildSourceGraphNode cfg sourceID sourceType status progress component message,
                          buildBufferGraphNode cfg bufferID status progress component message,
                          buildSinkGraphNode cfg sinkID sinkType status progress component message],
              gr_edges = [buildSourceBufferEdge cfg sourceID bufferID status progress,
                          buildBufferSinkEdge cfg bufferID sinkID status progress]\<rparr> health)))"

section \<open>Digit grouping\<close>

text \<open>The reference: a comma after every third digit, counted from the right.\<close>

fun commas_from_right :: "string \<Rightarrow> string" where
  "commas_from_right (a # b # c # d # rest) = a # b # c # CHR '','' # commas_from_right (d # rest)"
| "commas_from_right s = s"

lemma comma_groups_snoc3:
  "length s = 3 * k \<Longrightarrow> comma_groups (s @ [a, b, c]) = comma_groups s @ CHR '','' # [a, b, c]"
proof (induction k arbitrary: s)
  case (Suc k)
  then obtain x y z r where s: "s = x # y # z # r" "length r = 3 * k"
    by (auto simp: length_Suc_conv numeral_eq_Suc)
  from Suc.IH [OF s(2)] show ?case by (simp add: s)
qed simp

lemma commas_from_right_ne: "r \<noteq> [] \<Longrightarrow> commas_from_right (a # b # c # r) = a # b # c # CHR '','' # commas_from_right r"
  by (cases r) auto

lemma commas_short: "length s \<le> 3 \<Longrightarrow> commas_from_right s = s"
  by (cases s rule: commas_from_right.cases) simp_all

lemma length_3: "length s = 3 \<Longrightarrow> \<exists>a b c. s = [a, b, c]"
  by (metis length_0_conv length_Suc_conv numeral_3_eq_3)

lemma groups_agree:
  "length rest = 3 * k \<Longrightarrow> h \<noteq> [] \<Longrightarrow> length h \<le> 3 \<Longrightarrow>
     rev (commas_from_right (rev (h @ rest))) = h @ comma_groups rest"
proof (induction k arbitrary: rest)
  case 0
  then show ?case by (simp add: commas_short)
next
  case (Suc k)
  define r where "r = take (3 * k) rest"
  have len: "length (drop (3 * k) rest) = 3" using Suc.prems(1) by simp
  then obtain a b c where d: "drop (3 * k) rest = [a, b, c]"
    using length_3 by blast
  have rest: "rest = r @ [a, b, c]" unfolding r_def by (metis append_take_drop_id d)
  have r: "length r = 3 * k" using Suc.prems(1) by (simp add: r_def)
  have "rev (h @ rest) = c # b # a # rev (h @ r)" by (simp add: rest)
  moreover have "rev (h @ r) \<noteq> []" using Suc.prems(2) by simp
  ultimately have "rev (commas_from_right (rev (h @ rest))) = rev (commas_from_right (rev (h @ r))) @ CHR '','' # [a, b, c]"
    by (simp add: commas_from_right_ne)
  with Suc.IH [OF r Suc.prems(2,3)] show ?case by (simp add: rest comma_groups_snoc3 [OF r])
qed

lemma comma_groups_digits: "filter (\<lambda>x. x \<noteq> CHR '','') (comma_groups s) = filter (\<lambda>x. x \<noteq> CHR '','') s"
  by (induction s rule: comma_groups.induct) auto

lemma show_nat_chars: "x \<in> set (show_nat n) \<Longrightarrow> x \<noteq> CHR '','' \<and> x \<noteq> CHR ''-''"
  using show_nat_digits [of x n] by (auto simp: is_digit_def)

text \<open>
  The digit grouping of the metrics puts a comma after every third digit counted from the right and
  none in front, keeps the sign, and loses nothing: without the commas it is the decimal number again.
\<close>

theorem graphFormatInt_groups:
  "graphFormatInt n = (if n < 0 then ''-'' else []) @ rev (commas_from_right (rev (show_nat (nat \<bar>n\<bar>)))) \<and>
   filter (\<lambda>x. x \<noteq> CHR '','') (graphFormatInt n) = show_int n"
proof -
  let ?d = "show_nat (nat \<bar>n\<bar>)"
  let ?s = "if n < 0 then ''-'' else []"
  have raw: "show_int n = ?s @ ?d" by (simp add: show_int_def)
  have minus: "\<not> has_prefix ''-'' ?d" using show_nat_chars [of "hd ?d" "nat \<bar>n\<bar>"]
    by (cases ?d) (auto simp: has_prefix_def)
  have clean: "filter (\<lambda>x. x \<noteq> CHR '','') ?d = ?d" using show_nat_chars by (auto simp: filter_id_conv)
  define h where "h = (if length ?d mod 3 = 0 then 3 else length ?d mod 3)"
  have ds: "rev (commas_from_right (rev ?d)) = take h ?d @ comma_groups (drop h ?d)" if "3 < length ?d \<or> length ?d = 3"
  proof -
    have "h \<le> 3" "0 < h" by (simp_all add: h_def)
    moreover have "length ?d - h = 3 * (if length ?d mod 3 = 0 then length ?d div 3 - 1 else length ?d div 3)"
      by (simp add: h_def right_diff_distrib' minus_mod_eq_mult_div) (metis mult_div_mod_eq add_0_right)
    ultimately show ?thesis using groups_agree [of "drop h ?d" _ "take h ?d"] that by (auto simp: min_def)
  qed
  have num: "graphFormatInt n = ?s @ rev (commas_from_right (rev ?d))"
  proof (cases "length (show_int n) \<le> 3")
    case True
    then have "length ?d \<le> 3" by (simp add: raw)
    with True show ?thesis by (simp add: graphFormatInt_def commas_short raw)
  next
    case False
    then have l: "3 < length ?d \<or> length ?d = 3" by (cases "n < 0") (auto simp: raw)
    have "(if has_prefix ''-'' (show_int n) then (''-'', drop 1 (show_int n)) else ([], show_int n)) = (?s, ?d)"
      using minus by (cases "n < 0") (simp_all add: raw has_prefix_def)
    with False have "graphFormatInt n = ?s @ take h ?d @ comma_groups (drop h ?d)"
      unfolding graphFormatInt_def Let_def h_def by (simp only: if_False prod.case)
    then show ?thesis unfolding ds [OF l] .
  qed
  have "filter (\<lambda>x. x \<noteq> CHR '','') (rev (commas_from_right (rev ?d))) = ?d"
  proof (cases "length ?d < 3")
    case True
    then show ?thesis using clean by (simp add: commas_short)
  next
    case False
    then have "3 < length ?d \<or> length ?d = 3" by linarith
    from ds [OF this] have "filter (\<lambda>x. x \<noteq> CHR '','') (rev (commas_from_right (rev ?d))) =
        filter (\<lambda>x. x \<noteq> CHR '','') (take h ?d) @ filter (\<lambda>x. x \<noteq> CHR '','') (drop h ?d)"
      by (simp only: filter_append comma_groups_digits)
    also have "\<dots> = ?d" unfolding filter_append [symmetric] append_take_drop_id by (rule clean)
    finally show ?thesis .
  qed
  then show ?thesis unfolding num raw filter_append by simp
qed

section \<open>Shape\<close>

lemma node_fields:
  "gn_id (buildSourceGraphNode cfg i st s p lc lm) = i" "gn_type (buildSourceGraphNode cfg i st s p lc lm) = NodeSource"
  "gn_status (buildSourceGraphNode cfg i st s p lc lm) = sourceGraphStatus p s"
  "gn_id (buildBufferGraphNode cfg i s p lc lm) = i" "gn_type (buildBufferGraphNode cfg i s p lc lm) = NodeBuffer"
  "gn_status (buildBufferGraphNode cfg i s p lc lm) = bufferGraphStatus p s"
  "gn_id (buildSinkGraphNode cfg i st s p lc lm) = i" "gn_type (buildSinkGraphNode cfg i st s p lc lm) = NodeSink"
  "gn_status (buildSinkGraphNode cfg i st s p lc lm) = sinkGraphStatus p s"
  "gg_from (buildSourceBufferEdge cfg i k s p) = i" "gg_to (buildSourceBufferEdge cfg i k s p) = k"
  "gg_from (buildBufferSinkEdge cfg i k s p) = i" "gg_to (buildBufferSinkEdge cfg i k s p) = k"
  by (simp_all add: buildSourceGraphNode_def buildBufferGraphNode_def buildSinkGraphNode_def
      buildSourceBufferEdge_def buildBufferSinkEdge_def Let_def)

lemma status_shown:
  "sourceGraphStatus p s = s \<or> sourceGraphStatus p s = JobStatusPending \<and> s = JobStatusRunning \<and> graphPhase p = ''preflight''"
  "bufferGraphStatus p s = s \<or> bufferGraphStatus p s = JobStatusPending \<and> s = JobStatusRunning \<and> isBackpressureProgress p"
  "sinkGraphStatus p s = s \<or> sinkGraphStatus p s = JobStatusPending \<and> s = JobStatusRunning \<and>
     (graphPhase p = ''preflight'' \<or> isBackpressureProgress p)"
  by (auto simp: sourceGraphStatus_def bufferGraphStatus_def sinkGraphStatus_def)

lemma health_values:
  "jh_status (deriveJobHealth s p u now) \<in> {[], JobHealthHealthy, JobHealthDegraded, JobHealthCritical, JobHealthStale}"
  by (simp add: deriveJobHealth_def Let_def split: option.split)

lemma resting_health:
  "st \<notin> {JobStatusRunning, JobStatusPending, JobStatusPausing} \<Longrightarrow> deriveJobHealth st p u now = \<lparr>jh_status = [], jh_detail = []\<rparr>"
  by (simp add: deriveJobHealth_def Let_def)

lemma resting_nodes:
  "st \<notin> {JobStatusRunning, JobStatusPending, JobStatusPausing} \<Longrightarrow> sourceGraphStatus p st = st"
  "st \<notin> {JobStatusRunning, JobStatusPending, JobStatusPausing} \<Longrightarrow> bufferGraphStatus p st = st"
  "st \<notin> {JobStatusRunning, JobStatusPending, JobStatusPausing} \<Longrightarrow> sinkGraphStatus p st = st"
  by (simp_all add: sourceGraphStatus_def bufferGraphStatus_def sinkGraphStatus_def)

text \<open>
  C32: a job with a configuration always has a graph, and it is well formed: a source, a buffer and a
  sink node with distinct names, one edge from the first to the second and one from the second to the
  third, under the job's own status. A critical or stale health is shown by every node and edge; otherwise
  every node shows the job's own status, or PENDING for a RUNNING job that is in preflight or waits on a full
  buffer. A job that is not PENDING, RUNNING or PAUSING has no health at all, and every node shows its status
  whatever its progress and however long ago it was updated, so a finished job is never shown as anything
  but finished.
\<close>

theorem buildGraph_well_formed:
  "(case buildGraph now j of
      None \<Rightarrow> jb_config j = None
    | Some g \<Rightarrow>
        gr_status g = jb_status j \<and>
        map gn_type (gr_nodes g) = [NodeSource, NodeBuffer, NodeSink] \<and> distinct (map gn_id (gr_nodes g)) \<and>
        map gg_from (gr_edges g) = butlast (map gn_id (gr_nodes g)) \<and> map gg_to (gr_edges g) = tl (map gn_id (gr_nodes g)) \<and>
        (if gr_health g = JobHealthCritical \<or> gr_health g = JobHealthStale
         then list_all (\<lambda>n. gn_status n = gr_health g \<and> gn_state n = gr_health g) (gr_nodes g) \<and>
              list_all (\<lambda>e. gg_state e = gr_health g) (gr_edges g)
         else list_all (\<lambda>n. gn_status n = jb_status j \<or> gn_status n = JobStatusPending \<and> jb_status j = JobStatusRunning \<and>
                (graphPhase (jb_progress j) = ''preflight'' \<or> isBackpressureProgress (jb_progress j))) (gr_nodes g)) \<and>
        (if jb_status j \<in> {JobStatusRunning, JobStatusPending, JobStatusPausing} then True
         else gr_health g = [] \<and> gr_health_detail g = [] \<and> list_all (\<lambda>n. gn_status n = jb_status j) (gr_nodes g)))"
proof (cases "jb_config j")
  case None
  then show ?thesis by (simp add: buildGraph_def)
next
  case (Some c)
  obtain comp msg where err: "lastGraphError (jb_errors j) = (comp, msg)" by (meson surj_pair)
  show ?thesis
  proof (cases "jb_status j \<in> {JobStatusRunning, JobStatusPending, JobStatusPausing}")
    case True
    define h where "h = deriveJobHealth (jb_status j) (jb_progress j) (jb_updated j) now"
    define loud where "loud \<longleftrightarrow> jh_status h \<in> {JobHealthCritical, JobHealthStale}"
    have quiet: "jh_status h \<in> {[], JobHealthHealthy, JobHealthDegraded} \<longleftrightarrow> \<not> loud"
      using health_values [of "jb_status j" "jb_progress j" "jb_updated j" now] unfolding h_def [symmetric] loud_def by auto
    have lo: "(jh_status h = JobHealthCritical \<or> jh_status h = JobHealthStale) = loud" by (simp add: loud_def)
    show ?thesis unfolding if_P [OF True] unfolding buildGraph_def Some err h_def [symmetric] option.case Let_def prod.case applyGraphHealth_def quiet
      using status_shown [of "jb_progress j" "jb_status j"]
      by (cases loud) (simp add: node_fields lo, simp add: node_fields lo, blast)
  next
    case False
    show ?thesis unfolding if_not_P [OF False]
      unfolding buildGraph_def Some err resting_health [OF False] option.case Let_def prod.case applyGraphHealth_def
      by (simp add: node_fields resting_nodes [OF False])
  qed
qed

end
