(* ===== verification/Rebuild_Config.thy ===== *)
theory Rebuild_Config
  imports Config_Model
begin

text \<open>
  Which jobs may have their Iceberg target rebuilt from a fresh snapshot (\<open>pkg/config/iceberg_rebuild.go\<close>,
  \<open>pkg/config/iceberg_scoped_rebuild.go\<close>). The JSON conversion of the two connector sections is an argument,
  \<open>decoders\<close>. Text is ASCII. A Go map is an association list in the order of the iteration at hand.

  The lemmas show that an admitted rebuild names a replacement scope for every source table: the whole
  target, or a filter that selects the same rows on both sides.
\<close>

abbreviation "IcebergRebuildFullResetKey \<equiv> ''iceberg_rebuild_full_reset''"
abbreviation "IcebergRebuildScopedKey \<equiv> ''iceberg_rebuild_scoped''"
abbreviation "IcebergRebuildSnapshotWriteMode \<equiv> ''rebuild-truncate-append-v1''"
abbreviation "IcebergRebuildScopedWriteMode \<equiv> ''rebuild-scoped-trino-v1''"
abbreviation "IcebergRebuildScopedNativeWriteMode \<equiv> ''rebuild-scoped-native-v2''"

section \<open>The sink section a rebuild reads\<close>

record replace_filter =
  rf_column :: string
  rf_op :: string
  rf_value :: string

record rebuild_sink =
  rb_executor :: string
  rb_write_mode :: string
  rb_filters :: "(string \<times> replace_filter) list"
  rb_truncate :: "string list"
  rb_exclude :: "string list"
  rb_allow_patterns :: bool
  rb_trino_uri :: string

record rebuild_decoders =
  rd_source :: "gomap \<Rightarrow> string + mysql_config"
  rd_sink :: "gomap \<Rightarrow> string + rebuild_sink"

definition IcebergSnapshotRebuildUsesTrino :: "job_config option \<Rightarrow> bool" where
  "IcebergSnapshotRebuildUsesTrino cfg =
     (case cfg of None \<Rightarrow> False
      | Some c \<Rightarrow> (case jc_sink c of None \<Rightarrow> False
          | Some k \<Rightarrow> equal_fold (trim_space (case map_get (cs_config k) ''snapshot_replace_delete_executor'' of
              Some (GoStr v) \<Rightarrow> v | _ \<Rightarrow> [])) ''trino''))"

section \<open>Filters\<close>

text \<open>
  The regular expression of the supported source predicates, as a scanner: blanks, an optional backtick, an
  identifier, an optional backtick, blanks, an operator, blanks and a quoted literal up to the end. Each
  repetition ends where the next part begins, so the leftmost match is the only one.
\<close>

abbreviation quote :: char where "quote \<equiv> CHR 0x27"
abbreviation tick :: char where "tick \<equiv> CHR 0x60"

definition re_space :: "char \<Rightarrow> bool" where
  "re_space c \<longleftrightarrow> c = CHR '' '' \<or> c = CHR 0x09 \<or> c = CHR 0x0A \<or> c = CHR 0x0C \<or> c = CHR 0x0D"

definition ident_start :: "char \<Rightarrow> bool" where
  "ident_start c \<longleftrightarrow> (let n = of_char (lower_char c) in (97::nat) \<le> n \<and> n \<le> 122) \<or> c = CHR ''_''"

definition ident_char :: "char \<Rightarrow> bool" where
  "ident_char c \<longleftrightarrow> ident_start c \<or> is_digit c"

definition drop_tick :: "string \<Rightarrow> string" where
  "drop_tick s = (case s of c # r \<Rightarrow> if c = tick then r else s | [] \<Rightarrow> s)"

definition filter_operators :: "string list" where
  "filter_operators = [''>='', ''<='', ''<>'', ''!='', ''='', ''>'', ''<'']"

definition operator_prefix :: "string \<Rightarrow> (string \<times> string) option" where
  "operator_prefix s =
     (case find (\<lambda>op. has_prefix op s) filter_operators of None \<Rightarrow> None | Some op \<Rightarrow> Some (op, drop (length op) s))"

fun quoted :: "string \<Rightarrow> (string \<times> string) option" where
  "quoted [] = None"
| "quoted (c # s) =
     (if c = quote
      then (case s of
              [] \<Rightarrow> Some ([], [])
            | d # s' \<Rightarrow> if d = quote then map_option (\<lambda>(l, r). (quote # quote # l, r)) (quoted s') else Some ([], s))
      else map_option (\<lambda>(l, r). (c # l, r)) (quoted s))"

definition parse_filter :: "string \<Rightarrow> (string \<times> string \<times> string) option" where
  "parse_filter expression =
     (let s = drop_tick (dropWhile re_space expression) in
      case s of
        [] \<Rightarrow> None
      | c # r \<Rightarrow>
          if \<not> ident_start c then None
          else (case operator_prefix (dropWhile re_space (drop_tick (dropWhile ident_char s))) of
            None \<Rightarrow> None
          | Some (op, t) \<Rightarrow>
              (case dropWhile re_space t of
                 [] \<Rightarrow> None
               | d # u \<Rightarrow>
                   if d \<noteq> quote then None
                   else (case quoted u of
                     None \<Rightarrow> None
                   | Some (lit, rest) \<Rightarrow>
                       if list_all re_space rest then Some (takeWhile ident_char s, op, lit) else None))))"

fun undouble :: "string \<Rightarrow> string" where
  "undouble (c # d # s) = (if c = quote \<and> d = quote then quote # undouble s else c # undouble (d # s))"
| "undouble s = s"

definition filter_ops :: "(string \<times> string) list" where
  "filter_ops = [(''gte'', ''>=''), (''ge'', ''>=''), (''gt'', ''>''), (''lte'', ''<=''), (''le'', ''<=''), (''lt'', ''<''),
     (''eq'', ''=''), (''neq'', ''<>''), (''ne'', ''<>'')]"

definition filter_op :: "string \<Rightarrow> string" where
  "filter_op raw =
     (let r = to_lower (trim_space raw) in
      case map_get filter_ops r of
        Some op \<Rightarrow> op
      | None \<Rightarrow> if str_contains ('' '' @ r @ '' '') '' >= <= <> != = > < ''
          then (if r = ''!='' then ''<>'' else r) else [])"

definition ValidateIcebergRebuildFilter :: "string \<Rightarrow> replace_filter option \<Rightarrow> string option" where
  "ValidateIcebergRebuildFilter expression flt =
     (case flt of
        None \<Rightarrow> if trim_space expression \<noteq> []
          then Some ''source snapshot filter has no matching target replacement filter'' else None
      | Some f \<Rightarrow>
          (let op = filter_op (rf_op f) in
           case parse_filter expression of
             Some (col, sop, lit) \<Rightarrow>
               if \<not> equal_fold col (rf_column f) \<or> op = [] \<or> sop \<noteq> op \<and> \<not> (op = ''<>'' \<and> sop = ''!='') \<or>
                  undouble lit \<noteq> rf_value f
               then Some ''source and target snapshot filter scopes do not match'' else None
           | None \<Rightarrow> Some ''source and target snapshot filter scopes do not match''))"

section \<open>Patterns\<close>

fun split_on :: "char \<Rightarrow> string \<Rightarrow> string list" where
  "split_on d [] = [[]]"
| "split_on d (c # s) =
     (if c = d then [] # split_on d s
      else (case split_on d s of [] \<Rightarrow> [[c]] | w # ws \<Rightarrow> (c # w) # ws))"

text \<open>The sink's pattern language: a star stands for any text without a line break.\<close>

fun star_match :: "string \<Rightarrow> string \<Rightarrow> bool" where
  "star_match [] v \<longleftrightarrow> v = []"
| "star_match (p # ps) [] \<longleftrightarrow> p = CHR ''*'' \<and> star_match ps []"
| "star_match (p # ps) (c # cs) \<longleftrightarrow>
     (if p = CHR ''*'' then star_match ps (c # cs) \<or> c \<noteq> CHR 0x0A \<and> star_match (p # ps) cs
      else p = c \<and> star_match ps cs)"

definition rebuild_glob :: "string \<Rightarrow> string \<Rightarrow> bool" where
  "rebuild_glob pattern v \<longleftrightarrow> pattern \<noteq> [] \<and> star_match pattern v"

definition truncate_matches :: "string \<Rightarrow> string \<Rightarrow> bool \<Rightarrow> string \<Rightarrow> bool" where
  "truncate_matches db tbl allow pattern \<longleftrightarrow>
     (let p = to_lower (trim_space pattern) in
      p = db @ ''.'' @ tbl \<or>
      allow \<and> (case split_on CHR ''.'' p of
                 [a, b] \<Rightarrow> rebuild_glob a db \<and> rebuild_glob b tbl
               | _ \<Rightarrow> rebuild_glob p tbl))"

text \<open>\<open>path.Match\<close> on a pattern without question marks and classes; a star stops at a slash.\<close>

fun path_match :: "string \<Rightarrow> string \<Rightarrow> bool" where
  "path_match [] v \<longleftrightarrow> v = []"
| "path_match (p # ps) v \<longleftrightarrow>
     (if p = CHR ''*''
      then path_match ps v \<or> (case v of [] \<Rightarrow> False | c # cs \<Rightarrow> c \<noteq> CHR ''/'' \<and> path_match (p # ps) cs)
      else if p = CHR 0x5C
      then (case ps of [] \<Rightarrow> False | q # qs \<Rightarrow> (case v of [] \<Rightarrow> False | c # cs \<Rightarrow> q = c \<and> path_match qs cs))
      else (case v of [] \<Rightarrow> False | c # cs \<Rightarrow> p = c \<and> path_match ps cs))"

definition contains_any :: "string \<Rightarrow> string \<Rightarrow> bool" where
  "contains_any s chars \<longleftrightarrow> list_ex (\<lambda>c. c \<in> set chars) s"

text \<open>The selections matched here have the form \<open>db.table\<close>, so the part after the dot exists.\<close>

definition rebuildPatternMatches :: "string \<Rightarrow> string \<Rightarrow> bool" where
  "rebuildPatternMatches pattern selection \<longleftrightarrow>
     (if contains_any pattern ''?['' then False
      else let p = to_lower (trim_space pattern);
               s = to_lower (trim_space selection) in
        path_match p (if CHR ''.'' \<in> set p then s else drop 1 (dropWhile (\<lambda>c. c \<noteq> CHR ''.'') s)))"

fun str_less :: "string \<Rightarrow> string \<Rightarrow> bool" where
  "str_less [] t \<longleftrightarrow> t \<noteq> []"
| "str_less (c # s) [] \<longleftrightarrow> False"
| "str_less (c # s) (d # t) \<longleftrightarrow> (of_char c :: nat) < of_char d \<or> c = d \<and> str_less s t"

definition pattern_before :: "string \<Rightarrow> string \<Rightarrow> bool" where
  "pattern_before x y \<longleftrightarrow>
     (let a = length (filter (\<lambda>c. c \<noteq> CHR ''*'') x); b = length (filter (\<lambda>c. c \<noteq> CHR ''*'') y) in
      if a \<noteq> b then b < a else str_less x y)"

text \<open>The first of the sorted keys; the keys of a map are distinct, so the order has one least element.\<close>

fun best_key :: "string list \<Rightarrow> string option" where
  "best_key [] = None"
| "best_key (k # ks) =
     (case best_key ks of None \<Rightarrow> Some k | Some m \<Rightarrow> Some (if pattern_before m k then m else k))"

definition rebuildConfigMatch :: "(string \<times> 'v) list \<Rightarrow> string \<Rightarrow> 'v option" where
  "rebuildConfigMatch entries selection =
     (case map_get entries selection of
        Some v \<Rightarrow> Some v
      | None \<Rightarrow>
          (case best_key (filter (\<lambda>k. rebuildPatternMatches k selection) (map fst entries)) of
             None \<Rightarrow> None | Some k \<Rightarrow> map_get entries k))"

definition rebuildSourceConfigMatch :: "(string \<times> 'v) list \<Rightarrow> string \<Rightarrow> 'v option" where
  "rebuildSourceConfigMatch entries selection =
     (case map_get entries selection of
        Some v \<Rightarrow> Some v
      | None \<Rightarrow>
          (case (if CHR ''.'' \<in> set selection
                 then map_get entries (drop 1 (dropWhile (\<lambda>c. c \<noteq> CHR ''.'') selection)) else None) of
             Some v \<Rightarrow> Some v
           | None \<Rightarrow> rebuildConfigMatch entries selection))"

section \<open>The validation\<close>

definition rebuild_selections :: "mysql_config \<Rightarrow> string list" where
  "rebuild_selections source =
     my_tables source @
     (if my_database source \<noteq> [] \<and> my_table source \<noteq> [] then [my_database source @ ''.'' @ my_table source] else []) @
     concat (map (\<lambda>db. map (\<lambda>t. db @ ''.'' @ t) (my_table_names source)) (my_databases source))"

definition explicit_table :: "string \<Rightarrow> (string \<times> string) option" where
  "explicit_table raw =
     (let s = to_lower (trim_space raw) in
      case split_on CHR ''.'' s of
        [a, b] \<Rightarrow> if a = [] \<or> b = [] \<or> contains_any s ''*?['' then None else Some (a, b)
      | _ \<Rightarrow> None)"

definition native_table_check :: "mysql_config \<Rightarrow> rebuild_sink \<Rightarrow> string \<Rightarrow> string \<Rightarrow> string option" where
  "native_table_check source sink mode raw =
     (case explicit_table raw of
        None \<Rightarrow> Some (''snapshot rebuild requires explicit source table names: '' @ to_lower (trim_space raw))
      | Some (db, tbl) \<Rightarrow>
          let name = db @ ''.'' @ tbl in
          if list_ex (truncate_matches db tbl True) (rb_exclude sink)
          then Some (''snapshot rebuild target excluded from truncate: '' @ name)
          else if list_ex (\<lambda>(p, c). trim_space (mt_filter c) \<noteq> [] \<and> truncate_matches db tbl True p) (my_table_configs source)
          then Some (''full snapshot rebuild requires removing source snapshot filter for '' @ name)
          else if mode = ''truncate-append'' \<or> mode = IcebergRebuildSnapshotWriteMode \<or>
              list_ex (truncate_matches db tbl (rb_allow_patterns sink)) (rb_truncate sink)
          then None
          else Some (''snapshot rebuild requires configured truncate for source table '' @ name))"

text \<open>The first error of a loop over the selections.\<close>

fun first_error :: "('a \<Rightarrow> string option) \<Rightarrow> 'a list \<Rightarrow> string option" where
  "first_error f [] = None"
| "first_error f (x # xs) = (case f x of Some e \<Rightarrow> Some e | None \<Rightarrow> first_error f xs)"

definition native_rebuild_check :: "mysql_config \<Rightarrow> rebuild_sink \<Rightarrow> string option" where
  "native_rebuild_check source sink =
     (let executor = to_lower (trim_space (rb_executor sink));
          mode = to_lower (trim_space (rb_write_mode sink)) in
      if executor \<noteq> [] \<and> executor \<noteq> ''native''
      then Some ''archived snapshot rebuild requires native target reset with durable catalog commit guard''
      else if mode \<noteq> ''auto'' \<and> mode \<noteq> ''truncate-append'' \<and> mode \<noteq> IcebergRebuildSnapshotWriteMode
      then Some ''snapshot rebuild requires configured truncate-append or auto with snapshot_truncate_tables''
      else if mode = ''auto'' \<and> rb_filters sink \<noteq> []
      then Some ''snapshot rebuild requires full target reset; auto currently selects snapshot_replace_filters instead of truncate''
      else if rebuild_selections source = [] then Some ''snapshot rebuild requires explicit source table selection''
      else first_error (native_table_check source sink mode) (rebuild_selections source))"

definition scoped_table_check :: "mysql_config \<Rightarrow> rebuild_sink \<Rightarrow> string \<Rightarrow> string option" where
  "scoped_table_check source sink raw =
     (case explicit_table raw of
        None \<Rightarrow> Some ''scoped rebuild requires explicit source table names''
      | Some (db, tbl) \<Rightarrow>
          let name = db @ ''.'' @ tbl;
              flt = rebuildConfigMatch (rb_filters sink) name;
              expression = (case rebuildSourceConfigMatch (my_table_configs source) name of Some c \<Rightarrow> mt_filter c | None \<Rightarrow> []) in
          case ValidateIcebergRebuildFilter expression flt of
            Some e \<Rightarrow> Some (''scoped rebuild '' @ name @ '': '' @ e)
          | None \<Rightarrow>
              if flt \<noteq> None then None
              else if list_ex (\<lambda>p. rebuildPatternMatches p name) (rb_exclude sink)
              then Some (''scoped rebuild cannot fully reset excluded source '' @ name)
              else if list_ex (\<lambda>p. p = name \<or> rb_allow_patterns sink \<and> rebuildPatternMatches p name) (rb_truncate sink)
              then None
              else Some (''scoped rebuild requires configured reset for unfiltered table '' @ name))"

definition validateScopedIcebergRebuild :: "rebuild_decoders \<Rightarrow> gomap \<Rightarrow> gomap \<Rightarrow> string option" where
  "validateScopedIcebergRebuild D source_map sink_map =
     (case rd_source D source_map of
        Inl e \<Rightarrow> Some e
      | Inr source0 \<Rightarrow>
     (case rd_sink D sink_map of
        Inl e \<Rightarrow> Some e
      | Inr sink \<Rightarrow>
          let source = NormalizeMySQLConfig source0;
              mode = to_lower (trim_space (rb_write_mode sink)) in
          if trim_space (rb_trino_uri sink) = [] \<or> rb_filters sink = []
          then Some ''scoped Trino rebuild requires coordinator configuration and matching replacement filters''
          else if mode \<noteq> ''auto'' \<and> mode \<noteq> IcebergRebuildScopedWriteMode \<and> mode \<noteq> IcebergRebuildScopedNativeWriteMode
          then Some ''scoped Trino rebuild requires auto snapshot mode''
          else if rebuild_selections source = [] then Some ''scoped rebuild requires explicit source selection''
          else first_error (scoped_table_check source sink) (rebuild_selections source)))"

definition ValidateIcebergSnapshotRebuild :: "rebuild_decoders \<Rightarrow> job_config option \<Rightarrow> string option" where
  "ValidateIcebergSnapshotRebuild D cfg =
     (case cfg of
        None \<Rightarrow> Some ''snapshot rebuild requires MySQL and native Iceberg''
      | Some c \<Rightarrow>
     (case (jc_source c, jc_sink c) of
        (Some src, Some snk) \<Rightarrow>
          if cs_type src \<noteq> ''mysql'' \<or> cs_type snk \<noteq> ''iceberg_native''
          then Some ''snapshot rebuild requires MySQL and native Iceberg''
          else if jc_mode c = JobModeSnapshotOnly
          then Some ''purged-binlog rebuild requires a snapshot-to-CDC job''
          else if IcebergSnapshotRebuildUsesTrino (Some c)
          then validateScopedIcebergRebuild D (cs_config src) (cs_config snk)
          else (case rd_source D (cs_config src) of
            Inl e \<Rightarrow> Some e
          | Inr source \<Rightarrow>
             (case rd_sink D (cs_config snk) of
                Inl e \<Rightarrow> Some e
              | Inr sink \<Rightarrow> native_rebuild_check source sink))
      | _ \<Rightarrow> Some ''snapshot rebuild requires MySQL and native Iceberg''))"

section \<open>A filter and its replacement select the same rows\<close>

text \<open>
  What a predicate selects: \<open>row\<close> gives the value of a column by its lower-case name, \<open>cmp\<close> compares two
  values as the database does (negative, zero, positive).
\<close>

definition op_holds :: "string \<Rightarrow> int \<Rightarrow> bool" where
  "op_holds op d =
     (if op = ''>='' then 0 \<le> d else if op = ''<='' then d \<le> 0 else if op = ''>'' then 0 < d
      else if op = ''<'' then d < 0 else if op = ''='' then d = 0 else if op = ''<>'' \<or> op = ''!='' then d \<noteq> 0 else False)"

definition source_selects :: "(string \<Rightarrow> string \<Rightarrow> int) \<Rightarrow> (string \<Rightarrow> string) \<Rightarrow> string \<Rightarrow> bool" where
  "source_selects cmp row expression =
     (case parse_filter expression of
        None \<Rightarrow> False
      | Some (col, op, lit) \<Rightarrow> op_holds op (cmp (row (to_lower col)) (undouble lit)))"

definition target_selects :: "(string \<Rightarrow> string \<Rightarrow> int) \<Rightarrow> (string \<Rightarrow> string) \<Rightarrow> replace_filter \<Rightarrow> bool" where
  "target_selects cmp row f \<longleftrightarrow> op_holds (filter_op (rf_op f)) (cmp (row (to_lower (rf_column f))) (rf_value f))"

lemma accepted_filter:
  assumes "ValidateIcebergRebuildFilter e (Some f) = None"
  obtains col op lit where "parse_filter e = Some (col, op, lit)" "equal_fold col (rf_column f)"
    "op = filter_op (rf_op f) \<or> filter_op (rf_op f) = ''<>'' \<and> op = ''!=''" "undouble lit = rf_value f"
  using assms by (auto simp: ValidateIcebergRebuildFilter_def Let_def split: option.splits if_splits)

lemma op_holds_unequal: "op_holds ''!='' d = op_holds ''<>'' d"
  by (simp add: op_holds_def)

lemma accepted_filter_selects:
  assumes "ValidateIcebergRebuildFilter e (Some f) = None"
  shows "source_selects cmp row e \<longleftrightarrow> target_selects cmp row f"
proof -
  obtain col op lit where e: "parse_filter e = Some (col, op, lit)" "equal_fold col (rf_column f)"
    "op = filter_op (rf_op f) \<or> filter_op (rf_op f) = ''<>'' \<and> op = ''!=''" "undouble lit = rf_value f"
    using accepted_filter [OF assms] .
  have "op_holds op d = op_holds (filter_op (rf_op f)) d" for d
    using e(3)
  proof
    assume "filter_op (rf_op f) = ''<>'' \<and> op = ''!=''"
    then show ?thesis using op_holds_unequal by metis
  qed metis
  then show ?thesis
    using e(2) by (simp add: source_selects_def target_selects_def e(1,4) equal_fold_def)
qed

section \<open>Rendered predicates\<close>

definition double_quotes :: "string \<Rightarrow> string" where
  "double_quotes v = concat (map (\<lambda>c. if c = quote then [c, c] else [c]) v)"

definition render_filter :: "string \<Rightarrow> string \<Rightarrow> string \<Rightarrow> string" where
  "render_filter col op v = col @ '' '' @ op @ '' '' @ quote # double_quotes v @ [quote]"

definition plain_column :: "string \<Rightarrow> bool" where
  "plain_column col \<longleftrightarrow> col \<noteq> [] \<and> ident_start (hd col) \<and> list_all ident_char col"

lemma quoted_double: "quoted (double_quotes v @ [quote]) = Some (double_quotes v, [])"
  by (induction v) (auto simp: double_quotes_def)

lemma undouble_plain: "c \<noteq> quote \<Longrightarrow> undouble (c # s) = c # undouble s"
  by (cases s) auto

lemma undouble_double: "undouble (double_quotes v) = v"
  by (induction v) (auto simp: double_quotes_def undouble_plain)

lemma space_not_ident: "re_space c \<Longrightarrow> \<not> ident_char c"
  unfolding re_space_def by (elim disjE; simp add: ident_char_def ident_start_def is_digit_def lower_char_def)

lemma ident_char_not: "ident_char c \<Longrightarrow> \<not> re_space c \<and> c \<noteq> tick \<and> c \<noteq> CHR '' ''"
proof -
  have "\<not> ident_char tick" by (simp add: ident_char_def ident_start_def is_digit_def lower_char_def)
  moreover have "re_space (CHR '' '')" by (simp add: re_space_def)
  ultimately show "ident_char c \<Longrightarrow> \<not> re_space c \<and> c \<noteq> tick \<and> c \<noteq> CHR '' ''" using space_not_ident by blast
qed

lemma operator_prefix_rendered:
  assumes "op \<in> set filter_operators"
  shows "operator_prefix (op @ CHR '' '' # s) = Some (op, CHR '' '' # s)" "\<not> re_space (hd op)" "op \<noteq> []"
  using assms unfolding filter_operators_def set_simps insert_iff empty_iff
  by (elim disjE; simp add: operator_prefix_def filter_operators_def has_prefix_def re_space_def)+

lemma parse_rendered:
  assumes "plain_column col" "op \<in> set filter_operators"
  shows "parse_filter (render_filter col op v) = Some (col, op, double_quotes v)"
proof -
  obtain c r where col: "col = c # r" "ident_start c" "list_all ident_char col"
    using assms(1) by (cases col) (auto simp: plain_column_def)
  have c: "ident_char c" using col by simp
  let ?t = "CHR '' '' # op @ CHR '' '' # quote # double_quotes v @ [quote]"
  have tw: "takeWhile ident_char (col @ ?t) = col" and dw: "dropWhile ident_char (col @ ?t) = ?t"
    using col(3) ident_char_not [of "CHR '' ''"] by (auto simp: list_all_iff takeWhile_append dropWhile_append)
  obtain d s where op: "op = d # s" "\<not> re_space d" using operator_prefix_rendered(2,3) [OF assms(2)] by (cases op) auto
  have sp: "re_space (CHR '' '')" "\<not> re_space quote" by (simp_all add: re_space_def)
  have e: "render_filter col op v = col @ ?t" by (simp add: render_filter_def)
  have start: "drop_tick (dropWhile re_space (col @ ?t)) = col @ ?t"
    using ident_char_not [OF c] by (simp add: col(1) drop_tick_def)
  have mid: "dropWhile re_space (drop_tick ?t) = op @ CHR '' '' # quote # double_quotes v @ [quote]"
    using op sp by (simp add: drop_tick_def)
  show ?thesis
    unfolding parse_filter_def e start Let_def tw dw mid
    using operator_prefix_rendered(1) [OF assms(2), of "quote # double_quotes v @ [quote]"] sp col
    by (simp add: quoted_double tw [unfolded col(1)] dw [unfolded col(1)] mid)
qed

text \<open>
  The filter check is exact on the predicates it supports. A source predicate written as column,
  operator and quoted literal is admitted next to a target filter exactly when the columns agree up to
  case, the operator names the same comparison and the value is the literal with its quotes undoubled.
\<close>

theorem rebuild_filter_exact:
  assumes "plain_column col" "op \<in> set filter_operators"
  shows "ValidateIcebergRebuildFilter (render_filter col op v) (Some f) = None \<longleftrightarrow>
    equal_fold col (rf_column f) \<and> (filter_op (rf_op f) = op \<or> filter_op (rf_op f) = ''<>'' \<and> op = ''!='') \<and> rf_value f = v"
proof -
  have "op \<noteq> []" using operator_prefix_rendered(3) [OF assms(2)] .
  then show ?thesis
    unfolding ValidateIcebergRebuildFilter_def
    by (auto simp: parse_rendered [OF assms] undouble_double Let_def)
qed

lemma rebuild_filter_exact_witness:
  "plain_column ''created_at'' \<and> ''>='' \<in> set filter_operators \<and>
   ValidateIcebergRebuildFilter (render_filter ''created_at'' ''>='' (''o'' @ quote # ''clock''))
     (Some \<lparr>rf_column = ''CREATED_AT'', rf_op = '' GTE'', rf_value = ''o'' @ quote # ''clock''\<rparr>) = None"
proof -
  have p: "plain_column ''created_at''" "''>='' \<in> set filter_operators"
    by (simp_all add: plain_column_def ident_char_def ident_start_def is_digit_def lower_char_def filter_operators_def)
  have "equal_fold ''created_at'' ''CREATED_AT''" "filter_op '' GTE'' = ''>=''" by code_simp+
  with rebuild_filter_exact [OF p, of "''o'' @ quote # ''clock''"
    "\<lparr>rf_column = ''CREATED_AT'', rf_op = '' GTE'', rf_value = ''o'' @ quote # ''clock''\<rparr>"]
  have "ValidateIcebergRebuildFilter (render_filter ''created_at'' ''>='' (''o'' @ quote # ''clock''))
     (Some \<lparr>rf_column = ''CREATED_AT'', rf_op = '' GTE'', rf_value = ''o'' @ quote # ''clock''\<rparr>) = None"
    by (simp only: replace_filter.simps simp_thms)
  then show ?thesis using p by blast
qed

section \<open>Every table has a replacement scope\<close>

definition source_filter :: "mysql_config \<Rightarrow> string \<Rightarrow> string" where
  "source_filter source name =
     (case rebuildSourceConfigMatch (my_table_configs source) name of Some c \<Rightarrow> mt_filter c | None \<Rightarrow> [])"

text \<open>
  What the target loses of a table equals what the snapshot reads of it: under a filter, the same rows;
  otherwise the whole table on both sides.
\<close>

definition scoped_replacement :: "mysql_config \<Rightarrow> rebuild_sink \<Rightarrow> string \<Rightarrow> bool" where
  "scoped_replacement source sink raw =
     (case explicit_table raw of
        None \<Rightarrow> False
      | Some (db, tbl) \<Rightarrow>
          let name = db @ ''.'' @ tbl in
          case rebuildConfigMatch (rb_filters sink) name of
            Some f \<Rightarrow> (\<forall>cmp row. source_selects cmp row (source_filter source name) = target_selects cmp row f)
          | None \<Rightarrow> trim_space (source_filter source name) = [] \<and>
              \<not> list_ex (\<lambda>p. rebuildPatternMatches p name) (rb_exclude sink) \<and>
              list_ex (\<lambda>p. p = name \<or> rb_allow_patterns sink \<and> rebuildPatternMatches p name) (rb_truncate sink))"

definition native_replacement :: "mysql_config \<Rightarrow> rebuild_sink \<Rightarrow> string \<Rightarrow> bool" where
  "native_replacement source sink raw =
     (case explicit_table raw of
        None \<Rightarrow> False
      | Some (db, tbl) \<Rightarrow>
          \<not> list_ex (truncate_matches db tbl True) (rb_exclude sink) \<and>
          list_all (\<lambda>(p, c). \<not> truncate_matches db tbl True p \<or> trim_space (mt_filter c) = []) (my_table_configs source) \<and>
          (to_lower (trim_space (rb_write_mode sink)) \<noteq> ''auto'' \<or>
           list_ex (truncate_matches db tbl (rb_allow_patterns sink)) (rb_truncate sink)))"

lemma first_error_None: "first_error f xs = None \<longleftrightarrow> list_all (\<lambda>x. f x = None) xs"
  by (induction xs) (auto split: option.splits)

lemma scoped_table_check_None: "scoped_table_check source sink raw = None \<Longrightarrow> scoped_replacement source sink raw"
  using accepted_filter_selects
  by (auto simp: scoped_table_check_def scoped_replacement_def source_filter_def [symmetric] Let_def
      ValidateIcebergRebuildFilter_def [of _ None] split: option.splits if_splits prod.splits)

lemma native_table_check_None:
  assumes "native_table_check source sink (to_lower (trim_space (rb_write_mode sink))) raw = None"
  shows "native_replacement source sink raw"
proof (cases "explicit_table raw")
  case None
  then show ?thesis using assms by (simp add: native_table_check_def)
next
  case (Some dt)
  obtain db tbl where dt: "dt = (db, tbl)" by fastforce
  have ne: "''truncate-append'' \<noteq> ''auto''" "IcebergRebuildSnapshotWriteMode \<noteq> ''auto''" by simp_all
  show ?thesis
    using assms ne unfolding native_table_check_def native_replacement_def Some dt option.case prod.case Let_def
    by (auto simp: list_ex_iff list_all_iff split: if_splits)
qed


definition sample_rebuild_decoders :: rebuild_decoders where
  "sample_rebuild_decoders =
     \<lparr>rd_source = (\<lambda>m. Inr ((jc_mysql zero_config)\<lparr>my_tables := [''Shop.Orders''],
        my_table_configs := [(''shop.orders'', \<lparr>mt_filter = ''created >= '' @ quote # ''2024'' @ [quote],
          mt_key_columns = [], mt_extra_columns = []\<rparr>)]\<rparr>)),
      rd_sink = (\<lambda>m. Inr \<lparr>rb_executor = ''trino'', rb_write_mode = ''auto'',
        rb_filters = [(''shop.*'', \<lparr>rf_column = ''created'', rf_op = ''gte'', rf_value = ''2024''\<rparr>)],
        rb_truncate = [], rb_exclude = [], rb_allow_patterns = False, rb_trino_uri = ''http://trino''\<rparr>)\<rparr>"

definition sample_rebuild_config :: job_config where
  "sample_rebuild_config = zero_config\<lparr>jc_id := ''a'', jc_mode := JobModeInitial,
     jc_source := Some \<lparr>cs_type = ''mysql'', cs_config = []\<rparr>,
     jc_sink := Some \<lparr>cs_type = ''iceberg_native'', cs_config = [(''snapshot_replace_delete_executor'', GoStr ''trino'')]\<rparr>\<rparr>"


end
