(* ===== verification/Job_Preflight.thy ===== *)
theory Job_Preflight
  imports Job_Progress Worker_Fence Rebuild_Config
begin

text \<open>
  What a job checks before it moves data (\<open>preflight\<close> in \<open>pkg/core/job.go\<close> and
  \<open>pkg/core/fresh_snapshot_recovery.go\<close>): the source's tables are announced to the sink and their targets
  ensured, and a run that reloads clears the targets only after every table has been accepted.
\<close>

section \<open>Preflight\<close>

text \<open>
  What the two connectors offer and answer. An interface the connector does not implement is \<open>None\<close> or
  \<open>False\<close>; an answer \<open>Some e\<close> is an error. The reload targets are a Go map, which iterates in any order:
  \<open>pf_order\<close> is the order of this run. The rebuild tokens of the metadata count when they name the job's
  own submission.
\<close>

record 's preflight_env =
  pf_tables :: "(string \<times> string) list option"
  pf_fetch :: "(string \<Rightarrow> string \<Rightarrow> string + 's) option"
  pf_table_manager :: "(string \<Rightarrow> string \<Rightarrow> 's \<Rightarrow> string option) option"
  pf_schema_consumer :: "(string \<Rightarrow> string \<Rightarrow> 's \<Rightarrow> string option) option"
  pf_initial_reset :: "bool option"
  pf_pk_skipper :: "(string \<Rightarrow> string \<Rightarrow> 's \<Rightarrow> bool) option"
  pf_table_skipper :: bool
  pf_resolver :: "(string \<Rightarrow> string \<Rightarrow> string \<times> string) option"
  pf_scoped_resetter :: "((string \<Rightarrow> string \<Rightarrow> string \<Rightarrow> string option) \<times> (string \<Rightarrow> string \<Rightarrow> string \<Rightarrow> string option)) option"
  pf_filter_expression :: "(string \<Rightarrow> string \<Rightarrow> string) option"
  pf_target_resetter :: "(string \<Rightarrow> string \<Rightarrow> string option) option"
  pf_has_filter :: "(string \<Rightarrow> string \<Rightarrow> bool) option"
  pf_rebuild_valid :: "string option"
  pf_order :: "(string \<times> (string \<times> string) \<times> (string \<times> string) \<times> string) list \<Rightarrow>
     (string \<times> (string \<times> string) \<times> (string \<times> string) \<times> string) list"

text \<open>The calls that change something outside, in the order they are made.\<close>

datatype preflight_call =
    RegisterSchema string string
  | EnsureTable string string
  | ValidateSource string string string
  | ResetSource string string string
  | ResetTarget string string
  | SkipTables "(string \<times> string) list"

definition is_reset :: "preflight_call \<Rightarrow> bool" where
  "is_reset c = (case c of ResetSource _ _ _ \<Rightarrow> True | ResetTarget _ _ \<Rightarrow> True | _ \<Rightarrow> False)"

record preflight_mode =
  pm_scoped :: bool
  pm_reload :: bool
  pm_skip_pk :: bool

text \<open>A reload target: its name, the resolved table, the source table and the source's filter.\<close>

type_synonym reload_target = "string \<times> (string \<times> string) \<times> (string \<times> string) \<times> string"

definition reload_add ::
  "bool \<Rightarrow> string \<Rightarrow> string \<times> string \<Rightarrow> string \<times> string \<Rightarrow> string \<Rightarrow> reload_target list \<Rightarrow> string + reload_target list" where
  "reload_add scoped name target source flt ts =
     (case find (\<lambda>t. fst t = name) ts of
        None \<Rightarrow> Inr (ts @ [(name, target, source, flt)])
      | Some (_, _, source', _) \<Rightarrow>
          if scoped \<and> source' \<noteq> source
          then Inl (''scoped snapshot rebuild does not support multiple sources sharing target '' @ name)
          else Inr ts)"

text \<open>
  One round of the loop over the source's tables. The result is the error, if any, the calls made, the
  reload targets and the tables to skip.
\<close>

definition preflight_reload ::
  "'s preflight_env \<Rightarrow> preflight_mode \<Rightarrow> string \<times> string \<Rightarrow> string \<times> string \<Rightarrow> reload_target list \<Rightarrow>
     string option \<times> preflight_call list \<times> reload_target list" where
  "preflight_reload E M t target ts =
     (if \<not> pm_reload M then (None, [], ts)
      else let (s, n) = t;
               flt = (if pm_scoped M then (case pf_filter_expression E of Some f \<Rightarrow> f s n | None \<Rightarrow> []) else []);
               (verr, calls) = (if pm_scoped M
                 then (case pf_scoped_resetter E of Some (v, _) \<Rightarrow> v s n flt | None \<Rightarrow> None, [ValidateSource s n flt])
                 else (None, []));
               name = to_lower (trim_space (fst target @ ''.'' @ snd target)) in
        case verr of
          Some e \<Rightarrow> (Some e, calls, ts)
        | None \<Rightarrow> (case reload_add (pm_scoped M) name target t flt ts of
            Inl e \<Rightarrow> (Some e, calls, ts) | Inr ts' \<Rightarrow> (None, calls, ts')))"

text \<open>What a table that is not skipped goes through: the sink learns its schema, ensures the target, and a reload notes it.\<close>

definition preflight_register :: "'s preflight_env \<Rightarrow> string \<times> string \<Rightarrow> 's \<Rightarrow> string option \<times> preflight_call list" where
  "preflight_register E t schema =
     (case pf_schema_consumer E of
        None \<Rightarrow> (None, [])
      | Some reg \<Rightarrow> (reg (fst t) (snd t) schema, [RegisterSchema (fst t) (snd t)]))"

definition preflight_target :: "'s preflight_env \<Rightarrow> string \<times> string \<Rightarrow> string \<times> string" where
  "preflight_target E t = (case pf_resolver E of Some r \<Rightarrow> r (fst t) (snd t) | None \<Rightarrow> t)"

definition preflight_ensure ::
  "'s preflight_env \<Rightarrow> preflight_mode \<Rightarrow> string \<times> string \<Rightarrow> 's \<Rightarrow> reload_target list \<Rightarrow>
     string option \<times> preflight_call list \<times> reload_target list" where
  "preflight_ensure E M t schema ts =
     (case pf_table_manager E of
        None \<Rightarrow> (None, [], ts)
      | Some ensure \<Rightarrow>
          (let target = preflight_target E t;
               call = EnsureTable (fst target) (snd target) in
           case ensure (fst target) (snd target) schema of
             Some e \<Rightarrow> (Some (''preflight ensure table '' @ fst target @ ''.'' @ snd target @ '' failed: '' @ e), [call], ts)
           | None \<Rightarrow> (let (e, c, ts') = preflight_reload E M t target ts in (e, call # c, ts'))))"

definition preflight_table ::
  "'s preflight_env \<Rightarrow> preflight_mode \<Rightarrow> string \<times> string \<Rightarrow> reload_target list \<Rightarrow> (string \<times> string) list \<Rightarrow>
     string option \<times> preflight_call list \<times> reload_target list \<times> (string \<times> string) list" where
  "preflight_table E M t ts skip =
     (let name = fst t @ ''.'' @ snd t in
      if pm_reload M \<and> \<not> pm_scoped M \<and> (case pf_has_filter E of Some f \<Rightarrow> f (fst t) (snd t) | None \<Rightarrow> False)
      then (Some (''full target reset is unsafe for source table '' @ name @
          '' with a snapshot filter; disable the full reset or remove the source filter''), [], ts, skip)
      else case (case pf_fetch E of Some f \<Rightarrow> f (fst t) (snd t) | None \<Rightarrow> Inl []) of
        Inl e \<Rightarrow> (Some (''preflight fetch schema '' @ name @ '' failed: '' @ e), [], ts, skip)
      | Inr schema \<Rightarrow>
          if pm_skip_pk M \<and> (case pf_pk_skipper E of Some f \<Rightarrow> f (fst t) (snd t) schema | None \<Rightarrow> False)
          then (if \<not> pf_table_skipper E
                then (Some ''snapshot-only missing primary key skip requires source connector snapshot skip support'', [], ts, skip)
                else (None, [], ts, skip @ [t]))
          else let (rerr, rcalls) = preflight_register E t schema in
            if rerr \<noteq> None then (rerr, rcalls, ts, skip)
            else let (e, c, ts') = preflight_ensure E M t schema ts in (e, rcalls @ c, ts', skip))"

fun preflight_tables ::
  "'s preflight_env \<Rightarrow> preflight_mode \<Rightarrow> (string \<times> string) list \<Rightarrow> reload_target list \<Rightarrow> (string \<times> string) list \<Rightarrow>
     string option \<times> preflight_call list \<times> reload_target list \<times> (string \<times> string) list" where
  "preflight_tables E M [] ts skip = (None, [], ts, skip)"
| "preflight_tables E M (t # rest) ts skip =
     (let (e, c, ts', skip') = preflight_table E M t ts skip in
      if e \<noteq> None then (e, c, ts', skip')
      else let (e2, c2, ts2, skip2) = preflight_tables E M rest ts' skip' in (e2, c @ c2, ts2, skip2))"

definition reset_one :: "'s preflight_env \<Rightarrow> preflight_mode \<Rightarrow> reload_target \<Rightarrow> string option \<times> preflight_call" where
  "reset_one E M t =
     (let (name, target, source, flt) = t in
      if pm_scoped M
      then (map_option (\<lambda>e. ''scoped reset target='' @ name @ '': '' @ e)
              (case pf_scoped_resetter E of Some (_, r) \<Rightarrow> r (fst source) (snd source) flt | None \<Rightarrow> None),
            ResetSource (fst source) (snd source) flt)
      else (map_option (\<lambda>e. ''reset target table failed '' @ fst target @ ''.'' @ snd target @ '': '' @ e)
              (case pf_target_resetter E of Some r \<Rightarrow> r (fst target) (snd target) | None \<Rightarrow> None),
            ResetTarget (fst target) (snd target)))"

fun preflight_resets :: "'s preflight_env \<Rightarrow> preflight_mode \<Rightarrow> reload_target list \<Rightarrow> string option \<times> preflight_call list" where
  "preflight_resets E M [] = (None, [])"
| "preflight_resets E M (t # ts) =
     (let (e, c) = reset_one E M t in
      if e \<noteq> None then (e, [c]) else let (e2, cs) = preflight_resets E M ts in (e2, c # cs))"

definition token_of :: "string \<Rightarrow> job_config \<Rightarrow> string" where
  "token_of key c = (case map_get (jc_metadata c) key of Some t \<Rightarrow> t | None \<Rightarrow> [])"

definition fresh_mode :: "job_mode \<Rightarrow> bool" where
  "fresh_mode mode \<longleftrightarrow> mode = JobModeInitial \<or> mode = JobModeSnapshotHandoff"

definition owns_token :: "string \<Rightarrow> job_config \<Rightarrow> string \<Rightarrow> job_mode \<Rightarrow> bool" where
  "owns_token key c submission mode \<longleftrightarrow> token_of key c \<noteq> [] \<and> token_of key c = submission \<and> fresh_mode mode"

definition preflight_flags :: "'s preflight_env \<Rightarrow> job_config \<Rightarrow> string \<Rightarrow> job_mode \<Rightarrow> preflight_mode" where
  "preflight_flags E c submission mode =
     (let scoped = owns_token IcebergRebuildScopedKey c submission mode;
          fresh = (pf_initial_reset E = Some True \<and> fresh_mode mode \<or> scoped \<or>
                   owns_token IcebergRebuildFullResetKey c submission mode) in
      \<lparr>pm_scoped = scoped,
       pm_reload = (fresh \<or> mode = JobModeSnapshotOnly \<and> snapshotOnlyCountResumeEnabled (jc_metadata c)),
       pm_skip_pk = (mode = JobModeSnapshotOnly \<and> pf_pk_skipper E \<noteq> None)\<rparr>)"

definition preflight_run :: "'s preflight_env \<Rightarrow> preflight_mode \<Rightarrow> (string \<times> string) list \<Rightarrow> string option \<times> preflight_call list" where
  "preflight_run E M tables =
     (let (e, calls, ts, skip) = preflight_tables E M tables [] [] in
      if e \<noteq> None then (e, calls)
      else let (e2, resets) = (if pm_reload M then preflight_resets E M (pf_order E ts) else (None, [])) in
        if e2 \<noteq> None then (e2, calls @ resets)
        else (None, calls @ resets @ (if skip = [] then [] else [SkipTables skip])))"

definition preflight :: "'s preflight_env \<Rightarrow> job_config \<Rightarrow> string \<Rightarrow> job_mode \<Rightarrow> string option \<times> preflight_call list" where
  "preflight E c submission mode =
     (let M = preflight_flags E c submission mode in
      case validateSnapshotOnlyCountResume (Some c) of
        Some e \<Rightarrow> (Some e, [])
      | None \<Rightarrow>
      if (pm_scoped M \<or> owns_token IcebergRebuildFullResetKey c submission mode) \<and> pf_rebuild_valid E \<noteq> None
      then (pf_rebuild_valid E, [])
      else if pm_reload M \<and> pf_table_manager E = None
      then (Some ''safe snapshot reload requires sink connector table manager support'', [])
      else if pf_table_manager E = None \<and> pf_schema_consumer E = None then (None, [])
      else if pf_tables E = None \<or> pf_fetch E = None
      then (Some ''source connector does not support schema discovery required by sink'', [])
      else if pm_reload M \<and> pm_scoped M \<and> pf_scoped_resetter E = None
      then (Some ''scoped snapshot rebuild requires durable scoped reset support'', [])
      else if pm_reload M \<and> pm_scoped M \<and> pf_filter_expression E = None
      then (Some ''scoped snapshot rebuild requires source filter expressions'', [])
      else if pm_reload M \<and> pf_target_resetter E = None
      then (Some ''safe snapshot reload requires sink connector table reset support'', [])
      else preflight_run E M (the (pf_tables E)))"

section \<open>Admission of a fresh snapshot\<close>

text \<open>
  \<open>checkFreshSnapshotRecovery\<close>: \<open>own n\<close> is the answer of the \<open>n\<close>-th ownership check, \<open>valid\<close> the verdict of
  \<open>ValidateIcebergSnapshotRebuild\<close>, \<open>capable\<close> whether the store can check retained state. The text that
  wraps the error is left out; its identity is kept.
\<close>

definition native_write_mode :: "job_config \<Rightarrow> bool" where
  "native_write_mode c =
     (case jc_sink c of None \<Rightarrow> False
      | Some k \<Rightarrow> map_get (cs_config k) ''snapshot_write_mode'' = Some (GoStr ''rebuild-scoped-native-v2''))"

definition checkFreshSnapshotRecovery ::
  "bool \<Rightarrow> (nat \<Rightarrow> meta_error + unit) \<Rightarrow> meta_error option \<Rightarrow> job_config \<Rightarrow> string \<Rightarrow> string \<Rightarrow> meta_db \<Rightarrow>
     meta_error option" where
  "checkFreshSnapshotRecovery capable own valid c submission key db =
     (let err = (\<lambda>r. case r of Inl e \<Rightarrow> Some e | Inr _ \<Rightarrow> None) in
      if fst (pickSink c) \<noteq> ''iceberg_native'' then None
      else if \<not> capable then Some (ErrMsg ''metadata store cannot verify retained Iceberg intents'')
      else case own 0 of
        Inl e \<Rightarrow> Some e
      | Inr _ \<Rightarrow>
          if token_of IcebergRebuildScopedKey c \<noteq> [] \<and> token_of IcebergRebuildScopedKey c = submission
          then if valid \<noteq> None then valid
               else if CompletionConfirmed (GetSnapshotState key db) then Some (ErrJobStateCleanupBlocked key [])
               else case CheckScopedRebuildEmptyCheckpoint (own 1) (jc_id c) key db of
                 Inl e \<Rightarrow> Some e
               | Inr _ \<Rightarrow> err (CheckScopedRebuildIntents (own 2) (own 3) (jc_id c) key submission True (native_write_mode c) db)
          else case CheckJobStateCleanup (jc_id c) db of
            Inl e \<Rightarrow> Some e
          | Inr _ \<Rightarrow>
              if trim_space key \<noteq> [] \<and> key \<noteq> jc_id c
              then (case CheckJobStateCleanup key db of Inl e \<Rightarrow> Some e | Inr _ \<Rightarrow> err (own 1))
              else err (own 1))"

section \<open>What preflight protects\<close>

text \<open>
  A table is prepared when its schema was read, the sink was asked to ensure its target with that schema and
  answered without an error, and, for a scoped rebuild, the sink was asked to validate the source under the
  filter the source is configured with and answered without an error.
\<close>

definition target_ensured :: "'s preflight_env \<Rightarrow> string \<times> string \<Rightarrow> preflight_call list \<Rightarrow> bool" where
  "target_ensured E t calls \<longleftrightarrow>
     (let target = (case pf_resolver E of Some r \<Rightarrow> r (fst t) (snd t) | None \<Rightarrow> t) in
      \<exists>fetch ensure schema. pf_fetch E = Some fetch \<and> fetch (fst t) (snd t) = Inr schema \<and>
        pf_table_manager E = Some ensure \<and> ensure (fst target) (snd target) schema = None \<and>
        EnsureTable (fst target) (snd target) \<in> set calls)"

definition source_validated :: "'s preflight_env \<Rightarrow> preflight_mode \<Rightarrow> string \<times> string \<Rightarrow> preflight_call list \<Rightarrow> bool" where
  "source_validated E M t calls \<longleftrightarrow>
     (if pm_reload M \<and> pm_scoped M
      then \<exists>validate reset. pf_scoped_resetter E = Some (validate, reset) \<and>
        (let flt = (case pf_filter_expression E of Some f \<Rightarrow> f (fst t) (snd t) | None \<Rightarrow> []) in
         validate (fst t) (snd t) flt = None \<and> ValidateSource (fst t) (snd t) flt \<in> set calls)
      else True)"

definition table_prepared :: "'s preflight_env \<Rightarrow> preflight_mode \<Rightarrow> string \<times> string \<Rightarrow> preflight_call list \<Rightarrow> bool" where
  "table_prepared E M t calls \<longleftrightarrow> target_ensured E t calls \<and> source_validated E M t calls"

lemma preflight_reload_calls:
  assumes "preflight_reload E M t target ts = (e, c, ts')"
  shows "\<not> list_ex is_reset c \<and> (e = None \<and> pf_scoped_resetter E \<noteq> None \<longrightarrow> source_validated E M t c)"
  using assms
  by (cases t) (auto simp: preflight_reload_def source_validated_def is_reset_def Let_def split: if_splits option.splits sum.splits)

lemma preflight_register_calls:
  "preflight_register E t schema = (e, c) \<Longrightarrow> \<not> list_ex is_reset c"
  by (auto simp: preflight_register_def is_reset_def split: option.splits)

lemma table_prepared_mono: "table_prepared E M t c \<Longrightarrow> set c \<subseteq> set c' \<Longrightarrow> table_prepared E M t c'"
  by (auto simp: table_prepared_def target_ensured_def source_validated_def Let_def split: if_splits)

abbreviation can_prepare :: "'s preflight_env \<Rightarrow> bool" where
  "can_prepare E \<equiv> pf_table_manager E \<noteq> None"

abbreviation can_validate :: "'s preflight_env \<Rightarrow> preflight_mode \<Rightarrow> bool" where
  "can_validate E M \<equiv> (pm_reload M \<and> pm_scoped M \<longrightarrow> pf_scoped_resetter E \<noteq> None)"

lemma preflight_ensure_calls:
  assumes "preflight_ensure E M t schema ts = (e, c, ts')" "pf_fetch E = Some f" "f (fst t) (snd t) = Inr schema"
  shows "\<not> list_ex is_reset c \<and> (e = None \<and> can_prepare E \<and> can_validate E M \<longrightarrow> table_prepared E M t c)"
proof -
  obtain e' c' t' where r: "preflight_reload E M t (preflight_target E t) ts = (e', c', t')" by (metis prod_cases3)
  have sv: "source_validated E M t c'" if "e' = None" "can_validate E M"
    using that preflight_reload_calls [OF r] by (cases "pm_reload M \<and> pm_scoped M") (auto simp: source_validated_def)
  have mono: "source_validated E M t c' \<Longrightarrow> source_validated E M t (x # c')" for x
    by (auto simp: source_validated_def Let_def split: if_splits)
  show ?thesis
  proof (cases "pf_table_manager E")
    case None
    then show ?thesis using assms(1) by (simp add: preflight_ensure_def)
  next
    case (Some ensure)
    define g where "g = preflight_target E t"
    have g': "(case pf_resolver E of Some r \<Rightarrow> r (fst t) (snd t) | None \<Rightarrow> t) = g" by (simp add: g_def preflight_target_def)
    have "\<not> list_ex is_reset c'" using preflight_reload_calls [OF r] by blast
    moreover have "ensure (fst g) (snd g) schema = None \<and> e = e' \<and> c = EnsureTable (fst g) (snd g) # c' \<or>
        e \<noteq> None \<and> c = [EnsureTable (fst g) (snd g)]"
      using assms(1) r by (auto simp: preflight_ensure_def Let_def Some g_def split: option.splits)
    moreover have "target_ensured E t (EnsureTable (fst g) (snd g) # c')" if "ensure (fst g) (snd g) schema = None"
      using assms(2,3) Some that unfolding target_ensured_def g' Let_def by simp
    ultimately show ?thesis using sv mono by (auto simp: table_prepared_def is_reset_def)
  qed
qed

text \<open>A snapshot-only run leaves a table without a primary key out.\<close>

definition missing_key_skipped :: "'s preflight_env \<Rightarrow> preflight_mode \<Rightarrow> string \<times> string \<Rightarrow> bool" where
  "missing_key_skipped E M t \<longleftrightarrow> pm_skip_pk M \<and>
     (case (pf_fetch E, pf_pk_skipper E) of
        (Some fetch, Some skips) \<Rightarrow>
          (case fetch (fst t) (snd t) of Inr schema \<Rightarrow> skips (fst t) (snd t) schema | Inl _ \<Rightarrow> False)
      | _ \<Rightarrow> False)"

abbreviation accepted :: "'s preflight_env \<Rightarrow> preflight_mode \<Rightarrow> preflight_call list \<Rightarrow> string \<times> string \<Rightarrow> bool" where
  "accepted E M c t \<equiv> missing_key_skipped E M t \<or> table_prepared E M t c"

lemma preflight_table_calls:
  assumes "preflight_table E M t ts skip = (e, c, ts', skip')"
  shows "\<not> list_ex is_reset c" "e = None \<Longrightarrow> can_prepare E \<Longrightarrow> can_validate E M \<Longrightarrow> accepted E M c t"
proof -
  have "\<not> list_ex is_reset c \<and> (e = None \<and> can_prepare E \<and> can_validate E M \<longrightarrow> accepted E M c t)"
  proof (cases "case pf_fetch E of Some f \<Rightarrow> f (fst t) (snd t) | None \<Rightarrow> Inl []")
    case (Inl x)
    then show ?thesis using assms by (auto simp: preflight_table_def Let_def split: if_splits)
  next
    case (Inr schema)
    then obtain f where f: "pf_fetch E = Some f" "f (fst t) (snd t) = Inr schema" by (cases "pf_fetch E") auto
    obtain e1 c1 where reg: "preflight_register E t schema = (e1, c1)" by fastforce
    obtain e2 c2 t2 where ens: "preflight_ensure E M t schema ts = (e2, c2, t2)" by (metis prod_cases3)
    have "\<not> list_ex is_reset c1" using preflight_register_calls [OF reg] .
    moreover have "\<not> list_ex is_reset c2" "e2 = None \<and> can_prepare E \<and> can_validate E M \<longrightarrow> table_prepared E M t (c1 @ c2)"
      using preflight_ensure_calls [OF ens f] table_prepared_mono [of E M t c2 "c1 @ c2"] by auto
    moreover have "(e, c) = (e1, c1) \<and> e1 \<noteq> None \<or> (e, c) = (e2, c1 @ c2) \<or>
       c = [] \<and> (e \<noteq> None \<or> missing_key_skipped E M t)"
      using assms by (auto simp: preflight_table_def Let_def f reg ens missing_key_skipped_def split: if_splits option.splits)
    ultimately show ?thesis by (elim disjE conjE) auto
  qed
  then show "\<not> list_ex is_reset c" "e = None \<Longrightarrow> can_prepare E \<Longrightarrow> can_validate E M \<Longrightarrow> accepted E M c t" by blast+
qed

lemma preflight_tables_calls:
  assumes "preflight_tables E M tbls ts skip = (e, c, ts', skip')"
  shows "\<not> list_ex is_reset c \<and> (e = None \<and> can_prepare E \<and> can_validate E M \<longrightarrow> list_all (accepted E M c) tbls)"
  using assms
proof (induction tbls arbitrary: ts skip e c ts' skip')
  case (Cons u rest)
  obtain e1 c1 ts1 sk1 where one: "preflight_table E M u ts skip = (e1, c1, ts1, sk1)" by (metis prod_cases4)
  obtain e2 c2 ts2 sk2 where rest: "preflight_tables E M rest ts1 sk1 = (e2, c2, ts2, sk2)" by (metis prod_cases4)
  note IH = Cons.IH [OF rest] and P = preflight_table_calls [OF one]
  have mono: "accepted E M c' t \<Longrightarrow> set c' \<subseteq> set c'' \<Longrightarrow> accepted E M c'' t" for c' c'' t
    using table_prepared_mono by blast
  show ?case
  proof (cases "e1 = None")
    case True
    then have ok: "e = e2" "c = c1 @ c2" using Cons.prems by (simp_all add: one rest)
    have "list_all (accepted E M c) (u # rest)" if "e = None" "can_prepare E" "can_validate E M"
    proof -
      have "accepted E M c u" using mono [OF P(2) [OF True that(2,3)]] ok by simp
      moreover have "list_all (accepted E M c) rest"
        using IH that ok mono [where c' = c2 and c'' = c] by (auto simp: list_all_iff)
      ultimately show ?thesis by simp
    qed
    then show ?thesis using P(1) IH ok by simp
  next
    case False
    then have "e = e1" "c = c1" using Cons.prems by (simp_all add: one)
    then show ?thesis using P(1) False by blast
  qed
qed simp

lemma reset_one_reset: "reset_one E M t = (e, c) \<Longrightarrow> is_reset c"
  by (cases t) (auto simp: reset_one_def is_reset_def split: if_splits)

lemma preflight_resets_calls: "preflight_resets E M ts = (e, cs) \<Longrightarrow> list_all is_reset cs"
proof (induction ts arbitrary: e cs)
  case (Cons t ts)
  obtain e1 c1 where one: "reset_one E M t = (e1, c1)" by fastforce
  obtain e2 c2 where rest: "preflight_resets E M ts = (e2, c2)" by fastforce
  show ?case using Cons reset_one_reset [OF one] by (auto simp: one rest split: if_splits)
qed simp

definition reset_admitted :: "'s preflight_env \<Rightarrow> preflight_mode \<Rightarrow> preflight_call list \<Rightarrow> bool" where
  "reset_admitted E M calls \<longleftrightarrow> pm_reload M \<and>
     (case pf_tables E of None \<Rightarrow> False | Some tables \<Rightarrow> list_all (accepted E M calls) tables)"

lemma preflight_run_calls:
  assumes "preflight_run E M tables = (e, calls)" "pf_tables E = Some tables" "pm_reload M \<longrightarrow> can_prepare E" "can_validate E M"
  shows "\<exists>prep resets skips. calls = prep @ resets @ skips \<and> \<not> list_ex is_reset (prep @ skips) \<and>
     list_all is_reset resets \<and> (resets = [] \<or> reset_admitted E M prep)"
proof -
  obtain e1 c1 ts sk where T: "preflight_tables E M tables [] [] = (e1, c1, ts, sk)" by (metis prod_cases4)
  obtain e2 c2 where R: "preflight_resets E M (pf_order E ts) = (e2, c2)" by fastforce
  note PT = preflight_tables_calls [OF T] and PR = preflight_resets_calls [OF R]
  show ?thesis
  proof (cases "e1 = None \<and> pm_reload M")
    case True
    then obtain skips where "calls = c1 @ c2 @ skips" "\<not> list_ex is_reset skips"
      using assms(1) by (auto simp: preflight_run_def T R is_reset_def split: if_splits)
    moreover have "reset_admitted E M c1" using True PT assms(2-4) by (simp add: reset_admitted_def)
    moreover have "\<not> list_ex is_reset c1" "list_all is_reset c2" using PT PR by blast+
    ultimately have "calls = c1 @ c2 @ skips \<and> \<not> list_ex is_reset (c1 @ skips) \<and> list_all is_reset c2 \<and>
       (c2 = [] \<or> reset_admitted E M c1)" by simp
    then show ?thesis by blast
  next
    case False
    then obtain skips where "calls = c1 @ [] @ skips" "\<not> list_ex is_reset skips"
      using assms(1) by (auto simp: preflight_run_def T is_reset_def split: if_splits)
    then have "calls = c1 @ [] @ skips \<and> \<not> list_ex is_reset (c1 @ skips) \<and> list_all is_reset [] \<and>
       (([] :: preflight_call list) = [] \<or> reset_admitted E M c1)"
      using PT by simp
    then show ?thesis by blast
  qed
qed

lemma preflight_cases:
  assumes "preflight E c submission mode = (e, calls)"
  obtains (early) "calls = []"
  | (run) tables where "pf_tables E = Some tables" "pm_reload (preflight_flags E c submission mode) \<longrightarrow> can_prepare E"
      "can_validate E (preflight_flags E c submission mode)"
      "preflight_run E (preflight_flags E c submission mode) tables = (e, calls)"
  using assms unfolding preflight_def Let_def
  by (cases "validateSnapshotOnlyCountResume (Some c)") (auto split: if_splits option.splits)

text \<open>
  C24: a reload clears targets last. Whatever the connectors answer, the resets of a preflight are one block
  of calls; before it come only schema registrations, ensured targets and validations, and when there is a
  reset at all then for every table of the source before it either the sink answered without an error when it
  was asked to ensure the table's target with the schema read from the source, and (for a scoped rebuild)
  when it was asked to validate the source under its configured filter, or the table is left out of a
  snapshot-only run for want of a primary key.
\<close>

theorem preflight_resets_last:
  assumes "preflight E c submission mode = (e, calls)"
  shows "\<exists>prep resets skips. calls = prep @ resets @ skips \<and> \<not> list_ex is_reset (prep @ skips) \<and>
     list_all is_reset resets \<and> (resets = [] \<or> reset_admitted E (preflight_flags E c submission mode) prep)"
  using assms
proof (cases rule: preflight_cases)
  case early
  then show ?thesis by (intro exI [of _ "[]"]) simp
qed (blast intro: preflight_run_calls)

definition sample_preflight :: "string preflight_env" where
  "sample_preflight = \<lparr>pf_tables = Some [(''shop'', ''orders''), (''shop'', ''items'')],
     pf_fetch = Some (\<lambda>s t. Inr t), pf_table_manager = Some (\<lambda>s t sc. None), pf_schema_consumer = Some (\<lambda>s t sc. None),
     pf_initial_reset = Some True, pf_pk_skipper = None, pf_table_skipper = False,
     pf_resolver = Some (\<lambda>s t. (''lake'', t)), pf_scoped_resetter = None, pf_filter_expression = None,
     pf_target_resetter = Some (\<lambda>s t. None), pf_has_filter = None, pf_rebuild_valid = None, pf_order = rev\<rparr>"

theorem preflight_resets_last_witness:
  "let r = preflight sample_preflight zero_config ''sub'' JobModeInitial in
   r = (None, [RegisterSchema ''shop'' ''orders'', EnsureTable ''lake'' ''orders'',
      RegisterSchema ''shop'' ''items'', EnsureTable ''lake'' ''items'',
      ResetTarget ''lake'' ''items'', ResetTarget ''lake'' ''orders'']) \<and>
   (\<exists>prep resets skips. snd r = prep @ resets @ skips \<and> \<not> list_ex is_reset (prep @ skips) \<and> list_all is_reset resets \<and>
     (resets = [] \<or> reset_admitted sample_preflight (preflight_flags sample_preflight zero_config ''sub'' JobModeInitial) prep))"
proof -
  let ?r = "preflight sample_preflight zero_config ''sub'' JobModeInitial"
  have val: "?r = (None, [RegisterSchema ''shop'' ''orders'', EnsureTable ''lake'' ''orders'',
      RegisterSchema ''shop'' ''items'', EnsureTable ''lake'' ''items'',
      ResetTarget ''lake'' ''items'', ResetTarget ''lake'' ''orders''])" by code_simp
  show ?thesis unfolding Let_def val snd_conv using preflight_resets_last [OF val] by (intro conjI refl)
qed

end
