(* ===== verification/Job_Lifecycle.thy ===== *)
theory Job_Lifecycle
  imports Job_Preflight
begin

text \<open>
  Starting a job and the concurrent life of its pipeline (\<open>startWithMode\<close>, \<open>failStart\<close>, \<open>requestStop\<close>,
  \<open>RequestPause\<close>, \<open>recoverPipelinePanic\<close> in \<open>pkg/core/job.go\<close>). The start is sequential and is a function of
  what the connectors and stores answer. The source goroutine, the sink goroutine, the closer and the
  control calls run concurrently; their life is a step relation whose steps are the accesses to shared
  state (one critical section of the job's mutex, one look at a context, one cancellation).

  The lemmas show what a failed start leaves behind, that a paused pipeline has drained, that every run
  comes to its end, and that a stop request can be overwritten.
\<close>

section \<open>Starting a run\<close>

text \<open>A constructor or a store may refuse or panic; a panic is recovered by \<open>startWithMode\<close>.\<close>

datatype start_answer = Ready | Refused string | Panicked string

record start_env =
  se_digest :: key_digest
  se_open :: "string option"
  se_scoped_state :: "string + snapshot_state option"
  se_scoped_empty :: "string option"
  se_fence :: "string option"
  se_owned :: "string option"
  se_fresh :: "string option"
  se_source :: start_answer
  se_sink :: start_answer
  se_reserve :: "string option"
  se_format :: "int \<Rightarrow> string"

record start_result =
  sr_error :: "string option"
  sr_job :: job
  sr_cancelled :: bool
  sr_launched :: bool

definition closeMetaStore :: "job \<Rightarrow> job" where
  "closeMetaStore j = j\<lparr>jb_store := False\<rparr>"

definition ensureMetaStore :: "string option \<Rightarrow> job \<Rightarrow> string option \<times> job" where
  "ensureMetaStore open_err j =
     (if jb_store j \<or> (case jb_config j of None \<Rightarrow> True | Some c \<Rightarrow> trim_space (jc_meta_dsn c) = []) then (None, j)
      else case open_err of Some e \<Rightarrow> (Some e, j) | None \<Rightarrow> (None, j\<lparr>jb_store := True\<rparr>))"

text \<open>\<open>failStart\<close>; the context is cancelled too once it exists.\<close>

definition failStart :: "int \<Rightarrow> string \<Rightarrow> string \<Rightarrow> bool \<Rightarrow> job \<Rightarrow> start_result" where
  "failStart now component err has_ctx j =
     \<lparr>sr_error = Some err, sr_job = closeMetaStore (setStatus now JobStatusFailed (addError now component (Some err) j)),
      sr_cancelled = has_ctx, sr_launched = False\<rparr>"

definition start_panic :: "int \<Rightarrow> string \<Rightarrow> job \<Rightarrow> start_result" where
  "start_panic now what j =
     (let err = ''job start panic: '' @ what in
      \<lparr>sr_error = Some err,
       sr_job = (setStatus now JobStatusFailed (addError now ''system'' (Some err) j))\<lparr>jb_cancel := False\<rparr>,
       sr_cancelled = jb_cancel j, sr_launched = False\<rparr>)"

definition preflight_info :: progress_info where
  "preflight_info = zero_info\<lparr>pi_phase := ''preflight'', pi_summary := ''Preparing job'',
     pi_detail := ''Validating source schema and target tables''\<rparr>"

text \<open>The effective mode of a scoped rebuild that has not finished its snapshot.\<close>

definition scoped_mode :: "snapshot_state option \<Rightarrow> job_mode \<Rightarrow> job_mode" where
  "scoped_mode state mode =
     (case state of None \<Rightarrow> JobModeSnapshotHandoff
      | Some st \<Rightarrow> if ss_done st then mode else JobModeSnapshotHandoffResume)"

definition start_connectors :: "start_env \<Rightarrow> int \<Rightarrow> job \<Rightarrow> start_result" where
  "start_connectors E now j =
     (case se_source E of
        Refused e \<Rightarrow> failStart now ''source'' e True j
      | Panicked e \<Rightarrow> start_panic now e j
      | Ready \<Rightarrow>
      (case se_sink E of
         Refused e \<Rightarrow> failStart now ''sink'' e True j
       | Panicked e \<Rightarrow> start_panic now e j
       | Ready \<Rightarrow>
           (case se_reserve E of
              Some e \<Rightarrow> failStart now ''maintenance ownership'' e True j
            | None \<Rightarrow> \<lparr>sr_error = None, sr_job = j, sr_cancelled = False, sr_launched = True\<rparr>)))"

definition start_fenced :: "start_env \<Rightarrow> int \<Rightarrow> job_mode \<Rightarrow> job \<Rightarrow> start_result" where
  "start_fenced E now mode j =
     (let (key, j) = ensureMetaKey (se_digest E) (j\<lparr>jb_run_mode := mode\<rparr>);
          j = j\<lparr>jb_meta_key := key\<rparr> in
      case se_fence E of
        Some e \<Rightarrow> failStart now ''worker ownership'' e True j
      | None \<Rightarrow>
      (case se_owned E of
         Some e \<Rightarrow> failStart now ''worker ownership'' e True j
       | None \<Rightarrow>
           if mode \<in> {JobModeInitial, JobModeSnapshotOnly, JobModeSnapshotHandoff} \<and> se_fresh E \<noteq> None
           then failStart now ''snapshot recovery'' (the (se_fresh E)) True j
           else start_connectors E now j))"

definition start_prepared :: "start_env \<Rightarrow> int \<Rightarrow> job_config \<Rightarrow> job_mode \<Rightarrow> job \<Rightarrow> start_result" where
  "start_prepared E now c mode j =
     (case (if jc_meta_dsn c \<noteq> [] then ensureMetaStore (se_open E) j else (None, j)) of
        (Some e, j) \<Rightarrow> failStart now ''system'' e True j
      | (None, j) \<Rightarrow>
          if token_of IcebergRebuildScopedKey c \<noteq> [] \<and> token_of IcebergRebuildScopedKey c = jb_submission j
          then (case ensureMetaStore (se_open E) j of
              (Some e, j) \<Rightarrow> failStart now ''system'' e True j
            | (None, j) \<Rightarrow>
                if \<not> jb_store j then start_panic now ''invalid memory address or nil pointer dereference'' j
                else let j = snd (ensureMetaKey (se_digest E) j) in
                  (case se_scoped_state E of
                     Inl e \<Rightarrow> failStart now ''system'' e True j
                   | Inr st \<Rightarrow>
                       if st = None \<and> se_scoped_empty E \<noteq> None
                       then failStart now ''system'' (the (se_scoped_empty E)) True j
                       else start_fenced E now (scoped_mode st mode) j))
          else start_fenced E now mode j)"

definition startWithMode :: "start_env \<Rightarrow> int \<Rightarrow> job_mode \<Rightarrow> job \<Rightarrow> start_result" where
  "startWithMode E now mode j =
     (let keep = \<lparr>sr_error = None, sr_job = j, sr_cancelled = False, sr_launched = False\<rparr> in
      if jb_status j \<in> {JobStatusRunning, JobStatusPending, JobStatusPausing} then keep
      else if jb_status j = JobStatusDone then keep\<lparr>sr_error := Some ''job already DONE''\<rparr>
      else if \<not> jb_registry j
      then failStart now ''system'' ''job registry is nil (JobManager must pass registry to NewJob)'' False j
      else case validateSnapshotOnlyCountResume (jb_config j) of
        Some e \<Rightarrow> failStart now ''system'' e False j
      | None \<Rightarrow>
      (case jb_config j of
         None \<Rightarrow> start_panic now ''invalid memory address or nil pointer dereference''
             (updateProgress (se_format E) now preflight_info (setStatus now JobStatusPending
               (j\<lparr>jb_run_mode := normalizeMode mode, jb_cancel := True, jb_pause_requested := False, jb_source_cancel := True\<rparr>)))
       | Some c \<Rightarrow>
           (if jc_buffer_size c < 0 then start_panic now ''makechan: size out of range'' else start_prepared E now c (normalizeMode mode))
             (updateProgress (se_format E) now preflight_info (setStatus now JobStatusPending
               (j\<lparr>jb_run_mode := normalizeMode mode, jb_cancel := True, jb_pause_requested := False, jb_source_cancel := True\<rparr>)))))"

section \<open>The life of a pipeline\<close>

datatype source_pc =
    SrcPreflight | SrcPreErr string | SrcReady | SrcMark | SrcRun | SrcRunErr string
  | SrcAdd string string | SrcFail | SrcCancel | SrcExit | SrcDone

datatype sink_pc =
    SnkRun | SnkErr string | SnkEnd | SnkRead | SnkSet job_status
  | SnkAdd string string | SnkFail | SnkCancel | SnkExit | SnkDone

datatype control_pc = CtlIdle | CtlCancelSource | CtlStopRead | CtlStopSet

record pipe =
  pp_job :: job
  pp_ctx :: bool
  pp_source_ctx :: bool
  pp_closed :: bool
  pp_source :: source_pc
  pp_sink :: sink_pc
  pp_control :: control_pc
  pp_done :: bool

text \<open>
  The source goroutine. \<open>preflight\<close>, \<open>src.Run\<close> and \<open>sink.Run\<close> end in any way they like at any time; the
  two contexts are cancelled when \<open>pp_ctx\<close> and \<open>pp_source_ctx\<close> hold.
\<close>

inductive source_step :: "pipe \<Rightarrow> pipe \<Rightarrow> bool" where
  src_pre_ok: "pp_source s = SrcPreflight \<Longrightarrow> source_step s (s\<lparr>pp_source := SrcReady\<rparr>)"
| src_pre_err: "pp_source s = SrcPreflight \<Longrightarrow> source_step s (s\<lparr>pp_source := SrcPreErr e\<rparr>)"
| src_pre_cancelled: "pp_source s = SrcPreErr e \<Longrightarrow> pp_ctx s \<Longrightarrow> source_step s (s\<lparr>pp_source := SrcExit\<rparr>)"
| src_pre_failed: "pp_source s = SrcPreErr e \<Longrightarrow> \<not> pp_ctx s \<Longrightarrow> source_step s (s\<lparr>pp_source := SrcAdd ''system'' e\<rparr>)"
| src_ready_cancelled: "pp_source s = SrcReady \<Longrightarrow> pp_ctx s \<Longrightarrow> source_step s (s\<lparr>pp_source := SrcExit\<rparr>)"
| src_ready: "pp_source s = SrcReady \<Longrightarrow> \<not> pp_ctx s \<Longrightarrow> source_step s (s\<lparr>pp_source := SrcMark\<rparr>)"
| src_mark: "pp_source s = SrcMark \<Longrightarrow>
    source_step s (s\<lparr>pp_source := SrcRun, pp_job := setStatus now JobStatusRunning (pp_job s)\<rparr>)"
| src_run_ok: "pp_source s = SrcRun \<Longrightarrow> source_step s (s\<lparr>pp_source := SrcExit\<rparr>)"
| src_run_err: "pp_source s = SrcRun \<Longrightarrow> source_step s (s\<lparr>pp_source := SrcRunErr e\<rparr>)"
| src_err_ended: "pp_source s = SrcRunErr e \<Longrightarrow> pp_source_ctx s \<and> jb_pause_requested (pp_job s) \<or> pp_ctx s \<Longrightarrow>
    source_step s (s\<lparr>pp_source := SrcExit\<rparr>)"
| src_err_failed: "pp_source s = SrcRunErr e \<Longrightarrow> \<not> (pp_source_ctx s \<and> jb_pause_requested (pp_job s) \<or> pp_ctx s) \<Longrightarrow>
    source_step s (s\<lparr>pp_source := SrcAdd ''source'' e\<rparr>)"
| src_panic: "pp_source s = SrcPreflight \<or> pp_source s = SrcRun \<Longrightarrow>
    source_step s (s\<lparr>pp_source := SrcAdd ''source'' (''source panic: '' @ e)\<rparr>)"
| src_add: "pp_source s = SrcAdd c e \<Longrightarrow>
    source_step s (s\<lparr>pp_source := SrcFail, pp_job := addError now c (Some e) (pp_job s)\<rparr>)"
| src_fail: "pp_source s = SrcFail \<Longrightarrow>
    source_step s (s\<lparr>pp_source := SrcCancel, pp_job := setStatus now JobStatusFailed (pp_job s)\<rparr>)"
| src_cancel: "pp_source s = SrcCancel \<Longrightarrow> source_step s (s\<lparr>pp_source := SrcExit, pp_ctx := True, pp_source_ctx := True\<rparr>)"
| src_exit: "pp_source s = SrcExit \<Longrightarrow> source_step s (s\<lparr>pp_source := SrcDone, pp_closed := True\<rparr>)"

text \<open>
  The sink goroutine. What is relied on of a sink: its \<open>Run\<close> returns no error only when the event channel
  has been closed and everything read from it is written, or when its context is cancelled (the Iceberg
  sink returns \<open>flushAll\<close>'s verdict after the channel is closed, and \<open>ctx.Err()\<close> when cancelled).
\<close>

inductive sink_step :: "pipe \<Rightarrow> pipe \<Rightarrow> bool" where
  snk_nil: "pp_sink s = SnkRun \<Longrightarrow> pp_closed s \<or> pp_ctx s \<Longrightarrow> sink_step s (s\<lparr>pp_sink := SnkEnd\<rparr>)"
| snk_err: "pp_sink s = SnkRun \<Longrightarrow> sink_step s (s\<lparr>pp_sink := SnkErr e\<rparr>)"
| snk_panic: "pp_sink s = SnkRun \<Longrightarrow> sink_step s (s\<lparr>pp_sink := SnkAdd ''sink'' (''sink panic: '' @ e)\<rparr>)"
| snk_err_cancelled: "pp_sink s = SnkErr e \<Longrightarrow> pp_ctx s \<Longrightarrow> sink_step s (s\<lparr>pp_sink := SnkExit\<rparr>)"
| snk_err_failed: "pp_sink s = SnkErr e \<Longrightarrow> \<not> pp_ctx s \<Longrightarrow> sink_step s (s\<lparr>pp_sink := SnkAdd ''sink'' e\<rparr>)"
| snk_end_cancelled: "pp_sink s = SnkEnd \<Longrightarrow> pp_ctx s \<Longrightarrow> sink_step s (s\<lparr>pp_sink := SnkExit\<rparr>)"
| snk_end: "pp_sink s = SnkEnd \<Longrightarrow> \<not> pp_ctx s \<Longrightarrow> sink_step s (s\<lparr>pp_sink := SnkRead\<rparr>)"
| snk_read: "pp_sink s = SnkRead \<Longrightarrow>
    sink_step s (s\<lparr>pp_sink := SnkSet (if jb_pause_requested (pp_job s) then JobStatusPaused else JobStatusDone)\<rparr>)"
| snk_set: "pp_sink s = SnkSet st \<Longrightarrow> sink_step s (s\<lparr>pp_sink := SnkExit, pp_job := setStatus now st (pp_job s)\<rparr>)"
| snk_add: "pp_sink s = SnkAdd c e \<Longrightarrow>
    sink_step s (s\<lparr>pp_sink := SnkFail, pp_job := addError now c (Some e) (pp_job s)\<rparr>)"
| snk_fail: "pp_sink s = SnkFail \<Longrightarrow>
    sink_step s (s\<lparr>pp_sink := SnkCancel, pp_job := setStatus now JobStatusFailed (pp_job s)\<rparr>)"
| snk_cancel: "pp_sink s = SnkCancel \<Longrightarrow> sink_step s (s\<lparr>pp_sink := SnkExit, pp_ctx := True, pp_source_ctx := True\<rparr>)"
| snk_exit: "pp_sink s = SnkExit \<Longrightarrow> sink_step s (s\<lparr>pp_sink := SnkDone\<rparr>)"

inductive closer_step :: "pipe \<Rightarrow> pipe \<Rightarrow> bool" where
  "pp_source s = SrcDone \<Longrightarrow> pp_sink s = SnkDone \<Longrightarrow> \<not> pp_done s \<Longrightarrow>
     closer_step s (s\<lparr>pp_job := closeMetaStore (pp_job s), pp_done := True\<rparr>)"

text \<open>
  The control calls: \<open>RequestPause\<close> (one critical section, then the cancellation of the source) and
  \<open>requestStop\<close> (cancel, read the status, set it).
\<close>

datatype control_event = PauseAccepted | PauseSent | StopCancelled | StopRefused | StopAllowed | StopSet

inductive control_step :: "pipe \<Rightarrow> control_event \<Rightarrow> pipe \<Rightarrow> bool" where
  ctl_pause: "pp_control s = CtlIdle \<Longrightarrow> jb_status (pp_job s) = JobStatusRunning \<Longrightarrow> jb_source_cancel (pp_job s) \<Longrightarrow>
    control_step s PauseAccepted (s\<lparr>pp_control := CtlCancelSource,
      pp_job := setStatus now JobStatusPausing ((pp_job s)\<lparr>jb_source_cancel := False, jb_pause_requested := True\<rparr>)\<rparr>)"
| ctl_pause_sent: "pp_control s = CtlCancelSource \<Longrightarrow>
    control_step s PauseSent (s\<lparr>pp_control := CtlIdle, pp_source_ctx := True\<rparr>)"
| ctl_stop: "pp_control s = CtlIdle \<Longrightarrow>
    control_step s StopCancelled (s\<lparr>pp_control := CtlStopRead,
      pp_ctx := pp_ctx s \<or> jb_cancel (pp_job s),
      pp_source_ctx := pp_source_ctx s \<or> jb_cancel (pp_job s) \<or> jb_source_cancel (pp_job s),
      pp_job := (pp_job s)\<lparr>jb_cancel := False, jb_source_cancel := False\<rparr>\<rparr>)"
| ctl_stop_refused: "pp_control s = CtlStopRead \<Longrightarrow> jb_status (pp_job s) \<in> {JobStatusDone, JobStatusFailed} \<Longrightarrow>
    control_step s StopRefused (s\<lparr>pp_control := CtlIdle\<rparr>)"
| ctl_stop_allowed: "pp_control s = CtlStopRead \<Longrightarrow> jb_status (pp_job s) \<notin> {JobStatusDone, JobStatusFailed} \<Longrightarrow>
    control_step s StopAllowed (s\<lparr>pp_control := CtlStopSet\<rparr>)"
| ctl_stop_set: "pp_control s = CtlStopSet \<Longrightarrow>
    control_step s StopSet (s\<lparr>pp_control := CtlIdle, pp_job := setStatus now JobStatusStopped (pp_job s)\<rparr>)"

definition pipe_step :: "pipe \<Rightarrow> pipe \<Rightarrow> bool" where
  "pipe_step s s' \<longleftrightarrow> source_step s s' \<or> sink_step s s' \<or> closer_step s s'"

text \<open>Reachable states, the control events so far and the number of pipeline steps taken.\<close>

inductive run_of :: "pipe \<Rightarrow> nat \<Rightarrow> control_event list \<Rightarrow> pipe \<Rightarrow> bool" where
  run_start: "run_of s 0 [] s"
| run_pipe: "run_of s n evs t \<Longrightarrow> pipe_step t u \<Longrightarrow> run_of s (Suc n) evs u"
| run_control: "run_of s n evs t \<Longrightarrow> control_step t ev u \<Longrightarrow> run_of s n (evs @ [ev]) u"

definition launched_pipe :: "job \<Rightarrow> pipe" where
  "launched_pipe j = \<lparr>pp_job = j, pp_ctx = False, pp_source_ctx = False, pp_closed = False,
     pp_source = SrcPreflight, pp_sink = SnkRun, pp_control = CtlIdle, pp_done = False\<rparr>"

section \<open>What a start leaves behind\<close>

lemma setStatus_fields [simp]:
  "jb_status (setStatus now st j) = st" "jb_errors (setStatus now st j) = jb_errors j"
  "jb_cancel (setStatus now st j) = jb_cancel j" "jb_source_cancel (setStatus now st j) = jb_source_cancel j"
  "jb_pause_requested (setStatus now st j) = jb_pause_requested j" "jb_store (setStatus now st j) = jb_store j"
  by (simp_all add: setStatus_def)

lemma addError_fields [simp]:
  "jb_errors (addError now c (Some e) j) = jb_errors j @ [\<lparr>je_component = c, je_message = e, je_time = now\<rparr>]"
  "jb_status (addError now c x j) = jb_status j" "jb_cancel (addError now c x j) = jb_cancel j"
  "jb_pause_requested (addError now c x j) = jb_pause_requested j"
  "jb_source_cancel (addError now c x j) = jb_source_cancel j"
  by (auto simp: addError_def split: option.splits)

lemma closeMetaStore_fields [simp]:
  "jb_status (closeMetaStore j) = jb_status j" "jb_errors (closeMetaStore j) = jb_errors j"
  "jb_cancel (closeMetaStore j) = jb_cancel j" "jb_pause_requested (closeMetaStore j) = jb_pause_requested j"
  "jb_store (closeMetaStore j) = False"
  by (simp_all add: closeMetaStore_def)

lemma updateProgress_fields [simp]:
  "jb_status (updateProgress f now i j) = jb_status j" "jb_errors (updateProgress f now i j) = jb_errors j"
  "jb_cancel (updateProgress f now i j) = jb_cancel j"
  "jb_pause_requested (updateProgress f now i j) = jb_pause_requested j"
  by (simp_all add: updateProgress_def Let_def)

text \<open>A job at the point where its context exists, and what a start may make of it.\<close>

definition starting :: "job_error list \<Rightarrow> job \<Rightarrow> bool" where
  "starting errs j \<longleftrightarrow> jb_status j = JobStatusPending \<and> jb_errors j = errs \<and> jb_cancel j \<and> \<not> jb_pause_requested j"

definition started :: "job_error list \<Rightarrow> start_result \<Rightarrow> bool" where
  "started errs r \<longleftrightarrow>
     (case sr_error r of
        None \<Rightarrow> sr_launched r \<and> \<not> sr_cancelled r \<and> starting errs (sr_job r)
      | Some msg \<Rightarrow> \<not> sr_launched r \<and> sr_cancelled r \<and> jb_status (sr_job r) = JobStatusFailed \<and>
          map je_message (jb_errors (sr_job r)) = map je_message errs @ [msg])"

lemma starting_kept [intro]:
  "starting errs j \<Longrightarrow> starting errs (snd (ensureMetaKey d j))" "starting errs j \<Longrightarrow> starting errs (snd (ensureMetaStore x j))"
  by (auto simp: starting_def ensureMetaKey_def ensureMetaStore_def Let_def split: if_splits option.splits prod.splits)

lemma failStart_started [intro]: "starting errs j \<Longrightarrow> started errs (failStart now c e True j)"
  by (simp add: started_def failStart_def starting_def)

lemma start_panic_started [intro]: "starting errs j \<Longrightarrow> started errs (start_panic now e j)"
  by (simp add: started_def start_panic_def starting_def Let_def)

lemma launched_started [intro]:
  "starting errs j \<Longrightarrow> started errs \<lparr>sr_error = None, sr_job = j, sr_cancelled = False, sr_launched = True\<rparr>"
  by (simp add: started_def)

lemma start_connectors_started [intro]: "starting errs j \<Longrightarrow> started errs (start_connectors E now j)"
  unfolding start_connectors_def by (auto split: start_answer.split option.split)

lemma start_fenced_started [intro]:
  assumes "starting errs j"
  shows "started errs (start_fenced E now mode j)"
proof -
  obtain key j2 where k: "ensureMetaKey (se_digest E) (j\<lparr>jb_run_mode := mode\<rparr>) = (key, j2)" by fastforce
  have "starting errs (j\<lparr>jb_run_mode := mode\<rparr>)" using assms by (simp add: starting_def)
  from starting_kept(1) [OF this, of "se_digest E"] have "starting errs (j2\<lparr>jb_meta_key := key\<rparr>)"
    by (simp add: k starting_def)
  then show ?thesis by (auto simp: start_fenced_def Let_def k split: option.split)
qed

lemma start_prepared_started [intro]:
  assumes "starting errs j"
  shows "started errs (start_prepared E now c mode j)"
proof -
  obtain e1 j1 where s1: "(if jc_meta_dsn c \<noteq> [] then ensureMetaStore (se_open E) j else (None, j)) = (e1, j1)" by fastforce
  have j1: "starting errs j1"
    using assms starting_kept(2) [OF assms, of "se_open E"] s1 by (auto split: if_splits)
  obtain e2 j2 where s2: "ensureMetaStore (se_open E) j1 = (e2, j2)" by fastforce
  have j2: "starting errs j2" using starting_kept(2) [OF j1, of "se_open E"] s2 by simp
  have j3: "starting errs (snd (ensureMetaKey (se_digest E) j2))" by (rule starting_kept(1) [OF j2])
  show ?thesis
    unfolding start_prepared_def s1 prod.case s2 Let_def
    using j1 j2 j3 by (auto split: option.split sum.split)
qed

text \<open>
  C28: a start has one of three outcomes. The pipeline is launched with the job PENDING, no new error, a
  live context and no pause request; or the job was already live and is unchanged; or there is an error and
  nothing runs: a DONE job is unchanged, any other is FAILED with exactly that error appended, and its
  context, once created, is cancelled.
\<close>

theorem startWithMode_outcome:
  "let r = startWithMode E now mode j in
   case sr_error r of
     None \<Rightarrow>
       if sr_launched r
       then jb_status (sr_job r) = JobStatusPending \<and> jb_errors (sr_job r) = jb_errors j \<and> jb_cancel (sr_job r) \<and>
         \<not> jb_pause_requested (sr_job r) \<and> \<not> sr_cancelled r
       else sr_job r = j \<and> jb_status j \<in> {JobStatusRunning, JobStatusPending, JobStatusPausing}
   | Some msg \<Rightarrow>
       \<not> sr_launched r \<and>
       (sr_job r = j \<and> jb_status j = JobStatusDone \<or>
        jb_status (sr_job r) = JobStatusFailed \<and>
        map je_message (jb_errors (sr_job r)) = map je_message (jb_errors j) @ [msg] \<and>
        (sr_cancelled r \<or> jb_cancel (sr_job r) = jb_cancel j))"
proof -
  define j1 where "j1 = updateProgress (se_format E) now preflight_info (setStatus now JobStatusPending
    (j\<lparr>jb_run_mode := normalizeMode mode, jb_cancel := True, jb_pause_requested := False, jb_source_cancel := True\<rparr>))"
  have j1: "starting (jb_errors j) j1" by (simp add: j1_def starting_def)
  have go: "started (jb_errors j) (start_prepared E now c m j1)" "started (jb_errors j) (start_panic now e j1)" for c m e
    using j1 by auto
  define live where "live \<longleftrightarrow> jb_status j \<in> {JobStatusRunning, JobStatusPending, JobStatusPausing}"
  show ?thesis
  proof (cases "live \<or> jb_status j = JobStatusDone \<or> \<not> jb_registry j \<or> validateSnapshotOnlyCountResume (jb_config j) \<noteq> None")
    case True
    then show ?thesis
      unfolding startWithMode_def Let_def live_def [symmetric]
      by (cases "validateSnapshotOnlyCountResume (jb_config j)") (auto simp: failStart_def)
  next
    case False
    then have "startWithMode E now mode j =
       (case jb_config j of None \<Rightarrow> start_panic now ''invalid memory address or nil pointer dereference'' j1
        | Some c \<Rightarrow> (if jc_buffer_size c < 0 then start_panic now ''makechan: size out of range''
            else start_prepared E now c (normalizeMode mode)) j1)"
      unfolding startWithMode_def Let_def live_def [symmetric] j1_def [symmetric] by auto
    then have "started (jb_errors j) (startWithMode E now mode j)"
      using go by (auto split: option.split)
    then show ?thesis
      by (auto simp: started_def starting_def Let_def split: option.splits)
  qed
qed

section \<open>How a pipeline ends\<close>

lemma closeMetaStore_status: "jb_source_cancel (closeMetaStore j) = jb_source_cancel j"
  by (simp add: closeMetaStore_def)

definition finished_status :: "job_status \<Rightarrow> bool" where
  "finished_status st \<longleftrightarrow> st = JobStatusPaused \<or> st = JobStatusDone"

definition paused_status :: "job_status \<Rightarrow> bool" where
  "paused_status st \<longleftrightarrow> st = JobStatusPaused"

lemma status_classes [simp]:
  "finished_status JobStatusPaused" "finished_status JobStatusDone" "\<not> finished_status JobStatusRunning"
  "\<not> finished_status JobStatusFailed" "\<not> finished_status JobStatusPausing" "\<not> finished_status JobStatusStopped"
  "\<not> finished_status JobStatusPending" "paused_status JobStatusPaused" "\<not> paused_status JobStatusDone"
  by (simp_all add: finished_status_def paused_status_def)

definition sink_gone :: "sink_pc \<Rightarrow> bool" where
  "sink_gone p \<longleftrightarrow> p = SnkExit \<or> p = SnkDone"

definition sink_closing :: "sink_pc \<Rightarrow> bool" where
  "sink_closing p = (case p of SnkRead \<Rightarrow> True | SnkSet _ \<Rightarrow> True | _ \<Rightarrow> False)"

text \<open>
  The invariant of a run of job \<open>j\<close>: the channel is closed exactly when the source is done; an end of the
  sink that is not a cancellation comes after the close, when nobody has failed; a paused or done job is
  past all of that; only a stop or a failure cancels the context.
\<close>

definition pipe_inv :: "job \<Rightarrow> pipe \<Rightarrow> bool" where
  "pipe_inv j s \<longleftrightarrow>
     (pp_closed s \<longleftrightarrow> pp_source s = SrcDone) \<and>
     (pp_sink s = SnkEnd \<longrightarrow> pp_closed s \<or> pp_ctx s) \<and>
     (sink_closing (pp_sink s) \<longrightarrow> pp_closed s \<and> jb_errors (pp_job s) = jb_errors j) \<and>
     (\<forall>st. pp_sink s = SnkSet st \<longrightarrow> finished_status st \<and> (paused_status st \<longrightarrow> jb_pause_requested (pp_job s))) \<and>
     (jb_errors (pp_job s) = jb_errors j \<or> pp_ctx s \<or> pp_source s \<in> {SrcFail, SrcCancel} \<or> pp_sink s \<in> {SnkFail, SnkCancel}) \<and>
     (finished_status (jb_status (pp_job s)) \<longrightarrow> pp_closed s \<and> sink_gone (pp_sink s) \<and>
        jb_errors (pp_job s) = jb_errors j \<and> (paused_status (jb_status (pp_job s)) \<longrightarrow> jb_pause_requested (pp_job s))) \<and>
     (pp_ctx s \<or> jb_cancel (pp_job s) \<and> pp_control s \<noteq> CtlStopRead \<and> pp_control s \<noteq> CtlStopSet) \<and>
     (sink_gone (pp_sink s) \<longrightarrow> pp_ctx s \<or> finished_status (jb_status (pp_job s))) \<and>
     (pp_done s \<longrightarrow> pp_source s = SrcDone \<and> pp_sink s = SnkDone)"

lemma pipe_inv_source: "source_step s s' \<Longrightarrow> pipe_inv j s \<Longrightarrow> pipe_inv j s'"
  by (cases rule: source_step.cases, assumption, unfold pipe_inv_def; clarsimp; elim disjE; simp)

lemma pipe_inv_sink: "sink_step s s' \<Longrightarrow> pipe_inv j s \<Longrightarrow> pipe_inv j s'"
  by (cases rule: sink_step.cases, assumption) (auto simp: pipe_inv_def sink_closing_def sink_gone_def)

lemma pipe_inv_closer: "closer_step s s' \<Longrightarrow> pipe_inv j s \<Longrightarrow> pipe_inv j s'"
  by (cases rule: closer_step.cases, assumption) (auto simp: pipe_inv_def sink_closing_def sink_gone_def closeMetaStore_status)

lemma pipe_inv_control: "control_step s ev s' \<Longrightarrow> pipe_inv j s \<Longrightarrow> pipe_inv j s'"
  by (cases rule: control_step.cases, assumption) (auto simp: pipe_inv_def sink_closing_def sink_gone_def)

lemma pipe_inv_run:
  assumes "run_of s0 n evs s" "pipe_inv j s0"
  shows "pipe_inv j s"
  using assms
  by (induction rule: run_of.induct)
     (auto simp: pipe_step_def intro: pipe_inv_source pipe_inv_sink pipe_inv_closer pipe_inv_control)

lemma pipe_inv_launched: "jb_status j = JobStatusPending \<Longrightarrow> jb_cancel j \<Longrightarrow> pipe_inv j (launched_pipe j)"
  by (simp add: pipe_inv_def launched_pipe_def sink_closing_def sink_gone_def)

text \<open>
  C23: a paused job has drained. In every interleaving of the two goroutines with pause and stop requests,
  a job that shows PAUSED or DONE has its source finished and its event channel closed, its sink past the
  last write, and no error of this run; PAUSED needs a pause request. A run that ends without its context
  cancelled ends PAUSED or DONE.
\<close>

theorem paused_means_drained:
  assumes "jb_status j = JobStatusPending" "jb_cancel j" "run_of (launched_pipe j) n evs s"
  shows "(if jb_status (pp_job s) = JobStatusPaused \<or> jb_status (pp_job s) = JobStatusDone
          then pp_closed s \<and> pp_source s = SrcDone \<and> (pp_sink s = SnkExit \<or> pp_sink s = SnkDone) \<and>
            jb_errors (pp_job s) = jb_errors j \<and>
            (if jb_status (pp_job s) = JobStatusPaused then jb_pause_requested (pp_job s) else True)
          else True) \<and>
         (if pp_done s \<and> \<not> pp_ctx s
          then jb_status (pp_job s) = JobStatusPaused \<or> jb_status (pp_job s) = JobStatusDone else True)"
  using pipe_inv_run [OF assms(3) pipe_inv_launched [OF assms(1,2)]]
  unfolding pipe_inv_def sink_gone_def finished_status_def paused_status_def by argo

section \<open>Every run ends\<close>

fun source_rank :: "source_pc \<Rightarrow> nat" where
  "source_rank SrcPreflight = 9" | "source_rank (SrcPreErr e) = 5" | "source_rank SrcReady = 8"
| "source_rank SrcMark = 7" | "source_rank SrcRun = 6" | "source_rank (SrcRunErr e) = 5"
| "source_rank (SrcAdd c e) = 4" | "source_rank SrcFail = 3" | "source_rank SrcCancel = 2"
| "source_rank SrcExit = 1" | "source_rank SrcDone = 0"

fun sink_rank :: "sink_pc \<Rightarrow> nat" where
  "sink_rank SnkRun = 6" | "sink_rank (SnkErr e) = 5" | "sink_rank SnkEnd = 4" | "sink_rank SnkRead = 3"
| "sink_rank (SnkSet st) = 2" | "sink_rank (SnkAdd c e) = 4" | "sink_rank SnkFail = 3" | "sink_rank SnkCancel = 2"
| "sink_rank SnkExit = 1" | "sink_rank SnkDone = 0"

definition pipe_rank :: "pipe \<Rightarrow> nat" where
  "pipe_rank s = source_rank (pp_source s) + sink_rank (pp_sink s) + (if pp_done s then 0 else 1)"

lemma source_step_rank: "source_step s s' \<Longrightarrow> pipe_rank s' < pipe_rank s"
  by (cases rule: source_step.cases, assumption) (auto simp: pipe_rank_def)

lemma sink_step_rank: "sink_step s s' \<Longrightarrow> pipe_rank s' < pipe_rank s"
  by (cases rule: sink_step.cases, assumption) (simp_all add: pipe_rank_def)

lemma pipe_step_rank: "pipe_step s s' \<Longrightarrow> pipe_rank s' < pipe_rank s"
  unfolding pipe_step_def
  by (elim disjE source_step_rank sink_step_rank) (auto simp: pipe_rank_def closer_step.simps)

lemma control_step_rank: "control_step s ev s' \<Longrightarrow> pipe_rank s' = pipe_rank s"
  by (cases rule: control_step.cases, assumption) (simp_all add: pipe_rank_def)

lemma run_rank: "run_of s n evs s' \<Longrightarrow> n + pipe_rank s' \<le> pipe_rank s"
proof (induction rule: run_of.induct)
  case (run_pipe s n evs t u)
  then show ?case using pipe_step_rank [of t u] by simp
qed (simp_all add: control_step_rank)

text \<open>
  A step in which no connector fails: preflight and the source's \<open>Run\<close> return without an error, and the
  sink's \<open>Run\<close> returns as its contract says, once the channel is closed or its context is cancelled.
\<close>

definition graceful_step :: "pipe \<Rightarrow> pipe \<Rightarrow> bool" where
  "graceful_step s s' \<longleftrightarrow>
     source_step s s' \<and> (if pp_source s = SrcPreflight then pp_source s' = SrcReady
                         else if pp_source s = SrcRun then pp_source s' = SrcExit else True) \<or>
     sink_step s s' \<and> (if pp_sink s = SnkRun then pp_sink s' = SnkEnd else True) \<or>
     closer_step s s'"

lemma graceful_pipe_step: "graceful_step s s' \<Longrightarrow> pipe_step s s'"
  by (auto simp: graceful_step_def pipe_step_def)

lemma source_moves: "pp_source s \<noteq> SrcDone \<Longrightarrow> \<exists>s'. graceful_step s s'"
proof -
  assume "pp_source s \<noteq> SrcDone"
  then have "\<exists>s'. source_step s s' \<and> (if pp_source s = SrcPreflight then pp_source s' = SrcReady
      else if pp_source s = SrcRun then pp_source s' = SrcExit else True)"
  proof (cases "pp_source s = SrcPreflight \<or> pp_source s = SrcRun")
    case True
    then show ?thesis using src_pre_ok [of s] src_run_ok [of s] by force
  next
    case False
    with \<open>pp_source s \<noteq> SrcDone\<close> have "\<exists>s'. source_step s s'"
      by (cases "pp_source s"; simp) (meson source_step.intros)+
    with False show ?thesis by auto
  qed
  then show ?thesis unfolding graceful_step_def by blast
qed

lemma sink_moves: "pp_sink s \<noteq> SnkDone \<Longrightarrow> pp_closed s \<Longrightarrow> \<exists>s'. graceful_step s s'"
proof -
  assume s: "pp_sink s \<noteq> SnkDone" "pp_closed s"
  then have "\<exists>s'. sink_step s s' \<and> (if pp_sink s = SnkRun then pp_sink s' = SnkEnd else True)"
  proof (cases "pp_sink s = SnkRun")
    case True
    then show ?thesis using snk_nil [of s] s(2) by force
  next
    case False
    with s(1) have "\<exists>s'. sink_step s s'" by (cases "pp_sink s"; simp) (meson sink_step.intros)+
    with False show ?thesis by auto
  qed
  then show ?thesis unfolding graceful_step_def by blast
qed

text \<open>The channel is closed once the source goroutine is done, and the store once the pipeline is.\<close>

definition ends_cleanly :: "pipe \<Rightarrow> bool" where
  "ends_cleanly s \<longleftrightarrow> (pp_source s = SrcDone \<longrightarrow> pp_closed s) \<and> (pp_done s \<longrightarrow> \<not> jb_store (pp_job s))"

lemma addError_store [simp]: "jb_store (addError now c x j) = jb_store j"
  by (auto simp: addError_def split: option.splits)

lemma ends_cleanly_step:
  "pipe_step s s' \<Longrightarrow> ends_cleanly s \<Longrightarrow> ends_cleanly s'"
  unfolding pipe_step_def
  by (elim disjE source_step.cases sink_step.cases closer_step.cases) (auto simp: ends_cleanly_def)

lemma ends_cleanly_control: "control_step s ev s' \<Longrightarrow> ends_cleanly s \<Longrightarrow> ends_cleanly s'"
  by (cases rule: control_step.cases, assumption) (auto simp: ends_cleanly_def)

lemma ends_cleanly_run: "run_of s0 n evs s \<Longrightarrow> ends_cleanly s0 \<Longrightarrow> ends_cleanly s"
  by (induction rule: run_of.induct) (auto intro: ends_cleanly_step ends_cleanly_control)

lemma graceful_end:
  "ends_cleanly s \<Longrightarrow> \<exists>t. graceful_step\<^sup>*\<^sup>* s t \<and> pp_done t \<and> \<not> jb_store (pp_job t)"
proof (induction "pipe_rank s" arbitrary: s rule: less_induct)
  case less
  show ?case
  proof (cases "pp_done s")
    case True
    then show ?thesis using less.prems by (auto simp: ends_cleanly_def)
  next
    case False
    have "\<exists>s'. graceful_step s s'"
    proof (cases "pp_source s = SrcDone")
      case True
      then have cl: "pp_closed s" using less.prems by (simp add: ends_cleanly_def)
      show ?thesis
      proof (cases "pp_sink s = SnkDone")
        case True
        then show ?thesis using closer_step.intros [OF \<open>pp_source s = SrcDone\<close>] False unfolding graceful_step_def by blast
      qed (use sink_moves cl in blast)
    qed (rule source_moves)
    then obtain s' where s': "graceful_step s s'" by blast
    have "ends_cleanly s'" "pipe_rank s' < pipe_rank s"
      using graceful_pipe_step [OF s'] ends_cleanly_step less.prems pipe_step_rank by blast+
    then obtain t where "graceful_step\<^sup>*\<^sup>* s' t" "pp_done t" "\<not> jb_store (pp_job t)" using less.hyps by blast
    then show ?thesis using s' by (meson converse_rtranclp_into_rtranclp)
  qed
qed

lemma over_no_step:
  assumes "pp_source s = SrcDone" "pp_sink s = SnkDone"
  shows "\<not> source_step s s'" "\<not> sink_step s s'"
  using assms by (auto elim: source_step.cases sink_step.cases)

lemma control_keeps_goroutines:
  "control_step s ev s' \<Longrightarrow> pp_source s' = pp_source s \<and> pp_sink s' = pp_sink s \<and> pp_done s' = pp_done s"
  by (cases rule: control_step.cases, assumption) simp_all

lemma source_keeps_sink: "source_step s s' \<Longrightarrow> pp_sink s' = pp_sink s \<and> pp_done s' = pp_done s"
  by (cases rule: source_step.cases, assumption) simp_all

lemma sink_keeps_source: "sink_step s s' \<Longrightarrow> pp_source s' = pp_source s \<and> pp_done s' = pp_done s"
  by (cases rule: sink_step.cases, assumption) simp_all

lemma done_means_over:
  assumes "run_of s0 n evs s" "pp_done s0 \<longrightarrow> pp_source s0 = SrcDone \<and> pp_sink s0 = SnkDone"
  shows "pp_done s \<longrightarrow> pp_source s = SrcDone \<and> pp_sink s = SnkDone"
  using assms
proof (induction rule: run_of.induct)
  case (run_pipe s n evs t u)
  then have IH: "pp_done t \<longrightarrow> pp_source t = SrcDone \<and> pp_sink t = SnkDone" by blast
  from run_pipe(2) consider "source_step t u" | "sink_step t u" | "closer_step t u"
    unfolding pipe_step_def by blast
  then show ?case
  proof cases
    case 1
    then show ?thesis using IH over_no_step(1) [of t u] source_keeps_sink [of t u] by auto
  next
    case 2
    then show ?thesis using IH over_no_step(2) [of t u] sink_keeps_source [of t u] by auto
  next
    case 3
    then show ?thesis by (auto simp: closer_step.simps)
  qed
next
  case (run_control s n evs t ev u)
  then show ?case using control_keeps_goroutines by simp
qed simp

text \<open>
  C29: a pipeline can always be brought to its end without a failure. From every state that a launched
  pipeline reaches, by any interleaving of its goroutines and of control calls and with whatever errors so
  far, steps in which no connector fails any more (preflight and the source's \<open>Run\<close> return, the sink's
  \<open>Run\<close> returns after the event channel is closed or its context cancelled) lead to the end, with the
  job's store closed: nobody waits for a channel that is never closed. A run takes at most sixteen steps of
  its goroutines, and nothing moves after the end.
\<close>

theorem every_run_ends:
  assumes "run_of (launched_pipe j) n evs s"
  shows "(\<exists>t. graceful_step\<^sup>*\<^sup>* s t \<and> pp_done t \<and> \<not> jb_store (pp_job t)) \<and> n \<le> 16 \<and>
    (if pp_done s then \<not> (\<exists>s'. pipe_step s s') else True)"
proof (intro conjI)
  have "ends_cleanly (launched_pipe j)" by (simp add: ends_cleanly_def launched_pipe_def)
  then show "\<exists>t. graceful_step\<^sup>*\<^sup>* s t \<and> pp_done t \<and> \<not> jb_store (pp_job t)"
    using ends_cleanly_run [OF assms] graceful_end by blast
  show "n \<le> 16" using run_rank [OF assms] by (simp add: pipe_rank_def launched_pipe_def)
  have "pp_done s \<longrightarrow> pp_source s = SrcDone \<and> pp_sink s = SnkDone"
    by (rule done_means_over [OF assms]) (simp add: launched_pipe_def)
  then show "if pp_done s then \<not> (\<exists>s'. pipe_step s s') else True"
    using over_no_step [of s] unfolding pipe_step_def by (auto simp: closer_step.simps)
qed

section \<open>Two runs that end wrongly\<close>

text \<open>A run given by its steps; used below to exhibit runs.\<close>

lemma run_pipe_source: "run_of s n evs t \<Longrightarrow> source_step t u \<Longrightarrow> run_of s (Suc n) evs u"
  unfolding pipe_step_def [symmetric] by (blast intro: run_pipe pipe_step_def [THEN iffD2])

lemma run_pipe_sink: "run_of s n evs t \<Longrightarrow> sink_step t u \<Longrightarrow> run_of s (Suc n) evs u"
  unfolding pipe_step_def [symmetric] by (blast intro: run_pipe pipe_step_def [THEN iffD2])

lemma run_pipe_closer: "run_of s n evs t \<Longrightarrow> closer_step t u \<Longrightarrow> run_of s (Suc n) evs u"
  unfolding pipe_step_def [symmetric] by (blast intro: run_pipe pipe_step_def [THEN iffD2])


text \<open>A job right after its launch, and a state of its pipeline.\<close>

definition live_job :: job where
  "live_job = (NewJob ''u'' 0 (Some zero_config) True)\<lparr>jb_status := JobStatusPending, jb_cancel := True, jb_source_cancel := True\<rparr>"

definition pipe_at :: "job \<Rightarrow> bool \<Rightarrow> bool \<Rightarrow> bool \<Rightarrow> source_pc \<Rightarrow> sink_pc \<Rightarrow> control_pc \<Rightarrow> bool \<Rightarrow> pipe" where
  "pipe_at j ctx sctx cl src snk ctl d = \<lparr>pp_job = j, pp_ctx = ctx, pp_source_ctx = sctx, pp_closed = cl,
     pp_source = src, pp_sink = snk, pp_control = ctl, pp_done = d\<rparr>"

lemma pipe_at_steps:
  "source_step (pipe_at j c sc cl SrcPreflight k t d) (pipe_at j c sc cl SrcReady k t d)"
  "source_step (pipe_at j False sc cl SrcReady k t d) (pipe_at j False sc cl SrcMark k t d)"
  "source_step (pipe_at j c sc cl SrcMark k t d) (pipe_at (setStatus 0 JobStatusRunning j) c sc cl SrcRun k t d)"
  "source_step (pipe_at j c sc cl SrcRun k t d) (pipe_at j c sc cl (SrcRunErr []) k t d)"
  "sc \<and> jb_pause_requested j \<or> c \<Longrightarrow> source_step (pipe_at j c sc cl (SrcRunErr []) k t d) (pipe_at j c sc cl SrcExit k t d)"
  "source_step (pipe_at j c sc cl SrcExit k t d) (pipe_at j c sc True SrcDone k t d)"
  "sink_step (pipe_at j c sc cl r SnkRun t d) (pipe_at j c sc cl r (SnkErr []) t d)"
  "sink_step (pipe_at j True sc cl r (SnkErr []) t d) (pipe_at j True sc cl r SnkExit t d)"
  "sink_step (pipe_at j c sc True r SnkRun t d) (pipe_at j c sc True r SnkEnd t d)"
  "sink_step (pipe_at j False sc cl r SnkEnd t d) (pipe_at j False sc cl r SnkRead t d)"
  "jb_pause_requested j \<Longrightarrow> sink_step (pipe_at j c sc cl r SnkRead t d) (pipe_at j c sc cl r (SnkSet JobStatusPaused) t d)"
  "sink_step (pipe_at j c sc cl r (SnkSet st) t d) (pipe_at (setStatus 0 st j) c sc cl r SnkExit t d)"
  "sink_step (pipe_at j c sc cl r SnkExit t d) (pipe_at j c sc cl r SnkDone t d)"
  "closer_step (pipe_at j c sc cl SrcDone SnkDone t False) (pipe_at (closeMetaStore j) c sc cl SrcDone SnkDone t True)"
  "sink_step (pipe_at j False sc cl r (SnkErr []) t d) (pipe_at j False sc cl r (SnkAdd ''sink'' []) t d)"
  "sink_step (pipe_at j c sc cl r (SnkAdd cmp e) t d) (pipe_at (addError 0 cmp (Some e) j) c sc cl r SnkFail t d)"
  "sink_step (pipe_at j c sc cl r SnkFail t d) (pipe_at (setStatus 0 JobStatusFailed j) c sc cl r SnkCancel t d)"
  "sink_step (pipe_at j c sc cl r SnkCancel t d) (pipe_at j True True cl r SnkExit t d)"
proof -
  let ?S = "\<lambda>j c sc cl r k t d. \<lparr>pp_job = j, pp_ctx = c, pp_source_ctx = sc, pp_closed = cl,
     pp_source = r, pp_sink = k, pp_control = t, pp_done = d\<rparr>"
  note [simp] = pipe_at_def
  show "source_step (pipe_at j c sc cl SrcPreflight k t d) (pipe_at j c sc cl SrcReady k t d)"
    using src_pre_ok [of "?S j c sc cl SrcPreflight k t d"] by simp
  show "source_step (pipe_at j False sc cl SrcReady k t d) (pipe_at j False sc cl SrcMark k t d)"
    using src_ready [of "?S j False sc cl SrcReady k t d"] by simp
  show "source_step (pipe_at j c sc cl SrcMark k t d) (pipe_at (setStatus 0 JobStatusRunning j) c sc cl SrcRun k t d)"
    using src_mark [of "?S j c sc cl SrcMark k t d" 0] by simp
  show "source_step (pipe_at j c sc cl SrcRun k t d) (pipe_at j c sc cl (SrcRunErr []) k t d)"
    using src_run_err [of "?S j c sc cl SrcRun k t d" "[]"] by simp
  show "source_step (pipe_at j c sc cl (SrcRunErr []) k t d) (pipe_at j c sc cl SrcExit k t d)"
    if "sc \<and> jb_pause_requested j \<or> c"
    using that src_err_ended [of "?S j c sc cl (SrcRunErr []) k t d" "[]"] by simp
  show "source_step (pipe_at j c sc cl SrcExit k t d) (pipe_at j c sc True SrcDone k t d)"
    using src_exit [of "?S j c sc cl SrcExit k t d"] by simp
  show "sink_step (pipe_at j c sc cl r SnkRun t d) (pipe_at j c sc cl r (SnkErr []) t d)"
    using snk_err [of "?S j c sc cl r SnkRun t d" "[]"] by simp
  show "sink_step (pipe_at j True sc cl r (SnkErr []) t d) (pipe_at j True sc cl r SnkExit t d)"
    using snk_err_cancelled [of "?S j True sc cl r (SnkErr []) t d"] by simp
  show "sink_step (pipe_at j c sc True r SnkRun t d) (pipe_at j c sc True r SnkEnd t d)"
    using snk_nil [of "?S j c sc True r SnkRun t d"] by simp
  show "sink_step (pipe_at j False sc cl r SnkEnd t d) (pipe_at j False sc cl r SnkRead t d)"
    using snk_end [of "?S j False sc cl r SnkEnd t d"] by simp
  show "sink_step (pipe_at j c sc cl r SnkRead t d) (pipe_at j c sc cl r (SnkSet JobStatusPaused) t d)"
    if "jb_pause_requested j"
    using that snk_read [of "?S j c sc cl r SnkRead t d"] by simp
  show "sink_step (pipe_at j c sc cl r (SnkSet st) t d) (pipe_at (setStatus 0 st j) c sc cl r SnkExit t d)"
    using snk_set [of "?S j c sc cl r (SnkSet st) t d" st 0] by simp
  show "sink_step (pipe_at j c sc cl r SnkExit t d) (pipe_at j c sc cl r SnkDone t d)"
    using snk_exit [of "?S j c sc cl r SnkExit t d"] by simp
  show "closer_step (pipe_at j c sc cl SrcDone SnkDone t False) (pipe_at (closeMetaStore j) c sc cl SrcDone SnkDone t True)"
    using closer_step.intros [of "?S j c sc cl SrcDone SnkDone t False"] by simp
  show "sink_step (pipe_at j False sc cl r (SnkErr []) t d) (pipe_at j False sc cl r (SnkAdd ''sink'' []) t d)"
    using snk_err_failed [of "?S j False sc cl r (SnkErr []) t d"] by simp
  show "sink_step (pipe_at j c sc cl r (SnkAdd cmp e) t d) (pipe_at (addError 0 cmp (Some e) j) c sc cl r SnkFail t d)"
    using snk_add [of "?S j c sc cl r (SnkAdd cmp e) t d" cmp e 0] by simp
  show "sink_step (pipe_at j c sc cl r SnkFail t d) (pipe_at (setStatus 0 JobStatusFailed j) c sc cl r SnkCancel t d)"
    using snk_fail [of "?S j c sc cl r SnkFail t d" 0] by simp
  show "sink_step (pipe_at j c sc cl r SnkCancel t d) (pipe_at j True True cl r SnkExit t d)"
    using snk_cancel [of "?S j c sc cl r SnkCancel t d"] by simp
qed

lemma pipe_at_controls:
  "jb_status j = JobStatusRunning \<Longrightarrow> jb_source_cancel j \<Longrightarrow>
     control_step (pipe_at j c sc cl r k CtlIdle d) PauseAccepted
       (pipe_at (setStatus 0 JobStatusPausing (j\<lparr>jb_source_cancel := False, jb_pause_requested := True\<rparr>)) c sc cl r k CtlCancelSource d)"
  "control_step (pipe_at j c sc cl r k CtlCancelSource d) PauseSent (pipe_at j c True cl r k CtlIdle d)"
  "jb_cancel j \<Longrightarrow> control_step (pipe_at j c sc cl r k CtlIdle d) StopCancelled
       (pipe_at (j\<lparr>jb_cancel := False, jb_source_cancel := False\<rparr>) True True cl r k CtlStopRead d)"
  "jb_status j \<notin> {JobStatusDone, JobStatusFailed} \<Longrightarrow>
     control_step (pipe_at j c sc cl r k CtlStopRead d) StopAllowed (pipe_at j c sc cl r k CtlStopSet d)"
  "control_step (pipe_at j c sc cl r k CtlStopSet d) StopSet (pipe_at (setStatus 0 JobStatusStopped j) c sc cl r k CtlIdle d)"
  subgoal using ctl_pause [of "pipe_at j c sc cl r k CtlIdle d" 0] by (simp add: pipe_at_def)
  subgoal using ctl_pause_sent [of "pipe_at j c sc cl r k CtlCancelSource d"] by (simp add: pipe_at_def)
  subgoal using ctl_stop [of "pipe_at j c sc cl r k CtlIdle d"] by (simp add: pipe_at_def)
  subgoal using ctl_stop_allowed [of "pipe_at j c sc cl r k CtlStopRead d"] by (simp add: pipe_at_def)
  subgoal using ctl_stop_set [of "pipe_at j c sc cl r k CtlStopSet d" 0] by (simp add: pipe_at_def)
  done

lemma launched_pipe_at: "launched_pipe j = pipe_at j False False False SrcPreflight SnkRun CtlIdle False"
  by (simp add: launched_pipe_def pipe_at_def)

definition lost_job :: job where
  "lost_job = closeMetaStore (setStatus 0 JobStatusRunning
     (setStatus 0 JobStatusStopped (live_job\<lparr>jb_cancel := False, jb_source_cancel := False\<rparr>)))"

lemma stop_lost_run:
  "run_of (launched_pipe live_job) 10 [StopCancelled, StopAllowed, StopSet]
     (pipe_at lost_job True True True SrcDone SnkDone CtlIdle True)"
proof -
  have cancel: "jb_cancel live_job" and
    status: "jb_status (live_job\<lparr>jb_cancel := False, jb_source_cancel := False\<rparr>) \<notin> {JobStatusDone, JobStatusFailed}"
    by (simp_all add: live_job_def)
  note run_start [of "launched_pipe live_job", unfolded launched_pipe_at [of live_job]]
  note run_pipe_source [OF this pipe_at_steps(1)]
  note run_pipe_source [OF this pipe_at_steps(2)]
  note run_control [OF this pipe_at_controls(3) [OF cancel]]
  note run_control [OF this pipe_at_controls(4) [OF status]]
  note run_control [OF this pipe_at_controls(5)]
  note run_pipe_source [OF this pipe_at_steps(3)]
  note run_pipe_source [OF this pipe_at_steps(4)]
  note run_pipe_source [OF this pipe_at_steps(5) [OF disjI2 [OF TrueI]]]
  note run_pipe_source [OF this pipe_at_steps(6)]
  note run_pipe_sink [OF this pipe_at_steps(7)]
  note run_pipe_sink [OF this pipe_at_steps(8)]
  note run_pipe_sink [OF this pipe_at_steps(13)]
  note run_pipe_closer [OF this pipe_at_steps(14)]
  then show ?thesis by (simp add: launched_pipe_at lost_job_def numeral_eq_Suc)
qed

text \<open>A sink that fails just before the source marks the job as running.\<close>

definition failed_then_running :: job where
  "failed_then_running = closeMetaStore (setStatus 0 JobStatusRunning
     (setStatus 0 JobStatusFailed (addError 0 ''sink'' (Some []) live_job)))"

lemma failure_lost_run:
  "run_of (launched_pipe live_job) 13 [] (pipe_at failed_then_running True True True SrcDone SnkDone CtlIdle True)"
proof -
  note run_start [of "launched_pipe live_job", unfolded launched_pipe_at [of live_job]]
  note run_pipe_source [OF this pipe_at_steps(1)]
  note run_pipe_source [OF this pipe_at_steps(2)]
  note run_pipe_sink [OF this pipe_at_steps(7)]
  note run_pipe_sink [OF this pipe_at_steps(15)]
  note run_pipe_sink [OF this pipe_at_steps(16)]
  note run_pipe_sink [OF this pipe_at_steps(17)]
  note run_pipe_source [OF this pipe_at_steps(3)]
  note run_pipe_sink [OF this pipe_at_steps(18)]
  note run_pipe_source [OF this pipe_at_steps(4)]
  note run_pipe_source [OF this pipe_at_steps(5) [OF disjI2 [OF TrueI]]]
  note run_pipe_source [OF this pipe_at_steps(6)]
  note run_pipe_sink [OF this pipe_at_steps(13)]
  note run_pipe_closer [OF this pipe_at_steps(14)]
  then show ?thesis by (simp add: launched_pipe_at failed_then_running_def numeral_eq_Suc)
qed

definition paused_job :: job where
  "paused_job = closeMetaStore (setStatus 0 JobStatusPaused (setStatus 0 JobStatusPausing
     ((setStatus 0 JobStatusRunning live_job)\<lparr>jb_source_cancel := False, jb_pause_requested := True\<rparr>)))"

lemma paused_run:
  "run_of (launched_pipe live_job) 12 [PauseAccepted, PauseSent]
     (pipe_at paused_job False True True SrcDone SnkDone CtlIdle True)"
proof -
  have running: "jb_status (setStatus 0 JobStatusRunning live_job) = JobStatusRunning"
    "jb_source_cancel (setStatus 0 JobStatusRunning live_job)"
    by (simp_all add: live_job_def)
  have asked: "jb_pause_requested (setStatus 0 JobStatusPausing
     ((setStatus 0 JobStatusRunning live_job)\<lparr>jb_source_cancel := False, jb_pause_requested := True\<rparr>))"
    by simp
  note run_start [of "launched_pipe live_job", unfolded launched_pipe_at [of live_job]]
  note run_pipe_source [OF this pipe_at_steps(1)]
  note run_pipe_source [OF this pipe_at_steps(2)]
  note run_pipe_source [OF this pipe_at_steps(3)]
  note run_control [OF this pipe_at_controls(1) [OF running]]
  note run_control [OF this pipe_at_controls(2)]
  note run_pipe_source [OF this pipe_at_steps(4)]
  note run_pipe_source [OF this pipe_at_steps(5) [OF disjI1 [OF conjI [OF TrueI asked]]]]
  note run_pipe_source [OF this pipe_at_steps(6)]
  note run_pipe_sink [OF this pipe_at_steps(9)]
  note run_pipe_sink [OF this pipe_at_steps(10)]
  note run_pipe_sink [OF this pipe_at_steps(11) [OF asked]]
  note run_pipe_sink [OF this pipe_at_steps(12)]
  note run_pipe_sink [OF this pipe_at_steps(13)]
  note run_pipe_closer [OF this pipe_at_steps(14)]
  then show ?thesis by (simp add: launched_pipe_at paused_job_def numeral_eq_Suc)
qed

lemma run_job_states: "jb_status lost_job = JobStatusRunning" "jb_status paused_job = JobStatusPaused"
  "jb_status failed_then_running = JobStatusRunning" "jb_errors failed_then_running \<noteq> []"
  by (simp_all add: lost_job_def paused_job_def failed_then_running_def)

lemma pipe_at_fields [simp]:
  "pp_job (pipe_at j c sc cl r k t d) = j" "pp_done (pipe_at j c sc cl r k t d) = d"
  by (simp_all add: pipe_at_def)

theorem paused_means_drained_witness:
  "jb_status live_job = JobStatusPending \<and> jb_cancel live_job \<and>
   (let s = pipe_at paused_job False True True SrcDone SnkDone CtlIdle True in
    run_of (launched_pipe live_job) 12 [PauseAccepted, PauseSent] s \<and> jb_status (pp_job s) = JobStatusPaused \<and>
    pp_closed s \<and> jb_errors (pp_job s) = [] \<and> jb_pause_requested (pp_job s))"
proof -
  have live: "jb_status live_job = JobStatusPending" "jb_cancel live_job" "jb_errors live_job = []"
    by (simp_all add: live_job_def NewJob_def)
  from paused_means_drained [OF live(1,2) paused_run] run_job_states(2) paused_run live
  show ?thesis by (simp add: Let_def)
qed

text \<open>A pipeline whose source has just been launched, with a pause request still to come, ends as well.\<close>

theorem every_run_ends_witness:
  "run_of (launched_pipe live_job) 0 [] (launched_pipe live_job) \<and>
   (\<exists>t. graceful_step\<^sup>*\<^sup>* (launched_pipe live_job) t \<and> pp_done t \<and> \<not> jb_store (pp_job t))"
  using every_run_ends [OF run_start [of "launched_pipe live_job"]] run_start by blast

text \<open>
  A stop and a failure can be overwritten. The source looks at its context and then sets RUNNING in
  two steps; a stop that lands between them is accepted, and the run ends with the job shown as RUNNING.
  In the same window a sink's failure is recorded and then shown as RUNNING for good.
\<close>

theorem stop_can_be_lost:
  "(\<exists>n s. run_of (launched_pipe live_job) n [StopCancelled, StopAllowed, StopSet] s \<and> pp_done s \<and>
      jb_status (pp_job s) = JobStatusRunning) \<and>
   (\<exists>n s. run_of (launched_pipe live_job) n [] s \<and> pp_done s \<and> jb_errors (pp_job s) \<noteq> [] \<and>
      jb_status (pp_job s) = JobStatusRunning)"
  using stop_lost_run failure_lost_run run_job_states pipe_at_fields by metis

end
