(* ===== verification/Job_Rebuild.thy ===== *)
theory Job_Rebuild
  imports Worker_Fence Rebuild_Config
begin

text \<open>
  The two transactions that reset a stopped job whose binlog history is gone (\<open>pkg/meta/job_rebuild.go\<close>,
  \<open>pkg/meta/job_native_rebuild.go\<close>). Each runs serializably: it is one function from the database to a
  result and the database after commit or rollback. The JSON forms of a configuration come from the
  \<open>json_codec\<close>; an archive's payload is kept as data. \<open>shared\<close> says that the registry and the checkpoints
  live in one MySQL database; the uuids the code draws are arguments.

  The lemmas show that nothing is discarded that is not archived, that an unresolved commit blocks the
  reset, and that workers of the previous submission are fenced off.
\<close>

section \<open>The rebuild of a job\<close>

definition empty_owner :: "job_row \<Rightarrow> bool" where
  "empty_owner r \<longleftrightarrow> (case jr_owner r of None \<Rightarrow> True | Some w \<Rightarrow> w = [])"

definition row_key :: "job_row \<Rightarrow> string" where
  "row_key r = (case jr_meta_key r of None \<Rightarrow> [] | Some k \<Rightarrow> k)"

definition at_rest :: "job_row \<Rightarrow> bool" where
  "at_rest r \<longleftrightarrow> jr_desired r = DesiredStateStopped \<and> jr_status r \<in> {''FAILED'', ''STOPPED'', ''PAUSED''} \<and> empty_owner r"

text \<open>What stops the walk over the receipts of the state key or the job.\<close>

definition receipt_blocks :: "string \<Rightarrow> string \<Rightarrow> commit_intent \<Rightarrow> string option" where
  "receipt_blocks job key i =
     (if ci_status i \<noteq> IcebergCommitCommitted
      then Some (''snapshot rebuild BLOCKED operation='' @ ci_operation_id i @ '': commit outcome '' @ ci_status i @
        '' must be resolved before target reset'')
      else if ci_job_id i \<noteq> job \<or> ci_state_key i \<noteq> key \<and> ci_state_key i \<noteq> job
      then Some (''snapshot rebuild BLOCKED operation='' @ ci_operation_id i @ '': receipt belongs to another state key'')
      else None)"

fun first_blocked :: "string \<Rightarrow> string \<Rightarrow> (int \<times> commit_intent) list \<Rightarrow> string option" where
  "first_blocked job key [] = None"
| "first_blocked job key ((t, i) # is) =
     (if ci_state_key i = key \<or> ci_job_id i = job
      then (case receipt_blocks job key i of Some e \<Rightarrow> Some e | None \<Rightarrow> first_blocked job key is)
      else first_blocked job key is)"

definition archive_state :: "meta_db \<Rightarrow> string \<Rightarrow> archived_state" where
  "archive_state db key =
     \<lparr>as_key = key, as_offset = GetOffset key db, as_snapshot = GetSnapshotState key db,
      as_progress = GetSnapshotProgress key db, as_intents = ListIcebergCommits key db\<rparr>"

definition rebuild_keys :: "string \<Rightarrow> string \<Rightarrow> string list" where
  "rebuild_keys job key = (if job \<noteq> key then [key, job] else [key])"

definition rebuilt_config :: "string \<Rightarrow> job_config \<Rightarrow> job_config" where
  "rebuilt_config submission cfg =
     (let sink = (\<lambda>f. map_option (\<lambda>k. k\<lparr>cs_config := f (cs_config k)\<rparr>) (jc_sink cfg)) in
      if IcebergSnapshotRebuildUsesTrino (Some cfg)
      then cfg\<lparr>jc_metadata := map_put IcebergRebuildScopedKey submission (map_delete IcebergRebuildFullResetKey (jc_metadata cfg)),
               jc_sink := sink (\<lambda>m. map_put ''snapshot_rolling_enabled'' (GoBool False)
                 (map_put ''snapshot_write_mode'' (GoStr IcebergRebuildScopedNativeWriteMode) m))\<rparr>
      else cfg\<lparr>jc_metadata := map_put IcebergRebuildFullResetKey submission (map_delete IcebergRebuildScopedKey (jc_metadata cfg)),
               jc_sink := sink (map_put ''snapshot_write_mode'' (GoStr IcebergRebuildSnapshotWriteMode))\<rparr>)"

text \<open>\<open>deleteJobState\<close> over the keys; an error rolls the transaction back.\<close>

fun delete_states :: "string list \<Rightarrow> unit db_op" where
  "delete_states [] db = (Inr (), db)"
| "delete_states (k # ks) db =
     (case deleteJobState k db of (Inl e, db') \<Rightarrow> (Inl e, db') | (Inr _, db') \<Rightarrow> delete_states ks db')"

definition rebuild_row :: "int \<Rightarrow> string \<Rightarrow> string \<Rightarrow> job_row \<Rightarrow> job_row" where
  "rebuild_row now submission raw r =
     r\<lparr>jr_submission := submission, jr_config := raw, jr_desired := DesiredStateRunning,
       jr_role := JobExecutionRoleSnapshot, jr_resume := False, jr_status := ''QUEUED'', jr_owner := None,
       jr_until := None, jr_progress := None, jr_updated := now\<rparr>"

definition RequestJobRebuild ::
  "json_codec \<Rightarrow> rebuild_decoders \<Rightarrow> bool \<Rightarrow> int \<Rightarrow> string \<Rightarrow> string \<Rightarrow> string \<Rightarrow> string \<Rightarrow> string \<Rightarrow> (string \<times> string) db_op" where
  "RequestJobRebuild J D shared now archive_id new_submission job submission key db =
     (if \<not> shared
      then (Inl (ErrMsg ''snapshot rebuild requires registry and checkpoints in the same MySQL database''), db)
      else case job_lookup job db of
        None \<Rightarrow> (Inl ErrNoRows, db)
      | Some r \<Rightarrow>
          if jr_submission r \<noteq> submission \<or> row_key r \<noteq> key \<or> jr_role r = JobExecutionRoleAll \<or> \<not> at_rest r
          then (Inl ErrWorkerOwnershipLost, db)
          else (case dec_config J (jr_config r) of
            Inl e \<Rightarrow> (Inl (ErrMsg e), db)
          | Inr cfg \<Rightarrow>
         (case ValidateIcebergSnapshotRebuild D (Some cfg) of
            Some e \<Rightarrow> (Inl (ErrMsg e), db)
          | None \<Rightarrow>
         (case first_blocked job key (db_intents db) of
            Some e \<Rightarrow> (Inl (ErrMsg e), db)
          | None \<Rightarrow>
             (let archive = \<lparr>ar_id = archive_id, ar_job = job, ar_submission = submission, ar_state_key = key,
                    ar_reason = ''purged_binlog_snapshot_rebuild'', ar_config = jr_config r,
                    ar_states = map (archive_state db) (rebuild_keys job key), ar_created = now\<rparr>;
                  db1 = db\<lparr>db_archives := db_archives db @ [archive],
                    db_intents := tbl_delete (\<lambda>(t, i). ci_state_key i = key \<or> ci_job_id i = job) (db_intents db)\<rparr> in
              case delete_states (rebuild_keys job key) db1 of
                (Inl e, _) \<Rightarrow> (Inl e, db)
              | (Inr _, db2) \<Rightarrow>
                  (Inr (archive_id, new_submission),
                   db2\<lparr>db_jobs := tbl_update (\<lambda>x. jr_id x = job)
                     (rebuild_row now new_submission (enc_config J (rebuilt_config new_submission cfg))) (db_jobs db2)\<rparr>))))))"

section \<open>The upgrade of an unfinished scoped rebuild\<close>

definition upgradable_receipt :: "bool \<Rightarrow> string \<Rightarrow> string \<Rightarrow> string \<Rightarrow> commit_intent \<Rightarrow> bool" where
  "upgradable_receipt native job key submission i \<longleftrightarrow>
     (ci_status i = IcebergCommitCommitted \<or> ci_status i = IcebergCommitPrepared) \<and>
     (ci_job_id i = job \<and> ci_state_key i = key \<and> ci_kind i = ''rebuild'' \<and>
      has_prefix (''rebuild:'' @ submission @ '':'') (ci_batch_id i) \<and> ci_target_uuid i \<noteq> [] \<and> ci_trino_query_id i \<noteq> [] \<and>
      (ci_operation i = ''trino-reset'' \<or> ci_operation i = ''trino-merge'') \<or>
      native \<and> IsScopedNativeSnapshotIntent i job key submission)"

definition sink_mode :: "job_config \<Rightarrow> goval option" where
  "sink_mode cfg = (case jc_sink cfg of None \<Rightarrow> None | Some k \<Rightarrow> map_get (cs_config k) ''snapshot_write_mode'')"

definition native_config :: "job_config \<Rightarrow> job_config" where
  "native_config cfg = cfg\<lparr>jc_sink := map_option (\<lambda>k. k\<lparr>cs_config :=
     map_put ''snapshot_rolling_enabled'' (GoBool False)
       (map_put ''snapshot_write_mode'' (GoStr IcebergRebuildScopedNativeWriteMode) (cs_config k))\<rparr>) (jc_sink cfg)\<rparr>"

definition unfinished_snapshot :: "snapshot_state option \<Rightarrow> bool" where
  "unfinished_snapshot st \<longleftrightarrow>
     (case st of None \<Rightarrow> False | Some s \<Rightarrow> \<not> ss_done s \<and> ss_start_file s \<noteq> [] \<and> ss_start_pos s \<noteq> 0)"

definition UpgradeJobNativeRebuild ::
  "json_codec \<Rightarrow> rebuild_decoders \<Rightarrow> bool \<Rightarrow> int \<Rightarrow> string \<Rightarrow> string \<Rightarrow> string \<Rightarrow> string \<Rightarrow> job_config db_op" where
  "UpgradeJobNativeRebuild J D shared now archive_id job submission key db =
     (if \<not> shared then (Inl (ErrMsg ''native rebuild upgrade requires shared MySQL metadata''), db)
      else case job_lookup job db of
        None \<Rightarrow> (Inl ErrNoRows, db)
      | Some r \<Rightarrow>
          if jr_submission r \<noteq> submission \<or> row_key r \<noteq> key \<or> jr_role r \<noteq> JobExecutionRoleSnapshot \<or> \<not> at_rest r
          then (Inl ErrWorkerOwnershipLost, db)
          else (case dec_config J (jr_config r) of
            Inl e \<Rightarrow> (Inl (ErrMsg e), db)
          | Inr cfg \<Rightarrow>
              (let token = (case map_get (jc_metadata cfg) IcebergRebuildScopedKey of Some t \<Rightarrow> t | None \<Rightarrow> []);
                   native = (sink_mode cfg = Some (GoStr IcebergRebuildScopedNativeWriteMode)) in
               if token \<noteq> jr_submission r \<or> jr_submission r = [] \<or> jc_sink cfg = None
               then (Inl (ErrMsg ''native rebuild upgrade requires the current scoped epoch''), db)
               else if sink_mode cfg \<noteq> Some (GoStr IcebergRebuildScopedWriteMode) \<and> \<not> native
               then (Inl (ErrMsg ''native rebuild upgrade requires a supported scoped write protocol''), db)
               else case ValidateIcebergSnapshotRebuild D (Some cfg) of
                 Some e \<Rightarrow> (Inl (ErrMsg e), db)
               | None \<Rightarrow>
                   if \<not> unfinished_snapshot (GetSnapshotState key db)
                   then (Inl (ErrMsg ''native rebuild upgrade requires an unfinished snapshot''), db)
                   else (case find (\<lambda>i. \<not> upgradable_receipt native job key submission i) (ListIcebergCommitsForJob key job db) of
                     Some i \<Rightarrow> (Inl (ErrMsg (''native rebuild upgrade blocked by unrelated or unidentifiable receipt operation='' @
                       ci_operation_id i)), db)
                   | None \<Rightarrow>
                       if native then (Inr cfg, db)
                       else (Inr (native_config cfg),
                         db\<lparr>db_archives := db_archives db @ [\<lparr>ar_id = archive_id, ar_job = job, ar_submission = submission,
                              ar_state_key = key, ar_reason = ''native_snapshot_writer_upgrade'', ar_config = jr_config r,
                              ar_states = [(archive_state db key)\<lparr>as_intents := ListIcebergCommitsForJob key job db\<rparr>],
                              ar_created = now\<rparr>],
                            db_jobs := tbl_update (\<lambda>x. jr_id x = job)
                              (\<lambda>x. x\<lparr>jr_config := enc_config J (native_config cfg), jr_updated := now\<rparr>) (db_jobs db)\<rparr>)))))"

section \<open>What a rebuild keeps\<close>

text \<open>Putting an archived checkpoint back; the check that nothing is lost.\<close>

definition restore_state :: "archived_state \<Rightarrow> meta_db \<Rightarrow> meta_db" where
  "restore_state s db = db\<lparr>db_offsets := (db_offsets db)(as_key s := as_offset s),
     db_snapshots := (db_snapshots db)(as_key s := as_snapshot s),
     db_progress := (db_progress db)(as_key s := as_progress s)\<rparr>"

definition restore_archive :: "archive_row \<Rightarrow> meta_db \<Rightarrow> meta_db" where
  "restore_archive ar db = fold restore_state (ar_states ar) db"

definition archived_intents :: "archive_row \<Rightarrow> commit_intent list" where
  "archived_intents ar = concat (map as_intents (ar_states ar))"

lemma first_blocked_None:
  "first_blocked job key is = None \<longleftrightarrow>
     (\<forall>(t, i) \<in> set is. ci_state_key i = key \<or> ci_job_id i = job \<longrightarrow>
        ci_status i = IcebergCommitCommitted \<and> ci_job_id i = job \<and> (ci_state_key i = key \<or> ci_state_key i = job))"
  by (induction job key "is" rule: first_blocked.induct) (auto simp: receipt_blocks_def split: option.splits if_splits)

lemma deleteJobState_ok:
  "deleteJobState k db = (Inr u, db') \<Longrightarrow> db' = db\<lparr>db_snapshots := (db_snapshots db)(k := None),
     db_progress := (db_progress db)(k := None), db_offsets := (db_offsets db)(k := None)\<rparr>"
  by (simp add: deleteJobState_def split: sum.splits)

lemma delete_states_frame:
  assumes "delete_states ks db = (Inr u, db')"
  shows "db_jobs db' = db_jobs db \<and> db_intents db' = db_intents db \<and> db_archives db' = db_archives db \<and>
    db_notes db' = db_notes db \<and>
    (\<forall>k. GetOffset k db' = (if k \<in> set ks then None else GetOffset k db) \<and>
       GetSnapshotState k db' = (if k \<in> set ks then None else GetSnapshotState k db) \<and>
       GetSnapshotProgress k db' = (if k \<in> set ks then None else GetSnapshotProgress k db))"
  using assms
proof (induction ks arbitrary: db)
  case (Cons k ks)
  obtain r db1 where d: "deleteJobState k db = (r, db1)" by fastforce
  then obtain u' where r: "r = Inr u'" using Cons.prems by (cases r) auto
  note one = deleteJobState_ok [OF d [unfolded r]]
  from Cons.prems d r have "delete_states ks db1 = (Inr u, db')" by simp
  from Cons.IH [OF this] show ?case
    by (simp add: one GetOffset_def GetSnapshotState_def GetSnapshotProgress_def)
qed simp

lemma delete_states_cleared:
  assumes "delete_states ks db = (Inr u, db')"
  shows "\<forall>k \<in> set ks. \<forall>(t, i) \<in> set (db_intents db). ci_state_key i \<noteq> k \<and> ci_job_id i \<noteq> k"
  using assms
proof (induction ks arbitrary: db)
  case (Cons k ks)
  obtain r db1 where d: "deleteJobState k db = (r, db1)" by fastforce
  then obtain u' where r: "r = Inr u'" using Cons.prems by (cases r) auto
  have "checkJobStateCleanup k db = Inr ()" using d r by (auto simp: deleteJobState_def split: sum.splits)
  then have one: "\<forall>(t, i) \<in> set (db_intents db). ci_state_key i \<noteq> k \<and> ci_job_id i \<noteq> k"
    by (simp only: checkJobStateCleanup_Inr)
  have "db_intents db1 = db_intents db" using deleteJobState_ok [OF d [unfolded r]] by simp
  moreover from Cons.prems d r have "delete_states ks db1 = (Inr u, db')" by simp
  ultimately show ?case using Cons.IH [of db1] one by simp
qed simp

lemma restore_states:
  "GetOffset k (restore_archive ar db) =
     (case find (\<lambda>s. as_key s = k) (rev (ar_states ar)) of Some s \<Rightarrow> as_offset s | None \<Rightarrow> GetOffset k db)"
  "GetSnapshotState k (restore_archive ar db) =
     (case find (\<lambda>s. as_key s = k) (rev (ar_states ar)) of Some s \<Rightarrow> as_snapshot s | None \<Rightarrow> GetSnapshotState k db)"
  "GetSnapshotProgress k (restore_archive ar db) =
     (case find (\<lambda>s. as_key s = k) (rev (ar_states ar)) of Some s \<Rightarrow> as_progress s | None \<Rightarrow> GetSnapshotProgress k db)"
proof -
  have f: "fold restore_state ss db = foldr restore_state (rev ss) db" for ss by (simp add: foldr_conv_fold)
  have "GetOffset k (foldr restore_state ss db) =
      (case find (\<lambda>s. as_key s = k) ss of Some s \<Rightarrow> as_offset s | None \<Rightarrow> GetOffset k db) \<and>
    GetSnapshotState k (foldr restore_state ss db) =
      (case find (\<lambda>s. as_key s = k) ss of Some s \<Rightarrow> as_snapshot s | None \<Rightarrow> GetSnapshotState k db) \<and>
    GetSnapshotProgress k (foldr restore_state ss db) =
      (case find (\<lambda>s. as_key s = k) ss of Some s \<Rightarrow> as_progress s | None \<Rightarrow> GetSnapshotProgress k db)" for ss
    by (induction ss) (auto simp: restore_state_def GetOffset_def GetSnapshotState_def GetSnapshotProgress_def)
  then show "GetOffset k (restore_archive ar db) =
     (case find (\<lambda>s. as_key s = k) (rev (ar_states ar)) of Some s \<Rightarrow> as_offset s | None \<Rightarrow> GetOffset k db)"
  "GetSnapshotState k (restore_archive ar db) =
     (case find (\<lambda>s. as_key s = k) (rev (ar_states ar)) of Some s \<Rightarrow> as_snapshot s | None \<Rightarrow> GetSnapshotState k db)"
  "GetSnapshotProgress k (restore_archive ar db) =
     (case find (\<lambda>s. as_key s = k) (rev (ar_states ar)) of Some s \<Rightarrow> as_progress s | None \<Rightarrow> GetSnapshotProgress k db)"
    by (simp_all add: restore_archive_def f)
qed

lemma find_archived:
  "find (\<lambda>s. as_key s = k) (rev (map (archive_state db) (rebuild_keys job key))) =
     (if k = key \<or> k = job then Some (archive_state db k) else None)"
  by (auto simp: rebuild_keys_def archive_state_def)

lemma RequestJobRebuild_cases:
  assumes "RequestJobRebuild J D shared now a s job submission key db = (res, db')"
  obtains (refused) e where "res = Inl e" "db' = db"
  | (rebuilt) r cfg ar db1 db2 where "res = Inr (a, s)" "shared" "job_lookup job db = Some r"
      "jr_submission r = submission" "row_key r = key" "jr_role r \<noteq> JobExecutionRoleAll" "at_rest r"
      "dec_config J (jr_config r) = Inr cfg" "ValidateIcebergSnapshotRebuild D (Some cfg) = None"
      "first_blocked job key (db_intents db) = None"
      "ar = \<lparr>ar_id = a, ar_job = job, ar_submission = submission, ar_state_key = key,
         ar_reason = ''purged_binlog_snapshot_rebuild'', ar_config = jr_config r,
         ar_states = map (archive_state db) (rebuild_keys job key), ar_created = now\<rparr>"
      "db1 = db\<lparr>db_archives := db_archives db @ [ar],
         db_intents := tbl_delete (\<lambda>(t, i). ci_state_key i = key \<or> ci_job_id i = job) (db_intents db)\<rparr>"
      "delete_states (rebuild_keys job key) db1 = (Inr (), db2)"
      "db' = db2\<lparr>db_jobs := tbl_update (\<lambda>x. jr_id x = job)
         (rebuild_row now s (enc_config J (rebuilt_config s cfg))) (db_jobs db2)\<rparr>"
proof -
  note d = assms [unfolded RequestJobRebuild_def Let_def]
  show ?thesis
  proof (cases res)
    case (Inl e)
    then have "db' = db" using d by (auto split: if_splits option.splits sum.splits prod.splits)
    then show ?thesis using Inl refused by blast
  next
    case (Inr p)
    let ?ar = "\<lambda>r. \<lparr>ar_id = a, ar_job = job, ar_submission = submission, ar_state_key = key,
         ar_reason = ''purged_binlog_snapshot_rebuild'', ar_config = jr_config r,
         ar_states = map (archive_state db) (rebuild_keys job key), ar_created = now\<rparr>"
    let ?db1 = "\<lambda>r. db\<lparr>db_archives := db_archives db @ [?ar r],
         db_intents := tbl_delete (\<lambda>(t, i). ci_state_key i = key \<or> ci_job_id i = job) (db_intents db)\<rparr>"
    from d Inr obtain r cfg db2 where "res = Inr (a, s)" "shared" "job_lookup job db = Some r"
      "jr_submission r = submission" "row_key r = key" "jr_role r \<noteq> JobExecutionRoleAll" "at_rest r"
      "dec_config J (jr_config r) = Inr cfg" "ValidateIcebergSnapshotRebuild D (Some cfg) = None"
      "first_blocked job key (db_intents db) = None" "delete_states (rebuild_keys job key) (?db1 r) = (Inr (), db2)"
      "db' = db2\<lparr>db_jobs := tbl_update (\<lambda>x. jr_id x = job)
         (rebuild_row now s (enc_config J (rebuilt_config s cfg))) (db_jobs db2)\<rparr>"
      by (auto split: if_splits option.splits sum.splits prod.splits)
    then show ?thesis by (intro rebuilt [where ar = "?ar r" and ?db1.0 = "?db1 r"]) (assumption | rule refl)+
  qed
qed


lemma admitted_has_sink: "ValidateIcebergSnapshotRebuild D (Some cfg) = None \<Longrightarrow> jc_sink cfg \<noteq> None"
  by (auto simp: ValidateIcebergSnapshotRebuild_def split: if_splits option.splits)

text \<open>What a rebuild asks of the row it finds, and the row it leaves, each column spelled out.\<close>

definition row_at_rest_under :: "string \<Rightarrow> string \<Rightarrow> job_row \<Rightarrow> bool" where
  "row_at_rest_under submission key r \<longleftrightarrow>
     jr_submission r = submission \<and> (jr_meta_key r = Some key \<or> jr_meta_key r = None \<and> key = []) \<and>
     jr_role r \<noteq> ''ALL'' \<and> jr_desired r = ''STOPPED'' \<and> jr_status r \<in> {''FAILED'', ''STOPPED'', ''PAUSED''} \<and>
     (jr_owner r = None \<or> jr_owner r = Some [])"

definition queued_snapshot_row :: "string \<Rightarrow> int \<Rightarrow> job_row \<Rightarrow> job_row \<Rightarrow> bool" where
  "queued_snapshot_row s now r r' \<longleftrightarrow>
     jr_submission r' = s \<and> jr_role r' = ''SNAPSHOT'' \<and> jr_desired r' = ''RUNNING'' \<and> jr_status r' = ''QUEUED'' \<and>
     \<not> jr_resume r' \<and> jr_owner r' = None \<and> jr_until r' = None \<and> jr_progress r' = None \<and> jr_updated r' = now \<and>
     jr_id r' = jr_id r \<and> jr_name r' = jr_name r \<and> jr_meta_key r' = jr_meta_key r \<and> jr_errors r' = jr_errors r \<and>
     jr_created r' = jr_created r"

text \<open>The configuration of the rebuild carries the new submission as exactly one of the two rebuild tokens.\<close>

definition rebuild_token :: "string \<Rightarrow> job_config \<Rightarrow> bool" where
  "rebuild_token s c \<longleftrightarrow>
     (let meta = map_get (jc_metadata c);
          mode = (case jc_sink c of None \<Rightarrow> None | Some k \<Rightarrow> map_get (cs_config k) ''snapshot_write_mode'') in
      meta IcebergRebuildScopedKey = Some s \<and> meta IcebergRebuildFullResetKey = None \<and>
        mode = Some (GoStr ''rebuild-scoped-native-v2'') \<or>
      meta IcebergRebuildFullResetKey = Some s \<and> meta IcebergRebuildScopedKey = None \<and>
        mode = Some (GoStr IcebergRebuildSnapshotWriteMode))"

lemma rebuilt_config_token: "jc_sink cfg \<noteq> None \<Longrightarrow> rebuild_token s (rebuilt_config s cfg)"
  by (auto simp: rebuild_token_def rebuilt_config_def Let_def map_get_put map_get_delete split: option.splits)

text \<open>
  C22: a rebuild discards nothing it has not archived. A refused rebuild changes nothing. An accepted one
  found the job's row unowned, stopped, FAILED, STOPPED or PAUSED, under the given submission and state key
  and outside the role ALL, with every receipt of the job committed; it appends one archive, under the
  archive id it returns, from which the offset, snapshot state, progress and receipts of the job can be put
  back exactly, clears the checkpoint of both of its keys, and leaves other keys, receipts and jobs alone.
  The row becomes an unowned QUEUED snapshot that is wanted to run under the new submission it returns, with
  a configuration that carries this submission as its rebuild token and names the write mode of the rebuild.
\<close>

theorem rebuild_archives_everything:
  assumes "RequestJobRebuild J D shared now a s job submission key db = (res, db')"
  shows "case res of
      Inl e \<Rightarrow> db' = db
    | Inr (a', s') \<Rightarrow> a' = a \<and> s' = s \<and>
        (\<exists>r r' cfg cfg'. job_lookup job db = Some r \<and> row_at_rest_under submission key r \<and>
           dec_config J (jr_config r) = Inr cfg \<and> job_lookup job db' = Some r' \<and> queued_snapshot_row s now r r' \<and>
           jr_config r' = enc_config J cfg' \<and> rebuild_token s cfg' \<and> jc_source cfg' = jc_source cfg) \<and>
        (\<forall>j. j \<noteq> job \<longrightarrow> job_lookup j db' = job_lookup j db) \<and>
        list_all (\<lambda>i. ci_status i = IcebergCommitCommitted) (ListIcebergCommitsForJob key job db) \<and>
        (\<exists>ar. db_archives db' = db_archives db @ [ar] \<and> ar_id ar = a \<and> ar_job ar = job \<and>
           ar_submission ar = submission \<and> ar_state_key ar = key \<and>
           map_option jr_config (job_lookup job db) = Some (ar_config ar) \<and>
           (\<forall>k. GetOffset k (restore_archive ar db') = GetOffset k db \<and>
              GetSnapshotState k (restore_archive ar db') = GetSnapshotState k db \<and>
              GetSnapshotProgress k (restore_archive ar db') = GetSnapshotProgress k db) \<and>
           set (archived_intents ar) = set (ListIcebergCommitsForJob key job db) \<and>
           set (db_intents db') = {(t, i) \<in> set (db_intents db). i \<notin> set (archived_intents ar)}) \<and>
        (\<forall>k \<in> {key, job}. GetOffset k db' = None \<and> GetSnapshotState k db' = None \<and> GetSnapshotProgress k db' = None)"
  using assms
proof (cases rule: RequestJobRebuild_cases)
  case (rebuilt r cfg ar db1 db2)
  note fr = delete_states_frame [OF rebuilt(13)]
  have keys: "k \<in> set (rebuild_keys job key) \<longleftrightarrow> k = key \<or> k = job" for k by (auto simp: rebuild_keys_def)
  let ?row = "rebuild_row now s (enc_config J (rebuilt_config s cfg))"
  have look: "job_lookup j db' = map_option (\<lambda>x. if jr_id x = job then ?row x else x) (job_lookup j db)" for j
    unfolding job_lookup_def rebuilt(14) using fr rebuilt(12)
    by (simp add: tbl_find_update [of "\<lambda>x. jr_id x = job" jr_id ?row] rebuild_row_def)
  have row: "job_lookup job db' = Some (?row r)" using look rebuilt(3) job_lookup_id [OF rebuilt(3)] by simp
  have others: "\<forall>j. j \<noteq> job \<longrightarrow> job_lookup j db' = job_lookup j db"
    using look job_lookup_id by (auto simp: option.map_ident_strong map_option_case split: option.split)
  have st: "GetOffset k db' = (if k = key \<or> k = job then None else GetOffset k db)"
    "GetSnapshotState k db' = (if k = key \<or> k = job then None else GetSnapshotState k db)"
    "GetSnapshotProgress k db' = (if k = key \<or> k = job then None else GetSnapshotProgress k db)" for k
    using fr rebuilt(12,14) by (auto simp: keys GetOffset_def GetSnapshotState_def GetSnapshotProgress_def)
  have find_ar: "find (\<lambda>s. as_key s = k) (rev (ar_states ar)) = (if k = key \<or> k = job then Some (archive_state db k) else None)" for k
    using find_archived [of k db job key] rebuilt(11) by simp
  have restored: "\<forall>k. GetOffset k (restore_archive ar db') = GetOffset k db \<and>
      GetSnapshotState k (restore_archive ar db') = GetSnapshotState k db \<and>
      GetSnapshotProgress k (restore_archive ar db') = GetSnapshotProgress k db"
    unfolding restore_states find_ar by (simp add: archive_state_def st)
  have blocked: "\<forall>(t, i) \<in> set (db_intents db). ci_state_key i = key \<or> ci_job_id i = job \<longrightarrow>
      ci_status i = IcebergCommitCommitted \<and> ci_job_id i = job \<and> (ci_state_key i = key \<or> ci_state_key i = job)"
    using rebuilt(10) by (simp only: first_blocked_None)
  have cleared: "ci_state_key i \<noteq> job" if "(t, i) \<in> set (db_intents db)" "ci_state_key i \<noteq> key" "ci_job_id i \<noteq> job" for t i
  proof -
    have "(t, i) \<in> set (db_intents db1)" using that rebuilt(12) by simp
    moreover have "job \<in> set (rebuild_keys job key)" by (simp add: keys)
    ultimately show ?thesis using delete_states_cleared [OF rebuilt(13)] by blast
  qed
  have "set (archived_intents ar) = {i. (\<exists>t. (t, i) \<in> set (db_intents db)) \<and> (ci_state_key i = key \<or> ci_state_key i = job)}"
    unfolding rebuilt(11) by (auto simp: archived_intents_def rebuild_keys_def archive_state_def ListIcebergCommits_set)
  then have ints: "set (archived_intents ar) = set (ListIcebergCommitsForJob key job db)"
    unfolding ListIcebergCommitsForJob_set using blocked cleared by fast
  have left: "set (db_intents db') = {(t, i) \<in> set (db_intents db). i \<notin> set (archived_intents ar)}"
    unfolding ints using fr rebuilt(12,14) by (auto simp: ListIcebergCommitsForJob_set)
  have committed: "list_all (\<lambda>i. ci_status i = IcebergCommitCommitted) (ListIcebergCommitsForJob key job db)"
    using blocked by (fastforce simp: list_all_iff ListIcebergCommitsForJob_set)
  have ar: "db_archives db' = db_archives db @ [ar]" using fr rebuilt(12,14) by simp
  have rest: "row_at_rest_under submission key r"
    using rebuilt(4-7) by (auto simp: row_at_rest_under_def row_key_def at_rest_def empty_owner_def split: option.splits)
  have queued: "queued_snapshot_row s now r (?row r)" by (simp add: queued_snapshot_row_def rebuild_row_def)
  have token: "rebuild_token s (rebuilt_config s cfg)"
    using admitted_has_sink [OF rebuilt(9)] by (simp add: rebuilt_config_token)
  have src: "jc_source (rebuilt_config s cfg) = jc_source cfg" by (simp add: rebuilt_config_def Let_def)
  have arf: "ar_id ar = a" "ar_job ar = job" "ar_submission ar = submission" "ar_state_key ar = key" "ar_config ar = jr_config r"
    using rebuilt(11) by simp_all
  have "\<exists>r r' cfg cfg'. job_lookup job db = Some r \<and> row_at_rest_under submission key r \<and>
      dec_config J (jr_config r) = Inr cfg \<and> job_lookup job db' = Some r' \<and> queued_snapshot_row s now r r' \<and>
      jr_config r' = enc_config J cfg' \<and> rebuild_token s cfg' \<and> jc_source cfg' = jc_source cfg"
    using rebuilt(3,8) rest row queued token src
    by (intro exI [of _ r] exI [of _ "?row r"] exI [of _ cfg] exI [of _ "rebuilt_config s cfg"]) (simp add: rebuild_row_def)
  moreover have "map_option jr_config (job_lookup job db) = Some (ar_config ar)" using rebuilt(3) arf by simp
  ultimately show ?thesis
    unfolding rebuilt(1) sum.case prod.case
    using others committed ar restored ints left st arf by (intro conjI exI [of _ ar]; simp)
qed simp


text \<open>
  A rebuild fences the previous submission. After it no write of a worker that holds the old submission
  goes through, whatever its lease said, and the row can be claimed at once by a snapshot worker.
\<close>

theorem rebuild_fences_old_worker:
  assumes "RequestJobRebuild J D shared now a s job submission key db = (Inr p, db')" "s \<noteq> submission"
    and "wo_job own = job" "wo_submission own = submission" "fenced_attempt own t1 t2 act"
  shows "act db' = (Inl ErrWorkerOwnershipLost, db') \<and>
    (\<exists>r. job_lookup job db' = Some r \<and> claimable JobExecutionRoleSnapshot t r)"
  using assms(1)
proof (cases rule: RequestJobRebuild_cases)
  case (rebuilt r cfg ar db1 db2)
  let ?row = "rebuild_row now s (enc_config J (rebuilt_config s cfg))"
  have jobs: "db_jobs db' = tbl_update (\<lambda>x. jr_id x = job) ?row (db_jobs db)"
    using delete_states_frame [OF rebuilt(13)] rebuilt(12,14) by simp
  have "\<not> ownership_row own t1 x" if "x \<in> set (db_jobs db')" for x
    using that assms(2-4) unfolding jobs by (auto simp: tbl_update_def ownership_row_def rebuild_row_def)
  then have "find (ownership_row own t1) (db_jobs db') = None" by (simp add: find_None_iff)
  then have "fence_check own t1 db' = Inl ErrWorkerOwnershipLost" by (simp add: fence_check_def)
  with fenced_attempt_denied [OF assms(5)] have "act db' = (Inl ErrWorkerOwnershipLost, db')" by blast
  moreover have "job_lookup job db' = Some (?row r)"
    unfolding job_lookup_def jobs using rebuilt(3) job_lookup_id [OF rebuilt(3)]
    by (simp add: tbl_find_update [of "\<lambda>x. jr_id x = job" jr_id ?row] rebuild_row_def job_lookup_def)
  moreover have "claimable JobExecutionRoleSnapshot t (?row r)"
    by (simp add: claimable_def rebuild_row_def lease_free_def)
  ultimately show ?thesis by blast
qed simp

text \<open>
  The upgrade to native writes keeps the epoch. It never changes a checkpoint or a receipt; on success
  the job was at rest in an unfinished scoped snapshot of the same submission, every receipt of the job
  belongs to that submission, and only the configuration of its row changes, to the native write mode.
\<close>

theorem native_upgrade_keeps_epoch:
  assumes "UpgradeJobNativeRebuild J D shared now a job submission key db = (res, db')"
  shows "(case res of
       Inl e \<Rightarrow> db' = db
     | Inr cfg' \<Rightarrow> sink_mode cfg' = Some (GoStr IcebergRebuildScopedNativeWriteMode) \<and>
         unfinished_snapshot (GetSnapshotState key db) \<and>
         list_all (\<lambda>i. ci_job_id i = job \<and> ci_state_key i = key) (ListIcebergCommitsForJob key job db) \<and>
         (\<exists>r. job_lookup job db = Some r \<and> jr_submission r = submission \<and> at_rest r \<and>
            (job_lookup job db' = Some r \<or>
             job_lookup job db' = Some (r\<lparr>jr_config := enc_config J cfg', jr_updated := now\<rparr>)))) \<and>
    db_intents db' = db_intents db \<and> db_offsets db' = db_offsets db \<and> db_snapshots db' = db_snapshots db \<and>
    db_progress db' = db_progress db \<and> (\<forall>j. j \<noteq> job \<longrightarrow> job_lookup j db' = job_lookup j db)"
proof (cases res)
  case (Inl e)
  then have "db' = db"
    using assms by (auto simp: UpgradeJobNativeRebuild_def Let_def split: if_splits option.splits sum.splits)
  then show ?thesis using Inl by simp
next
  case (Inr cfg')
  note u = assms [unfolded Inr UpgradeJobNativeRebuild_def Let_def]
  obtain r where r: "job_lookup job db = Some r" using u by (cases "job_lookup job db") (auto split: if_splits)
  note u = u [unfolded r option.case]
  obtain cfg where cfg: "dec_config J (jr_config r) = Inr cfg"
    using u by (cases "dec_config J (jr_config r)") (auto split: if_splits)
  note u = u [unfolded cfg sum.case]
  have r2: "jr_submission r = submission" "at_rest r" using u by (auto split: if_splits)
  have c: "jc_sink cfg \<noteq> None" using u by (auto split: if_splits)
  have c2: "unfinished_snapshot (GetSnapshotState key db)" using u by (auto split: if_splits option.splits)
  have ok: "find (\<lambda>i. \<not> upgradable_receipt (sink_mode cfg = Some (GoStr IcebergRebuildScopedNativeWriteMode)) job key submission i)
      (ListIcebergCommitsForJob key job db) = None"
    using u by (auto split: if_splits option.splits)
  have out: "(cfg', db') = (cfg, db) \<and> sink_mode cfg = Some (GoStr IcebergRebuildScopedNativeWriteMode) \<or>
      (\<exists>ar. (cfg', db') = (native_config cfg, db\<lparr>db_archives := ar,
         db_jobs := tbl_update (\<lambda>x. jr_id x = job)
           (\<lambda>x. x\<lparr>jr_config := enc_config J (native_config cfg), jr_updated := now\<rparr>) (db_jobs db)\<rparr>))"
  proof (cases "sink_mode cfg = Some (GoStr IcebergRebuildScopedNativeWriteMode)")
    case True
    then show ?thesis using u by (auto split: if_splits option.splits)
  next
    case False
    then show ?thesis using u by (auto split: if_splits option.splits)
  qed
  have mode: "sink_mode cfg' = Some (GoStr IcebergRebuildScopedNativeWriteMode)"
    using out c by (auto simp: sink_mode_def native_config_def map_get_put split: option.splits)
  have own: "list_all (\<lambda>i. ci_job_id i = job \<and> ci_state_key i = key) (ListIcebergCommitsForJob key job db)"
    using ok by (auto simp: find_None_iff list_all_iff upgradable_receipt_def IsScopedNativeSnapshotIntent_def)
  have look: "job_lookup j db' = job_lookup j db \<or> (j = job \<and>
      job_lookup j db' = Some (r\<lparr>jr_config := enc_config J cfg', jr_updated := now\<rparr>))" for j
  proof -
    let ?f = "\<lambda>x. x\<lparr>jr_config := enc_config J cfg', jr_updated := now\<rparr>"
    have "tbl_find jr_id j (tbl_update (\<lambda>x. jr_id x = job) ?f (db_jobs db)) =
        map_option (\<lambda>x. if jr_id x = job then ?f x else x) (tbl_find jr_id j (db_jobs db))"
      by (rule tbl_find_update) simp
    moreover have "jr_id x = j" if "job_lookup j db = Some x" for x using that job_lookup_id by blast
    ultimately show ?thesis
      using out r by (cases "job_lookup j db"; cases "j = job") (auto simp: job_lookup_def)
  qed
  show ?thesis
    unfolding Inr sum.case using mode own look [of job] look r r2 c2 out by auto
qed


text \<open>A job at rest whose rebuild is admitted, with one committed receipt.\<close>

definition rebuild_codec :: json_codec where
  "rebuild_codec = sample_codec\<lparr>dec_config := (\<lambda>_. Inr sample_rebuild_config)\<rparr>"

definition rebuild_db :: meta_db where
  "rebuild_db = (sample_started [(1, sample_intent ''o'' IcebergCommitCommitted)])\<lparr>db_jobs :=
     [(sample_row ''a'' DesiredStateStopped None None ''FAILED'')\<lparr>jr_meta_key := Some ''k''\<rparr>]\<rparr>"

definition rebuild_run :: "(meta_error + (string \<times> string)) \<times> meta_db" where
  "rebuild_run = RequestJobRebuild rebuild_codec sample_rebuild_decoders True 9 ''ar'' ''s2'' ''a'' ''s1'' ''k'' rebuild_db"

lemma rebuild_run_ok: "fst rebuild_run = Inr (''ar'', ''s2'')"
  by code_simp

lemma rebuild_archives_everything_witness:
  "fst rebuild_run = Inr (''ar'', ''s2'') \<and> GetSnapshotState ''k'' (snd rebuild_run) = None \<and>
   map_option jr_role (job_lookup ''a'' (snd rebuild_run)) = Some ''SNAPSHOT'' \<and>
   (\<exists>ar. db_archives (snd rebuild_run) = [ar] \<and>
      GetSnapshotState ''k'' (restore_archive ar (snd rebuild_run)) = GetSnapshotState ''k'' rebuild_db)"
proof -
  have "RequestJobRebuild rebuild_codec sample_rebuild_decoders True 9 ''ar'' ''s2'' ''a'' ''s1'' ''k'' rebuild_db =
      (Inr (''ar'', ''s2''), snd rebuild_run)"
    using rebuild_run_ok unfolding rebuild_run_def by (metis prod.collapse)
  from rebuild_archives_everything [OF this] have "GetSnapshotState ''k'' (snd rebuild_run) = None"
    "map_option jr_role (job_lookup ''a'' (snd rebuild_run)) = Some ''SNAPSHOT''"
    "\<exists>ar. db_archives (snd rebuild_run) = db_archives rebuild_db @ [ar] \<and>
      GetSnapshotState ''k'' (restore_archive ar (snd rebuild_run)) = GetSnapshotState ''k'' rebuild_db"
    by (auto simp: queued_snapshot_row_def)
  moreover have "db_archives rebuild_db = []" by (simp add: rebuild_db_def sample_started_def sample_db_def)
  ultimately show ?thesis using rebuild_run_ok by simp
qed

lemma rebuild_fences_old_worker_witness:
  "let own = \<lparr>wo_job = ''a'', wo_submission = ''s1'', wo_owner = ''w'', wo_state_key = ''k''\<rparr> in
   fst (fenced_MarkSnapshotDone own 10 11 ''k'' (snd rebuild_run)) = Inl ErrWorkerOwnershipLost \<and>
   (\<exists>r. job_lookup ''a'' (snd rebuild_run) = Some r \<and> claimable JobExecutionRoleSnapshot 10 r)"
proof -
  let ?own = "\<lparr>wo_job = ''a'', wo_submission = ''s1'', wo_owner = ''w'', wo_state_key = ''k''\<rparr>"
  have run: "RequestJobRebuild rebuild_codec sample_rebuild_decoders True 9 ''ar'' ''s2'' ''a'' ''s1'' ''k'' rebuild_db =
      (Inr (''ar'', ''s2''), snd rebuild_run)"
    using rebuild_run_ok unfolding rebuild_run_def by (metis prod.collapse)
  have att: "fenced_attempt ?own 10 11 (fenced_MarkSnapshotDone ?own 10 11 ''k'')" by (rule fenced_attempt.intros)
  from rebuild_fences_old_worker [OF run _ _ _ att, of 10] show ?thesis by (simp add: Let_def)
qed

definition upgrade_codec :: json_codec where
  "upgrade_codec = sample_codec\<lparr>dec_config := (\<lambda>_. Inr (sample_rebuild_config\<lparr>
     jc_metadata := [(IcebergRebuildScopedKey, ''s1'')],
     jc_sink := Some \<lparr>cs_type = ''iceberg_native'', cs_config = [(''snapshot_replace_delete_executor'', GoStr ''trino''),
       (''snapshot_write_mode'', GoStr IcebergRebuildScopedWriteMode)]\<rparr>\<rparr>))\<rparr>"

definition upgrade_db :: meta_db where
  "upgrade_db = (sample_started [])\<lparr>db_jobs := [(sample_row ''a'' DesiredStateStopped None None ''PAUSED'')
     \<lparr>jr_meta_key := Some ''k'', jr_role := JobExecutionRoleSnapshot\<rparr>]\<rparr>"

definition upgrade_run :: "(meta_error + job_config) \<times> meta_db" where
  "upgrade_run = UpgradeJobNativeRebuild upgrade_codec sample_rebuild_decoders True 9 ''ar'' ''a'' ''s1'' ''k'' upgrade_db"

lemma native_upgrade_keeps_epoch_witness:
  "(case fst upgrade_run of Inr cfg \<Rightarrow> sink_mode cfg = Some (GoStr IcebergRebuildScopedNativeWriteMode) | Inl e \<Rightarrow> False) \<and>
   db_snapshots (snd upgrade_run) = db_snapshots upgrade_db"
proof -
  have run: "UpgradeJobNativeRebuild upgrade_codec sample_rebuild_decoders True 9 ''ar'' ''a'' ''s1'' ''k'' upgrade_db =
      (fst upgrade_run, snd upgrade_run)"
    by (simp add: upgrade_run_def)
  have "isl (fst upgrade_run) = False" by code_simp
  with native_upgrade_keeps_epoch [OF run] show ?thesis by (cases "fst upgrade_run") simp_all
qed

end
