(* ===== verification/Lease_Protocol.thy ===== *)
theory Lease_Protocol
  imports Job_Registry
begin

text \<open>
  What the job registry promises about leases, as an abstract machine: a job is absent, free, or held
  by one worker until some time. \<open>lease_of\<close> reads that state off the registry, and every statement of
  \<open>pkg/meta/job_store.go\<close> and \<open>job_control.go\<close> that writes a job row is a step of the machine for
  every job at once. Mutual exclusion is then proved on the machine alone.
\<close>

section \<open>The abstract machine\<close>

datatype lease = NoJob | Free | Held string "int option"

text \<open>A worker acts under its own name; everything the API or the manager's owner does is the operator's.\<close>

datatype actor = Worker string | Operator

definition lease_over :: "int \<Rightarrow> lease \<Rightarrow> bool" where
  "lease_over t l \<longleftrightarrow> (case l of NoJob \<Rightarrow> False | Free \<Rightarrow> True | Held _ None \<Rightarrow> True | Held _ (Some u) \<Rightarrow> u < t)"

text \<open>\<open>t\<close> is the clock of the database when the statement runs.\<close>

inductive lease_step :: "actor \<Rightarrow> int \<Rightarrow> lease \<Rightarrow> lease \<Rightarrow> bool" where
  ls_keep: "lease_step a t l l"
| ls_grant: "lease_over t l \<Longrightarrow> lease_step (Worker w) t l (Held w (Some u))"
| ls_extend: "lease_step (Worker w) t (Held w u) (Held w (Some u'))"
| ls_drop: "lease_step (Worker w) t (Held w u) Free"
| ls_create: "lease_step Operator t NoJob Free"
| ls_revoke: "l \<noteq> NoJob \<Longrightarrow> lease_step Operator t l Free"
| ls_delete: "lease_step Operator t l NoJob"

inductive_cases lease_stepE: "lease_step a t l l'"

inductive lease_trace :: "(actor \<times> int) list \<Rightarrow> lease \<Rightarrow> lease \<Rightarrow> bool" where
  lt_nil: "lease_trace [] l l"
| lt_cons: "lease_step a t l l1 \<Longrightarrow> lease_trace tr l1 l2 \<Longrightarrow> lease_trace ((a, t) # tr) l l2"

inductive_cases lease_traceE: "lease_trace tr l l'"

definition outsiders :: "string \<Rightarrow> int \<Rightarrow> (actor \<times> int) list \<Rightarrow> bool" where
  "outsiders w u tr \<longleftrightarrow> (\<forall>(a, t) \<in> set tr. (\<exists>w'. a = Worker w' \<and> w' \<noteq> w) \<and> t \<le> u)"

lemma lease_trace_exclusive:
  "lease_trace tr l l' \<Longrightarrow> l = Held w (Some u) \<Longrightarrow> outsiders w u tr \<Longrightarrow> l' = l"
proof (induction rule: lease_trace.induct)
  case (lt_cons a t l l1 tr l2)
  then have "l1 = l" by (auto simp: outsiders_def lease_over_def elim!: lease_stepE)
  with lt_cons show ?case by (simp add: outsiders_def)
qed simp

section \<open>The registry's statements\<close>

definition lease_of :: "meta_db \<Rightarrow> string \<Rightarrow> lease" where
  "lease_of db k =
     (case job_lookup k db of
        None \<Rightarrow> NoJob
      | Some r \<Rightarrow> (case jr_owner r of None \<Rightarrow> Free | Some w \<Rightarrow> Held w (jr_until r)))"

inductive registry_step :: "actor \<Rightarrow> int \<Rightarrow> meta_db \<Rightarrow> meta_db \<Rightarrow> bool" where
  rs_claim: "registry_step (Worker w) t db (fst (ClaimJobs J role w limit d uuid wnow t t' db))"
| rs_renew: "registry_step (Worker w) t db (fst (RenewJobLease k sub w d wnow t db))"
| rs_release: "registry_step (Worker w) t db (ReleaseJobLease k sub w t db)"
| rs_save: "SaveClaimedJob J t job w db = Inr (db', ok) \<Longrightarrow> registry_step (Worker w) t db db'"
| rs_create: "SaveJob J t job db = Inr db' \<Longrightarrow> registry_step Operator t db db'"
| rs_stop: "RequestJobStop raw t db = Inr (db', ok) \<Longrightarrow> registry_step Operator t db db'"
| rs_pause: "RequestJobPause raw t db = Inr (db', ok) \<Longrightarrow> registry_step Operator t db db'"
| rs_resume: "RequestJobResume raw role t db = Inr (db', ok) \<Longrightarrow> registry_step Operator t db db'"
| rs_fresh: "RequestJobFreshSnapshot raw t db = Inr (db', ok) \<Longrightarrow> registry_step Operator t db db'"
| rs_rename: "RenameJob J k raw t db = Inr (db', ok) \<Longrightarrow> registry_step Operator t db db'"
| rs_delete: "registry_step Operator t db (DeleteJob k db)"

inductive registry_trace :: "(actor \<times> int) list \<Rightarrow> meta_db \<Rightarrow> meta_db \<Rightarrow> bool" where
  rt_nil: "registry_trace [] db db"
| rt_cons: "registry_step a t db db1 \<Longrightarrow> registry_trace tr db1 db2 \<Longrightarrow> registry_trace ((a, t) # tr) db db2"

subsection \<open>Row updates\<close>

definition row_lease :: "job_row \<Rightarrow> lease" where
  "row_lease r = (case jr_owner r of None \<Rightarrow> Free | Some w \<Rightarrow> Held w (jr_until r))"

lemma lease_of_row: "lease_of db k = (case job_lookup k db of None \<Rightarrow> NoJob | Some r \<Rightarrow> row_lease r)"
  by (simp add: lease_of_def row_lease_def split: option.split)

text \<open>A statement that rewrites rows in place simulates a lease step when it does so on each row.\<close>

definition simulates :: "actor \<Rightarrow> int \<Rightarrow> meta_db \<Rightarrow> meta_db \<Rightarrow> bool" where
  "simulates a t db db' \<longleftrightarrow> db_wf db' \<and> (\<forall>k. lease_step a t (lease_of db k) (lease_of db' k))"

lemma simulates_refl: "db_wf db \<Longrightarrow> simulates a t db db"
  by (simp add: simulates_def ls_keep)

lemma simulates_writer:
  assumes "row_writer run row" "db_wf db"
    and "\<And>r. lease_step a t (row_lease r) (row_lease (row db r))"
  shows "simulates a t db (run db)"
  using row_writer.wf [OF assms(1,2)] row_writer.lookup [OF assms(1,2)] assms(3)
  by (auto simp: simulates_def lease_of_row ls_keep split: option.split)

lemma simulates_update:
  assumes "db_wf db" "\<And>r. jr_id (f r) = jr_id r"
    and "\<And>r. P r \<Longrightarrow> lease_step a t (row_lease r) (row_lease (f r))"
  shows "simulates a t db (fst (update_jobs P f db))"
  by (rule simulates_writer [OF update_jobs_writer [OF assms(2)] assms(1)]) (simp add: assms(3) ls_keep)

lemma simulates_updated:
  assumes "update_jobs P f db = (db', ok)" "db_wf db" "\<And>r. jr_id (f r) = jr_id r"
    and "\<And>r. P r \<Longrightarrow> lease_step a t (row_lease r) (row_lease (f r))"
  shows "simulates a t db db'"
  using simulates_update [of db f P a t, OF assms(2,3,4)] assms(1) by simp

lemma row_lease_touch: "row_lease (touch t f r) = (if f r = r then row_lease r else row_lease (f r))"
  by (simp add: touch_def row_lease_def split: option.split)

lemma row_lease_present: "row_lease r \<noteq> NoJob"
  by (simp add: row_lease_def split: option.split)

lemma claimable_over: "claimable role t r \<Longrightarrow> lease_over t (row_lease r)"
  by (auto simp: claimable_def lease_free_def lease_over_def row_lease_def split: option.splits)

lemma row_lease_Held: "jr_owner r = Some w \<Longrightarrow> row_lease r = Held w (jr_until r)"
  by (simp add: row_lease_def)

lemma row_lease_Free: "jr_owner r = None \<Longrightarrow> row_lease r = Free"
  by (simp add: row_lease_def)

lemmas lease_row_simps = row_lease_touch row_lease_Held row_lease_Free

lemma update_jobs_fst: "(db', ok) = update_jobs P f db \<Longrightarrow> db' = fst (update_jobs P f db)"
  by (metis fst_conv)

lemma registry_step_simulates:
  "registry_step a t db db' \<Longrightarrow> db_wf db \<Longrightarrow> simulates a t db db'"
proof (induction rule: registry_step.induct)
  case (rs_claim w t db J role limit d uuid wnow t')
  have "lease_step (Worker w) t (row_lease r) (row_lease (claimed role w u uuid t ids r))" for u ids r
  proof (cases "claimed role w u uuid t ids r = r")
    case False
    note c = claimed_fields [OF this]
    show ?thesis unfolding row_lease_Held [OF c(3)] c(4) by (rule ls_grant [OF claimable_over [OF c(2)]])
  qed (simp add: ls_keep)
  then have "simulates (Worker w) t db (claim_tx role w n u uuid t db)" for n u
    by (rule simulates_writer [OF claim.row_writer_axioms rs_claim])
  then show ?case
    using ClaimJobs_db [of J role w limit d uuid wnow t t' db] simulates_refl [OF rs_claim] by metis
next
  case (rs_renew w t db k sub d wnow)
  show ?case unfolding RenewJobLease_def
    by (rule simulates_update [OF rs_renew])
      (auto simp: lease_row_simps renew_guard_def ls_keep intro: ls_extend)
next
  case (rs_release w t db k sub)
  show ?case unfolding ReleaseJobLease_def
    by (rule simulates_update [OF rs_release])
      (auto simp: lease_row_simps release_guard_def ls_keep intro: ls_drop)
next
  case (rs_save J t job w db db' ok)
  show ?case unfolding update_jobs_fst [OF SaveClaimedJob_Inr [OF rs_save(1)]]
    by (rule simulates_update [OF rs_save(2)]) (simp_all add: saved_row_def row_lease_def ls_keep split: option.split)
next
  case (rs_create J t job db db')
  obtain c where c: "pj_config job = Some c" using rs_create(1) by (cases "pj_config job") (auto simp: SaveJob_def)
  show ?case unfolding simulates_def
    using SaveJob_wf [OF rs_create] SaveJob_lookup [OF rs_create(1) c rs_create(2)]
    by (auto simp: lease_of_row row_lease_def inserted_row_def resaved_row_def ls_keep ls_create split: option.split)
next
  case (rs_stop raw t db db' ok)
  have "(db', ok) = update_jobs (\<lambda>r. jr_id r = trim_space raw) (stopped_row t) db"
    using rs_stop(1) by (simp add: RequestJobStop_def stopped_row_def [abs_def] Let_def split: if_splits)
  from update_jobs_fst [OF this] show ?case
    by (simp add: simulates_update [OF rs_stop(2)] stopped_row_def row_lease_def ls_revoke split: option.split)
next
  case (rs_pause raw t db db' ok)
  then show ?case
    by (auto simp: RequestJobPause_def Let_def row_lease_def ls_keep elim!: simulates_updated split: if_splits option.split)
next
  case (rs_resume raw role t db db' ok)
  show ?case unfolding update_jobs_fst [OF conjunct1 [OF RequestJobResume_Inr [OF rs_resume(1)]]]
    by (rule simulates_update [OF rs_resume(2)]) (simp_all add: queued_row_def row_lease_def ls_revoke split: option.split)
next
  case (rs_fresh raw t db db' ok)
  show ?case unfolding update_jobs_fst [OF RequestJobFreshSnapshot_Inr [OF rs_fresh(1)]]
    by (rule simulates_update [OF rs_fresh(2)]) (simp_all add: queued_row_def row_lease_def ls_revoke split: option.split)
next
  case (rs_rename J k raw t db db' ok)
  then show ?case
    by (auto simp: RenameJob_def row_lease_def ls_keep elim!: simulates_updated split: sum.splits option.split)
next
  case (rs_delete t db k)
  have "job_lookup x (DeleteJob k db) = (if x = k then None else job_lookup x db)" for x
    using rs_delete job_lookup_id [of x db]
    by (auto simp: job_lookup_def DeleteJob_def tbl_find_delete db_wf_def split: option.split)
  then show ?case using rs_delete
    by (simp add: simulates_def lease_of_row DeleteJob_def db_wf_def distinct_tbl_delete ls_keep ls_delete)
qed

lemma registry_trace_simulates:
  "registry_trace tr db db' \<Longrightarrow> db_wf db \<Longrightarrow> db_wf db' \<and> lease_trace tr (lease_of db k) (lease_of db' k)"
proof (induction rule: registry_trace.induct)
  case (rt_cons a t db db1 tr db2)
  then show ?case using registry_step_simulates [OF rt_cons(1,4)] by (auto simp: simulates_def intro: lease_trace.lt_cons)
qed (simp add: lt_nil)


text \<open>
  C14: while a lease runs, it belongs to its holder alone. If the registry shows the job held by a worker
  until \<open>u\<close>, then whatever the other workers do while the database clock has not passed \<open>u\<close> (claims of
  any role, renewals, releases and saves, under any submission), the job is still held by that worker
  until \<open>u\<close>.
\<close>

theorem running_lease_is_exclusive:
  assumes "db_wf db" "lease_of db k = Held w (Some u)" "registry_trace tr db db'" "outsiders w u tr"
  shows "lease_of db' k = Held w (Some u)"
proof -
  have "db_wf db' \<and> lease_trace tr (lease_of db k) (lease_of db' k)"
    using assms(3,1) by (rule registry_trace_simulates)
  then show ?thesis using lease_trace_exclusive [OF _ assms(2,4)] assms(2) by simp
qed

text \<open>One worker holds the job, another claims and releases it in vain.\<close>

definition held_elsewhere :: meta_db where
  "held_elsewhere = sample_db [sample_row ''a'' DesiredStateRunning (Some ''w1'') (Some 50) ''RUNNING'']"

definition rival_claim :: meta_db where
  "rival_claim = fst (ClaimJobs sample_codec JobExecutionRoleStreaming ''w2'' 0 0 (\<lambda>_. ''u'') 10 10 11 held_elsewhere)"

lemma rival_trace:
  "registry_trace [(Worker ''w2'', 10), (Worker ''w2'', 12)] held_elsewhere (ReleaseJobLease ''a'' ''s1'' ''w2'' 12 rival_claim)"
  unfolding rival_claim_def by (rule rt_cons [OF rs_claim rt_cons [OF rs_release rt_nil]])

lemma held_elsewhere_lease: "db_wf held_elsewhere" "lease_of held_elsewhere ''a'' = Held ''w1'' (Some 50)"
  by (simp_all add: held_elsewhere_def db_wf_def sample_db_def sample_row_def lease_of_def job_lookup_def tbl_find_def)


theorem running_lease_is_exclusive_witness:
  "lease_of (ReleaseJobLease ''a'' ''s1'' ''w2'' 12 rival_claim) ''a'' = Held ''w1'' (Some 50)"
  by (rule running_lease_is_exclusive [OF held_elsewhere_lease rival_trace]) (simp add: outsiders_def)

end
