(* ===== verification/Manager_State.thy ===== *)
theory Manager_State
  imports Job_Lifecycle Job_Registry
begin

text \<open>
  The job manager of one process: its tables, its decisions and the way it persists a job
  (\<open>pkg/core/manager.go\<close>, \<open>worker_runtime.go\<close>). The manager's mutex protects every access, so a method is
  a function on the record; what a method leaves to a goroutine is kept as a flag or a list entry
  (\<open>mg_kick\<close>, \<open>mg_drains\<close>) and handled by an operation of its own. A job is identified by its id: the
  manager never holds two jobs of one id, and \<open>mg_active\<close> lists the ids whose pipeline has not drained.
  The job store is the database of \<open>Job_Registry\<close>; \<open>None\<close> is a manager without one.

  The lemmas show that a worker never writes a job it holds no lease for, and what each status callback
  leaves in the registry.
\<close>

section \<open>Roles, statuses and modes\<close>

abbreviation "JobStatusStopping \<equiv> ''STOPPING''"
abbreviation "WorkerRoleAll \<equiv> ''all''"
abbreviation "WorkerRoleSnapshot \<equiv> ''snapshot''"
abbreviation "WorkerRoleStreaming \<equiv> ''streaming''"
abbreviation "WorkerRoleMaster \<equiv> ''master''"
abbreviation "defaultMaxConcurrentSnapshotJobs \<equiv> 2 :: int"

definition normalizeWorkerRole :: "string \<Rightarrow> string" where
  "normalizeWorkerRole role =
     (let r = to_lower (trim_space role) in
      if r = [] \<or> r = WorkerRoleAll then WorkerRoleAll
      else if r = WorkerRoleSnapshot then WorkerRoleSnapshot
      else if r = WorkerRoleStreaming then WorkerRoleStreaming else [])"

definition ParseWorkerRole :: "string \<Rightarrow> string + string" where
  "ParseWorkerRole raw =
     (let role = normalizeWorkerRole raw in
      if role = [] then Inl (''invalid RIVUS_WORKER_ROLE '' @ raw) else Inr role)"

definition snapshotJobLimitFromEnv :: "string \<Rightarrow> string \<Rightarrow> int" where
  "snapshotJobLimitFromEnv jobs_env snapshots_env =
     (let raw = (if trim_space jobs_env \<noteq> [] then trim_space jobs_env else trim_space snapshots_env) in
      if raw = [] then defaultMaxConcurrentSnapshotJobs
      else case atoi raw of None \<Rightarrow> defaultMaxConcurrentSnapshotJobs | Some n \<Rightarrow> n)"

definition executionRoleForConfig :: "job_config option \<Rightarrow> string" where
  "executionRoleForConfig cfg =
     (case cfg of
        None \<Rightarrow> JobExecutionRoleStreaming
      | Some c \<Rightarrow>
          if normalizeMode (jc_mode c) \<in> {JobModeInitial, JobModeSnapshotOnly, JobModeSnapshotHandoff, JobModeSnapshotHandoffResume}
          then JobExecutionRoleSnapshot else JobExecutionRoleStreaming)"

definition live_status :: "job_status \<Rightarrow> bool" where
  "live_status st \<longleftrightarrow> st \<in> {JobStatusCreated, JobStatusQueued, JobStatusPending, JobStatusRunning, JobStatusPausing}"

definition desiredStateForStatus :: "job_status \<Rightarrow> string" where
  "desiredStateForStatus st = (if live_status st then DesiredStateRunning else DesiredStateStopped)"

definition parsePersistedStatus :: "string \<Rightarrow> job_status" where
  "parsePersistedStatus raw =
     (let st = to_upper (trim_space raw) in
      if live_status st \<or> st \<in> {JobStatusPaused, JobStatusFailed, JobStatusStopped, JobStatusStopping, JobStatusDone}
      then st else JobStatusCreated)"

definition snapshotStatusReleasesSlot :: "job_status \<Rightarrow> bool" where
  "snapshotStatusReleasesSlot st \<longleftrightarrow> st \<in> {JobStatusPaused, JobStatusFailed, JobStatusStopped, JobStatusDone}"

definition snapshotProgressReleasesSlot :: "job_progress option \<Rightarrow> bool" where
  "snapshotProgressReleasesSlot p =
     (case p of
        None \<Rightarrow> False
      | Some p \<Rightarrow> to_lower (trim_space (pg_phase p)) \<in> {''snapshot_complete'', ''streaming'', ''done'', ''failed'', ''stopped''} \<or>
          trim_space (pg_current_file p) \<noteq> [] \<or> trim_space (pg_checkpoint_file p) \<noteq> [])"

definition progressIndicatesCDC :: "job_progress option \<Rightarrow> bool" where
  "progressIndicatesCDC p =
     (case p of
        None \<Rightarrow> False
      | Some p \<Rightarrow> to_lower (trim_space (pg_phase p)) \<in> {''streaming'', ''snapshot_complete''} \<or>
          str_contains ''cdc streaming'' (to_lower (trim_space (pg_detail p))) \<or>
          str_contains ''listening from'' (to_lower (trim_space (pg_detail p))))"

definition shouldReleaseMaintenanceOwnership :: "job_mode \<Rightarrow> job_status \<Rightarrow> bool \<Rightarrow> bool" where
  "shouldReleaseMaintenanceOwnership mode st deleted =
     (if deleted then True
      else if normalizeMode mode = JobModeSnapshotOnly then st = JobStatusDone
      else st = JobStatusStopped \<or> st = JobStatusFailed)"

section \<open>The manager\<close>

datatype manager_error =
    ErrNilConfig
  | ErrMaintenanceOnly
  | ErrInvalid string
  | ErrJobExists
  | ErrJobNotFound
  | ErrJobResubmitNotAllowed
  | ErrJobStillStopping
  | ErrJobPauseNotAllowed
  | ErrJobManagerShuttingDown
  | ErrJobWorkerLeaseLost
  | ErrJobDeleting
  | ErrStart string
  | ErrStore meta_error

record manager =
  mg_jobs :: "(string \<times> job) list"
  mg_deleting :: "string list"
  mg_role :: string
  mg_worker :: string
  mg_exec :: "(string \<times> string) list"
  mg_leases :: "(string \<times> string) list"
  mg_limit :: int
  mg_queue :: "string list"
  mg_modes :: "(string \<times> job_mode) list"
  mg_starting :: "string list"
  mg_down :: bool
  mg_restart :: "string list"
  mg_active :: "string list"
  mg_deferred :: "string list"
  mg_notified :: "string list"
  mg_owned :: "string list"
  mg_ownership_calls :: "(string \<times> bool) list"
  mg_drains :: "(string \<times> string) list"
  mg_kick :: bool
  mg_dsn :: string
  mg_db :: "meta_db option"

text \<open>
  What a call finds outside: the JSON forms, the digest of the checkpoint key, the clocks of the process
  (nanoseconds) and of the database, the start of each job and its new identity, what the checkpoint store
  of a job holds or answers (\<open>me_checkpoint\<close>, \<open>me_fresh\<close>, \<open>me_admission\<close>, \<open>me_cleanup\<close>), whether a run drains
  in the time given to it, and the outages of the registry, which may differ from write to write.
\<close>

record manager_env =
  me_codec :: json_codec
  me_progress :: "job_progress \<Rightarrow> string"
  me_digest :: key_digest
  me_wall :: int
  me_now :: int
  me_notifier :: bool
  me_start :: "string \<Rightarrow> start_env"
  me_uuid :: "string \<Rightarrow> string"
  me_decode :: "string \<Rightarrow> job_progress option"
  me_checkpoint :: "string \<Rightarrow> string + (snapshot_state option \<times> snapshot_progress option \<times> offset option)"
  me_fresh :: "string \<Rightarrow> string + bool"
  me_drained :: "string \<Rightarrow> bool"
  me_admission :: "string \<Rightarrow> string option"
  me_cleanup :: "string \<Rightarrow> string option"
  me_outage :: "string \<Rightarrow> job_status \<Rightarrow> meta_error option"

definition job_id :: "job \<Rightarrow> string" where
  "job_id j = (case jb_config j of None \<Rightarrow> [] | Some c \<Rightarrow> jc_id c)"

definition config_mode :: "job \<Rightarrow> job_mode" where
  "config_mode j = (case jb_config j of None \<Rightarrow> [] | Some c \<Rightarrow> jc_mode c)"

definition set_job :: "string \<Rightarrow> job \<Rightarrow> manager \<Rightarrow> manager" where
  "set_job k j m = m\<lparr>mg_jobs := map_put k j (mg_jobs m)\<rparr>"

definition runActive :: "string \<Rightarrow> manager \<Rightarrow> bool" where
  "runActive k m \<longleftrightarrow> k \<in> set (mg_active m)"

definition normalizeConfig :: "manager \<Rightarrow> job_config option \<Rightarrow> job_config option" where
  "normalizeConfig m cfg =
     map_option (\<lambda>c. setDefaults (if trim_space (jc_meta_dsn c) = [] \<and> mg_dsn m \<noteq> [] then c\<lparr>jc_meta_dsn := mg_dsn m\<rparr> else c)) cfg"

definition executionRoleForJob :: "manager \<Rightarrow> string \<Rightarrow> string" where
  "executionRoleForJob m k =
     (if mg_role m = WorkerRoleAll then JobExecutionRoleAll
      else case map_get (mg_exec m) k of None \<Rightarrow> JobExecutionRoleStreaming
        | Some r \<Rightarrow> if r = [] then JobExecutionRoleStreaming else r)"

definition durableWorkerRole :: "manager \<Rightarrow> string" where
  "durableWorkerRole m =
     (if mg_role m = WorkerRoleSnapshot then JobExecutionRoleSnapshot
      else if mg_role m = WorkerRoleStreaming then JobExecutionRoleStreaming else JobExecutionRoleAll)"

definition desiredStateForJobStatus :: "manager \<Rightarrow> string \<Rightarrow> job_status \<Rightarrow> string" where
  "desiredStateForJobStatus m k st = (if k \<in> set (mg_restart m) then DesiredStateRunning else desiredStateForStatus st)"

definition executing_role :: "manager \<Rightarrow> bool" where
  "executing_role m \<longleftrightarrow> mg_role m = WorkerRoleSnapshot \<or> mg_role m = WorkerRoleStreaming"

section \<open>Persisting a job\<close>

definition claimedWorkerLeaseOwner :: "manager \<Rightarrow> job \<Rightarrow> string" where
  "claimedWorkerLeaseOwner m j =
     (if mg_role m = WorkerRoleAll \<or> trim_space (job_id j) = [] then []
      else case map_get (mg_leases m) (job_id j) of
        None \<Rightarrow> []
      | Some submission \<Rightarrow> if submission = jb_submission j then mg_worker m else [])"

definition persisted_job_of :: "manager_env \<Rightarrow> manager \<Rightarrow> job \<Rightarrow> string \<Rightarrow> string \<Rightarrow> job_status \<Rightarrow> persisted_job" where
  "persisted_job_of E m j key desired st =
     \<lparr>pj_id = job_id j, pj_submission = jb_submission j,
      pj_name = (case jb_config j of None \<Rightarrow> [] | Some c \<Rightarrow> jc_name c), pj_meta_key = key,
      pj_config = normalizeConfig m (jb_config j), pj_desired = desired,
      pj_role = executionRoleForJob m (job_id j), pj_resume = False, pj_owner = [], pj_until = None,
      pj_status = st, pj_errors = jb_errors j,
      pj_progress = (case jb_progress j of None \<Rightarrow> [] | Some p \<Rightarrow> me_progress E p),
      pj_created = (case jb_created j of None \<Rightarrow> 0 | Some t \<Rightarrow> t),
      pj_updated = (case jb_updated j of None \<Rightarrow> 0 | Some t \<Rightarrow> t)\<rparr>"

definition saveJobRecord :: "manager_env \<Rightarrow> string \<Rightarrow> job_status \<Rightarrow> job \<Rightarrow> manager \<Rightarrow> manager_error option \<times> job \<times> manager" where
  "saveJobRecord E desired st j m =
     (case mg_db m of
        None \<Rightarrow> (None, j, m)
      | Some db \<Rightarrow>
          (let (key, j') = ensureMetaKey (me_digest E) j;
               record = persisted_job_of E m j' key desired st;
               owner = claimedWorkerLeaseOwner m j' in
           case me_outage E (job_id j') st of
             Some e \<Rightarrow> (Some (ErrStore e), j', m)
           | None \<Rightarrow>
               if executing_role m \<and> owner \<noteq> []
               then (case SaveClaimedJob (me_codec E) (me_now E) record owner db of
                  Inl e \<Rightarrow> (Some (ErrStore e), j', m)
                | Inr (db', saved) \<Rightarrow> (if saved then None else Some ErrJobWorkerLeaseLost, j', m\<lparr>mg_db := Some db'\<rparr>))
               else if executing_role m \<and> (runActive (job_id j') m \<or> st \<noteq> JobStatusCreated \<and> st \<noteq> JobStatusQueued)
               then (Some ErrJobWorkerLeaseLost, j', m)
               else (case SaveJob (me_codec E) (me_now E) record db of
                  Inl e \<Rightarrow> (Some (ErrStore e), j', m)
                | Inr db' \<Rightarrow> (None, j', m\<lparr>mg_db := Some db'\<rparr>))))"

definition saveManagedJobRecord ::
  "manager_env \<Rightarrow> string \<Rightarrow> job_status \<Rightarrow> job \<Rightarrow> manager \<Rightarrow> manager_error option \<times> job \<times> manager" where
  "saveManagedJobRecord E desired st j m =
     (if jb_config j = None \<or> jb_deleted j then (None, j, m) else saveJobRecord E desired st j m)"

definition saveManagedJobRecordIfCurrent ::
  "manager_env \<Rightarrow> job_status \<Rightarrow> string \<Rightarrow> job_status \<Rightarrow> job \<Rightarrow> manager \<Rightarrow> manager_error option \<times> job \<times> manager" where
  "saveManagedJobRecordIfCurrent E expected desired st j m =
     (if jb_config j = None \<or> jb_deleted j \<or> jb_status j \<noteq> expected then (None, j, m) else saveJobRecord E desired st j m)"

definition deletePersistedJobForJob :: "manager_env \<Rightarrow> job \<Rightarrow> string \<Rightarrow> manager \<Rightarrow> manager_error option \<times> job \<times> manager" where
  "deletePersistedJobForJob E j k m =
     (let j' = markPersistenceDeleted j in
      case mg_db m of
        None \<Rightarrow> (None, j', m)
      | Some db \<Rightarrow>
          (case me_outage E k ''DELETE'' of
             Some e \<Rightarrow> (Some (ErrStore e), j', m)
           | None \<Rightarrow> (None, j', m\<lparr>mg_db := Some (DeleteJob k db)\<rparr>)))"

section \<open>Leases\<close>

definition releaseWorkerLeaseAfterDrain :: "manager_env \<Rightarrow> bool \<Rightarrow> string \<Rightarrow> string \<Rightarrow> manager \<Rightarrow> manager" where
  "releaseWorkerLeaseAfterDrain E drained k submission m =
     (if \<not> drained \<and> mg_down m \<and> k \<in> set (mg_restart m) then m
      else let m1 = (if map_get (mg_leases m) k = Some submission then m\<lparr>mg_leases := map_delete k (mg_leases m)\<rparr> else m) in
        if trim_space k = [] then m1
        else m1\<lparr>mg_db := map_option (ReleaseJobLease k submission (mg_worker m) (me_now E)) (mg_db m1)\<rparr>)"

definition releaseWorkerLease :: "manager_env \<Rightarrow> string \<Rightarrow> string \<Rightarrow> manager \<Rightarrow> manager" where
  "releaseWorkerLease E = releaseWorkerLeaseAfterDrain E False"

section \<open>Maintenance ownership\<close>

text \<open>\<open>mg_owned\<close> lists the jobs whose sink handed out a lifecycle; a call on it is recorded, \<open>True\<close> for \<open>SnapshotCompleted\<close>.\<close>

definition applyMaintenanceOwnershipStatus :: "job \<Rightarrow> job_status \<Rightarrow> bool \<Rightarrow> manager \<Rightarrow> manager" where
  "applyMaintenanceOwnershipStatus j st deleted m =
     (if jb_config j = None \<or> \<not> shouldReleaseMaintenanceOwnership (config_mode j) st deleted \<or> job_id j \<notin> set (mg_owned m) then m
      else m\<lparr>mg_ownership_calls := mg_ownership_calls m @
         [(job_id j, \<not> deleted \<and> normalizeMode (config_mode j) = JobModeSnapshotOnly \<and> st = JobStatusDone)]\<rparr>)"

text \<open>Reached only while the pipeline is active, so there is a channel to wait on.\<close>

definition deferMaintenanceOwnershipStatus :: "job \<Rightarrow> manager \<Rightarrow> manager" where
  "deferMaintenanceOwnershipStatus j m =
     (let key = (job_id j, jb_submission j) in
      if key \<in> set (mg_drains m) then m else m\<lparr>mg_drains := mg_drains m @ [key]\<rparr>)"

section \<open>The status callback\<close>

definition handoff_ready :: "manager \<Rightarrow> job \<Rightarrow> job_status \<Rightarrow> bool" where
  "handoff_ready m j st \<longleftrightarrow> mg_role m = WorkerRoleSnapshot \<and> st = JobStatusDone \<and>
     normalizeMode (config_mode j) \<noteq> JobModeSnapshotOnly \<and>
     (jb_run_mode j = JobModeSnapshotHandoff \<or> jb_run_mode j = JobModeSnapshotHandoffResume)"

definition enqueueFailureNotification :: "manager_env \<Rightarrow> job \<Rightarrow> manager \<Rightarrow> manager" where
  "enqueueFailureNotification E j m = (if me_notifier E then m\<lparr>mg_notified := mg_notified m @ [job_id j]\<rparr> else m)"

definition status_callback :: "manager_env \<Rightarrow> job_status \<Rightarrow> job \<Rightarrow> manager \<Rightarrow> job \<times> manager" where
  "status_callback E st j m0 =
     (let k = job_id j;
          m1 = (if st = JobStatusFailed \<and> k \<notin> set (mg_deferred m0) then enqueueFailureNotification E j m0 else m0);
          later = (shouldReleaseMaintenanceOwnership (config_mode j) st False \<and> runActive k m1);
          handoff = handoff_ready m1 j st;
          m2 = (if handoff then m1\<lparr>mg_exec := map_put k JobExecutionRoleStreaming (mg_exec m1)\<rparr> else m1);
          desired = (if handoff then DesiredStateRunning else desiredStateForJobStatus m1 k st);
          persisted = (if handoff then JobStatusStopped else if later then JobStatusStopping else st);
          (e, j', m3) = saveManagedJobRecordIfCurrent E st desired persisted j m2;
          m4 = (if later then deferMaintenanceOwnershipStatus j' m3 else applyMaintenanceOwnershipStatus j' st False m3);
          m5 = (if \<not> later \<and> mg_role m4 \<noteq> WorkerRoleAll \<and> snapshotStatusReleasesSlot st
                then releaseWorkerLease E k (jb_submission j') m4 else m4) in
      (j', if \<not> later \<and> snapshotStatusReleasesSlot st then m5\<lparr>mg_kick := True\<rparr> else m5))"

text \<open>
  The pipeline of a job has drained: its store is closed and, when a callback left the release to this
  moment, the final status is written and ownership and lease are given up.
\<close>

definition pipeline_drained :: "manager_env \<Rightarrow> job \<Rightarrow> manager \<Rightarrow> job \<times> manager" where
  "pipeline_drained E j0 m0 =
     (let k = job_id j0; j = closeMetaStore j0; key = (k, jb_submission j);
          m1 = m0\<lparr>mg_active := removeAll k (mg_active m0)\<rparr> in
      if key \<notin> set (mg_drains m1) then (j, m1)
      else let m2 = m1\<lparr>mg_drains := removeAll key (mg_drains m1)\<rparr>;
               st = jb_status j;
               (e, j', m3) = saveManagedJobRecordIfCurrent E st (desiredStateForJobStatus m2 k st) st j m2;
               m4 = applyMaintenanceOwnershipStatus j' st False m3;
               m5 = (if mg_role m4 \<noteq> WorkerRoleAll \<and> snapshotStatusReleasesSlot st
                     then releaseWorkerLease E k (jb_submission j') m4 else m4) in
        (j', if snapshotStatusReleasesSlot st then m5\<lparr>mg_kick := True\<rparr> else m5))"

text \<open>
  The calls a job made to its listener during a method, in order. The row written for an intermediate
  status carries the errors and progress the job has at the end of the method.
\<close>

fun deliver :: "manager_env \<Rightarrow> (job_status + job_progress) list \<Rightarrow> job \<Rightarrow> manager \<Rightarrow> job \<times> manager" where
  "deliver E [] j m = (j, m)"
| "deliver E (Inl st # calls) j m =
     (let final = jb_status j; (j', m') = status_callback E st (j\<lparr>jb_status := st\<rparr>) m in
      deliver E calls (j'\<lparr>jb_status := final\<rparr>) m')"
| "deliver E (Inr p # calls) j m =
     deliver E calls j (if snapshotProgressReleasesSlot (Some p) then m\<lparr>mg_kick := True\<rparr> else m)"

text \<open>Running a method of a managed job and handing its calls to the listener.\<close>

definition with_listener :: "manager_env \<Rightarrow> (job \<Rightarrow> job) \<Rightarrow> job \<Rightarrow> manager \<Rightarrow> job \<times> manager" where
  "with_listener E f j m =
     (let j' = f (j\<lparr>jb_calls := []\<rparr>) in deliver E (jb_calls j') (j'\<lparr>jb_calls := []\<rparr>) m)"

section \<open>A worker writes what it leases\<close>

lemma normalizeConfig_id: "normalizeConfig m cfg = Some c \<Longrightarrow> \<exists>c0. cfg = Some c0 \<and> jc_id c = jc_id c0"
  by (auto simp: normalizeConfig_def split: if_splits)

lemma job_id_config: "job_id j \<noteq> [] \<Longrightarrow> \<exists>c. jb_config j = Some c \<and> jc_id c = job_id j"
  by (auto simp: job_id_def split: option.splits)

lemma ensureMetaKey_fields:
  assumes "ensureMetaKey d j = (key, j')"
  shows "jb_config j' = jb_config j" "jb_submission j' = jb_submission j" "jb_status j' = jb_status j"
    "jb_deleted j' = jb_deleted j" "job_id j' = job_id j"
  using assms by (auto simp: ensureMetaKey_def job_id_def Let_def split: if_splits option.splits prod.splits)

lemma job_key_persisted:
  assumes "job_id j \<noteq> []"
  shows "job_key (persisted_job_of E m j key desired st) = job_id j"
proof -
  from job_id_config [OF assms] obtain c where c: "jb_config j = Some c" "jc_id c = job_id j" by blast
  show ?thesis using c assms
    by (auto simp: job_key_def persisted_job_of_def or_default_def normalizeConfig_def split: option.splits)
qed

lemma lease_owner:
  assumes "claimedWorkerLeaseOwner m j = owner" "owner \<noteq> []"
  shows "owner = mg_worker m" "map_get (mg_leases m) (job_id j) = Some (jb_submission j)" "job_id j \<noteq> []"
  using assms by (auto simp: claimedWorkerLeaseOwner_def split: if_splits option.splits)

text \<open>The fenced branch of \<open>saveJobRecord\<close>, and the one that refuses.\<close>

lemma saveJobRecord_executing:
  assumes "saveJobRecord E desired st j m = (e, j', m')" "mg_db m = Some db" "executing_role m"
    "runActive (job_id j) m \<or> st \<noteq> JobStatusCreated \<and> st \<noteq> JobStatusQueued"
  obtains (refused) "e \<noteq> None" "m' = m"
  | (fenced) key j1 db' saved where "ensureMetaKey (me_digest E) j = (key, j1)" "claimedWorkerLeaseOwner m j1 \<noteq> []"
      "SaveClaimedJob (me_codec E) (me_now E) (persisted_job_of E m j1 key desired st) (mg_worker m) db = Inr (db', saved)"
      "m' = m\<lparr>mg_db := Some db'\<rparr>" "e = (if saved then None else Some ErrJobWorkerLeaseLost)"
proof -
  obtain key j1 where k: "ensureMetaKey (me_digest E) j = (key, j1)" by fastforce
  note [simp] = ensureMetaKey_fields [OF k]
  show thesis
  proof (cases "me_outage E (job_id j) st \<noteq> None \<or> claimedWorkerLeaseOwner m j1 = []")
    case True
    then have "e \<noteq> None \<and> m' = m" using assms k
      by (auto simp: saveJobRecord_def Let_def split: option.splits)
    then show thesis using refused by blast
  next
    case False
    then have own: "claimedWorkerLeaseOwner m j1 = mg_worker m" using lease_owner(1) by blast
    show thesis
    proof (cases "SaveClaimedJob (me_codec E) (me_now E) (persisted_job_of E m j1 key desired st) (mg_worker m) db")
      case (Inl a)
      then have "e \<noteq> None \<and> m' = m" using assms k False own by (auto simp: saveJobRecord_def Let_def)
      then show thesis using refused by blast
    next
      case (Inr p)
      then obtain db' saved where p: "SaveClaimedJob (me_codec E) (me_now E) (persisted_job_of E m j1 key desired st) (mg_worker m) db = Inr (db', saved)"
        by (cases p) simp
      have "m' = m\<lparr>mg_db := Some db'\<rparr>" "e = (if saved then None else Some ErrJobWorkerLeaseLost)"
        using assms k False own p by (simp_all add: saveJobRecord_def Let_def split: if_splits)
      then show thesis using fenced k False p by blast
    qed
  qed
qed

text \<open>
  C21: what a snapshot or streaming worker writes for a job that runs, or with a status other than CREATED
  and QUEUED, reaches the registry only while that worker holds the unexpired lease of the job's own
  submission, both in its own tables and in the row. In every other case the write is refused and the
  registry is unchanged; no write touches the row of another job.
\<close>

theorem worker_writes_only_leased_jobs:
  assumes "db_wf db" "mg_db m = Some db" "executing_role m"
    "runActive (job_id j) m \<or> st \<noteq> JobStatusCreated \<and> st \<noteq> JobStatusQueued"
    "saveJobRecord E desired st j m = (e, j', m')"
  shows "\<exists>db'. m' = m\<lparr>mg_db := Some db'\<rparr> \<and> (e \<noteq> None \<longrightarrow> db' = db) \<and>
     (\<forall>k. k \<noteq> job_id j \<longrightarrow> job_lookup k db' = job_lookup k db) \<and>
     (e = None \<longrightarrow> map_get (mg_leases m) (job_id j) = Some (jb_submission j) \<and>
        (\<exists>r. job_lookup (job_id j) db = Some r \<and> jr_submission r = jb_submission j \<and>
             jr_owner r = Some (mg_worker m) \<and> lease_live (me_now E) r))"
  using assms(5,2,3,4)
proof (cases rule: saveJobRecord_executing)
  case refused
  then show ?thesis using assms(2) by (intro exI [of _ db]) auto
next
  case (fenced key j1 db' saved)
  note [simp] = ensureMetaKey_fields [OF fenced(1)]
  have id: "job_id j \<noteq> []" using lease_owner(3) [OF refl fenced(2)] by simp
  have lease: "map_get (mg_leases m) (job_id j) = Some (jb_submission j)" using lease_owner(2) [OF refl fenced(2)] by simp
  have key: "job_key (persisted_job_of E m j1 key desired st) = job_id j" using job_key_persisted [of j1] id by simp
  have sub: "pj_submission (persisted_job_of E m j1 key desired st) = jb_submission j" by (simp add: persisted_job_of_def)
  note save = SaveClaimedJob_fenced [OF assms(1) fenced(3), unfolded key sub]
  show ?thesis using save lease fenced(4,5) by (intro exI [of _ db']) (auto split: if_splits)
qed


text \<open>A manager and its surroundings for the closed examples.\<close>

definition sample_manager :: "string \<Rightarrow> (string \<times> job) list \<Rightarrow> meta_db option \<Rightarrow> manager" where
  "sample_manager role jobs db =
     \<lparr>mg_jobs = jobs, mg_deleting = [], mg_role = role, mg_worker = ''w1'', mg_exec = [], mg_leases = [], mg_limit = 1,
      mg_queue = [], mg_modes = [], mg_starting = [], mg_down = False, mg_restart = [], mg_active = [], mg_deferred = [],
      mg_notified = [], mg_owned = [], mg_ownership_calls = [], mg_drains = [], mg_kick = False, mg_dsn = ''dsn'',
      mg_db = db\<rparr>"

definition sample_start :: start_env where
  "sample_start = \<lparr>se_digest = (\<lambda>_ _ _ _. ''d''), se_open = None, se_scoped_state = Inr None, se_scoped_empty = None,
     se_fence = None, se_owned = None, se_fresh = None, se_source = Ready, se_sink = Ready, se_reserve = None,
     se_format = (\<lambda>_. [])\<rparr>"

definition sample_menv :: manager_env where
  "sample_menv =
     \<lparr>me_codec = sample_codec, me_progress = (\<lambda>_. ''{}''), me_digest = (\<lambda>_ _ _ _. ''d''), me_wall = 10000, me_now = 10,
      me_notifier = True, me_start = (\<lambda>_. sample_start), me_uuid = (\<lambda>k. ''s1''), me_decode = (\<lambda>_. None),
      me_checkpoint = (\<lambda>_. Inr (None, None, None)), me_fresh = (\<lambda>_. Inr False), me_drained = (\<lambda>_. True),
      me_admission = (\<lambda>_. None), me_cleanup = (\<lambda>_. None), me_outage = (\<lambda>_ _. None)\<rparr>"

definition sample_managed :: "string \<Rightarrow> job_mode \<Rightarrow> job_status \<Rightarrow> job" where
  "sample_managed k mode st = (NewJob ''s1'' 5 (Some (zero_config\<lparr>jc_id := k, jc_mode := mode\<rparr>)) True)\<lparr>jb_status := st, jb_listening := True\<rparr>"

definition leased_worker :: manager where
  "leased_worker = (sample_manager WorkerRoleStreaming [(''a'', sample_managed ''a'' JobModeResume JobStatusRunning)]
     (Some (sample_db [sample_row ''a'' DesiredStateRunning (Some ''w1'') (Some 50) ''PENDING''])))
     \<lparr>mg_leases := [(''a'', ''s1'')], mg_active := [''a'']\<rparr>"

theorem worker_writes_only_leased_jobs_witness:
  "let j = sample_managed ''a'' JobModeResume JobStatusRunning;
       (e, j', m') = saveJobRecord sample_menv DesiredStateRunning JobStatusRunning j leased_worker in
   e = None \<and> (\<exists>r. job_lookup ''a'' (the (mg_db leased_worker)) = Some r \<and> jr_owner r = Some ''w1'' \<and> lease_live 10 r)"
proof -
  let ?db = "sample_db [sample_row ''a'' DesiredStateRunning (Some ''w1'') (Some 50) ''PENDING'']"
  let ?j = "sample_managed ''a'' JobModeResume JobStatusRunning"
  obtain e j' m' where r: "saveJobRecord sample_menv DesiredStateRunning JobStatusRunning ?j leased_worker = (e, j', m')"
    by (metis prod_cases3)
  have wf: "db_wf ?db" by (simp add: db_wf_def sample_db_def sample_row_def)
  have db: "mg_db leased_worker = Some ?db" "mg_worker leased_worker = ''w1''" "me_now sample_menv = 10"
    by (simp_all add: leased_worker_def sample_manager_def sample_menv_def)
  have ex: "executing_role leased_worker" by code_simp
  have act: "runActive (job_id ?j) leased_worker \<or> JobStatusRunning \<noteq> JobStatusCreated \<and> JobStatusRunning \<noteq> JobStatusQueued" by simp
  have id: "job_id ?j = ''a''" by code_simp
  have "fst (saveJobRecord sample_menv DesiredStateRunning JobStatusRunning ?j leased_worker) = None"
    by (simp add: saveJobRecord_def ensureMetaKey_def executing_role_def claimedWorkerLeaseOwner_def leased_worker_def
      sample_manager_def sample_menv_def sample_managed_def NewJob_def job_id_def map_get_def trim_space_def is_space_def
      SaveClaimedJob_def persisted_job_of_def normalizeConfig_def or_default_def update_jobs_def tbl_matched_def
      claimed_guard_def sample_db_def sample_row_def lease_live_def zero_config_def pickSource_def pickSink_def Let_def)
  with r have "e = None" by simp
  with worker_writes_only_leased_jobs [OF wf db(1) ex act r] r db id show ?thesis by auto
qed

end
