(* ===== verification/Job_Manager.thy ===== *)
theory Job_Manager
  imports Manager_State
begin

text \<open>
  The operations of the job manager (\<open>pkg/core/manager.go\<close>): admission, the snapshot slots and their queue,
  resubmission, deletion, the restart of persisted jobs, claimed work and shutdown. An operation is one
  function on the manager; the work it leaves to a goroutine is an operation of its own
  (\<open>startQueuedSnapshotJobs\<close>, \<open>finish_delete\<close>, \<open>pipeline_drained\<close>, \<open>finish_shutdown\<close>).

  The lemmas show that the slot limit holds and the queue is served in order, that a refused submission
  leaves no trace, and which start mode a claimed job gets.
\<close>

section \<open>Slots and their queue\<close>

definition snapshotGateApplies :: "manager \<Rightarrow> job_config option \<Rightarrow> job_mode \<Rightarrow> bool" where
  "snapshotGateApplies m cfg mode =
     (case cfg of
        None \<Rightarrow> False
      | Some c \<Rightarrow>
          if mg_limit m = 0 \<or> mg_role m = WorkerRoleStreaming then False
          else if normalizeMode mode \<in> {JobModeInitial, JobModeSnapshotOnly, JobModeSnapshotHandoff, JobModeSnapshotHandoffResume}
          then True
          else if normalizeMode mode = JobModeResume
          then normalizeMode (jc_mode c) = JobModeInitial \<or> normalizeMode (jc_mode c) = JobModeSnapshotOnly
          else False)"

definition holds_slot :: "manager \<Rightarrow> string \<times> job \<Rightarrow> bool" where
  "holds_slot m kj =
     (let (k, j) = kj in
      snapshotGateApplies m (jb_config j) (config_mode j) \<and>
      (mg_role m = WorkerRoleAll \<or>
       map_get (mg_exec m) k = Some (durableWorkerRole m) \<and> map_get (mg_leases m) k \<noteq> None) \<and>
      jb_status j \<in> {JobStatusPending, JobStatusRunning, JobStatusPausing} \<and>
      \<not> snapshotProgressReleasesSlot (jb_progress j))"

definition activeSnapshotJobs :: "manager \<Rightarrow> nat" where
  "activeSnapshotJobs m = length (mg_starting m) + length (filter (holds_slot m) (mg_jobs m))"

definition hasSnapshotSlot :: "manager \<Rightarrow> bool" where
  "hasSnapshotSlot m \<longleftrightarrow> mg_limit m \<le> 0 \<or> int (activeSnapshotJobs m) < mg_limit m"

definition shouldQueueSnapshotStart :: "manager \<Rightarrow> job \<Rightarrow> job_mode \<Rightarrow> bool" where
  "shouldQueueSnapshotStart m j mode \<longleftrightarrow> snapshotGateApplies m (jb_config j) mode \<and> \<not> hasSnapshotSlot m"

definition enqueueSnapshotJob :: "string \<Rightarrow> job_mode \<Rightarrow> manager \<Rightarrow> manager" where
  "enqueueSnapshotJob k mode m =
     (if map_get (mg_modes m) k \<noteq> None then m
      else m\<lparr>mg_queue := mg_queue m @ [k], mg_modes := map_put k mode (mg_modes m)\<rparr>)"

definition removeSnapshotQueue :: "string \<Rightarrow> manager \<Rightarrow> manager" where
  "removeSnapshotQueue k m = m\<lparr>mg_modes := map_delete k (mg_modes m), mg_queue := filter (\<lambda>q. q \<noteq> k) (mg_queue m)\<rparr>"

definition add_starting :: "string \<Rightarrow> manager \<Rightarrow> manager" where
  "add_starting k m = (if k \<in> set (mg_starting m) then m else m\<lparr>mg_starting := mg_starting m @ [k]\<rparr>)"

definition drop_starting :: "string \<Rightarrow> manager \<Rightarrow> manager" where
  "drop_starting k m = m\<lparr>mg_starting := removeAll k (mg_starting m)\<rparr>"

definition queued_info :: "string \<Rightarrow> string \<Rightarrow> progress_info" where
  "queued_info summary detail = zero_info\<lparr>pi_phase := ''queued'', pi_summary := summary, pi_detail := detail\<rparr>"

definition slot_info :: progress_info where
  "slot_info = queued_info ''Waiting in queue'' ''The job is waiting for an active snapshot/preflight slot to finish''"

definition mark_queued :: "manager_env \<Rightarrow> progress_info \<Rightarrow> job \<Rightarrow> job" where
  "mark_queued E info j = updateProgress (se_format (me_start E (job_id j))) (me_wall E) info (setStatus (me_wall E) JobStatusQueued j)"

section \<open>Stopping and pausing a run\<close>

definition requestStop :: "int \<Rightarrow> job \<Rightarrow> job" where
  "requestStop now j =
     (let j1 = j\<lparr>jb_cancel := False, jb_source_cancel := False\<rparr> in
      if jb_status j = JobStatusDone \<or> jb_status j = JobStatusFailed then j1 else setStatus now JobStatusStopped j1)"

definition RequestPause :: "int \<Rightarrow> job \<Rightarrow> job option" where
  "RequestPause now j =
     (if jb_status j \<noteq> JobStatusRunning \<or> \<not> jb_source_cancel j then None
      else Some (setStatus now JobStatusPausing (j\<lparr>jb_source_cancel := False, jb_pause_requested := True\<rparr>)))"

definition try_pause :: "int \<Rightarrow> job \<Rightarrow> job" where
  "try_pause now j = (case RequestPause now j of None \<Rightarrow> j | Some j' \<Rightarrow> j')"

section \<open>Starting a job\<close>

text \<open>\<open>startWithMode\<close> of a managed job; the pipeline is active once it has launched.\<close>

definition start_pipeline :: "manager_env \<Rightarrow> string \<Rightarrow> job_mode \<Rightarrow> job \<Rightarrow> manager \<Rightarrow> string option \<times> job \<times> manager" where
  "start_pipeline E k mode j m =
     (let r = startWithMode (me_start E k) (me_wall E) mode (j\<lparr>jb_calls := []\<rparr>);
          (j', m') = deliver E (jb_calls (sr_job r)) ((sr_job r)\<lparr>jb_calls := []\<rparr>) m in
      (sr_error r, j', if sr_launched r then m'\<lparr>mg_active := k # removeAll k (mg_active m')\<rparr> else m'))"

definition forget_job :: "string \<Rightarrow> manager \<Rightarrow> manager" where
  "forget_job k m = m\<lparr>mg_jobs := map_delete k (mg_jobs m), mg_exec := map_delete k (mg_exec m),
     mg_leases := map_delete k (mg_leases m)\<rparr>"

definition startJob :: "manager_env \<Rightarrow> string \<Rightarrow> job_mode \<Rightarrow> bool \<Rightarrow> job \<Rightarrow> manager \<Rightarrow> manager_error option \<times> manager" where
  "startJob E k mode remove j m0 =
     (let gate = snapshotGateApplies m0 (jb_config j) mode;
          m1 = (if gate then add_starting k m0 else m0);
          (serr, j1, m2) = start_pipeline E k mode j m1;
          (err, j2, m3) = (case serr of
             Some e \<Rightarrow> (Some (ErrStart e), j1, m2)
           | None \<Rightarrow>
               (let st = jb_status j1;
                    (e, j', m') = saveManagedJobRecordIfCurrent E st (desiredStateForJobStatus m2 k st) st j1 m2 in
                if e = None then (None, j', m')
                else let (j'', m'') = with_listener E (requestStop (me_wall E)) j' m' in (e, j'', m'')));
          m4 = (if err \<noteq> None \<and> remove
                then (let m' = drop_starting k (removeSnapshotQueue k (forget_job k m3));
                          (_, _, m'') = deletePersistedJobForJob E (requestStop (me_wall E) (setListeners False j2)) k m' in m'')
                else set_job k j2 m3) in
      (err, if gate then (drop_starting k m4)\<lparr>mg_kick := True\<rparr> else m4))"

text \<open>\<open>queueOrStart\<close> answers whether it queued the job; \<open>me_checkpoint\<close> is the inspection of its checkpoint.\<close>

definition usable_offset :: "offset option \<Rightarrow> bool" where
  "usable_offset off = (case off of None \<Rightarrow> False | Some x \<Rightarrow> trim_space (of_file x) \<noteq> [] \<and> 0 < of_pos x)"

definition resumeCanBypassSnapshotGate :: "manager_env \<Rightarrow> job \<Rightarrow> bool" where
  "resumeCanBypassSnapshotGate E j =
     (case jb_config j of
        None \<Rightarrow> False
      | Some c \<Rightarrow>
          if normalizeMode (jc_mode c) \<noteq> JobModeInitial \<and> normalizeMode (jc_mode c) \<noteq> JobModeSnapshotOnly then True
          else if progressIndicatesCDC (jb_progress j) then True
          else if trim_space (jc_meta_dsn c) = [] then False
          else (case me_checkpoint E (jc_id c) of
            Inl _ \<Rightarrow> False
          | Inr (Some st, _, _) \<Rightarrow> CompletionConfirmed (Some st)
          | Inr (None, _, off) \<Rightarrow> usable_offset off))"

definition snapshotCheckpointExists :: "manager_env \<Rightarrow> job \<Rightarrow> string + bool" where
  "snapshotCheckpointExists E j =
     (case jb_config j of
        None \<Rightarrow> Inl ''job config is unavailable''
      | Some c \<Rightarrow>
          if trim_space (jc_meta_dsn c) = [] then Inl ''meta MySQL DSN is unavailable''
          else (case me_checkpoint E (jc_id c) of
            Inl e \<Rightarrow> Inl e
          | Inr (st, p, off) \<Rightarrow> Inr (st \<noteq> None \<or> p \<noteq> None \<or> usable_offset off)))"

definition queueOrStart :: "manager_env \<Rightarrow> string \<Rightarrow> job_mode \<Rightarrow> job \<Rightarrow> manager \<Rightarrow> bool \<times> job \<times> manager" where
  "queueOrStart E k mode j m =
     (let bypass = (normalizeMode mode = JobModeResume \<and> resumeCanBypassSnapshotGate E j) in
      if \<not> bypass \<and> shouldQueueSnapshotStart m j mode
      then (let (j', m') = with_listener E (mark_queued E slot_info) j (enqueueSnapshotJob k mode m) in (True, j', set_job k j' m'))
      else (False, j, m))"

text \<open>One round of the queue loop, and the loop: it ends because every round takes an id off the queue.\<close>

definition queue_blocked :: "manager \<Rightarrow> bool" where
  "queue_blocked m \<longleftrightarrow> mg_down m \<or> \<not> hasSnapshotSlot m \<or> mg_queue m = []"

definition queue_round :: "manager_env \<Rightarrow> manager \<Rightarrow> manager" where
  "queue_round E m0 =
     (let k = hd (mg_queue m0);
          mode = (case map_get (mg_modes m0) k of Some md \<Rightarrow> md | None \<Rightarrow> []);
          m1 = m0\<lparr>mg_queue := tl (mg_queue m0), mg_modes := map_delete k (mg_modes m0)\<rparr> in
      case map_get (mg_jobs m1) k of
        None \<Rightarrow> m1
      | Some j \<Rightarrow>
          if jb_status j \<noteq> JobStatusQueued then m1
          else let (serr, j1, m2) = start_pipeline E k mode j (add_starting k m1);
                   (j2, m3) = (if serr = None then (j1, m2) else with_listener E (setStatus (me_wall E) JobStatusFailed) j1 m2);
                   st = jb_status j2;
                   (e, j3, m4) = saveManagedJobRecordIfCurrent E st (desiredStateForJobStatus m3 k st) st j2 m3 in
            drop_starting k (set_job k j3 m4))"

fun queue_loop :: "nat \<Rightarrow> manager_env \<Rightarrow> manager \<Rightarrow> manager" where
  "queue_loop 0 E m = m"
| "queue_loop (Suc n) E m = (if queue_blocked m then m else queue_loop n E (queue_round E m))"

definition startQueuedSnapshotJobs :: "manager_env \<Rightarrow> manager \<Rightarrow> manager" where
  "startQueuedSnapshotJobs E m = queue_loop (length (mg_queue m)) E (m\<lparr>mg_kick := False\<rparr>)"

section \<open>Submission\<close>

definition worker_info :: "string \<Rightarrow> progress_info" where
  "worker_info role = queued_info (''Waiting for '' @ to_lower role @ '' worker'') ''The durable worker lease prevents duplicate execution''"

definition finishDeferredFailureNotification :: "manager_env \<Rightarrow> job \<Rightarrow> bool \<Rightarrow> manager \<Rightarrow> manager" where
  "finishDeferredFailureNotification E j ok m =
     (let m1 = m\<lparr>mg_deferred := removeAll (job_id j) (mg_deferred m)\<rparr> in
      if ok \<and> jb_status j = JobStatusFailed then enqueueFailureNotification E j m1 else m1)"

text \<open>The three ends of \<open>Submit\<close>: left to a worker, queued, started at once.\<close>

definition submit_to_worker :: "manager_env \<Rightarrow> string \<Rightarrow> string \<Rightarrow> job \<Rightarrow> manager \<Rightarrow> (manager_error + job) \<times> manager" where
  "submit_to_worker E k role j m =
     (case saveManagedJobRecord E DesiredStateRunning JobStatusQueued (setListeners True (mark_queued E (worker_info role) j)) m of
        (Some e, _, m') \<Rightarrow> (Inl e, m'\<lparr>mg_jobs := map_delete k (mg_jobs m'), mg_exec := map_delete k (mg_exec m')\<rparr>)
      | (None, j', m') \<Rightarrow> (Inr j', set_job k j' m'))"

definition submit_queued :: "manager_env \<Rightarrow> string \<Rightarrow> job_mode \<Rightarrow> job \<Rightarrow> manager \<Rightarrow> (manager_error + job) \<times> manager" where
  "submit_queued E k mode j m =
     (let (j', m') = with_listener E (mark_queued E slot_info) (setListeners True j) (enqueueSnapshotJob k mode m) in
      (Inr j', set_job k j' m'))"

definition submit_started :: "manager_env \<Rightarrow> string \<Rightarrow> job_mode \<Rightarrow> job \<Rightarrow> manager \<Rightarrow> (manager_error + job) \<times> manager" where
  "submit_started E k mode j m =
     (case startJob E k mode True (setListeners True j) (m\<lparr>mg_deferred := k # mg_deferred m\<rparr>) of
        (Some e, m') \<Rightarrow> (Inl e, m'\<lparr>mg_deferred := removeAll k (mg_deferred m')\<rparr>)
      | (None, m') \<Rightarrow>
          (let j' = (case map_get (mg_jobs m') k of Some j' \<Rightarrow> j' | None \<Rightarrow> j) in
           (Inr j', finishDeferredFailureNotification E j' True m')))"

definition Submit :: "manager_env \<Rightarrow> job_config option \<Rightarrow> manager \<Rightarrow> (manager_error + job) \<times> manager" where
  "Submit E raw m =
     (case normalizeConfig m raw of
        None \<Rightarrow> (Inl ErrNilConfig, m)
      | Some c \<Rightarrow>
     (let k = jc_id c in
      if jc_mode c = JobModeMaintenanceOnly then (Inl ErrMaintenanceOnly, m)
      else case validateSnapshotOnlyCountResume (Some c) of
        Some e \<Rightarrow> (Inl (ErrInvalid e), m)
      | None \<Rightarrow>
      if mg_down m then (Inl ErrJobManagerShuttingDown, m)
      else if k \<in> set (mg_deleting m) then (Inl ErrJobDeleting, m)
      else if map_get (mg_jobs m) k \<noteq> None then (Inl ErrJobExists, m)
      else let j = NewJob (me_uuid E k) (me_wall E) (Some c) True;
               role = (if mg_role m = WorkerRoleAll then JobExecutionRoleAll else executionRoleForConfig (Some c));
               m1 = (set_job k j m)\<lparr>mg_exec := map_put k role (mg_exec m)\<rparr> in
        if mg_role m \<noteq> WorkerRoleAll then submit_to_worker E k role j m1
        else if shouldQueueSnapshotStart m1 j (jc_mode c) then submit_queued E k (jc_mode c) j m1
        else submit_started E k (jc_mode c) j m1))"

record submit_result =
  sb_id :: string
  sb_name :: string
  sb_status :: string
  sb_action :: string
  sb_error :: "manager_error option"

definition refused_submission :: "string \<Rightarrow> string \<Rightarrow> string \<Rightarrow> manager_error \<Rightarrow> submit_result" where
  "refused_submission k name action e = \<lparr>sb_id = k, sb_name = name, sb_status = [], sb_action = action, sb_error = Some e\<rparr>"

fun submit_many :: "manager_env \<Rightarrow> string list \<Rightarrow> job_config option list \<Rightarrow> manager \<Rightarrow> submit_result list \<times> manager" where
  "submit_many E seen [] m = ([], m)"
| "submit_many E seen (None # cs) m =
     (let (rs, m') = submit_many E seen cs m in (refused_submission [] [] ''failed'' ErrNilConfig # rs, m'))"
| "submit_many E seen (Some c # cs) m =
     (let k = trim_space (jc_id c); name = trim_space (jc_name c) in
      if k = [] then (let (rs, m') = submit_many E seen cs m in
        (refused_submission k name ''failed'' (ErrInvalid ''job id is empty'') # rs, m'))
      else if k \<in> set seen then (let (rs, m') = submit_many E seen cs m in
        (refused_submission k name ''skipped'' (ErrInvalid ''duplicate job id in submitted file'') # rs, m'))
      else if map_get (mg_jobs m) k \<noteq> None then (let (rs, m') = submit_many E (k # seen) cs m in
        (refused_submission k name ''skipped'' ErrJobExists # rs, m'))
      else (case Submit E (Some c) m of
          (Inl e, m1) \<Rightarrow> (let (rs, m') = submit_many E (k # seen) cs m1 in (refused_submission k name ''failed'' e # rs, m'))
        | (Inr j, m1) \<Rightarrow> (let (rs, m') = submit_many E (k # seen) cs m1 in
            (\<lparr>sb_id = job_id j, sb_name = job_name j, sb_status = jb_status j, sb_action = ''submitted'', sb_error = None\<rparr> # rs, m'))))"

definition SubmitMany :: "manager_env \<Rightarrow> job_config option list \<Rightarrow> manager \<Rightarrow> submit_result list \<times> manager" where
  "SubmitMany E = submit_many E []"

section \<open>Cancel, pause, resubmit\<close>

definition Cancel :: "manager_env \<Rightarrow> string \<Rightarrow> manager \<Rightarrow> manager_error option \<times> manager" where
  "Cancel E k m =
     (if mg_down m then (Some ErrJobManagerShuttingDown, m)
      else case map_get (mg_jobs m) k of
        None \<Rightarrow> (Some ErrJobNotFound, m)
      | Some j \<Rightarrow>
          if jb_status j = JobStatusQueued
          then (let (j', m') = with_listener E (setStatus (me_wall E) JobStatusStopped) j (removeSnapshotQueue k m) in (None, set_job k j' m'))
          else (let (j', m') = with_listener E (requestStop (me_wall E)) j m in (None, set_job k j' m')))"

definition Pause :: "manager_env \<Rightarrow> string \<Rightarrow> manager \<Rightarrow> manager_error option \<times> manager" where
  "Pause E k m =
     (if mg_down m then (Some ErrJobManagerShuttingDown, m)
      else case map_get (mg_jobs m) k of
        None \<Rightarrow> (Some ErrJobNotFound, m)
      | Some j \<Rightarrow>
          (case RequestPause (me_wall E) j of
             None \<Rightarrow> (Some ErrJobPauseNotAllowed, m)
           | Some _ \<Rightarrow>
               (let (j', m') = with_listener E (try_pause (me_wall E)) j m in
                (None, set_job k j' m'))))"

definition Resubmit :: "manager_env \<Rightarrow> string \<Rightarrow> manager \<Rightarrow> manager_error option \<times> manager" where
  "Resubmit E k m =
     (if mg_down m then (Some ErrJobManagerShuttingDown, m)
      else case map_get (mg_jobs m) k of
        None \<Rightarrow> (Some ErrJobNotFound, m)
      | Some j \<Rightarrow>
          if jb_status j \<notin> {JobStatusFailed, JobStatusStopped, JobStatusPaused} then (Some ErrJobResubmitNotAllowed, m)
          else if mg_role m \<noteq> WorkerRoleAll
          then (let (j', m') = with_listener E (mark_queued E (queued_info ''Waiting for assigned worker''
                  ''The job will resume from its durable checkpoint'')) j m in (None, set_job k j' m'))
          else if runActive k m \<and> \<not> me_drained E k then (Some ErrJobStillStopping, m)
          else let (j1, m1) = (if runActive k m then pipeline_drained E j m else (j, m)) in
            case me_fresh E k of
              Inl e \<Rightarrow> (Some (ErrInvalid e), set_job k j1 m1)
            | Inr fresh \<Rightarrow>
                (let mode = (if fresh then (if normalizeMode (config_mode j1) = JobModeSnapshotOnly then JobModeSnapshotOnly else JobModeInitial)
                       else JobModeResume);
                     (queued, j2, m2) = queueOrStart E k mode j1 m1 in
                 if queued then (None, m2) else startJob E k mode False j2 m2))"

section \<open>Deletion\<close>

text \<open>\<open>checkDeleteAdmission\<close> and \<open>CleanupMeta\<close> of a job, on the database of its checkpoints.\<close>

definition checkDeleteAdmission :: "key_digest \<Rightarrow> string option \<Rightarrow> bool \<Rightarrow> job \<Rightarrow> meta_db \<Rightarrow> (meta_error + unit) \<times> job" where
  "checkDeleteAdmission digest open_err capable j db =
     (if \<not> jb_store j \<and> (case jb_config j of None \<Rightarrow> True | Some c \<Rightarrow> trim_space (jc_meta_dsn c) = []) then (Inr (), j)
      else case ensureMetaStore open_err j of
        (Some e, j1) \<Rightarrow> (Inl (ErrMsg e), j1)
      | (None, j1) \<Rightarrow>
          (let (key, j2) = ensureMetaKey digest j1 in
           if \<not> capable then (Inr (), j2)
           else if job_id j2 \<noteq> [] \<and> CheckJobStateCleanup (job_id j2) db \<noteq> Inr () then (CheckJobStateCleanup (job_id j2) db, j2)
           else if key \<noteq> [] \<and> key \<noteq> job_id j2 then (CheckJobStateCleanup key db, j2)
           else (Inr (), j2)))"

definition CleanupMeta :: "string option \<Rightarrow> job \<Rightarrow> meta_db \<Rightarrow> (meta_error + unit) \<times> job \<times> meta_db" where
  "CleanupMeta open_err j db =
     (case (if \<not> jb_store j \<and> jb_meta_key j \<noteq> [] then ensureMetaStore open_err j else (None, j)) of
        (Some e, j1) \<Rightarrow> (Inl (ErrMsg (''open metadata store for cleanup: '' @ e)), j1, db)
      | (None, j1) \<Rightarrow>
          if \<not> jb_store j1 \<or> jb_meta_key j1 = [] then (Inr (), closeMetaStore j1, db)
          else let (r, db') = DeleteJobState False (jb_meta_key j1) db in (r, closeMetaStore j1, db'))"

text \<open>Deleting a job detaches it; the result is the detached job and its role, for the goroutine that finishes.\<close>

definition Delete :: "manager_env \<Rightarrow> string \<Rightarrow> manager \<Rightarrow> (manager_error + job \<times> string) \<times> manager" where
  "Delete E k m =
     (if mg_down m then (Inl ErrJobManagerShuttingDown, m)
      else case map_get (mg_jobs m) k of
        None \<Rightarrow> (Inl ErrJobNotFound, m)
      | Some j \<Rightarrow>
          if \<not> runActive k m \<and> me_admission E k \<noteq> None then (Inl (ErrInvalid (the (me_admission E k))), m)
          else let role = (case map_get (mg_exec m) k of Some r \<Rightarrow> r | None \<Rightarrow> []) in
            (Inr (requestStop (me_wall E) (setListeners False j), role),
             drop_starting k (removeSnapshotQueue k ((forget_job k m)\<lparr>mg_deleting := k # mg_deleting m\<rparr>))))"

definition finish_delete :: "manager_env \<Rightarrow> string \<Rightarrow> job \<Rightarrow> string \<Rightarrow> manager \<Rightarrow> manager" where
  "finish_delete E k j role m =
     (let (e1, j1, m1) = saveManagedJobRecord E DesiredStateStopped JobStatusStopping j m;
          j2 = markPersistenceDeleted (closeMetaStore j1);
          m2 = applyMaintenanceOwnershipStatus j2 (jb_status j2) True (m1\<lparr>mg_active := removeAll k (mg_active m1)\<rparr>);
          m3 = (case me_cleanup E k of
             Some e \<Rightarrow>
               (let j3 = setListeners True (setStatus (me_wall E) JobStatusFailed
                      (addError (me_wall E) ''metadata cleanup'' (Some e) (j2\<lparr>jb_deleted := False\<rparr>)));
                    m' = (set_job k j3 m2)\<lparr>mg_exec := map_put k role (mg_exec m2)\<rparr>;
                    (e2, j4, m'') = saveManagedJobRecord E DesiredStateStopped JobStatusFailed j3 m' in set_job k j4 m'')
           | None \<Rightarrow> (let (e2, j3, m') = deletePersistedJobForJob E j2 k m2 in m')) in
      m3\<lparr>mg_deleting := removeAll k (mg_deleting m3)\<rparr>)"

section \<open>What a call about one job leaves alone\<close>

definition quiet :: "string \<Rightarrow> manager \<Rightarrow> manager \<Rightarrow> bool" where
  "quiet k m m' \<longleftrightarrow> mg_jobs m' = mg_jobs m \<and> mg_role m' = mg_role m \<and> mg_limit m' = mg_limit m \<and> mg_queue m' = mg_queue m \<and>
     mg_modes m' = mg_modes m \<and> mg_starting m' = mg_starting m \<and> mg_down m' = mg_down m \<and> mg_restart m' = mg_restart m \<and>
     mg_deleting m' = mg_deleting m \<and> mg_worker m' = mg_worker m \<and>
     (\<forall>k'. k' \<noteq> k \<longrightarrow> map_get (mg_exec m') k' = map_get (mg_exec m) k' \<and> map_get (mg_leases m') k' = map_get (mg_leases m) k')"

lemma quiet_refl [simp, intro]: "quiet k m m"
  by (simp add: quiet_def)

lemma quiet_trans [trans]: "quiet k a b \<Longrightarrow> quiet k b c \<Longrightarrow> quiet k a c"
  by (simp add: quiet_def)

lemma quiet_field_updates [simp]:
  "quiet k m (m'\<lparr>mg_db := d\<rparr>) = quiet k m m'" "quiet k m (m'\<lparr>mg_notified := n\<rparr>) = quiet k m m'"
  "quiet k m (m'\<lparr>mg_ownership_calls := oc\<rparr>) = quiet k m m'" "quiet k m (m'\<lparr>mg_drains := dr\<rparr>) = quiet k m m'"
  "quiet k m (m'\<lparr>mg_kick := ki\<rparr>) = quiet k m m'" "quiet k m (m'\<lparr>mg_active := ac\<rparr>) = quiet k m m'"
  "quiet k m (m'\<lparr>mg_deferred := de\<rparr>) = quiet k m m'"
  by (simp_all add: quiet_def)

lemma quiet_field_updates_left [simp]:
  "quiet k (m\<lparr>mg_db := d\<rparr>) m' = quiet k m m'" "quiet k (m\<lparr>mg_kick := ki\<rparr>) m' = quiet k m m'"
  "quiet k (m\<lparr>mg_deferred := de\<rparr>) m' = quiet k m m'" "quiet k (m\<lparr>mg_active := ac\<rparr>) m' = quiet k m m'"
  "quiet k (m\<lparr>mg_drains := dr\<rparr>) m' = quiet k m m'"
  by (simp_all add: quiet_def)

lemma quiet_put_exec: "quiet k m m' \<Longrightarrow> quiet k m (m'\<lparr>mg_exec := map_put k r (mg_exec m')\<rparr>)"
  by (simp add: quiet_def)

text \<open>What a call keeps of the job it is about.\<close>

definition kept :: "job \<Rightarrow> job \<Rightarrow> bool" where
  "kept j j' \<longleftrightarrow> jb_config j' = jb_config j \<and> jb_status j' = jb_status j \<and> jb_submission j' = jb_submission j \<and> jb_progress j' = jb_progress j"

lemma kept_refl [simp, intro]: "kept j j"
  by (simp add: kept_def)

lemma kept_trans [trans]: "kept a b \<Longrightarrow> kept b c \<Longrightarrow> kept a c"
  by (simp add: kept_def)

lemma kept_job_id: "kept j j' \<Longrightarrow> job_id j' = job_id j"
  by (simp add: kept_def job_id_def)

lemma ensureMetaKey_kept:
  assumes "ensureMetaKey d j = (key, j')"
  shows "kept j j'"
proof -
  have "jb_progress j' = jb_progress j"
    using assms by (auto simp: ensureMetaKey_def Let_def split: if_splits option.splits prod.splits)
  with ensureMetaKey_fields [OF assms] show ?thesis by (simp add: kept_def)
qed

text \<open>A save touches the registry and the cached checkpoint key of the job, nothing else.\<close>

lemma saveJobRecord_db:
  assumes "saveJobRecord E desired st j m = (e, j', m')"
  shows "(\<exists>d. m' = m\<lparr>mg_db := d\<rparr>) \<and> kept j j'"
proof (cases "mg_db m")
  case None
  then show ?thesis using assms by (auto simp: saveJobRecord_def intro!: exI [of _ "mg_db m"])
next
  case (Some db)
  obtain key j1 where k: "ensureMetaKey (me_digest E) j = (key, j1)" by fastforce
  have "j' = j1 \<and> (\<exists>d. m' = m\<lparr>mg_db := d\<rparr>)"
  proof (cases "me_outage E (job_id j1) st")
    case None
    have same: "\<exists>d. m = m\<lparr>mg_db := d\<rparr>" by (rule exI [of _ "mg_db m"]) simp
    define P where "P \<longleftrightarrow> executing_role m \<and> claimedWorkerLeaseOwner m j1 \<noteq> []"
    define Q where "Q \<longleftrightarrow> executing_role m \<and> (runActive (job_id j1) m \<or> st \<noteq> JobStatusCreated \<and> st \<noteq> JobStatusQueued)"
    have "saveJobRecord E desired st j m =
      (if P then (case SaveClaimedJob (me_codec E) (me_now E) (persisted_job_of E m j1 key desired st) (claimedWorkerLeaseOwner m j1) db of
                  Inl e \<Rightarrow> (Some (ErrStore e), j1, m)
                | Inr (db', saved) \<Rightarrow> (if saved then None else Some ErrJobWorkerLeaseLost, j1, m\<lparr>mg_db := Some db'\<rparr>))
               else if Q then (Some ErrJobWorkerLeaseLost, j1, m)
               else (case SaveJob (me_codec E) (me_now E) (persisted_job_of E m j1 key desired st) db of
                  Inl e \<Rightarrow> (Some (ErrStore e), j1, m)
                | Inr db' \<Rightarrow> (None, j1, m\<lparr>mg_db := Some db'\<rparr>)))"
      unfolding saveJobRecord_def Some k Let_def P_def Q_def None option.case prod.case ..
    then show ?thesis using assms same by (auto split: if_splits sum.splits prod.splits)
  next
    case (Some x)
    then show ?thesis using assms k \<open>mg_db m = Some db\<close>
      by (auto simp: saveJobRecord_def intro!: exI [of _ "mg_db m"])
  qed
  with ensureMetaKey_kept [OF k] show ?thesis by auto
qed

lemma saveJobRecord_quiet: "saveJobRecord E desired st j m = (e, j', m') \<Longrightarrow> quiet k m m' \<and> kept j j'"
  using saveJobRecord_db by fastforce

lemma saveManagedJobRecord_db: "saveManagedJobRecord E desired st j m = (e, j', m') \<Longrightarrow> \<exists>d. m' = m\<lparr>mg_db := d\<rparr>"
  using saveJobRecord_db by (auto simp: saveManagedJobRecord_def intro!: exI [of _ "mg_db m"] split: if_splits)

lemma saveManagedJobRecordIfCurrent_db:
  "saveManagedJobRecordIfCurrent E x desired st j m = (e, j', m') \<Longrightarrow> \<exists>d. m' = m\<lparr>mg_db := d\<rparr>"
  using saveJobRecord_db by (auto simp: saveManagedJobRecordIfCurrent_def intro!: exI [of _ "mg_db m"] split: if_splits)

lemma saveManagedJobRecord_quiet: "saveManagedJobRecord E desired st j m = (e, j', m') \<Longrightarrow> quiet k m m' \<and> kept j j'"
  by (auto simp: saveManagedJobRecord_def dest: saveJobRecord_quiet split: if_splits)

lemma saveManagedJobRecordIfCurrent_quiet:
  "saveManagedJobRecordIfCurrent E x desired st j m = (e, j', m') \<Longrightarrow> quiet k m m' \<and> kept j j'"
  by (auto simp: saveManagedJobRecordIfCurrent_def dest: saveJobRecord_quiet split: if_splits)

lemma deletePersistedJobForJob_quiet: "deletePersistedJobForJob E j k m = (e, j', m') \<Longrightarrow> quiet k' m m' \<and> kept j j'"
  by (auto simp: deletePersistedJobForJob_def markPersistenceDeleted_def kept_def Let_def split: option.splits)

lemma releaseWorkerLeaseAfterDrain_quiet: "quiet k m (releaseWorkerLeaseAfterDrain E drained k sub m)"
  by (auto simp: releaseWorkerLeaseAfterDrain_def Let_def quiet_def)

lemma releaseWorkerLease_quiet [simp]: "quiet k m (releaseWorkerLease E k sub m)"
  by (simp add: releaseWorkerLease_def releaseWorkerLeaseAfterDrain_quiet)

lemma ownership_quiet [simp]: "quiet k m (applyMaintenanceOwnershipStatus j st deleted m)"
  by (simp add: applyMaintenanceOwnershipStatus_def)

lemma deferMaintenance_quiet [simp]: "quiet k m (deferMaintenanceOwnershipStatus j m)"
  by (simp add: deferMaintenanceOwnershipStatus_def Let_def)

lemma enqueueFailure_quiet [simp]: "quiet k m (enqueueFailureNotification E j m)"
  by (simp add: enqueueFailureNotification_def)

lemma finishDeferred_quiet [simp]: "quiet k m (finishDeferredFailureNotification E j ok m)"
  by (simp add: finishDeferredFailureNotification_def Let_def enqueueFailureNotification_def)

lemma status_callback_quiet:
  assumes "status_callback E st j m = (j', m')" "job_id j = k"
  shows "quiet k m m' \<and> kept j j'"
proof -
  define m1 where "m1 = (if st = JobStatusFailed \<and> k \<notin> set (mg_deferred m) then enqueueFailureNotification E j m else m)"
  define later where "later = (shouldReleaseMaintenanceOwnership (config_mode j) st False \<and> runActive k m1)"
  define handoff where "handoff = handoff_ready m1 j st"
  define m2 where "m2 = (if handoff then m1\<lparr>mg_exec := map_put k JobExecutionRoleStreaming (mg_exec m1)\<rparr> else m1)"
  define desired where "desired = (if handoff then DesiredStateRunning else desiredStateForJobStatus m1 k st)"
  define persisted where "persisted = (if handoff then JobStatusStopped else if later then JobStatusStopping else st)"
  obtain e j3 m3 where save: "saveManagedJobRecordIfCurrent E st desired persisted j m2 = (e, j3, m3)" by (metis prod_cases3)
  define m4 where "m4 = (if later then deferMaintenanceOwnershipStatus j3 m3 else applyMaintenanceOwnershipStatus j3 st False m3)"
  define m5 where "m5 = (if \<not> later \<and> mg_role m4 \<noteq> WorkerRoleAll \<and> snapshotStatusReleasesSlot st
    then releaseWorkerLease E k (jb_submission j3) m4 else m4)"
  have "status_callback E st j m = (j3, if \<not> later \<and> snapshotStatusReleasesSlot st then m5\<lparr>mg_kick := True\<rparr> else m5)"
    unfolding status_callback_def Let_def assms(2) m1_def [symmetric]
    unfolding later_def [symmetric] handoff_def [symmetric]
    unfolding m2_def [symmetric] desired_def [symmetric] persisted_def [symmetric] save prod.case
    unfolding m4_def [symmetric] unfolding m5_def [symmetric] ..
  with assms(1) have res: "j' = j3" "m' = (if \<not> later \<and> snapshotStatusReleasesSlot st then m5\<lparr>mg_kick := True\<rparr> else m5)"
    by simp_all
  have "quiet k m m1" by (simp add: m1_def)
  also have "quiet k m1 m2" by (auto simp: m2_def intro: quiet_put_exec)
  also have "quiet k m2 m3" using saveManagedJobRecordIfCurrent_quiet [OF save] by blast
  also have "quiet k m3 m4" by (simp add: m4_def)
  also have "quiet k m4 m5" by (simp add: m5_def)
  finally show ?thesis using res saveManagedJobRecordIfCurrent_quiet [OF save] by simp
qed

lemma deliver_quiet:
  "deliver E calls j m = (j', m') \<Longrightarrow> job_id j = k \<Longrightarrow> quiet k m m' \<and> jb_config j' = jb_config j \<and> jb_status j' = jb_status j \<and>
     jb_submission j' = jb_submission j \<and> jb_progress j' = jb_progress j"
proof (induction E calls j m arbitrary: j' m' rule: deliver.induct)
  case (2 E st calls j m)
  obtain j1 m1 where cb: "status_callback E st (j\<lparr>jb_status := st\<rparr>) m = (j1, m1)" by fastforce
  have id: "job_id (j\<lparr>jb_status := st\<rparr>) = k" using "2.prems"(2) by (simp add: job_id_def)
  note q = status_callback_quiet [OF cb id]
  have id1: "job_id (j1\<lparr>jb_status := jb_status j\<rparr>) = k" using q id by (simp add: kept_def job_id_def)
  have "deliver E calls (j1\<lparr>jb_status := jb_status j\<rparr>) m1 = (j', m')" using "2.prems"(1) cb by simp
  from "2.IH" [OF refl cb [symmetric] refl this id1] q show ?case by (auto simp: kept_def intro: quiet_trans)
next
  case (3 E p calls j m)
  then show ?case by (auto split: if_splits intro: quiet_trans)
qed simp

lemma deliver_kept: "deliver E calls j m = (j', m') \<Longrightarrow> kept j j'"
  using deliver_quiet unfolding kept_def by blast

lemma with_listener_quiet:
  assumes "with_listener E f j m = (j', m')" "job_id j = k" "\<And>x. jb_config (f x) = jb_config x"
  shows "quiet k m m' \<and> kept (f (j\<lparr>jb_calls := []\<rparr>)) j'"
proof -
  let ?j = "(f (j\<lparr>jb_calls := []\<rparr>))\<lparr>jb_calls := []\<rparr>"
  have "job_id ?j = k" using assms(2,3) by (simp add: job_id_def)
  from deliver_quiet [OF _ this] assms(1) show ?thesis
    by (fastforce simp: with_listener_def Let_def kept_def)
qed

text \<open>No callback of a job touches the list of active pipelines.\<close>

lemma helper_active [simp]:
  "mg_active (enqueueFailureNotification E j m) = mg_active m"
  "mg_active (applyMaintenanceOwnershipStatus j st b m) = mg_active m"
  "mg_active (deferMaintenanceOwnershipStatus j m) = mg_active m"
  "mg_active (releaseWorkerLease E k sub m) = mg_active m"
  by (simp_all add: enqueueFailureNotification_def applyMaintenanceOwnershipStatus_def deferMaintenanceOwnershipStatus_def
      releaseWorkerLease_def releaseWorkerLeaseAfterDrain_def Let_def)

lemma saveManagedJobRecordIfCurrent_active:
  "saveManagedJobRecordIfCurrent E x desired st j m = (e, j', m') \<Longrightarrow> mg_active m' = mg_active m"
  using saveManagedJobRecordIfCurrent_db by fastforce

lemma status_callback_active: "mg_active (snd (status_callback E st j m)) = mg_active m"
proof -
  define k where "k = job_id j"
  define m1 where "m1 = (if st = JobStatusFailed \<and> k \<notin> set (mg_deferred m) then enqueueFailureNotification E j m else m)"
  define later where "later = (shouldReleaseMaintenanceOwnership (config_mode j) st False \<and> runActive k m1)"
  define handoff where "handoff = handoff_ready m1 j st"
  define m2 where "m2 = (if handoff then m1\<lparr>mg_exec := map_put k JobExecutionRoleStreaming (mg_exec m1)\<rparr> else m1)"
  obtain e j3 m3 where save: "saveManagedJobRecordIfCurrent E st (if handoff then DesiredStateRunning else desiredStateForJobStatus m1 k st)
    (if handoff then JobStatusStopped else if later then JobStatusStopping else st) j m2 = (e, j3, m3)" by (metis prod_cases3)
  have "mg_active m2 = mg_active m" by (simp add: m2_def m1_def)
  then have "mg_active m3 = mg_active m" using saveManagedJobRecordIfCurrent_active [OF save] by simp
  then show ?thesis
    unfolding status_callback_def Let_def k_def [symmetric] m1_def [symmetric]
    unfolding later_def [symmetric] handoff_def [symmetric] unfolding m2_def [symmetric] save prod.case by simp
qed

lemma deliver_active: "mg_active (snd (deliver E calls j m)) = mg_active m"
proof (induction E calls j m rule: deliver.induct)
  case (2 E st calls j m)
  obtain j1 m1 where cb: "status_callback E st (j\<lparr>jb_status := st\<rparr>) m = (j1, m1)" by fastforce
  have "mg_active m1 = mg_active m" using status_callback_active [of E st "j\<lparr>jb_status := st\<rparr>" m] cb by simp
  then show ?case using "2.IH" [OF refl cb [symmetric] refl] cb by simp
qed auto

lemma with_listener_active: "with_listener E f j m = (j', m') \<Longrightarrow> mg_active m' = mg_active m"
  unfolding with_listener_def Let_def by (metis deliver_active snd_conv)

section \<open>What a start keeps\<close>

lemma setStatus_config [simp]: "jb_config (setStatus now st j) = jb_config j"
  by (simp add: setStatus_def)

lemma updateProgress_config [simp]: "jb_config (updateProgress f now info j) = jb_config j"
  by (simp add: updateProgress_def Let_def)

lemma addError_config [simp]: "jb_config (addError now c e j) = jb_config j"
  by (simp add: addError_def split: option.splits)

lemma closeMetaStore_config [simp]: "jb_config (closeMetaStore j) = jb_config j"
  by (simp add: closeMetaStore_def)

lemma requestStop_config [simp]: "jb_config (requestStop now j) = jb_config j"
  by (simp add: requestStop_def Let_def)

lemma setListeners_config [simp]: "jb_config (setListeners on j) = jb_config j"
  by (simp add: setListeners_def)

lemma mark_queued_config [simp]: "jb_config (mark_queued E info j) = jb_config j"
  by (simp add: mark_queued_def)

lemma try_pause_config [simp]: "jb_config (try_pause now j) = jb_config j"
  by (auto simp: try_pause_def RequestPause_def split: option.splits if_splits)

lemma ensureMetaStore_config: "ensureMetaStore oe j = (e, j') \<Longrightarrow> jb_config j' = jb_config j"
  by (auto simp: ensureMetaStore_def split: if_splits option.splits)

lemma failStart_config [simp]: "jb_config (sr_job (failStart now c e ctx j)) = jb_config j"
  by (simp add: failStart_def)

lemma start_panic_config [simp]: "jb_config (sr_job (start_panic now e j)) = jb_config j"
  by (simp add: start_panic_def Let_def)

lemma start_connectors_config [simp]: "jb_config (sr_job (start_connectors E now j)) = jb_config j"
  by (simp add: start_connectors_def split: start_answer.splits option.splits)

lemma start_fenced_config [simp]: "jb_config (sr_job (start_fenced E now mode j)) = jb_config j"
proof -
  obtain key j1 where k: "ensureMetaKey (se_digest E) (j\<lparr>jb_run_mode := mode\<rparr>) = (key, j1)" by fastforce
  show ?thesis using ensureMetaKey_fields(1) [OF k] by (simp add: start_fenced_def k Let_def split: option.splits)
qed

lemma start_prepared_config [simp]: "jb_config (sr_job (start_prepared E now c mode j)) = jb_config j"
proof -
  obtain e1 j1 where o1: "(if jc_meta_dsn c \<noteq> [] then ensureMetaStore (se_open E) j else (None, j)) = (e1, j1)" by fastforce
  obtain e2 j2 where o2: "ensureMetaStore (se_open E) j1 = (e2, j2)" by fastforce
  obtain key j3 where k: "ensureMetaKey (se_digest E) j2 = (key, j3)" by fastforce
  have "jb_config j1 = jb_config j" using o1 ensureMetaStore_config by (auto split: if_splits)
  moreover have "jb_config j2 = jb_config j1" using o2 by (rule ensureMetaStore_config)
  moreover have "jb_config j3 = jb_config j2" using k by (rule ensureMetaKey_fields(1))
  ultimately show ?thesis by (simp add: start_prepared_def o1 o2 k Let_def split: option.splits sum.splits)
qed

lemma startWithMode_config [simp]: "jb_config (sr_job (startWithMode E now mode j)) = jb_config j"
  by (simp add: startWithMode_def Let_def split: option.splits)

lemma start_pipeline_quiet:
  assumes "start_pipeline E k mode j m = (e, j', m')" "job_id j = k"
  shows "quiet k m m' \<and> jb_config j' = jb_config j"
proof -
  define r where "r = startWithMode (me_start E k) (me_wall E) mode (j\<lparr>jb_calls := []\<rparr>)"
  obtain j1 m1 where d: "deliver E (jb_calls (sr_job r)) ((sr_job r)\<lparr>jb_calls := []\<rparr>) m = (j1, m1)" by fastforce
  have "jb_config (sr_job r) = jb_config j" by (simp add: r_def)
  then have cfg: "jb_config j1 = jb_config j" "quiet k m m1"
    using deliver_quiet [OF d, of k] assms(2) by (simp_all add: job_id_def)
  have "j' = j1" "m' = (if sr_launched r then m1\<lparr>mg_active := k # removeAll k (mg_active m1)\<rparr> else m1)"
    using assms(1) d by (simp_all add: start_pipeline_def r_def [symmetric] Let_def)
  with cfg show ?thesis by simp
qed

text \<open>A job that is neither live nor DONE is launched PENDING, or ends FAILED with the error recorded.\<close>

lemma startWithMode_from_rest:
  assumes "jb_status j \<notin> {JobStatusRunning, JobStatusPending, JobStatusPausing, JobStatusDone}"
  shows "let r = startWithMode E now mode j in
    case sr_error r of
      None \<Rightarrow> sr_launched r \<and> jb_status (sr_job r) = JobStatusPending
    | Some msg \<Rightarrow> \<not> sr_launched r \<and> jb_status (sr_job r) = JobStatusFailed \<and>
        map je_message (jb_errors (sr_job r)) = map je_message (jb_errors j) @ [msg]"
proof (cases "\<not> jb_registry j \<or> validateSnapshotOnlyCountResume (jb_config j) \<noteq> None")
  case True
  then show ?thesis using assms unfolding startWithMode_def Let_def
    by (cases "validateSnapshotOnlyCountResume (jb_config j)") (auto simp: failStart_def)
next
  case False
  define j1 where "j1 = updateProgress (se_format E) now preflight_info (setStatus now JobStatusPending
    (j\<lparr>jb_run_mode := normalizeMode mode, jb_cancel := True, jb_pause_requested := False, jb_source_cancel := True\<rparr>))"
  have j1: "starting (jb_errors j) j1" by (simp add: j1_def starting_def)
  have "startWithMode E now mode j =
     (case jb_config j of None \<Rightarrow> start_panic now ''invalid memory address or nil pointer dereference'' j1
      | Some c \<Rightarrow> (if jc_buffer_size c < 0 then start_panic now ''makechan: size out of range''
          else start_prepared E now c (normalizeMode mode)) j1)"
    using False assms unfolding startWithMode_def Let_def j1_def [symmetric] by auto
  then have "started (jb_errors j) (startWithMode E now mode j)"
    using start_prepared_started [OF j1] start_panic_started [OF j1] by (auto split: option.split)
  then show ?thesis by (auto simp: started_def starting_def Let_def split: option.splits)
qed

lemma start_pipeline_result:
  assumes "start_pipeline E k mode j m = (e, j', m')" "job_id j = k"
  shows "let r = startWithMode (me_start E k) (me_wall E) mode (j\<lparr>jb_calls := []\<rparr>) in
    e = sr_error r \<and> jb_status j' = jb_status (sr_job r) \<and>
    mg_active m' = (if sr_launched r then k # removeAll k (mg_active m) else mg_active m)"
proof -
  define r where "r = startWithMode (me_start E k) (me_wall E) mode (j\<lparr>jb_calls := []\<rparr>)"
  obtain j1 m1 where d: "deliver E (jb_calls (sr_job r)) ((sr_job r)\<lparr>jb_calls := []\<rparr>) m = (j1, m1)" by fastforce
  have "jb_status j1 = jb_status (sr_job r)" using deliver_kept [OF d] by (simp add: kept_def)
  moreover have "mg_active m1 = mg_active m" using deliver_active [of E "jb_calls (sr_job r)" "(sr_job r)\<lparr>jb_calls := []\<rparr>" m] d by simp
  moreover have "e = sr_error r" "j' = j1" "m' = (if sr_launched r then m1\<lparr>mg_active := k # removeAll k (mg_active m1)\<rparr> else m1)"
    using assms(1) d by (simp_all add: start_pipeline_def r_def [symmetric] Let_def)
  ultimately show ?thesis unfolding Let_def r_def [symmetric] by simp
qed

section \<open>The tables of a manager\<close>

definition manager_ok :: "manager \<Rightarrow> bool" where
  "manager_ok m \<longleftrightarrow> distinct (map fst (mg_jobs m)) \<and> (\<forall>k j. map_get (mg_jobs m) k = Some j \<longrightarrow> job_id j = k) \<and>
     distinct (mg_queue m) \<and> distinct (mg_starting m) \<and>
     (\<forall>k. k \<in> set (mg_queue m) \<longleftrightarrow> map_get (mg_modes m) k \<noteq> None)"

lemma quiet_ok: "quiet k m m' \<Longrightarrow> manager_ok m \<Longrightarrow> manager_ok m'"
  by (simp add: quiet_def manager_ok_def)

lemma set_job_ok: "manager_ok m \<Longrightarrow> job_id j = k \<Longrightarrow> manager_ok (set_job k j m)"
  by (simp add: manager_ok_def set_job_def)

lemma enqueue_ok: "manager_ok m \<Longrightarrow> manager_ok (enqueueSnapshotJob k mode m)"
  by (auto simp: manager_ok_def enqueueSnapshotJob_def)

lemma removeSnapshotQueue_ok: "manager_ok m \<Longrightarrow> manager_ok (removeSnapshotQueue k m)"
  by (auto simp: manager_ok_def removeSnapshotQueue_def)

lemma add_starting_ok: "manager_ok m \<Longrightarrow> manager_ok (add_starting k m)"
  by (auto simp: manager_ok_def add_starting_def)

lemma drop_starting_ok: "manager_ok m \<Longrightarrow> manager_ok (drop_starting k m)"
  by (auto simp: manager_ok_def drop_starting_def distinct_removeAll)

lemma forget_job_ok: "manager_ok m \<Longrightarrow> manager_ok (forget_job k m)"
  by (simp add: manager_ok_def forget_job_def)

lemma plain_updates_ok [simp]:
  "manager_ok (m\<lparr>mg_kick := b\<rparr>) = manager_ok m" "manager_ok (m\<lparr>mg_exec := x\<rparr>) = manager_ok m"
  "manager_ok (m\<lparr>mg_leases := y\<rparr>) = manager_ok m" "manager_ok (m\<lparr>mg_deferred := z\<rparr>) = manager_ok m"
  "manager_ok (m\<lparr>mg_active := a\<rparr>) = manager_ok m" "manager_ok (m\<lparr>mg_deleting := d\<rparr>) = manager_ok m"
  "manager_ok (m\<lparr>mg_db := db\<rparr>) = manager_ok m" "manager_ok (m\<lparr>mg_down := w\<rparr>) = manager_ok m"
  "manager_ok (m\<lparr>mg_restart := r\<rparr>) = manager_ok m" "manager_ok (m\<lparr>mg_drains := dr\<rparr>) = manager_ok m"
  by (simp_all add: manager_ok_def)

lemmas ok_steps = set_job_ok enqueue_ok removeSnapshotQueue_ok add_starting_ok drop_starting_ok forget_job_ok

lemma with_listener_ok:
  assumes "with_listener E f j m = (j', m')" "manager_ok m" "job_id j = k" "\<And>x. jb_config (f x) = jb_config x"
  shows "manager_ok m'" "job_id j' = k" "manager_ok (set_job k j' m')"
proof -
  note q = with_listener_quiet [OF assms(1,3,4)]
  then show ok: "manager_ok m'" using quiet_ok assms(2) by blast
  show id: "job_id j' = k" using q assms(3,4) by (simp add: kept_def job_id_def)
  show "manager_ok (set_job k j' m')" by (rule set_job_ok [OF ok id])
qed

lemma saveIfCurrent_ok:
  assumes "saveManagedJobRecordIfCurrent E x desired st j m = (e, j', m')" "manager_ok m" "job_id j = k"
  shows "manager_ok m'" "job_id j' = k"
  using saveManagedJobRecordIfCurrent_quiet [OF assms(1)] assms(2,3) quiet_ok kept_job_id by metis+

lemma save_ok:
  assumes "saveManagedJobRecord E desired st j m = (e, j', m')" "manager_ok m" "job_id j = k"
  shows "manager_ok m'" "job_id j' = k"
  using saveManagedJobRecord_quiet [OF assms(1)] assms(2,3) quiet_ok kept_job_id by metis+

lemma start_pipeline_ok:
  assumes "start_pipeline E k mode j m = (e, j', m')" "manager_ok m" "job_id j = k"
  shows "manager_ok m'" "job_id j' = k"
  using start_pipeline_quiet [OF assms(1,3)] assms(2,3) quiet_ok by (blast, simp add: job_id_def)

lemma delete_row_ok: "deletePersistedJobForJob E j k m = (e, j', m') \<Longrightarrow> manager_ok m \<Longrightarrow> manager_ok m'"
  using deletePersistedJobForJob_quiet quiet_ok by blast

lemma queue_round_ok:
  assumes "manager_ok m" "mg_queue m \<noteq> []"
  shows "manager_ok (queue_round E m)"
proof -
  define k where "k = hd (mg_queue m)"
  define mode where "mode = (case map_get (mg_modes m) k of Some md \<Rightarrow> md | None \<Rightarrow> [])"
  define m1 where "m1 = m\<lparr>mg_queue := tl (mg_queue m), mg_modes := map_delete k (mg_modes m)\<rparr>"
  have q: "mg_queue m = k # tl (mg_queue m)" using assms(2) by (simp add: k_def)
  then have d: "k \<notin> set (tl (mg_queue m))" "distinct (tl (mg_queue m))"
    using assms(1) unfolding manager_ok_def by (metis distinct.simps(2))+
  have mem: "x \<in> set (mg_queue m) \<longleftrightarrow> x = k \<or> x \<in> set (tl (mg_queue m))" for x using q by (metis set_ConsD list.set_intros)
  have ok1: "manager_ok m1" using assms(1) d mem by (auto simp: manager_ok_def m1_def)
  show ?thesis
  proof (cases "\<exists>j. map_get (mg_jobs m1) k = Some j \<and> jb_status j = JobStatusQueued")
    case False
    then show ?thesis using ok1
      unfolding queue_round_def Let_def k_def [symmetric] mode_def [symmetric] m1_def [symmetric] by (simp split: option.splits)
  next
    case True
    then obtain j where j: "map_get (mg_jobs m1) k = Some j" "jb_status j = JobStatusQueued" by blast
    have id: "job_id j = k" using j(1) ok1 by (simp add: manager_ok_def)
    obtain e1 j1 m2 where st: "start_pipeline E k mode j (add_starting k m1) = (e1, j1, m2)" by (metis prod_cases3)
    note s = start_pipeline_ok [OF st add_starting_ok [OF ok1] id]
    obtain j2 m3 where fl: "(if e1 = None then (j1, m2) else with_listener E (setStatus (me_wall E) JobStatusFailed) j1 m2) = (j2, m3)"
      by fastforce
    have f: "manager_ok m3" "job_id j2 = k"
      using fl s with_listener_ok [of E "setStatus (me_wall E) JobStatusFailed" j1 m2 j2 m3 k] by (auto split: if_splits)
    obtain e3 j3 m4 where sv: "saveManagedJobRecordIfCurrent E (jb_status j2) (desiredStateForJobStatus m3 k (jb_status j2))
        (jb_status j2) j2 m3 = (e3, j3, m4)" by (metis prod_cases3)
    note v = saveIfCurrent_ok [OF sv f]
    have "queue_round E m = drop_starting k (set_job k j3 m4)"
      unfolding queue_round_def Let_def k_def [symmetric] mode_def [symmetric] m1_def [symmetric]
      using j st fl sv by simp
    then show ?thesis using v by (simp add: ok_steps)
  qed
qed

section \<open>The slot limit\<close>

definition slots_without :: "string \<Rightarrow> manager \<Rightarrow> nat" where
  "slots_without k m = length (removeAll k (mg_starting m)) + length (filter (\<lambda>kj. fst kj \<noteq> k \<and> holds_slot m kj) (mg_jobs m))"

lemma holds_slot_quiet: "quiet k m m' \<Longrightarrow> fst kj \<noteq> k \<Longrightarrow> holds_slot m' kj = holds_slot m kj"
  by (cases kj) (simp add: holds_slot_def quiet_def snapshotGateApplies_def durableWorkerRole_def split: option.splits)

lemma slots_without_quiet: "quiet k m m' \<Longrightarrow> slots_without k m' = slots_without k m"
proof -
  assume q: "quiet k m m'"
  have "filter (\<lambda>kj. fst kj \<noteq> k \<and> holds_slot m' kj) (mg_jobs m) = filter (\<lambda>kj. fst kj \<noteq> k \<and> holds_slot m kj) (mg_jobs m)"
    using holds_slot_quiet [OF q] by (intro filter_cong) auto
  then show ?thesis using q by (simp add: slots_without_def quiet_def)
qed

lemma filter_other_put: "filter (\<lambda>kj. fst kj \<noteq> k \<and> P kj) (map_put k v xs) = filter (\<lambda>kj. fst kj \<noteq> k \<and> P kj) xs"
  by (induction k v xs rule: map_put.induct) auto

lemma holds_slot_cong:
  "mg_limit m' = mg_limit m \<Longrightarrow> mg_role m' = mg_role m \<Longrightarrow>
   map_get (mg_exec m') (fst kj) = map_get (mg_exec m) (fst kj) \<Longrightarrow> map_get (mg_leases m') (fst kj) = map_get (mg_leases m) (fst kj) \<Longrightarrow>
   holds_slot m' kj = holds_slot m kj"
  by (cases kj) (simp add: holds_slot_def snapshotGateApplies_def durableWorkerRole_def split: option.splits)

lemma slots_without_set_job [simp]: "slots_without k (set_job k j m) = slots_without k m"
proof -
  have h: "holds_slot (set_job k j m) kj = holds_slot m kj" for kj by (rule holds_slot_cong) (simp_all add: set_job_def)
  then show ?thesis by (simp add: slots_without_def filter_other_put) (simp add: set_job_def filter_other_put)
qed

lemma slots_without_starting [simp]:
  "slots_without k (add_starting k m) = slots_without k m" "slots_without k (drop_starting k m) = slots_without k m"
proof -
  have "holds_slot (add_starting k m) kj = holds_slot m kj" "holds_slot (drop_starting k m) kj = holds_slot m kj" for kj
    by (rule holds_slot_cong; simp add: add_starting_def drop_starting_def)+
  then show "slots_without k (add_starting k m) = slots_without k m" "slots_without k (drop_starting k m) = slots_without k m"
    by (simp_all add: slots_without_def) (simp_all add: add_starting_def drop_starting_def)
qed

lemma slots_without_cong:
  assumes "mg_jobs m' = mg_jobs m" "mg_starting m' = mg_starting m" "mg_limit m' = mg_limit m" "mg_role m' = mg_role m"
    "\<And>x. x \<noteq> k \<Longrightarrow> map_get (mg_exec m') x = map_get (mg_exec m) x \<and> map_get (mg_leases m') x = map_get (mg_leases m) x"
  shows "slots_without k m' = slots_without k m"
proof -
  have "filter (\<lambda>kj. fst kj \<noteq> k \<and> holds_slot m' kj) (mg_jobs m) = filter (\<lambda>kj. fst kj \<noteq> k \<and> holds_slot m kj) (mg_jobs m)"
    using assms by (intro filter_cong refl conj_cong holds_slot_cong) auto
  then show ?thesis using assms by (simp add: slots_without_def)
qed

lemma one_entry: "distinct (map fst xs) \<Longrightarrow> length (filter (\<lambda>kj. fst kj = k \<and> P kj) xs) \<le> 1"
proof (induction xs)
  case (Cons x xs)
  have "fst x = k \<Longrightarrow> filter (\<lambda>kj. fst kj = k \<and> P kj) xs = []"
    using Cons.prems by (auto simp: filter_empty_conv image_iff)
  then show ?case using Cons by auto
qed simp

lemma filter_split: "length (filter P xs) = length (filter (\<lambda>kj. fst kj \<noteq> k \<and> P kj) xs) + length (filter (\<lambda>kj. fst kj = k \<and> P kj) xs)"
  by (induction xs) auto

text \<open>A job not registered as starting takes at most one slot.\<close>

lemma active_le:
  assumes "manager_ok m" "k \<notin> set (mg_starting m)"
  shows "activeSnapshotJobs m \<le> Suc (slots_without k m)"
proof -
  have "removeAll k (mg_starting m) = mg_starting m" using assms(2) by (simp add: removeAll_id)
  then show ?thesis
    using one_entry [of "mg_jobs m" k "holds_slot m"] assms(1) filter_split [of "holds_slot m" "mg_jobs m" k]
    by (simp add: activeSnapshotJobs_def slots_without_def manager_ok_def)
qed

lemma slots_le_active: "slots_without k m \<le> activeSnapshotJobs m"
proof -
  have "length (removeAll k (mg_starting m)) \<le> length (mg_starting m)"
    unfolding removeAll_filter_not_eq by (rule length_filter_le)
  then show ?thesis using filter_split [of "holds_slot m" "mg_jobs m" k] by (simp add: activeSnapshotJobs_def slots_without_def trans_le_add1)
qed

definition within_limit :: "manager \<Rightarrow> bool" where
  "within_limit m \<longleftrightarrow> manager_ok m \<and> (0 < mg_limit m \<longrightarrow> int (activeSnapshotJobs m) \<le> mg_limit m)"

text \<open>Starting one job in a free slot ends within the limit, whatever the start does.\<close>

lemma slot_taken:
  assumes "hasSnapshotSlot m" "slots_without k m' \<le> slots_without k m" "mg_limit m' = mg_limit m" "manager_ok m'" "k \<notin> set (mg_starting m')"
  shows "within_limit m'"
proof -
  have "activeSnapshotJobs m' \<le> Suc (activeSnapshotJobs m)"
    using active_le [OF assms(4,5)] assms(2) slots_le_active [of k m] by linarith
  then show ?thesis using assms(1,3,4) by (auto simp: within_limit_def hasSnapshotSlot_def)
qed

lemma drop_starting_notin [simp]: "k \<notin> set (mg_starting (drop_starting k m))"
  by (simp add: drop_starting_def)

lemma simple_fields [simp]:
  "mg_limit (set_job k j m) = mg_limit m" "mg_limit (add_starting k m) = mg_limit m" "mg_limit (drop_starting k m) = mg_limit m"
  "mg_queue (set_job k j m) = mg_queue m" "mg_queue (add_starting k m) = mg_queue m" "mg_queue (drop_starting k m) = mg_queue m"
  by (simp_all add: set_job_def add_starting_def drop_starting_def)

text \<open>A round either drops an id without a queued job, or starts the job at the head.\<close>

lemma queue_round_cases:
  assumes "manager_ok m" "mg_queue m \<noteq> []"
  obtains (dropped) "queue_round E m = m\<lparr>mg_queue := tl (mg_queue m), mg_modes := map_delete (hd (mg_queue m)) (mg_modes m)\<rparr>"
      "map_get (mg_jobs m) (hd (mg_queue m)) = None \<or>
       (\<exists>j. map_get (mg_jobs m) (hd (mg_queue m)) = Some j \<and> jb_status j \<noteq> JobStatusQueued)"
  | (taken) j j' m' where "map_get (mg_jobs m) (hd (mg_queue m)) = Some j" "jb_status j = JobStatusQueued"
      "quiet (hd (mg_queue m)) (add_starting (hd (mg_queue m))
         (m\<lparr>mg_queue := tl (mg_queue m), mg_modes := map_delete (hd (mg_queue m)) (mg_modes m)\<rparr>)) m'"
      "queue_round E m = drop_starting (hd (mg_queue m)) (set_job (hd (mg_queue m)) j' m')"
proof -
  define k where "k = hd (mg_queue m)"
  define mode where "mode = (case map_get (mg_modes m) k of Some md \<Rightarrow> md | None \<Rightarrow> [])"
  define m1 where "m1 = m\<lparr>mg_queue := tl (mg_queue m), mg_modes := map_delete k (mg_modes m)\<rparr>"
  have jobs: "mg_jobs m1 = mg_jobs m" by (simp add: m1_def)
  show thesis
  proof (cases "\<exists>j. map_get (mg_jobs m) k = Some j \<and> jb_status j = JobStatusQueued")
    case False
    have "queue_round E m = m1" using False
      unfolding queue_round_def Let_def k_def [symmetric] mode_def [symmetric] m1_def [symmetric] jobs
      by (simp split: option.splits)
    then show thesis using dropped False unfolding m1_def k_def by (cases "map_get (mg_jobs m) (hd (mg_queue m))") auto
  next
    case True
    then obtain j where j: "map_get (mg_jobs m) k = Some j" "jb_status j = JobStatusQueued" by blast
    have id: "job_id j = k" using j(1) assms(1) by (simp add: manager_ok_def)
    obtain e1 j1 m2 where st: "start_pipeline E k mode j (add_starting k m1) = (e1, j1, m2)" by (metis prod_cases3)
    note s = start_pipeline_quiet [OF st id]
    have id1: "job_id j1 = k" using s id by (simp add: job_id_def)
    obtain j2 m3 where fl: "(if e1 = None then (j1, m2) else with_listener E (setStatus (me_wall E) JobStatusFailed) j1 m2) = (j2, m3)"
      by fastforce
    have f: "quiet k m2 m3"
      using fl with_listener_quiet [of E "setStatus (me_wall E) JobStatusFailed" j1 m2 j2 m3 k] id1 by (auto split: if_splits)
    obtain e3 j3 m4 where sv: "saveManagedJobRecordIfCurrent E (jb_status j2) (desiredStateForJobStatus m3 k (jb_status j2))
        (jb_status j2) j2 m3 = (e3, j3, m4)" by (metis prod_cases3)
    have "queue_round E m = drop_starting k (set_job k j3 m4)"
      unfolding queue_round_def Let_def k_def [symmetric] mode_def [symmetric] m1_def [symmetric] jobs
      using j st fl sv by simp
    moreover have "quiet k (add_starting k m1) m4"
      using s f saveManagedJobRecordIfCurrent_quiet [OF sv] quiet_trans by blast
    ultimately show thesis using taken [of j m4 j3] j unfolding k_def m1_def by blast
  qed
qed

lemma queue_round_frame:
  assumes "manager_ok m" "mg_queue m \<noteq> []"
  shows "mg_queue (queue_round E m) = tl (mg_queue m)" "mg_limit (queue_round E m) = mg_limit m" "mg_down (queue_round E m) = mg_down m"
proof -
  have "mg_queue (queue_round E m) = tl (mg_queue m) \<and> mg_limit (queue_round E m) = mg_limit m \<and> mg_down (queue_round E m) = mg_down m"
    by (rule queue_round_cases [OF assms, of E]; simp add: quiet_def drop_starting_def set_job_def add_starting_def)
  then show "mg_queue (queue_round E m) = tl (mg_queue m)" "mg_limit (queue_round E m) = mg_limit m" "mg_down (queue_round E m) = mg_down m"
    by blast+
qed

lemma queue_round_within:
  assumes "within_limit m" "\<not> queue_blocked m"
  shows "within_limit (queue_round E m)"
proof -
  have ok: "manager_ok m" and ne: "mg_queue m \<noteq> []" and slot: "hasSnapshotSlot m"
    using assms by (simp_all add: within_limit_def queue_blocked_def)
  let ?k = "hd (mg_queue m)"
  let ?m1 = "m\<lparr>mg_queue := tl (mg_queue m), mg_modes := map_delete ?k (mg_modes m)\<rparr>"
  have s1: "slots_without ?k ?m1 = slots_without ?k m" by (rule slots_without_cong) simp_all
  have a1: "activeSnapshotJobs ?m1 = activeSnapshotJobs m"
  proof -
    have "holds_slot ?m1 kj = holds_slot m kj" for kj by (rule holds_slot_cong) simp_all
    then have "holds_slot ?m1 = holds_slot m" by (rule ext)
    then show ?thesis by (simp add: activeSnapshotJobs_def)
  qed
  have ok': "manager_ok (queue_round E m)" using queue_round_ok [OF ok ne] .
  show ?thesis
  proof (rule queue_round_cases [OF ok ne, of E])
    assume "queue_round E m = ?m1"
    then show ?thesis using assms(1) a1 ok' by (simp add: within_limit_def)
  next
    fix j j' m'
    assume q: "quiet ?k (add_starting ?k ?m1) m'" and r: "queue_round E m = drop_starting ?k (set_job ?k j' m')"
    have "slots_without ?k (queue_round E m) = slots_without ?k m" using r slots_without_quiet [OF q] s1 by simp
    moreover have "mg_limit (queue_round E m) = mg_limit m" using queue_round_frame [OF ok ne] by blast
    moreover have "?k \<notin> set (mg_starting (queue_round E m))" using r by simp
    ultimately show ?thesis using slot_taken [OF slot, of ?k "queue_round E m"] ok' by simp
  qed
qed

lemma queue_loop_within: "within_limit m \<Longrightarrow> within_limit (queue_loop n E m)"
  by (induction n E m rule: queue_loop.induct) (auto simp: queue_round_within)

text \<open>
  The turn of job \<open>k\<close> in a pass from \<open>m\<close> to \<open>m'\<close>. A job that is not QUEUED any more is left as it is. A
  QUEUED one is started in the mode it was queued with: it ends PENDING with its pipeline running, or FAILED
  when the start answered with an error.
\<close>

definition turn_taken :: "manager_env \<Rightarrow> manager \<Rightarrow> string \<Rightarrow> manager \<Rightarrow> bool" where
  "turn_taken E m k m' \<longleftrightarrow>
     (case map_get (mg_jobs m) k of
        None \<Rightarrow> map_get (mg_jobs m') k = None
      | Some j \<Rightarrow>
          if jb_status j = JobStatusQueued
          then \<exists>j' mode. map_get (mg_jobs m') k = Some j' \<and> jb_config j' = jb_config j \<and> map_get (mg_modes m) k = Some mode \<and>
            (case sr_error (startWithMode (me_start E k) (me_wall E) mode (j\<lparr>jb_calls := []\<rparr>)) of
               None \<Rightarrow> jb_status j' = JobStatusPending \<and> k \<in> set (mg_active m')
             | Some e \<Rightarrow> jb_status j' = JobStatusFailed)
          else map_get (mg_jobs m') k = Some j)"

lemma turn_taken_later:
  assumes "turn_taken E m k m1" "map_get (mg_jobs m2) k = map_get (mg_jobs m1) k" "set (mg_active m1) \<subseteq> set (mg_active m2)"
  shows "turn_taken E m k m2"
  using assms by (fastforce simp: turn_taken_def split: option.splits if_splits)

lemma turn_taken_earlier:
  assumes "turn_taken E m1 k m2" "map_get (mg_jobs m1) k = map_get (mg_jobs m) k" "map_get (mg_modes m1) k = map_get (mg_modes m) k"
  shows "turn_taken E m k m2"
  using assms unfolding turn_taken_def by metis

lemma queue_round_turn:
  assumes "manager_ok m" "mg_queue m = k # q"
  shows "turn_taken E m k (queue_round E m) \<and> set (mg_active m) \<subseteq> set (mg_active (queue_round E m)) \<and>
    map_get (mg_modes (queue_round E m)) k = None \<and>
    (\<forall>x. x \<noteq> k \<longrightarrow> map_get (mg_jobs (queue_round E m)) x = map_get (mg_jobs m) x \<and>
       map_get (mg_modes (queue_round E m)) x = map_get (mg_modes m) x)"
proof -
  obtain mode where mode: "map_get (mg_modes m) k = Some mode"
    using assms unfolding manager_ok_def by (metis list.set_intros(1) not_Some_eq)
  define m1 where "m1 = m\<lparr>mg_queue := q, mg_modes := map_delete k (mg_modes m)\<rparr>"
  have jobs: "mg_jobs m1 = mg_jobs m" by (simp add: m1_def)
  show ?thesis
  proof (cases "\<exists>j. map_get (mg_jobs m) k = Some j \<and> jb_status j = JobStatusQueued")
    case False
    have r: "queue_round E m = m1" using False
      unfolding queue_round_def Let_def assms(2) list.sel m1_def [symmetric] jobs by (simp split: option.splits)
    have "turn_taken E m k m1" using False by (auto simp: turn_taken_def jobs split: option.splits)
    then show ?thesis unfolding r by (simp add: m1_def)
  next
    case True
    then obtain j where j: "map_get (mg_jobs m) k = Some j" "jb_status j = JobStatusQueued" by blast
    have id: "job_id j = k" using j(1) assms(1) by (simp add: manager_ok_def)
    define r where "r = startWithMode (me_start E k) (me_wall E) mode (j\<lparr>jb_calls := []\<rparr>)"
    obtain e1 j1 m2 where st: "start_pipeline E k mode j (add_starting k m1) = (e1, j1, m2)" by (metis prod_cases3)
    note s = start_pipeline_quiet [OF st id] and res = start_pipeline_result [OF st id, unfolded Let_def r_def [symmetric]]
    have id1: "job_id j1 = k" using s id by (simp add: job_id_def)
    obtain j2 m3 where fl: "(if e1 = None then (j1, m2) else with_listener E (setStatus (me_wall E) JobStatusFailed) j1 m2) = (j2, m3)"
      by fastforce
    have f: "quiet k m2 m3" "jb_config j2 = jb_config j1" "mg_active m3 = mg_active m2"
        "jb_status j2 = (if e1 = None then jb_status j1 else JobStatusFailed)"
      using fl with_listener_quiet [of E "setStatus (me_wall E) JobStatusFailed" j1 m2 j2 m3 k]
        with_listener_active [of E "setStatus (me_wall E) JobStatusFailed" j1 m2 j2 m3] id1
      by (auto simp: kept_def split: if_splits)
    obtain e3 j3 m4 where sv: "saveManagedJobRecordIfCurrent E (jb_status j2) (desiredStateForJobStatus m3 k (jb_status j2))
        (jb_status j2) j2 m3 = (e3, j3, m4)" by (metis prod_cases3)
    note v = saveManagedJobRecordIfCurrent_quiet [OF sv, of k] and va = saveManagedJobRecordIfCurrent_active [OF sv]
    have Q: "queue_round E m = drop_starting k (set_job k j3 m4)"
      unfolding queue_round_def Let_def assms(2) list.sel m1_def [symmetric] jobs mode option.case
      using j st fl sv by simp
    have q: "quiet k (add_starting k m1) m4" using s f(1) v quiet_trans by blast
    have frame: "mg_jobs m4 = mg_jobs m" "mg_modes m4 = map_delete k (mg_modes m)"
      using q by (simp_all add: quiet_def add_starting_def m1_def)
    have act: "mg_active m4 = (if sr_launched r then k # removeAll k (mg_active m) else mg_active m)"
      using res va f(3) by (simp add: add_starting_def m1_def)
    have sub: "set (mg_active m) \<subseteq> set (mg_active m4)" using act by auto
    have cfg: "jb_config j3 = jb_config j" using v f(2) s by (simp add: kept_def)
    have st3: "jb_status j3 = (if sr_error r = None then jb_status (sr_job r) else JobStatusFailed)"
      using v f(4) res by (simp add: kept_def)
    have out: "sr_error r = None \<Longrightarrow> sr_launched r \<and> jb_status (sr_job r) = JobStatusPending"
      using startWithMode_from_rest [of "j\<lparr>jb_calls := []\<rparr>" "me_start E k" "me_wall E" mode] j(2)
      by (auto simp: r_def Let_def split: option.splits)
    have "turn_taken E m k (queue_round E m)"
      unfolding turn_taken_def j(1) option.case if_P [OF j(2)]
    proof (intro exI [of _ j3] exI [of _ mode] conjI)
      show "map_get (mg_jobs (queue_round E m)) k = Some j3" unfolding Q by (simp add: drop_starting_def set_job_def)
      show "case sr_error (startWithMode (me_start E k) (me_wall E) mode (j\<lparr>jb_calls := []\<rparr>)) of
          None \<Rightarrow> jb_status j3 = JobStatusPending \<and> k \<in> set (mg_active (queue_round E m)) | Some e \<Rightarrow> jb_status j3 = JobStatusFailed"
        using out st3 act unfolding Q r_def [symmetric] by (auto simp: drop_starting_def set_job_def split: option.split)
    qed (use cfg mode in simp_all)
    then show ?thesis using sub frame unfolding Q by (simp add: drop_starting_def set_job_def)
  qed
qed

definition pass_from :: "manager_env \<Rightarrow> manager \<Rightarrow> string list \<Rightarrow> manager \<Rightarrow> bool" where
  "pass_from E m served m' \<longleftrightarrow>
     mg_queue m = served @ mg_queue m' \<and> set (mg_active m) \<subseteq> set (mg_active m') \<and>
     (\<forall>k \<in> set served. turn_taken E m k m' \<and> map_get (mg_modes m') k = None) \<and>
     (\<forall>k. k \<notin> set served \<longrightarrow> map_get (mg_jobs m') k = map_get (mg_jobs m) k \<and> map_get (mg_modes m') k = map_get (mg_modes m) k)"

lemma pass_from_round:
  assumes "manager_ok m" "mg_queue m = k # q" "mg_queue (queue_round E m) = q" "pass_from E (queue_round E m) ks m'"
  shows "pass_from E m (k # ks) m'"
proof -
  let ?m1 = "queue_round E m"
  note r = queue_round_turn [OF assms(1,2), of E]
  note p = assms(4) [unfolded pass_from_def assms(3)]
  have d: "k \<notin> set ks" using assms(1,2) p by (auto simp: manager_ok_def)
  have "turn_taken E m k m'" using turn_taken_later [of E m k ?m1 m'] r p d by blast
  moreover have "turn_taken E m x m'" if "x \<in> set ks" for x
    using turn_taken_earlier [of E ?m1 x m' m] r p d that by metis
  ultimately show ?thesis using r p d assms(2) unfolding pass_from_def by auto
qed

lemma queue_loop_pass:
  "manager_ok m \<Longrightarrow> length (mg_queue m) \<le> n \<Longrightarrow> queue_blocked (queue_loop n E m) \<and> (\<exists>served. pass_from E m served (queue_loop n E m))"
proof (induction n E m rule: queue_loop.induct)
  case (1 E m)
  then show ?case by (simp add: queue_blocked_def pass_from_def)
next
  case (2 n E m)
  show ?case
  proof (cases "queue_blocked m")
    case True
    then show ?thesis by (auto simp: pass_from_def intro!: exI [of _ "[]"])
  next
    case False
    then obtain k q where q: "mg_queue m = k # q" by (cases "mg_queue m") (auto simp: queue_blocked_def)
    then have ne: "mg_queue m \<noteq> []" by simp
    have f: "mg_queue (queue_round E m) = q" using queue_round_frame(1) [OF "2.prems"(1) ne, of E] q by simp
    have "manager_ok (queue_round E m)" "length (mg_queue (queue_round E m)) \<le> n"
      using queue_round_ok [OF "2.prems"(1) ne] f "2.prems"(2) q by simp_all
    from "2.IH" [OF False this] show ?thesis using pass_from_round [OF "2.prems"(1) q f] False by auto
  qed
qed

text \<open>
  C18: the queue of waiting snapshot jobs is served in order and to the end. From a manager within its limit,
  a pass takes a prefix of the queue and stops only when the manager shuts down, the queue is empty or every
  slot is taken. Each job it takes off the queue that is still QUEUED has been started in the mode it was
  queued with: it is PENDING with its pipeline running, or FAILED because its start answered with an error;
  a job that was cancelled or removed meanwhile is left as it is. Jobs and queue entries that were not
  served are unchanged, a manager that shuts down serves nobody, and a pass alone ends within the limit.
\<close>

theorem queue_pass_complete:
  assumes "within_limit m"
  shows "\<exists>served. mg_queue m = served @ mg_queue (startQueuedSnapshotJobs E m) \<and>
     (mg_down (startQueuedSnapshotJobs E m) \<or> mg_queue (startQueuedSnapshotJobs E m) = [] \<or>
      0 < mg_limit (startQueuedSnapshotJobs E m) \<and>
      mg_limit (startQueuedSnapshotJobs E m) \<le> int (activeSnapshotJobs (startQueuedSnapshotJobs E m))) \<and>
     (\<forall>k \<in> set served. turn_taken E m k (startQueuedSnapshotJobs E m) \<and> map_get (mg_modes (startQueuedSnapshotJobs E m)) k = None) \<and>
     (\<forall>k. k \<notin> set served \<longrightarrow> map_get (mg_jobs (startQueuedSnapshotJobs E m)) k = map_get (mg_jobs m) k \<and>
        map_get (mg_modes (startQueuedSnapshotJobs E m)) k = map_get (mg_modes m) k) \<and>
     (mg_down m \<longrightarrow> served = []) \<and> within_limit (startQueuedSnapshotJobs E m)"
proof -
  let ?m = "m\<lparr>mg_kick := False\<rparr>" and ?m' = "startQueuedSnapshotJobs E m"
  have h: "holds_slot ?m = holds_slot m" by (rule ext, rule holds_slot_cong) simp_all
  have w: "within_limit ?m" using assms by (simp add: within_limit_def activeSnapshotJobs_def h)
  then have ok: "manager_ok ?m" by (simp add: within_limit_def)
  have same: "turn_taken E ?m k m' = turn_taken E m k m'" for k m'
    using turn_taken_earlier [of E ?m k m' m] turn_taken_earlier [of E m k m' ?m] by auto
  obtain served where s: "queue_blocked ?m'" "pass_from E ?m served ?m'"
    using queue_loop_pass [OF ok, of "length (mg_queue m)" E] unfolding startQueuedSnapshotJobs_def by auto
  have "within_limit ?m'" using queue_loop_within [OF w] by (simp add: startQueuedSnapshotJobs_def)
  moreover have "served = []" if "mg_down m"
  proof -
    have "?m' = ?m" unfolding startQueuedSnapshotJobs_def
      by (cases "length (mg_queue m)") (simp_all add: queue_blocked_def that)
    then show ?thesis using s(2) by (simp add: pass_from_def)
  qed
  ultimately show ?thesis using s unfolding pass_from_def same
    by (intro exI [of _ served]) (auto simp: queue_blocked_def hasSnapshotSlot_def)
qed


definition waiting_manager :: manager where
  "waiting_manager = (sample_manager WorkerRoleAll [(''a'', sample_managed ''a'' JobModeInitial JobStatusQueued)] None)
     \<lparr>mg_queue := [''a''], mg_modes := [(''a'', JobModeInitial)]\<rparr>"

lemma waiting_manager_within: "within_limit waiting_manager"
  by (auto simp: within_limit_def manager_ok_def waiting_manager_def sample_manager_def sample_managed_def NewJob_def
      job_id_def map_get_def activeSnapshotJobs_def holds_slot_def snapshotGateApplies_def split: if_splits)

lemma waiting_slot: "hasSnapshotSlot (waiting_manager\<lparr>mg_kick := False\<rparr>)"
  by (simp add: hasSnapshotSlot_def activeSnapshotJobs_def holds_slot_def waiting_manager_def sample_manager_def sample_managed_def)

text \<open>A free slot and one waiting job: the pass serves it, so it is no longer QUEUED.\<close>

theorem queue_pass_complete_witness:
  "mg_queue waiting_manager = [''a''] \<and> map_option jb_status (map_get (mg_jobs waiting_manager) ''a'') = Some JobStatusQueued \<and>
   mg_queue (startQueuedSnapshotJobs sample_menv waiting_manager) = [] \<and>
   map_option jb_status (map_get (mg_jobs (startQueuedSnapshotJobs sample_menv waiting_manager)) ''a'') \<in>
     {Some JobStatusPending, Some JobStatusFailed}"
proof -
  let ?m = waiting_manager and ?m' = "startQueuedSnapshotJobs sample_menv waiting_manager"
  have q: "mg_queue ?m = [''a'']" by (simp add: waiting_manager_def)
  have st: "map_option jb_status (map_get (mg_jobs ?m) ''a'') = Some JobStatusQueued"
    by (simp add: waiting_manager_def sample_manager_def map_get_def sample_managed_def)
  have ok: "manager_ok (?m\<lparr>mg_kick := False\<rparr>)" using waiting_manager_within by (simp add: within_limit_def)
  have "\<not> queue_blocked (?m\<lparr>mg_kick := False\<rparr>)"
    using waiting_slot by (simp add: queue_blocked_def) (simp add: waiting_manager_def sample_manager_def)
  then have "?m' = queue_loop 0 sample_menv (queue_round sample_menv (?m\<lparr>mg_kick := False\<rparr>))"
    by (simp add: startQueuedSnapshotJobs_def q)
  then have e: "mg_queue ?m' = []" using queue_round_frame(1) [OF ok] q by simp
  from queue_pass_complete [OF waiting_manager_within, of sample_menv] have "turn_taken sample_menv ?m ''a'' ?m'"
    unfolding q e by fastforce
  then show ?thesis using q st e by (auto simp: turn_taken_def split: option.splits)
qed

section \<open>Operations on one job\<close>

text \<open>\<open>others k m m'\<close>: nothing but the entries of job \<open>k\<close> differs, and the order of the queue is kept.\<close>

definition others :: "string \<Rightarrow> manager \<Rightarrow> manager \<Rightarrow> bool" where
  "others k m m' \<longleftrightarrow> mg_role m' = mg_role m \<and> mg_limit m' = mg_limit m \<and> mg_down m' = mg_down m \<and> mg_worker m' = mg_worker m \<and>
     filter (\<lambda>kj. fst kj \<noteq> k) (mg_jobs m') = filter (\<lambda>kj. fst kj \<noteq> k) (mg_jobs m) \<and>
     filter (\<lambda>q. q \<noteq> k) (mg_queue m') = filter (\<lambda>q. q \<noteq> k) (mg_queue m) \<and>
     removeAll k (mg_starting m') = removeAll k (mg_starting m) \<and>
     (\<forall>x. x \<noteq> k \<longrightarrow> map_get (mg_modes m') x = map_get (mg_modes m) x \<and> map_get (mg_exec m') x = map_get (mg_exec m) x \<and>
        map_get (mg_leases m') x = map_get (mg_leases m) x)"

lemma others_refl [simp, intro]: "others k m m"
  by (simp add: others_def)

lemma others_trans [trans]: "others k a b \<Longrightarrow> others k b c \<Longrightarrow> others k a c"
  by (simp add: others_def)

lemma quiet_others: "quiet k a b \<Longrightarrow> others k a b"
  by (simp add: quiet_def others_def)

lemma filter_key_delete: "filter (\<lambda>kj. fst kj \<noteq> k) (map_delete k xs) = filter (\<lambda>kj. fst kj \<noteq> k) xs"
  unfolding map_delete_def filter_filter by (rule filter_cong) auto

lemma others_steps [simp, intro]:
  "others k m (set_job k j m)" "others k m (add_starting k m)" "others k m (drop_starting k m)"
  "others k m (removeSnapshotQueue k m)" "others k m (enqueueSnapshotJob k mode m)" "others k m (forget_job k m)"
  using filter_other_put [of k "\<lambda>_. True" j "mg_jobs m"] filter_key_delete [of k "mg_jobs m"]
  by (auto simp: others_def set_job_def add_starting_def drop_starting_def removeSnapshotQueue_def enqueueSnapshotJob_def
      forget_job_def)

lemma others_updates [simp]:
  "others k m (m'\<lparr>mg_kick := b\<rparr>) = others k m m'" "others k m (m'\<lparr>mg_deferred := z\<rparr>) = others k m m'"
  "others k m (m'\<lparr>mg_active := a\<rparr>) = others k m m'" "others k m (m'\<lparr>mg_deleting := d\<rparr>) = others k m m'"
  "others k m (m'\<lparr>mg_db := db\<rparr>) = others k m m'" "others k m (m'\<lparr>mg_drains := dr\<rparr>) = others k m m'"
  by (simp_all add: others_def)

lemma others_put_exec: "others k m m' \<Longrightarrow> others k m (m'\<lparr>mg_exec := map_put k r (mg_exec m')\<rparr>)"
  by (simp add: others_def)

lemma others_delete_entries:
  "others k m m' \<Longrightarrow> others k m (m'\<lparr>mg_jobs := map_delete k (mg_jobs m'), mg_exec := map_delete k (mg_exec m')\<rparr>)"
  by (simp add: others_def filter_key_delete)

lemma map_get_filter_key: "x \<noteq> k \<Longrightarrow> map_get (filter (\<lambda>kj. fst kj \<noteq> k) xs) x = map_get xs x"
  by (induction xs) (auto simp: map_get_def)

lemma others_lookup: "others k m m' \<Longrightarrow> x \<noteq> k \<Longrightarrow> map_get (mg_jobs m') x = map_get (mg_jobs m) x"
  unfolding others_def by (metis map_get_filter_key)

lemma others_slots: "others k m m' \<Longrightarrow> slots_without k m' = slots_without k m"
proof -
  assume o: "others k m m'"
  have "filter (\<lambda>kj. fst kj \<noteq> k \<and> holds_slot m' kj) (mg_jobs m') = filter (holds_slot m') (filter (\<lambda>kj. fst kj \<noteq> k) (mg_jobs m'))"
    by (simp add: conj_commute)
  also have "\<dots> = filter (holds_slot m') (filter (\<lambda>kj. fst kj \<noteq> k) (mg_jobs m))" using o by (simp add: others_def)
  also have "\<dots> = filter (\<lambda>kj. fst kj \<noteq> k \<and> holds_slot m kj) (mg_jobs m)"
    unfolding filter_filter
  proof (rule filter_cong [OF refl])
    fix x
    have "fst x \<noteq> k \<Longrightarrow> holds_slot m' x = holds_slot m x" using o by (intro holds_slot_cong) (auto simp: others_def)
    then show "(fst x \<noteq> k \<and> holds_slot m' x) = (fst x \<noteq> k \<and> holds_slot m x)" by blast
  qed
  finally show ?thesis using o by (simp add: slots_without_def others_def)
qed

text \<open>The two ends of \<open>startJob\<close>: the job is kept with its outcome, or removed with everything it had.\<close>

definition removed_job :: "manager_env \<Rightarrow> string \<Rightarrow> job \<Rightarrow> manager \<Rightarrow> manager" where
  "removed_job E k j m =
     snd (snd (deletePersistedJobForJob E (requestStop (me_wall E) (setListeners False j)) k
       (drop_starting k (removeSnapshotQueue k (forget_job k m)))))"

lemma removed_job_effect:
  assumes "manager_ok m"
  shows "others k m (removed_job E k j m)" "manager_ok (removed_job E k j m)"
    "map_get (mg_jobs (removed_job E k j m)) k = None" "map_get (mg_exec (removed_job E k j m)) k = None"
    "map_get (mg_leases (removed_job E k j m)) k = None" "k \<notin> set (mg_queue (removed_job E k j m))"
    "k \<notin> set (mg_starting (removed_job E k j m))"
proof -
  let ?m1 = "drop_starting k (removeSnapshotQueue k (forget_job k m))"
  obtain e j' m' where d: "deletePersistedJobForJob E (requestStop (me_wall E) (setListeners False j)) k ?m1 = (e, j', m')"
    by (metis prod_cases3)
  then have r: "removed_job E k j m = m'" by (simp add: removed_job_def)
  have q: "quiet k ?m1 m'" using deletePersistedJobForJob_quiet [OF d] by blast
  have db: "\<exists>d. m' = ?m1\<lparr>mg_db := d\<rparr>"
    using d by (auto simp: deletePersistedJobForJob_def Let_def split: option.splits intro: exI [of _ "mg_db ?m1"])
  then obtain d where m': "m' = ?m1\<lparr>mg_db := d\<rparr>" by blast
  have "others k m ?m1" using others_trans [OF others_trans] others_steps by blast
  then show "others k m (removed_job E k j m)" using r m' by simp
  show "manager_ok (removed_job E k j m)" using r m' assms by (simp add: ok_steps)
  show "map_get (mg_jobs (removed_job E k j m)) k = None" "map_get (mg_exec (removed_job E k j m)) k = None"
    "map_get (mg_leases (removed_job E k j m)) k = None" "k \<notin> set (mg_queue (removed_job E k j m))"
    "k \<notin> set (mg_starting (removed_job E k j m))"
    unfolding r m' by (simp_all add: drop_starting_def removeSnapshotQueue_def forget_job_def)
qed

lemma quiet_tables:
  "quiet k m m' \<Longrightarrow> mg_queue m' = mg_queue m \<and> mg_modes m' = mg_modes m \<and> mg_starting m' = mg_starting m"
  by (simp add: quiet_def)

lemma startJob_cases:
  assumes "startJob E k mode remove j m0 = (err, m')" "manager_ok m0" "job_id j = k"
  obtains j2 m3 where "quiet k (if snapshotGateApplies m0 (jb_config j) mode then add_starting k m0 else m0) m3" "job_id j2 = k" "jb_config j2 = jb_config j"
    "m' = (let m4 = (if err \<noteq> None \<and> remove then removed_job E k j2 m3 else set_job k j2 m3) in
       if snapshotGateApplies m0 (jb_config j) mode then (drop_starting k m4)\<lparr>mg_kick := True\<rparr> else m4)"
proof -
  define gate where "gate = snapshotGateApplies m0 (jb_config j) mode"
  define m1 where "m1 = (if gate then add_starting k m0 else m0)"
  obtain serr j1 m2 where st: "start_pipeline E k mode j m1 = (serr, j1, m2)" by (metis prod_cases3)
  note s = start_pipeline_quiet [OF st assms(3)]
  have id1: "job_id j1 = k" using s assms(3) by (simp add: job_id_def)
  obtain e ja ma where sv: "saveManagedJobRecordIfCurrent E (jb_status j1) (desiredStateForJobStatus m2 k (jb_status j1))
     (jb_status j1) j1 m2 = (e, ja, ma)" by (metis prod_cases3)
  note v = saveManagedJobRecordIfCurrent_quiet [OF sv]
  have ida: "job_id ja = k" using v id1 kept_job_id by metis
  obtain jb mb where wl: "with_listener E (requestStop (me_wall E)) ja ma = (jb, mb)" by fastforce
  note w = with_listener_quiet [OF wl ida requestStop_config]
  have idb: "job_id jb = k" using w ida by (simp add: kept_def job_id_def)
  define res where "res = (case serr of Some x \<Rightarrow> (Some (ErrStart x), j1, m2)
    | None \<Rightarrow> if e = None then (None, ja, ma) else (e, jb, mb))"
  obtain e2 j2 m3 where r: "res = (e2, j2, m3)" by (metis prod_cases3)
  have q: "quiet k m1 m3" "job_id j2 = k" "jb_config j2 = jb_config j"
    using r s v w id1 ida idb by (auto simp: res_def kept_def split: option.splits if_splits intro: quiet_trans)
  define m4 where "m4 = (if e2 \<noteq> None \<and> remove then removed_job E k j2 m3 else set_job k j2 m3)"
  have rem: "(let m' = drop_starting k (removeSnapshotQueue k (forget_job k m3));
        (_, _, m'') = deletePersistedJobForJob E (requestStop (me_wall E) (setListeners False j2)) k m' in m'') = removed_job E k j2 m3"
    unfolding removed_job_def Let_def by (simp split: prod.splits)
  have "startJob E k mode remove j m0 = (e2, if gate then (drop_starting k m4)\<lparr>mg_kick := True\<rparr> else m4)"
  proof -
    have c: "(case serr of Some x \<Rightarrow> (Some (ErrStart x), j1, m2)
       | None \<Rightarrow> (let st = jb_status j1; (e, j', m') = saveManagedJobRecordIfCurrent E st (desiredStateForJobStatus m2 k st) st j1 m2
           in if e = None then (None, j', m') else let (j'', m'') = with_listener E (requestStop (me_wall E)) j' m' in (e, j'', m''))) = (e2, j2, m3)"
      using r by (auto simp: res_def sv wl Let_def split: option.splits if_splits)
    show ?thesis
      unfolding startJob_def Let_def gate_def [symmetric] unfolding m1_def [symmetric]
      unfolding st prod.case unfolding c [unfolded Let_def] prod.case
      using rem [unfolded Let_def] by (simp add: m4_def)
  qed
  with assms(1) have "err = e2" "m' = (if gate then (drop_starting k m4)\<lparr>mg_kick := True\<rparr> else m4)" by simp_all
  then show thesis using that [of m3 j2] q unfolding m1_def gate_def m4_def by (simp add: Let_def)
qed

lemma startJob_effect:
  assumes "startJob E k mode remove j m0 = (err, m')" "manager_ok m0" "job_id j = k"
  shows "others k m0 m'" "manager_ok m'" "k \<notin> set (mg_starting m0) \<Longrightarrow> k \<notin> set (mg_starting m')"
    "err \<noteq> None \<and> remove \<Longrightarrow> map_get (mg_jobs m') k = None \<and> map_get (mg_exec m') k = None \<and> map_get (mg_leases m') k = None \<and>
       k \<notin> set (mg_queue m')"
    "\<not> (err \<noteq> None \<and> remove) \<Longrightarrow> mg_queue m' = mg_queue m0 \<and> mg_modes m' = mg_modes m0 \<and> (\<exists>j'. map_get (mg_jobs m') k = Some j' \<and> jb_config j' = jb_config j)"
proof -
  obtain j2 m3 where c: "quiet k (if snapshotGateApplies m0 (jb_config j) mode then add_starting k m0 else m0) m3" "job_id j2 = k" "jb_config j2 = jb_config j"
    "m' = (let m4 = (if err \<noteq> None \<and> remove then removed_job E k j2 m3 else set_job k j2 m3) in
       if snapshotGateApplies m0 (jb_config j) mode then (drop_starting k m4)\<lparr>mg_kick := True\<rparr> else m4)"
    by (rule startJob_cases [OF assms])
  define gate where "gate = snapshotGateApplies m0 (jb_config j) mode"
  define m1 where "m1 = (if gate then add_starting k m0 else m0)"
  define m4 where "m4 = (if err \<noteq> None \<and> remove then removed_job E k j2 m3 else set_job k j2 m3)"
  have m': "m' = (if gate then (drop_starting k m4)\<lparr>mg_kick := True\<rparr> else m4)" using c(4) by (simp add: m4_def gate_def Let_def)
  have q: "quiet k m1 m3" using c(1) by (simp add: m1_def gate_def)
  have ok1: "manager_ok m1" using assms(2) by (simp add: m1_def ok_steps)
  have ok3: "manager_ok m3" using quiet_ok [OF q ok1] .
  note rem = removed_job_effect [where k = k and E = E and j = j2, OF ok3]
  have "others k m0 m1" by (simp add: m1_def)
  also have "others k m1 m3" using q by (rule quiet_others)
  also have "others k m3 m4" using rem(1) by (simp add: m4_def)
  also have "others k m4 m'" by (simp add: m')
  finally show "others k m0 m'" .
  have ok4: "manager_ok m4" using rem(2) ok3 c(2) by (simp add: m4_def ok_steps)
  then show "manager_ok m'" by (simp add: m' ok_steps)
  have s3: "mg_starting m3 = mg_starting m1" "mg_queue m3 = mg_queue m0" "mg_modes m3 = mg_modes m0"
    using quiet_tables [OF q] by (simp_all add: m1_def add_starting_def)
  show "k \<notin> set (mg_starting m0) \<Longrightarrow> k \<notin> set (mg_starting m')"
    using s3(1) rem(7) by (auto simp: m' m4_def m1_def set_job_def)
  show "err \<noteq> None \<and> remove \<Longrightarrow> map_get (mg_jobs m') k = None \<and> map_get (mg_exec m') k = None \<and> map_get (mg_leases m') k = None \<and>
       k \<notin> set (mg_queue m')"
    using rem(3-6) by (simp add: m' m4_def drop_starting_def)
  show "\<not> (err \<noteq> None \<and> remove) \<Longrightarrow> mg_queue m' = mg_queue m0 \<and> mg_modes m' = mg_modes m0 \<and> (\<exists>j'. map_get (mg_jobs m') k = Some j' \<and> jb_config j' = jb_config j)"
    using s3 c(3) by (auto simp: m' m4_def drop_starting_def set_job_def)
qed


lemma with_listener_others:
  assumes "with_listener E f j m = (j', m')" "job_id j = k" "\<And>x. jb_config (f x) = jb_config x"
  shows "others k m (set_job k j' m')" "mg_queue m' = mg_queue m" "mg_starting m' = mg_starting m"
proof -
  have "quiet k m m'" using with_listener_quiet [OF assms] by blast
  then show "others k m (set_job k j' m')" "mg_queue m' = mg_queue m" "mg_starting m' = mg_starting m"
    using others_trans quiet_others others_steps(1) by (blast, simp_all add: quiet_def)
qed

lemma active_without:
  assumes "manager_ok m" "k \<notin> set (mg_starting m)" "\<And>j. map_get (mg_jobs m) k = Some j \<Longrightarrow> \<not> holds_slot m (k, j)"
  shows "activeSnapshotJobs m = slots_without k m"
proof -
  have "filter (\<lambda>kj. fst kj = k \<and> holds_slot m kj) (mg_jobs m) = []"
    using assms(1,3) by (auto simp: filter_empty_conv manager_ok_def map_get_def)
  moreover have "removeAll k (mg_starting m) = mg_starting m" using assms(2) by (simp add: removeAll_id)
  ultimately show ?thesis using filter_split [of "holds_slot m" "mg_jobs m" k]
    by (simp add: activeSnapshotJobs_def slots_without_def)
qed

text \<open>No start is in flight.\<close>

definition settled :: "manager \<Rightarrow> bool" where
  "settled m \<longleftrightarrow> within_limit m \<and> mg_starting m = []"

lemma others_starting: "others k m m' \<Longrightarrow> mg_starting m = [] \<Longrightarrow> k \<notin> set (mg_starting m') \<Longrightarrow> mg_starting m' = []"
  by (metis others_def removeAll.simps(1) removeAll_id)

text \<open>A job that takes no slot leaves the manager within the limit.\<close>

lemma no_slot_taken:
  assumes "settled m" "others k m m'" "manager_ok m'" "k \<notin> set (mg_starting m')"
    "\<And>j. map_get (mg_jobs m') k = Some j \<Longrightarrow> \<not> holds_slot m' (k, j)"
  shows "settled m'"
proof -
  have "activeSnapshotJobs m' = slots_without k m" using active_without [OF assms(3,4,5)] others_slots [OF assms(2)] by simp
  also have "\<dots> \<le> activeSnapshotJobs m" by (rule slots_le_active)
  finally have "within_limit m'" using assms(1,2,3) by (auto simp: settled_def within_limit_def others_def)
  moreover have "mg_starting m' = []" using others_starting [OF assms(2)] assms(1,4) by (simp add: settled_def)
  ultimately show ?thesis by (simp add: settled_def)
qed

lemma slot_taken_settled:
  assumes "hasSnapshotSlot m" "settled m" "others k m m'" "manager_ok m'" "k \<notin> set (mg_starting m')"
  shows "settled m'"
proof -
  have "mg_limit m' = mg_limit m" using assms(3) by (simp add: others_def)
  then have "within_limit m'" using slot_taken [OF assms(1) _ _ assms(4,5)] others_slots [OF assms(3)] by simp
  moreover have "mg_starting m' = []" using others_starting [OF assms(3)] assms(2,5) by (simp add: settled_def)
  ultimately show ?thesis by (simp add: settled_def)
qed

lemma mark_queued_status [simp]: "jb_status (mark_queued E info j) = JobStatusQueued"
  by (simp add: mark_queued_def updateProgress_def setStatus_def Let_def)

lemma queued_holds_nothing: "jb_status j \<notin> {JobStatusPending, JobStatusRunning, JobStatusPausing} \<Longrightarrow> \<not> holds_slot m (k, j)"
  by (simp add: holds_slot_def)

lemma requestStop_status: "jb_status (requestStop now j) \<in> {JobStatusDone, JobStatusFailed, JobStatusStopped}"
  by (auto simp: requestStop_def setStatus_def Let_def)

section \<open>Submission is all or nothing\<close>

lemma NewJob_id [simp]: "job_id (NewJob u now (Some c) reg) = jc_id c"
  by (simp add: NewJob_def job_id_def)

lemma NewJob_fields [simp]: "jb_config (NewJob u now cfg reg) = cfg" "jb_status (NewJob u now cfg reg) = JobStatusCreated"
  by (simp_all add: NewJob_def)

lemma job_id_wrappers [simp]: "job_id (setListeners on j) = job_id j" "job_id (mark_queued E info j) = job_id j"
  by (simp_all add: job_id_def)

definition fresh_entry :: "manager_env \<Rightarrow> string \<Rightarrow> job_config \<Rightarrow> manager \<Rightarrow> job \<times> manager" where
  "fresh_entry E role c m = (let j = NewJob (me_uuid E (jc_id c)) (me_wall E) (Some c) True in
     (j, (set_job (jc_id c) j m)\<lparr>mg_exec := map_put (jc_id c) role (mg_exec m)\<rparr>))"

lemma Submit_cases:
  assumes "Submit E raw m = (r, m')"
  obtains (refused) e where "r = Inl e" "m' = m"
  | (admitted) c role j m1 where "\<not> mg_down m" "jc_id c \<notin> set (mg_deleting m)" "map_get (mg_jobs m) (jc_id c) = None"
      "fresh_entry E role c m = (j, m1)"
      "(r, m') = submit_to_worker E (jc_id c) role j m1 \<or>
       (r, m') = submit_queued E (jc_id c) (jc_mode c) j m1 \<or>
       \<not> shouldQueueSnapshotStart m1 j (jc_mode c) \<and> (r, m') = submit_started E (jc_id c) (jc_mode c) j m1"
proof (cases "normalizeConfig m raw")
  case None
  then show thesis using assms refused by (auto simp: Submit_def)
next
  case (Some c)
  note def = assms [unfolded Submit_def Some option.case Let_def]
  show thesis
  proof (cases "jc_mode c = JobModeMaintenanceOnly \<or> validateSnapshotOnlyCountResume (Some c) \<noteq> None \<or> mg_down m \<or>
      jc_id c \<in> set (mg_deleting m) \<or> map_get (mg_jobs m) (jc_id c) \<noteq> None")
    case True
    have "\<exists>e. r = Inl e \<and> m' = m" using def True by (fastforce split: option.splits if_splits)
    then show thesis using refused by blast
  next
    case False
    define role where "role = (if mg_role m = WorkerRoleAll then JobExecutionRoleAll else executionRoleForConfig (Some c))"
    obtain j m1 where f: "fresh_entry E role c m = (j, m1)" by fastforce
    then have j: "NewJob (me_uuid E (jc_id c)) (me_wall E) (Some c) True = j"
      "(set_job (jc_id c) j m)\<lparr>mg_exec := map_put (jc_id c) role (mg_exec m)\<rparr> = m1" by (auto simp: fresh_entry_def Let_def)
    have ids: "jc_mode c \<noteq> JobModeMaintenanceOnly" "validateSnapshotOnlyCountResume (Some c) = None" "\<not> mg_down m"
      "jc_id c \<notin> set (mg_deleting m)" "map_get (mg_jobs m) (jc_id c) = None" using False by auto
    have "(r, m') = (if mg_role m \<noteq> WorkerRoleAll then submit_to_worker E (jc_id c) role j m1
        else if shouldQueueSnapshotStart m1 j (jc_mode c) then submit_queued E (jc_id c) (jc_mode c) j m1
        else submit_started E (jc_id c) (jc_mode c) j m1)"
      using def ids unfolding role_def [symmetric] j by simp
    then show thesis using admitted [OF ids(3,4,5) f] by (auto split: if_splits)
  qed
qed

lemma fresh_entry_effect:
  assumes "fresh_entry E role c m = (j, m1)" "manager_ok m"
  shows "job_id j = jc_id c" "jb_config j = Some c" "others (jc_id c) m m1" "manager_ok m1"
    "mg_queue m1 = mg_queue m" "mg_starting m1 = mg_starting m" "map_get (mg_jobs m1) (jc_id c) = Some j" "jb_status j = JobStatusCreated"
proof -
  let ?j = "NewJob (me_uuid E (jc_id c)) (me_wall E) (Some c) True"
  have j: "j = ?j" and m1: "m1 = (set_job (jc_id c) ?j m)\<lparr>mg_exec := map_put (jc_id c) role (mg_exec m)\<rparr>"
    using assms(1) by (auto simp: fresh_entry_def Let_def)
  have same: "mg_exec (set_job (jc_id c) ?j m) = mg_exec m" by (simp add: set_job_def)
  show "others (jc_id c) m m1" using others_put_exec [OF others_steps(1)] unfolding m1 by (metis same)
  show "manager_ok m1" unfolding m1 using set_job_ok [OF assms(2), of ?j] by simp
  show "job_id j = jc_id c" "jb_config j = Some c" "mg_queue m1 = mg_queue m" "mg_starting m1 = mg_starting m"
    "map_get (mg_jobs m1) (jc_id c) = Some j" "jb_status j = JobStatusCreated"
    by (simp_all add: j m1 set_job_def)
qed

text \<open>
  What each end of a submission leaves for the job. \<open>no_strays\<close>: only jobs of the manager have a role, a
  lease or a place in the queue.
\<close>

definition no_strays :: "manager \<Rightarrow> bool" where
  "no_strays m \<longleftrightarrow> (\<forall>k. map_get (mg_jobs m) k = None \<longrightarrow>
     map_get (mg_exec m) k = None \<and> map_get (mg_leases m) k = None \<and> map_get (mg_modes m) k = None \<and> k \<notin> set (mg_queue m))"

definition submitted_ok :: "manager \<Rightarrow> string \<Rightarrow> manager_error + job \<Rightarrow> manager \<Rightarrow> bool" where
  "submitted_ok m k r m' \<longleftrightarrow> others k m m' \<and> manager_ok m' \<and> (mg_starting m = [] \<longrightarrow> mg_starting m' = []) \<and>
     (case r of Inl _ \<Rightarrow> map_get (mg_jobs m') k = None \<and> map_get (mg_exec m') k = None \<and>
         (map_get (mg_leases m) k = None \<longrightarrow> map_get (mg_leases m') k = None) \<and>
         (k \<notin> set (mg_queue m) \<longrightarrow> k \<notin> set (mg_queue m'))
      | Inr j \<Rightarrow> job_id j = k \<and> map_get (mg_jobs m') k = Some j)"

lemma submit_to_worker_ok:
  assumes "submit_to_worker E k role j m = (r, m')" "manager_ok m" "job_id j = k"
  shows "submitted_ok m k r m'" "\<And>x. map_get (mg_jobs m') k = Some x \<Longrightarrow> jb_status x = JobStatusQueued"
proof -
  let ?j = "setListeners True (mark_queued E (worker_info role) j)"
  obtain e j1 m1 where sv: "saveManagedJobRecord E DesiredStateRunning JobStatusQueued ?j m = (e, j1, m1)" by (metis prod_cases3)
  have q: "quiet k m m1" "kept ?j j1" using saveManagedJobRecord_quiet [OF sv] by blast+
  have ok: "manager_ok m1" using quiet_ok [OF q(1) assms(2)] .
  have id: "job_id j1 = k" using kept_job_id [OF q(2)] assms(3) by simp
  have st: "jb_status j1 = JobStatusQueued" using q(2) by (simp add: kept_def setListeners_def)
  have o: "others k m m1" using q(1) by (rule quiet_others)
  have leases: "mg_leases m1 = mg_leases m" using saveManagedJobRecord_db [OF sv] by auto
  have "submitted_ok m k r m' \<and> (\<forall>x. map_get (mg_jobs m') k = Some x \<longrightarrow> jb_status x = JobStatusQueued)"
  proof (cases e)
    case None
    then have "r = Inr j1" "m' = set_job k j1 m1" using assms(1) sv by (simp_all add: submit_to_worker_def)
    then show ?thesis using set_job_ok [OF ok id] others_trans [OF o others_steps(1)] id st quiet_tables [OF q(1)]
      by (simp add: submitted_ok_def set_job_def)
  next
    case (Some a)
    then have r: "r = Inl a" "m' = m1\<lparr>mg_jobs := map_delete k (mg_jobs m1), mg_exec := map_delete k (mg_exec m1)\<rparr>"
      using assms(1) sv by (simp_all add: submit_to_worker_def)
    have "manager_ok m'" using ok unfolding r by (simp add: manager_ok_def)
    then show ?thesis using others_delete_entries [OF o] quiet_tables [OF q(1)] leases unfolding r(1) submitted_ok_def by (simp add: r(2))
  qed
  then show "submitted_ok m k r m'" "\<And>x. map_get (mg_jobs m') k = Some x \<Longrightarrow> jb_status x = JobStatusQueued" by blast+
qed

lemma submit_queued_ok:
  assumes "submit_queued E k mode j m = (r, m')" "manager_ok m" "job_id j = k"
  shows "submitted_ok m k r m'" "\<And>x. map_get (mg_jobs m') k = Some x \<Longrightarrow> jb_status x = JobStatusQueued"
proof -
  let ?m = "enqueueSnapshotJob k mode m"
  obtain j1 m1 where wl: "with_listener E (mark_queued E slot_info) (setListeners True j) ?m = (j1, m1)" by fastforce
  have id: "job_id (setListeners True j) = k" using assms(3) by simp
  note o = with_listener_others [OF wl id mark_queued_config] with_listener_ok [OF wl enqueue_ok [OF assms(2)] id mark_queued_config]
  have st: "jb_status j1 = JobStatusQueued" using with_listener_quiet [OF wl id mark_queued_config] by (simp add: kept_def)
  have r: "r = Inr j1" "m' = set_job k j1 m1" using assms(1) wl by (simp_all add: submit_queued_def)
  have "others k m m'" using others_trans [OF others_steps(5) o(1)] r(2) by simp
  then show "submitted_ok m k r m'" using o r by (simp add: submitted_ok_def set_job_def enqueueSnapshotJob_def)
  show "\<And>x. map_get (mg_jobs m') k = Some x \<Longrightarrow> jb_status x = JobStatusQueued" using r st by (simp add: set_job_def)
qed

lemma submit_started_ok:
  assumes "submit_started E k mode j m = (r, m')" "manager_ok m" "job_id j = k" "mg_starting m = []"
  shows "submitted_ok m k r m'" "\<And>x. map_get (mg_jobs m') k = Some x \<Longrightarrow> jb_config x = jb_config j"
proof -
  let ?m = "m\<lparr>mg_deferred := k # mg_deferred m\<rparr>"
  obtain e m1 where st: "startJob E k mode True (setListeners True j) ?m = (e, m1)" by fastforce
  have ok: "manager_ok ?m" and id: "job_id (setListeners True j) = k" using assms(2,3) by simp_all
  note s = startJob_effect [OF st ok id]
  have o: "others k m m1" using s(1) by (simp add: others_def)
  have "k \<notin> set (mg_starting m1)" using s(3) assms(4) by simp
  then have nil: "mg_starting m1 = []" by (rule others_starting [OF o assms(4)])
  have "submitted_ok m k r m' \<and> (\<forall>x. map_get (mg_jobs m') k = Some x \<longrightarrow> jb_config x = jb_config j)"
  proof (cases e)
    case None
    then obtain j' where j': "map_get (mg_jobs m1) k = Some j'" "jb_config j' = jb_config j" using s(5) by auto
    then have r: "r = Inr j'" "m' = finishDeferredFailureNotification E j' True m1"
      using assms(1) st None by (simp_all add: submit_started_def)
    have q: "quiet k m1 m'" by (simp add: r)
    have "job_id j' = k" using s(2) j'(1) by (simp add: manager_ok_def)
    moreover have "manager_ok m'" using quiet_ok [OF q s(2)] .
    moreover have "others k m m'" using others_trans [OF o quiet_others [OF q]] .
    moreover have "mg_jobs m' = mg_jobs m1" "mg_starting m' = []" using q nil by (simp_all add: quiet_def)
    ultimately show ?thesis using j' by (simp add: submitted_ok_def r(1))
  next
    case (Some a)
    then have r: "r = Inl a" "m' = m1\<lparr>mg_deferred := removeAll k (mg_deferred m1)\<rparr>"
      using assms(1) st by (simp_all add: submit_started_def)
    have gone: "map_get (mg_jobs m1) k = None" "map_get (mg_exec m1) k = None" "map_get (mg_leases m1) k = None"
      "k \<notin> set (mg_queue m1)" using s(4) Some by auto
    show ?thesis using o s(2) gone nil unfolding r(1) submitted_ok_def by (simp add: r(2))
  qed
  then show "submitted_ok m k r m'" "\<And>x. map_get (mg_jobs m') k = Some x \<Longrightarrow> jb_config x = jb_config j" by blast+
qed

lemma submitted_ok_trans:
  assumes "fresh_entry E role c m = (j, m1)" "manager_ok m" "submitted_ok m1 (jc_id c) r m'"
  shows "submitted_ok m (jc_id c) r m'"
proof -
  have "mg_leases m1 = mg_leases m" using assms(1) by (auto simp: fresh_entry_def Let_def set_job_def)
  then show ?thesis using fresh_entry_effect [OF assms(1,2)] assms(3) others_trans
    unfolding submitted_ok_def by (auto split: sum.splits)
qed

lemma others_tables:
  assumes "others k m m'" "x \<noteq> k"
  shows "map_get (mg_jobs m') x = map_get (mg_jobs m) x \<and> map_get (mg_exec m') x = map_get (mg_exec m) x \<and>
    map_get (mg_leases m') x = map_get (mg_leases m) x \<and> map_get (mg_modes m') x = map_get (mg_modes m) x"
  using assms others_lookup [OF assms] by (simp add: others_def)

text \<open>
  C19: a submission is all or nothing, for a manager in which no start is in flight and only its jobs have a
  role, a lease or a place in the queue. A refused submission leaves every table as it found it: the jobs, the
  execution roles, the leases, the queue and its modes are unchanged, entry by entry. A job is accepted only
  when the manager is not shutting down and its id is neither in use nor being deleted, so no submission
  replaces a job; it is then the manager's job of that id, and the entries of every other job and the order
  of the queue are as before.
\<close>

theorem submission_all_or_nothing:
  assumes "manager_ok m" "no_strays m" "mg_starting m = []" "Submit E raw m = (r, m')"
  shows "manager_ok m' \<and> mg_starting m' = [] \<and>
     (case r of
        Inl e \<Rightarrow> mg_queue m' = mg_queue m \<and>
          (\<forall>k. map_get (mg_jobs m') k = map_get (mg_jobs m) k \<and> map_get (mg_exec m') k = map_get (mg_exec m) k \<and>
             map_get (mg_leases m') k = map_get (mg_leases m) k \<and> map_get (mg_modes m') k = map_get (mg_modes m) k)
      | Inr j \<Rightarrow> \<not> mg_down m \<and> job_id j \<notin> set (mg_deleting m) \<and> map_get (mg_jobs m) (job_id j) = None \<and>
          map_get (mg_jobs m') (job_id j) = Some j \<and> filter (\<lambda>k. k \<noteq> job_id j) (mg_queue m') = mg_queue m \<and>
          (\<forall>k. k \<noteq> job_id j \<longrightarrow> map_get (mg_jobs m') k = map_get (mg_jobs m) k \<and>
             map_get (mg_exec m') k = map_get (mg_exec m) k \<and> map_get (mg_leases m') k = map_get (mg_leases m) k \<and>
             map_get (mg_modes m') k = map_get (mg_modes m) k))"
  using assms(4)
proof (cases rule: Submit_cases)
  case (refused e)
  then show ?thesis using assms(1,3) by simp
next
  case (admitted c role j m1)
  let ?k = "jc_id c"
  note f = fresh_entry_effect [OF admitted(4) assms(1)]
  have "submitted_ok m1 ?k r m'"
    using admitted(5) submit_to_worker_ok(1) [OF _ f(4,1)] submit_queued_ok(1) [OF _ f(4,1)] submit_started_ok(1) [OF _ f(4,1)]
      f(6) assms(3) by metis
  then have s: "submitted_ok m ?k r m'" by (rule submitted_ok_trans [OF admitted(4) assms(1)])
  have stray: "map_get (mg_exec m) ?k = None" "map_get (mg_leases m) ?k = None" "map_get (mg_modes m) ?k = None" "?k \<notin> set (mg_queue m)"
    using assms(2) admitted(3) by (simp_all add: no_strays_def)
  have o: "others ?k m m'" and ok: "manager_ok m'" and st: "mg_starting m' = []" using s assms(3) by (simp_all add: submitted_ok_def)
  have q: "filter (\<lambda>q. q \<noteq> ?k) (mg_queue m') = mg_queue m"
    using o stray(4) unfolding others_def by (metis (mono_tags, lifting) filter_True)
  show ?thesis
  proof (cases r)
    case (Inl e)
    then have gone: "map_get (mg_jobs m') ?k = None" "map_get (mg_exec m') ?k = None" "map_get (mg_leases m') ?k = None"
      "?k \<notin> set (mg_queue m')" using s stray by (simp_all add: submitted_ok_def)
    then have "map_get (mg_modes m') ?k = None" using ok by (auto simp: manager_ok_def)
    moreover have "mg_queue m' = mg_queue m" using q gone(4) by (metis (mono_tags, lifting) filter_True)
    moreover have "map_get (mg_jobs m') k = map_get (mg_jobs m) k \<and> map_get (mg_exec m') k = map_get (mg_exec m) k \<and>
             map_get (mg_leases m') k = map_get (mg_leases m) k \<and> map_get (mg_modes m') k = map_get (mg_modes m) k" for k
      using others_tables [OF o, of k] gone stray admitted(3) \<open>map_get (mg_modes m') ?k = None\<close> by (cases "k = ?k") simp_all
    ultimately show ?thesis using Inl ok st by simp
  next
    case (Inr a)
    then have "job_id a = ?k" "map_get (mg_jobs m') ?k = Some a" using s by (simp_all add: submitted_ok_def)
    then show ?thesis using Inr ok st q others_tables [OF o] admitted(1,2,3) by simp
  qed
qed


definition new_config :: "job_config option" where
  "new_config = Some (zero_config\<lparr>jc_id := ''b'', jc_mode := JobModeInitial\<rparr>)"

lemma waiting_manager_ok: "manager_ok waiting_manager" "mg_starting waiting_manager = []"
  using waiting_manager_within by (simp_all add: within_limit_def waiting_manager_def sample_manager_def)

lemma waiting_no_strays: "no_strays waiting_manager"
  by (auto simp: no_strays_def waiting_manager_def sample_manager_def map_get_def)

theorem submission_all_or_nothing_witness:
  "manager_ok (snd (Submit sample_menv new_config waiting_manager)) \<and>
   (let m' = snd (Submit sample_menv new_config (waiting_manager\<lparr>mg_down := True\<rparr>)) in
    map_get (mg_jobs m') ''b'' = None \<and> map_get (mg_exec m') ''b'' = None \<and> mg_queue m' = [''a''])"
proof -
  obtain r m1 where 1: "Submit sample_menv new_config waiting_manager = (r, m1)" by fastforce
  let ?down = "waiting_manager\<lparr>mg_down := True\<rparr>"
  obtain r2 m2 where 2: "Submit sample_menv new_config ?down = (r2, m2)" by fastforce
  have none: "map_get (mg_jobs waiting_manager) ''b'' = None" "map_get (mg_exec waiting_manager) ''b'' = None" "mg_queue waiting_manager = [''a'']"
    by (simp_all add: waiting_manager_def sample_manager_def map_get_def)
  have down: "manager_ok ?down" "no_strays ?down" "mg_starting ?down = []"
    using waiting_manager_ok waiting_no_strays by (simp_all add: no_strays_def)
  have "\<exists>e. r2 = Inl e" using 2 by (rule Submit_cases) simp_all
  then show ?thesis
    using submission_all_or_nothing [OF waiting_manager_ok(1) waiting_no_strays waiting_manager_ok(2) 1]
      submission_all_or_nothing [OF down 2] 1 2 none
    by auto
qed

section \<open>The limit under admission\<close>

lemma within_limit_kick: "within_limit (m\<lparr>mg_kick := False\<rparr>) = within_limit m"
proof -
  have "holds_slot (m\<lparr>mg_kick := False\<rparr>) = holds_slot m" by (rule ext, rule holds_slot_cong) simp_all
  then show ?thesis by (simp add: within_limit_def activeSnapshotJobs_def)
qed

lemma queue_loop_limit: "manager_ok m \<Longrightarrow> mg_limit (queue_loop n E m) = mg_limit m"
proof (induction n E m rule: queue_loop.induct)
  case (2 n E m)
  then show ?case using queue_round_ok [OF "2.prems"] queue_round_frame(2) [OF "2.prems"]
    by (auto simp: queue_blocked_def)
qed simp

lemma hasSnapshotSlot_cong: "activeSnapshotJobs m' = activeSnapshotJobs m \<Longrightarrow> mg_limit m' = mg_limit m \<Longrightarrow> hasSnapshotSlot m' = hasSnapshotSlot m"
  by (simp add: hasSnapshotSlot_def)

lemma submit_started_settled:
  assumes "submit_started E k (jc_mode c) j m = (r, m')" "settled m" "job_id j = k" "jb_config j = Some c"
    "\<not> shouldQueueSnapshotStart m j (jc_mode c)"
  shows "settled m'"
proof -
  have base: "manager_ok m" "mg_starting m = []" using assms(2) by (simp_all add: settled_def within_limit_def)
  note s = submit_started_ok [OF assms(1) base(1) assms(3) base(2)]
  have o: "others k m m'" "manager_ok m'" "k \<notin> set (mg_starting m')" using s(1) base(2) by (simp_all add: submitted_ok_def)
  show ?thesis
  proof (cases "hasSnapshotSlot m")
    case True
    then show ?thesis by (rule slot_taken_settled [OF _ assms(2) o])
  next
    case False
    then have "\<not> snapshotGateApplies m (Some c) (jc_mode c)" using assms(4,5) by (simp add: shouldQueueSnapshotStart_def)
    then have g: "\<not> snapshotGateApplies m' (Some c) (jc_mode c)" using o(1) by (simp add: snapshotGateApplies_def others_def)
    have "\<not> holds_slot m' (k, x)" if "map_get (mg_jobs m') k = Some x" for x
      using s(2) [OF that] assms(4) g by (simp add: holds_slot_def config_mode_def)
    then show ?thesis using no_slot_taken [OF assms(2) o] by blast
  qed
qed

lemma Submit_settled:
  assumes "Submit E raw m = (r, m')" "settled m"
  shows "settled m'"
  using assms(1)
proof (cases rule: Submit_cases)
  case (admitted c role j m1)
  have base: "manager_ok m" "mg_starting m = []" using assms(2) by (simp_all add: settled_def within_limit_def)
  note f = fresh_entry_effect [OF admitted(4) base(1)]
  have s1: "settled m1"
    by (rule no_slot_taken [OF assms(2) f(3,4)]) (use f(6-8) base(2) in \<open>auto simp: holds_slot_def\<close>)
  have quiet_end: "settled m'" if "submitted_ok m1 (jc_id c) r m'" "\<And>x. map_get (mg_jobs m') (jc_id c) = Some x \<Longrightarrow> jb_status x = JobStatusQueued"
    by (rule no_slot_taken [OF s1, of "jc_id c"])
      (use that f(6) base(2) in \<open>auto simp: submitted_ok_def holds_slot_def\<close>)
  from admitted(5) show ?thesis
  proof (elim disjE conjE)
    assume "(r, m') = submit_to_worker E (jc_id c) role j m1"
    then show ?thesis using quiet_end submit_to_worker_ok [OF _ f(4,1)] by metis
  next
    assume "(r, m') = submit_queued E (jc_id c) (jc_mode c) j m1"
    then show ?thesis using quiet_end submit_queued_ok [OF _ f(4,1)] by metis
  next
    assume "\<not> shouldQueueSnapshotStart m1 j (jc_mode c)" "(r, m') = submit_started E (jc_id c) (jc_mode c) j m1"
    then show ?thesis using submit_started_settled [OF _ s1 f(1,2)] by metis
  qed
qed (use assms in simp)

lemma Cancel_settled:
  assumes "Cancel E k m = (e, m')" "settled m"
  shows "settled m'"
proof -
  have base: "manager_ok m" "mg_starting m = []" using assms(2) by (simp_all add: settled_def within_limit_def)
  show ?thesis
  proof (cases "mg_down m \<or> map_get (mg_jobs m) k = None")
    case True
    then have "m' = m" using assms(1) by (auto simp: Cancel_def split: option.splits if_splits)
    then show ?thesis using assms(2) by simp
  next
    case False
    then obtain j where j: "map_get (mg_jobs m) k = Some j" and up: "\<not> mg_down m" by blast
    have id: "job_id j = k" using j base(1) by (simp add: manager_ok_def)
    define f where "f = (if jb_status j = JobStatusQueued then setStatus (me_wall E) JobStatusStopped else requestStop (me_wall E))"
    define m1 where "m1 = (if jb_status j = JobStatusQueued then removeSnapshotQueue k m else m)"
    obtain j' m2 where wl: "with_listener E f j m1 = (j', m2)" by fastforce
    have m': "m' = set_job k j' m2"
      using assms(1) j up wl by (auto simp: Cancel_def f_def m1_def split: if_splits)
    have cfg: "\<And>x. jb_config (f x) = jb_config x" by (simp add: f_def)
    have o1: "others k m m1" "manager_ok m1" "mg_starting m1 = []" using base removeSnapshotQueue_ok [OF base(1), of k] others_steps(4) [of k m]
      by (auto simp: m1_def removeSnapshotQueue_def)
    have o: "others k m m'" using others_trans [OF o1(1) with_listener_others(1) [OF wl id cfg]] m' by simp
    have ok: "manager_ok m'" using with_listener_ok(3) [OF wl o1(2) id cfg] m' by simp
    have "jb_status j' \<in> {JobStatusDone, JobStatusFailed, JobStatusStopped}"
      using with_listener_quiet [OF wl id cfg] requestStop_status [of "me_wall E" "j\<lparr>jb_calls := []\<rparr>"]
      by (auto simp: kept_def f_def setStatus_def split: if_splits)
    then have "\<not> holds_slot m' (k, x)" if "map_get (mg_jobs m') k = Some x" for x
      using that m' by (auto simp: holds_slot_def set_job_def)
    moreover have "k \<notin> set (mg_starting m')" using with_listener_others(3) [OF wl id cfg] o1(3) m' by (simp add: set_job_def)
    ultimately show ?thesis using no_slot_taken [OF assms(2) o ok] by blast
  qed
qed

text \<open>
  Operations that run one after the other keep the number of active snapshot jobs within the limit. Two
  submissions at once do not: \<open>Submit\<close> enters its job and looks for a free slot in one critical section, and
  \<open>startJob\<close> takes the slot in another. Below, both jobs of a manager with one slot have been entered, both
  checks find the slot free, and both starts take it.
\<close>

lemma sequential_slots: "settled m \<Longrightarrow> settled (snd (Submit E raw m)) \<and> settled (snd (Cancel E k m))"
  using Submit_settled Cancel_settled by (metis prod.collapse)

definition two_submitted :: manager where
  "two_submitted = sample_manager WorkerRoleAll [(''a'', sample_managed ''a'' JobModeInitial JobStatusCreated),
     (''b'', sample_managed ''b'' JobModeInitial JobStatusCreated)] None"

lemma concurrent_submissions_exceed_limit:
  "mg_limit two_submitted = 1 \<and>
   list_all (\<lambda>kj. \<not> shouldQueueSnapshotStart two_submitted (snd kj) JobModeInitial) (mg_jobs two_submitted) \<and>
   activeSnapshotJobs (add_starting ''b'' (add_starting ''a'' two_submitted)) = 2"
  by (simp add: two_submitted_def sample_manager_def sample_managed_def shouldQueueSnapshotStart_def hasSnapshotSlot_def
      activeSnapshotJobs_def holds_slot_def add_starting_def)

end
