(* ===== verification/Control_Plane.thy ===== *)
theory Control_Plane
  imports Manager_Runtime Job_Rebuild
begin

text \<open>
  Lifecycle requests of an API or master process (\<open>pkg/core/control_plane.go\<close>, \<open>fresh_snapshot_recovery.go\<close>,
  \<open>job_name.go\<close>). A job this process leases is handled by the manager itself; any other is controlled
  through its registry row. The text that wraps an error is left out, its identity is kept.

  The lemmas show what a request leaves in the registry and that a refused one changes nothing.
\<close>

section \<open>The request's environment\<close>

text \<open>
  \<open>ce_shared\<close> says whether registry and checkpoints are one database; \<open>ce_store\<close> is the checkpoint
  database when they are not. \<open>ce_binlog\<close> is the answer of the source about the saved checkpoint file.
\<close>

record control_env =
  ce_env :: manager_env
  ce_decoders :: rebuild_decoders
  ce_shared :: bool
  ce_store :: meta_db
  ce_archive :: string
  ce_epoch :: string
  ce_open :: "string \<Rightarrow> string option"
  ce_binlog :: "string \<Rightarrow> string + string"

definition usesDurableControl :: "string \<Rightarrow> manager \<Rightarrow> bool" where
  "usesDurableControl k m \<longleftrightarrow> mg_role m \<noteq> WorkerRoleAll \<and> map_get (mg_leases m) k = None"

definition durable_call :: "manager_env \<Rightarrow> string \<Rightarrow> string \<Rightarrow> manager \<Rightarrow> (meta_db \<Rightarrow> meta_error + 'a) \<Rightarrow> manager_error + 'a" where
  "durable_call E k opn m f =
     (case mg_db m of
        None \<Rightarrow> Inl (ErrInvalid ''remote job lifecycle control requires a JobControlStore'')
      | Some db \<Rightarrow>
          (case me_outage E k opn of
             Some e \<Rightarrow> Inl (ErrStore e)
           | None \<Rightarrow> (case f db of Inl e \<Rightarrow> Inl (ErrStore e) | Inr x \<Rightarrow> Inr x)))"

definition setObservedJobStatus :: "int \<Rightarrow> job_status \<Rightarrow> job \<Rightarrow> job" where
  "setObservedJobStatus now st j = (setStatus now st j)\<lparr>jb_calls := jb_calls j\<rparr>"

definition observed_progress :: "int \<Rightarrow> string \<Rightarrow> string \<Rightarrow> job \<Rightarrow> job" where
  "observed_progress now summary detail j =
     j\<lparr>jb_progress := Some (zero_progress\<lparr>pg_phase := ''queued'', pg_summary := summary, pg_detail := detail\<rparr>), jb_updated := Some now\<rparr>"

definition setObservedQueuedProgress :: "int \<Rightarrow> string \<Rightarrow> job \<Rightarrow> job" where
  "setObservedQueuedProgress now role =
     observed_progress now (''Waiting for '' @ to_lower role @ '' worker'') ''The job will resume from its durable checkpoint''"

definition setObservedFreshSnapshotProgress :: "int \<Rightarrow> job \<Rightarrow> job" where
  "setObservedFreshSnapshotProgress now =
     observed_progress now ''Waiting for snapshot worker'' ''Checkpoint unavailable; restarting the snapshot''"

section \<open>Cancel and pause\<close>

definition cancelDurableJob :: "manager_env \<Rightarrow> string \<Rightarrow> job \<Rightarrow> manager \<Rightarrow> manager_error option \<times> manager" where
  "cancelDurableJob E k j m =
     (if mg_down m then (Some ErrJobManagerShuttingDown, m)
      else case durable_call E k ''STOP'' m (RequestJobStop k (me_now E)) of
        Inl e \<Rightarrow> (Some e, m)
      | Inr (db', updated) \<Rightarrow>
          if updated then (None, set_job k (setObservedJobStatus (me_wall E) JobStatusStopped j) (m\<lparr>mg_db := Some db'\<rparr>))
          else (Some ErrJobNotFound, m\<lparr>mg_db := Some db'\<rparr>))"

definition pauseDurableJob :: "manager_env \<Rightarrow> string \<Rightarrow> job \<Rightarrow> manager \<Rightarrow> manager_error option \<times> manager" where
  "pauseDurableJob E k j m =
     (if mg_down m then (Some ErrJobManagerShuttingDown, m)
      else case durable_call E k ''PAUSE'' m (RequestJobPause k (me_now E)) of
        Inl e \<Rightarrow> (Some e, m)
      | Inr (db', updated) \<Rightarrow>
          if updated then (None, set_job k (setObservedJobStatus (me_wall E) JobStatusPausing j) (m\<lparr>mg_db := Some db'\<rparr>))
          else (case durable_call E k ''CONTROL'' m (LoadJobControl k) of
              Inl e \<Rightarrow> (Some e, m)
            | Inr None \<Rightarrow> (Some ErrJobNotFound, m)
            | Inr (Some _) \<Rightarrow> (Some ErrJobPauseNotAllowed, m)))"

definition RequestCancel :: "manager_env \<Rightarrow> string \<Rightarrow> manager \<Rightarrow> manager_error option \<times> manager" where
  "RequestCancel E k m =
     (case map_get (mg_jobs m) k of
        None \<Rightarrow> (Some ErrJobNotFound, m)
      | Some j \<Rightarrow> if usesDurableControl k m then cancelDurableJob E k j m else Cancel E k m)"

definition RequestPauseJob :: "manager_env \<Rightarrow> string \<Rightarrow> manager \<Rightarrow> manager_error option \<times> manager" where
  "RequestPauseJob E k m =
     (case map_get (mg_jobs m) k of
        None \<Rightarrow> (Some ErrJobNotFound, m)
      | Some j \<Rightarrow> if usesDurableControl k m then pauseDurableJob E k j m else Pause E k m)"

definition RequestRename :: "manager_env \<Rightarrow> string \<Rightarrow> string \<Rightarrow> manager \<Rightarrow> manager_error option \<times> manager" where
  "RequestRename E k raw m =
     (case ValidateJobName raw of
        Inl e \<Rightarrow> (Some (ErrStore e), m)
      | Inr name \<Rightarrow>
     (case map_get (mg_jobs m) k of
        None \<Rightarrow> (Some ErrJobNotFound, m)
      | Some j \<Rightarrow>
          (let named = j\<lparr>jb_display_name := name, jb_updated := Some (me_wall E)\<rparr> in
           if mg_down m then (Some ErrJobManagerShuttingDown, m)
           else if mg_db m = None then (None, set_job k named m)
           else case durable_call E k ''RENAME'' m (RenameJob (me_codec E) k name (me_now E)) of
             Inl e \<Rightarrow> (Some e, m)
           | Inr (db', changed) \<Rightarrow>
               if changed then (None, set_job k named (m\<lparr>mg_db := Some db'\<rparr>)) else (Some ErrJobNotFound, m))))"

section \<open>Pause requests reaching a worker\<close>

fun pause_each :: "manager_env \<Rightarrow> string list \<Rightarrow> manager \<Rightarrow> manager_error option \<times> manager" where
  "pause_each E [] m = (None, m)"
| "pause_each E (k # ks) m =
     (case map_get (mg_jobs m) k of
        None \<Rightarrow> pause_each E ks m
      | Some j \<Rightarrow>
          if map_get (mg_leases m) k = None \<or> jb_status j \<noteq> JobStatusRunning then pause_each E ks m
          else if RequestPause (me_wall E) j = None then (Some (ErrInvalid (''job '' @ k @ '' could not enter graceful pause'')), m)
          else (let (j', m') = with_listener E (try_pause (me_wall E)) j m in pause_each E ks (set_job k j' m')))"

definition applyDurablePauseRequests :: "manager_env \<Rightarrow> manager \<Rightarrow> manager_error option \<times> manager" where
  "applyDurablePauseRequests E m =
     (case durable_call E [] ''PAUSES'' m (LoadJobPauseRequests (mg_worker m) (me_now E)) of
        Inl e \<Rightarrow> (Some e, m)
      | Inr ks \<Rightarrow> pause_each E ks m)"

section \<open>Resubmission\<close>

text \<open>The store and the key of a job; a job without a metadata DSN has no store.\<close>

definition checkpoint_reader :: "control_env \<Rightarrow> job \<Rightarrow> string option \<times> string \<times> job" where
  "checkpoint_reader C j =
     (let dsn = (case jb_config j of None \<Rightarrow> [] | Some c \<Rightarrow> trim_space (jc_meta_dsn c));
          opened = (if dsn = [] then Inr False else case ce_open C (job_id j) of Some e \<Rightarrow> Inl e | None \<Rightarrow> Inr True);
          ((_, key, err), j') = checkpointReader (me_digest (ce_env C)) opened j in (err, key, j'))"

definition jobCheckpointBinlogPurged :: "control_env \<Rightarrow> job \<Rightarrow> bool" where
  "jobCheckpointBinlogPurged C j =
     (case jb_config j of
        None \<Rightarrow> False
      | Some c \<Rightarrow>
          if normalizeMode (jc_mode c) = JobModeSnapshotOnly then False
          else (case ce_binlog C (jc_id c) of Inl _ \<Rightarrow> False | Inr st \<Rightarrow> equal_fold (trim_space st) ''purged''))"

definition checkpoint_db :: "control_env \<Rightarrow> meta_db \<Rightarrow> meta_db" where
  "checkpoint_db C db = (if ce_shared C then db else ce_store C)"

definition jobFreshSnapshotOnResubmit :: "control_env \<Rightarrow> job \<Rightarrow> meta_db \<Rightarrow> (meta_error + bool) \<times> job" where
  "jobFreshSnapshotOnResubmit C j db =
     (case jb_config j of
        None \<Rightarrow> (Inr False, j)
      | Some c \<Rightarrow>
          if \<not> jobCheckpointBinlogPurged C j then (Inr False, j)
          else if fst (pickSink c) \<noteq> ''iceberg_native'' then (Inr True, j)
          else (case checkpoint_reader C j of
              (Some e, _, j1) \<Rightarrow> (Inl (ErrMsg e), j1)
            | (None, key, j1) \<Rightarrow>
                (case checkFreshSnapshotRecovery (jb_store j1) (\<lambda>_. Inr ())
                    (map_option ErrMsg (ValidateIcebergSnapshotRebuild (ce_decoders C) (Some c)))
                    c (jb_submission j1) key (checkpoint_db C db) of
                   Some e \<Rightarrow> (Inl e, j1)
                 | None \<Rightarrow> (Inr True, j1))))"

definition cleanup_blocked :: "meta_error \<Rightarrow> bool" where
  "cleanup_blocked e \<longleftrightarrow> (case e of ErrJobStateCleanupBlocked _ _ \<Rightarrow> True | _ \<Rightarrow> False)"

text \<open>Every refusal of \<open>rebuildPurgedIcebergJob\<close> carries the admission error it was called with.\<close>

definition rebuildPurgedIcebergJob :: "control_env \<Rightarrow> string \<Rightarrow> meta_error \<Rightarrow> job \<Rightarrow> manager \<Rightarrow> manager_error option \<times> manager" where
  "rebuildPurgedIcebergJob C k admission j m =
     (let E = ce_env C; refused = (Some (ErrStore admission), set_job k j m) in
      if \<not> cleanup_blocked admission \<or> runActive k m \<or> mg_role m = WorkerRoleAll \<or>
         ValidateIcebergSnapshotRebuild (ce_decoders C) (jb_config j) \<noteq> None then refused
      else case checkpoint_reader C j of
        (Some e, _, j1) \<Rightarrow> (Some (ErrStore admission), set_job k j1 m)
      | (None, key, j1) \<Rightarrow>
          (case durable_call E k ''REBUILD'' m (\<lambda>db.
              case RequestJobRebuild (me_codec E) (ce_decoders C) (ce_shared C \<and> jb_store j1) (me_now E) (ce_archive C) (ce_epoch C)
                     (job_id j1) (jb_submission j1) key db of
                (Inl e, _) \<Rightarrow> Inl e
              | (Inr (_, epoch), db') \<Rightarrow> Inr (epoch, db')) of
             Inl _ \<Rightarrow> (Some (ErrStore admission), set_job k j1 m)
           | Inr (epoch, db') \<Rightarrow>
               (None, (set_job k (setObservedFreshSnapshotProgress (me_wall E)
                   (setObservedJobStatus (me_wall E) JobStatusQueued (j1\<lparr>jb_submission := epoch\<rparr>))) m)
                 \<lparr>mg_exec := map_put k JobExecutionRoleSnapshot (mg_exec m), mg_db := Some db'\<rparr>)))"

definition control_role :: "control_state \<Rightarrow> job \<Rightarrow> string" where
  "control_role cs j = (if cs_role cs = JobExecutionRoleSnapshot \<or> cs_role cs = JobExecutionRoleStreaming then cs_role cs
     else executionRoleForConfig (jb_config j))"

text \<open>A resume of a scoped rebuild first upgrades its writer in place.\<close>

definition upgrade_writer :: "control_env \<Rightarrow> string \<Rightarrow> job \<Rightarrow> manager \<Rightarrow> manager_error option \<times> job \<times> manager" where
  "upgrade_writer C k j m =
     (case checkpoint_reader C j of
        (Some e, _, j1) \<Rightarrow> (Some (ErrInvalid e), j1, m)
      | (None, key, j1) \<Rightarrow>
          (case durable_call (ce_env C) k ''UPGRADE'' m (\<lambda>db.
              case UpgradeJobNativeRebuild (me_codec (ce_env C)) (ce_decoders C) (ce_shared C \<and> jb_store j1) (me_now (ce_env C))
                     (ce_archive C) (job_id j1) (jb_submission j1) key db of
                (Inl e, _) \<Rightarrow> Inl e | (Inr cfg, db') \<Rightarrow> Inr (cfg, db')) of
             Inl e \<Rightarrow> (Some e, j1, m)
           | Inr (cfg, db') \<Rightarrow> (None, j1\<lparr>jb_display_config := Some cfg\<rparr>, m\<lparr>mg_db := Some db'\<rparr>)))"

definition scoped_writer :: "job \<Rightarrow> bool" where
  "scoped_writer j = (case jb_config j of None \<Rightarrow> False | Some c \<Rightarrow> sink_mode c = Some (GoStr IcebergRebuildScopedWriteMode))"

definition requeue_job :: "control_env \<Rightarrow> string \<Rightarrow> bool \<Rightarrow> string \<Rightarrow> job \<Rightarrow> manager \<Rightarrow> manager_error option \<times> manager" where
  "requeue_job C k fresh role j m =
     (let E = ce_env C in
      case durable_call E k ''RESUME'' m
          (if fresh then RequestJobFreshSnapshot k (me_now E) else RequestJobResume k role (me_now E)) of
        Inl e \<Rightarrow> (Some e, set_job k j m)
      | Inr (db', updated) \<Rightarrow>
          if \<not> updated then (Some ErrJobResubmitNotAllowed, set_job k j m)
          else let q = setObservedJobStatus (me_wall E) JobStatusQueued j in
            (None, (set_job k (if fresh then setObservedFreshSnapshotProgress (me_wall E) q
                               else setObservedQueuedProgress (me_wall E) role q) m)
               \<lparr>mg_exec := map_put k role (mg_exec m), mg_db := Some db'\<rparr>))"

definition resubmitDurableJob :: "control_env \<Rightarrow> string \<Rightarrow> job \<Rightarrow> manager \<Rightarrow> manager_error option \<times> manager" where
  "resubmitDurableJob C k j m =
     (if mg_down m then (Some ErrJobManagerShuttingDown, m)
      else case durable_call (ce_env C) k ''CONTROL'' m (\<lambda>db. case LoadJobControl k db of Inl e \<Rightarrow> Inl e | Inr cs \<Rightarrow> Inr (cs, db)) of
        Inl e \<Rightarrow> (Some e, m)
      | Inr (None, _) \<Rightarrow> (Some ErrJobNotFound, m)
      | Inr (Some cs, db) \<Rightarrow>
          if parsePersistedStatus (cs_status cs) \<notin> {JobStatusFailed, JobStatusStopped, JobStatusPaused}
          then (Some ErrJobResubmitNotAllowed, m)
          else (case jobFreshSnapshotOnResubmit C j db of
              (Inl e, j1) \<Rightarrow> rebuildPurgedIcebergJob C k e j1 m
            | (Inr fresh, j1) \<Rightarrow>
                (let role = (if fresh then JobExecutionRoleSnapshot else control_role cs j1) in
                 if \<not> fresh \<and> role = JobExecutionRoleSnapshot \<and> scoped_writer j1
                 then (case upgrade_writer C k j1 m of
                     (Some e, j2, m2) \<Rightarrow> (Some e, set_job k j2 m2)
                   | (None, j2, m2) \<Rightarrow> requeue_job C k fresh role j2 m2)
                 else requeue_job C k fresh role j1 m)))"

definition RequestResubmit :: "control_env \<Rightarrow> string \<Rightarrow> manager \<Rightarrow> manager_error option \<times> manager" where
  "RequestResubmit C k m =
     (case map_get (mg_jobs m) k of
        None \<Rightarrow> (Some ErrJobNotFound, m)
      | Some j \<Rightarrow> if usesDurableControl k m then resubmitDurableJob C k j m else Resubmit (ce_env C) k m)"

section \<open>What a durable resubmission leaves\<close>

text \<open>\<open>other_rows k db db'\<close>: no row but that of job \<open>k\<close> changed.\<close>

definition other_rows :: "string \<Rightarrow> meta_db \<Rightarrow> meta_db \<Rightarrow> bool" where
  "other_rows k db db' \<longleftrightarrow> (\<forall>x. x \<noteq> k \<longrightarrow> job_lookup x db' = job_lookup x db)"

text \<open>The row waits, unowned, for a worker of the given role and of no other.\<close>

definition waits_for :: "string \<Rightarrow> string \<Rightarrow> meta_db \<Rightarrow> bool" where
  "waits_for k role db \<longleftrightarrow> (\<exists>r. job_lookup k db = Some r \<and> jr_status r = ''QUEUED'' \<and> jr_owner r = None \<and>
     (\<forall>t role'. claimable role' t r \<longleftrightarrow> role' = role))"

lemma other_rows_refl [simp]: "other_rows k db db"
  by (simp add: other_rows_def)

lemma other_rows_trans: "other_rows k a b \<Longrightarrow> other_rows k b c \<Longrightarrow> other_rows k a c"
  by (simp add: other_rows_def)

lemma terminal_requeue:
  assumes "db_wf db" "(db', ok) = update_jobs (terminal_row k) (queued_row role resume now) db"
  shows "other_rows k db db'" "ok \<Longrightarrow> waits_for k role db'" "\<not> ok \<Longrightarrow> db' = db"
proof -
  note u = terminal_update [OF assms]
  show "other_rows k db db'" unfolding other_rows_def
  proof (intro allI impI)
    fix x assume "x \<noteq> k"
    then show "job_lookup x db' = job_lookup x db" by (cases "job_lookup x db") (auto simp: u(1) terminal_row_def dest: job_lookup_id)
  qed
  show "waits_for k role db'" if o: ok
  proof -
    obtain r where "job_lookup k db = Some r" "terminal_row k r" using u(2) o by auto
    then have "job_lookup k db' = Some (queued_row role resume now r)" by (simp add: u(1))
    moreover have "jr_status (queued_row role resume now r) = ''QUEUED''" "jr_owner (queued_row role resume now r) = None"
      by (simp_all add: queued_row_def)
    ultimately show ?thesis using claimable_queued_row unfolding waits_for_def by blast
  qed
  show "\<not> ok \<Longrightarrow> db' = db" using update_jobs_unmatched assms(2) by (metis fst_conv snd_conv)
qed

lemma tbl_find_update_key:
  assumes "\<And>r. jr_id (f r) = jr_id r"
  shows "tbl_find jr_id x (tbl_update (\<lambda>r. jr_id r = k) f t) =
     (if x = k then map_option f (tbl_find jr_id k t) else tbl_find jr_id x t)"
proof -
  have "tbl_find jr_id x (tbl_update (\<lambda>r. jr_id r = k) f t) = map_option (\<lambda>r. if jr_id r = k then f r else r) (tbl_find jr_id x t)"
    by (rule tbl_find_update) (simp add: assms)
  then show ?thesis by (cases "tbl_find jr_id x t") (auto dest: tbl_find_Some_key)
qed

lemma RequestJobRebuild_rows:
  assumes "RequestJobRebuild J D shared now a s k submission key db = (Inr p, db')"
  shows "other_rows k db db' \<and> waits_for k JobExecutionRoleSnapshot db'"
  using assms
proof (cases rule: RequestJobRebuild_cases)
  case (rebuilt r cfg ar db1 db2)
  let ?f = "rebuild_row now s (enc_config J (rebuilt_config s cfg))"
  have jobs: "db_jobs db2 = db_jobs db" using delete_states_frame [OF rebuilt(13)] rebuilt(12) by simp
  have look: "job_lookup x db' = (if x = k then map_option ?f (job_lookup k db) else job_lookup x db)" for x
    unfolding rebuilt(14) job_lookup_def by (simp add: tbl_find_update_key rebuild_row_def jobs)
  have "waits_for k JobExecutionRoleSnapshot db'"
    using rebuilt(3) by (auto simp: waits_for_def look rebuild_row_def claimable_def lease_free_def)
  then show ?thesis by (simp add: other_rows_def look)
qed simp

lemma UpgradeJobNativeRebuild_rows:
  assumes "UpgradeJobNativeRebuild J D shared now a k submission key db = (Inr cfg', db')"
  shows "other_rows k db db'" "db_wf db \<Longrightarrow> db_wf db'"
    "\<And>r. job_lookup k db = Some r \<Longrightarrow> \<exists>r'. job_lookup k db' = Some r' \<and> jr_status r' = jr_status r"
proof -
  note u = assms [unfolded UpgradeJobNativeRebuild_def Let_def]
  obtain r where r: "job_lookup k db = Some r" using u by (cases "job_lookup k db") (auto split: if_splits)
  note u = u [unfolded r option.case]
  obtain cfg where cfg: "dec_config J (jr_config r) = Inr cfg"
    using u by (cases "dec_config J (jr_config r)") (auto split: if_splits)
  note u = u [unfolded cfg sum.case]
  let ?f = "\<lambda>x. x\<lparr>jr_config := enc_config J (native_config cfg), jr_updated := now\<rparr>"
  have out: "db' = db \<or> (\<exists>ar. db' = db\<lparr>db_archives := ar, db_jobs := tbl_update (\<lambda>x. jr_id x = k) ?f (db_jobs db)\<rparr>)"
    using u by (auto split: if_splits option.splits)
  have look: "job_lookup x db' = job_lookup x db \<or> x = k \<and> job_lookup x db' = map_option ?f (job_lookup x db)" for x
    using out by (auto simp: job_lookup_def tbl_find_update_key split: if_splits)
  show "other_rows k db db'" using look by (auto simp: other_rows_def)
  show "db_wf db \<Longrightarrow> db_wf db'" using out by (auto simp: db_wf_def map_key_tbl_update)
  show "\<And>r. job_lookup k db = Some r \<Longrightarrow> \<exists>r'. job_lookup k db' = Some r' \<and> jr_status r' = jr_status r"
    using look [of k] by auto
qed

lemma durable_call_Inr:
  "durable_call E k opn m f = Inr x \<Longrightarrow> mg_db m = Some db \<Longrightarrow> f db = Inr x"
  by (auto simp: durable_call_def split: option.splits sum.splits)

text \<open>What a step of a resubmission may leave in the registry.\<close>

definition resubmitted :: "string \<Rightarrow> meta_db \<Rightarrow> manager_error option \<Rightarrow> manager \<Rightarrow> bool" where
  "resubmitted k db e m' \<longleftrightarrow> (\<exists>db'. mg_db m' = Some db' \<and> other_rows k db db' \<and>
     (e = None \<longrightarrow> waits_for k JobExecutionRoleSnapshot db' \<or> waits_for k JobExecutionRoleStreaming db'))"

lemma resubmitted_refused: "mg_db m' = Some db \<Longrightarrow> resubmitted k db (Some e) m'"
  by (simp add: resubmitted_def)

lemma requeue_job_resubmitted:
  assumes "requeue_job C k fresh role j m = (e, m')" "mg_db m = Some db" "db_wf db" "trim_space k = k"
  shows "resubmitted k db e m'"
proof (cases "durable_call (ce_env C) k ''RESUME'' m
    (if fresh then RequestJobFreshSnapshot k (me_now (ce_env C)) else RequestJobResume k role (me_now (ce_env C)))")
  case (Inl x)
  then have "e = Some x" "m' = set_job k j m" using assms(1) by (simp_all add: requeue_job_def Let_def)
  then show ?thesis using assms(2) by (simp add: resubmitted_def set_job_def)
next
  case (Inr p)
  obtain db' ok where p: "p = (db', ok)" by fastforce
  note call = durable_call_Inr [OF Inr assms(2)]
  have role: "\<exists>rl rs. (db', ok) = update_jobs (terminal_row k) (queued_row rl rs (me_now (ce_env C))) db \<and>
      (rl = JobExecutionRoleSnapshot \<or> rl = JobExecutionRoleStreaming)"
  proof (cases fresh)
    case True
    have "RequestJobFreshSnapshot k (me_now (ce_env C)) db = Inr (db', ok)" using call [unfolded p] True by simp
    from RequestJobFreshSnapshot_Inr [OF this] show ?thesis unfolding assms(4) by blast
  next
    case False
    have "RequestJobResume k role (me_now (ce_env C)) db = Inr (db', ok)" using call [unfolded p] False by simp
    from RequestJobResume_Inr [OF this] show ?thesis unfolding assms(4) by blast
  qed
  then obtain rl rs where u: "(db', ok) = update_jobs (terminal_row k) (queued_row rl rs (me_now (ce_env C))) db"
    "rl = JobExecutionRoleSnapshot \<or> rl = JobExecutionRoleStreaming" by blast
  note t = terminal_requeue [OF assms(3) u(1)]
  show ?thesis
  proof (cases ok)
    case True
    then have "e = None" "mg_db m' = Some db'"
      using assms(1) Inr p by (auto simp: requeue_job_def Let_def)
    then show ?thesis using t(1) t(2) [OF True] u(2) by (auto simp: resubmitted_def)
  next
    case False
    then have "e = Some ErrJobResubmitNotAllowed" "m' = set_job k j m" using assms(1) Inr p by (auto simp: requeue_job_def Let_def)
    then show ?thesis using assms(2) by (simp add: resubmitted_def set_job_def)
  qed
qed

lemma rebuild_resubmitted:
  assumes "rebuildPurgedIcebergJob C k err j m = (e, m')" "mg_db m = Some db" "job_id j = k"
  shows "resubmitted k db e m'"
proof (cases "\<not> cleanup_blocked err \<or> runActive k m \<or> mg_role m = WorkerRoleAll \<or>
    ValidateIcebergSnapshotRebuild (ce_decoders C) (jb_config j) \<noteq> None")
  case True
  then have "e = Some (ErrStore err)" "m' = set_job k j m" using assms(1) by (auto simp: rebuildPurgedIcebergJob_def Let_def)
  then show ?thesis using assms(2) by (simp add: resubmitted_def set_job_def)
next
  case ok: False
  obtain oe key j1 where rd: "checkpoint_reader C j = (oe, key, j1)" by (metis prod_cases3)
  have cfg: "jb_config j1 = jb_config j"
    using rd by (auto simp: checkpoint_reader_def checkpointReader_def Let_def dest: ensureMetaKey_fields(1) split: prod.splits if_splits sum.splits option.splits)
  then have id: "job_id j1 = k" using assms(3) by (simp add: job_id_def)
  show ?thesis
  proof (cases oe)
    case (Some x)
    then have "e = Some (ErrStore err)" "m' = set_job k j1 m" using assms(1) ok rd by (auto simp: rebuildPurgedIcebergJob_def Let_def)
    then show ?thesis using assms(2) by (simp add: resubmitted_def set_job_def)
  next
    case None
    let ?f = "\<lambda>db. case RequestJobRebuild (me_codec (ce_env C)) (ce_decoders C) (ce_shared C \<and> jb_store j1) (me_now (ce_env C)) (ce_archive C) (ce_epoch C)
                     (job_id j1) (jb_submission j1) key db of (Inl e, _) \<Rightarrow> Inl e | (Inr (_, epoch), db') \<Rightarrow> Inr (epoch, db')"
    show ?thesis
    proof (cases "durable_call (ce_env C) k ''REBUILD'' m ?f")
      case (Inl x)
      then have "e = Some (ErrStore err)" "m' = set_job k j1 m"
        using assms(1) ok rd None by (auto simp: rebuildPurgedIcebergJob_def Let_def)
      then show ?thesis using assms(2) by (simp add: resubmitted_def set_job_def)
    next
      case (Inr p)
      obtain epoch db' where p: "p = (epoch, db')" by fastforce
      have "?f db = Inr (epoch, db')" using durable_call_Inr [OF Inr assms(2)] p by simp
      then obtain q where q: "RequestJobRebuild (me_codec (ce_env C)) (ce_decoders C) (ce_shared C \<and> jb_store j1) (me_now (ce_env C))
          (ce_archive C) (ce_epoch C) k (jb_submission j1) key db = (Inr q, db')"
        using id by (auto split: prod.splits sum.splits)
      have "e = None" "mg_db m' = Some db'" using assms(1) ok rd None Inr p by (auto simp: rebuildPurgedIcebergJob_def Let_def)
      then show ?thesis using RequestJobRebuild_rows [OF q] by (auto simp: resubmitted_def)
    qed
  qed
qed


lemma upgrade_writer_rows:
  assumes "upgrade_writer C k j m = (e, j', m')" "mg_db m = Some db" "db_wf db" "job_id j = k"
  shows "\<exists>db'. mg_db m' = Some db' \<and> db_wf db' \<and> other_rows k db db' \<and> job_id j' = k"
proof -
  obtain oe key j1 where rd: "checkpoint_reader C j = (oe, key, j1)" by (metis prod_cases3)
  have "jb_config j1 = jb_config j"
    using rd by (auto simp: checkpoint_reader_def checkpointReader_def Let_def dest: ensureMetaKey_fields(1) split: prod.splits if_splits sum.splits option.splits)
  then have id: "job_id j1 = k" using assms(4) by (simp add: job_id_def)
  show ?thesis
  proof (cases oe)
    case (Some x)
    then have "m' = m" "j' = j1" using assms(1) rd by (simp_all add: upgrade_writer_def)
    then show ?thesis using assms(2,3) id by simp
  next
    case None
    let ?f = "\<lambda>db. case UpgradeJobNativeRebuild (me_codec (ce_env C)) (ce_decoders C) (ce_shared C \<and> jb_store j1) (me_now (ce_env C))
                     (ce_archive C) (job_id j1) (jb_submission j1) key db of (Inl e, _) \<Rightarrow> Inl e | (Inr cfg, db') \<Rightarrow> Inr (cfg, db')"
    show ?thesis
    proof (cases "durable_call (ce_env C) k ''UPGRADE'' m ?f")
      case (Inl x)
      then have "m' = m" "j' = j1" using assms(1) rd None by (simp_all add: upgrade_writer_def)
      then show ?thesis using assms(2,3) id by simp
    next
      case (Inr p)
      obtain cfg db' where p: "p = (cfg, db')" by fastforce
      have "?f db = Inr (cfg, db')" using durable_call_Inr [OF Inr assms(2)] p by simp
      then have q: "UpgradeJobNativeRebuild (me_codec (ce_env C)) (ce_decoders C) (ce_shared C \<and> jb_store j1) (me_now (ce_env C))
          (ce_archive C) k (jb_submission j1) key db = (Inr cfg, db')"
        using id by (auto split: prod.splits sum.splits)
      have "m' = m\<lparr>mg_db := Some db'\<rparr>" "j' = j1\<lparr>jb_display_config := Some cfg\<rparr>"
        using assms(1) rd None Inr p by (simp_all add: upgrade_writer_def)
      then show ?thesis using UpgradeJobNativeRebuild_rows [OF q] assms(3) id by (simp add: job_id_def)
    qed
  qed
qed

lemma fresh_check_id: "jobFreshSnapshotOnResubmit C j db = (r, j1) \<Longrightarrow> job_id j1 = job_id j"
proof -
  assume f: "jobFreshSnapshotOnResubmit C j db = (r, j1)"
  obtain oe key j2 where rd: "checkpoint_reader C j = (oe, key, j2)" by (metis prod_cases3)
  have "jb_config j2 = jb_config j"
    using rd by (auto simp: checkpoint_reader_def checkpointReader_def Let_def dest: ensureMetaKey_fields(1) split: prod.splits if_splits sum.splits option.splits)
  then show ?thesis using f rd by (auto simp: jobFreshSnapshotOnResubmit_def job_id_def split: option.splits if_splits)
qed

lemma resubmitted_steps:
  assumes "mg_db m = Some db" "other_rows k db0 db" "resubmitted k db e m'"
  shows "resubmitted k db0 e m'"
  using assms other_rows_trans unfolding resubmitted_def by blast

text \<open>
  C20: resubmitting a job that another process runs goes through its registry row. When the request is
  accepted, whether as a resume, as a fresh snapshot or as an archived rebuild, the row was in a terminal
  state and now waits, unowned, for exactly one kind of worker; whatever the answer, the row of no other
  job changes; and a process that is shutting down refuses and changes nothing.
\<close>

theorem durable_resubmit_queues_once:
  assumes "resubmitDurableJob C k j m = (e, m')" "mg_db m = Some db" "db_wf db" "trim_space k = k" "job_id j = k"
  shows "(\<exists>db'. mg_db m' = Some db' \<and> other_rows k db db' \<and>
      (e = None \<longrightarrow> (waits_for k JobExecutionRoleSnapshot db' \<or> waits_for k JobExecutionRoleStreaming db') \<and>
         (\<exists>r. job_lookup k db = Some r \<and> parsePersistedStatus (jr_status r) \<in> {JobStatusFailed, JobStatusStopped, JobStatusPaused}))) \<and>
    (mg_down m \<longrightarrow> e = Some ErrJobManagerShuttingDown \<and> m' = m)"
proof -
  define load where "load = durable_call (ce_env C) k ''CONTROL'' m (\<lambda>db. case LoadJobControl k db of Inl e \<Rightarrow> Inl e | Inr cs \<Rightarrow> Inr (cs, db))"
  note body0 = assms(1) [unfolded resubmitDurableJob_def, folded load_def]
  have refused: ?thesis if "e \<noteq> None" "m' = m" "\<not> mg_down m" using that assms(2) by auto
  show ?thesis
  proof (cases "mg_down m \<or> (\<exists>x. load = Inl x) \<or> (\<exists>d. load = Inr (None, d))")
    case True
    then show ?thesis using body0 assms(2) by (auto split: if_splits sum.splits)
  next
    case False
    then obtain cs d where l: "load = Inr (Some cs, d)" "\<not> mg_down m" by (cases load) auto
    have "(case LoadJobControl k db of Inl e \<Rightarrow> Inl e | Inr cs \<Rightarrow> Inr (cs, db)) = Inr (Some cs, d)"
      using durable_call_Inr [OF l(1) [unfolded load_def] assms(2)] .
    then have d: "d = db" "LoadJobControl k db = Inr (Some cs)" by (auto split: sum.splits)
    then obtain r where r: "job_lookup k db = Some r" "cs_status cs = jr_status r"
      using assms(4) by (auto simp: LoadJobControl_def Let_def job_lookup_def split: if_splits)
    show ?thesis
    proof (cases "parsePersistedStatus (cs_status cs) \<in> {JobStatusFailed, JobStatusStopped, JobStatusPaused}")
      case False
      then show ?thesis using body0 l d refused by (auto split: if_splits sum.splits)
    next
      case True
      obtain fr j1 where f: "jobFreshSnapshotOnResubmit C j db = (fr, j1)" by fastforce
      have id: "job_id j1 = k" using fresh_check_id [OF f] assms(5) by simp
      have body: "(e, m') = (case fr of Inl x \<Rightarrow> rebuildPurgedIcebergJob C k x j1 m
            | Inr fresh \<Rightarrow>
                (let role = (if fresh then JobExecutionRoleSnapshot else control_role cs j1) in
                 if \<not> fresh \<and> role = JobExecutionRoleSnapshot \<and> scoped_writer j1
                 then (case upgrade_writer C k j1 m of
                     (Some x, j2, m2) \<Rightarrow> (Some x, set_job k j2 m2)
                   | (None, j2, m2) \<Rightarrow> requeue_job C k fresh role j2 m2)
                 else requeue_job C k fresh role j1 m))"
        using body0 True l(2) unfolding l(1) d(1) by (cases fr) (auto simp only: f sum.case prod.case option.case if_True if_False simp_thms split: if_splits)
      have "resubmitted k db e m'"
      proof (cases fr)
        case (Inl x)
        then show ?thesis using body rebuild_resubmitted [OF _ assms(2) id] by simp
      next
        case (Inr fresh)
        define role where "role = (if fresh then JobExecutionRoleSnapshot else control_role cs j1)"
        show ?thesis
        proof (cases "\<not> fresh \<and> role = JobExecutionRoleSnapshot \<and> scoped_writer j1")
          case False
          then have "requeue_job C k fresh role j1 m = (e, m')"
            using body unfolding Inr sum.case Let_def role_def [symmetric] by (metis (full_types))
          then show ?thesis by (rule requeue_job_resubmitted [OF _ assms(2,3,4)])
        next
          case up: True
          obtain e2 j2 m2 where w: "upgrade_writer C k j1 m = (e2, j2, m2)" by (metis prod_cases3)
          obtain db2 where db2: "mg_db m2 = Some db2" "db_wf db2" "other_rows k db db2"
            using upgrade_writer_rows [OF w assms(2,3) id] by blast
          have b: "(e, m') = (case e2 of Some x \<Rightarrow> (Some x, set_job k j2 m2) | None \<Rightarrow> requeue_job C k fresh role j2 m2)"
            using body up w unfolding Inr sum.case Let_def role_def [symmetric] by (simp split: option.splits)
          show ?thesis
          proof (cases e2)
            case None
            then have "requeue_job C k fresh role j2 m2 = (e, m')" using b by simp
            from resubmitted_steps [OF db2(1,3) requeue_job_resubmitted [OF this db2(1,2) assms(4)]] show ?thesis .
          next
            case (Some x)
            then show ?thesis using b db2 by (auto simp: resubmitted_def set_job_def)
          qed
        qed
      qed
      then show ?thesis using r True l(2) by (auto simp: resubmitted_def)
    qed
  qed
qed

definition sample_control :: control_env where
  "sample_control = \<lparr>ce_env = sample_menv, ce_decoders = sample_rebuild_decoders, ce_shared = True, ce_store = sample_db [],
     ce_archive = ''arc'', ce_epoch = ''s2'', ce_open = (\<lambda>_. None), ce_binlog = (\<lambda>_. Inl ''unknown'')\<rparr>"

definition stopped_elsewhere :: manager where
  "stopped_elsewhere = sample_manager WorkerRoleMaster [(''a'', sample_managed ''a'' JobModeResume JobStatusStopped)]
     (Some (sample_db [(sample_row ''a'' DesiredStateStopped None None ''PENDING'')\<lparr>jr_status := ''STOPPED''\<rparr>]))"

theorem durable_resubmit_queues_once_witness:
  "\<exists>m' db'. resubmitDurableJob sample_control ''a'' (sample_managed ''a'' JobModeResume JobStatusStopped) stopped_elsewhere = (None, m') \<and>
     mg_db m' = Some db' \<and> (waits_for ''a'' JobExecutionRoleSnapshot db' \<or> waits_for ''a'' JobExecutionRoleStreaming db')"
proof -
  let ?r = "(sample_row ''a'' DesiredStateStopped None None ''PENDING'')\<lparr>jr_status := ''STOPPED''\<rparr>"
  let ?j = "sample_managed ''a'' JobModeResume JobStatusStopped"
  obtain e m' where r: "resubmitDurableJob sample_control ''a'' ?j stopped_elsewhere = (e, m')" by fastforce
  have db: "mg_db stopped_elsewhere = Some (sample_db [?r])" by (simp add: stopped_elsewhere_def sample_manager_def)
  have wf: "db_wf (sample_db [?r])" by (simp add: db_wf_def sample_db_def sample_row_def)
  have k: "trim_space ''a'' = ''a''" "job_id ?j = ''a''" by code_simp+
  have st: "to_upper ''STOPPED'' = ''STOPPED''" "live_status ''STOPPED'' = False" by code_simp+
  have "fst (resubmitDurableJob sample_control ''a'' ?j stopped_elsewhere) = None"
    by (simp add: resubmitDurableJob_def durable_call_def sample_control_def stopped_elsewhere_def sample_manager_def
      sample_menv_def sample_db_def sample_row_def sample_managed_def LoadJobControl_def trim_space_def is_space_def
      parsePersistedStatus_def jobFreshSnapshotOnResubmit_def NewJob_def jobCheckpointBinlogPurged_def normalizeMode_def
      control_role_def requeue_job_def RequestJobResume_def update_jobs_def terminal_row_def zero_config_def
      normalizeConfig_def scoped_writer_def tbl_matched_def tbl_find_def Let_def st)
  with r have "e = None" by simp
  with durable_resubmit_queues_once [OF r db wf k] r show ?thesis by auto
qed

end
