(* ===== verification/Job_Alerts.thy ===== *)
theory Job_Alerts
  imports Job_Manager
begin

text \<open>
  What the job manager tells people (\<open>pkg/core/job_failure_notifier.go\<close>, \<open>job_health_notifier.go\<close> and the
  delivery part of \<open>manager.go\<close>): the effective Telegram settings, the failure outbox with its retries, and
  the health alerts with their incidents. The Telegram service is a list of answers; texts are not modelled.
  Times are nanoseconds.

  The lemmas give the retry delay in closed form, show what a delivery leaves in the outbox, and which
  reports of an incident are sent.
\<close>

section \<open>Settings\<close>

definition parseEnvBoolLocal :: "string \<Rightarrow> bool" where
  "parseEnvBoolLocal raw \<longleftrightarrow> to_lower (trim_space raw) \<in> {''1'', ''true'', ''yes'', ''y'', ''on''}"

definition lookupEnvBool :: "(string \<Rightarrow> string option) \<Rightarrow> string \<Rightarrow> bool option" where
  "lookupEnvBool env key = map_option parseEnvBoolLocal (env key)"

definition getenv :: "(string \<Rightarrow> string option) \<Rightarrow> string \<Rightarrow> string" where
  "getenv env key = (case env key of None \<Rightarrow> [] | Some v \<Rightarrow> v)"

definition lookupEnvPositiveInt :: "(string \<Rightarrow> string option) \<Rightarrow> string \<Rightarrow> int" where
  "lookupEnvPositiveInt env key =
     (let raw = trim_space (getenv env key) in
      if raw = [] then 0 else case atoi raw of None \<Rightarrow> 0 | Some n \<Rightarrow> if n \<le> 0 then 0 else n)"

definition trim_slashes :: "string \<Rightarrow> string" where
  "trim_slashes s = rev (dropWhile (\<lambda>c. c = CHR ''/'') (rev s))"

definition or_false :: "bool option \<Rightarrow> bool" where
  "or_false b = (b = Some True)"

definition telegramFailureConfigFromEnv :: "(string \<Rightarrow> string option) \<Rightarrow> telegram_config" where
  "telegramFailureConfigFromEnv env =
     (let enabled = (parseEnvBoolLocal (getenv env ''RIVUS_TELEGRAM_ENABLED'') \<or> parseEnvBoolLocal (getenv env ''TELEGRAM_ENABLED'')) in
      \<lparr>tg_enabled = enabled, tg_bot_token = trim_space (getenv env ''TELEGRAM_BOT_TOKEN''),
       tg_chat_id = trim_space (getenv env ''TELEGRAM_CHAT_ID''),
       tg_ui_base_url = trim_slashes (trim_space (getenv env ''RIVUS_UI_BASE_URL'')),
       tg_notify_job_failed = (case lookupEnvBool env ''RIVUS_TELEGRAM_NOTIFY_JOB_FAILED'' of Some b \<Rightarrow> b
         | None \<Rightarrow> (case lookupEnvBool env ''TELEGRAM_NOTIFY_JOB_FAILED'' of Some b \<Rightarrow> b | None \<Rightarrow> enabled)),
       tg_notify_cdc_lag = or_false (lookupEnvBool env ''RIVUS_TELEGRAM_NOTIFY_CDC_LAG''),
       tg_notify_checkpoint_purged = or_false (lookupEnvBool env ''RIVUS_TELEGRAM_NOTIFY_CHECKPOINT_PURGED''),
       tg_notify_backpressure = or_false (lookupEnvBool env ''RIVUS_TELEGRAM_NOTIFY_BACKPRESSURE''),
       tg_cdc_lag_files_threshold = lookupEnvPositiveInt env ''RIVUS_CDC_LAG_FILES_THRESHOLD'',
       tg_alert_cooldown_seconds = lookupEnvPositiveInt env ''RIVUS_ALERT_COOLDOWN_SECONDS''\<rparr>)"

definition mergeTelegramNotificationConfig :: "telegram_config \<Rightarrow> telegram_config \<Rightarrow> telegram_config" where
  "mergeTelegramNotificationConfig base over =
     base\<lparr>tg_bot_token := if trim_space (tg_bot_token over) \<noteq> [] then trim_space (tg_bot_token over) else tg_bot_token base,
       tg_chat_id := if trim_space (tg_chat_id over) \<noteq> [] then trim_space (tg_chat_id over) else tg_chat_id base,
       tg_ui_base_url := if trim_space (tg_ui_base_url over) \<noteq> [] then trim_slashes (trim_space (tg_ui_base_url over)) else tg_ui_base_url base,
       tg_enabled := tg_enabled base \<or> tg_enabled over,
       tg_notify_job_failed := tg_notify_job_failed base \<or> tg_notify_job_failed over,
       tg_notify_cdc_lag := tg_notify_cdc_lag base \<or> tg_notify_cdc_lag over,
       tg_notify_backpressure := tg_notify_backpressure base \<or> tg_notify_backpressure over,
       tg_cdc_lag_files_threshold := if 0 < tg_cdc_lag_files_threshold over then tg_cdc_lag_files_threshold over
         else tg_cdc_lag_files_threshold base,
       tg_alert_cooldown_seconds := if 0 < tg_alert_cooldown_seconds over then tg_alert_cooldown_seconds over
         else tg_alert_cooldown_seconds base\<rparr>"

definition trimmed_telegram :: "telegram_config \<Rightarrow> telegram_config" where
  "trimmed_telegram tg = tg\<lparr>tg_bot_token := trim_space (tg_bot_token tg), tg_chat_id := trim_space (tg_chat_id tg),
     tg_ui_base_url := trim_slashes (trim_space (tg_ui_base_url tg))\<rparr>"

definition has_credentials :: "telegram_config \<Rightarrow> bool" where
  "has_credentials tg \<longleftrightarrow> tg_enabled tg \<and> tg_bot_token tg \<noteq> [] \<and> tg_chat_id tg \<noteq> []"

text \<open>\<open>stringConfigValue\<close> prints a value that is no string with \<open>fmt.Sprint\<close>, the parameter \<open>show\<close>.\<close>

definition stringConfigValue :: "(goval \<Rightarrow> string) \<Rightarrow> goval option \<Rightarrow> string" where
  "stringConfigValue pr v =
     (case v of None \<Rightarrow> [] | Some GoNil \<Rightarrow> [] | Some (GoStr s) \<Rightarrow> trim_space s | Some x \<Rightarrow> trim_space (pr x))"

definition boolConfigValue :: "goval option \<Rightarrow> bool" where
  "boolConfigValue v = (case v of Some (GoBool b) \<Rightarrow> b | Some (GoStr s) \<Rightarrow> parseEnvBoolLocal s | _ \<Rightarrow> False)"

definition icebergSinkTelegramFailureConfig :: "(goval \<Rightarrow> string) \<Rightarrow> job_config option \<Rightarrow> telegram_config option" where
  "icebergSinkTelegramFailureConfig pr cfg =
     (case cfg of
        None \<Rightarrow> None
      | Some c \<Rightarrow>
     (case jc_sink c of
        None \<Rightarrow> None
      | Some k \<Rightarrow>
          (let token = stringConfigValue pr (map_get (cs_config k) ''telegram_bot_token'');
               chat = stringConfigValue pr (map_get (cs_config k) ''telegram_chat_id'') in
           if cs_config k = [] \<or> sinkTypeFromConfig (Some c) \<noteq> ''iceberg_native'' \<or>
              \<not> boolConfigValue (map_get (cs_config k) ''telegram_enabled'') \<or> token = [] \<or> chat = []
           then None
           else Some \<lparr>tg_enabled = True, tg_bot_token = token, tg_chat_id = chat,
             tg_ui_base_url = trim_slashes (stringConfigValue pr (map_get (cs_config k) ''ui_base_url'')),
             tg_notify_job_failed = True, tg_notify_cdc_lag = False, tg_notify_checkpoint_purged = False,
             tg_notify_backpressure = False, tg_cdc_lag_files_threshold = 0, tg_alert_cooldown_seconds = 0\<rparr>)))"

definition jobFailureTelegramConfig ::
  "(goval \<Rightarrow> string) \<Rightarrow> (string \<Rightarrow> string option) \<Rightarrow> job_config option \<Rightarrow> telegram_config option" where
  "jobFailureTelegramConfig pr env cfg =
     (let t0 = telegramFailureConfigFromEnv env;
          t1 = (case icebergSinkTelegramFailureConfig pr cfg of None \<Rightarrow> t0 | Some s \<Rightarrow> mergeTelegramNotificationConfig t0 s);
          t2 = trimmed_telegram (case cfg of None \<Rightarrow> t1 | Some c \<Rightarrow> mergeTelegramNotificationConfig t1 (jc_telegram c)) in
      if has_credentials t2 \<and> tg_notify_job_failed t2 then Some t2 else None)"

definition jobHealthTelegramConfig :: "(string \<Rightarrow> string option) \<Rightarrow> job_config option \<Rightarrow> telegram_config option" where
  "jobHealthTelegramConfig env cfg =
     (let t0 = telegramFailureConfigFromEnv env;
          t1 = (case cfg of None \<Rightarrow> t0 | Some c \<Rightarrow> mergeTelegramNotificationConfig t0 (jc_telegram c));
          t2 = trimmed_telegram (t1\<lparr>
            tg_cdc_lag_files_threshold := if tg_cdc_lag_files_threshold t1 \<le> 0 then 2 else tg_cdc_lag_files_threshold t1,
            tg_alert_cooldown_seconds := if tg_alert_cooldown_seconds t1 \<le> 0 then 600 else tg_alert_cooldown_seconds t1\<rparr>) in
      if has_credentials t2 \<and> (tg_notify_cdc_lag t2 \<or> tg_notify_checkpoint_purged t2 \<or> tg_notify_backpressure t2)
      then Some t2 else None)"

section \<open>The failure outbox\<close>

abbreviation "second \<equiv> 1000000000 :: int"
abbreviation "defaultFailureNotificationRetryInitial \<equiv> second"
abbreviation "defaultFailureNotificationRetryMax \<equiv> 600 * second"

text \<open>An answer of the service; a rate limit may name the wait.\<close>

datatype telegram_answer = Delivered | Unreachable string | HttpError int string int

text \<open>\<open>NotifyJobFailed\<close>: what the status code says about trying again.\<close>

record delivery_error =
  de_text :: string
  de_permanent :: bool
  de_retry_after :: int

definition NotifyJobFailed :: "telegram_config \<Rightarrow> telegram_answer \<Rightarrow> delivery_error option" where
  "NotifyJobFailed tg ans =
     (if \<not> tg_enabled tg \<or> \<not> tg_notify_job_failed tg \<or> trim_space (tg_bot_token tg) = [] \<or> trim_space (tg_chat_id tg) = [] then None
      else case ans of
        Delivered \<Rightarrow> None
      | Unreachable e \<Rightarrow> Some \<lparr>de_text = e, de_permanent = False, de_retry_after = 0\<rparr>
      | HttpError code msg wait \<Rightarrow>
          if 200 \<le> code \<and> code < 300 then None
          else Some \<lparr>de_text = ''telegram sendMessage failed: '' @ msg,
            de_permanent = (code \<noteq> 429 \<and> code \<noteq> 408 \<and> code < 500),
            de_retry_after = (if code = 429 then wait else 0)\<rparr>)"

definition nextFailureNotificationBackoff :: "int \<Rightarrow> int \<Rightarrow> int" where
  "nextFailureNotificationBackoff current limit =
     (let next = (if current \<le> 0 then defaultFailureNotificationRetryInitial else current) * 2 in
      if 0 < limit \<and> limit < next then limit else next)"

fun backoff_after :: "nat \<Rightarrow> int \<Rightarrow> int \<Rightarrow> int" where
  "backoff_after 0 limit delay = delay"
| "backoff_after (Suc n) limit delay = backoff_after n limit (nextFailureNotificationBackoff delay limit)"

definition failureNotificationRetryDelay :: "int \<Rightarrow> int \<Rightarrow> int \<Rightarrow> delivery_error \<Rightarrow> int" where
  "failureNotificationRetryDelay initial limit attempts e =
     (if 0 < de_retry_after e then de_retry_after e else backoff_after (nat (attempts - 1)) limit initial)"

text \<open>One attempt: the notification with its new state, and whether another attempt follows.\<close>

definition delivery_attempt ::
  "int \<Rightarrow> int \<Rightarrow> int \<Rightarrow> telegram_config option \<Rightarrow> telegram_answer \<Rightarrow> notification \<Rightarrow> notification \<times> bool" where
  "delivery_attempt initial limit now tg ans n =
     (case tg of
        None \<Rightarrow> (n\<lparr>nt_state := FailureNotificationFailed, nt_last_error := ''notification disabled or missing configuration'',
            nt_updated := Some now\<rparr>, False)
      | Some tg \<Rightarrow>
          (let n1 = n\<lparr>nt_attempts := nt_attempts n + 1, nt_updated := Some now\<rparr> in
           case NotifyJobFailed tg ans of
             None \<Rightarrow> (n1\<lparr>nt_state := FailureNotificationSent, nt_last_error := [], nt_next := None, nt_sent := Some now\<rparr>, False)
           | Some e \<Rightarrow>
               if de_permanent e then (n1\<lparr>nt_state := FailureNotificationFailed, nt_last_error := de_text e, nt_next := None\<rparr>, False)
               else (n1\<lparr>nt_state := FailureNotificationPending, nt_last_error := de_text e,
                   nt_next := Some (now + failureNotificationRetryDelay initial limit (nt_attempts n1) e)\<rparr>, True)))"

text \<open>
  The answers that arrive while the job stays managed, each with the time of the attempt and the settings
  read for it; every attempt is saved, and a failed save is only logged.
\<close>

fun deliverFailureNotification ::
  "int \<Rightarrow> int \<Rightarrow> (int \<times> telegram_config option \<times> telegram_answer) list \<Rightarrow> notification \<Rightarrow> meta_db \<Rightarrow> notification \<times> bool \<times> meta_db" where
  "deliverFailureNotification initial limit [] n db = (n, True, db)"
| "deliverFailureNotification initial limit ((now, tg, ans) # rest) n db =
     (let (n', again) = delivery_attempt initial limit now tg ans n;
          db' = (case SaveFailureNotification now n' db of Inl _ \<Rightarrow> db | Inr d \<Rightarrow> d) in
      if again then deliverFailureNotification initial limit rest n' db' else (n', False, db'))"

section \<open>Health alerts\<close>

abbreviation "jobHealthAlertCDCLag \<equiv> ''cdc_lag''"
abbreviation "jobHealthAlertCheckpointPurged \<equiv> ''checkpoint_purged''"
abbreviation "jobHealthAlertBackpressure \<equiv> ''backpressure''"

record alert_book =
  al_active :: "string \<rightharpoonup> string"
  al_sent :: "string \<rightharpoonup> int"

definition alert_key :: "string \<Rightarrow> string \<Rightarrow> string" where
  "alert_key k kind = trim_space k @ '':'' @ kind"

definition updateJobHealthIncident :: "string \<Rightarrow> string \<Rightarrow> string \<Rightarrow> alert_book \<Rightarrow> bool \<times> alert_book" where
  "updateJobHealthIncident k kind raw b =
     (let key = alert_key k kind; incident = trim_space raw in
      if incident = [] then (False, b\<lparr>al_active := (al_active b)(key := None), al_sent := (al_sent b)(key := None)\<rparr>)
      else if al_active b key = Some incident then (False, b)
      else (True, b\<lparr>al_active := (al_active b)(key \<mapsto> incident), al_sent := (al_sent b)(key := None)\<rparr>))"

definition dispatchJobHealthNotification :: "int \<Rightarrow> int \<Rightarrow> string \<Rightarrow> string \<Rightarrow> alert_book \<Rightarrow> bool \<times> alert_book" where
  "dispatchJobHealthNotification now cooldown_seconds k kind b =
     (let cooldown = (if cooldown_seconds * second \<le> 0 then 600 * second else cooldown_seconds * second); key = alert_key k kind in
      case al_sent b key of
        Some last_sent \<Rightarrow> if now - last_sent < cooldown then (False, b) else (True, b\<lparr>al_sent := (al_sent b)(key \<mapsto> now)\<rparr>)
      | None \<Rightarrow> (True, b\<lparr>al_sent := (al_sent b)(key \<mapsto> now)\<rparr>))"

definition clearJobHealthIncident :: "string \<Rightarrow> string \<Rightarrow> string \<Rightarrow> alert_book \<Rightarrow> alert_book" where
  "clearJobHealthIncident k kind incident b =
     (let key = alert_key k kind in
      if incident = [] \<or> al_active b key = Some incident
      then b\<lparr>al_active := (al_active b)(key := None), al_sent := (al_sent b)(key := None)\<rparr> else b)"

definition activeHealthIncident :: "bool \<Rightarrow> string" where
  "activeHealthIncident active = (if active then ''active'' else [])"

text \<open>One kind of alert: the incident is recorded first, and a new one is dispatched; the answer lists what was sent.\<close>

definition alert :: "int \<Rightarrow> telegram_config \<Rightarrow> string \<Rightarrow> string \<Rightarrow> string \<Rightarrow> alert_book \<Rightarrow> (string \<times> string) list \<times> alert_book" where
  "alert now tg k kind incident b =
     (let (fresh, b1) = updateJobHealthIncident k kind incident b in
      if \<not> fresh then ([], b1)
      else let (sent, b2) = dispatchJobHealthNotification now (tg_alert_cooldown_seconds tg) k kind b1 in
        (if sent then [(kind, incident)] else [], b2))"

definition purged_incident :: "job_progress \<Rightarrow> string" where
  "purged_incident p =
     (if equal_fold (trim_space (pg_binlog_status p)) ''purged''
      then trim_space (pg_checkpoint_file p) @ ''->'' @ trim_space (pg_earliest_file p) else [])"

definition lag_incident :: "telegram_config \<Rightarrow> job_progress \<Rightarrow> string" where
  "lag_incident tg p = activeHealthIncident (\<not> equal_fold (trim_space (pg_binlog_status p)) ''purged'' \<and>
     trim_space (pg_latest_file p) \<noteq> [] \<and> tg_cdc_lag_files_threshold tg \<le> pg_lag_files p)"

definition maybeNotifyJobHealth ::
  "(string \<Rightarrow> string option) \<Rightarrow> int \<Rightarrow> job \<Rightarrow> job_progress option \<Rightarrow> alert_book \<Rightarrow> (string \<times> string) list \<times> alert_book" where
  "maybeNotifyJobHealth env now j progress b =
     (case progress of
        None \<Rightarrow> ([], b)
      | Some p \<Rightarrow>
          if jb_status j \<noteq> JobStatusRunning then ([], b)
          else (case jobHealthTelegramConfig env (jb_config j) of
              None \<Rightarrow> ([], b)
            | Some tg \<Rightarrow>
                (let k = job_id j;
                     (s1, b1) = (if tg_notify_checkpoint_purged tg
                       then alert now tg k jobHealthAlertCheckpointPurged (purged_incident p) b else ([], b));
                     (s2, b2) = (if tg_notify_cdc_lag tg then alert now tg k jobHealthAlertCDCLag (lag_incident tg p) b1 else ([], b1));
                     (s3, b3) = (if tg_notify_backpressure tg
                       then alert now tg k jobHealthAlertBackpressure (activeHealthIncident (isBackpressureProgress (Some p))) b2 else ([], b2)) in
                 (s1 @ s2 @ s3, b3))))"

section \<open>Retries\<close>

lemma next_backoff: "0 < d \<Longrightarrow> d \<le> limit \<Longrightarrow> nextFailureNotificationBackoff d limit = min limit (2 * d)"
  by (simp add: nextFailureNotificationBackoff_def Let_def min_def)

lemma backoff_after_closed:
  assumes "0 < d" "d \<le> limit"
  shows "backoff_after n limit d = min limit (d * 2 ^ n)"
  using assms
proof (induction n arbitrary: d)
  case (Suc n)
  let ?e = "nextFailureNotificationBackoff d limit"
  have e: "?e = min limit (2 * d)" using Suc.prems by (rule next_backoff)
  then have "backoff_after n limit ?e = min limit (?e * 2 ^ n)" using Suc by simp
  also have "\<dots> = min limit (d * 2 ^ Suc n)"
  proof (cases "limit \<le> 2 * d")
    case True
    have "(1::int) \<le> 2 ^ n" by simp
    then have "2 * d * 1 \<le> 2 * d * 2 ^ n" "limit * 1 \<le> limit * 2 ^ n"
      using Suc.prems by (intro mult_left_mono; simp)+
    then show ?thesis using True e by (simp add: min_def mult.assoc mult.left_commute)
  qed (simp add: e min_def mult.assoc mult.left_commute)
  finally show ?case by simp
qed simp

text \<open>
  The wait before the next delivery of a failure notification doubles with every attempt and is capped:
  after \<open>n\<close> attempts it is \<open>min max (initial * 2 ^ (n - 1))\<close>, at least the initial wait and at most the
  maximum, unless the service named a wait of its own, which is then taken as it is.
\<close>

theorem failure_retry_delay:
  assumes "0 < initial" "initial \<le> limit" "1 \<le> attempts"
  shows "failureNotificationRetryDelay initial limit attempts e =
     (if 0 < de_retry_after e then de_retry_after e else min limit (initial * 2 ^ nat (attempts - 1))) \<and>
     (de_retry_after e \<le> 0 \<longrightarrow> initial \<le> failureNotificationRetryDelay initial limit attempts e \<and>
        failureNotificationRetryDelay initial limit attempts e \<le> limit)"
proof -
  have "initial * 1 \<le> initial * 2 ^ nat (attempts - 1)" using assms(1) by (intro mult_left_mono) auto
  then show ?thesis using assms backoff_after_closed [OF assms(1,2)] by (auto simp: failureNotificationRetryDelay_def)
qed

theorem failure_retry_delay_witness:
  "failureNotificationRetryDelay defaultFailureNotificationRetryInitial defaultFailureNotificationRetryMax 12
     \<lparr>de_text = [], de_permanent = False, de_retry_after = 0\<rparr> = defaultFailureNotificationRetryMax"
  using failure_retry_delay [of defaultFailureNotificationRetryInitial defaultFailureNotificationRetryMax 12
    "\<lparr>de_text = [], de_permanent = False, de_retry_after = 0\<rparr>"] by simp

section \<open>Deliveries and the outbox\<close>

text \<open>The attempts a list of answers uses, and what the last of them leaves.\<close>

lemma delivery_attempt_fields:
  assumes "delivery_attempt initial limit now tg ans n = (n', again)"
  shows "nt_incident n' = nt_incident n" "nt_job n' = nt_job n" "nt_payload n' = nt_payload n"
    "again \<longrightarrow> nt_state n' = FailureNotificationPending" "\<not> again \<longrightarrow> nt_state n' \<in> {FailureNotificationSent, FailureNotificationFailed}"
    "nt_attempts n' \<le> nt_attempts n + 1" "nt_state n' = FailureNotificationSent \<longrightarrow> nt_sent n' = Some now"
  using assms by (auto simp: delivery_attempt_def Let_def split: option.splits if_splits)

definition outbox_row :: "string \<Rightarrow> meta_db \<Rightarrow> notification_row option" where
  "outbox_row incident db = tbl_find fn_incident incident (db_notes db)"

lemma save_notification_row:
  assumes "nt_incident n \<noteq> []" "nt_job n \<noteq> []" "nt_state n \<noteq> []"
  obtains db' r where "SaveFailureNotification now n db = Inr db'" "outbox_row (nt_incident n) db' = Some r"
    "(\<forall>old. outbox_row (nt_incident n) db = Some old \<longrightarrow> fn_state old \<notin> {FailureNotificationSent, FailureNotificationFailed}) \<longrightarrow>
       fn_state r = nt_state n \<and> fn_attempts r = nt_attempts n"
proof -
  define new where "new = \<lparr>fn_incident = nt_incident n, fn_job = nt_job n, fn_payload = nt_payload n,
      fn_state = or_default FailureNotificationPending (nt_state n),
      fn_attempts = nt_attempts n, fn_next_attempt = nt_next n, fn_last_error = nt_last_error n,
      fn_created = (case nt_created n of None \<Rightarrow> now | Some t \<Rightarrow> t),
      fn_updated = (case nt_updated n of None \<Rightarrow> now | Some t \<Rightarrow> t), fn_sent = nt_sent n\<rparr>"
  define db' where "db' = db\<lparr>db_notes := tbl_upsert fn_incident (notification_upsert new) new (db_notes db)\<rparr>"
  have s: "SaveFailureNotification now n db = Inr db'"
    using assms by (simp add: SaveFailureNotification_def Let_def new_def db'_def)
  have k: "fn_incident (notification_upsert new r) = fn_incident r" for r by (simp add: notification_upsert_def Let_def)
  have "outbox_row (nt_incident n) db' = Some (case outbox_row (nt_incident n) db of None \<Rightarrow> new | Some old \<Rightarrow> notification_upsert new old)"
    unfolding outbox_row_def db'_def by (simp add: tbl_find_upsert k) (simp add: new_def split: option.splits)
  moreover have "fn_state new = nt_state n" "fn_attempts new = nt_attempts n" using assms(3) by (simp_all add: new_def or_default_def)
  ultimately show thesis using that [OF s] by (auto simp: notification_upsert_def Let_def split: option.splits)
qed


definition final_state :: "string \<Rightarrow> bool" where
  "final_state st \<longleftrightarrow> st = FailureNotificationSent \<or> st = FailureNotificationFailed"

definition open_incident :: "string \<Rightarrow> meta_db \<Rightarrow> bool" where
  "open_incident incident db \<longleftrightarrow> (\<forall>old. outbox_row incident db = Some old \<longrightarrow> \<not> final_state (fn_state old))"

lemma save_notification_step:
  assumes "nt_incident n \<noteq> []" "nt_job n \<noteq> []" "nt_state n \<noteq> []" "open_incident (nt_incident n) db"
  obtains db' r where "SaveFailureNotification now n db = Inr db'" "outbox_row (nt_incident n) db' = Some r"
    "fn_state r = nt_state n" "fn_attempts r = nt_attempts n"
  by (rule save_notification_row [OF assms(1-3), of now db]) (use assms(4) in \<open>auto simp: open_incident_def final_state_def\<close>)

text \<open>
  A failure notification is retried until it is settled, and the outbox says so. However many answers the
  service has given, the row of the incident holds the state and the number of attempts of the last of them:
  PENDING while another attempt will follow, SENT or FAILED once the delivery has stopped, and it stops at the
  first success or permanent refusal.
\<close>

theorem delivery_settles_outbox:
  assumes "nt_incident n \<noteq> []" "nt_job n \<noteq> []" "open_incident (nt_incident n) db" "answers \<noteq> []"
    "deliverFailureNotification initial limit answers n db = (n', again, db')"
  shows "\<exists>r. outbox_row (nt_incident n) db' = Some r \<and> fn_state r = nt_state n' \<and> fn_attempts r = nt_attempts n' \<and>
     nt_attempts n' \<le> nt_attempts n + int (length answers) \<and> (final_state (fn_state r) \<longleftrightarrow> \<not> again) \<and>
     (again \<longrightarrow> fn_state r = FailureNotificationPending)"
  using assms
proof (induction initial limit answers n db arbitrary: n' again db' rule: deliverFailureNotification.induct)
  case (2 initial limit now tg ans rest n db)
  obtain n1 go where a: "delivery_attempt initial limit now tg ans n = (n1, go)" by fastforce
  note f = delivery_attempt_fields [OF a]
  have st: "nt_state n1 \<noteq> []" using f(4,5) by (cases go) auto
  obtain db1 r where s: "SaveFailureNotification now n1 db = Inr db1" "outbox_row (nt_incident n1) db1 = Some r"
    "fn_state r = nt_state n1" "fn_attempts r = nt_attempts n1"
    by (rule save_notification_step [of n1 db now]) (use "2.prems"(1-3) f(1,2) st in auto)
  show ?case
  proof (cases "go \<and> rest \<noteq> []")
    case True
    have step: "deliverFailureNotification initial limit rest n1 db1 = (n', again, db')" using "2.prems"(5) a s(1) True by simp
    have "open_incident (nt_incident n1) db1" using s f(4) True by (simp add: open_incident_def final_state_def)
    moreover have "db1 = (case SaveFailureNotification now n1 db of Inl x \<Rightarrow> db | Inr d \<Rightarrow> d)" using s(1) by simp
    ultimately have "\<exists>r. outbox_row (nt_incident n1) db' = Some r \<and> fn_state r = nt_state n' \<and> fn_attempts r = nt_attempts n' \<and>
       nt_attempts n' \<le> nt_attempts n1 + int (length rest) \<and> (final_state (fn_state r) \<longleftrightarrow> \<not> again) \<and>
       (again \<longrightarrow> fn_state r = FailureNotificationPending)"
      using "2.IH" [OF a [symmetric] refl _ _ _ _ _ _ step] True f(1,2) "2.prems"(1,2) by simp
    then show ?thesis using f(1,6) by auto
  next
    case False
    then have "n' = n1 \<and> db' = db1 \<and> again = go" using "2.prems"(5) a s(1) by (cases go) auto
    then show ?thesis using s f by (cases go) (auto simp: final_state_def)
  qed
qed simp

definition sample_notification :: notification where
  "sample_notification = \<lparr>nt_incident = ''failure-1'', nt_job = ''a'', nt_payload = ''{}'', nt_state = FailureNotificationPending,
     nt_attempts = 0, nt_next = None, nt_last_error = [], nt_created = None, nt_updated = None, nt_sent = None\<rparr>"

definition sample_telegram :: telegram_config where
  "sample_telegram = \<lparr>tg_enabled = True, tg_bot_token = ''t'', tg_chat_id = ''c'', tg_ui_base_url = [], tg_notify_job_failed = True,
     tg_notify_cdc_lag = True, tg_notify_checkpoint_purged = False, tg_notify_backpressure = False,
     tg_cdc_lag_files_threshold = 2, tg_alert_cooldown_seconds = 600\<rparr>"

theorem delivery_settles_outbox_witness:
  "let (n', again, db') = deliverFailureNotification second (600 * second)
       [(10, Some sample_telegram, HttpError 503 ''busy'' 0), (20, Some sample_telegram, Delivered)] sample_notification (sample_db []) in
   \<not> again \<and> (\<exists>r. outbox_row ''failure-1'' db' = Some r \<and> fn_state r = FailureNotificationSent \<and> fn_attempts r = 2)"
proof -
  let ?as = "[(10, Some sample_telegram, HttpError 503 ''busy'' 0), (20, Some sample_telegram, Delivered)]"
  obtain n' again db' where r: "deliverFailureNotification second (600 * second) ?as sample_notification (sample_db []) = (n', again, db')"
    by (metis prod_cases3)
  have e: "(\<lambda>(n, g, _). nt_state n = FailureNotificationSent \<and> nt_attempts n = 2 \<and> \<not> g)
      (deliverFailureNotification second (600 * second) ?as sample_notification (sample_db []))" by code_simp
  have "open_incident (nt_incident sample_notification) (sample_db [])"
    by (simp add: open_incident_def outbox_row_def sample_db_def table_simps)
  from delivery_settles_outbox [OF _ _ this _ r] e r show ?thesis by (auto simp: sample_notification_def)
qed

section \<open>Incidents\<close>

text \<open>
  A health alert is sent exactly when its incident is new: a report that repeats the active incident
  sends nothing, one that names another incident sends it, and one without an incident forgets the active
  one, so that the next is new again. Neither the time of the last alert nor the configured cooldown plays
  a part. Incidents of other jobs and of other kinds are untouched.
\<close>

theorem alert_once_per_incident:
  "fst (alert now tg k kind incident b) =
     (if trim_space incident \<noteq> [] \<and> al_active b (alert_key k kind) \<noteq> Some (trim_space incident) then [(kind, incident)] else []) \<and>
   al_active (snd (alert now tg k kind incident b)) =
     (al_active b)(alert_key k kind := if trim_space incident = [] then None else Some (trim_space incident))"
  by (auto simp: alert_def updateJobHealthIncident_def dispatchJobHealthNotification_def Let_def fun_eq_iff)

end
