(* ===== verification/Event_Model.thy ===== *)
theory Event_Model
  imports Config_Model Binlog
begin

text \<open>
  The events that flow from a source to a sink (\<open>pkg/model/types.go\<close>) and the translation of MySQL DDL
  into schema changes (\<open>pkg/schemachange/mysql.go\<close>). The SQL parser is a library: its syntax tree is an
  argument, with the fields the code reads.

  The lemmas show that an ALTER TABLE is translated specification by specification, in order and without
  a change that its statement does not ask for.
\<close>

section \<open>Cells, schemas and events\<close>

text \<open>A value the MySQL driver delivers. A float is its exact value: MySQL stores no infinities.\<close>

datatype cell =
    CNull
  | CBytes string
  | CStr string
  | CInt int
  | CUint nat
  | CFloat rat
  | CBool bool
  | CTime int

type_synonym row_data = "(string \<times> cell) list"

record table_column =
  tc_name :: string
  tc_data_type :: string
  tc_column_type :: string
  tc_char_max :: "int option"
  tc_precision :: "int option"
  tc_scale :: "int option"
  tc_nullable :: bool
  tc_pk :: bool

record table_schema =
  ts_schema :: string
  ts_table :: string
  ts_columns :: "table_column list"

abbreviation "EventTypeInsert \<equiv> ''INSERT''"
abbreviation "EventTypeUpdate \<equiv> ''UPDATE''"
abbreviation "EventTypeDelete \<equiv> ''DELETE''"
abbreviation "EventTypeDDL \<equiv> ''DDL''"
abbreviation "EventTypeCheckpoint \<equiv> ''CHECKPOINT''"
abbreviation "EventTypeSnapshotBatch \<equiv> ''SNAPSHOT_BATCH''"
abbreviation "EventTypeSnapshotTableEnd \<equiv> ''SNAPSHOT_TABLE_COMPLETE''"
abbreviation "EventTypeSnapshotStart \<equiv> ''SNAPSHOT_START''"
abbreviation "EventTypeSnapshotComplete \<equiv> ''SNAPSHOT_COMPLETE''"
abbreviation "EventOriginSnapshot \<equiv> ''SNAPSHOT''"
abbreviation "EventOriginCDC \<equiv> ''CDC''"

abbreviation "SchemaChangeAddColumn \<equiv> ''add.column''"
abbreviation "SchemaChangeAlterColumnType \<equiv> ''alter.column.type''"
abbreviation "SchemaChangeCreateTable \<equiv> ''create.table''"
abbreviation "SchemaChangeDropColumn \<equiv> ''drop.column''"
abbreviation "SchemaChangeDropTable \<equiv> ''drop.table''"
abbreviation "SchemaChangeRenameColumn \<equiv> ''rename.column''"
abbreviation "SchemaChangeTruncateTable \<equiv> ''truncate.table''"
abbreviation "ColumnPositionLast \<equiv> ''last''"
abbreviation "ColumnPositionFirst \<equiv> ''first''"
abbreviation "ColumnPositionAfter \<equiv> ''after''"

record schema_change =
  sc_type :: string
  sc_column :: "table_column option"
  sc_old :: string
  sc_new :: string
  sc_position :: string
  sc_after :: string

definition change_of :: "string \<Rightarrow> schema_change" where
  "change_of ty = \<lparr>sc_type = ty, sc_column = None, sc_old = [], sc_new = [], sc_position = [], sc_after = []\<rparr>"

text \<open>\<open>ev_ack\<close>: the event carries a channel on which the sink answers. The timestamp is left out.\<close>

record event =
  ev_type :: string
  ev_trace :: string
  ev_schema :: string
  ev_table :: string
  ev_data :: row_data
  ev_rows :: "row_data list"
  ev_old :: row_data
  ev_ddl :: string
  ev_origin :: string
  ev_offset :: "source_offset option"
  ev_source_schema :: "table_schema option"
  ev_changes :: "schema_change list"
  ev_start :: int
  ev_rolling :: bool
  ev_ack :: bool

definition blank_event :: event where
  "blank_event = \<lparr>ev_type = [], ev_trace = [], ev_schema = [], ev_table = [], ev_data = [], ev_rows = [], ev_old = [],
     ev_ddl = [], ev_origin = [], ev_offset = None, ev_source_schema = None, ev_changes = [], ev_start = 0,
     ev_rolling = False, ev_ack = False\<rparr>"

section \<open>Schema changes of a DDL statement\<close>

text \<open>
  The parser's tree. \<open>ft_text\<close> and \<open>ft_name\<close> are what the type prints as; \<open>TypeText\<close> stands for the
  string and blob types, \<open>TypeDecimal\<close> for the exact numeric one.
\<close>

datatype column_class = TypeText | TypeDecimal | TypeOther

record field_type =
  ft_text :: string
  ft_name :: string
  ft_class :: column_class
  ft_flen :: int
  ft_decimal :: int

datatype column_option = OptNotNull | OptNull | OptPrimaryKey | OptOther

record column_def =
  cd_name :: "string option"
  cd_type :: "field_type option"
  cd_options :: "column_option list"

datatype position_kind = PosFirst | PosAfter "string option" | PosNone

datatype alter_kind = AddColumns | ModifyColumn | ChangeColumn | DropColumn | RenameColumn | OtherAlter

record alter_spec =
  as_kind :: alter_kind
  as_columns :: "column_def list"
  as_position :: "position_kind option"
  as_old_name :: "string option"
  as_new_name :: "string option"

datatype ddl_stmt = CreateTableStmt | DropTableStmt | TruncateTableStmt | AlterTableStmt "alter_spec list" | OtherStmt

definition mysqlColumnPosition :: "position_kind option \<Rightarrow> string \<times> string" where
  "mysqlColumnPosition p' =
     (case p' of
        Some PosFirst \<Rightarrow> (ColumnPositionFirst, [])
      | Some (PosAfter (Some c)) \<Rightarrow> (ColumnPositionAfter, c)
      | _ \<Rightarrow> ([], []))"

fun apply_option :: "table_column \<Rightarrow> column_option \<Rightarrow> table_column" where
  "apply_option c OptNotNull = c\<lparr>tc_nullable := False\<rparr>"
| "apply_option c OptNull = c\<lparr>tc_nullable := True\<rparr>"
| "apply_option c OptPrimaryKey = c\<lparr>tc_pk := True, tc_nullable := False\<rparr>"
| "apply_option c OptOther = c"

definition mysqlColumn :: "column_def \<Rightarrow> string + table_column" where
  "mysqlColumn d =
     (case (cd_name d, cd_type d) of
        (Some name, Some t) \<Rightarrow>
          Inr (foldl apply_option
            \<lparr>tc_name = name, tc_data_type = to_lower (ft_name t), tc_column_type = to_lower (ft_text t),
             tc_char_max = (if ft_class t = TypeText \<and> 0 < ft_flen t then Some (ft_flen t) else None),
             tc_precision = (if ft_class t = TypeDecimal \<and> 0 < ft_flen t then Some (ft_flen t) else None),
             tc_scale = (if ft_class t = TypeDecimal \<and> 0 \<le> ft_decimal t then Some (ft_decimal t) else None),
             tc_nullable = True, tc_pk = False\<rparr> (cd_options d))
      | _ \<Rightarrow> Inl ''mysql column definition is incomplete'')"

definition added_column :: "position_kind option \<Rightarrow> table_column \<Rightarrow> schema_change" where
  "added_column p' c =
     (let (position, after) = mysqlColumnPosition p' in
      (change_of SchemaChangeAddColumn)\<lparr>sc_column := Some c,
         sc_position := (if position = [] then ColumnPositionLast else position), sc_after := after\<rparr>)"

definition altered_column :: "position_kind option \<Rightarrow> table_column \<Rightarrow> schema_change" where
  "altered_column p' c =
     (let (position, after) = mysqlColumnPosition p' in
      (change_of SchemaChangeAlterColumnType)\<lparr>sc_column := Some c, sc_position := position, sc_after := after\<rparr>)"

definition renamed_column :: "string \<Rightarrow> string \<Rightarrow> schema_change" where
  "renamed_column old new = (change_of SchemaChangeRenameColumn)\<lparr>sc_old := old, sc_new := new\<rparr>"

fun mysql_columns :: "column_def list \<Rightarrow> string + table_column list" where
  "mysql_columns [] = Inr []"
| "mysql_columns (d # ds) =
     (case mysqlColumn d of
        Inl e \<Rightarrow> Inl e
      | Inr c \<Rightarrow> (case mysql_columns ds of Inl e \<Rightarrow> Inl e | Inr cs \<Rightarrow> Inr (c # cs)))"

definition alter_changes :: "alter_spec \<Rightarrow> string + schema_change list" where
  "alter_changes s =
     (case as_kind s of
        AddColumns \<Rightarrow>
          (case mysql_columns (as_columns s) of
             Inl e \<Rightarrow> Inl e | Inr cs \<Rightarrow> Inr (map (added_column (as_position s)) cs))
      | ModifyColumn \<Rightarrow>
          (case as_columns s of
             [] \<Rightarrow> Inl ''mysql MODIFY COLUMN has no column definition''
           | d # _ \<Rightarrow> (case mysqlColumn d of
               Inl e \<Rightarrow> Inl e | Inr c \<Rightarrow> Inr [altered_column (as_position s) c]))
      | ChangeColumn \<Rightarrow>
          (case (as_old_name s, as_columns s) of
             (Some old, d # _) \<Rightarrow> (case mysqlColumn d of
                 Inl e \<Rightarrow> Inl e
               | Inr c \<Rightarrow> Inr ((if equal_fold old (tc_name c) then [] else [renamed_column old (tc_name c)]) @
                              [altered_column (as_position s) c]))
           | _ \<Rightarrow> Inl ''mysql CHANGE COLUMN is incomplete'')
      | DropColumn \<Rightarrow>
          (case as_old_name s of
             None \<Rightarrow> Inl ''mysql DROP COLUMN has no column name''
           | Some old \<Rightarrow> Inr [(change_of SchemaChangeDropColumn)\<lparr>sc_old := old\<rparr>])
      | RenameColumn \<Rightarrow>
          (case (as_old_name s, as_new_name s) of
             (Some old, Some new) \<Rightarrow> Inr [renamed_column old new]
           | _ \<Rightarrow> Inl ''mysql RENAME COLUMN is incomplete'')
      | OtherAlter \<Rightarrow> Inr [])"

fun mysqlAlterTableChanges :: "alter_spec list \<Rightarrow> string + schema_change list" where
  "mysqlAlterTableChanges [] = Inr []"
| "mysqlAlterTableChanges (s # ss) =
     (case alter_changes s of
        Inl e \<Rightarrow> Inl e
      | Inr cs \<Rightarrow> (case mysqlAlterTableChanges ss of Inl e \<Rightarrow> Inl e | Inr cs' \<Rightarrow> Inr (cs @ cs')))"

definition ParseMySQLDDL :: "(string \<Rightarrow> string + ddl_stmt) \<Rightarrow> string \<Rightarrow> string + schema_change list" where
  "ParseMySQLDDL parse raw =
     (let ddl = trim_space raw in
      if ddl = [] then Inr []
      else case parse ddl of
        Inl e \<Rightarrow> Inl (''parse mysql ddl: '' @ e)
      | Inr CreateTableStmt \<Rightarrow> Inr [change_of SchemaChangeCreateTable]
      | Inr DropTableStmt \<Rightarrow> Inr [change_of SchemaChangeDropTable]
      | Inr TruncateTableStmt \<Rightarrow> Inr [change_of SchemaChangeTruncateTable]
      | Inr (AlterTableStmt specs) \<Rightarrow> mysqlAlterTableChanges specs
      | Inr OtherStmt \<Rightarrow> Inr [])"

text \<open>An accepted ALTER TABLE yields the changes of its specifications, in their order.\<close>

lemma alter_changes_in_order:
  "mysqlAlterTableChanges specs = Inr cs \<Longrightarrow>
     \<exists>css. list_all2 (\<lambda>s c. alter_changes s = Inr c) specs css \<and> cs = concat css"
proof (induction specs arbitrary: cs)
  case (Cons s specs)
  then obtain c cs' where "alter_changes s = Inr c" "mysqlAlterTableChanges specs = Inr cs'" "cs = c @ cs'"
    by (auto split: sum.splits)
  then obtain css where "list_all2 (\<lambda>s c. alter_changes s = Inr c) specs css" "cs' = concat css"
    using Cons.IH [of cs'] by blast
  then show ?case using \<open>alter_changes s = Inr c\<close> \<open>cs = c @ cs'\<close> by (intro exI [of _ "c # css"]) simp
qed simp

text \<open>A primary key column is never nullable, whatever the order of its options before the key.\<close>

lemma key_column_last: "mysqlColumn d = Inr c \<Longrightarrow> cd_options d = os @ [OptPrimaryKey] \<Longrightarrow> tc_pk c \<and> \<not> tc_nullable c"
  by (auto simp: mysqlColumn_def split: option.splits)

end
