(* ===== verification/MySQL_Tables.thy ===== *)
theory MySQL_Tables
  imports Rebuild_Config Event_Model
begin

text \<open>
  Table selection and snapshot plans of the MySQL source: the parts of
  \<open>pkg/connectors/mysql/source.go\<close> and \<open>register.go\<close> that read configuration, table schemas and DDL text.
  What the server answers is an argument.

  The lemmas show which tables a configuration selects, that the settings found for a table do not depend on
  the order of the configuration map, and that a snapshot plan orders by columns the table has.
\<close>

section \<open>Names\<close>

fun replace_all :: "string \<Rightarrow> string \<Rightarrow> string \<Rightarrow> string" where
  "replace_all old new [] = []"
| "replace_all old new (c # s) =
     (if old \<noteq> [] \<and> has_prefix old (c # s) then new @ replace_all old new (drop (length old - 1) s)
      else c # replace_all old new s)"

definition escapeMySQLIdentifier :: "string \<Rightarrow> string" where
  "escapeMySQLIdentifier v = concat (map (\<lambda>c. if c = CHR 0x60 then [CHR 0x60, CHR 0x60] else [c]) v)"

definition quote_ident :: "string \<Rightarrow> string" where
  "quote_ident v = [CHR 0x60] @ escapeMySQLIdentifier v @ [CHR 0x60]"

definition quotedColumnList :: "string list \<Rightarrow> string" where
  "quotedColumnList cols = str_join '', '' (map quote_ident cols)"

definition splitDBTable :: "string \<Rightarrow> (string \<times> string) option" where
  "splitDBTable raw =
     (let s = trim_space raw in
      if s = [] then None
      else case split_on CHR ''.'' s of
        [a, b] \<Rightarrow> (let db = trim_space a; tbl = trim_space b in
            if db = [] \<or> tbl = [] then None else Some (to_lower db, to_lower tbl))
      | _ \<Rightarrow> None)"

text \<open>The result is schema, table pattern and whether the entry is a wildcard.\<close>

definition parseConfiguredTableEntry :: "string \<Rightarrow> (string \<times> string \<times> bool) option" where
  "parseConfiguredTableEntry raw0 =
     (let raw = trim_space raw0 in
      if raw = [] then None
      else case split_on CHR ''.'' raw of
        [a, b] \<Rightarrow>
          (let db = to_lower (trim_space a); tbl = to_lower (trim_space b) in
           if db = [] \<or> tbl = [] then None
           else if tbl = ''*'' then Some (db, [], True)
           else if CHR ''*'' \<in> set tbl then Some (db, tbl, True)
           else Some (db, tbl, False))
      | _ \<Rightarrow> None)"

definition matchTableGlob :: "string \<Rightarrow> string \<Rightarrow> bool" where
  "matchTableGlob pattern0 table0 \<longleftrightarrow>
     (let pattern = to_lower (trim_space pattern0); table = to_lower (trim_space table0) in
      if pattern = [] \<or> pattern = ''*'' then True
      else if CHR ''*'' \<notin> set pattern then pattern = table
      else star_match pattern table)"

section \<open>The selected tables\<close>

definition full_name :: "string \<Rightarrow> string \<Rightarrow> string" where
  "full_name db tbl = db @ ''.'' @ tbl"

text \<open>A table is added unless one of the same folded name is there already.\<close>

definition add_table :: "string \<Rightarrow> string list \<Rightarrow> string list" where
  "add_table full out = (if to_lower full \<in> to_lower ` set out then out else out @ [full])"

definition bad_entry :: "string \<Rightarrow> string \<Rightarrow> string" where
  "bad_entry entry form = ''bad mysql.tables entry: '' @ entry @ '' (expected '' @ form @ '')''"

definition expand_entry ::
  "(string \<Rightarrow> string + string list) \<Rightarrow> string \<Rightarrow> string list \<Rightarrow> string + string list" where
  "expand_entry listTables entry out =
     (case parseConfiguredTableEntry entry of
        None \<Rightarrow> Inl (bad_entry entry ''db.table or db.*'')
      | Some (db, tbl, wildcard) \<Rightarrow>
          if \<not> wildcard then Inr (add_table (full_name db tbl) out)
          else (let pattern = (if tbl = [] then ''*'' else tbl) in
            case listTables db of
              Inl e \<Rightarrow> Inl (''expand mysql.tables wildcard '' @ full_name db pattern @ '' failed: '' @ e)
            | Inr tables \<Rightarrow>
                (case filter (matchTableGlob pattern) tables of
                   [] \<Rightarrow> Inl (''mysql.tables wildcard '' @ full_name db pattern @ '' matched no tables'')
                 | matched \<Rightarrow> Inr (fold (\<lambda>t. add_table (full_name db t)) matched out))))"

fun expand_tables :: "(string \<Rightarrow> string + string list) \<Rightarrow> string list \<Rightarrow> string list \<Rightarrow> string + string list" where
  "expand_tables listTables [] out = Inr out"
| "expand_tables listTables (entry # entries) out =
     (case expand_entry listTables entry out of
        Inl e \<Rightarrow> Inl e
      | Inr out' \<Rightarrow> expand_tables listTables entries out')"

definition expandConfiguredTables :: "(string \<Rightarrow> string + string list) \<Rightarrow> string list \<Rightarrow> string + string list" where
  "expandConfiguredTables listTables entries = expand_tables listTables entries []"

text \<open>The rows of the two catalogue queries; a scan error ends the first.\<close>

fun listBaseTablesInSchema :: "(string + string) list \<Rightarrow> string + string list" where
  "listBaseTablesInSchema [] = Inr []"
| "listBaseTablesInSchema (Inl e # rows) = Inl e"
| "listBaseTablesInSchema (Inr n # rows) =
     (case listBaseTablesInSchema rows of
        Inl e \<Rightarrow> Inl e
      | Inr names \<Rightarrow> Inr (if trim_space n = [] then names else trim_space n # names))"

definition lookupTableType :: "string + string option \<Rightarrow> string \<Rightarrow> string \<Rightarrow> string + string" where
  "lookupTableType answer db tbl =
     (case answer of
        Inl e \<Rightarrow> Inl e
      | Inr None \<Rightarrow> Inl (''mysql.tables entry '' @ full_name db tbl @ '' not found'')
      | Inr (Some ty) \<Rightarrow> Inr (to_upper (trim_space ty)))"

fun filter_base_tables ::
  "(string \<Rightarrow> string \<Rightarrow> string + string) \<Rightarrow> string list \<Rightarrow> string + (string list \<times> string list)" where
  "filter_base_tables lookup [] = Inr ([], [])"
| "filter_base_tables lookup (entry # entries) =
     (case splitDBTable entry of
        None \<Rightarrow> Inl (bad_entry entry ''db.table'')
      | Some (db, tbl) \<Rightarrow>
          (case lookup db tbl of
             Inl e \<Rightarrow> Inl e
           | Inr ty \<Rightarrow>
               (case filter_base_tables lookup entries of
                  Inl e \<Rightarrow> Inl e
                | Inr (out, skipped) \<Rightarrow>
                    if ty = ''BASE TABLE'' then Inr (full_name db tbl # out, skipped)
                    else Inr (out, full_name db tbl # skipped))))"

definition filterConfiguredTablesToBaseTables ::
  "(string \<Rightarrow> string \<Rightarrow> string + string) \<Rightarrow> string list \<Rightarrow> string + (string list \<times> string list)" where
  "filterConfiguredTablesToBaseTables lookup entries =
     (case filter_base_tables lookup entries of
        Inl e \<Rightarrow> Inl e
      | Inr (out, skipped) \<Rightarrow>
          if out = [] then Inl ''mysql.tables resolved to no base tables after skipping non-table objects''
          else Inr (out, skipped))"

text \<open>What \<open>NewSource\<close> does with the configured tables once the server answers.\<close>

definition allowed_tables :: "string list \<Rightarrow> string set" where
  "allowed_tables tables = {t \<in> (\<lambda>t. to_lower (trim_space t)) ` set tables. t \<noteq> []}"

definition source_tables ::
  "(string \<Rightarrow> string + string list) \<Rightarrow> (string \<Rightarrow> string \<Rightarrow> string + string) \<Rightarrow> string list \<Rightarrow>
     string + (string list \<times> string set)" where
  "source_tables listTables lookup configured =
     (case expandConfiguredTables listTables configured of
        Inl e \<Rightarrow> Inl e
      | Inr expanded \<Rightarrow>
          (case filterConfiguredTablesToBaseTables lookup expanded of
             Inl e \<Rightarrow> Inl e
           | Inr (tables, _) \<Rightarrow> Inr (tables, allowed_tables tables)))"

section \<open>Settings of a table\<close>

text \<open>
  \<open>path.Match\<close>: a star stops at a slash, a question mark is any byte but a slash, a class is a list of
  bytes and ranges, optionally negated. MySQL names hold no slash, so the result does not depend on which
  of several matches of a star is tried.
\<close>

fun strip_char :: "char \<Rightarrow> string \<Rightarrow> string option" where
  "strip_char c [] = None"
| "strip_char c (d # s) = (if d = c then Some s else None)"

fun class_char :: "string \<Rightarrow> (char \<times> string) option" where
  "class_char [] = None"
| "class_char (c # s) =
     (if c = CHR ''-'' \<or> c = CHR '']'' \<or> s = [] then None
      else if c = CHR 0x5C then (if tl s = [] then None else Some (hd s, tl s))
      else Some (c, s))"

lemma strip_char_shorter: "strip_char c s = Some t \<Longrightarrow> length t < length s"
  by (cases s) (auto split: if_splits)

lemma class_char_shorter: "class_char s = Some (c, t) \<Longrightarrow> length t < length s"
  by (cases s) (auto split: if_splits)

function class_ranges :: "char \<Rightarrow> bool \<Rightarrow> bool \<Rightarrow> string \<Rightarrow> (bool \<times> string) option" where
  "class_ranges r nonempty hit s =
     (case strip_char CHR '']'' s of
        Some t \<Rightarrow> if nonempty then Some (hit, t) else None
      | None \<Rightarrow>
          (case class_char s of
             None \<Rightarrow> None
           | Some (lo, t) \<Rightarrow>
               (case strip_char CHR ''-'' t of
                  None \<Rightarrow> class_ranges r True (hit \<or> lo = r) t
                | Some u \<Rightarrow>
                    (case class_char u of
                       None \<Rightarrow> None
                     | Some (hi, v) \<Rightarrow>
                         class_ranges r True (hit \<or> (of_char lo :: nat) \<le> of_char r \<and> (of_char r :: nat) \<le> of_char hi) v))))"
  by pat_completeness auto

termination by (relation "measure (\<lambda>(r, n, h, s). length s)") (auto dest!: class_char_shorter strip_char_shorter)

declare class_ranges.simps [simp del]

lemma class_ranges_shorter: "class_ranges r n h s = Some (b, t) \<Longrightarrow> length t < length s"
proof (induction r n h s rule: class_ranges.induct)
  case (1 r n h s)
  note step = 1(3) [unfolded class_ranges.simps [of r n h s]]
  show ?case
  proof (cases "strip_char CHR '']'' s")
    case (Some u)
    then show ?thesis using step strip_char_shorter [OF Some] by (simp split: if_splits)
  next
    case close: None
    with step obtain lo u where lo: "class_char s = Some (lo, u)" by (auto split: option.splits)
    note u = class_char_shorter [OF lo]
    show ?thesis
    proof (cases "strip_char CHR ''-'' u")
      case None
      then show ?thesis using 1(1) [OF close lo refl None] step close lo u by simp
    next
      case (Some v)
      with step close lo obtain hi w where hi: "class_char v = Some (hi, w)" by (auto split: option.splits)
      then show ?thesis
        using 1(2) [OF close lo refl Some hi refl] step close lo u Some class_char_shorter [OF hi] strip_char_shorter [OF Some] by simp
    qed
  qed
qed

definition path_class :: "char \<Rightarrow> string \<Rightarrow> (bool \<times> string) option" where
  "path_class r s =
     (case strip_char CHR ''^'' s of
        Some t \<Rightarrow> map_option (\<lambda>(hit, u). (\<not> hit, u)) (class_ranges r False False t)
      | None \<Rightarrow> class_ranges r False False s)"

lemma path_class_shorter: "path_class r s = Some (b, t) \<Longrightarrow> length t < length s"
  by (auto simp: path_class_def split: option.splits dest!: class_ranges_shorter strip_char_shorter)

function glob_match :: "string \<Rightarrow> string \<Rightarrow> bool" where
  "glob_match [] v \<longleftrightarrow> v = []"
| "glob_match (p # ps) v \<longleftrightarrow>
     (if p = CHR ''*'' then
        glob_match ps v \<or> (case v of [] \<Rightarrow> False | c # cs \<Rightarrow> c \<noteq> CHR ''/'' \<and> glob_match (p # ps) cs)
      else if p = CHR 0x5C then
        (case ps of [] \<Rightarrow> False | q # qs \<Rightarrow> (case v of [] \<Rightarrow> False | c # cs \<Rightarrow> q = c \<and> glob_match qs cs))
      else if p = CHR ''?'' then (case v of [] \<Rightarrow> False | c # cs \<Rightarrow> c \<noteq> CHR ''/'' \<and> glob_match ps cs)
      else if p = CHR ''['' then
        (case v of [] \<Rightarrow> False | c # cs \<Rightarrow>
           (case path_class c ps of Some (True, qs) \<Rightarrow> glob_match qs cs | _ \<Rightarrow> False))
      else (case v of [] \<Rightarrow> False | c # cs \<Rightarrow> p = c \<and> glob_match ps cs))"
  by pat_completeness auto

termination
  by (relation "measure (\<lambda>(p, v). length p + length v)") (auto dest!: path_class_shorter)

definition mysqlTableConfigPatternMatches :: "string \<Rightarrow> string \<Rightarrow> string \<Rightarrow> bool" where
  "mysqlTableConfigPatternMatches key0 full0 short0 \<longleftrightarrow>
     (let key = to_lower (trim_space key0); full = to_lower (trim_space full0); short = to_lower (trim_space short0) in
      key \<noteq> [] \<and> (glob_match key full \<or> CHR ''.'' \<notin> set key \<and> glob_match key short))"

definition mysqlTableConfigPatternSpecificity :: "string \<Rightarrow> nat" where
  "mysqlTableConfigPatternSpecificity key = length (filter (\<lambda>c. c \<notin> {CHR ''*'', CHR ''?''}) key)"

text \<open>The sorted matches: the highest score first, then the smallest key.\<close>

definition config_before :: "string \<Rightarrow> string \<Rightarrow> bool" where
  "config_before x y \<longleftrightarrow>
     (let a = mysqlTableConfigPatternSpecificity x; b = mysqlTableConfigPatternSpecificity y in
      if a \<noteq> b then b < a else str_less x y)"

fun best_config_key :: "string list \<Rightarrow> string option" where
  "best_config_key [] = None"
| "best_config_key (k # ks) =
     (case best_config_key ks of None \<Rightarrow> Some k | Some m \<Rightarrow> Some (if config_before m k then m else k))"

definition tableConfigForTable :: "mysql_config \<Rightarrow> string \<Rightarrow> string \<Rightarrow> mysql_table_config option" where
  "tableConfigForTable cfg db tbl =
     (let entries = my_table_configs cfg; full = to_lower (trim_space (full_name db tbl)); short = to_lower (trim_space tbl) in
      case map_get entries full of
        Some c \<Rightarrow> Some c
      | None \<Rightarrow>
          (case map_get entries short of
             Some c \<Rightarrow> Some c
           | None \<Rightarrow>
               (case best_config_key (filter (\<lambda>k. contains_any k ''*?'' \<and> mysqlTableConfigPatternMatches k full short) (map fst entries)) of
                  None \<Rightarrow> None | Some k \<Rightarrow> map_get entries k)))"

text \<open>
  The two placeholders are replaced in the order in which Go ranges over a map of two entries, which is
  not determined: \<open>schema_first\<close> says which comes first.
\<close>

definition renderSnapshotConfigExpression :: "bool \<Rightarrow> string \<Rightarrow> string \<Rightarrow> string \<Rightarrow> string" where
  "renderSnapshotConfigExpression schema_first expr db tbl =
     (let schema = replace_all ''{{schema}}'' (escapeMySQLIdentifier db);
          table = replace_all ''{{table}}'' (escapeMySQLIdentifier tbl) in
      if schema_first then table (schema (trim_space expr)) else schema (table (trim_space expr)))"

definition snapshotFilterForTable :: "bool \<Rightarrow> mysql_config \<Rightarrow> string \<Rightarrow> string \<Rightarrow> string" where
  "snapshotFilterForTable o' cfg db tbl =
     (case tableConfigForTable cfg db tbl of
        None \<Rightarrow> [] | Some c \<Rightarrow> renderSnapshotConfigExpression o' (mt_filter c) db tbl)"

definition extra_select :: "bool \<Rightarrow> string \<Rightarrow> string \<Rightarrow> extra_column \<Rightarrow> string list" where
  "extra_select o' db tbl x =
     (let expr = renderSnapshotConfigExpression o' (ec_expression x) db tbl in
      if trim_space expr = [] \<or> trim_space (ec_name x) = [] then []
      else [''('' @ expr @ '') AS '' @ quote_ident (ec_name x)])"

definition snapshotSelectListForTable :: "bool \<Rightarrow> mysql_config \<Rightarrow> string \<Rightarrow> string \<Rightarrow> string" where
  "snapshotSelectListForTable o' cfg db tbl =
     (let all = quote_ident tbl @ ''.*'' in
      case tableConfigForTable cfg db tbl of
        None \<Rightarrow> all
      | Some c \<Rightarrow> str_join '', '' (all # concat (map (extra_select o' db tbl) (mt_extra_columns c))))"

section \<open>Schemas\<close>

text \<open>One row of \<open>INFORMATION_SCHEMA.COLUMNS\<close>.\<close>

record column_row =
  cr_name :: string
  cr_data_type :: string
  cr_column_type :: string
  cr_nullable :: string
  cr_key :: string
  cr_char_max :: "int option"
  cr_precision :: "int option"
  cr_scale :: "int option"

definition column_of_row :: "column_row \<Rightarrow> table_column" where
  "column_of_row r =
     \<lparr>tc_name = cr_name r, tc_data_type = to_lower (cr_data_type r), tc_column_type = to_lower (cr_column_type r),
      tc_char_max = cr_char_max r, tc_precision = cr_precision r, tc_scale = cr_scale r,
      tc_nullable = (cr_nullable r = ''YES''), tc_pk = (cr_key r = ''PRI'')\<rparr>"

definition hasPrimaryKey :: "table_column list \<Rightarrow> bool" where
  "hasPrimaryKey cols \<longleftrightarrow> list_ex tc_pk cols"

text \<open>\<open>SHOW KEYS\<close>: the result's column names and, per row, the cells; only texts count as names.\<close>

fun key_row_names :: "nat \<Rightarrow> cell list list \<Rightarrow> string list" where
  "key_row_names i [] = []"
| "key_row_names i (r # rs) =
     (case (if i < length r then r ! i else CNull) of
        CStr v \<Rightarrow> (if trim_space v = [] then [] else [trim_space v])
      | CBytes v \<Rightarrow> (if trim_space v = [] then [] else [trim_space v])
      | _ \<Rightarrow> []) @ key_row_names i rs"

definition fetchPrimaryKeysFallback :: "string + (string list \<times> cell list list) \<Rightarrow> string + string list" where
  "fetchPrimaryKeysFallback answer =
     (case answer of
        Inl e \<Rightarrow> Inl e
      | Inr (cols, rows) \<Rightarrow>
          (case find (\<lambda>i. equal_fold (cols ! i) ''Column_name'') [0..<length cols] of
             None \<Rightarrow> Inl ''show keys result does not include Column_name''
           | Some i \<Rightarrow> Inr (key_row_names i rows)))"

definition mark_keys :: "string list \<Rightarrow> table_column list \<Rightarrow> table_column list" where
  "mark_keys pk cols =
     map (\<lambda>c. if to_lower (tc_name c) \<in> (\<lambda>n. to_lower (trim_space n)) ` set pk then c\<lparr>tc_pk := True\<rparr> else c) cols"

definition extra_schema_column :: "extra_column \<Rightarrow> table_column list \<Rightarrow> table_column list" where
  "extra_schema_column x cols =
     (let name = trim_space (ec_name x) in
      if name = [] \<or> to_lower name \<in> (\<lambda>c. to_lower (trim_space (tc_name c))) ` set cols then cols
      else cols @ [\<lparr>tc_name = name, tc_data_type = to_lower (trim_space (ec_data_type x)),
              tc_column_type = to_lower (trim_space (ec_column_type x)), tc_char_max = None, tc_precision = None,
              tc_scale = None, tc_nullable = (case ec_nullable x of None \<Rightarrow> True | Some b \<Rightarrow> b), tc_pk = False\<rparr>])"

definition addSnapshotExtraColumnsToSchema :: "mysql_config \<Rightarrow> table_schema \<Rightarrow> table_schema" where
  "addSnapshotExtraColumnsToSchema cfg sch =
     (case tableConfigForTable cfg (ts_schema sch) (ts_table sch) of
        None \<Rightarrow> sch
      | Some c \<Rightarrow> sch\<lparr>ts_columns := fold extra_schema_column (mt_extra_columns c) (ts_columns sch)\<rparr>)"

definition FetchSchemaFor ::
  "mysql_config \<Rightarrow> string + column_row list \<Rightarrow> string + (string list \<times> cell list list) \<Rightarrow> string \<Rightarrow> string \<Rightarrow>
     string + table_schema" where
  "FetchSchemaFor cfg columns keys db tbl =
     (case columns of
        Inl e \<Rightarrow> Inl e
      | Inr rows \<Rightarrow>
          (let cols = map column_of_row rows;
               cols' = (if hasPrimaryKey cols then cols
                        else case fetchPrimaryKeysFallback keys of Inl _ \<Rightarrow> cols | Inr pk \<Rightarrow> mark_keys pk cols) in
           Inr (addSnapshotExtraColumnsToSchema cfg \<lparr>ts_schema = db, ts_table = tbl, ts_columns = cols'\<rparr>)))"

section \<open>Snapshot plans\<close>

text \<open>The loop over the configured key columns: \<open>Inl\<close> its error, otherwise the actual column names.\<close>

fun key_columns :: "string \<Rightarrow> table_column list \<Rightarrow> string list \<Rightarrow> string list \<Rightarrow> string + string list" where
  "key_columns where_text cols seen [] = Inr []"
| "key_columns where_text cols seen (raw # raws) =
     (let name = trim_space raw; key = to_lower name in
      if name = [] then key_columns where_text cols seen raws
      else case find (\<lambda>c. to_lower (trim_space (tc_name c)) = key) (rev cols) of
        None \<Rightarrow> Inl (where_text @ '' references missing column '' @ name)
      | Some c \<Rightarrow>
          if key \<in> set seen then Inl (where_text @ '' contains duplicate column '' @ name)
          else (case key_columns where_text cols (key # seen) raws of
              Inl e \<Rightarrow> Inl e | Inr ks \<Rightarrow> Inr (tc_name c # ks)))"

definition snapshotKeyColumnsForTable :: "mysql_config \<Rightarrow> string \<Rightarrow> string \<Rightarrow> table_schema \<Rightarrow> string + string list option" where
  "snapshotKeyColumnsForTable cfg db tbl sch =
     (case tableConfigForTable cfg db tbl of
        None \<Rightarrow> Inr None
      | Some c \<Rightarrow>
          (case key_columns (''snapshot_key_columns for '' @ full_name db tbl) (ts_columns sch) [] (mt_key_columns c) of
             Inl e \<Rightarrow> Inl e
           | Inr ks \<Rightarrow> Inr (if ks = [] then None else Some ks)))"

record snapshot_plan =
  pl_db :: string
  pl_table :: string
  pl_full :: string
  pl_select :: string
  pl_filter :: string
  pl_order :: "string list"
  pl_keys :: "string list"
  pl_keyset :: bool

definition buildSnapshotPlan ::
  "bool \<Rightarrow> mysql_config \<Rightarrow> string + table_schema \<Rightarrow> string \<Rightarrow> string \<Rightarrow> string + snapshot_plan" where
  "buildSnapshotPlan o' cfg fetched db tbl =
     (case fetched of
        Inl e \<Rightarrow> Inl (''fetch schema failed '' @ full_name db tbl @ '': '' @ e)
      | Inr sch \<Rightarrow>
          if ts_columns sch = [] then Inl (''snapshot requires schema for '' @ full_name db tbl)
          else (case snapshotKeyColumnsForTable cfg db tbl sch of
             Inl e \<Rightarrow> Inl e
           | Inr configured \<Rightarrow>
               (let keys = (case configured of Some ks \<Rightarrow> ks | None \<Rightarrow> map tc_name (filter tc_pk (ts_columns sch))) in
                Inr \<lparr>pl_db = db, pl_table = tbl, pl_full = to_lower (full_name db tbl),
                     pl_select = snapshotSelectListForTable o' cfg db tbl, pl_filter = snapshotFilterForTable o' cfg db tbl,
                     pl_order = (if keys = [] then map tc_name (ts_columns sch) else keys),
                     pl_keys = keys, pl_keyset = (keys \<noteq> [])\<rparr>)))"

definition paginationMode :: "snapshot_plan \<Rightarrow> string" where
  "paginationMode p = (if pl_keyset p then ''keyset'' else ''offset'')"

definition count_query :: "bool \<Rightarrow> mysql_config \<Rightarrow> string \<Rightarrow> string \<Rightarrow> string" where
  "count_query o' cfg db tbl =
     (let q = ''SELECT COUNT(*) FROM '' @ quote_ident db @ ''.'' @ quote_ident tbl;
          flt = snapshotFilterForTable o' cfg db tbl in
      if flt = [] then q else q @ '' WHERE ('' @ flt @ '')'')"

section \<open>DDL text\<close>

definition blank_lines :: "string \<Rightarrow> string" where
  "blank_lines s = map (\<lambda>c. if c = CHR 0x0A \<or> c = CHR 0x09 then CHR '' '' else c) s"

definition ddl_words :: "string \<Rightarrow> string" where
  "ddl_words ddl = trim_space (blank_lines (to_lower ddl))"

definition isCreateTableDDL :: "string \<Rightarrow> bool" where
  "isCreateTableDDL ddl \<longleftrightarrow> has_prefix ''create table'' (ddl_words ddl)"

text \<open>\<open>strings.Fields\<close>: the maximal runs of other characters than white space.\<close>

function fields :: "string \<Rightarrow> string list" where
  "fields s =
     (let t = dropWhile is_space s in
      if t = [] then [] else takeWhile (\<lambda>c. \<not> is_space c) t # fields (dropWhile (\<lambda>c. \<not> is_space c) t))"
  by pat_completeness auto

termination
proof (relation "measure length", goal_cases)
  case (2 s t)
  then obtain c cs where t: "dropWhile is_space s = c # cs" by (cases "dropWhile is_space s") auto
  then have "\<not> is_space c" by (metis hd_dropWhile list.sel(1) list.distinct(1))
  then have "length (dropWhile (\<lambda>c. \<not> is_space c) (c # cs)) \<le> length cs" by (simp add: length_dropWhile_le)
  moreover have "length (c # cs) \<le> length s" using t length_dropWhile_le [of is_space s] by simp
  ultimately show ?case using 2(1) t by simp
qed simp

declare fields.simps [simp del]

definition strip_ticks :: "string \<Rightarrow> string" where
  "strip_ticks s = rev (dropWhile (\<lambda>c. c = CHR 0x60) (rev (dropWhile (\<lambda>c. c = CHR 0x60) s)))"

definition ddl_ident :: "string \<Rightarrow> string option" where
  "ddl_ident ddl =
     (let low = ddl_words ddl in
      if list_ex (\<lambda>p. has_prefix p low) [''alter table'', ''create table'', ''drop table'', ''truncate table''] then
        (let parts = fields low in
         if length parts < 3 then None
         else let i = (if has_prefix ''create table'' low \<and> 6 \<le> length parts \<and> parts ! 2 = ''if'' \<and> parts ! 3 = ''not'' \<and>
                          parts ! 4 = ''exists'' then 5 else 2) in
           Some (strip_ticks (parts ! i)))
      else None)"

definition extractTableNameFromDDL :: "string \<Rightarrow> string" where
  "extractTableNameFromDDL ddl =
     (case ddl_ident ddl of
        None \<Rightarrow> []
      | Some ident \<Rightarrow> if CHR ''.'' \<in> set ident then strip_ticks (last (split_on CHR ''.'' ident)) else ident)"

definition extractDBNameFromDDL :: "string \<Rightarrow> string" where
  "extractDBNameFromDDL ddl =
     (case ddl_ident ddl of
        None \<Rightarrow> []
      | Some ident \<Rightarrow> if CHR ''.'' \<in> set ident then strip_ticks (hd (split_on CHR ''.'' ident)) else [])"

section \<open>The checkpoint against the server's logs\<close>

definition splitBinlogFileNumber :: "string \<Rightarrow> (string \<times> int) option" where
  "splitBinlogFileNumber raw =
     (let file = trim_space raw;
          digits = rev (takeWhile is_digit (rev file)) in
      if digits = [] then None
      else case atoi digits of None \<Rightarrow> None | Some n \<Rightarrow> Some (take (length file - length digits) file, n))"

definition binlogCheckpointStatus :: "string \<Rightarrow> string \<Rightarrow> string \<Rightarrow> int \<Rightarrow> string" where
  "binlogCheckpointStatus checkpoint earliest latest count =
     (if count \<le> 0 \<or> trim_space earliest = [] \<or> trim_space latest = [] then ''no_binlogs''
      else case (splitBinlogFileNumber checkpoint, splitBinlogFileNumber earliest, splitBinlogFileNumber latest) of
        (Some (cp, c), Some (ep, e), Some (lp, l)) \<Rightarrow>
          if cp \<noteq> ep \<or> cp \<noteq> lp then ''missing''
          else if c < e then ''purged'' else if c \<le> l then ''available'' else ''missing''
      | _ \<Rightarrow> ''missing'')"

definition binlogFileLag :: "string \<Rightarrow> string \<Rightarrow> int option" where
  "binlogFileLag checkpoint latest =
     (case (splitBinlogFileNumber checkpoint, splitBinlogFileNumber latest) of
        (Some (cp, c), Some (lp, l)) \<Rightarrow> if cp \<noteq> lp then None else Some (if l \<le> c then 0 else l - c)
      | _ \<Rightarrow> None)"

section \<open>Which sinks acknowledge batches\<close>

definition sinkUsesAcknowledgedSnapshotBatches :: "string \<Rightarrow> bool" where
  "sinkUsesAcknowledgedSnapshotBatches ty \<longleftrightarrow> to_lower (trim_space ty) \<in> {''doris'', ''iceberg_native''}"

text \<open>\<open>strconv.ParseBool\<close>.\<close>

definition parse_bool :: "string \<Rightarrow> bool option" where
  "parse_bool s =
     (if s \<in> {''1'', ''t'', ''T'', ''TRUE'', ''true'', ''True''} then Some True
      else if s \<in> {''0'', ''f'', ''F'', ''FALSE'', ''false'', ''False''} then Some False else None)"

text \<open>
  The sink configuration is the typed one (write mode and rolling flag), a map or something else.
\<close>

datatype sink_settings = TypedSink string "bool option" | MapSink gomap | OtherSink

definition snapshotRollingEnabledForSink :: "string \<Rightarrow> sink_settings \<Rightarrow> bool" where
  "snapshotRollingEnabledForSink ty settings =
     (if \<not> equal_fold (trim_space ty) ''iceberg_native'' then False
      else case settings of
        TypedSink mode rolling \<Rightarrow>
          mode \<notin> {IcebergRebuildScopedWriteMode, IcebergRebuildScopedNativeWriteMode} \<and>
          (case rolling of None \<Rightarrow> True | Some b \<Rightarrow> b)
      | OtherSink \<Rightarrow> True
      | MapSink m \<Rightarrow>
          if (case map_get m ''snapshot_write_mode'' of
                Some (GoStr mode) \<Rightarrow> mode \<in> {IcebergRebuildScopedWriteMode, IcebergRebuildScopedNativeWriteMode}
              | _ \<Rightarrow> False) then False
          else (case map_get m ''snapshot_rolling_enabled'' of
              None \<Rightarrow> True
            | Some GoNil \<Rightarrow> True
            | Some (GoBool b) \<Rightarrow> b
            | Some (GoStr v) \<Rightarrow> parse_bool (trim_space v) = Some True
            | Some _ \<Rightarrow> False))"

section \<open>The settings found for a table\<close>

lemma str_less_irrefl [simp]: "\<not> str_less s s"
  by (induction s) auto

lemma str_less_trans: "str_less a b \<Longrightarrow> str_less b c \<Longrightarrow> str_less a c"
proof (induction a b arbitrary: c rule: str_less.induct)
  case (3 x s y t)
  then show ?case by (cases c) auto
next
  case (1 t)
  then show ?case by (cases t; cases c) auto
qed simp

lemma str_less_total: "str_less a b \<or> a = b \<or> str_less b a"
proof (induction a b rule: str_less.induct)
  case (3 x s y t)
  then show ?case by (auto simp: not_less_iff_gr_or_eq dest: nat_neq_iff [THEN iffD1])
next
  case (1 t)
  then show ?case by (cases t) auto
qed simp

lemma config_before_order:
  "\<not> config_before x x" "config_before x y \<Longrightarrow> config_before y z \<Longrightarrow> config_before x z"
  "config_before x y \<or> x = y \<or> config_before y x"
  using str_less_trans [of x y z] str_less_total [of x y] by (auto simp: config_before_def Let_def split: if_splits)

lemma best_config_key_least:
  "best_config_key ks = Some m \<Longrightarrow> m \<in> set ks \<and> (\<forall>k \<in> set ks. k = m \<or> config_before m k)"
proof (induction ks arbitrary: m)
  case (Cons k ks)
  show ?case
  proof (cases "best_config_key ks")
    case None
    then have "ks = []" by (cases ks) (auto split: option.splits)
    with Cons.prems None show ?thesis by simp
  next
    case (Some n)
    then show ?thesis using Cons config_before_order by (auto split: if_splits) metis+
  qed
qed simp

lemma best_config_key_None: "best_config_key ks = None \<longleftrightarrow> ks = []"
  by (cases ks) (auto split: option.splits)

lemma best_config_key_set: "set ks = set ls \<Longrightarrow> best_config_key ks = best_config_key ls"
proof (cases "best_config_key ks")
  case None
  then show "set ks = set ls \<Longrightarrow> ?thesis" using best_config_key_None by (metis list.set(1) set_empty)
next
  case (Some m)
  assume eq: "set ks = set ls"
  then have "ls \<noteq> []" using Some by auto
  then obtain n where n: "best_config_key ls = Some n" using best_config_key_None by (metis option.exhaust)
  show ?thesis using best_config_key_least [OF Some] best_config_key_least [OF n] eq Some n config_before_order(1,2) by metis
qed

text \<open>
  The settings the source finds for a table depend only on the entries of the configuration map, not on
  the order in which a run happens to iterate over it; an exact entry for the table wins over an entry for
  its short name, which wins over every pattern.
\<close>

theorem table_settings_determined:
  assumes "my_table_configs cfg' = es'" "map_of es' = map_of (my_table_configs cfg)"
  shows "tableConfigForTable cfg' db tbl = tableConfigForTable cfg db tbl \<and>
    (let full = to_lower (trim_space (full_name db tbl)); short = to_lower (trim_space tbl) in
     (case map_of (my_table_configs cfg) full of
        Some c \<Rightarrow> tableConfigForTable cfg db tbl = Some c
      | None \<Rightarrow> (case map_of (my_table_configs cfg) short of
          Some c \<Rightarrow> tableConfigForTable cfg db tbl = Some c
        | None \<Rightarrow> (\<forall>c. tableConfigForTable cfg db tbl = Some c \<longrightarrow>
            (\<exists>k. map_of (my_table_configs cfg) k = Some c \<and> mysqlTableConfigPatternMatches k full short)))))"
proof -
  have dom: "set (map fst es') = set (map fst (my_table_configs cfg))"
    using assms(2) by (metis dom_map_of_conv_image_fst list.set_map)
  have "set (filter P (map fst es')) = set (filter P (map fst (my_table_configs cfg)))" for P
    unfolding set_filter dom ..
  note best = best_config_key_set [OF this]
  have "tableConfigForTable cfg' db tbl = tableConfigForTable cfg db tbl"
    by (simp only: tableConfigForTable_def Let_def map_get_def assms best)
  moreover have "best_config_key (filter P ks) = Some k \<Longrightarrow> P k" for P ks k
    using best_config_key_least by fastforce
  ultimately show ?thesis
    by (auto simp: tableConfigForTable_def Let_def map_get_def split: option.splits)
qed

definition sample_settings :: "(string \<times> mysql_table_config) list" where
  "sample_settings = [(''shop.*'', \<lparr>mt_filter = ''a'', mt_key_columns = [], mt_extra_columns = []\<rparr>),
     (''shop.or*'', \<lparr>mt_filter = ''b'', mt_key_columns = [], mt_extra_columns = []\<rparr>)]"

theorem table_settings_determined_witness:
  "tableConfigForTable ((jc_mysql zero_config)\<lparr>my_table_configs := rev sample_settings\<rparr>) ''Shop'' ''Orders'' =
   Some \<lparr>mt_filter = ''b'', mt_key_columns = [], mt_extra_columns = []\<rparr>"
proof -
  have "map_of (rev sample_settings) = map_of sample_settings" by (simp add: sample_settings_def fun_eq_iff)
  then have "tableConfigForTable ((jc_mysql zero_config)\<lparr>my_table_configs := rev sample_settings\<rparr>) ''Shop'' ''Orders'' =
      tableConfigForTable ((jc_mysql zero_config)\<lparr>my_table_configs := sample_settings\<rparr>) ''Shop'' ''Orders''"
    by (intro table_settings_determined [THEN conjunct1, OF refl]) simp
  also have "\<dots> = Some \<lparr>mt_filter = ''b'', mt_key_columns = [], mt_extra_columns = []\<rparr>" by code_simp
  finally show ?thesis .
qed

section \<open>The tables a configuration selects\<close>

lemma set_add_table: "to_lower ` set (add_table t out) = insert (to_lower t) (to_lower ` set out)"
  by (auto simp: add_table_def)

lemma distinct_add_table: "distinct (map to_lower out) \<Longrightarrow> distinct (map to_lower (add_table t out))"
  by (auto simp: add_table_def)

lemma fold_add_table:
  "to_lower ` set (fold (\<lambda>t. add_table (f t)) ts out) = to_lower ` f ` set ts \<union> to_lower ` set out"
  "distinct (map to_lower out) \<Longrightarrow> distinct (map to_lower (fold (\<lambda>t. add_table (f t)) ts out))"
  by (induction ts arbitrary: out) (auto simp: set_add_table distinct_add_table)

text \<open>The names an entry selects: the one it gives, or those of the listed tables that match its pattern.\<close>

definition entry_selects :: "(string \<Rightarrow> string + string list) \<Rightarrow> string \<Rightarrow> string set" where
  "entry_selects listTables entry =
     (case parseConfiguredTableEntry entry of
        None \<Rightarrow> {}
      | Some (db, tbl, wildcard) \<Rightarrow>
          if \<not> wildcard then {full_name db tbl}
          else (case listTables db of Inl _ \<Rightarrow> {} | Inr ts \<Rightarrow> {full_name db t | t. t \<in> set ts \<and> matchTableGlob tbl t}))"

lemma matchTableGlob_star: "matchTableGlob ''*'' t" "matchTableGlob [] t"
  by (simp_all add: matchTableGlob_def trim_space_def is_space_def to_lower_def lower_char_def)

lemma expand_entry_selects:
  assumes "expand_entry L e out = Inr out'"
  shows "to_lower ` set out' = to_lower ` entry_selects L e \<union> to_lower ` set out"
    "entry_selects L e \<noteq> {}" "distinct (map to_lower out) \<Longrightarrow> distinct (map to_lower out')"
proof -
  obtain db tbl w where p: "parseConfiguredTableEntry e = Some (db, tbl, w)"
    using assms by (auto simp: expand_entry_def split: option.splits)
  have "to_lower ` set out' = to_lower ` entry_selects L e \<union> to_lower ` set out \<and> entry_selects L e \<noteq> {} \<and>
    (distinct (map to_lower out) \<longrightarrow> distinct (map to_lower out'))"
  proof (cases w)
    case False
    then have "out' = add_table (full_name db tbl) out" "entry_selects L e = {full_name db tbl}"
      using assms p by (simp_all add: expand_entry_def entry_selects_def)
    then show ?thesis by (simp add: set_add_table distinct_add_table)
  next
    case True
    define pat where "pat = (if tbl = [] then ''*'' else tbl)"
    obtain ts where ts: "L db = Inr ts" "filter (matchTableGlob pat) ts \<noteq> []"
      "out' = fold (\<lambda>t. add_table (full_name db t)) (filter (matchTableGlob pat) ts) out"
      using assms p True by (auto simp: expand_entry_def Let_def pat_def [symmetric] split: sum.splits list.splits)
    have "matchTableGlob pat t = matchTableGlob tbl t" for t by (simp add: pat_def matchTableGlob_star)
    then have "entry_selects L e = full_name db ` set (filter (matchTableGlob pat) ts)"
      using p True ts(1) by (auto simp: entry_selects_def)
    then show ?thesis using ts(3) ts(2) [unfolded filter_empty_conv] fold_add_table [where f = "full_name db"] by auto
  qed
  then show "to_lower ` set out' = to_lower ` entry_selects L e \<union> to_lower ` set out"
    "entry_selects L e \<noteq> {}" "distinct (map to_lower out) \<Longrightarrow> distinct (map to_lower out')" by auto
qed

lemma expand_tables_selects:
  "expand_tables L es out = Inr out' \<Longrightarrow>
     to_lower ` set out' = (\<Union>e \<in> set es. to_lower ` entry_selects L e) \<union> to_lower ` set out \<and>
     (\<forall>e \<in> set es. entry_selects L e \<noteq> {}) \<and>
     (distinct (map to_lower out) \<longrightarrow> distinct (map to_lower out'))"
proof (induction L es out rule: expand_tables.induct)
  case (2 L e es out)
  then obtain o1 where o1: "expand_entry L e out = Inr o1" "expand_tables L es o1 = Inr out'"
    by (auto split: sum.splits)
  show ?case using 2(1) [OF o1] expand_entry_selects [OF o1(1)] by auto
qed auto

text \<open>
  an accepted table configuration selects exactly the tables its entries ask for, each once (names are
  compared without regard to case), and every entry selects at least one table. An entry that cannot be
  read or matches nothing makes the whole configuration fail.
\<close>

theorem configured_tables_exact:
  assumes "expandConfiguredTables listTables entries = Inr tables"
  shows "distinct (map to_lower tables) \<and>
    to_lower ` set tables = (\<Union>e \<in> set entries. to_lower ` entry_selects listTables e) \<and>
    (\<forall>e \<in> set entries. entry_selects listTables e \<noteq> {})"
  using expand_tables_selects [OF assms [unfolded expandConfiguredTables_def]] by auto

theorem configured_tables_exact_witness:
  "\<exists>tables. expandConfiguredTables (\<lambda>db. Inr [''Orders'', ''items'', ''old'']) [''shop.o*'', ''SHOP.orders'', ''shop.items''] = Inr tables \<and>
     distinct (map to_lower tables) \<and> to_lower ` set tables = {''shop.orders'', ''shop.old'', ''shop.items''}"
proof -
  have r: "expandConfiguredTables (\<lambda>db. Inr [''Orders'', ''items'', ''old'']) [''shop.o*'', ''SHOP.orders'', ''shop.items''] =
     Inr [''shop.Orders'', ''shop.old'', ''shop.items'']" by code_simp
  have "to_lower ''shop.Orders'' = ''shop.orders''" "to_lower ''shop.old'' = ''shop.old''" "to_lower ''shop.items'' = ''shop.items''"
    by code_simp+
  then show ?thesis using configured_tables_exact [OF r] r by simp
qed

end
