(* ===== verification/MySQL_Snapshot.thy ===== *)
theory MySQL_Snapshot
  imports MySQL_Tables Commit_Guard
begin

text \<open>
  The snapshot side of the MySQL source (\<open>pkg/connectors/mysql/source.go\<close>): cursors, page queries, the loop
  over one table, the tables of a run, the handshake with the sink and the run modes. The server, the
  sink and the clock are the fields of \<open>world\<close>; progress reports and log lines are left out.

  The lemmas show that the pages of a table cover its rows exactly once, where a run is resumed, and from
  which position and after which confirmation CDC starts.
\<close>

section \<open>Cursors\<close>

record cursor_value =
  cv_kind :: string
  cv_string :: string
  cv_int :: int
  cv_uint :: nat
  cv_float :: rat
  cv_bool :: bool
  cv_time :: string

record snapshot_cursor =
  cu_columns :: "string list"
  cu_values :: "cursor_value list"

text \<open>RFC 3339 times and the JSON text of a cursor.\<close>

record cursor_codec =
  cc_time :: "int \<Rightarrow> string"
  cc_parse :: "string \<Rightarrow> string + int"
  cc_json :: "snapshot_cursor \<Rightarrow> string"
  cc_unjson :: "string \<Rightarrow> string + snapshot_cursor"

definition cursor_value_of :: "string \<Rightarrow> cursor_value" where
  "cursor_value_of kind = \<lparr>cv_kind = kind, cv_string = [], cv_int = 0, cv_uint = 0, cv_float = 0, cv_bool = False, cv_time = []\<rparr>"

fun encodeSnapshotCursorValue :: "cursor_codec \<Rightarrow> cell \<Rightarrow> cursor_value" where
  "encodeSnapshotCursorValue C CNull = cursor_value_of ''null''"
| "encodeSnapshotCursorValue C (CBytes s) = (cursor_value_of ''string'')\<lparr>cv_string := s\<rparr>"
| "encodeSnapshotCursorValue C (CStr s) = (cursor_value_of ''string'')\<lparr>cv_string := s\<rparr>"
| "encodeSnapshotCursorValue C (CInt i) = (cursor_value_of ''int64'')\<lparr>cv_int := i\<rparr>"
| "encodeSnapshotCursorValue C (CUint n) = (cursor_value_of ''uint64'')\<lparr>cv_uint := n\<rparr>"
| "encodeSnapshotCursorValue C (CFloat q) = (cursor_value_of ''float64'')\<lparr>cv_float := q\<rparr>"
| "encodeSnapshotCursorValue C (CBool b) = (cursor_value_of ''bool'')\<lparr>cv_bool := b\<rparr>"
| "encodeSnapshotCursorValue C (CTime t) = (cursor_value_of ''time'')\<lparr>cv_time := cc_time C t\<rparr>"

definition decode_value :: "cursor_codec \<Rightarrow> cursor_value \<Rightarrow> string + cell" where
  "decode_value C v =
     (if cv_kind v = ''null'' then Inr CNull
      else if cv_kind v = ''string'' then Inr (CStr (cv_string v))
      else if cv_kind v = ''int64'' then Inr (CInt (cv_int v))
      else if cv_kind v = ''uint64'' then Inr (CUint (cv_uint v))
      else if cv_kind v = ''float64'' then Inr (CFloat (cv_float v))
      else if cv_kind v = ''bool'' then Inr (CBool (cv_bool v))
      else if cv_kind v = ''time'' then
        (case cc_parse C (cv_time v) of
           Inl e \<Rightarrow> Inl (''parse snapshot cursor time failed: '' @ e) | Inr t \<Rightarrow> Inr (CTime t))
      else Inl (''unsupported snapshot cursor kind '' @ cv_kind v))"

fun queryArgs :: "cursor_codec \<Rightarrow> cursor_value list \<Rightarrow> string + cell list" where
  "queryArgs C [] = Inr []"
| "queryArgs C (v # vs) =
     (case decode_value C v of
        Inl e \<Rightarrow> Inl e
      | Inr c \<Rightarrow> (case queryArgs C vs of Inl e \<Rightarrow> Inl e | Inr cs \<Rightarrow> Inr (c # cs)))"

fun cursor_values :: "cursor_codec \<Rightarrow> row_data \<Rightarrow> string list \<Rightarrow> string + cursor_value list" where
  "cursor_values C row [] = Inr []"
| "cursor_values C row (col # cols) =
     (case map_get row col of
        None \<Rightarrow> Inl (''snapshot cursor column '' @ col @ '' not found in row'')
      | Some v \<Rightarrow> (case cursor_values C row cols of
          Inl e \<Rightarrow> Inl e | Inr vs \<Rightarrow> Inr (encodeSnapshotCursorValue C v # vs)))"

definition newSnapshotCursor :: "cursor_codec \<Rightarrow> string list \<Rightarrow> row_data \<Rightarrow> string + snapshot_cursor" where
  "newSnapshotCursor C cols row =
     (case cursor_values C row cols of Inl e \<Rightarrow> Inl e | Inr vs \<Rightarrow> Inr \<lparr>cu_columns = cols, cu_values = vs\<rparr>)"

definition encodeSnapshotCursor :: "cursor_codec \<Rightarrow> snapshot_cursor option \<Rightarrow> string" where
  "encodeSnapshotCursor C c' = (case c' of None \<Rightarrow> [] | Some c \<Rightarrow> cc_json C c)"

definition decodeSnapshotCursor :: "cursor_codec \<Rightarrow> string \<Rightarrow> string + snapshot_cursor" where
  "decodeSnapshotCursor C raw =
     (case cc_unjson C raw of
        Inl e \<Rightarrow> Inl (''unmarshal snapshot cursor failed: '' @ e)
      | Inr c \<Rightarrow> if cu_values c = [] then Inl ''snapshot cursor is empty'' else Inr c)"

text \<open>
  The comparison indexes the cursor's columns by the plan's: a cursor with as many values but fewer columns
  panics, unless an earlier column differs. \<open>None\<close> is the panic.
\<close>

fun columns_match :: "string list \<Rightarrow> string list \<Rightarrow> bool option" where
  "columns_match cs [] = Some True"
| "columns_match [] (col # cols) = None"
| "columns_match (c # cs) (col # cols) =
     (if equal_fold (trim_space c) (trim_space col) then columns_match cs cols else Some False)"

definition matchesColumns :: "snapshot_cursor \<Rightarrow> string list \<Rightarrow> bool option" where
  "matchesColumns c cols =
     (if length (cu_values c) \<noteq> length cols \<or> cu_columns c = [] then Some False else columns_match (cu_columns c) cols)"

abbreviation "index_panic \<equiv> ''runtime error: index out of range''"

text \<open>A panic leaves every retry, so its error is marked permanent.\<close>

definition plan_error :: "string \<Rightarrow> go_error" where
  "plan_error e = (if e = index_panic then permanent (new_error e) else new_error e)"

section \<open>Page queries\<close>

text \<open>
  The rows after a cursor: for some column of the key, all earlier ones are equal and this one is greater.
\<close>

definition cursor_clauses :: "string list \<Rightarrow> 'v list \<Rightarrow> ((string \<times> 'v) list \<times> string \<times> 'v) list" where
  "cursor_clauses cols vals = map (\<lambda>i. (zip (take i cols) (take i vals), cols ! i, vals ! i)) [0..<length cols]"

definition clause_text :: "bool \<Rightarrow> (string \<times> 'v) list \<times> string \<times> 'v \<Rightarrow> string" where
  "clause_text wrap cl =
     (case cl of (eqs, c, _) \<Rightarrow>
       let p = str_join '' AND '' (map (\<lambda>(c', _). quote_ident c' @ '' = ?'') eqs @ [quote_ident c @ '' > ?'']) in
       if wrap then ''('' @ p @ '')'' else p)"

definition clause_args :: "(string \<times> 'v) list \<times> string \<times> 'v \<Rightarrow> 'v list" where
  "clause_args cl = (case cl of (eqs, _, v) \<Rightarrow> map snd eqs @ [v])"

definition buildSnapshotCursorPredicate ::
  "cursor_codec \<Rightarrow> string list \<Rightarrow> snapshot_cursor option \<Rightarrow> string + (string \<times> cell list)" where
  "buildSnapshotCursorPredicate C cols c' =
     (case c' of
        None \<Rightarrow> Inr ([], [])
      | Some c \<Rightarrow>
          (case matchesColumns c cols of
             None \<Rightarrow> Inl index_panic
           | Some False \<Rightarrow> Inl ''snapshot cursor columns do not match current key columns''
           | Some True \<Rightarrow>
               (case queryArgs C (cu_values c) of
                  Inl e \<Rightarrow> Inl e
                | Inr vals \<Rightarrow>
                    (let cls = cursor_clauses cols vals in
                     Inr (str_join '' OR '' (map (clause_text (1 < length cols)) cls), concat (map clause_args cls))))))"

definition buildSnapshotQuery ::
  "cursor_codec \<Rightarrow> snapshot_plan \<Rightarrow> int \<Rightarrow> int \<Rightarrow> snapshot_cursor option \<Rightarrow> string + (string \<times> cell list)" where
  "buildSnapshotQuery C p limit rowsEmitted c' =
     (let sel = (if trim_space (pl_select p) = [] then ''*'' else trim_space (pl_select p));
          base = ''SELECT '' @ sel @ '' FROM '' @ quote_ident (pl_db p) @ ''.'' @ quote_ident (pl_table p);
          flt = (if pl_filter p = [] then [] else [''('' @ pl_filter p @ '')'']);
          q = (\<lambda>clauses. if clauses = [] then base else base @ '' WHERE '' @ str_join '' AND '' clauses) in
      if pl_keyset p then
        (case c' of
           None \<Rightarrow> Inr (q flt @ '' ORDER BY '' @ quotedColumnList (pl_order p) @ '' LIMIT ?'', [CInt limit])
         | Some c \<Rightarrow>
             (case buildSnapshotCursorPredicate C (pl_keys p) (Some c) of
                Inl e \<Rightarrow> Inl e
              | Inr (pred, args) \<Rightarrow>
                  (let w = ''('' @ pred @ '')''; w' = (if flt = [] then w else ''('' @ w @ '')'') in
                   Inr (q (flt @ [w']) @ '' ORDER BY '' @ quotedColumnList (pl_order p) @ '' LIMIT ?'', args @ [CInt limit]))))
      else Inr (q flt @ '' ORDER BY '' @ quotedColumnList (pl_order p) @ '' LIMIT ? OFFSET ?'', [CInt limit, CInt rowsEmitted]))"

text \<open>\<open>restoreSnapshotCursor\<close>: an unusable cursor restarts the table.\<close>

definition restoreSnapshotCursor ::
  "cursor_codec \<Rightarrow> snapshot_plan \<Rightarrow> int \<Rightarrow> string \<Rightarrow> string + (snapshot_cursor option \<times> int \<times> string)" where
  "restoreSnapshotCursor C p rowsEmitted raw =
     (let json = trim_space raw in
      if \<not> pl_keyset p then Inr (None, rowsEmitted, [])
      else if rowsEmitted = 0 \<and> json = [] \<or> json = [] then Inr (None, 0, [])
      else case decodeSnapshotCursor C json of
        Inl e \<Rightarrow> Inr (None, 0, [])
      | Inr c \<Rightarrow>
          (case matchesColumns c (pl_keys p) of
             None \<Rightarrow> Inl index_panic
           | Some False \<Rightarrow> Inr (None, 0, [])
           | Some True \<Rightarrow> Inr (Some c, rowsEmitted, json)))"

section \<open>The world and the run\<close>

text \<open>
  \<open>sw_query n\<close> answers the \<open>n\<close>-th page query, \<open>sw_send n\<close> says what became of the event sent after \<open>n\<close>
  others (and, where it carries a channel, what the sink answered on it), \<open>sw_sink\<close> what the sink did to the
  metadata store on receiving it, \<open>sw_store n\<close> whether the \<open>n\<close>-th call of the store fails, \<open>sw_cancel\<close> and
  \<open>sw_begin\<close> whether the context is done before a page and whether the transaction opens. \<open>sw_master\<close> and
  \<open>sw_canal\<close> are the server's position and the outcome of a CDC attempt with the events it emitted;
  \<open>sw_backoff\<close> the context during the wait after a failed attempt.
\<close>

datatype send_answer = NotSent go_error | Taken "go_error option"

record world =
  sw_codec :: cursor_codec
  sw_order :: bool
  sw_now :: int
  sw_schema :: "string \<Rightarrow> string \<Rightarrow> string + table_schema"
  sw_query :: "nat \<Rightarrow> string \<Rightarrow> cell list \<Rightarrow> go_error + row_data list"
  sw_cancel :: "nat \<Rightarrow> go_error option"
  sw_begin :: "nat \<Rightarrow> go_error option"
  sw_send :: "nat \<Rightarrow> send_answer"
  sw_sink :: "event \<Rightarrow> meta_db \<Rightarrow> meta_db"
  sw_store :: "nat \<Rightarrow> meta_error option"
  sw_owned :: "meta_error + unit"
  sw_master :: "nat \<Rightarrow> go_error + (string \<times> 32 word)"
  sw_canal :: "nat \<Rightarrow> (string \<times> 32 word) option \<Rightarrow> go_error option \<times> event list"
  sw_backoff :: "nat \<Rightarrow> go_error option"

record mysql_source =
  ms_job :: string
  ms_state_key :: string
  ms_cfg :: mysql_config
  ms_retry :: retry_policy
  ms_store :: bool
  ms_skip :: "string list"
  ms_batches :: bool
  ms_rolling :: bool
  ms_token :: string

text \<open>\<open>sr_canal\<close> lists the starts of CDC, each with the metadata at that moment.\<close>

record run =
  sr_db :: meta_db
  sr_out :: "event list"
  sr_queries :: nat
  sr_calls :: nat
  sr_canal :: "((string \<times> 32 word) option \<times> meta_db) list"

definition checkpointKey :: "mysql_source \<Rightarrow> string" where
  "checkpointKey s = (if trim_space (ms_state_key s) \<noteq> [] then ms_state_key s else ms_job s)"

definition store_op :: "world \<Rightarrow> 'a db_op \<Rightarrow> run \<Rightarrow> (go_error + 'a) \<times> run" where
  "store_op W f st =
     (let st1 = st\<lparr>sr_calls := Suc (sr_calls st)\<rparr> in
      case sw_store W (sr_calls st) of
        Some e \<Rightarrow> (Inl (from_meta e), st1)
      | None \<Rightarrow>
          (case f (sr_db st) of
             (Inl e, db) \<Rightarrow> (Inl (from_meta e), st1\<lparr>sr_db := db\<rparr>)
           | (Inr x, db) \<Rightarrow> (Inr x, st1\<lparr>sr_db := db\<rparr>)))"

definition store_read :: "(meta_db \<Rightarrow> 'a) \<Rightarrow> 'a db_op" where
  "store_read f db = (Inr (f db), db)"

definition send :: "world \<Rightarrow> event \<Rightarrow> run \<Rightarrow> go_error option \<times> run" where
  "send W ev st =
     (case sw_send W (length (sr_out st)) of
        NotSent e \<Rightarrow> (Some e, st)
      | Taken answer \<Rightarrow>
          (if ev_ack ev then answer else None,
           st\<lparr>sr_out := sr_out st @ [ev], sr_db := sw_sink W ev (sr_db st)\<rparr>))"

fun send_all :: "world \<Rightarrow> event list \<Rightarrow> run \<Rightarrow> go_error option \<times> run" where
  "send_all W [] st = (None, st)"
| "send_all W (ev # evs) st =
     (case send W ev st of
        (Some e, st') \<Rightarrow> (Some e, st')
      | (None, st') \<Rightarrow> send_all W evs st')"

definition emitSnapshotBarrier :: "world \<Rightarrow> string \<Rightarrow> run \<Rightarrow> go_error option \<times> run" where
  "emitSnapshotBarrier W ty =
     send W (blank_event\<lparr>ev_type := ty, ev_origin := EventOriginSnapshot, ev_ack := True\<rparr>)"

definition emitSnapshotTableComplete :: "world \<Rightarrow> string \<Rightarrow> string \<Rightarrow> int \<Rightarrow> run \<Rightarrow> go_error option \<times> run" where
  "emitSnapshotTableComplete W db tbl rows =
     send W (blank_event\<lparr>ev_type := EventTypeSnapshotTableEnd, ev_schema := db, ev_table := tbl,
       ev_origin := EventOriginSnapshot, ev_start := rows, ev_rolling := True, ev_ack := True\<rparr>)"

definition save_progress :: "world \<Rightarrow> mysql_source \<Rightarrow> string \<Rightarrow> int \<Rightarrow> string \<Rightarrow> run \<Rightarrow> go_error option \<times> run" where
  "save_progress W s full rows json st =
     (if \<not> ms_store s then (None, st)
      else case store_op W (SaveSnapshotProgress None (sw_now W) (checkpointKey s) full rows json) st of
        (Inl e, st') \<Rightarrow> (Some (wrap_error (''save snapshot progress failed '' @ full @ '': '') e), st')
      | (Inr _, st') \<Rightarrow> (None, st'))"

section \<open>One table\<close>

definition snapshot_chunk_size :: "mysql_source \<Rightarrow> int" where
  "snapshot_chunk_size s =
     (let c = (if my_chunk_size (ms_cfg s) \<le> 0 then 1000 else my_chunk_size (ms_cfg s)) in
      if ms_batches s \<and> 0 < my_snapshot_batch_size (ms_cfg s) then my_snapshot_batch_size (ms_cfg s) else c)"

definition batch_event :: "snapshot_plan \<Rightarrow> bool \<Rightarrow> int \<Rightarrow> row_data list \<Rightarrow> event" where
  "batch_event p rolling rowsEmitted rows =
     blank_event\<lparr>ev_type := EventTypeSnapshotBatch, ev_schema := pl_db p, ev_table := pl_table p, ev_rows := rows,
       ev_origin := EventOriginSnapshot, ev_start := rowsEmitted, ev_rolling := rolling, ev_ack := True\<rparr>"

definition insert_event :: "snapshot_plan \<Rightarrow> row_data \<Rightarrow> event" where
  "insert_event p row =
     blank_event\<lparr>ev_type := EventTypeInsert, ev_schema := pl_db p, ev_table := pl_table p, ev_data := row,
       ev_origin := EventOriginSnapshot\<rparr>"

definition emit_page :: "world \<Rightarrow> mysql_source \<Rightarrow> snapshot_plan \<Rightarrow> bool \<Rightarrow> int \<Rightarrow> row_data list \<Rightarrow> run \<Rightarrow> go_error option \<times> run" where
  "emit_page W s p rolling rowsEmitted rows =
     (if ms_batches s then send W (batch_event p rolling rowsEmitted rows) else send_all W (map (insert_event p) rows))"

text \<open>Every row's cursor is built; the last one is kept.\<close>

fun last_cursor :: "cursor_codec \<Rightarrow> snapshot_plan \<Rightarrow> snapshot_cursor option \<Rightarrow> row_data list \<Rightarrow> string + snapshot_cursor option" where
  "last_cursor C p c' [] = Inr c'"
| "last_cursor C p c' (row # rows) =
     (if pl_keyset p then
        (case newSnapshotCursor C (pl_keys p) row of Inl e \<Rightarrow> Inl e | Inr c \<Rightarrow> last_cursor C p (Some c) rows)
      else last_cursor C p c' rows)"

text \<open>
  One page: \<open>Inl\<close> the end of the loop with its error, rows emitted and cursor text, or \<open>Inr\<close> the rows
  emitted, the cursor and its text with which the loop goes on.
\<close>

definition snapshot_page ::
  "world \<Rightarrow> mysql_source \<Rightarrow> snapshot_plan \<Rightarrow> bool \<Rightarrow> int \<Rightarrow> snapshot_cursor option \<Rightarrow> string \<Rightarrow> run \<Rightarrow>
     ((go_error option \<times> int \<times> string) + (int \<times> snapshot_cursor option \<times> string)) \<times> run" where
  "snapshot_page W s p rolling rowsEmitted c' json st =
     (case sw_cancel W (sr_queries st) of
        Some e \<Rightarrow> (Inl (Some e, rowsEmitted, json), st)
      | None \<Rightarrow>
          (case buildSnapshotQuery (sw_codec W) p (snapshot_chunk_size s) rowsEmitted c' of
             Inl e \<Rightarrow> (Inl (Some (plan_error e), rowsEmitted, json), st)
           | Inr (q, args) \<Rightarrow>
               (let st1 = st\<lparr>sr_queries := Suc (sr_queries st)\<rparr> in
                case sw_query W (sr_queries st) q args of
                  Inl e \<Rightarrow> (Inl (Some (wrap_error (''snapshot query failed '' @ pl_full p @ '': '') e), rowsEmitted, json), st1)
                | Inr rows \<Rightarrow>
                    (case last_cursor (sw_codec W) p None rows of
                       Inl e \<Rightarrow> (Inl (Some (new_error e), rowsEmitted, json), st1)
                     | Inr lastc \<Rightarrow>
                         if rows = [] then (Inl (None, rowsEmitted, json), st1)
                         else (case emit_page W s p rolling rowsEmitted rows st1 of
                            (Some e, st2) \<Rightarrow> (Inl (Some e, rowsEmitted, json), st2)
                          | (None, st2) \<Rightarrow>
                              (let rowsEmitted' = rowsEmitted + int (length rows);
                                   c2 = (if pl_keyset p then lastc else c');
                                   json2 = (if pl_keyset p then encodeSnapshotCursor (sw_codec W) lastc else json) in
                               case (if rolling then (None, st2) else save_progress W s (pl_full p) rowsEmitted' json2 st2) of
                                 (Some e, st3) \<Rightarrow> (Inl (Some e, rowsEmitted', json2), st3)
                               | (None, st3) \<Rightarrow> (Inr (rowsEmitted', c2, json2), st3)))))))"

text \<open>A server that keeps answering with rows keeps the loop running.\<close>

partial_function (option) snapshot_loop ::
  "world \<Rightarrow> mysql_source \<Rightarrow> snapshot_plan \<Rightarrow> bool \<Rightarrow> int \<Rightarrow> snapshot_cursor option \<Rightarrow> string \<Rightarrow> run \<Rightarrow>
     ((go_error option \<times> int \<times> string) \<times> run) option" where
  "snapshot_loop W s p rolling rowsEmitted c' json st =
     (case snapshot_page W s p rolling rowsEmitted c' json st of
        (Inl r, st') \<Rightarrow> Some (r, st')
      | (Inr (rowsEmitted', c2, json2), st') \<Rightarrow> snapshot_loop W s p rolling rowsEmitted' c2 json2 st')"

definition withConsistentSnapshot ::
  "world \<Rightarrow> (run \<Rightarrow> ((go_error option \<times> int \<times> string) \<times> run) option) \<Rightarrow> int \<times> string \<Rightarrow> run \<Rightarrow>
     ((go_error option \<times> int \<times> string) \<times> run) option" where
  "withConsistentSnapshot W fn unchanged st =
     (case sw_begin W (sr_queries st) of
        Some e \<Rightarrow> Some ((Some e, unchanged), st)
      | None \<Rightarrow> fn st)"

text \<open>What follows the loop: a rolled table is completed by the sink before its progress is saved.\<close>

definition finish_table ::
  "world \<Rightarrow> mysql_source \<Rightarrow> snapshot_plan \<Rightarrow> bool \<Rightarrow> (go_error option \<times> int \<times> string) \<times> run \<Rightarrow> go_error option \<times> run" where
  "finish_table W s p rolling r =
     (case r of
        ((Some e, _), st) \<Rightarrow> (Some e, st)
      | ((None, rowsEmitted, json), st) \<Rightarrow>
          if \<not> rolling then (None, st)
          else (case emitSnapshotTableComplete W (pl_db p) (pl_table p) rowsEmitted st of
             (Some e, st1) \<Rightarrow> (Some (wrap_error (''commit rolled snapshot table '' @ pl_full p @ '': '') e), st1)
           | (None, st1) \<Rightarrow> save_progress W s (pl_full p) rowsEmitted json st1))"

definition runInitialSnapshotOne ::
  "world \<Rightarrow> mysql_source \<Rightarrow> string \<Rightarrow> string \<Rightarrow> int \<times> string \<Rightarrow> run \<Rightarrow> (go_error option \<times> run) option" where
  "runInitialSnapshotOne W s db tbl resume st =
     (case buildSnapshotPlan (sw_order W) (ms_cfg s) (sw_schema W db tbl) db tbl of
        Inl e \<Rightarrow> Some (Some (new_error e), st)
      | Inr p \<Rightarrow>
          (case restoreSnapshotCursor (sw_codec W) p (fst resume) (snd resume) of
             Inl e \<Rightarrow> Some (Some (plan_error e), st)
           | Inr (c', rowsEmitted, json) \<Rightarrow>
               (let rolling = (ms_rolling s \<and> rowsEmitted = 0) in
                case save_progress W s (pl_full p) rowsEmitted json st of
                  (Some e, st1) \<Rightarrow> Some (Some e, st1)
                | (None, st1) \<Rightarrow>
                    map_option (finish_table W s p rolling)
                      (withConsistentSnapshot W (snapshot_loop W s p rolling rowsEmitted c' json) (rowsEmitted, json) st1))))"

section \<open>All tables\<close>

definition SkipSnapshotTables :: "(string \<times> string) list \<Rightarrow> mysql_source \<Rightarrow> mysql_source" where
  "SkipSnapshotTables tables s =
     s\<lparr>ms_skip := filter (\<lambda>k. k \<noteq> ''.'' \<and> k \<noteq> []) (map (\<lambda>(d, t). to_lower (trim_space (full_name d t))) tables)\<rparr>"

definition shouldSkipSnapshotTable :: "mysql_source \<Rightarrow> string \<Rightarrow> bool" where
  "shouldSkipSnapshotTable s full \<longleftrightarrow> to_lower (trim_space full) \<in> set (ms_skip s)"

definition tableRefs :: "mysql_source \<Rightarrow> (string \<times> string) list" where
  "tableRefs s = List.map_filter splitDBTable (my_tables (ms_cfg s))"

text \<open>\<open>first\<close> is the table that carries the resume state, if any.\<close>

fun run_tables ::
  "world \<Rightarrow> mysql_source \<Rightarrow> bool \<Rightarrow> string \<Rightarrow> int \<times> string \<Rightarrow> string list \<Rightarrow> run \<Rightarrow> (go_error option \<times> run) option" where
  "run_tables W s skips start resume [] st = Some (None, st)"
| "run_tables W s skips start resume (full # fulls) st =
     (if skips \<and> shouldSkipSnapshotTable s full then run_tables W s skips start resume fulls st
      else case splitDBTable full of
        None \<Rightarrow> Some (Some (new_error (bad_entry full ''db.table'')), st)
      | Some (db, tbl) \<Rightarrow>
          (case runInitialSnapshotOne W s db tbl
              (if start \<noteq> [] \<and> to_lower (trim_space full) = start then resume else (0, [])) st of
             None \<Rightarrow> None
           | Some (Some e, st') \<Rightarrow> Some (Some e, st')
           | Some (None, st') \<Rightarrow> run_tables W s skips start resume fulls st'))"

definition RunInitialSnapshotAll :: "world \<Rightarrow> mysql_source \<Rightarrow> run \<Rightarrow> (go_error option \<times> run) option" where
  "RunInitialSnapshotAll W s = run_tables W s True [] (0, []) (my_tables (ms_cfg s))"

definition saved_progress :: "world \<Rightarrow> mysql_source \<Rightarrow> run \<Rightarrow> (go_error + snapshot_progress option) \<times> run" where
  "saved_progress W s st =
     (if \<not> ms_store s then (Inr None, st)
      else case store_op W (store_read (GetSnapshotProgress (checkpointKey s))) st of
        (Inl e, st') \<Rightarrow> (Inl (wrap_error ''get snapshot progress failed: '' e), st')
      | (Inr p, st') \<Rightarrow> (Inr p, st'))"

text \<open>A saved table that is no longer configured restarts the snapshot from the first one.\<close>

definition resume_plan :: "string list \<Rightarrow> snapshot_progress option \<Rightarrow> string \<times> (int \<times> string) \<times> string list" where
  "resume_plan tables progress =
     (case progress of
        None \<Rightarrow> ([], (0, []), tables)
      | Some p \<Rightarrow>
          (let start = to_lower (trim_space (sp_table p));
               rest = dropWhile (\<lambda>t. to_lower (trim_space t) \<noteq> start) tables in
           if start = [] \<or> rest = [] then ([], (0, []), tables)
           else (start, (if 0 < sp_next p then sp_next p else 0, sp_cursor p), rest)))"

definition ResumeInitialSnapshotAll :: "world \<Rightarrow> mysql_source \<Rightarrow> run \<Rightarrow> (go_error option \<times> run) option" where
  "ResumeInitialSnapshotAll W s st =
     (case saved_progress W s st of
        (Inl e, st1) \<Rightarrow> Some (Some e, st1)
      | (Inr progress, st1) \<Rightarrow>
          (let (start, resume, todo) = resume_plan (my_tables (ms_cfg s)) progress in
           run_tables W s False start resume todo st1))"

definition RunInitialSnapshotAllFromSavedProgress :: "world \<Rightarrow> mysql_source \<Rightarrow> run \<Rightarrow> (go_error option \<times> run) option" where
  "RunInitialSnapshotAllFromSavedProgress W s st =
     (case saved_progress W s st of
        (Inl e, st1) \<Rightarrow> Some (Some e, st1)
      | (Inr (Some p), st1) \<Rightarrow>
          if trim_space (sp_table p) \<noteq> [] then ResumeInitialSnapshotAll W s st1 else RunInitialSnapshotAll W s st1
      | (Inr None, st1) \<Rightarrow> RunInitialSnapshotAll W s st1)"

text \<open>\<open>util.RetryWithBackoff\<close> around an attempt that changes the state; the waits are left out.\<close>

partial_function (option) retry_run ::
  "world \<Rightarrow> retry_policy \<Rightarrow> (run \<Rightarrow> (go_error option \<times> run) option) \<Rightarrow> nat \<Rightarrow> run \<Rightarrow> (go_error option \<times> run) option" where
  "retry_run W p fn n st =
     Option.bind (fn st) (\<lambda>(r, st').
       case r of
         None \<Rightarrow> Some (None, st')
       | Some e \<Rightarrow>
           if IsPermanent e then Some (Some e, st')
           else if 0 < rp_max_attempts p \<and> rp_max_attempts p \<le> int (Suc n) then Some (Some e, st')
           else (case sw_backoff W n of
                   Some c \<Rightarrow> Some (Some c, st')
                 | None \<Rightarrow> retry_run W p fn (Suc n) st'))"

section \<open>Checkpoints and the completion handshake\<close>

definition resumeOffset :: "world \<Rightarrow> mysql_source \<Rightarrow> run \<Rightarrow> (go_error + offset option) \<times> run" where
  "resumeOffset W s st =
     (case store_op W (store_read (GetOffset (checkpointKey s))) st of
        (Inl e, st1) \<Rightarrow> (Inl e, st1)
      | (Inr off, st1) \<Rightarrow>
          if off \<noteq> None \<or> checkpointKey s = ms_job s then (Inr off, st1)
          else (case store_op W (store_read (GetOffset (ms_job s))) st1 of
             (Inl e, st2) \<Rightarrow> (Inl e, st2)
           | (Inr None, st2) \<Rightarrow> (Inr None, st2)
           | (Inr (Some legacy), st2) \<Rightarrow>
               (case store_op W (SaveOffset (sw_now W) (checkpointKey s) legacy) st2 of
                  (Inl e, st3) \<Rightarrow> (Inl (wrap_error ''migrate legacy checkpoint failed: '' e), st3)
                | (Inr _, st3) \<Rightarrow>
                    (case store_op W (DeleteJobState False (ms_job s)) st3 of
                       (Inl e, st4) \<Rightarrow> (Inl (wrap_error ''cleanup legacy checkpoint failed: '' e), st4)
                     | (Inr _, st4) \<Rightarrow> (Inr (Some legacy), st4)))))"

definition clearLegacyCheckpoint :: "world \<Rightarrow> mysql_source \<Rightarrow> run \<Rightarrow> go_error option \<times> run" where
  "clearLegacyCheckpoint W s st =
     (if \<not> ms_store s \<or> checkpointKey s = ms_job s then (None, st)
      else case store_op W (DeleteJobState False (ms_job s)) st of
        (Inl e, st1) \<Rightarrow> (Some (wrap_error ''cleanup legacy checkpoint failed: '' e), st1)
      | (Inr _, st1) \<Rightarrow> (None, st1))"

definition scoped_start :: "world \<Rightarrow> mysql_source \<Rightarrow> unit db_op" where
  "scoped_start W s db =
     (case CheckScopedRebuildEmptyCheckpoint (sw_owned W) (ms_job s) (checkpointKey s) db of
        Inl e \<Rightarrow> (Inl e, db)
      | Inr _ \<Rightarrow>
          (CheckScopedRebuildIntents (sw_owned W) (sw_owned W) (ms_job s) (checkpointKey s) (ms_token s) False False db, db))"

definition resetInitialCheckpoint :: "world \<Rightarrow> mysql_source \<Rightarrow> run \<Rightarrow> go_error option \<times> run" where
  "resetInitialCheckpoint W s st =
     (if \<not> ms_store s then (None, st)
      else if ms_token s \<noteq> [] then
        (case store_op W (scoped_start W s) st of (Inl e, st1) \<Rightarrow> (Some e, st1) | (Inr _, st1) \<Rightarrow> (None, st1))
      else case clearLegacyCheckpoint W s st of
        (Some e, st1) \<Rightarrow> (Some e, st1)
      | (None, st1) \<Rightarrow>
          (case store_op W (DeleteJobState False (checkpointKey s)) st1 of
             (Inl e, st2) \<Rightarrow> (Some (wrap_error ''reset initial checkpoint failed: '' e), st2)
           | (Inr _, st2) \<Rightarrow> (None, st2)))"

definition completeSnapshot :: "world \<Rightarrow> mysql_source \<Rightarrow> run \<Rightarrow> go_error option \<times> run" where
  "completeSnapshot W s st =
     (case emitSnapshotBarrier W EventTypeSnapshotComplete st of
        (Some e, st1) \<Rightarrow> (Some (wrap_error ''complete snapshot barrier failed: '' e), st1)
      | (None, st1) \<Rightarrow>
          if \<not> ms_store s then (None, st1)
          else (case store_op W (store_read (GetSnapshotState (checkpointKey s))) st1 of
             (Inl e, st2) \<Rightarrow> (Some (wrap_error ''read snapshot completion failed: '' e), st2)
           | (Inr ss, st2) \<Rightarrow>
               if \<not> CompletionConfirmed ss
               then (Some (new_error ''snapshot completion BLOCKED: ACK has no confirmed durable completion''), st2)
               else (case store_op W (ClearSnapshotProgress (checkpointKey s)) st2 of
                  (Inl e, st3) \<Rightarrow> (Some (wrap_error ''clear completed snapshot progress failed: '' e), st3)
                | (Inr _, st3) \<Rightarrow> (None, st3))))"

section \<open>CDC\<close>

text \<open>
  One attempt starts the canal library at the given position, or at the server's current one; the events of
  the attempt are those its handler emitted, and a panic of the library is a permanent error. Every retry
  starts from the position the run began with.
\<close>

definition canal_attempt :: "world \<Rightarrow> (string \<times> 32 word) option \<Rightarrow> run \<Rightarrow> go_error option \<times> run" where
  "canal_attempt W start st =
     (let (e, evs) = sw_canal W (length (sr_canal st)) start in
      (e, st\<lparr>sr_canal := sr_canal st @ [(start, sr_db st)], sr_out := sr_out st @ evs,
             sr_db := fold (sw_sink W) evs (sr_db st)\<rparr>))"

definition runBinlogCanal :: "world \<Rightarrow> mysql_source \<Rightarrow> (string \<times> 32 word) option \<Rightarrow> run \<Rightarrow> (go_error option \<times> run) option" where
  "runBinlogCanal W s start = retry_run W (ms_retry s) (\<lambda>st. Some (canal_attempt W start st)) 0"

section \<open>Run modes\<close>

text \<open>A step that fails ends the run with its error; otherwise the run goes on.\<close>

definition and_then ::
  "go_error option \<times> run \<Rightarrow> (run \<Rightarrow> (go_error option \<times> run) option) \<Rightarrow> (go_error option \<times> run) option" where
  "and_then r next_step = (case r of (Some e, st) \<Rightarrow> Some (Some e, st) | (None, st) \<Rightarrow> next_step st)"

definition loaded_then ::
  "(go_error option \<times> run) option \<Rightarrow> (run \<Rightarrow> (go_error option \<times> run) option) \<Rightarrow> (go_error option \<times> run) option" where
  "loaded_then r next_step = (case r of None \<Rightarrow> None | Some r' \<Rightarrow> and_then r' next_step)"

definition save_start :: "world \<Rightarrow> mysql_source \<Rightarrow> string \<times> 32 word \<Rightarrow> run \<Rightarrow> go_error option \<times> run" where
  "save_start W s pos st =
     (if \<not> ms_store s then (None, st)
      else case store_op W (SaveSnapshotStart (sw_now W) (checkpointKey s)
          \<lparr>of_file = fst pos, of_pos = snd pos, of_updated = sw_now W\<rparr>) st of
        (Inl e, st1) \<Rightarrow> (Some (wrap_error ''save snapshot start failed: '' e), st1)
      | (Inr _, st1) \<Rightarrow> (None, st1))"

definition load_and_confirm ::
  "world \<Rightarrow> mysql_source \<Rightarrow> (run \<Rightarrow> (go_error option \<times> run) option) \<Rightarrow>
     (run \<Rightarrow> (go_error option \<times> run) option) \<Rightarrow> run \<Rightarrow> (go_error option \<times> run) option" where
  "load_and_confirm W s load finish st =
     and_then (case emitSnapshotBarrier W EventTypeSnapshotStart st of
         (Some e, st1) \<Rightarrow> (Some (wrap_error ''start snapshot barrier failed: '' e), st1) | (None, st1) \<Rightarrow> (None, st1))
       (\<lambda>st1. loaded_then (retry_run W (ms_retry s) load 0 st1)
         (\<lambda>st2. and_then (completeSnapshot W s st2) finish))"

definition done_run :: "run \<Rightarrow> (go_error option \<times> run) option" where
  "done_run st = Some (None, st)"

definition run_initial :: "world \<Rightarrow> mysql_source \<Rightarrow> bool \<Rightarrow> run \<Rightarrow> (go_error option \<times> run) option" where
  "run_initial W s handoff st =
     and_then (resetInitialCheckpoint W s st) (\<lambda>st1.
       case sw_master W (sr_queries st1) of
         Inl e \<Rightarrow> Some (Some (wrap_error ''get master pos failed: '' e), st1)
       | Inr pos \<Rightarrow>
           and_then (save_start W s pos st1) (\<lambda>st2.
             load_and_confirm W s (RunInitialSnapshotAllFromSavedProgress W s)
               (if handoff then done_run else runBinlogCanal W s (Some pos)) st2))"

definition run_snapshot_only :: "world \<Rightarrow> mysql_source \<Rightarrow> run \<Rightarrow> (go_error option \<times> run) option" where
  "run_snapshot_only W s st =
     and_then (resetInitialCheckpoint W s st) (\<lambda>st1.
       and_then (save_start W s ([], 0) st1) (\<lambda>st2.
         load_and_confirm W s (RunInitialSnapshotAllFromSavedProgress W s) done_run st2))"

definition resumeSnapshotOnlyProgress ::
  "world \<Rightarrow> mysql_source \<Rightarrow> run \<Rightarrow> ((bool \<times> go_error option) \<times> run) option" where
  "resumeSnapshotOnlyProgress W s st =
     (case saved_progress W s st of
        (Inl e, st1) \<Rightarrow> Some ((False, Some e), st1)
      | (Inr None, st1) \<Rightarrow> Some ((False, None), st1)
      | (Inr (Some p), st1) \<Rightarrow>
          map_option (\<lambda>(e, st'). ((True, e), st'))
            (and_then (save_start W s ([], 0) st1) (load_and_confirm W s (ResumeInitialSnapshotAll W s) done_run)))"

text \<open>A usable saved position; the rest of \<open>runFull\<close> in the modes that resume.\<close>

definition usable_offset :: "offset option \<Rightarrow> (string \<times> 32 word) option" where
  "usable_offset off =
     (case off of None \<Rightarrow> None
      | Some o' \<Rightarrow> if of_file o' \<noteq> [] \<and> of_pos o' > 0 then Some (of_file o', of_pos o') else None)"

definition resume_done ::
  "world \<Rightarrow> mysql_source \<Rightarrow> bool \<Rightarrow> job_mode \<Rightarrow> snapshot_state \<Rightarrow> run \<Rightarrow> (go_error option \<times> run) option" where
  "resume_done W s handoff storedMode ss st =
     (if \<not> CompletionConfirmed (Some ss)
      then Some (Some (new_error ''snapshot completion BLOCKED: legacy done state has no sink confirmation''), st)
      else and_then (completeSnapshot W s st) (\<lambda>st1.
        if storedMode = JobModeSnapshotOnly \<or> handoff then done_run st1
        else case resumeOffset W s st1 of
          (Inl e, st2) \<Rightarrow> Some (Some (wrap_error ''get offset failed: '' e), st2)
        | (Inr off, st2) \<Rightarrow>
            (case usable_offset off of
               Some p \<Rightarrow> runBinlogCanal W s (Some p) st2
             | None \<Rightarrow>
                 if ss_start_file ss \<noteq> [] \<and> ss_start_pos ss > 0
                 then runBinlogCanal W s (Some (ss_start_file ss, ss_start_pos ss)) st2
                 else Some (Some (new_error ''resume requested but no saved CDC checkpoint found''), st2))))"

definition resume_loading ::
  "world \<Rightarrow> mysql_source \<Rightarrow> bool \<Rightarrow> job_mode \<Rightarrow> snapshot_state \<Rightarrow> run \<Rightarrow> (go_error option \<times> run) option" where
  "resume_loading W s handoff storedMode ss st =
     (if storedMode \<noteq> JobModeSnapshotOnly \<and> (ss_start_file ss = [] \<or> ss_start_pos ss = 0)
      then Some (Some (new_error ''resume requested but snapshot start checkpoint is incomplete''), st)
      else load_and_confirm W s (ResumeInitialSnapshotAll W s)
        (if handoff \<or> storedMode = JobModeSnapshotOnly then done_run
         else runBinlogCanal W s (Some (ss_start_file ss, ss_start_pos ss))) st)"

definition resume_without_snapshot ::
  "world \<Rightarrow> mysql_source \<Rightarrow> job_mode \<Rightarrow> run \<Rightarrow> (go_error option \<times> run) option" where
  "resume_without_snapshot W s storedMode st =
     (let missing = new_error ''resume requested but no checkpoint exists'' in
      case resumeOffset W s st of
        (Inl e, st1) \<Rightarrow> Some (Some (wrap_error ''get offset failed: '' e), st1)
      | (Inr off, st1) \<Rightarrow>
          (case usable_offset off of
             Some p \<Rightarrow> runBinlogCanal W s (Some p) st1
           | None \<Rightarrow>
               if storedMode \<noteq> JobModeSnapshotOnly then Some (Some missing, st1)
               else (case resumeSnapshotOnlyProgress W s st1 of
                  None \<Rightarrow> None
                | Some ((resumed, e), st2) \<Rightarrow>
                    if resumed \<or> e \<noteq> None then Some (e, st2) else Some (Some missing, st2))))"

definition run_resume :: "world \<Rightarrow> mysql_source \<Rightarrow> bool \<Rightarrow> job_mode \<Rightarrow> run \<Rightarrow> (go_error option \<times> run) option" where
  "run_resume W s handoff storedMode st =
     (if \<not> ms_store s then Some (Some (new_error ''resume requires meta store''), st)
      else case store_op W (store_read (GetSnapshotState (checkpointKey s))) st of
        (Inl e, st1) \<Rightarrow> Some (Some (wrap_error ''get snapshot state failed: '' e), st1)
      | (Inr (Some ss), st1) \<Rightarrow>
          if ss_done ss then resume_done W s handoff storedMode ss st1
          else resume_loading W s handoff storedMode ss st1
      | (Inr None, st1) \<Rightarrow> resume_without_snapshot W s storedMode st1)"

definition run_latest_offset :: "world \<Rightarrow> mysql_source \<Rightarrow> run \<Rightarrow> (go_error option \<times> run) option" where
  "run_latest_offset W s st =
     (if \<not> ms_store s then Some (Some (new_error ''latest-offset requires meta store''), st)
      else case resumeOffset W s st of
        (Inl e, st1) \<Rightarrow> Some (Some e, st1)
      | (Inr off, st1) \<Rightarrow>
          (case usable_offset off of
             None \<Rightarrow> Some (Some (new_error ''latest-offset requested but no offset found''), st1)
           | Some p \<Rightarrow> runBinlogCanal W s (Some p) st1))"

definition runFull :: "world \<Rightarrow> mysql_source \<Rightarrow> job_mode \<Rightarrow> job_mode \<Rightarrow> run \<Rightarrow> (go_error option \<times> run) option" where
  "runFull W s mode storedMode st =
     (if mode = JobModeInitial then run_initial W s False st
      else if mode = JobModeSnapshotHandoff then run_initial W s True st
      else if mode = JobModeSnapshotOnly then run_snapshot_only W s st
      else if mode = JobModeResume then run_resume W s False storedMode st
      else if mode = JobModeSnapshotHandoffResume then run_resume W s True storedMode st
      else if mode = JobModeLatestOffset then run_latest_offset W s st
      else if mode = JobModeLatest then and_then (clearLegacyCheckpoint W s st) (runBinlogCanal W s None)
      else Some (Some (new_error (''unknown job mode: '' @ mode)), st))"

definition RunFullWithStoredMode ::
  "world \<Rightarrow> mysql_source \<Rightarrow> job_mode \<Rightarrow> job_mode \<Rightarrow> run \<Rightarrow> (go_error option \<times> run) option" where
  "RunFullWithStoredMode W s mode storedMode = runFull W s mode (if storedMode = [] then mode else storedMode)"

section \<open>Loading never starts CDC\<close>

text \<open>What loading does to a run: no CDC starts, what was sent stays sent, pages and calls only grow.\<close>

definition loads :: "run \<Rightarrow> run \<Rightarrow> bool" where
  "loads st st' \<longleftrightarrow> sr_canal st' = sr_canal st \<and> (\<exists>evs. sr_out st' = sr_out st @ evs) \<and> sr_queries st \<le> sr_queries st'"

lemma loads_refl [simp]: "loads st st"
  by (simp add: loads_def)

lemma loads_trans: "loads a b \<Longrightarrow> loads b c \<Longrightarrow> loads a c"
  unfolding loads_def by (metis append.assoc order_trans)

lemma loads_update [simp]:
  "loads st (st\<lparr>sr_calls := n\<rparr>)" "loads st (st\<lparr>sr_db := db\<rparr>)" "loads st (st\<lparr>sr_queries := Suc (sr_queries st)\<rparr>)"
  "loads st (st\<lparr>sr_calls := n, sr_db := db\<rparr>)" "loads st (st\<lparr>sr_db := db, sr_calls := n\<rparr>)"
  by (simp_all add: loads_def)

lemma store_op_loads: "store_op W f st = (r, st') \<Longrightarrow> loads st st' \<and> sr_queries st' = sr_queries st"
  by (auto simp: store_op_def Let_def loads_def split: option.splits prod.splits sum.splits)

lemma send_loads: "send W ev st = (r, st') \<Longrightarrow> loads st st'"
  by (auto simp: send_def loads_def split: send_answer.splits)

lemma send_all_loads: "send_all W evs st = (r, st') \<Longrightarrow> loads st st'"
  by (induction W evs st arbitrary: st' rule: send_all.induct)
    (auto split: prod.splits option.splits dest!: send_loads intro: loads_trans)

lemma save_progress_loads: "save_progress W s full rows json st = (r, st') \<Longrightarrow> loads st st'"
  by (auto simp: save_progress_def split: if_splits prod.splits sum.splits dest!: store_op_loads)

lemma emit_page_loads: "emit_page W s p b n rows st = (r, st') \<Longrightarrow> loads st st'"
  by (auto simp: emit_page_def split: if_splits dest: send_loads send_all_loads)

lemma snapshot_page_loads: "snapshot_page W s p b n c json st = (r, st') \<Longrightarrow> loads st st'"
proof -
  have q: "loads st (st\<lparr>sr_queries := Suc (sr_queries st)\<rparr>)" by simp
  assume "snapshot_page W s p b n c json st = (r, st')"
  then show ?thesis
    by (auto simp: snapshot_page_def Let_def split: option.splits sum.splits prod.splits if_splits
      dest!: emit_page_loads save_progress_loads intro: loads_trans [OF q] loads_trans)
qed

lemma snapshot_loop_loads: "snapshot_loop W s p b n c json st = Some (r, st') \<Longrightarrow> loads st st'"
proof -
  assume "snapshot_loop W s p b n c json st = Some (r, st')"
  then have "loads st (snd (r, st'))"
  proof (rule snapshot_loop.raw_induct [where P = "\<lambda>W s p b n c json st y. loads st (snd y)", rotated])
    fix f W s p b n c json st y
    assume IH: "\<And>W s p b n c json st y. f W s p b n c json st = Some y \<Longrightarrow> loads st (snd y)"
      and "(case snapshot_page W s p b n c json st of
        (Inl r, st') \<Rightarrow> Some (r, st')
      | (Inr (n', c2, json2), st') \<Rightarrow> f W s p b n' c2 json2 st') = Some y"
    then show "loads st (snd y)"
      by (auto split: prod.splits sum.splits dest!: IH snapshot_page_loads intro: loads_trans)
  qed
  then show ?thesis by simp
qed

lemma retry_run_rule:
  assumes "\<And>st e st'. fn st = Some (e, st') \<Longrightarrow> R st st'" "\<And>a b c. R a b \<Longrightarrow> R b c \<Longrightarrow> R a c"
    and "retry_run W p fn n st = Some (r, st')"
  shows "R st st'"
proof -
  from assms(3) have "(\<forall>st e st'. fn st = Some (e, st') \<longrightarrow> R st st') \<longrightarrow> R st (snd (r, st'))"
  proof (rule retry_run.raw_induct [where P = "\<lambda>W p fn n st y. (\<forall>st e st'. fn st = Some (e, st') \<longrightarrow> R st st') \<longrightarrow> R st (snd y)", rotated])
    fix f W p fn n st y
    assume IH: "\<And>W p fn n st y. f W p fn n st = Some y \<Longrightarrow> (\<forall>st e st'. fn st = Some (e, st') \<longrightarrow> R st st') \<longrightarrow> R st (snd y)"
      and b: "Option.bind (fn st) (\<lambda>(r, st').
       case r of None \<Rightarrow> Some (None, st')
       | Some e \<Rightarrow>
           if IsPermanent e then Some (Some e, st')
           else if 0 < rp_max_attempts p \<and> rp_max_attempts p \<le> int (Suc n) then Some (Some e, st')
           else (case sw_backoff W n of Some c \<Rightarrow> Some (Some c, st') | None \<Rightarrow> f W p fn (Suc n) st')) = Some y"
    show "(\<forall>st e st'. fn st = Some (e, st') \<longrightarrow> R st st') \<longrightarrow> R st (snd y)"
    proof
      assume step: "\<forall>st e st'. fn st = Some (e, st') \<longrightarrow> R st st'"
      obtain e st1 where f1: "fn st = Some (e, st1)" using b by (cases "fn st") auto
      have r1: "R st st1" using step f1 by blast
      have "snd y = st1 \<or> f W p fn (Suc n) st1 = Some y"
        using b f1 by (auto split: option.splits if_splits)
      then show "R st (snd y)"
      proof
        assume "f W p fn (Suc n) st1 = Some y"
        then have "R st1 (snd y)" using IH step by blast
        with r1 show ?thesis by (rule assms(2))
      qed (use r1 in simp)
    qed
  qed
  then show ?thesis using assms(1) by simp
qed

lemma finish_table_loads: "finish_table W s p b r = (e, st') \<Longrightarrow> loads (snd r) st'"
  by (auto simp: finish_table_def emitSnapshotTableComplete_def split: prod.splits option.splits if_splits
    dest!: send_loads save_progress_loads intro: loads_trans)

lemma runInitialSnapshotOne_loads: "runInitialSnapshotOne W s db tbl resume st = Some (e, st') \<Longrightarrow> loads st st'"
  by (auto simp: runInitialSnapshotOne_def Let_def withConsistentSnapshot_def split: sum.splits prod.splits option.splits if_splits
    dest!: finish_table_loads save_progress_loads snapshot_loop_loads intro: loads_trans)

lemma run_tables_loads: "run_tables W s k start resume fulls st = Some (e, st') \<Longrightarrow> loads st st'"
  by (induction fulls arbitrary: st)
    (auto split: if_splits option.splits prod.splits dest!: runInitialSnapshotOne_loads intro: loads_trans)

lemma saved_progress_loads: "saved_progress W s st = (r, st') \<Longrightarrow> loads st st'"
  by (auto simp: saved_progress_def split: if_splits prod.splits sum.splits dest!: store_op_loads)

lemma ResumeInitialSnapshotAll_loads: "ResumeInitialSnapshotAll W s st = Some (e, st') \<Longrightarrow> loads st st'"
  by (auto simp: ResumeInitialSnapshotAll_def split: prod.splits sum.splits
    dest!: saved_progress_loads run_tables_loads intro: loads_trans)

lemma RunInitialSnapshotAllFromSavedProgress_loads:
  "RunInitialSnapshotAllFromSavedProgress W s st = Some (e, st') \<Longrightarrow> loads st st'"
  by (auto simp: RunInitialSnapshotAllFromSavedProgress_def RunInitialSnapshotAll_def split: prod.splits sum.splits option.splits if_splits
    dest!: saved_progress_loads run_tables_loads ResumeInitialSnapshotAll_loads intro: loads_trans)

lemma resumeOffset_loads: "resumeOffset W s st = (r, st') \<Longrightarrow> loads st st'"
  by (auto simp: resumeOffset_def split: prod.splits sum.splits option.splits if_splits
    dest!: store_op_loads intro: loads_trans)

lemma clearLegacyCheckpoint_loads: "clearLegacyCheckpoint W s st = (r, st') \<Longrightarrow> loads st st' \<and> sr_queries st' = sr_queries st"
  by (auto simp: clearLegacyCheckpoint_def split: prod.splits sum.splits if_splits dest!: store_op_loads)

lemma resetInitialCheckpoint_loads: "resetInitialCheckpoint W s st = (r, st') \<Longrightarrow> loads st st' \<and> sr_queries st' = sr_queries st"
  by (auto simp: resetInitialCheckpoint_def split: prod.splits sum.splits option.splits if_splits
    dest!: store_op_loads clearLegacyCheckpoint_loads intro: loads_trans)

lemma save_start_loads: "save_start W s pos st = (r, st') \<Longrightarrow> loads st st'"
  by (auto simp: save_start_def split: prod.splits sum.splits if_splits dest!: store_op_loads)

lemma completeSnapshot_loads: "completeSnapshot W s st = (r, st') \<Longrightarrow> loads st st'"
  by (auto simp: completeSnapshot_def emitSnapshotBarrier_def split: prod.splits sum.splits option.splits if_splits
    dest!: store_op_loads send_loads intro: loads_trans)

section \<open>Where CDC starts\<close>

definition confirmed :: "mysql_source \<Rightarrow> meta_db \<Rightarrow> bool" where
  "confirmed s db \<longleftrightarrow> CompletionConfirmed (GetSnapshotState (checkpointKey s) db)"

lemma store_op_Inr:
  "store_op W f st = (Inr x, st') \<Longrightarrow>
     fst (f (sr_db st)) = Inr x \<and> sr_db st' = snd (f (sr_db st)) \<and> sr_canal st' = sr_canal st"
  by (auto simp: store_op_def Let_def split: option.splits prod.splits sum.splits)

lemma store_read_Inr:
  "store_op W (store_read f) st = (Inr x, st') \<Longrightarrow> x = f (sr_db st) \<and> sr_db st' = sr_db st \<and> sr_canal st' = sr_canal st"
  by (auto dest!: store_op_Inr simp: store_read_def)

lemma completeSnapshot_confirmed:
  assumes "completeSnapshot W s st = (None, st')" "ms_store s"
  shows "confirmed s (sr_db st')"
proof -
  obtain st1 ss st2 x where c: "store_op W (store_read (GetSnapshotState (checkpointKey s))) st1 = (Inr ss, st2)" "CompletionConfirmed ss"
    "store_op W (ClearSnapshotProgress (checkpointKey s)) st2 = (Inr x, st')"
    using assms by (auto simp: completeSnapshot_def split: prod.splits option.splits sum.splits if_splits)
  show ?thesis using store_read_Inr [OF c(1)] c(2) store_op_Inr [OF c(3)]
    by (auto simp: confirmed_def GetSnapshotState_def ClearSnapshotProgress_def)
qed

lemma canal_starts:
  assumes "runBinlogCanal W s start st = Some (r, st')"
  shows "\<exists>cs. sr_canal st' = sr_canal st @ cs \<and> cs \<noteq> [] \<and> hd cs = (start, sr_db st) \<and> (\<forall>c \<in> set cs. fst c = start)"
  using assms unfolding runBinlogCanal_def
proof (rule retry_run_rule [rotated -1])
  show "\<exists>cs. sr_canal b = sr_canal a @ cs \<and> cs \<noteq> [] \<and> hd cs = (start, sr_db a) \<and> (\<forall>c\<in>set cs. fst c = start)"
    if "Some (canal_attempt W start a) = Some (e, b)" for a e b
    using that by (auto simp: canal_attempt_def split: prod.splits)
  fix a b c
  assume "\<exists>cs. sr_canal b = sr_canal a @ cs \<and> cs \<noteq> [] \<and> hd cs = (start, sr_db a) \<and> (\<forall>c\<in>set cs. fst c = start)"
    "\<exists>cs. sr_canal c = sr_canal b @ cs \<and> cs \<noteq> [] \<and> hd cs = (start, sr_db b) \<and> (\<forall>c\<in>set cs. fst c = start)"
  then obtain cs ds where "sr_canal b = sr_canal a @ cs" "cs \<noteq> []" "hd cs = (start, sr_db a)" "\<forall>c\<in>set cs. fst c = start"
    "sr_canal c = sr_canal b @ ds" "\<forall>c\<in>set ds. fst c = start" by blast
  then show "\<exists>cs. sr_canal c = sr_canal a @ cs \<and> cs \<noteq> [] \<and> hd cs = (start, sr_db a) \<and> (\<forall>c\<in>set cs. fst c = start)"
    by (intro exI [of _ "cs @ ds"]) auto
qed

lemma load_and_confirm_cases:
  assumes "load_and_confirm W s load finish st = Some (r, st')" "\<And>a e b. load a = Some (e, b) \<Longrightarrow> loads a b"
  shows "sr_canal st' = sr_canal st \<or>
    (\<exists>st2. sr_canal st2 = sr_canal st \<and> (ms_store s \<longrightarrow> confirmed s (sr_db st2)) \<and> finish st2 = Some (r, st'))"
proof -
  obtain e1 st1 where b: "emitSnapshotBarrier W EventTypeSnapshotStart st = (e1, st1)" by fastforce
  then have l1: "sr_canal st1 = sr_canal st" using send_loads by (auto simp: emitSnapshotBarrier_def loads_def)
  show ?thesis
  proof (cases e1)
    case (Some x)
    then show ?thesis using assms(1) b l1 by (auto simp: load_and_confirm_def and_then_def)
  next
    case None
    then obtain e2 st2 where r2: "retry_run W (ms_retry s) load 0 st1 = Some (e2, st2)"
      using assms(1) b by (auto simp: load_and_confirm_def and_then_def loaded_then_def split: option.splits)
  have "loads st1 st2"
      by (rule retry_run_rule [where R = loads and fn = load, OF _ _ r2]) (use assms(2) loads_trans in blast)+
    then have l2: "sr_canal st2 = sr_canal st" using l1 by (simp add: loads_def)
    obtain e3 st3 where c: "completeSnapshot W s st2 = (e3, st3)" by fastforce
    have l3: "sr_canal st3 = sr_canal st" using completeSnapshot_loads [OF c] l2 by (simp add: loads_def)
    have "(case e2 of Some e \<Rightarrow> Some (Some e, st2) | None \<Rightarrow> (case e3 of Some e \<Rightarrow> Some (Some e, st3) | None \<Rightarrow> finish st3)) = Some (r, st')"
      using assms(1) b None r2 c by (auto simp: load_and_confirm_def and_then_def loaded_then_def split: option.splits)
    then show ?thesis using l2 l3 c completeSnapshot_confirmed [of W s st2 st3] by (auto split: option.splits)
  qed
qed

text \<open>The starts a mode may choose, given the metadata before the run and at the first start.\<close>

definition start_ok :: "world \<Rightarrow> mysql_source \<Rightarrow> job_mode \<Rightarrow> run \<Rightarrow> (string \<times> 32 word) option \<Rightarrow> meta_db \<Rightarrow> bool" where
  "start_ok W s mode st start db \<longleftrightarrow>
     (let key = checkpointKey s; saved = (start \<noteq> None \<and> usable_offset (GetOffset key db) = start) in
      if mode = JobModeLatest then start = None
      else if mode = JobModeInitial then
        (\<exists>p. sw_master W (sr_queries st) = Inr p \<and> start = Some p) \<and> (ms_store s \<longrightarrow> confirmed s db)
      else if mode = JobModeLatestOffset then saved
      else if mode = JobModeSnapshotHandoffResume then GetSnapshotState key (sr_db st) = None \<and> saved
      else if mode = JobModeResume then
        GetSnapshotState key (sr_db st) = None \<and> saved \<or>
        confirmed s db \<and> (saved \<or> (\<exists>ss. GetSnapshotState key (sr_db st) = Some ss \<and> start = Some (ss_start_file ss, ss_start_pos ss)))
      else False)"

lemma usable_offset_cong: "of_file a = of_file b \<Longrightarrow> of_pos a = of_pos b \<Longrightarrow> usable_offset (Some a) = usable_offset (Some b)"
  by (simp add: usable_offset_def)

lemma resumeOffset_saved:
  assumes "resumeOffset W s st = (Inr off, st')"
  shows "usable_offset (GetOffset (checkpointKey s) (sr_db st')) = usable_offset off \<and>
    (confirmed s (sr_db st) \<longrightarrow> confirmed s (sr_db st'))"
proof -
  let ?k = "checkpointKey s"
  obtain o1 st1 where 1: "store_op W (store_read (GetOffset ?k)) st = (Inr o1, st1)"
    using assms by (auto simp: resumeOffset_def split: prod.splits sum.splits)
  note r1 = store_read_Inr [OF 1]
  show ?thesis
  proof (cases "o1 \<noteq> None \<or> ?k = ms_job s")
    case True
    then show ?thesis using assms 1 r1 by (auto simp: resumeOffset_def)
  next
    case False
    then obtain o2 st2 where 2: "store_op W (store_read (GetOffset (ms_job s))) st1 = (Inr o2, st2)"
      using assms 1 by (auto simp: resumeOffset_def split: prod.splits sum.splits)
    note r2 = store_read_Inr [OF 2]
    show ?thesis
    proof (cases o2)
      case None
      then show ?thesis using assms 1 2 False r1 r2 by (auto simp: resumeOffset_def)
    next
      case (Some legacy)
      obtain x st3 where 3: "store_op W (SaveOffset (sw_now W) ?k legacy) st2 = (Inr x, st3)"
        using assms 1 2 False Some by (auto simp: resumeOffset_def split: prod.splits sum.splits)
      obtain y where 4: "store_op W (DeleteJobState False (ms_job s)) st3 = (Inr y, st')" "off = Some legacy"
        using assms 1 2 3 False Some by (auto simp: resumeOffset_def split: prod.splits sum.splits)
      have "db_offsets (sr_db st') ?k = db_offsets (sr_db st3) ?k" "db_snapshots (sr_db st') ?k = db_snapshots (sr_db st3) ?k"
        using store_op_Inr [OF 4(1)] False
        by (auto simp: DeleteJobState_eq deleteJobState_def split: sum.splits)
      moreover have "db_snapshots (sr_db st3) ?k = db_snapshots (sr_db st) ?k"
        "db_offsets (sr_db st3) ?k = Some \<lparr>of_file = of_file legacy, of_pos = of_pos legacy, of_updated = sw_now W\<rparr>"
        using store_op_Inr [OF 3] r1 r2 by (auto simp: SaveOffset_def)
      ultimately show ?thesis
        using 4(2) by (auto simp: GetOffset_def confirmed_def GetSnapshotState_def usable_offset_def)
    qed
  qed
qed

definition canal_outcome :: "world \<Rightarrow> mysql_source \<Rightarrow> job_mode \<Rightarrow> run \<Rightarrow> run \<Rightarrow> bool" where
  "canal_outcome W s mode st st' \<longleftrightarrow> sr_canal st' = [] \<or>
     (\<exists>start db. hd (sr_canal st') = (start, db) \<and> start_ok W s mode st start db \<and> (\<forall>c \<in> set (sr_canal st'). fst c = start))"

lemma canal_outcome_none: "sr_canal st' = [] \<Longrightarrow> canal_outcome W s mode st st'"
  by (simp add: canal_outcome_def)

lemma canal_outcome_run:
  assumes "runBinlogCanal W s start st1 = Some (r, st')" "sr_canal st1 = []" "start_ok W s mode st start (sr_db st1)"
  shows "canal_outcome W s mode st st'"
  using canal_starts [OF assms(1)] assms(2,3) by (auto simp: canal_outcome_def)

lemma and_then_cases:
  assumes "and_then r f = Some (e, st')"
  obtains (failed) x where "r = (Some x, st')" | (passed) st1 where "r = (None, st1)" "f st1 = Some (e, st')"
  using assms by (auto simp: and_then_def split: prod.splits option.splits)

lemma step_canal:
  "resetInitialCheckpoint W s st = (r, st') \<Longrightarrow> sr_canal st' = sr_canal st \<and> sr_queries st' = sr_queries st"
  "save_start W s pos st = (r, st') \<Longrightarrow> sr_canal st' = sr_canal st"
  "completeSnapshot W s st = (r, st') \<Longrightarrow> sr_canal st' = sr_canal st"
  "clearLegacyCheckpoint W s st = (r, st') \<Longrightarrow> sr_canal st' = sr_canal st"
  "resumeOffset W s st = (q, st') \<Longrightarrow> sr_canal st' = sr_canal st"
  "saved_progress W s st = (p, st') \<Longrightarrow> sr_canal st' = sr_canal st"
  using resetInitialCheckpoint_loads save_start_loads completeSnapshot_loads clearLegacyCheckpoint_loads
    resumeOffset_loads saved_progress_loads unfolding loads_def by metis+

lemma load_fresh_cases:
  assumes "load_and_confirm W s (RunInitialSnapshotAllFromSavedProgress W s) finish st = Some (r, st')"
  shows "sr_canal st' = sr_canal st \<or>
    (\<exists>st2. sr_canal st2 = sr_canal st \<and> (ms_store s \<longrightarrow> confirmed s (sr_db st2)) \<and> finish st2 = Some (r, st'))"
  using assms by (rule load_and_confirm_cases) (rule RunInitialSnapshotAllFromSavedProgress_loads)

lemma load_resume_cases:
  assumes "load_and_confirm W s (ResumeInitialSnapshotAll W s) finish st = Some (r, st')"
  shows "sr_canal st' = sr_canal st \<or>
    (\<exists>st2. sr_canal st2 = sr_canal st \<and> (ms_store s \<longrightarrow> confirmed s (sr_db st2)) \<and> finish st2 = Some (r, st'))"
  using assms by (rule load_and_confirm_cases) (rule ResumeInitialSnapshotAll_loads)

lemma run_initial_canal:
  assumes "run_initial W s handoff st = Some (r, st')" "sr_canal st = []"
  shows "canal_outcome W s (if handoff then JobModeSnapshotHandoff else JobModeInitial) st st'"
  using assms(1) unfolding run_initial_def
proof (cases rule: and_then_cases)
  case (failed x)
  then show ?thesis using step_canal(1) assms(2) by (metis canal_outcome_none)
next
  case (passed st1)
  note st1 = step_canal(1) [OF passed(1)]
  show ?thesis
  proof (cases "sw_master W (sr_queries st1)")
    case (Inl e)
    then show ?thesis using passed(2) st1 assms(2) by (auto simp: canal_outcome_none)
  next
    case (Inr pos)
    from passed(2) Inr have "and_then (save_start W s pos st1) (load_and_confirm W s (RunInitialSnapshotAllFromSavedProgress W s)
        (if handoff then done_run else runBinlogCanal W s (Some pos))) = Some (r, st')" by simp
    then show ?thesis
    proof (cases rule: and_then_cases)
      case (failed x)
      then show ?thesis using step_canal(2) st1 assms(2) by (metis canal_outcome_none)
    next
      case (passed st2)
      note st2 = step_canal(2) [OF passed(1)]
      from load_fresh_cases [OF passed(2)]
      show ?thesis
      proof (elim disjE exE conjE)
        fix st3 assume st3: "sr_canal st3 = sr_canal st2" "ms_store s \<longrightarrow> confirmed s (sr_db st3)"
          "(if handoff then done_run else runBinlogCanal W s (Some pos)) st3 = Some (r, st')"
        have c: "sr_canal st3 = []" using st1 st2 st3(1) assms(2) by simp
        show ?thesis
        proof (cases handoff)
          case True
          then show ?thesis using st3(3) c by (auto simp: done_run_def canal_outcome_none)
        next
          case False
          have "start_ok W s JobModeInitial st (Some pos) (sr_db st3)"
            using st3(2) Inr st1 by (simp add: start_ok_def)
          then show ?thesis using canal_outcome_run [OF _ c] st3(3) False by simp
        qed
      qed (use st1 st2 assms(2) in \<open>simp add: canal_outcome_none\<close>)
    qed
  qed
qed

lemma run_snapshot_only_canal:
  assumes "run_snapshot_only W s st = Some (r, st')" "sr_canal st = []"
  shows "sr_canal st' = []"
  using assms(1) unfolding run_snapshot_only_def
proof (cases rule: and_then_cases)
  case (failed x)
  then show ?thesis using step_canal(1) assms(2) by metis
next
  case (passed st1)
  note st1 = step_canal(1) [OF passed(1)]
  from passed(2) show ?thesis
  proof (cases rule: and_then_cases)
    case (failed x)
    then show ?thesis using step_canal(2) st1 assms(2) by metis
  next
    case (passed st2)
    from load_fresh_cases [OF passed(2)] step_canal(2) [OF passed(1)] st1 assms(2)
    show ?thesis by (auto simp: done_run_def)
  qed
qed

lemma resume_done_canal:
  assumes "resume_done W s handoff stored ss st1 = Some (r, st')" "sr_canal st1 = []" "ms_store s"
    "GetSnapshotState (checkpointKey s) (sr_db st) = Some ss" "mode = (if handoff then JobModeSnapshotHandoffResume else JobModeResume)"
  shows "canal_outcome W s mode st st'"
proof (cases "CompletionConfirmed (Some ss)")
  case False
  then show ?thesis using assms(1,2) by (auto simp: resume_done_def canal_outcome_none)
next
  case True
  note body = assms(1) [unfolded resume_done_def] True
  then have "and_then (completeSnapshot W s st1) (\<lambda>st1.
        if stored = JobModeSnapshotOnly \<or> handoff then done_run st1
        else case resumeOffset W s st1 of
          (Inl e, st2) \<Rightarrow> Some (Some (wrap_error ''get offset failed: '' e), st2)
        | (Inr off, st2) \<Rightarrow>
            (case usable_offset off of
               Some p \<Rightarrow> runBinlogCanal W s (Some p) st2
             | None \<Rightarrow>
                 if ss_start_file ss \<noteq> [] \<and> ss_start_pos ss > 0
                 then runBinlogCanal W s (Some (ss_start_file ss, ss_start_pos ss)) st2
                 else Some (Some (new_error ''resume requested but no saved CDC checkpoint found''), st2))) = Some (r, st')"
    by simp
  then show ?thesis
  proof (cases rule: and_then_cases)
    case (failed x)
    then show ?thesis using step_canal(3) assms(2) by (metis canal_outcome_none)
  next
    case (passed st2)
    have c2: "sr_canal st2 = []" using step_canal(3) [OF passed(1)] assms(2) by simp
    have conf: "confirmed s (sr_db st2)" by (rule completeSnapshot_confirmed [OF passed(1) assms(3)])
    show ?thesis
    proof (cases "stored = JobModeSnapshotOnly \<or> handoff")
      case True
      then show ?thesis using passed(2) c2 by (auto simp: done_run_def canal_outcome_none)
    next
      case False
      obtain q st3 where o3: "resumeOffset W s st2 = (q, st3)" by fastforce
      have c3: "sr_canal st3 = []" using step_canal(5) [OF o3] c2 by simp
      show ?thesis
      proof (cases q)
        case (Inl e)
        then show ?thesis using passed(2) o3 c3 False by (auto simp: canal_outcome_none)
      next
        case (Inr off)
        note sv = resumeOffset_saved [OF o3 [unfolded Inr]]
        show ?thesis
        proof (cases "usable_offset off")
          case (Some p)
          have "start_ok W s mode st (Some p) (sr_db st3)"
            using sv Some conf False assms(5) by (simp add: start_ok_def)
          then show ?thesis using canal_outcome_run [OF _ c3] passed(2) o3 Inr Some False by simp
        next
          case None
          have "start_ok W s mode st (Some (ss_start_file ss, ss_start_pos ss)) (sr_db st3)"
            using sv conf assms(4,5) False by (simp add: start_ok_def)
          then show ?thesis using canal_outcome_run [OF _ c3] passed(2) o3 Inr None False c3
            by (auto simp: canal_outcome_none split: if_splits)
        qed
      qed
    qed
  qed
qed

lemma resume_loading_canal:
  assumes "resume_loading W s handoff stored ss st1 = Some (r, st')" "sr_canal st1 = []" "ms_store s"
    "GetSnapshotState (checkpointKey s) (sr_db st) = Some ss" "mode = (if handoff then JobModeSnapshotHandoffResume else JobModeResume)"
  shows "canal_outcome W s mode st st'"
proof (cases "stored \<noteq> JobModeSnapshotOnly \<and> (ss_start_file ss = [] \<or> ss_start_pos ss = 0)")
  case True
  then show ?thesis using assms(1,2) by (auto simp: resume_loading_def canal_outcome_none)
next
  case False
  then have "load_and_confirm W s (ResumeInitialSnapshotAll W s)
        (if handoff \<or> stored = JobModeSnapshotOnly then done_run
         else runBinlogCanal W s (Some (ss_start_file ss, ss_start_pos ss))) st1 = Some (r, st')"
    using assms(1) by (simp only: resume_loading_def if_False)
  from load_resume_cases [OF this]
  show ?thesis
  proof (elim disjE exE conjE)
    fix st3 assume st3: "sr_canal st3 = sr_canal st1" "ms_store s \<longrightarrow> confirmed s (sr_db st3)"
      "(if handoff \<or> stored = JobModeSnapshotOnly then done_run
         else runBinlogCanal W s (Some (ss_start_file ss, ss_start_pos ss))) st3 = Some (r, st')"
    show ?thesis
    proof (cases "handoff \<or> stored = JobModeSnapshotOnly")
      case True
      then show ?thesis using st3 assms(2) by (auto simp: done_run_def canal_outcome_none)
    next
      case False
      have "start_ok W s mode st (Some (ss_start_file ss, ss_start_pos ss)) (sr_db st3)"
        using st3(2) assms(3,4,5) False by (simp add: start_ok_def)
      then show ?thesis using canal_outcome_run [where ?st1.0 = st3] st3 assms(2) False by simp
    qed
  qed (use assms(2) in \<open>simp add: canal_outcome_none\<close>)
qed

lemma resumeSnapshotOnlyProgress_canal:
  assumes "resumeSnapshotOnlyProgress W s st = Some (r, st')" "sr_canal st = []"
  shows "sr_canal st' = []"
proof -
  obtain q st1 where q: "saved_progress W s st = (q, st1)" by fastforce
  have c1: "sr_canal st1 = []" using step_canal(6) [OF q] assms(2) by simp
  have "sr_canal st2 = []" if r: "and_then (save_start W s ([], 0) st1) (load_and_confirm W s (ResumeInitialSnapshotAll W s) done_run) = Some (e, st2)" for e st2
    using r
  proof (cases rule: and_then_cases)
    case (failed x)
    then show ?thesis using step_canal(2) c1 by metis
  next
    case (passed st3)
    from load_resume_cases [OF passed(2)] step_canal(2) [OF passed(1)] c1
    show ?thesis by (auto simp: done_run_def)
  qed
  then show ?thesis using assms(1) q c1 by (auto simp: resumeSnapshotOnlyProgress_def split: sum.splits option.splits)
qed

lemma resume_without_snapshot_canal:
  assumes "resume_without_snapshot W s stored st1 = Some (r, st')" "sr_canal st1 = []"
    "GetSnapshotState (checkpointKey s) (sr_db st) = None" "mode \<in> {JobModeResume, JobModeSnapshotHandoffResume}"
  shows "canal_outcome W s mode st st'"
proof -
  obtain q st2 where o2: "resumeOffset W s st1 = (q, st2)" by fastforce
  have c2: "sr_canal st2 = []" using step_canal(5) [OF o2] assms(2) by simp
  show ?thesis
  proof (cases q)
    case (Inl e)
    then show ?thesis using assms(1) o2 c2 by (auto simp: resume_without_snapshot_def canal_outcome_none)
  next
    case (Inr off)
    note sv = resumeOffset_saved [OF o2 [unfolded Inr]]
    show ?thesis
    proof (cases "usable_offset off")
      case (Some p)
      have "start_ok W s mode st (Some p) (sr_db st2)" using sv Some assms(3,4) by (auto simp: start_ok_def)
      then show ?thesis using canal_outcome_run [OF _ c2] assms(1) o2 Inr Some
        by (simp add: resume_without_snapshot_def)
    next
      case None
      then have "sr_canal st' = []"
        using assms(1) o2 Inr c2 by (auto simp: resume_without_snapshot_def Let_def split: if_splits option.splits
          dest!: resumeSnapshotOnlyProgress_canal [OF _ c2])
      then show ?thesis by (rule canal_outcome_none)
    qed
  qed
qed

lemma run_resume_canal:
  assumes "run_resume W s handoff stored st = Some (r, st')" "sr_canal st = []"
    "mode = (if handoff then JobModeSnapshotHandoffResume else JobModeResume)"
  shows "canal_outcome W s mode st st'"
proof (cases "ms_store s")
  case False
  then show ?thesis using assms(1,2) by (auto simp: run_resume_def canal_outcome_none)
next
  case True
  obtain q st1 where q: "store_op W (store_read (GetSnapshotState (checkpointKey s))) st = (q, st1)" by fastforce
  have c1: "sr_canal st1 = []" using store_op_loads [OF q] assms(2) by (auto simp: loads_def)
  show ?thesis
  proof (cases q)
    case (Inl e)
    then show ?thesis using assms(1) q c1 True by (auto simp: run_resume_def canal_outcome_none)
  next
    case (Inr ss')
    note g = store_read_Inr [OF q [unfolded Inr]]
    have mode: "mode \<in> {JobModeResume, JobModeSnapshotHandoffResume}" using assms(3) by simp
    show ?thesis
    proof (cases ss')
      case None
      then show ?thesis using resume_without_snapshot_canal [OF _ c1 _ mode] assms(1) q True Inr g by (simp add: run_resume_def)
    next
      case (Some ss)
      then have gs: "GetSnapshotState (checkpointKey s) (sr_db st) = Some ss" using g by simp
      show ?thesis
      proof (cases "ss_done ss")
        case d: True
        then show ?thesis using resume_done_canal [OF _ c1 True gs assms(3)] assms(1) q True Inr Some by (simp add: run_resume_def)
      next
        case d: False
        then show ?thesis using resume_loading_canal [OF _ c1 True gs assms(3)] assms(1) q True Inr Some by (simp add: run_resume_def)
      qed
    qed
  qed
qed

lemma run_latest_offset_canal:
  assumes "run_latest_offset W s st = Some (r, st')" "sr_canal st = []"
  shows "canal_outcome W s JobModeLatestOffset st st'"
proof (cases "ms_store s")
  case False
  then show ?thesis using assms by (auto simp: run_latest_offset_def canal_outcome_none)
next
  case True
  obtain q st1 where q: "resumeOffset W s st = (q, st1)" by fastforce
  have c1: "sr_canal st1 = []" using step_canal(5) [OF q] assms(2) by simp
  show ?thesis
  proof (cases q)
    case (Inl e)
    then show ?thesis using assms(1) q c1 True by (auto simp: run_latest_offset_def canal_outcome_none)
  next
    case (Inr off)
    note sv = resumeOffset_saved [OF q [unfolded Inr]]
    show ?thesis
    proof (cases "usable_offset off")
      case (Some p)
      have "start_ok W s JobModeLatestOffset st (Some p) (sr_db st1)" using sv Some by (simp add: start_ok_def)
      then show ?thesis using canal_outcome_run [OF _ c1] assms(1) q Inr Some True by (simp add: run_latest_offset_def)
    qed (use assms(1) q c1 True Inr in \<open>auto simp: run_latest_offset_def canal_outcome_none\<close>)
  qed
qed


lemmas run_code [code] = retry_run.simps snapshot_loop.simps

definition sample_cursor_codec :: cursor_codec where
  "sample_cursor_codec = \<lparr>cc_time = (\<lambda>_. ''t''), cc_parse = (\<lambda>_. Inr 0), cc_json = (\<lambda>_. ''cursor''), cc_unjson = (\<lambda>_. Inl ''bad'')\<rparr>"

definition id_column :: table_column where
  "id_column = \<lparr>tc_name = ''id'', tc_data_type = ''bigint'', tc_column_type = ''bigint'', tc_char_max = None,
     tc_precision = None, tc_scale = None, tc_nullable = False, tc_pk = True\<rparr>"

text \<open>A server with one table of three rows, and a sink that confirms the snapshot when it is complete.\<close>

definition sample_world :: world where
  "sample_world =
     \<lparr>sw_codec = sample_cursor_codec, sw_order = True, sw_now = 9,
      sw_schema = (\<lambda>db tbl. Inr \<lparr>ts_schema = db, ts_table = tbl, ts_columns = [id_column]\<rparr>),
      sw_query = (\<lambda>n q args. Inr (if n = 0 then [[(''id'', CInt 1)], [(''id'', CInt 2)]]
                             else if n = 1 then [[(''id'', CInt 3)]] else [])),
      sw_cancel = (\<lambda>_. None), sw_begin = (\<lambda>_. None), sw_send = (\<lambda>_. Taken None),
      sw_sink = (\<lambda>ev db. if ev_type ev = EventTypeSnapshotComplete then snd (MarkSnapshotDone 10 ''k'' db) else db),
      sw_store = (\<lambda>_. None), sw_owned = Inr (), sw_master = (\<lambda>n. Inr (''bin.000003'', if n = 0 then 7 else 900)),
      sw_canal = (\<lambda>n start. (None, [])), sw_backoff = (\<lambda>_. None)\<rparr>"

definition sample_source :: mysql_source where
  "sample_source =
     \<lparr>ms_job = ''j'', ms_state_key = ''k'',
      ms_cfg = (jc_mysql zero_config)\<lparr>my_tables := [''shop.orders''], my_chunk_size := 2\<rparr>,
      ms_retry = \<lparr>rp_max_attempts = 3, rp_base_backoff = 1, rp_max_backoff = 1\<rparr>, ms_store = True, ms_skip = [],
      ms_batches = True, ms_rolling = False, ms_token = []\<rparr>"

definition fresh_run :: "meta_db \<Rightarrow> run" where
  "fresh_run db = \<lparr>sr_db = db, sr_out = [], sr_queries = 0, sr_calls = 0, sr_canal = []\<rparr>"


end
