(* ===== verification/MySQL_Pages.thy ===== *)
theory MySQL_Pages
  imports MySQL_Snapshot "HOL-Library.Option_ord" "HOL-Library.Multiset"
begin

text \<open>
  What the page queries of \<open>pkg/connectors/mysql/source.go\<close> read from a table, against MySQL's documented
  answer to them: a consistent snapshot, ORDER BY with nulls first, LIMIT and OFFSET, and comparisons that are
  never true of a null. The comparison of a column is the order of a rank its collation assigns.

  The lemmas show that the condition the cursor is rendered to selects exactly the rows after it, and that
  the loop over the pages therefore emits every row once.
\<close>

section \<open>MySQL's answers\<close>

type_synonym collation = "string \<Rightarrow> cell \<Rightarrow> int option"

definition cell_of :: "row_data \<Rightarrow> string \<Rightarrow> cell" where
  "cell_of r c = (case map_get r c of None \<Rightarrow> CNull | Some v \<Rightarrow> v)"

definition row_key :: "collation \<Rightarrow> string list \<Rightarrow> row_data \<Rightarrow> int option list" where
  "row_key ord cols r = map (\<lambda>c. ord c (cell_of r c)) cols"

definition sql_eq :: "int option \<Rightarrow> int option \<Rightarrow> bool" where
  "sql_eq a b \<longleftrightarrow> (case (a, b) of (Some x, Some y) \<Rightarrow> x = y | _ \<Rightarrow> False)"

definition sql_greater :: "int option \<Rightarrow> int option \<Rightarrow> bool" where
  "sql_greater a b \<longleftrightarrow> (case (a, b) of (Some x, Some y) \<Rightarrow> x > y | _ \<Rightarrow> False)"

definition clause_holds :: "collation \<Rightarrow> row_data \<Rightarrow> (string \<times> cell) list \<times> string \<times> cell \<Rightarrow> bool" where
  "clause_holds ord r cl \<longleftrightarrow>
     (case cl of (eqs, c, v) \<Rightarrow>
        list_all (\<lambda>(c', v'). sql_eq (ord c' (cell_of r c')) (ord c' v')) eqs \<and> sql_greater (ord c (cell_of r c)) (ord c v))"

definition after_cursor :: "collation \<Rightarrow> string list \<Rightarrow> cell list \<Rightarrow> row_data \<Rightarrow> bool" where
  "after_cursor ord cols vals r \<longleftrightarrow> list_ex (clause_holds ord r) (cursor_clauses cols vals)"

text \<open>\<open>sel\<close> is what the configured filter selects; \<open>rows\<close> are the table's rows in the snapshot.\<close>

definition page_of ::
  "collation \<Rightarrow> snapshot_plan \<Rightarrow> (row_data \<Rightarrow> bool) \<Rightarrow> row_data list \<Rightarrow> int \<Rightarrow> int \<Rightarrow> cell list option \<Rightarrow> row_data list \<Rightarrow> bool" where
  "page_of ord p sel rows limit passed vals ans \<longleftrightarrow>
     (\<exists>L. mset L = mset (filter sel rows) \<and> sorted (map (row_key ord (pl_order p)) L) \<and>
        ans = take (nat limit)
          (if pl_keyset p then (case vals of None \<Rightarrow> L | Some vs \<Rightarrow> filter (after_cursor ord (pl_keys p) vs) L)
           else drop (nat passed) L))"

definition cursor_cells :: "cursor_codec \<Rightarrow> snapshot_cursor option \<Rightarrow> cell list option" where
  "cursor_cells C c' = (case c' of None \<Rightarrow> None | Some c \<Rightarrow> (case queryArgs C (cu_values c) of Inl _ \<Rightarrow> None | Inr vs \<Rightarrow> Some vs))"

definition consistent_snapshot ::
  "world \<Rightarrow> collation \<Rightarrow> snapshot_plan \<Rightarrow> (row_data \<Rightarrow> bool) \<Rightarrow> row_data list \<Rightarrow> bool" where
  "consistent_snapshot W ord p sel rows \<longleftrightarrow>
     (\<forall>n limit passed c' q args. buildSnapshotQuery (sw_codec W) p limit passed c' = Inr (q, args) \<longrightarrow>
        (\<exists>ans. sw_query W n q args = Inr ans \<and> page_of ord p sel rows limit passed (cursor_cells (sw_codec W) c') ans))"

section \<open>The condition of a cursor\<close>

lemma sql_none_free:
  "a \<noteq> None \<Longrightarrow> b \<noteq> None \<Longrightarrow> sql_eq a b \<longleftrightarrow> a = b"
  "a \<noteq> None \<Longrightarrow> b \<noteq> None \<Longrightarrow> sql_greater a b \<longleftrightarrow> b < a"
  by (auto simp: sql_eq_def sql_greater_def)

lemma list_all_zip: "length xs = length ys \<Longrightarrow> list_all P (zip xs ys) \<longleftrightarrow> (\<forall>j < length xs. P (xs ! j, ys ! j))"
  by (simp add: list_all_length)

text \<open>The cursor's condition is the lexicographic order of the keys, where no key is null.\<close>

lemma after_cursor_less:
  assumes "length vals = length cols" "None \<notin> set (map2 ord cols vals)" "None \<notin> set (row_key ord cols r)"
  shows "after_cursor ord cols vals r \<longleftrightarrow> map2 ord cols vals < row_key ord cols r"
proof -
  let ?a = "map2 ord cols vals" and ?b = "row_key ord cols r" and ?n = "length cols"
  have len: "length ?a = ?n" "length ?b = ?n" using assms(1) by (simp_all add: row_key_def)
  have nth: "\<And>i. i < ?n \<Longrightarrow> ?a ! i = ord (cols ! i) (vals ! i) \<and> ?b ! i = ord (cols ! i) (cell_of r (cols ! i))"
    using assms(1) by (simp add: row_key_def)
  have nn: "\<And>i. i < ?n \<Longrightarrow> ?a ! i \<noteq> None \<and> ?b ! i \<noteq> None"
    using assms(2,3) len by (metis nth_mem)
  have clause: "clause_holds ord r (zip (take i cols) (take i vals), cols ! i, vals ! i) \<longleftrightarrow> take i ?a = take i ?b \<and> ?a ! i < ?b ! i"
    if i: "i < ?n" for i
  proof -
    have "list_all (\<lambda>(c', v'). sql_eq (ord c' (cell_of r c')) (ord c' v')) (zip (take i cols) (take i vals)) \<longleftrightarrow>
        (\<forall>j < i. ?b ! j = ?a ! j)"
      using i assms(1) nth nn by (auto simp: list_all_zip sql_none_free)
    also have "\<dots> \<longleftrightarrow> take i ?a = take i ?b" using i len by (auto simp: list_eq_iff_nth_eq)
    finally show ?thesis using i nth nn by (simp add: clause_holds_def sql_none_free)
  qed
  have "after_cursor ord cols vals r \<longleftrightarrow> (\<exists>i < ?n. take i ?a = take i ?b \<and> ?a ! i < ?b ! i)"
    by (auto simp: after_cursor_def cursor_clauses_def list_ex_iff clause)
  also have "\<dots> \<longleftrightarrow> ?a < ?b"
    unfolding list_less_def lexord_take_index_conv len by (auto simp del: map_zip_map take_map nth_map)
  finally show ?thesis .
qed

text \<open>A table's order is determined where its keys differ.\<close>

lemma same_order:
  assumes "mset L = mset S" "sorted (map f L)" "sorted (map f S)" "distinct (map f S)"
  shows "L = S"
proof (rule map_sorted_distinct_set_unique [of f])
  show "set L = set S" using assms(1) by (rule mset_eq_setD)
  have "mset (map f L) = mset (map f S)" using assms(1) by simp
  then show "distinct (map f L)" using assms(4) mset_eq_imp_distinct_iff by blast
  show "inj_on f (set L \<union> set S)" using assms(4) \<open>set L = set S\<close> by (simp add: distinct_map)
qed (use assms in simp_all)

section \<open>Cursors of rows\<close>

text \<open>The key of a row is complete and survives the cursor: its decoded value compares like the original.\<close>

definition key_value_ok :: "cursor_codec \<Rightarrow> collation \<Rightarrow> row_data \<Rightarrow> string \<Rightarrow> bool" where
  "key_value_ok C ord r c \<longleftrightarrow>
     (\<exists>v v'. map_get r c = Some v \<and> ord c v \<noteq> None \<and>
        decode_value C (encodeSnapshotCursorValue C v) = Inr v' \<and> ord c v' = ord c v)"

lemma columns_match_refl [simp]: "columns_match cols cols = Some True"
  by (induction cols) simp_all

lemma row_cursor:
  assumes "\<forall>c \<in> set cols. key_value_ok C ord r c" "cols \<noteq> []"
  obtains c vals where "newSnapshotCursor C cols r = Inr c" "matchesColumns c cols = Some True"
    "queryArgs C (cu_values c) = Inr vals" "length vals = length cols" "map2 ord cols vals = row_key ord cols r"
    "None \<notin> set (row_key ord cols r)"
proof -
  have "\<exists>cvs vals. cursor_values C r cols = Inr cvs \<and> length cvs = length cols \<and> queryArgs C cvs = Inr vals \<and>
      length vals = length cols \<and> map2 ord cols vals = row_key ord cols r \<and> None \<notin> set (row_key ord cols r)"
    using assms(1)
  proof (induction cols)
    case (Cons c cols)
    then obtain cvs vals where IH: "cursor_values C r cols = Inr cvs" "length cvs = length cols" "queryArgs C cvs = Inr vals"
      "length vals = length cols" "map2 ord cols vals = row_key ord cols r" "None \<notin> set (row_key ord cols r)" by auto
    obtain v v' y where v: "map_get r c = Some v" "ord c v = Some y" "decode_value C (encodeSnapshotCursorValue C v) = Inr v'"
      "ord c v' = ord c v" using Cons.prems by (auto simp: key_value_ok_def)
    show ?case using IH v
      by (intro exI [of _ "encodeSnapshotCursorValue C v # cvs"] exI [of _ "v' # vals"]) (simp add: row_key_def cell_of_def)
  qed (simp add: row_key_def)
  then show ?thesis using that assms(2) by (auto simp: newSnapshotCursor_def matchesColumns_def)
qed

section \<open>The loop over a table\<close>

definition readable ::
  "world \<Rightarrow> collation \<Rightarrow> snapshot_plan \<Rightarrow> (row_data \<Rightarrow> bool) \<Rightarrow> row_data list \<Rightarrow> bool" where
  "readable W ord p sel rows \<longleftrightarrow>
     consistent_snapshot W ord p sel rows \<and> pl_keyset p \<and> pl_keys p \<noteq> [] \<and> pl_order p = pl_keys p \<and>
     (\<forall>r \<in> set (filter sel rows). \<forall>c \<in> set (pl_keys p). key_value_ok (sw_codec W) ord r c) \<and>
     distinct (map (row_key ord (pl_keys p)) (filter sel rows))"

text \<open>Nothing fails: every event is taken and acknowledged, every store call succeeds, nobody cancels.\<close>

definition willing :: "world \<Rightarrow> bool" where
  "willing W \<longleftrightarrow> (\<forall>n. sw_cancel W n = None \<and> sw_begin W n = None \<and> sw_send W n = Taken None \<and> sw_store W n = None)"

definition table_rows :: "collation \<Rightarrow> snapshot_plan \<Rightarrow> (row_data \<Rightarrow> bool) \<Rightarrow> row_data list \<Rightarrow> row_data list" where
  "table_rows ord p sel rows = sort_key (row_key ord (pl_keys p)) (filter sel rows)"

definition event_rows :: "event \<Rightarrow> row_data list" where
  "event_rows ev = (if ev_type ev = EventTypeSnapshotBatch then ev_rows ev
     else if ev_type ev = EventTypeInsert then [ev_data ev] else [])"

definition emitted :: "run \<Rightarrow> row_data list" where
  "emitted st = concat (map event_rows (sr_out st))"

definition cursor_at :: "cursor_codec \<Rightarrow> snapshot_plan \<Rightarrow> row_data list \<Rightarrow> snapshot_cursor option \<Rightarrow> bool" where
  "cursor_at C p past c' \<longleftrightarrow>
     (if past = [] then c' = None else \<exists>c. newSnapshotCursor C (pl_keys p) (last past) = Inr c \<and> c' = Some c)"

definition progress_saved :: "mysql_source \<Rightarrow> snapshot_plan \<Rightarrow> int \<Rightarrow> run \<Rightarrow> bool" where
  "progress_saved s p n st \<longleftrightarrow>
     (\<exists>pr. GetSnapshotProgress (checkpointKey s) (sr_db st) = Some pr \<and> sp_table pr = pl_full p \<and> sp_next pr = n)"

lemma store_op_willing: "willing W \<Longrightarrow> store_op W f st =
    (let st1 = st\<lparr>sr_calls := Suc (sr_calls st)\<rparr> in
     case f (sr_db st) of (Inl e, db) \<Rightarrow> (Inl (from_meta e), st1\<lparr>sr_db := db\<rparr>) | (Inr x, db) \<Rightarrow> (Inr x, st1\<lparr>sr_db := db\<rparr>))"
  by (simp add: store_op_def willing_def)

lemma save_progress_willing:
  "willing W \<Longrightarrow> \<exists>st'. save_progress W s (pl_full p) n json st = (None, st') \<and> sr_out st' = sr_out st \<and>
     sr_queries st' = sr_queries st \<and> (ms_store s \<longrightarrow> progress_saved s p n st')"
  by (simp add: save_progress_def store_op_willing SaveSnapshotProgress_def Let_def GetSnapshotProgress_def progress_saved_def)

lemma send_all_willing:
  "willing W \<Longrightarrow> \<exists>st'. send_all W evs st = (None, st') \<and> sr_out st' = sr_out st @ evs \<and> sr_queries st' = sr_queries st"
proof (induction evs arbitrary: st)
  case (Cons ev evs)
  let ?st = "st\<lparr>sr_out := sr_out st @ [ev], sr_db := sw_sink W ev (sr_db st)\<rparr>"
  have "send W ev st = (None, ?st)" using Cons.prems by (auto simp: send_def willing_def)
  then show ?case using Cons.IH [OF Cons.prems, of ?st] by simp
qed simp

lemma emit_page_willing:
  "willing W \<Longrightarrow> \<exists>st'. emit_page W s p b n rows st = (None, st') \<and> emitted st' = emitted st @ rows \<and> sr_queries st' = sr_queries st"
proof (cases "ms_batches s")
  case True
  then show "willing W \<Longrightarrow> ?thesis"
    by (auto simp: emit_page_def send_def willing_def emitted_def event_rows_def batch_event_def)
next
  case False
  assume w: "willing W"
  have "concat (map event_rows (map (insert_event p) rows)) = rows"
    by (induction rows) (simp_all add: event_rows_def insert_event_def)
  then show ?thesis using send_all_willing [OF w, of "map (insert_event p) rows" st] False
    by (auto simp: emit_page_def emitted_def)
qed

lemma last_cursor_keyset:
  assumes "pl_keyset p" "rows \<noteq> []" "\<forall>r \<in> set rows. \<exists>c. newSnapshotCursor C (pl_keys p) r = Inr c"
  shows "last_cursor C p c' rows = map_sum id Some (newSnapshotCursor C (pl_keys p) (last rows))"
  using assms(2,3)
proof (induction rows arbitrary: c')
  case (Cons r rows)
  then obtain c where "newSnapshotCursor C (pl_keys p) r = Inr c" by auto
  then show ?case using Cons assms(1) by (cases rows) simp_all
qed simp

lemma table_rows_facts:
  assumes "readable W ord p sel rows"
  shows "mset (table_rows ord p sel rows) = mset (filter sel rows)"
    "sorted (map (row_key ord (pl_keys p)) (table_rows ord p sel rows))"
    "distinct (map (row_key ord (pl_keys p)) (table_rows ord p sel rows))"
    "r \<in> set (table_rows ord p sel rows) \<Longrightarrow> \<forall>c \<in> set (pl_keys p). key_value_ok (sw_codec W) ord r c"
proof -
  show m: "mset (table_rows ord p sel rows) = mset (filter sel rows)" by (simp add: table_rows_def)
  show "sorted (map (row_key ord (pl_keys p)) (table_rows ord p sel rows))" by (simp add: table_rows_def)
  have "mset (map (row_key ord (pl_keys p)) (table_rows ord p sel rows)) = mset (map (row_key ord (pl_keys p)) (filter sel rows))"
    using m by simp
  then show "distinct (map (row_key ord (pl_keys p)) (table_rows ord p sel rows))"
    using assms mset_eq_imp_distinct_iff unfolding readable_def by blast
  show "r \<in> set (table_rows ord p sel rows) \<Longrightarrow> \<forall>c \<in> set (pl_keys p). key_value_ok (sw_codec W) ord r c"
    using assms by (auto simp: readable_def table_rows_def)
qed

text \<open>What the server answers to the page after the rows \<open>past\<close>.\<close>

lemma page_answer:
  assumes "readable W ord p sel rows" "table_rows ord p sel rows = past @ todo" "cursor_at (sw_codec W) p past c'"
  shows "\<exists>q args. buildSnapshotQuery (sw_codec W) p limit n c' = Inr (q, args) \<and> sw_query W m q args = Inr (take (nat limit) todo)"
proof -
  let ?C = "sw_codec W" and ?k = "row_key ord (pl_keys p)" and ?S = "table_rows ord p sel rows"
  note t = table_rows_facts [OF assms(1)]
  have ks: "pl_keyset p" "pl_keys p \<noteq> []" "pl_order p = pl_keys p" and cs: "consistent_snapshot W ord p sel rows"
    using assms(1) by (simp_all add: readable_def)
  have order: "L = ?S" if "mset L = mset (filter sel rows)" "sorted (map (row_key ord (pl_order p)) L)" for L
    using same_order [of L ?S ?k] that t ks(3) by simp
  show ?thesis
  proof (cases "past = []")
    case True
    then have c': "c' = None" using assms(3) by (simp add: cursor_at_def)
    then obtain q args where q: "buildSnapshotQuery ?C p limit n c' = Inr (q, args)"
      using ks(1) by (auto simp: buildSnapshotQuery_def Let_def)
    from cs [unfolded consistent_snapshot_def, rule_format, OF q, of m] obtain ans where
      ans: "sw_query W m q args = Inr ans" "page_of ord p sel rows limit n (cursor_cells ?C c') ans" by blast
    have "ans = take (nat limit) ?S" using ans(2) order ks(1) c' by (auto simp: page_of_def cursor_cells_def)
    then show ?thesis using q ans(1) assms(2) True by simp
  next
    case False
    let ?l = "last past"
    have l: "?l \<in> set ?S" using False assms(2) by simp
    obtain c vals where c: "newSnapshotCursor ?C (pl_keys p) ?l = Inr c" "matchesColumns c (pl_keys p) = Some True"
      "queryArgs ?C (cu_values c) = Inr vals" "length vals = length (pl_keys p)" "map2 ord (pl_keys p) vals = ?k ?l"
      "None \<notin> set (?k ?l)" using row_cursor [OF t(4) [OF l] ks(2)] .
    have c': "c' = Some c" using assms(3) False c(1) by (simp add: cursor_at_def)
    obtain q args where q: "buildSnapshotQuery ?C p limit n c' = Inr (q, args)"
      using ks(1) c c' by (simp add: buildSnapshotQuery_def buildSnapshotCursorPredicate_def Let_def)
    from cs [unfolded consistent_snapshot_def, rule_format, OF q, of m] obtain ans where
      ans: "sw_query W m q args = Inr ans" "page_of ord p sel rows limit n (cursor_cells ?C c') ans" by blast
    have after: "after_cursor ord (pl_keys p) vals r \<longleftrightarrow> ?k ?l < ?k r" if r: "r \<in> set ?S" for r
    proof -
      obtain c2 vals2 where "None \<notin> set (?k r)" using row_cursor [OF t(4) [OF r] ks(2)] .
      then show ?thesis using after_cursor_less [OF c(4), of ord r] c(5,6) by simp
    qed
    have sd: "sorted_wrt (<) (map ?k (past @ todo))" using t(2,3) assms(2) by (simp add: strict_sorted_iff)
    obtain ps where past: "past = ps @ [?l]" using False by (metis append_butlast_last_id)
    have "filter (after_cursor ord (pl_keys p) vals) (past @ todo) = todo"
    proof -
      have "sorted_wrt (<) (map ?k (ps @ [?l]))" using sd past by (metis map_append sorted_wrt_append)
      then have "\<not> ?k ?l < ?k r" if "r \<in> set (ps @ [?l])" for r
        using that by (fastforce simp: sorted_wrt_append)
      then have "\<not> ?k ?l < ?k r" if "r \<in> set past" for r using that past by metis
      moreover have "?k ?l < ?k r" if "r \<in> set todo" for r
        using sd that False by (auto simp: sorted_wrt_append)
      ultimately show ?thesis using after assms(2) by (simp add: filter_empty_conv filter_id_conv)
    qed
    moreover have "ans = take (nat limit) (filter (after_cursor ord (pl_keys p) vals) ?S)"
      using ans(2) order ks(1) c' c(3) by (auto simp: page_of_def cursor_cells_def)
    ultimately have "ans = take (nat limit) todo" by (simp only: assms(2))
    then show ?thesis using q ans(1) by simp
  qed
qed

lemma new_cursor_past:
  assumes "readable W ord p sel rows" "table_rows ord p sel rows = past @ todo" "page \<noteq> []" "set page \<subseteq> set todo"
  shows "\<exists>c. last_cursor (sw_codec W) p None page = Inr (Some c) \<and> cursor_at (sw_codec W) p (past @ page) (Some c)"
proof -
  have ok: "\<exists>c. newSnapshotCursor (sw_codec W) (pl_keys p) r = Inr c" if r: "r \<in> set page" for r
  proof -
    have "r \<in> set (table_rows ord p sel rows)" using r assms(2,4) by auto
    from row_cursor [OF table_rows_facts(4) [OF assms(1) this]] show ?thesis
      using assms(1) by (metis readable_def)
  qed
  then obtain c where c: "newSnapshotCursor (sw_codec W) (pl_keys p) (last page) = Inr c" using assms(3) by fastforce
  moreover have "last_cursor (sw_codec W) p None page = Inr (Some c)"
    using last_cursor_keyset [of p page "sw_codec W" None] ok c assms(1,3) by (simp add: readable_def)
  ultimately show ?thesis using assms(3) by (simp add: cursor_at_def)
qed

lemma snapshot_page_last:
  assumes "readable W ord p sel rows" "willing W" "table_rows ord p sel rows = past" "cursor_at (sw_codec W) p past c'"
  shows "snapshot_page W s p b n c' json st = (Inl (None, n, json), st\<lparr>sr_queries := Suc (sr_queries st)\<rparr>)"
proof -
  obtain q args where "buildSnapshotQuery (sw_codec W) p (snapshot_chunk_size s) n c' = Inr (q, args)"
    "sw_query W (sr_queries st) q args = Inr (take (nat (snapshot_chunk_size s)) [])"
    using page_answer [of W ord p sel rows past "[]"] assms by fastforce
  then show ?thesis using assms(2) by (simp add: snapshot_page_def willing_def)
qed

lemma snapshot_page_more:
  assumes "readable W ord p sel rows" "willing W" "table_rows ord p sel rows = past @ todo" "cursor_at (sw_codec W) p past c'"
    "todo \<noteq> []" "0 < snapshot_chunk_size s"
  defines "page \<equiv> take (nat (snapshot_chunk_size s)) todo"
  shows "\<exists>c st'. snapshot_page W s p b n c' json st = (Inr (n + int (length page), Some c, cc_json (sw_codec W) c), st') \<and>
    cursor_at (sw_codec W) p (past @ page) (Some c) \<and> emitted st' = emitted st @ page \<and> sr_queries st' = Suc (sr_queries st) \<and>
    (ms_store s \<and> \<not> b \<longrightarrow> progress_saved s p (n + int (length page)) st')"
proof -
  have pg: "page \<noteq> []" "set page \<subseteq> set todo" using assms(5,6) by (auto simp: page_def dest: in_set_takeD)
  obtain q args where q: "buildSnapshotQuery (sw_codec W) p (snapshot_chunk_size s) n c' = Inr (q, args)"
    "sw_query W (sr_queries st) q args = Inr page"
    using page_answer [OF assms(1,3,4)] unfolding page_def by blast
  obtain c where c: "last_cursor (sw_codec W) p None page = Inr (Some c)" "cursor_at (sw_codec W) p (past @ page) (Some c)"
    using new_cursor_past [OF assms(1,3) pg] by blast
  let ?st1 = "st\<lparr>sr_queries := Suc (sr_queries st)\<rparr>"
  obtain st2 where st2: "emit_page W s p b n page ?st1 = (None, st2)" "emitted st2 = emitted ?st1 @ page"
    "sr_queries st2 = sr_queries ?st1" using emit_page_willing [OF assms(2)] by blast
  obtain st3 where st3: "save_progress W s (pl_full p) (n + int (length page)) (cc_json (sw_codec W) c) st2 = (None, st3)"
    "sr_out st3 = sr_out st2" "sr_queries st3 = sr_queries st2"
    "ms_store s \<longrightarrow> progress_saved s p (n + int (length page)) st3" using save_progress_willing [OF assms(2)] by blast
  have ks: "pl_keyset p" "sw_cancel W (sr_queries st) = None" using assms(1,2) by (simp_all add: readable_def willing_def)
  have e: "emitted st3 = emitted st2" "emitted ?st1 = emitted st" using st3 by (simp_all add: emitted_def)
  show ?thesis
  proof (cases b)
    case True
    then have "snapshot_page W s p b n c' json st = (Inr (n + int (length page), Some c, cc_json (sw_codec W) c), st2)"
      using q c(1) st2(1) ks pg(1) by (simp add: snapshot_page_def encodeSnapshotCursor_def Let_def)
    then show ?thesis using True c(2) st2 e by simp
  next
    case False
    then have "snapshot_page W s p b n c' json st = (Inr (n + int (length page), Some c, cc_json (sw_codec W) c), st3)"
      using q c(1) st2(1) st3(1) ks pg(1) by (simp add: snapshot_page_def encodeSnapshotCursor_def Let_def)
    then show ?thesis using c(2) st2 st3 e by simp
  qed
qed

lemma snapshot_loop_complete:
  assumes "readable W ord p sel rows" "willing W" "0 < snapshot_chunk_size s"
    "table_rows ord p sel rows = past @ todo" "cursor_at (sw_codec W) p past c'" "ms_store s \<and> \<not> b \<longrightarrow> progress_saved s p n st"
  shows "\<exists>json' st'. snapshot_loop W s p b n c' json st = Some ((None, n + int (length todo), json'), st') \<and>
    emitted st' = emitted st @ todo \<and> sr_queries st' \<le> sr_queries st + length todo + 1 \<and>
    (ms_store s \<and> \<not> b \<longrightarrow> progress_saved s p (n + int (length todo)) st')"
  using assms(4-6)
proof (induction "length todo" arbitrary: past todo c' n json st rule: less_induct)
  case less
  show ?case
  proof (cases "todo = []")
    case True
    then have "table_rows ord p sel rows = past" using less.prems(1) by simp
    from snapshot_page_last [OF assms(1,2) this less.prems(2)] True less.prems(3) show ?thesis
      by (subst snapshot_loop.simps) (simp add: emitted_def progress_saved_def)
  next
    case False
    let ?page = "take (nat (snapshot_chunk_size s)) todo" and ?rest = "drop (nat (snapshot_chunk_size s)) todo"
    obtain c st1 where p: "snapshot_page W s p b n c' json st = (Inr (n + int (length ?page), Some c, cc_json (sw_codec W) c), st1)"
      "cursor_at (sw_codec W) p (past @ ?page) (Some c)" "emitted st1 = emitted st @ ?page" "sr_queries st1 = Suc (sr_queries st)"
      and sv: "ms_store s \<and> \<not> b \<longrightarrow> progress_saved s p (n + int (length ?page)) st1"
      using snapshot_page_more [OF assms(1,2) less.prems(1,2) False assms(3)] by blast
    have len: "length ?rest < length todo" using False assms(3) by simp
    have "table_rows ord p sel rows = (past @ ?page) @ ?rest" using less.prems(1) by simp
    from less.hyps [OF len this p(2) sv] obtain json' st' where
      "snapshot_loop W s p b (n + int (length ?page)) (Some c) (cc_json (sw_codec W) c) st1 =
         Some ((None, n + int (length ?page) + int (length ?rest), json'), st')"
      "emitted st' = emitted st1 @ ?rest" "sr_queries st' \<le> sr_queries st1 + length ?rest + 1"
      "ms_store s \<and> \<not> b \<longrightarrow> progress_saved s p (n + int (length ?page) + int (length ?rest)) st'" by blast
    moreover have "int (length ?page) + int (length ?rest) = int (length todo)"
      by (metis append_take_drop_id length_append of_nat_add)
    moreover have "sr_queries st1 + length ?rest + 1 \<le> sr_queries st + length todo + 1" using len p(4) by simp
    ultimately show ?thesis using p by (subst snapshot_loop.simps) (simp add: add.assoc)
  qed
qed

section \<open>One table, fresh or resumed\<close>

lemma chunk_size_pos [simp]: "0 < snapshot_chunk_size s"
  by (simp add: snapshot_chunk_size_def Let_def)

text \<open>The resume state that a run which emitted \<open>past\<close> has saved.\<close>

definition resume_state_of :: "cursor_codec \<Rightarrow> snapshot_plan \<Rightarrow> row_data list \<Rightarrow> int \<times> string \<Rightarrow> bool" where
  "resume_state_of C p past resume \<longleftrightarrow>
     (if past = [] then resume = (0, [])
      else 0 < fst resume \<and> trim_space (snd resume) = snd resume \<and> snd resume \<noteq> [] \<and>
        (\<exists>c. newSnapshotCursor C (pl_keys p) (last past) = Inr c \<and> cc_unjson C (snd resume) = Inr c))"

lemma restore_resumes:
  assumes "readable W ord p sel rows" "table_rows ord p sel rows = past @ todo" "resume_state_of (sw_codec W) p past resume"
  shows "\<exists>c' json. restoreSnapshotCursor (sw_codec W) p (fst resume) (snd resume) = Inr (c', fst resume, json) \<and>
    cursor_at (sw_codec W) p past c' \<and> (past \<noteq> [] \<longrightarrow> 0 < fst resume)"
proof (cases "past = []")
  case True
  then show ?thesis using assms by (auto simp: restoreSnapshotCursor_def resume_state_of_def readable_def cursor_at_def)
next
  case False
  then obtain c where r: "0 < fst resume" "trim_space (snd resume) = snd resume" "snd resume \<noteq> []"
    "newSnapshotCursor (sw_codec W) (pl_keys p) (last past) = Inr c" "cc_unjson (sw_codec W) (snd resume) = Inr c"
    using assms(3) by (auto simp: resume_state_of_def)
  have ks: "pl_keys p \<noteq> []" "pl_keyset p" using assms(1) by (simp_all add: readable_def)
  have "last past \<in> set (table_rows ord p sel rows)" using False assms(2) by simp
  from row_cursor [OF table_rows_facts(4) [OF assms(1) this] ks(1)] r(4)
  obtain vals where m: "matchesColumns c (pl_keys p) = Some True" "queryArgs (sw_codec W) (cu_values c) = Inr vals"
    "length vals = length (pl_keys p)" by (metis sum.inject(2))
  then have "cu_values c \<noteq> []" using ks(1) by auto
  then have "restoreSnapshotCursor (sw_codec W) p (fst resume) (snd resume) = Inr (Some c, fst resume, snd resume)"
    using r(1,2,3,5) ks(2) m(1) by (simp add: restoreSnapshotCursor_def decodeSnapshotCursor_def Let_def)
  then show ?thesis using r(1,4) False by (intro exI [of _ "Some c"] exI [of _ "snd resume"]) (simp add: cursor_at_def)
qed


text \<open>A server that holds three rows and answers from the query's arguments.\<close>

definition int_order :: collation where
  "int_order c v = (case v of CInt i \<Rightarrow> Some i | _ \<Rightarrow> None)"

definition id_rows :: "row_data list" where
  "id_rows = [[(''id'', CInt 1)], [(''id'', CInt 2)], [(''id'', CInt 3)]]"

definition id_answer :: "cell list \<Rightarrow> row_data list" where
  "id_answer args =
     (case args of
        [CInt n] \<Rightarrow> take (nat n) id_rows
      | [v, CInt n] \<Rightarrow> take (nat n) (filter (after_cursor int_order [''id''] [v]) id_rows)
      | _ \<Rightarrow> [])"

definition first_id :: snapshot_cursor where
  "first_id = \<lparr>cu_columns = [''id''], cu_values = [encodeSnapshotCursorValue sample_cursor_codec (CInt 1)]\<rparr>"

definition id_world :: world where
  "id_world = sample_world\<lparr>sw_codec := sample_cursor_codec\<lparr>cc_unjson := (\<lambda>_. Inr first_id)\<rparr>, sw_query := (\<lambda>n q args. Inr (id_answer args))\<rparr>"

definition id_plan :: snapshot_plan where
  "id_plan = \<lparr>pl_db = ''shop'', pl_table = ''orders'', pl_full = ''shop.orders'', pl_select = quote_ident ''orders'' @ ''.*'', pl_filter = [],
     pl_order = [''id''], pl_keys = [''id''], pl_keyset = True\<rparr>"

lemma queryArgs_length: "queryArgs C vs = Inr cs \<Longrightarrow> length cs = length vs"
  by (induction vs arbitrary: cs) (auto split: sum.splits)

lemma id_world_consistent: "consistent_snapshot id_world int_order id_plan (\<lambda>_. True) id_rows"
  unfolding consistent_snapshot_def
proof (intro allI impI)
  fix n limit passed c' q args
  assume b: "buildSnapshotQuery (sw_codec id_world) id_plan limit passed c' = Inr (q, args)"
  have s: "sorted (map (row_key int_order [''id'']) id_rows)"
    by code_simp
  have "page_of int_order id_plan (\<lambda>_. True) id_rows limit passed (cursor_cells (sw_codec id_world) c') (id_answer args)"
  proof (cases c')
    case None
    then have "args = [CInt limit]" using b by (simp add: buildSnapshotQuery_def id_plan_def Let_def)
    then show ?thesis using s None
      by (auto simp: page_of_def id_answer_def cursor_cells_def id_plan_def intro!: exI [of _ id_rows])
  next
    case (Some c)
    then obtain pr as where p: "buildSnapshotCursorPredicate (sw_codec id_world) [''id''] (Some c) = Inr (pr, as)" "args = as @ [CInt limit]"
      using b by (auto simp: buildSnapshotQuery_def id_plan_def Let_def split: sum.splits)
    then obtain vals where v: "matchesColumns c [''id''] = Some True" "queryArgs (sw_codec id_world) (cu_values c) = Inr vals"
      "as = concat (map clause_args (cursor_clauses [''id''] vals))"
      by (auto simp: buildSnapshotCursorPredicate_def Let_def split: option.splits bool.splits sum.splits)
    from v(1) have "length (cu_values c) = 1" by (auto simp: matchesColumns_def split: if_splits)
    then obtain v where "vals = [v]" using queryArgs_length [OF v(2)] by (auto simp: length_Suc_conv)
    then have "args = [v, CInt limit]" "cursor_cells (sw_codec id_world) c' = Some [v]"
      using p(2) v Some by (simp_all add: cursor_clauses_def clause_args_def cursor_cells_def)
    then show ?thesis using s
      by (auto simp: page_of_def id_answer_def id_plan_def intro!: exI [of _ id_rows] split: cell.split)
  qed
  then show "\<exists>ans. sw_query id_world n q args = Inr ans \<and>
      page_of int_order id_plan (\<lambda>_. True) id_rows limit passed (cursor_cells (sw_codec id_world) c') ans"
    by (simp add: id_world_def)
qed


end
