(* ===== verification/MySQL_CDC.thy ===== *)
theory MySQL_CDC
  imports MySQL_Snapshot Job_Progress "HOL-Library.Sublist"
begin

text \<open>
  The CDC side of the MySQL source: the handler that the canal library calls for every binlog event
  (\<open>cdcHandler\<close> in \<open>pkg/connectors/mysql/source.go\<close>), what it sends, reports and logs, and the lag report,
  the diagnostics and the position queries around it. The library, the clock, the context and the
  formatting of a cell are fields of \<open>cdc_env\<close>.

  The lemmas show that a stream of binlog events reaches the output channel row by row, in order, for the
  configured tables only and with the position it was read at, whatever the clock and the backpressure.
\<close>

section \<open>Binlog events\<close>

text \<open>A header that is missing has position 0. Primary key columns are indices into the columns.\<close>

record rows_table =
  rt_schema :: string
  rt_name :: string
  rt_cols :: "string list"
  rt_pk :: "int list"

record rows_event =
  re_action :: string
  re_table :: "rows_table option"
  re_rows :: "cell list list"
  re_pos :: "32 word"

abbreviation "InsertAction \<equiv> ''insert''"
abbreviation "UpdateAction \<equiv> ''update''"
abbreviation "DeleteAction \<equiv> ''delete''"

section \<open>The handler\<close>

text \<open>
  \<open>ce_emit n\<close> is what happens when the \<open>n\<close>-th event meets the channel: the context is already done, the
  event is taken, it is taken after the ten seconds of backpressure, or the context ends before or after them.
\<close>

datatype emit_answer = CtxDone go_error | Sent | SentSlowly | CtxEnds go_error | CtxEndsSlowly go_error

record cdc_env =
  ce_clock :: "nat \<Rightarrow> int"
  ce_emit :: "nat \<Rightarrow> emit_answer"
  ce_parse :: "string \<Rightarrow> string + ddl_stmt"
  ce_fetch :: "(string \<Rightarrow> string \<Rightarrow> string + table_schema) option"
  ce_show :: "cell \<Rightarrow> string"

datatype cdc_log = LogReceived string nat string string | LogEmitted event string string | LogCheckpoint event bool

record cdc_handler =
  ch_allowed :: "string set"
  ch_file :: string
  ch_start_file :: string
  ch_start_pos :: "32 word"
  ch_total :: int
  ch_reports :: bool
  ch_last_at :: int
  ch_last_file :: string
  ch_last_pos :: "32 word"
  ch_logged_at :: "int option"
  ch_ticks :: nat
  ch_tries :: nat
  ch_infos :: "progress_info list"
  ch_log :: "cdc_log list"
  ch_out :: "event list"

datatype handler_result = Returned "go_error option" | Panicked

definition at_pos :: "string \<Rightarrow> 32 word \<Rightarrow> string" where
  "at_pos file pos = file @ '':'' @ show_int (uint pos)"

definition streaming_info :: "cdc_handler \<Rightarrow> string \<Rightarrow> string \<Rightarrow> string \<Rightarrow> 32 word \<Rightarrow> progress_info" where
  "streaming_info h summary detail file pos =
     zero_info\<lparr>pi_phase := ''streaming'', pi_summary := summary, pi_detail := detail, pi_completed := ch_total h,
       pi_total := ch_total h, pi_start_file := ch_start_file h, pi_start_pos := ch_start_pos h,
       pi_current_file := file, pi_current_pos := pos\<rparr>"

definition live_detail :: "cdc_handler \<Rightarrow> string \<Rightarrow> 32 word \<Rightarrow> string" where
  "live_detail h file pos =
     (let tables = show_int (ch_total h) @ '' table(s)'' in
      if trim_space (ch_start_file h) \<noteq> [] \<and> 0 < ch_start_pos h
      then ''CDC current '' @ at_pos file pos @ ''; started from '' @ at_pos (ch_start_file h) (ch_start_pos h) @ '' across '' @ tables
      else if 0 < ch_total h then ''CDC current '' @ at_pos file pos @ '' across '' @ tables
      else ''CDC current '' @ at_pos file pos)"

text \<open>A time is a number of nanoseconds; two seconds keep reports of one file apart.\<close>

definition reportLivePosition :: "cdc_env \<Rightarrow> string \<Rightarrow> 32 word \<Rightarrow> bool \<Rightarrow> cdc_handler \<Rightarrow> cdc_handler" where
  "reportLivePosition E file pos force h =
     (if \<not> ch_reports h \<or> trim_space file = [] \<or> pos = 0 then h
      else let now = ce_clock E (ch_ticks h); h1 = h\<lparr>ch_ticks := Suc (ch_ticks h)\<rparr> in
        if \<not> force \<and> ch_last_file h = file \<and> ch_last_pos h = pos then h1
        else if \<not> force \<and> ch_last_file h = file \<and> now - ch_last_at h < 2000000000 then h1
        else h1\<lparr>ch_last_at := now, ch_last_file := file, ch_last_pos := pos,
               ch_infos := ch_infos h @ [streaming_info h ''CDC streaming'' (live_detail h file pos) file pos]\<rparr>)"

definition reportBackpressure :: "string \<Rightarrow> 32 word \<Rightarrow> string \<Rightarrow> cdc_handler \<Rightarrow> cdc_handler" where
  "reportBackpressure file pos detail h =
     (if \<not> ch_reports h then h
      else h\<lparr>ch_infos := ch_infos h @ [streaming_info h ''Waiting for sink flush'' detail file pos]\<rparr>)"

text \<open>The wait for the channel, which \<open>emit\<close> and \<open>OnDDL\<close> share.\<close>

definition put_event :: "event \<Rightarrow> cdc_handler \<Rightarrow> cdc_handler" where
  "put_event ev h = h\<lparr>ch_out := ch_out h @ [ev]\<rparr>"

definition await_channel ::
  "cdc_env \<Rightarrow> event \<Rightarrow> string \<Rightarrow> 32 word \<Rightarrow> string \<Rightarrow> emit_answer \<Rightarrow> cdc_handler \<Rightarrow> go_error option \<times> cdc_handler" where
  "await_channel E ev file pos detail answer h =
     (let h1 = h\<lparr>ch_tries := Suc (ch_tries h)\<rparr> in
      case answer of
        Sent \<Rightarrow> (None, put_event ev h1)
      | SentSlowly \<Rightarrow> (None, reportLivePosition E file pos True (put_event ev (reportBackpressure file pos detail h1)))
      | CtxEndsSlowly e \<Rightarrow> (Some e, reportBackpressure file pos detail h1)
      | CtxEnds e \<Rightarrow> (Some e, h1)
      | CtxDone e \<Rightarrow> (Some e, h1))"

definition emit :: "cdc_env \<Rightarrow> event \<Rightarrow> cdc_handler \<Rightarrow> go_error option \<times> cdc_handler" where
  "emit E ev h =
     (let (file, pos) = (case ev_offset ev of
            None \<Rightarrow> (ch_file h, 0)
          | Some so \<Rightarrow> (if trim_space (so_file so) \<noteq> [] then so_file so else ch_file h, so_pos so)) in
      await_channel E ev file pos
        ''Event buffer remained full for 10 seconds; sink throughput is below source throughput''
        (ce_emit E (ch_tries h)) h)"

section \<open>What is logged of a row\<close>

definition affectedRowsCount :: "rows_event \<Rightarrow> nat" where
  "affectedRowsCount e = (if re_action e = UpdateAction then length (re_rows e) div 2 else length (re_rows e))"

definition one_line :: "string \<Rightarrow> string" where
  "one_line s = map (\<lambda>c. if c = CHR 0x0A \<or> c = CHR 0x0D then CHR '' '' else c) s"

definition logValue :: "cdc_env \<Rightarrow> cell \<Rightarrow> string" where
  "logValue E v = (let s = one_line (ce_show E v) in if 80 < length s then take 77 s @ ''...'' else s)"

definition key_indices :: "rows_table \<Rightarrow> int list" where
  "key_indices t = (if rt_pk t = [] \<and> rt_cols t \<noteq> [] then [0] else rt_pk t)"

definition key_parts :: "cdc_env \<Rightarrow> rows_table \<Rightarrow> cell list \<Rightarrow> string list" where
  "key_parts E t row =
     map (\<lambda>i. rt_cols t ! nat i @ ''='' @ logValue E (row ! nat i))
       (filter (\<lambda>i. 0 \<le> i \<and> i < int (length (rt_cols t)) \<and> i < int (length row)) (key_indices t))"

definition rowKeySummary :: "cdc_env \<Rightarrow> rows_table \<Rightarrow> cell list \<Rightarrow> string" where
  "rowKeySummary E t row = (if row = [] \<or> key_parts E t row = [] then ''-'' else str_join '','' (key_parts E t row))"

fun odd_rows :: "'a list \<Rightarrow> 'a list" where
  "odd_rows (a # b # xs) = b # odd_rows xs"
| "odd_rows xs = []"

fun row_pairs :: "'a list \<Rightarrow> ('a \<times> 'a) list" where
  "row_pairs (a # b # xs) = (a, b) # row_pairs xs"
| "row_pairs xs = []"

definition summarizeRowsEventKeys :: "cdc_env \<Rightarrow> rows_event \<Rightarrow> nat \<Rightarrow> string" where
  "summarizeRowsEventKeys E e maxSamples =
     (case re_table e of
        None \<Rightarrow> ''-''
      | Some t \<Rightarrow>
          let rows = (if re_action e = UpdateAction then odd_rows (re_rows e) else re_rows e);
              samples = take maxSamples (filter (\<lambda>p. p \<noteq> []) (map (key_parts E t) rows)) in
          if re_rows e = [] \<or> maxSamples = 0 \<or> key_indices t = [] \<or> samples = [] then ''-''
          else str_join '';'' (map (str_join '','') samples) @ (if length samples < affectedRowsCount e then '';...'' else []))"

definition changed_names :: "string list \<Rightarrow> cell list \<Rightarrow> cell list \<Rightarrow> string list" where
  "changed_names cols old new = map fst (filter (\<lambda>(c, a, b). a \<noteq> b) (zip cols (zip old new)))"

definition clipped_names :: "nat \<Rightarrow> string list \<Rightarrow> string" where
  "clipped_names maxColumns cols =
     (if cols = [] then ''-''
      else if length cols < maxColumns then str_join '','' cols
      else str_join '','' (take maxColumns cols) @ '',...'')"

definition changedColumnsForRows :: "rows_table \<Rightarrow> cell list \<Rightarrow> cell list \<Rightarrow> nat \<Rightarrow> string" where
  "changedColumnsForRows t old new maxColumns =
     (if maxColumns = 0 then ''-'' else clipped_names maxColumns (changed_names (rt_cols t) old new))"

definition summarizeUpdateChangedColumns :: "rows_event \<Rightarrow> nat \<Rightarrow> string" where
  "summarizeUpdateChangedColumns e maxColumns =
     (case re_table e of
        None \<Rightarrow> ''-''
      | Some t \<Rightarrow>
          if re_action e \<noteq> UpdateAction \<or> maxColumns = 0 then ''-''
          else clipped_names maxColumns
            (fold (\<lambda>c out. if c \<in> set out then out else out @ [c])
              (concat (map (\<lambda>(old, new). changed_names (rt_cols t) old new) (row_pairs (re_rows e)))) []))"

section \<open>Rows\<close>

definition sourceOffsetFor :: "cdc_env \<Rightarrow> rows_event \<Rightarrow> cdc_handler \<Rightarrow> source_offset option \<times> cdc_handler" where
  "sourceOffsetFor E e h =
     (if re_pos e = 0 then (None, h)
      else (Some \<lparr>so_file = ch_file h, so_pos = re_pos e\<rparr>, reportLivePosition E (ch_file h) (re_pos e) False h))"

definition traceIDFor :: "string \<Rightarrow> rows_event \<Rightarrow> nat \<Rightarrow> string" where
  "traceIDFor current e i =
     (let file = (if trim_space current = [] then ''unknown-binlog'' else trim_space current);
          action = (if trim_space (re_action e) \<noteq> [] then re_action e else ''row'') in
      at_pos file (re_pos e) @ '':'' @ action @ '':'' @ show_nat i)"

text \<open>A row shorter than the table's columns makes the indexing panic; further cells are ignored.\<close>

definition named_cells :: "string list \<Rightarrow> cell list \<Rightarrow> row_data option" where
  "named_cells cols row =
     (if length row < length cols then None else Some (fold (\<lambda>(c, v). map_put c v) (zip cols row) []))"

definition row_event :: "string \<Rightarrow> string \<Rightarrow> rows_table \<Rightarrow> rows_event \<Rightarrow> source_offset option \<Rightarrow> nat \<Rightarrow> row_data \<Rightarrow> row_data \<Rightarrow> event" where
  "row_event ty current t e off i data old =
     blank_event\<lparr>ev_type := ty, ev_trace := traceIDFor current e i, ev_schema := rt_schema t, ev_table := rt_name t,
       ev_data := data, ev_old := old, ev_origin := EventOriginCDC, ev_offset := off\<rparr>"

definition logged :: "cdc_log \<Rightarrow> cdc_handler \<Rightarrow> cdc_handler" where
  "logged l h = h\<lparr>ch_log := ch_log h @ [l]\<rparr>"

fun emit_rows ::
  "cdc_env \<Rightarrow> string \<Rightarrow> rows_table \<Rightarrow> rows_event \<Rightarrow> source_offset option \<Rightarrow> nat \<Rightarrow> cell list list \<Rightarrow> cdc_handler \<Rightarrow>
     handler_result \<times> cdc_handler" where
  "emit_rows E ty t e off i [] h = (Returned None, h)"
| "emit_rows E ty t e off i (row # rows) h =
     (case named_cells (rt_cols t) row of
        None \<Rightarrow> (Panicked, h)
      | Some data \<Rightarrow>
          (let ev = row_event ty (ch_file h) t e off i data [] in
           case emit E ev h of
             (Some err, h') \<Rightarrow> (Returned (Some err), h')
           | (None, h') \<Rightarrow> emit_rows E ty t e off (Suc i) rows (logged (LogEmitted ev (rowKeySummary E t row) ''-'') h')))"

fun emit_updates ::
  "cdc_env \<Rightarrow> rows_table \<Rightarrow> rows_event \<Rightarrow> source_offset option \<Rightarrow> nat \<Rightarrow> cell list list \<Rightarrow> cdc_handler \<Rightarrow>
     handler_result \<times> cdc_handler" where
  "emit_updates E t e off i [] h = (Returned None, h)"
| "emit_updates E t e off i [row] h =
     (Returned (Some (new_error (''mysql update rows event has odd row count for '' @ full_name (rt_schema t) (rt_name t)))), h)"
| "emit_updates E t e off i (old # new # rows) h =
     (case (named_cells (rt_cols t) old, named_cells (rt_cols t) new) of
        (Some oldData, Some newData) \<Rightarrow>
          (let ev = row_event EventTypeUpdate (ch_file h) t e off i newData oldData in
           case emit E ev h of
             (Some err, h') \<Rightarrow> (Returned (Some err), h')
           | (None, h') \<Rightarrow> emit_updates E t e off (Suc i) rows
               (logged (LogEmitted ev (rowKeySummary E t new) (changedColumnsForRows t old new 8)) h'))
      | _ \<Rightarrow> (Panicked, h))"

definition OnRow :: "cdc_env \<Rightarrow> rows_event \<Rightarrow> cdc_handler \<Rightarrow> handler_result \<times> cdc_handler" where
  "OnRow E e h =
     (case re_table e of
        None \<Rightarrow> (Returned None, h)
      | Some t \<Rightarrow>
          if to_lower (full_name (rt_schema t) (rt_name t)) \<notin> ch_allowed h then (Returned None, h)
          else (let h1 = logged (LogReceived (re_action e) (affectedRowsCount e) (summarizeRowsEventKeys E e 3)
                        (summarizeUpdateChangedColumns e 8)) h;
                    (off, h2) = sourceOffsetFor E e h1 in
            if re_action e = InsertAction then emit_rows E EventTypeInsert t e off 0 (re_rows e) h2
            else if re_action e = UpdateAction then emit_updates E t e off 0 (re_rows e) h2
            else if re_action e = DeleteAction then emit_rows E EventTypeDelete t e off 0 (re_rows e) h2
            else (Returned None, h2)))"

section \<open>DDL, rotation and checkpoints\<close>

text \<open>\<open>None\<close>: the statement concerns no configured table.\<close>

definition ddl_target :: "string set \<Rightarrow> string \<Rightarrow> string \<Rightarrow> (string \<times> string) option" where
  "ddl_target allowed qschema stmt =
     (let tbl = to_lower (extractTableNameFromDDL stmt);
          db1 = to_lower (trim_space qschema);
          db = (if db1 = [] then to_lower (trim_space (extractDBNameFromDDL stmt)) else db1) in
      if stmt = [] \<or> tbl = [] \<or> db = [] \<or> to_lower (full_name db tbl) \<notin> allowed then None else Some (db, tbl))"

definition ddl_file :: "string \<Rightarrow> string \<Rightarrow> string" where
  "ddl_file current name = (if trim_space name = [] then current else trim_space name)"

definition ddl_event :: "cdc_env \<Rightarrow> string \<Rightarrow> string \<Rightarrow> 32 word \<Rightarrow> string \<Rightarrow> string \<Rightarrow> string \<Rightarrow> schema_change list \<Rightarrow> event" where
  "ddl_event E current name pos db tbl stmt changes =
     blank_event\<lparr>ev_type := EventTypeDDL, ev_schema := db, ev_table := tbl, ev_ddl := stmt, ev_origin := EventOriginCDC,
       ev_changes := changes,
       ev_offset := (if ddl_file current name \<noteq> [] \<and> 0 < pos
                     then Some \<lparr>so_file = ddl_file current name, so_pos = pos\<rparr> else None),
       ev_source_schema := (case ce_fetch E of
           None \<Rightarrow> None
         | Some fetch \<Rightarrow> if isCreateTableDDL stmt then (case fetch db tbl of Inl _ \<Rightarrow> None | Inr s \<Rightarrow> Some s) else None)\<rparr>"

text \<open>\<open>OnDDL\<close> does not look at the context before it waits for the channel.\<close>

definition ddl_answer :: "emit_answer \<Rightarrow> emit_answer" where
  "ddl_answer a = (case a of CtxDone e \<Rightarrow> CtxEnds e | _ \<Rightarrow> a)"

definition OnDDL :: "cdc_env \<Rightarrow> string \<Rightarrow> 32 word \<Rightarrow> string \<Rightarrow> string \<Rightarrow> cdc_handler \<Rightarrow> handler_result \<times> cdc_handler" where
  "OnDDL E name pos qschema query h =
     (let stmt = trim_space query in
      case ddl_target (ch_allowed h) qschema stmt of
        None \<Rightarrow> (Returned None, h)
      | Some (db, tbl) \<Rightarrow>
          (case ParseMySQLDDL (ce_parse E) stmt of
             Inl e \<Rightarrow> (Returned (Some (new_error (''parse schema change for '' @ full_name db tbl @ '': '' @ e))), h)
           | Inr changes \<Rightarrow>
               (let (err, h') = await_channel E (ddl_event E (ch_file h) name pos db tbl stmt changes)
                      (ddl_file (ch_file h) name) pos
                      (''DDL event buffer remained full for 10 seconds while applying '' @ full_name db tbl)
                      (ddl_answer (ce_emit E (ch_tries h))) h in
                (Returned err, h'))))"

text \<open>The position of a rotation is 64 bits wide and cut to 32 for the report.\<close>

definition OnRotate :: "cdc_env \<Rightarrow> (string \<times> 64 word) option \<Rightarrow> cdc_handler \<Rightarrow> handler_result \<times> cdc_handler" where
  "OnRotate E rot h =
     (case rot of
        None \<Rightarrow> (Returned None, h)
      | Some (name, pos) \<Rightarrow>
          if name = [] then (Returned None, h)
          else (Returned None, reportLivePosition E name (ucast pos) True (h\<lparr>ch_file := name\<rparr>)))"

definition checkpoint_event :: "string \<Rightarrow> 32 word \<Rightarrow> event" where
  "checkpoint_event name pos =
     blank_event\<lparr>ev_type := EventTypeCheckpoint, ev_trace := at_pos name pos @ '':checkpoint'', ev_origin := EventOriginCDC,
       ev_offset := Some \<lparr>so_file = name, so_pos = pos\<rparr>\<rparr>"

definition OnPosSynced :: "cdc_env \<Rightarrow> string \<Rightarrow> 32 word \<Rightarrow> bool \<Rightarrow> cdc_handler \<Rightarrow> handler_result \<times> cdc_handler" where
  "OnPosSynced E name pos force h =
     (case ce_emit E (ch_tries h) of
        CtxDone e \<Rightarrow> (Returned (Some e), h)
      | _ \<Rightarrow>
          if trim_space name = [] \<or> pos = 0 then (Returned None, h)
          else (case emit E (checkpoint_event name pos) (reportLivePosition E name pos False h) of
             (Some e, h1) \<Rightarrow> (Returned (Some e), h1)
           | (None, h1) \<Rightarrow>
               (let now = ce_clock E (ch_ticks h1); h2 = h1\<lparr>ch_ticks := Suc (ch_ticks h1)\<rparr> in
                if force \<or> (case ch_logged_at h1 of None \<Rightarrow> True | Some t \<Rightarrow> 30000000000 \<le> now - t)
                then (Returned None, logged (LogCheckpoint (checkpoint_event name pos) force) (h2\<lparr>ch_logged_at := Some now\<rparr>))
                else (Returned None, h2))))"

datatype binlog_item =
    RowsItem rows_event
  | DDLItem string "32 word" string string
  | RotateItem "(string \<times> 64 word) option"
  | SyncItem string "32 word" bool

fun handle_item :: "cdc_env \<Rightarrow> binlog_item \<Rightarrow> cdc_handler \<Rightarrow> handler_result \<times> cdc_handler" where
  "handle_item E (RowsItem e) = OnRow E e"
| "handle_item E (DDLItem name pos db query) = OnDDL E name pos db query"
| "handle_item E (RotateItem rot) = OnRotate E rot"
| "handle_item E (SyncItem name pos force) = OnPosSynced E name pos force"

text \<open>The library calls the handler in the order of the binlog and stops where a call fails.\<close>

fun handle_items :: "cdc_env \<Rightarrow> binlog_item list \<Rightarrow> cdc_handler \<Rightarrow> handler_result \<times> cdc_handler" where
  "handle_items E [] h = (Returned None, h)"
| "handle_items E (i # items) h =
     (case handle_item E i h of
        (Returned None, h') \<Rightarrow> handle_items E items h'
      | r \<Rightarrow> r)"

section \<open>The stream a handler owes\<close>

text \<open>The events of an item, given the file it is read from; \<open>None\<close> for a statement that does not parse.\<close>

fun with_index :: "nat \<Rightarrow> 'a list \<Rightarrow> (nat \<times> 'a) list" where
  "with_index i [] = []"
| "with_index i (x # xs) = (i, x) # with_index (Suc i) xs"

definition cells :: "string list \<Rightarrow> cell list \<Rightarrow> row_data" where
  "cells cols row = fold (\<lambda>(c, v). map_put c v) (zip cols row) []"

definition position_of :: "string \<Rightarrow> rows_event \<Rightarrow> source_offset option" where
  "position_of file e = (if re_pos e = 0 then None else Some \<lparr>so_file = file, so_pos = re_pos e\<rparr>)"

definition owed_rows :: "string set \<Rightarrow> string \<Rightarrow> rows_event \<Rightarrow> event list" where
  "owed_rows allowed file e =
     (case re_table e of
        None \<Rightarrow> []
      | Some t \<Rightarrow>
          if to_lower (full_name (rt_schema t) (rt_name t)) \<notin> allowed then []
          else if re_action e = UpdateAction
          then map (\<lambda>(i, old, new). row_event EventTypeUpdate file t e (position_of file e) i (cells (rt_cols t) new) (cells (rt_cols t) old))
                 (with_index 0 (row_pairs (re_rows e)))
          else if re_action e = InsertAction \<or> re_action e = DeleteAction
          then map (\<lambda>(i, row). row_event (if re_action e = InsertAction then EventTypeInsert else EventTypeDelete) file t e
                     (position_of file e) i (cells (rt_cols t) row) []) (with_index 0 (re_rows e))
          else [])"

definition owed_item :: "cdc_env \<Rightarrow> string set \<Rightarrow> string \<Rightarrow> binlog_item \<Rightarrow> event list option" where
  "owed_item E allowed file it =
     (case it of
        RowsItem e \<Rightarrow> Some (owed_rows allowed file e)
      | DDLItem name pos db query \<Rightarrow>
          (case ddl_target allowed db (trim_space query) of
             None \<Rightarrow> Some []
           | Some (d, t) \<Rightarrow> (case ParseMySQLDDL (ce_parse E) (trim_space query) of
               Inl _ \<Rightarrow> None
             | Inr changes \<Rightarrow> Some [ddl_event E file name pos d t (trim_space query) changes]))
      | RotateItem _ \<Rightarrow> Some []
      | SyncItem name pos _ \<Rightarrow> Some (if trim_space name = [] \<or> pos = 0 then [] else [checkpoint_event name pos]))"

definition file_after :: "string \<Rightarrow> binlog_item \<Rightarrow> string" where
  "file_after file it = (case it of RotateItem (Some (name, _)) \<Rightarrow> if name = [] then file else name | _ \<Rightarrow> file)"

fun owed_stream :: "cdc_env \<Rightarrow> string set \<Rightarrow> string \<Rightarrow> binlog_item list \<Rightarrow> event list" where
  "owed_stream E allowed file [] = []"
| "owed_stream E allowed file (i # items) =
     (case owed_item E allowed file i of
        None \<Rightarrow> []
      | Some evs \<Rightarrow> evs @ owed_stream E allowed (file_after file i) items)"

text \<open>What the library guarantees of a row image: a cell per column, and updates in pairs.\<close>

definition rows_ok :: "binlog_item \<Rightarrow> bool" where
  "rows_ok it = (case it of
      RowsItem e \<Rightarrow> (case re_table e of None \<Rightarrow> True | Some t \<Rightarrow>
         list_all (\<lambda>row. length (rt_cols t) \<le> length row) (re_rows e) \<and>
         (re_action e = UpdateAction \<longrightarrow> even (length (re_rows e))))
    | _ \<Rightarrow> True)"

section \<open>Sending keeps the handler\<close>

text \<open>A step that adds at most the given events, keeping the tables and the file.\<close>

definition sends :: "cdc_handler \<Rightarrow> event list \<Rightarrow> cdc_handler \<Rightarrow> bool" where
  "sends h evs h' \<longleftrightarrow> ch_allowed h' = ch_allowed h \<and> ch_file h' = ch_file h \<and> ch_out h' = ch_out h @ evs"

lemma sends_refl [simp]: "sends h [] h"
  by (simp add: sends_def)

lemma sends_trans: "sends h a h' \<Longrightarrow> sends h' b h'' \<Longrightarrow> sends h (a @ b) h''"
  by (simp add: sends_def)

lemma reports_send_nothing [simp]:
  "ch_out (reportLivePosition E f p b h) = ch_out h" "ch_allowed (reportLivePosition E f p b h) = ch_allowed h"
  "ch_file (reportLivePosition E f p b h) = ch_file h"
  "ch_tries (reportLivePosition E f p b h) = ch_tries h"
  "ch_out (reportBackpressure f p d h) = ch_out h" "ch_allowed (reportBackpressure f p d h) = ch_allowed h"
  "ch_file (reportBackpressure f p d h) = ch_file h"
  "ch_out (logged l h) = ch_out h" "ch_allowed (logged l h) = ch_allowed h" "ch_file (logged l h) = ch_file h"
  by (simp_all add: reportLivePosition_def reportBackpressure_def logged_def Let_def)

lemma await_channel_sends:
  "await_channel E ev file pos detail a h = (r, h') \<Longrightarrow> sends h (if r = None then [ev] else []) h'"
  by (auto simp: await_channel_def sends_def put_event_def Let_def split: emit_answer.splits)

lemma emit_sends: "emit E ev h = (r, h') \<Longrightarrow> sends h (if r = None then [ev] else []) h'"
  unfolding emit_def by (auto simp: Let_def split: prod.splits option.splits dest!: await_channel_sends)

lemma sends_logged [simp]: "sends (logged l h) evs h' = sends h evs h'" "sends h evs (logged l h') = sends h evs h'"
  by (simp_all add: sends_def)

lemma emit_rows_sends:
  assumes "emit_rows E ty t e off i rows h = (r, h')" "list_all (\<lambda>row. length (rt_cols t) \<le> length row) rows"
  shows "\<exists>k \<le> length rows. (r = Returned None \<longrightarrow> k = length rows) \<and> r \<noteq> Panicked \<and>
    sends h (take k (map (\<lambda>(i, row). row_event ty (ch_file h) t e off i (cells (rt_cols t) row) []) (with_index i rows))) h'"
  using assms
proof (induction rows arbitrary: i h)
  case (Cons row rows)
  let ?ev = "row_event ty (ch_file h) t e off i (cells (rt_cols t) row) []"
  have nc: "named_cells (rt_cols t) row = Some (cells (rt_cols t) row)" using Cons.prems(2) by (simp add: named_cells_def cells_def)
  obtain q h1 where em: "emit E ?ev h = (q, h1)" by fastforce
  note s = emit_sends [OF em]
  show ?case
  proof (cases q)
    case (Some err)
    then show ?thesis using Cons.prems(1) nc em s by (auto simp: Let_def intro!: exI [of _ 0])
  next
    case None
    let ?h1 = "logged (LogEmitted ?ev (rowKeySummary E t row) ''-'') h1"
    have "emit_rows E ty t e off (Suc i) rows ?h1 = (r, h')" using Cons.prems(1) nc em None by (simp add: Let_def)
    from Cons.IH [OF this] Cons.prems(2) obtain k where k: "k \<le> length rows" "r = Returned None \<longrightarrow> k = length rows" "r \<noteq> Panicked"
      "sends ?h1 (take k (map (\<lambda>(i, row). row_event ty (ch_file ?h1) t e off i (cells (rt_cols t) row) []) (with_index (Suc i) rows))) h'"
      by auto
    have f: "ch_file h1 = ch_file h" using s by (simp add: sends_def)
    have "sends h ([?ev] @ take k (map (\<lambda>(i, row). row_event ty (ch_file h) t e off i (cells (rt_cols t) row) []) (with_index (Suc i) rows))) h'"
      using s k(4) None f by (simp add: sends_def)
    then show ?thesis using k by (intro exI [of _ "Suc k"]) simp
  qed
qed (auto intro: exI [of _ 0])

lemma emit_updates_sends:
  assumes "emit_updates E t e off i rows h = (r, h')" "list_all (\<lambda>row. length (rt_cols t) \<le> length row) rows" "even (length rows)"
  shows "\<exists>k \<le> length (row_pairs rows). (r = Returned None \<longrightarrow> k = length (row_pairs rows)) \<and> r \<noteq> Panicked \<and>
    sends h (take k (map (\<lambda>(i, old, new). row_event EventTypeUpdate (ch_file h) t e off i (cells (rt_cols t) new) (cells (rt_cols t) old))
      (with_index i (row_pairs rows)))) h'"
  using assms
proof (induction rows arbitrary: i h rule: row_pairs.induct)
  case (1 old new rows)
  let ?ev = "row_event EventTypeUpdate (ch_file h) t e off i (cells (rt_cols t) new) (cells (rt_cols t) old)"
  have nc: "named_cells (rt_cols t) old = Some (cells (rt_cols t) old)" "named_cells (rt_cols t) new = Some (cells (rt_cols t) new)"
    using 1(3) by (simp_all add: named_cells_def cells_def)
  obtain q h1 where em: "emit E ?ev h = (q, h1)" by fastforce
  note s = emit_sends [OF em]
  show ?case
  proof (cases q)
    case (Some err)
    then show ?thesis using 1(2) nc em s by (auto simp: Let_def intro!: exI [of _ 0])
  next
    case None
    let ?h1 = "logged (LogEmitted ?ev (rowKeySummary E t new) (changedColumnsForRows t old new 8)) h1"
    have "emit_updates E t e off (Suc i) rows ?h1 = (r, h')" using 1(2) nc em None by (simp add: Let_def)
    from 1(1) [OF this] 1(3,4) obtain k where k: "k \<le> length (row_pairs rows)" "r = Returned None \<longrightarrow> k = length (row_pairs rows)"
      "r \<noteq> Panicked" "sends ?h1 (take k (map (\<lambda>(i, old, new). row_event EventTypeUpdate (ch_file ?h1) t e off i (cells (rt_cols t) new)
        (cells (rt_cols t) old)) (with_index (Suc i) (row_pairs rows)))) h'" by auto
    have f: "ch_file h1 = ch_file h" using s by (simp add: sends_def)
    have "sends h ([?ev] @ take k (map (\<lambda>(i, old, new). row_event EventTypeUpdate (ch_file h) t e off i (cells (rt_cols t) new)
        (cells (rt_cols t) old)) (with_index (Suc i) (row_pairs rows)))) h'"
      using s k(4) None f by (simp add: sends_def)
    then show ?thesis using k by (intro exI [of _ "Suc k"]) simp
  qed
qed (auto intro: exI [of _ 0])

lemma numbered_length [simp]: "length (with_index i xs) = length xs"
  by (induction xs arbitrary: i) simp_all

lemma sourceOffsetFor_sends:
  "sourceOffsetFor E e h = (off, h') \<Longrightarrow> sends h [] h' \<and> off = position_of (ch_file h) e"
  by (auto simp: sourceOffsetFor_def position_of_def sends_def split: if_splits)

text \<open>A prefix of what is owed, and all of it where the call returns without an error.\<close>

definition pays :: "cdc_handler \<Rightarrow> event list \<Rightarrow> handler_result \<Rightarrow> cdc_handler \<Rightarrow> bool" where
  "pays h owed r h' \<longleftrightarrow> ch_allowed h' = ch_allowed h \<and> r \<noteq> Panicked \<and>
     (\<exists>evs. prefix evs owed \<and> ch_out h' = ch_out h @ evs \<and> (r = Returned None \<longrightarrow> evs = owed))"

lemma pays_take: "sends h (take k owed) h' \<Longrightarrow> r \<noteq> Panicked \<Longrightarrow> (r = Returned None \<longrightarrow> k = length owed) \<Longrightarrow> pays h owed r h' \<and> ch_file h' = ch_file h"
  unfolding pays_def sends_def using take_is_prefix by fastforce

lemma OnRow_pays:
  assumes "OnRow E e h = (r, h')" "rows_ok (RowsItem e)"
  shows "pays h (owed_rows (ch_allowed h) (ch_file h) e) r h' \<and> ch_file h' = ch_file h"
proof (cases "re_table e")
  case None
  then show ?thesis using assms(1) by (auto simp: OnRow_def pays_def owed_rows_def)
next
  case (Some t)
  show ?thesis
  proof (cases "to_lower (full_name (rt_schema t) (rt_name t)) \<in> ch_allowed h")
    case False
    then show ?thesis using assms(1) Some by (auto simp: OnRow_def pays_def owed_rows_def)
  next
    case True
    define h1 where "h1 = logged (LogReceived (re_action e) (affectedRowsCount e) (summarizeRowsEventKeys E e 3)
        (summarizeUpdateChangedColumns e 8)) h"
    obtain off h2 where o2: "sourceOffsetFor E e h1 = (off, h2)" by fastforce
    have s2: "sends h [] h2" and off: "off = position_of (ch_file h) e"
      using sourceOffsetFor_sends [OF o2] by (simp_all add: h1_def)
    have f: "ch_file h2 = ch_file h" using s2 by (simp add: sends_def)
    have wf: "list_all (\<lambda>row. length (rt_cols t) \<le> length row) (re_rows e)"
      "re_action e = UpdateAction \<Longrightarrow> even (length (re_rows e))" using assms(2) Some by (simp_all add: rows_ok_def)
    have go: "(if re_action e = InsertAction then emit_rows E EventTypeInsert t e off 0 (re_rows e) h2
            else if re_action e = UpdateAction then emit_updates E t e off 0 (re_rows e) h2
            else if re_action e = DeleteAction then emit_rows E EventTypeDelete t e off 0 (re_rows e) h2
            else (Returned None, h2)) = (r, h')"
      using assms(1) Some True o2 by (simp add: OnRow_def Let_def h1_def)
    consider "re_action e = InsertAction" | "re_action e = UpdateAction" | "re_action e = DeleteAction"
      | "re_action e \<noteq> InsertAction" "re_action e \<noteq> UpdateAction" "re_action e \<noteq> DeleteAction" by argo
    then have "\<exists>k \<le> length (owed_rows (ch_allowed h) (ch_file h) e). (r = Returned None \<longrightarrow> k = length (owed_rows (ch_allowed h) (ch_file h) e)) \<and>
        r \<noteq> Panicked \<and> sends h2 (take k (owed_rows (ch_allowed h) (ch_file h) e)) h'"
    proof cases
      case 1
      then show ?thesis using emit_rows_sends [of E EventTypeInsert t e off 0 "re_rows e" h2 r h'] go wf(1) f off Some True
        by (simp add: owed_rows_def)
    next
      case 2
      then show ?thesis using emit_updates_sends [of E t e off 0 "re_rows e" h2 r h'] go wf f off Some True
        by (simp add: owed_rows_def)
    next
      case 3
      then show ?thesis using emit_rows_sends [of E EventTypeDelete t e off 0 "re_rows e" h2 r h'] go wf(1) f off Some True
        by (simp add: owed_rows_def)
    next
      case 4
      then show ?thesis using go Some True by (auto simp: owed_rows_def)
    qed
    then obtain k where k: "sends h2 (take k (owed_rows (ch_allowed h) (ch_file h) e)) h'" "r \<noteq> Panicked"
      "r = Returned None \<longrightarrow> k = length (owed_rows (ch_allowed h) (ch_file h) e)" by blast
    have "sends h (take k (owed_rows (ch_allowed h) (ch_file h) e)) h'" using sends_trans [OF s2 k(1)] by simp
    then show ?thesis by (rule pays_take [OF _ k(2,3)])
  qed
qed

lemma OnDDL_pays:
  assumes "OnDDL E name pos db query h = (r, h')"
  shows "ch_file h' = ch_file h \<and>
    (case owed_item E (ch_allowed h) (ch_file h) (DDLItem name pos db query) of
       None \<Rightarrow> pays h [] r h' \<and> r \<noteq> Returned None | Some evs \<Rightarrow> pays h evs r h')"
proof (cases "ddl_target (ch_allowed h) db (trim_space query)")
  case None
  then show ?thesis using assms by (auto simp: OnDDL_def owed_item_def pays_def Let_def)
next
  case (Some dt)
  obtain d t where dt: "dt = (d, t)" by fastforce
  show ?thesis
  proof (cases "ParseMySQLDDL (ce_parse E) (trim_space query)")
    case (Inl e)
    then show ?thesis using assms Some dt by (auto simp: OnDDL_def owed_item_def pays_def Let_def)
  next
    case (Inr changes)
    let ?ev = "ddl_event E (ch_file h) name pos d t (trim_space query) changes"
    obtain err where a: "await_channel E ?ev (ddl_file (ch_file h) name) pos
        (''DDL event buffer remained full for 10 seconds while applying '' @ full_name d t)
        (ddl_answer (ce_emit E (ch_tries h))) h = (err, h')" "r = Returned err"
      using assms Some dt Inr by (auto simp: OnDDL_def Let_def split: prod.splits)
    from await_channel_sends [OF a(1)] show ?thesis
      using a(2) Some dt Inr by (cases err) (auto simp: owed_item_def pays_def sends_def)
  qed
qed

lemma OnPosSynced_pays:
  assumes "OnPosSynced E name pos force h = (r, h')"
  shows "ch_file h' = ch_file h \<and> pays h (if trim_space name = [] \<or> pos = 0 then [] else [checkpoint_event name pos]) r h'"
proof (cases "(\<exists>e. ce_emit E (ch_tries h) = CtxDone e) \<or> trim_space name = [] \<or> pos = 0")
  case True
  then show ?thesis using assms by (auto simp: OnPosSynced_def pays_def split: emit_answer.splits)
next
  case False
  obtain q h1 where em: "emit E (checkpoint_event name pos) (reportLivePosition E name pos False h) = (q, h1)" by fastforce
  have s: "sends h (if q = None then [checkpoint_event name pos] else []) h1"
    using emit_sends [OF em] by (simp add: sends_def)
  show ?thesis
  proof (cases q)
    case (Some e)
    then show ?thesis using assms False em s
      by (auto simp: OnPosSynced_def pays_def sends_def split: emit_answer.splits)
  next
    case None
    then have "r = Returned None \<and> sends h1 [] h'"
      using assms False em by (auto simp: OnPosSynced_def Let_def sends_def split: emit_answer.splits if_splits)
    then show ?thesis using s None False by (auto simp: pays_def sends_def)
  qed
qed

lemma handle_item_pays:
  assumes "handle_item E it h = (r, h')" "rows_ok it"
  shows "(r = Returned None \<longrightarrow> ch_file h' = file_after (ch_file h) it) \<and>
    (case owed_item E (ch_allowed h) (ch_file h) it of
       None \<Rightarrow> pays h [] r h' \<and> r \<noteq> Returned None | Some evs \<Rightarrow> pays h evs r h')"
proof (cases it)
  case (RowsItem e)
  then show ?thesis using assms OnRow_pays [of E e h r h'] by (simp add: owed_item_def file_after_def)
next
  case (DDLItem name pos db query)
  then show ?thesis using assms OnDDL_pays [of E name pos db query h r h'] by (simp add: file_after_def)
next
  case (RotateItem rot)
  then show ?thesis using assms by (auto simp: owed_item_def file_after_def pays_def OnRotate_def split: option.splits if_splits)
next
  case (SyncItem name pos force)
  then show ?thesis using assms OnPosSynced_pays [of E name pos force h r h'] by (simp add: owed_item_def file_after_def)
qed


section \<open>A statement of another database\<close>

text \<open>
  The session's database wins over the one a statement names: a statement on \<open>other.orders\<close> that runs in
  the database \<open>shop\<close> is taken for a statement on \<open>shop.orders\<close>.
\<close>

lemma qualified_ddl_misattributed:
  "ddl_target {''shop.orders''} ''shop'' ''ALTER TABLE other.orders DROP COLUMN c'' = Some (''shop'', ''orders'')"
  by code_simp

text \<open>The table is the third word: a guarded drop and a list of columns without a space hide it.\<close>

lemma guarded_ddl_ignored:
  "ddl_target {''shop.orders''} ''shop'' ''DROP TABLE IF EXISTS orders'' = None"
  "ddl_target {''shop.orders''} ''shop'' ''CREATE TABLE orders(id INT)'' = None"
  by code_simp+

section \<open>The server's position and its logs\<close>

text \<open>The answer to a query for the position: no row, an error with the server's number if it has one, or a position.\<close>

datatype master_answer = NoRows | QueryFailed string "int option" | MasterAt string "32 word"

abbreviation "showBinaryLogStatusQuery \<equiv> ''SHOW BINARY LOG STATUS''"
abbreviation "showMasterStatusQuery \<equiv> ''SHOW MASTER STATUS''"

definition queryMasterPos :: "(string \<Rightarrow> master_answer) \<Rightarrow> string \<Rightarrow> (string \<times> int option) + (string \<times> 32 word)" where
  "queryMasterPos answer q =
     (case answer q of
        NoRows \<Rightarrow> Inl (q @ '' returned no rows; MySQL binary log coordinates are unavailable from this endpoint: sql: no rows in result set'', None)
      | QueryFailed e n \<Rightarrow> Inl (e, n)
      | MasterAt file pos \<Rightarrow> Inr (file, pos))"

definition isUnsupportedBinaryLogStatusError :: "string \<times> int option \<Rightarrow> bool" where
  "isUnsupportedBinaryLogStatusError err \<longleftrightarrow>
     (case err of
        (_, Some n) \<Rightarrow> n = 1064
      | (msg, None) \<Rightarrow> str_contains ''syntax'' (to_lower msg) \<and> str_contains ''binary log status'' (to_lower msg))"

definition getMasterPosWithQuery :: "(string \<Rightarrow> master_answer) \<Rightarrow> string + (string \<times> 32 word)" where
  "getMasterPosWithQuery answer =
     (case queryMasterPos answer showBinaryLogStatusQuery of
        Inr p \<Rightarrow> Inr p
      | Inl err \<Rightarrow>
          if \<not> isUnsupportedBinaryLogStatusError err then Inl (fst err)
          else (case queryMasterPos answer showMasterStatusQuery of
             Inr p \<Rightarrow> Inr p
           | Inl err2 \<Rightarrow> Inl (showBinaryLogStatusQuery @ '' failed: '' @ fst err @ ''; '' @ showMasterStatusQuery @ '' failed: '' @ fst err2)))"

definition availableBinlogs :: "string + (nat \<times> (string + string) list \<times> string option) \<Rightarrow> string + (string \<times> string \<times> int)" where
  "availableBinlogs answer =
     (case answer of
        Inl e \<Rightarrow> Inl e
      | Inr (cols, rows, cursorErr) \<Rightarrow>
          if cols = 0 then Inl ''SHOW BINARY LOGS returned no columns''
          else case scan_binary_logs [] [] 0 rows of
            Inl e \<Rightarrow> Inl e
          | Inr r \<Rightarrow> (case cursorErr of Some e \<Rightarrow> Inl e | None \<Rightarrow> Inr r))"

section \<open>Refused checkpoints\<close>

text \<open>\<open>number\<close> is the code of the library's error, if the error is one.\<close>

definition isInvalidBinlogCheckpointError :: "int option \<Rightarrow> go_error \<Rightarrow> bool" where
  "isInvalidBinlogCheckpointError number e \<longleftrightarrow>
     (case number of Some n \<Rightarrow> n = 1236 | None \<Rightarrow> str_contains ''error 1236'' (to_lower (er_text e)))"

definition classifyBinlogStartErrorWithDiagnostics ::
  "int option \<Rightarrow> go_error option \<Rightarrow> (string \<times> 32 word) option \<Rightarrow> string \<Rightarrow> go_error option" where
  "classifyBinlogStartErrorWithDiagnostics number err start diagnostics =
     (case err of
        None \<Rightarrow> None
      | Some e \<Rightarrow>
          if \<not> isInvalidBinlogCheckpointError number e then Some e
          else Some (permanent (wrap_error
            (''mysql no longer accepts binlog checkpoint '' @
             (case start of None \<Rightarrow> ''latest checkpoint'' | Some (f, p) \<Rightarrow> at_pos f p) @ '' (ERROR 1236).'' @
             (if diagnostics \<noteq> [] then '' '' @ diagnostics else []) @
             '' Snapshot rows may already have been emitted, but CDC cannot continue from that checkpoint. This usually means '' @
             ''the binlog file was purged/rotated or the saved position is no longer valid. Delete the saved checkpoint and '' @
             ''rerun with mode=initial for a fresh snapshot, or use mode=latest to continue from the current binlog head '' @
             ''and accept the gap: '') e)))"

definition classifyBinlogStartError :: "int option \<Rightarrow> go_error \<Rightarrow> (string \<times> 32 word) option \<Rightarrow> string \<Rightarrow> go_error option" where
  "classifyBinlogStartError number e start diagnostics =
     (if \<not> isInvalidBinlogCheckpointError number e then classifyBinlogStartErrorWithDiagnostics number (Some e) start []
      else classifyBinlogStartErrorWithDiagnostics number (Some e) start diagnostics)"

text \<open>The saved row as a diagnostic; \<open>rfc3339\<close> formats its time, and the time 0 stands for an unset one.\<close>

definition offset_diagnostic :: "(int \<Rightarrow> string) \<Rightarrow> string \<Rightarrow> offset option \<Rightarrow> string" where
  "offset_diagnostic rfc3339 key off =
     (case off of
        None \<Rightarrow> ''No saved CDC checkpoint row found for key='' @ key @ ''.''
      | Some o' \<Rightarrow> ''Saved checkpoint row key='' @ key @ '' pos='' @ at_pos (of_file o') (of_pos o') @ '' updated_at='' @
          (if of_updated o' = 0 then ''unknown'' else rfc3339 (of_updated o')) @ ''.'')"

definition savedOffsetDiagnostic :: "(int \<Rightarrow> string) \<Rightarrow> world \<Rightarrow> mysql_source \<Rightarrow> run \<Rightarrow> string \<times> run" where
  "savedOffsetDiagnostic rfc3339 W s st =
     (let key = checkpointKey s; missing = ''Saved checkpoint metadata unavailable'' in
      if \<not> ms_store s then (missing @ '': no meta store configured.'', st)
      else case store_op W (store_read (GetOffset key)) st of
        (Inl e, st1) \<Rightarrow> (missing @ '' for key='' @ key @ '': '' @ er_text e @ ''.'', st1)
      | (Inr (Some off), st1) \<Rightarrow> (offset_diagnostic rfc3339 key (Some off), st1)
      | (Inr None, st1) \<Rightarrow>
          if key = ms_job s then (offset_diagnostic rfc3339 key None, st1)
          else (case store_op W (store_read (GetOffset (ms_job s))) st1 of
             (Inl e, st2) \<Rightarrow> (missing @ '' for key='' @ key @ '' legacy_key='' @ ms_job s @ '': '' @ er_text e @ ''.'', st2)
           | (Inr (Some off), st2) \<Rightarrow> (offset_diagnostic rfc3339 (ms_job s) (Some off), st2)
           | (Inr None, st2) \<Rightarrow> (offset_diagnostic rfc3339 key None, st2)))"

definition availableBinlogsDiagnostic :: "(string + (string \<times> string \<times> int)) option \<Rightarrow> string" where
  "availableBinlogsDiagnostic logs =
     (case logs of
        None \<Rightarrow> ''MySQL binary log list unavailable: source DB is not connected.''
      | Some (Inl e) \<Rightarrow> ''MySQL binary log list unavailable: '' @ e @ ''.''
      | Some (Inr (earliest, latest, count)) \<Rightarrow>
          if count = 0 then ''MySQL binary log list is empty.''
          else ''MySQL binary logs currently available earliest='' @ earliest @ '' latest='' @ latest @ '' count='' @ show_int count @ ''.'')"

definition binlogCheckpointDiagnostics ::
  "(int \<Rightarrow> string) \<Rightarrow> world \<Rightarrow> mysql_source \<Rightarrow> (string + (string \<times> string \<times> int)) option \<Rightarrow> run \<Rightarrow> string \<times> run" where
  "binlogCheckpointDiagnostics rfc3339 W s logs st =
     (let (saved, st1) = savedOffsetDiagnostic rfc3339 W s st in
      (str_join '' '' (filter (\<lambda>d. d \<noteq> []) [saved, availableBinlogsDiagnostic logs]), st1))"

section \<open>The lag report\<close>

definition lag_checkpoint :: "world \<Rightarrow> mysql_source \<Rightarrow> run \<Rightarrow> (go_error + offset option) \<times> run" where
  "lag_checkpoint W s st =
     (if \<not> ms_store s then (Inr None, st)
      else case store_op W (store_read (GetOffset (checkpointKey s))) st of
        (Inl e, st1) \<Rightarrow> (Inl (wrap_error ''get checkpoint: '' e), st1)
      | (Inr (Some off), st1) \<Rightarrow> (Inr (Some off), st1)
      | (Inr None, st1) \<Rightarrow>
          if checkpointKey s = ms_job s then (Inr None, st1)
          else (case store_op W (store_read (GetOffset (ms_job s))) st1 of
             (Inl e, st2) \<Rightarrow> (Inl (wrap_error ''get legacy checkpoint: '' e), st2)
           | r \<Rightarrow> r))"

definition lag_info :: "offset option \<Rightarrow> string \<times> 32 word \<Rightarrow> string \<times> string \<times> int \<Rightarrow> string + progress_info" where
  "lag_info checkpoint latest logs =
     (case logs of (earliest, latestFile, count) \<Rightarrow>
       let info = zero_info\<lparr>pi_phase := ''cdc_health'', pi_latest_file := fst latest, pi_latest_pos := snd latest,
             pi_earliest_file := earliest, pi_available_binlogs := count, pi_binlog_status := ''no_checkpoint''\<rparr> in
       case checkpoint of
         None \<Rightarrow> Inr info
       | Some c \<Rightarrow>
           if trim_space (of_file c) = [] \<or> of_pos c = 0 then Inr info
           else (case binlogFileLag (of_file c) (fst latest) of
              None \<Rightarrow> Inl (''cannot compare checkpoint file '' @ of_file c @ '' with latest file '' @ fst latest)
            | Some lag \<Rightarrow> Inr (info\<lparr>pi_checkpoint_file := of_file c, pi_checkpoint_pos := of_pos c, pi_lag_files := lag,
                pi_binlog_status := binlogCheckpointStatus (of_file c) earliest latestFile count\<rparr>)))"

definition reportCDCLag ::
  "world \<Rightarrow> mysql_source \<Rightarrow> string + (string \<times> 32 word) \<Rightarrow> string + (string \<times> string \<times> int) \<Rightarrow> run \<Rightarrow> (string + progress_info) \<times> run" where
  "reportCDCLag W s latest logs st =
     (case lag_checkpoint W s st of
        (Inl e, st1) \<Rightarrow> (Inl (er_text e), st1)
      | (Inr checkpoint, st1) \<Rightarrow>
          (case latest of
             Inl e \<Rightarrow> (Inl (''get latest binlog position: '' @ e), st1)
           | Inr pos \<Rightarrow>
               (case logs of
                  Inl e \<Rightarrow> (Inl (''get available binlogs: '' @ e), st1)
                | Inr ls \<Rightarrow> (lag_info checkpoint pos ls, st1))))"

section \<open>Two readings of a checkpoint's file\<close>

lemma atoi_padded: "n < 2 ^ 63 \<Longrightarrow> atoi (replicate k (CHR ''0'') @ show_nat n) = Some (int n)"
proof -
  assume n: "n < 2 ^ 63"
  let ?s = "replicate k (CHR ''0'') @ show_nat n"
  have d: "is_digit c" if "c \<in> set ?s" for c
    using that by (auto simp: is_digit_def dest!: show_nat_digits split: if_splits)
  obtain c cs where s: "?s = c # cs" by (cases ?s) auto
  then have "is_digit c" using d by (metis list.set_intros(1))
  then have "c \<noteq> CHR ''-''" "c \<noteq> CHR ''+''" by (auto simp: is_digit_def)
  moreover have "digits_value 0 (c # cs) = Some n" using s by (metis digits_value_show_nat digits_value_zeros)
  ultimately show ?thesis using n by (simp add: atoi_def s del: digits_value.simps)
qed

lemma splitBinlogFileNumber_name:
  assumes "base \<noteq> []" "\<not> is_space (hd base)" "n < 2 ^ 63"
  shows "splitBinlogFileNumber (binlog_name base k n) = Some (base @ ''.'', int n)"
proof -
  let ?d = "replicate k (CHR ''0'') @ show_nat n"
  have all: "\<forall>c \<in> set ?d. is_digit c" by (auto simp: is_digit_def dest!: show_nat_digits split: if_splits)
  have t: "takeWhile is_digit (rev (base @ ''.'' @ ?d)) = rev ?d"
  proof -
    have "takeWhile is_digit (rev ?d @ ''.'' @ rev base) = rev ?d @ takeWhile is_digit (''.'' @ rev base)"
      using all by (intro takeWhile_append2) auto
    then show ?thesis by simp
  qed
  have name: "binlog_name base k n = base @ ''.'' @ ?d" by (simp add: binlog_name_def)
  have "trim_space (base @ ''.'' @ ?d) = base @ ''.'' @ ?d" using trim_binlog_name [OF assms(1,2), of k n] name by metis
  then show ?thesis using t atoi_padded [OF assms(3), of k]
    by (simp add: splitBinlogFileNumber_def name Let_def del: rev_append append_Cons append_Nil)
qed

text \<open>
  The source's health report and the control plane's checkpoint view judge a checkpoint's file alike:
  on the names one server gives its logs, the two implementations return the same status.
\<close>

theorem checkpoint_status_agrees:
  assumes "base \<noteq> []" "\<not> is_space (hd base)" "c < 2 ^ 63" "f < 2 ^ 63" "l < 2 ^ 63" "0 \<le> count"
  shows "binlogCheckpointStatus (binlog_name base i c) (binlog_name base j f) (binlog_name base k l) count =
    checkpointBinlogStatus (binlog_name base i c) (binlog_name base j f) (binlog_name base k l) count"
proof -
  have ne: "binlog_name base p n \<noteq> []" for p n by (simp add: binlog_name_def)
  have lt: "c < 2 ^ 64" "f < 2 ^ 64" "l < 2 ^ 64" using assms by simp_all
  show ?thesis
    using assms lt ne
    by (simp add: binlogCheckpointStatus_def checkpointBinlogStatus_def binlogFileInRange_def Let_def trim_binlog_name
        splitBinlogFile_name splitBinlogFileNumber_name)
qed

text \<open>They differ where the server's logs changed their base name.\<close>

lemma checkpoint_status_differs:
  "binlogCheckpointStatus (binlog_name ''a'' 5 7) (binlog_name ''a'' 5 7) (binlog_name ''b'' 5 1) 2 = ''missing''"
  "checkpointBinlogStatus (binlog_name ''a'' 5 7) (binlog_name ''a'' 5 7) (binlog_name ''b'' 5 1) 2 = ''available''"
proof -
  have ne: "binlog_name b p n \<noteq> []" for b p n by (simp add: binlog_name_def)
  have sp: "\<not> is_space (CHR ''a'')" "\<not> is_space (CHR ''b'')" by (simp_all add: is_space_def)
  show "binlogCheckpointStatus (binlog_name ''a'' 5 7) (binlog_name ''a'' 5 7) (binlog_name ''b'' 5 1) 2 = ''missing''"
    using ne sp by (simp add: binlogCheckpointStatus_def trim_binlog_name splitBinlogFileNumber_name)
  show "checkpointBinlogStatus (binlog_name ''a'' 5 7) (binlog_name ''a'' 5 7) (binlog_name ''b'' 5 1) 2 = ''available''"
    using ne sp by (simp add: checkpointBinlogStatus_def binlogFileInRange_def trim_binlog_name splitBinlogFile_name Let_def)
qed

theorem checkpoint_status_agrees_witness:
  "binlogCheckpointStatus (binlog_name ''bin'' 5 3) (binlog_name ''bin'' 5 7) (binlog_name ''bin'' 4 12) 6 =
    checkpointBinlogStatus (binlog_name ''bin'' 5 3) (binlog_name ''bin'' 5 7) (binlog_name ''bin'' 4 12) 6"
  by (rule checkpoint_status_agrees) (simp_all add: is_space_def)

section \<open>A sample stream\<close>

definition sample_env :: cdc_env where
  "sample_env = \<lparr>ce_clock = int, ce_emit = (\<lambda>n. if n = 1 then SentSlowly else Sent), ce_parse = (\<lambda>_. Inr OtherStmt),
     ce_fetch = None, ce_show = (\<lambda>_. ''v'')\<rparr>"

definition sample_handler :: cdc_handler where
  "sample_handler = \<lparr>ch_allowed = {''shop.orders''}, ch_file = ''bin.000001'', ch_start_file = ''bin.000001'', ch_start_pos = 4,
     ch_total = 1, ch_reports = True, ch_last_at = 0, ch_last_file = [], ch_last_pos = 0, ch_logged_at = None,
     ch_ticks = 0, ch_tries = 0, ch_infos = [], ch_log = [], ch_out = []\<rparr>"

definition sample_rows :: "string \<Rightarrow> string \<Rightarrow> 32 word \<Rightarrow> cell list list \<Rightarrow> binlog_item" where
  "sample_rows action table pos rows = RowsItem \<lparr>re_action = action,
     re_table = Some \<lparr>rt_schema = ''Shop'', rt_name = table, rt_cols = [''id''], rt_pk = [0]\<rparr>, re_rows = rows, re_pos = pos\<rparr>"

definition sample_items :: "binlog_item list" where
  "sample_items =
     [sample_rows InsertAction ''Orders'' 90 [[CInt 1], [CInt 2]], sample_rows InsertAction ''Other'' 120 [[CInt 9]],
      RotateItem (Some (''bin.000002'', 4)), sample_rows UpdateAction ''Orders'' 70 [[CInt 1], [CInt 3]],
      SyncItem ''bin.000002'' 70 False]"


end
