(* ===== verification/Iceberg_Schema.thy ===== *)
theory Iceberg_Schema
  imports MySQL_Tables "HOL-Library.Multiset"
begin

text \<open>
  Types and schemas of the Iceberg sink (\<open>pkg/connectors/iceberg/schema.go\<close>): the Iceberg type of a MySQL
  column, the schema of a new table, the changes that bring an existing table up to date, and the DDL of the
  source as a plan of changes. The library's schema updater is the list of operations it is asked for; which
  promotions it permits is an argument.

  The lemmas show that an integer column fits its Iceberg type, that the schema of a new table mirrors
  the source's and that a plan keeps the keys and the columns it does not name.
\<close>

section \<open>Types\<close>

datatype ice_type =
    TBool | TInt32 | TInt64 | TFloat32 | TFloat64 | TDecimal int int | TDate | TTimestamp | TTimestampTz
  | TTimestampNs | TTimestampTzNs | TString | TBinary | TOther string

definition MySQLColumnTypeHasWidth :: "string \<Rightarrow> string \<Rightarrow> int \<Rightarrow> bool" where
  "MySQLColumnTypeHasWidth columnType typeName width =
     has_prefix (typeName @ ''('' @ show_int width @ '')'') (to_lower (concat (fields columnType)))"

abbreviation "maxIcebergDecimalPrecision \<equiv> (38::int)"

definition decimal_type :: "table_column \<Rightarrow> ice_type" where
  "decimal_type col =
     (let precision = (case tc_precision col of Some p \<Rightarrow> if 0 < p then p else 38 | None \<Rightarrow> 38);
          scale = (case tc_scale col of Some s \<Rightarrow> if 0 \<le> s then s else 18 | None \<Rightarrow> 18) in
      if maxIcebergDecimalPrecision < precision then TString
      else TDecimal precision (if precision < scale then precision else scale))"

definition icebergTypeForColumn :: "table_column \<Rightarrow> ice_type" where
  "icebergTypeForColumn col =
     (let dataType = to_lower (trim_space (tc_data_type col));
          unsigned = str_contains ''unsigned'' (to_lower (tc_column_type col)) in
      if dataType = ''tinyint''
      then (if \<not> unsigned \<and> MySQLColumnTypeHasWidth (tc_column_type col) ''tinyint'' 1 then TBool else TInt32)
      else if dataType \<in> {''smallint'', ''mediumint'', ''year''} then TInt32
      else if dataType \<in> {''int'', ''integer''} then (if unsigned then TInt64 else TInt32)
      else if dataType = ''bigint'' then (if unsigned then TDecimal 20 0 else TInt64)
      else if dataType = ''float'' then TFloat32
      else if dataType \<in> {''double'', ''real''} then TFloat64
      else if dataType \<in> {''decimal'', ''numeric''} then decimal_type col
      else if dataType \<in> {''bool'', ''boolean''} then TBool
      else if dataType = ''bit'' then (if MySQLColumnTypeHasWidth (tc_column_type col) ''bit'' 1 then TBool else TBinary)
      else if dataType = ''date'' then TDate
      else if dataType \<in> {''datetime'', ''timestamp''} then TTimestamp
      else if dataType \<in> {''binary'', ''varbinary'', ''blob'', ''tinyblob'', ''mediumblob'', ''longblob''} then TBinary
      else TString)"

definition supportsIcebergIdentifierField :: "ice_type \<Rightarrow> bool" where
  "supportsIcebergIdentifierField ty \<longleftrightarrow> ty \<noteq> TFloat32 \<and> ty \<noteq> TFloat64"

fun icebergTypeCanRepresent :: "ice_type \<Rightarrow> ice_type \<Rightarrow> bool" where
  "icebergTypeCanRepresent TString d = True"
| "icebergTypeCanRepresent TInt64 d = (d = TInt32 \<or> d = TInt64)"
| "icebergTypeCanRepresent TFloat64 d = (d = TFloat32 \<or> d = TFloat64)"
| "icebergTypeCanRepresent (TDecimal p s) d =
     (case d of
        TInt32 \<Rightarrow> s = 0 \<and> 10 \<le> p
      | TInt64 \<Rightarrow> s = 0 \<and> 19 \<le> p
      | TDecimal q t \<Rightarrow> s = t \<and> q \<le> p
      | _ \<Rightarrow> False)"
| "icebergTypeCanRepresent _ d = False"

definition shouldUpdateIcebergType :: "(ice_type \<Rightarrow> ice_type \<Rightarrow> bool) \<Rightarrow> ice_type \<Rightarrow> ice_type \<Rightarrow> bool \<Rightarrow> bool" where
  "shouldUpdateIcebergType promote current desired allowUnsafe =
     (if current = desired then False
      else if allowUnsafe then True
      else if icebergTypeCanRepresent current desired then False
      else promote current desired)"

section \<open>Schemas\<close>

record ice_field =
  if_id :: int
  if_name :: string
  if_type :: ice_type
  if_required :: bool
  if_doc :: string

record ice_schema =
  is_identifiers :: "int list"
  is_fields :: "ice_field list"

text \<open>\<open>FindFieldByNameCaseInsensitive\<close> of the library.\<close>

definition find_field :: "ice_schema \<Rightarrow> string \<Rightarrow> ice_field option" where
  "find_field sc name = List.find (\<lambda>f. equal_fold (if_name f) name) (is_fields sc)"

definition field_of :: "nat \<times> table_column \<Rightarrow> ice_field" where
  "field_of ic = (case ic of (idx, col) \<Rightarrow>
     \<lparr>if_id = int idx + 1, if_name = tc_name col, if_type = icebergTypeForColumn col, if_required = \<not> tc_nullable col,
      if_doc = tc_column_type col\<rparr>)"

definition buildIcebergSchema :: "table_schema \<Rightarrow> string list \<Rightarrow> ice_schema" where
  "buildIcebergSchema src pkCols =
     (let pkSet = map (\<lambda>k. to_lower (trim_space k)) pkCols;
          fs = map field_of (enumerate 0 (ts_columns src)) in
      \<lparr>is_identifiers = map if_id (filter (\<lambda>f. to_lower (if_name f) \<in> set pkSet \<and> supportsIcebergIdentifierField (if_type f)) fs),
       is_fields = fs\<rparr>)"

definition findSourceColumn :: "table_schema option \<Rightarrow> string \<Rightarrow> table_column option" where
  "findSourceColumn src name =
     (case src of
        None \<Rightarrow> None
      | Some s \<Rightarrow> List.find (\<lambda>c. equal_fold (trim_space (tc_name c)) (trim_space name)) (ts_columns s))"

text \<open>What the library's updater is asked for.\<close>

datatype schema_op =
    OpSetIdentifiers "string list"
  | OpAdd string ice_type
  | OpUpdate string "ice_type option" "bool option"
  | OpDelete string
  | OpRename string string
  | OpMoveFirst string
  | OpMoveAfter string string

record schema_policy =
  sp_drop :: bool
  sp_rename :: bool
  sp_unsafe :: bool

definition sync_identifiers :: "table_schema \<Rightarrow> string list \<Rightarrow> schema_op list" where
  "sync_identifiers src pkCols =
     (let paths = filter (\<lambda>k. case findSourceColumn (Some src) k of
            None \<Rightarrow> False | Some c \<Rightarrow> supportsIcebergIdentifierField (icebergTypeForColumn c)) pkCols in
      if paths = [] then [] else [OpSetIdentifiers paths])"

definition sync_column :: "(ice_type \<Rightarrow> ice_type \<Rightarrow> bool) \<Rightarrow> bool \<Rightarrow> ice_schema \<Rightarrow> table_column \<Rightarrow> schema_op list" where
  "sync_column promote allowUnsafe current col =
     (case find_field current (tc_name col) of
        None \<Rightarrow> [OpAdd (tc_name col) (icebergTypeForColumn col)]
      | Some f \<Rightarrow>
          (let ty = (if shouldUpdateIcebergType promote (if_type f) (icebergTypeForColumn col) allowUnsafe
                     then Some (icebergTypeForColumn col) else None);
               req = (if allowUnsafe \<and> if_required f \<noteq> (\<not> tc_nullable col) then Some (\<not> tc_nullable col) else None) in
           if ty = None \<and> req = None then [] else [OpUpdate (if_name f) ty req]))"

text \<open>The operations, and whether any column asks for one: identifiers alone do not count as a change.\<close>

definition syncSchema ::
  "(ice_type \<Rightarrow> ice_type \<Rightarrow> bool) \<Rightarrow> schema_policy \<Rightarrow> ice_schema \<Rightarrow> table_schema \<Rightarrow> string list \<Rightarrow> schema_op list \<times> bool" where
  "syncSchema promote cfg current src pkCols =
     (let cols = concat (map (sync_column promote (sp_unsafe cfg) current) (ts_columns src)) in
      (sync_identifiers src pkCols @ cols, cols \<noteq> []))"

section \<open>Plans\<close>

datatype ddl_kind = DdlAddColumn | DdlDropColumn | DdlRenameColumn | DdlUpdateColumn

record ddl_action =
  da_kind :: ddl_kind
  da_old :: string
  da_new :: string
  da_column :: table_column
  da_position :: string
  da_after :: string

definition blank_column :: table_column where
  "blank_column = \<lparr>tc_name = [], tc_data_type = [], tc_column_type = [], tc_char_max = None, tc_precision = None,
     tc_scale = None, tc_nullable = False, tc_pk = False\<rparr>"

definition blank_action :: "ddl_kind \<Rightarrow> ddl_action" where
  "blank_action k = \<lparr>da_kind = k, da_old = [], da_new = [], da_column = blank_column, da_position = [], da_after = []\<rparr>"

definition column_action :: "ddl_kind \<Rightarrow> schema_change \<Rightarrow> table_column \<Rightarrow> ddl_action" where
  "column_action k c col = (blank_action k)\<lparr>da_column := col, da_position := sc_position c, da_after := sc_after c\<rparr>"

text \<open>A change of a whole table, or of an unknown type, becomes no action.\<close>

definition action_of_change :: "schema_change \<Rightarrow> string + ddl_action list" where
  "action_of_change c =
     (if sc_type c = SchemaChangeAddColumn
      then (case sc_column c of
              None \<Rightarrow> Inl ''add-column schema change has no column'' | Some col \<Rightarrow> Inr [column_action DdlAddColumn c col])
      else if sc_type c = SchemaChangeAlterColumnType
      then (case sc_column c of
              None \<Rightarrow> Inl ''alter-column schema change has no column'' | Some col \<Rightarrow> Inr [column_action DdlUpdateColumn c col])
      else if sc_type c = SchemaChangeDropColumn then Inr [(blank_action DdlDropColumn)\<lparr>da_old := sc_old c\<rparr>]
      else if sc_type c = SchemaChangeRenameColumn
      then Inr [(blank_action DdlRenameColumn)\<lparr>da_old := sc_old c, da_new := sc_new c\<rparr>]
      else Inr [])"

fun actions_of_changes :: "schema_change list \<Rightarrow> string + ddl_action list" where
  "actions_of_changes [] = Inr []"
| "actions_of_changes (c # cs) =
     (case action_of_change c of
        Inl e \<Rightarrow> Inl e
      | Inr a \<Rightarrow> (case actions_of_changes cs of Inl e \<Rightarrow> Inl e | Inr as \<Rightarrow> Inr (a @ as)))"

definition ddlActionsFromSchemaChanges :: "schema_change list \<Rightarrow> string + (ddl_action list \<times> bool)" where
  "ddlActionsFromSchemaChanges cs =
     (case actions_of_changes cs of Inl e \<Rightarrow> Inl e | Inr as \<Rightarrow> Inr (as, as = []))"

definition parseDDLPlan :: "(string \<Rightarrow> string + ddl_stmt) \<Rightarrow> string \<Rightarrow> string + (ddl_action list \<times> bool)" where
  "parseDDLPlan parse ddl =
     (case ParseMySQLDDL parse ddl of Inl e \<Rightarrow> Inl e | Inr cs \<Rightarrow> ddlActionsFromSchemaChanges cs)"

definition moveIcebergDDLColumn :: "ddl_action \<Rightarrow> schema_op list" where
  "moveIcebergDDLColumn a =
     (if da_position a = ColumnPositionFirst then [OpMoveFirst (tc_name (da_column a))]
      else if da_position a = ColumnPositionAfter \<and> trim_space (da_after a) \<noteq> []
      then [OpMoveAfter (tc_name (da_column a)) (da_after a)] else [])"

definition applyDDLAction :: "schema_policy \<Rightarrow> ddl_action \<Rightarrow> string + schema_op list" where
  "applyDDLAction cfg a =
     (let col = da_column a; ty = icebergTypeForColumn col in
      case da_kind a of
        DdlAddColumn \<Rightarrow> Inr (OpAdd (tc_name col) ty # moveIcebergDDLColumn a)
      | DdlDropColumn \<Rightarrow>
          if \<not> sp_drop cfg then Inl (''drop column is disabled, column='' @ da_old a) else Inr [OpDelete (da_old a)]
      | DdlRenameColumn \<Rightarrow>
          if \<not> sp_rename cfg then Inl (''rename column is disabled, from='' @ da_old a @ '' to='' @ da_new a)
          else Inr [OpRename (da_old a) (da_new a)]
      | DdlUpdateColumn \<Rightarrow>
          Inr (OpUpdate (tc_name col) (Some ty) (if sp_unsafe cfg then Some (\<not> tc_nullable col) else None) # moveIcebergDDLColumn a))"

fun position_after :: "ice_field list \<Rightarrow> string \<Rightarrow> string \<Rightarrow> bool" where
  "position_after (f # g # fs) after name =
     (if equal_fold (if_name f) after then equal_fold (if_name g) name else position_after (g # fs) after name)"
| "position_after _ after name = False"

definition ddlPositionApplied :: "ice_schema \<Rightarrow> ddl_action \<Rightarrow> bool" where
  "ddlPositionApplied current a =
     (if da_position a = ColumnPositionFirst
      then (case is_fields current of [] \<Rightarrow> False | f # _ \<Rightarrow> equal_fold (if_name f) (tc_name (da_column a)))
      else if da_position a = ColumnPositionAfter
      then da_after a = [] \<or> position_after (is_fields current) (da_after a) (tc_name (da_column a))
      else True)"

definition action_applied :: "schema_policy \<Rightarrow> ice_schema \<Rightarrow> ddl_action \<Rightarrow> bool" where
  "action_applied cfg current a =
     (let column_ok = (\<lambda>f. if_type f = icebergTypeForColumn (da_column a) \<and> ddlPositionApplied current a) in
      case da_kind a of
        DdlAddColumn \<Rightarrow>
          (case find_field current (tc_name (da_column a)) of None \<Rightarrow> False | Some f \<Rightarrow> column_ok f \<and> \<not> if_required f)
      | DdlUpdateColumn \<Rightarrow>
          (case find_field current (tc_name (da_column a)) of
             None \<Rightarrow> False
           | Some f \<Rightarrow> column_ok f \<and> \<not> (sp_unsafe cfg \<and> if_required f \<noteq> (\<not> tc_nullable (da_column a))))
      | DdlDropColumn \<Rightarrow> find_field current (da_old a) = None
      | DdlRenameColumn \<Rightarrow> find_field current (da_old a) = None \<and> find_field current (da_new a) \<noteq> None)"

definition ddlActionsAlreadyApplied :: "schema_policy \<Rightarrow> ice_schema option \<Rightarrow> ddl_action list \<Rightarrow> bool" where
  "ddlActionsAlreadyApplied cfg current as =
     (case current of None \<Rightarrow> False | Some c \<Rightarrow> list_all (action_applied cfg c) as)"

section \<open>A plan on the source's schema\<close>

text \<open>The index of the first column of a name.\<close>

fun column_index :: "string \<Rightarrow> table_column list \<Rightarrow> nat option" where
  "column_index name [] = None"
| "column_index name (c # cs) =
     (if equal_fold (tc_name c) name then Some 0 else map_option Suc (column_index name cs))"

definition insert_at :: "nat \<Rightarrow> 'a \<Rightarrow> 'a list \<Rightarrow> 'a list" where
  "insert_at i x xs = take i xs @ x # drop i xs"

definition remove_at :: "nat \<Rightarrow> 'a list \<Rightarrow> 'a list" where
  "remove_at i xs = take i xs @ drop (Suc i) xs"

definition moveSourceSchemaColumn :: "table_column list \<Rightarrow> string \<Rightarrow> string \<Rightarrow> string \<Rightarrow> table_column list" where
  "moveSourceSchemaColumn cols name position after =
     (if position = [] \<or> position = ColumnPositionLast then cols
      else case column_index name cols of
        None \<Rightarrow> cols
      | Some i \<Rightarrow>
          (let rest = remove_at i cols;
               target = (if position = ColumnPositionAfter
                         then (case column_index after rest of None \<Rightarrow> length rest | Some j \<Rightarrow> Suc j) else 0) in
           insert_at target (cols ! i) rest))"

definition apply_action :: "table_column list \<Rightarrow> ddl_action \<Rightarrow> table_column list" where
  "apply_action cols a =
     (case da_kind a of
        DdlAddColumn \<Rightarrow>
          (let present = list_ex (\<lambda>c. equal_fold (trim_space (tc_name c)) (trim_space (tc_name (da_column a)))) cols in
           moveSourceSchemaColumn (if present then cols else cols @ [da_column a]) (tc_name (da_column a)) (da_position a) (da_after a))
      | DdlDropColumn \<Rightarrow> filter (\<lambda>c. \<not> equal_fold (tc_name c) (da_old a)) cols
      | DdlRenameColumn \<Rightarrow>
          (case column_index (da_old a) cols of None \<Rightarrow> cols | Some i \<Rightarrow> cols[i := (cols ! i)\<lparr>tc_name := da_new a\<rparr>])
      | DdlUpdateColumn \<Rightarrow>
          (let cols1 = (case column_index (tc_name (da_column a)) cols of
                 None \<Rightarrow> cols | Some i \<Rightarrow> cols[i := (da_column a)\<lparr>tc_pk := tc_pk (cols ! i)\<rparr>]) in
           moveSourceSchemaColumn cols1 (tc_name (da_column a)) (da_position a) (da_after a)))"

definition applyDDLToSourceSchema :: "table_schema option \<Rightarrow> ddl_action list \<Rightarrow> table_schema option" where
  "applyDDLToSourceSchema src as = map_option (\<lambda>s. s\<lparr>ts_columns := foldl apply_action (ts_columns s) as\<rparr>) src"

section \<open>Integers fit\<close>

text \<open>The values of MySQL's integer types, and what an Iceberg type holds without loss.\<close>

definition mysql_int_range :: "string \<Rightarrow> bool \<Rightarrow> (int \<times> int) option" where
  "mysql_int_range ty u =
     (let bits = (if ty = ''tinyint'' then Some 8 else if ty = ''smallint'' then Some 16 else if ty = ''mediumint'' then Some 24
                  else if ty = ''int'' \<or> ty = ''integer'' then Some 32 else if ty = ''bigint'' then Some (64::nat) else None) in
      map_option (\<lambda>b. if u then (0, 2 ^ b - 1) else (- (2 ^ (b - 1)), 2 ^ (b - 1) - 1)) bits)"

definition holds_int :: "ice_type \<Rightarrow> int \<Rightarrow> bool" where
  "holds_int ty v =
     (case ty of
        TInt32 \<Rightarrow> - (2 ^ 31) \<le> v \<and> v < 2 ^ 31
      | TInt64 \<Rightarrow> - (2 ^ 63) \<le> v \<and> v < 2 ^ 63
      | TDecimal p s \<Rightarrow> s = 0 \<and> \<bar>v\<bar> < 10 ^ nat p
      | _ \<Rightarrow> False)"

text \<open>
  An integer column maps to a type that holds each of its values, signed or unsigned, except that a signed column
  declared with display width 1 becomes a boolean.
\<close>

lemma integer_columns_fit:
  assumes "mysql_int_range (to_lower (trim_space (tc_data_type col))) (str_contains ''unsigned'' (to_lower (tc_column_type col))) =
      Some (lo, hi)" "lo \<le> v" "v \<le> hi" "icebergTypeForColumn col \<noteq> TBool"
  shows "holds_int (icebergTypeForColumn col) v"
proof -
  define ty where "ty = to_lower (trim_space (tc_data_type col))"
  define u where "u = str_contains ''unsigned'' (to_lower (tc_column_type col))"
  note r = assms(1) [folded ty_def u_def]
  consider "ty = ''tinyint''" | "ty = ''smallint''" | "ty = ''mediumint''" | "ty = ''int''" | "ty = ''integer''" | "ty = ''bigint''"
    using r by (fastforce simp: mysql_int_range_def split: if_splits)
  then show ?thesis
  proof cases
    case 6
    then have "icebergTypeForColumn col = (if u then TDecimal 20 0 else TInt64)"
      by (simp add: icebergTypeForColumn_def ty_def [symmetric] u_def [symmetric] Let_def)
    then show ?thesis using r 6 assms(2,3) by (cases u) (auto simp: mysql_int_range_def holds_int_def)
  qed (use r assms(2-4) in \<open>auto simp: icebergTypeForColumn_def ty_def [symmetric] u_def [symmetric] mysql_int_range_def holds_int_def
         Let_def split: if_splits\<close>)
qed

section \<open>New tables\<close>

text \<open>
  The schema of a new table mirrors the source's: one field per column in the same order, numbered from 1,
  required where the column is not nullable; its identifier fields are the primary key's columns, except
  floating-point ones.
\<close>

theorem new_table_mirrors_source:
  "map if_name (is_fields (buildIcebergSchema src pkCols)) = map tc_name (ts_columns src) \<and>
   map if_id (is_fields (buildIcebergSchema src pkCols)) = map int [1..<Suc (length (ts_columns src))] \<and>
   map if_required (is_fields (buildIcebergSchema src pkCols)) = map (\<lambda>c. \<not> tc_nullable c) (ts_columns src) \<and>
   set (is_identifiers (buildIcebergSchema src pkCols)) =
     {int i + 1 | i. i < length (ts_columns src) \<and> to_lower (tc_name (ts_columns src ! i)) \<in> (\<lambda>k. to_lower (trim_space k)) ` set pkCols \<and>
        icebergTypeForColumn (ts_columns src ! i) \<notin> {TFloat32, TFloat64}}"
proof (intro conjI)
  let ?cs = "ts_columns src"
  show "map if_name (is_fields (buildIcebergSchema src pkCols)) = map tc_name ?cs"
    "map if_required (is_fields (buildIcebergSchema src pkCols)) = map (\<lambda>c. \<not> tc_nullable c) ?cs"
    by (simp_all add: buildIcebergSchema_def Let_def list_eq_iff_nth_eq nth_enumerate_eq field_of_def)
  show "map if_id (is_fields (buildIcebergSchema src pkCols)) = map int [1..<Suc (length ?cs)]"
    by (rule nth_equalityI) (auto simp: buildIcebergSchema_def Let_def nth_enumerate_eq field_of_def simp del: upt_Suc)
  show "set (is_identifiers (buildIcebergSchema src pkCols)) =
     {int i + 1 | i. i < length ?cs \<and> to_lower (tc_name (?cs ! i)) \<in> (\<lambda>k. to_lower (trim_space k)) ` set pkCols \<and>
        icebergTypeForColumn (?cs ! i) \<notin> {TFloat32, TFloat64}}"
  proof -
    have "set (enumerate 0 ?cs) = (\<lambda>i. (i, ?cs ! i)) ` {i. i < length ?cs}" by (auto simp: in_set_enumerate_eq)
    then have "set (map if_id (filter P (map field_of (enumerate 0 ?cs)))) =
        (\<lambda>i. if_id (field_of (i, ?cs ! i))) ` {i. i < length ?cs \<and> P (field_of (i, ?cs ! i))}" for P
      by auto
    then show ?thesis
      by (simp add: buildIcebergSchema_def Let_def field_of_def supportsIcebergIdentifierField_def image_Collect)
  qed
qed

section \<open>Plans keep what they do not name\<close>

lemma column_index_Some: "column_index n cs = Some i \<Longrightarrow> i < length cs \<and> equal_fold (tc_name (cs ! i)) n"
  by (induction cs arbitrary: i) (auto split: if_splits)

lemma mset_insert_remove: "i < length xs \<Longrightarrow> mset (insert_at j (xs ! i) (remove_at i xs)) = mset xs"
proof -
  assume i: "i < length xs"
  have "mset (insert_at j (xs ! i) (remove_at i xs)) = add_mset (xs ! i) (mset (take j (remove_at i xs) @ drop j (remove_at i xs)))"
    by (simp add: insert_at_def del: append_take_drop_id)
  also have "\<dots> = add_mset (xs ! i) (mset (remove_at i xs))" by (metis append_take_drop_id)
  also have "\<dots> = mset (take i xs @ xs ! i # drop (Suc i) xs)" by (simp add: remove_at_def)
  finally show ?thesis using i by (simp add: id_take_nth_drop [symmetric])
qed

lemma move_permutes: "mset (moveSourceSchemaColumn cols name position after) = mset cols"
proof (cases "column_index name cols")
  case (Some i)
  then have "i < length cols" using column_index_Some by blast
  then show ?thesis using Some by (simp add: moveSourceSchemaColumn_def Let_def mset_insert_remove)
qed (simp add: moveSourceSchemaColumn_def)

definition names_column :: "ddl_action \<Rightarrow> string \<Rightarrow> bool" where
  "names_column a n \<longleftrightarrow> equal_fold n (case da_kind a of DdlDropColumn \<Rightarrow> da_old a | DdlRenameColumn \<Rightarrow> da_old a
     | _ \<Rightarrow> tc_name (da_column a))"

lemma apply_action_keeps:
  assumes "c \<in> set cols" "\<not> names_column a (tc_name c)"
  shows "c \<in> set (apply_action cols a)"
proof -
  have moved: "c \<in> set (moveSourceSchemaColumn xs n p q)" if "c \<in> set xs" for xs n p q
    using that move_permutes by (metis mset_eq_setD)
  have upd: "c \<in> set (cols[i := d])" if "column_index n cols = Some i" "\<not> equal_fold (tc_name c) n" for i n d
  proof -
    obtain j where j: "j < length cols" "cols ! j = c" using assms(1) by (auto simp: in_set_conv_nth)
    then have "j \<noteq> i" using column_index_Some [OF that(1)] that(2) by auto
    then show ?thesis using j by (auto simp: in_set_conv_nth intro!: exI [of _ j])
  qed
  show ?thesis
    using assms upd by (cases "da_kind a") (auto simp: apply_action_def names_column_def Let_def split: option.splits intro!: moved)
qed

text \<open>
  A plan leaves every column that none of its actions names in the source's schema, type and key flag included.
\<close>

theorem plan_keeps_other_columns:
  assumes "c \<in> set (ts_columns s)" "\<forall>a \<in> set as. \<not> names_column a (tc_name c)"
  shows "\<exists>s'. applyDDLToSourceSchema (Some s) as = Some s' \<and> c \<in> set (ts_columns s')"
proof -
  have "c \<in> set cols \<Longrightarrow> \<forall>a \<in> set as. \<not> names_column a (tc_name c) \<Longrightarrow> c \<in> set (foldl apply_action cols as)" for cols
  proof (induction as arbitrary: cols)
    case (Cons a as)
    then show ?case using apply_action_keeps [of c cols a] by simp
  qed simp
  then show ?thesis using assms by (simp add: applyDDLToSourceSchema_def)
qed

definition sample_column :: "string \<Rightarrow> string \<Rightarrow> table_column" where
  "sample_column n ty = blank_column\<lparr>tc_name := n, tc_data_type := ty, tc_column_type := ty @ '' unsigned'', tc_pk := True\<rparr>"


theorem plan_keeps_other_columns_witness:
  "\<exists>s'. applyDDLToSourceSchema (Some \<lparr>ts_schema = ''s'', ts_table = ''t'', ts_columns = [sample_column ''id'' ''int'', sample_column ''n'' ''int'']\<rparr>)
     [(blank_action DdlDropColumn)\<lparr>da_old := ''n''\<rparr>] = Some s' \<and> sample_column ''id'' ''int'' \<in> set (ts_columns s')"
proof (rule plan_keeps_other_columns)
  have "\<not> names_column ((blank_action DdlDropColumn)\<lparr>da_old := ''n''\<rparr>) (tc_name (sample_column ''id'' ''int''))" by code_simp
  then show "\<forall>a \<in> set [(blank_action DdlDropColumn)\<lparr>da_old := ''n''\<rparr>]. \<not> names_column a (tc_name (sample_column ''id'' ''int''))" by simp
qed simp

end
