(* ===== verification/Iceberg_Rows.thy ===== *)
theory Iceberg_Rows
  imports Iceberg_Schema
begin

text \<open>
  Rows of the Iceberg sink (\<open>pkg/connectors/iceberg/arrow.go\<close>, the batching of \<open>sink.go\<close>): the key of a row,
  the reduction of a batch of events to keys to delete and rows to append, and the limits of a batch.
  A value is printed as Go prints it, because keys are compared by their text.

  The lemmas show that writing a reduced batch is applying its events one by one, what makes a repeated
  batch harmless, and that splitting loses no row and respects the limits.
\<close>

section \<open>Keys\<close>

record cell_format =
  cf_float :: "rat \<Rightarrow> string"
  cf_time :: "int \<Rightarrow> string"

text \<open>The verb \<open>%v\<close>: bytes are printed as a list of numbers.\<close>

fun go_text :: "cell_format \<Rightarrow> cell \<Rightarrow> string" where
  "go_text F CNull = ''<nil>''"
| "go_text F (CBytes s) = ''['' @ str_join '' '' (map (\<lambda>c. show_nat (of_char c)) s) @ '']''"
| "go_text F (CStr s) = s"
| "go_text F (CInt i) = show_int i"
| "go_text F (CUint n) = show_nat n"
| "go_text F (CFloat q) = cf_float F q"
| "go_text F (CBool b) = (if b then ''true'' else ''false'')"
| "go_text F (CTime t) = cf_time F t"

text \<open>Column names differ even when folded, so the map has at most one entry for a name.\<close>

definition lookupColumnValue :: "row_data \<Rightarrow> string \<Rightarrow> cell option" where
  "lookupColumnValue data col =
     (case map_get data col of
        Some v \<Rightarrow> Some v
      | None \<Rightarrow> map_option snd (List.find (\<lambda>(k, _). equal_fold (trim_space k) (trim_space col)) data))"

fun key_cells :: "row_data \<Rightarrow> string list \<Rightarrow> string + cell list" where
  "key_cells data [] = Inr []"
| "key_cells data (col # cols) =
     (case lookupColumnValue data col of
        None \<Rightarrow> Inl (''missing primary key value for '' @ col)
      | Some v \<Rightarrow> (case key_cells data cols of Inl e \<Rightarrow> Inl e | Inr vs \<Rightarrow> Inr (v # vs)))"

definition key_hash :: "cell_format \<Rightarrow> string list \<Rightarrow> cell list \<Rightarrow> string" where
  "key_hash F cols vs = str_join ''|'' (map2 (\<lambda>c v. to_lower c @ ''='' @ go_text F v) cols vs)"

definition key_map :: "string list \<Rightarrow> cell list \<Rightarrow> row_data" where
  "key_map cols vs = fold (\<lambda>(c, v). map_put c v) (zip cols vs) []"

definition keyFromRow :: "cell_format \<Rightarrow> row_data \<Rightarrow> string list \<Rightarrow> string + (row_data \<times> string)" where
  "keyFromRow F data cols =
     (case key_cells data cols of Inl e \<Rightarrow> Inl e | Inr vs \<Rightarrow> Inr (key_map cols vs, key_hash F cols vs))"

text \<open>A missing column counts as nil here.\<close>

definition keyHashFromValues :: "cell_format \<Rightarrow> row_data \<Rightarrow> string list \<Rightarrow> string" where
  "keyHashFromValues F data cols =
     key_hash F cols (map (\<lambda>c. case lookupColumnValue data c of None \<Rightarrow> CNull | Some v \<Rightarrow> v) cols)"

section \<open>Reducing a batch\<close>

record pending_row =
  pr_key :: row_data
  pr_row :: row_data
  pr_event :: event
  pr_pos :: nat

record pending_delete =
  pd_key :: row_data
  pd_row :: row_data
  pd_partition_rows :: "row_data list"
  pd_pos :: nat

definition addPendingDelete ::
  "string \<Rightarrow> pending_delete \<Rightarrow> (string \<times> pending_delete) list \<Rightarrow> (string \<times> pending_delete) list" where
  "addPendingDelete h d dels =
     (case map_get dels h of
        Some old \<Rightarrow> map_put h (old\<lparr>pd_partition_rows := pd_partition_rows old @ [pd_row d], pd_row := pd_row d, pd_pos := pd_pos d\<rparr>) dels
      | None \<Rightarrow> map_put h (d\<lparr>pd_partition_rows := [pd_row d]\<rparr>) dels)"

type_synonym reduction = "(string \<times> pending_row) list \<times> (string \<times> pending_delete) list"

definition delete_of :: "row_data \<Rightarrow> row_data \<Rightarrow> nat \<Rightarrow> pending_delete" where
  "delete_of key row i = \<lparr>pd_key = key, pd_row = row, pd_partition_rows = [], pd_pos = i\<rparr>"

text \<open>The event's old image, or its new one where it carries none.\<close>

definition old_image :: "event \<Rightarrow> row_data" where
  "old_image ev = (if ev_old ev = [] then ev_data ev else ev_old ev)"

definition reduce_step :: "cell_format \<Rightarrow> string list \<Rightarrow> nat \<Rightarrow> event \<Rightarrow> reduction \<Rightarrow> string + reduction" where
  "reduce_step F pk i ev rd =
     (case rd of (rows, dels) \<Rightarrow>
      if ev_type ev = EventTypeInsert then
        (case keyFromRow F (ev_data ev) pk of
           Inl e \<Rightarrow> Inl e
         | Inr (key, h) \<Rightarrow>
             Inr (map_put h \<lparr>pr_key = key, pr_row = ev_data ev, pr_event = ev, pr_pos = i\<rparr> rows,
                  addPendingDelete h (delete_of key (ev_data ev) i) dels))
      else if ev_type ev = EventTypeDelete then
        (case keyFromRow F (ev_data ev) pk of
           Inl e \<Rightarrow> Inl e
         | Inr (key, h) \<Rightarrow> Inr (map_delete h rows, addPendingDelete h (delete_of key (ev_data ev) i) dels))
      else if ev_type ev = EventTypeUpdate then
        (case keyFromRow F (old_image ev) pk of
           Inl e \<Rightarrow> Inl e
         | Inr (oldKey, oldHash) \<Rightarrow>
             (case keyFromRow F (ev_data ev) pk of
                Inl e \<Rightarrow> Inl e
              | Inr (newKey, newHash) \<Rightarrow>
                  Inr (map_put newHash \<lparr>pr_key = newKey, pr_row = ev_data ev, pr_event = ev, pr_pos = i\<rparr> (map_delete oldHash rows),
                       addPendingDelete oldHash (delete_of oldKey (old_image ev) i) dels)))
      else Inr rd)"

fun reduce_loop :: "cell_format \<Rightarrow> string list \<Rightarrow> nat \<Rightarrow> event list \<Rightarrow> reduction \<Rightarrow> string + reduction" where
  "reduce_loop F pk i [] rd = Inr rd"
| "reduce_loop F pk i (ev # evs) rd =
     (case reduce_step F pk i ev rd of Inl e \<Rightarrow> Inl e | Inr rd' \<Rightarrow> reduce_loop F pk (Suc i) evs rd')"

text \<open>Positions are distinct, so the order of the maps does not matter.\<close>

definition reduceEventsDetailed ::
  "cell_format \<Rightarrow> event list \<Rightarrow> string list \<Rightarrow> string + (pending_row list \<times> pending_delete list)" where
  "reduceEventsDetailed F evs pk =
     (case reduce_loop F pk 0 evs ([], []) of
        Inl e \<Rightarrow> Inl e
      | Inr (rows, dels) \<Rightarrow> Inr (sort_key pr_pos (map snd rows), sort_key pd_pos (map snd dels)))"

definition reduceEvents :: "cell_format \<Rightarrow> event list \<Rightarrow> string list \<Rightarrow> string + (row_data list \<times> row_data list)" where
  "reduceEvents F evs pk =
     (case reduceEventsDetailed F evs pk of
        Inl e \<Rightarrow> Inl e
      | Inr (rows, dels) \<Rightarrow> Inr (map pr_row rows, map pd_key dels))"

section \<open>Limits\<close>

definition splitDeleteKeys :: "'k list \<Rightarrow> int \<Rightarrow> 'k list list" where
  "splitDeleteKeys keys maxKeys =
     (if keys = [] then []
      else if maxKeys \<le> 0 \<or> int (length keys) \<le> maxKeys then [keys]
      else map (\<lambda>i. take (nat maxKeys) (drop (i * nat maxKeys) keys)) [0..<(length keys + nat maxKeys - 1) div nat maxKeys])"

fun estimateValueBytes :: "cell \<Rightarrow> int" where
  "estimateValueBytes CNull = 0"
| "estimateValueBytes (CStr s) = int (length s)"
| "estimateValueBytes (CBytes s) = int (length s)"
| "estimateValueBytes (CTime t) = 24"
| "estimateValueBytes _ = 16"

definition estimateRowBytes :: "row_data \<Rightarrow> int" where
  "estimateRowBytes row =
     (if row = [] then 0
      else 64 + int (length row) * 32 + sum_list (map (\<lambda>(k, v). int (length k) + estimateValueBytes v) row))"

definition estimateEventBytes :: "event \<Rightarrow> int" where
  "estimateEventBytes ev =
     256 + int (length (ev_schema ev) + length (ev_table ev) + length (ev_trace ev) + length (ev_ddl ev)) +
     estimateRowBytes (ev_data ev) + estimateRowBytes (ev_old ev) + sum_list (map estimateRowBytes (ev_rows ev))"

definition estimateEventsBytes :: "event list \<Rightarrow> int" where
  "estimateEventsBytes evs = sum_list (map estimateEventBytes evs)"

text \<open>\<open>cur\<close> holds the rows of the open batch, \<open>bytes\<close> their estimate.\<close>

fun split_rows :: "int \<Rightarrow> int \<Rightarrow> row_data list \<Rightarrow> int \<Rightarrow> row_data list \<Rightarrow> row_data list list" where
  "split_rows maxRows maxBytes cur bytes [] = [cur]"
| "split_rows maxRows maxBytes cur bytes (row # rows) =
     (if cur \<noteq> [] \<and> (maxRows \<le> int (length cur) \<or> 0 < maxBytes \<and> maxBytes < bytes + estimateRowBytes row)
      then cur # split_rows maxRows maxBytes [row] (estimateRowBytes row) rows
      else split_rows maxRows maxBytes (cur @ [row]) (bytes + estimateRowBytes row) rows)"

definition splitRowsByLimits :: "row_data list \<Rightarrow> int \<Rightarrow> int \<Rightarrow> row_data list list" where
  "splitRowsByLimits rows maxRows maxBytes =
     (if rows = [] then []
      else split_rows (if maxRows \<le> 0 then int (length rows) else maxRows) maxBytes [] 0 rows)"

text \<open>What a batch may hold: the row limit, and the byte limit unless it is a single row.\<close>

definition within_limits :: "int \<Rightarrow> int \<Rightarrow> row_data list \<Rightarrow> bool" where
  "within_limits maxRows maxBytes b \<longleftrightarrow>
     b \<noteq> [] \<and> (maxRows \<le> 0 \<or> int (length b) \<le> maxRows) \<and>
     (maxBytes \<le> 0 \<or> length b = 1 \<or> sum_list (map estimateRowBytes b) \<le> maxBytes)"

lemma split_rows_concat: "concat (split_rows maxRows maxBytes cur bytes rows) = cur @ rows"
  by (induction maxRows maxBytes cur bytes rows rule: split_rows.induct) simp_all

lemma split_rows_limits:
  assumes "bytes = sum_list (map estimateRowBytes cur)" "cur \<noteq> [] \<or> rows \<noteq> []" "cur = [] \<or> within_limits maxRows maxBytes cur" "0 < maxRows"
  shows "\<forall>b \<in> set (split_rows maxRows maxBytes cur bytes rows). within_limits maxRows maxBytes b"
  using assms
proof (induction maxRows maxBytes cur bytes rows rule: split_rows.induct)
  case (2 maxRows maxBytes cur bytes row rows)
  show ?case
  proof (cases "cur \<noteq> [] \<and> (maxRows \<le> int (length cur) \<or> 0 < maxBytes \<and> maxBytes < bytes + estimateRowBytes row)")
    case True
    have "within_limits maxRows maxBytes [row]" using 2(6) by (simp add: within_limits_def)
    then show ?thesis using 2(1) [OF True] 2(3-6) True by auto
  next
    case False
    then have "within_limits maxRows maxBytes (cur @ [row])" using 2(3,6) by (auto simp: within_limits_def not_less not_le)
    then show ?thesis using 2(2) [OF False] 2(3,6) False by auto
  qed
qed simp

text \<open>
  Splitting a snapshot batch keeps every row and its order, and no part is empty or exceeds the configured
  rows or bytes, except that a single row may be larger than the byte limit.
\<close>

theorem split_rows_exact:
  "concat (splitRowsByLimits rows maxRows maxBytes) = rows \<and>
   list_all (within_limits maxRows maxBytes) (splitRowsByLimits rows maxRows maxBytes)"
proof (cases "rows = []")
  case True
  then show ?thesis by (simp add: splitRowsByLimits_def)
next
  case False
  let ?m = "if maxRows \<le> 0 then int (length rows) else maxRows"
  let ?bs = "split_rows ?m maxBytes [] 0 rows"
  have m: "0 < ?m" using False by simp
  have lim: "\<forall>b \<in> set ?bs. within_limits ?m maxBytes b" by (rule split_rows_limits) (use False m in simp_all)
  have "within_limits maxRows maxBytes b" if "b \<in> set ?bs" for b
    using lim that by (auto simp: within_limits_def split: if_splits)
  then show ?thesis using False split_rows_concat [of ?m maxBytes "[]" 0 rows]
    by (simp add: splitRowsByLimits_def list_all_iff)
qed

lemma split_delete_keys_concat: "concat (splitDeleteKeys keys maxKeys) = keys"
proof (cases "keys = [] \<or> maxKeys \<le> 0 \<or> int (length keys) \<le> maxKeys")
  case True
  then show ?thesis by (auto simp: splitDeleteKeys_def)
next
  case False
  define n where "n = nat maxKeys"
  have n: "0 < n" using False by (simp add: n_def)
  have take_k: "concat (map (\<lambda>i. take n (drop (i * n) keys)) [0..<k]) = take (k * n) keys" for k
  proof (induction k)
    case (Suc k)
    have "take (Suc k * n) keys = take (k * n + n) keys" by (simp add: add.commute)
    also have "\<dots> = take (k * n) keys @ take n (drop (k * n) keys)" by (rule take_add)
    finally show ?case using Suc by simp
  qed simp
  have "(length keys + n - 1) mod n < n" using n by simp
  moreover have "(length keys + n - 1) div n * n + (length keys + n - 1) mod n = length keys + n - 1" by simp
  ultimately have "length keys \<le> ((length keys + n - 1) div n) * n" using n by linarith
  then show ?thesis using take_k False by (simp add: splitDeleteKeys_def n_def [symmetric])
qed

section \<open>A batch as a history\<close>

text \<open>
  The rows a table holds are seen as a map from key values to rows. The reference applies the events one by
  one, the sink deletes the rows that match a pending delete and appends the pending rows.
\<close>

type_synonym key_view = "cell list \<rightharpoonup> row_data"

definition apply_change :: "string list \<Rightarrow> event \<Rightarrow> key_view \<Rightarrow> key_view" where
  "apply_change pk ev m =
     (if ev_type ev = EventTypeInsert then
        (case key_cells (ev_data ev) pk of Inl _ \<Rightarrow> m | Inr k \<Rightarrow> m(k \<mapsto> ev_data ev))
      else if ev_type ev = EventTypeDelete then
        (case key_cells (ev_data ev) pk of Inl _ \<Rightarrow> m | Inr k \<Rightarrow> m(k := None))
      else if ev_type ev = EventTypeUpdate then
        (case (key_cells (old_image ev) pk, key_cells (ev_data ev) pk) of
           (Inr k, Inr k') \<Rightarrow> (m(k := None))(k' \<mapsto> ev_data ev)
         | _ \<Rightarrow> m)
      else m)"

text \<open>A key-changing update moves the row to a key that no row has.\<close>

definition change_ok :: "string list \<Rightarrow> event \<Rightarrow> key_view \<Rightarrow> bool" where
  "change_ok pk ev m \<longleftrightarrow>
     ev_type ev = EventTypeUpdate \<and> key_cells (old_image ev) pk \<noteq> key_cells (ev_data ev) pk \<longrightarrow>
       (case key_cells (ev_data ev) pk of Inl _ \<Rightarrow> True | Inr k \<Rightarrow> m k = None)"

fun history_ok :: "string list \<Rightarrow> event list \<Rightarrow> key_view \<Rightarrow> bool" where
  "history_ok pk [] m = True"
| "history_ok pk (ev # evs) m \<longleftrightarrow> change_ok pk ev m \<and> history_ok pk evs (apply_change pk ev m)"

definition event_keys :: "string list \<Rightarrow> event \<Rightarrow> cell list list" where
  "event_keys pk ev = [k. Inr k \<leftarrow> [key_cells (ev_data ev) pk, key_cells (old_image ev) pk]]"

definition represents :: "string list \<Rightarrow> row_data list \<Rightarrow> key_view \<Rightarrow> bool" where
  "represents pk T m \<longleftrightarrow>
     (\<forall>k. filter (\<lambda>row. key_cells row pk = Inr k) T = (case m k of None \<Rightarrow> [] | Some row \<Rightarrow> [row]))"

definition write_batch :: "string list \<Rightarrow> row_data list \<Rightarrow> row_data list \<Rightarrow> row_data list \<Rightarrow> row_data list" where
  "write_batch pk T rows dels =
     filter (\<lambda>row. \<forall>d \<in> set dels. key_cells d pk \<noteq> key_cells row pk) T @ rows"

lemma map_get_key_map: "\<lbrakk>distinct cols; length vs = length cols; c \<notin> set cols\<rbrakk> \<Longrightarrow>
  map_get (fold (\<lambda>(c, v). map_put c v) (zip cols vs) a) c = map_get a c"
  by (induction cols vs arbitrary: a rule: list_induct2') auto

lemma key_cells_key_map_aux: "\<lbrakk>distinct cols; length vs = length cols\<rbrakk> \<Longrightarrow>
  key_cells (fold (\<lambda>(c, v). map_put c v) (zip cols vs) a) cols = Inr vs"
proof (induction cols arbitrary: vs a)
  case (Cons c cols)
  then obtain v vs' where vs: "vs = v # vs'" by (cases vs) auto
  show ?case using Cons by (simp add: vs lookupColumnValue_def map_get_key_map)
qed simp

lemma key_cells_length: "key_cells data cols = Inr vs \<Longrightarrow> length vs = length cols"
  by (induction cols arbitrary: vs) (auto split: option.splits sum.splits)

lemma key_cells_key_map: "\<lbrakk>distinct cols; key_cells data cols = Inr vs\<rbrakk> \<Longrightarrow> key_cells (key_map cols vs) cols = Inr vs"
  unfolding key_map_def by (rule key_cells_key_map_aux) (simp_all add: key_cells_length)

lemma keyFromRow_Inr:
  "keyFromRow F data pk = Inr (key, h) \<longleftrightarrow>
     (\<exists>vs. key_cells data pk = Inr vs \<and> key = key_map pk vs \<and> h = key_hash F pk vs)"
  by (auto simp: keyFromRow_def split: sum.splits)

lemma map_get_put_fun: "map_get (map_put k v m) = (map_get m)(k \<mapsto> v)"
  by (rule ext) simp

lemma map_get_delete_fun: "map_get (map_delete k m) = (map_get m)(k := None)"
  by (rule ext) simp

text \<open>
  \<open>r\<close> and \<open>d\<close> are the pending rows and deletes by hash, \<open>m0\<close> and \<open>m\<close> the history before and after.
\<close>

definition batch_inv ::
  "cell_format \<Rightarrow> string list \<Rightarrow> cell list set \<Rightarrow> key_view \<Rightarrow> key_view \<Rightarrow>
   (string \<rightharpoonup> pending_row) \<Rightarrow> (string \<rightharpoonup> pending_delete) \<Rightarrow> bool" where
  "batch_inv F pk K m0 m r d \<longleftrightarrow>
     (\<forall>h p. r h = Some p \<longrightarrow> (\<exists>k \<in> K. h = key_hash F pk k \<and> key_cells (pr_row p) pk = Inr k)) \<and>
     (\<forall>h q. d h = Some q \<longrightarrow> (\<exists>k \<in> K. h = key_hash F pk k \<and> key_cells (pd_key q) pk = Inr k)) \<and>
     (\<forall>k. k \<notin> K \<longrightarrow> m k = m0 k) \<and>
     (\<forall>k \<in> K. m k = (case r (key_hash F pk k) of Some p \<Rightarrow> Some (pr_row p)
                     | None \<Rightarrow> if d (key_hash F pk k) = None then m0 k else None)) \<and>
     (\<forall>k \<in> K. r (key_hash F pk k) \<noteq> None \<and> d (key_hash F pk k) = None \<longrightarrow> m0 k = None)"

lemma batch_inv_put:
  assumes "batch_inv F pk K m0 m r d" "inj_on (key_hash F pk) K" "k \<in> K" "key_cells (pr_row p) pk = Inr k"
    "m k = None \<or> d (key_hash F pk k) \<noteq> None"
  shows "batch_inv F pk K m0 (m(k \<mapsto> pr_row p)) (r(key_hash F pk k \<mapsto> p)) d"
  using assms unfolding batch_inv_def by (auto simp: inj_on_eq_iff split: option.splits if_splits)

lemma batch_inv_del:
  assumes "batch_inv F pk K m0 m r d" "inj_on (key_hash F pk) K" "k \<in> K" "key_cells (pd_key q) pk = Inr k"
  shows "batch_inv F pk K m0 (m(k := None)) (r(key_hash F pk k := None)) (d(key_hash F pk k \<mapsto> q))"
  using assms unfolding batch_inv_def by (auto simp: inj_on_eq_iff split: option.splits if_splits)

lemma addPendingDelete_get:
  "\<exists>q. map_get (addPendingDelete h x dels) = (map_get dels)(h \<mapsto> q) \<and>
       pd_key q = (case map_get dels h of Some old \<Rightarrow> pd_key old | None \<Rightarrow> pd_key x)"
  by (auto simp: addPendingDelete_def map_get_put_fun split: option.splits)

lemma batch_inv_add_delete:
  assumes "batch_inv F pk K m0 m r (map_get dels)" "inj_on (key_hash F pk) K" "k \<in> K" "key_cells (pd_key x) pk = Inr k"
  shows "batch_inv F pk K m0 (m(k := None)) (r(key_hash F pk k := None)) (map_get (addPendingDelete (key_hash F pk k) x dels))"
proof -
  obtain q where q: "map_get (addPendingDelete (key_hash F pk k) x dels) = (map_get dels)(key_hash F pk k \<mapsto> q)"
    "pd_key q = (case map_get dels (key_hash F pk k) of Some old \<Rightarrow> pd_key old | None \<Rightarrow> pd_key x)"
    using addPendingDelete_get by blast
  have "key_cells (pd_key q) pk = Inr k"
  proof (cases "map_get dels (key_hash F pk k)")
    case None
    then show ?thesis using q assms(4) by simp
  next
    case (Some old)
    then obtain k' where "k' \<in> K" "key_hash F pk k = key_hash F pk k'" "key_cells (pd_key old) pk = Inr k'"
      using assms(1) unfolding batch_inv_def by blast
    then show ?thesis using q Some assms(2,3) by (simp add: inj_on_eq_iff)
  qed
  from batch_inv_del [OF assms(1-3) this] show ?thesis by (simp add: q)
qed

lemma delete_of_key: "\<lbrakk>key_cells data pk = Inr k; distinct pk\<rbrakk> \<Longrightarrow> key_cells (pd_key (delete_of (key_map pk k) row i)) pk = Inr k"
  by (simp add: delete_of_def key_cells_key_map)

lemma event_keys_mem:
  "key_cells (ev_data ev) pk = Inr k \<Longrightarrow> k \<in> set (event_keys pk ev)"
  "key_cells (old_image ev) pk = Inr k \<Longrightarrow> k \<in> set (event_keys pk ev)"
  by (simp_all add: event_keys_def)

lemma reduce_step_inv:
  assumes "batch_inv F pk K m0 m (map_get (fst rd)) (map_get (snd rd))" "inj_on (key_hash F pk) K"
    "set (event_keys pk ev) \<subseteq> K" "change_ok pk ev m" "distinct pk" "reduce_step F pk i ev rd = Inr rd'"
  shows "batch_inv F pk K m0 (apply_change pk ev m) (map_get (fst rd')) (map_get (snd rd'))"
proof (cases rd)
  case (Pair rows dels)
  note inv = assms(1) [unfolded Pair fst_conv snd_conv]
  consider "ev_type ev = EventTypeInsert" | "ev_type ev = EventTypeDelete" | "ev_type ev = EventTypeUpdate"
    | "ev_type ev \<notin> {EventTypeInsert, EventTypeDelete, EventTypeUpdate}" by blast
  then show ?thesis
  proof cases
    case 1
    then obtain k where k: "key_cells (ev_data ev) pk = Inr k"
      "rd' = (map_put (key_hash F pk k) \<lparr>pr_key = key_map pk k, pr_row = ev_data ev, pr_event = ev, pr_pos = i\<rparr> rows,
              addPendingDelete (key_hash F pk k) (delete_of (key_map pk k) (ev_data ev) i) dels)"
      using assms(6) by (auto simp: reduce_step_def Pair keyFromRow_Inr split: sum.splits)
    have K: "k \<in> K" using event_keys_mem(1) [OF k(1)] assms(3) by blast
    note D = batch_inv_add_delete [OF inv assms(2) K delete_of_key [OF k(1) assms(5)]]
    have "key_cells (pr_row \<lparr>pr_key = key_map pk k, pr_row = ev_data ev, pr_event = ev, pr_pos = i\<rparr>) pk = Inr k" using k(1) by simp
    from batch_inv_put [OF D assms(2) K this] show ?thesis
      using 1 k by (simp add: apply_change_def map_get_put_fun)
  next
    case 2
    then obtain k where k: "key_cells (ev_data ev) pk = Inr k"
      "rd' = (map_delete (key_hash F pk k) rows,
              addPendingDelete (key_hash F pk k) (delete_of (key_map pk k) (ev_data ev) i) dels)"
      using assms(6) by (auto simp: reduce_step_def Pair keyFromRow_Inr split: sum.splits)
    have K: "k \<in> K" using event_keys_mem(1) [OF k(1)] assms(3) by blast
    from batch_inv_add_delete [OF inv assms(2) K delete_of_key [OF k(1) assms(5)]] show ?thesis
      using 2 k by (simp add: apply_change_def map_get_delete_fun)
  next
    case 3
    then obtain k k' where k: "key_cells (old_image ev) pk = Inr k" "key_cells (ev_data ev) pk = Inr k'"
      "rd' = (map_put (key_hash F pk k') \<lparr>pr_key = key_map pk k', pr_row = ev_data ev, pr_event = ev, pr_pos = i\<rparr>
                (map_delete (key_hash F pk k) rows),
              addPendingDelete (key_hash F pk k) (delete_of (key_map pk k) (old_image ev) i) dels)"
      using assms(6) by (auto simp: reduce_step_def Pair keyFromRow_Inr split: sum.splits)
    have K: "k \<in> K" "k' \<in> K" using event_keys_mem(2) [OF k(1)] event_keys_mem(1) [OF k(2)] assms(3) by blast+
    note D = batch_inv_add_delete [OF inv assms(2) K(1) delete_of_key [OF k(1) assms(5)]]
    have p: "key_cells (pr_row \<lparr>pr_key = key_map pk k', pr_row = ev_data ev, pr_event = ev, pr_pos = i\<rparr>) pk = Inr k'" using k(2) by simp
    have "(m(k := None)) k' = None" using assms(4) 3 k by (auto simp: change_ok_def)
    then show ?thesis using batch_inv_put [OF D assms(2) K(2) p] 3 k
      by (simp add: apply_change_def map_get_put_fun map_get_delete_fun)
  next
    case 4
    then show ?thesis using assms(1,6) by (auto simp: reduce_step_def apply_change_def Pair)
  qed
qed

lemma reduce_loop_inv:
  assumes "batch_inv F pk K m0 m (map_get (fst rd)) (map_get (snd rd))" "inj_on (key_hash F pk) K"
    "set (concat (map (event_keys pk) evs)) \<subseteq> K" "history_ok pk evs m" "distinct pk" "reduce_loop F pk i evs rd = Inr rd'"
  shows "batch_inv F pk K m0 (fold (apply_change pk) evs m) (map_get (fst rd')) (map_get (snd rd'))"
  using assms
proof (induction evs arbitrary: i rd m)
  case (Cons ev evs)
  then obtain rd1 where rd1: "reduce_step F pk i ev rd = Inr rd1" "reduce_loop F pk (Suc i) evs rd1 = Inr rd'"
    by (auto split: sum.splits)
  have "batch_inv F pk K m0 (apply_change pk ev m) (map_get (fst rd1)) (map_get (snd rd1))"
    by (rule reduce_step_inv [OF Cons.prems(1,2) _ _ Cons.prems(5) rd1(1)]) (use Cons.prems(3,4) in auto)
  from Cons.IH [OF this Cons.prems(2) _ _ Cons.prems(5) rd1(2)] show ?case using Cons.prems(3,4) by simp
qed simp

lemma distinct_addPendingDelete: "distinct (map fst dels) \<Longrightarrow> distinct (map fst (addPendingDelete h x dels))"
  by (auto simp: addPendingDelete_def split: option.splits)

lemma reduce_loop_distinct:
  "\<lbrakk>reduce_loop F pk i evs rd = Inr rd'; distinct (map fst (fst rd)); distinct (map fst (snd rd))\<rbrakk> \<Longrightarrow>
   distinct (map fst (fst rd')) \<and> distinct (map fst (snd rd'))"
proof (induction evs arbitrary: i rd)
  case (Cons ev evs)
  then obtain rd1 where rd1: "reduce_step F pk i ev rd = Inr rd1" "reduce_loop F pk (Suc i) evs rd1 = Inr rd'"
    by (auto split: sum.splits)
  have "distinct (map fst (fst rd1)) \<and> distinct (map fst (snd rd1))"
    using rd1(1) Cons.prems(2,3) by (auto simp: reduce_step_def distinct_addPendingDelete split: prod.splits if_splits sum.splits)
  then show ?case using Cons.IH [OF rd1(2)] by blast
qed simp

text \<open>In a map with one entry for a key, the rows of a key are the entry's.\<close>

lemma filter_entry:
  assumes "distinct (map fst xs)" "\<forall>h p. map_get xs h = Some p \<longrightarrow> (P p \<longleftrightarrow> h = h0)"
  shows "filter P (map snd xs) = (case map_get xs h0 of None \<Rightarrow> [] | Some p \<Rightarrow> [p])"
  using assms
proof (induction xs)
  case (Cons x xs)
  obtain h p where x: "x = (h, p)" by (cases x)
  have nin: "map_get xs h = None" using Cons.prems(1) by (simp add: x map_get_def map_of_eq_None_iff)
  have "\<forall>h' p'. map_get xs h' = Some p' \<longrightarrow> (P p' \<longleftrightarrow> h' = h0)"
  proof (intro allI impI)
    fix h' p' assume g: "map_get xs h' = Some p'"
    then have "h' \<noteq> h" using nin by auto
    then have "map_get (x # xs) h' = Some p'" using g by (simp add: x map_get_def)
    then show "P p' \<longleftrightarrow> h' = h0" using Cons.prems(2) by blast
  qed
  then have "filter P (map snd xs) = (case map_get xs h0 of None \<Rightarrow> [] | Some p \<Rightarrow> [p])" using Cons by simp
  moreover have "P p \<longleftrightarrow> h = h0" using Cons.prems(2) by (simp add: x map_get_def)
  ultimately show ?case using nin by (auto simp: x map_get_def)
qed (simp add: map_get_def)

lemma batch_inv_init: "batch_inv F pk K m m (map_get []) (map_get [])"
  by (simp add: batch_inv_def map_get_def)

lemma batch_rows_of_key:
  assumes "batch_inv F pk K m0 m (map_get rows) d" "inj_on (key_hash F pk) K" "distinct (map fst rows)"
  shows "filter (\<lambda>row. key_cells row pk = Inr k) (map pr_row (sort_key pr_pos (map snd rows))) =
    (case map_get rows (key_hash F pk k) of Some p \<Rightarrow> if k \<in> K then [pr_row p] else [] | None \<Rightarrow> [])"
proof -
  have ent: "\<exists>k' \<in> K. h = key_hash F pk k' \<and> key_cells (pr_row p) pk = Inr k'" if "map_get rows h = Some p" for h p
    using assms(1) that unfolding batch_inv_def by blast
  have "filter (\<lambda>p. key_cells (pr_row p) pk = Inr k) (map snd rows) =
    (if k \<in> K then (case map_get rows (key_hash F pk k) of None \<Rightarrow> [] | Some p \<Rightarrow> [p]) else [])"
  proof (cases "k \<in> K")
    case True
    have "filter (\<lambda>p. key_cells (pr_row p) pk = Inr k) (map snd rows) = (case map_get rows (key_hash F pk k) of None \<Rightarrow> [] | Some p \<Rightarrow> [p])"
      by (rule filter_entry [OF assms(3)]) (use ent assms(2) True in \<open>fastforce simp: inj_on_eq_iff\<close>)
    then show ?thesis using True by simp
  next
    case False
    have "key_cells (pr_row p) pk \<noteq> Inr k" if "(h, p) \<in> set rows" for h p
      using ent [of h p] that assms(3) False by (auto simp: map_get_def map_of_eq_Some_iff)
    then show ?thesis using False by (auto simp: filter_empty_conv)
  qed
  then show ?thesis by (auto simp: filter_map comp_def filter_sort split: option.splits)
qed

lemma batch_deletes_key:
  assumes "batch_inv F pk K m0 m r (map_get dels)" "inj_on (key_hash F pk) K" "distinct (map fst dels)"
  shows "(\<exists>d \<in> set (map pd_key (sort_key pd_pos (map snd dels))). key_cells d pk = Inr k) \<longleftrightarrow>
    k \<in> K \<and> map_get dels (key_hash F pk k) \<noteq> None"
proof
  assume "\<exists>d \<in> set (map pd_key (sort_key pd_pos (map snd dels))). key_cells d pk = Inr k"
  then obtain h q where "(h, q) \<in> set dels" "key_cells (pd_key q) pk = Inr k" by auto
  then have "map_get dels h = Some q" "key_cells (pd_key q) pk = Inr k" using assms(3) by (simp_all add: map_get_def)
  then show "k \<in> K \<and> map_get dels (key_hash F pk k) \<noteq> None" using assms(1) unfolding batch_inv_def by fastforce
next
  assume k: "k \<in> K \<and> map_get dels (key_hash F pk k) \<noteq> None"
  then obtain q where q: "map_get dels (key_hash F pk k) = Some q" by blast
  then obtain k' where "k' \<in> K" "key_hash F pk k = key_hash F pk k'" "key_cells (pd_key q) pk = Inr k'"
    using assms(1) unfolding batch_inv_def by blast
  moreover from this have "k' = k" using assms(2) k by (simp add: inj_on_eq_iff)
  moreover have "q \<in> snd ` set dels" using q by (force simp: map_get_def dest: map_of_SomeD)
  ultimately show "\<exists>d \<in> set (map pd_key (sort_key pd_pos (map snd dels))). key_cells d pk = Inr k" by auto
qed

lemma filter_kept:
  "filter (\<lambda>row. key_cells row pk = Inr k) (filter (\<lambda>row. \<forall>d \<in> set dels. key_cells d pk \<noteq> key_cells row pk) T) =
   (if \<exists>d \<in> set dels. key_cells d pk = Inr k then [] else filter (\<lambda>row. key_cells row pk = Inr k) T)"
  by (induction T) auto

lemma write_reduced:
  assumes "reduceEvents F evs pk = Inr (rows, dels)" "distinct pk"
    "inj_on (key_hash F pk) (set (concat (map (event_keys pk) evs)))"
    "history_ok pk evs m" "represents pk T m"
  shows "represents pk (write_batch pk T rows dels) (fold (apply_change pk) evs m)"
proof -
  let ?K = "set (concat (map (event_keys pk) evs))"
  let ?m = "fold (apply_change pk) evs m"
  obtain rs ds where l: "reduce_loop F pk 0 evs ([], []) = Inr (rs, ds)"
    and rows: "rows = map pr_row (sort_key pr_pos (map snd rs))" and dels: "dels = map pd_key (sort_key pd_pos (map snd ds))"
    using assms(1) by (auto simp: reduceEvents_def reduceEventsDetailed_def split: sum.splits)
  have inv: "batch_inv F pk ?K m ?m (map_get rs) (map_get ds)"
    using reduce_loop_inv [OF _ assms(3) _ assms(4,2) l, of m] by (simp add: batch_inv_init)
  have dist: "distinct (map fst rs)" "distinct (map fst ds)" using reduce_loop_distinct [OF l] by simp_all
  have "filter (\<lambda>row. key_cells row pk = Inr k) (write_batch pk T rows dels) =
    (case ?m k of None \<Rightarrow> [] | Some row \<Rightarrow> [row])" for k
  proof -
    have old: "filter (\<lambda>row. key_cells row pk = Inr k) (filter (\<lambda>row. \<forall>d \<in> set dels. key_cells d pk \<noteq> key_cells row pk) T) =
      (if k \<in> ?K \<and> map_get ds (key_hash F pk k) \<noteq> None then [] else case m k of None \<Rightarrow> [] | Some row \<Rightarrow> [row])"
      unfolding filter_kept batch_deletes_key [OF inv assms(3) dist(2), of k, folded dels]
      using assms(5) by (simp add: represents_def)
    note new = batch_rows_of_key [OF inv assms(3) dist(1), of k, folded rows]
    show ?thesis
    proof (cases "k \<in> ?K")
      case True
      then have "?m k = (case map_get rs (key_hash F pk k) of Some p \<Rightarrow> Some (pr_row p)
          | None \<Rightarrow> if map_get ds (key_hash F pk k) = None then m k else None)"
        "map_get rs (key_hash F pk k) \<noteq> None \<and> map_get ds (key_hash F pk k) = None \<longrightarrow> m k = None"
        using inv unfolding batch_inv_def by blast+
      then show ?thesis using True old new by (auto simp: write_batch_def split: option.splits if_splits)
    next
      case False
      then have "?m k = m k" using inv unfolding batch_inv_def by blast
      then show ?thesis using False old new by (auto simp: write_batch_def split: option.splits)
    qed
  qed
  then show ?thesis by (simp add: represents_def)
qed

text \<open>An event sets its keys to fixed values and leaves the others, whatever was there.\<close>

lemma history_key:
  "(\<exists>v. \<forall>m. fold (apply_change pk) evs m k = v) \<or> (\<forall>m. fold (apply_change pk) evs m k = m k)"
proof (induction evs rule: rev_induct)
  case (snoc ev evs)
  have "(\<exists>v. \<forall>m. apply_change pk ev m k = v) \<or> (\<forall>m. apply_change pk ev m k = m k)"
    by (auto simp: apply_change_def split: sum.splits)
  then show ?case using snoc by auto
qed simp

lemma history_repeated: "fold (apply_change pk) evs (fold (apply_change pk) evs m) = fold (apply_change pk) evs m"
proof
  fix k
  show "fold (apply_change pk) evs (fold (apply_change pk) evs m) k = fold (apply_change pk) evs m k"
    using history_key [of pk evs k] by metis
qed

definition keeps_keys :: "string list \<Rightarrow> event \<Rightarrow> bool" where
  "keeps_keys pk ev \<longleftrightarrow> (ev_type ev = EventTypeUpdate \<longrightarrow> key_cells (old_image ev) pk = key_cells (ev_data ev) pk)"

lemma keeps_keys_history: "list_all (keeps_keys pk) evs \<Longrightarrow> history_ok pk evs m"
  by (induction evs arbitrary: m) (auto simp: keeps_keys_def change_ok_def)

text \<open>
  Deleting the keys of a reduced batch and appending its rows leaves the table that applying the events one
  by one leaves, where the events' keys have different hashes and an update moves no row onto a key in use.
\<close>

theorem reduced_batch_is_history:
  assumes "reduceEvents F evs pk = Inr (rows, dels)" "distinct pk"
    "inj_on (key_hash F pk) (set (concat (map (event_keys pk) evs)))"
    "history_ok pk evs m" "represents pk T m"
  shows "represents pk (write_batch pk T rows dels) (fold (apply_change pk) evs m)"
  by (rule write_reduced [OF assms])

text \<open>
  Where no update changes a key, writing a batch again, after a restart from an older offset, leaves the
  table as it is: the events already in it have no further effect.
\<close>

theorem repeated_batch_harmless:
  assumes "reduceEvents F evs pk = Inr (rows, dels)" "distinct pk"
    "inj_on (key_hash F pk) (set (concat (map (event_keys pk) evs)))"
    "list_all (keeps_keys pk) evs" "represents pk T (fold (apply_change pk) (before @ evs) m)"
  shows "represents pk (write_batch pk T rows dels) (fold (apply_change pk) (before @ evs) m)"
  using write_reduced [OF assms(1-3) keeps_keys_history [OF assms(4)] assms(5)] by (simp add: history_repeated)

text \<open>Row 1 is changed and row 2 moves to key 3.\<close>

definition sample_format :: cell_format where
  "sample_format = \<lparr>cf_float = (\<lambda>_. []), cf_time = (\<lambda>_. [])\<rparr>"

definition sample_row :: "int \<Rightarrow> string \<Rightarrow> row_data" where
  "sample_row i s = [(''id'', CInt i), (''v'', CStr s)]"

definition sample_update :: "row_data \<Rightarrow> row_data \<Rightarrow> event" where
  "sample_update old new = blank_event\<lparr>ev_type := EventTypeUpdate, ev_data := new, ev_old := old\<rparr>"

definition sample_moves :: "event list" where
  "sample_moves = [sample_update (sample_row 1 ''a'') (sample_row 1 ''b''), sample_update (sample_row 2 ''c'') (sample_row 3 ''c'')]"

lemma sample_moves_reduced:
  "reduceEvents sample_format sample_moves [''id''] =
     Inr ([sample_row 1 ''b'', sample_row 3 ''c''], [[(''id'', CInt 1)], [(''id'', CInt 2)]])"
  by code_simp

lemma sample_moves_keys: "concat (map (event_keys [''id'']) sample_moves) = [[CInt 1], [CInt 1], [CInt 3], [CInt 2]]"
  by code_simp

lemma sample_hashes: "inj_on (key_hash sample_format [''id'']) {[CInt 1], [CInt 2], [CInt 3]}"
proof -
  have "key_hash sample_format [''id''] [CInt 1] = ''id=1''" "key_hash sample_format [''id''] [CInt 2] = ''id=2''"
    "key_hash sample_format [''id''] [CInt 3] = ''id=3''" by code_simp+
  then show ?thesis by (simp add: inj_on_def)
qed

definition sample_view :: key_view where
  "sample_view = [[CInt 1] \<mapsto> sample_row 1 ''a'', [CInt 2] \<mapsto> sample_row 2 ''c'']"

lemma sample_row_key: "key_cells (sample_row i s) [''id''] = Inr [CInt i]"
  by (simp add: sample_row_def lookupColumnValue_def map_get_def)

lemma sample_row_nonempty: "sample_row i s \<noteq> []"
  by (simp add: sample_row_def)

theorem reduced_batch_is_history_witness:
  "represents [''id'']
     (write_batch [''id''] [sample_row 1 ''a'', sample_row 2 ''c''] [sample_row 1 ''b'', sample_row 3 ''c''] [[(''id'', CInt 1)], [(''id'', CInt 2)]])
     (fold (apply_change [''id'']) sample_moves sample_view)"
proof (rule reduced_batch_is_history [OF sample_moves_reduced])
  show "inj_on (key_hash sample_format [''id'']) (set (concat (map (event_keys [''id'']) sample_moves)))"
    unfolding sample_moves_keys using sample_hashes by (auto simp: insert_commute)
  show "history_ok [''id''] sample_moves sample_view"
    by (simp add: sample_moves_def sample_update_def blank_event_def change_ok_def old_image_def apply_change_def sample_row_key
        sample_row_nonempty sample_view_def del: key_cells.simps)
  show "represents [''id''] [sample_row 1 ''a'', sample_row 2 ''c''] sample_view"
    by (auto simp: represents_def sample_row_key sample_view_def simp del: key_cells.simps)
qed simp

definition sample_change :: "event list" where
  "sample_change = [sample_update (sample_row 1 ''a'') (sample_row 1 ''b'')]"

theorem repeated_batch_harmless_witness:
  "represents [''id''] (write_batch [''id''] [sample_row 1 ''b'', sample_row 2 ''c''] [sample_row 1 ''b''] [[(''id'', CInt 1)]])
     (fold (apply_change [''id'']) ([] @ sample_change) sample_view)"
proof (rule repeated_batch_harmless [where F = sample_format])
  show "reduceEvents sample_format sample_change [''id''] = Inr ([sample_row 1 ''b''], [[(''id'', CInt 1)]])" by code_simp
  have "concat (map (event_keys [''id'']) sample_change) = [[CInt 1], [CInt 1]]" by code_simp
  then show "inj_on (key_hash sample_format [''id'']) (set (concat (map (event_keys [''id'']) sample_change)))" by simp
  show "list_all (keeps_keys [''id'']) sample_change"
    by (simp add: sample_change_def keeps_keys_def sample_update_def blank_event_def old_image_def sample_row_key sample_row_nonempty
        del: key_cells.simps)
  show "represents [''id''] [sample_row 1 ''b'', sample_row 2 ''c''] (fold (apply_change [''id'']) ([] @ sample_change) sample_view)"
    by (auto simp: sample_change_def represents_def sample_row_key sample_view_def apply_change_def sample_update_def blank_event_def
        old_image_def sample_row_nonempty simp del: key_cells.simps)
qed simp

text \<open>Without that restriction a batch written again keeps the row of a changed key and appends it once more.\<close>

lemma moved_key_repeated:
  "write_batch [''id''] [sample_row 1 ''b'', sample_row 3 ''c''] [sample_row 1 ''b'', sample_row 3 ''c''] [[(''id'', CInt 1)], [(''id'', CInt 2)]] =
     [sample_row 3 ''c'', sample_row 1 ''b'', sample_row 3 ''c'']"
  by code_simp

text \<open>Keys of different values may have one hash, and the batch then keeps one of the two rows.\<close>

lemma key_hash_collision:
  "key_hash F [''a'', ''b''] [CStr ''x|b=y'', CStr ''z''] = key_hash F [''a'', ''b''] [CStr ''x'', CStr ''y|b=z'']"
  by code_simp

text \<open>A value read as bytes and the same value as a string have different hashes.\<close>

lemma key_hash_of_bytes: "key_hash sample_format [''id''] [CBytes ''a''] \<noteq> key_hash sample_format [''id''] [CStr ''a'']"
  by code_simp

end
