(* ===== verification/Iceberg_Values.thy ===== *)
theory Iceberg_Values
  imports Iceberg_Rows Retry
begin

text \<open>
  Values of the Iceberg sink: the conversions of \<open>pkg/connectors/iceberg/arrow.go\<close> from what the source
  reads to what a column stores, the filter that selects the rows of a batch's keys, and MySQL's zero and partial
  dates (\<open>pkg/util/mysql_date.go\<close>). Parsing and formatting of times, floats and decimals are arguments.

  The lemmas show that an integer of the source reaches its column unchanged, what a corrected date keeps, and
  the values the conversions refuse or alter.
\<close>

section \<open>Conversions\<close>

record value_lib =
  vl_cell :: cell_format
  vl_parse_time :: "string \<Rightarrow> string \<Rightarrow> int option"
  vl_format_time :: "string \<Rightarrow> int \<Rightarrow> string"
  vl_parse_float :: "string \<Rightarrow> string + rat"
  vl_parse_decimal :: "string \<Rightarrow> int \<Rightarrow> int \<Rightarrow> string + rat"

abbreviation "layoutRFC3339Nano \<equiv> ''2006-01-02T15:04:05.999999999Z07:00''"
abbreviation "layoutRFC3339 \<equiv> ''2006-01-02T15:04:05Z07:00''"
abbreviation "layoutMicros \<equiv> ''2006-01-02 15:04:05.999999''"
abbreviation "layoutSeconds \<equiv> ''2006-01-02 15:04:05''"
abbreviation "layoutSecondsT \<equiv> ''2006-01-02T15:04:05''"
abbreviation "layoutDate \<equiv> ''2006-01-02''"

definition icebergToString :: "value_lib \<Rightarrow> cell \<Rightarrow> string" where
  "icebergToString L v =
     (case v of
        CNull \<Rightarrow> []
      | CStr s \<Rightarrow> s
      | CBytes s \<Rightarrow> s
      | CTime t \<Rightarrow> vl_format_time L layoutMicros t
      | _ \<Rightarrow> go_text (vl_cell L) v)"

definition toBytes :: "value_lib \<Rightarrow> cell \<Rightarrow> string" where
  "toBytes L v = (case v of CNull \<Rightarrow> [] | CBytes s \<Rightarrow> s | CStr s \<Rightarrow> s | _ \<Rightarrow> go_text (vl_cell L) v)"

text \<open>\<open>strconv.ParseBool\<close> and \<open>strconv.ParseInt (s, 10, 64)\<close>.\<close>

definition parse_bool :: "string \<Rightarrow> string + bool" where
  "parse_bool s =
     (if s \<in> {''1'', ''t'', ''T'', ''true'', ''TRUE'', ''True''} then Inr True
      else if s \<in> {''0'', ''f'', ''F'', ''false'', ''FALSE'', ''False''} then Inr False
      else Inl (''strconv.ParseBool: invalid syntax: '' @ s))"

definition parse_int64 :: "string \<Rightarrow> string + int" where
  "parse_int64 s = (case atoi s of None \<Rightarrow> Inl (''strconv.ParseInt: '' @ s) | Some i \<Rightarrow> Inr i)"

definition toBool :: "cell \<Rightarrow> string + bool" where
  "toBool v =
     (case v of
        CBool b \<Rightarrow> Inr b
      | CInt i \<Rightarrow> Inr (i \<noteq> 0)
      | CUint n \<Rightarrow> Inr (n \<noteq> 0)
      | CStr s \<Rightarrow> parse_bool (trim_space s)
      | CBytes s \<Rightarrow> parse_bool (trim_space s)
      | _ \<Rightarrow> Inl ''cannot convert to bool'')"

text \<open>A conversion between Go integers keeps the low bits; a float is cut off towards zero.\<close>

definition toInt64 :: "cell \<Rightarrow> string + int" where
  "toInt64 v =
     (case v of
        CInt i \<Rightarrow> Inr i
      | CUint n \<Rightarrow> Inr (wrap64 (int n))
      | CFloat q \<Rightarrow> Inr (if 0 \<le> q then \<lfloor>q\<rfloor> else \<lceil>q\<rceil>)
      | CStr s \<Rightarrow> parse_int64 (trim_space s)
      | CBytes s \<Rightarrow> parse_int64 (trim_space s)
      | _ \<Rightarrow> Inl ''cannot convert to int64'')"

definition toFloat64 :: "value_lib \<Rightarrow> cell \<Rightarrow> string + rat" where
  "toFloat64 L v =
     (case v of
        CFloat q \<Rightarrow> Inr q
      | CInt i \<Rightarrow> Inr (of_int i)
      | CUint n \<Rightarrow> Inr (of_nat n)
      | CStr s \<Rightarrow> vl_parse_float L (trim_space s)
      | CBytes s \<Rightarrow> vl_parse_float L (trim_space s)
      | _ \<Rightarrow> Inl ''cannot convert to float64'')"

fun first_parsed :: "(string \<Rightarrow> string \<Rightarrow> int option) \<Rightarrow> string list \<Rightarrow> string \<Rightarrow> int option" where
  "first_parsed parse [] raw = None"
| "first_parsed parse (l # ls) raw = (case parse l raw of Some t \<Rightarrow> Some t | None \<Rightarrow> first_parsed parse ls raw)"

definition parseTimeString :: "value_lib \<Rightarrow> string \<Rightarrow> string + int" where
  "parseTimeString L raw0 =
     (let raw = trim_space raw0 in
      case first_parsed (vl_parse_time L) [layoutRFC3339Nano, layoutMicros, layoutSeconds, layoutDate] raw of
        Some t \<Rightarrow> Inr t
      | None \<Rightarrow> Inl (''unsupported time value '' @ raw))"

definition toTime :: "value_lib \<Rightarrow> cell \<Rightarrow> string + int" where
  "toTime L v =
     (case v of
        CTime t \<Rightarrow> Inr t
      | CStr s \<Rightarrow> parseTimeString L s
      | CBytes s \<Rightarrow> parseTimeString L s
      | _ \<Rightarrow> Inl ''cannot convert to time'')"

section \<open>Zero and partial dates\<close>

text \<open>
  The four, two and two digits in front of the text, and what follows. A number of that many digits
  is printed with that width as it was, so only a component that is zero changes.
\<close>

definition date_prefix :: "string \<Rightarrow> (string \<times> string \<times> string \<times> string) option" where
  "date_prefix s =
     (let y = take 4 s; m = take 2 (drop 5 s); d = take 2 (drop 8 s); rest = drop 10 s in
      if 10 \<le> length s \<and> list_all is_digit (y @ m @ d) \<and> s ! 4 = CHR ''-'' \<and> s ! 7 = CHR ''-'' \<and> CHR 0x0A \<notin> set rest
      then Some (y, m, d, rest) else None)"

definition NormalizeMySQLPartialDate :: "string \<Rightarrow> string \<times> bool" where
  "NormalizeMySQLPartialDate raw =
     (case date_prefix (trim_space raw) of
        None \<Rightarrow> (raw, False)
      | Some (y, m, d, rest) \<Rightarrow>
          if y \<noteq> ''0000'' \<and> m \<noteq> ''00'' \<and> d \<noteq> ''00'' then (raw, False)
          else ((if y = ''0000'' then ''1970'' else y) @ ''-'' @ (if m = ''00'' then ''01'' else m) @ ''-'' @
                (if d = ''00'' then ''01'' else d) @ rest, True))"

definition isMySQLZeroDateString :: "string \<Rightarrow> bool" where
  "isMySQLZeroDateString raw0 \<longleftrightarrow>
     (let raw = trim_space raw0 in
      raw = ''0000-00-00'' \<or> has_prefix ''0000-00-00 '' raw \<or> has_prefix ''0000-00-00T'' raw)"

fun isMySQLZeroDateValue :: "cell \<Rightarrow> bool" where
  "isMySQLZeroDateValue (CStr s) = isMySQLZeroDateString s"
| "isMySQLZeroDateValue (CBytes s) = isMySQLZeroDateString s"
| "isMySQLZeroDateValue _ = False"

definition is_temporal :: "ice_type \<Rightarrow> bool" where
  "is_temporal ty \<longleftrightarrow> ty \<in> {TDate, TTimestamp, TTimestampTz, TTimestampNs, TTimestampTzNs}"

definition isMySQLZeroDateForType :: "ice_type \<Rightarrow> cell \<Rightarrow> bool" where
  "isMySQLZeroDateForType ty v \<longleftrightarrow> is_temporal ty \<and> isMySQLZeroDateValue v"

definition partial_text :: "cell \<Rightarrow> string option" where
  "partial_text v = (case v of CStr s \<Rightarrow> Some s | CBytes s \<Rightarrow> Some s | _ \<Rightarrow> None)"

text \<open>The value to use and whether it was a partial date; a column that may be null gets null.\<close>

definition normalizeMySQLPartialTemporalValue :: "cell \<Rightarrow> bool \<Rightarrow> cell \<times> bool" where
  "normalizeMySQLPartialTemporalValue v nullable =
     (case partial_text v of
        None \<Rightarrow> (v, False)
      | Some raw \<Rightarrow>
          (case NormalizeMySQLPartialDate raw of
             (fixed, True) \<Rightarrow> if nullable then (CNull, True) else (CStr fixed, True)
           | (fixed, False) \<Rightarrow> (v, False)))"

definition normalizeMySQLPartialTemporalValueForType :: "ice_type \<Rightarrow> cell \<Rightarrow> bool \<Rightarrow> cell \<times> bool" where
  "normalizeMySQLPartialTemporalValueForType ty v nullable =
     (if is_temporal ty then normalizeMySQLPartialTemporalValue v nullable else (v, False))"

section \<open>Columns\<close>

datatype arrow_value =
    ANull | ABool bool | AInt int | AFloat rat | AText string | ABinary string | ATimestamp int | ADate int | ADecimal rat

definition wrap32 :: "int \<Rightarrow> int" where
  "wrap32 x = (x + 2 ^ 31) mod 2 ^ 32 - 2 ^ 31"

text \<open>The days of a time, as \<open>arrow.Date32FromTime\<close> counts them; a time is in nanoseconds.\<close>

definition date32 :: "int \<Rightarrow> int" where
  "date32 t = t div 86400000000000"

text \<open>The builder of a column, chosen by the Arrow type the library gives an Iceberg type.\<close>

definition appendBuilderValue :: "value_lib \<Rightarrow> ice_type \<Rightarrow> bool \<Rightarrow> cell \<Rightarrow> string + arrow_value" where
  "appendBuilderValue L ty nullable v =
     (let as_time = (\<lambda>f. let w = fst (normalizeMySQLPartialTemporalValue v nullable) in
            if w = CNull then Inr ANull else map_sum id f (toTime L w)) in
      if v = CNull then Inr ANull
      else case ty of
        TBool \<Rightarrow> map_sum id ABool (toBool v)
      | TInt32 \<Rightarrow> map_sum id (\<lambda>i. AInt (wrap32 i)) (toInt64 v)
      | TInt64 \<Rightarrow> map_sum id AInt (toInt64 v)
      | TFloat32 \<Rightarrow> map_sum id AFloat (toFloat64 L v)
      | TFloat64 \<Rightarrow> map_sum id AFloat (toFloat64 L v)
      | TString \<Rightarrow> Inr (AText (icebergToString L v))
      | TBinary \<Rightarrow> Inr (ABinary (toBytes L v))
      | TDate \<Rightarrow> as_time (\<lambda>t. ADate (date32 t))
      | TDecimal p s \<Rightarrow> map_sum id ADecimal (vl_parse_decimal L (icebergToString L v) p s)
      | TOther name \<Rightarrow> Inl ''unsupported arrow type''
      | _ \<Rightarrow> as_time ATimestamp)"

fun build_row :: "value_lib \<Rightarrow> ice_field list \<Rightarrow> row_data \<Rightarrow> string + arrow_value list" where
  "build_row L [] row = Inr []"
| "build_row L (f # fs) row =
     (let v = (case lookupColumnValue row (if_name f) of None \<Rightarrow> CNull | Some v \<Rightarrow> v) in
      case appendBuilderValue L (if_type f) (\<not> if_required f) v of
        Inl e \<Rightarrow> Inl (''column '' @ if_name f @ '': '' @ e)
      | Inr a \<Rightarrow> (case build_row L fs row of Inl e \<Rightarrow> Inl e | Inr as \<Rightarrow> Inr (a # as)))"

fun buildRecordReader :: "value_lib \<Rightarrow> ice_schema \<Rightarrow> row_data list \<Rightarrow> string + arrow_value list list" where
  "buildRecordReader L sc [] = Inr []"
| "buildRecordReader L sc (row # rows) =
     (case build_row L (is_fields sc) row of
        Inl e \<Rightarrow> Inl e
      | Inr r \<Rightarrow> (case buildRecordReader L sc rows of Inl e \<Rightarrow> Inl e | Inr rs \<Rightarrow> Inr (r # rs)))"

section \<open>Key filters\<close>

text \<open>A literal before the library converts it to the column's type.\<close>

datatype key_literal = LBool bool | LInt int | LFloat rat | LText string | LBinary string

datatype key_predicate = PIsNull string | PEqual string ice_type key_literal

definition literalForTimestampValue :: "value_lib \<Rightarrow> cell \<Rightarrow> ice_type \<Rightarrow> string + key_literal" where
  "literalForTimestampValue L v ty =
     (if v = CNull then Inl ''nil literal is not allowed for key filters''
      else map_sum id (\<lambda>t. LText (vl_format_time L
             (if ty = TTimestamp then layoutSecondsT else if ty = TTimestampTz then layoutRFC3339 else layoutRFC3339Nano) t))
           (toTime L v))"

definition literalForDateValue :: "value_lib \<Rightarrow> cell \<Rightarrow> string + key_literal" where
  "literalForDateValue L v =
     (if v = CNull then Inl ''nil literal is not allowed for key filters''
      else map_sum id (\<lambda>t. LText (vl_format_time L layoutDate t)) (toTime L v))"

definition literalForValue :: "value_lib \<Rightarrow> ice_type \<Rightarrow> cell \<Rightarrow> string + key_literal" where
  "literalForValue L ty v =
     (if ty = TDate then literalForDateValue L v
      else if ty = TTimestamp \<or> ty = TTimestampTz then literalForTimestampValue L v ty
      else case v of
        CNull \<Rightarrow> Inl ''nil literal is not allowed for key filters''
      | CBool b \<Rightarrow> Inr (LBool b)
      | CInt i \<Rightarrow> Inr (LInt i)
      | CUint n \<Rightarrow> Inr (LInt (wrap64 (int n)))
      | CFloat q \<Rightarrow> Inr (LFloat q)
      | CStr s \<Rightarrow> Inr (LText s)
      | CBytes s \<Rightarrow> Inr (if ty = TBinary then LBinary s else LText s)
      | CTime t \<Rightarrow> Inr (LText (vl_format_time L layoutRFC3339Nano t)))"

definition key_predicate_of :: "value_lib \<Rightarrow> ice_schema \<Rightarrow> string \<times> cell \<Rightarrow> string + key_predicate" where
  "key_predicate_of L sc kv =
     (case find_field sc (fst kv) of
        None \<Rightarrow> Inl (''field '' @ fst kv @ '' not found in iceberg schema'')
      | Some f \<Rightarrow>
          (let (w, partial) = normalizeMySQLPartialTemporalValueForType (if_type f) (snd kv) (\<not> if_required f) in
           if partial \<and> w = CNull then Inr (PIsNull (if_name f))
           else (case literalForValue L (if_type f) w of
                   Inl e \<Rightarrow> Inl (''field '' @ fst kv @ '': '' @ e)
                 | Inr l \<Rightarrow> Inr (PEqual (if_name f) (if_type f) l))))"

fun all_inr :: "(string + 'a) list \<Rightarrow> string + 'a list" where
  "all_inr [] = Inr []"
| "all_inr (x # xs) = (case x of Inl e \<Rightarrow> Inl e | Inr y \<Rightarrow> (case all_inr xs of Inl e \<Rightarrow> Inl e | Inr ys \<Rightarrow> Inr (y # ys)))"

text \<open>A disjunction of conjunctions; no keys give no filter.\<close>

definition buildKeyFilter :: "value_lib \<Rightarrow> ice_schema \<Rightarrow> row_data list \<Rightarrow> string + key_predicate list list option" where
  "buildKeyFilter L sc keys =
     (if keys = [] then Inr None
      else map_sum id Some (all_inr (map (\<lambda>key. all_inr (map (key_predicate_of L sc) key)) keys)))"

section \<open>Integers arrive unchanged\<close>

lemma wrap32_id: "- (2 ^ 31) \<le> x \<Longrightarrow> x < 2 ^ 31 \<Longrightarrow> wrap32 x = x"
  by (simp add: wrap32_def)

lemma integer_column_types:
  "mysql_int_range (to_lower (trim_space (tc_data_type col))) u = Some r \<Longrightarrow>
   icebergTypeForColumn col \<in> {TBool, TInt32, TInt64, TDecimal 20 0}"
  by (auto simp: mysql_int_range_def icebergTypeForColumn_def Let_def split: if_splits)

text \<open>What a cell of an integer column holds.\<close>

definition int_cell :: "cell \<Rightarrow> int \<Rightarrow> bool" where
  "int_cell c v \<longleftrightarrow> c = CInt v \<or> 0 \<le> v \<and> c = CUint (nat v)"

lemma int_cell_text: "int_cell c v \<Longrightarrow> icebergToString L c = show_int v"
  by (auto simp: int_cell_def icebergToString_def show_int_def)

lemma int_cell_int64: "\<lbrakk>int_cell c v; - (2 ^ 63) \<le> v; v < 2 ^ 63\<rbrakk> \<Longrightarrow> toInt64 c = Inr v"
  by (auto simp: int_cell_def toInt64_def wrap64_id)

lemma int_cell_not_null: "int_cell c v \<Longrightarrow> c \<noteq> CNull"
  by (auto simp: int_cell_def)

text \<open>
  Every value of an integer column of MySQL, signed or unsigned, is stored as the same number: as an integer,
  or as a decimal for unsigned 64-bit columns, whose values exceed any Iceberg integer. Columns that become
  booleans are the exception.
\<close>

theorem integers_written_unchanged:
  assumes "mysql_int_range (to_lower (trim_space (tc_data_type col))) (str_contains ''unsigned'' (to_lower (tc_column_type col))) =
      Some (lo, hi)" "lo \<le> v" "v \<le> hi" "icebergTypeForColumn col \<noteq> TBool" "int_cell c v"
    and decimals: "\<And>n. \<bar>n\<bar> < 10 ^ 20 \<Longrightarrow> vl_parse_decimal L (show_int n) 20 0 = Inr (of_int n)"
  shows "appendBuilderValue L (icebergTypeForColumn col) nullable c \<in> {Inr (AInt v), Inr (ADecimal (of_int v))}"
proof -
  note fit = integer_columns_fit [OF assms(1-4)] and nn = int_cell_not_null [OF assms(5)]
  from integer_column_types [OF assms(1)] assms(4)
  consider "icebergTypeForColumn col = TInt32" | "icebergTypeForColumn col = TInt64" | "icebergTypeForColumn col = TDecimal 20 0"
    by blast
  then show ?thesis
  proof cases
    case 1
    with fit have r: "- (2 ^ 31) \<le> v" "v < 2 ^ 31" by (simp_all add: holds_int_def)
    then have "toInt64 c = Inr v" using int_cell_int64 [OF assms(5)] by simp
    then show ?thesis using 1 nn wrap32_id [OF r] by (simp add: appendBuilderValue_def Let_def)
  next
    case 2
    with fit have "toInt64 c = Inr v" using int_cell_int64 [OF assms(5)] by (simp add: holds_int_def)
    then show ?thesis using 2 nn by (simp add: appendBuilderValue_def Let_def)
  next
    case 3
    with fit have "vl_parse_decimal L (show_int v) 20 0 = Inr (of_int v)" using decimals [of v] by (simp add: holds_int_def)
    then show ?thesis using 3 nn by (simp add: appendBuilderValue_def Let_def int_cell_text [OF assms(5)])
  qed
qed

text \<open>A library whose times print as their seconds and whose decimals are integers.\<close>

definition sample_decimal :: "string \<Rightarrow> string + rat" where
  "sample_decimal s =
     (case s of
        [] \<Rightarrow> Inl s
      | c # cs \<Rightarrow>
          if c = CHR ''-'' then (case digits_value 0 cs of None \<Rightarrow> Inl s | Some n \<Rightarrow> Inr (- of_nat n))
          else (case digits_value 0 s of None \<Rightarrow> Inl s | Some n \<Rightarrow> Inr (of_nat n)))"

definition sample_lib :: value_lib where
  "sample_lib = \<lparr>vl_cell = sample_format, vl_parse_time = (\<lambda>l s. None), vl_format_time = (\<lambda>l t. show_int (t div 1000000000)),
     vl_parse_float = (\<lambda>s. Inr 0), vl_parse_decimal = (\<lambda>s p sc. sample_decimal s)\<rparr>"

lemma sample_decimal_int: "sample_decimal (show_int n) = Inr (of_int n)"
proof (cases "n < 0")
  case True
  then show ?thesis by (simp add: sample_decimal_def show_int_def digits_value_show_nat)
next
  case False
  obtain c cs where s: "show_nat (nat n) = c # cs" by (cases "show_nat (nat n)") auto
  then have "is_digit c" using show_nat_digits [of c "nat n"] by simp
  then have "c \<noteq> CHR ''-''" by (auto simp: is_digit_def)
  then show ?thesis using False digits_value_show_nat [of "nat n"] by (simp add: sample_decimal_def show_int_def s)
qed

theorem integers_written_unchanged_witness:
  "appendBuilderValue sample_lib (icebergTypeForColumn (sample_column ''n'' ''bigint'')) False (CUint (2 ^ 64 - 1))
     \<in> {Inr (AInt (2 ^ 64 - 1)), Inr (ADecimal (of_int (2 ^ 64 - 1)))}"
proof (rule integers_written_unchanged [where lo = 0 and hi = "2 ^ 64 - 1"])
  have "str_contains ''unsigned'' (to_lower (tc_column_type (sample_column ''n'' ''bigint'')))"
    "to_lower (trim_space (tc_data_type (sample_column ''n'' ''bigint''))) = ''bigint''" by code_simp+
  then show "mysql_int_range (to_lower (trim_space (tc_data_type (sample_column ''n'' ''bigint''))))
      (str_contains ''unsigned'' (to_lower (tc_column_type (sample_column ''n'' ''bigint'')))) = Some (0, 2 ^ 64 - 1)"
    by (simp add: mysql_int_range_def)
  show "icebergTypeForColumn (sample_column ''n'' ''bigint'') \<noteq> TBool" by code_simp
  show "int_cell (CUint (2 ^ 64 - 1)) (2 ^ 64 - 1)" by (simp add: int_cell_def)
  show "vl_parse_decimal sample_lib (show_int n) 20 0 = Inr (of_int n)" for n
    by (simp add: sample_lib_def sample_decimal_int)
qed simp_all

section \<open>Values refused or altered\<close>

text \<open>The driver returns the single bit of a \<open>BIT(1)\<close> column as a byte, which is no spelling of a boolean.\<close>

definition bit_column :: table_column where
  "bit_column = blank_column\<lparr>tc_name := ''b'', tc_data_type := ''bit'', tc_column_type := ''bit(1)''\<rparr>"

lemma bit_column_refused:
  "icebergTypeForColumn bit_column = TBool \<and>
   appendBuilderValue L (icebergTypeForColumn bit_column) nullable (CBytes [CHR 0x01]) = Inl (''strconv.ParseBool: invalid syntax: '' @ [CHR 0x01])"
proof -
  have "icebergTypeForColumn bit_column = TBool" by code_simp
  moreover have "toBool (CBytes [CHR 0x01]) = Inl (''strconv.ParseBool: invalid syntax: '' @ [CHR 0x01])" by code_simp
  ultimately show ?thesis by (simp add: appendBuilderValue_def Let_def)
qed

text \<open>An unsigned 64-bit key above the signed range becomes a negative literal of the filter.\<close>

lemma unsigned_key_negative: "literalForValue L (TDecimal 20 0) (CUint (2 ^ 64 - 1)) = Inr (LInt (- 1))"
  by (simp add: literalForValue_def wrap64_def)

text \<open>The literal of a time drops its fraction, so keys of one second are not told apart.\<close>

lemma key_time_fraction_dropped:
  "literalForValue sample_lib TTimestamp (CTime 1500000000) = literalForValue sample_lib TTimestamp (CTime 1000000000)"
  by (simp add: literalForValue_def literalForTimestampValue_def toTime_def sample_lib_def)

text \<open>A number beyond 32 bits loses its high bits in a 32-bit column.\<close>

lemma narrow_column_wraps: "appendBuilderValue L TInt32 nullable (CInt (2 ^ 31)) = Inr (AInt (- (2 ^ 31)))"
  by (simp add: appendBuilderValue_def Let_def toInt64_def wrap32_def)

section \<open>Corrected dates\<close>

lemma date_prefix_join:
  assumes "length y = 4" "length m = 2" "length d = 2" "list_all is_digit (y @ m @ d)" "CHR 0x0A \<notin> set rest"
  shows "date_prefix (y @ ''-'' @ m @ ''-'' @ d @ rest) = Some (y, m, d, rest)"
  using assms by (auto simp: date_prefix_def Let_def nth_append)

lemma date_prefix_Some:
  assumes "date_prefix s = Some (y, m, d, rest)"
  shows "length y = 4 \<and> length m = 2 \<and> length d = 2 \<and> list_all is_digit (y @ m @ d) \<and> CHR 0x0A \<notin> set rest \<and> rest = drop 10 s"
  using assms by (auto simp: date_prefix_def Let_def split: if_splits)

lemma trim_space_ends: "\<lbrakk>s \<noteq> []; \<not> is_space (hd s); \<not> is_space (List.last s)\<rbrakk> \<Longrightarrow> trim_space s = s"
  by (simp add: trim_space_def dropWhile_eq_self_iff [THEN iffD2] hd_rev)

lemma digit_no_space: "is_digit c \<Longrightarrow> \<not> is_space c"
  by (auto simp: is_digit_def is_space_def)

lemma last_trim_space: "trim_space s \<noteq> [] \<Longrightarrow> \<not> is_space (List.last (trim_space s))"
  using hd_dropWhile [of is_space "rev (dropWhile is_space s)"] by (auto simp: trim_space_def last_rev)

text \<open>A corrected date has no zero component left, so it is not corrected again.\<close>

lemma partial_date_settled:
  assumes "NormalizeMySQLPartialDate raw = (fixed, True)"
  shows "NormalizeMySQLPartialDate fixed = (fixed, False)"
proof -
  let ?t = "trim_space raw"
  from assms obtain y m d rest where p: "date_prefix ?t = Some (y, m, d, rest)"
    by (auto simp: NormalizeMySQLPartialDate_def split: option.splits)
  define y' where "y' = (if y = ''0000'' then ''1970'' else y)"
  define m' where "m' = (if m = ''00'' then ''01'' else m)"
  define d' where "d' = (if d = ''00'' then ''01'' else d)"
  have f: "fixed = y' @ ''-'' @ m' @ ''-'' @ d' @ rest"
    using assms p by (auto simp: NormalizeMySQLPartialDate_def y'_def m'_def d'_def split: if_splits)
  note q = date_prefix_Some [OF p]
  have len: "length y' = 4" "length m' = 2" "length d' = 2" using q by (auto simp: y'_def m'_def d'_def)
  have dig: "list_all is_digit (y' @ m' @ d')" using q by (auto simp: y'_def m'_def d'_def is_digit_def)
  have last: "\<not> is_space (List.last fixed)"
  proof (cases "rest = []")
    case True
    have "d' \<noteq> []" using len by auto
    then have "List.last fixed \<in> set d'" using True by (simp add: f)
    then show ?thesis using dig by (auto simp: list_all_iff digit_no_space)
  next
    case False
    then have "List.last fixed = List.last ?t" using q by (simp add: f last_drop)
    moreover have "?t \<noteq> []" using False q by auto
    ultimately show ?thesis using last_trim_space [of raw] by simp
  qed
  have "hd fixed \<in> set y'" using len by (cases y') (auto simp: f)
  then have "\<not> is_space (hd fixed)" using dig by (auto simp: list_all_iff digit_no_space)
  then have "trim_space fixed = fixed" using last by (intro trim_space_ends) (auto simp: f)
  moreover have "date_prefix fixed = Some (y', m', d', rest)" unfolding f by (rule date_prefix_join [OF len dig]) (use q in blast)
  moreover have "y' \<noteq> ''0000''" "m' \<noteq> ''00''" "d' \<noteq> ''00''" by (auto simp: y'_def m'_def d'_def)
  ultimately show ?thesis by (simp add: NormalizeMySQLPartialDate_def)
qed

end
