(* ===== verification/Iceberg_Targets.thy ===== *)
theory Iceberg_Targets
  imports Iceberg_Values Graph_Builder Commit_Guard "HOL-Library.List_Lexorder" "HOL-Library.Char_ord" "HOL-Library.Product_Lexorder"
begin

text \<open>
  Names and settings of the Iceberg sink (\<open>pkg/connectors/iceberg/sink.go\<close>): the normalised modes and executors
  with the checks of \<open>NewSink\<close>, the target of a source table, glob patterns, the tables a filter or a truncation
  applies to, primary keys, the write mode of a snapshot, and the SQL that is sent to Trino. Environment variables
  are an argument, as are the parsers of dates.

  The lemmas show that a glob matches what its regular expression matches, that the choice of an override does not
  depend on the order of a Go map, and that quoted names and literals are read back as they were.
\<close>

section \<open>Settings\<close>

record ice_target =
  tg_namespace :: string
  tg_table :: string

record replace_filter =
  fl_column :: string
  fl_op :: string
  fl_value :: string

record trino_config =
  tc_uri :: string
  tc_catalog :: string

record ice_config =
  ic_rest_uri :: string
  ic_catalog_uri :: string
  ic_catalog_name :: string
  ic_warehouse :: string
  ic_template :: string
  ic_default_namespace :: string
  ic_overrides :: "(string \<times> ice_target) list"
  ic_primary_keys :: "(string \<times> string list) list"
  ic_skip_without_pk :: bool
  ic_batch :: int
  ic_snapshot_batch :: int
  ic_write_mode :: string
  ic_replace_executor :: string
  ic_cdc_executor :: string
  ic_filters :: "(string \<times> replace_filter) list"
  ic_truncate :: "string list"
  ic_truncate_exclude :: "string list"
  ic_truncate_patterns :: bool
  ic_max_bytes :: int
  ic_flush :: int
  ic_checkpoint_flush :: int
  ic_save_interval :: int
  ic_idle :: int
  ic_trino :: trino_config
  ic_properties :: "(string \<times> string) list"
  ic_policy :: schema_policy

abbreviation "snapshotWriteModeAuto \<equiv> ''auto''"
abbreviation "snapshotWriteModeOverwrite \<equiv> ''overwrite''"
abbreviation "snapshotWriteModeDeleteAppend \<equiv> ''delete-append''"
abbreviation "snapshotWriteModeAppend \<equiv> ''append''"
abbreviation "snapshotWriteModeReplaceFilterAppend \<equiv> ''replace-filter-append''"
abbreviation "snapshotWriteModeTruncateAppend \<equiv> ''truncate-append''"
abbreviation "executorNative \<equiv> ''native''"
abbreviation "executorTrino \<equiv> ''trino''"
abbreviation "executorEquality \<equiv> ''equality''"

definition normalizeSnapshotWriteMode :: "string \<Rightarrow> string" where
  "normalizeSnapshotWriteMode mode =
     (let m = to_lower (trim_space mode) in if m = [] then snapshotWriteModeOverwrite else m)"

definition normalizeSnapshotReplaceDeleteExecutor :: "string \<Rightarrow> string" where
  "normalizeSnapshotReplaceDeleteExecutor executor =
     (let e = to_lower (trim_space executor) in if e = [] then executorNative else e)"

definition isValidSnapshotReplaceDeleteExecutor :: "string \<Rightarrow> bool" where
  "isValidSnapshotReplaceDeleteExecutor e \<longleftrightarrow> normalizeSnapshotReplaceDeleteExecutor e \<in> {executorNative, executorTrino}"

definition isValidCDCDeleteExecutor :: "string \<Rightarrow> bool" where
  "isValidCDCDeleteExecutor e \<longleftrightarrow>
     normalizeSnapshotReplaceDeleteExecutor e \<in> {executorNative, executorTrino, executorEquality}"

definition isValidSnapshotWriteMode :: "string \<Rightarrow> bool" where
  "isValidSnapshotWriteMode mode \<longleftrightarrow>
     normalizeSnapshotWriteMode mode \<in> {snapshotWriteModeAuto, snapshotWriteModeOverwrite, snapshotWriteModeDeleteAppend,
       snapshotWriteModeAppend, snapshotWriteModeReplaceFilterAppend, snapshotWriteModeTruncateAppend}"

text \<open>The empty string stands for no executor: deletes by key are then refused.\<close>

definition cdcKeyDeleteExecutor :: "ice_config \<Rightarrow> string" where
  "cdcKeyDeleteExecutor cfg =
     (let e = normalizeSnapshotReplaceDeleteExecutor (ic_cdc_executor cfg) in
      if e = executorTrino \<or> e = executorEquality then e
      else if e = executorNative \<and> trim_space (tc_uri (ic_trino cfg)) \<noteq> [] then executorTrino
      else [])"

definition unsupportedNativeKeyDeleteError :: "string \<Rightarrow> string \<Rightarrow> go_error" where
  "unsupportedNativeKeyDeleteError kind sourceKey =
     (let guidance = (if kind = ''CDC''
        then ''a Trino delete executor, or explicit cdc_delete_executor: equality for isolated compatibility testing''
        else ''a Trino delete executor'') in
      permanent (new_error (kind @ '' key delete for '' @ sourceKey @ '' requires '' @ guidance @
        ''; implicit native equality delete is disabled so compatibility testing is intentional'')))"

definition validateSnapshotTruncateConfig :: "ice_config \<Rightarrow> string option" where
  "validateSnapshotTruncateConfig cfg =
     (if ic_truncate_patterns cfg then None
      else map_option (\<lambda>p. ''snapshot_truncate_tables entry uses a wildcard: '' @ p)
        (List.find (\<lambda>p. contains_any p ''*?'') (ic_truncate cfg)))"

text \<open>The settings as \<open>newSinkWithRebuildMode\<close> keeps them, or why it refuses them.\<close>

definition sink_settings :: "ice_config \<Rightarrow> string + ice_config" where
  "sink_settings cfg0 =
     (let cfg = cfg0\<lparr>ic_write_mode := normalizeSnapshotWriteMode (ic_write_mode cfg0),
            ic_replace_executor := normalizeSnapshotReplaceDeleteExecutor (ic_replace_executor cfg0),
            ic_cdc_executor := normalizeSnapshotReplaceDeleteExecutor (ic_cdc_executor cfg0)\<rparr> in
      if \<not> isValidSnapshotWriteMode (ic_write_mode cfg)
      then Inl (''invalid iceberg snapshot_write_mode '' @ ic_write_mode cfg)
      else if \<not> isValidSnapshotReplaceDeleteExecutor (ic_replace_executor cfg)
      then Inl (''invalid iceberg snapshot_replace_delete_executor '' @ ic_replace_executor cfg)
      else if \<not> isValidCDCDeleteExecutor (ic_cdc_executor cfg)
      then Inl (''invalid iceberg cdc_delete_executor '' @ ic_cdc_executor cfg)
      else if (ic_replace_executor cfg = executorTrino \<or> ic_cdc_executor cfg = executorTrino) \<and> trim_space (tc_uri (ic_trino cfg)) = []
      then Inl ''iceberg trino delete executor requires trino_delete.uri''
      else case validateSnapshotTruncateConfig cfg of Some e \<Rightarrow> Inl e | None \<Rightarrow> Inr cfg)"

subsection \<open>The catalog\<close>

type_synonym env_vars = "string \<Rightarrow> string"

abbreviation "defaultIcebergRESTURI \<equiv> ''http://gravitino:9001/iceberg''"
abbreviation "defaultIcebergCatalogName \<equiv> ''raw''"

definition catalogRESTURI :: "env_vars \<Rightarrow> ice_config \<Rightarrow> string" where
  "catalogRESTURI env cfg =
     firstNonEmpty [ic_rest_uri cfg, ic_catalog_uri cfg, env ''ICEBERG_REST_URI'', env ''ICEBERG_CATALOG_URI'', defaultIcebergRESTURI]"

definition applyCatalogWarehouseTemplate :: "string \<Rightarrow> string \<Rightarrow> string + string" where
  "applyCatalogWarehouseTemplate template catalogName =
     (if contains_any (replace_all ''{catalog}'' [] template) ''{}''
      then Inl ''iceberg warehouse_template only supports the {catalog} placeholder''
      else let warehouse = trim_space (replace_all ''{catalog}'' (trim_space catalogName) template) in
        if warehouse = [] then Inl ''iceberg warehouse_template resolved to an empty warehouse'' else Inr warehouse)"

definition catalogWarehouse :: "env_vars \<Rightarrow> ice_config \<Rightarrow> string + string" where
  "catalogWarehouse env cfg =
     (if trim_space (ic_warehouse cfg) \<noteq> [] then Inr (trim_space (ic_warehouse cfg))
      else let catalogName = firstNonEmpty [ic_catalog_name cfg, env ''ICEBERG_CATALOG_NAME'', defaultIcebergCatalogName];
               template = firstNonEmpty [ic_template cfg, env ''ICEBERG_WAREHOUSE_TEMPLATE''] in
        if template \<noteq> [] then applyCatalogWarehouseTemplate template catalogName
        else Inr (firstNonEmpty [env ''ICEBERG_WAREHOUSE'', catalogName]))"

definition parseBoolEnvValue :: "string \<Rightarrow> string \<Rightarrow> string + bool" where
  "parseBoolEnvValue name raw =
     (let v = to_lower (trim_space raw) in
      if v \<in> {''1'', ''true'', ''yes'', ''on''} then Inr True
      else if v \<in> {''0'', ''false'', ''no'', ''off''} then Inr False
      else Inl (name @ '' must be one of true/false, 1/0, yes/no, on/off; got '' @ raw))"

definition icebergOperationError :: "string \<Rightarrow> bool \<Rightarrow> go_error \<Rightarrow> go_error" where
  "icebergOperationError action unauthorized err =
     (let raw = trim_space (er_text err); blank = (raw = [] \<or> raw = '':'') in
      if unauthorized
      then (if blank
            then new_error (action @ '': unauthorized response with an empty body; verify credential/oauth_token, scope, and catalog permissions: unauthorized'')
            else wrap_error (action @ '': unauthorized; verify credential/oauth_token, scope, and catalog permissions: '') err)
      else if blank then wrap_error (action @ '': REST catalog returned an empty error response: '') err
      else wrap_error (action @ '': '') err)"

section \<open>Names and patterns\<close>

definition tableKey :: "string \<Rightarrow> string \<Rightarrow> string" where
  "tableKey schema table = to_lower (trim_space schema @ ''.'' @ trim_space table)"

definition sameTarget :: "string \<Rightarrow> string \<Rightarrow> bool" where
  "sameTarget left right \<longleftrightarrow> equal_fold (trim_space left) (trim_space right)"

definition splitOverrideKey :: "string \<Rightarrow> (string \<times> string) option" where
  "splitOverrideKey key =
     (case Rebuild_Config.split_on CHR ''.'' (to_lower (trim_space key)) of
        [a, b] \<Rightarrow> if trim_space a = [] \<or> trim_space b = [] then None else Some (trim_space a, trim_space b)
      | _ \<Rightarrow> None)"

text \<open>\<open>strings.Index\<close>.\<close>

fun str_index :: "string \<Rightarrow> string \<Rightarrow> nat option" where
  "str_index p [] = (if p = [] then Some 0 else None)"
| "str_index p (c # s) = (if has_prefix p (c # s) then Some 0 else map_option Suc (str_index p s))"

fun glob_parts :: "bool \<Rightarrow> string list \<Rightarrow> string \<Rightarrow> bool" where
  "glob_parts first' [] v = True"
| "glob_parts first' (p # ps) v =
     (if p = [] then glob_parts False ps v
      else case str_index p v of
        None \<Rightarrow> False
      | Some i \<Rightarrow> if first' \<and> i \<noteq> 0 then False else glob_parts False ps (drop (i + length p) v))"

definition has_suffix :: "string \<Rightarrow> string \<Rightarrow> bool" where
  "has_suffix p s \<longleftrightarrow> length p \<le> length s \<and> drop (length s - length p) s = p"

definition matchGlob :: "string \<Rightarrow> string \<Rightarrow> bool" where
  "matchGlob pattern0 value0 \<longleftrightarrow>
     (let pattern = to_lower (trim_space pattern0); v = to_lower (trim_space value0) in
      if pattern = [] \<or> pattern = ''*'' then True
      else if CHR ''*'' \<notin> set pattern then pattern = v
      else (let parts = Rebuild_Config.split_on CHR ''*'' pattern in
            glob_parts True parts v \<and> (List.last parts = [] \<or> has_suffix (List.last parts) v)))"

definition matchSourceOverrideKey :: "string \<Rightarrow> string \<Rightarrow> string \<Rightarrow> bool" where
  "matchSourceOverrideKey patternKey srcSchema srcTable \<longleftrightarrow>
     (case splitOverrideKey patternKey of
        None \<Rightarrow> matchGlob patternKey srcTable
      | Some (s, t) \<Rightarrow> matchGlob s srcSchema \<and> matchGlob t srcTable)"

definition globSpecificity :: "string \<Rightarrow> nat" where
  "globSpecificity pattern = length (filter (\<lambda>c. c \<noteq> CHR ''*'') pattern)"

text \<open>The entry of the table itself, or of the most specific pattern, the least in the order of strings among equals.\<close>

definition best_match :: "string \<Rightarrow> string \<Rightarrow> string \<Rightarrow> (string \<times> 'v) list \<Rightarrow> 'v option" where
  "best_match sourceKey srcSchema srcTable entries =
     (case map_get entries sourceKey of
        Some v \<Rightarrow> Some v
      | None \<Rightarrow>
          (case sort_key (\<lambda>k. (- int (globSpecificity k), k))
                  (filter (\<lambda>k. matchSourceOverrideKey k srcSchema srcTable) (map fst entries)) of
             [] \<Rightarrow> None
           | k # _ \<Rightarrow> map_get entries k))"

definition resolveTargetOverride :: "ice_config \<Rightarrow> string \<Rightarrow> string \<Rightarrow> string \<Rightarrow> ice_target option" where
  "resolveTargetOverride cfg sourceKey srcSchema srcTable = best_match sourceKey srcSchema srcTable (ic_overrides cfg)"

definition ResolveTarget :: "ice_config \<Rightarrow> string \<Rightarrow> string \<Rightarrow> string \<times> string" where
  "ResolveTarget cfg srcSchema srcTable =
     (let ns = (if ic_default_namespace cfg \<noteq> [] then ic_default_namespace cfg else trim_space srcSchema);
          tbl = trim_space srcTable in
      case resolveTargetOverride cfg (tableKey srcSchema srcTable) srcSchema srcTable of
        None \<Rightarrow> (ns, tbl)
      | Some t \<Rightarrow> (if trim_space (tg_namespace t) \<noteq> [] then trim_space (tg_namespace t) else ns,
                   if trim_space (tg_table t) \<noteq> [] then trim_space (tg_table t) else tbl))"

definition snapshotTablePatternMatches :: "string \<Rightarrow> string \<Rightarrow> string \<Rightarrow> string \<Rightarrow> bool \<Rightarrow> bool" where
  "snapshotTablePatternMatches pattern sourceKey srcSchema srcTable allowPattern \<longleftrightarrow>
     pattern = sourceKey \<or> allowPattern \<and> matchSourceOverrideKey pattern srcSchema srcTable"

definition primaryKeysFor :: "ice_config \<Rightarrow> string \<Rightarrow> table_schema \<Rightarrow> string + string list" where
  "primaryKeysFor cfg sourceKey schema =
     (case map_get (ic_primary_keys cfg) sourceKey of
        Some (k # ks) \<Rightarrow> Inr (k # ks)
      | _ \<Rightarrow> (let keys = map tc_name (filter tc_pk (ts_columns schema)) in
             if keys = [] then Inl (''iceberg_native requires primary keys for '' @ sourceKey) else Inr keys))"

section \<open>The write mode of a snapshot\<close>

record table_info =
  ti_key :: string
  ti_schema :: "table_schema option"
  ti_append_safe :: bool

definition snapshotReplaceFilterForState :: "ice_config \<Rightarrow> table_info \<Rightarrow> replace_filter option" where
  "snapshotReplaceFilterForState cfg st =
     (case ti_schema st of
        None \<Rightarrow> None
      | Some sc \<Rightarrow> best_match (ti_key st) (ts_schema sc) (ts_table sc) (ic_filters cfg))"

definition snapshotTruncateForState :: "ice_config \<Rightarrow> table_info \<Rightarrow> bool" where
  "snapshotTruncateForState cfg st =
     (case ti_schema st of
        None \<Rightarrow> False
      | Some sc \<Rightarrow>
          \<not> list_ex (\<lambda>p. snapshotTablePatternMatches p (ti_key st) (ts_schema sc) (ts_table sc) True) (ic_truncate_exclude cfg) \<and>
          list_ex (\<lambda>p. snapshotTablePatternMatches p (ti_key st) (ts_schema sc) (ts_table sc) (ic_truncate_patterns cfg)) (ic_truncate cfg))"

definition snapshotWriteModeForTableState :: "ice_config \<Rightarrow> table_info \<Rightarrow> string" where
  "snapshotWriteModeForTableState cfg st =
     (let mode = normalizeSnapshotWriteMode (ic_write_mode cfg) in
      if mode \<noteq> snapshotWriteModeAuto then mode
      else if ti_append_safe st then snapshotWriteModeAppend
      else if snapshotReplaceFilterForState cfg st \<noteq> None then snapshotWriteModeReplaceFilterAppend
      else if snapshotTruncateForState cfg st then snapshotWriteModeTruncateAppend
      else snapshotWriteModeDeleteAppend)"

definition shouldCountSnapshotAutoTarget :: "ice_config \<Rightarrow> table_info \<Rightarrow> bool" where
  "shouldCountSnapshotAutoTarget cfg st \<longleftrightarrow>
     normalizeSnapshotWriteMode (ic_write_mode cfg) = snapshotWriteModeAuto \<and> \<not> ti_append_safe st \<and>
     snapshotReplaceFilterForState cfg st = None \<and> \<not> snapshotTruncateForState cfg st"

section \<open>Statements for Trino\<close>

definition double_char :: "char \<Rightarrow> string \<Rightarrow> string" where
  "double_char q s = concat (map (\<lambda>c. if c = q then [q, q] else [c]) s)"

definition quoteTrinoIdentifier :: "string \<Rightarrow> string" where
  "quoteTrinoIdentifier s = [CHR 0x22] @ double_char (CHR 0x22) s @ [CHR 0x22]"

definition quoteTrinoStringLiteral :: "string \<Rightarrow> string" where
  "quoteTrinoStringLiteral s = [CHR 0x27] @ double_char (CHR 0x27) s @ [CHR 0x27]"

definition quoteTrinoQualifiedName :: "string list \<Rightarrow> string" where
  "quoteTrinoQualifiedName parts = str_join ''.'' (map quoteTrinoIdentifier parts)"

definition trino_catalog :: "ice_config \<Rightarrow> string + string" where
  "trino_catalog cfg =
     (let c = trim_space (tc_catalog (ic_trino cfg)); c = (if c = [] then trim_space (ic_warehouse cfg) else c) in
      if c = [] then Inl ''iceberg trino_delete.catalog is empty and warehouse fallback is empty'' else Inr c)"

definition trinoSnapshotReplaceFilterOperator :: "string \<Rightarrow> string + string" where
  "trinoSnapshotReplaceFilterOperator raw =
     (let op = trim_space (to_lower raw) in
      if op \<in> {''='', ''=='', ''eq''} then Inr ''=''
      else if op \<in> {''!='', ''<>'', ''ne'', ''neq''} then Inr ''<>''
      else if op \<in> {''>'', ''gt''} then Inr ''>''
      else if op \<in> {''>='', ''gte'', ''gteq''} then Inr ''>=''
      else if op \<in> {''<'', ''lt''} then Inr ''<''
      else if op \<in> {''<='', ''lte'', ''lteq''} then Inr ''<=''
      else Inl (''unsupported snapshot replace filter op '' @ raw))"

definition normalizeTrinoDateLiteral :: "value_lib \<Rightarrow> string \<Rightarrow> string + string" where
  "normalizeTrinoDateLiteral L v =
     (if 10 \<le> length v \<and> vl_parse_time L layoutDate (take 10 v) \<noteq> None then Inr (take 10 v)
      else map_sum id (vl_format_time L layoutDate) (toTime L (CStr v)))"

definition trim_suffix :: "string \<Rightarrow> string \<Rightarrow> string" where
  "trim_suffix p s = (if has_suffix p s then take (length s - length p) s else s)"

text \<open>Seven characters from the point on: the point and six digits.\<close>

definition clip_fraction :: "string \<Rightarrow> string" where
  "clip_fraction s =
     (case str_index ''.'' s of None \<Rightarrow> s | Some dot \<Rightarrow> if dot + 7 < length s then take (dot + 7) s else s)"

definition normalizeTrinoTimestampLiteral :: "value_lib \<Rightarrow> string \<Rightarrow> string + string" where
  "normalizeTrinoTimestampLiteral L v0 =
     (let v1 = trim_suffix ''Z'' (replace_all ''T'' '' '' v0);
          v2 = (if length v1 = 10 then v1 @ '' 00:00:00'' else v1);
          v = clip_fraction v2 in
      if vl_parse_time L layoutMicros v \<noteq> None \<or> vl_parse_time L layoutSeconds v \<noteq> None then Inr v
      else if vl_parse_time L layoutDate v \<noteq> None then Inr (v @ '' 00:00:00'')
      else map_sum id (vl_format_time L layoutSeconds) (toTime L (CStr v)))"

definition trinoLiteralForValue :: "value_lib \<Rightarrow> ice_type \<Rightarrow> string \<Rightarrow> string + string" where
  "trinoLiteralForValue L ty raw =
     (let v = trim_space raw in
      if v = [] then Inl ''empty literal is not allowed for snapshot replace filter''
      else case ty of
        TDate \<Rightarrow> map_sum id (\<lambda>d. ''DATE '' @ quoteTrinoStringLiteral d) (normalizeTrinoDateLiteral L v)
      | TBool \<Rightarrow> if to_lower v = ''true'' \<or> to_lower v = ''false'' then Inr (to_lower v) else Inl (''invalid boolean literal '' @ raw)
      | TString \<Rightarrow> Inr (quoteTrinoStringLiteral v)
      | TBinary \<Rightarrow> Inl ''unsupported trino snapshot replace filter type''
      | TOther name \<Rightarrow> if name = ''uuid'' then Inr (quoteTrinoStringLiteral v) else Inl ''unsupported trino snapshot replace filter type''
      | t \<Rightarrow> if is_temporal t
            then map_sum id (\<lambda>d. ''TIMESTAMP '' @ quoteTrinoStringLiteral d) (normalizeTrinoTimestampLiteral L v)
            else if contains_any v [CHR 0x27, CHR 0x22, CHR '';''] then Inl (''invalid numeric literal '' @ raw) else Inr v)"

definition trinoLiteralForAny :: "value_lib \<Rightarrow> ice_type \<Rightarrow> cell \<Rightarrow> string + string" where
  "trinoLiteralForAny L ty v =
     (if v = CNull then Inl ''nil literal is not allowed for key delete''
      else case ty of
        TDate \<Rightarrow> map_sum id (\<lambda>t. ''DATE '' @ quoteTrinoStringLiteral (vl_format_time L layoutDate t)) (toTime L v)
      | TString \<Rightarrow> Inr (quoteTrinoStringLiteral (icebergToString L v))
      | TBool \<Rightarrow> map_sum id (\<lambda>b. if b then ''true'' else ''false'') (toBool v)
      | TInt32 \<Rightarrow> map_sum id show_int (toInt64 v)
      | TInt64 \<Rightarrow> map_sum id show_int (toInt64 v)
      | TFloat32 \<Rightarrow> map_sum id (cf_float (vl_cell L)) (toFloat64 L v)
      | TFloat64 \<Rightarrow> map_sum id (cf_float (vl_cell L)) (toFloat64 L v)
      | TDecimal p s \<Rightarrow> Inr (case v of CBytes b \<Rightarrow> b | _ \<Rightarrow> go_text (vl_cell L) v)
      | TBinary \<Rightarrow> Inl ''unsupported trino key delete type''
      | TOther name \<Rightarrow> if name = ''uuid'' then Inr (quoteTrinoStringLiteral (icebergToString L v)) else Inl ''unsupported trino key delete type''
      | _ \<Rightarrow> map_sum id (\<lambda>t. ''TIMESTAMP '' @ quoteTrinoStringLiteral (vl_format_time L layoutSeconds t)) (toTime L v))"

text \<open>The statement and the text that describes its filter.\<close>

definition snapshotReplaceFilterTrinoSQL ::
  "value_lib \<Rightarrow> ice_config \<Rightarrow> table_info \<Rightarrow> string \<Rightarrow> string \<Rightarrow> ice_schema \<Rightarrow> string + (string \<times> string)" where
  "snapshotReplaceFilterTrinoSQL L cfg st ns tbl sc =
     (case snapshotReplaceFilterForState cfg st of
        None \<Rightarrow> Inl (''snapshot_write_mode replace-filter-append requires snapshot_replace_filters entry for '' @ ti_key st)
      | Some f \<Rightarrow>
     (case find_field sc (fl_column f) of
        None \<Rightarrow> Inl (''snapshot replace filter field not found in iceberg schema for '' @ ti_key st)
      | Some field \<Rightarrow>
     (case trinoSnapshotReplaceFilterOperator (fl_op f) of
        Inl e \<Rightarrow> Inl e
      | Inr op \<Rightarrow>
     (case trinoLiteralForValue L (if_type field) (fl_value f) of
        Inl e \<Rightarrow> Inl (''snapshot replace filter field '' @ if_name field @ '': '' @ e)
      | Inr lit \<Rightarrow>
     (case trino_catalog cfg of
        Inl e \<Rightarrow> Inl e
      | Inr cat \<Rightarrow>
          Inr (''DELETE FROM '' @ quoteTrinoQualifiedName [cat, ns, tbl] @ '' WHERE '' @ quoteTrinoIdentifier (if_name field) @ '' '' @
                 op @ '' '' @ lit,
               if_name field @ '' '' @ fl_op f @ '' '' @ fl_value f))))))"

definition snapshotTruncateTrinoSQL :: "ice_config \<Rightarrow> string \<Rightarrow> string \<Rightarrow> string + string" where
  "snapshotTruncateTrinoSQL cfg ns tbl =
     (case trino_catalog cfg of
        Inl e \<Rightarrow> Inl e
      | Inr cat \<Rightarrow>
          if trim_space ns = [] \<or> trim_space tbl = [] then Inl ''target table is incomplete for snapshot truncate''
          else Inr (''DELETE FROM '' @ quoteTrinoQualifiedName [cat, ns, tbl]))"

definition key_condition :: "value_lib \<Rightarrow> ice_schema \<Rightarrow> string \<times> cell \<Rightarrow> string + string" where
  "key_condition L sc kv =
     (case find_field sc (fst kv) of
        None \<Rightarrow> Inl (''field '' @ fst kv @ '' not found in iceberg schema'')
      | Some f \<Rightarrow>
          (let q = quoteTrinoIdentifier (if_name f);
               (w, partial) = normalizeMySQLPartialTemporalValueForType (if_type f) (snd kv) (\<not> if_required f) in
           if partial \<and> w = CNull then Inr (q @ '' IS NULL'')
           else (case trinoLiteralForAny L (if_type f) w of
                   Inl e \<Rightarrow> Inl (''field '' @ if_name f @ '': '' @ e)
                 | Inr lit \<Rightarrow> Inr (q @ '' = '' @ lit))))"

definition key_disjunct :: "value_lib \<Rightarrow> ice_schema \<Rightarrow> string \<Rightarrow> row_data \<Rightarrow> string + string" where
  "key_disjunct L sc sourceKey key =
     (case all_inr (map (key_condition L sc) key) of
        Inl e \<Rightarrow> Inl e
      | Inr parts \<Rightarrow> if parts = [] then Inl (''empty delete key for '' @ sourceKey)
                     else Inr (''('' @ str_join '' AND '' (sort parts) @ '')''))"

definition keyDeleteTrinoSQL ::
  "value_lib \<Rightarrow> ice_config \<Rightarrow> string \<Rightarrow> string \<Rightarrow> string \<Rightarrow> ice_schema \<Rightarrow> row_data list \<Rightarrow> string + string" where
  "keyDeleteTrinoSQL L cfg sourceKey ns tbl sc keys =
     (if keys = [] then Inl ''key delete requires at least one key''
      else case trino_catalog cfg of
        Inl e \<Rightarrow> Inl e
      | Inr cat \<Rightarrow>
          (case all_inr (map (key_disjunct L sc sourceKey) keys) of
             Inl e \<Rightarrow> Inl e
           | Inr ps \<Rightarrow> Inr (''DELETE FROM '' @ quoteTrinoQualifiedName [cat, ns, tbl] @ '' WHERE '' @ str_join '' OR '' ps)))"

section \<open>Reading quoted text back\<close>

text \<open>A reader of SQL: behind the opening quote, up to a quote that is not doubled; the rest follows.\<close>

fun read_quoted :: "char \<Rightarrow> string \<Rightarrow> (string \<times> string) option" where
  "read_quoted q [] = None"
| "read_quoted q [c] = (if c = q then Some ([], []) else None)"
| "read_quoted q (c # d # s) =
     (if c \<noteq> q then map_option (\<lambda>(w, r). (c # w, r)) (read_quoted q (d # s))
      else if d = q then map_option (\<lambda>(w, r). (q # w, r)) (read_quoted q s)
      else Some ([], d # s))"

fun read_name :: "string \<Rightarrow> (string \<times> string) option" where
  "read_name [] = None"
| "read_name (c # s) = (if c = CHR 0x22 then read_quoted c s else None)"

lemma read_quoted_cons: "c \<noteq> q \<Longrightarrow> read_quoted q (c # s) = map_option (\<lambda>(w, r). (c # w, r)) (read_quoted q s)"
  by (cases s) simp_all

lemma quoted_read_back:
  "rest = [] \<or> hd rest \<noteq> q \<Longrightarrow> read_quoted q (double_char q s @ q # rest) = Some (s, rest)"
proof (induction s)
  case Nil
  then show ?case by (cases rest) (auto simp: double_char_def)
next
  case (Cons c s)
  then show ?case by (cases "c = q") (simp_all add: double_char_def read_quoted_cons)
qed

lemma read_name_quoted: "rest = [] \<or> hd rest \<noteq> CHR 0x22 \<Longrightarrow> read_name (quoteTrinoIdentifier s @ rest) = Some (s, rest)"
  using quoted_read_back [of rest "CHR 0x22" s] by (simp add: quoteTrinoIdentifier_def)

text \<open>
  A statement that deletes keys names exactly the catalog, namespace and table it is for, whatever characters
  they contain: reading the three quoted names back gives them, and the condition follows.
\<close>

theorem delete_statement_target:
  assumes "keyDeleteTrinoSQL L cfg sourceKey ns tbl sc keys = Inr q"
  shows "\<exists>cat s1 s2 s3 cond. trino_catalog cfg = Inr cat \<and> q = ''DELETE FROM '' @ s1 \<and> read_name s1 = Some (cat, ''.'' @ s2) \<and>
    read_name s2 = Some (ns, ''.'' @ s3) \<and> read_name s3 = Some (tbl, '' WHERE '' @ cond)"
proof -
  from assms obtain cat ps where c: "trino_catalog cfg = Inr cat"
    and q: "q = ''DELETE FROM '' @ quoteTrinoQualifiedName [cat, ns, tbl] @ '' WHERE '' @ str_join '' OR '' ps"
    by (auto simp: keyDeleteTrinoSQL_def split: if_splits sum.splits)
  let ?w = "'' WHERE '' @ str_join '' OR '' ps"
  let ?s3 = "quoteTrinoIdentifier tbl @ ?w"
  let ?s2 = "quoteTrinoIdentifier ns @ ''.'' @ ?s3"
  let ?s1 = "quoteTrinoIdentifier cat @ ''.'' @ ?s2"
  have "q = ''DELETE FROM '' @ ?s1" by (simp add: q quoteTrinoQualifiedName_def)
  moreover have "read_name ?s1 = Some (cat, ''.'' @ ?s2)" by (rule read_name_quoted) simp
  moreover have "read_name ?s2 = Some (ns, ''.'' @ ?s3)" by (rule read_name_quoted) simp
  moreover have "read_name ?s3 = Some (tbl, ?w)" by (rule read_name_quoted) simp
  ultimately show ?thesis using c by blast
qed

text \<open>The value of a numeric filter is not checked to be a number.\<close>

lemma numeric_filter_unchecked: "trinoLiteralForValue L TInt64 ''1 OR 1=1'' = Inr ''1 OR 1=1''"
proof -
  have "trim_space ''1 OR 1=1'' = ''1 OR 1=1''" "\<not> contains_any ''1 OR 1=1'' [CHR 0x27, CHR 0x22, CHR '';'']" by code_simp+
  then show ?thesis by (simp add: trinoLiteralForValue_def is_temporal_def)
qed

section \<open>Globs\<close>

text \<open>
  The pieces of a pattern between its stars: the first at the start, the last at the end, any text between two
  of them. \<open>later\<close> is a match behind a star.
\<close>

fun pieces_match :: "string list \<Rightarrow> string \<Rightarrow> bool" where
  "pieces_match [] v = False"
| "pieces_match [w] v \<longleftrightarrow> v = w"
| "pieces_match (w # x # ws) v \<longleftrightarrow> (\<exists>a b. v = w @ a @ b \<and> pieces_match (x # ws) b)"

definition later :: "string list \<Rightarrow> string \<Rightarrow> bool" where
  "later ws v \<longleftrightarrow> (\<exists>a b. v = a @ b \<and> pieces_match ws b)"

lemma later_append: "later ws b \<Longrightarrow> later ws (a @ b)"
  unfolding later_def by (metis append.assoc)

lemma later_Cons: "later ws (c # cs) \<longleftrightarrow> pieces_match ws (c # cs) \<or> later ws cs"
  unfolding later_def by (auto simp: Cons_eq_append_conv)

lemma pieces_match_later: "ws \<noteq> [] \<Longrightarrow> pieces_match (w # ws) v \<longleftrightarrow> (\<exists>r. v = w @ r \<and> later ws r)"
  by (cases ws) (auto simp: later_def)

lemma has_prefix_iff: "has_prefix p s \<longleftrightarrow> (\<exists>r. s = p @ r)"
  by (auto simp: has_prefix_def) (metis append_take_drop_id)

lemma has_suffix_iff: "has_suffix p s \<longleftrightarrow> (\<exists>r. s = r @ p)"
  by (auto simp: has_suffix_def) (metis append_take_drop_id)

lemma split_on_nonempty: "Rebuild_Config.split_on d s \<noteq> []"
  by (induction s) (auto split: list.splits)

lemma star_match_pieces: "CHR 0x0A \<notin> set v \<Longrightarrow> star_match pattern v \<longleftrightarrow> pieces_match (Rebuild_Config.split_on CHR ''*'' pattern) v"
proof (induction pattern v rule: star_match.induct)
  case (2 p ps)
  obtain w ws where s: "Rebuild_Config.split_on CHR ''*'' ps = w # ws" using split_on_nonempty by (metis list.exhaust)
  show ?case using 2 by (cases ws) (auto simp: s)
next
  case (3 p ps c cs)
  obtain w ws where s: "Rebuild_Config.split_on CHR ''*'' ps = w # ws" using split_on_nonempty by (metis list.exhaust)
  show ?case
  proof (cases "p = CHR ''*''")
    case True
    have "c \<noteq> CHR 0x0A" using 3(4) by auto
    moreover have "star_match ps (c # cs) \<longleftrightarrow> pieces_match (w # ws) (c # cs)" using 3(1) [OF True 3(4)] by (simp add: s)
    moreover have "star_match (p # ps) cs \<longleftrightarrow> pieces_match ([] # w # ws) cs" using 3(2) [OF True] 3(4) True by (simp add: s)
    ultimately show ?thesis using True 3(4) pieces_match_later [of "w # ws" "[]"] later_Cons [of "w # ws" c cs] by (simp add: s)
  next
    case False
    then have "star_match ps cs \<longleftrightarrow> pieces_match (w # ws) cs" using 3(3) 3(4) by (simp add: s)
    then show ?thesis using False by (cases ws) (auto simp: s)
  qed
qed simp

lemma str_index_Some:
  "str_index p v = Some i \<Longrightarrow> (\<exists>a r. v = a @ p @ r \<and> length a = i) \<and> (\<forall>a r. v = a @ p @ r \<longrightarrow> i \<le> length a)"
proof (induction v arbitrary: i)
  case (Cons c v)
  show ?case
  proof (cases "has_prefix p (c # v)")
    case True
    then show ?thesis using Cons.prems by (auto simp: has_prefix_iff)
  next
    case False
    then obtain j where j: "str_index p v = Some j" "i = Suc j" using Cons.prems by auto
    obtain a r where a: "v = a @ p @ r" "length a = j" using Cons.IH [OF j(1)] by blast
    then have "c # v = (c # a) @ p @ r \<and> length (c # a) = i" using j by simp
    moreover have "i \<le> length a'" if "c # v = a' @ p @ r'" for a' r'
    proof (cases a')
      case Nil
      then show ?thesis using that False by (auto simp: has_prefix_iff)
    next
      case (Cons d a'')
      then show ?thesis using that Cons.IH [OF j(1)] j(2) by auto
    qed
    ultimately show ?thesis by blast
  qed
qed (auto split: if_splits)

lemma str_index_None: "str_index p v = None \<Longrightarrow> v \<noteq> a @ p @ r"
proof (induction v arbitrary: a)
  case (Cons c v)
  then have n: "\<not> has_prefix p (c # v)" "str_index p v = None" by (auto split: if_splits)
  show ?case
  proof (cases a)
    case Nil
    then show ?thesis using n by (auto simp: has_prefix_iff)
  next
    case (Cons d a')
    then show ?thesis using Cons.IH [OF n(2)] by auto
  qed
qed (auto split: if_splits)

lemma str_index_Nil [simp]: "str_index [] v = Some 0"
  by (cases v) (simp_all add: has_prefix_def)

text \<open>The first occurrence is as good as any.\<close>

lemma later_first:
  "ws \<noteq> [] \<Longrightarrow> later (w # ws) v \<longleftrightarrow> (\<exists>i. str_index w v = Some i \<and> later ws (drop (i + length w) v))"
proof
  assume ws: "ws \<noteq> []" and "later (w # ws) v"
  then obtain a r where v: "v = a @ w @ r" "later ws r" by (auto simp: later_def [of "w # ws"] pieces_match_later)
  then obtain i where i: "str_index w v = Some i" using str_index_None by (metis not_None_eq)
  then have "i \<le> length a" using str_index_Some v(1) by blast
  then have "drop (i + length w) v = drop (i + length w) (a @ w) @ r" using v(1) by simp
  then show "\<exists>i. str_index w v = Some i \<and> later ws (drop (i + length w) v)" using i v(2) by (simp add: later_append)
next
  assume ws: "ws \<noteq> []" and "\<exists>i. str_index w v = Some i \<and> later ws (drop (i + length w) v)"
  then obtain i where i: "str_index w v = Some i" "later ws (drop (i + length w) v)" by blast
  then obtain a r where "v = a @ w @ r" "length a = i" using str_index_Some by blast
  with i(2) ws show "later (w # ws) v" by (auto simp: later_def [of "w # ws"] pieces_match_later)
qed

lemma glob_parts_length: "\<lbrakk>glob_parts False ws v; ws \<noteq> []\<rbrakk> \<Longrightarrow> length (List.last ws) \<le> length v"
proof (induction ws arbitrary: v)
  case (Cons w ws)
  show ?case
  proof (cases "w = []")
    case True
    then show ?thesis using Cons by (cases ws) auto
  next
    case False
    then obtain i where i: "str_index w v = Some i" "glob_parts False ws (drop (i + length w) v)" using Cons.prems by (auto split: option.splits)
    then obtain a r where "v = a @ w @ r" "length a = i" using str_index_Some by blast
    then show ?thesis using Cons.IH [OF i(2)] by (cases "ws = []") auto
  qed
qed simp

lemma has_suffix_drop: "length l \<le> length (drop k v) \<Longrightarrow> has_suffix l v = has_suffix l (drop k v)"
proof -
  assume l: "length l \<le> length (drop k v)"
  have v: "v = take k v @ drop k v" by simp
  show ?thesis
  proof
    assume "has_suffix l v"
    then have "l = drop (length v - length l) v" by (simp add: has_suffix_def)
    also have "\<dots> = drop (length (drop k v) - length l) (drop k v)" using l by (cases "k \<le> length v") (simp_all add: drop_drop)
    finally show "has_suffix l (drop k v)" using l by (simp only: has_suffix_def)
  next
    assume "has_suffix l (drop k v)"
    then obtain r where "drop k v = r @ l" by (auto simp: has_suffix_iff)
    then have "v = (take k v @ r) @ l" using v by simp
    then show "has_suffix l v" unfolding has_suffix_iff by blast
  qed
qed

lemma glob_parts_later: "ws \<noteq> [] \<Longrightarrow> later ws v \<longleftrightarrow> glob_parts False ws v \<and> has_suffix (List.last ws) v"
proof (induction ws arbitrary: v)
  case (Cons w ws)
  show ?case
  proof (cases "ws = []")
    case True
    have "later [w] v \<longleftrightarrow> has_suffix w v" by (auto simp: later_def has_suffix_iff)
    moreover have "has_suffix w v \<Longrightarrow> str_index w v \<noteq> None" using str_index_None by (fastforce simp: has_suffix_iff)
    ultimately show ?thesis using True by (auto split: option.splits)
  next
    case False
    show ?thesis
    proof (cases "str_index w v")
      case None
      then show ?thesis using later_first [OF False] by (cases "w = []") auto
    next
      case (Some i)
      have "glob_parts False (w # ws) v \<longleftrightarrow> glob_parts False ws (drop (i + length w) v)" using Some by (cases "w = []") auto
      moreover have "glob_parts False ws (drop (i + length w) v) \<Longrightarrow>
          has_suffix (List.last ws) v = has_suffix (List.last ws) (drop (i + length w) v)"
        using has_suffix_drop glob_parts_length [OF _ False] by blast
      ultimately show ?thesis using later_first [OF False, of w v] Some Cons.IH [OF False] False by auto
    qed
  qed
qed simp

lemma str_index_0: "str_index w v = Some 0 \<longleftrightarrow> has_prefix w v"
  by (cases v) (auto simp: has_prefix_def)

lemma split_on_two: "d \<in> set s \<Longrightarrow> \<exists>w x ws. Rebuild_Config.split_on d s = w # x # ws"
proof (induction s)
  case (Cons c s)
  obtain w ws where s: "Rebuild_Config.split_on d s = w # ws" using split_on_nonempty by (metis list.exhaust)
  show ?case using Cons s by auto
qed simp

text \<open>
  The sink's glob, which looks for the pieces of the pattern from left to right, accepts a name exactly when
  the source's pattern for configured tables does, so that one pattern selects the same tables on both sides.
\<close>

theorem globs_agree:
  assumes "CHR 0x0A \<notin> set v"
  shows "matchGlob pattern v \<longleftrightarrow> matchTableGlob pattern v"
proof -
  define p where "p = to_lower (trim_space pattern)"
  define u where "u = to_lower (trim_space v)"
  have "set (trim_space v) \<subseteq> set v" by (auto simp: trim_space_def dest!: set_dropWhileD)
  moreover have "lower_char c = CHR 0x0A \<Longrightarrow> c = CHR 0x0A" for c
    using is_space_lower [of c] by (auto simp: is_space_def lower_char_def)
  ultimately have nl: "CHR 0x0A \<notin> set u" using assms unfolding u_def to_lower_def set_map by fastforce
  show ?thesis
  proof (cases "p = [] \<or> p = ''*'' \<or> CHR ''*'' \<notin> set p")
    case True
    then show ?thesis by (auto simp: matchGlob_def matchTableGlob_def p_def u_def)
  next
    case False
    then obtain w x ws where sp: "Rebuild_Config.split_on CHR ''*'' p = w # x # ws" using split_on_two by blast
    have "matchTableGlob pattern v \<longleftrightarrow> pieces_match (w # x # ws) u"
      using False star_match_pieces [OF nl, of p] by (simp add: matchTableGlob_def Let_def p_def [symmetric] u_def [symmetric] sp)
    also have "\<dots> \<longleftrightarrow> has_prefix w u \<and> later (x # ws) (drop (length w) u)"
      using pieces_match_later [of "x # ws" w u] by (auto simp: has_prefix_iff)
    also have "\<dots> \<longleftrightarrow> glob_parts True (w # x # ws) u \<and> has_suffix (List.last (x # ws)) u"
    proof (cases "w = []")
      case True
      then show ?thesis using glob_parts_later [of "x # ws" u] by (simp add: has_prefix_def)
    next
      case False
      have "glob_parts True (w # x # ws) u \<longleftrightarrow> has_prefix w u \<and> glob_parts False (x # ws) (drop (length w) u)"
        using False str_index_0 [of w u] by (auto split: option.splits simp del: glob_parts.simps(2) simp add: glob_parts.simps(2) [of True w])
      then show ?thesis using glob_parts_later [of "x # ws" "drop (length w) u"] glob_parts_length [of "x # ws" "drop (length w) u"]
          has_suffix_drop [of "List.last (x # ws)" "length w" u] by blast
    qed
    also have "\<dots> \<longleftrightarrow> matchGlob pattern v"
      using False by (auto simp: matchGlob_def Let_def p_def [symmetric] u_def [symmetric] sp has_suffix_def)
    finally show ?thesis by simp
  qed
qed

theorem globs_agree_witness: "matchGlob ''ord*_20*'' ''Orders_2024'' \<longleftrightarrow> matchTableGlob ''ord*_20*'' ''Orders_2024''"
  by (rule globs_agree) simp

section \<open>The choice of an entry\<close>

lemma best_match_order:
  assumes "mset es = mset es'" "distinct (map fst es)"
  shows "best_match sourceKey srcSchema srcTable es = best_match sourceKey srcSchema srcTable es'"
proof -
  have d: "distinct (map fst es')" using assms by (metis mset_eq_imp_distinct_iff mset_map)
  have "set es = set es'" using assms(1) by (rule mset_eq_setD)
  then have g: "map_get es = map_get es'" using map_of_inject_set [OF assms(2) d] by (auto simp: map_get_def)
  let ?f = "\<lambda>k. (- int (globSpecificity k), k)" and ?P = "\<lambda>k. matchSourceOverrideKey k srcSchema srcTable"
  have order: "sort_key ?f (filter ?P (map fst es)) = sort_key ?f (filter ?P (map fst es'))"
  proof (rule map_sorted_distinct_set_unique [of ?f])
    show "set (sort_key ?f (filter ?P (map fst es))) = set (sort_key ?f (filter ?P (map fst es')))"
      using \<open>set es = set es'\<close> by simp
  qed (use assms(2) d in \<open>auto simp: inj_on_def distinct_map\<close>)
  show ?thesis unfolding best_match_def g order by (rule refl)
qed

text \<open>
  The target of a table is a function of the configuration alone: Go visits the overrides in any order, and the
  target is the same for every order of the same entries.
\<close>

theorem target_is_deterministic:
  assumes "mset os = mset (ic_overrides cfg)" "distinct (map fst os)"
  shows "ResolveTarget (cfg\<lparr>ic_overrides := os\<rparr>) srcSchema srcTable = ResolveTarget cfg srcSchema srcTable"
  using best_match_order [OF assms] by (simp add: ResolveTarget_def resolveTargetOverride_def)

text \<open>The table itself comes first, then the more specific pattern.\<close>

definition sample_config :: ice_config where
  "sample_config =
     \<lparr>ic_rest_uri = [], ic_catalog_uri = [], ic_catalog_name = [], ic_warehouse = ''w'', ic_template = [], ic_default_namespace = ''raw'',
      ic_overrides = [(''shop.*'', \<lparr>tg_namespace = ''a'', tg_table = []\<rparr>), (''shop.ord*'', \<lparr>tg_namespace = ''b'', tg_table = ''all''\<rparr>)],
      ic_primary_keys = [], ic_skip_without_pk = False, ic_batch = 2, ic_snapshot_batch = 2, ic_write_mode = ''auto'',
      ic_replace_executor = ''trino'', ic_cdc_executor = ''trino'', ic_filters = [], ic_truncate = [''shop.a'', ''shop.b''],
      ic_truncate_exclude = [], ic_truncate_patterns = False, ic_max_bytes = 0, ic_flush = 5, ic_checkpoint_flush = 0,
      ic_save_interval = 0, ic_idle = 60, ic_trino = \<lparr>tc_uri = ''http://trino'', tc_catalog = ''c''\<rparr>, ic_properties = [],
      ic_policy = \<lparr>sp_drop = False, sp_rename = False, sp_unsafe = False\<rparr>\<rparr>"

theorem target_is_deterministic_witness:
  "ResolveTarget (sample_config\<lparr>ic_overrides := rev (ic_overrides sample_config)\<rparr>) ''shop'' ''orders'' =
   ResolveTarget sample_config ''shop'' ''orders''"
  by (rule target_is_deterministic) (simp_all add: sample_config_def)

lemma specific_override_first: "ResolveTarget sample_config ''shop'' ''orders'' = (''b'', ''all'')"
  by code_simp

theorem delete_statement_target_witness:
  "\<exists>q cat s1 s2 s3 cond. keyDeleteTrinoSQL sample_lib sample_config ''k'' ''raw'' [CHR 0x22]
       \<lparr>is_identifiers = [1], is_fields = [\<lparr>if_id = 1, if_name = ''id'', if_type = TInt64, if_required = True, if_doc = []\<rparr>]\<rparr>
       [[(''id'', CInt 5)]] = Inr q \<and>
     trino_catalog sample_config = Inr cat \<and> q = ''DELETE FROM '' @ s1 \<and> read_name s1 = Some (cat, ''.'' @ s2) \<and>
     read_name s2 = Some (''raw'', ''.'' @ s3) \<and> read_name s3 = Some ([CHR 0x22], '' WHERE '' @ cond)"
proof -
  let ?sc = "\<lparr>is_identifiers = [1::int], is_fields = [\<lparr>if_id = 1, if_name = ''id'', if_type = TInt64, if_required = True, if_doc = []\<rparr>]\<rparr>"
  have "\<exists>q. keyDeleteTrinoSQL sample_lib sample_config ''k'' ''raw'' [CHR 0x22] ?sc [[(''id'', CInt 5)]] = Inr q"
  proof -
    have "map_sum (\<lambda>e. e) (\<lambda>q. ()) (keyDeleteTrinoSQL sample_lib sample_config ''k'' ''raw'' [CHR 0x22] ?sc [[(''id'', CInt 5)]]) = Inr ()"
      by code_simp
    then show ?thesis by (cases "keyDeleteTrinoSQL sample_lib sample_config ''k'' ''raw'' [CHR 0x22] ?sc [[(''id'', CInt 5)]]") simp_all
  qed
  then show ?thesis using delete_statement_target by blast
qed

end
