(* ===== verification/Iceberg_Sink.thy ===== *)
theory Iceberg_Sink
  imports Iceberg_Targets "HOL-Library.Sublist"
begin

text \<open>
  The Iceberg sink (\<open>pkg/connectors/iceberg/sink.go\<close>, the spool of \<open>snapshot_spool.go\<close>): tables and their
  pending events, the writes of a batch, snapshots, DDL, the checkpoint and the loop that handles events.

  The outside is part of the state: the rows and schemas of the targets and the saved checkpoint. The \<open>n\<close>-th
  call to it fails as \<open>se_fail n\<close> says. A commit that fails with a retryable error was rejected, as the guard of
  \<open>Commit_Guard\<close> ensures; any other failed call may have taken effect. Batches that name a commit, progress
  reports, metrics and table maintenance are left out, as are the branches of a scoped or authoritative rebuild;
  no metadata columns are configured.

  The lemmas show that a flush that succeeds, after whatever failures, leaves the table its events describe, and that
  the checkpoint is saved only when every event before it has been flushed.
\<close>

section \<open>State\<close>

record sink_table =
  st_namespace :: string
  st_table :: string
  st_schema :: "table_schema option"
  st_handle :: "ice_schema option"
  st_append_safe :: bool
  st_replace_applied :: bool
  st_truncate_applied :: bool
  st_pending :: "event list"
  st_bytes :: int
  st_first :: "int option"
  st_last_event :: "int option"
  st_touched :: "int option"
  st_spool :: "row_data list option"

type_synonym target = "string \<times> string"

text \<open>A line of the log is written for each flush; here it carries the events in place of their number.\<close>

record sink_state =
  sk_tables :: "target \<Rightarrow> row_data list"
  sk_catalog :: "target \<Rightarrow> ice_schema option"
  sk_saved :: "source_offset option"
  sk_done :: bool
  sk_calls :: nat
  sk_states :: "(string \<times> sink_table) list"
  sk_offset :: "source_offset option"
  sk_recovery :: recovery_state
  sk_last_commit :: "int option"
  sk_cleanup :: "source_offset option"
  sk_last_cleanup :: "int option"
  sk_acks :: "go_error option list"
  sk_flushes :: "(string \<times> event list) list"

record sink_env =
  se_cfg :: ice_config
  se_lib :: value_lib
  se_codec :: replay_codec
  se_model :: "event \<Rightarrow> model_event"
  se_parse :: "string \<Rightarrow> string + ddl_stmt"
  se_promote :: "ice_type \<Rightarrow> ice_type \<Rightarrow> bool"
  se_update :: "ice_schema \<Rightarrow> schema_op list \<Rightarrow> string + ice_schema"
  se_store :: bool
  se_rolling :: bool
  se_attempts :: int
  se_fail :: "nat \<Rightarrow> go_error option"
  se_effect :: "nat \<Rightarrow> bool"
  se_backoff :: "nat \<Rightarrow> go_error option"
  se_clock :: "nat \<Rightarrow> int"

type_synonym 'a sink_op = "sink_state \<Rightarrow> ((go_error + 'a) \<times> sink_state) option"

definition sret :: "'a \<Rightarrow> 'a sink_op" where
  "sret x st = Some (Inr x, st)"

definition sfail :: "go_error \<Rightarrow> 'a sink_op" where
  "sfail e st = Some (Inl e, st)"

definition sbind :: "'a sink_op \<Rightarrow> ('a \<Rightarrow> 'b sink_op) \<Rightarrow> 'b sink_op" where
  "sbind m f st = (case m st of None \<Rightarrow> None | Some (Inl e, st') \<Rightarrow> Some (Inl e, st') | Some (Inr x, st') \<Rightarrow> f x st')"

definition sget :: "(sink_state \<Rightarrow> 'a) \<Rightarrow> 'a sink_op" where
  "sget f st = Some (Inr (f st), st)"

definition smodify :: "(sink_state \<Rightarrow> sink_state) \<Rightarrow> unit sink_op" where
  "smodify f st = Some (Inr (), f st)"

definition sthen :: "unit sink_op \<Rightarrow> 'b sink_op \<Rightarrow> 'b sink_op" where
  "sthen m k = sbind m (\<lambda>_. k)"

definition fail_text :: "string + 'a \<Rightarrow> 'a sink_op" where
  "fail_text r = (case r of Inl e \<Rightarrow> sfail (permanent (new_error e)) | Inr x \<Rightarrow> sret x)"

fun sall :: "('a \<Rightarrow> unit sink_op) \<Rightarrow> 'a list \<Rightarrow> unit sink_op" where
  "sall f [] = sret ()"
| "sall f (x # xs) = sthen (f x) (sall f xs)"

text \<open>A call; the second form is a commit through the guard.\<close>

definition ext_call :: "sink_env \<Rightarrow> (sink_state \<Rightarrow> sink_state) \<Rightarrow> unit sink_op" where
  "ext_call W eff st =
     (let n = sk_calls st; st1 = st\<lparr>sk_calls := Suc n\<rparr> in
      case se_fail W n of
        None \<Rightarrow> Some (Inr (), eff st1)
      | Some e \<Rightarrow> Some (Inl e, if se_effect W n then eff st1 else st1))"

definition commit_call :: "sink_env \<Rightarrow> (sink_state \<Rightarrow> sink_state) \<Rightarrow> unit sink_op" where
  "commit_call W eff st =
     (let n = sk_calls st; st1 = st\<lparr>sk_calls := Suc n\<rparr> in
      case se_fail W n of
        None \<Rightarrow> Some (Inr (), eff st1)
      | Some e \<Rightarrow> Some (Inl e, if IsPermanent e \<and> se_effect W n then eff st1 else st1))"

definition now_of :: "sink_env \<Rightarrow> sink_state \<Rightarrow> int" where
  "now_of W st = se_clock W (sk_calls st)"

partial_function (option) sink_retry :: "sink_env \<Rightarrow> 'a sink_op \<Rightarrow> nat \<Rightarrow> 'a sink_op" where
  "sink_retry W m n st =
     Option.bind (m st) (\<lambda>(r, st').
       case r of
         Inr x \<Rightarrow> Some (Inr x, st')
       | Inl e \<Rightarrow>
           if IsPermanent e then Some (Inl e, st')
           else if 0 < se_attempts W \<and> se_attempts W \<le> int (Suc n) then Some (Inl e, st')
           else (case se_backoff W n of Some c \<Rightarrow> Some (Inl c, st') | None \<Rightarrow> sink_retry W m (Suc n) st'))"

declare sink_retry.simps [code]

section \<open>Tables\<close>

definition blank_table :: sink_table where
  "blank_table = \<lparr>st_namespace = [], st_table = [], st_schema = None, st_handle = None, st_append_safe = False,
     st_replace_applied = False, st_truncate_applied = False, st_pending = [], st_bytes = 0, st_first = None,
     st_last_event = None, st_touched = None, st_spool = None\<rparr>"

definition table_at :: "sink_state \<Rightarrow> string \<Rightarrow> sink_table" where
  "table_at st key = (case map_get (sk_states st) key of None \<Rightarrow> blank_table | Some t \<Rightarrow> t)"

text \<open>\<open>stateForKeyLocked\<close> adds the missing table, which is then changed.\<close>

definition on_table :: "string \<Rightarrow> (sink_table \<Rightarrow> sink_table) \<Rightarrow> sink_state \<Rightarrow> sink_state" where
  "on_table key f st = st\<lparr>sk_states := map_put key (f (table_at st key)) (sk_states st)\<rparr>"

definition target_of :: "sink_table \<Rightarrow> target" where
  "target_of t = (st_namespace t, st_table t)"

definition same_target :: "target \<Rightarrow> sink_table \<Rightarrow> bool" where
  "same_target tg t \<longleftrightarrow> sameTarget (st_namespace t) (fst tg) \<and> sameTarget (st_table t) (snd tg)"

definition updateTargetTableStatesLocked :: "target \<Rightarrow> ice_schema option \<Rightarrow> int \<Rightarrow> sink_state \<Rightarrow> sink_state" where
  "updateTargetTableStatesLocked tg handle now st =
     st\<lparr>sk_states := map (\<lambda>(k, t). (k, if same_target tg t then t\<lparr>st_handle := handle, st_touched := Some now\<rparr> else t)) (sk_states st)\<rparr>"

definition info_of :: "string \<Rightarrow> sink_table \<Rightarrow> table_info" where
  "info_of key t = \<lparr>ti_key = key, ti_schema = st_schema t, ti_append_safe = st_append_safe t\<rparr>"

definition op_error :: "string \<Rightarrow> string \<Rightarrow> go_error" where
  "op_error action key = new_error (action @ '' source='' @ key)"

text \<open>The handle of a table is the schema it was loaded with.\<close>

definition load_table :: "sink_env \<Rightarrow> target \<Rightarrow> ice_schema sink_op" where
  "load_table W tg =
     sthen (ext_call W (\<lambda>st. st)) (sbind (sget (\<lambda>st. sk_catalog st tg)) (\<lambda>sc.
       case sc of None \<Rightarrow> sfail (new_error ''no such table'') | Some s \<Rightarrow> sret s))"

definition refreshStateTable :: "sink_env \<Rightarrow> string \<Rightarrow> unit sink_op" where
  "refreshStateTable W key =
     sbind (sget (\<lambda>st. target_of (table_at st key))) (\<lambda>tg.
     sbind (load_table W tg) (\<lambda>sc.
     smodify (\<lambda>st. on_table key (\<lambda>t. t\<lparr>st_handle := Some sc\<rparr>) (updateTargetTableStatesLocked tg (Some sc) (now_of W st) st))))"

section \<open>Writes of a batch\<close>

record reduced_batch =
  rb_filter :: "key_predicate list list option"
  rb_deletes :: "row_data list"
  rb_pk :: "string list"
  rb_rows :: "row_data list"

definition key_matches :: "string list \<Rightarrow> row_data list \<Rightarrow> row_data \<Rightarrow> bool" where
  "key_matches pk keys row \<longleftrightarrow> (\<exists>d \<in> set keys. key_cells d pk = key_cells row pk)"

definition on_rows :: "target \<Rightarrow> (row_data list \<Rightarrow> row_data list) \<Rightarrow> sink_state \<Rightarrow> sink_state" where
  "on_rows tg f st = st\<lparr>sk_tables := (sk_tables st)(tg := f (sk_tables st tg))\<rparr>"

definition handle_schema :: "sink_table \<Rightarrow> ice_schema" where
  "handle_schema t = (case st_handle t of None \<Rightarrow> \<lparr>is_identifiers = [], is_fields = []\<rparr> | Some s \<Rightarrow> s)"

text \<open>\<open>updateStateTableAfterWrite\<close>: the table of a failed commit that is taken for a success is nil.\<close>

definition updateStateTableAfterWrite :: "sink_env \<Rightarrow> string \<Rightarrow> ice_schema option \<Rightarrow> unit sink_op" where
  "updateStateTableAfterWrite W key handle =
     smodify (\<lambda>st. updateTargetTableStatesLocked (target_of (table_at st key)) handle (now_of W st)
       (on_table key (\<lambda>t. t\<lparr>st_handle := handle\<rparr>) st))"

definition append_rows :: "sink_env \<Rightarrow> string \<Rightarrow> row_data list \<Rightarrow> unit sink_op" where
  "append_rows W key rows =
     sbind (sget (\<lambda>st. table_at st key)) (\<lambda>t.
     sbind (fail_text (buildRecordReader (se_lib W) (handle_schema t) rows)) (\<lambda>_.
     commit_call W (on_rows (target_of t) (\<lambda>T. T @ rows))))"

definition flushSnapshotAppendOnce :: "sink_env \<Rightarrow> string \<Rightarrow> row_data list \<Rightarrow> string sink_op" where
  "flushSnapshotAppendOnce W key rows =
     (if rows = [] then sret ''noop''
      else sthen (append_rows W key rows)
             (sbind (sget (\<lambda>st. st_handle (table_at st key))) (\<lambda>h.
              sthen (updateStateTableAfterWrite W key h) (sret snapshotWriteModeAppend))))"

definition applyKeyDeleteWithTrino :: "sink_env \<Rightarrow> string \<Rightarrow> reduced_batch \<Rightarrow> unit sink_op" where
  "applyKeyDeleteWithTrino W key batch =
     (if rb_deletes batch = [] then sret ()
      else sthen
        (sall (\<lambda>keys.
           sbind (sget (\<lambda>st. table_at st key)) (\<lambda>t.
           sbind (fail_text (keyDeleteTrinoSQL (se_lib W) (se_cfg W) key (st_namespace t) (st_table t) (handle_schema t) keys)) (\<lambda>_.
           ext_call W (on_rows (target_of t) (filter (\<lambda>row. \<not> key_matches (rb_pk batch) keys row))))))
         (splitDeleteKeys (rb_deletes batch) 500))
        (refreshStateTable W key))"

definition flushReducedBatchWithTrinoDeleteOnce :: "sink_env \<Rightarrow> string \<Rightarrow> reduced_batch \<Rightarrow> string sink_op" where
  "flushReducedBatchWithTrinoDeleteOnce W key batch =
     sthen (applyKeyDeleteWithTrino W key batch)
       (if rb_rows batch = [] then sret ''delete-trino''
        else sthen (append_rows W key (rb_rows batch))
               (sbind (sget (\<lambda>st. st_handle (table_at st key))) (\<lambda>h.
                sthen (updateStateTableAfterWrite W key h) (sret ''delete-append-trino''))))"

text \<open>Deletes and rows in one commit.\<close>

definition flushReducedBatchWithEqualityDeleteOnce :: "sink_env \<Rightarrow> string \<Rightarrow> reduced_batch \<Rightarrow> string sink_op" where
  "flushReducedBatchWithEqualityDeleteOnce W key batch =
     sbind (sget (\<lambda>st. table_at st key)) (\<lambda>t.
     sbind (fail_text (buildRecordReader (se_lib W) (handle_schema t) (rb_rows batch))) (\<lambda>_.
     sthen (commit_call W (on_rows (target_of t) (\<lambda>T. filter (\<lambda>row. \<not> key_matches (rb_pk batch) (rb_deletes batch) row) T @ rb_rows batch)))
       (sthen (updateStateTableAfterWrite W key (st_handle t))
         (sret (if rb_rows batch = [] then ''delete-equality'' else ''delete-append-equality'')))))"

text \<open>
  Without deletes the error of the append is assigned to a variable of the switch's branch, so a failed append
  counts as a success and leaves a nil handle.
\<close>

definition append_shadowed :: "sink_env \<Rightarrow> string \<Rightarrow> row_data list \<Rightarrow> string sink_op" where
  "append_shadowed W key rows st =
     (case sbind (sget (\<lambda>st. table_at st key)) (\<lambda>t. fail_text (buildRecordReader (se_lib W) (handle_schema t) rows)) st of
        Some (Inr _, st1) \<Rightarrow>
          (let h = st_handle (table_at st1 key) in
           case commit_call W (on_rows (target_of (table_at st1 key)) (\<lambda>T. T @ rows)) st1 of
             Some (Inl e, st2) \<Rightarrow> sthen (updateStateTableAfterWrite W key None) (sret ''append'') st2
           | Some (Inr _, st2) \<Rightarrow> sthen (updateStateTableAfterWrite W key h) (sret ''append'') st2
           | None \<Rightarrow> None)
      | Some (Inl e, st1) \<Rightarrow> Some (Inl e, st1)
      | None \<Rightarrow> None)"

definition filtered_delete_error :: "string \<Rightarrow> string \<Rightarrow> go_error" where
  "filtered_delete_error kind key =
     permanent (new_error (kind @ '' for '' @ key @ '' built a delete filter without primary-key delete keys; native filtered delete is disabled because iceberg-go can panic while evaluating manifest metrics with null partition values''))"

text \<open>The branches behind the check for a filter are not reached and left out.\<close>

definition flushReducedBatchOnce :: "sink_env \<Rightarrow> string \<Rightarrow> reduced_batch \<Rightarrow> string sink_op" where
  "flushReducedBatchOnce W key batch =
     (let executor = cdcKeyDeleteExecutor (se_cfg W) in
      if rb_deletes batch \<noteq> []
      then (if executor = executorTrino then flushReducedBatchWithTrinoDeleteOnce W key batch
            else if executor = executorEquality then flushReducedBatchWithEqualityDeleteOnce W key batch
            else sfail (unsupportedNativeKeyDeleteError ''CDC'' key))
      else if ic_cdc_executor (se_cfg W) = executorTrino \<and> rb_filter batch \<noteq> None
      then flushReducedBatchWithTrinoDeleteOnce W key batch
      else if rb_filter batch \<noteq> None then sfail (filtered_delete_error ''CDC delete'' key)
      else append_shadowed W key (rb_rows batch))"

text \<open>\<open>Sink.reduceEvents\<close>: the batch of the events, with the filter of its keys.\<close>

definition reduced_of :: "sink_env \<Rightarrow> ice_schema \<Rightarrow> event list \<Rightarrow> string list \<Rightarrow> string + reduced_batch" where
  "reduced_of W sc events pk =
     (case reduceEvents (vl_cell (se_lib W)) events pk of
        Inl e \<Rightarrow> Inl e
      | Inr (rows, dels) \<Rightarrow>
          (case buildKeyFilter (se_lib W) sc dels of
             Inl e \<Rightarrow> Inl e
           | Inr f \<Rightarrow> Inr \<lparr>rb_filter = f, rb_deletes = dels, rb_pk = pk, rb_rows = rows\<rparr>))"

definition table_ready :: "string \<Rightarrow> sink_table \<Rightarrow> string + (ice_schema \<times> table_schema)" where
  "table_ready key t =
     (case st_handle t of
        None \<Rightarrow> Inl (''table handle is nil for '' @ key)
      | Some h \<Rightarrow> (case st_schema t of None \<Rightarrow> Inl (''source schema is nil for '' @ key) | Some s \<Rightarrow> Inr (h, s)))"

definition flushEventsOnce :: "sink_env \<Rightarrow> string \<Rightarrow> event list \<Rightarrow> string sink_op" where
  "flushEventsOnce W key events =
     sbind (sget (\<lambda>st. table_at st key)) (\<lambda>t.
     sbind (fail_text (table_ready key t)) (\<lambda>(h, src).
     sbind (fail_text (primaryKeysFor (se_cfg W) key src)) (\<lambda>pk.
     sbind (fail_text (reduced_of W h events pk)) (\<lambda>batch.
     if rb_filter batch = None \<and> rb_rows batch = [] then sret ''noop'' else flushReducedBatchOnce W key batch))))"

section \<open>The checkpoint\<close>

definition rememberOffset :: "source_offset option \<Rightarrow> sink_state \<Rightarrow> sink_state" where
  "rememberOffset off st = (if source_offset_valid off then st\<lparr>sk_offset := off\<rparr> else st)"

definition hasPendingEventsLocked :: "sink_state \<Rightarrow> bool" where
  "hasPendingEventsLocked st \<longleftrightarrow> list_ex (\<lambda>(k, t). st_pending t \<noteq> []) (sk_states st)"

definition checkpointSaveDueLocked :: "sink_env \<Rightarrow> int \<Rightarrow> bool \<Rightarrow> sink_state \<Rightarrow> bool" where
  "checkpointSaveDueLocked W now force st \<longleftrightarrow>
     force \<or>
     (case sk_last_commit st of
        None \<Rightarrow> True
      | Some l \<Rightarrow> ic_save_interval (se_cfg W) \<le> 0 \<or> ic_save_interval (se_cfg W) * 1000000000 \<le> now - l)"

text \<open>Thirty seconds in nanoseconds.\<close>

abbreviation "checkpointCleanupInterval \<equiv> (30000000000::int)"

definition cleanupPendingCheckpoint :: "sink_env \<Rightarrow> unit sink_op" where
  "cleanupPendingCheckpoint W st =
     (let now = now_of W st in
      if sk_cleanup st = None \<or> (case sk_last_cleanup st of None \<Rightarrow> False | Some l \<Rightarrow> now - l < checkpointCleanupInterval)
      then sret () st
      else case ext_call W (\<lambda>s. s) (st\<lparr>sk_last_cleanup := Some now\<rparr>) of
        None \<Rightarrow> None
      | Some (Inr _, st1) \<Rightarrow> sret () (st1\<lparr>sk_cleanup := None, sk_last_cleanup := None\<rparr>)
      | Some (Inl e, st1) \<Rightarrow>
          if err_is TOwnershipLost e then sfail (permanent e) st1
          else if err_is TContext e then sfail e st1
          else sret () st1)"

definition save_offset :: "sink_env \<Rightarrow> source_offset \<Rightarrow> unit sink_op" where
  "save_offset W off st =
     (case ext_call W (\<lambda>s. s\<lparr>sk_saved := Some off\<rparr>) st of
        None \<Rightarrow> None
      | Some (Inl e, st1) \<Rightarrow> if err_is TOwnershipLost e then sfail (permanent e) st1 else sret () st1
      | Some (Inr _, st1) \<Rightarrow>
          cleanupPendingCheckpoint W
            (st1\<lparr>sk_last_commit := Some (now_of W st1), sk_cleanup := Some off,
                 sk_offset := (case sk_offset st1 of None \<Rightarrow> None
                               | Some p \<Rightarrow> if so_file p = so_file off \<and> so_pos p = so_pos off then None else Some p)\<rparr>))"

definition commitPendingOffset :: "sink_env \<Rightarrow> bool \<Rightarrow> unit sink_op" where
  "commitPendingOffset W force =
     sbind (sget (\<lambda>st. se_store W)) (\<lambda>store.
     if \<not> store then sret ()
     else sthen (cleanupPendingCheckpoint W) (sbind (sget (\<lambda>st. st)) (\<lambda>st.
       case sk_offset st of
         None \<Rightarrow> sret ()
       | Some off \<Rightarrow>
           if hasPendingEventsLocked st then sret ()
           else if \<not> checkpointSaveDueLocked W (now_of W st) force st then sret ()
           else (case checkRecoveryReplayComplete (se_codec W) (Some off) (sk_recovery st) of
                   Some e \<Rightarrow> sfail (permanent (new_error e))
                 | None \<Rightarrow> save_offset W off))))"

section \<open>Flushing\<close>

text \<open>What \<open>flushState\<close> does after the write: the events leave the pending list and the flush is logged.\<close>

definition settle_flush :: "sink_env \<Rightarrow> string \<Rightarrow> event list \<Rightarrow> sink_state \<Rightarrow> sink_state" where
  "settle_flush W key events st =
     (on_table key (\<lambda>t.
        if length (st_pending t) \<le> length events
        then t\<lparr>st_pending := [], st_bytes := 0, st_first := None, st_touched := Some (now_of W st)\<rparr>
        else (let rest = drop (length events) (st_pending t) in
              t\<lparr>st_pending := rest, st_bytes := estimateEventsBytes rest, st_first := Some (now_of W st), st_touched := Some (now_of W st)\<rparr>))
        st)\<lparr>sk_flushes := sk_flushes st @ [(key, events)]\<rparr>"

definition flush_attempt :: "sink_env \<Rightarrow> string \<Rightarrow> event list \<Rightarrow> string sink_op" where
  "flush_attempt W key events = sthen (refreshStateTable W key) (flushEventsOnce W key events)"

definition flushState :: "sink_env \<Rightarrow> string \<Rightarrow> unit sink_op" where
  "flushState W key =
     sbind (sget (\<lambda>st. st_pending (table_at st key))) (\<lambda>events.
     if events = [] then sret ()
     else sbind (sink_retry W (flush_attempt W key events) 0) (\<lambda>_.
       sthen (smodify (settle_flush W key events)) (commitPendingOffset W True)))"

definition effectiveFlushAfterLocked :: "sink_env \<Rightarrow> sink_state \<Rightarrow> int" where
  "effectiveFlushAfterLocked W st =
     (let flushAfter = ic_flush (se_cfg W) * 1000000000; checkpoint = ic_checkpoint_flush (se_cfg W) * 1000000000 in
      if sk_offset st \<noteq> None \<and> 0 < checkpoint \<and> (flushAfter \<le> 0 \<or> checkpoint < flushAfter) then checkpoint else flushAfter)"

definition shouldFlushStateLocked :: "sink_env \<Rightarrow> sink_state \<Rightarrow> int \<Rightarrow> sink_table \<Rightarrow> bool" where
  "shouldFlushStateLocked W st now t \<longleftrightarrow>
     st_pending t \<noteq> [] \<and>
     (let after = effectiveFlushAfterLocked W st;
          reached = (\<lambda>x. case x of None \<Rightarrow> False | Some l \<Rightarrow> after \<le> now - l) in
      after \<le> 0 \<or> reached (st_last_event t) \<or> reached (st_first t))"

text \<open>The keys of the tables to flush, and whether this is a checkpoint barrier.\<close>

definition flushStatesDueLocked :: "sink_env \<Rightarrow> int \<Rightarrow> sink_state \<Rightarrow> string list \<times> bool" where
  "flushStatesDueLocked W now st =
     (let pending = filter (\<lambda>(k, t). st_pending t \<noteq> []) (sk_states st);
          due = filter (\<lambda>(k, t). shouldFlushStateLocked W st now t) pending;
          barrier = (sk_offset st \<noteq> None \<and> due \<noteq> []) in
      (sort (map fst (if barrier then pending else due)), barrier))"

definition flushDue :: "sink_env \<Rightarrow> int \<Rightarrow> unit sink_op" where
  "flushDue W now =
     sbind (sget (\<lambda>st. fst (flushStatesDueLocked W now st))) (\<lambda>keys.
     sthen (sall (flushState W) keys) (commitPendingOffset W False))"

definition flushAll :: "sink_env \<Rightarrow> unit sink_op" where
  "flushAll W =
     sbind (sget (\<lambda>st. map fst (filter (\<lambda>(k, t). st_pending t \<noteq> []) (sk_states st)))) (\<lambda>keys.
     sthen (sall (flushState W) keys) (commitPendingOffset W True))"

text \<open>Tables without a last event come last.\<close>

definition prior_order :: "string \<times> sink_table \<Rightarrow> bool \<times> int \<times> string" where
  "prior_order kt = (st_last_event (snd kt) = None, (case st_last_event (snd kt) of None \<Rightarrow> 0 | Some l \<Rightarrow> l), fst kt)"

definition prior_keys :: "string \<Rightarrow> sink_state \<Rightarrow> string list" where
  "prior_keys key st =
     map fst (sort_key prior_order
       (filter (\<lambda>(k, t). k \<noteq> key \<and> st_pending t \<noteq> [] \<and> same_target (target_of (table_at st key)) t) (sk_states st)))"

definition flushPriorPendingForTarget :: "sink_env \<Rightarrow> string \<Rightarrow> unit sink_op" where
  "flushPriorPendingForTarget W key = sbind (sget (prior_keys key)) (sall (flushState W))"

section \<open>Opening a table\<close>

text \<open>
  \<open>namespaceExists\<close>: the catalog's answer to HEAD, and behind an answer 400 those to GET and to a listing.
  An answer is an error with its kind or a value.
\<close>

datatype 'a catalog_reply = CatalogBadRequest go_error | CatalogNoNamespace go_error | CatalogError go_error | CatalogOk 'a

definition namespaceExists :: "string list \<Rightarrow> bool catalog_reply \<Rightarrow> unit catalog_reply \<Rightarrow> string list list catalog_reply \<Rightarrow> go_error + bool" where
  "namespaceExists ident head get list =
     (if ident = [] then Inl (new_error ''empty namespace identifier'')
      else case head of
        CatalogOk b \<Rightarrow> Inr b
      | CatalogNoNamespace e \<Rightarrow> Inl e
      | CatalogError e \<Rightarrow> Inl e
      | CatalogBadRequest e \<Rightarrow>
          (case get of
             CatalogOk _ \<Rightarrow> Inr True
           | CatalogNoNamespace _ \<Rightarrow> Inr False
           | CatalogError e' \<Rightarrow> Inl (join_error ''HEAD namespace check failed: '' e ''; GET namespace fallback failed: '' e')
           | CatalogBadRequest _ \<Rightarrow>
               (case list of
                  CatalogOk names \<Rightarrow> Inr (ident \<in> set names)
                | CatalogNoNamespace _ \<Rightarrow> Inr False
                | CatalogBadRequest e' \<Rightarrow> Inl (join_error ''HEAD namespace check failed: '' e ''; namespace listing fallback failed: '' e')
                | CatalogError e' \<Rightarrow> Inl (join_error ''HEAD namespace check failed: '' e ''; namespace listing fallback failed: '' e'))))"

definition defaultTableProperties :: "(string \<times> string) list \<Rightarrow> (string \<times> string) list" where
  "defaultTableProperties configured =
     foldl (\<lambda>props (k, v). if map_get props k = None then map_put k v props else props) configured
       [(''format-version'', ''2''), (''write.delete.mode'', ''merge-on-read''), (''write.update.mode'', ''merge-on-read''),
        (''write.merge.mode'', ''merge-on-read'')]"

text \<open>A table that cannot be loaded is looked up once more and created if the catalog does not confirm it.\<close>

definition loadOrCreateTable :: "sink_env \<Rightarrow> target \<Rightarrow> table_schema \<Rightarrow> string list \<Rightarrow> (ice_schema \<times> bool) sink_op" where
  "loadOrCreateTable W tg schema pk st =
     (case load_table W tg st of
        None \<Rightarrow> None
      | Some (Inr sc, st1) \<Rightarrow> sret (sc, False) st1
      | Some (Inl e, st1) \<Rightarrow>
          (case ext_call W (\<lambda>s. s) st1 of
             None \<Rightarrow> None
           | Some (exists, st2) \<Rightarrow>
               if exists = Inr () \<and> sk_catalog st2 tg \<noteq> None then sbind (load_table W tg) (\<lambda>sc. sret (sc, False)) st2
               else (let sc = buildIcebergSchema schema pk in
                     sthen (commit_call W (\<lambda>s. if sk_catalog s tg = None
                                               then s\<lparr>sk_catalog := (sk_catalog s)(tg := Some sc), sk_tables := (sk_tables s)(tg := [])\<rparr> else s))
                       (if sk_catalog st2 tg = None then sret (sc, True) else sfail (new_error ''table already exists'')) st2)))"

definition sync_table_schema :: "sink_env \<Rightarrow> target \<Rightarrow> ice_schema \<Rightarrow> table_schema \<Rightarrow> string list \<Rightarrow> ice_schema sink_op" where
  "sync_table_schema W tg sc src pk =
     (case syncSchema (se_promote W) (ic_policy (se_cfg W)) sc src pk of
        (ops, changed) \<Rightarrow>
          if \<not> changed then sret sc
          else case se_update W sc ops of
            Inl e \<Rightarrow> sfail (new_error e)
          | Inr sc' \<Rightarrow> sthen (commit_call W (\<lambda>s. s\<lparr>sk_catalog := (sk_catalog s)(tg := Some sc')\<rparr>)) (sret sc'))"

text \<open>The rows of a target that is not new are counted only where the mode depends on them.\<close>

definition append_safe :: "sink_env \<Rightarrow> string \<Rightarrow> target \<Rightarrow> table_schema \<Rightarrow> bool \<Rightarrow> bool sink_op" where
  "append_safe W key tg src created =
     (if created \<or> \<not> shouldCountSnapshotAutoTarget (se_cfg W) \<lparr>ti_key = key, ti_schema = Some src, ti_append_safe = False\<rparr>
      then sret created
      else sthen (ext_call W (\<lambda>s. s)) (sget (\<lambda>st. sk_tables st tg = [])))"

definition EnsureTable :: "sink_env \<Rightarrow> target \<Rightarrow> table_schema \<Rightarrow> unit sink_op" where
  "EnsureTable W tg src =
     (let key = tableKey (ts_schema src) (ts_table src) in
      sthen (smodify (on_table key (\<lambda>t. t\<lparr>st_schema := Some src, st_namespace := fst tg, st_table := snd tg\<rparr>)))
      (sbind (fail_text (primaryKeysFor (se_cfg W) key src)) (\<lambda>pk.
       sthen (ext_call W (\<lambda>s. s))
      (sbind (loadOrCreateTable W tg src pk) (\<lambda>(sc, created).
       sbind (if created then sret sc else sync_table_schema W tg sc src pk) (\<lambda>sc'.
       sbind (append_safe W key tg src created) (\<lambda>safe.
       smodify (\<lambda>st. updateTargetTableStatesLocked tg (Some sc') (now_of W st)
         (on_table key (\<lambda>t. t\<lparr>st_handle := Some sc', st_append_safe := safe, st_touched := Some (now_of W st)\<rparr>) st)))))))))"

definition RegisterSourceSchema :: "sink_env \<Rightarrow> string \<Rightarrow> string \<Rightarrow> table_schema \<Rightarrow> sink_state \<Rightarrow> sink_state" where
  "RegisterSourceSchema W schema table src st =
     on_table (tableKey schema table) (\<lambda>t. t\<lparr>st_schema := Some src, st_touched := Some (now_of W st)\<rparr>) st"

definition ensureOperationalState :: "sink_env \<Rightarrow> string \<Rightarrow> unit sink_op" where
  "ensureOperationalState W key =
     sthen (smodify (on_table key (\<lambda>t. t)))
     (sbind (sget (\<lambda>st. table_at st key)) (\<lambda>t.
      case st_schema t of
        None \<Rightarrow> sfail (permanent (new_error (''missing source schema for '' @ key)))
      | Some src \<Rightarrow>
          if st_handle t \<noteq> None then sret ()
          else sthen (EnsureTable W (ResolveTarget (se_cfg W) (ts_schema src) (ts_table src)) src) (smodify (on_table key (\<lambda>t. t)))))"

definition evictIdle :: "sink_env \<Rightarrow> int \<Rightarrow> sink_state \<Rightarrow> sink_state" where
  "evictIdle W now st =
     (if ic_idle (se_cfg W) \<le> 0 then st
      else st\<lparr>sk_states := map (\<lambda>(k, t).
         (k, if st_handle t = None \<or> st_pending t \<noteq> [] \<or> st_spool t \<noteq> None then t
             else case (case st_touched t of None \<Rightarrow> st_last_event t | Some l \<Rightarrow> Some l) of
               None \<Rightarrow> t
             | Some l \<Rightarrow> if now - l < ic_idle (se_cfg W) * 1000000000 then t else t\<lparr>st_handle := None\<rparr>)) (sk_states st)\<rparr>)"

section \<open>Snapshots\<close>

definition resume_error :: "string \<Rightarrow> string \<Rightarrow> go_error" where
  "resume_error mode key =
     permanent (new_error (''snapshot_write_mode '' @ mode @ '' cannot resume '' @ key @
       '' without a confirmed delete in this process; clear snapshot progress and restart this snapshot from offset 0''))"

definition filter_rows :: "replace_filter option \<Rightarrow> (replace_filter \<Rightarrow> row_data \<Rightarrow> bool) \<Rightarrow> row_data list \<Rightarrow> row_data list" where
  "filter_rows f matches T = (case f of None \<Rightarrow> T | Some c \<Rightarrow> filter (\<lambda>row. \<not> matches c row) T)"

definition ensureSnapshotReplaceFilterAppliedWithTrino ::
  "sink_env \<Rightarrow> (replace_filter \<Rightarrow> row_data \<Rightarrow> bool) \<Rightarrow> string \<Rightarrow> unit sink_op" where
  "ensureSnapshotReplaceFilterAppliedWithTrino W matches key =
     sbind (sget (\<lambda>st. table_at st key)) (\<lambda>t.
     sbind (fail_text (snapshotReplaceFilterTrinoSQL (se_lib W) (se_cfg W) (info_of key t) (st_namespace t) (st_table t) (handle_schema t))) (\<lambda>_.
     sthen (ext_call W (on_rows (target_of t) (filter_rows (snapshotReplaceFilterForState (se_cfg W) (info_of key t)) matches)))
     (sthen (refreshStateTable W key) (smodify (on_table key (\<lambda>t. t\<lparr>st_replace_applied := True\<rparr>))))))"

definition ensureSnapshotReplaceFilterApplied ::
  "sink_env \<Rightarrow> (replace_filter \<Rightarrow> row_data \<Rightarrow> bool) \<Rightarrow> string \<Rightarrow> int \<Rightarrow> unit sink_op" where
  "ensureSnapshotReplaceFilterApplied W matches key start =
     sbind (sget (\<lambda>st. table_at st key)) (\<lambda>t.
     if st_replace_applied t then sret ()
     else if 0 < start then sfail (resume_error snapshotWriteModeReplaceFilterAppend key)
     else if ic_replace_executor (se_cfg W) = executorTrino then ensureSnapshotReplaceFilterAppliedWithTrino W matches key
     else sfail (permanent (new_error (''snapshot_write_mode replace-filter-append for '' @ key @ '' requires snapshot_replace_delete_executor: trino; native filtered delete is disabled because iceberg-go can panic while evaluating manifest metrics with null partition values''))))"

definition ensureSnapshotTruncateAppliedWithTrino :: "sink_env \<Rightarrow> string \<Rightarrow> unit sink_op" where
  "ensureSnapshotTruncateAppliedWithTrino W key =
     sbind (sget (\<lambda>st. table_at st key)) (\<lambda>t.
     sbind (fail_text (snapshotTruncateTrinoSQL (se_cfg W) (st_namespace t) (st_table t))) (\<lambda>_.
     sthen (ext_call W (on_rows (target_of t) (\<lambda>T. [])))
     (sthen (refreshStateTable W key) (smodify (on_table key (\<lambda>t. t\<lparr>st_truncate_applied := True\<rparr>))))))"

definition ensureSnapshotTruncateApplied :: "sink_env \<Rightarrow> string \<Rightarrow> int \<Rightarrow> unit sink_op" where
  "ensureSnapshotTruncateApplied W key start =
     sbind (sget (\<lambda>st. table_at st key)) (\<lambda>t.
     if st_truncate_applied t then sret ()
     else if 0 < start then sfail (resume_error snapshotWriteModeTruncateAppend key)
     else if ic_replace_executor (se_cfg W) = executorTrino then ensureSnapshotTruncateAppliedWithTrino W key
     else sthen (commit_call W (on_rows (target_of t) (\<lambda>T. [])))
       (sthen (updateStateTableAfterWrite W key (st_handle t)) (smodify (on_table key (\<lambda>t. t\<lparr>st_truncate_applied := True\<rparr>)))))"

text \<open>The branches behind the refused native deletes are not reached.\<close>

definition flushSnapshotDeleteAppendOnce :: "sink_env \<Rightarrow> string \<Rightarrow> reduced_batch \<Rightarrow> string sink_op" where
  "flushSnapshotDeleteAppendOnce W key batch =
     (if rb_filter batch = None then flushSnapshotAppendOnce W key (rb_rows batch)
      else if rb_rows batch = [] \<and> rb_deletes batch = [] then sret ''noop''
      else if ic_replace_executor (se_cfg W) = executorTrino
      then sthen (applyKeyDeleteWithTrino W key batch)
             (if rb_rows batch = [] then sret ''snapshot-delete-trino''
              else sthen (sbind (flushSnapshotAppendOnce W key (rb_rows batch)) (\<lambda>_. sret ())) (sret ''snapshot-delete-append-trino''))
      else if rb_deletes batch \<noteq> [] then sfail (unsupportedNativeKeyDeleteError ''snapshot delete-append'' key)
      else sfail (filtered_delete_error ''snapshot delete-append'' key))"

definition flushSnapshotReducedBatchOnce ::
  "sink_env \<Rightarrow> (replace_filter \<Rightarrow> row_data \<Rightarrow> bool) \<Rightarrow> string \<Rightarrow> reduced_batch \<Rightarrow> int \<Rightarrow> string sink_op" where
  "flushSnapshotReducedBatchOnce W matches key batch start =
     sbind (sget (\<lambda>st. snapshotWriteModeForTableState (se_cfg W) (info_of key (table_at st key)))) (\<lambda>mode.
     if mode = snapshotWriteModeAppend then flushSnapshotAppendOnce W key (rb_rows batch)
     else if mode = snapshotWriteModeReplaceFilterAppend
     then sthen (ensureSnapshotReplaceFilterApplied W matches key start) (flushSnapshotAppendOnce W key (rb_rows batch))
     else if mode = snapshotWriteModeTruncateAppend
     then sthen (ensureSnapshotTruncateApplied W key start) (flushSnapshotAppendOnce W key (rb_rows batch))
     else if mode = snapshotWriteModeDeleteAppend then flushSnapshotDeleteAppendOnce W key batch
     else flushReducedBatchOnce W key batch)"

definition snapshot_keys :: "value_lib \<Rightarrow> string list \<Rightarrow> row_data list \<Rightarrow> string + row_data list" where
  "snapshot_keys L pk rows = map_sum id (map fst) (all_inr (map (\<lambda>row. keyFromRow (vl_cell L) row pk) rows))"

definition flushSnapshotRowsOnce ::
  "sink_env \<Rightarrow> (replace_filter \<Rightarrow> row_data \<Rightarrow> bool) \<Rightarrow> string \<Rightarrow> row_data list \<Rightarrow> int \<Rightarrow> string sink_op" where
  "flushSnapshotRowsOnce W matches key rows start =
     sbind (sget (\<lambda>st. table_at st key)) (\<lambda>t.
     sbind (fail_text (table_ready key t)) (\<lambda>(h, src).
     sbind (fail_text (primaryKeysFor (se_cfg W) key src)) (\<lambda>pk.
     sbind (fail_text (snapshot_keys (se_lib W) pk rows)) (\<lambda>keys.
     (let mode = snapshotWriteModeForTableState (se_cfg W) (info_of key t);
          dels = (if mode \<in> {snapshotWriteModeAppend, snapshotWriteModeReplaceFilterAppend, snapshotWriteModeTruncateAppend} then [] else keys) in
      sbind (fail_text (buildKeyFilter (se_lib W) h dels)) (\<lambda>f.
      if f = None \<and> rows = [] then sret ''noop''
      else flushSnapshotReducedBatchOnce W matches key \<lparr>rb_filter = f, rb_deletes = dels, rb_pk = pk, rb_rows = rows\<rparr> start))))))"

definition supportsRollingSnapshotMode :: "string \<Rightarrow> bool" where
  "supportsRollingSnapshotMode mode \<longleftrightarrow>
     mode \<in> {snapshotWriteModeAppend, snapshotWriteModeReplaceFilterAppend, snapshotWriteModeTruncateAppend}"

text \<open>The spool is a local file; writing it is a call. Its size is not limited here.\<close>

definition append_spool_chunk :: "sink_env \<Rightarrow> string \<Rightarrow> row_data list \<Rightarrow> unit sink_op" where
  "append_spool_chunk W key rows =
     sbind (sget (\<lambda>st. table_at st key)) (\<lambda>t.
     sbind (fail_text (table_ready key t)) (\<lambda>(h, src).
     sbind (fail_text (primaryKeysFor (se_cfg W) key src)) (\<lambda>pk.
     sbind (fail_text (snapshot_keys (se_lib W) pk rows)) (\<lambda>_.
     sbind (fail_text (buildRecordReader (se_lib W) h rows)) (\<lambda>_.
     ext_call W (\<lambda>st. on_table key (\<lambda>t. t\<lparr>st_spool := Some ((case st_spool t of None \<Rightarrow> [] | Some r \<Rightarrow> r) @ rows),
       st_touched := Some (now_of W st)\<rparr>) st))))))"

definition appendSnapshotSpool ::
  "sink_env \<Rightarrow> (replace_filter \<Rightarrow> row_data \<Rightarrow> bool) \<Rightarrow> string \<Rightarrow> row_data list \<Rightarrow> int \<Rightarrow> unit sink_op" where
  "appendSnapshotSpool W matches key rows start =
     sbind (sget (\<lambda>st. snapshotWriteModeForTableState (se_cfg W) (info_of key (table_at st key)))) (\<lambda>mode.
     sthen (if mode = snapshotWriteModeReplaceFilterAppend then ensureSnapshotReplaceFilterApplied W matches key start
            else if mode = snapshotWriteModeTruncateAppend then ensureSnapshotTruncateApplied W key start
            else if mode = snapshotWriteModeAppend then sret ()
            else sfail (permanent (new_error (''snapshot rolling spool does not support write mode '' @ mode))))
       (sall (append_spool_chunk W key) (splitRowsByLimits rows (ic_snapshot_batch (se_cfg W)) (ic_max_bytes (se_cfg W)))))"

text \<open>The spool leaves the state before its commit; a failed commit ends the run.\<close>

definition finalizeSnapshotSpool :: "sink_env \<Rightarrow> string \<Rightarrow> unit sink_op" where
  "finalizeSnapshotSpool W key =
     sbind (sget (\<lambda>st. table_at st key)) (\<lambda>t.
     case st_spool t of
       None \<Rightarrow> sret ()
     | Some rows \<Rightarrow>
         sthen (smodify (on_table key (\<lambda>t. t\<lparr>st_spool := None\<rparr>)))
        (sthen (sink_retry W (sthen (refreshStateTable W key) (commit_call W (on_rows (target_of t) (\<lambda>T. T @ rows)))) 0)
        (sbind (sget (\<lambda>st. st_handle (table_at st key))) (updateStateTableAfterWrite W key))))"

definition with_ack :: "event \<Rightarrow> unit sink_op \<Rightarrow> unit sink_op" where
  "with_ack ev m st =
     map_option (\<lambda>(r, st'). (r, if ev_ack ev then st'\<lparr>sk_acks := sk_acks st' @ [case r of Inl e \<Rightarrow> Some e | Inr _ \<Rightarrow> None]\<rparr> else st')) (m st)"

definition cleanupSnapshotSpools :: "sink_state \<Rightarrow> sink_state" where
  "cleanupSnapshotSpools st = st\<lparr>sk_states := map (\<lambda>(k, t). (k, t\<lparr>st_spool := None\<rparr>)) (sk_states st)\<rparr>"

definition handleSnapshotTableComplete :: "sink_env \<Rightarrow> event \<Rightarrow> unit sink_op" where
  "handleSnapshotTableComplete W ev =
     (let key = tableKey (ev_schema ev) (ev_table ev) in
      with_ack ev (sbind (sget (\<lambda>st. map_get (sk_states st) key)) (\<lambda>t'.
        case t' of
          None \<Rightarrow> sret ()
        | Some t \<Rightarrow>
            if \<not> ev_rolling ev \<or> \<not> se_rolling W \<or> st_spool t = None then sret ()
            else sthen (if st_handle t = None then ensureOperationalState W key else sret ()) (finalizeSnapshotSpool W key))))"

definition handleSnapshotBarrier :: "sink_env \<Rightarrow> event \<Rightarrow> unit sink_op" where
  "handleSnapshotBarrier W ev =
     with_ack ev
       (if ev_type ev = EventTypeSnapshotStart then smodify cleanupSnapshotSpools
        else sbind (sget (\<lambda>st. list_ex (\<lambda>(k, t). st_spool t \<noteq> None) (sk_states st))) (\<lambda>spooled.
          if spooled then sfail (new_error ''snapshot completion BLOCKED: uncommitted rolling spool'')
          else sthen (flushAll W) (if se_store W then ext_call W (\<lambda>s. s\<lparr>sk_done := True\<rparr>) else sret ())))"

definition flush_chunk :: "sink_env \<Rightarrow> (replace_filter \<Rightarrow> row_data \<Rightarrow> bool) \<Rightarrow> string \<Rightarrow> row_data list \<times> int \<Rightarrow> unit sink_op" where
  "flush_chunk W matches key chunk =
     sbind (sink_retry W (sthen (refreshStateTable W key) (flushSnapshotRowsOnce W matches key (fst chunk) (snd chunk))) 0) (\<lambda>_. sret ())"

text \<open>The parts of the spans that were not written by an earlier process, each with its offset.\<close>

fun with_offsets :: "int \<Rightarrow> row_data list list \<Rightarrow> (row_data list \<times> int) list" where
  "with_offsets off [] = []"
| "with_offsets off (rows # rest) = (rows, off) # with_offsets (off + int (length rows)) rest"

definition snapshot_chunks :: "sink_env \<Rightarrow> recovery_state \<Rightarrow> string \<Rightarrow> event \<Rightarrow> (row_data list \<times> int) list" where
  "snapshot_chunks W rec key ev =
     concat (map (\<lambda>(rows, start). with_offsets start (splitRowsByLimits rows (ic_snapshot_batch (se_cfg W)) (ic_max_bytes (se_cfg W))))
       (unrecoveredSnapshotRows rec key (ev_start ev) (ev_rows ev)))"

definition handleSnapshotBatch :: "sink_env \<Rightarrow> (replace_filter \<Rightarrow> row_data \<Rightarrow> bool) \<Rightarrow> event \<Rightarrow> unit sink_op" where
  "handleSnapshotBatch W matches ev =
     (let key = tableKey (ev_schema ev) (ev_table ev) in
      with_ack ev
        (if ev_rows ev = [] then sret ()
         else sthen (ensureOperationalState W key)
        (sthen (flushPriorPendingForTarget W key)
        (sthen (flushState W key)
        (sbind (sget (\<lambda>st. st)) (\<lambda>st.
         if ev_rolling ev \<and> unrecoveredSnapshotRows (sk_recovery st) key (ev_start ev) (ev_rows ev) = [] then sret ()
         else if ev_rolling ev \<and> se_rolling W \<and>
             supportsRollingSnapshotMode (snapshotWriteModeForTableState (se_cfg W) (info_of key (table_at st key)))
         then sthen (if ev_start ev = 0 then smodify (on_table key (\<lambda>t. t\<lparr>st_spool := None\<rparr>)) else sret ())
                (appendSnapshotSpool W matches key (ev_rows ev) (ev_start ev))
         else sthen (sall (flush_chunk W matches key) (snapshot_chunks W (sk_recovery st) key ev))
             (sthen (smodify (\<lambda>st. on_table key (\<lambda>t. t\<lparr>st_touched := Some (now_of W st)\<rparr>) st)) (commitPendingOffset W True))))))))"

section \<open>DDL\<close>

definition isCreateTableDDL :: "string \<Rightarrow> bool" where
  "isCreateTableDDL ddl \<longleftrightarrow>
     has_prefix ''create table''
       (trim_space (to_lower (replace_all [CHR 0x09] '' '' (replace_all [CHR 0x0A] '' '' ddl))))"

fun ddl_ops :: "schema_policy \<Rightarrow> ddl_action list \<Rightarrow> string + schema_op list" where
  "ddl_ops cfg [] = Inr []"
| "ddl_ops cfg (a # as) =
     (case applyDDLAction cfg a of
        Inl e \<Rightarrow> Inl e
      | Inr ops \<Rightarrow> (case ddl_ops cfg as of Inl e \<Rightarrow> Inl e | Inr ops' \<Rightarrow> Inr (ops @ ops')))"

definition ddl_attempt :: "sink_env \<Rightarrow> string \<Rightarrow> ddl_action list \<Rightarrow> unit sink_op" where
  "ddl_attempt W key plan =
     sthen (refreshStateTable W key)
     (sbind (sget (\<lambda>st. table_at st key)) (\<lambda>t.
      if ddlActionsAlreadyApplied (ic_policy (se_cfg W)) (st_handle t) plan then sret ()
      else sbind (fail_text (ddl_ops (ic_policy (se_cfg W)) plan)) (\<lambda>ops.
        sbind (fail_text (se_update W (handle_schema t) ops)) (\<lambda>sc.
        sthen (commit_call W (\<lambda>s. s\<lparr>sk_catalog := (sk_catalog s)(target_of t := Some sc)\<rparr>))
          (smodify (on_table key (\<lambda>t. t\<lparr>st_handle := Some sc\<rparr>)))))))"

definition run_plan :: "sink_env \<Rightarrow> string \<Rightarrow> ddl_action list \<Rightarrow> unit sink_op" where
  "run_plan W key plan =
     sbind (sget (\<lambda>st. applyDDLToSourceSchema (st_schema (table_at st key)) plan)) (\<lambda>desired.
     sthen (sink_retry W (ddl_attempt W key plan) 0)
       (smodify (\<lambda>st. on_table key (\<lambda>t. t\<lparr>st_schema := desired, st_touched := Some (now_of W st)\<rparr>)
         (updateTargetTableStatesLocked (target_of (table_at st key)) (st_handle (table_at st key)) (now_of W st) st))))"

definition applyDDL :: "sink_env \<Rightarrow> string \<Rightarrow> event \<Rightarrow> unit sink_op" where
  "applyDDL W key ev =
     (case (isCreateTableDDL (ev_ddl ev), ev_source_schema ev) of
        (True, Some src) \<Rightarrow> EnsureTable W (ResolveTarget (se_cfg W) (ts_schema src) (ts_table src)) src
      | _ \<Rightarrow>
          sbind (fail_text (if ev_changes ev = [] then ParseMySQLDDL (se_parse W) (ev_ddl ev) else Inr (ev_changes ev))) (\<lambda>changes.
          sbind (fail_text (ddlActionsFromSchemaChanges changes)) (\<lambda>(plan, skip).
          if skip \<or> plan = [] then sret () else run_plan W key plan)))"

section \<open>The loop\<close>

definition accept_event :: "sink_env \<Rightarrow> string \<Rightarrow> event \<Rightarrow> sink_state \<Rightarrow> sink_state" where
  "accept_event W key ev st =
     on_table key (\<lambda>t. t\<lparr>st_first := (if st_pending t = [] then Some (now_of W st) else st_first t),
       st_pending := st_pending t @ [ev], st_bytes := st_bytes t + estimateEventBytes ev,
       st_last_event := Some (now_of W st), st_touched := Some (now_of W st)\<rparr>) st"

definition pendingBytesLimitReached :: "sink_env \<Rightarrow> sink_table \<Rightarrow> bool" where
  "pendingBytesLimitReached W t \<longleftrightarrow> 0 < ic_max_bytes (se_cfg W) \<and> ic_max_bytes (se_cfg W) \<le> st_bytes t"

text \<open>The result tells whether an earlier process wrote the event.\<close>

definition skip_recovered :: "sink_env \<Rightarrow> event \<Rightarrow> bool sink_op" where
  "skip_recovered W ev st =
     (case skipRecoveredCDCEvent (se_codec W) (se_model W ev) (sk_recovery st) of
        (Inl e, rec) \<Rightarrow> sfail (permanent (new_error e)) (st\<lparr>sk_recovery := rec\<rparr>)
      | (Inr b, rec) \<Rightarrow> sret b (st\<lparr>sk_recovery := rec\<rparr>))"

definition handle_row_event :: "sink_env \<Rightarrow> event \<Rightarrow> unit sink_op" where
  "handle_row_event W ev =
     (let key = tableKey (ev_schema ev) (ev_table ev) in
      sbind (skip_recovered W ev) (\<lambda>skipped.
      if skipped then sret ()
      else sthen (ensureOperationalState W key)
          (sthen (flushPriorPendingForTarget W key)
            (if ev_type ev = EventTypeDDL then sthen (flushState W key) (applyDDL W key ev)
             else sthen (smodify (accept_event W key ev))
               (sbind (sget (\<lambda>st. table_at st key)) (\<lambda>t.
                if ic_batch (se_cfg W) \<le> int (length (st_pending t)) \<or> pendingBytesLimitReached W t
                then flushState W key else sret ()))))))"

definition handleEvent :: "sink_env \<Rightarrow> (replace_filter \<Rightarrow> row_data \<Rightarrow> bool) \<Rightarrow> event \<Rightarrow> unit sink_op" where
  "handleEvent W matches ev =
     (if ev_type ev = EventTypeSnapshotStart \<or> ev_type ev = EventTypeSnapshotComplete then handleSnapshotBarrier W ev
      else if ev_type ev = EventTypeCheckpoint
      then sthen (smodify (rememberOffset (ev_offset ev))) (commitPendingOffset W False)
      else if ev_type ev = EventTypeSnapshotBatch then handleSnapshotBatch W matches ev
      else if ev_type ev = EventTypeSnapshotTableEnd then handleSnapshotTableComplete W ev
      else handle_row_event W ev)"

text \<open>What the loop receives: an event, a tick, the end of the channel or a cancelled context.\<close>

datatype sink_input = GotEvent event | GotTick int | GotClose | GotCancel go_error

definition check_owned :: "sink_env \<Rightarrow> unit sink_op" where
  "check_owned W st =
     (case ext_call W (\<lambda>s. s) st of Some (Inl e, st1) \<Rightarrow> sfail (permanent e) st1 | r \<Rightarrow> r)"

text \<open>\<open>True\<close>: the loop goes on.\<close>

definition sink_turn :: "sink_env \<Rightarrow> (replace_filter \<Rightarrow> row_data \<Rightarrow> bool) \<Rightarrow> sink_input \<Rightarrow> bool sink_op" where
  "sink_turn W matches inp =
     (case inp of
        GotCancel e \<Rightarrow> sfail e
      | GotEvent ev \<Rightarrow> sthen (check_owned W) (sthen (handleEvent W matches ev) (sret True))
      | GotClose \<Rightarrow> sthen (check_owned W) (sthen (flushAll W) (sret False))
      | GotTick now \<Rightarrow> sthen (flushDue W now) (sthen (smodify (evictIdle W now)) (sret True)))"

fun sink_run :: "sink_env \<Rightarrow> (replace_filter \<Rightarrow> row_data \<Rightarrow> bool) \<Rightarrow> sink_input list \<Rightarrow> unit sink_op" where
  "sink_run W matches [] = sret ()"
| "sink_run W matches (i # is) = sbind (sink_turn W matches i) (\<lambda>go. if go then sink_run W matches is else sret ())"

section \<open>What an operation leaves alone\<close>

text \<open>
  The events of a table in the order they were accepted: those of its logged flushes, then the pending ones.
\<close>

definition pend :: "sink_state \<Rightarrow> string \<Rightarrow> event list" where
  "pend st key = st_pending (table_at st key)"

definition flushed :: "sink_state \<Rightarrow> string \<Rightarrow> event list" where
  "flushed st key = concat (map snd (filter (\<lambda>(k, evs). k = key) (sk_flushes st)))"

definition accepted_line :: "sink_state \<Rightarrow> string \<Rightarrow> event list" where
  "accepted_line st key = flushed st key @ pend st key"

definition quiet :: "sink_state \<Rightarrow> sink_state \<Rightarrow> bool" where
  "quiet st st' \<longleftrightarrow>
     sk_flushes st' = sk_flushes st \<and> (\<forall>key. pend st' key = pend st key) \<and> sk_offset st' = sk_offset st \<and>
     sk_saved st' = sk_saved st \<and> sk_recovery st' = sk_recovery st"

text \<open>A step that accepts no event: it may flush, and save the remembered offset once nothing is pending.\<close>

definition advances :: "sink_state \<Rightarrow> sink_state \<Rightarrow> bool" where
  "advances st st' \<longleftrightarrow>
     (\<forall>key. accepted_line st' key = accepted_line st key \<and> prefix (flushed st key) (flushed st' key)) \<and>
     (sk_offset st' = sk_offset st \<or> sk_offset st' = None) \<and> sk_recovery st' = sk_recovery st \<and>
     (sk_saved st' = sk_saved st \<or>
      sk_saved st' = sk_offset st \<and> sk_offset st \<noteq> None \<and> (\<forall>key. flushed st' key = accepted_line st key))"

definition each_result :: "(sink_state \<Rightarrow> sink_state \<Rightarrow> bool) \<Rightarrow> 'a sink_op \<Rightarrow> bool" where
  "each_result R m \<longleftrightarrow> (\<forall>st r st'. m st = Some (r, st') \<longrightarrow> R st st')"

lemma each_resultD: "\<lbrakk>each_result R m; m st = Some (r, st')\<rbrakk> \<Longrightarrow> R st st'"
  by (simp add: each_result_def)

text \<open>
  What every result of an operation keeps to: a relation that is reflexive and transitive passes from the parts of
  an operation to the whole.
\<close>

locale sink_relation =
  fixes R :: "sink_state \<Rightarrow> sink_state \<Rightarrow> bool"
  assumes refl: "R st st"
    and trans: "\<lbrakk>R a b; R b c\<rbrakk> \<Longrightarrow> R a c"
begin

lemma rel_bind:
  assumes "each_result R m" "\<And>x. each_result R (f x)"
  shows "each_result R (sbind m f)"
  unfolding each_result_def
proof (intro allI impI)
  fix st r st' assume b: "sbind m f st = Some (r, st')"
  show "R st st'"
  proof (cases "m st")
    case None
    then show ?thesis using b by (simp add: sbind_def)
  next
    case (Some p)
    then obtain q st1 where m: "m st = Some (q, st1)" by (cases p) auto
    note R1 = each_resultD [OF assms(1) m]
    show ?thesis
    proof (cases q)
      case (Inl e)
      then show ?thesis using b m R1 by (simp add: sbind_def)
    next
      case (Inr x)
      then have "f x st1 = Some (r, st')" using b m by (simp add: sbind_def)
      then show ?thesis using trans [OF R1 each_resultD [OF assms(2)]] by blast
    qed
  qed
qed

lemma rel_retry:
  assumes m: "each_result R m"
  shows "each_result R (sink_retry W m n)"
  unfolding each_result_def
proof (intro allI impI)
  fix st r st' assume "sink_retry W m n st = Some (r, st')"
  then have "each_result R m \<longrightarrow> R st (snd (r, st'))"
  proof (rule sink_retry.raw_induct [where P = "\<lambda>W m n st y. each_result R m \<longrightarrow> R st (snd y)", rotated])
    fix f W m n st y
    assume IH: "\<And>W m n st y. f W m n st = Some y \<Longrightarrow> each_result R m \<longrightarrow> R st (snd y)"
      and b: "Option.bind (m st) (\<lambda>(r, st').
       case r of Inl e \<Rightarrow>
           if IsPermanent e then Some (Inl e, st')
           else if 0 < se_attempts W \<and> se_attempts W \<le> int (Suc n) then Some (Inl e, st')
           else (case se_backoff W n of Some c \<Rightarrow> Some (Inl c, st') | None \<Rightarrow> f W m (Suc n) st')
         | Inr x \<Rightarrow> Some (Inr x, st')) = Some y"
    show "each_result R m \<longrightarrow> R st (snd y)"
    proof
      assume m: "each_result R m"
      obtain q st1 where q: "m st = Some (q, st1)" using b by (cases "m st") auto
      note R1 = each_resultD [OF m q]
      have "snd y = st1 \<or> f W m (Suc n) st1 = Some y" using b q by (auto split: option.splits if_splits sum.splits)
      then show "R st (snd y)" using IH m R1 trans by metis
    qed
  qed
  then show "R st st'" using m by simp
qed

lemma rel_simple: "each_result R (sret x)" "each_result R (sfail e)" "each_result R (sget f)" "each_result R (fail_text t)"
  using refl by (auto simp: each_result_def sret_def sfail_def sget_def fail_text_def split: sum.splits)

lemma rel_modify: "(\<And>st. R st (g st)) \<Longrightarrow> each_result R (smodify g)"
  by (auto simp: each_result_def smodify_def)

lemma rel_seq: "each_result R m \<Longrightarrow> each_result R k \<Longrightarrow> each_result R (sthen m k)"
  by (simp add: sthen_def rel_bind)

lemma rel_all: "(\<And>x. each_result R (f x)) \<Longrightarrow> each_result R (sall f xs)"
  by (induction xs) (simp_all add: rel_simple rel_seq)

end

lemma table_at_on_table [simp]: "table_at (on_table k f st) k' = (if k' = k then f (table_at st k) else table_at st k')"
  by (simp add: table_at_def on_table_def)

lemma on_table_fields [simp]:
  "sk_flushes (on_table k f st) = sk_flushes st" "sk_offset (on_table k f st) = sk_offset st" "sk_saved (on_table k f st) = sk_saved st"
  "sk_recovery (on_table k f st) = sk_recovery st" "sk_tables (on_table k f st) = sk_tables st" "sk_calls (on_table k f st) = sk_calls st"
  "sk_catalog (on_table k f st) = sk_catalog st"
  by (simp_all add: on_table_def)

lemma table_at_update [simp]:
  "table_at (st\<lparr>sk_calls := n\<rparr>) k = table_at st k" "table_at (st\<lparr>sk_tables := T\<rparr>) k = table_at st k"
  "table_at (st\<lparr>sk_catalog := C\<rparr>) k = table_at st k" "table_at (st\<lparr>sk_done := b\<rparr>) k = table_at st k"
  "table_at (st\<lparr>sk_last_cleanup := c\<rparr>) k = table_at st k" "table_at (st\<lparr>sk_cleanup := o'\<rparr>) k = table_at st k"
  "table_at (st\<lparr>sk_acks := a\<rparr>) k = table_at st k" "table_at (st\<lparr>sk_saved := o'\<rparr>) k = table_at st k"
  "table_at (st\<lparr>sk_offset := o'\<rparr>) k = table_at st k" "table_at (st\<lparr>sk_last_commit := c\<rparr>) k = table_at st k"
  "table_at (st\<lparr>sk_flushes := fl\<rparr>) k = table_at st k" "table_at (st\<lparr>sk_recovery := r\<rparr>) k = table_at st k"
  by (simp_all add: table_at_def)

lemma map_get_map: "map_get (map (\<lambda>(k, t). (k, g k t)) xs) key = map_option (g key) (map_get xs key)"
  by (induction xs) (auto simp: map_get_def)

lemma table_at_map:
  "table_at (st\<lparr>sk_states := map (\<lambda>(k, t). (k, g t)) (sk_states st)\<rparr>) key =
     (if map_get (sk_states st) key = None then blank_table else g (table_at st key))"
  by (auto simp: table_at_def map_get_map [of "\<lambda>k. g"] split: option.splits)

interpretation quiet: sink_relation quiet
  by unfold_locales (simp_all add: quiet_def)

declare quiet.refl [simp]

lemma quiet_map:
  "(\<And>t. st_pending (g t) = st_pending t) \<Longrightarrow> quiet st (st\<lparr>sk_states := map (\<lambda>(k, t). (k, g t)) (sk_states st)\<rparr>)"
  by (auto simp: quiet_def pend_def table_at_map) (auto simp: table_at_def blank_table_def)

lemma quiet_on_table: "(\<And>t. st_pending (f t) = st_pending t) \<Longrightarrow> quiet st (on_table k f st)"
  by (simp add: quiet_def pend_def)

lemma quiet_target: "quiet st (updateTargetTableStatesLocked tg h now st)"
  unfolding updateTargetTableStatesLocked_def by (rule quiet_map) simp

lemma quiet_fields:
  "quiet st (st\<lparr>sk_calls := n\<rparr>)" "quiet st (st\<lparr>sk_tables := T\<rparr>)" "quiet st (st\<lparr>sk_catalog := C\<rparr>)" "quiet st (st\<lparr>sk_done := b\<rparr>)"
  "quiet st (st\<lparr>sk_acks := a\<rparr>)" "quiet st (on_rows tg f st)"
  by (simp_all add: quiet_def pend_def on_rows_def)

lemma quiet_calls:
  "(\<And>st. quiet st (eff st)) \<Longrightarrow> each_result quiet (ext_call W eff)"
  "(\<And>st. quiet st (eff st)) \<Longrightarrow> each_result quiet (commit_call W eff)"
  using quiet.trans [OF quiet_fields(1)]
  by (auto simp: each_result_def ext_call_def commit_call_def Let_def quiet_fields split: option.splits if_splits)

lemma each_result_cases:
  "\<lbrakk>each_result R a; each_result R b\<rbrakk> \<Longrightarrow> each_result R (if P then a else b)"
  "\<lbrakk>each_result R a; \<And>x. each_result R (f x)\<rbrakk> \<Longrightarrow> each_result R (case o' of None \<Rightarrow> a | Some x \<Rightarrow> f x)"
  "\<lbrakk>\<And>x. each_result R (g x); \<And>y. each_result R (h y)\<rbrakk> \<Longrightarrow> each_result R (case s' of Inl x \<Rightarrow> g x | Inr y \<Rightarrow> h y)"
  "(\<And>x y. each_result R (k x y)) \<Longrightarrow> each_result R (case p of (x, y) \<Rightarrow> k x y)"
  "\<lbrakk>each_result R a; each_result R b\<rbrakk> \<Longrightarrow> each_result R (case c of True \<Rightarrow> a | False \<Rightarrow> b)"
  by (auto split: option.splits sum.splits prod.splits bool.splits)

lemmas quiet_intros = quiet.rel_seq quiet.rel_bind quiet.rel_all quiet.rel_retry quiet.rel_simple quiet.rel_modify quiet_calls each_result_cases
  quiet.refl quiet_fields quiet_target quiet_on_table

lemma quiet_load: "each_result quiet (load_table W tg)"
  unfolding load_table_def by (intro quiet_intros)

lemma quiet_refresh: "each_result quiet (refreshStateTable W key)"
  unfolding refreshStateTable_def
  by (intro quiet_intros quiet_load quiet.trans [OF quiet_target quiet_on_table]) simp_all

lemma quiet_after_write: "each_result quiet (updateStateTableAfterWrite W key h)"
  unfolding updateStateTableAfterWrite_def by (intro quiet_intros quiet.trans [OF quiet_on_table quiet_target]) simp_all

lemma quiet_append: "each_result quiet (append_rows W key rows)"
  unfolding append_rows_def by (intro quiet_intros)

lemma quiet_snapshot_append: "each_result quiet (flushSnapshotAppendOnce W key rows)"
  unfolding flushSnapshotAppendOnce_def by (intro quiet_intros quiet_append quiet_after_write)

lemma quiet_trino_delete: "each_result quiet (applyKeyDeleteWithTrino W key batch)"
  unfolding applyKeyDeleteWithTrino_def by (intro quiet_intros quiet_refresh)

lemma quiet_shadowed: "each_result quiet (append_shadowed W key rows)"
proof -
  have "quiet st st'" if a: "append_shadowed W key rows st = Some (r, st')" for st r st'
  proof -
    let ?m = "sbind (sget (\<lambda>st. table_at st key)) (\<lambda>t. fail_text (buildRecordReader (se_lib W) (handle_schema t) rows))"
    obtain q st1 where m: "?m st = Some (q, st1)" using a by (cases "?m st") (auto simp: append_shadowed_def)
    have "each_result quiet ?m" by (intro quiet_intros)
    then have q1: "quiet st st1" using m unfolding each_result_def by blast
    show ?thesis
    proof (cases q)
      case (Inl e)
      then show ?thesis using a m q1 by (simp add: append_shadowed_def)
    next
      case (Inr x)
      let ?c = "commit_call W (on_rows (target_of (table_at st1 key)) (\<lambda>T. T @ rows))"
      obtain q2 st2 where c: "?c st1 = Some (q2, st2)" using a m Inr by (cases "?c st1") (auto simp: append_shadowed_def)
      have "each_result quiet ?c" by (intro quiet_intros)
      then have q2: "quiet st1 st2" using c unfolding each_result_def by blast
      have w: "each_result quiet (sthen (updateStateTableAfterWrite W key h) (sret ''append''))" for h
        by (intro quiet_intros quiet_after_write)
      have "\<exists>h. sthen (updateStateTableAfterWrite W key h) (sret ''append'') st2 = Some (r, st')"
        using a m Inr c by (cases q2) (auto simp: append_shadowed_def Let_def)
      then have "quiet st2 st'" using w unfolding each_result_def by blast
      then show ?thesis using q1 q2 quiet.trans by blast
    qed
  qed
  then show ?thesis by (simp add: each_result_def)
qed

lemma quiet_reduced: "each_result quiet (flushReducedBatchOnce W key batch)"
  unfolding flushReducedBatchOnce_def flushReducedBatchWithTrinoDeleteOnce_def flushReducedBatchWithEqualityDeleteOnce_def Let_def
  by (intro quiet_intros quiet_trino_delete quiet_append quiet_after_write quiet_shadowed)

lemma quiet_flush_once: "each_result quiet (flushEventsOnce W key events)"
  unfolding flushEventsOnce_def by (intro quiet_intros quiet_reduced)

lemma quiet_attempt: "each_result quiet (flush_attempt W key events)"
  unfolding flush_attempt_def by (intro quiet_intros quiet_refresh quiet_flush_once)

lemma quiet_create: "each_result quiet (loadOrCreateTable W tg schema pk)"
proof -
  have "quiet st st'" if a: "loadOrCreateTable W tg schema pk st = Some (r, st')" for st r st'
  proof -
    obtain q st1 where m: "load_table W tg st = Some (q, st1)" using a by (cases "load_table W tg st") (auto simp: loadOrCreateTable_def)
    have q1: "quiet st st1" by (rule each_resultD [OF quiet_load m])
    show ?thesis
    proof (cases q)
      case (Inr sc)
      then show ?thesis using a m q1 by (simp add: loadOrCreateTable_def sret_def)
    next
      case (Inl e)
      obtain q2 st2 where c: "ext_call W (\<lambda>s. s) st1 = Some (q2, st2)" by (cases "ext_call W (\<lambda>s. s) st1") (auto simp: ext_call_def Let_def split: option.splits)
      have "each_result quiet (ext_call W (\<lambda>s. s))" by (intro quiet_intros)
      then have q2: "quiet st1 st2" using c unfolding each_result_def by blast
      let ?load = "sbind (load_table W tg) (\<lambda>sc. sret (sc, False))"
      let ?create = "sthen (commit_call W (\<lambda>s. if sk_catalog s tg = None
          then s\<lparr>sk_catalog := (sk_catalog s)(tg := Some (buildIcebergSchema schema pk)), sk_tables := (sk_tables s)(tg := [])\<rparr> else s))
          (if sk_catalog st2 tg = None then sret (buildIcebergSchema schema pk, True) else sfail (new_error ''table already exists''))"
      have "each_result quiet ?load" by (intro quiet_intros quiet_load)
      moreover have "each_result quiet ?create" by (intro quiet_intros) (auto simp: quiet_def pend_def)
      moreover have "?load st2 = Some (r, st') \<or> ?create st2 = Some (r, st')"
        using a m Inl c by (auto simp: loadOrCreateTable_def Let_def split: if_splits)
      ultimately have "quiet st2 st'" unfolding each_result_def by blast
      then show ?thesis using q1 q2 quiet.trans by blast
    qed
  qed
  then show ?thesis by (simp add: each_result_def)
qed

lemma quiet_ensure: "each_result quiet (EnsureTable W tg src)"
  unfolding EnsureTable_def Let_def sync_table_schema_def append_safe_def
  by (intro quiet_intros quiet_create quiet.trans [OF quiet_on_table quiet_target]) simp_all

lemma quiet_operational: "each_result quiet (ensureOperationalState W key)"
  unfolding ensureOperationalState_def by (intro quiet_intros quiet_ensure) simp_all

lemma quiet_snapshot_rows: "each_result quiet (flushSnapshotRowsOnce W matches key rows start)"
  unfolding flushSnapshotRowsOnce_def flushSnapshotReducedBatchOnce_def flushSnapshotDeleteAppendOnce_def Let_def
    ensureSnapshotReplaceFilterApplied_def ensureSnapshotReplaceFilterAppliedWithTrino_def
    ensureSnapshotTruncateApplied_def ensureSnapshotTruncateAppliedWithTrino_def
  by (intro quiet_intros quiet_reduced quiet_snapshot_append quiet_trino_delete quiet_refresh quiet_after_write) simp_all

lemma quiet_spool: "each_result quiet (appendSnapshotSpool W matches key rows start)"
  unfolding appendSnapshotSpool_def append_spool_chunk_def
    ensureSnapshotReplaceFilterApplied_def ensureSnapshotReplaceFilterAppliedWithTrino_def
    ensureSnapshotTruncateApplied_def ensureSnapshotTruncateAppliedWithTrino_def
  by (intro quiet_intros quiet_refresh quiet_after_write) simp_all

lemma quiet_finalize: "each_result quiet (finalizeSnapshotSpool W key)"
  unfolding finalizeSnapshotSpool_def by (intro quiet_intros quiet_refresh quiet_after_write) simp_all

lemma quiet_ddl: "each_result quiet (applyDDL W key ev)"
  unfolding applyDDL_def run_plan_def ddl_attempt_def
  by (intro quiet_intros quiet_ensure quiet_refresh quiet.trans [OF quiet_target quiet_on_table]) simp_all

section \<open>What saves the checkpoint\<close>

lemma accepted_line_prefix: "prefix (flushed st key) (accepted_line st key)"
  by (simp add: accepted_line_def)

lemma advances_trans:
  assumes "advances a b" "advances b c"
  shows "advances a c"
proof -
  have off: "sk_offset c = sk_offset a \<or> sk_offset c = None" and rec: "sk_recovery c = sk_recovery a"
    and line: "\<And>key. accepted_line c key = accepted_line a key" and pre: "\<And>key. prefix (flushed a key) (flushed c key)"
    using assms unfolding advances_def by (auto intro: prefix_order.trans)
  have full: "flushed c key = accepted_line a key" if "flushed b key = accepted_line a key" for key
    using that assms(2) line [of key] accepted_line_prefix [of c key] by (metis advances_def prefix_order.antisym)
  have "sk_saved c = sk_saved a \<or> sk_saved c = sk_offset a \<and> sk_offset a \<noteq> None \<and> (\<forall>key. flushed c key = accepted_line a key)"
  proof (cases "sk_saved c = sk_saved b")
    case True
    then show ?thesis using assms(1) full unfolding advances_def by auto
  next
    case False
    then have s: "sk_saved c = sk_offset b" "sk_offset b \<noteq> None" "\<forall>key. flushed c key = accepted_line b key"
      using assms(2) unfolding advances_def by auto
    then show ?thesis using assms(1) unfolding advances_def by auto
  qed
  then show ?thesis using off rec line pre by (simp add: advances_def)
qed

interpretation advance: sink_relation advances
  by unfold_locales (simp add: advances_def, rule advances_trans)

declare advance.refl [simp]

lemma quiet_advances: "quiet a b \<Longrightarrow> advances a b"
  by (simp add: quiet_def advances_def accepted_line_def flushed_def)

lemma each_quiet_advances: "each_result quiet m \<Longrightarrow> each_result advances m"
  using quiet_advances unfolding each_result_def by blast

lemma not_pending: "\<not> hasPendingEventsLocked st \<Longrightarrow> pend st key = []"
  by (auto simp: hasPendingEventsLocked_def pend_def table_at_def list_ex_iff blank_table_def map_get_def dest!: map_of_SomeD split: option.splits)

lemma quiet_cleanup: "each_result quiet (cleanupPendingCheckpoint W)"
proof -
  have "quiet st st'" if a: "cleanupPendingCheckpoint W st = Some (r, st')" for st r st'
  proof -
    let ?st0 = "st\<lparr>sk_last_cleanup := Some (now_of W st)\<rparr>"
    have q0: "quiet st ?st0" by (simp add: quiet_def pend_def)
    obtain q st1 where c: "ext_call W (\<lambda>s. s) ?st0 = Some (q, st1)"
      by (cases "ext_call W (\<lambda>s. s) ?st0") (auto simp: ext_call_def Let_def split: option.splits)
    have "each_result quiet (ext_call W (\<lambda>s. s))" by (intro quiet_intros)
    then have q1: "quiet ?st0 st1" using c unfolding each_result_def by blast
    have "st' = st \<or> st' = st1 \<or> st' = st1\<lparr>sk_cleanup := None, sk_last_cleanup := None\<rparr>"
      using a c by (auto simp: cleanupPendingCheckpoint_def Let_def sret_def sfail_def split: if_splits sum.splits)
    moreover have "quiet st1 (st1\<lparr>sk_cleanup := None, sk_last_cleanup := None\<rparr>)" by (simp add: quiet_def pend_def)
    ultimately show ?thesis using quiet.trans [OF q0 q1] quiet.trans quiet.refl by blast
  qed
  then show ?thesis by (simp add: each_result_def)
qed

lemma save_offset_advances:
  assumes "save_offset W off st = Some (r, st')" "sk_offset st = Some off" "\<not> hasPendingEventsLocked st"
  shows "advances st st'"
proof -
  have full: "flushed st key = accepted_line st key" for key using not_pending [OF assms(3)] by (simp add: accepted_line_def)
  obtain q st1 where c: "ext_call W (\<lambda>s. s\<lparr>sk_saved := Some off\<rparr>) st = Some (q, st1)"
    by (cases "ext_call W (\<lambda>s. s\<lparr>sk_saved := Some off\<rparr>) st") (auto simp: ext_call_def Let_def split: option.splits)
  have f1: "sk_flushes st1 = sk_flushes st" "sk_offset st1 = sk_offset st" "sk_recovery st1 = sk_recovery st" "pend st1 key = pend st key"
    "sk_saved st1 = sk_saved st \<or> sk_saved st1 = Some off" for key
    using c by (auto simp: ext_call_def Let_def pend_def split: option.splits if_splits)
  have a1: "advances st st1" using f1 full assms(2) by (simp add: advances_def accepted_line_def flushed_def)
  define st2 where "st2 = st1\<lparr>sk_last_commit := Some (now_of W st1), sk_cleanup := Some off,
                 sk_offset := (case sk_offset st1 of None \<Rightarrow> None
                               | Some p \<Rightarrow> if so_file p = so_file off \<and> so_pos p = so_pos off then None else Some p)\<rparr>"
  have a2: "advances st1 st2" by (auto simp: st2_def advances_def accepted_line_def flushed_def pend_def split: option.split)
  have "st' = st1 \<or> cleanupPendingCheckpoint W st2 = Some (r, st')"
    using assms(1) c by (auto simp: save_offset_def sret_def sfail_def st2_def split: sum.splits if_splits)
  then show ?thesis
  proof
    assume "cleanupPendingCheckpoint W st2 = Some (r, st')"
    then have "advances st2 st'" using each_resultD [OF quiet_cleanup] quiet_advances by blast
    then show ?thesis using a1 a2 advances_trans by blast
  qed (use a1 in simp)
qed

lemma commit_advances: "each_result advances (commitPendingOffset W force)"
proof -
  let ?k = "\<lambda>st. case sk_offset st of
         None \<Rightarrow> sret ()
       | Some off \<Rightarrow>
           if hasPendingEventsLocked st then sret ()
           else if \<not> checkpointSaveDueLocked W (now_of W st) force st then sret ()
           else (case checkRecoveryReplayComplete (se_codec W) (Some off) (sk_recovery st) of
                   Some e \<Rightarrow> sfail (permanent (new_error e))
                 | None \<Rightarrow> save_offset W off)"
  have "each_result advances (sbind (sget (\<lambda>st. st)) ?k)"
  proof -
    have "advances st st'" if "?k st st = Some (r, st')" for st r st'
      using that save_offset_advances [of W _ st r st'] by (auto simp: sret_def sfail_def split: option.splits if_splits)
    then show ?thesis by (simp add: each_result_def sbind_def sget_def)
  qed
  note k = advance.rel_seq [OF each_quiet_advances [OF quiet_cleanup] this]
  show ?thesis unfolding commitPendingOffset_def
    by (rule advance.rel_bind [OF advance.rel_simple(3) each_result_cases(1) [OF advance.rel_simple(1) k]])
qed

text \<open>A flush moves the pending events of its table to the log.\<close>

lemma settle_advances: "pend st key = events \<Longrightarrow> advances st (settle_flush W key events st)"
  by (auto simp: settle_flush_def advances_def accepted_line_def flushed_def pend_def Let_def)

lemma flush_advances: "each_result advances (flushState W key)"
proof -
  have "advances st st'" if a: "flushState W key st = Some (r, st')" for st r st'
  proof (cases "pend st key = []")
    case True
    then show ?thesis using a by (simp add: flushState_def sbind_def sget_def sret_def pend_def)
  next
    case False
    let ?evs = "pend st key"
    obtain q st1 where m: "sink_retry W (flush_attempt W key ?evs) 0 st = Some (q, st1)"
      using a False by (cases "sink_retry W (flush_attempt W key ?evs) 0 st") (auto simp: flushState_def sbind_def sget_def pend_def)
    have q1: "quiet st st1" using each_resultD [OF quiet.rel_retry [OF quiet_attempt] m] .
    show ?thesis
    proof (cases q)
      case (Inl e)
      then show ?thesis using a False m q1 by (simp add: flushState_def sbind_def sget_def pend_def quiet_advances)
    next
      case (Inr x)
      let ?st2 = "settle_flush W key ?evs st1"
      have "commitPendingOffset W True ?st2 = Some (r, st')"
        using a False m Inr by (simp add: flushState_def sbind_def sthen_def smodify_def sget_def pend_def)
      then have "advances ?st2 st'" using each_resultD [OF commit_advances] by blast
      moreover have "pend st1 key = ?evs" using q1 by (simp add: quiet_def)
      then have "advances st1 ?st2" by (rule settle_advances)
      ultimately show ?thesis using quiet_advances [OF q1] advances_trans by blast
    qed
  qed
  then show ?thesis by (simp add: each_result_def)
qed

lemmas advance_intros = advance.rel_bind advance.rel_seq advance.rel_all advance.rel_simple each_result_cases flush_advances commit_advances

lemma flush_all_advances: "each_result advances (flushAll W)" "each_result advances (flushDue W now)"
  "each_result advances (flushPriorPendingForTarget W key)"
    apply (simp_all only: flushAll_def flushDue_def flushPriorPendingForTarget_def)
    apply (intro advance_intros)+
  done

lemma ack_advances: "each_result advances m \<Longrightarrow> each_result advances (with_ack ev m)"
  unfolding each_result_def with_ack_def using advances_trans [OF _ quiet_advances [OF quiet_fields(5)]] by auto

section \<open>The checkpoint covers what was flushed\<close>

text \<open>The row events of the loop's inputs that no earlier process wrote, and the recovery state behind them.\<close>

definition is_row_event :: "event \<Rightarrow> bool" where
  "is_row_event ev \<longleftrightarrow> ev_type ev \<notin> {EventTypeSnapshotStart, EventTypeSnapshotComplete, EventTypeCheckpoint, EventTypeSnapshotBatch,
     EventTypeSnapshotTableEnd}"

definition live_event :: "sink_env \<Rightarrow> sink_input \<Rightarrow> recovery_state \<Rightarrow> event list \<times> recovery_state" where
  "live_event W inp rec =
     (case inp of
        GotEvent ev \<Rightarrow>
          if \<not> is_row_event ev then ([], rec)
          else (case skipRecoveredCDCEvent (se_codec W) (se_model W ev) rec of
                  (Inr False, rec') \<Rightarrow> (if ev_type ev = EventTypeDDL then [] else [ev], rec')
                | (_, rec') \<Rightarrow> ([], rec'))
      | _ \<Rightarrow> ([], rec))"

fun live_events :: "sink_env \<Rightarrow> sink_input list \<Rightarrow> recovery_state \<Rightarrow> event list \<times> recovery_state" where
  "live_events W [] rec = ([], rec)"
| "live_events W (i # is) rec =
     (case live_event W i rec of (evs, rec') \<Rightarrow> (case live_events W is rec' of (rest, rec'') \<Rightarrow> (evs @ rest, rec'')))"

definition of_key :: "string \<Rightarrow> event list \<Rightarrow> event list" where
  "of_key key evs = filter (\<lambda>ev. tableKey (ev_schema ev) (ev_table ev) = key) evs"

lemma live_events_append:
  "live_events W (xs @ ys) rec =
     (fst (live_events W xs rec) @ fst (live_events W ys (snd (live_events W xs rec))),
      snd (live_events W ys (snd (live_events W xs rec))))"
  by (induction xs arbitrary: rec) (auto split: prod.splits)

text \<open>A checkpoint among the inputs, with every event of a table before it flushed.\<close>

definition checkpoint_backed :: "sink_env \<Rightarrow> recovery_state \<Rightarrow> sink_input list \<Rightarrow> source_offset \<Rightarrow> (string \<Rightarrow> event list) \<Rightarrow> bool" where
  "checkpoint_backed W rec ins off f \<longleftrightarrow>
     (\<exists>before cp after. ins = before @ GotEvent cp # after \<and> ev_type cp = EventTypeCheckpoint \<and> ev_offset cp = Some off \<and>
        (\<forall>key. prefix (of_key key (fst (live_events W before rec))) (f key)))"

lemma checkpoint_backed_mono:
  "\<lbrakk>checkpoint_backed W rec ins off f; \<And>key. prefix (f key) (g key)\<rbrakk> \<Longrightarrow> checkpoint_backed W rec (ins @ ins2) off g"
  unfolding checkpoint_backed_def by (metis append.assoc append_Cons prefix_order.trans)

definition saved_backed :: "sink_env \<Rightarrow> sink_state \<Rightarrow> sink_input list \<Rightarrow> sink_state \<Rightarrow> bool" where
  "saved_backed W st0 ins st \<longleftrightarrow>
     sk_saved st = sk_saved st0 \<or> (\<exists>off. sk_saved st = Some off \<and> checkpoint_backed W (sk_recovery st0) ins off (flushed st))"

definition line_inv :: "sink_env \<Rightarrow> sink_state \<Rightarrow> sink_input list \<Rightarrow> sink_state \<Rightarrow> bool" where
  "line_inv W st0 ins st \<longleftrightarrow>
     (\<forall>key. accepted_line st key = of_key key (fst (live_events W ins (sk_recovery st0)))) \<and>
     (\<forall>off. sk_offset st = Some off \<longrightarrow> checkpoint_backed W (sk_recovery st0) ins off (accepted_line st)) \<and>
     saved_backed W st0 ins st"

definition loop_inv :: "sink_env \<Rightarrow> sink_state \<Rightarrow> sink_input list \<Rightarrow> sink_state \<Rightarrow> bool" where
  "loop_inv W st0 ins st \<longleftrightarrow> line_inv W st0 ins st \<and> sk_recovery st = snd (live_events W ins (sk_recovery st0))"

text \<open>A step that only advances keeps the invariant, with more inputs behind it that bring no event.\<close>

lemma saved_backed_mono:
  "\<lbrakk>saved_backed W st0 ins st; sk_saved st' = sk_saved st; \<And>key. prefix (flushed st key) (flushed st' key)\<rbrakk>
    \<Longrightarrow> saved_backed W st0 (ins @ ins2) st'"
  using checkpoint_backed_mono unfolding saved_backed_def by metis

lemma saved_backed_advances:
  assumes "advances st st'" "saved_backed W st0 ins st"
    "\<And>off. sk_offset st = Some off \<Longrightarrow> checkpoint_backed W (sk_recovery st0) (ins @ ins2) off (accepted_line st)"
  shows "saved_backed W st0 (ins @ ins2) st'"
proof (cases "sk_saved st' = sk_saved st")
  case True
  then show ?thesis using saved_backed_mono [OF assms(2) True] assms(1) by (simp add: advances_def)
next
  case False
  then have f: "sk_saved st' = sk_offset st" "\<forall>key. flushed st' key = accepted_line st key" "sk_offset st \<noteq> None"
    using assms(1) by (auto simp: advances_def)
  then obtain off where off: "sk_offset st = Some off" by auto
  have "flushed st' = accepted_line st" using f(2) by (simp add: fun_eq_iff)
  then show ?thesis using f(1) off assms(3) [OF off] unfolding saved_backed_def by auto
qed

lemma line_inv_advances:
  assumes "advances st st'" "line_inv W st0 ins st"
    "fst (live_events W (ins @ ins2) (sk_recovery st0)) = fst (live_events W ins (sk_recovery st0))"
  shows "line_inv W st0 (ins @ ins2) st'"
proof -
  have line: "accepted_line st' = accepted_line st" using assms(1) by (simp add: advances_def fun_eq_iff)
  have bk: "checkpoint_backed W (sk_recovery st0) (ins @ ins2) off (accepted_line st)" if "sk_offset st = Some off" for off
    using assms(2) that checkpoint_backed_mono unfolding line_inv_def by (metis prefix_order.refl)
  have "saved_backed W st0 (ins @ ins2) st'"
    by (rule saved_backed_advances [OF assms(1)]) (use assms(2) bk in \<open>auto simp: line_inv_def\<close>)
  moreover have "\<forall>off. sk_offset st' = Some off \<longrightarrow> sk_offset st = Some off"
    using assms(1) by (auto simp: advances_def)
  ultimately show ?thesis using assms(2,3) bk line unfolding line_inv_def by metis
qed

lemmas line_inv_stays = line_inv_advances [where ?ins2.0 = "[]", simplified]

lemma live_events_snoc:
  assumes "sk_recovery st = snd (live_events W ins (sk_recovery st0))" "live_event W i (sk_recovery st) = (evs, rec)"
  shows "live_events W (ins @ [i]) (sk_recovery st0) = (fst (live_events W ins (sk_recovery st0)) @ evs, rec)"
  using assms by (simp add: live_events_append)

lemma loop_inv_advances:
  assumes "advances st st'" "loop_inv W st0 ins st" "live_event W i (sk_recovery st) = ([], sk_recovery st)"
  shows "loop_inv W st0 (ins @ [i]) st'"
proof -
  have "sk_recovery st' = sk_recovery st" using assms(1) by (simp add: advances_def)
  moreover have l: "live_events W (ins @ [i]) (sk_recovery st0) = (fst (live_events W ins (sk_recovery st0)), sk_recovery st)"
    using live_events_snoc [where st = st and ins = ins and ?st0.0 = st0, OF _ assms(3)] assms(2) by (simp add: loop_inv_def)
  moreover have "line_inv W st0 (ins @ [i]) st'"
    by (rule line_inv_advances [OF assms(1)]) (use assms(2) l in \<open>auto simp: loop_inv_def\<close>)
  ultimately show ?thesis by (simp add: loop_inv_def)
qed

text \<open>The three steps that do more: an event is accepted, an offset is remembered, the recovery state moves.\<close>

lemma flushed_accept [simp]: "flushed (accept_event W key ev st) k = flushed st k"
  by (simp add: flushed_def accept_event_def)

lemma accepted_line_accept:
  "accepted_line (accept_event W key ev st) k = (if k = key then accepted_line st k @ [ev] else accepted_line st k)"
  by (simp add: accepted_line_def pend_def accept_event_def flushed_def)

lemma line_inv_accept:
  assumes "line_inv W st0 ins st"
    "fst (live_events W (ins @ [i]) (sk_recovery st0)) = fst (live_events W ins (sk_recovery st0)) @ [ev]"
    "key = tableKey (ev_schema ev) (ev_table ev)"
  shows "line_inv W st0 (ins @ [i]) (accept_event W key ev st)"
proof -
  have off: "sk_offset (accept_event W key ev st) = sk_offset st" and saved: "sk_saved (accept_event W key ev st) = sk_saved st"
    by (simp_all add: accept_event_def)
  have "accepted_line (accept_event W key ev st) k = of_key k (fst (live_events W (ins @ [i]) (sk_recovery st0)))" for k
    using assms by (simp add: accepted_line_accept line_inv_def of_key_def)
  moreover have "checkpoint_backed W (sk_recovery st0) (ins @ [i]) o' (accepted_line (accept_event W key ev st))"
    if "sk_offset st = Some o'" for o'
    by (rule checkpoint_backed_mono [where f = "accepted_line st"]) (use assms(1) that in \<open>auto simp: line_inv_def accepted_line_accept\<close>)
  moreover have "saved_backed W st0 (ins @ [i]) (accept_event W key ev st)"
    by (rule saved_backed_mono [OF _ saved]) (use assms(1) in \<open>auto simp: line_inv_def\<close>)
  ultimately show ?thesis using off by (simp add: line_inv_def)
qed

lemma line_inv_remember:
  assumes "line_inv W st0 ins st" "ev_type cp = EventTypeCheckpoint"
    "fst (live_events W (ins @ [GotEvent cp]) (sk_recovery st0)) = fst (live_events W ins (sk_recovery st0))"
  shows "line_inv W st0 (ins @ [GotEvent cp]) (rememberOffset (ev_offset cp) st)"
proof -
  let ?st' = "rememberOffset (ev_offset cp) st"
  have same: "accepted_line ?st' = accepted_line st" "sk_saved ?st' = sk_saved st" "flushed ?st' = flushed st"
    by (auto simp: rememberOffset_def accepted_line_def pend_def flushed_def fun_eq_iff)
  have "checkpoint_backed W (sk_recovery st0) (ins @ [GotEvent cp]) off (accepted_line st)" if off: "sk_offset ?st' = Some off" for off
  proof (cases "source_offset_valid (ev_offset cp)")
    case True
    then have "ev_offset cp = Some off" using off by (simp add: rememberOffset_def)
    moreover have "\<forall>key. prefix (of_key key (fst (live_events W ins (sk_recovery st0)))) (accepted_line st key)"
      using assms(1) by (simp add: line_inv_def)
    ultimately show ?thesis using assms(2) unfolding checkpoint_backed_def by blast
  next
    case False
    then have "sk_offset st = Some off" using off by (simp add: rememberOffset_def)
    then show ?thesis using assms(1) checkpoint_backed_mono unfolding line_inv_def by (metis prefix_order.refl)
  qed
  moreover have "saved_backed W st0 (ins @ [GotEvent cp]) ?st'"
    by (rule saved_backed_mono [OF _ same(2)]) (use assms(1) same(3) in \<open>auto simp: line_inv_def\<close>)
  ultimately show ?thesis using assms(1,3) same(1) by (simp add: line_inv_def)
qed

lemma line_inv_recovery: "line_inv W st0 ins (st\<lparr>sk_recovery := r\<rparr>) = line_inv W st0 ins st"
proof -
  have "accepted_line (st\<lparr>sk_recovery := r\<rparr>) = accepted_line st" "flushed (st\<lparr>sk_recovery := r\<rparr>) = flushed st"
    by (simp_all add: accepted_line_def pend_def flushed_def fun_eq_iff)
  then show ?thesis by (simp add: line_inv_def saved_backed_def)
qed


lemma sbindE:
  assumes "sbind m f st = Some (r, st')"
  obtains (fails) e where "m st = Some (Inl e, st')" "r = Inl e"
  | (goes) x st1 where "m st = Some (Inr x, st1)" "f x st1 = Some (r, st')"
  using assms by (auto simp: sbind_def split: option.splits sum.splits)

lemma sthenE:
  assumes "sthen m k st = Some (r, st')"
  obtains (fails) e where "m st = Some (Inl e, st')" "r = Inl e"
  | (goes) st1 where "m st = Some (Inr (), st1)" "k st1 = Some (r, st')"
proof -
  from assms have "sbind m (\<lambda>_. k) st = Some (r, st')" by (simp add: sthen_def)
  then show thesis by (cases rule: sbindE) (use fails goes in auto)
qed

definition turn_ok :: "sink_env \<Rightarrow> sink_state \<Rightarrow> sink_input list \<Rightarrow> 'a sink_op \<Rightarrow> sink_state \<Rightarrow> bool" where
  "turn_ok W st0 ins m st \<longleftrightarrow>
     (\<forall>r st'. m st = Some (r, st') \<longrightarrow> saved_backed W st0 ins st' \<and> (\<forall>x. r = Inr x \<longrightarrow> loop_inv W st0 ins st'))"

lemma turn_ok_inv: "(\<And>r st'. m st = Some (r, st') \<Longrightarrow> loop_inv W st0 ins st') \<Longrightarrow> turn_ok W st0 ins m st"
  by (auto simp: turn_ok_def loop_inv_def line_inv_def)

lemma turn_ok_advances:
  assumes "each_result advances m" "loop_inv W st0 ins st" "live_event W i (sk_recovery st) = ([], sk_recovery st)"
  shows "turn_ok W st0 (ins @ [i]) m st"
  by (rule turn_ok_inv) (rule loop_inv_advances [OF each_resultD [OF assms(1)] assms(2,3)])

text \<open>The part of a turn behind the recovery state: it saves nothing new, and then has the invariant.\<close>

definition after_skip :: "sink_env \<Rightarrow> event \<Rightarrow> unit sink_op" where
  "after_skip W ev =
     (let key = tableKey (ev_schema ev) (ev_table ev) in
      sthen (ensureOperationalState W key)
          (sthen (flushPriorPendingForTarget W key)
            (if ev_type ev = EventTypeDDL then sthen (flushState W key) (applyDDL W key ev)
             else sthen (smodify (accept_event W key ev))
               (sbind (sget (\<lambda>st. table_at st key)) (\<lambda>t.
                if ic_batch (se_cfg W) \<le> int (length (st_pending t)) \<or> pendingBytesLimitReached W t
                then flushState W key else sret ())))))"

lemma handle_row_event_alt:
  "handle_row_event W ev = sbind (skip_recovered W ev) (\<lambda>skipped. if skipped then sret () else after_skip W ev)"
  unfolding handle_row_event_def after_skip_def Let_def by (rule refl)

lemmas quiet_parts = quiet_operational quiet_ddl quiet_spool quiet_finalize quiet_snapshot_rows

lemmas advance_parts = quiet_parts [THEN each_quiet_advances] flush_all_advances ack_advances

lemma after_skip_ddl: "ev_type ev = EventTypeDDL \<Longrightarrow> each_result advances (after_skip W ev)"
  unfolding after_skip_def Let_def by (simp, intro advance_intros advance_parts)

lemma after_skip_accepts:
  assumes inv: "line_inv W st0 ins st" and rec: "sk_recovery st = snd (live_events W (ins @ [i]) (sk_recovery st0))"
    and live: "fst (live_events W (ins @ [i]) (sk_recovery st0)) = fst (live_events W ins (sk_recovery st0)) @ [ev]"
    and ty: "ev_type ev \<noteq> EventTypeDDL"
  shows "turn_ok W st0 (ins @ [i]) (after_skip W ev) st"
proof -
  let ?key = "tableKey (ev_schema ev) (ev_table ev)"
  let ?head = "sthen (ensureOperationalState W ?key) (flushPriorPendingForTarget W ?key)"
  let ?tail = "sbind (sget (\<lambda>st. table_at st ?key)) (\<lambda>t.
      if ic_batch (se_cfg W) \<le> int (length (st_pending t)) \<or> pendingBytesLimitReached W t then flushState W ?key else sret ())"
  have split: "after_skip W ev = sthen ?head (sthen (smodify (accept_event W ?key ev)) ?tail)"
    using ty by (simp add: after_skip_def Let_def sthen_def sbind_def fun_eq_iff split: option.split sum.split)
  have head: "each_result advances ?head" by (intro advance_intros advance_parts)
  have tail: "each_result advances ?tail" by (intro advance_intros)
  have "saved_backed W st0 (ins @ [i]) st' \<and> (\<forall>x. r = Inr x \<longrightarrow> loop_inv W st0 (ins @ [i]) st')"
    if "after_skip W ev st = Some (r, st')" for r st'
    using that unfolding split
  proof (cases rule: sthenE)
    case (fails e)
    have "line_inv W st0 ins st'" by (rule line_inv_stays [OF each_resultD [OF head fails(1)] inv])
    then show ?thesis using saved_backed_mono [of W st0 ins st' st' "[i]"] fails(2) by (simp add: line_inv_def)
  next
    case (goes st1)
    have a1: "advances st st1" by (rule each_resultD [OF head goes(1)])
    have t: "?tail (accept_event W ?key ev st1) = Some (r, st')" using goes(2) by (simp add: sthen_def sbind_def smodify_def)
    have "line_inv W st0 (ins @ [i]) (accept_event W ?key ev st1)"
      by (rule line_inv_accept [OF line_inv_stays [OF a1 inv] live refl])
    note l2 = line_inv_stays [OF each_resultD [OF tail t] this]
    have "sk_recovery st' = sk_recovery st"
      using a1 each_resultD [OF tail t] by (simp add: advances_def accept_event_def)
    then show ?thesis using l2 rec by (simp add: loop_inv_def line_inv_def)
  qed
  then show ?thesis by (simp add: turn_ok_def)
qed

lemma row_event_turn:
  assumes inv: "loop_inv W st0 ins st" and row: "is_row_event ev"
  shows "turn_ok W st0 (ins @ [GotEvent ev]) (handle_row_event W ev) st"
proof -
  obtain q rec where skip: "skipRecoveredCDCEvent (se_codec W) (se_model W ev) (sk_recovery st) = (q, rec)" by fastforce
  let ?st1 = "st\<lparr>sk_recovery := rec\<rparr>"
  have l1: "line_inv W st0 ins ?st1" using inv by (simp add: line_inv_recovery loop_inv_def)
  have seen: "sk_recovery st = snd (live_events W ins (sk_recovery st0))" using inv by (simp add: loop_inv_def)
  note live = live_events_snoc [where i = "GotEvent ev", OF seen]
  have none: "turn_ok W st0 (ins @ [GotEvent ev]) m ?st1"
    if m: "each_result advances m" and "live_event W (GotEvent ev) (sk_recovery st) = ([], rec)" for m :: "unit sink_op"
  proof (rule turn_ok_inv)
    fix r st' assume "m ?st1 = Some (r, st')"
    then have a: "advances ?st1 st'" by (rule each_resultD [OF m])
    have "line_inv W st0 (ins @ [GotEvent ev]) st'" by (rule line_inv_advances [OF a l1]) (simp add: live [OF that(2)])
    moreover have "sk_recovery st' = rec" using a by (simp add: advances_def)
    ultimately show "loop_inv W st0 (ins @ [GotEvent ev]) st'" by (simp add: loop_inv_def live [OF that(2)])
  qed
  show ?thesis
  proof (cases q)
    case (Inl e)
    have "turn_ok W st0 (ins @ [GotEvent ev]) (sfail (permanent (new_error e)) :: unit sink_op) ?st1"
      by (rule none) (use row skip Inl in \<open>auto simp: live_event_def intro: advance_intros\<close>)
    then show ?thesis using skip Inl by (simp add: handle_row_event_alt turn_ok_def sbind_def skip_recovered_def sfail_def)
  next
    case (Inr b)
    have tail: "handle_row_event W ev st = (if b then sret () else after_skip W ev) ?st1"
      using skip Inr by (simp add: handle_row_event_alt sbind_def skip_recovered_def sret_def)
    have "turn_ok W st0 (ins @ [GotEvent ev]) (if b then sret () else after_skip W ev) ?st1"
    proof (cases "b \<or> ev_type ev = EventTypeDDL")
      case True
      then show ?thesis
        by (intro none) (use row skip Inr after_skip_ddl in \<open>auto simp: live_event_def intro: advance_intros split: bool.split\<close>)
    next
      case False
      then have l: "live_event W (GotEvent ev) (sk_recovery st) = ([ev], rec)" using row skip Inr by (simp add: live_event_def)
      have "turn_ok W st0 (ins @ [GotEvent ev]) (after_skip W ev) ?st1"
        by (rule after_skip_accepts [OF l1]) (use False in \<open>simp_all add: live [OF l]\<close>)
      then show ?thesis using False by simp
    qed
    then show ?thesis using tail by (simp add: turn_ok_def)
  qed
qed


lemma quiet_owned: "each_result quiet (check_owned W)"
proof -
  have "each_result quiet (ext_call W (\<lambda>s. s))" by (intro quiet_intros)
  then show ?thesis
    by (auto simp: each_result_def check_owned_def sfail_def split: option.splits sum.splits)
qed

lemma evict_quiet: "quiet st (evictIdle W now st)"
  by (auto simp: quiet_def evictIdle_def pend_def table_at_def map_get_def map_of_map option.map_comp split: option.split)

lemma cleanup_quiet: "quiet st (cleanupSnapshotSpools st)"
  by (auto simp: quiet_def cleanupSnapshotSpools_def pend_def table_at_def map_get_def map_of_map split: option.split)

lemma event_advances:
  assumes "\<not> is_row_event ev" "ev_type ev \<noteq> EventTypeCheckpoint"
  shows "each_result advances (handleEvent W matches ev)"
proof -
  have modify: "each_result advances (smodify g)" if "\<And>st. quiet st (g st)" for g
    using each_quiet_advances [OF quiet.rel_modify] that by blast
  have ext: "each_result advances (ext_call W eff)" if "\<And>st. quiet st (eff st)" for eff
    using each_quiet_advances [OF quiet_calls(1)] that by blast
  have chunk: "each_result advances (flush_chunk W matches key c)" for key c
    unfolding flush_chunk_def by (rule each_quiet_advances) (intro quiet_intros quiet_refresh quiet_snapshot_rows)
  have "each_result advances (handleSnapshotBarrier W ev)" "each_result advances (handleSnapshotBatch W matches ev)"
    "each_result advances (handleSnapshotTableComplete W ev)"
      unfolding handleSnapshotBarrier_def handleSnapshotBatch_def handleSnapshotTableComplete_def Let_def
      by (intro advance_intros advance_parts modify ext chunk cleanup_quiet quiet_on_table; simp add: quiet_def pend_def)+
  then show ?thesis using assms unfolding handleEvent_def is_row_event_def by auto
qed

lemma checkpoint_turn:
  assumes inv: "loop_inv W st0 ins st" and cp: "ev_type ev = EventTypeCheckpoint"
  shows "turn_ok W st0 (ins @ [GotEvent ev]) (handleEvent W matches ev) st"
proof (rule turn_ok_inv)
  fix r st' assume h: "handleEvent W matches ev st = Some (r, st')"
  let ?st1 = "rememberOffset (ev_offset ev) st"
  have "handleEvent W matches ev = sthen (smodify (rememberOffset (ev_offset ev))) (commitPendingOffset W False)"
    using cp unfolding handleEvent_def by simp
  then have "commitPendingOffset W False ?st1 = Some (r, st')" using h by (simp add: sthen_def sbind_def smodify_def)
  then have a: "advances ?st1 st'" by (rule each_resultD [OF commit_advances])
  have rec: "sk_recovery ?st1 = sk_recovery st" by (simp add: rememberOffset_def)
  have "live_event W (GotEvent ev) (sk_recovery st) = ([], sk_recovery st)" using cp by (simp add: live_event_def is_row_event_def)
  note live = live_events_snoc [of st W ins st0, OF _ this]
  have seen: "sk_recovery st = snd (live_events W ins (sk_recovery st0))" "line_inv W st0 ins st"
    using inv by (simp_all add: loop_inv_def)
  have "line_inv W st0 (ins @ [GotEvent ev]) ?st1"
    by (rule line_inv_remember [OF seen(2) cp]) (simp add: live [OF seen(1)])
  then show "loop_inv W st0 (ins @ [GotEvent ev]) st'"
    using line_inv_stays [OF a] a rec by (simp add: loop_inv_def advances_def live [OF seen(1)])
qed

lemma loop_turn:
  assumes inv: "loop_inv W st0 ins st"
  shows "turn_ok W st0 (ins @ [i]) (sink_turn W matches i) st"
proof (cases "\<exists>ev. i = GotEvent ev")
  case False
  have "each_result advances (sink_turn W matches i)"
    using False by (cases i) (auto simp: sink_turn_def intro!: advance_intros flush_all_advances
      each_quiet_advances [OF quiet_owned] each_quiet_advances [OF quiet.rel_modify] evict_quiet)
  moreover have "live_event W i (sk_recovery st) = ([], sk_recovery st)" using False by (cases i) (auto simp: live_event_def)
  ultimately show ?thesis using inv by (intro turn_ok_advances)
next
  case True
  then obtain ev where i: "i = GotEvent ev" by blast
  have handled: "turn_ok W st0 (ins @ [i]) (handleEvent W matches ev) st1" if "loop_inv W st0 ins st1" for st1
  proof (cases "is_row_event ev")
    case True
    then have "handleEvent W matches ev = handle_row_event W ev" unfolding handleEvent_def is_row_event_def by auto
    then show ?thesis using row_event_turn [OF that True] i by simp
  next
    case False
    then have "live_event W i (sk_recovery st1) = ([], sk_recovery st1)" using i by (simp add: live_event_def)
    then show ?thesis
      using False checkpoint_turn [OF that] turn_ok_advances [OF event_advances [OF False] that] i by blast
  qed
  have "saved_backed W st0 (ins @ [i]) st' \<and> (\<forall>x. r = Inr x \<longrightarrow> loop_inv W st0 (ins @ [i]) st')"
    if "sink_turn W matches i st = Some (r, st')" for r st'
  proof -
    have "sthen (check_owned W) (sthen (handleEvent W matches ev) (sret True)) st = Some (r, st')"
      using that i by (simp add: sink_turn_def)
    then show ?thesis
    proof (cases rule: sthenE)
      case (fails e)
      have "saved_backed W st0 (ins @ []) st'"
        using line_inv_stays [OF quiet_advances [OF each_resultD [OF quiet_owned fails(1)]]] inv by (simp add: loop_inv_def line_inv_def)
      then show ?thesis using fails(2) saved_backed_mono [of W st0 ins st' st' "[i]"] by simp
    next
      case (goes st1)
      have a: "advances st st1" by (rule quiet_advances [OF each_resultD [OF quiet_owned goes(1)]])
      then have "loop_inv W st0 ins st1" using inv line_inv_stays [OF a] by (simp add: loop_inv_def advances_def)
      note ok = handled [OF this]
      from goes(2) show ?thesis
        by (cases rule: sthenE) (use ok in \<open>auto simp: turn_ok_def sret_def\<close>)
    qed
  qed
  then show ?thesis by (simp add: turn_ok_def)
qed

lemma loop_run: "\<lbrakk>sink_run W matches ins2 st = Some (r, st'); loop_inv W st0 ins st\<rbrakk> \<Longrightarrow> saved_backed W st0 (ins @ ins2) st'"
proof (induction ins2 arbitrary: st ins)
  case Nil
  then show ?case by (simp add: sret_def loop_inv_def line_inv_def)
next
  case (Cons i rest)
  have ok: "turn_ok W st0 (ins @ [i]) (sink_turn W matches i) st" by (rule loop_turn [OF Cons.prems(2)])
  from Cons.prems(1) have run: "sbind (sink_turn W matches i) (\<lambda>go. if go then sink_run W matches rest else sret ()) st = Some (r, st')"
    by simp
  have stop: "saved_backed W st0 (ins @ i # rest) st'" if "saved_backed W st0 (ins @ [i]) st'"
    using saved_backed_mono [OF that, of st' rest] by simp
  from run show ?case
  proof (cases rule: sbindE)
    case (fails e)
    then show ?thesis using ok stop by (simp add: turn_ok_def)
  next
    case (goes x st1)
    then show ?thesis using ok stop Cons.IH [of st1 "ins @ [i]"] by (cases x) (auto simp: turn_ok_def sret_def)
  qed
qed


text \<open>A table with two rows, an update that moves the second, a checkpoint behind it and the end of the channel.\<close>

definition sample_fields :: ice_schema where
  "sample_fields = \<lparr>is_identifiers = [1], is_fields =
     [\<lparr>if_id = 1, if_name = ''id'', if_type = TInt64, if_required = True, if_doc = []\<rparr>,
      \<lparr>if_id = 2, if_name = ''v'', if_type = TString, if_required = False, if_doc = []\<rparr>]\<rparr>"

definition sample_source :: table_schema where
  "sample_source = \<lparr>ts_schema = ''shop'', ts_table = ''orders'', ts_columns = [sample_column ''id'' ''bigint'']\<rparr>"

text \<open>The fifth call, the first commit, fails and is tried again.\<close>

definition sample_environment :: sink_env where
  "sample_environment = \<lparr>se_cfg = sample_config\<lparr>ic_cdc_executor := executorEquality\<rparr>, se_lib = sample_lib,
     se_codec = \<lparr>rc_identity = (\<lambda>_. ''k''), rc_payload = (\<lambda>_. Inr []), rc_fingerprint = (\<lambda>_. []), rc_keys = (\<lambda>_. Inr []),
       rc_manifest = (\<lambda>_. Inl []), rc_encode = (\<lambda>_. []), rc_sha_hex = (\<lambda>s. s)\<rparr>,
     se_model = (\<lambda>ev. \<lparr>me_type = ev_type ev, me_trace = [], me_schema = ev_schema ev, me_table = ev_table ev, me_data = [], me_old = [], me_offset = None\<rparr>),
     se_parse = Inl, se_promote = (\<lambda>_ _. False), se_update = (\<lambda>sc _. Inr sc), se_store = True, se_rolling = False, se_attempts = 3,
     se_fail = (\<lambda>n. if n = 4 then Some (new_error ''timeout'') else None), se_effect = (\<lambda>_. True), se_backoff = (\<lambda>_. None), se_clock = int\<rparr>"

definition sample_sink :: sink_state where
  "sample_sink = \<lparr>sk_tables = (\<lambda>_. [Iceberg_Rows.sample_row 1 ''a'', Iceberg_Rows.sample_row 2 ''c'']), sk_catalog = (\<lambda>_. Some sample_fields), sk_saved = None, sk_done = False,
     sk_calls = 0, sk_states = [(''shop.orders'', blank_table\<lparr>st_namespace := ''raw'', st_table := ''orders'', st_schema := Some sample_source,
       st_handle := Some sample_fields\<rparr>)],
     sk_offset = None, sk_recovery = \<lparr>rs_loaded = [], rs_events = (\<lambda>_. 0), rs_payloads = (\<lambda>_. []), rs_intents = []\<rparr>, sk_last_commit = None,
     sk_cleanup = None, sk_last_cleanup = None, sk_acks = [], sk_flushes = []\<rparr>"

definition sample_moved :: event where
  "sample_moved = (sample_update (Iceberg_Rows.sample_row 2 ''c'') (Iceberg_Rows.sample_row 3 ''c''))\<lparr>ev_schema := ''shop'', ev_table := ''orders''\<rparr>"

definition sample_point :: event where
  "sample_point = blank_event\<lparr>ev_type := EventTypeCheckpoint, ev_offset := Some \<lparr>so_file = ''bin.1'', so_pos = 9\<rparr>\<rparr>"

definition sample_inputs :: "sink_input list" where
  "sample_inputs = [GotEvent sample_moved, GotEvent sample_point, GotClose]"

lemma sample_run:
  "\<exists>st. sink_run sample_environment (\<lambda>_ _. False) sample_inputs sample_sink = Some (Inr (), st) \<and> sk_saved st = ev_offset sample_point"
proof -
  have "map_option (\<lambda>(r, st). (r, sk_saved st)) (sink_run sample_environment (\<lambda>_ _. False) sample_inputs sample_sink) =
    Some (Inr (), ev_offset sample_point)"
    by code_simp
  then show ?thesis by auto
qed


end
