(* ===== verification/Iceberg_Flush.thy ===== *)
theory Iceberg_Flush
  imports Iceberg_Sink
begin

text \<open>
  What a flush leaves in its table (\<open>flushState\<close> with its retries, \<open>pkg/connectors/iceberg/sink.go\<close>). An attempt that
  fails may have deleted some of the batch's keys; the rows of other keys are never touched, and an attempt that
  succeeds leaves the rows its events describe.

  A triple of an operation says what holds behind its result and behind an error that is retried.
\<close>

section \<open>Triples\<close>

definition triple :: "(sink_state \<Rightarrow> bool) \<Rightarrow> (sink_state \<Rightarrow> bool) \<Rightarrow> 'a sink_op \<Rightarrow> ('a \<Rightarrow> sink_state \<Rightarrow> bool) \<Rightarrow> bool" where
  "triple E P m Q \<longleftrightarrow>
     (\<forall>st st'. P st \<longrightarrow>
        (\<forall>x. m st = Some (Inr x, st') \<longrightarrow> Q x st') \<and> (\<forall>e. m st = Some (Inl e, st') \<and> \<not> IsPermanent e \<longrightarrow> E st'))"

lemma triple_result: "\<lbrakk>triple E P m Q; P st; m st = Some (Inr x, st')\<rbrakk> \<Longrightarrow> Q x st'"
  unfolding triple_def by fastforce

lemma triple_error: "\<lbrakk>triple E P m Q; P st; m st = Some (Inl e, st'); \<not> IsPermanent e\<rbrakk> \<Longrightarrow> E st'"
  unfolding triple_def by fastforce

lemma triple_bind: "\<lbrakk>triple E P m R; \<And>x. triple E (R x) (f x) Q\<rbrakk> \<Longrightarrow> triple E P (sbind m f) Q"
  unfolding triple_def by (auto elim!: sbindE)

lemma triple_then: "\<lbrakk>triple E P m (\<lambda>_. R); triple E R k Q\<rbrakk> \<Longrightarrow> triple E P (sthen m k) Q"
  unfolding sthen_def by (rule triple_bind)

lemma triple_ret: "(\<And>st. P st \<Longrightarrow> Q x st) \<Longrightarrow> triple E P (sret x) Q"
  by (simp add: triple_def sret_def)

lemma triple_get: "(\<And>st. P st \<Longrightarrow> Q (f st) st) \<Longrightarrow> triple E P (sget f) Q"
  by (simp add: triple_def sget_def)

lemma triple_fail: "IsPermanent e \<Longrightarrow> triple E P (sfail e) Q"
  by (simp add: triple_def sfail_def)

lemma triple_text: "(\<And>x st. \<lbrakk>P st; t = Inr x\<rbrakk> \<Longrightarrow> Q x st) \<Longrightarrow> triple E P (fail_text t) Q"
  by (auto simp: fail_text_def intro: triple_ret triple_fail split: sum.split)

lemma triple_strengthen: "\<lbrakk>triple E P m Q; \<And>st. P' st \<Longrightarrow> P st\<rbrakk> \<Longrightarrow> triple E P' m Q"
  unfolding triple_def by blast

lemma triple_all:
  assumes "\<And>done x rest. xs = done @ x # rest \<Longrightarrow> triple E (I done) (f x) (\<lambda>_. I (done @ [x]))"
  shows "triple E (I []) (sall f xs) (\<lambda>_. I xs)"
proof -
  have "triple E (I done) (sall f rest) (\<lambda>_. I xs)" if "xs = done @ rest" for "done" rest
    using that
  proof (induction rest arbitrary: "done")
    case (Cons x rest)
    have "triple E (I (done @ [x])) (sall f rest) (\<lambda>_. I xs)" by (rule Cons.IH) (use Cons.prems in simp)
    then show ?case using assms [OF Cons.prems] by (simp add: triple_then)
  qed (simp add: triple_ret)
  from this [of "[]" xs] show ?thesis by simp
qed

text \<open>A call that fails may have had its effect; a commit that fails and is retried has not.\<close>

lemma triple_call:
  assumes "\<And>st n. P st \<Longrightarrow> Q (eff (st\<lparr>sk_calls := n\<rparr>))" "\<And>st n. P st \<Longrightarrow> E (eff (st\<lparr>sk_calls := n\<rparr>))" "\<And>st n. P st \<Longrightarrow> E (st\<lparr>sk_calls := n\<rparr>)"
  shows "triple E P (ext_call W eff) (\<lambda>_. Q)"
  using assms by (auto simp: triple_def ext_call_def Let_def split: option.splits)

lemma triple_commit:
  assumes "\<And>st n. P st \<Longrightarrow> Q (eff (st\<lparr>sk_calls := n\<rparr>))" "\<And>st n. P st \<Longrightarrow> E (st\<lparr>sk_calls := n\<rparr>)"
  shows "triple E P (commit_call W eff) (\<lambda>_. Q)"
  using assms by (auto simp: triple_def commit_call_def Let_def split: option.splits)

lemma triple_retry_each:
  assumes "sink_retry W m n st = Some y"
  shows "triple P P m (\<lambda>_. Q) \<longrightarrow> P st \<longrightarrow> (\<forall>x. fst y = Inr x \<longrightarrow> Q (snd y))"
  using assms
proof (rule sink_retry.raw_induct
    [where P = "\<lambda>W m n st y. triple P P m (\<lambda>_. Q) \<longrightarrow> P st \<longrightarrow> (\<forall>x. fst y = Inr x \<longrightarrow> Q (snd y))", rotated])
  fix f W m n st y
  assume IH: "\<And>W m n st y. f W m n st = Some y \<Longrightarrow> triple P P m (\<lambda>_. Q) \<longrightarrow> P st \<longrightarrow> (\<forall>x. fst y = Inr x \<longrightarrow> Q (snd y))"
    and b: "Option.bind (m st) (\<lambda>(r, st').
     case r of Inl e \<Rightarrow>
         if IsPermanent e then Some (Inl e, st')
         else if 0 < se_attempts W \<and> se_attempts W \<le> int (Suc n) then Some (Inl e, st')
         else (case se_backoff W n of Some c \<Rightarrow> Some (Inl c, st') | None \<Rightarrow> f W m (Suc n) st')
       | Inr x \<Rightarrow> Some (Inr x, st')) = Some y"
  show "triple P P m (\<lambda>_. Q) \<longrightarrow> P st \<longrightarrow> (\<forall>x. fst y = Inr x \<longrightarrow> Q (snd y))"
  proof (intro impI allI)
    fix x assume m: "triple P P m (\<lambda>_. Q)" and st: "P st" and y: "fst y = Inr x"
    obtain q st1 where q: "m st = Some (q, st1)" using b by (cases "m st") auto
    show "Q (snd y)"
    proof (cases q)
      case (Inr z)
      then show ?thesis using b q triple_result [OF m st, of z st1] by auto
    next
      case (Inl e)
      then have "\<not> IsPermanent e \<and> f W m (Suc n) st1 = Some y" using b q y by (auto split: option.splits if_splits)
      then show ?thesis using IH m triple_error [OF m st, of e st1] q Inl y by blast
    qed
  qed
qed

lemma triple_retry: "\<lbrakk>triple P P m (\<lambda>_. Q); P st; sink_retry W m n st = Some (Inr x, st')\<rbrakk> \<Longrightarrow> Q st'"
  using triple_retry_each [of W m n st "(Inr x, st')" P Q] by simp

section \<open>The rows of a target\<close>

definition kept :: "string list \<Rightarrow> row_data list \<Rightarrow> row_data list \<Rightarrow> row_data list" where
  "kept pk dels T = filter (\<lambda>row. \<not> key_matches pk dels row) T"

lemma write_batch_kept: "write_batch pk T rows dels = kept pk dels T @ rows"
  by (simp add: write_batch_def kept_def key_matches_def)

text \<open>What the writes of a batch do not change, and where the deletes of its first keys have come to.\<close>

definition same_place :: "string \<Rightarrow> sink_state \<Rightarrow> sink_state \<Rightarrow> bool" where
  "same_place key a b \<longleftrightarrow>
     sk_tables b = sk_tables a \<and> target_of (table_at b key) = target_of (table_at a key) \<and> st_schema (table_at b key) = st_schema (table_at a key)"

definition deleting :: "string \<Rightarrow> target \<Rightarrow> table_schema \<Rightarrow> string list \<Rightarrow> row_data list \<Rightarrow> row_data list \<Rightarrow> row_data list \<Rightarrow> sink_state \<Rightarrow> bool" where
  "deleting key tg src pk dels K gone st \<longleftrightarrow>
     target_of (table_at st key) = tg \<and> st_schema (table_at st key) = Some src \<and>
     kept pk dels (sk_tables st tg) = K \<and> (\<forall>row \<in> set (sk_tables st tg). \<not> key_matches pk gone row)"

lemma deleting_same: "\<lbrakk>same_place key a b; deleting key tg src pk dels K gone a\<rbrakk> \<Longrightarrow> deleting key tg src pk dels K gone b"
  by (simp add: same_place_def deleting_def)

lemma deleting_calls [simp]: "deleting key tg src pk dels K gone (st\<lparr>sk_calls := n\<rparr>) = deleting key tg src pk dels K gone st"
  by (simp add: deleting_def)

lemma deleting_start: "deleting key tg src pk dels K gone st \<Longrightarrow> deleting key tg src pk dels K [] st"
  by (simp add: deleting_def key_matches_def)

lemma deleting_all: "deleting key tg src pk dels K dels st \<Longrightarrow> sk_tables st tg = K"
  by (auto simp: deleting_def kept_def filter_id_conv [THEN iffD2])

lemma deleting_chunk:
  assumes "deleting key tg src pk dels K gone st" "set chunk \<subseteq> set dels"
  shows "deleting key tg src pk dels K (gone @ chunk) (on_rows tg (filter (\<lambda>row. \<not> key_matches pk chunk row)) st)"
proof -
  have "key_matches pk dels row" if "key_matches pk chunk row" for row
    using that assms(2) unfolding key_matches_def by blast
  then have "kept pk dels (filter (\<lambda>row. \<not> key_matches pk chunk row) T) = kept pk dels T" for T
    unfolding kept_def filter_filter by (intro filter_cong) auto
  then show ?thesis using assms(1) by (auto simp: deleting_def on_rows_def key_matches_def)
qed

interpretation place: sink_relation "same_place key" for key
  by unfold_locales (simp_all add: same_place_def)

lemma same_place_target: "same_place key a (updateTargetTableStatesLocked tg h now a)"
  unfolding updateTargetTableStatesLocked_def
  by (auto simp: same_place_def table_at_map target_of_def) (auto simp: table_at_def blank_table_def)

lemma same_place_handle: "same_place key a (on_table k (\<lambda>t. t\<lparr>st_handle := h\<rparr>) a)"
  by (simp add: same_place_def target_of_def)

lemma same_place_calls [simp]: "same_place key a (a\<lparr>sk_calls := n\<rparr>)"
  by (simp add: same_place_def)

lemma same_place_call: "each_result (same_place key) (ext_call W (\<lambda>s. s))"
  by (auto simp: each_result_def ext_call_def Let_def split: option.splits)

lemmas same_place_intros = place.rel_bind place.rel_simple place.rel_modify each_result_cases same_place_call

lemma same_place_refresh: "each_result (same_place key) (refreshStateTable W key)"
proof -
  have "same_place key a (on_table key (\<lambda>t. t\<lparr>st_handle := h\<rparr>) (updateTargetTableStatesLocked tg h' now a))" for a tg h h' now
    using same_place_target same_place_handle place.trans by blast
  then have m: "each_result (same_place key) (smodify (\<lambda>st. on_table key (\<lambda>t. t\<lparr>st_handle := h\<rparr>) (updateTargetTableStatesLocked tg h' (now_of W st) st)))" for tg h h'
    by (simp add: each_result_def smodify_def)
  show ?thesis unfolding refreshStateTable_def load_table_def sthen_def by (intro same_place_intros m)
qed

lemma same_place_after_write: "each_result (same_place key) (updateStateTableAfterWrite W key h)"
proof -
  have "same_place key a (updateTargetTableStatesLocked tg h now (on_table key (\<lambda>t. t\<lparr>st_handle := h\<rparr>) a))" for a tg h now
    using same_place_target same_place_handle place.trans by blast
  then show ?thesis unfolding updateStateTableAfterWrite_def by (simp add: each_result_def smodify_def)
qed

lemma triple_same:
  "\<lbrakk>each_result (same_place key) m; \<And>a b. \<lbrakk>same_place key a b; P a\<rbrakk> \<Longrightarrow> P b; \<And>a. P a \<Longrightarrow> E a\<rbrakk> \<Longrightarrow> triple E P m (\<lambda>_. P)"
  unfolding triple_def each_result_def by blast

section \<open>Writing a batch\<close>

lemma chunk_subset: "splitDeleteKeys dels n = done' @ chunk # rest \<Longrightarrow> set chunk \<subseteq> set dels"
  using split_delete_keys_concat [of dels n] by (metis Un_iff concat.simps(2) concat_append set_append subsetI)

lemma triple_refresh: "triple (deleting key tg src pk dels K []) (deleting key tg src pk dels K gone) (refreshStateTable W key) (\<lambda>_. deleting key tg src pk dels K gone)"
  by (rule triple_same [OF same_place_refresh]) (auto intro: deleting_same deleting_start)

lemma triple_trino_deletes:
  assumes "rb_deletes batch = dels" "rb_pk batch = pk"
  shows "triple (deleting key tg src pk dels K []) (deleting key tg src pk dels K []) (applyKeyDeleteWithTrino W key batch)
     (\<lambda>_. deleting key tg src pk dels K dels)"
proof (cases "dels = []")
  case True
  then show ?thesis using assms by (simp add: applyKeyDeleteWithTrino_def triple_ret)
next
  case False
  let ?D = "deleting key tg src pk dels K"
  let ?chunks = "splitDeleteKeys dels 500"
  have step: "triple (?D []) (?D (concat done'))
       (sbind (sget (\<lambda>st. table_at st key)) (\<lambda>t.
        sbind (fail_text (keyDeleteTrinoSQL (se_lib W) (se_cfg W) key (st_namespace t) (st_table t) (handle_schema t) chunk)) (\<lambda>_.
        ext_call W (on_rows (target_of t) (filter (\<lambda>row. \<not> key_matches (rb_pk batch) chunk row))))))
       (\<lambda>_. ?D (concat (done' @ [chunk])))" if c: "?chunks = done' @ chunk # rest" for done' chunk rest
  proof (rule triple_bind [where R = "\<lambda>t st. ?D (concat done') st \<and> target_of t = tg"])
    show "triple (?D []) (?D (concat done')) (sget (\<lambda>st. table_at st key)) (\<lambda>t st. ?D (concat done') st \<and> target_of t = tg)"
      by (rule triple_get) (simp add: deleting_def)
    fix t
    note del = deleting_chunk [OF _ chunk_subset [OF c]]
    have call: "triple (?D []) (\<lambda>st. ?D (concat done') st \<and> target_of t = tg)
       (ext_call W (on_rows (target_of t) (filter (\<lambda>row. \<not> key_matches (rb_pk batch) chunk row)))) (\<lambda>_. ?D (concat (done' @ [chunk])))"
    proof (rule triple_call)
      fix st n assume "?D (concat done') st \<and> target_of t = tg"
      then have d: "?D (concat done') (st\<lparr>sk_calls := n\<rparr>)" "target_of t = tg" by simp_all
      from del [OF d(1)] show "?D (concat (done' @ [chunk])) (on_rows (target_of t) (filter (\<lambda>row. \<not> key_matches (rb_pk batch) chunk row)) (st\<lparr>sk_calls := n\<rparr>))"
        using d(2) assms(2) by simp
      from deleting_start [OF del [OF d(1)]]
      show "?D [] (on_rows (target_of t) (filter (\<lambda>row. \<not> key_matches (rb_pk batch) chunk row)) (st\<lparr>sk_calls := n\<rparr>))"
        using d(2) assms(2) by simp
      show "?D [] (st\<lparr>sk_calls := n\<rparr>)" using deleting_start [OF d(1)] .
    qed
    show "triple (?D []) (\<lambda>st. ?D (concat done') st \<and> target_of t = tg)
       (sbind (fail_text (keyDeleteTrinoSQL (se_lib W) (se_cfg W) key (st_namespace t) (st_table t) (handle_schema t) chunk)) (\<lambda>_.
        ext_call W (on_rows (target_of t) (filter (\<lambda>row. \<not> key_matches (rb_pk batch) chunk row))))) (\<lambda>_. ?D (concat (done' @ [chunk])))"
      by (rule triple_bind [OF triple_text call])
  qed
  have "triple (?D []) (?D (concat [])) (sall (\<lambda>keys.
       sbind (sget (\<lambda>st. table_at st key)) (\<lambda>t.
        sbind (fail_text (keyDeleteTrinoSQL (se_lib W) (se_cfg W) key (st_namespace t) (st_table t) (handle_schema t) keys)) (\<lambda>_.
        ext_call W (on_rows (target_of t) (filter (\<lambda>row. \<not> key_matches (rb_pk batch) keys row)))))) ?chunks) (\<lambda>_. ?D (concat ?chunks))"
    by (rule triple_all [where I = "\<lambda>cs. ?D (concat cs)"]) (rule step)
  then show ?thesis unfolding applyKeyDeleteWithTrino_def
    using False assms triple_then [OF _ triple_refresh] by (simp add: split_delete_keys_concat)
qed

lemma triple_append:
  "triple (deleting key tg src pk dels K []) (deleting key tg src pk dels K dels) (append_rows W key rows)
     (\<lambda>_ st. target_of (table_at st key) = tg \<and> sk_tables st tg = K @ rows)"
proof -
  let ?D = "deleting key tg src pk dels K"
  have commit: "triple (?D []) (\<lambda>st. ?D dels st \<and> target_of t = tg) (commit_call W (on_rows (target_of t) (\<lambda>T. T @ rows)))
     (\<lambda>_ st. target_of (table_at st key) = tg \<and> sk_tables st tg = K @ rows)" for t
    by (rule triple_commit) (auto simp: on_rows_def deleting_all deleting_start, simp add: deleting_def)
  show ?thesis unfolding append_rows_def
  proof (rule triple_bind [where R = "\<lambda>t st. ?D dels st \<and> target_of t = tg"])
    show "triple (?D []) (?D dels) (sget (\<lambda>st. table_at st key)) (\<lambda>t st. ?D dels st \<and> target_of t = tg)"
      by (rule triple_get) (simp add: deleting_def)
    show "triple (?D []) (\<lambda>st. ?D dels st \<and> target_of t = tg)
       (sbind (fail_text (buildRecordReader (se_lib W) (handle_schema t) rows)) (\<lambda>_. commit_call W (on_rows (target_of t) (\<lambda>T. T @ rows))))
       (\<lambda>_ st. target_of (table_at st key) = tg \<and> sk_tables st tg = K @ rows)" for t
      by (rule triple_bind [OF triple_text commit])
  qed
qed

lemma triple_after_write:
  "triple E (\<lambda>st. target_of (table_at st key) = tg \<and> sk_tables st tg = T) (sthen (updateStateTableAfterWrite W key h) (sret x))
     (\<lambda>_ st. sk_tables st tg = T)"
proof -
  have m: "each_result (same_place key) (sthen (updateStateTableAfterWrite W key h) (sret x))"
    unfolding sthen_def by (intro same_place_intros same_place_after_write)
  have "\<exists>st''. sthen (updateStateTableAfterWrite W key h) (sret x) st = Some (Inr x, st'')" for st
    by (simp add: sbind_def sthen_def updateStateTableAfterWrite_def smodify_def sret_def)
  then show ?thesis using m unfolding triple_def each_result_def same_place_def by (metis Inl_Inr_False option.inject prod.inject)
qed

lemma triple_settled:
  "triple E (\<lambda>st. target_of (table_at st key) = tg \<and> sk_tables st tg = T)
     (sbind (sget (\<lambda>st. st_handle (table_at st key))) (\<lambda>h. sthen (updateStateTableAfterWrite W key h) (sret x))) (\<lambda>_ st. sk_tables st tg = T)"
  by (rule triple_bind [OF triple_get triple_after_write])

text \<open>Every row of a batch comes with the key it replaces, so a batch without keys is empty.\<close>

lemma reduce_loop_keys:
  "\<lbrakk>reduce_loop F pk i evs rd = Inr rd'; snd rd = [] \<Longrightarrow> fst rd = []\<rbrakk> \<Longrightarrow> snd rd' = [] \<Longrightarrow> fst rd' = []"
proof (induction evs arbitrary: i rd)
  case (Cons ev evs)
  then obtain rd1 where rd1: "reduce_step F pk i ev rd = Inr rd1" "reduce_loop F pk (Suc i) evs rd1 = Inr rd'"
    by (auto split: sum.splits)
  have "addPendingDelete h x ds \<noteq> []" for h x and ds :: "(string \<times> pending_delete) list"
    by (cases ds) (auto simp: addPendingDelete_def split: option.splits if_splits)
  then have "snd rd1 = [] \<Longrightarrow> fst rd1 = []"
    using rd1(1) Cons.prems(2) by (auto simp: reduce_step_def split: prod.splits if_splits sum.splits)
  then show ?case using Cons.IH [OF rd1(2)] Cons.prems(3) by blast
qed simp

lemma reduced_keys:
  assumes "reduceEvents F evs pk = Inr (rows, dels)" "dels = []"
  shows "rows = []"
proof -
  obtain rs ds where l: "reduce_loop F pk 0 evs ([], []) = Inr (rs, ds)"
    and r: "rows = map pr_row (sort_key pr_pos (map snd rs))" and d: "dels = map pd_key (sort_key pd_pos (map snd ds))"
    using assms(1) by (auto simp: reduceEvents_def reduceEventsDetailed_def split: sum.splits)
  have "ds = []" using d assms(2) by (metis list.map_disc_iff length_0_conv length_sort)
  then show ?thesis using reduce_loop_keys [OF l] r by simp
qed

lemma reduced_of_Inr:
  assumes "reduced_of W h events pk = Inr batch" "reduceEvents (vl_cell (se_lib W)) events pk = Inr (rows, dels)"
  shows "rb_deletes batch = dels \<and> rb_rows batch = rows \<and> rb_pk batch = pk \<and> (rb_filter batch = None \<longleftrightarrow> dels = [])"
proof -
  obtain f where f: "buildKeyFilter (se_lib W) h dels = Inr f" "batch = \<lparr>rb_filter = f, rb_deletes = dels, rb_pk = pk, rb_rows = rows\<rparr>"
    using assms by (auto simp: reduced_of_def split: sum.splits)
  then have "f = None \<longleftrightarrow> dels = []" by (cases "all_inr (map (\<lambda>key. all_inr (map (key_predicate_of (se_lib W) h) key)) dels)")
    (auto simp: buildKeyFilter_def split: if_splits)
  then show ?thesis using f by simp
qed

text \<open>An attempt that succeeds has deleted all keys and appended the rows; before an error that is retried some keys are gone.\<close>

lemma triple_trino_write:
  assumes "rb_deletes batch = dels" "rb_pk batch = pk" "rb_rows batch = rows"
  shows "triple (deleting key tg src pk dels K []) (deleting key tg src pk dels K []) (flushReducedBatchWithTrinoDeleteOnce W key batch)
     (\<lambda>_ st. sk_tables st tg = K @ rows)"
  unfolding flushReducedBatchWithTrinoDeleteOnce_def
proof (rule triple_then [OF triple_trino_deletes [OF assms(1,2)]])
  show "triple (deleting key tg src pk dels K []) (deleting key tg src pk dels K dels)
     (if rb_rows batch = [] then sret ''delete-trino''
      else sthen (append_rows W key (rb_rows batch))
             (sbind (sget (\<lambda>st. st_handle (table_at st key))) (\<lambda>h. sthen (updateStateTableAfterWrite W key h) (sret ''delete-append-trino''))))
     (\<lambda>_ st. sk_tables st tg = K @ rows)"
  proof (cases "rows = []")
    case True
    then show ?thesis using assms(3) by (simp add: triple_ret deleting_all)
  next
    case False
    show ?thesis unfolding assms(3) if_not_P [OF False] by (rule triple_then [OF triple_append triple_settled])
  qed
qed

lemma triple_equality_write:
  assumes "rb_deletes batch = dels" "rb_pk batch = pk" "rb_rows batch = rows"
  shows "triple (deleting key tg src pk dels K []) (deleting key tg src pk dels K []) (flushReducedBatchWithEqualityDeleteOnce W key batch)
     (\<lambda>_ st. sk_tables st tg = K @ rows)"
proof -
  let ?D = "deleting key tg src pk dels K []"
  let ?op = "\<lambda>T. filter (\<lambda>row. \<not> key_matches (rb_pk batch) (rb_deletes batch) row) T @ rb_rows batch"
  let ?W = "\<lambda>st. target_of (table_at st key) = tg \<and> sk_tables st tg = K @ rows"
  have commit: "triple ?D (\<lambda>st. ?D st \<and> target_of t = tg) (commit_call W (on_rows (target_of t) ?op)) (\<lambda>_. ?W)" for t
    by (rule triple_commit) (use assms in \<open>auto simp: on_rows_def kept_def deleting_def\<close>)
  show ?thesis unfolding flushReducedBatchWithEqualityDeleteOnce_def
  proof (rule triple_bind [where R = "\<lambda>t st. ?D st \<and> target_of t = tg"])
    show "triple ?D ?D (sget (\<lambda>st. table_at st key)) (\<lambda>t st. ?D st \<and> target_of t = tg)"
      by (rule triple_get) (simp add: deleting_def)
  qed (rule triple_bind [OF triple_text triple_then [OF commit triple_after_write]])
qed

lemma triple_attempt:
  assumes pk: "primaryKeysFor (se_cfg W) key src = Inr pk"
    and red: "\<And>r. reduceEvents (vl_cell (se_lib W)) events pk = Inr r \<Longrightarrow> r = (rows, dels)"
  shows "triple (deleting key tg src pk dels K []) (deleting key tg src pk dels K []) (flush_attempt W key events)
     (\<lambda>_ st. sk_tables st tg = K @ rows \<and> reduceEvents (vl_cell (se_lib W)) events pk = Inr (rows, dels))"
proof -
  let ?D = "deleting key tg src pk dels K []"
  let ?Q = "\<lambda>_ st. sk_tables st tg = K @ rows \<and> reduceEvents (vl_cell (se_lib W)) events pk = Inr (rows, dels)"
  have wr: "triple ?D ?D (if rb_filter batch = None \<and> rb_rows batch = [] then sret ''noop'' else flushReducedBatchOnce W key batch) ?Q"
    if "reduced_of W h events pk = Inr batch" for h batch
  proof -
    have red': "reduceEvents (vl_cell (se_lib W)) events pk = Inr (rows, dels)"
      using that red by (cases "reduceEvents (vl_cell (se_lib W)) events pk") (auto simp: reduced_of_def)
    note b = reduced_of_Inr [OF that red']
    show ?thesis
    proof (cases "dels = []")
      case True
      then have "sk_tables st tg = K @ rows" if "?D st" for st using deleting_all [of key tg src pk dels K] that reduced_keys [OF red'] by simp
      then show ?thesis using b True reduced_keys [OF red'] red' by (simp add: triple_ret)
    next
      case False
      then show ?thesis
        using b red' triple_trino_write [of batch dels pk rows] triple_equality_write [of batch dels pk rows]
        by (auto simp: flushReducedBatchOnce_def Let_def unsupportedNativeKeyDeleteError_def intro!: triple_fail)
    qed
  qed
  have rest: "triple ?D (\<lambda>st. ?D st \<and> p = (h, src)) (case p of (h, src) \<Rightarrow>
      sbind (fail_text (primaryKeysFor (se_cfg W) key src)) (\<lambda>pk.
      sbind (fail_text (reduced_of W h events pk)) (\<lambda>batch.
      if rb_filter batch = None \<and> rb_rows batch = [] then sret ''noop'' else flushReducedBatchOnce W key batch))) ?Q" for p h
  proof (cases "p = (h, src)")
    case True
    have "triple ?D ?D (sbind (fail_text (reduced_of W h events pk)) (\<lambda>batch.
      if rb_filter batch = None \<and> rb_rows batch = [] then sret ''noop'' else flushReducedBatchOnce W key batch)) ?Q"
    proof (rule triple_bind [where R = "\<lambda>batch st. ?D st \<and> reduced_of W h events pk = Inr batch"])
      show "triple ?D (\<lambda>st. ?D st \<and> reduced_of W h events pk = Inr batch)
         (if rb_filter batch = None \<and> rb_rows batch = [] then sret ''noop'' else flushReducedBatchOnce W key batch) ?Q" for batch
        using wr [of h batch] by (cases "reduced_of W h events pk = Inr batch") (simp_all add: triple_def)
    qed (simp add: triple_text)
    then show ?thesis using True pk by (simp add: fail_text_def sbind_def sret_def triple_def)
  qed (simp add: triple_def)
  show ?thesis unfolding flush_attempt_def flushEventsOnce_def
  proof (rule triple_then [OF triple_refresh], rule triple_bind [where R = "\<lambda>t st. ?D st \<and> st_schema t = Some src"])
    show "triple ?D ?D (sget (\<lambda>st. table_at st key)) (\<lambda>t st. ?D st \<and> st_schema t = Some src)"
      by (rule triple_get) (simp add: deleting_def)
    show "triple ?D (\<lambda>st. ?D st \<and> st_schema t = Some src) (sbind (fail_text (table_ready key t)) (\<lambda>(h, src).
      sbind (fail_text (primaryKeysFor (se_cfg W) key src)) (\<lambda>pk.
      sbind (fail_text (reduced_of W h events pk)) (\<lambda>batch.
      if rb_filter batch = None \<and> rb_rows batch = [] then sret ''noop'' else flushReducedBatchOnce W key batch)))) ?Q" for t
    proof (rule triple_bind [where R = "\<lambda>p st. ?D st \<and> p = (handle_schema t, src)"])
      show "triple ?D (\<lambda>st. ?D st \<and> st_schema t = Some src) (fail_text (table_ready key t)) (\<lambda>p st. ?D st \<and> p = (handle_schema t, src))"
        by (rule triple_text) (auto simp: table_ready_def handle_schema_def split: option.splits)
    qed (rule rest)
  qed
qed

lemma tables_external: "\<lbrakk>ext_call W eff st = Some (r, st'); \<And>s. sk_tables (eff s) = sk_tables s\<rbrakk> \<Longrightarrow> sk_tables st' = sk_tables st"
  by (auto simp: ext_call_def Let_def split: option.splits if_splits)

lemma tables_cleanup: "cleanupPendingCheckpoint W st = Some (r, st') \<Longrightarrow> sk_tables st' = sk_tables st"
  by (auto simp: cleanupPendingCheckpoint_def Let_def sret_def sfail_def dest!: tables_external split: if_splits option.splits sum.splits)

lemma tables_save: "save_offset W off st = Some (r, st') \<Longrightarrow> sk_tables st' = sk_tables st"
  by (auto simp: save_offset_def sret_def sfail_def dest!: tables_external tables_cleanup split: if_splits option.splits sum.splits)

lemma tables_commit: "commitPendingOffset W force st = Some (r, st') \<Longrightarrow> sk_tables st' = sk_tables st"
  by (auto simp: commitPendingOffset_def sbind_def sthen_def sget_def sret_def sfail_def
      dest!: tables_cleanup tables_save split: if_splits option.splits sum.splits)


text \<open>The flush of the moved row, whose first commit is rejected.\<close>

definition sample_pending :: sink_state where
  "sample_pending = accept_event sample_environment ''shop.orders'' sample_moved (sample_sink\<lparr>sk_calls := 3\<rparr>)"


end
