(* ===== verification/Doris_Schema.thy ===== *)
theory Doris_Schema
  imports Iceberg_Values
begin

text \<open>
  Types, names and schemas of the Doris sink: the Doris type of a MySQL column, the names of columns and the table
  definition (\<open>pkg/connectors/doris/sink.go\<close>), the comparison of an existing table with the wanted one
  (\<open>schema_reconcile.go\<close>) and the statements of a DDL event (\<open>ddl_translator.go\<close>). Text is ASCII.

  The lemmas show that the columns of a table get different names, whatever the source calls them, and that a
  reconciled table needs no further change.
\<close>

section \<open>Types\<close>

abbreviation "dorisMaxVarcharLen \<equiv> (65533::int)"
abbreviation "dorisMaxDecimalPrecision \<equiv> (38::int)"

definition varchar_type :: "int \<Rightarrow> string" where
  "varchar_type n = ''VARCHAR('' @ show_int n @ '')''"

definition keyCompatibleStringType :: "table_column \<Rightarrow> string" where
  "keyCompatibleStringType c =
     (case tc_char_max c of
        Some n \<Rightarrow> if 0 < n then varchar_type (if dorisMaxVarcharLen < n then dorisMaxVarcharLen else n) else ''VARCHAR(1024)''
      | None \<Rightarrow> ''VARCHAR(1024)'')"

definition normalizedDecimalPrecisionScale :: "int \<Rightarrow> int \<Rightarrow> int \<times> int" where
  "normalizedDecimalPrecisionScale precision scale =
     (if precision \<le> 0 then (27, 9)
      else let s = (if scale < 0 then 0 else scale) in (precision, if precision < s then precision else s))"

definition oversizedDecimalFallbackType :: "int \<Rightarrow> int \<Rightarrow> string" where
  "oversizedDecimalFallbackType precision scale =
     (let n = precision + 1; n = (if 0 < scale then n + 1 else n); n = (if n \<le> 0 then 1024 else n) in
      varchar_type (if dorisMaxVarcharLen < n then dorisMaxVarcharLen else n))"

definition decimalTypeForDoris :: "int \<Rightarrow> int \<Rightarrow> string" where
  "decimalTypeForDoris precision0 scale0 =
     (case normalizedDecimalPrecisionScale precision0 scale0 of (precision, scale) \<Rightarrow>
        if dorisMaxDecimalPrecision < precision then oversizedDecimalFallbackType precision scale
        else ''DECIMAL('' @ show_int precision @ '','' @ show_int scale @ '')'')"

definition mapMySQLColumnToDoris :: "table_column \<Rightarrow> bool \<Rightarrow> string" where
  "mapMySQLColumnToDoris c keyColumn =
     (let t = to_lower (trim_space (tc_data_type c)); unsigned = str_contains ''unsigned'' (to_lower (tc_column_type c));
          text = (if keyColumn then keyCompatibleStringType c else ''STRING'') in
      if t = ''tinyint''
      then (if \<not> unsigned \<and> MySQLColumnTypeHasWidth (tc_column_type c) ''tinyint'' 1 then ''BOOLEAN'' else ''BIGINT'')
      else if t \<in> {''int'', ''bigint'', ''smallint'', ''mediumint'', ''year''} then ''BIGINT''
      else if t \<in> {''float'', ''double'', ''real''} then (if keyColumn then ''DECIMAL(27,9)'' else ''DOUBLE'')
      else if t \<in> {''decimal'', ''numeric''}
      then (case tc_precision c of
              Some p \<Rightarrow> decimalTypeForDoris p (case tc_scale c of None \<Rightarrow> 0 | Some s \<Rightarrow> s)
            | None \<Rightarrow> ''DECIMAL(27,9)'')
      else if t \<in> {''datetime'', ''timestamp''} then ''DATETIME''
      else if t = ''date'' then ''DATE''
      else if t \<in> {''bool'', ''boolean''} then ''BOOLEAN''
      else if t = ''bit'' then (if MySQLColumnTypeHasWidth (tc_column_type c) ''bit'' 1 then ''BOOLEAN'' else text)
      else if t \<in> {''char'', ''varchar''}
      then (case tc_char_max c of
              Some n \<Rightarrow> if 0 < n then (if dorisMaxVarcharLen < n then text else varchar_type n) else ''VARCHAR(1024)''
            | None \<Rightarrow> ''VARCHAR(1024)'')
      else text)"

section \<open>Names\<close>

definition quoteDorisIdentifier :: "string \<Rightarrow> string" where
  "quoteDorisIdentifier name = quote_ident (trim_space name)"

abbreviation "word_char \<equiv> ident_char"

text \<open>The characters of \<open>dorisColumnNamePattern\<close>, with the white space of \<open>\s\<close> in regular expressions.\<close>

definition doris_name_char :: "char \<Rightarrow> bool" where
  "doris_name_char c \<longleftrightarrow>
     word_char c \<or> c \<in> set ''.+-/?@#$%^&*,: '' \<or> c \<in> {CHR 0x22, CHR 0x09, CHR 0x0A, CHR 0x0C, CHR 0x0D}"

definition doris_name_ok :: "string \<Rightarrow> bool" where
  "doris_name_ok s \<longleftrightarrow> s \<noteq> [] \<and> length s \<le> 256 \<and> list_all doris_name_char s"

fun clean_name :: "bool \<Rightarrow> string \<Rightarrow> string" where
  "clean_name lastUnderscore [] = []"
| "clean_name lastUnderscore (c # cs) =
     (if word_char c then c # clean_name False cs
      else if lastUnderscore then clean_name True cs else CHR ''_'' # clean_name True cs)"

definition trim_right_char :: "char \<Rightarrow> string \<Rightarrow> string" where
  "trim_right_char c s = rev (dropWhile (\<lambda>x. x = c) (rev s))"

definition numbered_column :: "nat \<Rightarrow> string" where
  "numbered_column ordinal = ''col_'' @ show_nat (Suc ordinal)"

definition base_name :: "string \<Rightarrow> nat \<Rightarrow> string" where
  "base_name name0 ordinal =
     (let name = trim_space name0;
          base = (if doris_name_ok name then name else trim_right_char CHR ''_'' (dropWhile (\<lambda>x. x = CHR ''_'') (clean_name False name)));
          base = (if base = [] then numbered_column ordinal else base) in
      if 256 < length base
      then (let cut = trim_right_char CHR ''_'' (take 256 base) in if cut = [] then numbered_column ordinal else cut)
      else base)"

definition next_name :: "string \<Rightarrow> nat \<Rightarrow> string" where
  "next_name base n =
     (let tail = ''_'' @ show_nat n in
      if 256 < length (base @ tail)
      then (let maxBase = max 1 (256 - length tail);
                trimmed = (if maxBase < length base
                           then (let t = trim_right_char CHR ''_'' (take maxBase base) in if t = [] then ''col'' else t)
                           else base) in trimmed @ tail)
      else base @ tail)"

text \<open>The loop over the suffixes; \<open>used\<close> are the lower-case names given so far, and as many rounds plus two are enough.\<close>

fun pick_name :: "nat \<Rightarrow> string \<Rightarrow> string list \<Rightarrow> string \<Rightarrow> nat \<Rightarrow> string" where
  "pick_name 0 base used candidate n = candidate"
| "pick_name (Suc fuel) base used candidate n =
     (if to_lower candidate \<notin> set used then candidate else pick_name fuel base used (next_name base n) (Suc n))"

definition sanitizeDorisColumnName :: "string \<Rightarrow> nat \<Rightarrow> string list \<Rightarrow> string" where
  "sanitizeDorisColumnName name ordinal used =
     (let base = base_name name ordinal in pick_name (length used + 2) base used base 2)"

section \<open>Wanted columns\<close>

record desired_column =
  dd_source :: string
  dd_target :: string
  dd_type :: string
  dd_nullable :: bool
  dd_key :: bool

text \<open>The key columns first; without a primary key the first column is the key.\<close>

definition key_marks :: "table_column list \<Rightarrow> bool list" where
  "key_marks cols =
     (if list_ex tc_pk cols then map tc_pk cols else case cols of [] \<Rightarrow> [] | c # cs \<Rightarrow> True # map (\<lambda>_. False) cs)"

definition ordered_columns :: "table_column list \<Rightarrow> (table_column \<times> bool) list" where
  "ordered_columns cols =
     (let marked = zip cols (key_marks cols) in filter snd marked @ filter (\<lambda>p. \<not> snd p) marked)"

fun name_columns :: "nat \<Rightarrow> string list \<Rightarrow> (table_column \<times> bool) list \<Rightarrow> desired_column list" where
  "name_columns ordinal used [] = []"
| "name_columns ordinal used ((c, k) # cols) =
     (let name = sanitizeDorisColumnName (tc_name c) ordinal used in
      \<lparr>dd_source = tc_name c, dd_target = name, dd_type = mapMySQLColumnToDoris c k, dd_nullable = tc_nullable c, dd_key = k\<rparr>
        # name_columns (Suc ordinal) (to_lower name # used) cols)"

definition desiredDorisColumns :: "table_schema option \<Rightarrow> desired_column list" where
  "desiredDorisColumns source =
     (case source of None \<Rightarrow> [] | Some sc \<Rightarrow> name_columns 0 [] (ordered_columns (ts_columns sc)))"

section \<open>The table\<close>

record column_binding =
  cb_source :: string
  cb_target :: string
  cb_type :: string
  cb_nullable :: bool

text \<open>What \<open>EnsureTable\<close> keeps of a target, with its statement, whose line breaks are left out. It numbers, names and types the columns as above.\<close>

record table_plan =
  tp_columns :: "string list"
  tp_bindings :: "column_binding list"
  tp_keys :: "string list"
  tp_strings :: "(string \<times> bool) list"
  tp_lengths :: "(string \<times> int) list"
  tp_statement :: string

definition is_string_type :: "string \<Rightarrow> bool" where
  "is_string_type ty \<longleftrightarrow> (let t = to_upper (trim_space ty) in t = ''STRING'' \<or> has_prefix ''VARCHAR('' t \<or> has_prefix ''CHAR('' t)"

definition type_length :: "string \<Rightarrow> int option" where
  "type_length ty =
     (let t = to_upper (trim_space ty) in
      if has_prefix ''VARCHAR('' t \<or> has_prefix ''CHAR('' t
      then (let inner = takeWhile (\<lambda>c. c \<noteq> CHR '')'') (drop 1 (dropWhile (\<lambda>c. c \<noteq> CHR ''('') t)) in
            if CHR '')'' \<notin> set t \<or> inner = [] then None
            else case atoi (trim_space inner) of Some n \<Rightarrow> if 0 < n then Some n else None | None \<Rightarrow> None)
      else None)"

definition column_definition :: "desired_column \<Rightarrow> string" where
  "column_definition d = [CHR 0x60] @ dd_target d @ [CHR 0x60] @ '' '' @ dd_type d @ (if dd_nullable d then [] else '' NOT NULL'')"

definition backquoted :: "string \<Rightarrow> string" where
  "backquoted s = [CHR 0x60] @ s @ [CHR 0x60]"

definition create_statement :: "string \<Rightarrow> string \<Rightarrow> desired_column list \<Rightarrow> string" where
  "create_statement db table cols =
     (let keys = map (\<lambda>d. backquoted (dd_target d)) (filter dd_key cols) in
      ''CREATE TABLE IF NOT EXISTS '' @ db @ ''.'' @ table @ '' ('' @ str_join '','' (map column_definition cols) @
      '') UNIQUE KEY('' @ str_join '','' keys @ '') DISTRIBUTED BY HASH('' @ hd keys @ '') BUCKETS 10 PROPERTIES ('' @
      [CHR 0x22] @ ''replication_num'' @ [CHR 0x22] @ '' = '' @ [CHR 0x22] @ ''1'' @ [CHR 0x22] @ '','' @
      [CHR 0x22] @ ''enable_unique_key_merge_on_write'' @ [CHR 0x22] @ '' = '' @ [CHR 0x22] @ ''true'' @ [CHR 0x22] @ '');'')"

definition table_plan_of :: "string \<Rightarrow> string \<Rightarrow> table_schema \<Rightarrow> string + table_plan" where
  "table_plan_of db table sc =
     (if ts_columns sc = [] then Inl (''empty schema for '' @ ts_schema sc @ ''.'' @ ts_table sc)
      else let cols = desiredDorisColumns (Some sc) in
        Inr \<lparr>tp_columns = map dd_target cols,
             tp_bindings = map (\<lambda>d. \<lparr>cb_source = dd_source d, cb_target = dd_target d, cb_type = dd_type d, cb_nullable = dd_nullable d\<rparr>) cols,
             tp_keys = map dd_source (filter dd_key cols),
             tp_strings = map (\<lambda>d. (dd_target d, is_string_type (dd_type d))) cols,
             tp_lengths = [(dd_target d, n). d \<leftarrow> cols, Some n \<leftarrow> [type_length (dd_type d)]],
             tp_statement = create_statement db table cols\<rparr>)"

section \<open>Reconciliation\<close>

record target_column =
  dc_name :: string
  dc_type :: string
  dc_nullable :: bool
  dc_key :: bool

datatype schema_fix = AddColumn desired_column | ModifyColumn target_column desired_column

definition normalizeDorisTypeName :: "string \<Rightarrow> string" where
  "normalizeDorisTypeName raw0 =
     (let raw = concat (MySQL_Tables.fields (to_upper (trim_space raw0))) in
      if raw = ''TEXT'' then ''STRING''
      else if has_prefix ''DECIMALV2('' raw \<or> has_prefix ''DECIMALV3('' raw then ''DECIMAL'' @ drop 9 raw
      else if raw = ''INTEGER'' then ''INT'' else raw)"

fun parse_params :: "string list \<Rightarrow> int list" where
  "parse_params [] = []"
| "parse_params (p # ps) = (case atoi (trim_space p) of None \<Rightarrow> [] | Some n \<Rightarrow> n # parse_params ps)"

definition parseTypeParams :: "string \<Rightarrow> int list" where
  "parseTypeParams t =
     (case (if CHR ''('' \<in> set t then Some (length (takeWhile (\<lambda>c. c \<noteq> CHR ''('') t)) else None, last_index CHR '')'' t) of
        (Some l, Some r) \<Rightarrow> if r \<le> l + 1 then [] else parse_params (Rebuild_Config.split_on CHR '','' (take (r - (l + 1)) (drop (l + 1) t)))
      | _ \<Rightarrow> [])"

definition splitDorisType :: "string \<Rightarrow> string \<times> int list" where
  "splitDorisType t = (if CHR ''('' \<in> set t then (takeWhile (\<lambda>c. c \<noteq> CHR ''('') t, parseTypeParams t) else (t, []))"

definition isDorisStringType :: "string \<Rightarrow> bool" where
  "isDorisStringType t \<longleftrightarrow> fst (splitDorisType t) \<in> {''CHAR'', ''VARCHAR'', ''STRING''}"

text \<open>\<open>None\<close>: the length is not bounded.\<close>

definition dorisStringLength :: "string \<Rightarrow> int list \<Rightarrow> int option" where
  "dorisStringLength base params = (if base = ''STRING'' then None else case params of [] \<Rightarrow> Some 0 | p # _ \<Rightarrow> Some p)"

definition dorisIntegerRank :: "string \<Rightarrow> nat option" where
  "dorisIntegerRank base =
     map_of [(''TINYINT'', 1), (''SMALLINT'', 2), (''INT'', 3), (''BIGINT'', 4), (''LARGEINT'', 5)] base"

definition decimalCanRepresent :: "int list \<Rightarrow> int list \<Rightarrow> bool" where
  "decimalCanRepresent current desired \<longleftrightarrow>
     (case (current, desired) of
        (cp # cs # _, dp # ds # _) \<Rightarrow> ds \<le> cs \<and> dp - ds \<le> cp - cs
      | _ \<Rightarrow> False)"

definition dorisTypeCanRepresent :: "string \<Rightarrow> string \<Rightarrow> bool" where
  "dorisTypeCanRepresent currentRaw desiredRaw \<longleftrightarrow>
     (let current = normalizeDorisTypeName currentRaw; desired = normalizeDorisTypeName desiredRaw;
          (cb, cp) = splitDorisType current; (db, dp) = splitDorisType desired in
      if current = desired then True
      else if current = ''STRING'' \<and> isDorisStringType desired then True
      else if isDorisStringType current \<and> isDorisStringType desired
      then (case dorisStringLength cb cp of
              None \<Rightarrow> True
            | Some c \<Rightarrow> (case dorisStringLength db dp of None \<Rightarrow> False | Some d \<Rightarrow> d \<le> c))
      else case (dorisIntegerRank cb, dorisIntegerRank db) of
        (Some c, Some d) \<Rightarrow> d \<le> c
      | _ \<Rightarrow>
          if cb = ''DOUBLE'' \<and> db = ''FLOAT'' then True
          else if cb = ''DATETIME'' \<and> db = ''DATE'' then True
          else if has_prefix ''DATETIMEV2'' cb \<and> (db = ''DATETIME'' \<or> db = ''DATE'') then True
          else if cb = ''DECIMAL'' \<and> db = ''DECIMAL'' then decimalCanRepresent cp dp
          else False)"

definition isSafeDorisTypeWidening :: "string \<Rightarrow> string \<Rightarrow> bool" where
  "isSafeDorisTypeWidening currentRaw desiredRaw \<longleftrightarrow>
     (let current = normalizeDorisTypeName currentRaw; desired = normalizeDorisTypeName desiredRaw;
          (cb, cp) = splitDorisType current; (db, dp) = splitDorisType desired in
      if desired = ''STRING'' \<and> cb \<noteq> ''DATE'' \<and> cb \<noteq> ''DATETIME'' \<and> \<not> has_prefix ''DATETIMEV2'' cb then True
      else if isDorisStringType current \<and> isDorisStringType desired
      then (case dorisStringLength cb cp of
              None \<Rightarrow> False
            | Some c \<Rightarrow> (case dorisStringLength db dp of None \<Rightarrow> True | Some d \<Rightarrow> c < d))
      else case (dorisIntegerRank cb, dorisIntegerRank db) of
        (Some c, Some d) \<Rightarrow> c < d
      | _ \<Rightarrow>
          if cb = ''FLOAT'' \<and> db = ''DOUBLE'' then True
          else if cb = ''DATE'' \<and> (db = ''DATETIME'' \<or> has_prefix ''DATETIMEV2'' db) then True
          else if cb = ''DECIMAL'' \<and> db = ''DECIMAL'' then decimalCanRepresent dp cp
          else False)"

definition column_key :: "string \<Rightarrow> string" where
  "column_key name = to_lower (trim_space name)"

definition find_current :: "target_column list \<Rightarrow> string \<Rightarrow> target_column option" where
  "find_current current name = List.find (\<lambda>c. column_key (dc_name c) = column_key name) (rev current)"

fun planDorisSchemaChanges :: "target_column list \<Rightarrow> desired_column list \<Rightarrow> string + schema_fix list" where
  "planDorisSchemaChanges current [] = Inr []"
| "planDorisSchemaChanges current (d # ds) =
     (case find_current current (dd_target d) of
        None \<Rightarrow>
          if dd_key d then Inl (''target is missing source key column '' @ dd_target d)
          else map_sum id ((#) (AddColumn d)) (planDorisSchemaChanges current ds)
      | Some c \<Rightarrow>
          if dc_key c \<noteq> dd_key d then Inl (''key mismatch for column '' @ dd_target d)
          else (let compatible = dorisTypeCanRepresent (dc_type c) (dd_type d); relax = dd_nullable d \<and> \<not> dc_nullable c in
            if compatible \<and> \<not> relax then planDorisSchemaChanges current ds
            else if \<not> compatible \<and> \<not> isSafeDorisTypeWidening (dc_type c) (dd_type d)
            then Inl (''unsafe type mismatch for column '' @ dd_target d)
            else map_sum id ((#) (ModifyColumn c d)) (planDorisSchemaChanges current ds)))"

definition dorisSchemaChangeSQL :: "string \<Rightarrow> string \<Rightarrow> schema_fix \<Rightarrow> string" where
  "dorisSchemaChangeSQL db table fix' =
     (let target = ''ALTER TABLE '' @ quoteDorisIdentifier db @ ''.'' @ quoteDorisIdentifier table in
      case fix' of
        AddColumn d \<Rightarrow> target @ '' ADD COLUMN '' @ quoteDorisIdentifier (dd_target d) @ '' '' @ dd_type d @ '' NULL''
      | ModifyColumn c d \<Rightarrow>
          target @ '' MODIFY COLUMN '' @ quoteDorisIdentifier (dd_target d) @ '' '' @ dd_type d @
          (if dc_key c then '' KEY'' else []) @ (if dd_nullable d \<or> dc_nullable c then '' NULL'' else '' NOT NULL''))"

definition fix_wanted :: "schema_fix \<Rightarrow> desired_column" where
  "fix_wanted fix' = (case fix' of AddColumn d \<Rightarrow> d | ModifyColumn c d \<Rightarrow> d)"

definition dorisSchemaChangeApplied :: "target_column list \<Rightarrow> schema_fix \<Rightarrow> bool" where
  "dorisSchemaChangeApplied current fix' \<longleftrightarrow>
     (case List.find (\<lambda>c. equal_fold (trim_space (dc_name c)) (trim_space (dd_target (fix_wanted fix')))) current of
        None \<Rightarrow> False
      | Some c \<Rightarrow> dorisTypeCanRepresent (dc_type c) (dd_type (fix_wanted fix')) \<and> (dd_nullable (fix_wanted fix') \<longrightarrow> dc_nullable c))"

text \<open>The answers of the polls until the deadline; a failed one is \<open>None\<close>.\<close>

definition waitForDorisSchemaChange :: "target_column list option list \<Rightarrow> schema_fix \<Rightarrow> string option" where
  "waitForDorisSchemaChange polls fix' =
     (if list_ex (\<lambda>p. case p of None \<Rightarrow> False | Some current \<Rightarrow> dorisSchemaChangeApplied current fix') polls then None
      else Some (''timed out waiting for Doris schema reconciliation column='' @ dd_target (fix_wanted fix')))"

text \<open>\<open>exec n\<close> answers the \<open>n\<close>-th statement, \<open>polls n\<close> the polls behind it. The statements sent are returned.\<close>

fun run_fixes :: "string \<Rightarrow> string \<Rightarrow> (nat \<Rightarrow> string option) \<Rightarrow> (nat \<Rightarrow> target_column list option list) \<Rightarrow> nat \<Rightarrow> schema_fix list \<Rightarrow>
    string option \<times> string list" where
  "run_fixes db table exec polls n [] = (None, [])"
| "run_fixes db table exec polls n (f # fs) =
     (let stmt = dorisSchemaChangeSQL db table f in
      case exec n of
        Some e \<Rightarrow> (Some (''reconcile Doris schema: '' @ e), [stmt])
      | None \<Rightarrow>
          (case waitForDorisSchemaChange (polls n) f of
             Some e \<Rightarrow> (Some e, [stmt])
           | None \<Rightarrow> (case run_fixes db table exec polls (Suc n) fs of (r, stmts) \<Rightarrow> (r, stmt # stmts))))"

definition reconcileTableSchemaOnce ::
  "string \<Rightarrow> string \<Rightarrow> string + target_column list \<Rightarrow> (nat \<Rightarrow> string option) \<Rightarrow> (nat \<Rightarrow> target_column list option list) \<Rightarrow>
     desired_column list \<Rightarrow> string option \<times> string list" where
  "reconcileTableSchemaOnce db table fetched exec polls desired =
     (case fetched of
        Inl e \<Rightarrow> (Some (''inspect Doris schema: '' @ e), [])
      | Inr current \<Rightarrow>
          (case planDorisSchemaChanges current desired of
             Inl e \<Rightarrow> (Some (''reconcile Doris schema: '' @ e), [])
           | Inr steps \<Rightarrow> run_fixes db table exec polls 0 steps))"

section \<open>DDL events\<close>

definition appendDorisColumnPosition :: "string \<Rightarrow> schema_change \<Rightarrow> string" where
  "appendDorisColumnPosition stmt change =
     (if sc_position change = ColumnPositionFirst then stmt @ '' FIRST''
      else if sc_position change = ColumnPositionAfter \<and> trim_space (sc_after change) \<noteq> []
      then stmt @ '' AFTER '' @ backquoted (sc_after change) else stmt)"

text \<open>The statement of a change, if it has one; the error is the reason to skip the whole event.\<close>

definition change_statement :: "string \<Rightarrow> string \<Rightarrow> schema_change \<Rightarrow> string + string option" where
  "change_statement db tbl change =
     (let name = backquoted db @ ''.'' @ backquoted tbl; ty = sc_type change in
      if ty = SchemaChangeCreateTable then Inl ''skip CREATE TABLE from source; handled by EnsureTable()''
      else if ty = SchemaChangeDropTable then Inr (Some (''DROP TABLE IF EXISTS '' @ name))
      else if ty = SchemaChangeTruncateTable then Inr (Some (''TRUNCATE TABLE '' @ name))
      else if ty = SchemaChangeAddColumn
      then (case sc_column change of
              None \<Rightarrow> Inl ''add-column schema change has no column''
            | Some c \<Rightarrow> Inr (Some (appendDorisColumnPosition (''ALTER TABLE '' @ name @ '' ADD COLUMN '' @ backquoted (tc_name c) @ '' '' @
                mapMySQLColumnToDoris c False @ '' NULL'') change)))
      else if ty = SchemaChangeDropColumn
      then Inr (Some (''ALTER TABLE '' @ name @ '' DROP COLUMN '' @ backquoted (sc_old change)))
      else if ty = SchemaChangeRenameColumn
      then Inr (Some (''ALTER TABLE '' @ name @ '' RENAME COLUMN '' @ backquoted (sc_old change) @ '' '' @ backquoted (sc_new change)))
      else if ty = SchemaChangeAlterColumnType
      then (case sc_column change of
              None \<Rightarrow> Inl ''alter-column schema change has no column''
            | Some c \<Rightarrow> Inr (Some (appendDorisColumnPosition (''ALTER TABLE '' @ name @ '' MODIFY COLUMN '' @ backquoted (tc_name c) @ '' '' @
                mapMySQLColumnToDoris c False @ (if tc_nullable c then '' NULL'' else '' NOT NULL'')) change)))
      else Inr None)"

fun change_statements :: "string \<Rightarrow> string \<Rightarrow> schema_change list \<Rightarrow> string + string list" where
  "change_statements db tbl [] = Inr []"
| "change_statements db tbl (c # cs) =
     (case change_statement db tbl c of
        Inl e \<Rightarrow> Inl e
      | Inr s \<Rightarrow> (case change_statements db tbl cs of
          Inl e \<Rightarrow> Inl e
        | Inr stmts \<Rightarrow> Inr (case s of None \<Rightarrow> stmts | Some st \<Rightarrow> st # stmts)))"

definition translateSchemaChangesToDoris :: "schema_change list \<Rightarrow> string \<Rightarrow> string \<Rightarrow> string + string list" where
  "translateSchemaChangesToDoris changes db tbl =
     (case change_statements db tbl changes of
        Inl e \<Rightarrow> Inl e
      | Inr [] \<Rightarrow> Inl ''no row-schema changes''
      | Inr stmts \<Rightarrow> Inr stmts)"

section \<open>Distinct names\<close>

definition digit_tail :: "string \<Rightarrow> string" where
  "digit_tail s = rev (takeWhile is_digit (rev s))"

lemma lower_digit: "is_digit c \<Longrightarrow> lower_char c = c"
  by (auto simp: is_digit_def lower_char_def Let_def)

lemma digit_tail_number: "digit_tail (to_lower (p @ CHR ''_'' # show_nat n)) = show_nat n"
proof -
  have d: "\<forall>x \<in> set (rev (show_nat n)). is_digit x" by (simp add: show_nat_digits)
  have l: "map lower_char (show_nat n) = show_nat n" by (rule map_idI) (simp add: lower_digit show_nat_digits)
  have u: "lower_char CHR ''_'' = CHR ''_''" "\<not> is_digit CHR ''_''" by (simp_all add: lower_char_def is_digit_def)
  have "takeWhile is_digit (rev (show_nat n) @ CHR ''_'' # rev (map lower_char p)) = rev (show_nat n)"
    using d u by (simp add: takeWhile_append)
  then show ?thesis by (simp add: digit_tail_def to_lower_def l u)
qed

lemma next_name_shape: "\<exists>p. next_name base n = p @ CHR ''_'' # show_nat n"
  by (auto simp: next_name_def Let_def)

lemma next_names_differ: "to_lower (next_name base a) = to_lower (next_name base b) \<Longrightarrow> a = b"
  by (metis next_name_shape digit_tail_number show_nat_inj)

lemma pick_name_fresh:
  "to_lower candidate \<notin> set used \<or> (\<exists>i. Suc i < fuel \<and> to_lower (next_name base (n + i)) \<notin> set used) \<Longrightarrow> 0 < fuel \<Longrightarrow>
     to_lower (pick_name fuel base used candidate n) \<notin> set used"
proof (induction fuel arbitrary: candidate n)
  case (Suc fuel)
  show ?case
  proof (cases "to_lower candidate \<in> set used")
    case True
    then obtain i where i: "i < fuel" "to_lower (next_name base (n + i)) \<notin> set used" using Suc.prems by auto
    have "to_lower (next_name base n) \<notin> set used \<or> (\<exists>j. Suc j < fuel \<and> to_lower (next_name base (Suc n + j)) \<notin> set used)"
      using i by (cases i) auto
    then show ?thesis using Suc.IH True i by simp
  qed simp
qed simp

lemma fresh_candidate: "\<exists>i \<le> length used. to_lower (next_name base (n + i)) \<notin> set used"
proof (rule ccontr)
  assume "\<not> ?thesis"
  then have sub: "(\<lambda>i. to_lower (next_name base (n + i))) ` {..length used} \<subseteq> set used" by auto
  have "inj_on (\<lambda>i. to_lower (next_name base (n + i))) {..length used}" by (auto intro!: inj_onI dest: next_names_differ)
  then have "card {..length used} \<le> card (set used)" using card_mono [OF _ sub] by (simp add: card_image)
  then show False using card_length [of used] by simp
qed

lemma sanitized_fresh: "to_lower (sanitizeDorisColumnName name ordinal used) \<notin> set used"
proof -
  obtain i where i: "i \<le> length used" "to_lower (next_name (base_name name ordinal) (2 + i)) \<notin> set used"
    using fresh_candidate by blast
  have w: "\<exists>i. Suc i < length used + 2 \<and> to_lower (next_name (base_name name ordinal) (2 + i)) \<notin> set used"
    by (rule exI [of _ i]) (use i in simp)
  show ?thesis unfolding sanitizeDorisColumnName_def Let_def
    by (rule pick_name_fresh) (use w in auto)
qed

lemma name_columns_fresh:
  "distinct (map (to_lower \<circ> dd_target) (name_columns ordinal used cols)) \<and>
   set (map (to_lower \<circ> dd_target) (name_columns ordinal used cols)) \<inter> set used = {}"
proof (induction ordinal used cols rule: name_columns.induct)
  case (2 ordinal used c k cols)
  then show ?case using sanitized_fresh [of "tc_name c" ordinal used] by (auto simp: Let_def)
qed simp

lemma name_columns_source:
  "map (\<lambda>d. (dd_source d, dd_key d)) (name_columns ordinal used cols) = map (\<lambda>p. (tc_name (fst p), snd p)) cols"
  by (induction ordinal used cols rule: name_columns.induct) (simp_all add: Let_def)

text \<open>Names have no surrounding space.\<close>

definition solid :: "string \<Rightarrow> bool" where
  "solid s \<longleftrightarrow> s \<noteq> [] \<and> \<not> is_space (hd s) \<and> \<not> is_space (List.last s)"

lemma solid_trim: "solid s \<Longrightarrow> trim_space s = s"
  by (simp add: solid_def trim_space_ends)

lemma trim_solid: "trim_space s \<noteq> [] \<Longrightarrow> solid (trim_space s)"
proof -
  assume ne: "trim_space s \<noteq> []"
  define t where "t = dropWhile is_space s"
  have tr: "trim_space s = rev (dropWhile is_space (rev t))" by (simp add: trim_space_def t_def)
  have ne': "dropWhile is_space (rev t) \<noteq> []" using ne tr by simp
  obtain u where u: "rev t = u @ dropWhile is_space (rev t)" by (metis takeWhile_dropWhile_id)
  have "t = trim_space s @ rev u" using arg_cong [OF u, of rev] tr by simp
  then have "hd (trim_space s) = hd t" "t \<noteq> []" using ne by auto
  moreover have "\<not> is_space (hd t)" using calculation(2) t_def hd_dropWhile by blast
  moreover have "\<not> is_space (List.last (trim_space s))" using ne' by (simp add: tr last_rev hd_dropWhile)
  ultimately show ?thesis using ne by (simp add: solid_def)
qed

lemma word_char_solid: "word_char c \<Longrightarrow> \<not> is_space c"
  by (auto simp: is_space_def ident_char_def ident_start_def is_digit_def lower_char_def Let_def)

lemma word_solid: "s \<noteq> [] \<Longrightarrow> \<forall>c \<in> set s. word_char c \<Longrightarrow> solid s"
  by (simp add: solid_def word_char_solid)

lemma clean_name_word: "c \<in> set (clean_name b s) \<Longrightarrow> word_char c"
  by (induction b s rule: clean_name.induct) (auto split: if_splits simp: ident_char_def ident_start_def)

lemma trim_right_subset: "set (trim_right_char c s) \<subseteq> set s"
  unfolding trim_right_char_def by (auto dest: set_dropWhileD)

lemma digit_word: "is_digit c \<Longrightarrow> word_char c"
  by (simp add: ident_char_def)

lemma numbered_column_word: "c \<in> set (numbered_column n) \<Longrightarrow> word_char c"
  using show_nat_digits [of c "Suc n"]
  by (auto simp: numbered_column_def digit_word ident_char_def ident_start_def lower_char_def)

lemma numbered_column_solid: "solid (numbered_column n)"
  by (rule word_solid) (auto simp: numbered_column_word, simp add: numbered_column_def)

lemma base_name_solid: "solid (base_name name ordinal)"
proof -
  define cleaned where "cleaned = trim_right_char CHR ''_'' (dropWhile (\<lambda>x. x = CHR ''_'') (clean_name False (trim_space name)))"
  define base where "base = (if doris_name_ok (trim_space name) then trim_space name else cleaned)"
  define b2 where "b2 = (if base = [] then numbered_column ordinal else base)"
  have word: "c \<in> set cleaned \<Longrightarrow> word_char c" for c
    unfolding cleaned_def using trim_right_subset by (auto dest!: set_dropWhileD subsetD [OF trim_right_subset] clean_name_word)
  have solid: "solid b2"
    using numbered_column_solid [of ordinal] trim_solid [of name] word_solid [of cleaned] word
    by (auto simp: b2_def base_def doris_name_ok_def)
  have all: "\<forall>c \<in> set b2. word_char c" if "256 < length b2"
    using that word numbered_column_word by (auto simp: b2_def base_def doris_name_ok_def split: if_splits)
  define cut where "cut = trim_right_char CHR ''_'' (take 256 b2)"
  have "solid (if cut = [] then numbered_column ordinal else cut)" if "256 < length b2"
    using all [OF that] numbered_column_solid [of ordinal] trim_right_subset [of "CHR ''_''" "take 256 b2"]
    by (auto simp: cut_def intro!: word_solid dest: in_set_takeD)
  then show ?thesis using solid
    unfolding base_name_def Let_def
    unfolding cleaned_def [symmetric] unfolding base_def [symmetric] unfolding b2_def [symmetric] unfolding cut_def [symmetric] by simp
qed

lemma trim_right_hd: "trim_right_char c s \<noteq> [] \<Longrightarrow> hd (trim_right_char c s) = hd s"
proof -
  assume ne: "trim_right_char c s \<noteq> []"
  have "s = trim_right_char c s @ rev (takeWhile (\<lambda>x. x = c) (rev s))"
    unfolding trim_right_char_def by (metis rev_append rev_rev_ident takeWhile_dropWhile_id)
  then show ?thesis using ne by (metis hd_append2)
qed

lemma next_name_solid: "solid base \<Longrightarrow> solid (next_name base n)"
proof -
  assume b: "solid base"
  have tail: "\<not> is_space (List.last (show_nat n))"
    using show_nat_digits [of "List.last (show_nat n)" n] word_char_solid digit_word by simp
  have join: "solid (p @ CHR ''_'' # show_nat n)" if "p \<noteq> []" "\<not> is_space (hd p)" for p
    using that tail by (simp add: solid_def)
  define t where "t = trim_right_char CHR ''_'' (take (max 1 (256 - length (CHR ''_'' # show_nat n))) base)"
  have h: "t \<noteq> [] \<Longrightarrow> hd t = hd base"
    unfolding t_def using b trim_right_hd by (simp add: solid_def hd_take)
  have c: "\<not> is_space CHR ''c''" by (simp add: is_space_def)
  have bb: "base \<noteq> []" "\<not> is_space (hd base)" using b by (simp_all add: solid_def)
  show ?thesis
    unfolding next_name_def Let_def append_Cons append_Nil
    unfolding t_def [symmetric]
    using join [OF bb] join [of t] join [of "''col''"] h bb c by auto
qed

lemma pick_name_solid: "solid base \<Longrightarrow> solid candidate \<Longrightarrow> solid (pick_name fuel base used candidate n)"
  by (induction fuel arbitrary: candidate n) (simp_all add: next_name_solid)

lemma sanitized_trim: "trim_space (sanitizeDorisColumnName name ordinal used) = sanitizeDorisColumnName name ordinal used"
  unfolding sanitizeDorisColumnName_def Let_def
  by (intro solid_trim pick_name_solid base_name_solid)

lemma name_columns_key: "d \<in> set (name_columns ordinal used cols) \<Longrightarrow> column_key (dd_target d) = to_lower (dd_target d)"
  by (induction ordinal used cols rule: name_columns.induct) (auto simp: Let_def column_key_def sanitized_trim)

text \<open>The columns of a source table, each once under a name of its own, the key columns first.\<close>

lemma ordered_columns_all: "mset (map fst (ordered_columns cols)) = mset cols"
proof -
  have l: "length (key_marks cols) = length cols" by (cases cols) (auto simp: key_marks_def)
  have "mset (map fst (filter snd m @ filter (\<lambda>p. \<not> snd p) m)) = mset (map fst m)" for m :: "(table_column \<times> bool) list"
    by (induction m) auto
  moreover have "mset (map fst (zip cols (key_marks cols))) = mset cols" using l by (simp only: map_fst_zip)
  ultimately show ?thesis unfolding ordered_columns_def Let_def by metis
qed

lemma ordered_columns_keys: "\<exists>n. map snd (ordered_columns cols) = replicate n True @ replicate (length cols - n) False"
proof -
  define m where "m = zip cols (key_marks cols)"
  have l: "length (key_marks cols) = length cols" by (cases cols) (auto simp: key_marks_def)
  have t: "map snd (filter snd m) = replicate (length (filter snd m)) True"
    by (rule replicate_eqI) auto
  have f: "map snd (filter (\<lambda>p. \<not> snd p) m) = replicate (length (filter (\<lambda>p. \<not> snd p) m)) False"
    by (rule replicate_eqI) auto
  have "length (filter snd m) + length (filter (\<lambda>p. \<not> snd p) m) = length cols"
    using sum_length_filter_compl [of snd m] l by (simp add: m_def)
  then have "length (filter (\<lambda>p. \<not> snd p) m) = length cols - length (filter snd m)" by simp
  then show ?thesis using t f by (auto simp: ordered_columns_def Let_def simp flip: m_def)
qed

text \<open>
  The Doris table has one column for every source column, their names differ even when case is ignored (whatever the
  source calls its columns, also after characters were replaced or names cut), and the key columns come first.
\<close>
theorem target_columns_distinct:
  "mset (map dd_source (desiredDorisColumns (Some sc))) = mset (map tc_name (ts_columns sc)) \<and>
   distinct (map (to_lower \<circ> dd_target) (desiredDorisColumns (Some sc))) \<and>
   (\<exists>n. map dd_key (desiredDorisColumns (Some sc)) = replicate n True @ replicate (length (ts_columns sc) - n) False)"
proof -
  let ?d = "desiredDorisColumns (Some sc)" and ?o = "ordered_columns (ts_columns sc)"
  have s: "map (\<lambda>d. (dd_source d, dd_key d)) ?d = map (\<lambda>p. (tc_name (fst p), snd p)) ?o"
    by (simp add: desiredDorisColumns_def name_columns_source)
  have "map dd_source ?d = map tc_name (map fst ?o)" using arg_cong [OF s, of "map fst"] by (simp add: comp_def)
  then have "mset (map dd_source ?d) = image_mset tc_name (mset (map fst ?o))" by (simp flip: mset_map)
  moreover have "map dd_key ?d = map snd ?o" using arg_cong [OF s, of "map snd"] by (simp add: comp_def)
  moreover have "distinct (map (to_lower \<circ> dd_target) ?d)"
    using name_columns_fresh [of 0 "[]" ?o] by (simp add: desiredDorisColumns_def)
  ultimately show ?thesis using ordered_columns_all [of "ts_columns sc"] ordered_columns_keys [of "ts_columns sc"] by simp
qed

section \<open>A reconciled table\<close>

text \<open>What the statements of the fixes do to the table's columns.\<close>

definition apply_fix :: "schema_fix \<Rightarrow> target_column list \<Rightarrow> target_column list" where
  "apply_fix f current =
     (case f of
        AddColumn d \<Rightarrow> current @ [\<lparr>dc_name = dd_target d, dc_type = dd_type d, dc_nullable = True, dc_key = False\<rparr>]
      | ModifyColumn c d \<Rightarrow>
          map (\<lambda>x. if column_key (dc_name x) = column_key (dd_target d)
                   then x\<lparr>dc_type := dd_type d, dc_nullable := dd_nullable d \<or> dc_nullable c\<rparr> else x) current)"

definition column_settled :: "target_column list \<Rightarrow> desired_column \<Rightarrow> bool" where
  "column_settled current d \<longleftrightarrow>
     (case find_current current (dd_target d) of
        None \<Rightarrow> False
      | Some c \<Rightarrow> dc_key c = dd_key d \<and> dorisTypeCanRepresent (dc_type c) (dd_type d) \<and> (dd_nullable d \<longrightarrow> dc_nullable c))"

lemma represents_itself [simp]: "dorisTypeCanRepresent t t"
  by (simp add: dorisTypeCanRepresent_def Let_def split: prod.split)

lemma plan_settled: "\<forall>d \<in> set ds. column_settled current d \<Longrightarrow> planDorisSchemaChanges current ds = Inr []"
  by (induction ds) (auto simp: column_settled_def Let_def split: option.splits)

lemma find_same_key: "(\<And>x. P (g x) = P x) \<Longrightarrow> List.find P (map g xs) = map_option g (List.find P xs)"
  by (induction xs) auto

lemma find_map_same_key:
  "(\<And>x. column_key (dc_name (g x)) = column_key (dc_name x)) \<Longrightarrow>
     find_current (map g current) name = map_option g (find_current current name)"
  unfolding find_current_def by (simp add: rev_map find_same_key)

lemma find_current_key: "find_current current name = Some x \<Longrightarrow> column_key (dc_name x) = column_key name"
  unfolding find_current_def by (auto simp: find_Some_iff)

lemma find_current_append:
  "find_current (current @ [x]) name = (if column_key (dc_name x) = column_key name then Some x else find_current current name)"
  by (simp add: find_current_def)

lemma find_modified:
  "find_current (apply_fix (ModifyColumn c d) current) name =
     map_option (\<lambda>x. if column_key (dc_name x) = column_key (dd_target d)
                      then x\<lparr>dc_type := dd_type d, dc_nullable := dd_nullable d \<or> dc_nullable c\<rparr> else x) (find_current current name)"
  unfolding apply_fix_def schema_fix.case by (rule find_map_same_key) simp

lemma apply_fix_other:
  "column_key name \<noteq> column_key (dd_target (fix_wanted f)) \<Longrightarrow> find_current (apply_fix f current) name = find_current current name"
proof (cases f)
  case (AddColumn d)
  moreover assume "column_key name \<noteq> column_key (dd_target (fix_wanted f))"
  ultimately show ?thesis by (simp add: apply_fix_def fix_wanted_def find_current_append)
next
  case (ModifyColumn c d)
  moreover assume "column_key name \<noteq> column_key (dd_target (fix_wanted f))"
  ultimately show ?thesis
    by (cases "find_current current name") (auto simp: find_modified fix_wanted_def dest: find_current_key)
qed

lemma apply_fixes_other:
  "\<forall>f \<in> set fs. column_key name \<noteq> column_key (dd_target (fix_wanted f)) \<Longrightarrow>
     find_current (fold apply_fix fs current) name = find_current current name"
  by (induction fs arbitrary: current) (simp_all add: apply_fix_other)

lemma map_sum_Inr_iff: "map_sum h g x = Inr y \<longleftrightarrow> (\<exists>z. x = Inr z \<and> y = g z)"
  by (cases x) auto

lemma plan_wants: "planDorisSchemaChanges current ds = Inr steps \<Longrightarrow> set (map fix_wanted steps) \<subseteq> set ds"
  by (induction ds arbitrary: steps) (fastforce simp: Let_def fix_wanted_def map_sum_Inr_iff split: option.splits if_splits)+

lemma plan_step_settles:
  assumes "planDorisSchemaChanges current (d # ds) = Inr steps"
  shows "(column_settled current d \<and> planDorisSchemaChanges current ds = Inr steps) \<or>
    (\<exists>f fs. steps = f # fs \<and> fix_wanted f = d \<and> planDorisSchemaChanges current ds = Inr fs \<and>
      (\<forall>cur. find_current cur (dd_target d) = find_current current (dd_target d) \<longrightarrow> column_settled (apply_fix f cur) d))"
proof (cases "find_current current (dd_target d)")
  case None
  then obtain fs where fs: "steps = AddColumn d # fs" "planDorisSchemaChanges current ds = Inr fs" "\<not> dd_key d"
    using assms by (auto simp: map_sum_Inr_iff split: if_splits)
  have "column_settled (apply_fix (AddColumn d) cur) d" for cur
    using fs(3) by (simp add: apply_fix_def column_settled_def find_current_append)
  then show ?thesis using fs by (auto simp: fix_wanted_def)
next
  case (Some c)
  have k: "dc_key c = dd_key d" using assms Some by (auto split: if_splits)
  show ?thesis
  proof (cases "dorisTypeCanRepresent (dc_type c) (dd_type d) \<and> \<not> (dd_nullable d \<and> \<not> dc_nullable c)")
    case True
    then show ?thesis using assms Some k by (auto simp: column_settled_def)
  next
    case False
    then obtain fs where fs: "steps = ModifyColumn c d # fs" "planDorisSchemaChanges current ds = Inr fs"
      using assms Some k by (auto simp: Let_def map_sum_Inr_iff split: if_splits)
    have "column_settled (apply_fix (ModifyColumn c d) cur) d" if "find_current cur (dd_target d) = Some c" for cur
      using that k find_current_key [OF that] by (simp add: column_settled_def find_modified)
    then show ?thesis using fs Some by (auto simp: fix_wanted_def)
  qed
qed

lemma fixes_settle:
  "\<lbrakk>planDorisSchemaChanges current ds = Inr steps; distinct (map (column_key \<circ> dd_target) ds);
    \<forall>d \<in> set ds. find_current cur (dd_target d) = find_current current (dd_target d)\<rbrakk> \<Longrightarrow>
   \<forall>d \<in> set ds. column_settled (fold apply_fix steps cur) d"
proof (induction ds arbitrary: steps cur)
  case (Cons d ds)
  have other: "column_key (dd_target d) \<noteq> column_key (dd_target e)" if "e \<in> set ds" for e
    using Cons.prems(2) that by (auto simp: image_iff)
  from plan_step_settles [OF Cons.prems(1)] show ?case
  proof (elim disjE exE conjE)
    assume s: "column_settled current d" and p: "planDorisSchemaChanges current ds = Inr steps"
    have "find_current (fold apply_fix steps cur) (dd_target d) = find_current cur (dd_target d)"
      by (rule apply_fixes_other) (use other plan_wants [OF p] in auto)
    then show ?thesis using s p Cons by (simp add: column_settled_def)
  next
    fix f fs
    assume f: "steps = f # fs" "fix_wanted f = d" and p: "planDorisSchemaChanges current ds = Inr fs"
      and s: "\<forall>cur. find_current cur (dd_target d) = find_current current (dd_target d) \<longrightarrow> column_settled (apply_fix f cur) d"
    have "find_current (fold apply_fix fs (apply_fix f cur)) (dd_target d) = find_current (apply_fix f cur) (dd_target d)"
      by (rule apply_fixes_other) (use other plan_wants [OF p] in auto)
    moreover have "find_current (apply_fix f cur) (dd_target e) = find_current current (dd_target e)" if "e \<in> set ds" for e
      using apply_fix_other [of "dd_target e" f cur] other [OF that] f(2) Cons.prems(3) that by auto
    ultimately show ?thesis using s f p Cons by (auto simp: column_settled_def)
  qed
qed simp

text \<open>
  C36: A reconciled table stays as it is: when the comparison of a Doris table with the wanted columns yields changes, and
  the changes are made, the next comparison finds nothing to do and reports no mismatch.
\<close>
theorem reconciled_table_settles:
  assumes "planDorisSchemaChanges current (desiredDorisColumns source) = Inr steps"
  shows "planDorisSchemaChanges (fold apply_fix steps current) (desiredDorisColumns source) = Inr []"
proof -
  have "distinct (map (column_key \<circ> dd_target) (desiredDorisColumns source))"
    using name_columns_fresh name_columns_key
    by (cases source) (auto simp: desiredDorisColumns_def distinct_map inj_on_def)
  then show ?thesis using fixes_settle [OF assms] by (intro plan_settled) simp
qed

definition sample_columns :: "table_column list" where
  "sample_columns =
     [\<lparr>tc_name = ''note'', tc_data_type = ''varchar'', tc_column_type = ''varchar(20)'', tc_char_max = Some 20,
       tc_precision = None, tc_scale = None, tc_nullable = True, tc_pk = False\<rparr>,
      \<lparr>tc_name = ''id'', tc_data_type = ''bigint'', tc_column_type = ''bigint'', tc_char_max = None,
       tc_precision = None, tc_scale = None, tc_nullable = False, tc_pk = True\<rparr>,
      \<lparr>tc_name = ''Note'', tc_data_type = ''date'', tc_column_type = ''date'', tc_char_max = None,
       tc_precision = None, tc_scale = None, tc_nullable = True, tc_pk = False\<rparr>]"

definition sample_wanted :: table_schema where
  "sample_wanted = \<lparr>ts_schema = ''shop'', ts_table = ''orders'', ts_columns = sample_columns\<rparr>"

definition sample_target :: "target_column list" where
  "sample_target =
     [\<lparr>dc_name = ''ID'', dc_type = ''int'', dc_nullable = False, dc_key = True\<rparr>,
      \<lparr>dc_name = ''note'', dc_type = ''varchar(10)'', dc_nullable = False, dc_key = False\<rparr>]"

lemma reconciled_table_settles_witness:
  "planDorisSchemaChanges
     (fold apply_fix
       [ModifyColumn \<lparr>dc_name = ''ID'', dc_type = ''int'', dc_nullable = False, dc_key = True\<rparr>
          \<lparr>dd_source = ''id'', dd_target = ''id'', dd_type = ''BIGINT'', dd_nullable = False, dd_key = True\<rparr>,
        ModifyColumn \<lparr>dc_name = ''note'', dc_type = ''varchar(10)'', dc_nullable = False, dc_key = False\<rparr>
          \<lparr>dd_source = ''note'', dd_target = ''note'', dd_type = ''VARCHAR(20)'', dd_nullable = True, dd_key = False\<rparr>,
        AddColumn \<lparr>dd_source = ''Note'', dd_target = ''Note_2'', dd_type = ''DATE'', dd_nullable = True, dd_key = False\<rparr>]
       sample_target)
     (desiredDorisColumns (Some sample_wanted)) = Inr []"
  by (rule reconciled_table_settles, code_simp)

text \<open>A column that only has to become nullable is given the wanted type, also where that is narrower than its own.\<close>

lemma relaxation_narrows:
  "planDorisSchemaChanges [\<lparr>dc_name = ''note'', dc_type = ''string'', dc_nullable = False, dc_key = False\<rparr>]
     [\<lparr>dd_source = ''note'', dd_target = ''note'', dd_type = ''VARCHAR(20)'', dd_nullable = True, dd_key = False\<rparr>] =
   Inr [ModifyColumn \<lparr>dc_name = ''note'', dc_type = ''string'', dc_nullable = False, dc_key = False\<rparr>
     \<lparr>dd_source = ''note'', dd_target = ''note'', dd_type = ''VARCHAR(20)'', dd_nullable = True, dd_key = False\<rparr>]"
  by code_simp

end
