(* ===== verification/Doris_Batch.thy ===== *)
theory Doris_Batch
  imports Doris_Schema
begin

text \<open>
  Batches of the Doris sink (\<open>pkg/connectors/doris/sink.go\<close>, \<open>text_norm.go\<close>): the text of a value, the
  lines of a stream load, and the events of a batch turned into one row operation for each key. JSON is an argument.
  Text is a list of bytes, in UTF-8 where it is not ASCII; rows without a column count as absent.

  The lemmas show that the lines of a load are split by Doris into the cells that were written, that texts fit their
  columns, and that a prepared batch has the effect of its events taken one by one.
\<close>

section \<open>The text of a value\<close>

abbreviation "fieldSep \<equiv> CHR 0x1F"
abbreviation "newline \<equiv> CHR 0x0A"
abbreviation "dorisDeleteMarkerColumn \<equiv> ''__rivus_delete''"
abbreviation "null_value \<equiv> [CHR 0x5C, CHR ''N'']"

definition sanitizeCell :: "string \<Rightarrow> string" where
  "sanitizeCell v =
     (let v = replace_all [CHR 0x0D, CHR 0x0A] '' '' v; v = replace_all [CHR 0x0A] '' '' v; v = replace_all [CHR 0x0D] '' '' v;
          v = replace_all [fieldSep] '' '' v; v = replace_all [CHR 0x22] [CHR 0x27] v in
      replace_all ''^'' '' '' v)"

text \<open>
  Runes are decoded from UTF-8: dashes, quotes and the non-breaking space are replaced, other runes that are not ASCII
  and invalid bytes are dropped. No byte below 128 is part of a longer rune, and the first byte of a rune is in none.
\<close>

definition ascii_char :: "char \<Rightarrow> bool" where
  "ascii_char c \<longleftrightarrow> (of_char c :: nat) < 128"

definition rune_text :: "string \<Rightarrow> (string \<times> char) option" where
  "rune_text s =
     List.find (\<lambda>(p, c). has_prefix p s)
       [([CHR 0xE2, CHR 0x80, CHR 0x93], CHR ''-''), ([CHR 0xE2, CHR 0x80, CHR 0x94], CHR ''-''),
        ([CHR 0xE2, CHR 0x88, CHR 0x92], CHR ''-''), ([CHR 0xE2, CHR 0x80, CHR 0x9C], CHR 0x27),
        ([CHR 0xE2, CHR 0x80, CHR 0x9D], CHR 0x27), ([CHR 0xE2, CHR 0x80, CHR 0x98], CHR 0x27),
        ([CHR 0xE2, CHR 0x80, CHR 0x99], CHR 0x27), ([CHR 0xC2, CHR 0xA0], CHR '' '')]"

fun normalizeToASCII :: "string \<Rightarrow> string" where
  "normalizeToASCII [] = []"
| "normalizeToASCII (c # s) =
     (case rune_text (c # s) of
        Some (p, r) \<Rightarrow> r # normalizeToASCII (drop (length p - 1) s)
      | None \<Rightarrow> if ascii_char c then c # normalizeToASCII s else normalizeToASCII s)"

text \<open>The text is ASCII where this is used, so a rune is a byte.\<close>

definition truncateChars :: "string \<Rightarrow> int \<Rightarrow> string" where
  "truncateChars s n = (if n \<le> 0 then s else take (nat n) s)"

definition dorisValueText :: "cell_format \<Rightarrow> cell option \<Rightarrow> string option" where
  "dorisValueText F v =
     (case v of
        None \<Rightarrow> None
      | Some CNull \<Rightarrow> None
      | Some (CBytes s) \<Rightarrow> Some (trim_space s)
      | Some c \<Rightarrow> Some (trim_space (go_text F c)))"

definition normalizeDorisValue :: "cell_format \<Rightarrow> cell option \<Rightarrow> string option" where
  "normalizeDorisValue F v =
     map_option (\<lambda>s. if s = ''0000-00-00'' then ''1970-01-01''
                     else if s = ''0000-00-00 00:00:00'' then ''1970-01-01 00:00:00'' else s) (dorisValueText F v)"

definition isDorisTemporalType :: "string \<Rightarrow> bool" where
  "isDorisTemporalType raw \<longleftrightarrow>
     (let t = to_upper (trim_space raw) in t = ''DATE'' \<or> t = ''DATEV2'' \<or> has_prefix ''DATETIME'' t)"

definition normalizeDorisValueForColumn :: "cell_format \<Rightarrow> cell option \<Rightarrow> column_binding \<Rightarrow> string option" where
  "normalizeDorisValueForColumn F v b =
     (case dorisValueText F v of
        None \<Rightarrow> None
      | Some s \<Rightarrow>
          if \<not> isDorisTemporalType (cb_type b) then normalizeDorisValue F v
          else (case NormalizeMySQLPartialDate s of
                  (fixed, True) \<Rightarrow> if cb_nullable b then None else Some fixed
                | (fixed, False) \<Rightarrow> Some s))"

section \<open>The lines of a load\<close>

text \<open>A column with whether it is a text, and its greatest length or 0.\<close>

type_synonym load_column = "column_binding \<times> bool \<times> int"

definition getColumnRuntimeMeta :: "(string \<times> bool) list \<Rightarrow> (string \<times> int) list \<Rightarrow> string list \<Rightarrow> (bool \<times> int) list" where
  "getColumnRuntimeMeta strings lengths cols =
     map (\<lambda>c. (case map_get strings c of Some b \<Rightarrow> b | None \<Rightarrow> False, case map_get lengths c of Some n \<Rightarrow> n | None \<Rightarrow> 0)) cols"

definition load_field :: "cell_format \<Rightarrow> row_data \<Rightarrow> load_column \<Rightarrow> string" where
  "load_field F data col =
     (case col of (b, isString, maxLen) \<Rightarrow>
        case normalizeDorisValueForColumn F (map_get data (cb_source b)) b of
          None \<Rightarrow> null_value
        | Some v \<Rightarrow>
            if v = [] then []
            else if isString
            then (let v = normalizeToASCII (sanitizeCell v) in if 0 < maxLen then truncateChars v maxLen else v)
            else sanitizeCell v)"

definition delete_marker :: "event \<Rightarrow> string" where
  "delete_marker ev = (if ev_type ev = EventTypeDelete then ''1'' else ''0'')"

definition load_line :: "cell_format \<Rightarrow> load_column list \<Rightarrow> event \<Rightarrow> string" where
  "load_line F cols ev =
     str_join [fieldSep] (map (load_field F (ev_data ev)) cols) @ (if cols = [] then [] else [fieldSep]) @ delete_marker ev @ [newline]"

definition writeBatchPayload :: "cell_format \<Rightarrow> load_column list \<Rightarrow> event list \<Rightarrow> string" where
  "writeBatchPayload F cols batch = concat (map (load_line F cols) batch)"

definition buildColumnsHeader :: "string list \<Rightarrow> string" where
  "buildColumnsHeader cols = str_join '','' (map quoteDorisIdentifier cols)"

section \<open>One operation for a key\<close>

fun key_values :: "row_data \<Rightarrow> string list \<Rightarrow> string + cell list" where
  "key_values row [] = Inr []"
| "key_values row (c # cs) =
     (case map_get row c of
        None \<Rightarrow> Inl (''primary-key column '' @ c @ '' is missing'')
      | Some v \<Rightarrow>
          if v = CNull then Inl (''primary-key column '' @ c @ '' is NULL'')
          else map_sum id ((#) v) (key_values row cs))"

definition dorisEventKey :: "(cell list \<Rightarrow> string + string) \<Rightarrow> row_data \<Rightarrow> string list \<Rightarrow> string + string" where
  "dorisEventKey json row pkCols =
     (if row = [] then Inl ''row is nil''
      else case key_values row pkCols of
        Inl e \<Rightarrow> Inl e
      | Inr vs \<Rightarrow> (case json vs of Inl e \<Rightarrow> Inl (''encode primary key: '' @ e) | Inr k \<Rightarrow> Inr k))"

text \<open>The prepared events with their positions.\<close>

type_synonym prepared = "(string \<times> event \<times> nat) list \<times> nat"

definition remember_event :: "(cell list \<Rightarrow> string + string) \<Rightarrow> string list \<Rightarrow> event \<Rightarrow> prepared \<Rightarrow> string + prepared" where
  "remember_event json pkCols ev p =
     (case p of (m, pos) \<Rightarrow>
        case dorisEventKey json (ev_data ev) pkCols of
          Inl e \<Rightarrow> Inl (''prepare Doris '' @ ev_type ev @ '': '' @ e)
        | Inr k \<Rightarrow> Inr (map_put k (ev, pos) m, Suc pos))"

definition old_row_delete :: "event \<Rightarrow> event" where
  "old_row_delete ev = ev\<lparr>ev_type := EventTypeDelete, ev_data := ev_old ev, ev_old := []\<rparr>"

definition prepare_event :: "(cell list \<Rightarrow> string + string) \<Rightarrow> string list \<Rightarrow> event \<Rightarrow> prepared \<Rightarrow> string + prepared" where
  "prepare_event json pkCols ev p =
     (if ev_type ev = EventTypeUpdate \<and> ev_old ev \<noteq> []
      then (case dorisEventKey json (ev_old ev) pkCols of
              Inl e \<Rightarrow> Inl (''prepare Doris UPDATE old key: '' @ e)
            | Inr old \<Rightarrow>
                (case dorisEventKey json (ev_data ev) pkCols of
                   Inl e \<Rightarrow> Inl (''prepare Doris UPDATE new key: '' @ e)
                 | Inr new \<Rightarrow>
                     if old = new then remember_event json pkCols ev p
                     else (case remember_event json pkCols (old_row_delete ev) p of
                             Inl e \<Rightarrow> Inl e
                           | Inr p1 \<Rightarrow> remember_event json pkCols ev p1)))
      else remember_event json pkCols ev p)"

fun prepare_events :: "(cell list \<Rightarrow> string + string) \<Rightarrow> string list \<Rightarrow> event list \<Rightarrow> prepared \<Rightarrow> string + prepared" where
  "prepare_events json pkCols [] p = Inr p"
| "prepare_events json pkCols (ev # evs) p =
     (case prepare_event json pkCols ev p of Inl e \<Rightarrow> Inl e | Inr p1 \<Rightarrow> prepare_events json pkCols evs p1)"

definition prepareBatch :: "(cell list \<Rightarrow> string + string) \<Rightarrow> string list \<Rightarrow> event list \<Rightarrow> string + event list" where
  "prepareBatch json pkCols batch =
     (if batch = [] then Inr []
      else if pkCols = [] then Inr batch
      else case prepare_events json pkCols batch ([], 0) of
        Inl e \<Rightarrow> Inl e
      | Inr (m, _) \<Rightarrow> Inr (map fst (sort_key snd (map snd m))))"

section \<open>Lines and cells\<close>

lemma replace_char_set: "set (replace_all [a] new s) \<subseteq> (set s - {a}) \<union> set new"
  by (induction "[a]" new s rule: replace_all.induct) (auto simp: has_prefix_def split: if_splits)

lemma replace_crlf_set: "set (replace_all [a, b] new s) \<subseteq> set s \<union> set new"
  by (induction "[a, b]" new s rule: replace_all.induct) (auto simp: has_prefix_def split: if_splits dest: in_set_dropD)

lemma sanitizeCell_clean: "fieldSep \<notin> set (sanitizeCell v) \<and> newline \<notin> set (sanitizeCell v)"
proof -
  define v1 where "v1 = replace_all [CHR 0x0D, CHR 0x0A] '' '' v"
  define v2 where "v2 = replace_all [CHR 0x0A] '' '' v1"
  define v3 where "v3 = replace_all [CHR 0x0D] '' '' v2"
  define v4 where "v4 = replace_all [fieldSep] '' '' v3"
  define v5 where "v5 = replace_all [CHR 0x22] [CHR 0x27] v4"
  define v6 where "v6 = replace_all ''^'' '' '' v5"
  have s: "sanitizeCell v = v6"
    by (simp add: sanitizeCell_def Let_def v1_def v2_def v3_def v4_def v5_def v6_def)
  have "newline \<notin> set v2" using replace_char_set [of "CHR 0x0A" "'' ''" v1] by (auto simp: v2_def)
  moreover have "set v3 \<subseteq> set v2 \<union> {CHR '' ''}" using replace_char_set [of "CHR 0x0D" "'' ''" v2] by (auto simp: v3_def)
  moreover have "set v4 \<subseteq> (set v3 - {fieldSep}) \<union> {CHR '' ''}" using replace_char_set [of fieldSep "'' ''" v3] by (simp add: v4_def)
  moreover have "set v5 \<subseteq> set v4 \<union> {CHR 0x27}" using replace_char_set [of "CHR 0x22" "[CHR 0x27]" v4] by (auto simp: v5_def)
  moreover have "set v6 \<subseteq> set v5 \<union> {CHR '' ''}" using replace_char_set [of "CHR ''^''" "'' ''" v5] by (auto simp: v6_def)
  ultimately show ?thesis unfolding s by blast
qed

lemma rune_text_char: "rune_text s = Some (p, r) \<Longrightarrow> r \<in> {CHR ''-'', CHR 0x27, CHR '' ''}"
  unfolding rune_text_def by (auto split: if_splits)

lemma normalizeToASCII_set: "set (normalizeToASCII s) \<subseteq> {c \<in> set s. ascii_char c} \<union> {CHR ''-'', CHR 0x27, CHR '' ''}"
proof (induction s rule: normalizeToASCII.induct)
  case (2 c s)
  show ?case
  proof (cases "rune_text (c # s)")
    case None
    then show ?thesis using 2(1) [OF None] 2(2) [OF None] by auto
  next
    case (Some pr)
    then obtain p r where pr: "rune_text (c # s) = Some (p, r)" by (cases pr) auto
    have "set (drop (length p - 1) s) \<subseteq> set s" by (rule set_drop_subset)
    then show ?thesis using 2(3) [OF pr refl] rune_text_char [OF pr] pr by auto
  qed
qed simp

lemma load_field_clean: "fieldSep \<notin> set (load_field F data col) \<and> newline \<notin> set (load_field F data col)"
proof -
  have a: "fieldSep \<notin> set (normalizeToASCII (sanitizeCell v)) \<and> newline \<notin> set (normalizeToASCII (sanitizeCell v))" for v
    using normalizeToASCII_set [of "sanitizeCell v"] sanitizeCell_clean [of v] by auto
  show ?thesis
    using a sanitizeCell_clean
    by (auto simp: load_field_def truncateChars_def Let_def split: prod.split option.split dest: in_set_takeD)
qed

lemma split_on_last: "d \<notin> set w \<Longrightarrow> Rebuild_Config.split_on d w = [w]"
  by (induction w) auto

lemma split_on_front: "d \<notin> set w \<Longrightarrow> Rebuild_Config.split_on d (w @ d # s) = w # Rebuild_Config.split_on d s"
  by (induction w) auto

lemma split_on_join:
  "\<forall>w \<in> set ws. d \<notin> set w \<Longrightarrow> ws \<noteq> [] \<Longrightarrow> Rebuild_Config.split_on d (str_join [d] ws) = ws"
  by (induction "[d]" ws rule: str_join.induct) (simp_all add: split_on_last split_on_front)

lemma str_join_snoc: "ws \<noteq> [] \<Longrightarrow> str_join sep (ws @ [w]) = str_join sep ws @ sep @ w"
  by (induction sep ws rule: str_join.induct) simp_all

definition load_cells :: "cell_format \<Rightarrow> load_column list \<Rightarrow> event \<Rightarrow> string list" where
  "load_cells F cols ev = map (load_field F (ev_data ev)) cols @ [delete_marker ev]"

lemma load_line_cells: "load_line F cols ev = str_join [fieldSep] (load_cells F cols ev) @ [newline]"
  by (cases "cols = []") (simp_all add: load_line_def load_cells_def str_join_snoc)

lemma load_cells_clean: "w \<in> set (load_cells F cols ev) \<Longrightarrow> fieldSep \<notin> set w \<and> newline \<notin> set w"
  using load_field_clean by (auto simp: load_cells_def delete_marker_def split: if_splits)

lemma join_set: "set (str_join sep ws) \<subseteq> (\<Union>w \<in> set ws. set w) \<union> set sep"
  by (induction sep ws rule: str_join.induct) auto

lemma split_lines:
  "\<forall>w \<in> set ws. newline \<notin> set w \<Longrightarrow> Rebuild_Config.split_on newline (concat (map (\<lambda>w. w @ [newline]) ws)) = ws @ [[]]"
  by (induction ws) (simp_all add: split_on_front)

lemma written_lines:
  "map (Rebuild_Config.split_on fieldSep) (butlast (Rebuild_Config.split_on newline (writeBatchPayload F cols batch))) =
     map (load_cells F cols) batch"
proof -
  let ?ls = "map (\<lambda>ev. str_join [fieldSep] (load_cells F cols ev)) batch"
  have "newline \<notin> set (str_join [fieldSep] (load_cells F cols ev))" for ev
    using join_set [of "[fieldSep]" "load_cells F cols ev"] load_cells_clean by fastforce
  then have "Rebuild_Config.split_on newline (concat (map (\<lambda>w. w @ [newline]) ?ls)) = ?ls @ [[]]" by (intro split_lines) auto
  moreover have lines: "load_line F cols = (\<lambda>ev. str_join [fieldSep] (load_cells F cols ev) @ [newline])"
    by (rule ext) (rule load_line_cells)
  moreover have "writeBatchPayload F cols batch = concat (map (\<lambda>w. w @ [newline]) ?ls)"
    by (simp add: writeBatchPayload_def comp_def lines)
  moreover have "Rebuild_Config.split_on fieldSep (str_join [fieldSep] (load_cells F cols ev)) = load_cells F cols ev" for ev
    by (rule split_on_join) (use load_cells_clean in \<open>auto simp: load_cells_def\<close>)
  ultimately show ?thesis by simp
qed

text \<open>
  C34: Doris reads a load as it was written: splitting the body at line ends and each line at the separator gives, for
  each event in order, one cell for each column and the delete marker behind them, whatever the values contain.
\<close>
theorem load_lines_parse:
  "map (Rebuild_Config.split_on fieldSep) (butlast (Rebuild_Config.split_on newline (writeBatchPayload F cols batch))) =
     map (load_cells F cols) batch"
  by (rule written_lines)

text \<open>
  A text loaded into a column is ASCII, and no longer than the column allows.
\<close>
theorem loaded_texts_fit:
  assumes "cols ! i = (b, True, n)" "0 < n" "i < length cols"
  shows "list_all ascii_char (load_cells F cols ev ! i) \<and> int (length (load_cells F cols ev ! i)) \<le> max 2 n"
proof -
  have c: "load_cells F cols ev ! i = load_field F (ev_data ev) (b, True, n)"
    using assms(1,3) by (simp add: load_cells_def nth_append)
  have "list_all ascii_char (take k (normalizeToASCII s))" for k s
    using normalizeToASCII_set [of s] by (auto simp: list_all_iff ascii_char_def dest: in_set_takeD)
  then show ?thesis using assms(2) unfolding c
    by (auto simp: load_field_def truncateChars_def Let_def ascii_char_def split: option.split)
qed

section \<open>Preparing a batch\<close>

text \<open>First the rows by the key the code tells operations apart with, the JSON of the raw key values.\<close>

type_synonym doris_rows = "string \<Rightarrow> row_data option"

definition apply_op :: "(cell list \<Rightarrow> string + string) \<Rightarrow> string list \<Rightarrow> event \<Rightarrow> doris_rows \<Rightarrow> doris_rows" where
  "apply_op json pkCols ev rows =
     (case dorisEventKey json (ev_data ev) pkCols of
        Inl _ \<Rightarrow> rows
      | Inr k \<Rightarrow> rows(k := if ev_type ev = EventTypeDelete then None else Some (ev_data ev)))"

text \<open>What an event means: an update takes its old row away.\<close>

definition apply_event :: "(cell list \<Rightarrow> string + string) \<Rightarrow> string list \<Rightarrow> event \<Rightarrow> doris_rows \<Rightarrow> doris_rows" where
  "apply_event json pkCols ev rows =
     apply_op json pkCols ev
       (if ev_type ev = EventTypeUpdate \<and> ev_old ev \<noteq> [] then apply_op json pkCols (old_row_delete ev) rows else rows)"

text \<open>The effect of the prepared events so far, whatever their order.\<close>

definition prepared_rows :: "(string \<times> event \<times> nat) list \<Rightarrow> doris_rows \<Rightarrow> doris_rows" where
  "prepared_rows m rows k =
     (case map_get m k of
        None \<Rightarrow> rows k
      | Some (ev, _) \<Rightarrow> if ev_type ev = EventTypeDelete then None else Some (ev_data ev))"

definition prepared_ok :: "(cell list \<Rightarrow> string + string) \<Rightarrow> string list \<Rightarrow> (string \<times> event \<times> nat) list \<Rightarrow> bool" where
  "prepared_ok json pkCols m \<longleftrightarrow>
     distinct (map fst m) \<and> (\<forall>(k, ev, _) \<in> set m. dorisEventKey json (ev_data ev) pkCols = Inr k)"

lemma map_put_keys: "distinct (map fst m) \<Longrightarrow> distinct (map fst (map_put k v m)) \<and> fst ` set (map_put k v m) = insert k (fst ` set m)"
  by (induction k v m rule: map_put.induct) auto

lemma map_put_set: "set (map_put k v m) \<subseteq> insert (k, v) (set m)"
  by (induction k v m rule: map_put.induct) auto

lemma remember_effect:
  assumes "remember_event json pkCols ev (m, n) = Inr (m', n')"
  shows "prepared_rows m' rows = apply_op json pkCols ev (prepared_rows m rows)"
    and "prepared_ok json pkCols m \<Longrightarrow> prepared_ok json pkCols m'"
proof -
  obtain k where k: "dorisEventKey json (ev_data ev) pkCols = Inr k" and m': "m' = map_put k (ev, n) m"
    using assms by (auto simp: remember_event_def split: sum.splits)
  show "prepared_rows m' rows = apply_op json pkCols ev (prepared_rows m rows)"
    by (rule ext) (simp add: prepared_rows_def apply_op_def k m')
  show "prepared_ok json pkCols m'" if "prepared_ok json pkCols m"
    using that map_put_keys [of m k "(ev, n)"] map_put_set [of k "(ev, n)" m] k unfolding prepared_ok_def m' by fastforce
qed

lemma same_key_overwrites:
  "\<lbrakk>dorisEventKey json (ev_data a) pkCols = Inr k; dorisEventKey json (ev_data b) pkCols = Inr k\<rbrakk> \<Longrightarrow>
     apply_op json pkCols b (apply_op json pkCols a rows) = apply_op json pkCols b rows"
  by (simp add: apply_op_def)

lemma prepare_event_effect:
  assumes "prepare_event json pkCols ev (m, n) = Inr (m', n')"
  shows "prepared_rows m' rows = apply_event json pkCols ev (prepared_rows m rows)"
    and "prepared_ok json pkCols m \<Longrightarrow> prepared_ok json pkCols m'"
proof -
  have "prepared_rows m' rows = apply_event json pkCols ev (prepared_rows m rows) \<and>
    (prepared_ok json pkCols m \<longrightarrow> prepared_ok json pkCols m')"
  proof (cases "ev_type ev = EventTypeUpdate \<and> ev_old ev \<noteq> []")
    case False
    then have r: "remember_event json pkCols ev (m, n) = Inr (m', n')" using assms by (auto simp: prepare_event_def)
    have a: "apply_event json pkCols ev x = apply_op json pkCols ev x" for x
      by (simp only: apply_event_def False if_False)
    show ?thesis using remember_effect [OF r] a by simp
  next
    case True
    then obtain old new where k: "dorisEventKey json (ev_old ev) pkCols = Inr old" "dorisEventKey json (ev_data ev) pkCols = Inr new"
      using assms by (auto simp: prepare_event_def split: sum.splits)
    have a: "apply_event json pkCols ev x = apply_op json pkCols ev (apply_op json pkCols (old_row_delete ev) x)" for x
      using True by (simp add: apply_event_def)
    show ?thesis
    proof (cases "old = new")
      case same: True
      then have r: "remember_event json pkCols ev (m, n) = Inr (m', n')" using assms True k by (simp add: prepare_event_def)
      have "apply_event json pkCols ev x = apply_op json pkCols ev x" for x
        unfolding a by (rule same_key_overwrites) (use k same in \<open>simp_all add: old_row_delete_def\<close>)
      then show ?thesis using remember_effect [OF r] by simp
    next
      case False
      then obtain m1 n1 where "remember_event json pkCols (old_row_delete ev) (m, n) = Inr (m1, n1)"
        "remember_event json pkCols ev (m1, n1) = Inr (m', n')"
        using assms True k by (auto simp: prepare_event_def split: sum.splits)
      then show ?thesis using remember_effect a by metis
    qed
  qed
  then show "prepared_rows m' rows = apply_event json pkCols ev (prepared_rows m rows)"
    and "prepared_ok json pkCols m \<Longrightarrow> prepared_ok json pkCols m'" by blast+
qed

lemma prepare_events_effect:
  "prepare_events json pkCols evs (m, n) = Inr (m', n') \<Longrightarrow> prepared_ok json pkCols m \<Longrightarrow>
     prepared_rows m' rows = fold (apply_event json pkCols) evs (prepared_rows m rows) \<and> prepared_ok json pkCols m'"
proof (induction evs arbitrary: m n)
  case (Cons ev evs)
  then obtain m1 n1 where "prepare_event json pkCols ev (m, n) = Inr (m1, n1)"
    "prepare_events json pkCols evs (m1, n1) = Inr (m', n')" by (auto split: sum.splits)
  then show ?case using Cons prepare_event_effect by fastforce
qed simp

text \<open>Operations on different keys may be taken in any order.\<close>

lemma apply_ops_value:
  assumes "distinct (map (\<lambda>ev. dorisEventKey json (ev_data ev) pkCols) evs)"
    "\<forall>ev \<in> set evs. \<exists>k. dorisEventKey json (ev_data ev) pkCols = Inr k"
  shows "fold (apply_op json pkCols) evs rows k =
    (case List.find (\<lambda>ev. dorisEventKey json (ev_data ev) pkCols = Inr k) evs of
       None \<Rightarrow> rows k | Some ev \<Rightarrow> if ev_type ev = EventTypeDelete then None else Some (ev_data ev))"
  using assms
proof (induction evs arbitrary: rows)
  case (Cons ev evs)
  then obtain k' where k': "dorisEventKey json (ev_data ev) pkCols = Inr k'" by auto
  have none: "List.find (\<lambda>e. dorisEventKey json (ev_data e) pkCols = Inr k') evs = None"
    using Cons.prems(1) k' by (auto simp: find_None_iff image_iff)
  show ?case using Cons k' none by (auto simp: apply_op_def split: option.split)
qed simp

lemma find_by_key: "\<lbrakk>distinct (map f xs); x \<in> set xs\<rbrakk> \<Longrightarrow> List.find (\<lambda>e. f e = f x) xs = Some x"
  by (induction xs) (auto simp: image_iff)

lemma prepared_order:
  assumes m: "prepared_ok json pkCols m" and out: "out = map fst (sort_key snd (map snd m))"
  shows "distinct (map (\<lambda>ev. dorisEventKey json (ev_data ev) pkCols) out)"
    and "fold (apply_op json pkCols) out rows = prepared_rows m rows"
proof -
  let ?key = "\<lambda>ev. dorisEventKey json (ev_data ev) pkCols"
  have keys: "\<forall>(k, ev, _) \<in> set m. ?key ev = Inr k" using m by (simp add: prepared_ok_def)
  have ms: "mset out = mset (map (fst \<circ> snd) m)" by (simp add: out multiset.map_comp)
  have "map ?key (map (fst \<circ> snd) m) = map Inr (map fst m)" using keys by (auto simp: case_prod_beta)
  moreover have "distinct (map Inr (map fst m))" using m by (subst distinct_map) (simp add: prepared_ok_def)
  ultimately have "distinct (map ?key (map (fst \<circ> snd) m))" by metis
  moreover have "mset (map ?key out) = mset (map ?key (map (fst \<circ> snd) m))" using ms by (metis mset_map)
  ultimately show d: "distinct (map ?key out)" using mset_eq_imp_distinct_iff by blast
  have so: "set out = (fst \<circ> snd) ` set m" using arg_cong [OF ms, of set_mset] by simp
  have ok: "\<forall>ev \<in> set out. \<exists>k. ?key ev = Inr k" using keys so by fastforce
  show "fold (apply_op json pkCols) out rows = prepared_rows m rows"
  proof (rule ext)
    fix k
    show "fold (apply_op json pkCols) out rows k = prepared_rows m rows k"
    proof (cases "map_get m k")
      case None
      then have "k \<notin> fst ` set m" by (simp add: map_get_def map_of_eq_None_iff)
      then have "\<forall>ev \<in> set out. ?key ev \<noteq> Inr k" using keys so by force
      then have "List.find (\<lambda>ev. ?key ev = Inr k) out = None" by (simp add: find_None_iff)
      then show ?thesis using apply_ops_value [OF d ok] None by (simp add: prepared_rows_def)
    next
      case (Some en)
      then obtain ev n where en: "map_get m k = Some (ev, n)" "(k, ev, n) \<in> set m"
        by (cases en) (auto simp: map_get_def dest: map_of_SomeD)
      have kev: "?key ev = Inr k" using keys en(2) by auto
      moreover have "ev \<in> set out" using en(2) so by force
      ultimately have "List.find (\<lambda>ev. ?key ev = Inr k) out = Some ev" using find_by_key [OF d, of ev] by simp
      then show ?thesis using apply_ops_value [OF d ok] en(1) by (simp add: prepared_rows_def)
    qed
  qed
qed

lemma prepared_by_raw_key:
  assumes "pkCols \<noteq> []" "prepareBatch json pkCols batch = Inr out"
  shows "distinct (map (\<lambda>ev. dorisEventKey json (ev_data ev) pkCols) out) \<and>
    fold (apply_op json pkCols) out rows = fold (apply_event json pkCols) batch rows"
proof (cases "batch = []")
  case True
  then show ?thesis using assms by (simp add: prepareBatch_def)
next
  case False
  then obtain m n where p: "prepare_events json pkCols batch ([], 0) = Inr (m, n)" and out: "out = map fst (sort_key snd (map snd m))"
    using assms by (auto simp: prepareBatch_def split: sum.splits)
  have start: "prepared_ok json pkCols []" "prepared_rows [] rows = rows"
    by (auto simp: prepared_ok_def prepared_rows_def map_get_def)
  show ?thesis using prepare_events_effect [OF p start(1), of rows] prepared_order [OF _ out] start(2) by metis
qed

section \<open>What a load does to the table\<close>

text \<open>
  A unique-key table in Doris: rows of loaded cells, found by the cells of their key columns, which are trimmed, cleaned
  and reduced to ASCII like all cells. A line of a load replaces the row of its key, or removes it by the marker behind
  the cells.
\<close>

type_synonym doris_table = "string list \<Rightarrow> string list option"

definition key_positions :: "load_column list \<Rightarrow> string list \<Rightarrow> nat list" where
  "key_positions cols pkCols = filter (\<lambda>i. cb_source (fst (cols ! i)) \<in> set pkCols) [0..<length cols]"

definition doris_line :: "nat list \<Rightarrow> string list \<Rightarrow> doris_table \<Rightarrow> doris_table" where
  "doris_line ks line rows = rows(map ((!) line) ks := if last line = ''1'' then None else Some (butlast line))"

definition doris_reads :: "nat list \<Rightarrow> string \<Rightarrow> doris_table \<Rightarrow> doris_table" where
  "doris_reads ks body =
     fold (doris_line ks) (map (Rebuild_Config.split_on fieldSep) (butlast (Rebuild_Config.split_on newline body)))"

text \<open>What an event means for the table: a delete removes its row, an update first removes its old row, and the new row is put.\<close>

definition row_cells :: "cell_format \<Rightarrow> load_column list \<Rightarrow> row_data \<Rightarrow> string list" where
  "row_cells F cols row = map (load_field F row) cols"

definition loaded_key :: "cell_format \<Rightarrow> load_column list \<Rightarrow> string list \<Rightarrow> row_data \<Rightarrow> string list" where
  "loaded_key F cols pkCols row = map ((!) (row_cells F cols row)) (key_positions cols pkCols)"

definition event_meaning :: "cell_format \<Rightarrow> load_column list \<Rightarrow> string list \<Rightarrow> event \<Rightarrow> doris_table \<Rightarrow> doris_table" where
  "event_meaning F cols pkCols ev rows =
     (let key = loaded_key F cols pkCols in
      if ev_type ev = EventTypeDelete then rows(key (ev_data ev) := None)
      else (if ev_type ev = EventTypeUpdate \<and> ev_old ev \<noteq> [] then rows(key (ev_old ev) := None) else rows)
        (key (ev_data ev) := Some (row_cells F cols (ev_data ev))))"

text \<open>The rows a batch is about, and the operations of its events in order.\<close>

definition event_ops :: "event \<Rightarrow> event list" where
  "event_ops ev = (if ev_type ev = EventTypeUpdate \<and> ev_old ev \<noteq> [] then [old_row_delete ev, ev] else [ev])"

definition batch_rows :: "event list \<Rightarrow> row_data set" where
  "batch_rows batch = ev_data ` set (concat (map event_ops batch))"

definition loaded_op :: "cell_format \<Rightarrow> load_column list \<Rightarrow> string list \<Rightarrow> event \<Rightarrow> doris_table \<Rightarrow> doris_table" where
  "loaded_op F cols pkCols ev rows =
     rows(loaded_key F cols pkCols (ev_data ev) := if ev_type ev = EventTypeDelete then None else Some (row_cells F cols (ev_data ev)))"

lemma event_meaning_ops: "event_meaning F cols pkCols ev = fold (loaded_op F cols pkCols) (event_ops ev)"
  by (rule ext) (auto simp: event_meaning_def event_ops_def loaded_op_def old_row_delete_def Let_def)

lemma apply_event_ops: "apply_event json pkCols ev = fold (apply_op json pkCols) (event_ops ev)"
  by (rule ext) (auto simp: apply_event_def event_ops_def)

lemma fold_ops: "(\<And>ev. f ev = fold g (event_ops ev)) \<Longrightarrow> fold f batch = fold g (concat (map event_ops batch))"
  by (induction batch) (simp_all add: fold_append)

lemma doris_line_op: "doris_line (key_positions cols pkCols) (load_cells F cols ev) = loaded_op F cols pkCols ev"
proof -
  have "map ((!) (load_cells F cols ev)) (key_positions cols pkCols) = loaded_key F cols pkCols (ev_data ev)"
    by (auto simp: loaded_key_def row_cells_def load_cells_def key_positions_def nth_append)
  moreover have "last (load_cells F cols ev) = ''1'' \<longleftrightarrow> ev_type ev = EventTypeDelete" "butlast (load_cells F cols ev) = row_cells F cols (ev_data ev)"
    by (auto simp: load_cells_def delete_marker_def row_cells_def)
  ultimately show ?thesis by (intro ext) (simp add: doris_line_def loaded_op_def)
qed

lemma doris_reads_ops:
  "doris_reads (key_positions cols pkCols) (writeBatchPayload F cols out) rows = fold (loaded_op F cols pkCols) out rows"
  unfolding doris_reads_def written_lines by (simp add: fold_map comp_def doris_line_op)

text \<open>A run of operations leaves at a key what the last one for it says.\<close>

definition last_for :: "('k \<Rightarrow> bool) \<Rightarrow> (event \<Rightarrow> 'k) \<Rightarrow> event list \<Rightarrow> event option" where
  "last_for P key evs = List.find (\<lambda>ev. P (key ev)) (rev evs)"

lemma last_for_snoc: "last_for P key (evs @ [ev]) = (if P (key ev) then Some ev else last_for P key evs)"
  by (simp add: last_for_def)

lemma loaded_ops_value:
  "fold (loaded_op F cols pkCols) evs rows x =
     (case last_for (\<lambda>k. k = x) (\<lambda>ev. loaded_key F cols pkCols (ev_data ev)) evs of
        None \<Rightarrow> rows x
      | Some ev \<Rightarrow> if ev_type ev = EventTypeDelete then None else Some (row_cells F cols (ev_data ev)))"
  by (induction evs rule: rev_induct) (auto simp: last_for_snoc loaded_op_def, simp add: last_for_def)

lemma raw_ops_value:
  "\<forall>ev \<in> set evs. \<exists>k. dorisEventKey json (ev_data ev) pkCols = Inr k \<Longrightarrow>
   fold (apply_op json pkCols) evs rows x =
     (case last_for (\<lambda>k. k = Inr x) (\<lambda>ev. dorisEventKey json (ev_data ev) pkCols) evs of
        None \<Rightarrow> rows x
      | Some ev \<Rightarrow> if ev_type ev = EventTypeDelete then None else Some (ev_data ev))"
  by (induction evs rule: rev_induct) (auto simp: last_for_snoc apply_op_def, simp add: last_for_def)

text \<open>Operations on different keys may be taken in any order.\<close>

lemma last_for_unique:
  assumes "distinct (map key evs)" "ev \<in> set evs" "key ev = x"
  shows "last_for (\<lambda>k. k = x) key evs = Some ev"
proof -
  have "distinct (map key (rev evs))" using assms(1) by (simp add: rev_map [symmetric])
  then show ?thesis using find_by_key [of key "rev evs" ev] assms(2,3) unfolding last_for_def by auto
qed

lemma loaded_ops_perm:
  assumes d: "distinct (map (\<lambda>ev. loaded_key F cols pkCols (ev_data ev)) out)" and m: "mset out' = mset out"
  shows "fold (loaded_op F cols pkCols) out' rows = fold (loaded_op F cols pkCols) out rows"
proof (rule ext)
  fix x
  let ?key = "\<lambda>ev. loaded_key F cols pkCols (ev_data ev)"
  have s: "set out' = set out" using m by (metis set_mset_mset)
  have d': "distinct (map ?key out')" using d m by (metis mset_eq_imp_distinct_iff mset_map)
  show "fold (loaded_op F cols pkCols) out' rows x = fold (loaded_op F cols pkCols) out rows x"
  proof (cases "\<exists>ev \<in> set out. ?key ev = x")
    case True
    then obtain ev where ev: "ev \<in> set out" "?key ev = x" by blast
    show ?thesis unfolding loaded_ops_value
      using last_for_unique [OF d ev] last_for_unique [OF d' ev(1) [folded s] ev(2)] by simp
  next
    case False
    then have "last_for (\<lambda>k. k = x) ?key out = None" "last_for (\<lambda>k. k = x) ?key out' = None"
      using s by (auto simp: last_for_def find_None_iff)
    then show ?thesis unfolding loaded_ops_value by simp
  qed
qed

text \<open>Every operation of a prepared batch is one of its events'.\<close>

lemma remember_rows:
  "remember_event json pkCols ev (m, n) = Inr (m', n') \<Longrightarrow> (\<exists>k. dorisEventKey json (ev_data ev) pkCols = Inr k) \<and>
     (fst \<circ> snd) ` set m' \<subseteq> insert ev ((fst \<circ> snd) ` set m)"
  using map_put_set by (fastforce simp: remember_event_def split: sum.splits)

lemma prepare_rows:
  "prepare_event json pkCols ev (m, n) = Inr (m', n') \<Longrightarrow> (\<forall>e \<in> set (event_ops ev). \<exists>k. dorisEventKey json (ev_data e) pkCols = Inr k) \<and>
     (fst \<circ> snd) ` set m' \<subseteq> set (event_ops ev) \<union> (fst \<circ> snd) ` set m"
proof -
  assume p: "prepare_event json pkCols ev (m, n) = Inr (m', n')"
  show ?thesis
  proof (cases "ev_type ev = EventTypeUpdate \<and> ev_old ev \<noteq> []")
    case False
    then have one: "event_ops ev = [ev]" by (auto simp: event_ops_def)
    have "remember_event json pkCols ev (m, n) = Inr (m', n')" using p False by (auto simp: prepare_event_def split: if_splits)
    from remember_rows [OF this] show ?thesis unfolding one by simp
  next
    case True
    then obtain old new where k: "dorisEventKey json (ev_old ev) pkCols = Inr old" "dorisEventKey json (ev_data ev) pkCols = Inr new"
      using p by (auto simp: prepare_event_def split: sum.splits)
    have keys: "\<forall>e \<in> set (event_ops ev). \<exists>k. dorisEventKey json (ev_data e) pkCols = Inr k"
      using True k by (auto simp: event_ops_def old_row_delete_def)
    have ops: "set (event_ops ev) = {old_row_delete ev, ev}" using True by (simp add: event_ops_def)
    have "(fst \<circ> snd) ` set m' \<subseteq> {old_row_delete ev, ev} \<union> (fst \<circ> snd) ` set m"
    proof (cases "old = new")
      case same: True
      then have "remember_event json pkCols ev (m, n) = Inr (m', n')" using p True k by (simp add: prepare_event_def)
      from remember_rows [OF this] show ?thesis by blast
    next
      case False
      then obtain m1 n1 where "remember_event json pkCols (old_row_delete ev) (m, n) = Inr (m1, n1)"
        "remember_event json pkCols ev (m1, n1) = Inr (m', n')"
        using p True k by (auto simp: prepare_event_def split: sum.splits)
      from remember_rows [OF this(1)] remember_rows [OF this(2)] show ?thesis by blast
    qed
    then show ?thesis using keys ops by simp
  qed
qed

lemma prepare_all_rows:
  "prepare_events json pkCols evs (m, n) = Inr (m', n') \<Longrightarrow>
     (\<forall>e \<in> set (concat (map event_ops evs)). \<exists>k. dorisEventKey json (ev_data e) pkCols = Inr k) \<and>
     (fst \<circ> snd) ` set m' \<subseteq> set (concat (map event_ops evs)) \<union> (fst \<circ> snd) ` set m"
proof (induction evs arbitrary: m n)
  case (Cons ev evs)
  then obtain m1 n1 where p: "prepare_event json pkCols ev (m, n) = Inr (m1, n1)"
    "prepare_events json pkCols evs (m1, n1) = Inr (m', n')" by (auto split: sum.splits)
  have split: "set (concat (map event_ops (ev # evs))) = set (event_ops ev) \<union> set (concat (map event_ops evs))" by simp
  show ?case unfolding split using prepare_rows [OF p(1)] Cons.IH [OF p(2)] by blast
qed simp

text \<open>The loaded keys of a batch tell its rows apart exactly as the raw keys do.\<close>

definition keys_faithful ::
  "(cell list \<Rightarrow> string + string) \<Rightarrow> cell_format \<Rightarrow> load_column list \<Rightarrow> string list \<Rightarrow> event list \<Rightarrow> bool" where
  "keys_faithful json F cols pkCols batch \<longleftrightarrow>
     (\<forall>a \<in> batch_rows batch. \<forall>b \<in> batch_rows batch.
        loaded_key F cols pkCols a = loaded_key F cols pkCols b \<longleftrightarrow> dorisEventKey json a pkCols = dorisEventKey json b pkCols)"

lemma same_last:
  assumes faithful: "keys_faithful json F cols pkCols batch" and sub: "ev_data ` set evs \<subseteq> batch_rows batch"
    and r: "r \<in> batch_rows batch" "dorisEventKey json r pkCols = Inr k"
  shows "last_for (\<lambda>x. x = loaded_key F cols pkCols r) (\<lambda>ev. loaded_key F cols pkCols (ev_data ev)) evs =
    last_for (\<lambda>x. x = Inr k) (\<lambda>ev. dorisEventKey json (ev_data ev) pkCols) evs"
  using sub
proof (induction evs rule: rev_induct)
  case (snoc ev evs)
  then have "loaded_key F cols pkCols (ev_data ev) = loaded_key F cols pkCols r \<longleftrightarrow> dorisEventKey json (ev_data ev) pkCols = Inr k"
    using faithful r unfolding keys_faithful_def by auto
  then show ?case using snoc by (simp add: last_for_snoc)
qed (simp add: last_for_def)

text \<open>
  C6: A prepared batch does to the table in Doris what its events mean one by one. The lines of its load, read cell by
  cell and in whatever order they stand, have at most one operation for each loaded key, and leave every row as the
  events would in their order, an update removing its old row first. The loaded key texts of the batch (trimmed, cleaned,
  ASCII) are assumed to tell its rows apart exactly as the raw key values do; where they do not, two operations of a load
  can be for one key.
\<close>
theorem prepared_batch_equivalent:
  assumes "pkCols \<noteq> []" "prepareBatch json pkCols batch = Inr out" "keys_faithful json F cols pkCols batch" "mset out' = mset out"
  shows "distinct (map (\<lambda>ev. loaded_key F cols pkCols (ev_data ev)) out') \<and>
    doris_reads (key_positions cols pkCols) (writeBatchPayload F cols out') rows = fold (event_meaning F cols pkCols) batch rows"
proof (cases "batch = []")
  case True
  then show ?thesis using assms(2,4) by (simp add: prepareBatch_def doris_reads_ops)
next
  case False
  let ?J = "\<lambda>ev. dorisEventKey json (ev_data ev) pkCols" and ?K = "\<lambda>ev. loaded_key F cols pkCols (ev_data ev)"
  let ?ops = "concat (map event_ops batch)"
  obtain m n where p: "prepare_events json pkCols batch ([], 0) = Inr (m, n)" and out: "out = map fst (sort_key snd (map snd m))"
    using assms False by (auto simp: prepareBatch_def split: sum.splits)
  note rows_p = prepare_all_rows [OF p]
  have "mset out = mset (map (fst \<circ> snd) m)" by (simp add: out multiset.map_comp)
  then have "set out = (fst \<circ> snd) ` set m" by (metis set_map set_mset_mset)
  then have sub: "set out \<subseteq> set ?ops" using rows_p by simp
  then have data: "ev_data ` set out \<subseteq> batch_rows batch" "ev_data ` set ?ops \<subseteq> batch_rows batch" by (auto simp: batch_rows_def)
  have keys: "\<forall>e \<in> set ?ops. \<exists>k. ?J e = Inr k" "\<forall>e \<in> set out. \<exists>k. ?J e = Inr k" using rows_p sub by blast+
  note raw = prepared_by_raw_key [OF assms(1,2)]
  have d: "distinct (map ?K out)"
  proof -
    have "?K a = ?K b \<longleftrightarrow> ?J a = ?J b" if "a \<in> set out" "b \<in> set out" for a b
      using assms(3) data(1) that unfolding keys_faithful_def by auto
    moreover have "distinct (map ?J out)" using raw by blast
    ultimately show ?thesis unfolding distinct_map inj_on_def by blast
  qed
  have "fold (loaded_op F cols pkCols) out rows x = fold (loaded_op F cols pkCols) ?ops rows x" for x
  proof (cases "\<exists>e \<in> set ?ops. ?K e = x")
    case False
    then have "\<forall>e \<in> set out. ?K e \<noteq> x" using sub by blast
    with False have "last_for (\<lambda>k. k = x) ?K ?ops = None" "last_for (\<lambda>k. k = x) ?K out = None"
      by (auto simp: last_for_def find_None_iff)
    then show ?thesis unfolding loaded_ops_value by simp
  next
    case True
    then obtain e k where e: "e \<in> set ?ops" "?K e = x" "?J e = Inr k" using keys(1) by blast
    then have r: "ev_data e \<in> batch_rows batch" by (auto simp: batch_rows_def)
    note last = same_last [OF assms(3) data(1) r e(3), unfolded e(2)] same_last [OF assms(3) data(2) r e(3), unfolded e(2)]
    let ?lo = "last_for (\<lambda>k'. k' = Inr k) ?J out" and ?lb = "last_for (\<lambda>k'. k' = Inr k) ?J ?ops"
    have same: "(case ?lo of None \<Rightarrow> y | Some ev \<Rightarrow> if ev_type ev = EventTypeDelete then None else Some (ev_data ev)) =
        (case ?lb of None \<Rightarrow> y | Some ev \<Rightarrow> if ev_type ev = EventTypeDelete then None else Some (ev_data ev))" for y
      using raw [of "\<lambda>_. y"] raw_ops_value [OF keys(1), of "\<lambda>_. y" k] raw_ops_value [OF keys(2), of "\<lambda>_. y" k]
      unfolding fold_ops [of "apply_event json pkCols", OF apply_event_ops] by simp
    have "?lb \<noteq> None" using e(1,3) unfolding last_for_def by (auto simp: find_None_iff)
    moreover have "?lo \<noteq> None"
    proof
      assume "?lo = None"
      with same [of None] same [of "Some []"] \<open>?lb \<noteq> None\<close> show False by auto
    qed
    ultimately obtain a b where ab: "?lo = Some a" "?lb = Some b" by blast
    with same [of None] have "ev_type a = EventTypeDelete \<and> ev_type b = EventTypeDelete \<or>
        ev_type a \<noteq> EventTypeDelete \<and> ev_type b \<noteq> EventTypeDelete \<and> ev_data a = ev_data b"
      by (auto split: if_splits)
    then show ?thesis unfolding loaded_ops_value last ab by auto
  qed
  then have "fold (loaded_op F cols pkCols) out rows = fold (event_meaning F cols pkCols) batch rows"
    unfolding fold_ops [of "event_meaning F cols pkCols", OF event_meaning_ops] by (rule ext)
  moreover have "distinct (map ?K out')" using d assms(4) by (metis mset_eq_imp_distinct_iff mset_map)
  ultimately show ?thesis unfolding doris_reads_ops loaded_ops_perm [OF d assms(4)] by blast
qed

definition sample_json :: "cell list \<Rightarrow> string + string" where
  "sample_json vs = Inr (str_join '','' (map (go_text \<lparr>cf_float = (\<lambda>_. []), cf_time = (\<lambda>_. [])\<rparr>) vs))"

definition sample_order :: "int \<Rightarrow> string \<Rightarrow> row_data" where
  "sample_order i note = [(''id'', CInt i), (''note'', CStr note)]"

definition sample_batch :: "event list" where
  "sample_batch =
     [blank_event\<lparr>ev_type := EventTypeInsert, ev_data := sample_order 1 ''a''\<rparr>,
      blank_event\<lparr>ev_type := EventTypeUpdate, ev_data := sample_order 2 ''b'', ev_old := sample_order 1 ''a''\<rparr>,
      blank_event\<lparr>ev_type := EventTypeUpdate, ev_data := sample_order 2 ''c'', ev_old := sample_order 2 ''b''\<rparr>]"

definition sample_prepared :: "event list" where
  "sample_prepared =
     [blank_event\<lparr>ev_type := EventTypeDelete, ev_data := sample_order 1 ''a''\<rparr>,
      blank_event\<lparr>ev_type := EventTypeUpdate, ev_data := sample_order 2 ''c'', ev_old := sample_order 2 ''b''\<rparr>]"

definition sample_columns :: "load_column list" where
  "sample_columns =
     [(\<lparr>cb_source = ''id'', cb_target = ''id'', cb_type = ''BIGINT'', cb_nullable = False\<rparr>, False, 0),
      (\<lparr>cb_source = ''note'', cb_target = ''note'', cb_type = ''VARCHAR(3)'', cb_nullable = True\<rparr>, True, 3)]"

text \<open>The two operations in the other order, on a table that has the row of key 1.\<close>

theorem prepared_batch_equivalent_witness:
  "let F = \<lparr>cf_float = (\<lambda>_. []), cf_time = (\<lambda>_. [])\<rparr>; old = (\<lambda>k. if k = [''1''] then Some [''1'', ''x''] else None) in
   prepareBatch sample_json [''id''] sample_batch = Inr sample_prepared \<and>
   doris_reads (key_positions sample_columns [''id'']) (writeBatchPayload F sample_columns (rev sample_prepared)) old =
     fold (event_meaning F sample_columns [''id'']) sample_batch old"
proof -
  let ?F = "\<lparr>cf_float = (\<lambda>_. []), cf_time = (\<lambda>_. [])\<rparr>"
  have p: "prepareBatch sample_json [''id''] sample_batch = Inr sample_prepared" by code_simp
  have rows: "batch_rows sample_batch = {sample_order 1 ''a'', sample_order 2 ''b'', sample_order 2 ''c''}"
    by (auto simp: batch_rows_def sample_batch_def event_ops_def old_row_delete_def)
  have k: "dorisEventKey sample_json (sample_order 1 ''a'') [''id''] = Inr ''1''"
    "dorisEventKey sample_json (sample_order 2 ''b'') [''id''] = Inr ''2''"
    "dorisEventKey sample_json (sample_order 2 ''c'') [''id''] = Inr ''2''"
    "loaded_key ?F sample_columns [''id''] (sample_order 1 ''a'') = [''1'']"
    "loaded_key ?F sample_columns [''id''] (sample_order 2 ''b'') = [''2'']"
    "loaded_key ?F sample_columns [''id''] (sample_order 2 ''c'') = [''2'']" by code_simp+
  have f: "keys_faithful sample_json ?F sample_columns [''id''] sample_batch"
    unfolding keys_faithful_def rows by (simp add: k)
  have "mset (rev sample_prepared) = mset sample_prepared" by simp
  from prepared_batch_equivalent [OF _ p f this] p show ?thesis by (simp add: Let_def)
qed

theorem loaded_texts_fit_witness:
  "int (length (load_cells \<lparr>cf_float = (\<lambda>_. []), cf_time = (\<lambda>_. [])\<rparr>
     [(\<lparr>cb_source = ''note'', cb_target = ''note'', cb_type = ''VARCHAR(3)'', cb_nullable = True\<rparr>, True, 3)]
     (blank_event\<lparr>ev_data := sample_order 1 ''Ren CHR''\<rparr>) ! 0)) \<le> 3"
  using loaded_texts_fit [where n = 3 and i = 0 and b = "\<lparr>cb_source = ''note'', cb_target = ''note'', cb_type = ''VARCHAR(3)'', cb_nullable = True\<rparr>"
      and cols = "[(\<lparr>cb_source = ''note'', cb_target = ''note'', cb_type = ''VARCHAR(3)'', cb_nullable = True\<rparr>, True, 3)]"
      and ev = "blank_event\<lparr>ev_data := sample_order 1 ''Ren CHR''\<rparr>" and F = "\<lparr>cf_float = (\<lambda>_. []), cf_time = (\<lambda>_. [])\<rparr>"]
  by simp

end
