(* ===== verification/Doris_Sink.thy ===== *)
theory Doris_Sink
  imports Doris_Batch "HOL-Library.Sublist"
begin

text \<open>
  The Doris sink (\<open>pkg/connectors/doris/sink.go\<close>): a stream load with its redirects, answers and retries,
  the columns of a target, and the loop that collects events, loads them and saves the checkpoint.

  The outside answers by number: the \<open>n\<close>-th call has its own results. The database's answers to HTTP requests are
  given decoded, with the text the errors quote. Go maps are visited in list order. Logging, metrics, the deadline of
  a save and the credentials of a request are left out.

  The lemmas show when a load counts as done, and that the checkpoint is saved only behind loaded events.
\<close>

section \<open>Targets\<close>

definition resolveTarget :: "doris_config \<Rightarrow> string \<Rightarrow> string \<Rightarrow> string \<times> string" where
  "resolveTarget cfg srcDB0 srcTable0 =
     (let srcDB = trim_space srcDB0; srcTable = trim_space srcTable0 in
      case map_get (do_overrides cfg) (to_lower (srcDB @ ''.'' @ srcTable)) of
        Some t \<Rightarrow> (if dt_database t = [] then srcDB else dt_database t, if dt_table t = [] then srcTable else dt_table t)
      | None \<Rightarrow>
          (case map_get (do_overrides cfg) (to_lower (srcDB @ ''.*'')) of
             Some t \<Rightarrow>
               (if dt_database t = [] then srcDB else dt_database t, if dt_table t = [] \<or> dt_table t = ''*'' then srcTable else dt_table t)
           | None \<Rightarrow> if do_default_database cfg \<noteq> [] then (do_default_database cfg, srcTable) else (srcDB, srcTable)))"

definition target_key :: "string \<Rightarrow> string \<Rightarrow> string" where
  "target_key db tbl = to_lower (db @ ''.'' @ tbl)"

text \<open>\<open>splitDBTable\<close> of this package keeps the case.\<close>

definition split_db_table :: "string \<Rightarrow> (string \<times> string) option" where
  "split_db_table s0 =
     (let s = trim_space s0 in
      if s = [] then None
      else case Rebuild_Config.split_on CHR ''.'' s of
        [a, b] \<Rightarrow> (let db = trim_space a; tbl = trim_space b in if db = [] \<or> tbl = [] then None else Some (db, tbl))
      | _ \<Rightarrow> None)"

definition dorisTableKey :: "string \<Rightarrow> string \<Rightarrow> string" where
  "dorisTableKey schema0 table0 =
     (let schema = trim_space schema0; table = trim_space table0 in
      if schema = [] then to_lower table else if table = [] then to_lower schema else to_lower (schema @ ''.'' @ table))"

section \<open>The answer to a load\<close>

text \<open>A URL by its host name and port, with the text it has for a host.\<close>

record url_parts =
  up_name :: string
  up_port :: string
  up_host :: string
  up_text :: "string \<Rightarrow> string"

text \<open>\<open>parse\<close> gives the host name and port of a URL that has a host.\<close>

definition port_number :: "string \<Rightarrow> int option" where
  "port_number port =
     (if trim_space port = [] then None
      else case atoi (trim_space port) of Some n \<Rightarrow> if 0 < n then Some n else None | None \<Rightarrow> None)"

definition parseRedirectHostOverride :: "(string \<Rightarrow> (string \<times> string) option) \<Rightarrow> string \<Rightarrow> string \<times> int" where
  "parseRedirectHostOverride parse raw0 =
     (let raw = trim_space raw0 in
      if raw = [] then ([], 0)
      else case parse (if str_contains ''://'' raw then raw else ''//'' @ raw) of
        Some (name, port) \<Rightarrow>
          (let host = trim_space name in
           if host = [] then ([], 0) else (host, case port_number port of Some n \<Rightarrow> n | None \<Rightarrow> 0))
      | None \<Rightarrow> (raw, 0))"

text \<open>\<open>net.JoinHostPort\<close> puts brackets around a host with a colon.\<close>

definition joinHostPort :: "string \<Rightarrow> int \<Rightarrow> string" where
  "joinHostPort host port =
     (if 0 < port then (if CHR '':'' \<in> set host then ''['' @ host @ '']'' else host) @ '':'' @ show_int port else host)"

definition rewriteStreamLoadRedirectURL :: "(string \<Rightarrow> (string \<times> string) option) \<Rightarrow> doris_config \<Rightarrow> url_parts \<Rightarrow> string" where
  "rewriteStreamLoadRedirectURL parse cfg u =
     (case parseRedirectHostOverride parse (do_be_http_host cfg) of (overrideHost, overrideHostPort) \<Rightarrow>
        if overrideHost = [] \<and> do_be_http_port cfg \<le> 0 then up_text u (up_host u)
        else let feHost = fst (parseRedirectHostOverride parse (do_http_host cfg));
                 host = (if overrideHost \<noteq> [] then overrideHost else if feHost \<noteq> [] then feHost else up_name u);
                 port = (case port_number (up_port u) of Some n \<Rightarrow> n | None \<Rightarrow> 0);
                 port = (if 0 < overrideHostPort then overrideHostPort else port);
                 port = (if 0 < do_be_http_port cfg then do_be_http_port cfg else port) in
             up_text u (joinHostPort host port))"

record load_resp =
  lr_status :: string
  lr_message :: string
  lr_total :: int
  lr_loaded :: int
  lr_filtered :: int
  lr_unselected :: int

text \<open>A reply has its status, the target of a redirect, the decoded body and the text for errors.\<close>

datatype http_reply = HttpFails go_error | HttpReply int "url_parts option" "load_resp option" string

definition is_redirect :: "int \<Rightarrow> bool" where
  "is_redirect status \<longleftrightarrow> status = 307 \<or> status = 308"

text \<open>The requests of an attempt: the URLs they go to, and the last reply. \<open>n\<close> requests may still follow.\<close>

fun send_requests :: "(string \<Rightarrow> (string \<times> string) option) \<Rightarrow> doris_config \<Rightarrow> (nat \<Rightarrow> http_reply) \<Rightarrow> nat \<Rightarrow> nat \<Rightarrow> string \<Rightarrow>
    string list \<times> (go_error + int \<times> load_resp option \<times> string)" where
  "send_requests parse cfg reply k 0 url = ([], Inl (new_error ''doris stream load did not produce a response''))"
| "send_requests parse cfg reply k (Suc n) url =
     (case reply k of
        HttpFails e \<Rightarrow> ([url], Inl e)
      | HttpReply status target resp body \<Rightarrow>
          if \<not> is_redirect status then ([url], Inr (status, resp, body))
          else (case target of
                  None \<Rightarrow> ([url], Inl (new_error ''doris stream load redirect without valid Location header''))
                | Some u \<Rightarrow>
                    if n = 0 then ([url], Inr (status, resp, body))
                    else (case send_requests parse cfg reply (Suc k) n (rewriteStreamLoadRedirectURL parse cfg u) of
                            (urls, r) \<Rightarrow> (url # urls, r))))"

definition validateStreamLoadCounts :: "load_resp \<Rightarrow> int \<Rightarrow> string option" where
  "validateStreamLoadCounts r expected =
     (if lr_filtered r \<noteq> 0 then Some (''filtered rows='' @ show_int (lr_filtered r))
      else if lr_unselected r \<noteq> 0 then Some (''unselected rows='' @ show_int (lr_unselected r))
      else if lr_total r \<noteq> expected then Some (''total rows='' @ show_int (lr_total r) @ '' expected='' @ show_int expected)
      else if lr_loaded r \<noteq> expected then Some (''loaded rows='' @ show_int (lr_loaded r) @ '' expected='' @ show_int expected)
      else None)"

definition isLabelAlreadyExists :: "string \<Rightarrow> string \<Rightarrow> bool" where
  "isLabelAlreadyExists status msg \<longleftrightarrow>
     str_contains ''label already exists'' (to_lower (trim_space status)) \<or>
     str_contains ''label_already_exists'' (to_lower msg) \<or> str_contains ''label already exists'' (to_lower msg)"

text \<open>The answer of \<open>SHOW LOAD\<close>: its columns and its first row.\<close>

datatype load_poll = PollFails string | PollRows "string list" "string list option"

definition column_index :: "string list \<Rightarrow> string list \<Rightarrow> nat option" where
  "column_index cols names =
     (case List.map_filter (\<lambda>want. map_option fst (List.find (\<lambda>(i, c). equal_fold c want) (enumerate 0 cols))) names of
        [] \<Rightarrow> None | i # _ \<Rightarrow> Some i)"

definition reason_names :: "string list" where
  "reason_names = [''Reason'', ''ErrorMsg'', ''Message'', ''Msg'', ''FailMsg'', ''ErrorMessage'']"

text \<open>The state and the reason of a label; no row means that it is not known yet.\<close>

definition getLoadStatusByLabel :: "load_poll \<Rightarrow> string + (string \<times> string) option" where
  "getLoadStatusByLabel poll =
     (case poll of
        PollFails e \<Rightarrow> Inl e
      | PollRows cols row \<Rightarrow>
          (case column_index cols [''State''] of
             None \<Rightarrow> Inl ''SHOW LOAD missing State column''
           | Some i \<Rightarrow>
               (case row of
                  None \<Rightarrow> Inr None
                | Some cells \<Rightarrow> Inr (Some (trim_space (cells ! i),
                    case column_index cols reason_names of None \<Rightarrow> [] | Some j \<Rightarrow> trim_space (cells ! j))))))"

text \<open>
  The polls until the wait ends, with the error of a cancelled context if it ends so. The pauses grow from one to five
  seconds; here only their answers count.
\<close>

fun waitLoadLabelDone :: "string \<Rightarrow> go_error option \<Rightarrow> load_poll list \<Rightarrow> go_error option" where
  "waitLoadLabelDone label cancelled [] =
     (case cancelled of Some e \<Rightarrow> Some e | None \<Rightarrow> Some (new_error (''timeout waiting doris load label='' @ label)))"
| "waitLoadLabelDone label cancelled (p # ps) =
     (case getLoadStatusByLabel p of
        Inr (Some (state, reason)) \<Rightarrow>
          if to_upper (trim_space state) = ''FINISHED'' then None
          else if to_upper (trim_space state) = ''CANCELLED''
          then Some (new_error (''doris load cancelled label='' @ label @
            (if trim_space reason \<noteq> [] then '' reason='' @ reason else '' (no reason column found)'')))
          else waitLoadLabelDone label cancelled ps
      | _ \<Rightarrow> waitLoadLabelDone label cancelled ps)"

text \<open>The outside of one attempt.\<close>

record load_world =
  lw_reply :: "nat \<Rightarrow> http_reply"
  lw_polls :: "load_poll list"
  lw_cancelled :: "go_error option"

definition response_result :: "load_world \<Rightarrow> string \<Rightarrow> nat \<Rightarrow> load_resp \<Rightarrow> go_error option" where
  "response_result w label rows r =
     (if to_lower (trim_space (lr_status r)) \<noteq> ''success''
      then (if isLabelAlreadyExists (lr_status r) (lr_message r) then waitLoadLabelDone label (lw_cancelled w) (lw_polls w)
            else Some (permanent (new_error (''doris stream load not success: status='' @ lr_status r))))
      else case validateStreamLoadCounts r (int rows) of
        Some e \<Rightarrow> Some (permanent (new_error (''doris stream load incomplete: '' @ e)))
      | None \<Rightarrow> None)"

definition load_attempt :: "(string \<Rightarrow> (string \<times> string) option) \<Rightarrow> doris_config \<Rightarrow> load_world \<Rightarrow> string \<Rightarrow> string \<Rightarrow> nat \<Rightarrow> go_error option" where
  "load_attempt parse cfg w url label rows =
     (case snd (send_requests parse cfg (lw_reply w) 0 3 url) of
        Inl e \<Rightarrow> Some e
      | Inr (status, resp, body) \<Rightarrow>
          if is_redirect status then Some (new_error ''doris stream load too many redirects'')
          else if status < 200 \<or> 300 \<le> status
          then (let e = new_error (''doris stream load http='' @ show_int status @ '' body='' @ body) in
                Some (if 400 \<le> status \<and> status < 500 then permanent e else e))
          else case resp of
            None \<Rightarrow> Some (new_error (''doris stream load bad json body='' @ body))
          | Some r \<Rightarrow> response_result w label rows r)"

section \<open>State\<close>

text \<open>A finished load: the key its events were collected under, if they were, the URL it was put to, and what was sent.\<close>

record doris_load =
  dl_key :: "string option"
  dl_url :: string
  dl_events :: "event list"
  dl_columns :: string
  dl_body :: string

record doris_state =
  dr_bindings :: "(string \<times> column_binding list) list"
  dr_primary :: "(string \<times> string list) list"
  dr_strings :: "(string \<times> (string \<times> bool) list) list"
  dr_lengths :: "(string \<times> (string \<times> int) list) list"
  dr_batches :: "(string \<times> event list) list"
  dr_offset :: "(source_offset \<times> string) option"
  dr_saved :: "source_offset option"
  dr_confirmed :: nat
  dr_acks :: "go_error option list"
  dr_loads :: "doris_load list"
  dr_statements :: "string list"
  dr_calls :: nat

record doris_env =
  dv_cfg :: doris_config
  dv_format :: cell_format
  dv_json :: "cell list \<Rightarrow> string + string"
  dv_url :: "string \<Rightarrow> (string \<times> string) option"
  dv_parse :: "string \<Rightarrow> string + ddl_stmt"
  dv_store :: bool
  dv_attempts :: int
  dv_base_backoff :: int
  dv_max_backoff :: int
  dv_load :: "nat \<Rightarrow> nat \<Rightarrow> load_world"
  dv_backoff :: "nat \<Rightarrow> nat \<Rightarrow> go_error option"
  dv_clock :: "nat \<Rightarrow> nat"
  dv_describe :: "nat \<Rightarrow> string + string list \<times> string list list"
  dv_exec :: "nat \<Rightarrow> nat \<Rightarrow> nat \<Rightarrow> go_error option"
  dv_polled :: "nat \<Rightarrow> nat \<Rightarrow> target_column list option list"
  dv_save :: "nat \<Rightarrow> go_error option"
  dv_effect :: "nat \<Rightarrow> bool"
  dv_confirm :: "nat \<Rightarrow> go_error option"

type_synonym doris_op = "doris_state \<Rightarrow> (go_error option \<times> doris_state) option"

definition dok :: doris_op where
  "dok st = Some (None, st)"

definition dfail :: "go_error \<Rightarrow> doris_op" where
  "dfail e st = Some (Some e, st)"

definition dthen :: "doris_op \<Rightarrow> doris_op \<Rightarrow> doris_op" where
  "dthen m k st = (case m st of None \<Rightarrow> None | Some (Some e, st1) \<Rightarrow> Some (Some e, st1) | Some (None, st1) \<Rightarrow> k st1)"

fun dall :: "('a \<Rightarrow> doris_op) \<Rightarrow> 'a list \<Rightarrow> doris_op" where
  "dall f [] = dok"
| "dall f (x # xs) = dthen (f x) (dall f xs)"

text \<open>The retried call of a policy; a loop that never ends has no result.\<close>

definition dretry :: "doris_env \<Rightarrow> nat \<Rightarrow> (nat \<Rightarrow> go_error option) \<Rightarrow> go_error option option" where
  "dretry D n attempt =
     map_option fst (RetryWithBackoff (dv_attempts D) (dv_base_backoff D) (dv_max_backoff D)
       attempt (dv_backoff D n))"

definition next_call :: "doris_state \<Rightarrow> doris_state" where
  "next_call st = st\<lparr>dr_calls := Suc (dr_calls st)\<rparr>"

section \<open>Tables\<close>

text \<open>The entries of a name once in two plans are kept where the new plan has none.\<close>

definition merge_entries :: "(string \<times> 'a) list \<Rightarrow> (string \<times> 'a) list \<Rightarrow> (string \<times> 'a) list" where
  "merge_entries new old = fold (\<lambda>(k, v). map_put k v) new old"

definition entry_at :: "(string \<times> (string \<times> 'a) list) list \<Rightarrow> string \<Rightarrow> (string \<times> 'a) list" where
  "entry_at m key = (case map_get m key of None \<Rightarrow> [] | Some e \<Rightarrow> e)"

definition cache_plan :: "string \<Rightarrow> table_plan \<Rightarrow> doris_state \<Rightarrow> doris_state" where
  "cache_plan key p st =
     st\<lparr>dr_bindings := map_put key (tp_bindings p) (dr_bindings st), dr_primary := map_put key (tp_keys p) (dr_primary st),
        dr_strings := map_put key (merge_entries (tp_strings p) (entry_at (dr_strings st) key)) (dr_strings st),
        dr_lengths := map_put key (merge_entries (tp_lengths p) (entry_at (dr_lengths st) key)) (dr_lengths st)\<rparr>"

text \<open>\<open>DESC\<close>: the names of the result's columns and its rows.\<close>

definition findResultColumn :: "string list \<Rightarrow> string \<Rightarrow> nat option" where
  "findResultColumn cols name = map_option fst (List.find (\<lambda>(i, c). equal_fold (trim_space c) name) (enumerate 0 cols))"

definition described_column :: "string list \<Rightarrow> nat \<Rightarrow> nat \<Rightarrow> string list \<Rightarrow> target_column option" where
  "described_column cols f t row =
     (let text = (\<lambda>n. case findResultColumn cols n of None \<Rightarrow> [] | Some i \<Rightarrow> trim_space (row ! i)) in
      if trim_space (row ! f) = [] then None
      else Some \<lparr>dc_name = trim_space (row ! f), dc_type = trim_space (row ! t),
        dc_nullable = (equal_fold (text ''Null'') ''yes'' \<or> equal_fold (text ''Null'') ''true''),
        dc_key = (equal_fold (text ''Key'') ''true'' \<or> equal_fold (text ''Key'') ''pri'')\<rparr>)"

definition fetchDorisTableColumns :: "string + string list \<times> string list list \<Rightarrow> string + target_column list" where
  "fetchDorisTableColumns reply =
     (case reply of
        Inl e \<Rightarrow> Inl e
      | Inr (cols, rows) \<Rightarrow>
          (case (findResultColumn cols ''Field'', findResultColumn cols ''Type'') of
             (Some f, Some t) \<Rightarrow> Inr (List.map_filter (described_column cols f t) rows)
           | _ \<Rightarrow> Inl ''DESC result missing Field/Type columns''))"

definition EnsureTable :: "doris_env \<Rightarrow> string \<Rightarrow> string \<Rightarrow> table_schema \<Rightarrow> doris_op" where
  "EnsureTable D db tbl sc st =
     (case table_plan_of db tbl sc of
        Inl e \<Rightarrow> dfail (new_error e) st
      | Inr p \<Rightarrow>
          let n = dr_calls st; st0 = cache_plan (target_key db tbl) p st;
              st1 = (next_call st0)\<lparr>dr_statements := dr_statements st0 @ [tp_statement p]\<rparr> in
          (case dretry D n (\<lambda>a. dv_exec D n a 0) of
             None \<Rightarrow> None
           | Some (Some e) \<Rightarrow> dfail e st1
           | Some None \<Rightarrow>
               let m = dr_calls st1;
                   (r, stmts) = reconcileTableSchemaOnce db tbl (fetchDorisTableColumns (dv_describe D m)) (\<lambda>i. map_option er_text (dv_exec D m 0 i)) (dv_polled D m)
                     (desiredDorisColumns (Some sc));
                   st2 = (next_call st1)\<lparr>dr_statements := dr_statements st1 @ stmts\<rparr> in
               Some (map_option new_error r, st2)))"

definition ResetTargetTable :: "doris_env \<Rightarrow> string \<Rightarrow> string \<Rightarrow> doris_op" where
  "ResetTargetTable D db tbl st =
     (let n = dr_calls st; stmt = ''TRUNCATE TABLE '' @ quoteDorisIdentifier db @ ''.'' @ quoteDorisIdentifier tbl;
          st1 = (next_call st)\<lparr>dr_statements := dr_statements st @ [stmt]\<rparr> in
      map_option (\<lambda>r. (r, st1)) (dretry D n (\<lambda>a. dv_exec D n a 0)))"

text \<open>The statements of one attempt, until one fails.\<close>

fun exec_all :: "(nat \<Rightarrow> go_error option) \<Rightarrow> nat \<Rightarrow> string list \<Rightarrow> go_error option" where
  "exec_all exec i [] = None"
| "exec_all exec i (s # ss) =
     (if trim_space s = [] then exec_all exec (Suc i) ss
      else case exec i of
        Some e \<Rightarrow> Some (wrap_error ''exec ddl failed: '' e)
      | None \<Rightarrow> exec_all exec (Suc i) ss)"

definition applyDDL :: "doris_env \<Rightarrow> string \<Rightarrow> string \<Rightarrow> event \<Rightarrow> doris_op" where
  "applyDDL D db tbl ev st =
     (case (if ev_changes ev = [] then ParseMySQLDDL (dv_parse D) (ev_ddl ev) else Inr (ev_changes ev)) of
        Inl e \<Rightarrow> dfail (new_error e) st
      | Inr changes \<Rightarrow>
          (case translateSchemaChangesToDoris changes db tbl of
             Inl reason \<Rightarrow> dok st
           | Inr stmts \<Rightarrow>
               let n = dr_calls st; st1 = (next_call st)\<lparr>dr_statements := dr_statements st @ stmts\<rparr> in
               map_option (\<lambda>r. (r, st1)) (dretry D n (\<lambda>a. exec_all (dv_exec D n a) 0 stmts))))"

section \<open>Loads\<close>

text \<open>The names of an event's columns in byte order.\<close>

definition event_bindings :: "event \<Rightarrow> column_binding list" where
  "event_bindings ev =
     (let cols = sort (map fst (ev_data ev));
          names = fst (foldl (\<lambda>(ns, used) (i, c). let n = sanitizeDorisColumnName c i used in (ns @ [n], to_lower n # used)) ([], []) (enumerate 0 cols)) in
      map2 (\<lambda>c n. \<lparr>cb_source = c, cb_target = n, cb_type = [], cb_nullable = False\<rparr>) cols names)"

definition getColumnBindingsForTarget :: "doris_env \<Rightarrow> string \<Rightarrow> event \<Rightarrow> doris_state \<Rightarrow> column_binding list \<times> doris_state" where
  "getColumnBindingsForTarget D key ev st =
     (case map_get (dr_bindings st) key of
        Some (b # bs) \<Rightarrow> (b # bs, st)
      | _ \<Rightarrow>
          (case fetchDorisTableColumns (dv_describe D (dr_calls st)) of
             Inr (c # cs) \<Rightarrow>
               (let bs = map (\<lambda>c. \<lparr>cb_source = dc_name c, cb_target = dc_name c, cb_type = dc_type c, cb_nullable = dc_nullable c\<rparr>) (c # cs) in
                (bs, (next_call st)\<lparr>dr_bindings := map_put key bs (dr_bindings st)\<rparr>))
           | _ \<Rightarrow> (event_bindings ev, next_call st)))"

text \<open>The label is made before the first attempt, from the clock.\<close>

definition load_label :: "nat \<Rightarrow> string" where
  "load_label t = ''gosync_'' @ show_nat t"

definition sendBatch :: "doris_env \<Rightarrow> string option \<Rightarrow> string \<Rightarrow> string \<Rightarrow> event list \<Rightarrow> event list \<Rightarrow> doris_op" where
  "sendBatch D collected db tbl raw batch st =
     (case batch of
        [] \<Rightarrow> dok st
      | ev # _ \<Rightarrow>
          (case getColumnBindingsForTarget D (target_key db tbl) ev st of (bindings, st0) \<Rightarrow>
           let key = target_key db tbl; cols = map cb_target bindings;
               meta = getColumnRuntimeMeta (entry_at (dr_strings st0) key) (entry_at (dr_lengths st0) key) cols;
               n = dr_calls st0; st1 = next_call st0;
               url = do_http_host (dv_cfg D) @ ''/api/'' @ db @ ''/'' @ tbl @ ''/_stream_load'';
               loaded = \<lparr>dl_key = collected, dl_url = url, dl_events = raw,
                 dl_columns = buildColumnsHeader (cols @ [dorisDeleteMarkerColumn]),
                 dl_body = writeBatchPayload (dv_format D) (zip bindings meta) batch\<rparr> in
           (case dretry D n (\<lambda>a. load_attempt (dv_url D) (dv_cfg D) (dv_load D n a) url (load_label (dv_clock D n)) (length batch)) of
              None \<Rightarrow> None
            | Some (Some e) \<Rightarrow> dfail e st1
            | Some None \<Rightarrow> dok (st1\<lparr>dr_loads := dr_loads st1 @ [loaded]\<rparr>))))"

definition sendBatchForRun :: "doris_env \<Rightarrow> string option \<Rightarrow> string \<Rightarrow> string \<Rightarrow> event list \<Rightarrow> doris_op" where
  "sendBatchForRun D collected db tbl batch st =
     (case prepareBatch (dv_json D) (case map_get (dr_primary st) (target_key db tbl) of None \<Rightarrow> [] | Some ks \<Rightarrow> ks) batch of
        Inl e \<Rightarrow> dfail (new_error e) st
      | Inr out \<Rightarrow> sendBatch D collected db tbl batch out st)"

section \<open>The run\<close>

definition rememberOffset :: "source_offset option \<Rightarrow> string \<Rightarrow> doris_state \<Rightarrow> doris_state" where
  "rememberOffset off trace st =
     (case off of None \<Rightarrow> st
      | Some o' \<Rightarrow> if source_offset_valid (Some o') then st\<lparr>dr_offset := Some (o', trace)\<rparr> else st)"

definition batch_at :: "doris_state \<Rightarrow> string \<Rightarrow> event list" where
  "batch_at st key = (case map_get (dr_batches st) key of None \<Rightarrow> [] | Some b \<Rightarrow> b)"

definition set_batch :: "string \<Rightarrow> event list \<Rightarrow> doris_state \<Rightarrow> doris_state" where
  "set_batch key batch st = st\<lparr>dr_batches := map_put key batch (dr_batches st)\<rparr>"

definition allBatchesEmpty :: "doris_state \<Rightarrow> bool" where
  "allBatchesEmpty st \<longleftrightarrow> list_all (\<lambda>(k, b). b = []) (dr_batches st)"

text \<open>A save that fails is tried again later; it may have taken effect.\<close>

definition commitPendingOffset :: "doris_env \<Rightarrow> doris_op" where
  "commitPendingOffset D st =
     (case dr_offset st of
        None \<Rightarrow> dok st
      | Some (off, _) \<Rightarrow>
          if \<not> dv_store D \<or> \<not> allBatchesEmpty st then dok st
          else let n = dr_calls st; st1 = next_call st in
            (case dv_save D n of
               Some e \<Rightarrow> dok (if dv_effect D n then st1\<lparr>dr_saved := Some off\<rparr> else st1)
             | None \<Rightarrow> dok (st1\<lparr>dr_saved := Some off, dr_offset := None\<rparr>)))"

definition flush_key :: "doris_env \<Rightarrow> string \<Rightarrow> doris_op" where
  "flush_key D key st =
     (if batch_at st key = [] then dok st
      else case split_db_table key of
        None \<Rightarrow> dok st
      | Some (db, tbl) \<Rightarrow>
          dthen (sendBatchForRun D (Some key) db tbl (batch_at st key)) (\<lambda>st1. dok (set_batch key [] st1)) st)"

definition flushAll :: "doris_env \<Rightarrow> doris_op" where
  "flushAll D st = dthen (dall (flush_key D) (map fst (dr_batches st))) (commitPendingOffset D) st"

definition eventTraceID :: "event \<Rightarrow> string" where
  "eventTraceID ev = (if trim_space (ev_trace ev) = [] then ''-'' else ev_trace ev)"

function row_chunks :: "nat \<Rightarrow> 'a list \<Rightarrow> 'a list list" where
  "row_chunks n [] = []"
| "row_chunks n (x # xs) = (x # take (n - 1) xs) # row_chunks n (drop (n - 1) xs)"
  by pat_completeness auto

termination by (relation "measure (length \<circ> snd)") auto

definition snapshot_event :: "event \<Rightarrow> row_data \<Rightarrow> event" where
  "snapshot_event ev row =
     blank_event\<lparr>ev_type := EventTypeInsert, ev_schema := ev_schema ev, ev_table := ev_table ev, ev_data := row,
       ev_origin := EventOriginSnapshot\<rparr>"

definition add_ack :: "bool \<Rightarrow> doris_op \<Rightarrow> doris_op" where
  "add_ack wanted m st =
     (case m st of None \<Rightarrow> None | Some (r, st1) \<Rightarrow> Some (r, if wanted then st1\<lparr>dr_acks := dr_acks st1 @ [r]\<rparr> else st1))"

definition snapshot_loads :: "doris_env \<Rightarrow> event \<Rightarrow> doris_op" where
  "snapshot_loads D ev =
     (case resolveTarget (dv_cfg D) (ev_schema ev) (ev_table ev) of (db, tbl) \<Rightarrow>
        let batchSize = (if do_batch_size (dv_cfg D) \<le> 0 then length (ev_rows ev) else nat (do_batch_size (dv_cfg D))) in
        dall (\<lambda>rows. sendBatchForRun D None db tbl (map (snapshot_event ev) rows)) (row_chunks batchSize (ev_rows ev)))"

definition handleSnapshotBatch :: "doris_env \<Rightarrow> event \<Rightarrow> doris_op" where
  "handleSnapshotBatch D ev =
     add_ack (ev_ack ev)
       (if ev_rows ev = [] then dok
        else dthen (flushAll D) (dthen (snapshot_loads D ev) (commitPendingOffset D)))"

definition confirm_snapshot :: "doris_env \<Rightarrow> doris_op" where
  "confirm_snapshot D st =
     (if \<not> dv_store D then dok st
      else case dv_confirm D (dr_calls st) of
        Some e \<Rightarrow> dfail e (next_call st)
      | None \<Rightarrow> dok ((next_call st)\<lparr>dr_confirmed := Suc (dr_confirmed st)\<rparr>))"

definition event_key :: "doris_env \<Rightarrow> event \<Rightarrow> string" where
  "event_key D ev = (case resolveTarget (dv_cfg D) (ev_schema ev) (ev_table ev) of (db, tbl) \<Rightarrow> target_key db tbl)"

text \<open>A full batch is sent to the names in its key, or to empty ones.\<close>

definition send_full :: "doris_env \<Rightarrow> string \<Rightarrow> doris_op" where
  "send_full D key st =
     (let batch = batch_at st key; (db, tbl) = (case split_db_table key of None \<Rightarrow> ([], []) | Some t \<Rightarrow> t) in
      if do_batch_size (dv_cfg D) \<le> int (length batch)
      then dthen (sendBatchForRun D (Some key) db tbl batch) (\<lambda>st1. commitPendingOffset D (set_batch key [] st1)) st
      else dok st)"

definition handleEvent :: "doris_env \<Rightarrow> event \<Rightarrow> doris_op" where
  "handleEvent D ev =
     (if ev_type ev = EventTypeSnapshotStart \<or> ev_type ev = EventTypeSnapshotComplete
      then add_ack (ev_ack ev)
             (if ev_type ev = EventTypeSnapshotComplete then dthen (flushAll D) (confirm_snapshot D) else dok)
      else if ev_type ev = EventTypeCheckpoint then (\<lambda>st. dok (rememberOffset (ev_offset ev) (eventTraceID ev) st))
      else if ev_type ev = EventTypeSnapshotBatch then handleSnapshotBatch D ev
      else if ev_type ev = EventTypeDDL
      then (case resolveTarget (dv_cfg D) (ev_schema ev) (ev_table ev) of (db, tbl) \<Rightarrow>
              dthen (flushAll D) (applyDDL D db tbl ev))
      else let key = event_key D ev in (\<lambda>st. send_full D key (set_batch key (batch_at st key @ [ev]) st)))"

text \<open>What the loop receives; after a cancelled context the buffered events are drained until the channel closes or 30 seconds pass.\<close>

datatype doris_input = DorisEvent event | DorisTick | DorisClosed | DorisCancelled go_error | DorisDeadline

fun drainAfterCancel :: "doris_env \<Rightarrow> doris_input list \<Rightarrow> doris_op" where
  "drainAfterCancel D [] = dok"
| "drainAfterCancel D (i # is) =
     (case i of
        DorisEvent ev \<Rightarrow> dthen (handleEvent D ev) (drainAfterCancel D is)
      | DorisClosed \<Rightarrow> flushAll D
      | DorisDeadline \<Rightarrow> dfail (new_error ''context deadline exceeded'')
      | _ \<Rightarrow> drainAfterCancel D is)"

definition end_cancelled :: "go_error \<Rightarrow> doris_op \<Rightarrow> doris_op" where
  "end_cancelled e m st = (case m st of None \<Rightarrow> None | Some (_, st1) \<Rightarrow> dfail e st1)"

fun run_loop :: "doris_env \<Rightarrow> doris_input list \<Rightarrow> doris_op" where
  "run_loop D [] = dok"
| "run_loop D (i # is) =
     (case i of
        DorisEvent ev \<Rightarrow> dthen (handleEvent D ev) (run_loop D is)
      | DorisTick \<Rightarrow> dthen (flushAll D) (run_loop D is)
      | DorisClosed \<Rightarrow> flushAll D
      | DorisCancelled e \<Rightarrow> end_cancelled e (drainAfterCancel D is)
      | DorisDeadline \<Rightarrow> run_loop D is)"

section \<open>When a load is done\<close>

text \<open>What Doris said: all rows of the load are in, or its label is known and finished.\<close>

definition doris_confirmed :: "load_world \<Rightarrow> nat \<Rightarrow> bool" where
  "doris_confirmed w rows \<longleftrightarrow>
     (\<exists>k < 3. \<exists>status target r body. lw_reply w k = HttpReply status target (Some r) body \<and> 200 \<le> status \<and> status < 300 \<and>
        (to_lower (trim_space (lr_status r)) = ''success'' \<and> lr_total r = int rows \<and> lr_loaded r = int rows \<and>
           lr_filtered r = 0 \<and> lr_unselected r = 0 \<or>
         isLabelAlreadyExists (lr_status r) (lr_message r) \<and>
           (\<exists>p \<in> set (lw_polls w). \<exists>state reason. getLoadStatusByLabel p = Inr (Some (state, reason)) \<and> to_upper (trim_space state) = ''FINISHED'')))"

lemma send_requests_reply:
  "snd (send_requests parse cfg reply k n url) = Inr (status, resp, body) \<Longrightarrow>
     \<exists>j. k \<le> j \<and> j < k + n \<and> (\<exists>target. reply j = HttpReply status target resp body)"
proof (induction parse cfg reply k n url rule: send_requests.induct)
  case (2 parse cfg reply k n url)
  show ?case
  proof (cases "reply k")
    case (HttpReply s t r b)
    show ?thesis
    proof (cases "is_redirect s \<and> n \<noteq> 0 \<and> t \<noteq> None")
      case True
      then obtain u where u: "t = Some u" by auto
      have "snd (send_requests parse cfg reply (Suc k) n (rewriteStreamLoadRedirectURL parse cfg u)) = Inr (status, resp, body)"
        using 2(2) HttpReply True u by (simp split: prod.splits)
      from 2(1) [OF HttpReply _ u _ this] True show ?thesis by (auto intro: Suc_leD)
    next
      case False
      then have "reply k = HttpReply status t resp body" using 2(2) HttpReply by (auto split: if_splits option.splits)
      then show ?thesis by (intro exI [of _ k]) auto
    qed
  qed (use 2(2) in simp)
qed simp

lemma wait_finished:
  "waitLoadLabelDone label c ps = None \<Longrightarrow>
     \<exists>p \<in> set ps. \<exists>state reason. getLoadStatusByLabel p = Inr (Some (state, reason)) \<and> to_upper (trim_space state) = ''FINISHED''"
  by (induction label c ps rule: waitLoadLabelDone.induct) (auto split: sum.splits option.splits if_splits prod.splits)

lemma counts_valid:
  "validateStreamLoadCounts r n = None \<longleftrightarrow> lr_filtered r = 0 \<and> lr_unselected r = 0 \<and> lr_total r = n \<and> lr_loaded r = n"
  by (simp add: validateStreamLoadCounts_def)

lemma attempt_confirmed: "load_attempt parse cfg w url label rows = None \<Longrightarrow> doris_confirmed w rows"
proof -
  assume a: "load_attempt parse cfg w url label rows = None"
  then obtain status r body where s: "snd (send_requests parse cfg (lw_reply w) 0 3 url) = Inr (status, Some r, body)"
    and st: "200 \<le> status" "status < 300" and res: "response_result w label rows r = None"
    by (auto simp: load_attempt_def Let_def split: sum.splits prod.splits if_splits option.splits)
  obtain k t where k: "k < 3" "lw_reply w k = HttpReply status t (Some r) body" using send_requests_reply [OF s] by auto
  show ?thesis unfolding doris_confirmed_def
    by (rule exI [of _ k], intro conjI, fact k(1), rule exI [of _ status], rule exI [of _ t], rule exI [of _ r], rule exI [of _ body])
      (use k st res in \<open>auto simp: response_result_def counts_valid dest!: wait_finished split: if_splits option.splits\<close>)
qed

lemma retry_success:
  assumes "retry_loop m mb fn c n b = Some y" "fst y = None"
  shows "\<exists>a. fn a = None"
proof -
  from assms(1) have "fst y = None \<longrightarrow> (\<exists>a. fn a = None)"
  proof (rule retry_loop.raw_induct [where P = "\<lambda>m mb fn c n b y. fst y = None \<longrightarrow> (\<exists>a. fn a = None)", rotated])
    fix loop :: "int \<Rightarrow> int \<Rightarrow> (nat \<Rightarrow> go_error option) \<Rightarrow> (nat \<Rightarrow> go_error option) \<Rightarrow> nat \<Rightarrow> int \<Rightarrow> (go_error option \<times> nat \<times> int list) option"
    fix m mb fn c n b y
    assume IH: "\<And>m mb fn c n b y. loop m mb fn c n b = Some y \<Longrightarrow> fst y = None \<longrightarrow> (\<exists>a. fn a = None)"
      and y: "(case fn n of None \<Rightarrow> Some (None, Suc n, [])
        | Some e \<Rightarrow> if IsPermanent e then Some (Some e, Suc n, [])
          else if 0 < m \<and> m \<le> int (Suc n) then Some (Some e, Suc n, [])
          else (case c n of None \<Rightarrow> Option.bind (loop m mb fn c (Suc n) (next_backoff mb b)) (\<lambda>(r, k, ws). Some (r, k, b # ws))
                | Some x \<Rightarrow> Some (Some x, Suc n, [b]))) = Some y"
    show "fst y = None \<longrightarrow> (\<exists>a. fn a = None)"
    proof (cases "fn n")
      case (Some e)
      have "fst y \<noteq> None \<or> (\<exists>z. loop m mb fn c (Suc n) (next_backoff mb b) = Some z \<and> fst z = fst y)"
        using y Some by (auto simp: bind_eq_Some_conv split: if_splits option.splits)
      then show ?thesis using IH by metis
    qed auto
  qed
  then show ?thesis using assms(2) by simp
qed

lemma dretry_success: "dretry D n attempt = Some None \<Longrightarrow> \<exists>a. attempt a = None"
  unfolding dretry_def RetryWithBackoff_def Let_def using retry_success by (auto simp del: retry_loop.simps)

text \<open>What a load carried: the operations the collected events come to, in the columns of its header.\<close>

definition carried :: "doris_env \<Rightarrow> doris_load \<Rightarrow> event list \<Rightarrow> bool" where
  "carried D l out \<longleftrightarrow>
     (\<exists>bs. dl_body l = writeBatchPayload (dv_format D) bs out \<and>
        dl_columns l = buildColumnsHeader (map (\<lambda>b. cb_target (fst b)) bs @ [dorisDeleteMarkerColumn]))"

text \<open>A batch that is not empty and sent without an error: the number of its call, and the load it logs.\<close>

lemma sendBatch_success:
  assumes "sendBatch D c db tbl raw batch st = Some (None, st')" "batch \<noteq> []"
  shows "\<exists>n a l. dr_calls st \<le> n \<and> dr_calls st' = Suc n \<and> doris_confirmed (dv_load D n a) (length batch) \<and>
    dr_loads st' = dr_loads st @ [l] \<and> dl_key l = c \<and> dl_events l = raw \<and>
    dl_url l = do_http_host (dv_cfg D) @ ''/api/'' @ db @ ''/'' @ tbl @ ''/_stream_load'' \<and> carried D l batch"
proof -
  obtain ev evs where b: "batch = ev # evs" using assms(2) by (cases batch) auto
  obtain bindings st0 where g: "getColumnBindingsForTarget D (target_key db tbl) ev st = (bindings, st0)" by fastforce
  have keep: "dr_loads st0 = dr_loads st" "dr_calls st \<le> dr_calls st0"
    using g by (auto simp: getColumnBindingsForTarget_def next_call_def Let_def split: option.splits list.splits sum.splits)
  define n where "n = dr_calls st0"
  define url where "url = do_http_host (dv_cfg D) @ ''/api/'' @ db @ ''/'' @ tbl @ ''/_stream_load''"
  define cols where "cols = map cb_target bindings"
  define meta where "meta = getColumnRuntimeMeta (entry_at (dr_strings st0) (target_key db tbl)) (entry_at (dr_lengths st0) (target_key db tbl)) cols"
  define l where "l = \<lparr>dl_key = c, dl_url = url, dl_events = raw, dl_columns = buildColumnsHeader (cols @ [dorisDeleteMarkerColumn]),
     dl_body = writeBatchPayload (dv_format D) (zip bindings meta) batch\<rparr>"
  have r: "dretry D n (\<lambda>a. load_attempt (dv_url D) (dv_cfg D) (dv_load D n a) url (load_label (dv_clock D n)) (length batch)) = Some None"
    and st': "st' = (next_call st0)\<lparr>dr_loads := dr_loads (next_call st0) @ [l]\<rparr>"
    using assms(1) unfolding sendBatch_def b list.case g prod.case Let_def n_def url_def l_def meta_def cols_def
    by (auto simp: dok_def dfail_def split: option.splits)
  have len: "length meta = length bindings" by (simp add: meta_def cols_def getColumnRuntimeMeta_def)
  have "map (\<lambda>b. cb_target (fst b)) (zip bindings meta) = map cb_target (map fst (zip bindings meta))" by simp
  also have "\<dots> = cols" using len by (simp only: map_fst_zip cols_def)
  finally have "carried D l batch" unfolding carried_def l_def by (intro exI [of _ "zip bindings meta"]) simp
  moreover obtain a where "doris_confirmed (dv_load D n a) (length batch)" using dretry_success [OF r] attempt_confirmed by blast
  ultimately show ?thesis using st' keep unfolding n_def
    by (intro exI [of _ "dr_calls st0"] exI [of _ a] exI [of _ l]) (simp add: next_call_def l_def url_def)
qed

text \<open>
  C35: A batch counts as loaded only on the word of Doris: when the sending of a batch that is not empty succeeds, after
  whatever redirects, failures and retries, then in one attempt of this very sending (the call with its number, which no
  other sending has) Doris answered that it loaded exactly the rows sent and dropped none, or that it knew the label
  already and then that the load with this label is finished. What was put to the URL of the table is the batch.
\<close>
theorem loaded_batch_confirmed:
  assumes "sendBatch D c db tbl raw batch st = Some (None, st')" "batch \<noteq> []"
  shows "\<exists>n a l. dr_calls st \<le> n \<and> dr_calls st' = Suc n \<and> doris_confirmed (dv_load D n a) (length batch) \<and>
    dr_loads st' = dr_loads st @ [l] \<and> carried D l batch \<and>
    dl_url l = do_http_host (dv_cfg D) @ ''/api/'' @ db @ ''/'' @ tbl @ ''/_stream_load''"
  using sendBatch_success [OF assms] by blast

section \<open>The checkpoint\<close>

definition loaded :: "doris_state \<Rightarrow> string \<Rightarrow> event list" where
  "loaded st key = concat (map dl_events (filter (\<lambda>l. dl_key l = Some key) (dr_loads st)))"

definition line :: "doris_state \<Rightarrow> string \<Rightarrow> event list" where
  "line st key = loaded st key @ batch_at st key"

text \<open>A step that collects no event: it may load batches, and save the remembered offset once none is left.\<close>

definition advances :: "doris_state \<Rightarrow> doris_state \<Rightarrow> bool" where
  "advances st st' \<longleftrightarrow>
     (\<forall>key. line st' key = line st key \<and> prefix (loaded st key) (loaded st' key)) \<and>
     (dr_offset st' = dr_offset st \<or> dr_offset st' = None) \<and>
     (dr_saved st' = dr_saved st \<or>
      (\<exists>tr. dr_offset st = map_option (\<lambda>o'. (o', tr)) (dr_saved st') \<and> dr_saved st' \<noteq> None \<and> (\<forall>key. loaded st' key = line st key)))"

definition advancing :: "doris_op \<Rightarrow> bool" where
  "advancing m \<longleftrightarrow> (\<forall>st r st'. m st = Some (r, st') \<longrightarrow> advances st st')"

lemma advances_refl: "advances st st"
  by (simp add: advances_def)

lemma advances_same:
  "\<lbrakk>dr_batches st' = dr_batches st; \<And>key. loaded st' key = loaded st key; dr_offset st' = dr_offset st; dr_saved st' = dr_saved st\<rbrakk> \<Longrightarrow>
     advances st st'"
  by (simp add: advances_def line_def batch_at_def)

lemma advancesD:
  assumes "advances st st'"
  shows "line st' key = line st key" "prefix (loaded st key) (loaded st' key)" "dr_offset st' = dr_offset st \<or> dr_offset st' = None"
  using assms by (simp_all add: advances_def)

lemma advances_saved:
  assumes "advances st st'" "dr_saved st' \<noteq> dr_saved st"
  shows "\<exists>off tr. dr_saved st' = Some off \<and> dr_offset st = Some (off, tr) \<and> (\<forall>key. loaded st' key = line st key)"
  using assms by (auto simp: advances_def)

lemma load_steps_trans:
  assumes ab: "advances a b" and bc: "advances b c"
  shows "advances a c"
proof -
  note line_eq = advancesD(1) [OF ab] advancesD(1) [OF bc]
  have full: "loaded c key = line a key" if "loaded b key = line a key" for key
  proof -
    have "prefix (loaded c key) (line c key)" by (simp add: line_def)
    moreover have "prefix (loaded b key) (loaded c key)" by (rule advancesD(2) [OF bc])
    ultimately show ?thesis using that line_eq by (metis prefix_order.antisym)
  qed
  have "dr_saved c = dr_saved a \<or>
      (\<exists>tr. dr_offset a = map_option (\<lambda>o'. (o', tr)) (dr_saved c) \<and> dr_saved c \<noteq> None \<and> (\<forall>key. loaded c key = line a key))"
  proof (cases "dr_saved c = dr_saved b")
    case True
    then show ?thesis using advances_saved [OF ab] full by (cases "dr_saved b = dr_saved a") fastforce+
  next
    case False
    then obtain off tr where c: "dr_saved c = Some off" "dr_offset b = Some (off, tr)" "\<forall>key. loaded c key = line b key"
      using advances_saved [OF bc] by blast
    then have "dr_offset a = Some (off, tr)" using advancesD(3) [OF ab] by auto
    then show ?thesis using c line_eq by auto
  qed
  moreover have "prefix (loaded a key) (loaded c key)" for key
    using advancesD(2) [OF ab, of key] advancesD(2) [OF bc, of key] by (rule prefix_order.trans)
  moreover have "dr_offset c = dr_offset a \<or> dr_offset c = None" using advancesD(3) [OF ab] advancesD(3) [OF bc] by auto
  ultimately show ?thesis using line_eq by (simp add: advances_def)
qed

lemma advancing_ok: "advancing dok" "advancing (dfail e)"
  by (simp_all add: advancing_def dok_def dfail_def advances_refl)

lemma advancingD: "\<lbrakk>advancing m; m st = Some (r, st')\<rbrakk> \<Longrightarrow> advances st st'"
  by (simp add: advancing_def)

lemma advancing_then: "\<lbrakk>advancing m; advancing k\<rbrakk> \<Longrightarrow> advancing (dthen m k)"
proof (unfold advancing_def [of "dthen m k"], intro allI impI)
  fix st r st' assume m: "advancing m" and k: "advancing k" and d: "dthen m k st = Some (r, st')"
  then consider e where "m st = Some (Some e, st')" | st1 where "m st = Some (None, st1)" "k st1 = Some (r, st')"
    by (auto simp: dthen_def split: option.splits)
  then show "advances st st'"
  proof cases
    case 1
    then show ?thesis by (rule advancingD [OF m])
  next
    case 2
    show ?thesis by (rule load_steps_trans [OF advancingD [OF m 2(1)] advancingD [OF k 2(2)]])
  qed
qed

lemma advancing_all: "(\<And>x. advancing (f x)) \<Longrightarrow> advancing (dall f xs)"
  by (induction xs) (simp_all add: advancing_ok advancing_then)

lemma loaded_unchanged: "dr_loads st' = dr_loads st \<Longrightarrow> loaded st' key = loaded st key"
  by (simp add: loaded_def)

lemma advancing_ack: "advancing m \<Longrightarrow> advancing (add_ack w m)"
proof (unfold advancing_def [of "add_ack w m"], intro allI impI)
  fix st r st' assume m: "advancing m" and a: "add_ack w m st = Some (r, st')"
  then obtain st1 where st1: "m st = Some (r, st1)" "st' = (if w then st1\<lparr>dr_acks := dr_acks st1 @ [r]\<rparr> else st1)"
    by (auto simp: add_ack_def split: option.splits)
  have "advances st1 st'" unfolding st1(2) by (rule advances_same) (simp_all add: loaded_def)
  then show "advances st st'" using load_steps_trans [OF advancingD [OF m st1(1)]] by blast
qed

section \<open>What the operations keep\<close>

text \<open>Sending leaves the batches, the offset and the checkpoint alone; on success the batch is logged.\<close>

lemma prepared_nonempty:
  assumes "prepareBatch json ks batch = Inr out" "batch \<noteq> []"
  shows "out \<noteq> []"
proof (cases "ks = []")
  case False
  obtain ev evs where b: "batch = ev # evs" using assms(2) by (cases batch) auto
  have put: "map_put k v m \<noteq> []" for k v and m :: "(string \<times> event \<times> nat) list"
    by (induction k v m rule: map_put.induct) auto
  have one: "fst p' \<noteq> []" if "prepare_event json ks e p = Inr p'" for e p p'
    using that put by (auto simp: prepare_event_def remember_event_def split: if_splits sum.splits prod.splits)
  have more: "fst p' \<noteq> []" if "prepare_events json ks es p = Inr p'" "fst p \<noteq> []" for es p p'
    using that by (induction es arbitrary: p) (auto split: sum.splits dest: one)
  from assms(1) b False obtain p m n where p: "prepare_event json ks ev ([], 0) = Inr p" "prepare_events json ks evs p = Inr (m, n)"
    and out: "out = map fst (sort_key snd (map snd m))"
    by (auto simp: prepareBatch_def split: sum.splits)
  have "m \<noteq> []" using more [OF p(2) one [OF p(1)]] by simp
  moreover have "length out = length m" by (simp add: out)
  ultimately show ?thesis by auto
qed (use assms in \<open>simp add: prepareBatch_def\<close>)

lemma bindings_keep:
  "getColumnBindingsForTarget D key ev st = (bs, st1) \<Longrightarrow>
     dr_batches st1 = dr_batches st \<and> dr_offset st1 = dr_offset st \<and> dr_saved st1 = dr_saved st \<and> dr_loads st1 = dr_loads st"
  by (auto simp: getColumnBindingsForTarget_def next_call_def Let_def split: option.splits list.splits sum.splits)

definition sent :: "string option \<Rightarrow> event list \<Rightarrow> go_error option \<Rightarrow> doris_state \<Rightarrow> doris_state \<Rightarrow> bool" where
  "sent c batch r st st' \<longleftrightarrow>
     dr_batches st' = dr_batches st \<and> dr_offset st' = dr_offset st \<and> dr_saved st' = dr_saved st \<and>
     (if r = None \<and> batch \<noteq> [] then \<exists>l. dr_loads st' = dr_loads st @ [l] \<and> dl_key l = c \<and> dl_events l = batch
      else dr_loads st' = dr_loads st)"

lemma sendBatch_sent:
  "\<lbrakk>sendBatch D c db tbl raw out st = Some (r, st'); out = [] \<longleftrightarrow> raw = []\<rbrakk> \<Longrightarrow> sent c raw r st st'"
  by (auto simp: sendBatch_def sent_def dok_def dfail_def next_call_def Let_def split: list.splits prod.splits option.splits
      dest!: bindings_keep)

lemma sendBatchForRun_sent: "sendBatchForRun D c db tbl batch st = Some (r, st') \<Longrightarrow> sent c batch r st st'"
proof (cases "prepareBatch (dv_json D) (case map_get (dr_primary st) (target_key db tbl) of None \<Rightarrow> [] | Some ks \<Rightarrow> ks) batch")
  case (Inl e)
  moreover assume "sendBatchForRun D c db tbl batch st = Some (r, st')"
  ultimately show ?thesis by (auto simp: sendBatchForRun_def dfail_def sent_def)
next
  case (Inr out)
  moreover have "out = [] \<longleftrightarrow> batch = []" using prepared_nonempty [OF Inr] Inr by (auto simp: prepareBatch_def)
  moreover assume "sendBatchForRun D c db tbl batch st = Some (r, st')"
  ultimately show ?thesis by (auto simp: sendBatchForRun_def intro: sendBatch_sent)
qed

lemma sendBatchForRun_snapshot: "advancing (sendBatchForRun D None db tbl batch)"
proof (unfold advancing_def, intro allI impI)
  fix st r st' assume "sendBatchForRun D None db tbl batch st = Some (r, st')"
  then have s: "sent None batch r st st'" by (rule sendBatchForRun_sent)
  show "advances st st'"
    by (rule advances_same) (use s in \<open>auto simp: sent_def loaded_def split: if_splits\<close>)
qed

lemma batch_at_set [simp]: "batch_at (set_batch k b st) key = (if key = k then b else batch_at st key)"
  by (simp add: batch_at_def set_batch_def)

lemma set_batch_rest [simp]:
  "dr_offset (set_batch k b st) = dr_offset st" "dr_saved (set_batch k b st) = dr_saved st" "loaded (set_batch k b st) key = loaded st key"
  by (simp_all add: set_batch_def loaded_def)

text \<open>A batch that is sent and then emptied.\<close>

lemma sent_advances:
  assumes "sent (Some key) (batch_at st key) None st st1"
  shows "advances st (set_batch key [] st1)"
proof -
  have b: "batch_at st1 k = batch_at st k" for k using assms by (simp add: sent_def batch_at_def)
  have l: "loaded st1 k = loaded st k @ (if k = key then batch_at st key else [])" for k
    using assms by (auto simp: sent_def loaded_def split: if_splits)
  show ?thesis using assms by (auto simp: advances_def line_def l b sent_def)
qed

lemma sent_failed: "sent c batch (Some e) st st1 \<Longrightarrow> advances st st1"
  by (rule advances_same) (auto simp: sent_def loaded_def)

lemma send_and_reset:
  assumes k: "advancing k"
    and run: "dthen (sendBatchForRun D (Some key) db tbl (batch_at st key)) (\<lambda>st1. k (set_batch key [] st1)) st = Some (r, st')"
  shows "advances st st'"
proof -
  consider e where "sendBatchForRun D (Some key) db tbl (batch_at st key) st = Some (Some e, st')"
    | st1 where "sendBatchForRun D (Some key) db tbl (batch_at st key) st = Some (None, st1)" "k (set_batch key [] st1) = Some (r, st')"
    using run by (auto simp: dthen_def split: option.splits)
  then show ?thesis
  proof cases
    case 1
    then show ?thesis by (intro sent_failed sendBatchForRun_sent)
  next
    case 2
    show ?thesis
      by (rule load_steps_trans [OF sent_advances [OF sendBatchForRun_sent [OF 2(1)]] advancingD [OF k 2(2)]])
  qed
qed

lemma empty_batches: "allBatchesEmpty st \<Longrightarrow> batch_at st key = []"
  by (auto simp: allBatchesEmpty_def batch_at_def map_get_def list_all_iff split: option.split dest!: map_of_SomeD)

lemma advancing_commit: "advancing (commitPendingOffset D)"
proof (unfold advancing_def, intro allI impI)
  fix st r st' assume c: "commitPendingOffset D st = Some (r, st')"
  show "advances st st'"
  proof (cases "allBatchesEmpty st")
    case True
    then have l: "line st key = loaded st key" for key by (simp add: line_def empty_batches)
    have "dr_batches st' = dr_batches st" "dr_loads st' = dr_loads st" "dr_offset st' = dr_offset st \<or> dr_offset st' = None"
      "dr_saved st' = dr_saved st \<or> (\<exists>off tr. dr_offset st = Some (off, tr) \<and> dr_saved st' = Some off)"
      using c by (auto simp: commitPendingOffset_def next_call_def dok_def Let_def split: option.splits if_splits)
    then show ?thesis using l by (auto simp: advances_def line_def batch_at_def loaded_def)
  next
    case False
    then have "st' = st" using c by (auto simp: commitPendingOffset_def dok_def split: option.splits)
    then show ?thesis by (simp add: advances_refl)
  qed
qed

lemma advancing_flush_key: "advancing (flush_key D key)"
proof (unfold advancing_def, intro allI impI)
  fix st r st' assume f: "flush_key D key st = Some (r, st')"
  show "advances st st'"
  proof (cases "batch_at st key = [] \<or> split_db_table key = None")
    case True
    then have "st' = st" using f by (auto simp: flush_key_def dok_def split: if_splits)
    then show ?thesis by (simp add: advances_refl)
  next
    case False
    then obtain db tbl where "dthen (sendBatchForRun D (Some key) db tbl (batch_at st key)) (\<lambda>st1. dok (set_batch key [] st1)) st = Some (r, st')"
      using f by (auto simp: flush_key_def split: option.splits)
    then show ?thesis using send_and_reset [OF advancing_ok(1)] by blast
  qed
qed

lemma advancing_flushAll: "advancing (flushAll D)"
proof -
  have "advancing (dthen (dall (flush_key D) ks) (commitPendingOffset D))" for ks
    by (intro advancing_then advancing_all advancing_flush_key advancing_commit)
  then show ?thesis by (simp add: advancing_def flushAll_def)
qed

lemma advancing_rest:
  "advancing (applyDDL D db tbl ev)" "advancing (confirm_snapshot D)" "advancing (snapshot_loads D ev)"
proof -
  show "advancing (applyDDL D db tbl ev)" unfolding advancing_def
    by (auto simp: applyDDL_def dok_def dfail_def next_call_def Let_def loaded_def intro!: advances_refl advances_same
        split: sum.splits)
  show "advancing (confirm_snapshot D)" unfolding advancing_def
    by (auto simp: confirm_snapshot_def dok_def dfail_def next_call_def loaded_def intro!: advances_refl advances_same
        split: option.splits if_splits)
  show "advancing (snapshot_loads D ev)"
    unfolding snapshot_loads_def Let_def by (cases "resolveTarget (dv_cfg D) (ev_schema ev) (ev_table ev)")
      (simp add: advancing_all sendBatchForRun_snapshot)
qed

section \<open>The loop\<close>

definition row_event :: "event \<Rightarrow> bool" where
  "row_event ev \<longleftrightarrow> ev_type ev \<notin> {EventTypeSnapshotStart, EventTypeSnapshotComplete, EventTypeCheckpoint,
     EventTypeSnapshotBatch, EventTypeDDL}"

text \<open>The row events of a key among the inputs.\<close>

definition events_of :: "doris_env \<Rightarrow> string \<Rightarrow> doris_input list \<Rightarrow> event list" where
  "events_of D key ins = concat (map (\<lambda>i. case i of DorisEvent ev \<Rightarrow> if row_event ev \<and> event_key D ev = key then [ev] else [] | _ \<Rightarrow> []) ins)"

definition checkpoint_in :: "doris_input list \<Rightarrow> source_offset \<Rightarrow> doris_input list \<Rightarrow> bool" where
  "checkpoint_in ins off before \<longleftrightarrow>
     (\<exists>cp after. ins = before @ DorisEvent cp # after \<and> ev_type cp = EventTypeCheckpoint \<and> ev_offset cp = Some off)"

definition saved_behind :: "doris_env \<Rightarrow> doris_input list \<Rightarrow> doris_state \<Rightarrow> source_offset \<Rightarrow> bool" where
  "saved_behind D ins st off \<longleftrightarrow> (\<exists>before. checkpoint_in ins off before \<and> (\<forall>key. prefix (events_of D key before) (loaded st key)))"

definition loop_inv :: "doris_env \<Rightarrow> doris_state \<Rightarrow> doris_input list \<Rightarrow> doris_state \<Rightarrow> bool" where
  "loop_inv D st0 ins st \<longleftrightarrow>
     (\<forall>key. line st key = events_of D key ins) \<and>
     (\<forall>off tr. dr_offset st = Some (off, tr) \<longrightarrow> (\<exists>before. checkpoint_in ins off before)) \<and>
     (dr_saved st = dr_saved st0 \<or> (\<exists>off. dr_saved st = Some off \<and> saved_behind D ins st off))"

lemma checkpoint_in_more: "checkpoint_in ins off before \<Longrightarrow> checkpoint_in (ins @ rest) off before"
  by (auto simp: checkpoint_in_def)

lemma checkpoint_in_prefix: "checkpoint_in ins off before \<Longrightarrow> prefix (events_of D key before) (events_of D key ins)"
  by (auto simp: checkpoint_in_def events_of_def)

lemma saved_behind_more:
  "\<lbrakk>saved_behind D ins st off; \<And>key. prefix (loaded st key) (loaded st' key)\<rbrakk> \<Longrightarrow> saved_behind D (ins @ rest) st' off"
  unfolding saved_behind_def by (meson checkpoint_in_more prefix_order.trans)

lemma load_inv_advances:
  assumes inv: "loop_inv D st0 ins st" and a: "advances st st'"
  shows "loop_inv D st0 ins st'"
proof -
  have "dr_saved st' = dr_saved st0 \<or> (\<exists>off. dr_saved st' = Some off \<and> saved_behind D ins st' off)"
  proof (cases "dr_saved st' = dr_saved st")
    case True
    then show ?thesis using inv saved_behind_more [of D ins st _ st' "[]"] advancesD(2) [OF a] by (auto simp: loop_inv_def)
  next
    case False
    then obtain off tr where s: "dr_saved st' = Some off" "dr_offset st = Some (off, tr)" "\<forall>key. loaded st' key = line st key"
      using advances_saved [OF a] by blast
    then obtain before where b: "checkpoint_in ins off before" using inv by (auto simp: loop_inv_def)
    have "prefix (events_of D key before) (loaded st' key)" for key
      using checkpoint_in_prefix [OF b, of D key] s(3) inv by (simp add: loop_inv_def)
    then show ?thesis using s(1) b by (auto simp: saved_behind_def)
  qed
  then show ?thesis using inv advancesD [OF a] by (auto simp: loop_inv_def)
qed

text \<open>An input that is no row event and no checkpoint leaves the account as it is.\<close>

definition counted :: "doris_input \<Rightarrow> bool" where
  "counted i \<longleftrightarrow> (case i of DorisEvent ev \<Rightarrow> row_event ev \<or> ev_type ev = EventTypeCheckpoint | _ \<Rightarrow> False)"

lemma loop_inv_skip:
  assumes inv: "loop_inv D st0 ins st" and i: "\<not> counted i"
  shows "loop_inv D st0 (ins @ [i]) st"
proof -
  have "events_of D key (ins @ [i]) = events_of D key ins" for key
    using i by (auto simp: events_of_def counted_def split: doris_input.splits)
  then show ?thesis using inv saved_behind_more [of D ins st _ st "[i]"] checkpoint_in_more
    unfolding loop_inv_def by (metis prefix_order.refl)
qed

lemma loop_inv_checkpoint:
  assumes inv: "loop_inv D st0 ins st" and cp: "ev_type ev = EventTypeCheckpoint"
  shows "loop_inv D st0 (ins @ [DorisEvent ev]) (rememberOffset (ev_offset ev) trace st)"
proof -
  let ?st = "rememberOffset (ev_offset ev) trace st"
  have e: "events_of D key (ins @ [DorisEvent ev]) = events_of D key ins" for key
    using cp by (simp add: events_of_def row_event_def)
  have same: "line ?st key = line st key" "loaded ?st key = loaded st key" "dr_saved ?st = dr_saved st" for key
    by (auto simp: rememberOffset_def line_def loaded_def batch_at_def split: option.split)
  have off: "\<exists>before. checkpoint_in (ins @ [DorisEvent ev]) o' before" if "dr_offset ?st = Some (o', tr)" for o' tr
  proof (cases "ev_offset ev = Some o'")
    case True
    then show ?thesis using cp by (auto simp: checkpoint_in_def)
  next
    case False
    then have "dr_offset st = Some (o', tr)" using that by (auto simp: rememberOffset_def split: option.splits if_splits)
    then obtain before where "checkpoint_in ins o' before" using inv by (auto simp: loop_inv_def)
    then show ?thesis using checkpoint_in_more by blast
  qed
  have "saved_behind D (ins @ [DorisEvent ev]) ?st o'" if "saved_behind D ins st o'" for o'
    using saved_behind_more [OF that, of ?st] same by simp
  then show ?thesis using inv e same off by (auto simp: loop_inv_def)
qed

lemma loop_inv_row:
  assumes inv: "loop_inv D st0 ins st" and row: "row_event ev"
  shows "loop_inv D st0 (ins @ [DorisEvent ev]) (set_batch (event_key D ev) (batch_at st (event_key D ev) @ [ev]) st)"
proof -
  let ?st = "set_batch (event_key D ev) (batch_at st (event_key D ev) @ [ev]) st"
  have "line ?st key = events_of D key (ins @ [DorisEvent ev])" for key
    using inv row by (auto simp: loop_inv_def line_def events_of_def)
  moreover have "saved_behind D (ins @ [DorisEvent ev]) ?st o'" if "saved_behind D ins st o'" for o'
    using saved_behind_more [OF that, of ?st] by simp
  ultimately show ?thesis using inv checkpoint_in_more by (fastforce simp: loop_inv_def)
qed

lemma advancing_send_full: "advancing (send_full D key)"
proof (unfold advancing_def, intro allI impI)
  fix st r st' assume f: "send_full D key st = Some (r, st')"
  obtain db tbl where t: "(case split_db_table key of None \<Rightarrow> ([], []) | Some t \<Rightarrow> t) = (db, tbl)" by fastforce
  show "advances st st'"
  proof (cases "do_batch_size (dv_cfg D) \<le> int (length (batch_at st key))")
    case True
    then have "dthen (sendBatchForRun D (Some key) db tbl (batch_at st key)) (\<lambda>st1. commitPendingOffset D (set_batch key [] st1)) st = Some (r, st')"
      using f t by (simp add: send_full_def Let_def)
    then show ?thesis by (rule send_and_reset [OF advancing_commit])
  next
    case False
    then have "st' = st" using f t by (simp add: send_full_def Let_def dok_def)
    then show ?thesis by (simp add: advances_refl)
  qed
qed

lemma handleEvent_inv:
  assumes h: "handleEvent D ev st = Some (r, st')" and inv: "loop_inv D st0 ins st"
  shows "loop_inv D st0 (ins @ [DorisEvent ev]) st'"
proof -
  have other: "loop_inv D st0 (ins @ [DorisEvent ev]) st'" if "\<not> counted (DorisEvent ev)" "advancing (handleEvent D ev)"
    by (rule load_inv_advances [OF loop_inv_skip [OF inv that(1)] advancingD [OF that(2) h]])
  obtain db tbl where t: "resolveTarget (dv_cfg D) (ev_schema ev) (ev_table ev) = (db, tbl)" by fastforce
  note parts = advancing_ack advancing_then advancing_flushAll advancing_rest advancing_commit advancing_ok
  consider "ev_type ev = EventTypeSnapshotStart \<or> ev_type ev = EventTypeSnapshotComplete" | "ev_type ev = EventTypeCheckpoint"
    | "ev_type ev = EventTypeSnapshotBatch" | "ev_type ev = EventTypeDDL" | "row_event ev"
    by (auto simp: row_event_def)
  then show ?thesis
  proof cases
    case 1
    then show ?thesis by (intro other) (auto simp: counted_def row_event_def handleEvent_def intro!: parts)
  next
    case 2
    then show ?thesis using h loop_inv_checkpoint [OF inv 2] by (auto simp: handleEvent_def dok_def)
  next
    case 3
    then show ?thesis by (intro other) (auto simp: counted_def row_event_def handleEvent_def handleSnapshotBatch_def intro!: parts)
  next
    case 4
    then show ?thesis by (intro other) (auto simp: counted_def row_event_def handleEvent_def t intro!: parts)
  next
    case 5
    then have "send_full D (event_key D ev) (set_batch (event_key D ev) (batch_at st (event_key D ev) @ [ev]) st) = Some (r, st')"
      using h by (simp add: handleEvent_def row_event_def Let_def)
    then show ?thesis by (intro load_inv_advances [OF loop_inv_row [OF inv 5]] advancingD [OF advancing_send_full])
  qed
qed

lemma drain_inv:
  "\<lbrakk>drainAfterCancel D is st = Some (r, st'); loop_inv D st0 ins st\<rbrakk> \<Longrightarrow> \<exists>used. prefix used is \<and> loop_inv D st0 (ins @ used) st'"
proof (induction "is" arbitrary: ins st)
  case Nil
  then show ?case by (intro exI [of _ "[]"]) (simp add: dok_def)
next
  case (Cons i "is")
  have go: "\<exists>used. prefix used (i # is) \<and> loop_inv D st0 (ins @ used) st'"
    if "drainAfterCancel D is st1 = Some (r, st')" "loop_inv D st0 (ins @ [i]) st1" for st1
    using Cons.IH [OF that] by (metis append_Cons append_Nil append_assoc prefix_Cons)
  have stop: "\<exists>used. prefix used (i # is) \<and> loop_inv D st0 (ins @ used) st'" if "loop_inv D st0 (ins @ [i]) st'"
    using that by (intro exI [of _ "[i]"]) simp
  note skip = loop_inv_skip [OF Cons.prems(2), of i]
  show ?case
  proof (cases i)
    case (DorisEvent ev)
    then consider e where "handleEvent D ev st = Some (Some e, st')"
      | st1 where "handleEvent D ev st = Some (None, st1)" "drainAfterCancel D is st1 = Some (r, st')"
      using Cons.prems(1) by (auto simp: dthen_def split: option.splits)
    then show ?thesis using go stop handleEvent_inv [OF _ Cons.prems(2)] DorisEvent by cases blast+
  next
    case DorisClosed
    then show ?thesis using Cons.prems(1) skip stop load_inv_advances advancingD [OF advancing_flushAll]
      by (simp add: counted_def)
  qed (use Cons.prems(1) skip stop go in \<open>auto simp: counted_def dfail_def\<close>)
qed

lemma run_loop_inv:
  "\<lbrakk>run_loop D is st = Some (r, st'); loop_inv D st0 ins st\<rbrakk> \<Longrightarrow> \<exists>used. prefix used is \<and> loop_inv D st0 (ins @ used) st'"
proof (induction "is" arbitrary: ins st)
  case Nil
  then show ?case by (intro exI [of _ "[]"]) (simp add: dok_def)
next
  case (Cons i "is")
  have go: "\<exists>used. prefix used (i # is) \<and> loop_inv D st0 (ins @ used) st'"
    if "run_loop D is st1 = Some (r, st')" "loop_inv D st0 (ins @ [i]) st1" for st1
    using Cons.IH [OF that] by (metis append_Cons append_Nil append_assoc prefix_Cons)
  have more: "prefix used is \<Longrightarrow> loop_inv D st0 ((ins @ [i]) @ used) st' \<Longrightarrow> \<exists>used. prefix used (i # is) \<and> loop_inv D st0 (ins @ used) st'"
    for used by (intro exI [of _ "i # used"]) simp
  have stop: "\<exists>used. prefix used (i # is) \<and> loop_inv D st0 (ins @ used) st'" if "loop_inv D st0 (ins @ [i]) st'"
    using that by (intro exI [of _ "[i]"]) simp
  note skip = loop_inv_skip [OF Cons.prems(2), of i]
  have flush: "loop_inv D st0 (ins @ [i]) st1" if "flushAll D st = Some (q, st1)" "\<not> counted i" for q st1
    by (rule load_inv_advances [OF skip [OF that(2)] advancingD [OF advancing_flushAll that(1)]])
  show ?case
  proof (cases i)
    case (DorisEvent ev)
    then consider e where "handleEvent D ev st = Some (Some e, st')"
      | st1 where "handleEvent D ev st = Some (None, st1)" "run_loop D is st1 = Some (r, st')"
      using Cons.prems(1) by (auto simp: dthen_def split: option.splits)
    then show ?thesis using go stop handleEvent_inv [OF _ Cons.prems(2)] DorisEvent by cases blast+
  next
    case DorisTick
    then consider e where "flushAll D st = Some (Some e, st')"
      | st1 where "flushAll D st = Some (None, st1)" "run_loop D is st1 = Some (r, st')"
      using Cons.prems(1) by (auto simp: dthen_def split: option.splits)
    then show ?thesis using go stop flush DorisTick by cases (auto simp: counted_def)
  next
    case DorisClosed
    then show ?thesis using Cons.prems(1) flush stop by (auto simp: counted_def)
  next
    case (DorisCancelled e)
    then obtain q where "drainAfterCancel D is st = Some (q, st')"
      using Cons.prems(1) by (auto simp: end_cancelled_def dfail_def split: option.splits)
    from drain_inv [OF this skip] show ?thesis using more DorisCancelled by (auto simp: counted_def)
  next
    case DorisDeadline
    then show ?thesis using Cons.prems(1) go [OF _ skip] by (auto simp: counted_def)
  qed
qed

section \<open>Where the loads went\<close>

text \<open>
  Every load is the work of its events, put to the URL of the target its key names, and confirmed by Doris.
\<close>

definition load_sound :: "doris_env \<Rightarrow> doris_load \<Rightarrow> bool" where
  "load_sound D l \<longleftrightarrow>
     (\<exists>keys out n a. prepareBatch (dv_json D) keys (dl_events l) = Inr out \<and> carried D l out \<and>
        doris_confirmed (dv_load D n a) (length out)) \<and>
     (case dl_key l of None \<Rightarrow> True
      | Some key \<Rightarrow> (case split_db_table key of None \<Rightarrow> True
         | Some (db, tbl) \<Rightarrow> dl_url l = do_http_host (dv_cfg D) @ ''/api/'' @ db @ ''/'' @ tbl @ ''/_stream_load''))"

definition sound_op :: "doris_env \<Rightarrow> doris_op \<Rightarrow> bool" where
  "sound_op D m \<longleftrightarrow>
     (\<forall>st r st'. m st = Some (r, st') \<longrightarrow> (\<forall>l \<in> set (dr_loads st). load_sound D l) \<longrightarrow> (\<forall>l \<in> set (dr_loads st'). load_sound D l))"

lemma sound_same: "(\<And>st r st'. m st = Some (r, st') \<Longrightarrow> dr_loads st' = dr_loads st) \<Longrightarrow> sound_op D m"
  unfolding sound_op_def by metis

lemma sound_then: "sound_op D m \<Longrightarrow> sound_op D k \<Longrightarrow> sound_op D (dthen m k)"
proof (unfold sound_op_def [of D "dthen m k"], intro allI impI)
  fix st r st' assume m: "sound_op D m" and k: "sound_op D k" and run: "dthen m k st = Some (r, st')"
    and inv: "\<forall>l \<in> set (dr_loads st). load_sound D l"
  then consider e where "m st = Some (Some e, st')" | st1 where "m st = Some (None, st1)" "k st1 = Some (r, st')"
    by (auto simp: dthen_def split: option.splits)
  then show "\<forall>l \<in> set (dr_loads st'). load_sound D l" using m k inv unfolding sound_op_def by cases blast+
qed

lemma sound_ack: "sound_op D m \<Longrightarrow> sound_op D (add_ack w m)"
  unfolding sound_op_def add_ack_def by (fastforce split: option.splits if_splits)

lemma sound_simple:
  "sound_op D dok" "sound_op D (dfail e)" "sound_op D (commitPendingOffset D)" "sound_op D (confirm_snapshot D)"
  "sound_op D (applyDDL D db tbl ev)" "sound_op D (\<lambda>st. dok (rememberOffset off tr st))"
  by (rule sound_same; auto simp: dok_def dfail_def commitPendingOffset_def confirm_snapshot_def applyDDL_def rememberOffset_def
      next_call_def Let_def split: option.splits if_splits sum.splits)+

lemma sound_all: "(\<And>x. sound_op D (f x)) \<Longrightarrow> sound_op D (dall f xs)"
  by (induction xs) (simp_all add: sound_then sound_simple(1))

lemma sound_send:
  assumes "c = None \<or> c = Some key \<and> (split_db_table key = None \<or> split_db_table key = Some (db, tbl))"
  shows "sound_op D (sendBatchForRun D c db tbl batch)"
proof (unfold sound_op_def, intro allI impI)
  fix st r st' assume run: "sendBatchForRun D c db tbl batch st = Some (r, st')" and inv: "\<forall>l \<in> set (dr_loads st). load_sound D l"
  show "\<forall>l \<in> set (dr_loads st'). load_sound D l"
  proof (cases "dr_loads st' = dr_loads st")
    case False
    then have ok: "r = None" "batch \<noteq> []" using sendBatchForRun_sent [OF run] by (auto simp: sent_def split: if_splits)
    obtain ks out where out: "prepareBatch (dv_json D) ks batch = Inr out" "sendBatch D c db tbl batch out st = Some (None, st')"
      using run ok(1) by (auto simp: sendBatchForRun_def dfail_def split: sum.splits)
    obtain n a l where l: "doris_confirmed (dv_load D n a) (length out)" "dr_loads st' = dr_loads st @ [l]" "dl_key l = c"
      "dl_events l = batch" "dl_url l = do_http_host (dv_cfg D) @ ''/api/'' @ db @ ''/'' @ tbl @ ''/_stream_load''" "carried D l out"
      using sendBatch_success [OF out(2) prepared_nonempty [OF out(1) ok(2)]] by blast
    then have "load_sound D l" unfolding load_sound_def using out(1) assms by auto
    then show ?thesis using l(2) inv by simp
  qed (use inv in simp)
qed

lemma sound_reset: "sound_op D k \<Longrightarrow> sound_op D (\<lambda>st. k (set_batch (key st) (b st) st))"
proof -
  assume k: "sound_op D k"
  have "dr_loads (set_batch x y st) = dr_loads st" for x y st by (simp add: set_batch_def)
  with k show ?thesis unfolding sound_op_def by metis
qed

lemma sound_flush_key: "sound_op D (flush_key D key)"
proof (unfold sound_op_def, intro allI impI)
  fix st r st' assume run: "flush_key D key st = Some (r, st')" and inv: "\<forall>l \<in> set (dr_loads st). load_sound D l"
  show "\<forall>l \<in> set (dr_loads st'). load_sound D l"
  proof (cases "batch_at st key = [] \<or> split_db_table key = None")
    case True
    then have "st' = st" using run by (auto simp: flush_key_def dok_def split: if_splits)
    then show ?thesis using inv by simp
  next
    case False
    then obtain db tbl where t: "split_db_table key = Some (db, tbl)" by auto
    have "sound_op D (dthen (sendBatchForRun D (Some key) db tbl (batch_at st key)) (\<lambda>st1. dok (set_batch key [] st1)))"
      by (intro sound_then sound_send [of _ key] sound_reset sound_simple) (use t in simp)
    moreover have "dthen (sendBatchForRun D (Some key) db tbl (batch_at st key)) (\<lambda>st1. dok (set_batch key [] st1)) st = Some (r, st')"
      using run False t by (auto simp: flush_key_def)
    ultimately show ?thesis using inv unfolding sound_op_def by blast
  qed
qed

lemma sound_send_full: "sound_op D (send_full D key)"
proof (unfold sound_op_def, intro allI impI)
  fix st r st' assume run: "send_full D key st = Some (r, st')" and inv: "\<forall>l \<in> set (dr_loads st). load_sound D l"
  obtain db tbl where t: "(case split_db_table key of None \<Rightarrow> ([], []) | Some t \<Rightarrow> t) = (db, tbl)" by fastforce
  have s: "sound_op D (dthen (sendBatchForRun D (Some key) db tbl (batch_at st key)) (\<lambda>st1. commitPendingOffset D (set_batch key [] st1)))"
    by (intro sound_then sound_send [of _ key] sound_reset sound_simple) (use t in \<open>auto split: option.splits\<close>)
  show "\<forall>l \<in> set (dr_loads st'). load_sound D l"
  proof (cases "do_batch_size (dv_cfg D) \<le> int (length (batch_at st key))")
    case True
    then show ?thesis using run t s inv unfolding sound_op_def by (simp add: send_full_def Let_def)
  next
    case False
    then show ?thesis using run t inv by (simp add: send_full_def Let_def dok_def)
  qed
qed

lemma sound_flushAll: "sound_op D (flushAll D)"
proof -
  have "sound_op D (dthen (dall (flush_key D) ks) (commitPendingOffset D))" for ks
    by (intro sound_then sound_all sound_flush_key sound_simple)
  then show ?thesis unfolding sound_op_def flushAll_def by blast
qed

lemma sound_handleEvent: "sound_op D (handleEvent D ev)"
proof -
  obtain db tbl where t: "resolveTarget (dv_cfg D) (ev_schema ev) (ev_table ev) = (db, tbl)" by fastforce
  have snap: "sound_op D (snapshot_loads D ev)" unfolding snapshot_loads_def Let_def t prod.case
    by (intro sound_all sound_send) simp
  have row: "sound_op D (\<lambda>st. send_full D key (set_batch key (batch_at st key @ [ev]) st))" for key
    by (rule sound_reset [OF sound_send_full])
  note parts = sound_ack sound_then sound_flushAll sound_simple snap row
  show ?thesis unfolding handleEvent_def handleSnapshotBatch_def Let_def t prod.case
    by (auto intro!: parts)
qed

lemma sound_drain: "sound_op D (drainAfterCancel D is)"
  by (induction "is") (auto simp: sound_simple sound_flushAll sound_handleEvent intro!: sound_then split: doris_input.split)

lemma sound_run: "sound_op D (run_loop D is)"
proof (induction "is")
  case (Cons i "is")
  have "sound_op D (end_cancelled e (drainAfterCancel D is))" for e
    using sound_drain [of D "is"] unfolding sound_op_def end_cancelled_def dfail_def by (auto split: option.splits)
  then show ?case using Cons by (auto simp: sound_flushAll sound_handleEvent intro!: sound_then split: doris_input.split)
qed (simp add: sound_simple)

text \<open>A name that reads the same in lower case, without dots and blanks; a key of two such names is split into them.\<close>

definition plain_name :: "string \<Rightarrow> bool" where
  "plain_name s \<longleftrightarrow> s \<noteq> [] \<and> to_lower s = s \<and> (\<forall>c \<in> set s. c \<noteq> CHR ''.'' \<and> \<not> is_space c)"

lemma plain_key:
  assumes "plain_name db" "plain_name tbl"
  shows "split_db_table (target_key db tbl) = Some (db, tbl)"
proof -
  have trim: "trim_space s = s" if "\<forall>c \<in> set s. \<not> is_space c" for s
  proof -
    have "dropWhile is_space s = s" "dropWhile is_space (rev s) = rev s"
      using that by (auto simp: dropWhile_eq_self_iff hd_rev)
    then show ?thesis by (simp add: trim_space_def)
  qed
  have low: "to_lower (db @ ''.'' @ tbl) = db @ CHR ''.'' # tbl"
  proof -
    have "to_lower (db @ ''.'' @ tbl) = to_lower db @ ''.'' @ to_lower tbl" by (simp add: to_lower_def lower_char_def)
    then show ?thesis using assms by (simp add: plain_name_def)
  qed
  have t: "trim_space (db @ CHR ''.'' # tbl) = db @ CHR ''.'' # tbl" "trim_space db = db" "trim_space tbl = tbl"
  proof -
    have sp: "\<forall>c \<in> set db. \<not> is_space c" "\<forall>c \<in> set tbl. \<not> is_space c" "\<not> is_space CHR ''.''"
      using assms unfolding plain_name_def by (blast, blast, simp add: is_space_def)
    then have "\<forall>c \<in> set (db @ CHR ''.'' # tbl). \<not> is_space c" by auto
    then show "trim_space (db @ CHR ''.'' # tbl) = db @ CHR ''.'' # tbl" by (rule trim)
    show "trim_space db = db" "trim_space tbl = tbl" using sp trim by blast+
  qed
  have "Rebuild_Config.split_on CHR ''.'' (db @ CHR ''.'' # tbl) = [db, tbl]"
  proof -
    have "CHR ''.'' \<notin> set db" "CHR ''.'' \<notin> set tbl" using assms unfolding plain_name_def by blast+
    then show ?thesis by (simp add: split_on_front split_on_last)
  qed
  moreover have "db \<noteq> []" "tbl \<noteq> []" using assms unfolding plain_name_def by blast+
  ultimately show ?thesis unfolding split_db_table_def target_key_def low Let_def t by (simp add: t)
qed

text \<open>The row events among the inputs that the configuration sends to a table.\<close>

definition rows_to :: "doris_env \<Rightarrow> string \<Rightarrow> string \<Rightarrow> doris_input list \<Rightarrow> event list" where
  "rows_to D db tbl ins = concat (map (\<lambda>i. case i of
     DorisEvent ev \<Rightarrow> if row_event ev \<and> resolveTarget (dv_cfg D) (ev_schema ev) (ev_table ev) = (db, tbl) then [ev] else []
   | _ \<Rightarrow> []) ins)"

definition plain_targets :: "doris_env \<Rightarrow> doris_input list \<Rightarrow> bool" where
  "plain_targets D ins \<longleftrightarrow> (\<forall>ev. DorisEvent ev \<in> set ins \<and> row_event ev \<longrightarrow>
     (case resolveTarget (dv_cfg D) (ev_schema ev) (ev_table ev) of (db, tbl) \<Rightarrow> plain_name db \<and> plain_name tbl))"

lemma rows_by_key:
  assumes "plain_targets D ins" "plain_name db" "plain_name tbl"
  shows "rows_to D db tbl ins = events_of D (target_key db tbl) ins"
proof -
  have same: "resolveTarget (dv_cfg D) (ev_schema ev) (ev_table ev) = (db, tbl) \<longleftrightarrow> event_key D ev = target_key db tbl"
    if "DorisEvent ev \<in> set ins" "row_event ev" for ev
  proof -
    obtain d t where r: "resolveTarget (dv_cfg D) (ev_schema ev) (ev_table ev) = (d, t)" by fastforce
    have "plain_name d" "plain_name t" using assms(1) that r by (fastforce simp: plain_targets_def)+
    then have split: "split_db_table (target_key d t) = Some (d, t)" "split_db_table (target_key db tbl) = Some (db, tbl)"
      using plain_key assms(2,3) by blast+
    have key: "event_key D ev = target_key d t" by (simp add: event_key_def r)
    show ?thesis
    proof
      assume "event_key D ev = target_key db tbl"
      then have "Some (d, t) = Some (db, tbl)" using split key by (simp only:)
      then show "resolveTarget (dv_cfg D) (ev_schema ev) (ev_table ev) = (db, tbl)" using r by simp
    qed (use r key in simp)
  qed
  have "map (\<lambda>i. case i of
       DorisEvent ev \<Rightarrow> if row_event ev \<and> resolveTarget (dv_cfg D) (ev_schema ev) (ev_table ev) = (db, tbl) then [ev] else []
     | _ \<Rightarrow> []) ins =
    map (\<lambda>i. case i of DorisEvent ev \<Rightarrow> if row_event ev \<and> event_key D ev = target_key db tbl then [ev] else [] | _ \<Rightarrow> []) ins"
  proof (rule map_cong [OF refl])
    fix i assume i: "i \<in> set ins"
    show "(case i of
         DorisEvent ev \<Rightarrow> if row_event ev \<and> resolveTarget (dv_cfg D) (ev_schema ev) (ev_table ev) = (db, tbl) then [ev] else []
       | _ \<Rightarrow> []) =
      (case i of DorisEvent ev \<Rightarrow> if row_event ev \<and> event_key D ev = target_key db tbl then [ev] else [] | _ \<Rightarrow> [])"
    proof (cases "\<exists>ev. i = DorisEvent ev \<and> row_event ev")
      case True
      then obtain ev where ev: "i = DorisEvent ev" "row_event ev" by blast
      then show ?thesis using same [of ev] i by simp
    qed (auto split: doris_input.split)
  qed
  then show ?thesis unfolding rows_to_def events_of_def by (rule arg_cong [of _ _ concat])
qed

lemma rows_to_plain: "plain_targets D ins \<Longrightarrow> rows_to D db tbl ins \<noteq> [] \<Longrightarrow> plain_name db \<and> plain_name tbl"
proof -
  assume p: "plain_targets D ins" and "rows_to D db tbl ins \<noteq> []"
  then obtain i where i: "i \<in> set ins" "(case i of
     DorisEvent ev \<Rightarrow> if row_event ev \<and> resolveTarget (dv_cfg D) (ev_schema ev) (ev_table ev) = (db, tbl) then [ev] else []
   | _ \<Rightarrow> []) \<noteq> []" unfolding rows_to_def by (auto simp: concat_eq_Nil_conv simp del: not_None_eq)
  then obtain ev where "DorisEvent ev \<in> set ins" "row_event ev" "resolveTarget (dv_cfg D) (ev_schema ev) (ev_table ev) = (db, tbl)"
    by (cases i rule: doris_input.exhaust) (simp_all split: if_splits)
  then show ?thesis using p unfolding plain_targets_def by fastforce
qed

lemma subseq_filter_concat:
  "(\<And>x. x \<in> set xs \<Longrightarrow> P x \<Longrightarrow> Q x) \<Longrightarrow> subseq (concat (map f (filter P xs))) (concat (map f (filter Q xs)))"
  by (induction xs) (auto simp: subseq_append' intro: subseq_drop_many)

text \<open>
  C5: Over any run of the Doris sink from a fresh start, through failures, retries, DDL, snapshots and the drain after a
  cancelled context, the stored checkpoint is the one it found or the offset of a checkpoint event of the source, and then
  the row events the source sent before it have reached their tables: for every database and table, the events the
  configuration sends there occur, in their order, among the events of the loads that were put to the URL of that table.
  Every load carried what its events come to, and Doris confirmed it. The tables that row events are for are assumed to have
  lower-case names without dots and blanks; for other names the code loads elsewhere or not at all.
\<close>
theorem checkpoint_covers_loaded:
  assumes "run_loop D ins st0 = Some (r, st)" "dr_saved st \<noteq> dr_saved st0"
    "dr_batches st0 = []" "dr_loads st0 = []" "dr_offset st0 = None" "plain_targets D ins"
  shows "\<exists>before cp after. ins = before @ DorisEvent cp # after \<and> ev_type cp = EventTypeCheckpoint \<and> ev_offset cp = dr_saved st \<and>
    (\<forall>db tbl. subseq (rows_to D db tbl before)
       (concat (map dl_events (filter (\<lambda>l. dl_url l = do_http_host (dv_cfg D) @ ''/api/'' @ db @ ''/'' @ tbl @ ''/_stream_load'') (dr_loads st))))) \<and>
    (\<forall>l \<in> set (dr_loads st). \<exists>keys out n a. prepareBatch (dv_json D) keys (dl_events l) = Inr out \<and> carried D l out \<and>
       doris_confirmed (dv_load D n a) (length out))"
proof -
  have "loop_inv D st0 [] st0"
    using assms(3-5) by (simp add: loop_inv_def line_def loaded_def batch_at_def map_get_def events_of_def)
  from run_loop_inv [OF assms(1) this] obtain used where used: "prefix used ins" "loop_inv D st0 used st" by auto
  then obtain off before where s: "dr_saved st = Some off" "checkpoint_in used off before" "\<forall>key. prefix (events_of D key before) (loaded st key)"
    using assms(2) by (auto simp: loop_inv_def saved_behind_def)
  obtain rest where "ins = used @ rest" using used(1) by (auto simp: prefix_def)
  then have "checkpoint_in ins off before" using s(2) checkpoint_in_more by blast
  then obtain cp after where cp: "ins = before @ DorisEvent cp # after" "ev_type cp = EventTypeCheckpoint" "ev_offset cp = dr_saved st"
    using s(1) by (auto simp: checkpoint_in_def)
  have sound: "\<forall>l \<in> set (dr_loads st). load_sound D l" using sound_run [of D ins] assms(1,4) unfolding sound_op_def by fastforce
  have plain: "plain_targets D before" using assms(6) unfolding cp(1) by (auto simp: plain_targets_def)
  have "subseq (rows_to D db tbl before)
      (concat (map dl_events (filter (\<lambda>l. dl_url l = do_http_host (dv_cfg D) @ ''/api/'' @ db @ ''/'' @ tbl @ ''/_stream_load'') (dr_loads st))))" for db tbl
  proof (cases "rows_to D db tbl before = []")
    case False
    then have p: "plain_name db" "plain_name tbl" using rows_to_plain [OF plain] by blast+
    let ?key = "target_key db tbl"
    have "subseq (rows_to D db tbl before) (loaded st ?key)"
      using s(3) rows_by_key [OF plain p] by (simp add: prefix_imp_subseq)
    moreover have "subseq (loaded st ?key)
        (concat (map dl_events (filter (\<lambda>l. dl_url l = do_http_host (dv_cfg D) @ ''/api/'' @ db @ ''/'' @ tbl @ ''/_stream_load'') (dr_loads st))))"
      unfolding loaded_def
      by (rule subseq_filter_concat) (use sound plain_key [OF p] in \<open>auto simp: load_sound_def\<close>)
    ultimately show ?thesis by (rule subseq_order.trans)
  qed simp
  then show ?thesis using cp sound unfolding load_sound_def by blast
qed

text \<open>
  A table of one row and a checkpoint behind it. The first attempt is redirected and then fails, the second is
  told that the label exists and waits until it is finished.
\<close>

definition sample_config :: doris_config where
  "sample_config = \<lparr>do_http_host = ''http://fe:8030'', do_be_http_host = ''be'', do_be_http_port = 0, do_mysql_port = 9030, do_database = [],
     do_table = [], do_default_database = ''raw'', do_overrides = [], do_user = [], do_password = [], do_batch_size = 2, do_flush_seconds = 5\<rparr>"

definition sample_url :: url_parts where
  "sample_url = \<lparr>up_name = ''10.0.0.2'', up_port = ''9'', up_host = ''10.0.0.2:9'', up_text = (\<lambda>h. ''http://'' @ h @ ''/api/raw/orders/_stream_load'')\<rparr>"

definition sample_world :: "nat \<Rightarrow> load_world" where
  "sample_world a = \<lparr>lw_reply = (\<lambda>k.
       if a = 0 then (if k = 0 then HttpReply 307 (Some sample_url) None [] else HttpFails (new_error ''busy''))
       else HttpReply 200 None (Some \<lparr>lr_status = ''Label Already Exists'', lr_message = [], lr_total = 0, lr_loaded = 0,
         lr_filtered = 0, lr_unselected = 0\<rparr>) []),
     lw_polls = [PollFails ''lost'', PollRows [''Label'', ''state''] (Some [''gosync_7'', '' Finished ''])], lw_cancelled = None\<rparr>"

definition sample_env :: doris_env where
  "sample_env = \<lparr>dv_cfg = sample_config, dv_format = \<lparr>cf_float = (\<lambda>_. []), cf_time = (\<lambda>_. [])\<rparr>, dv_json = sample_json,
     dv_url = (\<lambda>s. Some (''be'', [])), dv_parse = Inl, dv_store = True, dv_attempts = 3, dv_base_backoff = 1, dv_max_backoff = 4, dv_load = (\<lambda>_. sample_world), dv_backoff = (\<lambda>_ _. None),
     dv_clock = (\<lambda>_. 7), dv_describe = (\<lambda>_. Inr ([''Field'', ''Type''], [[''id'', ''BIGINT''], [''note'', ''VARCHAR(3)'']])),
     dv_exec = (\<lambda>_ _ _. None), dv_polled = (\<lambda>_ _. []), dv_save = (\<lambda>_. None), dv_effect = (\<lambda>_. False), dv_confirm = (\<lambda>_. None)\<rparr>"

definition fresh_state :: doris_state where
  "fresh_state = \<lparr>dr_bindings = [], dr_primary = [(''raw.orders'', [''id''])], dr_strings = [], dr_lengths = [], dr_batches = [],
     dr_offset = None, dr_saved = None, dr_confirmed = 0, dr_acks = [], dr_loads = [], dr_statements = [], dr_calls = 0\<rparr>"

definition sample_inputs :: "doris_input list" where
  "sample_inputs =
     [DorisEvent (blank_event\<lparr>ev_type := EventTypeInsert, ev_schema := ''shop'', ev_table := ''orders'', ev_data := sample_order 1 ''a''\<rparr>),
      DorisEvent (blank_event\<lparr>ev_type := EventTypeCheckpoint, ev_offset := Some \<lparr>so_file = ''bin.1'', so_pos = 9\<rparr>\<rparr>), DorisClosed]"

declare retry_loop.simps [code]

lemma sample_load_run:
  "\<exists>st. run_loop sample_env sample_inputs fresh_state = Some (None, st) \<and> dr_saved st = Some \<lparr>so_file = ''bin.1'', so_pos = 9\<rparr> \<and>
     map dl_url (dr_loads st) = [''http://fe:8030/api/raw/orders/_stream_load'']"
proof -
  have "map_option (\<lambda>(r, st). (r, dr_saved st, map dl_url (dr_loads st))) (run_loop sample_env sample_inputs fresh_state) =
    Some (None, Some \<lparr>so_file = ''bin.1'', so_pos = 9\<rparr>, [''http://fe:8030/api/raw/orders/_stream_load''])"
    by code_simp
  then show ?thesis by auto
qed

theorem checkpoint_covers_loaded_witness:
  "\<exists>st before cp after. run_loop sample_env sample_inputs fresh_state = Some (None, st) \<and>
     sample_inputs = before @ DorisEvent cp # after \<and> ev_offset cp = dr_saved st \<and>
     subseq (rows_to sample_env ''raw'' ''orders'' before)
       (concat (map dl_events (filter (\<lambda>l. dl_url l = ''http://fe:8030/api/raw/orders/_stream_load'') (dr_loads st))))"
proof -
  obtain st where st: "run_loop sample_env sample_inputs fresh_state = Some (None, st)" "dr_saved st \<noteq> dr_saved fresh_state"
    using sample_load_run by (auto simp: fresh_state_def)
  have fresh: "dr_batches fresh_state = []" "dr_loads fresh_state = []" "dr_offset fresh_state = None" by (simp_all add: fresh_state_def)
  have target: "resolveTarget (dv_cfg sample_env) ''shop'' ''orders'' = (''raw'', ''orders'')" by code_simp
  have plain: "plain_name ''raw''" "plain_name ''orders''" by code_simp+
  have "plain_targets sample_env sample_inputs"
    unfolding plain_targets_def sample_inputs_def using target plain by (auto simp: row_event_def blank_event_def)
  from checkpoint_covers_loaded [OF st fresh this] obtain before cp after where
    "sample_inputs = before @ DorisEvent cp # after" "ev_offset cp = dr_saved st"
    "\<forall>db tbl. subseq (rows_to sample_env db tbl before) (concat (map dl_events
       (filter (\<lambda>l. dl_url l = do_http_host (dv_cfg sample_env) @ ''/api/'' @ db @ ''/'' @ tbl @ ''/_stream_load'') (dr_loads st))))"
    by blast
  moreover have "do_http_host (dv_cfg sample_env) @ ''/api/'' @ ''raw'' @ ''/'' @ ''orders'' @ ''/_stream_load'' =
      ''http://fe:8030/api/raw/orders/_stream_load''" by (simp add: sample_env_def sample_config_def)
  ultimately show ?thesis using st(1) by metis
qed

text \<open>The second call of the outside: the first described the table. Every other call would have failed.\<close>

theorem loaded_batch_confirmed_witness:
  "let D = sample_env\<lparr>dv_load := (\<lambda>n a. if n = 1 then sample_world a else \<lparr>lw_reply = (\<lambda>_. HttpFails (new_error ''busy'')), lw_polls = [], lw_cancelled = None\<rparr>)\<rparr> in
   \<exists>n a. n = 1 \<and> doris_confirmed (dv_load D n a) 1"
proof -
  let ?D = "sample_env\<lparr>dv_load := (\<lambda>n a. if n = 1 then sample_world a else \<lparr>lw_reply = (\<lambda>_. HttpFails (new_error ''busy'')), lw_polls = [], lw_cancelled = None\<rparr>)\<rparr>"
  let ?b = "[blank_event\<lparr>ev_type := EventTypeInsert, ev_data := sample_order 1 ''a''\<rparr>]"
  have "map_option (\<lambda>(r, st). (r, dr_calls st)) (sendBatch ?D None ''raw'' ''orders'' ?b ?b fresh_state) = Some (None, 2)" by code_simp
  then obtain st where st: "sendBatch ?D None ''raw'' ''orders'' ?b ?b fresh_state = Some (None, st)" "dr_calls st = 2" by auto
  from loaded_batch_confirmed [OF st(1)] st(2) show ?thesis by (auto simp: Let_def)
qed

section \<open>Keys that cannot be split\<close>

text \<open>
  The events of a key with a second dot stay where they are, and with them the checkpoint.
\<close>

lemma unsplit_key_kept:
  assumes "split_db_table key = None" "flush_key D k st = Some (r, st')"
  shows "batch_at st' key = batch_at st key"
proof (cases "batch_at st k = [] \<or> split_db_table k = None")
  case True
  then show ?thesis using assms(2) by (auto simp: flush_key_def dok_def split: if_splits)
next
  case False
  then obtain db tbl q st1 where s: "sendBatchForRun D (Some k) db tbl (batch_at st k) st = Some (q, st1)"
    "st' = st1 \<or> st' = set_batch k [] st1"
    using assms(2) by (auto simp: flush_key_def dthen_def dok_def split: option.splits)
  have "batch_at st1 key = batch_at st key" using sendBatchForRun_sent [OF s(1)] by (simp add: sent_def batch_at_def)
  then show ?thesis using s(2) False assms(1) by auto
qed

lemma unsplit_key_blocks:
  assumes key: "split_db_table key = None" "batch_at st key \<noteq> []" and f: "flushAll D st = Some (r, st')"
  shows "batch_at st' key = batch_at st key \<and> dr_saved st' = dr_saved st"
proof -
  have all: "batch_at s' key = batch_at s key \<and> dr_saved s' = dr_saved s" if "dall (flush_key D) ks s = Some (q, s')" for ks s q s'
    using that
  proof (induction ks arbitrary: s)
    case (Cons k ks)
    have saved: "dr_saved s2 = dr_saved s1" if "flush_key D k s1 = Some (q', s2)" for s1 s2 q'
      using that by (auto simp: flush_key_def dthen_def dok_def split: if_splits option.splits dest!: sendBatchForRun_sent simp: sent_def)
    from Cons show ?case
      by (auto simp: dthen_def split: option.splits dest: unsplit_key_kept [OF key(1)] saved)
  qed (simp add: dok_def)
  from f consider e where "dall (flush_key D) (map fst (dr_batches st)) st = Some (Some e, st')"
    | st1 where "dall (flush_key D) (map fst (dr_batches st)) st = Some (None, st1)" "commitPendingOffset D st1 = Some (r, st')"
    by (auto simp: flushAll_def dthen_def split: option.splits)
  then show ?thesis
  proof cases
    case 2
    then have "\<not> allBatchesEmpty st1" using all [OF 2(1)] key(2) empty_batches by metis
    then have "st' = st1" using 2(2) by (auto simp: commitPendingOffset_def dok_def split: option.splits)
    then show ?thesis using all [OF 2(1)] by simp
  qed (use all in blast)
qed

end
