(* ===== verification/Maintenance_Store.thy ===== *)
theory Maintenance_Store
  imports Job_Registry
begin

text \<open>
  The tables of Iceberg maintenance (\<open>pkg/meta/maintenance_store.go\<close>, \<open>maintenance_operation_claim.go\<close>): the state of
  each table, the queue of tasks with its leases, and the reservations that give a table to a streaming job
  (matching as in \<open>maintenance_ownership.go\<close>). A SQL transaction is one function; \<open>now\<close> is the caller's clock, \<open>dbnow\<close>
  the server's. A claim selects its tasks without a lock, so what it selected may be stale: it is an argument. Runs and
  results, which only report, are left out.

  \<open>Maintenance_Runs\<close> shows that a live lease of a table is left alone by every other worker, that a claimed task
  belongs to the owner of its table and respects its reservation, and that a table has one active task of an operation.
\<close>

section \<open>Tables\<close>

record inventory_counts =
  iv_data_files :: int
  iv_small_files :: int
  iv_small_bytes :: int
  iv_eq_deletes :: int
  iv_pos_deletes :: int
  iv_applicable_eq :: "int option"
  iv_applicable_pos :: "int option"
  iv_compactable_files :: int
  iv_compactable_bytes :: int
  iv_groups :: int
  iv_partitions :: "string list option"

record maint_state =
  ms_key :: string
  ms_catalog :: string
  ms_namespace :: string
  ms_table :: string
  ms_owner_type :: string
  ms_owner :: string
  ms_complete :: bool
  ms_last_snapshot :: int
  ms_inventory_snapshot :: int
  ms_last_inventory :: "int option"
  ms_next_inventory :: "int option"
  ms_inventory_priority :: int
  ms_inventory_owner :: "string option"
  ms_inventory_until :: "int option"
  ms_last_write :: "int option"
  ms_new_data :: int
  ms_new_eq :: int
  ms_inventory :: inventory_counts
  ms_next_compaction :: "int option"
  ms_next_expire :: "int option"
  ms_next_orphan :: "int option"
  ms_last_compaction :: "int option"
  ms_last_expire :: "int option"
  ms_last_orphan :: "int option"
  ms_lease_owner :: "string option"
  ms_lease_until :: "int option"
  ms_attempts :: int
  ms_error :: "string option"
  ms_created :: int

record maint_task =
  tk_id :: nat
  tk_idempotency :: string
  tk_table :: string
  tk_owner :: string
  tk_operation :: string
  tk_priority :: int
  tk_status :: string
  tk_lease_owner :: "string option"
  tk_lease_until :: "int option"
  tk_attempts :: int
  tk_not_before :: int
  tk_window :: string
  tk_payload :: string
  tk_error :: "string option"

record reservation =
  rv_id :: nat
  rv_key :: string
  rv_owner :: string
  rv_submission :: string
  rv_kind :: string
  rv_catalog :: string
  rv_namespace :: string
  rv_table :: string
  rv_active :: bool

record monitor_row =
  mo_id :: string
  mo_name :: string
  mo_status :: string
  mo_config :: string
  mo_excluded :: int
  mo_discovered :: "int option"
  mo_attempted :: "int option"
  mo_error :: "string option"

record monitor_target =
  mt_monitor :: string
  mt_key :: string
  mt_catalog :: string
  mt_namespace :: string
  mt_table :: string
  mt_specificity :: int
  mt_claim :: string
  mt_created :: int

record maint_db =
  md_states :: "maint_state list"
  md_tasks :: "maint_task list"
  md_reservations :: "reservation list"
  md_monitors :: "monitor_row list"
  md_targets :: "monitor_target list"
  md_serial :: nat

abbreviation "MaintenanceTaskQueued \<equiv> ''queued''"
abbreviation "MaintenanceTaskLeased \<equiv> ''leased''"
abbreviation "MaintenanceTaskRetry \<equiv> ''retry''"
abbreviation "MaintenanceTaskCancelled \<equiv> ''cancelled''"
abbreviation "MaintenanceMonitorActive \<equiv> ''ACTIVE''"
abbreviation "MaintenanceMonitorPaused \<equiv> ''PAUSED''"
abbreviation "MaintenanceReservationStreaming \<equiv> ''streaming''"
abbreviation "MaintenanceReservationSnapshot \<equiv> ''snapshot''"

text \<open>One hour, fifteen minutes; times are in microseconds.\<close>

abbreviation "MaintenanceInventoryMaxAge \<equiv> (3600000000::int)"
abbreviation "defaultMaintenanceLease \<equiv> (900000000::int)"

definition blank_inventory :: inventory_counts where
  "blank_inventory = \<lparr>iv_data_files = 0, iv_small_files = 0, iv_small_bytes = 0, iv_eq_deletes = 0, iv_pos_deletes = 0,
     iv_applicable_eq = None, iv_applicable_pos = None, iv_compactable_files = 0, iv_compactable_bytes = 0, iv_groups = 0,
     iv_partitions = None\<rparr>"

definition upd_states :: "(maint_state \<Rightarrow> bool) \<Rightarrow> (maint_state \<Rightarrow> maint_state) \<Rightarrow> maint_db \<Rightarrow> maint_db" where
  "upd_states P f db = db\<lparr>md_states := tbl_update P f (md_states db)\<rparr>"

definition upd_tasks :: "(maint_task \<Rightarrow> bool) \<Rightarrow> (maint_task \<Rightarrow> maint_task) \<Rightarrow> maint_db \<Rightarrow> maint_db" where
  "upd_tasks P f db = db\<lparr>md_tasks := tbl_update P f (md_tasks db)\<rparr>"

definition state_at :: "maint_db \<Rightarrow> string \<Rightarrow> maint_state option" where
  "state_at db key = tbl_find ms_key key (md_states db)"

lemma state_at_upd:
  assumes "\<And>s. P s \<Longrightarrow> ms_key (f s) = ms_key s"
  shows "state_at (upd_states P f db) key = map_option (\<lambda>s. if P s then f s else s) (state_at db key)"
  using tbl_find_update [of P ms_key f key "md_states db"] assms by (simp add: state_at_def upd_states_def)

text \<open>An owner \<open>monitor:<id>\<close> is active while its monitor is.\<close>

definition monitor_active :: "maint_db \<Rightarrow> string \<Rightarrow> bool" where
  "monitor_active db owner \<longleftrightarrow> (\<exists>m \<in> set (md_monitors db). mo_id m = drop 8 owner \<and> mo_status m = MaintenanceMonitorActive)"

definition waiting :: "maint_task \<Rightarrow> bool" where
  "waiting t \<longleftrightarrow> tk_status t = MaintenanceTaskQueued \<or> tk_status t = MaintenanceTaskRetry"

definition expired_before :: "int \<Rightarrow> int option \<Rightarrow> bool" where
  "expired_before now u \<longleftrightarrow> (case u of None \<Rightarrow> True | Some t \<Rightarrow> t < now)"

definition cancelled_task :: "maint_task \<Rightarrow> maint_task" where
  "cancelled_task t = t\<lparr>tk_status := MaintenanceTaskCancelled, tk_lease_owner := None, tk_lease_until := None\<rparr>"

section \<open>Patterns\<close>

text \<open>\<open>path.Match\<close>: a pattern that cannot be read matches nothing and is an error. A star crosses no slash.\<close>

datatype path_token = PStar | PAny | PClass bool "(char \<times> char) list" | PChar char

definition class_char :: "string \<Rightarrow> (char \<times> string) option" where
  "class_char s =
     (case s of
        [] \<Rightarrow> None
      | c # cs \<Rightarrow>
          if c = CHR ''-'' \<or> c = CHR '']'' then None
          else if c = CHR 0x5C then (case cs of [] \<Rightarrow> None | d # ds \<Rightarrow> if ds = [] then None else Some (d, ds))
          else if cs = [] then None else Some (c, cs))"

text \<open>The ranges up to the closing bracket; every round reads a character, so the length is fuel enough.\<close>

fun class_ranges :: "nat \<Rightarrow> (char \<times> char) list \<Rightarrow> string \<Rightarrow> ((char \<times> char) list \<times> string) option" where
  "class_ranges 0 acc s = None"
| "class_ranges (Suc fuel) acc s =
     (case s of
        CHR '']'' # rest \<Rightarrow> if acc \<noteq> [] then Some (acc, rest) else None
      | _ \<Rightarrow>
          (case class_char s of
             None \<Rightarrow> None
           | Some (lo, s1) \<Rightarrow>
               (case s1 of
                  CHR ''-'' # s2 \<Rightarrow>
                    (case class_char s2 of None \<Rightarrow> None | Some (hi, s3) \<Rightarrow> class_ranges fuel (acc @ [(lo, hi)]) s3)
                | _ \<Rightarrow> class_ranges fuel (acc @ [(lo, lo)]) s1)))"

fun path_tokens :: "nat \<Rightarrow> string \<Rightarrow> path_token list option" where
  "path_tokens fuel [] = Some []"
| "path_tokens 0 (c # cs) = None"
| "path_tokens (Suc fuel) (c # cs) =
     (if c = CHR ''*'' then map_option ((#) PStar) (path_tokens fuel cs)
      else if c = CHR ''?'' then map_option ((#) PAny) (path_tokens fuel cs)
      else if c = CHR ''[''
      then (let neg = (cs \<noteq> [] \<and> hd cs = CHR ''^'') in
            case class_ranges (Suc (length cs)) [] (if neg then tl cs else cs) of
              None \<Rightarrow> None
            | Some (rs, rest) \<Rightarrow> map_option ((#) (PClass neg rs)) (path_tokens fuel rest))
      else if c = CHR 0x5C
      then (case cs of [] \<Rightarrow> None | d # ds \<Rightarrow> map_option ((#) (PChar d)) (path_tokens fuel ds))
      else map_option ((#) (PChar c)) (path_tokens fuel cs))"

definition in_ranges :: "char \<Rightarrow> (char \<times> char) list \<Rightarrow> bool" where
  "in_ranges c rs \<longleftrightarrow> list_ex (\<lambda>(lo, hi). (of_char lo :: nat) \<le> of_char c \<and> (of_char c :: nat) \<le> of_char hi) rs"

fun tokens_match :: "path_token list \<Rightarrow> string \<Rightarrow> bool" where
  "tokens_match [] s \<longleftrightarrow> s = []"
| "tokens_match (PStar # ts) [] \<longleftrightarrow> tokens_match ts []"
| "tokens_match (PStar # ts) (c # cs) \<longleftrightarrow> tokens_match ts (c # cs) \<or> c \<noteq> CHR ''/'' \<and> tokens_match (PStar # ts) cs"
| "tokens_match (t # ts) [] \<longleftrightarrow> False"
| "tokens_match (PAny # ts) (c # cs) \<longleftrightarrow> c \<noteq> CHR ''/'' \<and> tokens_match ts cs"
| "tokens_match (PClass neg rs # ts) (c # cs) \<longleftrightarrow> in_ranges c rs \<noteq> neg \<and> tokens_match ts cs"
| "tokens_match (PChar d # ts) (c # cs) \<longleftrightarrow> c = d \<and> tokens_match ts cs"

definition path_match :: "string \<Rightarrow> string \<Rightarrow> bool option" where
  "path_match pattern name = map_option (\<lambda>ts. tokens_match ts name) (path_tokens (length pattern) pattern)"

section \<open>Reservations of a table\<close>

record selector =
  sl_catalog :: string
  sl_namespace :: string
  sl_table :: string

definition pattern_matches :: "string \<Rightarrow> string \<Rightarrow> bool" where
  "pattern_matches pattern name \<longleftrightarrow> path_match (to_lower pattern) (to_lower (trim_space name)) = Some True"

definition selector_matches :: "selector \<Rightarrow> maint_state \<Rightarrow> bool" where
  "selector_matches s st \<longleftrightarrow>
     equal_fold (trim_space (sl_catalog s)) (trim_space (ms_catalog st)) \<and>
     pattern_matches (sl_namespace s) (ms_namespace st) \<and> pattern_matches (sl_table s) (ms_table st)"

definition Matches :: "reservation \<Rightarrow> maint_state \<Rightarrow> bool" where
  "Matches r st \<longleftrightarrow>
     rv_active r \<and> selector_matches \<lparr>sl_catalog = rv_catalog r, sl_namespace = rv_namespace r, sl_table = rv_table r\<rparr> st"

definition preferredMaintenanceReservation :: "reservation option \<Rightarrow> reservation \<Rightarrow> reservation option" where
  "preferredMaintenanceReservation current candidate =
     (case current of
        None \<Rightarrow> Some candidate
      | Some c \<Rightarrow>
          if rv_owner c = [] then Some candidate
          else if rv_kind c \<noteq> MaintenanceReservationStreaming \<and> rv_kind candidate = MaintenanceReservationStreaming then Some candidate
          else Some c)"

definition matchingMaintenanceReservation :: "reservation list \<Rightarrow> maint_state \<Rightarrow> reservation option" where
  "matchingMaintenanceReservation rs st =
     fold (\<lambda>r w. if Matches r st then preferredMaintenanceReservation w r else w) rs None"

definition loadActiveMaintenanceReservations :: "maint_db \<Rightarrow> string \<Rightarrow> reservation list" where
  "loadActiveMaintenanceReservations db catalog =
     sort_key (\<lambda>r. (if rv_kind r = MaintenanceReservationStreaming then 0 else 1::nat, rv_id r))
       (filter (\<lambda>r. rv_catalog r = catalog \<and> rv_active r) (md_reservations db))"

definition winner_at :: "maint_db \<Rightarrow> maint_state \<Rightarrow> reservation option" where
  "winner_at db st = matchingMaintenanceReservation (loadActiveMaintenanceReservations db (ms_catalog st)) st"

text \<open>The owner of the winning reservation, empty without one.\<close>

definition winner_owner :: "reservation option \<Rightarrow> string" where
  "winner_owner w = (case w of None \<Rightarrow> [] | Some r \<Rightarrow> rv_owner r)"

section \<open>Leases of tasks\<close>

definition RecoverExpiredMaintenanceLeases :: "int \<Rightarrow> maint_db \<Rightarrow> maint_db" where
  "RecoverExpiredMaintenanceLeases now db =
     (let db1 = upd_tasks (\<lambda>t. tk_status t = MaintenanceTaskLeased \<and> (case tk_lease_until t of None \<Rightarrow> False | Some u \<Rightarrow> u < now))
            (\<lambda>t. t\<lparr>tk_status := MaintenanceTaskRetry, tk_lease_owner := None, tk_lease_until := None, tk_not_before := now\<rparr>) db;
          db2 = upd_tasks (\<lambda>t. waiting t \<and> (has_prefix ''deleted-monitor:'' (tk_owner t) \<or>
            has_prefix ''monitor:'' (tk_owner t) \<and> \<not> monitor_active db1 (tk_owner t))) cancelled_task db1 in
      upd_states (\<lambda>s. case ms_lease_until s of None \<Rightarrow> False | Some u \<Rightarrow> u < now)
        (\<lambda>s. s\<lparr>ms_lease_owner := None, ms_lease_until := None\<rparr>) db2)"

text \<open>What the unlocked query of a claim returns.\<close>

definition claimable_task :: "maint_db \<Rightarrow> int \<Rightarrow> string \<Rightarrow> maint_task \<Rightarrow> bool" where
  "claimable_task db now operation t \<longleftrightarrow>
     waiting t \<and> tk_not_before t \<le> now \<and> (operation = [] \<or> tk_operation t = operation) \<and>
     \<not> has_prefix ''deleted-monitor:'' (tk_owner t) \<and>
     (case state_at db (tk_table t) of
        None \<Rightarrow> False
      | Some s \<Rightarrow> expired_before now (ms_lease_until s) \<and> expired_before now (ms_inventory_until s)) \<and>
     (has_prefix ''monitor:'' (tk_owner t) \<longrightarrow> monitor_active db (tk_owner t))"

definition select_tasks :: "maint_db \<Rightarrow> int \<Rightarrow> string \<Rightarrow> int \<Rightarrow> maint_task list" where
  "select_tasks db now operation limit0 =
     (let limit = (if limit0 \<le> 0 \<or> 100 < limit0 then 1 else limit0) in
      take (nat limit) (sort_key (\<lambda>t. (tk_priority t, tk_not_before t, int (tk_id t))) (filter (claimable_task db now operation) (md_tasks db))))"

definition lease_table :: "string \<Rightarrow> int \<Rightarrow> string \<Rightarrow> int \<Rightarrow> maint_db \<Rightarrow> (nat \<times> maint_db)" where
  "lease_table worker now key til db =
     (let P = (\<lambda>s. ms_key s = key \<and> expired_before now (ms_lease_until s) \<and> expired_before now (ms_inventory_until s)) in
      (tbl_matched P (md_states db), upd_states P (\<lambda>s. s\<lparr>ms_lease_owner := Some worker, ms_lease_until := Some til\<rparr>) db))"

definition leased_task :: "string \<Rightarrow> int \<Rightarrow> maint_task \<Rightarrow> maint_task" where
  "leased_task worker til t =
     t\<lparr>tk_status := MaintenanceTaskLeased, tk_lease_owner := Some worker, tk_lease_until := Some til, tk_attempts := tk_attempts t + 1\<rparr>"

text \<open>The locked part of a claim for one selected task: an error ends the transaction, \<open>None\<close> passes the task over.\<close>

definition claim_task :: "string \<Rightarrow> int \<Rightarrow> int \<Rightarrow> maint_task \<Rightarrow> maint_db \<Rightarrow> string + (maint_task option \<times> maint_db)" where
  "claim_task worker now til sel db =
     (case tbl_find tk_id (tk_id sel) (md_tasks db) of
        None \<Rightarrow> Inl ''sql: no rows in result set''
      | Some cur \<Rightarrow>
          (case state_at db (tk_table cur) of
             None \<Rightarrow> Inl ''sql: no rows in result set''
           | Some st \<Rightarrow>
               if \<not> waiting cur then Inr (None, db)
               else let reserved = winner_owner (winner_at db st) in
                 if tk_owner cur \<noteq> tk_owner sel \<or> ms_owner st \<noteq> tk_owner sel \<or> reserved \<noteq> [] \<and> reserved \<noteq> tk_owner sel
                 then Inr (None, upd_tasks (\<lambda>t. tk_id t = tk_id sel) cancelled_task db)
                 else (case lease_table worker now (tk_table sel) til db of
                         (n, db1) \<Rightarrow>
                           if n \<noteq> 1 then Inl (''maintenance table '' @ tk_table sel @ '' was lost while claiming'')
                           else let P = (\<lambda>t. tk_id t = tk_id sel \<and> waiting t) in
                             if tbl_matched P (md_tasks db1) \<noteq> 1 then Inl (''maintenance task '' @ show_nat (tk_id sel) @ '' lost while claiming'')
                             else Inr (Some (leased_task worker til sel), upd_tasks P (leased_task worker til) db1))))"

fun claim_selected :: "string \<Rightarrow> int \<Rightarrow> int \<Rightarrow> maint_task list \<Rightarrow> maint_db \<Rightarrow> string + (maint_task list \<times> maint_db)" where
  "claim_selected worker now til [] db = Inr ([], db)"
| "claim_selected worker now til (t # ts) db =
     (case claim_task worker now til t db of
        Inl e \<Rightarrow> Inl e
      | Inr (c, db1) \<Rightarrow>
          (case claim_selected worker now til ts db1 of
             Inl e \<Rightarrow> Inl e
           | Inr (cs, db2) \<Rightarrow> Inr (case c of None \<Rightarrow> cs | Some t' \<Rightarrow> t' # cs, db2)))"

definition claimTasksOwnershipSafe ::
  "string \<Rightarrow> int \<Rightarrow> int \<Rightarrow> maint_task list \<Rightarrow> maint_db \<Rightarrow> (string + maint_task list) \<times> maint_db" where
  "claimTasksOwnershipSafe worker now lease0 selected db =
     (let lease = (if lease0 \<le> 0 then defaultMaintenanceLease else lease0) in
      case claim_selected worker now (now + lease) selected db of
        Inl e \<Rightarrow> (Inl e, db)
      | Inr (cs, db1) \<Rightarrow> (Inr cs, db1))"

text \<open>\<open>db0\<close> is the database the unlocked query read.\<close>

definition ClaimTasksForOperation ::
  "string \<Rightarrow> int \<Rightarrow> int \<Rightarrow> string \<Rightarrow> int \<Rightarrow> maint_db \<Rightarrow> maint_db \<Rightarrow> (string + maint_task list) \<times> maint_db" where
  "ClaimTasksForOperation worker now lease operation0 limit db0 db =
     (let operation = trim_space operation0 in
      if operation = [] then (Inl ''maintenance operation is required'', db)
      else claimTasksOwnershipSafe worker now lease (select_tasks db0 now operation limit) db)"

definition ClaimTasks :: "string \<Rightarrow> int \<Rightarrow> int \<Rightarrow> int \<Rightarrow> maint_db \<Rightarrow> (string + maint_task list) \<times> maint_db" where
  "ClaimTasks worker now lease limit db =
     (let db1 = RecoverExpiredMaintenanceLeases now db in
      claimTasksOwnershipSafe worker now lease (select_tasks db1 now [] limit) db1)"

definition held_task :: "nat \<Rightarrow> string \<Rightarrow> maint_task \<Rightarrow> bool" where
  "held_task i worker t \<longleftrightarrow> tk_id t = i \<and> tk_status t = MaintenanceTaskLeased \<and> tk_lease_owner t = Some worker"

definition lost_task :: "nat \<Rightarrow> string \<Rightarrow> string" where
  "lost_task i worker = ''maintenance task '' @ show_nat i @ '' lease is no longer owned by '' @ worker"

definition RenewTaskAndTableLease :: "nat \<Rightarrow> string \<Rightarrow> string \<Rightarrow> int \<Rightarrow> maint_db \<Rightarrow> string option \<times> maint_db" where
  "RenewTaskAndTableLease i key worker til db =
     (let P = (\<lambda>s. ms_key s = key \<and> ms_lease_owner s = Some worker) in
      if tbl_matched (held_task i worker) (md_tasks db) \<noteq> 1 then (Some (lost_task i worker), db)
      else if tbl_matched P (md_states db) \<noteq> 1 then (Some (''maintenance table '' @ key @ '' lease is no longer owned by '' @ worker), db)
      else (None, upd_states P (\<lambda>s. s\<lparr>ms_lease_until := Some til\<rparr>) (upd_tasks (held_task i worker) (\<lambda>t. t\<lparr>tk_lease_until := Some til\<rparr>) db)))"

definition ReleaseMaintenanceTableLease :: "string \<Rightarrow> string \<Rightarrow> maint_db \<Rightarrow> maint_db" where
  "ReleaseMaintenanceTableLease key worker =
     upd_states (\<lambda>s. ms_key s = key \<and> ms_lease_owner s = Some worker) (\<lambda>s. s\<lparr>ms_lease_owner := None, ms_lease_until := None\<rparr>)"

definition RenewLease :: "nat \<Rightarrow> string \<Rightarrow> int \<Rightarrow> maint_db \<Rightarrow> string option \<times> maint_db" where
  "RenewLease i worker til db =
     (if tbl_matched (held_task i worker) (md_tasks db) \<noteq> 1 then (Some (lost_task i worker), db)
      else (None, upd_tasks (held_task i worker) (\<lambda>t. t\<lparr>tk_lease_until := Some til\<rparr>) db))"

definition null_string :: "string \<Rightarrow> string option" where
  "null_string v = (if trim_space v = [] then None else Some v)"

definition FinishTask :: "nat \<Rightarrow> string \<Rightarrow> string \<Rightarrow> string \<Rightarrow> int option \<Rightarrow> maint_db \<Rightarrow> string option \<times> maint_db" where
  "FinishTask i worker status err retryAt db =
     (let ended = (\<lambda>t. t\<lparr>tk_status := status, tk_lease_owner := None, tk_lease_until := None, tk_error := null_string err\<rparr>) in
      if status = MaintenanceTaskRetry \<and> retryAt = None then (Some (''retry task '' @ show_nat i @ '' requires retry time''), db)
      else if tbl_matched (held_task i worker) (md_tasks db) \<noteq> 1 then (Some (lost_task i worker), db)
      else (None, upd_tasks (held_task i worker)
        (\<lambda>t. if status = MaintenanceTaskRetry then (ended t)\<lparr>tk_not_before := the retryAt\<rparr> else ended t) db))"

section \<open>Queueing\<close>

definition active_task :: "maint_task \<Rightarrow> bool" where
  "active_task t \<longleftrightarrow> waiting t \<or> tk_status t = MaintenanceTaskLeased"

text \<open>\<open>digest\<close> is the hexadecimal SHA-256; a key that is there already makes the insert a no-op.\<close>

definition EnqueueTask ::
  "(string \<Rightarrow> string) \<Rightarrow> maint_state \<Rightarrow> string \<Rightarrow> int \<Rightarrow> string \<Rightarrow> int \<Rightarrow> string \<Rightarrow> maint_db \<Rightarrow> bool \<times> maint_db" where
  "EnqueueTask digest state operation priority window notBefore payload db =
     (let key = digest (ms_key state @ ''|'' @ operation @ ''|'' @ window) in
      if (\<exists>s \<in> set (md_states db). ms_key s = ms_key state \<and> ms_owner s = ms_owner state \<and>
            (ms_owner_type s \<noteq> ''monitor'' \<or> monitor_active db (ms_owner s))) \<and>
         \<not> (\<exists>t \<in> set (md_tasks db). tk_table t = ms_key state \<and> tk_operation t = operation \<and> active_task t) \<and>
         \<not> (\<exists>t \<in> set (md_tasks db). tk_idempotency t = key)
      then (True, db\<lparr>md_tasks := md_tasks db @ [\<lparr>tk_id = md_serial db, tk_idempotency = key, tk_table = ms_key state,
              tk_owner = ms_owner state, tk_operation = operation, tk_priority = priority, tk_status = MaintenanceTaskQueued,
              tk_lease_owner = None, tk_lease_until = None, tk_attempts = 0, tk_not_before = notBefore, tk_window = window,
              tk_payload = payload, tk_error = None\<rparr>], md_serial := Suc (md_serial db)\<rparr>)
      else (False, db))"

end
