(* ===== verification/Maintenance_Inventory.thy ===== *)
theory Maintenance_Inventory
  imports Maintenance_Store
begin

text \<open>
  The state of a maintained table (\<open>pkg/meta/maintenance_store.go\<close>): the signals of new snapshots, the
  inventory with its lease and its refresh requests, and the schedules of the three operations. The SQL
  clock \<open>UTC_TIMESTAMP\<close> is \<open>dbnow\<close>; an update of one table touches the row of its key.

  The lemmas show that a snapshot signalled twice is counted once, that an inventory claim never enters a
  table under a live lease, and that a scan overtaken by a commit is scheduled again.
\<close>

section \<open>States and signals\<close>

definition at_table :: "string \<Rightarrow> (maint_state \<Rightarrow> maint_state) \<Rightarrow> maint_db \<Rightarrow> maint_db" where
  "at_table key = upd_states (\<lambda>s. ms_key s = key)"

definition firstNonEmptyMeta :: "string list \<Rightarrow> string" where
  "firstNonEmptyMeta vs = (case find (\<lambda>v. trim_space v \<noteq> []) vs of None \<Rightarrow> [] | Some v \<Rightarrow> trim_space v)"

definition coalesce :: "'a option \<Rightarrow> 'a option \<Rightarrow> 'a option" where
  "coalesce a b = (case a of None \<Rightarrow> b | Some _ \<Rightarrow> a)"

text \<open>A due time moves only forward to an earlier one.\<close>

definition earlier_due :: "int option \<Rightarrow> int \<Rightarrow> int option" where
  "earlier_due cur due = (case cur of None \<Rightarrow> Some due | Some t \<Rightarrow> if due < t then Some due else Some t)"

definition UpsertState :: "maint_state \<Rightarrow> int \<Rightarrow> int \<Rightarrow> int \<Rightarrow> int \<Rightarrow> maint_db \<Rightarrow> string option \<times> maint_db" where
  "UpsertState st initialCompaction initialExpire initialOrphan dbnow db =
     (if trim_space (ms_key st) = [] then (Some ''maintenance state table key is empty'', db)
      else
        (let new = \<lparr>ms_key = ms_key st, ms_catalog = ms_catalog st, ms_namespace = ms_namespace st, ms_table = ms_table st,
               ms_owner_type = firstNonEmptyMeta [ms_owner_type st, ''job''], ms_owner = ms_owner st,
               ms_complete = ms_complete st, ms_last_snapshot = ms_last_snapshot st, ms_inventory_snapshot = 0,
               ms_last_inventory = None, ms_next_inventory = ms_next_inventory st, ms_inventory_priority = 0,
               ms_inventory_owner = None, ms_inventory_until = None, ms_last_write = ms_last_write st,
               ms_new_data = 0, ms_new_eq = 0, ms_inventory = blank_inventory,
               ms_next_compaction = Some initialCompaction, ms_next_expire = Some initialExpire, ms_next_orphan = Some initialOrphan,
               ms_last_compaction = None, ms_last_expire = None, ms_last_orphan = None,
               ms_lease_owner = None, ms_lease_until = None, ms_attempts = 0, ms_error = None, ms_created = dbnow\<rparr>;
             upd = (\<lambda>r. r\<lparr>ms_catalog := ms_catalog new, ms_namespace := ms_namespace new, ms_table := ms_table new,
               ms_owner_type := ms_owner_type new, ms_owner := ms_owner new,
               ms_complete := (ms_complete r \<or> ms_complete new), ms_last_write := coalesce (ms_last_write r) (ms_last_write new),
               ms_next_inventory := (if ms_last_inventory r = None then coalesce (ms_next_inventory r) (ms_next_inventory new)
                                     else ms_next_inventory r),
               ms_next_compaction := coalesce (ms_next_compaction r) (ms_next_compaction new),
               ms_next_expire := coalesce (ms_next_expire r) (ms_next_expire new),
               ms_next_orphan := coalesce (ms_next_orphan r) (ms_next_orphan new)\<rparr>) in
         (None, db\<lparr>md_states := tbl_upsert ms_key upd new (md_states db)\<rparr>)))"

definition snapshotIDsDiffer :: "int \<Rightarrow> int \<Rightarrow> bool" where
  "snapshotIDsDiffer previous current \<longleftrightarrow> current \<noteq> 0 \<and> current \<noteq> previous"

text \<open>The largest \<open>int\<close>: a threshold that is not positive never triggers.\<close>

abbreviation "maxInt \<equiv> (9223372036854775807::int)"

definition signalled :: "bool \<Rightarrow> int \<Rightarrow> int \<Rightarrow> int \<Rightarrow> bool \<Rightarrow> int \<Rightarrow> int \<Rightarrow> int \<Rightarrow> maint_state \<Rightarrow> maint_state" where
  "signalled changed snapshotID addedData addedEq allDone threshold due dbnow r =
     (let done_now = (ms_complete r \<or> allDone); fresh = (changed \<and> done_now) in
      r\<lparr>ms_next_compaction := (if done_now \<and> threshold \<le> ms_new_eq r + addedEq then earlier_due (ms_next_compaction r) due
                               else ms_next_compaction r),
        ms_new_data := ms_new_data r + addedData,
        ms_new_eq := ms_new_eq r + addedEq,
        ms_last_write := (if changed then Some dbnow else ms_last_write r),
        ms_next_inventory := (if fresh then Some dbnow else ms_next_inventory r),
        ms_inventory_priority := (if fresh then max (ms_inventory_priority r) 50 else ms_inventory_priority r),
        ms_complete := done_now,
        ms_last_snapshot := (if changed then snapshotID else ms_last_snapshot r)\<rparr>)"

definition CoalesceSignal :: "string \<Rightarrow> int \<Rightarrow> int \<Rightarrow> int \<Rightarrow> bool \<Rightarrow> int \<Rightarrow> int \<Rightarrow> int \<Rightarrow> maint_db \<Rightarrow> bool \<times> maint_db" where
  "CoalesceSignal key snapshotID newData newEq allDone threshold0 nextCompaction dbnow db =
     (case state_at db key of
        None \<Rightarrow> (False, db)
      | Some s \<Rightarrow>
          (let changed = snapshotIDsDiffer (ms_last_snapshot s) snapshotID;
               threshold = (if threshold0 \<le> 0 then maxInt else threshold0) in
           (True, at_table key (signalled changed snapshotID (if changed then max newData 0 else 0) (if changed then max newEq 0 else 0)
              allDone threshold nextCompaction dbnow) db)))"

definition SetSnapshotCompleteForOwner :: "string \<Rightarrow> bool \<Rightarrow> int \<Rightarrow> int \<Rightarrow> maint_db \<Rightarrow> maint_db" where
  "SetSnapshotCompleteForOwner owner allDone threshold nextCompaction =
     upd_states (\<lambda>s. ms_owner s = owner)
       (\<lambda>s. s\<lparr>ms_complete := allDone,
              ms_next_compaction := (if allDone \<and> threshold \<le> ms_new_eq s then earlier_due (ms_next_compaction s) nextCompaction
                                     else ms_next_compaction s)\<rparr>)"

section \<open>Schedules\<close>

abbreviation "MaintenanceOperationCompact \<equiv> ''compact''"
abbreviation "MaintenanceOperationExpire \<equiv> ''expire_snapshots''"
abbreviation "MaintenanceOperationOrphan \<equiv> ''remove_orphan_files''"

text \<open>The column of an operation: how to read it and how to write it.\<close>

definition dueColumn :: "string \<Rightarrow> string + ((maint_state \<Rightarrow> int option) \<times> (int option \<Rightarrow> maint_state \<Rightarrow> maint_state))" where
  "dueColumn operation =
     (if operation = MaintenanceOperationCompact then Inr (ms_next_compaction, \<lambda>v s. s\<lparr>ms_next_compaction := v\<rparr>)
      else if operation = MaintenanceOperationExpire then Inr (ms_next_expire, \<lambda>v s. s\<lparr>ms_next_expire := v\<rparr>)
      else if operation = MaintenanceOperationOrphan then Inr (ms_next_orphan, \<lambda>v s. s\<lparr>ms_next_orphan := v\<rparr>)
      else Inl (''unsupported maintenance operation '' @ operation))"

definition monitor_ready :: "maint_db \<Rightarrow> maint_state \<Rightarrow> bool" where
  "monitor_ready db s \<longleftrightarrow> ms_owner_type s \<noteq> ''monitor'' \<or> monitor_active db (ms_owner s)"

definition DueStates :: "string \<Rightarrow> int \<Rightarrow> int \<Rightarrow> maint_db \<Rightarrow> string + maint_state list" where
  "DueStates operation now limit0 db =
     (let limit = (if limit0 \<le> 0 \<or> 500 < limit0 then 100 else limit0) in
      case dueColumn operation of
        Inl e \<Rightarrow> Inl e
      | Inr (due, _) \<Rightarrow>
          Inr (take (nat limit) (sort_key (\<lambda>s. (the (due s), ms_key s))
            (filter (\<lambda>s. ms_complete s \<and> (case due s of None \<Rightarrow> False | Some t \<Rightarrow> t \<le> now) \<and> monitor_ready db s) (md_states db)))))"

definition AdvanceSchedule :: "string \<Rightarrow> string \<Rightarrow> int \<Rightarrow> maint_db \<Rightarrow> string option \<times> maint_db" where
  "AdvanceSchedule key operation due db =
     (case dueColumn operation of
        Inl e \<Rightarrow> (Some e, db)
      | Inr (_, set_due) \<Rightarrow> (None, at_table key (set_due (Some due)) db))"

definition RecordTableWrite :: "string \<Rightarrow> int option \<Rightarrow> int \<Rightarrow> maint_db \<Rightarrow> maint_db" where
  "RecordTableWrite key written dbnow db =
     (case written of
        None \<Rightarrow> db
      | Some ts \<Rightarrow>
          upd_states (\<lambda>s. ms_key s = key \<and> (case ms_last_write s of None \<Rightarrow> True | Some w \<Rightarrow> w < ts) \<and> ts \<le> dbnow)
            (\<lambda>s. s\<lparr>ms_last_write := Some ts\<rparr>) db)"

definition ClampOrphanSchedules :: "string \<Rightarrow> int \<Rightarrow> int \<Rightarrow> int \<Rightarrow> int \<Rightarrow> maint_db \<Rightarrow> maint_db" where
  "ClampOrphanSchedules owner now activeSince activeDeadline idleDeadline db =
     upd_states (\<lambda>s. ms_owner s = owner \<and> ms_complete s \<and> ms_owner_type s \<in> {''job'', ''monitor''} \<and> monitor_ready db s)
       (\<lambda>s. s\<lparr>ms_next_orphan := Some (min (case ms_next_orphan s of None \<Rightarrow> idleDeadline | Some t \<Rightarrow> t)
          (case ms_last_write s of
             None \<Rightarrow> idleDeadline
           | Some w \<Rightarrow> if activeSince < w \<and> w \<le> now then activeDeadline else idleDeadline))\<rparr>) db"

definition ScheduleCompactionCheck :: "string \<Rightarrow> int \<Rightarrow> int \<Rightarrow> maint_db \<Rightarrow> maint_db" where
  "ScheduleCompactionCheck key due priority0 db =
     (let priority = (if priority0 \<le> 0 then 10 else priority0);
          db1 = upd_tasks (\<lambda>t. tk_table t = key \<and> tk_operation t = MaintenanceOperationCompact \<and> waiting t)
            (\<lambda>t. t\<lparr>tk_priority := min (tk_priority t) priority\<rparr>) db in
      upd_states (\<lambda>s. ms_key s = key \<and>
          \<not> (\<exists>t \<in> set (md_tasks db1). tk_table t = key \<and> tk_operation t = MaintenanceOperationCompact \<and> active_task t))
        (\<lambda>s. s\<lparr>ms_next_compaction := (if ms_complete s then earlier_due (ms_next_compaction s) due else ms_next_compaction s)\<rparr>) db1)"

definition RecordStateSuccess :: "string \<Rightarrow> string \<Rightarrow> int \<Rightarrow> bool \<Rightarrow> maint_db \<Rightarrow> string option \<times> maint_db" where
  "RecordStateSuccess key operation ts resetCounters db =
     (if operation = MaintenanceOperationCompact
      then (None, at_table key (\<lambda>s. (if resetCounters then s\<lparr>ms_new_data := 0, ms_new_eq := 0\<rparr> else s)
             \<lparr>ms_last_compaction := Some ts, ms_attempts := 0, ms_error := None\<rparr>) db)
      else if operation = MaintenanceOperationExpire
      then (None, at_table key (\<lambda>s. s\<lparr>ms_last_expire := Some ts, ms_attempts := 0, ms_error := None\<rparr>) db)
      else if operation = MaintenanceOperationOrphan
      then (None, at_table key (\<lambda>s. s\<lparr>ms_last_orphan := Some ts, ms_attempts := 0, ms_error := None\<rparr>) db)
      else (Some (''unsupported maintenance operation '' @ operation), db))"

definition RecordStateError :: "string \<Rightarrow> string \<Rightarrow> maint_db \<Rightarrow> maint_db" where
  "RecordStateError key message = at_table key (\<lambda>s. s\<lparr>ms_attempts := ms_attempts s + 1, ms_error := null_string message\<rparr>)"

section \<open>Inventory\<close>

definition inventory_due :: "int \<Rightarrow> int \<Rightarrow> bool \<Rightarrow> maint_db \<Rightarrow> maint_state \<Rightarrow> bool" where
  "inventory_due now minimumPriority requireIdle db s \<longleftrightarrow>
     ms_complete s \<and>
     (case ms_next_inventory s of
        Some t \<Rightarrow> t \<le> now
      | None \<Rightarrow> minimumPriority = 0 \<and> ms_owner_type s \<in> {''job'', ''monitor''} \<and>
                expired_before (now - MaintenanceInventoryMaxAge) (ms_last_inventory s)) \<and>
     minimumPriority \<le> ms_inventory_priority s \<and>
     expired_before now (ms_inventory_until s) \<and>
     (requireIdle \<longrightarrow> expired_before now (ms_lease_until s)) \<and> monitor_ready db s"

definition inventory_rank :: "maint_state \<Rightarrow> int \<times> nat \<times> int \<times> string" where
  "inventory_rank s =
     (- ms_inventory_priority s, if (case ms_error s of None \<Rightarrow> False | Some e \<Rightarrow> e \<noteq> []) then 0 else 1,
      case coalesce (ms_next_inventory s) (ms_last_inventory s) of None \<Rightarrow> ms_created s | Some t \<Rightarrow> t, ms_key s)"

text \<open>\<open>locked\<close> tells which rows another transaction holds: they are skipped.\<close>

definition claimPendingInventoryState ::
  "string \<Rightarrow> int \<Rightarrow> int \<Rightarrow> int \<Rightarrow> bool \<Rightarrow> (string \<Rightarrow> bool) \<Rightarrow> maint_db \<Rightarrow> (string + maint_state option) \<times> maint_db" where
  "claimPendingInventoryState worker now lease0 minimum0 requireIdle locked db =
     (let lease = (if lease0 \<le> 0 then defaultMaintenanceLease else lease0);
          minimum = max minimum0 0 in
      case sort_key inventory_rank (filter (\<lambda>s. inventory_due now minimum requireIdle db s \<and> \<not> locked (ms_key s)) (md_states db)) of
        [] \<Rightarrow> (Inr None, db)
      | s # _ \<Rightarrow>
          (let til = now + lease;
               P = (\<lambda>r. ms_key r = ms_key s \<and> (case ms_next_inventory r of None \<Rightarrow> True | Some t \<Rightarrow> t \<le> now) \<and>
                 expired_before now (ms_inventory_until r) \<and> (requireIdle \<longrightarrow> expired_before now (ms_lease_until r))) in
           if tbl_matched P (md_states db) \<noteq> 1 then (Inl (''inventory state '' @ ms_key s @ '' was lost while claiming''), db)
           else (Inr (Some s),
             upd_states P (\<lambda>r. r\<lparr>ms_inventory_owner := Some worker, ms_inventory_until := Some til, ms_next_inventory := Some til\<rparr>) db)))"

definition ClaimPendingInventoryState ::
  "string \<Rightarrow> int \<Rightarrow> int \<Rightarrow> int \<Rightarrow> (string \<Rightarrow> bool) \<Rightarrow> maint_db \<Rightarrow> (string + maint_state option) \<times> maint_db" where
  "ClaimPendingInventoryState worker now lease minimum = claimPendingInventoryState worker now lease minimum False"

definition ClaimPendingInventoryStateForMaintenance ::
  "string \<Rightarrow> int \<Rightarrow> int \<Rightarrow> int \<Rightarrow> (string \<Rightarrow> bool) \<Rightarrow> maint_db \<Rightarrow> (string + maint_state option) \<times> maint_db" where
  "ClaimPendingInventoryStateForMaintenance worker now lease minimum = claimPendingInventoryState worker now lease minimum True"

definition lost_inventory :: "string \<Rightarrow> string \<Rightarrow> string" where
  "lost_inventory key worker = ''inventory state '' @ key @ '' lease is no longer owned by '' @ worker"

definition inventory_holder :: "string \<Rightarrow> string \<Rightarrow> maint_state \<Rightarrow> bool" where
  "inventory_holder key worker s \<longleftrightarrow> ms_key s = key \<and> ms_inventory_owner s = Some worker"

definition FinishInventoryClaim :: "string \<Rightarrow> string \<Rightarrow> int \<Rightarrow> int \<Rightarrow> maint_db \<Rightarrow> string option \<times> maint_db" where
  "FinishInventoryClaim key worker claimedId dbnow db =
     (if tbl_matched (inventory_holder key worker) (md_states db) \<noteq> 1 then (Some (lost_inventory key worker), db)
      else (None, upd_states (inventory_holder key worker)
        (\<lambda>s. s\<lparr>ms_inventory_owner := None, ms_inventory_until := None,
               ms_next_inventory := (if ms_last_snapshot s \<noteq> claimedId then Some dbnow else None),
               ms_inventory_priority := (if ms_last_snapshot s \<noteq> claimedId then max (ms_inventory_priority s) 50 else 0)\<rparr>) db))"

definition RetryInventoryClaim :: "string \<Rightarrow> string \<Rightarrow> int \<Rightarrow> maint_db \<Rightarrow> string option \<times> maint_db" where
  "RetryInventoryClaim key worker retryAt db =
     (if tbl_matched (inventory_holder key worker) (md_states db) \<noteq> 1 then (Some (lost_inventory key worker), db)
      else (None, upd_states (inventory_holder key worker)
        (\<lambda>s. s\<lparr>ms_inventory_owner := None, ms_inventory_until := None, ms_next_inventory := Some retryAt\<rparr>) db))"

definition request_refresh :: "int \<Rightarrow> maint_state \<Rightarrow> maint_state" where
  "request_refresh now s = s\<lparr>ms_next_inventory := Some now, ms_inventory_priority := 100\<rparr>"

definition RequestInventoryRefresh :: "string \<Rightarrow> int \<Rightarrow> bool \<Rightarrow> maint_db \<Rightarrow> (string + nat) \<times> maint_db" where
  "RequestInventoryRefresh owner0 now force db =
     (let owner = trim_space owner0;
          P = (\<lambda>s. ms_owner s = owner \<and> ms_complete s \<and> expired_before now (ms_inventory_until s) \<and>
            (force \<or> expired_before (now - MaintenanceInventoryMaxAge) (ms_last_inventory s) \<or>
             (case (ms_last_write s, ms_last_inventory s) of (Some w, Some i) \<Rightarrow> i < w | _ \<Rightarrow> False))) in
      if owner = [] then (Inl ''maintenance inventory owner job id is required'', db)
      else (Inr (tbl_matched P (md_states db)), upd_states P (request_refresh now) db))"

definition RequestTableInventoryRefresh :: "string \<Rightarrow> string \<Rightarrow> int \<Rightarrow> maint_db \<Rightarrow> (string + nat) \<times> maint_db" where
  "RequestTableInventoryRefresh key0 owner0 now db =
     (let key = trim_space key0; owner = trim_space owner0;
          P = (\<lambda>s. ms_key s = key \<and> ms_owner s = owner \<and> ms_complete s \<and> expired_before now (ms_inventory_until s)) in
      if key = [] \<or> owner = [] then (Inl ''maintenance inventory table key and owner id are required'', db)
      else (Inr (tbl_matched P (md_states db)), upd_states P (request_refresh now) db))"

definition UpdateInventory :: "string \<Rightarrow> int \<Rightarrow> inventory_counts \<Rightarrow> int \<Rightarrow> maint_db \<Rightarrow> maint_db" where
  "UpdateInventory key snapshotID counts dbnow =
     at_table key (\<lambda>s. s\<lparr>ms_inventory_snapshot := snapshotID, ms_last_inventory := Some dbnow, ms_inventory := counts, ms_error := None\<rparr>)"

definition MarkInventoryMissing :: "string \<Rightarrow> int \<Rightarrow> maint_db \<Rightarrow> maint_db" where
  "MarkInventoryMissing key dbnow =
     at_table key (\<lambda>s. s\<lparr>ms_inventory_snapshot := 0, ms_last_inventory := Some dbnow,
       ms_inventory := blank_inventory\<lparr>iv_applicable_eq := Some 0, iv_applicable_pos := Some 0\<rparr>, ms_error := None\<rparr>)"

section \<open>What is kept\<close>

lemma signalled_key [simp]: "ms_key (signalled a b c d e f g h s) = ms_key s"
  by (simp add: signalled_def Let_def)

lemma state_at_key: "state_at db key = Some s \<Longrightarrow> ms_key s = key"
  unfolding state_at_def by (drule tbl_find_Some_key) simp

text \<open>A snapshot signalled again, in whatever terms, is not counted again.\<close>

lemma repeated_signal_not_counted:
  assumes "snapshotID \<noteq> 0"
    and "state_at (snd (CoalesceSignal key snapshotID nd ne d th due t db)) key = Some s"
    and "state_at (snd (CoalesceSignal key snapshotID nd' ne' d' th' due' t' (snd (CoalesceSignal key snapshotID nd ne d th due t db)))) key = Some s'"
  shows "ms_new_data s' = ms_new_data s \<and> ms_new_eq s' = ms_new_eq s \<and> ms_last_snapshot s = snapshotID"
proof -
  have signal: "state_at (snd (CoalesceSignal key snapshotID nd ne d th due t db)) key =
      map_option (\<lambda>s. let c = snapshotIDsDiffer (ms_last_snapshot s) snapshotID in
        signalled c snapshotID (if c then max nd 0 else 0) (if c then max ne 0 else 0) d (if th \<le> 0 then maxInt else th) due t s)
        (state_at db key)" for nd ne d th due t db
    by (auto simp: CoalesceSignal_def at_table_def state_at_upd Let_def dest: state_at_key split: option.splits)
  have "ms_last_snapshot s = snapshotID"
    using assms(1,2) unfolding signal by (auto simp: Let_def signalled_def snapshotIDsDiffer_def split: if_splits)
  moreover have "s' = signalled False snapshotID 0 0 d' (if th' \<le> 0 then maxInt else th') due' t' s"
    using assms(3) calculation unfolding signal [of nd' ne' d' th' due' t'] assms(2)
    by (simp add: Let_def snapshotIDsDiffer_def)
  ultimately show ?thesis by (simp add: signalled_def Let_def)
qed

text \<open>The inventory a maintenance worker claims is of a table nobody works on or scans.\<close>

lemma inventory_claim_idle:
  assumes "claimPendingInventoryState worker now lease minimum True locked db = (Inr (Some s), db')"
  shows "expired_before now (ms_lease_until s) \<and> expired_before now (ms_inventory_until s) \<and> ms_complete s \<and> \<not> locked (ms_key s)"
proof -
  obtain rest where "sort_key inventory_rank (filter (\<lambda>s. inventory_due now (max minimum 0) True db s \<and> \<not> locked (ms_key s)) (md_states db)) = s # rest"
    using assms by (auto simp: claimPendingInventoryState_def Let_def split: list.splits if_splits)
  then have "s \<in> set (sort_key inventory_rank (filter (\<lambda>s. inventory_due now (max minimum 0) True db s \<and> \<not> locked (ms_key s)) (md_states db)))"
    by simp
  then show ?thesis by (simp add: inventory_due_def)
qed

text \<open>A scan that a commit overtook is scheduled again at once, ahead of the background sweep.\<close>

lemma overtaken_scan_rescheduled:
  assumes "FinishInventoryClaim key worker snapshotID dbnow db = (None, db')" and "state_at db key = Some s"
    and "inventory_holder key worker s" and "ms_last_snapshot s \<noteq> snapshotID"
  shows "\<exists>s'. state_at db' key = Some s' \<and> ms_next_inventory s' = Some dbnow \<and> 50 \<le> ms_inventory_priority s' \<and> ms_inventory_until s' = None"
  using assms by (auto simp: FinishInventoryClaim_def state_at_upd split: if_splits)

end
