(* ===== verification/Maintenance_Ownership.thy ===== *)
theory Maintenance_Ownership
  imports Maintenance_Inventory
begin

text \<open>
  Who maintains a table (\<open>pkg/meta/maintenance_ownership.go\<close>): a running job reserves the tables it writes, which takes them
  from the monitors, and a reservation whose job ended is released to the next one that matches. The catalog guards that
  serialise these transactions make each of them one function; the retry of a dead-locked transaction runs it again. \<open>reg\<close> is
  the job registry, read in the same transaction; \<open>digest\<close> the hexadecimal SHA-256. \<open>Maintenance_Runs\<close> shows what a
  reservation takes over.
\<close>

section \<open>Selectors\<close>

datatype ownership_error =
    InvalidReservation string
  | OwnershipStale string "string option"
  | OwnershipBusy string int

definition Validate_selector :: "selector \<Rightarrow> string option" where
  "Validate_selector s =
     (let catalog = trim_space (sl_catalog s); ns = trim_space (sl_namespace s); tb = trim_space (sl_table s) in
      if catalog = [] then Some ''reservation catalog is required''
      else if list_ex (\<lambda>c. c \<in> set ''*?['') catalog then Some ''reservation catalog must be an exact physical catalog''
      else if ns = [] then Some ''reservation namespace pattern is required''
      else if tb = [] then Some ''reservation table pattern is required''
      else if path_match ns ns = None then Some (''invalid namespace pattern '' @ ns)
      else if path_match tb tb = None then Some (''invalid table pattern '' @ tb)
      else None)"

definition normal_selector :: "selector \<Rightarrow> selector" where
  "normal_selector s =
     \<lparr>sl_catalog = trim_space (sl_catalog s), sl_namespace = to_lower (trim_space (sl_namespace s)),
      sl_table = to_lower (trim_space (sl_table s))\<rparr>"

definition selector_key :: "selector \<Rightarrow> string \<times> string \<times> string" where
  "selector_key s = (to_lower (sl_catalog s), sl_namespace s, sl_table s)"

fun collect_selectors :: "((string \<times> string \<times> string) \<times> selector) list \<Rightarrow> selector list \<Rightarrow>
    string + ((string \<times> string \<times> string) \<times> selector) list" where
  "collect_selectors seen [] = Inr seen"
| "collect_selectors seen (s # ss) =
     (let n = normal_selector s in
      case Validate_selector n of
        Some e \<Rightarrow> Inl e
      | None \<Rightarrow> collect_selectors (map_put (selector_key n) n seen) ss)"

definition normalizeMaintenanceReservationSelectors :: "selector list \<Rightarrow> string + selector list" where
  "normalizeMaintenanceReservationSelectors ss =
     (case collect_selectors [] ss of Inl e \<Rightarrow> Inl e | Inr seen \<Rightarrow> Inr (map snd (sort_key fst seen)))"

definition maintenanceReservationKey :: "(string \<Rightarrow> string) \<Rightarrow> string \<Rightarrow> string \<Rightarrow> selector \<Rightarrow> string" where
  "maintenanceReservationKey digest owner submission s =
     digest (trim_space owner @ [CHR 0x00] @ trim_space submission @ [CHR 0x00] @ to_lower (trim_space (sl_catalog s)) @
       [CHR 0x00] @ to_lower (trim_space (sl_namespace s)) @ [CHR 0x00] @ to_lower (trim_space (sl_table s)))"

definition maintenanceStateMatchesSelectors :: "maint_state \<Rightarrow> selector list \<Rightarrow> bool" where
  "maintenanceStateMatchesSelectors st ss \<longleftrightarrow> list_ex (\<lambda>s. selector_matches s st) ss"

section \<open>Reserving\<close>

text \<open>Owners that give a table up to a job.\<close>

definition yields_to_job :: "string \<Rightarrow> bool" where
  "yields_to_job owner \<longleftrightarrow> has_prefix ''monitor:'' owner \<or> owner = ''stream-excluded'' \<or> owner = ''unmanaged''"

definition leased_after :: "int \<Rightarrow> maint_state \<Rightarrow> bool" where
  "leased_after now st \<longleftrightarrow> (case ms_lease_until st of None \<Rightarrow> False | Some u \<Rightarrow> now < u)"

definition cancelMaintenanceTasksForTables :: "string list \<Rightarrow> maint_db \<Rightarrow> maint_db" where
  "cancelMaintenanceTasksForTables keys = upd_tasks (\<lambda>t. waiting t \<and> tk_table t \<in> set keys) cancelled_task"

definition unscheduled :: "maint_state \<Rightarrow> maint_state" where
  "unscheduled s = s\<lparr>ms_next_inventory := None, ms_next_compaction := None, ms_next_expire := None, ms_next_orphan := None\<rparr>"

definition upd_reservations :: "(reservation \<Rightarrow> bool) \<Rightarrow> (reservation \<Rightarrow> reservation) \<Rightarrow> maint_db \<Rightarrow> maint_db" where
  "upd_reservations P f db = db\<lparr>md_reservations := tbl_update P f (md_reservations db)\<rparr>"

definition put_reservation :: "(string \<Rightarrow> string) \<Rightarrow> string \<Rightarrow> string \<Rightarrow> string \<Rightarrow> selector \<Rightarrow> maint_db \<Rightarrow> maint_db" where
  "put_reservation digest owner submission kind s db =
     db\<lparr>md_reservations := tbl_upsert rv_key (\<lambda>r. r\<lparr>rv_kind := kind, rv_active := True\<rparr>)
          \<lparr>rv_id = md_serial db, rv_key = maintenanceReservationKey digest owner submission s, rv_owner = owner,
           rv_submission = submission, rv_kind = kind, rv_catalog = sl_catalog s, rv_namespace = sl_namespace s,
           rv_table = sl_table s, rv_active = True\<rparr> (md_reservations db),
        md_serial := Suc (md_serial db)\<rparr>"

definition active_catalogs :: "string \<Rightarrow> maint_db \<Rightarrow> string list" where
  "active_catalogs owner db = remdups (map rv_catalog (filter (\<lambda>r. rv_owner r = owner \<and> rv_active r) (md_reservations db)))"

text \<open>The first table another owner holds a lease on, in the order of the selectors.\<close>

definition busy_table :: "string \<Rightarrow> selector list \<Rightarrow> int \<Rightarrow> maint_db \<Rightarrow> maint_state option" where
  "busy_table owner ss now db =
     List.find (\<lambda>st. leased_after now st \<and> ms_owner st \<noteq> owner)
       (concat (map (\<lambda>s. filter (\<lambda>st. ms_catalog st = sl_catalog s \<and> selector_matches s st) (md_states db)) ss))"

definition taken_over :: "string \<Rightarrow> string \<Rightarrow> maint_state \<Rightarrow> maint_state" where
  "taken_over kind owner s =
     (unscheduled s)\<lparr>ms_owner_type := kind, ms_owner := owner, ms_complete := False, ms_inventory_priority := 0\<rparr>"

definition reserve :: "(string \<Rightarrow> string) \<Rightarrow> string \<Rightarrow> string \<Rightarrow> string \<Rightarrow> selector list \<Rightarrow> maint_db \<Rightarrow> maint_db" where
  "reserve digest owner submission kind ss db =
     (let catalogs = map sl_catalog ss @ active_catalogs owner db;
          db1 = upd_reservations (\<lambda>r. rv_owner r = owner \<and> rv_active r) (\<lambda>r. r\<lparr>rv_active := False\<rparr>) db;
          db2 = fold (put_reservation digest owner submission kind) ss db1;
          keys = map ms_key (filter (\<lambda>st. ms_catalog st \<in> set catalogs \<and> maintenanceStateMatchesSelectors st ss \<and>
            yields_to_job (ms_owner st)) (md_states db)) in
      cancelMaintenanceTasksForTables keys (upd_states (\<lambda>s. ms_key s \<in> set keys) (taken_over kind owner) db2))"

definition syncMaintenanceReservations ::
  "(string \<Rightarrow> string) \<Rightarrow> meta_db \<Rightarrow> string \<Rightarrow> string \<Rightarrow> string \<Rightarrow> selector list \<Rightarrow> int \<Rightarrow> maint_db \<Rightarrow> ownership_error option \<times> maint_db" where
  "syncMaintenanceReservations digest reg owner0 submission0 kind0 selectors now db =
     (let owner = trim_space owner0; submission = trim_space submission0; kind = to_lower (trim_space kind0) in
      if owner = [] \<or> submission = []
      then (Some (InvalidReservation ''reservation owner job id and submission id are required''), db)
      else if kind \<noteq> MaintenanceReservationStreaming \<and> kind \<noteq> MaintenanceReservationSnapshot
      then (Some (InvalidReservation (''unsupported maintenance reservation kind '' @ kind)), db)
      else (case normalizeMaintenanceReservationSelectors selectors of
              Inl e \<Rightarrow> (Some (InvalidReservation e), db)
            | Inr ss \<Rightarrow>
                if ss = [] then (Some (InvalidReservation ''at least one maintenance reservation selector is required''), db)
                else (case tbl_find jr_id owner (db_jobs reg) of
                        None \<Rightarrow> (Some (OwnershipStale owner None), db)
                      | Some row \<Rightarrow>
                          if jr_submission row \<noteq> submission then (Some (OwnershipStale owner (Some (jr_submission row))), db)
                          else (case busy_table owner ss now db of
                                  Some st \<Rightarrow> (Some (OwnershipBusy (ms_key st) (the (ms_lease_until st))), db)
                                | None \<Rightarrow> (None, reserve digest owner submission kind ss db)))))"

section \<open>Releasing\<close>

definition handed_on :: "maint_db \<Rightarrow> maint_state \<Rightarrow> maint_state" where
  "handed_on db s =
     (case winner_at db s of
        None \<Rightarrow> (unscheduled s)\<lparr>ms_owner_type := ''unmanaged'', ms_owner := ''unmanaged'', ms_inventory_priority := 0\<rparr>
      | Some r \<Rightarrow>
          if rv_owner r = [] then (unscheduled s)\<lparr>ms_owner_type := ''unmanaged'', ms_owner := ''unmanaged'', ms_inventory_priority := 0\<rparr>
          else (unscheduled s)\<lparr>ms_owner_type := rv_kind r, ms_owner := rv_owner r, ms_inventory_priority := 0\<rparr>)"

definition releaseMaintenanceReservations :: "string \<Rightarrow> string \<Rightarrow> maint_db \<Rightarrow> maint_db" where
  "releaseMaintenanceReservations owner0 submission0 db =
     (let owner = trim_space owner0; submission = trim_space submission0;
          P = (\<lambda>r. rv_owner r = owner \<and> rv_submission r = submission \<and> rv_active r);
          catalogs = remdups (map rv_catalog (filter P (md_reservations db))) in
      if owner = [] \<or> submission = [] \<or> catalogs = [] then db
      else (let db1 = upd_reservations P (\<lambda>r. r\<lparr>rv_active := False\<rparr>) db;
                db2 = upd_states (\<lambda>s. ms_catalog s \<in> set catalogs \<and> ms_owner s = owner) (handed_on db1) db1 in
            upd_tasks (\<lambda>t. tk_owner t = owner \<and> waiting t) cancelled_task db2))"

record owner_submission =
  os_owner :: string
  os_submission :: string
  os_kind :: string

definition maintenanceReservationCurrentInRegistry :: "meta_db \<Rightarrow> owner_submission \<Rightarrow> bool" where
  "maintenanceReservationCurrentInRegistry reg p =
     (case tbl_find jr_id (os_owner p) (db_jobs reg) of
        None \<Rightarrow> False
      | Some row \<Rightarrow>
          if jr_submission row \<noteq> os_submission p then False
          else if os_kind p = MaintenanceReservationSnapshot
          then (let key = (case jr_meta_key row of None \<Rightarrow> [] | Some k \<Rightarrow> k) in
                if key = [] then True
                else (case db_snapshots reg key of None \<Rightarrow> True | Some st \<Rightarrow> \<not> ss_done st))
          else (let status = to_upper (trim_space (jr_status row)) in
                equal_fold (jr_desired row) ''RUNNING'' \<or> status = ''PAUSED'' \<or> status = ''PAUSING'' \<or> status = ''STOPPING''))"

text \<open>The pairs of the owners that were known, and locked, before the transaction began.\<close>

definition active_pairs :: "string list \<Rightarrow> maint_db \<Rightarrow> owner_submission list" where
  "active_pairs known db =
     (let rows = sort_key (\<lambda>r. (rv_owner r, rv_submission r, rv_catalog r))
            (filter (\<lambda>r. rv_active r \<and> rv_owner r \<in> set known) (md_reservations db)) in
      map (\<lambda>(owner, submission). \<lparr>os_owner = owner, os_submission = submission,
             os_kind = rv_kind (the (List.find (\<lambda>r. rv_owner r = owner \<and> rv_submission r = submission) rows))\<rparr>)
        (remdups (map (\<lambda>r. (rv_owner r, rv_submission r)) rows)))"

definition releaseMaintenanceReservationsExcept :: "meta_db \<Rightarrow> string list \<Rightarrow> maint_db \<Rightarrow> maint_db" where
  "releaseMaintenanceReservationsExcept reg known db =
     (let stale = filter (\<lambda>p. \<not> maintenanceReservationCurrentInRegistry reg p) (active_pairs known db);
          P = (\<lambda>r. rv_active r \<and> (rv_owner r, rv_submission r) \<in> set (map (\<lambda>p. (os_owner p, os_submission p)) stale));
          catalogs = map rv_catalog (filter P (md_reservations db)) in
      if stale = [] then db
      else (let db1 = upd_reservations P (\<lambda>r. r\<lparr>rv_active := False\<rparr>) db;
                keys = map ms_key (filter (\<lambda>s. ms_catalog s \<in> set catalogs \<and> ms_owner s \<in> set (map os_owner stale) \<and>
                  winner_owner (winner_at db1 s) \<noteq> ms_owner s) (md_states db)) in
            cancelMaintenanceTasksForTables keys (upd_states (\<lambda>s. ms_key s \<in> set keys) (handed_on db1) db1)))"

end
