(* ===== verification/Maintenance_Monitor.thy ===== *)
theory Maintenance_Monitor
  imports Maintenance_Ownership
begin

text \<open>
  Catalog monitors (\<open>pkg/meta/maintenance_monitor_store.go\<close>, \<open>maintenance_monitor_target_store.go\<close>): a monitor lists the tables it
  discovers, and each table is given to the most specific active monitor that lists it, unless a job has reserved it (\<open>Maintenance_Runs\<close>).
\<close>

section \<open>Monitors\<close>

abbreviation "MaintenanceMonitorTargetOwned \<equiv> ''owned''"
abbreviation "MaintenanceMonitorTargetReserved \<equiv> ''reserved''"
abbreviation "MaintenanceMonitorTargetConflicted \<equiv> ''conflicted''"
abbreviation "MaintenanceMonitorTargetRetired \<equiv> ''retired''"

abbreviation "ErrMaintenanceMonitorExists \<equiv> ''maintenance monitor already exists''"
abbreviation "ErrMaintenanceMonitorNotFound \<equiv> ''maintenance monitor not found''"

definition MaintenanceMonitorOwnerID :: "string \<Rightarrow> string" where
  "MaintenanceMonitorOwnerID i = ''monitor:'' @ trim_space i"

definition upd_monitors :: "(monitor_row \<Rightarrow> bool) \<Rightarrow> (monitor_row \<Rightarrow> monitor_row) \<Rightarrow> maint_db \<Rightarrow> maint_db" where
  "upd_monitors P f db = db\<lparr>md_monitors := tbl_update P f (md_monitors db)\<rparr>"

definition upd_targets :: "(monitor_target \<Rightarrow> bool) \<Rightarrow> (monitor_target \<Rightarrow> monitor_target) \<Rightarrow> maint_db \<Rightarrow> maint_db" where
  "upd_targets P f db = db\<lparr>md_targets := tbl_update P f (md_targets db)\<rparr>"

text \<open>\<open>payload\<close> is the JSON of the configuration, \<open>None\<close> without one.\<close>

definition CreateMonitor :: "string \<Rightarrow> string \<Rightarrow> string \<Rightarrow> string option \<Rightarrow> int \<Rightarrow> maint_db \<Rightarrow> string option \<times> maint_db" where
  "CreateMonitor id0 name0 status0 payload excluded db =
     (let i = trim_space id0; name = trim_space name0 in
      case payload of
        None \<Rightarrow> (Some ''maintenance monitor id and config are required'', db)
      | Some js \<Rightarrow>
          if i = [] then (Some ''maintenance monitor id and config are required'', db)
          else if i \<in> mo_id ` set (md_monitors db) then (Some ErrMaintenanceMonitorExists, db)
          else (None, db\<lparr>md_monitors := md_monitors db @ [\<lparr>mo_id = i, mo_name = (if name = [] then i else name),
                  mo_status = (if status0 = [] then MaintenanceMonitorActive else status0), mo_config = js, mo_excluded = excluded,
                  mo_discovered = None, mo_attempted = None, mo_error = None\<rparr>]\<rparr>))"

text \<open>Ownership may pass to an overlapping monitor: every active one is due for a discovery.\<close>

definition rediscover :: "maint_db \<Rightarrow> maint_db" where
  "rediscover = upd_monitors (\<lambda>m. mo_status m = MaintenanceMonitorActive) (\<lambda>m. m\<lparr>mo_discovered := None, mo_attempted := None\<rparr>)"

definition setMonitorStatus :: "string \<Rightarrow> string \<Rightarrow> int \<Rightarrow> maint_db \<Rightarrow> string option \<times> maint_db" where
  "setMonitorStatus id0 status now db =
     (let i = trim_space id0; owner = MaintenanceMonitorOwnerID i in
      if status \<noteq> MaintenanceMonitorActive \<and> status \<noteq> MaintenanceMonitorPaused
      then (Some (''invalid maintenance monitor status '' @ status), db)
      else if i \<notin> mo_id ` set (md_monitors db) then (Some ErrMaintenanceMonitorNotFound, db)
      else (let db1 = rediscover (upd_monitors (\<lambda>m. mo_id m = i) (\<lambda>m. m\<lparr>mo_status := status\<rparr>) db) in
            (None,
             if status = MaintenanceMonitorPaused
             then upd_tasks (\<lambda>t. tk_owner t = owner \<and> waiting t) cancelled_task (upd_states (\<lambda>s. ms_owner s = owner) unscheduled db1)
             else upd_states (\<lambda>s. ms_owner s = owner)
               (\<lambda>s. s\<lparr>ms_next_inventory := coalesce (ms_next_inventory s) (Some now), ms_inventory_priority := 0,
                      ms_next_compaction := Some now, ms_next_expire := Some now, ms_next_orphan := Some now, ms_error := None\<rparr>) db1)))"

text \<open>\<open>digest16\<close> is the hexadecimal of the first half of the SHA-256 of the owner and the time.\<close>

definition deleteMonitor :: "(string \<Rightarrow> int \<Rightarrow> string) \<Rightarrow> string \<Rightarrow> int \<Rightarrow> maint_db \<Rightarrow> string option \<times> maint_db" where
  "deleteMonitor digest16 id0 now db =
     (let i = trim_space id0; owner = MaintenanceMonitorOwnerID i; deleted = ''deleted-monitor:'' @ digest16 owner now in
      if i \<notin> mo_id ` set (md_monitors db) then (Some ErrMaintenanceMonitorNotFound, db)
      else (let db1 = rediscover (db\<lparr>md_monitors := tbl_delete (\<lambda>m. mo_id m = i) (md_monitors db),
                  md_targets := tbl_delete (\<lambda>t. mt_monitor t = i) (md_targets db)\<rparr>);
                db2 = upd_states (\<lambda>s. ms_owner s = owner)
                  (\<lambda>s. (unscheduled s)\<lparr>ms_owner_type := ''deleted-monitor'', ms_owner := deleted\<rparr>) db1 in
            (None, upd_tasks (\<lambda>t. tk_owner t = owner)
              (\<lambda>t. (if waiting t then cancelled_task t else t)\<lparr>tk_owner := deleted\<rparr>) db2)))"

definition ExcludeMonitorTables :: "string \<Rightarrow> string list \<Rightarrow> maint_db \<Rightarrow> maint_db" where
  "ExcludeMonitorTables owner0 tables db =
     (let owner = trim_space owner0; keys = remdups (filter (\<lambda>k. k \<noteq> []) (map trim_space tables)) in
      if owner = [] \<or> keys = [] then db
      else upd_tasks (\<lambda>t. tk_owner t = owner \<and> waiting t \<and> tk_table t \<in> set keys) cancelled_task
        (upd_states (\<lambda>s. ms_owner s = owner \<and> ms_key s \<in> set keys)
          (\<lambda>s. (unscheduled s)\<lparr>ms_owner_type := ''stream-excluded'', ms_owner := ''stream-excluded'', ms_last_inventory := None,
                 ms_inventory_priority := 0\<rparr>) db))"

definition RecordMonitorDiscoveryFailure :: "string \<Rightarrow> string \<Rightarrow> int \<Rightarrow> maint_db \<Rightarrow> string option \<times> maint_db" where
  "RecordMonitorDiscoveryFailure id0 message now db =
     (if trim_space id0 \<notin> mo_id ` set (md_monitors db) then (Some ErrMaintenanceMonitorNotFound, db)
      else (None, upd_monitors (\<lambda>m. mo_id m = trim_space id0) (\<lambda>m. m\<lparr>mo_attempted := Some now, mo_error := Some message\<rparr>) db))"

section \<open>Discovery\<close>

text \<open>A table a monitor found, with the times its first operations are due.\<close>

record found_target =
  ft_key :: string
  ft_catalog :: string
  ft_namespace :: string
  ft_table :: string
  ft_specificity :: int
  ft_inventory :: "int option"
  ft_compaction :: "int option"
  ft_expire :: "int option"
  ft_orphan :: "int option"

definition updateMonitorTargetClaimStatus :: "string \<Rightarrow> monitor_target \<Rightarrow> string \<Rightarrow> maint_db \<Rightarrow> maint_db" where
  "updateMonitorTargetClaimStatus key target status db =
     (if mt_claim target = status then db
      else upd_targets (\<lambda>t. mt_monitor t = mt_monitor target \<and> mt_key t = key \<and> mt_claim t \<noteq> status) (\<lambda>t. t\<lparr>mt_claim := status\<rparr>) db)"

definition set_claims :: "string \<Rightarrow> (monitor_target \<Rightarrow> string) \<Rightarrow> monitor_target list \<Rightarrow> maint_db \<Rightarrow> maint_db" where
  "set_claims key status cs = fold (\<lambda>c. updateMonitorTargetClaimStatus key c (status c)) cs"

definition cancelQueuedMaintenanceTasksForOwner :: "string \<Rightarrow> string \<Rightarrow> maint_db \<Rightarrow> maint_db" where
  "cancelQueuedMaintenanceTasksForOwner key owner =
     upd_tasks (\<lambda>t. tk_table t = key \<and> tk_owner t = owner \<and> waiting t) cancelled_task"

text \<open>The active monitors that list a table, the most specific and then the oldest first.\<close>

definition target_candidates :: "string \<Rightarrow> maint_db \<Rightarrow> monitor_target list" where
  "target_candidates key db =
     sort_key (\<lambda>t. (- mt_specificity t, mt_created t, mt_monitor t))
       (filter (\<lambda>t. mt_key t = key \<and> mt_claim t \<noteq> MaintenanceMonitorTargetRetired \<and>
          (\<exists>m \<in> set (md_monitors db). mo_id m = mt_monitor t \<and> mo_status m = MaintenanceMonitorActive)) (md_targets db))"

definition chosen_monitor :: "monitor_target list \<Rightarrow> string option \<Rightarrow> monitor_target" where
  "chosen_monitor cs owner =
     (let top = hd cs in
      case owner of
        None \<Rightarrow> top
      | Some ow \<Rightarrow>
          if \<not> has_prefix ''monitor:'' ow then top
          else (case List.find (\<lambda>c. mt_specificity c = mt_specificity top \<and> MaintenanceMonitorOwnerID (mt_monitor c) = ow) cs of
                  None \<Rightarrow> top
                | Some c \<Rightarrow> c))"

text \<open>When the operations of a newly owned table are due: as discovered, or an hour, a day and a week from now.\<close>

definition due_times :: "string \<Rightarrow> string \<Rightarrow> (string \<times> found_target) list \<Rightarrow> string \<Rightarrow> int \<Rightarrow> int option \<times> int \<times> int \<times> int" where
  "due_times key winner found monitor now =
     (let compaction = now + 3600000000; expire = now + 86400000000; orphan = now + 604800000000 in
      case map_get found key of
        None \<Rightarrow> (Some now, compaction, expire, orphan)
      | Some f \<Rightarrow>
          if winner \<noteq> monitor then (Some now, compaction, expire, orphan)
          else (ft_inventory f, case ft_compaction f of None \<Rightarrow> compaction | Some t \<Rightarrow> t,
                case ft_expire f of None \<Rightarrow> expire | Some t \<Rightarrow> t, case ft_orphan f of None \<Rightarrow> orphan | Some t \<Rightarrow> t))"

definition owned_by_monitor :: "string \<Rightarrow> int option \<times> int \<times> int \<times> int \<Rightarrow> maint_state \<Rightarrow> maint_state" where
  "owned_by_monitor owner due s =
     (case due of (inventory, compaction, expire, orphan) \<Rightarrow>
        s\<lparr>ms_owner_type := ''monitor'', ms_owner := owner, ms_complete := True,
          ms_next_inventory := coalesce (ms_next_inventory s) inventory, ms_inventory_priority := 0,
          ms_next_compaction := coalesce (ms_next_compaction s) (Some compaction),
          ms_next_expire := coalesce (ms_next_expire s) (Some expire),
          ms_next_orphan := coalesce (ms_next_orphan s) (Some orphan)\<rparr>)"

text \<open>The state of a table the database does not have, with the names of the winning target.\<close>

definition fresh_state :: "string \<Rightarrow> monitor_target \<Rightarrow> int \<Rightarrow> maint_state" where
  "fresh_state key t now = \<lparr>ms_key = key, ms_catalog = mt_catalog t, ms_namespace = mt_namespace t, ms_table = mt_table t,
     ms_owner_type = [], ms_owner = [], ms_complete = False, ms_last_snapshot = 0, ms_inventory_snapshot = 0,
     ms_last_inventory = None, ms_next_inventory = None, ms_inventory_priority = 0, ms_inventory_owner = None,
     ms_inventory_until = None, ms_last_write = None, ms_new_data = 0, ms_new_eq = 0, ms_inventory = blank_inventory,
     ms_next_compaction = None, ms_next_expire = None, ms_next_orphan = None, ms_last_compaction = None, ms_last_expire = None,
     ms_last_orphan = None, ms_lease_owner = None, ms_lease_until = None, ms_attempts = 0, ms_error = None, ms_created = now\<rparr>"

definition by_monitor :: "maint_state option \<Rightarrow> bool" where
  "by_monitor st \<longleftrightarrow> (case st of None \<Rightarrow> False | Some s \<Rightarrow> has_prefix ''monitor:'' (ms_owner s))"

definition busy_monitor :: "int \<Rightarrow> maint_state option \<Rightarrow> bool" where
  "busy_monitor now st \<longleftrightarrow> by_monitor st \<and> leased_after now (the st)"

text \<open>\<open>monitor\<close> is the monitor whose discovery this is.\<close>

definition reconcileMonitorTargetOwnership ::
  "string \<Rightarrow> string \<Rightarrow> (string \<times> found_target) list \<Rightarrow> int \<Rightarrow> maint_db \<Rightarrow> maint_db" where
  "reconcileMonitorTargetOwnership key monitor found now db =
     (let cs = target_candidates key db; st = state_at db key; oldOwner = (case st of None \<Rightarrow> [] | Some s \<Rightarrow> ms_owner s) in
      if cs = []
      then (if busy_monitor now st then db
            else if by_monitor st
            then cancelQueuedMaintenanceTasksForOwner key oldOwner
              (at_table key (\<lambda>s. (unscheduled s)\<lparr>ms_owner_type := ''unmanaged'', ms_owner := ''unmanaged''\<rparr>) db)
            else db)
      else if busy_monitor now st
      then set_claims key (\<lambda>c. if MaintenanceMonitorOwnerID (mt_monitor c) = oldOwner then MaintenanceMonitorTargetOwned
             else MaintenanceMonitorTargetConflicted) cs db
      else
        (let sample = hd cs;
             seen = (case st of None \<Rightarrow> fresh_state key sample now | Some s \<Rightarrow> s);
             w = matchingMaintenanceReservation (loadActiveMaintenanceReservations db (mt_catalog sample)) seen in
         if winner_owner w \<noteq> []
         then (let db1 = set_claims key (\<lambda>_. MaintenanceMonitorTargetReserved) cs db in
               if by_monitor st
               then cancelQueuedMaintenanceTasksForOwner key oldOwner
                 (at_table key (\<lambda>s. (unscheduled s)\<lparr>ms_owner_type := rv_kind (the w), ms_owner := rv_owner (the w)\<rparr>) db1)
               else db1)
         else if st \<noteq> None \<and> \<not> by_monitor st \<and> ms_owner_type seen \<notin> {''unmanaged'', ''stream-excluded'', ''deleted-monitor''}
         then set_claims key (\<lambda>_. MaintenanceMonitorTargetReserved) cs db
         else
           (let winner = chosen_monitor cs (map_option ms_owner st);
                db1 = set_claims key (\<lambda>c. if mt_monitor c = mt_monitor winner then MaintenanceMonitorTargetOwned
                  else MaintenanceMonitorTargetConflicted) cs db;
                owner = MaintenanceMonitorOwnerID (mt_monitor winner);
                due = due_times key (mt_monitor winner) found monitor now in
            if st \<noteq> None \<and> oldOwner = owner then db1
            else if st = None
            then db1\<lparr>md_states := md_states db1 @ [owned_by_monitor owner due (fresh_state key winner now)]\<rparr>
            else cancelQueuedMaintenanceTasksForOwner key oldOwner (at_table key (owned_by_monitor owner due) db1))))"

fun normalize_found :: "(string \<times> found_target) list \<Rightarrow> found_target list \<Rightarrow> string + (string \<times> found_target) list" where
  "normalize_found seen [] = Inr seen"
| "normalize_found seen (f # fs) =
     (let c = trim_space (ft_catalog f); n = trim_space (ft_namespace f); t = trim_space (ft_table f); k = trim_space (ft_key f);
          key = (if k = [] then c @ ''.'' @ n @ ''.'' @ t else k) in
      if c = [] \<or> n = [] \<or> t = [] then Inl ''monitor target catalog, namespace, and table are required''
      else if ft_specificity f \<le> 0 then Inl ''monitor target specificity must be positive''
      else normalize_found (map_put key (f\<lparr>ft_key := key, ft_catalog := c, ft_namespace := n, ft_table := t\<rparr>) seen) fs)"

definition put_target :: "string \<Rightarrow> int \<Rightarrow> monitor_target list \<Rightarrow> string \<times> found_target \<Rightarrow> maint_db \<Rightarrow> maint_db" where
  "put_target monitor now existing kf db =
     (case kf of (key, f) \<Rightarrow>
        (let row = (\<lambda>t. mt_monitor t = monitor \<and> mt_key t = key) in
         case tbl_find mt_key key existing of
           None \<Rightarrow> db\<lparr>md_targets := md_targets db @ [\<lparr>mt_monitor = monitor, mt_key = key, mt_catalog = ft_catalog f,
                     mt_namespace = ft_namespace f, mt_table = ft_table f, mt_specificity = ft_specificity f,
                     mt_claim = MaintenanceMonitorTargetConflicted, mt_created = now\<rparr>]\<rparr>
         | Some old \<Rightarrow>
             if mt_claim old = MaintenanceMonitorTargetRetired
             then upd_targets row (\<lambda>t. t\<lparr>mt_catalog := ft_catalog f, mt_namespace := ft_namespace f, mt_table := ft_table f,
                    mt_specificity := ft_specificity f, mt_claim := MaintenanceMonitorTargetConflicted\<rparr>) db
             else if mt_specificity old \<noteq> ft_specificity f then upd_targets row (\<lambda>t. t\<lparr>mt_specificity := ft_specificity f\<rparr>) db
             else db))"

text \<open>
  \<open>known\<close> are the catalogs of the monitor's targets as read before the transaction. The result counts the tables
  added and removed.
\<close>

definition applyMonitorDiscovery ::
  "string \<Rightarrow> found_target list \<Rightarrow> string list \<Rightarrow> int \<Rightarrow> maint_db \<Rightarrow> (string + nat \<times> nat) \<times> maint_db" where
  "applyMonitorDiscovery id0 targets known now db =
     (let i = trim_space id0 in
      if i = [] then (Inl ''maintenance monitor id is required'', db)
      else (case normalize_found [] targets of
        Inl e \<Rightarrow> (Inl e, db)
      | Inr found \<Rightarrow>
          (case tbl_find mo_id i (md_monitors db) of
             None \<Rightarrow> (Inl ErrMaintenanceMonitorNotFound, db)
           | Some m \<Rightarrow>
               if mo_status m \<noteq> MaintenanceMonitorActive then (Inl (''maintenance monitor '' @ i @ '' is not active''), db)
               else
                 (let existing = filter (\<lambda>t. mt_monitor t = i) (md_targets db);
                      gone = filter (\<lambda>t. mt_key t \<notin> fst ` set found \<and> mt_claim t \<noteq> MaintenanceMonitorTargetRetired) existing;
                      locked = map (\<lambda>kf. ft_catalog (snd kf)) found @ known in
                  if list_ex (\<lambda>t. mt_catalog t \<notin> set locked) gone
                  then (Inl (''maintenance monitor '' @ i @ '' target catalog changed during reconciliation; retry''), db)
                  else
                    (let added = filter (\<lambda>kf. case tbl_find mt_key (fst kf) existing of None \<Rightarrow> True
                           | Some old \<Rightarrow> mt_claim old = MaintenanceMonitorTargetRetired) found;
                         db1 = fold (put_target i now existing) found db;
                         db2 = fold (\<lambda>t. upd_targets (\<lambda>r. mt_monitor r = i \<and> mt_key r = mt_key t)
                           (\<lambda>r. r\<lparr>mt_claim := MaintenanceMonitorTargetRetired\<rparr>)) gone db1;
                         db3 = fold (\<lambda>k. reconcileMonitorTargetOwnership k i found now)
                           (sort (map fst found @ map mt_key gone)) db2 in
                     (Inr (length added, length gone),
                      upd_monitors (\<lambda>r. mo_id r = i) (\<lambda>r. r\<lparr>mo_discovered := Some now, mo_attempted := Some now, mo_error := None\<rparr>) db3))))))"

end
