(* ===== verification/Maintenance_Runs.thy ===== *)
theory Maintenance_Runs
  imports Maintenance_Monitor
begin

text \<open>
  Every operation of the maintenance store as a step of one relation, and what holds in all its runs: a live lease is left
  alone by the other workers, a table has one active task of an operation, and no monitor takes a reserved table.
\<close>

section \<open>Leases of the other workers\<close>

definition lease_of :: "maint_db \<Rightarrow> string \<Rightarrow> (string option \<times> int option) option" where
  "lease_of db key = map_option (\<lambda>s. (ms_lease_owner s, ms_lease_until s)) (state_at db key)"

text \<open>The leases that have not run out and belong to another worker are as before.\<close>

definition spares :: "string \<Rightarrow> int \<Rightarrow> maint_db \<Rightarrow> maint_db \<Rightarrow> bool" where
  "spares w now db db' \<longleftrightarrow>
     (\<forall>key v u. v \<noteq> w \<longrightarrow> now \<le> u \<longrightarrow> lease_of db key = Some (Some v, Some u) \<longrightarrow> lease_of db' key = Some (Some v, Some u))"

text \<open>Tasks keep their table and operation, and none becomes active.\<close>

definition quiets :: "maint_db \<Rightarrow> maint_db \<Rightarrow> bool" where
  "quiets db db' \<longleftrightarrow>
     (\<exists>h. md_tasks db' = map h (md_tasks db) \<and>
        (\<forall>t. tk_table (h t) = tk_table t \<and> tk_operation (h t) = tk_operation t \<and> (active_task (h t) \<longrightarrow> active_task t)))"

named_theorems maint_frame \<open>what an operation keeps of leases and of tasks\<close>

lemma spares_refl [maint_frame]: "spares w now db db"
  by (simp add: spares_def)

lemma spares_trans: "spares w now a b \<Longrightarrow> spares w now b c \<Longrightarrow> spares w now a c"
  unfolding spares_def by blast

lemma spares_lease_of: "lease_of db' = lease_of db \<Longrightarrow> spares w now db db'"
  by (simp add: spares_def)

lemma quiets_refl [maint_frame]: "quiets db db"
  unfolding quiets_def by (rule exI [of _ id]) simp

lemma quiets_same: "md_tasks db' = md_tasks db \<Longrightarrow> quiets db db'"
  unfolding quiets_def by (rule exI [of _ id]) simp

lemma quiets_states [simp]: "quiets db (upd_states P f db') = quiets db db'"
  by (simp add: quiets_def upd_states_def)

lemma quiets_trans: "quiets a b \<Longrightarrow> quiets b c \<Longrightarrow> quiets a c"
proof -
  assume "quiets a b" "quiets b c"
  then obtain h k where "md_tasks b = map h (md_tasks a)" "md_tasks c = map k (md_tasks b)"
    and h: "\<And>t. tk_table (h t) = tk_table t \<and> tk_operation (h t) = tk_operation t \<and> (active_task (h t) \<longrightarrow> active_task t)"
    and k: "\<And>t. tk_table (k t) = tk_table t \<and> tk_operation (k t) = tk_operation t \<and> (active_task (k t) \<longrightarrow> active_task t)"
    unfolding quiets_def by blast
  then have "md_tasks c = map (k \<circ> h) (md_tasks a)" by simp
  then show ?thesis unfolding quiets_def using h k by (metis comp_apply)
qed

lemma lease_of_other [simp]:
  "lease_of (upd_tasks P f db) = lease_of db" "lease_of (upd_targets Q g db) = lease_of db"
  "lease_of (upd_monitors R h db) = lease_of db" "lease_of (upd_reservations S k db) = lease_of db"
  by (simp_all add: fun_eq_iff lease_of_def state_at_def upd_tasks_def upd_targets_def upd_monitors_def upd_reservations_def)

lemma lease_of_fields [simp]:
  "lease_of (db\<lparr>md_tasks := ts\<rparr>) = lease_of db" "lease_of (db\<lparr>md_targets := tg\<rparr>) = lease_of db"
  "lease_of (db\<lparr>md_monitors := ms\<rparr>) = lease_of db" "lease_of (db\<lparr>md_reservations := rs\<rparr>) = lease_of db"
  "lease_of (db\<lparr>md_serial := n\<rparr>) = lease_of db"
  by (simp_all add: fun_eq_iff lease_of_def state_at_def)

lemma md_tasks_other [simp]:
  "md_tasks (upd_states P f db) = md_tasks db" "md_tasks (upd_targets Q g db) = md_tasks db"
  "md_tasks (upd_monitors R h db) = md_tasks db" "md_tasks (upd_reservations S k db) = md_tasks db"
  by (simp_all add: upd_states_def upd_targets_def upd_monitors_def upd_reservations_def)

lemma spares_upd:
  assumes "\<And>s. P s \<Longrightarrow> ms_key (f s) = ms_key s"
    and "\<And>s v u. P s \<Longrightarrow> v \<noteq> w \<Longrightarrow> now \<le> u \<Longrightarrow> ms_lease_owner s = Some v \<Longrightarrow> ms_lease_until s = Some u \<Longrightarrow>
           ms_lease_owner (f s) = Some v \<and> ms_lease_until (f s) = Some u"
  shows "spares w now db (upd_states P f db)"
  unfolding spares_def lease_of_def using assms by (auto simp: state_at_upd option.map_comp comp_def)

lemma spares_plain:
  assumes "\<And>s. ms_key (f s) = ms_key s \<and> ms_lease_owner (f s) = ms_lease_owner s \<and> ms_lease_until (f s) = ms_lease_until s"
  shows "spares w now db (upd_states P f db)"
  by (rule spares_upd) (use assms in auto)

lemma quiets_upd:
  assumes "\<And>t. P t \<Longrightarrow> tk_table (f t) = tk_table t \<and> tk_operation (f t) = tk_operation t \<and> (active_task (f t) \<longrightarrow> active_task t)"
  shows "quiets db (upd_tasks P f db)"
  unfolding quiets_def upd_tasks_def tbl_update_def
  by (rule exI [of _ "\<lambda>t. if P t then f t else t"]) (use assms in auto)

lemma cancelled_inactive [simp]: "\<not> active_task (cancelled_task t)" "\<not> waiting (cancelled_task t)"
  "tk_table (cancelled_task t) = tk_table t" "tk_operation (cancelled_task t) = tk_operation t"
  by (simp_all add: active_task_def waiting_def cancelled_task_def)

lemma quiets_cancel [maint_frame]: "quiets db (upd_tasks P cancelled_task db)"
  by (rule quiets_upd) simp

section \<open>Operations on leases\<close>

lemma recover_keeps: "spares w now db (RecoverExpiredMaintenanceLeases now db)" "quiets db (RecoverExpiredMaintenanceLeases now db)"
proof -
  show "spares w now db (RecoverExpiredMaintenanceLeases now db)"
    unfolding RecoverExpiredMaintenanceLeases_def Let_def
    by (rule spares_trans [OF _ spares_upd])
      (auto intro!: spares_lease_of split: option.splits)
  show "quiets db (RecoverExpiredMaintenanceLeases now db)"
    unfolding RecoverExpiredMaintenanceLeases_def Let_def
    by (rule quiets_trans [OF quiets_trans [OF quiets_upd quiets_cancel] quiets_same])
      (auto simp: active_task_def waiting_def)
qed

lemma lease_table_keeps:
  assumes "lease_table w now key til db = (n, db')"
  shows "spares x now db db'" "quiets db db'"
proof -
  have eq: "db' = upd_states (\<lambda>s. ms_key s = key \<and> expired_before now (ms_lease_until s) \<and> expired_before now (ms_inventory_until s))
      (\<lambda>s. s\<lparr>ms_lease_owner := Some w, ms_lease_until := Some til\<rparr>) db"
    using assms by (simp add: lease_table_def Let_def)
  show "spares x now db db'" unfolding eq by (rule spares_upd) (auto simp: expired_before_def)
  show "quiets db db'" by (rule quiets_same) (simp add: eq)
qed

lemma claim_task_keeps:
  assumes "claim_task w now til sel db = Inr (c, db')"
  shows "spares x now db db' \<and> quiets db db'"
proof -
  obtain cur st where cur: "tbl_find tk_id (tk_id sel) (md_tasks db) = Some cur" and st: "state_at db (tk_table cur) = Some st"
    using assms by (auto simp: claim_task_def split: option.splits)
  consider "\<not> waiting cur" "db' = db" | "db' = upd_tasks (\<lambda>t. tk_id t = tk_id sel) cancelled_task db"
    | n db1 where "lease_table w now (tk_table sel) til db = (n, db1)"
        "db' = upd_tasks (\<lambda>t. tk_id t = tk_id sel \<and> waiting t) (leased_task w til) db1"
    using assms cur st by (auto simp: claim_task_def Let_def split: if_splits prod.splits)
  then show ?thesis
  proof cases
    case 1
    then show ?thesis by (simp add: maint_frame)
  next
    case 2
    then show ?thesis by (simp add: maint_frame spares_lease_of)
  next
    case (3 n db1)
    have "quiets db1 db'" unfolding 3(2)
      by (rule quiets_upd) (auto simp: leased_task_def active_task_def)
    moreover have "spares x now db1 db'" unfolding 3(2) by (rule spares_lease_of) simp
    ultimately show ?thesis using lease_table_keeps [OF 3(1)] spares_trans quiets_trans by blast
  qed
qed

lemma claim_selected_keeps: "claim_selected w now til ts db = Inr (cs, db') \<Longrightarrow> spares x now db db' \<and> quiets db db'"
proof (induction ts arbitrary: db cs)
  case (Cons t ts)
  then obtain c db1 cs1 where "claim_task w now til t db = Inr (c, db1)" "claim_selected w now til ts db1 = Inr (cs1, db')"
    by (auto split: sum.splits prod.splits)
  then show ?case using Cons.IH claim_task_keeps spares_trans quiets_trans by metis
qed (simp add: maint_frame)

lemma claim_keeps:
  "spares x now db (snd (claimTasksOwnershipSafe w now lease ts db))" "quiets db (snd (claimTasksOwnershipSafe w now lease ts db))"
  by (auto simp: claimTasksOwnershipSafe_def Let_def maint_frame dest!: claim_selected_keeps split: sum.splits)

lemma held_quiets:
  assumes "\<And>t. tk_table (f t) = tk_table t \<and> tk_operation (f t) = tk_operation t"
  shows "quiets db (upd_tasks (held_task i w) f db)"
  by (rule quiets_upd) (use assms in \<open>auto simp: held_task_def active_task_def\<close>)

lemma renew_keeps:
  "spares w now db (snd (RenewTaskAndTableLease i key w til db))" "quiets db (snd (RenewTaskAndTableLease i key w til db))"
proof -
  have "spares w now db (upd_states (\<lambda>s. ms_key s = key \<and> ms_lease_owner s = Some w)
      (\<lambda>s. s\<lparr>ms_lease_until := Some til\<rparr>) (upd_tasks P f db))" for P f
    by (rule spares_trans [OF spares_lease_of [OF lease_of_other(1)] spares_upd]) auto
  then show "spares w now db (snd (RenewTaskAndTableLease i key w til db))"
    by (auto simp: RenewTaskAndTableLease_def Let_def maint_frame)
  show "quiets db (snd (RenewTaskAndTableLease i key w til db))"
    by (auto simp: RenewTaskAndTableLease_def Let_def maint_frame intro!: held_quiets)
qed

lemma task_lease_keeps:
  "spares w' now db (snd (RenewLease i w til db))" "quiets db (snd (RenewLease i w til db))"
  "spares w' now db (snd (FinishTask i w status err retryAt db))" "quiets db (snd (FinishTask i w status err retryAt db))"
  by (auto simp: RenewLease_def FinishTask_def Let_def maint_frame intro!: held_quiets spares_lease_of)

lemma release_lease_keeps:
  "spares w now db (ReleaseMaintenanceTableLease key w db)" "quiets db (ReleaseMaintenanceTableLease key w db)"
  unfolding ReleaseMaintenanceTableLease_def by (rule spares_upd quiets_same, auto)+

lemma enqueue_spares: "spares w now db (snd (EnqueueTask digest st operation priority window nb payload db))"
  by (auto simp: EnqueueTask_def Let_def intro!: spares_lease_of)

section \<open>Operations on states\<close>

text \<open>An operation that keeps the leases of the states and leaves the tasks alone, or cancels some.\<close>

definition harmless :: "maint_db \<Rightarrow> maint_db \<Rightarrow> bool" where
  "harmless db db' \<longleftrightarrow> (\<forall>w now. spares w now db db') \<and> quiets db db'"

lemma harmless_refl [maint_frame]: "harmless db db"
  by (simp add: harmless_def maint_frame)

lemma harmless_trans: "harmless a b \<Longrightarrow> harmless b c \<Longrightarrow> harmless a c"
  unfolding harmless_def using spares_trans quiets_trans by blast

lemma harmless_same: "lease_of db' = lease_of db \<Longrightarrow> md_tasks db' = md_tasks db \<Longrightarrow> harmless db db'"
  by (simp add: harmless_def spares_lease_of quiets_same)

lemma harmless_states:
  "(\<And>s. ms_key (f s) = ms_key s \<and> ms_lease_owner (f s) = ms_lease_owner s \<and> ms_lease_until (f s) = ms_lease_until s) \<Longrightarrow>
   harmless db (upd_states P f db)"
  by (simp add: harmless_def spares_plain quiets_same)

lemma harmless_tasks:
  "(\<And>t. P t \<Longrightarrow> tk_table (f t) = tk_table t \<and> tk_operation (f t) = tk_operation t \<and> (active_task (f t) \<longrightarrow> active_task t)) \<Longrightarrow>
   harmless db (upd_tasks P f db)"
  by (simp add: harmless_def spares_lease_of quiets_upd)

lemma harmless_cancel [maint_frame]: "harmless db (upd_tasks P cancelled_task db)"
  by (rule harmless_tasks) simp

lemma harmless_other [maint_frame]:
  "harmless db (upd_targets Q g db)" "harmless db (upd_monitors R h db)" "harmless db (upd_reservations S k db)"
  by (simp_all add: harmless_same)

lemma harmless_fold: "(\<And>x d. harmless d (g x d)) \<Longrightarrow> harmless db (fold g xs db)"
  by (induction xs arbitrary: db) (auto simp: maint_frame intro: harmless_trans)

lemma unscheduled_lease [simp]: "ms_key (unscheduled s) = ms_key s" "ms_lease_owner (unscheduled s) = ms_lease_owner s"
  "ms_lease_until (unscheduled s) = ms_lease_until s"
  by (simp_all add: unscheduled_def)

lemma harmless_new_state:
  assumes "\<And>r. ms_key (f r) = ms_key r \<and> ms_lease_owner (f r) = ms_lease_owner r \<and> ms_lease_until (f r) = ms_lease_until r"
  shows "harmless db (db\<lparr>md_states := tbl_upsert ms_key f new (md_states db)\<rparr>)"
  unfolding harmless_def spares_def lease_of_def state_at_def
  using assms by (auto simp: tbl_find_upsert quiets_same split: option.splits)

lemma harmless_append: "harmless db (db\<lparr>md_states := md_states db @ ss\<rparr>)"
  unfolding harmless_def spares_def lease_of_def state_at_def
  by (auto simp: tbl_find_append quiets_same)

lemma state_updates_harmless:
  "harmless db (snd (UpsertState st a b c dbnow db))"
  "harmless db (snd (CoalesceSignal key snapshotID nd ne allDone threshold due dbnow db))"
  "harmless db (SetSnapshotCompleteForOwner owner allDone threshold due db)"
  "harmless db (RecordTableWrite key written dbnow db)"
  "harmless db (ClampOrphanSchedules owner now activeSince activeDeadline idleDeadline db)"
  "harmless db (RecordStateError key message db)"
  "harmless db (UpdateInventory key snapshotID counts dbnow db)"
  "harmless db (MarkInventoryMissing key dbnow db)"
  by (auto simp: UpsertState_def CoalesceSignal_def SetSnapshotCompleteForOwner_def RecordTableWrite_def ClampOrphanSchedules_def
      RecordStateError_def UpdateInventory_def MarkInventoryMissing_def Let_def at_table_def signalled_def maint_frame
      intro!: harmless_new_state harmless_states split: option.splits)

lemma schedule_updates_harmless:
  "harmless db (snd (AdvanceSchedule key operation due db))"
  "harmless db (ScheduleCompactionCheck key due priority db)"
  "harmless db (snd (RecordStateSuccess key operation ts resetCounters db))"
proof -
  show "harmless db (snd (AdvanceSchedule key operation due db))"
    by (simp add: AdvanceSchedule_def dueColumn_def at_table_def harmless_refl harmless_states)
  show "harmless db (ScheduleCompactionCheck key due priority db)"
    unfolding ScheduleCompactionCheck_def Let_def
    by (rule harmless_trans [OF harmless_tasks harmless_states]) (auto simp: active_task_def waiting_def)
  show "harmless db (snd (RecordStateSuccess key operation ts resetCounters db))"
    by (simp add: RecordStateSuccess_def at_table_def harmless_refl harmless_states)
qed

lemma inventory_updates_harmless:
  "harmless db (snd (claimPendingInventoryState w now lease minimum requireIdle locked db))"
  "harmless db (snd (FinishInventoryClaim key w snapshotID dbnow db))"
  "harmless db (snd (RetryInventoryClaim key w retryAt db))"
  "harmless db (snd (RequestInventoryRefresh owner now force db))"
  "harmless db (snd (RequestTableInventoryRefresh key owner now db))"
  by (auto simp: claimPendingInventoryState_def FinishInventoryClaim_def RetryInventoryClaim_def RequestInventoryRefresh_def
      RequestTableInventoryRefresh_def request_refresh_def Let_def maint_frame intro!: harmless_states split: list.splits)

lemma handed_on_lease [simp]: "ms_key (handed_on db s) = ms_key s" "ms_lease_owner (handed_on db s) = ms_lease_owner s"
  "ms_lease_until (handed_on db s) = ms_lease_until s"
  by (simp_all add: handed_on_def split: option.splits)

lemma harmless_reassigned:
  assumes "\<And>s. ms_key (f s) = ms_key s \<and> ms_lease_owner (f s) = ms_lease_owner s \<and> ms_lease_until (f s) = ms_lease_until s"
  shows "harmless db (upd_tasks Q cancelled_task (upd_states P f (upd_reservations R g db)))"
  by (rule harmless_trans [OF harmless_trans [OF harmless_other(3) harmless_states] harmless_cancel]) (rule assms)

lemma harmless_put_reservation: "harmless db (put_reservation digest owner submission kind s db)"
  by (simp add: put_reservation_def harmless_same)

lemma ownership_updates_harmless:
  "harmless db (snd (syncMaintenanceReservations digest reg owner submission kind ss now db))"
  "harmless db (releaseMaintenanceReservations owner submission db)"
  "harmless db (releaseMaintenanceReservationsExcept reg known db)"
proof -
  have "harmless db (reserve digest a b c ts db)" for a b c ts
    unfolding reserve_def Let_def cancelMaintenanceTasksForTables_def
    by (rule harmless_trans [OF harmless_trans [OF harmless_trans [OF harmless_other(3) harmless_fold] harmless_states] harmless_cancel])
      (simp_all add: harmless_put_reservation taken_over_def)
  then show "harmless db (snd (syncMaintenanceReservations digest reg owner submission kind ss now db))"
    by (auto simp: syncMaintenanceReservations_def Let_def maint_frame split: sum.splits option.splits)
  show "harmless db (releaseMaintenanceReservations owner submission db)"
    unfolding releaseMaintenanceReservations_def Let_def
    by (simp add: harmless_refl harmless_reassigned)
  show "harmless db (releaseMaintenanceReservationsExcept reg known db)"
    unfolding releaseMaintenanceReservationsExcept_def Let_def cancelMaintenanceTasksForTables_def
    by (simp add: harmless_refl harmless_reassigned)
qed

lemma harmless_claims [maint_frame]: "harmless db (set_claims key status cs db)"
  unfolding set_claims_def
  by (rule harmless_fold) (simp add: updateMonitorTargetClaimStatus_def maint_frame)

lemma monitor_updates_harmless:
  "harmless db (snd (CreateMonitor i name status payload excluded db))"
  "harmless db (snd (setMonitorStatus i status now db))"
  "harmless db (snd (deleteMonitor digest16 i now db))"
  "harmless db (ExcludeMonitorTables owner keys db)"
  "harmless db (snd (RecordMonitorDiscoveryFailure i message now db))"
proof -
  show "harmless db (snd (CreateMonitor i name status payload excluded db))"
    by (simp add: CreateMonitor_def Let_def harmless_same split: option.splits)
  have red: "harmless db (rediscover (upd_monitors P f db))" for P f
    unfolding rediscover_def by (rule harmless_trans [OF harmless_other(2) harmless_other(2)])
  have "harmless db (upd_states Q g (rediscover (upd_monitors P f db)))"
    if "\<And>s. ms_key (g s) = ms_key s \<and> ms_lease_owner (g s) = ms_lease_owner s \<and> ms_lease_until (g s) = ms_lease_until s" for P f Q g
    by (rule harmless_trans [OF red harmless_states]) (rule that)
  then show "harmless db (snd (setMonitorStatus i status now db))"
    by (simp add: setMonitorStatus_def Let_def harmless_refl harmless_trans [OF _ harmless_cancel])
  have "harmless db (rediscover (db\<lparr>md_monitors := ms, md_targets := ts\<rparr>))" for ms ts
    unfolding rediscover_def by (rule harmless_trans [OF harmless_same harmless_other(2)]) simp_all
  then show "harmless db (snd (deleteMonitor digest16 i now db))"
    unfolding deleteMonitor_def Let_def
    by (auto simp: active_task_def waiting_def cancelled_task_def
        intro!: harmless_refl harmless_trans [OF harmless_trans [OF _ harmless_states] harmless_tasks]
        split: if_splits)
  show "harmless db (ExcludeMonitorTables owner keys db)"
    by (simp add: ExcludeMonitorTables_def Let_def harmless_refl harmless_trans [OF harmless_states harmless_cancel])
  show "harmless db (snd (RecordMonitorDiscoveryFailure i message now db))"
    by (simp add: RecordMonitorDiscoveryFailure_def maint_frame)
qed

lemma owned_by_monitor_lease [simp]: "ms_key (owned_by_monitor owner due s) = ms_key s"
  "ms_lease_owner (owned_by_monitor owner due s) = ms_lease_owner s" "ms_lease_until (owned_by_monitor owner due s) = ms_lease_until s"
  by (simp_all add: owned_by_monitor_def split: prod.splits)

lemma harmless_handover:
  assumes "harmless db db1"
    and "\<And>s. ms_key (f s) = ms_key s \<and> ms_lease_owner (f s) = ms_lease_owner s \<and> ms_lease_until (f s) = ms_lease_until s"
  shows "harmless db (cancelQueuedMaintenanceTasksForOwner key owner (at_table key f db1))"
  unfolding cancelQueuedMaintenanceTasksForOwner_def at_table_def
  by (rule harmless_trans [OF harmless_trans [OF assms(1) harmless_states] harmless_cancel]) (rule assms(2))

lemma reconcile_harmless: "harmless db (reconcileMonitorTargetOwnership key monitor found now db)"
  unfolding reconcileMonitorTargetOwnership_def Let_def
  by (simp add: maint_frame harmless_handover harmless_trans [OF harmless_claims harmless_append])

lemma put_target_harmless: "harmless db (put_target monitor now existing kf db)"
  by (simp add: put_target_def Let_def maint_frame harmless_same split: prod.splits option.splits)

lemma harmless_passes:
  assumes "\<And>k d. harmless d (G k d)" "\<And>t d. harmless d (F t d)" "\<And>kf d. harmless d (E kf d)"
  shows "harmless db (upd_monitors P g (fold G ks (fold F gone (fold E found db))))"
  by (rule harmless_trans [OF harmless_trans [OF harmless_trans [OF harmless_fold harmless_fold] harmless_fold] harmless_other(2)])
    (simp_all add: assms)

lemma discovery_harmless: "harmless db (snd (applyMonitorDiscovery i targets known now db))"
  by (auto simp: applyMonitorDiscovery_def Let_def maint_frame intro!: harmless_passes put_target_harmless reconcile_harmless
      split: sum.splits option.splits)

section \<open>Steps\<close>

text \<open>
  A step of worker \<open>w\<close> at its time \<open>now\<close>. The tasks a claim selected are any list: they were read without a lock. An operation
  that takes no worker is a step of every worker.
\<close>

inductive maint_step :: "string \<Rightarrow> int \<Rightarrow> maint_db \<Rightarrow> maint_db \<Rightarrow> bool" where
  recover: "maint_step w now db (RecoverExpiredMaintenanceLeases now db)"
| claim: "maint_step w now db (snd (claimTasksOwnershipSafe w now lease selected db))"
| renew_both: "maint_step w now db (snd (RenewTaskAndTableLease i key w til db))"
| renew_task: "maint_step w now db (snd (RenewLease i w til db))"
| release_table: "maint_step w now db (ReleaseMaintenanceTableLease key w db)"
| finish: "maint_step w now db (snd (FinishTask i w status err retryAt db))"
| enqueue: "maint_step w now db (snd (EnqueueTask digest st operation priority window notBefore payload db))"
| upsert: "maint_step w now db (snd (UpsertState st a b c dbnow db))"
| signal: "maint_step w now db (snd (CoalesceSignal key snapshotID nd ne allDone threshold due dbnow db))"
| snapshot_complete: "maint_step w now db (SetSnapshotCompleteForOwner owner allDone threshold due db)"
| table_write: "maint_step w now db (RecordTableWrite key written dbnow db)"
| clamp: "maint_step w now db (ClampOrphanSchedules owner now' activeSince activeDeadline idleDeadline db)"
| advance: "maint_step w now db (snd (AdvanceSchedule key operation due db))"
| schedule: "maint_step w now db (ScheduleCompactionCheck key due priority db)"
| record_success: "maint_step w now db (snd (RecordStateSuccess key operation ts resetCounters db))"
| record_error: "maint_step w now db (RecordStateError key message db)"
| inventory_claim: "maint_step w now db (snd (claimPendingInventoryState w now lease minimum requireIdle locked db))"
| inventory_finish: "maint_step w now db (snd (FinishInventoryClaim key w snapshotID dbnow db))"
| inventory_retry: "maint_step w now db (snd (RetryInventoryClaim key w retryAt db))"
| inventory_request: "maint_step w now db (snd (RequestInventoryRefresh owner now' force db))"
| table_request: "maint_step w now db (snd (RequestTableInventoryRefresh key owner now' db))"
| inventory_update: "maint_step w now db (UpdateInventory key snapshotID counts dbnow db)"
| inventory_missing: "maint_step w now db (MarkInventoryMissing key dbnow db)"
| reserve: "maint_step w now db (snd (syncMaintenanceReservations digest reg owner submission kind selectors now' db))"
| release: "maint_step w now db (releaseMaintenanceReservations owner submission db)"
| release_except: "maint_step w now db (releaseMaintenanceReservationsExcept reg known db)"
| monitor_create: "maint_step w now db (snd (CreateMonitor i name status payload excluded db))"
| monitor_status: "maint_step w now db (snd (setMonitorStatus i status now' db))"
| monitor_delete: "maint_step w now db (snd (deleteMonitor digest16 i now' db))"
| monitor_exclude: "maint_step w now db (ExcludeMonitorTables owner keys db)"
| monitor_failure: "maint_step w now db (snd (RecordMonitorDiscoveryFailure i message now' db))"
| monitor_discovery: "maint_step w now db (snd (applyMonitorDiscovery i targets known now' db))"

lemmas harmless_ops = state_updates_harmless schedule_updates_harmless inventory_updates_harmless ownership_updates_harmless
  monitor_updates_harmless discovery_harmless

lemma harmless_spares: "harmless db db' \<Longrightarrow> spares w now db db'"
  by (simp add: harmless_def)

lemma harmless_quiets: "harmless db db' \<Longrightarrow> quiets db db'"
  by (simp add: harmless_def)

lemma step_spares: "maint_step w now db db' \<Longrightarrow> spares w now db db'"
  by (cases rule: maint_step.cases, assumption)
    (simp_all add: recover_keeps claim_keeps renew_keeps task_lease_keeps release_lease_keeps enqueue_spares harmless_spares harmless_ops)

section \<open>Tasks\<close>

text \<open>At most one task of a table and operation is queued, waiting for a retry or leased.\<close>

definition one_active_task :: "maint_db \<Rightarrow> bool" where
  "one_active_task db \<longleftrightarrow> distinct (map (\<lambda>t. (tk_table t, tk_operation t)) (filter active_task (md_tasks db)))"

lemma distinct_settled:
  assumes "\<And>t. tk_table (h t) = tk_table t \<and> tk_operation (h t) = tk_operation t \<and> (active_task (h t) \<longrightarrow> active_task t)"
    and "distinct (map (\<lambda>t. (tk_table t, tk_operation t)) (filter active_task ts))"
  shows "distinct (map (\<lambda>t. (tk_table t, tk_operation t)) (filter active_task (map h ts)))"
  using assms(2)
proof (induction ts)
  case (Cons t ts)
  have "(\<lambda>t. (tk_table t, tk_operation t)) ` set (filter active_task (map h ts)) \<subseteq>
      (\<lambda>t. (tk_table t, tk_operation t)) ` set (filter active_task ts)"
    using assms(1) by (auto simp: image_iff)
  then show ?case using Cons assms(1) [of t] by (auto split: if_splits)
qed simp

lemma settled_one_active: "quiets db db' \<Longrightarrow> one_active_task db \<Longrightarrow> one_active_task db'"
  unfolding quiets_def one_active_task_def by (elim exE conjE) (simp add: distinct_settled)

lemma enqueue_one_active:
  "one_active_task db \<Longrightarrow> one_active_task (snd (EnqueueTask digest st operation priority window notBefore payload db))"
  by (auto simp: one_active_task_def EnqueueTask_def Let_def active_task_def)

lemma step_tasks:
  assumes "maint_step w now db db'"
  shows "quiets db db' \<or> (\<exists>digest st operation priority window nb payload.
    db' = snd (EnqueueTask digest st operation priority window nb payload db))"
  using assms
proof (cases rule: maint_step.cases)
  case (enqueue digest st operation priority window notBefore payload)
  then show ?thesis by blast
qed (simp_all add: recover_keeps claim_keeps renew_keeps task_lease_keeps release_lease_keeps harmless_quiets harmless_ops)

lemma step_one_active: "maint_step w now db db' \<Longrightarrow> one_active_task db \<Longrightarrow> one_active_task db'"
  by (drule step_tasks) (auto intro: settled_one_active enqueue_one_active)

section \<open>Claims\<close>

text \<open>A state without its lease: a claim changes nothing else of the states, and no reservation.\<close>

definition unleased :: "maint_state \<Rightarrow> maint_state" where
  "unleased s = s\<lparr>ms_lease_owner := None, ms_lease_until := None\<rparr>"

definition same_owners :: "maint_db \<Rightarrow> maint_db \<Rightarrow> bool" where
  "same_owners db db' \<longleftrightarrow> md_reservations db' = md_reservations db \<and> map unleased (md_states db') = map unleased (md_states db)"

definition task_table :: "maint_db \<Rightarrow> nat \<Rightarrow> string option" where
  "task_table db i = map_option tk_table (tbl_find tk_id i (md_tasks db))"

lemma unleased_simps [simp]: "ms_key (unleased s) = ms_key s" "ms_owner (unleased s) = ms_owner s"
  "unleased (s\<lparr>ms_lease_owner := a, ms_lease_until := b\<rparr>) = unleased s"
  by (simp_all add: unleased_def)

lemma winner_unleased: "winner_at db (unleased s) = winner_at db s"
  by (simp add: winner_at_def matchingMaintenanceReservation_def Matches_def selector_matches_def unleased_def)

lemma find_unleased: "tbl_find ms_key key (map unleased ss) = map_option unleased (tbl_find ms_key key ss)"
  by (induction ss) (auto simp: table_simps)

lemma same_owners_at:
  assumes "same_owners db db'" and "state_at db key = Some s"
  obtains s' where "state_at db' key = Some s'" "ms_owner s' = ms_owner s" "winner_at db' s' = winner_at db s"
proof -
  have "map_option unleased (state_at db' key) = map_option unleased (state_at db key)"
    using assms(1) by (simp add: same_owners_def state_at_def flip: find_unleased)
  then obtain s' where s': "state_at db' key = Some s'" "unleased s' = unleased s" using assms(2) by auto
  have "winner_at db' s' = winner_at db s"
    using assms(1) s'(2) winner_unleased [of db' s'] winner_unleased [of db s]
    by (simp add: same_owners_def winner_at_def loadActiveMaintenanceReservations_def unleased_def)
  moreover have "ms_owner s' = ms_owner s" using s'(2) unleased_simps(2) by metis
  ultimately show ?thesis using that s'(1) by blast
qed

lemma same_owners_refl: "same_owners db db"
  by (simp add: same_owners_def)

lemma same_owners_trans: "same_owners a b \<Longrightarrow> same_owners b c \<Longrightarrow> same_owners a c"
  by (simp add: same_owners_def)

lemma same_owners_tasks [simp]: "same_owners db (upd_tasks P f db') = same_owners db db'"
  by (simp add: same_owners_def upd_tasks_def)

lemma task_table_upd: "(\<And>t. tk_id (f t) = tk_id t \<and> tk_table (f t) = tk_table t) \<Longrightarrow> task_table (upd_tasks P f db) = task_table db"
  by (simp add: fun_eq_iff task_table_def upd_tasks_def tbl_find_update option.map_comp comp_def if_distrib cong: if_cong)

lemma lease_table_owners:
  assumes "lease_table w now key til db = (n, db')"
  shows "same_owners db db'" "task_table db' = task_table db"
proof -
  have "map unleased (tbl_update P (\<lambda>s. s\<lparr>ms_lease_owner := Some w, ms_lease_until := Some til\<rparr>) ss) = map unleased ss" for P ss
    by (simp add: tbl_update_def)
  then show "same_owners db db'" "task_table db' = task_table db"
    using assms by (auto simp: lease_table_def Let_def same_owners_def upd_states_def task_table_def fun_eq_iff)
qed

text \<open>The task belongs to the owner of its table, and the winning reservation of the table, if any, is that owner's.\<close>

definition entitled :: "maint_db \<Rightarrow> maint_task \<Rightarrow> bool" where
  "entitled db t \<longleftrightarrow>
     (case task_table db (tk_id t) of
        None \<Rightarrow> False
      | Some key \<Rightarrow>
          (case state_at db key of
             None \<Rightarrow> False
           | Some st \<Rightarrow> ms_owner st = tk_owner t \<and> winner_owner (winner_at db st) \<in> {[], tk_owner t}))"

lemma entitled_same:
  assumes "same_owners db db'" "task_table db' = task_table db" "entitled db t"
  shows "entitled db' t"
proof -
  obtain key st where "task_table db (tk_id t) = Some key" and st: "state_at db key = Some st"
    and "ms_owner st = tk_owner t" "winner_owner (winner_at db st) \<in> {[], tk_owner t}"
    using assms(3) by (auto simp: entitled_def split: option.splits)
  moreover obtain st' where "state_at db' key = Some st'" "ms_owner st' = ms_owner st" "winner_at db' st' = winner_at db st"
    by (rule same_owners_at [OF assms(1) st])
  ultimately show ?thesis using assms(2) by (simp add: entitled_def)
qed

text \<open>One claim: what it changes, and what a claimed task has been checked for.\<close>

lemma claim_task_owners:
  assumes "claim_task w now til sel db = Inr (c, db')"
  shows "same_owners db db' \<and> task_table db' = task_table db"
proof -
  have upd: "task_table (upd_tasks P cancelled_task d) = task_table d" "task_table (upd_tasks P (leased_task w til) d) = task_table d" for P d
    by (auto intro!: task_table_upd simp: cancelled_task_def leased_task_def)
  obtain cur st where "tbl_find tk_id (tk_id sel) (md_tasks db) = Some cur" "state_at db (tk_table cur) = Some st"
    using assms by (auto simp: claim_task_def split: option.splits)
  then consider "db' = db" | P where "db' = upd_tasks P cancelled_task db"
    | n db1 P where "lease_table w now (tk_table sel) til db = (n, db1)" "db' = upd_tasks P (leased_task w til) db1"
    using assms by (auto simp: claim_task_def Let_def split: if_splits prod.splits)
  then show ?thesis
    by cases (auto simp: same_owners_refl upd dest: lease_table_owners)
qed

lemma claim_task_checked:
  assumes keys: "distinct (map ms_key (md_states db))" and "claim_task w now til sel db = Inr (Some t, db')"
  shows "lease_of db' (tk_table t) = Some (Some w, Some til) \<and> entitled db t"
proof -
  obtain cur st n db1 where cur: "tbl_find tk_id (tk_id sel) (md_tasks db) = Some cur" "state_at db (tk_table cur) = Some st"
    and own: "ms_owner st = tk_owner sel" "winner_owner (winner_at db st) \<in> {[], tk_owner sel}"
    and l: "lease_table w now (tk_table sel) til db = (n, db1)" "n = 1"
    and t: "t = leased_task w til sel" "db' = upd_tasks (\<lambda>t. tk_id t = tk_id sel \<and> waiting t) (leased_task w til) db1"
    using assms(2) by (auto simp: claim_task_def Let_def split: option.splits if_splits prod.splits)
  define P where "P = (\<lambda>s :: maint_state. ms_key s = tk_table sel \<and> expired_before now (ms_lease_until s) \<and> expired_before now (ms_inventory_until s))"
  have m: "tbl_matched P (md_states db) = 1" "db1 = upd_states P (\<lambda>s. s\<lparr>ms_lease_owner := Some w, ms_lease_until := Some til\<rparr>) db"
    using l by (auto simp: lease_table_def Let_def P_def)
  then obtain s where s: "s \<in> set (md_states db)" "P s" using tbl_matched_pos [of P "md_states db"] by auto
  have "state_at db (tk_table sel) = Some s"
    using tbl_find_unique [OF keys s(1)] s(2) by (simp add: state_at_def P_def)
  then have "lease_of db' (tk_table sel) = Some (Some w, Some til)"
    using s(2) unfolding t(2) lease_of_other(1) lease_of_def m(2) by (subst state_at_upd) auto
  then show ?thesis using cur own t(1) by (auto simp: entitled_def task_table_def leased_task_def)
qed

lemma same_owners_keys:
  assumes "same_owners db db'"
  shows "map ms_key (md_states db') = map ms_key (md_states db)"
proof -
  have "map ms_key (md_states db') = map ms_key (map unleased (md_states db'))" by simp
  also have "map unleased (md_states db') = map unleased (md_states db)" using assms by (simp add: same_owners_def)
  also have "map ms_key (map unleased (md_states db)) = map ms_key (md_states db)" by simp
  finally show ?thesis .
qed

lemma claims_keep_lease:
  assumes "claim_selected w now til ts db = Inr (cs, db')" and "now \<le> u" and "lease_of db key = Some (Some v, Some u)"
  shows "lease_of db' key = Some (Some v, Some u)"
proof -
  have "spares (CHR ''x'' # v) now db db'" using claim_selected_keeps [OF assms(1)] by blast
  moreover have "v \<noteq> CHR ''x'' # v" by simp
  ultimately show ?thesis using assms(2,3) unfolding spares_def by blast
qed

lemma claims_checked:
  assumes "claim_selected w now til ts db = Inr (cs, db')" and "distinct (map ms_key (md_states db))" and "now \<le> til"
  shows "same_owners db db' \<and> task_table db' = task_table db \<and>
    (\<forall>t \<in> set cs. lease_of db' (tk_table t) = Some (Some w, Some til) \<and> entitled db' t)"
  using assms(1,2)
proof (induction ts arbitrary: db cs)
  case (Cons sel ts)
  then obtain c db1 cs1 where one: "claim_task w now til sel db = Inr (c, db1)"
    and rest: "claim_selected w now til ts db1 = Inr (cs1, db')" and cs: "cs = (case c of None \<Rightarrow> cs1 | Some t \<Rightarrow> t # cs1)"
    by (auto split: sum.splits prod.splits)
  have same: "same_owners db db1" "task_table db1 = task_table db" using claim_task_owners [OF one] by auto
  note IH = Cons.IH [OF rest, unfolded same_owners_keys [OF same(1)], OF Cons.prems(2)]
  have all: "same_owners db db'" "task_table db' = task_table db" using IH same same_owners_trans by auto
  have "lease_of db' (tk_table t) = Some (Some w, Some til) \<and> entitled db' t" if "c = Some t" for t
    using claim_task_checked [OF Cons.prems(2) one [unfolded that]] claims_keep_lease [OF rest assms(3)] entitled_same [OF all] by blast
  then show ?case using IH all cs by (auto split: option.splits)
qed (simp add: same_owners_refl)

section \<open>Reserved tables\<close>

lemma unscheduled_owner [simp]: "ms_owner (unscheduled s) = ms_owner s"
  by (simp add: unscheduled_def)

lemma put_reservations_states: "md_states (fold (put_reservation digest owner submission kind) ss db) = md_states db"
  by (induction ss arbitrary: db) (simp_all add: put_reservation_def)

lemma reserve_states:
  "md_states (reserve digest owner submission kind ss db) =
     tbl_update (\<lambda>s. \<exists>st \<in> set (md_states db). ms_key st = ms_key s \<and>
         ms_catalog st \<in> set (map sl_catalog ss @ active_catalogs owner db) \<and> maintenanceStateMatchesSelectors st ss \<and> yields_to_job (ms_owner st))
       (taken_over kind owner) (md_states db)"
  unfolding reserve_def Let_def
  by (simp add: cancelMaintenanceTasksForTables_def upd_tasks_def upd_states_def upd_reservations_def put_reservations_states image_iff
      conj_ac Bex_def eq_commute)

lemma reserve_tasks:
  assumes "t \<in> set (md_tasks (reserve digest owner submission kind ss db))" "waiting t" "st \<in> set (md_states db)"
    "ms_catalog st \<in> set (map sl_catalog ss @ active_catalogs owner db)" "maintenanceStateMatchesSelectors st ss" "yields_to_job (ms_owner st)"
  shows "tk_table t \<noteq> ms_key st"
  using assms unfolding reserve_def Let_def cancelMaintenanceTasksForTables_def
  by (auto simp: upd_tasks_def tbl_update_def split: if_splits)

section \<open>Discovered tables\<close>

lemma state_at_other [simp]:
  "state_at (upd_tasks P f db) key = state_at db key" "state_at (upd_targets Q g db) key = state_at db key"
  by (simp_all add: state_at_def upd_tasks_def upd_targets_def)

lemma set_claims_states [simp]: "md_states (set_claims key status cs db) = md_states db"
  unfolding set_claims_def
  by (induction cs arbitrary: db) (auto simp: updateMonitorTargetClaimStatus_def upd_targets_def)

lemma state_at_claims [simp]: "state_at (set_claims key status cs db) k = state_at db k"
  by (simp add: state_at_def)

lemma state_at_handover:
  assumes "\<And>s. ms_key (f s) = ms_key s" and "state_at db key = Some s"
  shows "state_at (cancelQueuedMaintenanceTasksForOwner key owner (at_table key f db)) key = Some (f s)"
  using assms tbl_find_Some_key [of ms_key key "md_states db" s]
  by (simp add: cancelQueuedMaintenanceTasksForOwner_def at_table_def state_at_upd) (simp add: state_at_def)

lemma matching_same_names:
  "ms_catalog s = ms_catalog t \<Longrightarrow> ms_namespace s = ms_namespace t \<Longrightarrow> ms_table s = ms_table t \<Longrightarrow>
   matchingMaintenanceReservation rs s = matchingMaintenanceReservation rs t"
  by (simp add: matchingMaintenanceReservation_def Matches_def selector_matches_def)

lemma owned_by_monitor_names [simp]: "ms_catalog (owned_by_monitor owner due s) = ms_catalog s"
  "ms_namespace (owned_by_monitor owner due s) = ms_namespace s" "ms_table (owned_by_monitor owner due s) = ms_table s"
  by (simp_all add: owned_by_monitor_def split: prod.splits)

lemma winner_is_active:
  "matchingMaintenanceReservation (loadActiveMaintenanceReservations db c) s = Some r \<Longrightarrow> r \<in> set (md_reservations db)"
proof -
  have "fold (\<lambda>r w. if Matches r s then preferredMaintenanceReservation w r else w) rs w = Some r \<Longrightarrow> r \<in> set rs \<or> w = Some r" for rs w
    by (induction rs arbitrary: w) (fastforce simp: preferredMaintenanceReservation_def split: if_splits option.splits)+
  then show "matchingMaintenanceReservation (loadActiveMaintenanceReservations db c) s = Some r \<Longrightarrow> r \<in> set (md_reservations db)"
    by (fastforce simp: matchingMaintenanceReservation_def loadActiveMaintenanceReservations_def)
qed

lemma by_monitor_Some [simp]: "by_monitor (Some s) = has_prefix ''monitor:'' (ms_owner s)" "\<not> by_monitor None"
  by (simp_all add: by_monitor_def)

text \<open>The state a reconciliation leaves, for a table whose monitor holds no live lease.\<close>

lemma reconcile_existing:
  assumes "state_at db key = Some s" "\<not> busy_monitor now (Some s)"
  defines "w \<equiv> matchingMaintenanceReservation (loadActiveMaintenanceReservations db (mt_catalog (hd (target_candidates key db)))) s"
  obtains (same) "state_at (reconcileMonitorTargetOwnership key monitor found now db) key = Some s"
      "has_prefix ''monitor:'' (ms_owner s) \<Longrightarrow> winner_owner w = []"
  | (unmanaged) s' where "state_at (reconcileMonitorTargetOwnership key monitor found now db) key = Some s'" "ms_owner s' = ''unmanaged''"
  | (reserved) s' where "state_at (reconcileMonitorTargetOwnership key monitor found now db) key = Some s'" "ms_owner s' = rv_owner (the w)"
      "winner_owner w \<noteq> []"
  | (monitored) owner due where
      "state_at (reconcileMonitorTargetOwnership key monitor found now db) key = Some (owned_by_monitor owner due s)" "winner_owner w = []"
proof -
  note eqn = reconcileMonitorTargetOwnership_def Let_def assms(1,2) w_def [symmetric]
  show thesis
  proof (cases "target_candidates key db = []")
    case True
    then show thesis
      using unmanaged same by (cases "by_monitor (Some s)") (auto simp: eqn state_at_handover)
  next
    case cs: False
    show thesis
    proof (cases "winner_owner w = []")
      case True
      let ?owner = "MaintenanceMonitorOwnerID (mt_monitor (chosen_monitor (target_candidates key db) (Some (ms_owner s))))"
      consider "\<not> by_monitor (Some s) \<and> ms_owner_type s \<notin> {''unmanaged'', ''stream-excluded'', ''deleted-monitor''}"
        | "\<not> (\<not> by_monitor (Some s) \<and> ms_owner_type s \<notin> {''unmanaged'', ''stream-excluded'', ''deleted-monitor''})" "ms_owner s = ?owner"
        | "\<not> (\<not> by_monitor (Some s) \<and> ms_owner_type s \<notin> {''unmanaged'', ''stream-excluded'', ''deleted-monitor''})" "ms_owner s \<noteq> ?owner"
        by blast
      then show thesis
        using cs True same by cases (simp_all add: eqn, auto intro!: monitored simp: eqn state_at_handover)
    next
      case w: False
      then show thesis
        using cs same reserved by (cases "by_monitor (Some s)") (auto simp: eqn state_at_handover)
    qed
  qed
qed

lemma reconcile_fresh:
  assumes "state_at db key = None" and "state_at (reconcileMonitorTargetOwnership key monitor found now db) key = Some s'"
  shows "winner_owner (matchingMaintenanceReservation
     (loadActiveMaintenanceReservations db (mt_catalog (hd (target_candidates key db)))) s') = []"
proof -
  let ?c = "hd (target_candidates key db)"
  have none: "\<not> busy_monitor now None" by (simp add: busy_monitor_def)
  let ?owned = "owned_by_monitor (MaintenanceMonitorOwnerID (mt_monitor ?c)) (due_times key (mt_monitor ?c) found monitor now)"
  have "s' = ?owned (fresh_state key ?c now)" and
    w: "winner_owner (matchingMaintenanceReservation (loadActiveMaintenanceReservations db (mt_catalog ?c)) (fresh_state key ?c now)) = []"
    using assms none unfolding reconcileMonitorTargetOwnership_def Let_def
    by (auto simp: chosen_monitor_def state_at_def tbl_find_append table_simps split: if_splits)
  then show ?thesis using w matching_same_names [of s' "fresh_state key ?c now"] by simp
qed

section \<open>A sample database\<close>

definition sample_target :: monitor_target where
  "sample_target = \<lparr>mt_monitor = ''m'', mt_key = ''k'', mt_catalog = ''c'', mt_namespace = ''n'', mt_table = ''t'',
     mt_specificity = 1, mt_claim = MaintenanceMonitorTargetConflicted, mt_created = 0\<rparr>"

definition sample_task :: "nat \<Rightarrow> string \<Rightarrow> maint_task" where
  "sample_task i operation = \<lparr>tk_id = i, tk_idempotency = operation, tk_table = ''k'', tk_owner = ''monitor:m'', tk_operation = operation,
     tk_priority = 1, tk_status = MaintenanceTaskQueued, tk_lease_owner = None, tk_lease_until = None, tk_attempts = 0,
     tk_not_before = 0, tk_window = [], tk_payload = [], tk_error = None\<rparr>"

definition sample_state :: "string option \<Rightarrow> int option \<Rightarrow> maint_state" where
  "sample_state w u = (fresh_state ''k'' sample_target 0)\<lparr>ms_owner_type := ''monitor'', ms_owner := ''monitor:m'', ms_complete := True,
     ms_lease_owner := w, ms_lease_until := u\<rparr>"

definition sample_maint :: "maint_state list \<Rightarrow> maint_task list \<Rightarrow> maint_db" where
  "sample_maint ss ts = \<lparr>md_states = ss, md_tasks = ts, md_reservations = [],
     md_monitors = [\<lparr>mo_id = ''m'', mo_name = ''m'', mo_status = MaintenanceMonitorActive, mo_config = [], mo_excluded = 0,
       mo_discovered = None, mo_attempted = None, mo_error = None\<rparr>],
     md_targets = [sample_target], md_serial = 5\<rparr>"

lemmas sample_maint_defs = sample_maint_def sample_state_def sample_task_def sample_target_def fresh_state_def

text \<open>Two tasks of one table in one page of a claim end the whole claim, although each could be claimed alone.\<close>

lemma two_tasks_of_a_table_end_the_claim:
  "fst (ClaimTasks ''w'' 5 1 2 (sample_maint [sample_state None None] [sample_task 1 ''a'', sample_task 2 ''b''])) =
     Inl ''maintenance table k was lost while claiming''"
  "\<exists>t. fst (ClaimTasks ''w'' 5 1 1 (sample_maint [sample_state None None] [sample_task 1 ''a'', sample_task 2 ''b''])) = Inr [t]"
  by code_simp (rule exI [of _ "leased_task ''w'' 6 (sample_task 1 ''a'')"], code_simp)

text \<open>A claim of one operation never meets two tasks of a table, but a renewal revives a lease that ran out, beside an inventory scan.\<close>

lemma late_renewal_overlaps_inventory:
  fixes v :: string
  defines "db \<equiv> sample_maint [sample_state (Some ''w'') (Some 2)] [leased_task ''w'' 2 (sample_task 1 ''a'')]"
  defines "scanned \<equiv> snd (ClaimPendingInventoryStateForMaintenance ''v'' 5 3 0 (\<lambda>_. False) db)"
  defines "renewed \<equiv> snd (RenewTaskAndTableLease 1 ''k'' ''w'' 9 scanned)"
  shows "map (\<lambda>s. (ms_lease_owner s, ms_lease_until s, ms_inventory_owner s, ms_inventory_until s)) (md_states renewed) =
     [(Some ''w'', Some 9, Some ''v'', Some 8)]"
  unfolding renewed_def scanned_def db_def by code_simp

section \<open>What the operations keep\<close>

text \<open>
  C15: A table that a worker has leased, and whose lease has not run out, keeps that lease whatever another worker does:
  no claim, renewal, recovery, reservation, monitor or schedule operation of another worker takes or shortens it.
\<close>
theorem maintenance_lease_exclusive:
  assumes "maint_step w' now db db'" and "w \<noteq> w'" and "now \<le> u" and "lease_of db key = Some (Some w, Some u)"
  shows "lease_of db' key = Some (Some w, Some u)"
  using step_spares [OF assms(1)] assms(2-4) unfolding spares_def by blast

theorem maintenance_lease_exclusive_witness:
  "lease_of (snd (claimTasksOwnershipSafe ''b'' 1 1 [sample_task 1 ''a'']
     (sample_maint [sample_state (Some ''w'') (Some 2)] [sample_task 1 ''a'']))) ''k'' = Some (Some ''w'', Some 2)"
  by (rule maintenance_lease_exclusive [OF maint_step.claim]) (simp_all, code_simp)

inductive maint_reachable :: "maint_db \<Rightarrow> bool" where
  empty_queue: "md_tasks db = [] \<Longrightarrow> maint_reachable db"
| next_step: "maint_reachable db \<Longrightarrow> maint_step w now db db' \<Longrightarrow> maint_reachable db'"

text \<open>
  C37: In every run of the maintenance store that starts with an empty queue, a table has at most one task of an operation
  that is queued, waiting for a retry or leased, whatever the workers, monitors and jobs do.
\<close>
theorem one_task_per_operation:
  assumes "maint_reachable db"
  shows "one_active_task db"
  using assms by induction (auto simp: step_one_active, simp add: one_active_task_def)

theorem one_task_per_operation_witness:
  "one_active_task (snd (EnqueueTask (\<lambda>k. k) (sample_state None None) ''a'' 1 ''w'' 3 [] (sample_maint [sample_state None None] [])))"
  by (rule one_task_per_operation [OF maint_reachable.next_step [OF maint_reachable.empty_queue maint_step.enqueue]])
    (simp add: sample_maint_def)

text \<open>
  C16: Whatever a claim selected without a lock, each task it returns is committed with the lease of its table given to
  the worker until the end of the lease, and belongs to the owner of its table, whose winning reservation is that owner's or none.
\<close>
theorem claims_respect_reservations:
  assumes "claimTasksOwnershipSafe w now lease selected db = (Inr cs, db')" and "distinct (map ms_key (md_states db))" and "t \<in> set cs"
  shows "entitled db' t \<and> lease_of db' (tk_table t) = Some (Some w, Some (now + (if lease \<le> 0 then defaultMaintenanceLease else lease)))"
proof -
  let ?til = "now + (if lease \<le> 0 then defaultMaintenanceLease else lease)"
  have "claim_selected w now ?til selected db = Inr (cs, db')"
    using assms(1) by (auto simp: claimTasksOwnershipSafe_def Let_def split: sum.splits prod.splits)
  then show ?thesis using claims_checked [of w now ?til selected db cs db'] assms(2,3) by auto
qed

theorem claims_respect_reservations_witness:
  "entitled (snd (claimTasksOwnershipSafe ''w'' 5 1 [sample_task 1 ''a''] (sample_maint [sample_state None None] [sample_task 1 ''a''])))
     (leased_task ''w'' 6 (sample_task 1 ''a''))"
proof -
  let ?db = "sample_maint [sample_state None None] [sample_task 1 ''a'']"
  have "claimTasksOwnershipSafe ''w'' 5 1 [sample_task 1 ''a''] ?db =
      (Inr [leased_task ''w'' 6 (sample_task 1 ''a'')], snd (claimTasksOwnershipSafe ''w'' 5 1 [sample_task 1 ''a''] ?db))"
    by code_simp
  moreover have "distinct (map ms_key (md_states ?db))" by code_simp
  ultimately show ?thesis using claims_respect_reservations by fastforce
qed

text \<open>
  C38: A reservation that is accepted takes every matching table of a monitor, or of nobody, for its job. The row of such a
  table ends with the job as its owner, under the kind of the reservation, not complete, at no priority and with no inventory,
  compaction, expiry or orphan cleanup scheduled, while its names, its lease and what was measured of it are kept; none of its
  waiting tasks is left; and its lease was not live unless the job itself was the owner.
\<close>
theorem reservation_takes_over:
  assumes "syncMaintenanceReservations digest reg owner submission kind selectors now db = (None, db')"
    and "normalizeMaintenanceReservationSelectors selectors = Inr ss" and "sel \<in> set ss"
    and "s \<in> set (md_states db)" and "ms_catalog s = sl_catalog sel" and "selector_matches sel s"
    and "ms_owner s = ''unmanaged'' \<or> ms_owner s = ''stream-excluded'' \<or> has_prefix ''monitor:'' (ms_owner s)"
  shows "(\<exists>s' \<in> set (md_states db'). ms_key s' = ms_key s \<and> ms_owner s' = trim_space owner \<and>
        ms_owner_type s' = to_lower (trim_space kind) \<and> \<not> ms_complete s' \<and> ms_inventory_priority s' = 0 \<and>
        ms_next_inventory s' = None \<and> ms_next_compaction s' = None \<and> ms_next_expire s' = None \<and> ms_next_orphan s' = None \<and>
        (ms_catalog s', ms_namespace s', ms_table s') = (ms_catalog s, ms_namespace s, ms_table s) \<and>
        (ms_lease_owner s', ms_lease_until s', ms_inventory s') = (ms_lease_owner s, ms_lease_until s, ms_inventory s)) \<and>
     (\<forall>t \<in> set (md_tasks db'). (tk_status t = MaintenanceTaskQueued \<or> tk_status t = MaintenanceTaskRetry) \<longrightarrow> tk_table t \<noteq> ms_key s) \<and>
     (\<forall>u. ms_lease_until s = Some u \<and> now < u \<longrightarrow> ms_owner s = trim_space owner)"
proof -
  have free: "busy_table (trim_space owner) ss now db = None"
    and db': "db' = reserve digest (trim_space owner) (trim_space submission) (to_lower (trim_space kind)) ss db"
    using assms(1,2) by (auto simp: syncMaintenanceReservations_def Let_def split: if_splits option.splits)
  have y: "yields_to_job (ms_owner s)" using assms(7) by (auto simp: yields_to_job_def)
  have m: "ms_catalog s \<in> set (map sl_catalog ss @ active_catalogs (trim_space owner) db)" "maintenanceStateMatchesSelectors s ss"
    using assms(3,5,6) by (auto simp: maintenanceStateMatchesSelectors_def list_ex_iff)
  let ?s = "taken_over (to_lower (trim_space kind)) (trim_space owner) s"
  have row: "?s \<in> set (md_states db')"
    unfolding db' reserve_states tbl_update_def using m assms(4) y by (force simp: image_iff)
  have "leased_after now s \<longrightarrow> ms_owner s = trim_space owner"
    using free assms(3-6) by (auto simp: busy_table_def find_None_iff)
  then have "\<forall>u. ms_lease_until s = Some u \<and> now < u \<longrightarrow> ms_owner s = trim_space owner"
    by (auto simp: leased_after_def)
  moreover have "\<forall>t \<in> set (md_tasks db'). (tk_status t = MaintenanceTaskQueued \<or> tk_status t = MaintenanceTaskRetry) \<longrightarrow> tk_table t \<noteq> ms_key s"
    using reserve_tasks m assms(4) y unfolding db' waiting_def by blast
  moreover have "ms_key ?s = ms_key s \<and> ms_owner ?s = trim_space owner \<and> ms_owner_type ?s = to_lower (trim_space kind) \<and>
      \<not> ms_complete ?s \<and> ms_inventory_priority ?s = 0 \<and> ms_next_inventory ?s = None \<and> ms_next_compaction ?s = None \<and>
      ms_next_expire ?s = None \<and> ms_next_orphan ?s = None \<and>
      (ms_catalog ?s, ms_namespace ?s, ms_table ?s) = (ms_catalog s, ms_namespace s, ms_table s) \<and>
      (ms_lease_owner ?s, ms_lease_until ?s, ms_inventory ?s) = (ms_lease_owner s, ms_lease_until s, ms_inventory s)"
    by (simp add: taken_over_def unscheduled_def)
  ultimately show ?thesis using row by blast
qed

theorem reservation_takes_over_witness:
  "\<exists>s' \<in> set (md_states (snd (syncMaintenanceReservations (\<lambda>k. k) (sample_db [sample_row ''j'' DesiredStateRunning None None ''RUNNING''])
       ''j'' ''s1'' ''streaming'' [\<lparr>sl_catalog = ''c'', sl_namespace = ''n'', sl_table = ''*''\<rparr>] 5
       (sample_maint [sample_state None None] [sample_task 1 ''a''])))).
     ms_key s' = ''k'' \<and> ms_owner s' = ''j'' \<and> ms_next_compaction s' = None"
proof -
  let ?sel = "\<lparr>sl_catalog = ''c'', sl_namespace = ''n'', sl_table = ''*''\<rparr>"
  let ?reg = "sample_db [sample_row ''j'' DesiredStateRunning None None ''RUNNING'']"
  let ?db = "sample_maint [sample_state None None] [sample_task 1 ''a'']"
  let ?sync = "syncMaintenanceReservations (\<lambda>k. k) ?reg ''j'' ''s1'' ''streaming'' [?sel] 5 ?db"
  have kind: "trim_space ''j'' = ''j''" "ms_key (sample_state None None) = ''k''" by code_simp+
  have "fst ?sync = None" by code_simp
  then have run: "?sync = (None, snd ?sync)" by (metis prod.collapse)
  have norm: "normalizeMaintenanceReservationSelectors [?sel] = Inr [?sel]" by code_simp
  have row: "sample_state None None \<in> set (md_states ?db)" by (simp add: sample_maint_def)
  have match: "ms_catalog (sample_state None None) = sl_catalog ?sel" "selector_matches ?sel (sample_state None None)"
    "ms_owner (sample_state None None) = ''unmanaged'' \<or> ms_owner (sample_state None None) = ''stream-excluded'' \<or>
     has_prefix ''monitor:'' (ms_owner (sample_state None None))" by code_simp+
  show ?thesis using reservation_takes_over [OF run norm _ row match] unfolding kind by fastforce
qed

text \<open>
  C39: When a monitor's discovery quiets who maintains a table, the table ends with a monitor only if a monitor's live lease
  had to be waited for, or if no active reservation matches it: a table a job has reserved is not given to a monitor.
\<close>
theorem reserved_table_not_monitored:
  assumes "state_at (reconcileMonitorTargetOwnership key monitor found now db) key = Some s'"
    and "has_prefix ''monitor:'' (ms_owner s')"
    and "\<forall>r \<in> set (md_reservations db). \<not> has_prefix ''monitor:'' (rv_owner r)"
  shows "busy_monitor now (state_at db key) \<or>
     winner_owner (matchingMaintenanceReservation (loadActiveMaintenanceReservations db (mt_catalog (hd (target_candidates key db)))) s') = []"
proof (cases "state_at db key")
  case None
  then show ?thesis using reconcile_fresh assms(1) by blast
next
  case (Some s)
  show ?thesis
  proof (cases "busy_monitor now (Some s)")
    case False
    note settle = assms(1) [unfolded Some]
    show ?thesis
    proof (rule reconcile_existing [OF Some False, of monitor found])
      assume "state_at (reconcileMonitorTargetOwnership key monitor found now db) key = Some s" and
        "has_prefix ''monitor:'' (ms_owner s) \<Longrightarrow> winner_owner (matchingMaintenanceReservation
           (loadActiveMaintenanceReservations db (mt_catalog (hd (target_candidates key db)))) s) = []"
      then show ?thesis using assms(1,2) by simp
    next
      fix u assume "state_at (reconcileMonitorTargetOwnership key monitor found now db) key = Some u" "ms_owner u = ''unmanaged''"
      then show ?thesis using assms(1,2) by (simp add: has_prefix_def)
    next
      fix u assume u: "state_at (reconcileMonitorTargetOwnership key monitor found now db) key = Some u"
        "ms_owner u = rv_owner (the (matchingMaintenanceReservation
           (loadActiveMaintenanceReservations db (mt_catalog (hd (target_candidates key db)))) s))"
        "winner_owner (matchingMaintenanceReservation
           (loadActiveMaintenanceReservations db (mt_catalog (hd (target_candidates key db)))) s) \<noteq> []"
      then obtain r where "matchingMaintenanceReservation
           (loadActiveMaintenanceReservations db (mt_catalog (hd (target_candidates key db)))) s = Some r"
        by (auto simp: winner_owner_def split: option.splits)
      then show ?thesis using winner_is_active u(1,2) assms by fastforce
    next
      fix owner due
      assume "state_at (reconcileMonitorTargetOwnership key monitor found now db) key = Some (owned_by_monitor owner due s)"
        "winner_owner (matchingMaintenanceReservation
           (loadActiveMaintenanceReservations db (mt_catalog (hd (target_candidates key db)))) s) = []"
      then show ?thesis using assms(1) matching_same_names [of s' s] by simp
    qed
  qed (simp add: Some)
qed

theorem reserved_table_not_monitored_witness:
  "busy_monitor 5 (state_at (sample_maint [] []) ''k'') \<or>
   winner_owner (matchingMaintenanceReservation (loadActiveMaintenanceReservations (sample_maint [] [])
     (mt_catalog (hd (target_candidates ''k'' (sample_maint [] [])))))
     (hd (md_states (reconcileMonitorTargetOwnership ''k'' ''m'' [] 5 (sample_maint [] []))))) = []"
proof (rule reserved_table_not_monitored)
  show "state_at (reconcileMonitorTargetOwnership ''k'' ''m'' [] 5 (sample_maint [] [])) ''k'' =
      Some (hd (md_states (reconcileMonitorTargetOwnership ''k'' ''m'' [] 5 (sample_maint [] []))))" by code_simp
  show "has_prefix ''monitor:'' (ms_owner (hd (md_states (reconcileMonitorTargetOwnership ''k'' ''m'' [] 5 (sample_maint [] [])))))"
    by code_simp
qed (simp add: sample_maint_def)

end
