(* ===== verification/Spec2Isabelle.thy ===== *)
theory Spec2Isabelle
  imports Rivus_Prelude Binlog Config_Model Meta_Db Job_Registry Offset_Store Worker_Fence Retry
    Reconciliation Commit_Guard Job_Progress Graph_Builder Job_Preflight Job_Lifecycle
    Rebuild_Config Job_Rebuild Lease_Protocol Manager_State Job_Manager Manager_Runtime Control_Plane Job_Alerts
    Event_Model MySQL_Tables MySQL_Snapshot MySQL_Pages MySQL_CDC
    Iceberg_Schema Iceberg_Rows Iceberg_Values Iceberg_Targets Iceberg_Sink Iceberg_Flush
    Doris_Schema Doris_Batch Doris_Sink
    Maintenance_Store Maintenance_Inventory Maintenance_Ownership Maintenance_Monitor Maintenance_Runs
begin

text \<open>
  Rivus copies MySQL tables into Apache Iceberg and Apache Doris: a job reads a consistent snapshot of its tables,
  follows the binlog behind it, and writes both to a sink. Several processes share the work over a metadata database.
  This development models the Go code under \<open>src/pkg\<close> that decides what is copied, when it counts as copied, and
  who may do it. This theory imports all others.

  \<^bold>\<open>The parts and how they meet.\<close> An API or master process takes requests on jobs (\<open>Control_Plane\<close>), admits them
  (\<open>Rebuild_Config\<close>, \<open>Job_Rebuild\<close>) and keeps them in the job registry (\<open>Job_Registry\<close>). A worker process claims jobs
  from the registry under leases, renews them and shuts down in order (\<open>Manager_Runtime\<close>); its manager holds the
  tables, the snapshot slots and their queue (\<open>Manager_State\<close>, \<open>Job_Manager\<close>). A claimed job checks its targets
  (\<open>Job_Preflight\<close>) and starts a source and a sink, connected by a channel of events (\<open>Job_Lifecycle\<close>,
  \<open>Event_Model\<close>). The source sends a snapshot page by page (\<open>MySQL_Tables\<close>, \<open>MySQL_Snapshot\<close>, \<open>MySQL_Pages\<close>) and then
  rows, statements and checkpoints of the binlog (\<open>MySQL_CDC\<close>, \<open>Binlog\<close>). The sink collects and writes them and saves the
  checkpoint behind what it wrote: into Iceberg (\<open>Iceberg_Sink\<close> and its parts), where every commit passes the
  guard (\<open>Commit_Guard\<close>) and is reconciled after a crash (\<open>Reconciliation\<close>), or into Doris (\<open>Doris_Sink\<close> and its parts).
  Checkpoints and commit intents live in the metadata database (\<open>Meta_Db\<close>, \<open>Offset_Store\<close>), and each write to
  them is fenced by the job's lease (\<open>Worker_Fence\<close>). Beside the copying, maintenance workers compact and clean the Iceberg
  tables: their store (\<open>Maintenance_Store\<close> and its parts) queues tasks, leases tables, and settles whether a job or a
  monitor maintains a table. What a job reports is kept and shown by \<open>Job_Progress\<close>,
  \<open>Graph_Builder\<close> and \<open>Job_Alerts\<close>.

  \<^bold>\<open>Theories and sources.\<close> Definitions carry the names of the Go functions they translate, with the receiver left out;
  lower-case names with underscores are parts of a function, or helpers.

  \<^item> \<open>Rivus_Prelude\<close>: the standard library functions on text and numbers, tables as lists, shared lemmas; \<open>Retry\<close>:
    \<open>util/retry.go\<close>; \<open>Config_Model\<close>: \<open>config/job_config.go\<close>, \<open>connector_spec_maintenance.go\<close>.
  \<^item> \<open>Binlog\<close>: \<open>model/types.go\<close> and the coordinates in \<open>core/job.go\<close>; \<open>Event_Model\<close>: \<open>model/types.go\<close>,
    \<open>schemachange/mysql.go\<close>.
  \<^item> \<open>Meta_Db\<close>, \<open>Job_Registry\<close>, \<open>Lease_Protocol\<close>: \<open>meta/job_store.go\<close>, \<open>job_control.go\<close>, \<open>job_presentation.go\<close>;
    \<open>Offset_Store\<close>: \<open>meta/store.go\<close>, \<open>iceberg_commit_store.go\<close>, \<open>connector/offset.go\<close>, \<open>snapshot.go\<close>; \<open>Worker_Fence\<close>:
    \<open>meta/worker_fence.go\<close>, \<open>scoped_rebuild_start.go\<close>; \<open>Job_Rebuild\<close>: \<open>meta/job_rebuild.go\<close>, \<open>job_native_rebuild.go\<close>;
    \<open>Rebuild_Config\<close>: \<open>config/iceberg_rebuild.go\<close>, \<open>iceberg_scoped_rebuild.go\<close>.
  \<^item> \<open>Job_Progress\<close>, \<open>Job_Preflight\<close>, \<open>Job_Lifecycle\<close>: \<open>core/job.go\<close> with \<open>job_health.go\<close>, \<open>job_name.go\<close>,
    \<open>metakey.go\<close>; \<open>Graph_Builder\<close>: \<open>core/graph_builder.go\<close>; \<open>Manager_State\<close>, \<open>Job_Manager\<close>, \<open>Manager_Runtime\<close>:
    \<open>core/manager.go\<close>, \<open>worker_runtime.go\<close>; \<open>Control_Plane\<close>: \<open>core/control_plane.go\<close>, \<open>fresh_snapshot_recovery.go\<close>;
    \<open>Job_Alerts\<close>: \<open>core/job_failure_notifier.go\<close>, \<open>job_health_notifier.go\<close>.
  \<^item> \<open>MySQL_Tables\<close>, \<open>MySQL_Snapshot\<close>, \<open>MySQL_Pages\<close>, \<open>MySQL_CDC\<close>: \<open>connectors/mysql/source.go\<close>, \<open>register.go\<close>.
  \<^item> \<open>Iceberg_Schema\<close>, \<open>Iceberg_Rows\<close>, \<open>Iceberg_Values\<close>, \<open>Iceberg_Targets\<close>, \<open>Iceberg_Sink\<close>, \<open>Iceberg_Flush\<close>:
    \<open>connectors/iceberg/sink.go\<close>, \<open>schema.go\<close>, \<open>arrow.go\<close>, \<open>snapshot_spool.go\<close>; \<open>Commit_Guard\<close>, \<open>Reconciliation\<close>:
    \<open>commit_guard.go\<close>, \<open>automatic_recovery.go\<close>, \<open>reconciliation.go\<close>.
  \<^item> \<open>Doris_Schema\<close>, \<open>Doris_Batch\<close>, \<open>Doris_Sink\<close>: \<open>connectors/doris/sink.go\<close>, \<open>schema_reconcile.go\<close>,
    \<open>ddl_translator.go\<close>, \<open>text_norm.go\<close>.
  \<^item> \<open>Maintenance_Store\<close>, \<open>Maintenance_Inventory\<close>: \<open>meta/maintenance_store.go\<close>, \<open>maintenance_operation_claim.go\<close>;
    \<open>Maintenance_Ownership\<close>: \<open>meta/maintenance_ownership.go\<close>; \<open>Maintenance_Monitor\<close>: \<open>meta/maintenance_monitor_store.go\<close>,
    \<open>maintenance_monitor_target_store.go\<close>; \<open>Maintenance_Runs\<close>: all their operations as one step relation.

  \<^bold>\<open>How the code is modelled.\<close> A struct is a record and a tagged string an abbreviation of its text. A method that holds
  a mutex, and a SQL transaction, is one function on the state it protects. What a method leaves to a goroutine is an
  operation of its own, and code that runs concurrently (\<open>Job_Lifecycle\<close>) a step relation. Errors are values: \<open>go_error\<close>
  is a text with the tags that \<open>errors.Is\<close> asks for. A Go map is a list of entries in the order of the iteration at hand,
  and where the result must not depend on the order a lemma says so. Integers that may overflow are taken at
  their width (binlog positions, durations, values of columns). Libraries and services are arguments: JSON, YAML, SHA-256,
  the SQL parser, the canal library, the Iceberg catalog, Trino, the HTTP client, clocks. Their calls are numbered, so
  that every one of them may answer differently, and fail.

  \<^bold>\<open>What the lemmas show.\<close>

  \<^item> \<^emph>\<open>One worker at a time.\<close> \<open>Job_Registry\<close> and \<open>Lease_Protocol\<close>: a claim never takes a live lease, the registry
    refines an abstract machine of leases in which holders exclude each other, and a stop is not undone by a worker.
    \<open>Worker_Fence\<close>: no write of a worker that lost its lease takes effect. \<open>Manager_State\<close>, \<open>Manager_Runtime\<close>: the
    manager writes only jobs it holds, and its shutdown leaves them wanted.
  \<^item> \<^emph>\<open>Nothing is lost.\<close> \<open>MySQL_Pages\<close>: the pages of a snapshot cover the rows of a table once. \<open>MySQL_Snapshot\<close>: CDC
    starts behind a confirmed snapshot. \<open>MySQL_CDC\<close>: the binlog reaches the channel in order. \<open>Iceberg_Sink\<close>,
    \<open>Doris_Sink\<close>: the saved checkpoint lies behind events that have all been written, whatever fails.
  \<^item> \<^emph>\<open>What is written is what was meant.\<close> \<open>Iceberg_Rows\<close>, \<open>Iceberg_Flush\<close>: a flush with its retries leaves the table
    its events describe. \<open>Doris_Batch\<close>: a prepared batch has the effect of its events, and its lines are read back as they
    were written. \<open>Iceberg_Values\<close>, \<open>Iceberg_Schema\<close>, \<open>Doris_Schema\<close>: columns and values keep what they are.
  \<^item> \<^emph>\<open>Commits with an unknown outcome.\<close> \<open>Commit_Guard\<close>, \<open>Reconciliation\<close>, \<open>Offset_Store\<close>: an intent is durable before
    the catalog is called, it is settled by positive evidence only, a replay skips exactly the events of proven
    commits, and unresolved intents block the reset of the state they protect.
  \<^item> \<^emph>\<open>Requests.\<close> \<open>Job_Manager\<close>, \<open>Control_Plane\<close>, \<open>Job_Rebuild\<close>, \<open>Rebuild_Config\<close>, \<open>Job_Preflight\<close>: a refused request
    changes nothing, the slot limit holds, a rebuild archives what it discards, names its scope, and clears targets last.
  \<^item> \<^emph>\<open>The life of a run.\<close> \<open>Job_Lifecycle\<close>: a run comes to its end, and a paused one has drained. \<open>Job_Progress\<close>,
    \<open>Graph_Builder\<close>, \<open>Job_Alerts\<close>: reports do not overwrite each other, the graph is well formed, alerts follow incidents.
  \<^item> \<^emph>\<open>Maintenance.\<close> \<open>Maintenance_Runs\<close>: a leased table is left alone, a table has one active task of an operation, claims
    and monitors respect the reservations of jobs, and a reservation takes its tables over.

  \<^bold>\<open>Interfaces.\<close> \<open>keyed_store\<close> (Go maps), \<open>row_writer\<close> (statements that write registry rows), \<open>intent_log\<close> and
  \<open>commit_store\<close> (the store of intents, plain and fenced, as the guard uses it), \<open>sink_relation\<close> (what every operation of the
  Iceberg sink keeps to) are locales, each interpreted on the model's own definitions.

  \<^bold>\<open>Loops.\<close> A loop that may run forever is a partial function, and its result \<open>None\<close> when it does: \<open>retry_loop\<close>,
  \<open>sink_retry\<close>, \<open>retry_run\<close>, \<open>snapshot_loop\<close>; \<open>Retry\<close> says exactly when the first returns. \<open>startQueuedSnapshotJobs\<close>
  takes as many rounds as the queue is long, which serves it to the end. The search for a free column name in
  \<open>Doris_Schema\<close> takes two rounds more than there are names in use, which always finds one. A stream load follows three
  redirects, as in the code. Polls, ticks and events are lists of what comes next; their end is the deadline or the
  closed channel.

  \<^bold>\<open>Not modelled.\<close> The maintenance workers above the store (\<open>connectors/iceberg/maintenance_*.go\<close>, \<open>table_maintenance.go\<close>): the
  planning and rewriting of data files. Work on Parquet and Arrow files (\<open>equality_delete.go\<close>, \<open>scoped_snapshot.go\<close>,
  \<open>scoped_native_snapshot.go\<close>, the page cache of the spool), which is the library's; a spool and the deletes of a commit
  are lists of rows here, and a Trino delete takes away the rows whose key cells are equal. The metadata columns of
  \<open>metadata.go\<close>. The snapshot source of Doris. The HTTP API, Prometheus counters, log files, process entry, and the
  clients of MySQL, Trino, the catalog and Telegram: input and output. Texts of errors and logs are kept where the code
  depends on them, and shortened elsewhere.
\<close>

end
